(* ===== verification/Ledger_Prelude.thy ===== *)
theory Ledger_Prelude
  imports Main "HOL-Library.AList" "HOL-Library.Char_ord" "HOL-Library.List_Lexorder"
begin

text \<open>
  Shared vocabulary of the development: the collections the components register their facts in,
  the checks-in-order combinator that models a sequence of guarded \<open>throw\<close> statements, the
  truthiness tests of the source language on strings, and the list and association-list lemmas
  that the component theories use.

  A JavaScript \<open>Map\<close> is an association list: \<open>AList.update\<close> replaces the value of a key that is
  present in place and appends a new key at the end, which is the iteration order of \<open>Map.set\<close>.
  A \<open>bigint\<close> is an \<open>int\<close>; an instant is its number of milliseconds, an \<open>int\<close>.
\<close>

named_theorems enum_complete \<open>every value of an enumeration is listed\<close>
named_theorems algebra_simps_tables \<open>the tables of the economic algebra\<close>
named_theorems policy_defs \<open>the steps of the semantic policy\<close>
named_theorems fold_sums \<open>loops over events as sums\<close>

section \<open>Errors in the order the code throws them\<close>

text \<open>
  A validator is a list of guarded throws. The model lists the outcome of every guard in source
  order (\<open>Some e\<close> when the guard throws \<open>e\<close>); the first one that throws is what the caller sees.
\<close>

fun first_error :: "'e option list \<Rightarrow> 'e option" where
  "first_error [] = None"
| "first_error (None # xs) = first_error xs"
| "first_error (Some e # xs) = Some e"

definition throw_if :: "bool \<Rightarrow> 'e \<Rightarrow> 'e option" where
  "throw_if c e = (if c then Some e else None)"

definition throw_any :: "('a \<Rightarrow> 'e option) \<Rightarrow> 'a list \<Rightarrow> 'e option" where
  "throw_any f xs = first_error (map f xs)"

lemma first_error_None_iff: "first_error xs = None \<longleftrightarrow> (\<forall>x\<in>set xs. x = None)"
  by (induction xs rule: first_error.induct) auto

lemma first_error_Cons: "first_error (x # xs) = (case x of None \<Rightarrow> first_error xs | Some e \<Rightarrow> Some e)"
  by (cases x) auto

lemma throw_if_None [simp]: "throw_if c e = None \<longleftrightarrow> \<not> c"
  by (simp add: throw_if_def)

lemma throw_any_None: "throw_any f xs = None \<longleftrightarrow> (\<forall>x\<in>set xs. f x = None)"
  by (simp add: throw_any_def first_error_None_iff)

lemma throw_any_Some: "throw_any f xs = Some e \<Longrightarrow> \<exists>x\<in>set xs. f x = Some e"
proof (induction xs)
  case Nil
  then show ?case by (simp add: throw_any_def)
next
  case (Cons x xs)
  then show ?case
    by (cases "f x") (auto simp: throw_any_def)
qed

text \<open>Sequencing of fallible computations: the value of the first goes on, an error stops.\<close>

definition ebind :: "'e + 'a \<Rightarrow> ('a \<Rightarrow> 'e + 'b) \<Rightarrow> 'e + 'b" where
  "ebind m f = (case m of Inl e \<Rightarrow> Inl e | Inr a \<Rightarrow> f a)"

definition check :: "'e option \<Rightarrow> 'e + unit" where
  "check c = (case c of None \<Rightarrow> Inr () | Some e \<Rightarrow> Inl e)"

fun emap :: "('a \<Rightarrow> 'e + 'b) \<Rightarrow> 'a list \<Rightarrow> 'e + 'b list" where
  "emap f [] = Inr []"
| "emap f (x # xs) = ebind (f x) (\<lambda>y. ebind (emap f xs) (\<lambda>ys. Inr (y # ys)))"

lemma ebind_simps [simp]: "ebind (Inl e) f = Inl e" "ebind (Inr a) f = f a"
  by (simp_all add: ebind_def)

lemma ebind_Inr: "ebind m f = Inr b \<longleftrightarrow> (\<exists>a. m = Inr a \<and> f a = Inr b)"
  by (cases m) auto

lemma ebind_Inl: "ebind m f = Inl e \<longleftrightarrow> m = Inl e \<or> (\<exists>a. m = Inr a \<and> f a = Inl e)"
  by (cases m) auto

lemma check_simps [simp]: "check None = Inr ()" "check (Some e) = Inl e"
  by (simp_all add: check_def)

lemma check_Inr [simp]: "check c = Inr u \<longleftrightarrow> c = None"
  by (cases c) (auto simp: check_def)

lemma check_Inl [simp]: "check c = Inl e \<longleftrightarrow> c = Some e"
  by (cases c) (auto simp: check_def)

lemma emap_Inr: "emap f xs = Inr ys \<longleftrightarrow> list_all2 (\<lambda>x y. f x = Inr y) xs ys"
  by (induction xs arbitrary: ys) (auto simp: ebind_Inr list_all2_Cons1)

lemma emap_total: "(\<And>x. x \<in> set xs \<Longrightarrow> f x = Inr (g x)) \<Longrightarrow> emap f xs = Inr (map g xs)"
  by (induction xs) auto

section \<open>Strings as the source tests them\<close>

text \<open>An optional string is truthy when it is present and not empty.\<close>

definition truthy :: "string option \<Rightarrow> bool" where
  "truthy s = (case s of None \<Rightarrow> False | Some t \<Rightarrow> t \<noteq> [])"

lemma truthy_simps [simp]: "\<not> truthy None" "truthy (Some s) \<longleftrightarrow> s \<noteq> []"
  by (simp_all add: truthy_def)

lemma truthyE: "truthy s \<Longrightarrow> (\<And>t. s = Some t \<Longrightarrow> t \<noteq> [] \<Longrightarrow> P) \<Longrightarrow> P"
  by (cases s) auto

text \<open>The white space of a text; a text is its UTF-8 bytes, so the spaces beyond ASCII are left out.\<close>

definition is_space :: "char \<Rightarrow> bool" where
  "is_space c \<longleftrightarrow> c \<in> set [CHR '' '', CHR 0x09, CHR 0x0A, CHR 0x0B, CHR 0x0C, CHR 0x0D]"

definition trim :: "string \<Rightarrow> string" where
  "trim s = rev (dropWhile is_space (rev (dropWhile is_space s)))"

lemma trim_eq_Nil: "trim s = [] \<longleftrightarrow> (\<forall>c\<in>set s. is_space c)"
  by (auto simp: trim_def dropWhile_eq_Nil_conv dest: set_dropWhileD)
     (metis dropWhile_eq_self_iff hd_in_set rev.simps(1) set_rev dropWhile_eq_Nil_conv hd_dropWhile list.set_sel(1))

text \<open>
  The lower case of an ASCII letter: the codes of the letters are \<open>0x40 + n\<close> for \<open>n\<close> from 1 to 26 and
  bit 5 makes the case.
\<close>

primrec lower_char :: "char \<Rightarrow> char" where
  "lower_char (Char b0 b1 b2 b3 b4 b5 b6 b7) =
     (let letter = \<not> b7 \<and> b6 \<and> (b0 \<or> b1 \<or> b2 \<or> b3 \<or> b4) \<and> \<not> (b4 \<and> b3 \<and> (b2 \<or> b1 \<and> b0))
      in Char b0 b1 b2 b3 b4 (b5 \<or> letter) b6 b7)"

lemma lower_alphabet:
  "map lower_char ''ABCDEFGHIJKLMNOPQRSTUVWXYZ'' = ''abcdefghijklmnopqrstuvwxyz''"
  by simp

definition is_lower :: "char \<Rightarrow> bool" where
  "is_lower c \<longleftrightarrow> CHR ''a'' \<le> c \<and> c \<le> CHR ''z''"

section \<open>Enumerations with string values\<close>

text \<open>
  A TypeScript string enumeration is a finite list of members, each with its value. The interface
  says the list is complete and that reading a value back gives its member; from it follow
  injectivity and the meaning of the membership test \<open>new Set(Object.values(E)).has(s)\<close>.
\<close>

locale string_enum =
  fixes value_of :: "'a \<Rightarrow> string"
    and members :: "'a list"
    and read :: "string \<Rightarrow> 'a option"
  assumes complete: "t \<in> set members"
    and read_value: "read (value_of t) = Some t"
    and read_find: "read s = find (\<lambda>t. value_of t = s) members"
begin

lemma value_inject: "value_of a = value_of b \<longleftrightarrow> a = b"
  by (metis option.inject read_value)

lemma inj_value: "inj value_of"
  by (rule injI) (simp add: value_inject)

lemma read_Some: "read s = Some t \<longleftrightarrow> s = value_of t"
  by (metis (mono_tags, lifting) find_Some_iff read_find read_value)

lemma has_value: "s \<in> set (map value_of members) \<longleftrightarrow> read s \<noteq> None"
  using complete by (auto simp: read_Some)

end

section \<open>Association lists and loops\<close>

lemma map_of_update: "map_of (AList.update k v al) = (map_of al)(k \<mapsto> v)"
  by (rule update_conv')

lemma filter_snoc: "filter P (xs @ [x]) = filter P xs @ (if P x then [x] else [])"
  by simp

lemma sum_list_filter_if:
  "sum_list (map f (filter P xs)) = sum_list (map (\<lambda>x. if P x then f x else 0) xs)"
  for f :: "'a \<Rightarrow> int"
  by (induction xs) auto

lemma sum_list_nonneg_int: "(\<And>x. x \<in> set xs \<Longrightarrow> 0 \<le> f x) \<Longrightarrow> 0 \<le> sum_list (map f xs)"
  for f :: "'a \<Rightarrow> int"
  by (induction xs) auto

lemma find_None_filter: "find P xs = None \<longleftrightarrow> filter P xs = []"
  by (induction xs) auto

lemma find_SomeD: "find P xs = Some x \<Longrightarrow> x \<in> set xs \<and> P x"
  by (induction xs) (auto split: if_splits)

lemma list_ex_Bex: "list_ex P xs \<longleftrightarrow> (\<exists>x\<in>set xs. P x)"
  by (induction xs) auto

end
