(* ===== verification/Ledger_Enums.thy ===== *)
theory Ledger_Enums
  imports Ledger_Prelude
begin

text \<open>
  The published vocabulary of the ledger: \<open>core/domain/enums\<close> and \<open>RejectionType\<close>. Every
  enumeration is a datatype with the source's members, the function giving the string value of a
  member, the list \<open>Object.values(E)\<close> in declaration order and the reading of a string back into
  a member. Each one interprets the interface \<open>string_enum\<close>, from which the injectivity of the
  values and the meaning of the membership tests follow. Members are written as in the source,
  \<open>EventType.TAX_PAYMENT\<close>.
\<close>

subsection \<open>EventType\<close>

datatype EventType =
    PAYROLL_PAYMENT
  | INFRASTRUCTURE_EXPENSE
  | COMMISSION_RECEIVED
  | COMMISSION_SPLIT
  | COMMISSION_WAIVER
  | PENALTY_PAYMENT
  | ADVANCE_PAYMENT
  | ADVANCE_SETTLEMENT
  | LOAN_ORIGINATION
  | LOAN_REPAYMENT
  | DIRECT_PAYMENT_ACKNOWLEDGED
  | INCENTIVE_PAYMENT
  | LEDGER_CORRECTION
  | COMMISSION_EXPECTED
  | OUTBOUND_PAYMENT
  | SERVICE_FEE_PAYMENT
  | TAX_PAYMENT
  | OBLIGATION_RECOGNIZED

fun eventType_value :: "EventType \<Rightarrow> string" where
  "eventType_value EventType.PAYROLL_PAYMENT = ''payroll_payment''"
| "eventType_value EventType.INFRASTRUCTURE_EXPENSE = ''infrastructure_expense''"
| "eventType_value EventType.COMMISSION_RECEIVED = ''commission_received''"
| "eventType_value EventType.COMMISSION_SPLIT = ''commission_split''"
| "eventType_value EventType.COMMISSION_WAIVER = ''commission_waiver''"
| "eventType_value EventType.PENALTY_PAYMENT = ''penalty_payment''"
| "eventType_value EventType.ADVANCE_PAYMENT = ''advance_payment''"
| "eventType_value EventType.ADVANCE_SETTLEMENT = ''advance_settlement''"
| "eventType_value EventType.LOAN_ORIGINATION = ''loan_origination''"
| "eventType_value EventType.LOAN_REPAYMENT = ''loan_repayment''"
| "eventType_value EventType.DIRECT_PAYMENT_ACKNOWLEDGED = ''direct_payment_acknowledged''"
| "eventType_value EventType.INCENTIVE_PAYMENT = ''incentive_payment''"
| "eventType_value EventType.LEDGER_CORRECTION = ''ledger_correction''"
| "eventType_value EventType.COMMISSION_EXPECTED = ''commission_expected''"
| "eventType_value EventType.OUTBOUND_PAYMENT = ''outbound_payment''"
| "eventType_value EventType.SERVICE_FEE_PAYMENT = ''service_fee_payment''"
| "eventType_value EventType.TAX_PAYMENT = ''tax_payment''"
| "eventType_value EventType.OBLIGATION_RECOGNIZED = ''obligation_recognized''"

definition eventType_values :: "EventType list" where
  "eventType_values =
    [EventType.PAYROLL_PAYMENT,
     EventType.INFRASTRUCTURE_EXPENSE,
     EventType.COMMISSION_RECEIVED,
     EventType.COMMISSION_SPLIT,
     EventType.COMMISSION_WAIVER,
     EventType.PENALTY_PAYMENT,
     EventType.ADVANCE_PAYMENT,
     EventType.ADVANCE_SETTLEMENT,
     EventType.LOAN_ORIGINATION,
     EventType.LOAN_REPAYMENT,
     EventType.DIRECT_PAYMENT_ACKNOWLEDGED,
     EventType.INCENTIVE_PAYMENT,
     EventType.LEDGER_CORRECTION,
     EventType.COMMISSION_EXPECTED,
     EventType.OUTBOUND_PAYMENT,
     EventType.SERVICE_FEE_PAYMENT,
     EventType.TAX_PAYMENT,
     EventType.OBLIGATION_RECOGNIZED]"

definition eventType_of :: "string \<Rightarrow> EventType option" where
  "eventType_of s = find (\<lambda>t. eventType_value t = s) eventType_values"

lemma eventType_values_complete [enum_complete]: "t \<in> set eventType_values"
  by (cases t) (simp_all add: eventType_values_def)

lemma eventType_of_value [simp]: "eventType_of (eventType_value t) = Some t"
  by (cases t) (simp_all add: eventType_of_def eventType_values_def)

interpretation eventType: string_enum eventType_value eventType_values eventType_of
  by unfold_locales (simp_all add: eventType_values_complete flip: eventType_of_def)

subsection \<open>EconomicEffect\<close>

datatype EconomicEffect =
    CASH_IN
  | CASH_OUT
  | CASH_INTERNAL
  | NON_CASH
  | CONTINGENT

fun economicEffect_value :: "EconomicEffect \<Rightarrow> string" where
  "economicEffect_value EconomicEffect.CASH_IN = ''cash_in''"
| "economicEffect_value EconomicEffect.CASH_OUT = ''cash_out''"
| "economicEffect_value EconomicEffect.CASH_INTERNAL = ''cash_internal''"
| "economicEffect_value EconomicEffect.NON_CASH = ''non_cash''"
| "economicEffect_value EconomicEffect.CONTINGENT = ''contingent''"

definition economicEffect_values :: "EconomicEffect list" where
  "economicEffect_values =
    [EconomicEffect.CASH_IN,
     EconomicEffect.CASH_OUT,
     EconomicEffect.CASH_INTERNAL,
     EconomicEffect.NON_CASH,
     EconomicEffect.CONTINGENT]"

definition economicEffect_of :: "string \<Rightarrow> EconomicEffect option" where
  "economicEffect_of s = find (\<lambda>t. economicEffect_value t = s) economicEffect_values"

lemma economicEffect_values_complete [enum_complete]: "t \<in> set economicEffect_values"
  by (cases t) (simp_all add: economicEffect_values_def)

lemma economicEffect_of_value [simp]: "economicEffect_of (economicEffect_value t) = Some t"
  by (cases t) (simp_all add: economicEffect_of_def economicEffect_values_def)

interpretation economicEffect: string_enum economicEffect_value economicEffect_values economicEffect_of
  by unfold_locales (simp_all add: economicEffect_values_complete flip: economicEffect_of_def)

subsection \<open>Direction\<close>

datatype Direction =
    IN
  | OUT
  | NEUTRAL

fun direction_value :: "Direction \<Rightarrow> string" where
  "direction_value Direction.IN = ''in''"
| "direction_value Direction.OUT = ''out''"
| "direction_value Direction.NEUTRAL = ''neutral''"

definition direction_values :: "Direction list" where
  "direction_values =
    [Direction.IN,
     Direction.OUT,
     Direction.NEUTRAL]"

definition direction_of :: "string \<Rightarrow> Direction option" where
  "direction_of s = find (\<lambda>t. direction_value t = s) direction_values"

lemma direction_values_complete [enum_complete]: "t \<in> set direction_values"
  by (cases t) (simp_all add: direction_values_def)

lemma direction_of_value [simp]: "direction_of (direction_value t) = Some t"
  by (cases t) (simp_all add: direction_of_def direction_values_def)

interpretation direction: string_enum direction_value direction_values direction_of
  by unfold_locales (simp_all add: direction_values_complete flip: direction_of_def)

subsection \<open>Relation\<close>

datatype Relation =
    ORIGINATES
  | ADJUSTS
  | SETTLES
  | REVERSES
  | REFERENCES
  | RETRACTS

fun relation_value :: "Relation \<Rightarrow> string" where
  "relation_value Relation.ORIGINATES = ''originates''"
| "relation_value Relation.ADJUSTS = ''adjusts''"
| "relation_value Relation.SETTLES = ''settles''"
| "relation_value Relation.REVERSES = ''reverses''"
| "relation_value Relation.REFERENCES = ''references''"
| "relation_value Relation.RETRACTS = ''retracts''"

definition relation_values :: "Relation list" where
  "relation_values =
    [Relation.ORIGINATES,
     Relation.ADJUSTS,
     Relation.SETTLES,
     Relation.REVERSES,
     Relation.REFERENCES,
     Relation.RETRACTS]"

definition relation_of :: "string \<Rightarrow> Relation option" where
  "relation_of s = find (\<lambda>t. relation_value t = s) relation_values"

lemma relation_values_complete [enum_complete]: "t \<in> set relation_values"
  by (cases t) (simp_all add: relation_values_def)

lemma relation_of_value [simp]: "relation_of (relation_value t) = Some t"
  by (cases t) (simp_all add: relation_of_def relation_values_def)

interpretation relation: string_enum relation_value relation_values relation_of
  by unfold_locales (simp_all add: relation_values_complete flip: relation_of_def)

subsection \<open>ObjectNature\<close>

datatype ObjectNature =
    POSITIONAL
  | CONTEXTUAL

fun objectNature_value :: "ObjectNature \<Rightarrow> string" where
  "objectNature_value ObjectNature.POSITIONAL = ''positional''"
| "objectNature_value ObjectNature.CONTEXTUAL = ''contextual''"

definition objectNature_values :: "ObjectNature list" where
  "objectNature_values =
    [ObjectNature.POSITIONAL,
     ObjectNature.CONTEXTUAL]"

definition objectNature_of :: "string \<Rightarrow> ObjectNature option" where
  "objectNature_of s = find (\<lambda>t. objectNature_value t = s) objectNature_values"

lemma objectNature_values_complete [enum_complete]: "t \<in> set objectNature_values"
  by (cases t) (simp_all add: objectNature_values_def)

lemma objectNature_of_value [simp]: "objectNature_of (objectNature_value t) = Some t"
  by (cases t) (simp_all add: objectNature_of_def objectNature_values_def)

interpretation objectNature: string_enum objectNature_value objectNature_values objectNature_of
  by unfold_locales (simp_all add: objectNature_values_complete flip: objectNature_of_def)

subsection \<open>ObjectType\<close>

datatype ObjectType =
    COMMISSION_ENTITLEMENT
  | COMMISSION_POOL
  | COMMISSION_RECEIVABLE
  | COMMISSION_PAYABLE
  | LOAN
  | ADVANCE
  | RECEIVABLE
  | PAYABLE
  | CONTRACT
  | PROPOSAL
  | INSTALLMENT
  | SETTLEMENT_BATCH
  | PENALTY
  | CHARGEBACK
  | CONTINGENT_CLAIM
  | DISPUTE
  | INCENTIVE
  | CAMPAIGN
  | BONUS
  | PAYROLL
  | SERVICE_FEE
  | INFRASTRUCTURE_COST
  | TAX

fun objectType_value :: "ObjectType \<Rightarrow> string" where
  "objectType_value ObjectType.COMMISSION_ENTITLEMENT = ''commission_entitlement''"
| "objectType_value ObjectType.COMMISSION_POOL = ''commission_pool''"
| "objectType_value ObjectType.COMMISSION_RECEIVABLE = ''commission_receivable''"
| "objectType_value ObjectType.COMMISSION_PAYABLE = ''commission_payable''"
| "objectType_value ObjectType.LOAN = ''loan''"
| "objectType_value ObjectType.ADVANCE = ''advance''"
| "objectType_value ObjectType.RECEIVABLE = ''receivable''"
| "objectType_value ObjectType.PAYABLE = ''payable''"
| "objectType_value ObjectType.CONTRACT = ''contract''"
| "objectType_value ObjectType.PROPOSAL = ''proposal''"
| "objectType_value ObjectType.INSTALLMENT = ''installment''"
| "objectType_value ObjectType.SETTLEMENT_BATCH = ''settlement_batch''"
| "objectType_value ObjectType.PENALTY = ''penalty''"
| "objectType_value ObjectType.CHARGEBACK = ''chargeback''"
| "objectType_value ObjectType.CONTINGENT_CLAIM = ''contingent_claim''"
| "objectType_value ObjectType.DISPUTE = ''dispute''"
| "objectType_value ObjectType.INCENTIVE = ''incentive''"
| "objectType_value ObjectType.CAMPAIGN = ''campaign''"
| "objectType_value ObjectType.BONUS = ''bonus''"
| "objectType_value ObjectType.PAYROLL = ''payroll''"
| "objectType_value ObjectType.SERVICE_FEE = ''service_fee''"
| "objectType_value ObjectType.INFRASTRUCTURE_COST = ''infrastructure_cost''"
| "objectType_value ObjectType.TAX = ''tax''"

definition objectType_values :: "ObjectType list" where
  "objectType_values =
    [ObjectType.COMMISSION_ENTITLEMENT,
     ObjectType.COMMISSION_POOL,
     ObjectType.COMMISSION_RECEIVABLE,
     ObjectType.COMMISSION_PAYABLE,
     ObjectType.LOAN,
     ObjectType.ADVANCE,
     ObjectType.RECEIVABLE,
     ObjectType.PAYABLE,
     ObjectType.CONTRACT,
     ObjectType.PROPOSAL,
     ObjectType.INSTALLMENT,
     ObjectType.SETTLEMENT_BATCH,
     ObjectType.PENALTY,
     ObjectType.CHARGEBACK,
     ObjectType.CONTINGENT_CLAIM,
     ObjectType.DISPUTE,
     ObjectType.INCENTIVE,
     ObjectType.CAMPAIGN,
     ObjectType.BONUS,
     ObjectType.PAYROLL,
     ObjectType.SERVICE_FEE,
     ObjectType.INFRASTRUCTURE_COST,
     ObjectType.TAX]"

definition objectType_of :: "string \<Rightarrow> ObjectType option" where
  "objectType_of s = find (\<lambda>t. objectType_value t = s) objectType_values"

lemma objectType_values_complete [enum_complete]: "t \<in> set objectType_values"
  by (cases t) (simp_all add: objectType_values_def)

lemma objectType_of_value [simp]: "objectType_of (objectType_value t) = Some t"
  by (cases t) (simp_all add: objectType_of_def objectType_values_def)

interpretation objectType: string_enum objectType_value objectType_values objectType_of
  by unfold_locales (simp_all add: objectType_values_complete flip: objectType_of_def)

subsection \<open>PartyRole\<close>

datatype PartyRole =
    PAYER
  | PAYEE
  | INTERMEDIARY
  | BENEFICIARY
  | PLATFORM

fun partyRole_value :: "PartyRole \<Rightarrow> string" where
  "partyRole_value PartyRole.PAYER = ''payer''"
| "partyRole_value PartyRole.PAYEE = ''payee''"
| "partyRole_value PartyRole.INTERMEDIARY = ''intermediary''"
| "partyRole_value PartyRole.BENEFICIARY = ''beneficiary''"
| "partyRole_value PartyRole.PLATFORM = ''platform''"

definition partyRole_values :: "PartyRole list" where
  "partyRole_values =
    [PartyRole.PAYER,
     PartyRole.PAYEE,
     PartyRole.INTERMEDIARY,
     PartyRole.BENEFICIARY,
     PartyRole.PLATFORM]"

definition partyRole_of :: "string \<Rightarrow> PartyRole option" where
  "partyRole_of s = find (\<lambda>t. partyRole_value t = s) partyRole_values"

lemma partyRole_values_complete [enum_complete]: "t \<in> set partyRole_values"
  by (cases t) (simp_all add: partyRole_values_def)

lemma partyRole_of_value [simp]: "partyRole_of (partyRole_value t) = Some t"
  by (cases t) (simp_all add: partyRole_of_def partyRole_values_def)

interpretation partyRole: string_enum partyRole_value partyRole_values partyRole_of
  by unfold_locales (simp_all add: partyRole_values_complete flip: partyRole_of_def)

subsection \<open>PartyStatus\<close>

datatype PartyStatus =
    ACTIVE
  | INACTIVE
  | BLOCKED

fun partyStatus_value :: "PartyStatus \<Rightarrow> string" where
  "partyStatus_value PartyStatus.ACTIVE = ''active''"
| "partyStatus_value PartyStatus.INACTIVE = ''inactive''"
| "partyStatus_value PartyStatus.BLOCKED = ''blocked''"

definition partyStatus_values :: "PartyStatus list" where
  "partyStatus_values =
    [PartyStatus.ACTIVE,
     PartyStatus.INACTIVE,
     PartyStatus.BLOCKED]"

definition partyStatus_of :: "string \<Rightarrow> PartyStatus option" where
  "partyStatus_of s = find (\<lambda>t. partyStatus_value t = s) partyStatus_values"

lemma partyStatus_values_complete [enum_complete]: "t \<in> set partyStatus_values"
  by (cases t) (simp_all add: partyStatus_values_def)

lemma partyStatus_of_value [simp]: "partyStatus_of (partyStatus_value t) = Some t"
  by (cases t) (simp_all add: partyStatus_of_def partyStatus_values_def)

interpretation partyStatus: string_enum partyStatus_value partyStatus_values partyStatus_of
  by unfold_locales (simp_all add: partyStatus_values_complete flip: partyStatus_of_def)

subsection \<open>PartyType\<close>

datatype PartyType =
    COMPANY
  | CLIENT
  | SUPPLIER
  | BANK
  | GATEWAY

fun partyType_value :: "PartyType \<Rightarrow> string" where
  "partyType_value PartyType.COMPANY = ''company''"
| "partyType_value PartyType.CLIENT = ''client''"
| "partyType_value PartyType.SUPPLIER = ''supplier''"
| "partyType_value PartyType.BANK = ''bank''"
| "partyType_value PartyType.GATEWAY = ''gateway''"

definition partyType_values :: "PartyType list" where
  "partyType_values =
    [PartyType.COMPANY,
     PartyType.CLIENT,
     PartyType.SUPPLIER,
     PartyType.BANK,
     PartyType.GATEWAY]"

definition partyType_of :: "string \<Rightarrow> PartyType option" where
  "partyType_of s = find (\<lambda>t. partyType_value t = s) partyType_values"

lemma partyType_values_complete [enum_complete]: "t \<in> set partyType_values"
  by (cases t) (simp_all add: partyType_values_def)

lemma partyType_of_value [simp]: "partyType_of (partyType_value t) = Some t"
  by (cases t) (simp_all add: partyType_of_def partyType_values_def)

interpretation partyType: string_enum partyType_value partyType_values partyType_of
  by unfold_locales (simp_all add: partyType_values_complete flip: partyType_of_def)

subsection \<open>ReasonType\<close>

datatype ReasonType =
    COMMISSION_PAYMENT
  | COMMISSION_ACCRUAL
  | DIRECT_COMMISSION_PAYMENT_AUTHORIZED
  | COMMISSION_SPLIT
  | LATE_IDENTIFIED_COMMISSION
  | COMMISSION_WAIVER
  | LOAN_ORIGINATION
  | LOAN_REPAYMENT
  | LOAN_REPAYMENT_VIA_COMMISSION
  | ADVANCE_PAYMENT
  | DEBT_RESTRUCTURING
  | PENALTY_PAYMENT
  | PENALTY_RECOGNITION
  | CHARGEBACK
  | DISPUTE_OPENED
  | LOSS_RECOGNITION
  | LATE_AWARENESS
  | MANUAL_CORRECTION
  | DATA_RECONCILIATION
  | UNKNOWN_ORIGIN
  | PAYROLL_PAYMENT
  | INFRASTRUCTURE_EXPENSE
  | THIRD_PARTY_PAYMENT
  | TAX_PAYMENT
  | SERVICE_FEE_PAYMENT
  | INCENTIVE_PAYMENT
  | OBLIGATION_RECOGNITION
  | ORDINARY_SETTLEMENT

fun reasonType_value :: "ReasonType \<Rightarrow> string" where
  "reasonType_value ReasonType.COMMISSION_PAYMENT = ''commission_payment''"
| "reasonType_value ReasonType.COMMISSION_ACCRUAL = ''commission_accrual''"
| "reasonType_value ReasonType.DIRECT_COMMISSION_PAYMENT_AUTHORIZED = ''direct_commission_payment_authorized''"
| "reasonType_value ReasonType.COMMISSION_SPLIT = ''commission_split''"
| "reasonType_value ReasonType.LATE_IDENTIFIED_COMMISSION = ''late_identified_commission''"
| "reasonType_value ReasonType.COMMISSION_WAIVER = ''commission_waiver''"
| "reasonType_value ReasonType.LOAN_ORIGINATION = ''loan_origination''"
| "reasonType_value ReasonType.LOAN_REPAYMENT = ''loan_repayment''"
| "reasonType_value ReasonType.LOAN_REPAYMENT_VIA_COMMISSION = ''loan_repayment_via_commission''"
| "reasonType_value ReasonType.ADVANCE_PAYMENT = ''advance_payment''"
| "reasonType_value ReasonType.DEBT_RESTRUCTURING = ''debt_restructuring''"
| "reasonType_value ReasonType.PENALTY_PAYMENT = ''penalty_payment''"
| "reasonType_value ReasonType.PENALTY_RECOGNITION = ''penalty_recognition''"
| "reasonType_value ReasonType.CHARGEBACK = ''chargeback''"
| "reasonType_value ReasonType.DISPUTE_OPENED = ''dispute_opened''"
| "reasonType_value ReasonType.LOSS_RECOGNITION = ''loss_recognition''"
| "reasonType_value ReasonType.LATE_AWARENESS = ''late_awareness''"
| "reasonType_value ReasonType.MANUAL_CORRECTION = ''manual_correction''"
| "reasonType_value ReasonType.DATA_RECONCILIATION = ''data_reconciliation''"
| "reasonType_value ReasonType.UNKNOWN_ORIGIN = ''unknown_origin''"
| "reasonType_value ReasonType.PAYROLL_PAYMENT = ''payroll_payment''"
| "reasonType_value ReasonType.INFRASTRUCTURE_EXPENSE = ''infrastructure_expense''"
| "reasonType_value ReasonType.THIRD_PARTY_PAYMENT = ''third_party_payment''"
| "reasonType_value ReasonType.TAX_PAYMENT = ''tax_payment''"
| "reasonType_value ReasonType.SERVICE_FEE_PAYMENT = ''service_fee_payment''"
| "reasonType_value ReasonType.INCENTIVE_PAYMENT = ''incentive_payment''"
| "reasonType_value ReasonType.OBLIGATION_RECOGNITION = ''obligation_recognition''"
| "reasonType_value ReasonType.ORDINARY_SETTLEMENT = ''ordinary_settlement''"

definition reasonType_values :: "ReasonType list" where
  "reasonType_values =
    [ReasonType.COMMISSION_PAYMENT,
     ReasonType.COMMISSION_ACCRUAL,
     ReasonType.DIRECT_COMMISSION_PAYMENT_AUTHORIZED,
     ReasonType.COMMISSION_SPLIT,
     ReasonType.LATE_IDENTIFIED_COMMISSION,
     ReasonType.COMMISSION_WAIVER,
     ReasonType.LOAN_ORIGINATION,
     ReasonType.LOAN_REPAYMENT,
     ReasonType.LOAN_REPAYMENT_VIA_COMMISSION,
     ReasonType.ADVANCE_PAYMENT,
     ReasonType.DEBT_RESTRUCTURING,
     ReasonType.PENALTY_PAYMENT,
     ReasonType.PENALTY_RECOGNITION,
     ReasonType.CHARGEBACK,
     ReasonType.DISPUTE_OPENED,
     ReasonType.LOSS_RECOGNITION,
     ReasonType.LATE_AWARENESS,
     ReasonType.MANUAL_CORRECTION,
     ReasonType.DATA_RECONCILIATION,
     ReasonType.UNKNOWN_ORIGIN,
     ReasonType.PAYROLL_PAYMENT,
     ReasonType.INFRASTRUCTURE_EXPENSE,
     ReasonType.THIRD_PARTY_PAYMENT,
     ReasonType.TAX_PAYMENT,
     ReasonType.SERVICE_FEE_PAYMENT,
     ReasonType.INCENTIVE_PAYMENT,
     ReasonType.OBLIGATION_RECOGNITION,
     ReasonType.ORDINARY_SETTLEMENT]"

definition reasonType_of :: "string \<Rightarrow> ReasonType option" where
  "reasonType_of s = find (\<lambda>t. reasonType_value t = s) reasonType_values"

lemma reasonType_values_complete [enum_complete]: "t \<in> set reasonType_values"
  by (cases t) (simp_all add: reasonType_values_def)

lemma reasonType_of_value [simp]: "reasonType_of (reasonType_value t) = Some t"
  by (cases t) (simp_all add: reasonType_of_def reasonType_values_def)

interpretation reasonType: string_enum reasonType_value reasonType_values reasonType_of
  by unfold_locales (simp_all add: reasonType_values_complete flip: reasonType_of_def)

subsection \<open>ReporterType\<close>

datatype ReporterType =
    SYSTEM
  | USER
  | INTEGRATION

fun reporterType_value :: "ReporterType \<Rightarrow> string" where
  "reporterType_value ReporterType.SYSTEM = ''system''"
| "reporterType_value ReporterType.USER = ''user''"
| "reporterType_value ReporterType.INTEGRATION = ''integration''"

definition reporterType_values :: "ReporterType list" where
  "reporterType_values =
    [ReporterType.SYSTEM,
     ReporterType.USER,
     ReporterType.INTEGRATION]"

definition reporterType_of :: "string \<Rightarrow> ReporterType option" where
  "reporterType_of s = find (\<lambda>t. reporterType_value t = s) reporterType_values"

lemma reporterType_values_complete [enum_complete]: "t \<in> set reporterType_values"
  by (cases t) (simp_all add: reporterType_values_def)

lemma reporterType_of_value [simp]: "reporterType_of (reporterType_value t) = Some t"
  by (cases t) (simp_all add: reporterType_of_def reporterType_values_def)

interpretation reporterType: string_enum reporterType_value reporterType_values reporterType_of
  by unfold_locales (simp_all add: reporterType_values_complete flip: reporterType_of_def)

subsection \<open>ConfidenceLevel\<close>

datatype ConfidenceLevel =
    HIGH
  | MEDIUM
  | LOW

fun confidenceLevel_value :: "ConfidenceLevel \<Rightarrow> string" where
  "confidenceLevel_value ConfidenceLevel.HIGH = ''high''"
| "confidenceLevel_value ConfidenceLevel.MEDIUM = ''medium''"
| "confidenceLevel_value ConfidenceLevel.LOW = ''low''"

definition confidenceLevel_values :: "ConfidenceLevel list" where
  "confidenceLevel_values =
    [ConfidenceLevel.HIGH,
     ConfidenceLevel.MEDIUM,
     ConfidenceLevel.LOW]"

definition confidenceLevel_of :: "string \<Rightarrow> ConfidenceLevel option" where
  "confidenceLevel_of s = find (\<lambda>t. confidenceLevel_value t = s) confidenceLevel_values"

lemma confidenceLevel_values_complete [enum_complete]: "t \<in> set confidenceLevel_values"
  by (cases t) (simp_all add: confidenceLevel_values_def)

lemma confidenceLevel_of_value [simp]: "confidenceLevel_of (confidenceLevel_value t) = Some t"
  by (cases t) (simp_all add: confidenceLevel_of_def confidenceLevel_values_def)

interpretation confidenceLevel: string_enum confidenceLevel_value confidenceLevel_values confidenceLevel_of
  by unfold_locales (simp_all add: confidenceLevel_values_complete flip: confidenceLevel_of_def)

subsection \<open>RejectionType\<close>

datatype RejectionType =
    INVALID_AMOUNT
  | MISSING_PARTY
  | DUPLICATE_EVENT
  | INVALID_SCHEMA
  | POLICY_VIOLATION

fun rejectionType_value :: "RejectionType \<Rightarrow> string" where
  "rejectionType_value RejectionType.INVALID_AMOUNT = ''INVALID_AMOUNT''"
| "rejectionType_value RejectionType.MISSING_PARTY = ''MISSING_PARTY''"
| "rejectionType_value RejectionType.DUPLICATE_EVENT = ''DUPLICATE_EVENT''"
| "rejectionType_value RejectionType.INVALID_SCHEMA = ''INVALID_SCHEMA''"
| "rejectionType_value RejectionType.POLICY_VIOLATION = ''POLICY_VIOLATION''"

definition rejectionType_values :: "RejectionType list" where
  "rejectionType_values =
    [RejectionType.INVALID_AMOUNT,
     RejectionType.MISSING_PARTY,
     RejectionType.DUPLICATE_EVENT,
     RejectionType.INVALID_SCHEMA,
     RejectionType.POLICY_VIOLATION]"

definition rejectionType_of :: "string \<Rightarrow> RejectionType option" where
  "rejectionType_of s = find (\<lambda>t. rejectionType_value t = s) rejectionType_values"

lemma rejectionType_values_complete [enum_complete]: "t \<in> set rejectionType_values"
  by (cases t) (simp_all add: rejectionType_values_def)

lemma rejectionType_of_value [simp]: "rejectionType_of (rejectionType_value t) = Some t"
  by (cases t) (simp_all add: rejectionType_of_def rejectionType_values_def)

interpretation rejectionType: string_enum rejectionType_value rejectionType_values rejectionType_of
  by unfold_locales (simp_all add: rejectionType_values_complete flip: rejectionType_of_def)

subsection \<open>The order on object types\<close>

text \<open>
  The read paths settle a position named with several object types by the greatest value in the
  order of the strings (\<open>t > max\<close>), so the type is ordered by its values.
\<close>

instantiation ObjectType :: linorder
begin

definition less_eq_ObjectType :: "ObjectType \<Rightarrow> ObjectType \<Rightarrow> bool" where
  "less_eq_ObjectType a b \<longleftrightarrow> objectType_value a \<le> objectType_value b"

definition less_ObjectType :: "ObjectType \<Rightarrow> ObjectType \<Rightarrow> bool" where
  "less_ObjectType a b \<longleftrightarrow> objectType_value a < objectType_value b"

instance
  by standard
    (auto simp: less_eq_ObjectType_def less_ObjectType_def less_le objectType.value_inject)

end

end
