(* ===== verification/Ledger_Errors.thy ===== *)
theory Ledger_Errors
  imports Ledger_Enums
begin

text \<open>
  The errors of the program as values. There is one datatype for the throw statements of each
  source file (a constructor per statement, its arguments the values interpolated in the message)
  and the function giving the message the code builds. \<open>RejectionCatalog\<close> classifies failures by
  matching on these messages, so they are kept verbatim.
\<close>

section \<open>Numbers and lists as text\<close>

definition digit_char :: "nat \<Rightarrow> char" where
  "digit_char d = char_of (48 + d)"

fun nat_string :: "nat \<Rightarrow> string" where
  "nat_string n = (if n < 10 then [digit_char n] else nat_string (n div 10) @ [digit_char (n mod 10)])"

declare nat_string.simps [simp del]

definition bigint_string :: "int \<Rightarrow> string" where
  "bigint_string i = (if i < 0 then CHR ''-'' # nat_string (nat (- i)) else nat_string (nat i))"

fun join :: "string \<Rightarrow> string list \<Rightarrow> string" where
  "join sep [] = []"
| "join sep [x] = x"
| "join sep (x # y # xs) = x @ sep @ join sep (y # xs)"

section \<open>Throw statements of the value objects\<close>

text \<open>\<open>Money.ts\<close>\<close>

datatype money_error =
    MoneyNegative
  | InvalidCurrency
  | InvalidDecimal
  | SubtractionNegative
  | CurrencyMismatch

fun money_message :: "money_error \<Rightarrow> string" where
  "money_message MoneyNegative = ''Money cannot be negative''"
| "money_message InvalidCurrency = ''Invalid currency format (must be ISO-4217)''"
| "money_message InvalidDecimal = ''Invalid decimal format (max 2 decimal places, positive only)''"
| "money_message SubtractionNegative = ''Money subtraction would result in negative value''"
| "money_message CurrencyMismatch = ''Currency mismatch''"

text \<open>The constructors of the other value objects and of \<open>RejectedEvent\<close>.\<close>

datatype value_error =
    InvalidEventId
  | SourceSystemRequired
  | SourceReferenceRequired
  | NormalizationVersionRequired
  | WorkerIdRequired
  | StagingIdRequired
  | DescriptionRequired
  | RejectionReasonRequired
  | InvalidTimeValue

fun value_message :: "value_error \<Rightarrow> string" where
  "value_message InvalidEventId = ''Invalid EventId''"
| "value_message SourceSystemRequired = ''Source system required''"
| "value_message SourceReferenceRequired = ''Source reference required''"
| "value_message NormalizationVersionRequired = ''Normalization version required''"
| "value_message WorkerIdRequired = ''Worker id required''"
| "value_message StagingIdRequired = ''StagingId is required''"
| "value_message DescriptionRequired = ''Description is required''"
| "value_message RejectionReasonRequired = ''At least one rejection reason is required''"
| "value_message InvalidTimeValue = ''Invalid time value''"

section \<open>Throw statements of the event and of the semantic policy\<close>

text \<open>\<open>LedgerEvent.ts\<close>\<close>

datatype event_error =
    ZeroAmount
  | NoParty
  | NoObject
  | PayerIn string
  | PayeeOut string
  | PartyCurrencyMismatch
  | InternalUnbalanced
  | InternalTotal
  | CashInNoInbound
  | CashInTotal
  | CashInOutbound
  | CashOutNoOutbound
  | CashOutTotal
  | CashOutInbound
  | NonCashFlow
  | ContingentFlow
  | AllocationGap
  | NonCashReason
  | ContingentFollowup

fun event_message :: "event_error \<Rightarrow> string" where
  "event_message ZeroAmount = ''Event amount cannot be zero''"
| "event_message NoParty = ''Event must contain at least one party''"
| "event_message NoObject = ''Event must reference at least one economic object''"
| "event_message (PayerIn p) = ''Party '' @ p @ '': PAYER cannot have direction IN''"
| "event_message (PayeeOut p) = ''Party '' @ p @ '': PAYEE cannot have direction OUT''"
| "event_message PartyCurrencyMismatch = ''Party amount currency mismatch''"
| "event_message InternalUnbalanced = ''Internal transfer must balance''"
| "event_message InternalTotal = ''Internal transfer total must match event amount''"
| "event_message CashInNoInbound = ''Cash in must have inbound flow''"
| "event_message CashInTotal = ''Cash in total must match event amount''"
| "event_message CashInOutbound = ''Cash in cannot have outbound flow''"
| "event_message CashOutNoOutbound = ''Cash out must have outbound flow''"
| "event_message CashOutTotal = ''Cash out total must match event amount''"
| "event_message CashOutInbound = ''Cash out cannot have inbound flow''"
| "event_message NonCashFlow = ''Non-cash event cannot alter cash flow''"
| "event_message ContingentFlow = ''Contingent event cannot generate cash flow''"
| "event_message AllocationGap =
     ''Allocated amounts (neutral parties) must account for all directional cash flow''"
| "event_message NonCashReason = ''Non-cash events require a reason''"
| "event_message ContingentFollowup = ''Contingent events must require follow-up''"

text \<open>\<open>InvariantPolicy.ts\<close>\<close>

datatype policy_error =
    EffectNotAllowed EconomicEffect EventType
  | RelationForEffect Relation EconomicEffect
  | RelationForObject Relation ObjectType
  | ObjectForEvent ObjectType EventType
  | RelationForContract Relation ObjectType EventType
  | ReasonMissing
  | ReasonForEvent ReasonType EventType
  | ReasonForEffect ReasonType EconomicEffect
  | ReasonForRelation ReasonType Relation
  | InsufficientConfidence
  | ReversalHash
  | PreviousHashMissing EventType
  | RelatedMissing EventType
  | ContextualRelation ObjectType
  | RetractionTarget
  | RetractionFlows
  | DueAtNotAdmitted EventType
  | DueAtNotOriginating

fun policy_message :: "policy_error \<Rightarrow> string" where
  "policy_message (EffectNotAllowed ef ty) =
     ''Invalid economic effect '' @ economicEffect_value ef @ '' for '' @ eventType_value ty"
| "policy_message (RelationForEffect r ef) =
     ''Relation '' @ relation_value r @ '' not allowed for economic effect '' @ economicEffect_value ef"
| "policy_message (RelationForObject r ob) =
     ''Relation '' @ relation_value r @ '' not allowed for object '' @ objectType_value ob"
| "policy_message (ObjectForEvent ob ty) =
     ''Object type '' @ objectType_value ob @ '' not allowed for event type '' @ eventType_value ty"
| "policy_message (RelationForContract r ob ty) =
     ''Relation '' @ relation_value r @ '' not allowed for object '' @ objectType_value ob
       @ '' on event type '' @ eventType_value ty"
| "policy_message ReasonMissing = ''Reason required''"
| "policy_message (ReasonForEvent rs ty) =
     ''Reason '' @ reasonType_value rs @ '' not allowed for '' @ eventType_value ty"
| "policy_message (ReasonForEffect rs ef) =
     ''Reason '' @ reasonType_value rs @ '' not allowed for economic effect '' @ economicEffect_value ef"
| "policy_message (ReasonForRelation rs r) =
     ''Reason '' @ reasonType_value rs @ '' incompatible with relation '' @ relation_value r"
| "policy_message InsufficientConfidence = ''Insufficient confidence level''"
| "policy_message ReversalHash = ''Reversal events require previousHash''"
| "policy_message (PreviousHashMissing ty) =
     ''Event type '' @ eventType_value ty @ '' requires previousHash''"
| "policy_message (RelatedMissing ty) =
     ''Event type '' @ eventType_value ty
       @ '' requires relatedEventId pointing to its originating event''"
| "policy_message (ContextualRelation ob) =
     ''Contextual object '' @ objectType_value ob @ '' must use relation REFERENCES''"
| "policy_message RetractionTarget =
     ''A retraction requires relatedEventId pointing to the event being retracted''"
| "policy_message RetractionFlows =
     ''A retraction cannot also move a position: RETRACTS must be the only relation on the event''"
| "policy_message (DueAtNotAdmitted ty) =
     ''Event type '' @ eventType_value ty
       @ '' cannot carry a dueAt: only an event that originates an obligation falls due''"
| "policy_message DueAtNotOriginating =
     ''A dueAt requires an object with relation ORIGINATES: a due date belongs to the obligation being originated''"

section \<open>Throw statements of the use case and of the store\<close>

text \<open>\<open>CreateLedgerEventUseCase.ts\<close>, the store and \<open>ReceiptLineageResolver.ts\<close>\<close>

datatype usecase_error =
    DuplicateSource string
  | OriginNotFound string
  | OriginWrongType "EventType list" EventType
  | AlreadyRetracted string string
  | RetractionTooDeep
  | OverSettlement string string
  | ImmutabilityViolation string
  | NoReceivable

fun usecase_message :: "usecase_error \<Rightarrow> string" where
  "usecase_message (DuplicateSource s) = ''Duplicate source reference: '' @ s"
| "usecase_message (OriginNotFound s) = ''Origin event not found: '' @ s"
| "usecase_message (OriginWrongType allowed found) =
     ''relatedEventId must point to a '' @ join '' or '' (map eventType_value allowed)
       @ '' event, but found '' @ eventType_value found"
| "usecase_message (AlreadyRetracted target by) =
     ''Event '' @ target @ '' has already been retracted by '' @ by"
| "usecase_message RetractionTooDeep =
     ''Retraction chain too deep: a retraction of a retraction cannot itself be retracted''"
| "usecase_message (OverSettlement oid outstanding) =
     ''Over-settlement: the outstanding balance of '' @ oid @ '' is '' @ outstanding"
| "usecase_message (ImmutabilityViolation i) =
     ''Immutability violation: event '' @ i @ '' already exists in the ledger''"
| "usecase_message NoReceivable =
     ''commission_received has no commission_receivable object; cannot resolve lineage''"

section \<open>All errors\<close>

datatype ledger_error =
    Money_Error money_error
  | Value_Error value_error
  | Event_Error event_error
  | Policy_Error policy_error
  | UseCase_Error usecase_error

fun error_message :: "ledger_error \<Rightarrow> string" where
  "error_message (Money_Error e) = money_message e"
| "error_message (Value_Error e) = value_message e"
| "error_message (Event_Error e) = event_message e"
| "error_message (Policy_Error e) = policy_message e"
| "error_message (UseCase_Error e) = usecase_message e"

section \<open>Decimal numerals\<close>

text \<open>\<open>nat_string\<close> writes digits only, no leading zero, and the value of its digits is the number.\<close>

definition is_digit :: "char \<Rightarrow> bool" where
  "is_digit c \<longleftrightarrow> CHR ''0'' \<le> c \<and> c \<le> CHR ''9''"

definition digit_value :: "char \<Rightarrow> int" where
  "digit_value c = int (of_char c) - 48"

definition digits_value :: "string \<Rightarrow> int" where
  "digits_value s = foldl (\<lambda>n c. 10 * n + digit_value c) 0 s"

lemma is_digit_of_char: "is_digit c \<longleftrightarrow> 48 \<le> (of_char c :: nat) \<and> (of_char c :: nat) \<le> 57"
  by (simp add: is_digit_def less_eq_char_def)

lemma of_digit_char [simp]: "d < 10 \<Longrightarrow> (of_char (digit_char d) :: nat) = 48 + d"
  by (simp add: digit_char_def of_char_of take_bit_eq_mod)

lemma is_digit_digit_char [simp]: "d < 10 \<Longrightarrow> is_digit (digit_char d)"
  by (simp add: is_digit_of_char)

lemma digit_value_digit_char [simp]: "d < 10 \<Longrightarrow> digit_value (digit_char d) = int d"
  by (simp add: digit_value_def)

lemma digit_value_range: "is_digit c \<Longrightarrow> 0 \<le> digit_value c \<and> digit_value c \<le> 9"
  by (auto simp: digit_value_def is_digit_of_char)

lemma digits_value_snoc [simp]: "digits_value (s @ [c]) = 10 * digits_value s + digit_value c"
  by (simp add: digits_value_def)

lemma digits_value_Nil [simp]: "digits_value [] = 0"
  by (simp add: digits_value_def)

lemma digits_value_nonneg: "list_all is_digit s \<Longrightarrow> 0 \<le> digits_value s"
proof (induction s rule: rev_induct)
  case Nil
  then show ?case by simp
next
  case (snoc c s)
  then have "0 \<le> digits_value s" and "0 \<le> digit_value c"
    using digit_value_range by auto
  then show ?case by simp
qed

lemma nat_string_digits: "list_all is_digit (nat_string n)"
proof (induction n rule: nat_string.induct)
  case (1 n)
  then show ?case by (subst nat_string.simps) simp
qed

lemma nat_string_nonempty [simp]: "nat_string n \<noteq> []"
  by (subst nat_string.simps) simp

lemma int_div_mod_ten: "10 * int (n div 10) + int (n mod 10) = int n"
  by presburger

lemma digits_value_nat_string [simp]: "digits_value (nat_string n) = int n"
proof (induction n rule: nat_string.induct)
  case (1 n)
  show ?case
  proof (cases "n < 10")
    case True
    then show ?thesis using digits_value_snoc [of "[]"] by (subst nat_string.simps) simp
  next
    case False
    with "1.IH" have IH: "digits_value (nat_string (n div 10)) = int (n div 10)" by simp
    with False int_div_mod_ten [of n] show ?thesis by (subst nat_string.simps) simp
  qed
qed

lemma nat_string_inject [simp]: "nat_string a = nat_string b \<longleftrightarrow> a = b"
  by (metis digits_value_nat_string of_nat_eq_iff)

end
