(* ===== verification/Ledger_Algebra.thy ===== *)
theory Ledger_Algebra
  imports Ledger_Errors
begin

text \<open>
  The economic algebra of the ledger: the semantic contract of every event type
  (\<open>core/domain/contracts\<close>) and the five formal matrices (\<open>core/domain/policies/FormalMatrices\<close>).
  The tables are data; the policy that reads them is in \<open>Invariant_Policy\<close>. The matrices that the
  source types as \<open>Partial<Record<...>>\<close> return an option: \<open>None\<close> is an absent key, which the
  policy reads as no restriction. The last section relates the tables to each other.
\<close>

section \<open>Semantic contracts\<close>

record ContractObject =
  co_objectType :: ObjectType
  co_relations :: "Relation list"

record EventSemanticContract =
  economicEffects :: "EconomicEffect list"
  contractObjects :: "ContractObject list"
  reasons :: "ReasonType list option"
  minConfidence :: "ConfidenceLevel option"
  requiresPreviousHash :: bool
  requiresRelatedEventId :: bool
  allowedOriginTypes :: "EventType list option"
  admitsDueAt :: bool

definition contract_object :: "ObjectType \<Rightarrow> Relation list \<Rightarrow> ContractObject" where
  "contract_object ob rs = \<lparr>co_objectType = ob, co_relations = rs\<rparr>"

definition contract_COMMISSION_SPLIT :: EventSemanticContract where
  "contract_COMMISSION_SPLIT = \<lparr>
     economicEffects = [EconomicEffect.CASH_OUT, EconomicEffect.CASH_INTERNAL],
     contractObjects =
       [contract_object ObjectType.COMMISSION_POOL [Relation.ADJUSTS, Relation.SETTLES],
        contract_object ObjectType.COMMISSION_PAYABLE [Relation.ORIGINATES, Relation.SETTLES]],
     reasons = Some [ReasonType.COMMISSION_SPLIT],
     minConfidence = None,
     requiresPreviousHash = False,
     requiresRelatedEventId = False,
     allowedOriginTypes = None,
     admitsDueAt = False\<rparr>"

definition contract_PAYROLL_PAYMENT :: EventSemanticContract where
  "contract_PAYROLL_PAYMENT = \<lparr>
     economicEffects = [EconomicEffect.CASH_OUT],
     contractObjects =
       [contract_object ObjectType.PAYROLL [Relation.SETTLES]],
     reasons = Some [ReasonType.PAYROLL_PAYMENT],
     minConfidence = Some ConfidenceLevel.MEDIUM,
     requiresPreviousHash = False,
     requiresRelatedEventId = False,
     allowedOriginTypes = None,
     admitsDueAt = False\<rparr>"

definition contract_COMMISSION_RECEIVED :: EventSemanticContract where
  "contract_COMMISSION_RECEIVED = \<lparr>
     economicEffects = [EconomicEffect.CASH_IN],
     contractObjects =
       [contract_object ObjectType.COMMISSION_RECEIVABLE [Relation.SETTLES]],
     reasons = Some [ReasonType.COMMISSION_PAYMENT, ReasonType.DIRECT_COMMISSION_PAYMENT_AUTHORIZED, ReasonType.UNKNOWN_ORIGIN],
     minConfidence = Some ConfidenceLevel.MEDIUM,
     requiresPreviousHash = False,
     requiresRelatedEventId = True,
     allowedOriginTypes = Some [EventType.COMMISSION_EXPECTED],
     admitsDueAt = False\<rparr>"

definition contract_COMMISSION_WAIVER :: EventSemanticContract where
  "contract_COMMISSION_WAIVER = \<lparr>
     economicEffects = [EconomicEffect.NON_CASH],
     contractObjects =
       [contract_object ObjectType.COMMISSION_ENTITLEMENT [Relation.SETTLES, Relation.REVERSES]],
     reasons = Some [ReasonType.COMMISSION_WAIVER],
     minConfidence = None,
     requiresPreviousHash = False,
     requiresRelatedEventId = False,
     allowedOriginTypes = None,
     admitsDueAt = False\<rparr>"

definition contract_PENALTY_PAYMENT :: EventSemanticContract where
  "contract_PENALTY_PAYMENT = \<lparr>
     economicEffects = [EconomicEffect.CASH_OUT],
     contractObjects =
       [contract_object ObjectType.PENALTY [Relation.SETTLES]],
     reasons = Some [ReasonType.PENALTY_PAYMENT],
     minConfidence = None,
     requiresPreviousHash = False,
     requiresRelatedEventId = False,
     allowedOriginTypes = None,
     admitsDueAt = False\<rparr>"

definition contract_ADVANCE_PAYMENT :: EventSemanticContract where
  "contract_ADVANCE_PAYMENT = \<lparr>
     economicEffects = [EconomicEffect.CASH_OUT, EconomicEffect.NON_CASH],
     contractObjects =
       [contract_object ObjectType.ADVANCE [Relation.ORIGINATES, Relation.ADJUSTS, Relation.SETTLES]],
     reasons = Some [ReasonType.ADVANCE_PAYMENT],
     minConfidence = None,
     requiresPreviousHash = False,
     requiresRelatedEventId = False,
     allowedOriginTypes = None,
     admitsDueAt = False\<rparr>"

definition contract_INFRASTRUCTURE_EXPENSE :: EventSemanticContract where
  "contract_INFRASTRUCTURE_EXPENSE = \<lparr>
     economicEffects = [EconomicEffect.CASH_OUT],
     contractObjects =
       [contract_object ObjectType.INFRASTRUCTURE_COST [Relation.SETTLES]],
     reasons = Some [ReasonType.INFRASTRUCTURE_EXPENSE],
     minConfidence = None,
     requiresPreviousHash = False,
     requiresRelatedEventId = False,
     allowedOriginTypes = None,
     admitsDueAt = False\<rparr>"

definition contract_SERVICE_FEE_PAYMENT :: EventSemanticContract where
  "contract_SERVICE_FEE_PAYMENT = \<lparr>
     economicEffects = [EconomicEffect.CASH_OUT],
     contractObjects =
       [contract_object ObjectType.SERVICE_FEE [Relation.SETTLES]],
     reasons = Some [ReasonType.SERVICE_FEE_PAYMENT],
     minConfidence = None,
     requiresPreviousHash = False,
     requiresRelatedEventId = False,
     allowedOriginTypes = None,
     admitsDueAt = False\<rparr>"

definition contract_TAX_PAYMENT :: EventSemanticContract where
  "contract_TAX_PAYMENT = \<lparr>
     economicEffects = [EconomicEffect.CASH_OUT],
     contractObjects =
       [contract_object ObjectType.TAX [Relation.SETTLES]],
     reasons = Some [ReasonType.TAX_PAYMENT],
     minConfidence = None,
     requiresPreviousHash = False,
     requiresRelatedEventId = False,
     allowedOriginTypes = None,
     admitsDueAt = False\<rparr>"

definition contract_OUTBOUND_PAYMENT :: EventSemanticContract where
  "contract_OUTBOUND_PAYMENT = \<lparr>
     economicEffects = [EconomicEffect.CASH_OUT],
     contractObjects =
       [contract_object ObjectType.PAYABLE [Relation.SETTLES]],
     reasons = Some [ReasonType.ORDINARY_SETTLEMENT],
     minConfidence = Some ConfidenceLevel.MEDIUM,
     requiresPreviousHash = False,
     requiresRelatedEventId = False,
     allowedOriginTypes = None,
     admitsDueAt = False\<rparr>"

definition contract_ADVANCE_SETTLEMENT :: EventSemanticContract where
  "contract_ADVANCE_SETTLEMENT = \<lparr>
     economicEffects = [EconomicEffect.CASH_IN, EconomicEffect.NON_CASH],
     contractObjects =
       [contract_object ObjectType.ADVANCE [Relation.SETTLES, Relation.ADJUSTS]],
     reasons = Some [ReasonType.ADVANCE_PAYMENT, ReasonType.LOSS_RECOGNITION, ReasonType.DEBT_RESTRUCTURING],
     minConfidence = None,
     requiresPreviousHash = False,
     requiresRelatedEventId = True,
     allowedOriginTypes = Some [EventType.ADVANCE_PAYMENT],
     admitsDueAt = False\<rparr>"

definition contract_LOAN_ORIGINATION :: EventSemanticContract where
  "contract_LOAN_ORIGINATION = \<lparr>
     economicEffects = [EconomicEffect.CASH_OUT],
     contractObjects =
       [contract_object ObjectType.LOAN [Relation.ORIGINATES]],
     reasons = Some [ReasonType.LOAN_ORIGINATION],
     minConfidence = None,
     requiresPreviousHash = False,
     requiresRelatedEventId = False,
     allowedOriginTypes = None,
     admitsDueAt = False\<rparr>"

definition contract_LOAN_REPAYMENT :: EventSemanticContract where
  "contract_LOAN_REPAYMENT = \<lparr>
     economicEffects = [EconomicEffect.CASH_IN, EconomicEffect.NON_CASH],
     contractObjects =
       [contract_object ObjectType.LOAN [Relation.SETTLES, Relation.ADJUSTS]],
     reasons = Some [ReasonType.LOAN_REPAYMENT, ReasonType.LOAN_REPAYMENT_VIA_COMMISSION, ReasonType.DEBT_RESTRUCTURING],
     minConfidence = None,
     requiresPreviousHash = False,
     requiresRelatedEventId = True,
     allowedOriginTypes = Some [EventType.LOAN_ORIGINATION],
     admitsDueAt = False\<rparr>"

definition contract_DIRECT_PAYMENT_ACKNOWLEDGED :: EventSemanticContract where
  "contract_DIRECT_PAYMENT_ACKNOWLEDGED = \<lparr>
     economicEffects = [EconomicEffect.NON_CASH],
     contractObjects =
       [contract_object ObjectType.COMMISSION_RECEIVABLE [Relation.SETTLES],
        contract_object ObjectType.COMMISSION_ENTITLEMENT [Relation.SETTLES]],
     reasons = Some [ReasonType.LATE_AWARENESS, ReasonType.DIRECT_COMMISSION_PAYMENT_AUTHORIZED],
     minConfidence = None,
     requiresPreviousHash = False,
     requiresRelatedEventId = False,
     allowedOriginTypes = None,
     admitsDueAt = False\<rparr>"

definition contract_INCENTIVE_PAYMENT :: EventSemanticContract where
  "contract_INCENTIVE_PAYMENT = \<lparr>
     economicEffects = [EconomicEffect.CASH_OUT, EconomicEffect.NON_CASH],
     contractObjects =
       [contract_object ObjectType.INCENTIVE [Relation.ORIGINATES, Relation.SETTLES],
        contract_object ObjectType.BONUS [Relation.ORIGINATES, Relation.SETTLES]],
     reasons = Some [ReasonType.INCENTIVE_PAYMENT],
     minConfidence = None,
     requiresPreviousHash = False,
     requiresRelatedEventId = False,
     allowedOriginTypes = None,
     admitsDueAt = False\<rparr>"

definition contract_LEDGER_CORRECTION :: EventSemanticContract where
  "contract_LEDGER_CORRECTION = \<lparr>
     economicEffects = [EconomicEffect.NON_CASH],
     contractObjects =
       [contract_object ObjectType.COMMISSION_RECEIVABLE [Relation.REVERSES, Relation.ADJUSTS, Relation.RETRACTS],
        contract_object ObjectType.COMMISSION_PAYABLE [Relation.REVERSES, Relation.ADJUSTS, Relation.RETRACTS],
        contract_object ObjectType.COMMISSION_ENTITLEMENT [Relation.REVERSES, Relation.ADJUSTS, Relation.RETRACTS],
        contract_object ObjectType.COMMISSION_POOL [Relation.REVERSES, Relation.ADJUSTS, Relation.RETRACTS],
        contract_object ObjectType.LOAN [Relation.REVERSES, Relation.ADJUSTS, Relation.RETRACTS],
        contract_object ObjectType.ADVANCE [Relation.REVERSES, Relation.ADJUSTS, Relation.RETRACTS],
        contract_object ObjectType.RECEIVABLE [Relation.REVERSES, Relation.ADJUSTS, Relation.RETRACTS],
        contract_object ObjectType.PAYABLE [Relation.REVERSES, Relation.ADJUSTS, Relation.RETRACTS],
        contract_object ObjectType.PENALTY [Relation.REVERSES, Relation.ADJUSTS, Relation.RETRACTS],
        contract_object ObjectType.CHARGEBACK [Relation.REVERSES, Relation.ADJUSTS, Relation.RETRACTS],
        contract_object ObjectType.INCENTIVE [Relation.REVERSES, Relation.ADJUSTS, Relation.RETRACTS],
        contract_object ObjectType.BONUS [Relation.REVERSES, Relation.ADJUSTS, Relation.RETRACTS],
        contract_object ObjectType.PAYROLL [Relation.REVERSES, Relation.ADJUSTS, Relation.RETRACTS],
        contract_object ObjectType.SERVICE_FEE [Relation.REVERSES, Relation.ADJUSTS, Relation.RETRACTS],
        contract_object ObjectType.INFRASTRUCTURE_COST [Relation.REVERSES, Relation.ADJUSTS, Relation.RETRACTS],
        contract_object ObjectType.TAX [Relation.REVERSES, Relation.ADJUSTS, Relation.RETRACTS]],
     reasons = Some [ReasonType.MANUAL_CORRECTION, ReasonType.DATA_RECONCILIATION, ReasonType.LATE_AWARENESS],
     minConfidence = Some ConfidenceLevel.HIGH,
     requiresPreviousHash = True,
     requiresRelatedEventId = False,
     allowedOriginTypes = None,
     admitsDueAt = False\<rparr>"

definition contract_COMMISSION_EXPECTED :: EventSemanticContract where
  "contract_COMMISSION_EXPECTED = \<lparr>
     economicEffects = [EconomicEffect.NON_CASH],
     contractObjects =
       [contract_object ObjectType.COMMISSION_RECEIVABLE [Relation.ORIGINATES]],
     reasons = Some [ReasonType.COMMISSION_ACCRUAL, ReasonType.COMMISSION_PAYMENT, ReasonType.LATE_IDENTIFIED_COMMISSION],
     minConfidence = Some ConfidenceLevel.MEDIUM,
     requiresPreviousHash = False,
     requiresRelatedEventId = False,
     allowedOriginTypes = None,
     admitsDueAt = False\<rparr>"

definition contract_OBLIGATION_RECOGNIZED :: EventSemanticContract where
  "contract_OBLIGATION_RECOGNIZED = \<lparr>
     economicEffects = [EconomicEffect.NON_CASH],
     contractObjects =
       [contract_object ObjectType.PAYROLL [Relation.ORIGINATES],
        contract_object ObjectType.SERVICE_FEE [Relation.ORIGINATES],
        contract_object ObjectType.INFRASTRUCTURE_COST [Relation.ORIGINATES],
        contract_object ObjectType.TAX [Relation.ORIGINATES],
        contract_object ObjectType.PAYABLE [Relation.ORIGINATES]],
     reasons = Some [ReasonType.OBLIGATION_RECOGNITION, ReasonType.LATE_AWARENESS],
     minConfidence = Some ConfidenceLevel.MEDIUM,
     requiresPreviousHash = False,
     requiresRelatedEventId = False,
     allowedOriginTypes = None,
     admitsDueAt = True\<rparr>"

fun EVENT_CONTRACTS :: "EventType \<Rightarrow> EventSemanticContract" where
  "EVENT_CONTRACTS EventType.COMMISSION_SPLIT = contract_COMMISSION_SPLIT"
| "EVENT_CONTRACTS EventType.PAYROLL_PAYMENT = contract_PAYROLL_PAYMENT"
| "EVENT_CONTRACTS EventType.COMMISSION_RECEIVED = contract_COMMISSION_RECEIVED"
| "EVENT_CONTRACTS EventType.COMMISSION_WAIVER = contract_COMMISSION_WAIVER"
| "EVENT_CONTRACTS EventType.PENALTY_PAYMENT = contract_PENALTY_PAYMENT"
| "EVENT_CONTRACTS EventType.ADVANCE_PAYMENT = contract_ADVANCE_PAYMENT"
| "EVENT_CONTRACTS EventType.INFRASTRUCTURE_EXPENSE = contract_INFRASTRUCTURE_EXPENSE"
| "EVENT_CONTRACTS EventType.SERVICE_FEE_PAYMENT = contract_SERVICE_FEE_PAYMENT"
| "EVENT_CONTRACTS EventType.TAX_PAYMENT = contract_TAX_PAYMENT"
| "EVENT_CONTRACTS EventType.OUTBOUND_PAYMENT = contract_OUTBOUND_PAYMENT"
| "EVENT_CONTRACTS EventType.ADVANCE_SETTLEMENT = contract_ADVANCE_SETTLEMENT"
| "EVENT_CONTRACTS EventType.LOAN_ORIGINATION = contract_LOAN_ORIGINATION"
| "EVENT_CONTRACTS EventType.LOAN_REPAYMENT = contract_LOAN_REPAYMENT"
| "EVENT_CONTRACTS EventType.DIRECT_PAYMENT_ACKNOWLEDGED = contract_DIRECT_PAYMENT_ACKNOWLEDGED"
| "EVENT_CONTRACTS EventType.INCENTIVE_PAYMENT = contract_INCENTIVE_PAYMENT"
| "EVENT_CONTRACTS EventType.LEDGER_CORRECTION = contract_LEDGER_CORRECTION"
| "EVENT_CONTRACTS EventType.COMMISSION_EXPECTED = contract_COMMISSION_EXPECTED"
| "EVENT_CONTRACTS EventType.OBLIGATION_RECOGNIZED = contract_OBLIGATION_RECOGNIZED"

lemmas contract_defs [algebra_simps_tables] =
  contract_COMMISSION_SPLIT_def
  contract_PAYROLL_PAYMENT_def
  contract_COMMISSION_RECEIVED_def
  contract_COMMISSION_WAIVER_def
  contract_PENALTY_PAYMENT_def
  contract_ADVANCE_PAYMENT_def
  contract_INFRASTRUCTURE_EXPENSE_def
  contract_SERVICE_FEE_PAYMENT_def
  contract_TAX_PAYMENT_def
  contract_OUTBOUND_PAYMENT_def
  contract_ADVANCE_SETTLEMENT_def
  contract_LOAN_ORIGINATION_def
  contract_LOAN_REPAYMENT_def
  contract_DIRECT_PAYMENT_ACKNOWLEDGED_def
  contract_INCENTIVE_PAYMENT_def
  contract_LEDGER_CORRECTION_def
  contract_COMMISSION_EXPECTED_def
  contract_OBLIGATION_RECOGNIZED_def
  contract_object_def

section \<open>Formal matrices\<close>

fun ECONOMIC_EFFECT_RELATION_MATRIX :: "EconomicEffect \<Rightarrow> Relation list" where
  "ECONOMIC_EFFECT_RELATION_MATRIX EconomicEffect.CASH_IN = [Relation.ORIGINATES, Relation.SETTLES]"
| "ECONOMIC_EFFECT_RELATION_MATRIX EconomicEffect.CASH_OUT = [Relation.ORIGINATES, Relation.SETTLES]"
| "ECONOMIC_EFFECT_RELATION_MATRIX EconomicEffect.CASH_INTERNAL = [Relation.ADJUSTS]"
| "ECONOMIC_EFFECT_RELATION_MATRIX EconomicEffect.NON_CASH = [Relation.ORIGINATES, Relation.ADJUSTS, Relation.SETTLES, Relation.REVERSES, Relation.RETRACTS]"
| "ECONOMIC_EFFECT_RELATION_MATRIX EconomicEffect.CONTINGENT = [Relation.ORIGINATES, Relation.ADJUSTS]"

fun OBJECT_NATURE_MATRIX :: "ObjectType \<Rightarrow> ObjectNature" where
  "OBJECT_NATURE_MATRIX ObjectType.COMMISSION_ENTITLEMENT = ObjectNature.POSITIONAL"
| "OBJECT_NATURE_MATRIX ObjectType.COMMISSION_POOL = ObjectNature.POSITIONAL"
| "OBJECT_NATURE_MATRIX ObjectType.COMMISSION_RECEIVABLE = ObjectNature.POSITIONAL"
| "OBJECT_NATURE_MATRIX ObjectType.COMMISSION_PAYABLE = ObjectNature.POSITIONAL"
| "OBJECT_NATURE_MATRIX ObjectType.LOAN = ObjectNature.POSITIONAL"
| "OBJECT_NATURE_MATRIX ObjectType.ADVANCE = ObjectNature.POSITIONAL"
| "OBJECT_NATURE_MATRIX ObjectType.RECEIVABLE = ObjectNature.POSITIONAL"
| "OBJECT_NATURE_MATRIX ObjectType.PAYABLE = ObjectNature.POSITIONAL"
| "OBJECT_NATURE_MATRIX ObjectType.PENALTY = ObjectNature.POSITIONAL"
| "OBJECT_NATURE_MATRIX ObjectType.CHARGEBACK = ObjectNature.POSITIONAL"
| "OBJECT_NATURE_MATRIX ObjectType.CONTINGENT_CLAIM = ObjectNature.POSITIONAL"
| "OBJECT_NATURE_MATRIX ObjectType.DISPUTE = ObjectNature.POSITIONAL"
| "OBJECT_NATURE_MATRIX ObjectType.INCENTIVE = ObjectNature.POSITIONAL"
| "OBJECT_NATURE_MATRIX ObjectType.BONUS = ObjectNature.POSITIONAL"
| "OBJECT_NATURE_MATRIX ObjectType.PAYROLL = ObjectNature.POSITIONAL"
| "OBJECT_NATURE_MATRIX ObjectType.SERVICE_FEE = ObjectNature.POSITIONAL"
| "OBJECT_NATURE_MATRIX ObjectType.INFRASTRUCTURE_COST = ObjectNature.POSITIONAL"
| "OBJECT_NATURE_MATRIX ObjectType.TAX = ObjectNature.POSITIONAL"
| "OBJECT_NATURE_MATRIX ObjectType.CONTRACT = ObjectNature.CONTEXTUAL"
| "OBJECT_NATURE_MATRIX ObjectType.PROPOSAL = ObjectNature.CONTEXTUAL"
| "OBJECT_NATURE_MATRIX ObjectType.INSTALLMENT = ObjectNature.CONTEXTUAL"
| "OBJECT_NATURE_MATRIX ObjectType.SETTLEMENT_BATCH = ObjectNature.CONTEXTUAL"
| "OBJECT_NATURE_MATRIX ObjectType.CAMPAIGN = ObjectNature.CONTEXTUAL"

fun OBJECT_RELATION_MATRIX :: "ObjectType \<Rightarrow> Relation list option" where
  "OBJECT_RELATION_MATRIX ObjectType.COMMISSION_ENTITLEMENT = Some [Relation.ORIGINATES, Relation.ADJUSTS, Relation.SETTLES, Relation.REVERSES, Relation.RETRACTS]"
| "OBJECT_RELATION_MATRIX ObjectType.COMMISSION_POOL = Some [Relation.ADJUSTS, Relation.REVERSES, Relation.RETRACTS]"
| "OBJECT_RELATION_MATRIX ObjectType.COMMISSION_RECEIVABLE = Some [Relation.ORIGINATES, Relation.ADJUSTS, Relation.SETTLES, Relation.REVERSES, Relation.RETRACTS]"
| "OBJECT_RELATION_MATRIX ObjectType.COMMISSION_PAYABLE = Some [Relation.ORIGINATES, Relation.ADJUSTS, Relation.SETTLES, Relation.REVERSES, Relation.RETRACTS]"
| "OBJECT_RELATION_MATRIX ObjectType.LOAN = Some [Relation.ORIGINATES, Relation.ADJUSTS, Relation.SETTLES, Relation.REVERSES, Relation.RETRACTS]"
| "OBJECT_RELATION_MATRIX ObjectType.ADVANCE = Some [Relation.ORIGINATES, Relation.ADJUSTS, Relation.SETTLES, Relation.REVERSES, Relation.RETRACTS]"
| "OBJECT_RELATION_MATRIX ObjectType.RECEIVABLE = Some [Relation.ORIGINATES, Relation.ADJUSTS, Relation.SETTLES, Relation.REVERSES, Relation.RETRACTS]"
| "OBJECT_RELATION_MATRIX ObjectType.PAYABLE = Some [Relation.ORIGINATES, Relation.ADJUSTS, Relation.SETTLES, Relation.REVERSES, Relation.RETRACTS]"
| "OBJECT_RELATION_MATRIX ObjectType.PENALTY = Some [Relation.ORIGINATES, Relation.ADJUSTS, Relation.SETTLES, Relation.REVERSES, Relation.RETRACTS]"
| "OBJECT_RELATION_MATRIX ObjectType.CHARGEBACK = Some [Relation.ORIGINATES, Relation.SETTLES, Relation.REVERSES, Relation.RETRACTS]"
| "OBJECT_RELATION_MATRIX ObjectType.CONTINGENT_CLAIM = Some [Relation.ORIGINATES, Relation.ADJUSTS, Relation.REVERSES, Relation.RETRACTS]"
| "OBJECT_RELATION_MATRIX ObjectType.DISPUTE = Some [Relation.ORIGINATES, Relation.SETTLES, Relation.REVERSES, Relation.RETRACTS]"
| "OBJECT_RELATION_MATRIX ObjectType.INCENTIVE = Some [Relation.ORIGINATES, Relation.ADJUSTS, Relation.SETTLES, Relation.REVERSES, Relation.RETRACTS]"
| "OBJECT_RELATION_MATRIX ObjectType.BONUS = Some [Relation.ORIGINATES, Relation.SETTLES, Relation.RETRACTS]"
| "OBJECT_RELATION_MATRIX ObjectType.PAYROLL = Some [Relation.ORIGINATES, Relation.SETTLES, Relation.RETRACTS]"
| "OBJECT_RELATION_MATRIX ObjectType.SERVICE_FEE = Some [Relation.ORIGINATES, Relation.SETTLES, Relation.RETRACTS]"
| "OBJECT_RELATION_MATRIX ObjectType.INFRASTRUCTURE_COST = Some [Relation.ORIGINATES, Relation.SETTLES, Relation.RETRACTS]"
| "OBJECT_RELATION_MATRIX ObjectType.TAX = Some [Relation.ORIGINATES, Relation.SETTLES, Relation.RETRACTS]"
| "OBJECT_RELATION_MATRIX ObjectType.CONTRACT = Some [Relation.REFERENCES]"
| "OBJECT_RELATION_MATRIX ObjectType.PROPOSAL = Some [Relation.REFERENCES]"
| "OBJECT_RELATION_MATRIX ObjectType.INSTALLMENT = Some [Relation.REFERENCES]"
| "OBJECT_RELATION_MATRIX ObjectType.SETTLEMENT_BATCH = Some [Relation.REFERENCES]"
| "OBJECT_RELATION_MATRIX ObjectType.CAMPAIGN = Some [Relation.REFERENCES]"

fun REASON_EFFECT_MATRIX :: "ReasonType \<Rightarrow> EconomicEffect list option" where
  "REASON_EFFECT_MATRIX ReasonType.ORDINARY_SETTLEMENT = Some [EconomicEffect.CASH_OUT]"
| "REASON_EFFECT_MATRIX ReasonType.COMMISSION_PAYMENT = Some [EconomicEffect.CASH_IN]"
| "REASON_EFFECT_MATRIX ReasonType.DIRECT_COMMISSION_PAYMENT_AUTHORIZED = Some [EconomicEffect.CASH_IN, EconomicEffect.NON_CASH]"
| "REASON_EFFECT_MATRIX ReasonType.COMMISSION_SPLIT = Some [EconomicEffect.CASH_INTERNAL, EconomicEffect.CASH_OUT]"
| "REASON_EFFECT_MATRIX ReasonType.LATE_IDENTIFIED_COMMISSION = Some [EconomicEffect.NON_CASH]"
| "REASON_EFFECT_MATRIX ReasonType.COMMISSION_ACCRUAL = Some [EconomicEffect.NON_CASH]"
| "REASON_EFFECT_MATRIX ReasonType.COMMISSION_WAIVER = Some [EconomicEffect.NON_CASH]"
| "REASON_EFFECT_MATRIX ReasonType.LOAN_ORIGINATION = Some [EconomicEffect.CASH_OUT]"
| "REASON_EFFECT_MATRIX ReasonType.LOAN_REPAYMENT = Some [EconomicEffect.CASH_IN]"
| "REASON_EFFECT_MATRIX ReasonType.LOAN_REPAYMENT_VIA_COMMISSION = Some [EconomicEffect.NON_CASH, EconomicEffect.CASH_INTERNAL]"
| "REASON_EFFECT_MATRIX ReasonType.ADVANCE_PAYMENT = Some [EconomicEffect.CASH_OUT, EconomicEffect.NON_CASH, EconomicEffect.CASH_IN]"
| "REASON_EFFECT_MATRIX ReasonType.DEBT_RESTRUCTURING = Some [EconomicEffect.NON_CASH]"
| "REASON_EFFECT_MATRIX ReasonType.PENALTY_PAYMENT = Some [EconomicEffect.CASH_OUT]"
| "REASON_EFFECT_MATRIX ReasonType.PENALTY_RECOGNITION = Some [EconomicEffect.CONTINGENT, EconomicEffect.NON_CASH]"
| "REASON_EFFECT_MATRIX ReasonType.CHARGEBACK = Some [EconomicEffect.CASH_OUT, EconomicEffect.NON_CASH]"
| "REASON_EFFECT_MATRIX ReasonType.DISPUTE_OPENED = Some [EconomicEffect.CONTINGENT]"
| "REASON_EFFECT_MATRIX ReasonType.LOSS_RECOGNITION = Some [EconomicEffect.NON_CASH]"
| "REASON_EFFECT_MATRIX ReasonType.PAYROLL_PAYMENT = Some [EconomicEffect.CASH_OUT]"
| "REASON_EFFECT_MATRIX ReasonType.INFRASTRUCTURE_EXPENSE = Some [EconomicEffect.CASH_OUT]"
| "REASON_EFFECT_MATRIX ReasonType.THIRD_PARTY_PAYMENT = Some [EconomicEffect.CASH_OUT]"
| "REASON_EFFECT_MATRIX ReasonType.TAX_PAYMENT = Some [EconomicEffect.CASH_OUT]"
| "REASON_EFFECT_MATRIX ReasonType.SERVICE_FEE_PAYMENT = Some [EconomicEffect.CASH_OUT]"
| "REASON_EFFECT_MATRIX ReasonType.INCENTIVE_PAYMENT = Some [EconomicEffect.CASH_OUT, EconomicEffect.NON_CASH]"
| "REASON_EFFECT_MATRIX ReasonType.OBLIGATION_RECOGNITION = Some [EconomicEffect.NON_CASH]"
| "REASON_EFFECT_MATRIX ReasonType.MANUAL_CORRECTION = Some [EconomicEffect.NON_CASH]"
| "REASON_EFFECT_MATRIX ReasonType.DATA_RECONCILIATION = Some [EconomicEffect.NON_CASH]"
| "REASON_EFFECT_MATRIX _ = None"

fun REASON_RELATION_MATRIX :: "ReasonType \<Rightarrow> Relation list option" where
  "REASON_RELATION_MATRIX ReasonType.ORDINARY_SETTLEMENT = Some [Relation.SETTLES]"
| "REASON_RELATION_MATRIX ReasonType.COMMISSION_PAYMENT = Some [Relation.SETTLES]"
| "REASON_RELATION_MATRIX ReasonType.DIRECT_COMMISSION_PAYMENT_AUTHORIZED = Some [Relation.SETTLES]"
| "REASON_RELATION_MATRIX ReasonType.COMMISSION_SPLIT = Some [Relation.ADJUSTS, Relation.SETTLES, Relation.ORIGINATES]"
| "REASON_RELATION_MATRIX ReasonType.LATE_IDENTIFIED_COMMISSION = Some [Relation.ORIGINATES, Relation.ADJUSTS]"
| "REASON_RELATION_MATRIX ReasonType.COMMISSION_ACCRUAL = Some [Relation.ORIGINATES]"
| "REASON_RELATION_MATRIX ReasonType.COMMISSION_WAIVER = Some [Relation.SETTLES, Relation.REVERSES]"
| "REASON_RELATION_MATRIX ReasonType.LOAN_ORIGINATION = Some [Relation.ORIGINATES]"
| "REASON_RELATION_MATRIX ReasonType.LOAN_REPAYMENT = Some [Relation.SETTLES]"
| "REASON_RELATION_MATRIX ReasonType.LOAN_REPAYMENT_VIA_COMMISSION = Some [Relation.SETTLES, Relation.ADJUSTS]"
| "REASON_RELATION_MATRIX ReasonType.ADVANCE_PAYMENT = Some [Relation.ORIGINATES, Relation.ADJUSTS, Relation.SETTLES]"
| "REASON_RELATION_MATRIX ReasonType.DEBT_RESTRUCTURING = Some [Relation.ADJUSTS]"
| "REASON_RELATION_MATRIX ReasonType.PENALTY_PAYMENT = Some [Relation.SETTLES]"
| "REASON_RELATION_MATRIX ReasonType.PENALTY_RECOGNITION = Some [Relation.ORIGINATES]"
| "REASON_RELATION_MATRIX ReasonType.CHARGEBACK = Some [Relation.ORIGINATES, Relation.SETTLES]"
| "REASON_RELATION_MATRIX ReasonType.DISPUTE_OPENED = Some [Relation.ORIGINATES]"
| "REASON_RELATION_MATRIX ReasonType.LOSS_RECOGNITION = Some [Relation.ORIGINATES, Relation.SETTLES]"
| "REASON_RELATION_MATRIX ReasonType.PAYROLL_PAYMENT = Some [Relation.SETTLES]"
| "REASON_RELATION_MATRIX ReasonType.INFRASTRUCTURE_EXPENSE = Some [Relation.SETTLES]"
| "REASON_RELATION_MATRIX ReasonType.THIRD_PARTY_PAYMENT = Some [Relation.ORIGINATES, Relation.SETTLES]"
| "REASON_RELATION_MATRIX ReasonType.TAX_PAYMENT = Some [Relation.SETTLES]"
| "REASON_RELATION_MATRIX ReasonType.SERVICE_FEE_PAYMENT = Some [Relation.SETTLES]"
| "REASON_RELATION_MATRIX ReasonType.INCENTIVE_PAYMENT = Some [Relation.ORIGINATES, Relation.SETTLES]"
| "REASON_RELATION_MATRIX ReasonType.OBLIGATION_RECOGNITION = Some [Relation.ORIGINATES]"
| "REASON_RELATION_MATRIX ReasonType.MANUAL_CORRECTION = Some [Relation.REVERSES, Relation.ADJUSTS, Relation.RETRACTS]"
| "REASON_RELATION_MATRIX ReasonType.DATA_RECONCILIATION = Some [Relation.REVERSES, Relation.ADJUSTS, Relation.RETRACTS]"
| "REASON_RELATION_MATRIX _ = None"

section \<open>Which combinations of the tables can be recorded\<close>

text \<open>
  A tuple of an event type, effect, positional object type, relation and reason that every table
  admits at once: what steps 1 to 7 of the semantic policy demand of one positional object.
\<close>

definition allowed_by :: "'a list option \<Rightarrow> 'a \<Rightarrow> bool" where
  "allowed_by allowed x = (case allowed of None \<Rightarrow> True | Some xs \<Rightarrow> x \<in> set xs)"

definition contract_entry :: "EventType \<Rightarrow> ObjectType \<Rightarrow> ContractObject option" where
  "contract_entry ty ob = find (\<lambda>c. co_objectType c = ob) (contractObjects (EVENT_CONTRACTS ty))"

definition tuple_admissible ::
    "EventType \<Rightarrow> EconomicEffect \<Rightarrow> ObjectType \<Rightarrow> Relation \<Rightarrow> ReasonType \<Rightarrow> bool" where
  "tuple_admissible ty ef ob rel rs \<longleftrightarrow>
     ef \<in> set (economicEffects (EVENT_CONTRACTS ty)) \<and>
     rel \<in> set (ECONOMIC_EFFECT_RELATION_MATRIX ef) \<and>
     allowed_by (OBJECT_RELATION_MATRIX ob) rel \<and>
     (case contract_entry ty ob of None \<Rightarrow> False | Some c \<Rightarrow> rel \<in> set (co_relations c)) \<and>
     allowed_by (reasons (EVENT_CONTRACTS ty)) rs \<and>
     allowed_by (REASON_EFFECT_MATRIX rs) ef \<and>
     allowed_by (REASON_RELATION_MATRIX rs) rel"

text \<open>
  The pairs of an object type and a relation that a contract lists although no effect and reason of
  the same contract lets any event record them.
\<close>

definition pair_recordable :: "EventType \<Rightarrow> ObjectType \<Rightarrow> Relation \<Rightarrow> bool" where
  "pair_recordable ty ob rel \<longleftrightarrow>
     list_ex (\<lambda>ef. list_ex (\<lambda>rs. tuple_admissible ty ef ob rel rs) reasonType_values)
       economicEffect_values"

definition contract_pairs :: "EventType \<Rightarrow> (ObjectType \<times> Relation) list" where
  "contract_pairs ty =
     concat (map (\<lambda>c. map (\<lambda>r. (co_objectType c, r)) (co_relations c))
       (contractObjects (EVENT_CONTRACTS ty)))"

definition dead_pairs :: "EventType \<Rightarrow> (ObjectType \<times> Relation) list" where
  "dead_pairs ty = filter (\<lambda>(ob, r). \<not> pair_recordable ty ob r) (contract_pairs ty)"

definition dead_reasons :: "EventType \<Rightarrow> ReasonType list" where
  "dead_reasons ty =
     filter (\<lambda>rs. \<not> list_ex (\<lambda>ef. list_ex (\<lambda>(ob, r). tuple_admissible ty ef ob r rs) (contract_pairs ty))
         economicEffect_values)
       (case reasons (EVENT_CONTRACTS ty) of None \<Rightarrow> [] | Some rs \<Rightarrow> rs)"

end
