(* ===== verification/Ledger_Money.thy ===== *)
theory Ledger_Money
  imports Ledger_Errors
begin

text \<open>
  \<open>Money.ts\<close>: an amount in minor units (two decimal places) with its currency. The constructor is
  private and validates, so every value the program holds comes from \<open>new_Money\<close> and satisfies
  \<open>valid_money\<close>. The theory models the factories, the arithmetic and the canonical text, and shows
  that every operation keeps the invariant and that writing and reading an amount are inverse.
  Amounts are \<open>bigint\<close>, hence unbounded; they are never negative, so the truncating division of
  \<open>bigint\<close> in \<open>toString\<close> is \<open>div\<close>.
\<close>

record Money =
  units :: int
  currency :: string

text \<open>\<open>SCALE_FACTOR = 10n ** 2n\<close>\<close>

definition SCALE :: nat where "SCALE = 2"

definition SCALE_FACTOR :: int where "SCALE_FACTOR = 10 ^ SCALE"

lemma SCALE_FACTOR_100 [simp]: "SCALE_FACTOR = 100"
  by (simp add: SCALE_FACTOR_def SCALE_def)

text \<open>\<open>/^[A-Z]{3}$/\<close>\<close>

definition is_currency :: "string \<Rightarrow> bool" where
  "is_currency s \<longleftrightarrow> length s = 3 \<and> list_all (\<lambda>c. CHR ''A'' \<le> c \<and> c \<le> CHR ''Z'') s"

definition new_Money :: "int \<Rightarrow> string \<Rightarrow> ledger_error + Money" where
  "new_Money u c =
     (if u < 0 then Inl (Money_Error MoneyNegative)
      else if \<not> is_currency c then Inl (Money_Error InvalidCurrency)
      else Inr \<lparr>units = u, currency = c\<rparr>)"

definition money_zero :: "string \<Rightarrow> ledger_error + Money" where
  "money_zero c = new_Money 0 c"

text \<open>\<open>/^\d+(\.\d{1,2})?$/\<close>\<close>

definition is_decimal :: "string \<Rightarrow> bool" where
  "is_decimal s \<longleftrightarrow>
     (let ip = takeWhile is_digit s; rest = dropWhile is_digit s
      in ip \<noteq> [] \<and>
         (case rest of
            [] \<Rightarrow> True
          | c # ds \<Rightarrow> c = CHR ''.'' \<and> (length ds = 1 \<or> length ds = 2) \<and> list_all is_digit ds))"

text \<open>\<open>const [integerPart, decimalPartRaw] = amount.split(".")\<close>\<close>

definition split_dot :: "string \<Rightarrow> string \<times> string option" where
  "split_dot s =
     (let ip = takeWhile (\<lambda>c. c \<noteq> CHR ''.'') s; rest = dropWhile (\<lambda>c. c \<noteq> CHR ''.'') s
      in (ip, case rest of [] \<Rightarrow> None | _ # ds \<Rightarrow> Some (takeWhile (\<lambda>c. c \<noteq> CHR ''.'') ds)))"

definition pad_end :: "nat \<Rightarrow> char \<Rightarrow> string \<Rightarrow> string" where
  "pad_end n c s = s @ replicate (n - length s) c"

definition pad_start :: "nat \<Rightarrow> char \<Rightarrow> string \<Rightarrow> string" where
  "pad_start n c s = replicate (n - length s) c @ s"

definition fromDecimal :: "string \<Rightarrow> string \<Rightarrow> ledger_error + Money" where
  "fromDecimal amount c =
     (if \<not> is_decimal amount then Inl (Money_Error InvalidDecimal)
      else let (integerPart, decimalPartRaw) = split_dot amount;
               decimalPart = pad_end SCALE CHR ''0'' (case decimalPartRaw of None \<Rightarrow> [] | Some d \<Rightarrow> d);
               u = digits_value integerPart * SCALE_FACTOR + digits_value decimalPart
           in new_Money u c)"

definition fromUnits :: "int \<Rightarrow> string \<Rightarrow> ledger_error + Money" where
  "fromUnits u c = new_Money u c"

definition assertSameCurrency :: "Money \<Rightarrow> Money \<Rightarrow> ledger_error option" where
  "assertSameCurrency a b = throw_if (currency a \<noteq> currency b) (Money_Error CurrencyMismatch)"

definition money_add :: "Money \<Rightarrow> Money \<Rightarrow> ledger_error + Money" where
  "money_add a b =
     ebind (check (assertSameCurrency a b)) (\<lambda>_. new_Money (units a + units b) (currency a))"

definition money_subtract :: "Money \<Rightarrow> Money \<Rightarrow> ledger_error + Money" where
  "money_subtract a b =
     ebind (check (assertSameCurrency a b)) (\<lambda>_.
       if units b > units a then Inl (Money_Error SubtractionNegative)
       else new_Money (units a - units b) (currency a))"

definition money_equals :: "Money \<Rightarrow> Money \<Rightarrow> bool" where
  "money_equals a b \<longleftrightarrow> units a = units b \<and> currency a = currency b"

definition isZero :: "Money \<Rightarrow> bool" where
  "isZero a \<longleftrightarrow> units a = 0"

definition greaterThan :: "Money \<Rightarrow> Money \<Rightarrow> ledger_error + bool" where
  "greaterThan a b = ebind (check (assertSameCurrency a b)) (\<lambda>_. Inr (units a > units b))"

definition toUnits :: "Money \<Rightarrow> int" where
  "toUnits a = units a"

definition money_toString :: "Money \<Rightarrow> string" where
  "money_toString a =
     bigint_string (units a div SCALE_FACTOR) @ ''.''
       @ pad_start SCALE CHR ''0'' (bigint_string (units a mod SCALE_FACTOR))"

section \<open>The invariant of every amount\<close>

definition valid_money :: "Money \<Rightarrow> bool" where
  "valid_money m \<longleftrightarrow> 0 \<le> units m \<and> is_currency (currency m)"

lemma new_Money_Inr [simp]:
  "new_Money u c = Inr m \<longleftrightarrow> 0 \<le> u \<and> is_currency c \<and> m = \<lparr>units = u, currency = c\<rparr>"
  by (auto simp: new_Money_def)

lemma new_Money_ok: "0 \<le> u \<Longrightarrow> is_currency c \<Longrightarrow> new_Money u c = Inr \<lparr>units = u, currency = c\<rparr>"
  by simp

lemma new_Money_valid: "new_Money u c = Inr m \<Longrightarrow> valid_money m"
  by (auto simp: valid_money_def)

lemma money_add_Inr:
  "money_add a b = Inr m \<longleftrightarrow>
     currency a = currency b \<and> 0 \<le> units a + units b \<and> is_currency (currency a) \<and>
     m = \<lparr>units = units a + units b, currency = currency a\<rparr>"
  by (auto simp: money_add_def assertSameCurrency_def ebind_Inr)

lemma money_subtract_Inr:
  "money_subtract a b = Inr m \<longleftrightarrow>
     currency a = currency b \<and> units b \<le> units a \<and> is_currency (currency a) \<and>
     m = \<lparr>units = units a - units b, currency = currency a\<rparr>"
  by (auto simp: money_subtract_def assertSameCurrency_def ebind_Inr)

lemma money_add_valid:
  "valid_money a \<Longrightarrow> valid_money b \<Longrightarrow> currency a = currency b \<Longrightarrow>
   money_add a b = Inr \<lparr>units = units a + units b, currency = currency a\<rparr>"
  by (simp add: money_add_Inr valid_money_def)

section \<open>Reading and writing decimal text\<close>

lemma takeWhile_digits [simp]:
  "list_all is_digit ip \<Longrightarrow> takeWhile is_digit (ip @ CHR ''.'' # ds) = ip"
  "list_all is_digit ip \<Longrightarrow> takeWhile is_digit ip = ip"
  "list_all is_digit ip \<Longrightarrow> dropWhile is_digit (ip @ CHR ''.'' # ds) = CHR ''.'' # ds"
  "list_all is_digit ip \<Longrightarrow> dropWhile is_digit ip = []"
  by (induction ip) (auto simp: is_digit_of_char)

lemma digit_not_dot: "is_digit c \<Longrightarrow> c \<noteq> CHR ''.''"
  by (auto simp: is_digit_of_char)

lemma takeWhile_dot:
  "list_all is_digit ip \<Longrightarrow> takeWhile (\<lambda>c. c \<noteq> CHR ''.'') ip = ip"
  "list_all is_digit ip \<Longrightarrow> takeWhile (\<lambda>c. c \<noteq> CHR ''.'') (ip @ CHR ''.'' # ds) = ip"
  "list_all is_digit ip \<Longrightarrow> dropWhile (\<lambda>c. c \<noteq> CHR ''.'') ip = []"
  "list_all is_digit ip \<Longrightarrow> dropWhile (\<lambda>c. c \<noteq> CHR ''.'') (ip @ CHR ''.'' # ds) = CHR ''.'' # ds"
  by (induction ip) (auto dest: digit_not_dot)

text \<open>The two shapes of text the pattern admits.\<close>

lemma is_decimal_cases:
  "is_decimal s \<longleftrightarrow>
     (\<exists>ip. ip \<noteq> [] \<and> list_all is_digit ip \<and>
        (s = ip \<or> (\<exists>ds. s = ip @ CHR ''.'' # ds \<and> (length ds = 1 \<or> length ds = 2) \<and> list_all is_digit ds)))"
  (is "_ = ?shape")
proof
  assume dec: "is_decimal s"
  let ?ip = "takeWhile is_digit s"
  have ip: "list_all is_digit ?ip"
    by (simp add: list_all_iff) (meson set_takeWhileD)
  have ne: "?ip \<noteq> []" using dec by (simp add: is_decimal_def Let_def)
  have split: "s = ?ip @ dropWhile is_digit s" by simp
  show ?shape
  proof (cases "dropWhile is_digit s")
    case Nil
    with ip ne split show ?thesis by (intro exI [of _ ?ip]) simp
  next
    case (Cons c ds)
    with dec have "c = CHR ''.''" "length ds = 1 \<or> length ds = 2" "list_all is_digit ds"
      by (simp_all add: is_decimal_def Let_def)
    with ip ne split Cons show ?thesis by (intro exI [of _ ?ip]) metis
  qed
next
  assume ?shape
  then show "is_decimal s" by (auto simp: is_decimal_def)
qed

lemma split_dot_shapes:
  "list_all is_digit ip \<Longrightarrow> split_dot ip = (ip, None)"
  "list_all is_digit ip \<Longrightarrow> list_all is_digit ds \<Longrightarrow> split_dot (ip @ CHR ''.'' # ds) = (ip, Some ds)"
  by (simp_all add: split_dot_def takeWhile_dot)

text \<open>The value that a text in one of the two shapes denotes, in minor units.\<close>

lemma fromDecimal_integer:
  "ip \<noteq> [] \<Longrightarrow> list_all is_digit ip \<Longrightarrow> fromDecimal ip c = new_Money (100 * digits_value ip) c"
proof -
  assume ip: "ip \<noteq> []" "list_all is_digit ip"
  then have "is_decimal ip" by (auto simp: is_decimal_cases)
  with ip show ?thesis
    by (simp add: fromDecimal_def split_dot_shapes pad_end_def SCALE_def digits_value_def
        numeral_2_eq_2 digit_value_def algebra_simps)
qed

lemma fromDecimal_two_places:
  assumes "ip \<noteq> []" "list_all is_digit ip" "list_all is_digit ds" "length ds = 2"
  shows "fromDecimal (ip @ CHR ''.'' # ds) c = new_Money (100 * digits_value ip + digits_value ds) c"
proof -
  have "is_decimal (ip @ CHR ''.'' # ds)" using assms by (auto simp: is_decimal_cases)
  with assms show ?thesis
    by (simp add: fromDecimal_def split_dot_shapes pad_end_def SCALE_def algebra_simps)
qed

lemma fromDecimal_one_place:
  assumes "ip \<noteq> []" "list_all is_digit ip" "is_digit d"
  shows "fromDecimal (ip @ CHR ''.'' # [d]) c = new_Money (100 * digits_value ip + 10 * digit_value d) c"
proof -
  have "is_decimal (ip @ CHR ''.'' # [d])" using assms by (auto simp: is_decimal_cases)
  with assms show ?thesis
    by (simp add: fromDecimal_def split_dot_shapes pad_end_def SCALE_def digits_value_def
        digit_value_def algebra_simps)
qed

lemma fromDecimal_valid: "fromDecimal s c = Inr m \<Longrightarrow> valid_money m \<and> currency m = c"
  by (auto simp: fromDecimal_def valid_money_def split: if_splits prod.splits)

text \<open>The digits after the point always take two places.\<close>

lemma cents_string:
  assumes "0 \<le> d" "d < 100"
  shows "length (pad_start 2 CHR ''0'' (bigint_string d)) = 2"
    and "list_all is_digit (pad_start 2 CHR ''0'' (bigint_string d))"
    and "digits_value (pad_start 2 CHR ''0'' (bigint_string d)) = d"
proof -
  have "char_of (of_char (CHR ''0'') :: nat) = CHR ''0''" by (rule char_of_char)
  then have zero: "CHR ''0'' = digit_char 0" by (simp add: digit_char_def)
  have "\<exists>s. pad_start 2 CHR ''0'' (bigint_string d) = s \<and> length s = 2 \<and> list_all is_digit s
      \<and> digits_value s = d"
  proof (cases "d < 10")
    case True
    with assms have "nat_string (nat d) = [digit_char (nat d)]" by (subst nat_string.simps) simp
    with True assms show ?thesis
      by (simp add: bigint_string_def pad_start_def zero digits_value_def)
  next
    case False
    with assms have "nat_string (nat d) = [digit_char (nat d div 10), digit_char (nat d mod 10)]"
      by (subst nat_string.simps, subst nat_string.simps) auto
    with assms int_div_mod_ten [of "nat d"] show ?thesis
      by (simp add: bigint_string_def pad_start_def digits_value_def)
  qed
  then show "length (pad_start 2 CHR ''0'' (bigint_string d)) = 2"
    and "list_all is_digit (pad_start 2 CHR ''0'' (bigint_string d))"
    and "digits_value (pad_start 2 CHR ''0'' (bigint_string d)) = d"
    by auto
qed

lemma fromDecimal_toString:
  assumes "0 \<le> units m"
  shows "fromDecimal (money_toString m) c = new_Money (units m) c"
proof -
  let ?ip = "bigint_string (units m div 100)"
  let ?ds = "pad_start 2 CHR ''0'' (bigint_string (units m mod 100))"
  have ip: "?ip \<noteq> []" "list_all is_digit ?ip" "digits_value ?ip = units m div 100"
    using assms by (simp_all add: bigint_string_def nat_string_digits pos_imp_zdiv_neg_iff)
  have ds: "length ?ds = 2" "list_all is_digit ?ds" "digits_value ?ds = units m mod 100"
    by (rule cents_string; simp)+
  have "money_toString m = ?ip @ CHR ''.'' # ?ds"
    by (simp add: money_toString_def SCALE_def)
  then have "fromDecimal (money_toString m) c
      = new_Money (100 * (units m div 100) + units m mod 100) c"
    using fromDecimal_two_places [OF ip(1,2) ds(2,1)] ip(3) ds(3) by simp
  then show ?thesis by simp
qed

lemma money_toString_inject:
  assumes "0 \<le> units a" "0 \<le> units b" "money_toString a = money_toString b"
  shows "units a = units b"
proof -
  have cur: "is_currency ''BRL''" by (simp add: is_currency_def less_eq_char_def)
  from assms have "new_Money (units a) ''BRL'' = new_Money (units b) ''BRL''"
    by (metis fromDecimal_toString)
  with cur assms show ?thesis by (simp add: new_Money_def)
qed

end
