(* ===== verification/Ledger_Entities.thy ===== *)
theory Ledger_Entities
  imports Ledger_Algebra Ledger_Money
begin

text \<open>
  The value objects and entities of \<open>core/domain\<close>: identifiers, source, normalization metadata,
  parties, objects, reason, reporter, the properties an event is created from and the event itself.
  A value object whose constructor validates has a \<open>new_\<close> function that returns the error it
  throws. \<open>PartyId\<close> and \<open>ObjectId\<close> only wrap a string and are strings here. A \<open>Date\<close> that may be
  unparseable is a \<open>js_date\<close>, \<open>None\<close> for Invalid Date; the instants of a recorded event are valid,
  since recording it wrote them out.
\<close>

type_synonym instant = int
type_synonym js_date = "instant option"

section \<open>Value objects\<close>

definition new_EventId :: "string \<Rightarrow> ledger_error + string" where
  "new_EventId v = (if v = [] then Inl (Value_Error InvalidEventId) else Inr v)"

record EventSource =
  src_system :: string
  src_reference :: string

definition new_EventSource :: "string \<Rightarrow> string \<Rightarrow> ledger_error + EventSource" where
  "new_EventSource sys ref =
     (if sys = [] then Inl (Value_Error SourceSystemRequired)
      else if ref = [] then Inl (Value_Error SourceReferenceRequired)
      else Inr \<lparr>src_system = sys, src_reference = ref\<rparr>)"

record NormalizationMetadata =
  norm_version :: string
  norm_workerId :: string

definition new_NormalizationMetadata :: "string \<Rightarrow> string \<Rightarrow> ledger_error + NormalizationMetadata" where
  "new_NormalizationMetadata v w =
     (if v = [] then Inl (Value_Error NormalizationVersionRequired)
      else if w = [] then Inl (Value_Error WorkerIdRequired)
      else Inr \<lparr>norm_version = v, norm_workerId = w\<rparr>)"

section \<open>Parts of an event\<close>

record LedgerEventParty =
  party_id :: string
  party_role :: PartyRole
  party_direction :: Direction
  party_amount :: "Money option"

record LedgerEventObject =
  obj_id :: string
  obj_type :: ObjectType
  obj_relation :: Relation

record EventReason =
  rsn_type :: ReasonType
  rsn_description :: string
  rsn_confidence :: ConfidenceLevel
  rsn_requiresFollowup :: bool

record EventReporter =
  rep_type :: ReporterType
  rep_id :: string
  rep_name :: "string option"
  rep_reportedAt :: instant
  rep_channel :: string

section \<open>The properties of an event and the event\<close>

record CreateLedgerEventProps =
  pr_id :: string
  pr_eventType :: EventType
  pr_economicEffect :: EconomicEffect
  pr_occurredAt :: js_date
  pr_sourceAt :: "js_date option"
  pr_dueAt :: "js_date option"
  pr_amount :: Money
  pr_description :: "string option"
  pr_source :: EventSource
  pr_normalization :: NormalizationMetadata
  pr_previousHash :: "string option"
  pr_commandId :: "string option"
  pr_relatedEventId :: "string option"
  pr_parties :: "LedgerEventParty list"
  pr_objects :: "LedgerEventObject list"
  pr_reason :: "EventReason option"
  pr_reporter :: EventReporter

record LedgerEvent =
  ev_id :: string
  ev_eventType :: EventType
  ev_economicEffect :: EconomicEffect
  ev_occurredAt :: instant
  ev_recordedAt :: instant
  ev_sourceAt :: "instant option"
  ev_dueAt :: "instant option"
  ev_amount :: Money
  ev_description :: "string option"
  ev_source :: EventSource
  ev_normalization :: NormalizationMetadata
  ev_hash :: string
  ev_previousHash :: "string option"
  ev_commandId :: "string option"
  ev_relatedEventId :: "string option"
  ev_parties :: "LedgerEventParty list"
  ev_objects :: "LedgerEventObject list"
  ev_reason :: "EventReason option"
  ev_reporter :: EventReporter

section \<open>Objects and relations\<close>

definition has_relation :: "Relation \<Rightarrow> LedgerEventObject list \<Rightarrow> bool" where
  "has_relation r objs = list_ex (\<lambda>ob. obj_relation ob = r) objs"

lemma has_relation_iff: "has_relation r objs \<longleftrightarrow> (\<exists>ob\<in>set objs. obj_relation ob = r)"
  by (simp add: has_relation_def list_ex_Bex)

definition unknown_origin_declared :: "EventReason option \<Rightarrow> bool" where
  "unknown_origin_declared rs =
     (case rs of None \<Rightarrow> False
      | Some r \<Rightarrow> rsn_type r = ReasonType.UNKNOWN_ORIGIN \<and> rsn_requiresFollowup r)"

lemma new_EventSource_Inr:
  "new_EventSource s r = Inr x \<longleftrightarrow> s \<noteq> [] \<and> r \<noteq> [] \<and> x = \<lparr>src_system = s, src_reference = r\<rparr>"
  by (auto simp: new_EventSource_def)

lemma new_NormalizationMetadata_Inr:
  "new_NormalizationMetadata v w = Inr x \<longleftrightarrow>
     v \<noteq> [] \<and> w \<noteq> [] \<and> x = \<lparr>norm_version = v, norm_workerId = w\<rparr>"
  by (auto simp: new_NormalizationMetadata_def)

lemma new_EventId_Inr: "new_EventId v = Inr x \<longleftrightarrow> v \<noteq> [] \<and> x = v"
  by (auto simp: new_EventId_def)

end
