(* ===== verification/Invariant_Policy.thy ===== *)
theory Invariant_Policy
  imports Ledger_Entities
begin

text \<open>
  \<open>InvariantPolicy.validateSemantic\<close>: the thirteen numbered steps that check an event against the
  semantic contract of its type and the formal matrices. Each step is a definition that returns the
  error of the first throw statement of the step that fires; the policy reports the first step that
  fails. The table lookup cannot miss (the contract of every member of the enumeration exists), so
  the missing-contract branch of the source has no counterpart.

  The declarative reading \<open>admissible\<close> says the same as one conjunction without order, and
  \<open>validateSemantic_iff\<close> shows the checker decides it. The rest derives what every admitted event
  satisfies.
\<close>

section \<open>The steps\<close>

abbreviation contract_of :: "CreateLedgerEventProps \<Rightarrow> EventSemanticContract" where
  "contract_of p \<equiv> EVENT_CONTRACTS (pr_eventType p)"

definition is_contextual :: "LedgerEventObject \<Rightarrow> bool" where
  "is_contextual ob \<longleftrightarrow> OBJECT_NATURE_MATRIX (obj_type ob) = ObjectNature.CONTEXTUAL"

definition positionalObjects :: "CreateLedgerEventProps \<Rightarrow> LedgerEventObject list" where
  "positionalObjects p = filter (\<lambda>ob. \<not> is_contextual ob) (pr_objects p)"

definition contextualObjects :: "CreateLedgerEventProps \<Rightarrow> LedgerEventObject list" where
  "contextualObjects p = filter is_contextual (pr_objects p)"

definition step1_effect :: "CreateLedgerEventProps \<Rightarrow> policy_error option" where
  "step1_effect p =
     throw_if (pr_economicEffect p \<notin> set (economicEffects (contract_of p)))
       (EffectNotAllowed (pr_economicEffect p) (pr_eventType p))"

definition step2_effect_relation :: "CreateLedgerEventProps \<Rightarrow> policy_error option" where
  "step2_effect_relation p =
     throw_any (\<lambda>ob. throw_if
         (obj_relation ob \<notin> set (ECONOMIC_EFFECT_RELATION_MATRIX (pr_economicEffect p)))
         (RelationForEffect (obj_relation ob) (pr_economicEffect p)))
       (positionalObjects p)"

definition step3_object_relation :: "CreateLedgerEventProps \<Rightarrow> policy_error option" where
  "step3_object_relation p =
     throw_any (\<lambda>ob. case OBJECT_RELATION_MATRIX (obj_type ob) of
           None \<Rightarrow> None
         | Some allowed \<Rightarrow>
             throw_if (obj_relation ob \<notin> set allowed)
               (RelationForObject (obj_relation ob) (obj_type ob)))
       (pr_objects p)"

definition step4_contract_objects :: "CreateLedgerEventProps \<Rightarrow> policy_error option" where
  "step4_contract_objects p =
     throw_any (\<lambda>ob. case find (\<lambda>c. co_objectType c = obj_type ob) (contractObjects (contract_of p)) of
           None \<Rightarrow> Some (ObjectForEvent (obj_type ob) (pr_eventType p))
         | Some c \<Rightarrow>
             throw_if (obj_relation ob \<notin> set (co_relations c))
               (RelationForContract (obj_relation ob) (obj_type ob) (pr_eventType p)))
       (positionalObjects p)"

definition step5_reason :: "CreateLedgerEventProps \<Rightarrow> policy_error option" where
  "step5_reason p =
     (case reasons (contract_of p) of
        None \<Rightarrow> None
      | Some rs \<Rightarrow>
          (case pr_reason p of
             None \<Rightarrow> Some ReasonMissing
           | Some r \<Rightarrow> throw_if (rsn_type r \<notin> set rs) (ReasonForEvent (rsn_type r) (pr_eventType p))))"

definition step6_reason_effect :: "CreateLedgerEventProps \<Rightarrow> policy_error option" where
  "step6_reason_effect p =
     (case pr_reason p of
        None \<Rightarrow> None
      | Some r \<Rightarrow>
          (case REASON_EFFECT_MATRIX (rsn_type r) of
             None \<Rightarrow> None
           | Some allowed \<Rightarrow>
               throw_if (pr_economicEffect p \<notin> set allowed)
                 (ReasonForEffect (rsn_type r) (pr_economicEffect p))))"

definition step7_reason_relation :: "CreateLedgerEventProps \<Rightarrow> policy_error option" where
  "step7_reason_relation p =
     (case pr_reason p of
        None \<Rightarrow> None
      | Some r \<Rightarrow>
          (case REASON_RELATION_MATRIX (rsn_type r) of
             None \<Rightarrow> None
           | Some allowed \<Rightarrow>
               throw_any (\<lambda>ob. throw_if (obj_relation ob \<notin> set allowed)
                   (ReasonForRelation (rsn_type r) (obj_relation ob)))
                 (positionalObjects p)))"

fun confidence_rank :: "ConfidenceLevel \<Rightarrow> int" where
  "confidence_rank ConfidenceLevel.LOW = 1"
| "confidence_rank ConfidenceLevel.MEDIUM = 2"
| "confidence_rank ConfidenceLevel.HIGH = 3"

definition step8_confidence :: "CreateLedgerEventProps \<Rightarrow> policy_error option" where
  "step8_confidence p =
     (case (minConfidence (contract_of p), pr_reason p) of
        (Some least, Some r) \<Rightarrow>
          throw_if (confidence_rank (rsn_confidence r) < confidence_rank least) InsufficientConfidence
      | _ \<Rightarrow> None)"

definition step9_previous_hash :: "CreateLedgerEventProps \<Rightarrow> policy_error option" where
  "step9_previous_hash p =
     first_error
       [throw_if (has_relation Relation.REVERSES (positionalObjects p) \<and> pr_previousHash p = None)
          ReversalHash,
        throw_if (requiresPreviousHash (contract_of p) \<and> pr_previousHash p = None)
          (PreviousHashMissing (pr_eventType p))]"

definition step10_related :: "CreateLedgerEventProps \<Rightarrow> policy_error option" where
  "step10_related p =
     (if requiresRelatedEventId (contract_of p) \<and> \<not> truthy (pr_relatedEventId p)
      then throw_if (\<not> unknown_origin_declared (pr_reason p)) (RelatedMissing (pr_eventType p))
      else None)"

definition step11_contextual :: "CreateLedgerEventProps \<Rightarrow> policy_error option" where
  "step11_contextual p =
     throw_any (\<lambda>ob. throw_if (obj_relation ob \<noteq> Relation.REFERENCES)
         (ContextualRelation (obj_type ob)))
       (contextualObjects p)"

definition step12_retraction :: "CreateLedgerEventProps \<Rightarrow> policy_error option" where
  "step12_retraction p =
     (if filter (\<lambda>ob. obj_relation ob = Relation.RETRACTS) (pr_objects p) \<noteq> []
      then first_error
        [throw_if (\<not> truthy (pr_relatedEventId p)) RetractionTarget,
         throw_if (filter (\<lambda>ob. obj_relation ob \<noteq> Relation.RETRACTS) (pr_objects p) \<noteq> [])
           RetractionFlows]
      else None)"

definition step13_due :: "CreateLedgerEventProps \<Rightarrow> policy_error option" where
  "step13_due p =
     (case pr_dueAt p of
        None \<Rightarrow> None
      | Some _ \<Rightarrow>
          first_error
            [throw_if (\<not> admitsDueAt (contract_of p)) (DueAtNotAdmitted (pr_eventType p)),
             throw_if (\<not> has_relation Relation.ORIGINATES (pr_objects p)) DueAtNotOriginating])"

definition validateSemantic :: "CreateLedgerEventProps \<Rightarrow> policy_error option" where
  "validateSemantic p =
     first_error
       [step1_effect p, step2_effect_relation p, step3_object_relation p, step4_contract_objects p,
        step5_reason p, step6_reason_effect p, step7_reason_relation p, step8_confidence p,
        step9_previous_hash p, step10_related p, step11_contextual p, step12_retraction p,
        step13_due p]"

lemmas step_defs [policy_defs] =
  step1_effect_def step2_effect_relation_def step3_object_relation_def step4_contract_objects_def
  step5_reason_def step6_reason_effect_def step7_reason_relation_def step8_confidence_def
  step9_previous_hash_def step10_related_def step11_contextual_def step12_retraction_def
  step13_due_def

section \<open>The declarative reading\<close>

text \<open>One positional object is admissible when every table admits its tuple.\<close>

definition admissible_object :: "CreateLedgerEventProps \<Rightarrow> EventReason \<Rightarrow> LedgerEventObject \<Rightarrow> bool" where
  "admissible_object p r ob \<longleftrightarrow>
     tuple_admissible (pr_eventType p) (pr_economicEffect p) (obj_type ob) (obj_relation ob) (rsn_type r)"

definition admissible :: "CreateLedgerEventProps \<Rightarrow> bool" where
  "admissible p \<longleftrightarrow>
     pr_economicEffect p \<in> set (economicEffects (contract_of p)) \<and>
     (\<exists>r. pr_reason p = Some r \<and>
        allowed_by (reasons (contract_of p)) (rsn_type r) \<and>
        allowed_by (REASON_EFFECT_MATRIX (rsn_type r)) (pr_economicEffect p) \<and>
        (\<forall>least. minConfidence (contract_of p) = Some least \<longrightarrow>
           confidence_rank least \<le> confidence_rank (rsn_confidence r)) \<and>
        (\<forall>ob\<in>set (pr_objects p).
           if is_contextual ob then obj_relation ob = Relation.REFERENCES
           else admissible_object p r ob)) \<and>
     (pr_previousHash p = None \<longrightarrow>
        \<not> requiresPreviousHash (contract_of p) \<and> \<not> has_relation Relation.REVERSES (pr_objects p)) \<and>
     (requiresRelatedEventId (contract_of p) \<longrightarrow>
        truthy (pr_relatedEventId p) \<or> unknown_origin_declared (pr_reason p)) \<and>
     (has_relation Relation.RETRACTS (pr_objects p) \<longrightarrow>
        truthy (pr_relatedEventId p) \<and> (\<forall>ob\<in>set (pr_objects p). obj_relation ob = Relation.RETRACTS)) \<and>
     (pr_dueAt p \<noteq> None \<longrightarrow>
        admitsDueAt (contract_of p) \<and> has_relation Relation.ORIGINATES (pr_objects p))"

section \<open>Facts about the tables\<close>

lemma contract_reasons_some: "reasons (EVENT_CONTRACTS ty) \<noteq> None"
  by (cases ty) (simp_all add: algebra_simps_tables)

lemma object_relations_some: "OBJECT_RELATION_MATRIX ob \<noteq> None"
  by (cases ob) simp_all

lemma contextual_references:
  "OBJECT_NATURE_MATRIX ob = ObjectNature.CONTEXTUAL \<Longrightarrow>
   OBJECT_RELATION_MATRIX ob = Some [Relation.REFERENCES]"
  by (cases ob) simp_all

lemma positional_not_references:
  "OBJECT_NATURE_MATRIX ob \<noteq> ObjectNature.CONTEXTUAL \<Longrightarrow>
   \<not> allowed_by (OBJECT_RELATION_MATRIX ob) Relation.REFERENCES"
  by (cases ob) (simp_all add: allowed_by_def)

lemma no_contract_contingent:
  "EconomicEffect.CONTINGENT \<notin> set (economicEffects (EVENT_CONTRACTS ty))"
  by (cases ty) (simp_all add: algebra_simps_tables)

lemma retracts_only_by_correction:
  assumes "contract_entry ty ob = Some c" and "Relation.RETRACTS \<in> set (co_relations c)"
  shows "ty = EventType.LEDGER_CORRECTION"
proof -
  from assms(1) have "c \<in> set (contractObjects (EVENT_CONTRACTS ty))"
    by (auto simp: contract_entry_def dest: find_SomeD)
  with assms(2) show ?thesis by (cases ty) (auto simp: algebra_simps_tables)
qed

lemma correction_non_cash:
  "ef \<in> set (economicEffects (EVENT_CONTRACTS EventType.LEDGER_CORRECTION)) \<Longrightarrow>
   ef = EconomicEffect.NON_CASH"
  by (simp add: algebra_simps_tables)

lemma reverses_non_cash:
  "Relation.REVERSES \<in> set (ECONOMIC_EFFECT_RELATION_MATRIX ef) \<Longrightarrow> ef = EconomicEffect.NON_CASH"
  by (cases ef) simp_all

lemma due_only_recognition:
  "admitsDueAt (EVENT_CONTRACTS ty) \<longleftrightarrow> ty = EventType.OBLIGATION_RECOGNIZED"
  by (cases ty) (simp_all add: algebra_simps_tables)

section \<open>The checker decides the declarative reading\<close>

lemma step1_None: "step1_effect p = None \<longleftrightarrow> pr_economicEffect p \<in> set (economicEffects (contract_of p))"
  by (simp add: step1_effect_def)

lemma step2_None:
  "step2_effect_relation p = None \<longleftrightarrow>
     (\<forall>ob\<in>set (pr_objects p). \<not> is_contextual ob \<longrightarrow>
        obj_relation ob \<in> set (ECONOMIC_EFFECT_RELATION_MATRIX (pr_economicEffect p)))"
  by (auto simp: step2_effect_relation_def throw_any_None positionalObjects_def)

lemma step3_None:
  "step3_object_relation p = None \<longleftrightarrow>
     (\<forall>ob\<in>set (pr_objects p). allowed_by (OBJECT_RELATION_MATRIX (obj_type ob)) (obj_relation ob))"
  by (auto simp: step3_object_relation_def throw_any_None allowed_by_def split: option.splits)

lemma step4_None:
  "step4_contract_objects p = None \<longleftrightarrow>
     (\<forall>ob\<in>set (pr_objects p). \<not> is_contextual ob \<longrightarrow>
        (case contract_entry (pr_eventType p) (obj_type ob) of
           None \<Rightarrow> False | Some c \<Rightarrow> obj_relation ob \<in> set (co_relations c)))"
  by (auto simp: step4_contract_objects_def throw_any_None positionalObjects_def contract_entry_def
      split: option.splits)

lemma step5_None:
  "step5_reason p = None \<longleftrightarrow>
     (\<exists>r. pr_reason p = Some r \<and> allowed_by (reasons (contract_of p)) (rsn_type r))"
  using contract_reasons_some [of "pr_eventType p"]
  by (auto simp: step5_reason_def allowed_by_def split: option.splits)

lemma step6_None:
  "pr_reason p = Some r \<Longrightarrow>
   step6_reason_effect p = None \<longleftrightarrow> allowed_by (REASON_EFFECT_MATRIX (rsn_type r)) (pr_economicEffect p)"
  by (auto simp: step6_reason_effect_def allowed_by_def split: option.splits)

lemma step7_None:
  "pr_reason p = Some r \<Longrightarrow>
   step7_reason_relation p = None \<longleftrightarrow>
     (\<forall>ob\<in>set (pr_objects p). \<not> is_contextual ob \<longrightarrow>
        allowed_by (REASON_RELATION_MATRIX (rsn_type r)) (obj_relation ob))"
  by (auto simp: step7_reason_relation_def allowed_by_def throw_any_None positionalObjects_def
      split: option.splits)

lemma step8_None:
  "pr_reason p = Some r \<Longrightarrow>
   step8_confidence p = None \<longleftrightarrow>
     (\<forall>least. minConfidence (contract_of p) = Some least \<longrightarrow>
        confidence_rank least \<le> confidence_rank (rsn_confidence r))"
  by (auto simp: step8_confidence_def split: option.splits)

lemma step9_None:
  "step9_previous_hash p = None \<longleftrightarrow>
     (pr_previousHash p = None \<longrightarrow>
        \<not> requiresPreviousHash (contract_of p) \<and> \<not> has_relation Relation.REVERSES (positionalObjects p))"
  by (auto simp: step9_previous_hash_def first_error_None_iff)

lemma step10_None:
  "step10_related p = None \<longleftrightarrow>
     (requiresRelatedEventId (contract_of p) \<longrightarrow>
        truthy (pr_relatedEventId p) \<or> unknown_origin_declared (pr_reason p))"
  by (auto simp: step10_related_def)

lemma step11_None:
  "step11_contextual p = None \<longleftrightarrow>
     (\<forall>ob\<in>set (pr_objects p). is_contextual ob \<longrightarrow> obj_relation ob = Relation.REFERENCES)"
  by (auto simp: step11_contextual_def throw_any_None contextualObjects_def)

lemma step12_None:
  "step12_retraction p = None \<longleftrightarrow>
     (has_relation Relation.RETRACTS (pr_objects p) \<longrightarrow>
        truthy (pr_relatedEventId p) \<and> (\<forall>ob\<in>set (pr_objects p). obj_relation ob = Relation.RETRACTS))"
  by (auto simp: step12_retraction_def first_error_None_iff has_relation_iff filter_empty_conv)

lemma step13_None:
  "step13_due p = None \<longleftrightarrow>
     (pr_dueAt p \<noteq> None \<longrightarrow>
        admitsDueAt (contract_of p) \<and> has_relation Relation.ORIGINATES (pr_objects p))"
  by (auto simp: step13_due_def first_error_None_iff split: option.splits)

lemmas steps_None = step1_None step2_None step3_None step4_None step5_None step9_None step10_None
  step11_None step12_None step13_None

lemma validateSemantic_steps:
  "validateSemantic p = None \<longleftrightarrow>
     step1_effect p = None \<and> step2_effect_relation p = None \<and> step3_object_relation p = None \<and>
     step4_contract_objects p = None \<and> step5_reason p = None \<and> step6_reason_effect p = None \<and>
     step7_reason_relation p = None \<and> step8_confidence p = None \<and> step9_previous_hash p = None \<and>
     step10_related p = None \<and> step11_contextual p = None \<and> step12_retraction p = None \<and>
     step13_due p = None"
  by (simp add: validateSemantic_def first_error_None_iff)

lemma has_relation_positional:
  assumes "\<forall>ob\<in>set (pr_objects p). is_contextual ob \<longrightarrow> obj_relation ob = Relation.REFERENCES"
    and "r \<noteq> Relation.REFERENCES"
  shows "has_relation r (positionalObjects p) = has_relation r (pr_objects p)"
  using assms by (auto simp: has_relation_iff positionalObjects_def)

lemma object_step_admissible:
  assumes eff: "pr_economicEffect p \<in> set (economicEffects (contract_of p))"
    and rs: "allowed_by (reasons (contract_of p)) (rsn_type r)"
    and re: "allowed_by (REASON_EFFECT_MATRIX (rsn_type r)) (pr_economicEffect p)"
  shows "(obj_relation ob \<in> set (ECONOMIC_EFFECT_RELATION_MATRIX (pr_economicEffect p)) \<and>
      allowed_by (OBJECT_RELATION_MATRIX (obj_type ob)) (obj_relation ob) \<and>
      (case contract_entry (pr_eventType p) (obj_type ob) of
         None \<Rightarrow> False | Some c \<Rightarrow> obj_relation ob \<in> set (co_relations c)) \<and>
      allowed_by (REASON_RELATION_MATRIX (rsn_type r)) (obj_relation ob))
    \<longleftrightarrow> admissible_object p r ob"
  using assms by (auto simp: admissible_object_def tuple_admissible_def)

lemma contextual_allowed:
  "is_contextual ob \<Longrightarrow>
   allowed_by (OBJECT_RELATION_MATRIX (obj_type ob)) (obj_relation ob) \<longleftrightarrow>
     obj_relation ob = Relation.REFERENCES"
  by (simp add: is_contextual_def contextual_references allowed_by_def)

lemma objects_steps:
  assumes "pr_reason p = Some r"
    and "pr_economicEffect p \<in> set (economicEffects (contract_of p))"
    and "allowed_by (reasons (contract_of p)) (rsn_type r)"
    and "allowed_by (REASON_EFFECT_MATRIX (rsn_type r)) (pr_economicEffect p)"
  shows "(step2_effect_relation p = None \<and> step3_object_relation p = None \<and>
          step4_contract_objects p = None \<and> step7_reason_relation p = None \<and>
          step11_contextual p = None) \<longleftrightarrow>
    (\<forall>ob\<in>set (pr_objects p).
       if is_contextual ob then obj_relation ob = Relation.REFERENCES else admissible_object p r ob)"
  unfolding step2_None step3_None step4_None step7_None [OF assms(1)] step11_None
    object_step_admissible [OF assms(2-4), symmetric]
  using contextual_allowed by (auto split: if_splits)

lemma admissible_Some:
  "pr_reason p = Some r \<Longrightarrow>
   admissible p \<longleftrightarrow>
     pr_economicEffect p \<in> set (economicEffects (contract_of p)) \<and>
     allowed_by (reasons (contract_of p)) (rsn_type r) \<and>
     allowed_by (REASON_EFFECT_MATRIX (rsn_type r)) (pr_economicEffect p) \<and>
     (\<forall>least. minConfidence (contract_of p) = Some least \<longrightarrow>
        confidence_rank least \<le> confidence_rank (rsn_confidence r)) \<and>
     (\<forall>ob\<in>set (pr_objects p).
        if is_contextual ob then obj_relation ob = Relation.REFERENCES else admissible_object p r ob) \<and>
     (pr_previousHash p = None \<longrightarrow>
        \<not> requiresPreviousHash (contract_of p) \<and> \<not> has_relation Relation.REVERSES (pr_objects p)) \<and>
     (requiresRelatedEventId (contract_of p) \<longrightarrow>
        truthy (pr_relatedEventId p) \<or> unknown_origin_declared (pr_reason p)) \<and>
     (has_relation Relation.RETRACTS (pr_objects p) \<longrightarrow>
        truthy (pr_relatedEventId p) \<and> (\<forall>ob\<in>set (pr_objects p). obj_relation ob = Relation.RETRACTS)) \<and>
     (pr_dueAt p \<noteq> None \<longrightarrow>
        admitsDueAt (contract_of p) \<and> has_relation Relation.ORIGINATES (pr_objects p))"
  by (simp add: admissible_def)

lemma validateSemantic_iff: "validateSemantic p = None \<longleftrightarrow> admissible p"
proof (cases "pr_reason p")
  case None
  then show ?thesis
    by (auto simp: validateSemantic_steps step5_None admissible_def)
next
  case (Some r)
  note s678 = step6_None [OF Some] step8_None [OF Some]
  show ?thesis
  proof (cases "pr_economicEffect p \<in> set (economicEffects (contract_of p)) \<and>
      allowed_by (reasons (contract_of p)) (rsn_type r) \<and>
      allowed_by (REASON_EFFECT_MATRIX (rsn_type r)) (pr_economicEffect p)")
    case False
    then show ?thesis
      by (auto simp: validateSemantic_steps step1_None step5_None s678 admissible_def Some)
  next
    case True
    then have objs: "(step2_effect_relation p = None \<and> step3_object_relation p = None \<and>
          step4_contract_objects p = None \<and> step7_reason_relation p = None \<and>
          step11_contextual p = None) \<longleftrightarrow>
        (\<forall>ob\<in>set (pr_objects p).
           if is_contextual ob then obj_relation ob = Relation.REFERENCES else admissible_object p r ob)"
      (is "?A \<longleftrightarrow> ?B")
      using objects_steps [OF Some] by blast
    have pos: "?B \<Longrightarrow>
        has_relation Relation.REVERSES (positionalObjects p) = has_relation Relation.REVERSES (pr_objects p)"
      by (rule has_relation_positional) auto
    have "validateSemantic p = None \<longleftrightarrow>
        ?A \<and> step8_confidence p = None \<and> step9_previous_hash p = None \<and> step10_related p = None \<and>
        step12_retraction p = None \<and> step13_due p = None"
      using True by (auto simp: validateSemantic_steps step1_None step5_None s678(1) Some)
    also have "\<dots> \<longleftrightarrow> admissible p"
    proof (cases ?B)
      case B: True
      then have ?A by (simp only: objs)
      then show ?thesis
        unfolding s678(2) step9_None step10_None step12_None step13_None admissible_Some [OF Some]
          pos [OF B]
        using B True by blast
    next
      case False
      then have "\<not> ?A" by (simp only: objs) simp
      moreover from False have "\<not> admissible p" by (auto simp: admissible_def Some)
      ultimately show ?thesis by blast
    qed
    finally show ?thesis .
  qed
qed

section \<open>What every admitted event satisfies\<close>

lemma admissible_positional:
  assumes "admissible p" and "ob \<in> set (pr_objects p)" and "\<not> is_contextual ob"
  shows "\<exists>r. pr_reason p = Some r \<and>
    tuple_admissible (pr_eventType p) (pr_economicEffect p) (obj_type ob) (obj_relation ob) (rsn_type r)"
  using assms by (auto simp: admissible_def admissible_object_def split: if_splits)

lemma admissible_contextual:
  "admissible p \<Longrightarrow> ob \<in> set (pr_objects p) \<Longrightarrow>
   is_contextual ob \<longleftrightarrow> obj_relation ob = Relation.REFERENCES"
proof
  assume "admissible p" "ob \<in> set (pr_objects p)" "is_contextual ob"
  then show "obj_relation ob = Relation.REFERENCES"
    by (auto simp: admissible_def split: if_splits)
next
  assume adm: "admissible p" "ob \<in> set (pr_objects p)" and "obj_relation ob = Relation.REFERENCES"
  then show "is_contextual ob"
    using admissible_positional [OF adm] positional_not_references [of "obj_type ob"]
    by (auto simp: tuple_admissible_def is_contextual_def)
qed

lemma admissible_not_contingent: "admissible p \<Longrightarrow> pr_economicEffect p \<noteq> EconomicEffect.CONTINGENT"
  using no_contract_contingent by (auto simp: admissible_def)

lemma admissible_retraction:
  assumes "admissible p" and "has_relation Relation.RETRACTS (pr_objects p)"
  shows "pr_eventType p = EventType.LEDGER_CORRECTION"
    and "pr_economicEffect p = EconomicEffect.NON_CASH"
    and "truthy (pr_relatedEventId p)"
    and "\<forall>ob\<in>set (pr_objects p). obj_relation ob = Relation.RETRACTS \<and> \<not> is_contextual ob"
    and "pr_previousHash p \<noteq> None"
proof -
  from assms show "truthy (pr_relatedEventId p)" by (simp add: admissible_def)
  from assms have all: "\<forall>ob\<in>set (pr_objects p). obj_relation ob = Relation.RETRACTS"
    by (simp add: admissible_def)
  with assms(1) show objs:
    "\<forall>ob\<in>set (pr_objects p). obj_relation ob = Relation.RETRACTS \<and> \<not> is_contextual ob"
    using admissible_contextual by fastforce
  from assms(2) obtain ob where ob: "ob \<in> set (pr_objects p)" by (auto simp: has_relation_iff)
  with objs assms(1) obtain r where "tuple_admissible (pr_eventType p) (pr_economicEffect p)
      (obj_type ob) Relation.RETRACTS r"
    using admissible_positional by metis
  then show ty: "pr_eventType p = EventType.LEDGER_CORRECTION"
    by (auto simp: tuple_admissible_def split: option.splits intro: retracts_only_by_correction)
  with assms(1) show "pr_economicEffect p = EconomicEffect.NON_CASH"
    using correction_non_cash by (simp add: admissible_def)
  from ty assms(1) show "pr_previousHash p \<noteq> None"
    by (auto simp: admissible_def algebra_simps_tables)
qed

lemma admissible_reversal:
  assumes "admissible p" and "has_relation Relation.REVERSES (pr_objects p)"
  shows "pr_economicEffect p = EconomicEffect.NON_CASH" and "pr_previousHash p \<noteq> None"
proof -
  from assms(2) obtain ob where ob: "ob \<in> set (pr_objects p)" "obj_relation ob = Relation.REVERSES"
    by (auto simp: has_relation_iff)
  with assms(1) have "\<not> is_contextual ob" using admissible_contextual by fastforce
  with ob assms(1) show "pr_economicEffect p = EconomicEffect.NON_CASH"
    using admissible_positional [of p ob] reverses_non_cash by (auto simp: tuple_admissible_def)
  from assms show "pr_previousHash p \<noteq> None" by (auto simp: admissible_def)
qed

end
