(* ===== verification/Canonical_Hash.thy ===== *)
theory Canonical_Hash
  imports Ledger_Errors
begin

text \<open>
  \<open>EventHash.ts\<close>: the canonical text of a value (object keys sorted, no white space) and its
  SHA-256. The values the ledger hashes are made of \<open>null\<close>, booleans, strings, arrays and objects,
  so the datatype has those. The digest is a parameter (it is the platform's). The theory shows that
  the canonical text determines the value up to the order of object keys: no string, however
  crafted, makes two different contents look alike.
\<close>

datatype json =
    JNull
  | JBool bool
  | JStr string
  | JArr "json list"
  | JObj "(string \<times> json) list"

section \<open>\<open>JSON.stringify\<close> of a string\<close>

definition short_escapes :: "(char \<times> char) list" where
  "short_escapes =
     [(CHR 0x22, CHR 0x22), (CHR 0x5C, CHR 0x5C), (CHR 0x08, CHR ''b''), (CHR 0x0C, CHR ''f''),
      (CHR 0x0A, CHR ''n''), (CHR 0x0D, CHR ''r''), (CHR 0x09, CHR ''t'')]"

definition hex_digit :: "nat \<Rightarrow> char" where
  "hex_digit d = (if d < 10 then char_of (48 + d) else char_of (87 + d))"

definition json_escape :: "char \<Rightarrow> string" where
  "json_escape c =
     (case map_of short_escapes c of
        Some e \<Rightarrow> [CHR 0x5C, e]
      | None \<Rightarrow>
          if (of_char c :: nat) < 32
          then [CHR 0x5C, CHR ''u'', CHR ''0'', CHR ''0'',
                hex_digit (of_char c div 16), hex_digit (of_char c mod 16)]
          else [c])"

definition stringify :: "string \<Rightarrow> string" where
  "stringify s = CHR 0x22 # concat (map json_escape s) @ [CHR 0x22]"

section \<open>The canonical text and the hash\<close>

fun canonicalize :: "json \<Rightarrow> string" where
  "canonicalize JNull = ''null''"
| "canonicalize (JBool b) = (if b then ''true'' else ''false'')"
| "canonicalize (JStr s) = stringify s"
| "canonicalize (JArr vs) = ''['' @ join '','' (map canonicalize vs) @ '']''"
| "canonicalize (JObj kvs) =
     ''{'' @ join '','' (map (\<lambda>(k, c). stringify k @ '':'' @ c)
       (sort_key fst (map (\<lambda>(k, v). (k, canonicalize v)) kvs))) @ ''}''"

definition generateCanonical :: "(string \<Rightarrow> string) \<Rightarrow> json \<Rightarrow> string" where
  "generateCanonical sha256_hex data = sha256_hex (canonicalize data)"

section \<open>Escaping is a prefix code\<close>

lemma short_escapes_fst [simp]: "map_of short_escapes c = Some e \<Longrightarrow> e \<noteq> CHR ''u''"
  by (auto simp: short_escapes_def split: if_splits)

lemma short_escapes_inj:
  "map_of short_escapes c = Some e \<Longrightarrow> map_of short_escapes d = Some e \<Longrightarrow> c = d"
  by (auto simp: short_escapes_def split: if_splits)

lemma hex_digit_inj: "a < 16 \<Longrightarrow> b < 16 \<Longrightarrow> hex_digit a = hex_digit b \<Longrightarrow> a = b"
proof -
  assume ab: "a < 16" "b < 16" "hex_digit a = hex_digit b"
  have val: "(of_char (hex_digit d) :: nat) = (if d < 10 then 48 + d else 87 + d)" if "d < 16" for d
    using that by (simp add: hex_digit_def of_char_of take_bit_eq_mod)
  from ab(3) have "(if a < 10 then 48 + a else 87 + a) = (if b < 10 then 48 + b else 87 + b)"
    using val [OF ab(1)] val [OF ab(2)] by metis
  then show ?thesis using ab(1,2) by (auto split: if_splits)
qed

lemma json_escape_cases:
  obtains e where "map_of short_escapes c = Some e" "json_escape c = [CHR 0x5C, e]" "e \<noteq> CHR ''u''"
  | "(of_char c :: nat) < 32"
    "json_escape c = [CHR 0x5C, CHR ''u'', CHR ''0'', CHR ''0'',
       hex_digit (of_char c div 16), hex_digit (of_char c mod 16)]"
  | "json_escape c = [c]" "c \<noteq> CHR 0x5C" "c \<noteq> CHR 0x22"
proof (cases "map_of short_escapes c")
  case (Some e)
  then show ?thesis using that(1) by (simp add: json_escape_def)
next
  case None
  then have "c \<noteq> CHR 0x5C" "c \<noteq> CHR 0x22" by (auto simp: short_escapes_def split: if_splits)
  with None that(2,3) show ?thesis by (cases "(of_char c :: nat) < 32") (simp_all add: json_escape_def)
qed

lemma control_char_inj:
  assumes "(of_char c :: nat) < 32" "(of_char d :: nat) < 32"
    and "hex_digit (of_char c div 16) = hex_digit (of_char d div 16)"
    and "hex_digit (of_char c mod 16) = hex_digit (of_char d mod 16)"
  shows "c = d"
proof -
  have "(of_char c :: nat) div 16 = of_char d div 16" "(of_char c :: nat) mod 16 = of_char d mod 16"
    using assms by (auto intro!: hex_digit_inj)
  then have "(of_char c :: nat) = of_char d" by (metis div_mult_mod_eq)
  then show ?thesis by simp
qed

lemma json_escape_prefix: "json_escape c @ r = json_escape d @ s \<Longrightarrow> c = d \<and> r = s"
  by (rule json_escape_cases [of c]; rule json_escape_cases [of d])
     (auto dest: short_escapes_inj intro: control_char_inj)

lemma json_escape_hd: "json_escape c \<noteq> [] \<and> hd (json_escape c) \<noteq> CHR 0x22"
  by (rule json_escape_cases [of c]) auto

lemma escaped_prefix:
  "concat (map json_escape s) @ CHR 0x22 # r = concat (map json_escape t) @ CHR 0x22 # q \<Longrightarrow>
   s = t \<and> r = q"
proof (induction s arbitrary: t)
  case Nil
  then show ?case
    using json_escape_hd by (cases t) (auto simp: Cons_eq_append_conv, metis list.sel(1))
next
  case (Cons c s)
  show ?case
  proof (cases t)
    case Nil
    with Cons.prems json_escape_hd [of c] show ?thesis
      by (cases "json_escape c") auto
  next
    case (Cons d t')
    with Cons.prems have "json_escape c @ (concat (map json_escape s) @ CHR 0x22 # r)
        = json_escape d @ (concat (map json_escape t') @ CHR 0x22 # q)" by simp
    from json_escape_prefix [OF this] Cons.IH [of t'] Cons show ?thesis by simp
  qed
qed

lemma stringify_prefix: "stringify s @ r = stringify t @ q \<Longrightarrow> s = t \<and> r = q"
  using escaped_prefix [of s r t q] by (simp add: stringify_def)

section \<open>The canonical text determines the value\<close>

text \<open>Sorting the keys everywhere, then writing without sorting, is the canonical text.\<close>

fun sorted_form :: "json \<Rightarrow> json" where
  "sorted_form (JArr vs) = JArr (map sorted_form vs)"
| "sorted_form (JObj kvs) = JObj (sort_key fst (map (\<lambda>(k, v). (k, sorted_form v)) kvs))"
| "sorted_form v = v"

fun render :: "json \<Rightarrow> string" where
  "render JNull = ''null''"
| "render (JBool b) = (if b then ''true'' else ''false'')"
| "render (JStr s) = stringify s"
| "render (JArr vs) = ''['' @ join '','' (map render vs) @ '']''"
| "render (JObj kvs) = ''{'' @ join '','' (map (\<lambda>(k, v). stringify k @ '':'' @ render v) kvs) @ ''}''"

lemma insort_key_map_snd:
  "insort_key fst (k, f v) (map (\<lambda>(k, v). (k, f v)) xs) = map (\<lambda>(k, v). (k, f v)) (insort_key fst (k, v) xs)"
  by (induction xs) auto

lemma sort_key_map_snd:
  "sort_key fst (map (\<lambda>(k, v). (k, f v)) xs) = map (\<lambda>(k, v). (k, f v)) (sort_key fst xs)"
  by (induction xs) (auto simp: insort_key_map_snd)

lemma canonicalize_norm: "canonicalize v = render (sorted_form v)"
proof (induction v rule: canonicalize.induct)
  case (4 vs)
  then show ?case by (simp cong: map_cong)
next
  case (5 kvs)
  have "map (\<lambda>(k, v). (k, canonicalize v)) kvs = map (\<lambda>(k, v). (k, render (sorted_form v))) kvs"
    using "5.IH" by (auto intro!: map_cong)
  then have keyed: "map (\<lambda>(k, v). (k, canonicalize v)) kvs
      = map (\<lambda>(k, v). (k, render v)) (map (\<lambda>(k, v). (k, sorted_form v)) kvs)"
    by (simp add: case_prod_beta')
  show ?case
    unfolding canonicalize.simps sorted_form.simps render.simps keyed sort_key_map_snd [of render]
    by (simp add: case_prod_beta' comp_def)
qed auto

text \<open>Separated elements are told apart when each element is self-delimiting.\<close>

lemma join_Cons:
  "join sep (map f (z # zs)) @ q = f z @ (if zs = [] then [] else sep @ join sep (map f zs)) @ q"
  by (cases zs) auto

lemma join_prefix:
  assumes "join '','' (map f xs) @ e # r = join '','' (map f ys) @ e # s"
    and "\<And>x y r s. x \<in> set xs \<Longrightarrow> f x @ r = f y @ s \<Longrightarrow> x = y \<and> r = s"
    and ne: "\<And>x. f x \<noteq> []" and hd: "\<And>x. hd (f x) \<noteq> e" and comma: "e \<noteq> CHR '',''"
  shows "xs = ys \<and> r = s"
  using assms(1,2)
proof (induction xs arbitrary: ys)
  case Nil
  show ?case
  proof (cases ys)
    case Nil
    with Nil.prems(1) show ?thesis by simp
  next
    case (Cons y ys')
    have "e # r = join '','' (map f (y # ys')) @ e # s" using Nil.prems(1) Cons by simp
    then have "e # r = f y @ (if ys' = [] then [] else '','' @ join '','' (map f ys')) @ e # s"
      unfolding join_Cons .
    then have "hd (f y) = e" using ne [of y] by (metis hd_append2 list.sel(1))
    with hd show ?thesis by blast
  qed
next
  case (Cons x xs)
  show ?case
  proof (cases ys)
    case Nil
    have "join '','' (map f (x # xs)) @ e # r = e # s" using Cons.prems(1) Nil by simp
    then have "f x @ (if xs = [] then [] else '','' @ join '','' (map f xs)) @ e # r = e # s"
      unfolding join_Cons .
    then have "hd (f x) = e" using ne [of x] by (metis hd_append2 list.sel(1))
    with hd show ?thesis by blast
  next
    case (Cons y ys')
    note ys = this
    from Cons.prems(1) have "f x @ (if xs = [] then [] else '','' @ join '','' (map f xs)) @ e # r
        = f y @ (if ys' = [] then [] else '','' @ join '','' (map f ys')) @ e # s"
      by (simp only: ys join_Cons)
    then have xy: "x = y"
      and tails: "(if xs = [] then [] else '','' @ join '','' (map f xs)) @ e # r
        = (if ys' = [] then [] else '','' @ join '','' (map f ys')) @ e # s"
      using Cons.prems(2) [of x _ y] by (metis list.set_intros(1))+
    from tails comma have "join '','' (map f xs) @ e # r = join '','' (map f ys') @ e # s"
      by (cases "xs = []"; cases "ys' = []") simp_all
    then have "xs = ys' \<and> r = s"
      by (rule Cons.IH) (use Cons.prems(2) in auto)
    with xy ys show ?thesis by simp
  qed
qed

lemma render_hd: "render v \<noteq> []" "hd (render v) \<noteq> CHR '']''"
  by (cases v; simp add: stringify_def)+

lemma stringify_hd [simp]: "stringify k \<noteq> []" "hd (stringify k) = CHR 0x22"
  by (simp_all add: stringify_def)

lemma render_prefix: "render v @ r = render w @ s \<Longrightarrow> v = w \<and> r = s"
proof (induction v arbitrary: w r s)
  case JNull
  then show ?case by (cases w) (auto simp: stringify_def split: if_splits)
next
  case (JBool b)
  then show ?case by (cases w) (auto simp: stringify_def split: if_splits)
next
  case (JStr t)
  then show ?case
    by (cases w) (auto simp: stringify_def split: if_splits dest: escaped_prefix)
next
  case (JArr vs)
  then obtain ws where w: "w = JArr ws"
    by (cases w) (auto simp: stringify_def split: if_splits)
  with JArr.prems have "join '','' (map render vs) @ CHR '']'' # r = join '','' (map render ws) @ CHR '']'' # s"
    by simp
  then have "vs = ws \<and> r = s"
    using JArr.IH render_hd by (intro join_prefix [of render vs "CHR '']''" r ws s]) simp_all
  with w show ?case by simp
next
  case (JObj kvs)
  then obtain ws where w: "w = JObj ws"
    by (cases w) (auto simp: stringify_def split: if_splits)
  let ?pair = "\<lambda>(k, v). stringify k @ '':'' @ render v"
  have elem: "x = y \<and> r = s" if "x \<in> set kvs" "?pair x @ r = ?pair y @ s" for x y r s
  proof -
    obtain k v where x: "x = (k, v)" by (cases x)
    obtain l u where y: "y = (l, u)" by (cases y)
    from that(2) x y have "stringify k @ CHR '':'' # (render v @ r) = stringify l @ CHR '':'' # (render u @ s)"
      by simp
    then have "k = l" "render v @ r = render u @ s"
      by (auto dest: stringify_prefix)
    with JObj.IH [OF that(1), of v r u s] x y show ?thesis by simp
  qed
  from w JObj.prems have "join '','' (map ?pair kvs) @ CHR ''}'' # r = join '','' (map ?pair ws) @ CHR ''}'' # s"
    by simp
  then have "kvs = ws \<and> r = s"
  proof (rule join_prefix)
    show "x = y \<and> r = s" if "x \<in> set kvs" "?pair x @ r = ?pair y @ s" for x y r s
      using that by (rule elem)
    show "?pair x \<noteq> []" and "hd (?pair x) \<noteq> CHR ''}''" for x
      by (cases x; simp)+
  qed simp
  with w show ?case by simp
qed

lemma canonicalize_inject: "canonicalize v = canonicalize w \<longleftrightarrow> sorted_form v = sorted_form w"
  using render_prefix [of "sorted_form v" "[]" "sorted_form w" "[]"] by (auto simp: canonicalize_norm)

section \<open>Reading fields back from equal canonical texts\<close>

lemma keyed_lists_eq:
  assumes "map fst xs = map fst ys" "distinct (map fst xs)" "set xs = set ys"
  shows "xs = ys"
  using assms
proof (induction xs arbitrary: ys)
  case Nil
  then show ?case by simp
next
  case (Cons x xs)
  then obtain y ys' where ys: "ys = y # ys'" "fst y = fst x" "map fst xs = map fst ys'" by auto
  from Cons.prems ys have "fst x \<notin> set (map fst xs)" "fst x \<notin> set (map fst ys')" by auto
  then have notin: "x \<notin> set xs" "x \<notin> set ys'" by (metis image_eqI set_map)+
  have "x \<in> set ys" using Cons.prems(3) by auto
  with notin(2) ys(1) have xy: "x = y" by simp
  with Cons.prems(3) ys(1) have "insert x (set xs) = insert x (set ys')" by simp
  with notin have "set xs = set ys'" by (metis insert_ident)
  moreover have "map fst xs = map fst ys'" "distinct (map fst xs)"
    using Cons.prems ys by simp_all
  ultimately have "xs = ys'" by (intro Cons.IH)
  with ys xy show ?case by simp
qed

lemma map_eq_list_all2: "map f xs = map g ys \<Longrightarrow> list_all2 (\<lambda>x y. f x = g y) xs ys"
  by (induction xs arbitrary: ys) (auto simp: Cons_eq_map_conv)

lemma norm_obj_eq:
  assumes "sorted_form (JObj xs) = sorted_form (JObj ys)" "map fst xs = map fst ys" "distinct (map fst xs)"
  shows "list_all2 (\<lambda>x y. fst x = fst y \<and> sorted_form (snd x) = sorted_form (snd y)) xs ys"
proof -
  let ?f = "\<lambda>(k, v). (k, sorted_form v)"
  from assms(1) have "sort_key fst (map ?f xs) = sort_key fst (map ?f ys)" by simp
  then have "set (map ?f xs) = set (map ?f ys)" by (metis set_sort)
  moreover have "map fst (map ?f xs) = map fst xs" "map fst (map ?f ys) = map fst ys"
    by (simp_all add: comp_def case_prod_beta')
  ultimately have "map ?f xs = map ?f ys"
    using assms(2,3) by (intro keyed_lists_eq) simp_all
  then have "list_all2 (\<lambda>x y. ?f x = ?f y) xs ys" by (rule map_eq_list_all2)
  then show ?thesis by (rule list_all2_mono) (auto split: prod.splits)
qed

lemma norm_obj_iff:
  assumes "map fst xs = map fst ys" "distinct (map fst xs)"
  shows "sorted_form (JObj xs) = sorted_form (JObj ys) \<longleftrightarrow>
    list_all2 (\<lambda>x y. fst x = fst y \<and> sorted_form (snd x) = sorted_form (snd y)) xs ys"
proof
  assume "list_all2 (\<lambda>x y. fst x = fst y \<and> sorted_form (snd x) = sorted_form (snd y)) xs ys"
  then have "map (\<lambda>(k, v). (k, sorted_form v)) xs = map (\<lambda>(k, v). (k, sorted_form v)) ys"
    by induction (auto simp: case_prod_beta')
  then show "sorted_form (JObj xs) = sorted_form (JObj ys)" by (simp only: sorted_form.simps)
qed (use assms norm_obj_eq in blast)

lemma norm_arr_eq: "sorted_form (JArr xs) = sorted_form (JArr ys) \<Longrightarrow> list_all2 (\<lambda>x y. sorted_form x = sorted_form y) xs ys"
  by (simp add: map_eq_list_all2)

end
