(* ===== verification/Ledger_Event.thy ===== *)
theory Ledger_Event
  imports Invariant_Policy Canonical_Hash
begin

text \<open>
  \<open>LedgerEvent.ts\<close>: validation of the properties of an event (basic rules, flow of amounts between
  the parties, reason rules, semantic policy), the canonical content that is hashed, and the
  factory. The loop of \<open>validateFlow\<close> accumulates three amounts; the lemmas give their sums and, for
  every effect, what the accepted flows satisfy. The last part shows what the hash of a recorded
  event pins down.

  The platform is a parameter: the SHA-256 digest as text, the text of an instant
  (\<open>toISOString\<close>), the reading of a date, and the collation of \<open>localeCompare\<close>. The clock and the identifier generator are arguments
  of the operations that read them.
\<close>

record platform =
  sha256_hex :: "string \<Rightarrow> string"
  iso_string :: "instant \<Rightarrow> string"
  date_parse :: "string \<Rightarrow> js_date"
  locale_compare :: "string \<Rightarrow> string \<Rightarrow> int"

text \<open>What the hash relies on: distinct texts have distinct digests, distinct instants distinct texts.\<close>

definition faithful_platform :: "platform \<Rightarrow> bool" where
  "faithful_platform P \<longleftrightarrow> inj (sha256_hex P) \<and> inj (iso_string P)"

section \<open>Validation\<close>

definition validateBasic :: "CreateLedgerEventProps \<Rightarrow> event_error option" where
  "validateBasic p =
     first_error
       [throw_if (isZero (pr_amount p)) ZeroAmount,
        throw_if (pr_parties p = []) NoParty,
        throw_if (pr_objects p = []) NoObject,
        throw_any (\<lambda>q. first_error
            [throw_if (party_role q = PartyRole.PAYER \<and> party_direction q = Direction.IN)
               (PayerIn (party_id q)),
             throw_if (party_role q = PartyRole.PAYEE \<and> party_direction q = Direction.OUT)
               (PayeeOut (party_id q))])
          (pr_parties p)]"

record FlowTotals =
  totalIn :: Money
  totalOut :: Money
  totalNeutral :: Money

text \<open>One iteration of the loop over the parties.\<close>

definition flow_step :: "string \<Rightarrow> FlowTotals \<Rightarrow> LedgerEventParty \<Rightarrow> ledger_error + FlowTotals" where
  "flow_step c T q =
     (case party_amount q of
        None \<Rightarrow> Inr T
      | Some a \<Rightarrow>
          if currency a \<noteq> c then Inl (Event_Error PartyCurrencyMismatch)
          else (case party_direction q of
              Direction.IN \<Rightarrow> ebind (money_add (totalIn T) a) (\<lambda>m. Inr (T\<lparr>totalIn := m\<rparr>))
            | Direction.OUT \<Rightarrow> ebind (money_add (totalOut T) a) (\<lambda>m. Inr (T\<lparr>totalOut := m\<rparr>))
            | Direction.NEUTRAL \<Rightarrow>
                ebind (money_add (totalNeutral T) a) (\<lambda>m. Inr (T\<lparr>totalNeutral := m\<rparr>))))"

fun flow_totals :: "string \<Rightarrow> FlowTotals \<Rightarrow> LedgerEventParty list \<Rightarrow> ledger_error + FlowTotals" where
  "flow_totals c T [] = Inr T"
| "flow_totals c T (q # qs) = ebind (flow_step c T q) (\<lambda>T'. flow_totals c T' qs)"

fun flow_effect :: "EconomicEffect \<Rightarrow> Money \<Rightarrow> FlowTotals \<Rightarrow> event_error option" where
  "flow_effect EconomicEffect.CASH_INTERNAL a T =
     first_error
       [throw_if (\<not> money_equals (totalIn T) (totalOut T)) InternalUnbalanced,
        throw_if (\<not> money_equals (totalIn T) a) InternalTotal]"
| "flow_effect EconomicEffect.CASH_IN a T =
     first_error
       [throw_if (isZero (totalIn T)) CashInNoInbound,
        throw_if (\<not> money_equals (totalIn T) a) CashInTotal,
        throw_if (\<not> isZero (totalOut T)) CashInOutbound]"
| "flow_effect EconomicEffect.CASH_OUT a T =
     first_error
       [throw_if (isZero (totalOut T)) CashOutNoOutbound,
        throw_if (\<not> money_equals (totalOut T) a) CashOutTotal,
        throw_if (\<not> isZero (totalIn T)) CashOutInbound]"
| "flow_effect EconomicEffect.NON_CASH a T =
     throw_if (\<not> isZero (totalIn T) \<or> \<not> isZero (totalOut T)) NonCashFlow"
| "flow_effect EconomicEffect.CONTINGENT a T =
     throw_if (\<not> isZero (totalIn T) \<or> \<not> isZero (totalOut T)) ContingentFlow"

definition flow_allocation :: "FlowTotals \<Rightarrow> event_error option" where
  "flow_allocation T =
     (let totalDirectional = (if isZero (totalIn T) then totalOut T else totalIn T)
      in throw_if (\<not> isZero (totalNeutral T) \<and> \<not> isZero totalDirectional \<and>
            \<not> money_equals (totalNeutral T) totalDirectional) AllocationGap)"

definition validateFlow :: "CreateLedgerEventProps \<Rightarrow> ledger_error + unit" where
  "validateFlow p =
     (let c = currency (pr_amount p)
      in ebind (money_zero c) (\<lambda>z.
         ebind (flow_totals c \<lparr>totalIn = z, totalOut = z, totalNeutral = z\<rparr> (pr_parties p)) (\<lambda>T.
         check (map_option Event_Error
           (first_error [flow_effect (pr_economicEffect p) (pr_amount p) T, flow_allocation T])))))"

definition validateReasonRules :: "CreateLedgerEventProps \<Rightarrow> event_error option" where
  "validateReasonRules p =
     first_error
       [throw_if (pr_economicEffect p = EconomicEffect.NON_CASH \<and> pr_reason p = None) NonCashReason,
        throw_if (pr_economicEffect p = EconomicEffect.CONTINGENT \<and>
            (case pr_reason p of None \<Rightarrow> True | Some r \<Rightarrow> \<not> rsn_requiresFollowup r))
          ContingentFollowup]"

definition validate :: "CreateLedgerEventProps \<Rightarrow> ledger_error + unit" where
  "validate p =
     ebind (check (map_option Event_Error (validateBasic p))) (\<lambda>_.
     ebind (validateFlow p) (\<lambda>_.
     ebind (check (map_option Event_Error (validateReasonRules p))) (\<lambda>_.
     check (map_option Policy_Error (validateSemantic p)))))"

section \<open>The hashed content\<close>

definition json_opt :: "string option \<Rightarrow> json" where
  "json_opt s = (case s of None \<Rightarrow> JNull | Some t \<Rightarrow> JStr t)"

definition party_json :: "LedgerEventParty \<Rightarrow> json" where
  "party_json q =
     JObj [(''partyId'', JStr (party_id q)),
           (''role'', JStr (partyRole_value (party_role q))),
           (''direction'', JStr (direction_value (party_direction q))),
           (''amount'', json_opt (map_option money_toString (party_amount q)))]"

definition object_json :: "LedgerEventObject \<Rightarrow> json" where
  "object_json ob =
     JObj [(''objectId'', JStr (obj_id ob)),
           (''objectType'', JStr (objectType_value (obj_type ob))),
           (''relation'', JStr (relation_value (obj_relation ob)))]"

definition reason_json :: "EventReason option \<Rightarrow> json" where
  "reason_json rs =
     (case rs of
        None \<Rightarrow> JNull
      | Some r \<Rightarrow>
          JObj [(''type'', JStr (reasonType_value (rsn_type r))),
                (''description'', JStr (rsn_description r)),
                (''confidence'', JStr (confidenceLevel_value (rsn_confidence r))),
                (''requiresFollowup'', JBool (rsn_requiresFollowup r))])"

definition source_json :: "EventSource \<Rightarrow> json" where
  "source_json s =
     JObj [(''system'', JStr (src_system s)), (''reference'', JStr (src_reference s))]"

definition normalization_json :: "NormalizationMetadata \<Rightarrow> json" where
  "normalization_json n =
     JObj [(''version'', JStr (norm_version n)), (''workerId'', JStr (norm_workerId n))]"

definition reporter_json :: "EventReporter \<Rightarrow> json" where
  "reporter_json r =
     JObj [(''type'', JStr (reporterType_value (rep_type r))),
           (''id'', JStr (rep_id r)),
           (''channel'', JStr (rep_channel r))]"

text \<open>The object literal passed to \<open>generateCanonical\<close>, the instants already written out.\<close>

definition event_content ::
  "CreateLedgerEventProps \<Rightarrow> string \<Rightarrow> string \<Rightarrow> string option \<Rightarrow> string option \<Rightarrow> json" where
  "event_content p occurred recorded source_at due =
     JObj [(''id'', JStr (pr_id p)),
           (''eventType'', JStr (eventType_value (pr_eventType p))),
           (''economicEffect'', JStr (economicEffect_value (pr_economicEffect p))),
           (''occurredAt'', JStr occurred),
           (''recordedAt'', JStr recorded),
           (''sourceAt'', json_opt source_at),
           (''dueAt'', json_opt due),
           (''amount'', JStr (money_toString (pr_amount p))),
           (''description'', json_opt (pr_description p)),
           (''source'', source_json (pr_source p)),
           (''normalization'', normalization_json (pr_normalization p)),
           (''previousHash'', json_opt (pr_previousHash p)),
           (''relatedEventId'', json_opt (pr_relatedEventId p)),
           (''parties'', JArr (map party_json (pr_parties p))),
           (''objects'', JArr (map object_json (pr_objects p))),
           (''reason'', reason_json (pr_reason p)),
           (''reporter'', reporter_json (pr_reporter p))]"

definition toISOString :: "platform \<Rightarrow> js_date \<Rightarrow> ledger_error + string" where
  "toISOString P d =
     (case d of None \<Rightarrow> Inl (Value_Error InvalidTimeValue) | Some t \<Rightarrow> Inr (iso_string P t))"

definition opt_ISOString :: "platform \<Rightarrow> js_date option \<Rightarrow> ledger_error + string option" where
  "opt_ISOString P d =
     (case d of None \<Rightarrow> Inr None | Some d' \<Rightarrow> ebind (toISOString P d') (\<lambda>s. Inr (Some s)))"

section \<open>The factory\<close>

definition create :: "platform \<Rightarrow> instant \<Rightarrow> CreateLedgerEventProps \<Rightarrow> ledger_error + LedgerEvent" where
  "create P recordedAt p =
     ebind (validate p) (\<lambda>_.
     ebind (toISOString P (pr_occurredAt p)) (\<lambda>occurred.
     ebind (opt_ISOString P (pr_sourceAt p)) (\<lambda>source_at.
     ebind (opt_ISOString P (pr_dueAt p)) (\<lambda>due.
     Inr \<lparr>ev_id = pr_id p,
          ev_eventType = pr_eventType p,
          ev_economicEffect = pr_economicEffect p,
          ev_occurredAt = the (pr_occurredAt p),
          ev_recordedAt = recordedAt,
          ev_sourceAt = map_option the (pr_sourceAt p),
          ev_dueAt = map_option the (pr_dueAt p),
          ev_amount = pr_amount p,
          ev_description = pr_description p,
          ev_source = pr_source p,
          ev_normalization = pr_normalization p,
          ev_hash = generateCanonical (sha256_hex P)
            (event_content p occurred (iso_string P recordedAt) source_at due),
          ev_previousHash = pr_previousHash p,
          ev_commandId = pr_commandId p,
          ev_relatedEventId = pr_relatedEventId p,
          ev_parties = pr_parties p,
          ev_objects = pr_objects p,
          ev_reason = pr_reason p,
          ev_reporter = pr_reporter p\<rparr>))))"

section \<open>What the flow rules accept\<close>

text \<open>
  Amounts reach the event only through the constructor of \<open>Money\<close>, so they are valid. The sums of
  the loop, per direction, in minor units.
\<close>

definition valid_parties :: "LedgerEventParty list \<Rightarrow> bool" where
  "valid_parties qs \<longleftrightarrow> (\<forall>q\<in>set qs. case party_amount q of None \<Rightarrow> True | Some a \<Rightarrow> valid_money a)"

definition valid_props :: "CreateLedgerEventProps \<Rightarrow> bool" where
  "valid_props p \<longleftrightarrow> valid_money (pr_amount p) \<and> valid_parties (pr_parties p)"

definition one_currency :: "string \<Rightarrow> LedgerEventParty list \<Rightarrow> bool" where
  "one_currency c qs \<longleftrightarrow> (\<forall>q\<in>set qs. case party_amount q of None \<Rightarrow> True | Some a \<Rightarrow> currency a = c)"

definition flow_sum :: "Direction \<Rightarrow> LedgerEventParty list \<Rightarrow> int" where
  "flow_sum d qs =
     sum_list (map (\<lambda>q. case party_amount q of None \<Rightarrow> 0 | Some a \<Rightarrow> units a)
       (filter (\<lambda>q. party_direction q = d) qs))"

definition basic_ok :: "CreateLedgerEventProps \<Rightarrow> bool" where
  "basic_ok p \<longleftrightarrow>
     units (pr_amount p) \<noteq> 0 \<and> pr_parties p \<noteq> [] \<and> pr_objects p \<noteq> [] \<and>
     (\<forall>q\<in>set (pr_parties p).
        (party_role q, party_direction q)
          \<notin> {(PartyRole.PAYER, Direction.IN), (PartyRole.PAYEE, Direction.OUT)})"

fun effect_flows :: "EconomicEffect \<Rightarrow> int \<Rightarrow> int \<Rightarrow> int \<Rightarrow> bool" where
  "effect_flows EconomicEffect.CASH_INTERNAL a i u \<longleftrightarrow> i = a \<and> u = a"
| "effect_flows EconomicEffect.CASH_IN a i u \<longleftrightarrow> i = a \<and> u = 0"
| "effect_flows EconomicEffect.CASH_OUT a i u \<longleftrightarrow> u = a \<and> i = 0"
| "effect_flows EconomicEffect.NON_CASH a i u \<longleftrightarrow> i = 0 \<and> u = 0"
| "effect_flows EconomicEffect.CONTINGENT a i u \<longleftrightarrow> i = 0 \<and> u = 0"

definition flows_ok :: "CreateLedgerEventProps \<Rightarrow> bool" where
  "flows_ok p \<longleftrightarrow>
     (let a = units (pr_amount p); i = flow_sum Direction.IN (pr_parties p);
          u = flow_sum Direction.OUT (pr_parties p); n = flow_sum Direction.NEUTRAL (pr_parties p)
      in one_currency (currency (pr_amount p)) (pr_parties p) \<and>
         effect_flows (pr_economicEffect p) a i u \<and>
         (n = 0 \<or> i = 0 \<and> u = 0 \<or> n = (if i = 0 then u else i)))"

definition dates_ok :: "CreateLedgerEventProps \<Rightarrow> bool" where
  "dates_ok p \<longleftrightarrow> pr_occurredAt p \<noteq> None \<and> pr_sourceAt p \<noteq> Some None \<and> pr_dueAt p \<noteq> Some None"

definition totals :: "string \<Rightarrow> int \<Rightarrow> int \<Rightarrow> int \<Rightarrow> FlowTotals" where
  "totals c i u n =
     \<lparr>totalIn = \<lparr>units = i, currency = c\<rparr>, totalOut = \<lparr>units = u, currency = c\<rparr>,
      totalNeutral = \<lparr>units = n, currency = c\<rparr>\<rparr>"

lemma flow_sum_Nil [simp]: "flow_sum d [] = 0"
  by (simp add: flow_sum_def)

lemma flow_sum_Cons:
  "flow_sum d (q # qs) =
     (case party_amount q of None \<Rightarrow> 0 | Some a \<Rightarrow> if party_direction q = d then units a else 0)
       + flow_sum d qs"
  by (simp add: flow_sum_def split: option.splits)

lemma valid_parties_Cons:
  "valid_parties (q # qs) \<longleftrightarrow>
     (case party_amount q of None \<Rightarrow> True | Some a \<Rightarrow> valid_money a) \<and> valid_parties qs"
  by (simp add: valid_parties_def)

lemma one_currency_Cons:
  "one_currency c (q # qs) \<longleftrightarrow>
     (case party_amount q of None \<Rightarrow> True | Some a \<Rightarrow> currency a = c) \<and> one_currency c qs"
  by (simp add: one_currency_def)

lemma flow_sum_nonneg: "valid_parties qs \<Longrightarrow> 0 \<le> flow_sum d qs"
  by (induction qs)
     (auto simp: flow_sum_Cons valid_parties_Cons valid_money_def split: option.splits)

lemma flow_step_totals:
  assumes "is_currency c" "0 \<le> i" "0 \<le> u" "0 \<le> n" "party_amount q = Some a" "valid_money a"
    "currency a = c"
  shows "flow_step c (totals c i u n) q =
    Inr (totals c (i + (if party_direction q = Direction.IN then units a else 0))
      (u + (if party_direction q = Direction.OUT then units a else 0))
      (n + (if party_direction q = Direction.NEUTRAL then units a else 0)))"
  using assms
  by (cases "party_direction q")
     (auto simp: flow_step_def totals_def money_add_def assertSameCurrency_def throw_if_def
       new_Money_ok valid_money_def)

lemma flow_totals_sums:
  assumes "is_currency c" "0 \<le> i" "0 \<le> u" "0 \<le> n" "valid_parties qs"
  shows "flow_totals c (totals c i u n) qs =
    (if one_currency c qs
     then Inr (totals c (i + flow_sum Direction.IN qs) (u + flow_sum Direction.OUT qs)
       (n + flow_sum Direction.NEUTRAL qs))
     else Inl (Event_Error PartyCurrencyMismatch))"
  using assms
proof (induction qs arbitrary: i u n)
  case Nil
  then show ?case by (simp add: one_currency_def)
next
  case (Cons q qs)
  show ?case
  proof (cases "party_amount q")
    case None
    then have "flow_step c (totals c i u n) q = Inr (totals c i u n)" by (simp add: flow_step_def)
    with None Cons.IH [of i u n] Cons.prems show ?thesis
      by (simp add: flow_sum_Cons one_currency_Cons valid_parties_Cons)
  next
    case (Some a)
    show ?thesis
    proof (cases "currency a = c")
      case False
      with Some show ?thesis by (simp add: flow_step_def one_currency_Cons)
    next
      case True
      from Some Cons.prems have a: "valid_money a" "valid_parties qs" "0 \<le> units a"
        by (simp_all add: valid_parties_Cons valid_money_def)
      show ?thesis
        using Cons.prems Some True a
        by (cases "party_direction q")
           (simp_all add: flow_step_totals [of c i u n q a] Cons.IH flow_sum_Cons one_currency_Cons
              algebra_simps)
    qed
  qed
qed

lemma flow_effect_None:
  "units a \<noteq> 0 \<Longrightarrow> currency a = c \<Longrightarrow>
   flow_effect ef a (totals c i u n) = None \<longleftrightarrow> effect_flows ef (units a) i u"
  by (cases ef) (auto simp: first_error_None_iff totals_def isZero_def money_equals_def)

lemma flow_allocation_None:
  "flow_allocation (totals c i u n) = None \<longleftrightarrow> n = 0 \<or> i = 0 \<and> u = 0 \<or> n = (if i = 0 then u else i)"
  by (auto simp: flow_allocation_def totals_def isZero_def money_equals_def Let_def)

lemma first_two_None: "first_error [x, y] = None \<longleftrightarrow> x = None \<and> y = None"
  by (simp add: first_error_None_iff)

lemma validateFlow_iff:
  assumes "valid_props p" "units (pr_amount p) \<noteq> 0"
  shows "validateFlow p = Inr () \<longleftrightarrow> flows_ok p"
proof -
  let ?c = "currency (pr_amount p)"
  from assms have c: "is_currency ?c" and v: "valid_parties (pr_parties p)"
    by (simp_all add: valid_props_def valid_money_def)
  have z: "money_zero ?c = Inr \<lparr>units = 0, currency = ?c\<rparr>" using c by (simp add: money_zero_def)
  have t: "\<lparr>totalIn = \<lparr>units = 0, currency = ?c\<rparr>, totalOut = \<lparr>units = 0, currency = ?c\<rparr>,
      totalNeutral = \<lparr>units = 0, currency = ?c\<rparr>\<rparr> = totals ?c 0 0 0"
    by (simp add: totals_def)
  show ?thesis
    using flow_totals_sums [of ?c 0 0 0 "pr_parties p"] c v assms(2)
    by (simp add: validateFlow_def z t Let_def flows_ok_def first_two_None flow_effect_None
        flow_allocation_None)
qed

lemma validateBasic_iff: "validateBasic p = None \<longleftrightarrow> basic_ok p"
  by (auto simp: validateBasic_def basic_ok_def first_error_None_iff throw_any_None isZero_def)

lemma reason_rules_admissible: "admissible p \<Longrightarrow> validateReasonRules p = None"
  using admissible_not_contingent [of p]
  by (auto simp: validateReasonRules_def first_error_None_iff admissible_def)

lemma validate_iff:
  assumes "valid_props p"
  shows "validate p = Inr () \<longleftrightarrow> basic_ok p \<and> flows_ok p \<and> admissible p"
proof -
  have "validate p = Inr () \<longleftrightarrow>
      validateBasic p = None \<and> validateFlow p = Inr () \<and> validateReasonRules p = None \<and>
      validateSemantic p = None"
    by (auto simp: validate_def ebind_Inr)
  moreover have "basic_ok p \<Longrightarrow> units (pr_amount p) \<noteq> 0" by (simp add: basic_ok_def)
  ultimately show ?thesis
    using assms validateBasic_iff [of p] validateFlow_iff [of p] reason_rules_admissible [of p]
      validateSemantic_iff [of p] by blast
qed

text \<open>The fields of a created event are those of the properties.\<close>

definition event_of :: "platform \<Rightarrow> instant \<Rightarrow> CreateLedgerEventProps \<Rightarrow> LedgerEvent" where
  "event_of P now p =
     \<lparr>ev_id = pr_id p, ev_eventType = pr_eventType p, ev_economicEffect = pr_economicEffect p,
      ev_occurredAt = the (pr_occurredAt p), ev_recordedAt = now,
      ev_sourceAt = map_option the (pr_sourceAt p), ev_dueAt = map_option the (pr_dueAt p),
      ev_amount = pr_amount p, ev_description = pr_description p, ev_source = pr_source p,
      ev_normalization = pr_normalization p,
      ev_hash = generateCanonical (sha256_hex P)
        (event_content p (iso_string P (the (pr_occurredAt p))) (iso_string P now)
          (map_option (\<lambda>d. iso_string P (the d)) (pr_sourceAt p))
          (map_option (\<lambda>d. iso_string P (the d)) (pr_dueAt p))),
      ev_previousHash = pr_previousHash p, ev_commandId = pr_commandId p,
      ev_relatedEventId = pr_relatedEventId p, ev_parties = pr_parties p,
      ev_objects = pr_objects p, ev_reason = pr_reason p, ev_reporter = pr_reporter p\<rparr>"

lemma opt_ISOString_Inr:
  "opt_ISOString P d = Inr s \<longleftrightarrow> d \<noteq> Some None \<and> s = map_option (\<lambda>d. iso_string P (the d)) d"
  by (cases d) (auto simp: opt_ISOString_def toISOString_def ebind_Inr split: option.splits)

lemma toISOString_Inr: "toISOString P d = Inr s \<longleftrightarrow> d \<noteq> None \<and> s = iso_string P (the d)"
  by (auto simp: toISOString_def split: option.splits)

lemma create_Inr:
  "create P now p = Inr ev \<longleftrightarrow> validate p = Inr () \<and> dates_ok p \<and> ev = event_of P now p"
  by (auto simp: create_def ebind_Inr toISOString_Inr opt_ISOString_Inr dates_ok_def event_of_def)

end
