(* ===== verification/Event_Seal.thy ===== *)
theory Event_Seal
  imports Ledger_Event
begin

text \<open>
  What the hash of a recorded event covers. \<open>seal\<close> forgets exactly the fields that the canonical
  content leaves out; two recorded events have the same hash if and only if they agree on the rest.
  The content is read back field by field from equal canonical texts, with a faithful platform.
\<close>

definition recorded_content :: "platform \<Rightarrow> LedgerEvent \<Rightarrow> json" where
  "recorded_content P ev =
     JObj [(''id'', JStr (ev_id ev)),
           (''eventType'', JStr (eventType_value (ev_eventType ev))),
           (''economicEffect'', JStr (economicEffect_value (ev_economicEffect ev))),
           (''occurredAt'', JStr (iso_string P (ev_occurredAt ev))),
           (''recordedAt'', JStr (iso_string P (ev_recordedAt ev))),
           (''sourceAt'', json_opt (map_option (iso_string P) (ev_sourceAt ev))),
           (''dueAt'', json_opt (map_option (iso_string P) (ev_dueAt ev))),
           (''amount'', JStr (money_toString (ev_amount ev))),
           (''description'', json_opt (ev_description ev)),
           (''source'', source_json (ev_source ev)),
           (''normalization'', normalization_json (ev_normalization ev)),
           (''previousHash'', json_opt (ev_previousHash ev)),
           (''relatedEventId'', json_opt (ev_relatedEventId ev)),
           (''parties'', JArr (map party_json (ev_parties ev))),
           (''objects'', JArr (map object_json (ev_objects ev))),
           (''reason'', reason_json (ev_reason ev)),
           (''reporter'', reporter_json (ev_reporter ev))]"

lemma event_of_hash:
  "dates_ok p \<Longrightarrow>
   ev_hash (event_of P now p) = generateCanonical (sha256_hex P) (recorded_content P (event_of P now p))"
  by (cases "pr_sourceAt p"; cases "pr_dueAt p")
     (simp_all add: event_of_def recorded_content_def event_content_def)

section \<open>The fields a hash does not cover\<close>

text \<open>Amounts are hashed as decimal text, without their currency.\<close>

definition no_currency :: "Money \<Rightarrow> Money" where
  "no_currency m = m\<lparr>currency := []\<rparr>"

definition seal :: "LedgerEvent \<Rightarrow> LedgerEvent" where
  "seal ev = ev
     \<lparr>ev_hash := [], ev_commandId := None,
      ev_amount := no_currency (ev_amount ev),
      ev_parties := map (\<lambda>q. q\<lparr>party_amount := map_option no_currency (party_amount q)\<rparr>) (ev_parties ev),
      ev_reporter := (ev_reporter ev)\<lparr>rep_name := None, rep_reportedAt := 0\<rparr>\<rparr>"

definition valid_event :: "LedgerEvent \<Rightarrow> bool" where
  "valid_event ev \<longleftrightarrow> valid_money (ev_amount ev) \<and> valid_parties (ev_parties ev)"

section \<open>Reading the parts of the content back\<close>

lemma json_opt_norm [simp]: "sorted_form (json_opt a) = sorted_form (json_opt b) \<longleftrightarrow> a = b"
  by (cases a; cases b) (simp_all add: json_opt_def)

lemma amount_text_inject:
  "valid_money a \<Longrightarrow> valid_money b \<Longrightarrow>
   money_toString a = money_toString b \<longleftrightarrow> no_currency a = no_currency b"
  using money_toString_inject [of a b]
  by (cases a; cases b) (auto simp: valid_money_def no_currency_def money_toString_def)

lemma amount_opt_inject:
  assumes "case a of None \<Rightarrow> True | Some m \<Rightarrow> valid_money m" "case b of None \<Rightarrow> True | Some m \<Rightarrow> valid_money m"
  shows "map_option money_toString a = map_option money_toString b \<longleftrightarrow>
    map_option no_currency a = map_option no_currency b"
  using assms by (cases a; cases b) (auto simp: amount_text_inject)

lemmas enum_values =
  partyRole.value_inject direction.value_inject objectType.value_inject relation.value_inject
  reasonType.value_inject confidenceLevel.value_inject reporterType.value_inject
  eventType.value_inject economicEffect.value_inject

lemma party_json_inject:
  assumes "case party_amount p of None \<Rightarrow> True | Some m \<Rightarrow> valid_money m"
    and "case party_amount q of None \<Rightarrow> True | Some m \<Rightarrow> valid_money m"
  shows "sorted_form (party_json p) = sorted_form (party_json q) \<longleftrightarrow>
    p\<lparr>party_amount := map_option no_currency (party_amount p)\<rparr> =
    q\<lparr>party_amount := map_option no_currency (party_amount q)\<rparr>"
  using amount_opt_inject [OF assms]
  by (cases p; cases q) (simp add: party_json_def norm_obj_iff enum_values del: sorted_form.simps(2))

lemma object_json_inject: "sorted_form (object_json a) = sorted_form (object_json b) \<longleftrightarrow> a = b"
  by (cases a; cases b) (simp add: object_json_def norm_obj_iff enum_values del: sorted_form.simps(2))

lemma reason_json_inject: "sorted_form (reason_json a) = sorted_form (reason_json b) \<longleftrightarrow> a = b"
proof (cases a; cases b)
  fix r q assume "a = Some r" "b = Some q"
  then show ?thesis
    by (cases r; cases q) (simp add: reason_json_def norm_obj_iff enum_values del: sorted_form.simps(2))
qed (simp_all add: reason_json_def)

lemma source_json_inject: "sorted_form (source_json a) = sorted_form (source_json b) \<longleftrightarrow> a = b"
  by (cases a; cases b) (simp add: source_json_def norm_obj_iff del: sorted_form.simps(2))

lemma normalization_json_inject: "sorted_form (normalization_json a) = sorted_form (normalization_json b) \<longleftrightarrow> a = b"
  by (cases a; cases b) (simp add: normalization_json_def norm_obj_iff del: sorted_form.simps(2))

lemma reporter_json_inject:
  "sorted_form (reporter_json a) = sorted_form (reporter_json b) \<longleftrightarrow>
   a\<lparr>rep_name := None, rep_reportedAt := 0\<rparr> = b\<lparr>rep_name := None, rep_reportedAt := 0\<rparr>"
  by (cases a; cases b) (simp add: reporter_json_def norm_obj_iff enum_values del: sorted_form.simps(2))

lemma parties_json_inject:
  assumes "valid_parties ps" "valid_parties qs"
  shows "map (sorted_form \<circ> party_json) ps = map (sorted_form \<circ> party_json) qs \<longleftrightarrow>
    map (\<lambda>q. q\<lparr>party_amount := map_option no_currency (party_amount q)\<rparr>) ps =
    map (\<lambda>q. q\<lparr>party_amount := map_option no_currency (party_amount q)\<rparr>) qs"
  using assms
proof (induction ps arbitrary: qs)
  case Nil
  then show ?case by simp
next
  case (Cons p ps)
  then show ?case
    by (cases qs) (simp_all add: valid_parties_Cons party_json_inject)
qed

lemma objects_json_inject: "map (sorted_form \<circ> object_json) xs = map (sorted_form \<circ> object_json) ys \<longleftrightarrow> xs = ys"
proof -
  have "inj (sorted_form \<circ> object_json)" by (rule injI) (simp add: object_json_inject)
  then show ?thesis by (rule inj_map_eq_map)
qed

section \<open>Equal hashes, equal sealed events\<close>

lemma seal_eq:
  "seal a = seal b \<longleftrightarrow>
     ev_id a = ev_id b \<and> ev_eventType a = ev_eventType b \<and> ev_economicEffect a = ev_economicEffect b \<and>
     ev_occurredAt a = ev_occurredAt b \<and> ev_recordedAt a = ev_recordedAt b \<and>
     ev_sourceAt a = ev_sourceAt b \<and> ev_dueAt a = ev_dueAt b \<and>
     no_currency (ev_amount a) = no_currency (ev_amount b) \<and> ev_description a = ev_description b \<and>
     ev_source a = ev_source b \<and> ev_normalization a = ev_normalization b \<and>
     ev_previousHash a = ev_previousHash b \<and> ev_relatedEventId a = ev_relatedEventId b \<and>
     map (\<lambda>q. q\<lparr>party_amount := map_option no_currency (party_amount q)\<rparr>) (ev_parties a) =
     map (\<lambda>q. q\<lparr>party_amount := map_option no_currency (party_amount q)\<rparr>) (ev_parties b) \<and>
     ev_objects a = ev_objects b \<and> ev_reason a = ev_reason b \<and>
     (ev_reporter a)\<lparr>rep_name := None, rep_reportedAt := 0\<rparr> =
     (ev_reporter b)\<lparr>rep_name := None, rep_reportedAt := 0\<rparr>"
  by (cases a; cases b) (simp add: seal_def del: map_eq_conv)

lemma content_inject:
  assumes P: "faithful_platform P" and v: "valid_event a" "valid_event b"
  shows "sorted_form (recorded_content P a) = sorted_form (recorded_content P b) \<longleftrightarrow> seal a = seal b"
proof -
  have iso: "iso_string P s = iso_string P t \<longleftrightarrow> s = t" for s t
    using P by (auto simp: faithful_platform_def dest: injD)
  have iso_opt: "map_option (iso_string P) s = map_option (iso_string P) t \<longleftrightarrow> s = t" for s t
    by (cases s; cases t) (simp_all add: iso)
  have va: "valid_money (ev_amount a)" "valid_parties (ev_parties a)"
    and vb: "valid_money (ev_amount b)" "valid_parties (ev_parties b)"
    using v by (simp_all add: valid_event_def)
  show ?thesis
    unfolding recorded_content_def seal_eq
    by (simp add: norm_obj_iff iso iso_opt enum_values source_json_inject normalization_json_inject
        parties_json_inject [OF va(2) vb(2)] objects_json_inject reason_json_inject
        reporter_json_inject amount_text_inject [OF va(1) vb(1)]
        del: sorted_form.simps(2) map_eq_conv)
qed

lemma hash_content:
  assumes "faithful_platform P"
  shows "generateCanonical (sha256_hex P) v = generateCanonical (sha256_hex P) w \<longleftrightarrow> sorted_form v = sorted_form w"
  using assms canonicalize_inject [of v w]
  by (auto simp: generateCanonical_def faithful_platform_def inj_eq)

text \<open>A sealed event carries the hash of its own content.\<close>

definition hash_valid :: "platform \<Rightarrow> LedgerEvent \<Rightarrow> bool" where
  "hash_valid P ev \<longleftrightarrow> ev_hash ev = generateCanonical (sha256_hex P) (recorded_content P ev)"

lemma create_hash_valid: "create P now p = Inr ev \<Longrightarrow> hash_valid P ev"
  by (auto simp: create_Inr hash_valid_def event_of_hash)

lemma create_valid_event: "valid_props p \<Longrightarrow> create P now p = Inr ev \<Longrightarrow> valid_event ev"
  by (auto simp: create_Inr event_of_def valid_event_def valid_props_def)

lemma hash_valid_eq:
  assumes "faithful_platform P" "hash_valid P a" "hash_valid P b" "valid_event a" "valid_event b"
  shows "ev_hash a = ev_hash b \<longleftrightarrow> seal a = seal b"
  using assms by (simp add: hash_valid_def hash_content content_inject)

end
