(* ===== verification/Retraction.thy ===== *)
theory Retraction
  imports Event_Seal "HOL-Library.Multiset"
begin

text \<open>
  \<open>retractionUtils.ts\<close>: which events no longer stand, and what the standing events of one object
  add up to. A \<open>Map\<close> is an association list in insertion order; its \<open>set\<close> is \<open>AList.update\<close>. The
  lemmas give both folds in closed form: the map of retractions as the last retraction of a target,
  the totals as sums over the standing events, independent of the order when every event has at
  most one retraction.
\<close>

section \<open>The code\<close>

definition is_retraction :: "LedgerEvent \<Rightarrow> bool" where
  "is_retraction ev = has_relation Relation.RETRACTS (ev_objects ev)"

definition note_retraction :: "LedgerEvent \<Rightarrow> (string \<times> string) list \<Rightarrow> (string \<times> string) list" where
  "note_retraction ev m =
     (case ev_relatedEventId ev of
        None \<Rightarrow> m
      | Some t \<Rightarrow> if t = [] \<or> \<not> is_retraction ev then m else AList.update t (ev_id ev) m)"

definition retractionByTarget :: "LedgerEvent list \<Rightarrow> (string \<times> string) list" where
  "retractionByTarget evs = fold note_retraction evs []"

definition retractedEventIds :: "LedgerEvent list \<Rightarrow> string list" where
  "retractedEventIds evs =
     (let m = retractionByTarget evs
      in map fst (filter (\<lambda>(target, retraction). map_of m retraction = None) m))"

record ObjectTotals =
  originatedUnits :: int
  closedUnits :: int
  ot_hasReversal :: bool

text \<open>One object of one standing event.\<close>

definition add_object :: "string \<Rightarrow> int \<Rightarrow> LedgerEventObject \<Rightarrow> ObjectTotals \<Rightarrow> ObjectTotals" where
  "add_object oid u ob T =
     (if obj_id ob \<noteq> oid then T
      else (case obj_relation ob of
          Relation.ORIGINATES \<Rightarrow> T\<lparr>originatedUnits := originatedUnits T + u\<rparr>
        | Relation.SETTLES \<Rightarrow> T\<lparr>closedUnits := closedUnits T + u\<rparr>
        | Relation.ADJUSTS \<Rightarrow> T\<lparr>closedUnits := closedUnits T + u\<rparr>
        | Relation.REVERSES \<Rightarrow> T\<lparr>ot_hasReversal := True\<rparr>
        | _ \<Rightarrow> T))"

definition add_event :: "string list \<Rightarrow> string \<Rightarrow> LedgerEvent \<Rightarrow> ObjectTotals \<Rightarrow> ObjectTotals" where
  "add_event retracted oid ev T =
     (if ev_id ev \<in> set retracted then T
      else fold (add_object oid (toUnits (ev_amount ev))) (ev_objects ev) T)"

definition foldObjectTotals :: "LedgerEvent list \<Rightarrow> string \<Rightarrow> ObjectTotals" where
  "foldObjectTotals evs oid =
     fold (add_event (retractedEventIds evs) oid) evs
       \<lparr>originatedUnits = 0, closedUnits = 0, ot_hasReversal = False\<rparr>"

section \<open>The map of retractions\<close>

text \<open>\<open>r\<close> is a retraction that names \<open>t\<close>.\<close>

definition retracts_id :: "LedgerEvent \<Rightarrow> string \<Rightarrow> bool" where
  "retracts_id r t \<longleftrightarrow> is_retraction r \<and> ev_relatedEventId r = Some t \<and> t \<noteq> []"

definition stands :: "LedgerEvent list \<Rightarrow> LedgerEvent \<Rightarrow> bool" where
  "stands evs ev \<longleftrightarrow> ev_id ev \<notin> set (retractedEventIds evs)"

definition standing :: "LedgerEvent list \<Rightarrow> LedgerEvent list" where
  "standing evs = filter (stands evs) evs"

definition one_retraction_each :: "LedgerEvent list \<Rightarrow> bool" where
  "one_retraction_each evs \<longleftrightarrow>
     (\<forall>a\<in>set evs. \<forall>b\<in>set evs. \<forall>t. retracts_id a t \<and> retracts_id b t \<longrightarrow> ev_id a = ev_id b)"

lemma note_retraction_if:
  "note_retraction ev m =
     (if \<exists>t. retracts_id ev t then AList.update (the (ev_relatedEventId ev)) (ev_id ev) m else m)"
  by (auto simp: note_retraction_def retracts_id_def split: option.splits)

lemma retractionByTarget_snoc:
  "retractionByTarget (evs @ [ev]) = note_retraction ev (retractionByTarget evs)"
  by (simp add: retractionByTarget_def)

lemma retractionByTarget_Nil [simp]: "retractionByTarget [] = []"
  by (simp add: retractionByTarget_def)

lemma retractionByTarget_distinct: "distinct (map fst (retractionByTarget evs))"
  by (induction evs rule: rev_induct)
     (auto simp: retractionByTarget_snoc note_retraction_if distinct_update)

lemma map_of_retraction_snoc:
  "map_of (retractionByTarget (evs @ [ev])) t =
     (if retracts_id ev t then Some (ev_id ev) else map_of (retractionByTarget evs) t)"
  by (auto simp: retractionByTarget_snoc note_retraction_if map_of_update retracts_id_def)

lemma retraction_None:
  "map_of (retractionByTarget evs) t = None \<longleftrightarrow> (\<forall>r\<in>set evs. \<not> retracts_id r t)"
  by (induction evs rule: rev_induct) (auto simp: map_of_retraction_snoc)

lemma retraction_SomeD:
  "map_of (retractionByTarget evs) t = Some i \<Longrightarrow> \<exists>r\<in>set evs. retracts_id r t \<and> ev_id r = i"
  by (induction evs rule: rev_induct) (auto simp: map_of_retraction_snoc split: if_splits)

text \<open>With one retraction for each target, the map is the retraction, whatever the order.\<close>

lemma retraction_Some:
  assumes "one_retraction_each evs"
  shows "map_of (retractionByTarget evs) t = Some i \<longleftrightarrow> (\<exists>r\<in>set evs. retracts_id r t \<and> ev_id r = i)"
proof
  assume "\<exists>r\<in>set evs. retracts_id r t \<and> ev_id r = i"
  then obtain r where r: "r \<in> set evs" "retracts_id r t" "ev_id r = i" by blast
  then obtain j where j: "map_of (retractionByTarget evs) t = Some j"
    using retraction_None [of evs t] by (cases "map_of (retractionByTarget evs) t") auto
  then obtain s where s: "s \<in> set evs" "retracts_id s t" "ev_id s = j"
    using retraction_SomeD by blast
  have "j = i"
    using assms r s unfolding one_retraction_each_def by metis
  with j show "map_of (retractionByTarget evs) t = Some i" by simp
qed (rule retraction_SomeD)

lemma retractedEventIds_iff:
  "t \<in> set (retractedEventIds evs) \<longleftrightarrow>
     (\<exists>i. map_of (retractionByTarget evs) t = Some i \<and> map_of (retractionByTarget evs) i = None)"
proof -
  have "map_of (retractionByTarget evs) t = Some i \<longleftrightarrow> (t, i) \<in> set (retractionByTarget evs)" for i
    using retractionByTarget_distinct by (metis map_of_eq_Some_iff)
  then show ?thesis by (auto simp: retractedEventIds_def Let_def image_iff)
qed

lemma retractedEventIds_unique:
  assumes "one_retraction_each evs"
  shows "t \<in> set (retractedEventIds evs) \<longleftrightarrow>
     (\<exists>r\<in>set evs. retracts_id r t \<and> (\<forall>s\<in>set evs. \<not> retracts_id s (ev_id r)))"
  using retraction_Some [OF assms] retraction_None [of evs]
  by (auto simp: retractedEventIds_iff)

lemma stands_permute:
  assumes "one_retraction_each evs" "set evs' = set evs"
  shows "stands evs' ev = stands evs ev"
proof -
  have "one_retraction_each evs'" using assms by (simp add: one_retraction_each_def)
  with assms show ?thesis by (simp add: stands_def retractedEventIds_unique)
qed

section \<open>The totals as sums\<close>

definition relation_units :: "(Relation \<Rightarrow> bool) \<Rightarrow> string \<Rightarrow> LedgerEvent \<Rightarrow> int" where
  "relation_units R oid ev =
     int (length (filter (\<lambda>ob. obj_id ob = oid \<and> R (obj_relation ob)) (ev_objects ev)))
       * units (ev_amount ev)"

definition names :: "(Relation \<Rightarrow> bool) \<Rightarrow> string \<Rightarrow> LedgerEvent \<Rightarrow> bool" where
  "names R oid ev \<longleftrightarrow> (\<exists>ob\<in>set (ev_objects ev). obj_id ob = oid \<and> R (obj_relation ob))"

abbreviation originates :: "Relation \<Rightarrow> bool" where "originates r \<equiv> r = Relation.ORIGINATES"

abbreviation closes :: "Relation \<Rightarrow> bool" where
  "closes r \<equiv> r = Relation.SETTLES \<or> r = Relation.ADJUSTS"

abbreviation reverses :: "Relation \<Rightarrow> bool" where "reverses r \<equiv> r = Relation.REVERSES"

definition totals_of :: "string \<Rightarrow> LedgerEvent list \<Rightarrow> ObjectTotals" where
  "totals_of oid evs =
     \<lparr>originatedUnits = sum_list (map (relation_units originates oid) evs),
      closedUnits = sum_list (map (relation_units closes oid) evs),
      ot_hasReversal = list_ex (names reverses oid) evs\<rparr>"

lemma add_object_sums:
  "add_object oid u ob T =
     \<lparr>originatedUnits = originatedUnits T
        + (if obj_id ob = oid \<and> originates (obj_relation ob) then u else 0),
      closedUnits = closedUnits T + (if obj_id ob = oid \<and> closes (obj_relation ob) then u else 0),
      ot_hasReversal = (ot_hasReversal T \<or> obj_id ob = oid \<and> reverses (obj_relation ob))\<rparr>"
  by (cases "obj_relation ob"; cases "obj_id ob = oid") (simp_all add: add_object_def)

lemma fold_objects:
  "fold (add_object oid u) obs T =
     \<lparr>originatedUnits = originatedUnits T
        + int (length (filter (\<lambda>ob. obj_id ob = oid \<and> originates (obj_relation ob)) obs)) * u,
      closedUnits = closedUnits T
        + int (length (filter (\<lambda>ob. obj_id ob = oid \<and> closes (obj_relation ob)) obs)) * u,
      ot_hasReversal = (ot_hasReversal T \<or>
        (\<exists>ob\<in>set obs. obj_id ob = oid \<and> reverses (obj_relation ob)))\<rparr>"
proof (induction obs arbitrary: T)
  case Nil
  then show ?case by simp
next
  case (Cons ob obs)
  show ?case
    unfolding fold_simps unfolding Cons.IH unfolding add_object_sums by (simp add: algebra_simps)
qed

lemma fold_add_event:
  "fold (add_event ret oid) evs T =
     (let S = totals_of oid (filter (\<lambda>ev. ev_id ev \<notin> set ret) evs)
      in \<lparr>originatedUnits = originatedUnits T + originatedUnits S,
          closedUnits = closedUnits T + closedUnits S,
          ot_hasReversal = (ot_hasReversal T \<or> ot_hasReversal S)\<rparr>)"
proof (induction evs arbitrary: T)
  case Nil
  then show ?case by (simp add: totals_of_def)
next
  case (Cons ev evs)
  then show ?case
    by (simp add: add_event_def fold_objects totals_of_def relation_units_def names_def toUnits_def
        Let_def)
qed

lemma foldObjectTotals_sums: "foldObjectTotals evs oid = totals_of oid (standing evs)"
  by (simp add: foldObjectTotals_def fold_add_event standing_def stands_def [abs_def] totals_of_def
      Let_def)

lemma totals_of_mset: "mset xs = mset ys \<Longrightarrow> totals_of oid xs = totals_of oid ys"
proof -
  assume ms: "mset xs = mset ys"
  have sums: "sum_list (map f xs) = sum_list (map f ys)" for f :: "LedgerEvent \<Rightarrow> int"
    using ms by (simp flip: sum_mset_sum_list)
  have "set xs = set ys" using ms by (metis set_mset_mset)
  then have "list_ex P xs = list_ex P ys" for P by (simp add: list_ex_Bex)
  with sums show ?thesis by (simp add: totals_of_def)
qed

lemma foldObjectTotals_permute:
  assumes "one_retraction_each evs" "mset evs' = mset evs"
  shows "foldObjectTotals evs' oid = foldObjectTotals evs oid"
proof -
  have "set evs' = set evs" using assms(2) by (metis set_mset_mset)
  then have "stands evs' = stands evs" using stands_permute [OF assms(1)] by blast
  then have "mset (standing evs') = mset (standing evs)"
    using assms(2) by (simp add: standing_def)
  then show ?thesis unfolding foldObjectTotals_sums by (rule totals_of_mset)
qed

text \<open>Events that do not name the object add nothing.\<close>

lemma relation_units_other: "\<not> names (\<lambda>_. True) oid ev \<Longrightarrow> relation_units R oid ev = 0"
  by (auto simp: relation_units_def names_def filter_empty_conv)

lemma names_mono: "names R oid ev \<Longrightarrow> names (\<lambda>_. True) oid ev"
  by (auto simp: names_def)

lemma totals_of_naming: "totals_of oid (filter (names (\<lambda>_. True) oid) evs) = totals_of oid evs"
proof (induction evs)
  case Nil
  then show ?case by simp
next
  case (Cons ev evs)
  show ?case
  proof (cases "names (\<lambda>_. True) oid ev")
    case True
    with Cons show ?thesis by (simp add: totals_of_def)
  next
    case False
    then have "\<not> names reverses oid ev" using names_mono by blast
    with False Cons show ?thesis by (simp add: totals_of_def relation_units_other)
  qed
qed

lemma totals_of_append:
  "totals_of oid (xs @ ys) =
     \<lparr>originatedUnits = originatedUnits (totals_of oid xs) + originatedUnits (totals_of oid ys),
      closedUnits = closedUnits (totals_of oid xs) + closedUnits (totals_of oid ys),
      ot_hasReversal = (ot_hasReversal (totals_of oid xs) \<or> ot_hasReversal (totals_of oid ys))\<rparr>"
  by (simp add: totals_of_def)

lemma relation_units_nonneg: "valid_event ev \<Longrightarrow> 0 \<le> relation_units R oid ev"
  by (simp add: relation_units_def valid_event_def valid_money_def)

end
