(* ===== verification/Pages.thy ===== *)
theory Pages
  imports Retraction
begin

text \<open>
  Ordering and paging, as the read paths use them: \<open>Array.sort\<close> with a comparator (stable),
  \<open>Array.slice\<close> with its treatment of negative and overlong bounds, \<open>Math.ceil(a / b) || 1\<close>, and
  \<open>Pagination.ts\<close>. The result of a sort is only determined for a comparator that is a total
  preorder; the interface \<open>comparator\<close> states this and every comparator of the program interprets it.
\<close>

section \<open>Sorting with a comparator\<close>

fun insort_by :: "('a \<Rightarrow> 'a \<Rightarrow> int) \<Rightarrow> 'a \<Rightarrow> 'a list \<Rightarrow> 'a list" where
  "insort_by cmp x [] = [x]"
| "insort_by cmp x (y # ys) = (if cmp x y \<le> 0 then x # y # ys else y # insort_by cmp x ys)"

definition sort_by :: "('a \<Rightarrow> 'a \<Rightarrow> int) \<Rightarrow> 'a list \<Rightarrow> 'a list" where
  "sort_by cmp xs = foldr (insort_by cmp) xs []"

lemma mset_insort_by [simp]: "mset (insort_by cmp x ys) = add_mset x (mset ys)"
  by (induction ys) auto

lemma mset_sort_by [simp]: "mset (sort_by cmp xs) = mset xs"
  by (induction xs) (simp_all add: sort_by_def)

lemma set_sort_by [simp]: "set (sort_by cmp xs) = set xs"
  by (metis mset_sort_by set_mset_mset)

lemma set_insort_by [simp]: "set (insort_by cmp x ys) = insert x (set ys)"
  by (metis mset_insort_by set_mset_add_mset_insert set_mset_mset)

lemma length_sort_by [simp]: "length (sort_by cmp xs) = length xs"
  by (metis mset_sort_by size_mset)

lemma distinct_map_sort_by [simp]: "distinct (map f (sort_by cmp xs)) = distinct (map f xs)"
proof -
  have "mset (map f (sort_by cmp xs)) = mset (map f xs)" by simp
  then show ?thesis by (rule mset_eq_imp_distinct_iff)
qed

locale comparator =
  fixes cmp :: "'a \<Rightarrow> 'a \<Rightarrow> int"
  assumes total: "cmp a b \<le> 0 \<or> cmp b a \<le> 0"
    and trans: "cmp a b \<le> 0 \<Longrightarrow> cmp b c \<le> 0 \<Longrightarrow> cmp a c \<le> 0"
begin

lemma sorted_insort_by:
  "sorted_wrt (\<lambda>a b. cmp a b \<le> 0) ys \<Longrightarrow> sorted_wrt (\<lambda>a b. cmp a b \<le> 0) (insort_by cmp x ys)"
proof (induction ys)
  case (Cons y ys)
  show ?case
  proof (cases "cmp x y \<le> 0")
    case True
    with Cons.prems trans show ?thesis by auto
  next
    case False
    with total have "cmp y x \<le> 0" by blast
    with False Cons show ?thesis by auto
  qed
qed simp

lemma sorted_sort_by: "sorted_wrt (\<lambda>a b. cmp a b \<le> 0) (sort_by cmp xs)"
  by (induction xs) (simp_all add: sort_by_def sorted_insort_by)

text \<open>Elements that the comparator cannot tell apart keep their order: the sort is stable.\<close>

lemma filter_insort_by:
  "sorted_wrt (\<lambda>a b. cmp a b \<le> 0) ys \<Longrightarrow> P x \<Longrightarrow> (\<And>y. y \<in> set ys \<Longrightarrow> P y \<Longrightarrow> cmp x y \<le> 0) \<Longrightarrow>
   filter P (insort_by cmp x ys) = x # filter P ys"
  by (induction ys) auto

lemma filter_insort_by_other: "\<not> P x \<Longrightarrow> filter P (insort_by cmp x ys) = filter P ys"
  by (induction ys) auto

lemma stable_sort_by:
  assumes "\<And>x y. P x \<Longrightarrow> P y \<Longrightarrow> cmp x y \<le> 0"
  shows "filter P (sort_by cmp xs) = filter P xs"
proof (induction xs)
  case Nil
  then show ?case by (simp add: sort_by_def)
next
  case (Cons x xs)
  have step: "sort_by cmp (x # xs) = insort_by cmp x (sort_by cmp xs)" by (simp add: sort_by_def)
  show ?case
  proof (cases "P x")
    case True
    with assms have "filter P (insort_by cmp x (sort_by cmp xs)) = x # filter P (sort_by cmp xs)"
      by (intro filter_insort_by sorted_sort_by) auto
    with True Cons step show ?thesis by simp
  next
    case False
    with Cons step show ?thesis by (simp add: filter_insort_by_other)
  qed
qed

end

section \<open>Slices\<close>

text \<open>\<open>xs.slice(from, to)\<close>: a negative bound counts from the end.\<close>

definition slice_bound :: "int \<Rightarrow> int \<Rightarrow> int" where
  "slice_bound n i = (if i < 0 then max (n + i) 0 else min i n)"

definition slice :: "int \<Rightarrow> int \<Rightarrow> 'a list \<Rightarrow> 'a list" where
  "slice from to xs =
     (let n = int (length xs); a = slice_bound n from; b = slice_bound n to
      in take (nat (b - a)) (drop (nat a) xs))"

lemma slice_nonneg:
  assumes "0 \<le> a" "0 \<le> b"
  shows "slice a b xs = take (nat (b - a)) (drop (nat a) xs)"
proof (cases "int (length xs) \<le> a")
  case True
  with assms show ?thesis by (simp add: slice_def slice_bound_def Let_def)
next
  case False
  show ?thesis
  proof (cases "b \<le> int (length xs)")
    case True
    with False assms show ?thesis by (simp add: slice_def slice_bound_def Let_def)
  next
    case b: False
    with False assms
    have "slice a b xs = take (nat (int (length xs) - a)) (drop (nat a) xs)"
      by (simp add: slice_def slice_bound_def Let_def)
    also have "\<dots> = drop (nat a) xs" using False assms by (intro take_all) simp
    also have "\<dots> = take (nat (b - a)) (drop (nat a) xs)"
      using b assms by (intro take_all [symmetric]) simp
    finally show ?thesis .
  qed
qed

lemma slice_0 [simp]: "0 \<le> b \<Longrightarrow> slice 0 b xs = take (nat b) xs"
  by (simp add: slice_nonneg)

text \<open>\<open>Math.ceil(total / limit) || 1\<close>, for a positive limit.\<close>

definition page_count :: "int \<Rightarrow> int \<Rightarrow> int" where
  "page_count n limit = (let c = - ((- n) div limit) in if c = 0 then 1 else c)"

section \<open>\<open>Pagination.ts\<close>\<close>

datatype SortKey = occurredAt | recordedAt
datatype SortOrder = ASC | DESC

record PageOptions =
  po_page :: int
  po_limit :: int
  po_sortBy :: "SortKey option"
  po_sortOrder :: "SortOrder option"

record 'a Page =
  pg_data :: "'a list"
  pg_total :: int
  pg_page :: int
  pg_limit :: int
  pg_totalPages :: int

definition DEFAULT_PAGE_OPTIONS :: PageOptions where
  "DEFAULT_PAGE_OPTIONS = \<lparr>po_page = 1, po_limit = 50, po_sortBy = None, po_sortOrder = None\<rparr>"

definition MAX_PAGE_LIMIT :: int where "MAX_PAGE_LIMIT = 200"

text \<open>
  The raw options come from anywhere: a number that is not an integer (or is absent) is \<open>None\<close>, the
  ordering words are strings.
\<close>

fun sortKey_value :: "SortKey \<Rightarrow> string" where
  "sortKey_value occurredAt = ''occurredAt''"
| "sortKey_value recordedAt = ''recordedAt''"

definition SORT_BY_VALUES :: "SortKey list" where "SORT_BY_VALUES = [occurredAt, recordedAt]"

fun sortOrder_value :: "SortOrder \<Rightarrow> string" where
  "sortOrder_value ASC = ''ASC''"
| "sortOrder_value DESC = ''DESC''"

definition SORT_ORDER_VALUES :: "SortOrder list" where "SORT_ORDER_VALUES = [ASC, DESC]"

definition normalizePageOptions ::
  "int option \<Rightarrow> int option \<Rightarrow> string option \<Rightarrow> string option \<Rightarrow> PageOptions" where
  "normalizePageOptions page limit sortBy sortOrder =
     \<lparr>po_page = max 1 (case page of None \<Rightarrow> 1 | Some p \<Rightarrow> p),
      po_limit =
        min (max 1 (case limit of None \<Rightarrow> po_limit DEFAULT_PAGE_OPTIONS | Some l \<Rightarrow> l)) MAX_PAGE_LIMIT,
      po_sortBy = find (\<lambda>k. sortBy = Some (sortKey_value k)) SORT_BY_VALUES,
      po_sortOrder = find (\<lambda>k. sortOrder = Some (sortOrder_value k)) SORT_ORDER_VALUES\<rparr>"

definition paginate :: "'a list \<Rightarrow> PageOptions \<Rightarrow> 'a Page" where
  "paginate items opts =
     (let n = int (length items);
          offset = (po_page opts - 1) * po_limit opts
      in \<lparr>pg_data = slice offset (offset + po_limit opts) items, pg_total = n,
          pg_page = po_page opts, pg_limit = po_limit opts,
          pg_totalPages = page_count n (po_limit opts)\<rparr>)"

section \<open>Pages cover the items\<close>

lemma normalizePageOptions_range:
  "1 \<le> po_page (normalizePageOptions p l b d)"
  "1 \<le> po_limit (normalizePageOptions p l b d) \<and> po_limit (normalizePageOptions p l b d) \<le> 200"
  by (simp_all add: normalizePageOptions_def MAX_PAGE_LIMIT_def)

lemma paginate_data:
  assumes "1 \<le> po_page opts" "1 \<le> po_limit opts"
  shows "pg_data (paginate items opts) =
    take (nat (po_limit opts)) (drop (nat (po_page opts - 1) * nat (po_limit opts)) items)"
proof -
  have "0 \<le> (po_page opts - 1) * po_limit opts" using assms by simp
  moreover from this assms have "0 \<le> (po_page opts - 1) * po_limit opts + po_limit opts" by linarith
  moreover have "nat ((po_page opts - 1) * po_limit opts) = nat (po_page opts - 1) * nat (po_limit opts)"
    using assms by (simp add: nat_mult_distrib)
  ultimately show ?thesis by (simp add: paginate_def Let_def slice_nonneg)
qed

lemma page_count_enough:
  assumes "0 \<le> n" "1 \<le> limit"
  shows "n \<le> page_count n limit * limit" "1 \<le> page_count n limit"
    "page_count n limit = 1 \<or> (page_count n limit - 1) * limit < n"
proof -
  let ?c = "- ((- n) div limit)"
  have m: "(- n) div limit * limit + (- n) mod limit = - n"
    by (rule div_mult_mod_eq)
  have r: "0 \<le> (- n) mod limit" "(- n) mod limit < limit"
    using assms(2) by simp_all
  have "?c * limit = - ((- n) div limit * limit)" by (rule minus_mult_left [symmetric])
  with m have c: "?c * limit = n + (- n) mod limit" by linarith
  have nonneg: "0 \<le> ?c" using assms by (simp add: div_nonpos_pos_le0)
  show "n \<le> page_count n limit * limit"
  proof (cases "?c = 0")
    case True
    then have "?c * limit = 0" by simp
    with c r(1) assms(1) have "n = 0" by linarith
    with assms show ?thesis by (simp add: page_count_def)
  next
    case False
    then have "page_count n limit = ?c" by (simp add: page_count_def)
    with c r(1) show ?thesis by simp
  qed
  show "1 \<le> page_count n limit" using nonneg by (auto simp: page_count_def Let_def)
  show "page_count n limit = 1 \<or> (page_count n limit - 1) * limit < n"
    using c r by (auto simp: page_count_def Let_def algebra_simps)
qed

text \<open>The blocks of \<open>l\<close> elements of a list, one after the other, are the list.\<close>

lemma concat_blocks:
  "0 < l \<Longrightarrow> length xs \<le> n * l \<Longrightarrow> concat (map (\<lambda>k. take l (drop (k * l) xs)) [0..<n]) = xs"
proof (induction n arbitrary: xs)
  case 0
  then show ?case by simp
next
  case (Suc n)
  have blocks: "map (\<lambda>k. take l (drop (k * l) xs)) [0..<Suc n]
      = take l xs # map (\<lambda>k. take l (drop (k * l) (drop l xs))) [0..<n]"
    by (simp add: upt_conv_Cons map_Suc_upt [symmetric] add.commute del: upt_Suc)
  have "concat (map (\<lambda>k. take l (drop (k * l) (drop l xs))) [0..<n]) = drop l xs"
    using Suc.prems by (intro Suc.IH) simp_all
  with blocks show ?case by simp
qed

lemma paginate_covers:
  assumes "1 \<le> limit"
  shows "concat (map (\<lambda>k. pg_data (paginate items
            \<lparr>po_page = int k + 1, po_limit = limit, po_sortBy = b, po_sortOrder = d\<rparr>))
          [0..<nat (page_count (int (length items)) limit)]) = items"
proof -
  let ?n = "nat (page_count (int (length items)) limit)"
  have pages: "pg_data (paginate items
      \<lparr>po_page = int k + 1, po_limit = limit, po_sortBy = b, po_sortOrder = d\<rparr>)
      = take (nat limit) (drop (k * nat limit) items)" for k
    using assms by (subst paginate_data) simp_all
  have "int (length items) \<le> page_count (int (length items)) limit * limit"
    and "1 \<le> page_count (int (length items)) limit"
    using assms by (intro page_count_enough; simp)+
  then have "length items \<le> ?n * nat limit"
    using assms by (simp add: nat_mult_distrib [symmetric] nat_le_iff le_nat_iff)
  with assms show ?thesis unfolding pages by (intro concat_blocks) simp_all
qed

end
