(* ===== verification/Position.thy ===== *)
theory Position
  imports Pages
begin

text \<open>
  \<open>PositionAggregate.ts\<close>, \<open>PositionSummary.ts\<close>, \<open>positionUtils.ts\<close> and \<open>CashPositionPolicy.ts\<close>: the
  numbers the book keeps for one economic object, its status, its open balance, its due state, and
  the capital metrics folded from all positions. Every classification is a function of the
  aggregate; the lemmas give the statuses as arithmetic conditions and the metrics as sums.
\<close>

section \<open>Statuses and the aggregate of an object\<close>

datatype PositionStatus = open_position | partially_settled | fully_settled | reversed | unknown_origin

datatype EconomicOutcome = gain | partial_loss | full_loss | cancelled | pending

record PositionAggregate =
  pa_objectId :: string
  pa_objectType :: ObjectType
  pa_currency :: string
  pa_totalOriginatedUnits :: int
  pa_totalSettledUnits :: int
  pa_totalAdjustedUnits :: int
  pa_cashRecoveredUnits :: int
  pa_nonCashClosedUnits :: int
  pa_refCashInUnits :: int
  pa_refCashOutUnits :: int
  pa_hasReversal :: bool
  pa_hasUnresolvedLineage :: bool
  pa_eventCount :: int
  pa_lastEventAt :: instant
  pa_originatedAt :: "instant option"
  pa_createdAt :: instant
  pa_dueAt :: "instant option"
  pa_parties :: "string list option"

text \<open>\<open>CashPositionPolicy.ts\<close>\<close>

definition USINA_RECEIVABLE_OBJECT_TYPES :: "ObjectType list" where
  "USINA_RECEIVABLE_OBJECT_TYPES = [ObjectType.LOAN, ObjectType.ADVANCE, ObjectType.RECEIVABLE]"

definition USINA_PAYABLE_OBJECT_TYPES :: "ObjectType list" where
  "USINA_PAYABLE_OBJECT_TYPES =
     [ObjectType.PAYABLE, ObjectType.PAYROLL, ObjectType.SERVICE_FEE,
      ObjectType.INFRASTRUCTURE_COST, ObjectType.TAX]"

definition USINA_CONTINGENT_OBJECT_TYPES :: "ObjectType list" where
  "USINA_CONTINGENT_OBJECT_TYPES =
     [ObjectType.CONTINGENT_CLAIM, ObjectType.DISPUTE, ObjectType.PENALTY, ObjectType.CHARGEBACK]"

section \<open>\<open>positionUtils.ts\<close>\<close>

definition hasUnknownOrigination :: "PositionAggregate \<Rightarrow> bool" where
  "hasUnknownOrigination agg \<longleftrightarrow> pa_hasUnresolvedLineage agg \<and> pa_totalOriginatedUnits agg = 0"

definition derivePositionStatus :: "PositionAggregate \<Rightarrow> PositionStatus" where
  "derivePositionStatus agg =
     (if pa_hasReversal agg then reversed
      else if hasUnknownOrigination agg then unknown_origin
      else let totalClosed = pa_totalSettledUnits agg + pa_totalAdjustedUnits agg
           in if pa_totalOriginatedUnits agg = 0 then open_position
              else if totalClosed \<ge> pa_totalOriginatedUnits agg then fully_settled
              else if totalClosed > 0 then partially_settled
              else open_position)"

definition openBalanceUnitsOf :: "PositionAggregate \<Rightarrow> int option" where
  "openBalanceUnitsOf agg =
     (if hasUnknownOrigination agg then None
      else let totalClosed = pa_totalSettledUnits agg + pa_totalAdjustedUnits agg
           in Some (if totalClosed \<ge> pa_totalOriginatedUnits agg then 0
                    else pa_totalOriginatedUnits agg - totalClosed))"

datatype DueState = overdue | upcoming | unknown

definition dueStateOf :: "PositionAggregate \<Rightarrow> instant \<Rightarrow> DueState" where
  "dueStateOf agg asOf =
     (case pa_dueAt agg of None \<Rightarrow> unknown | Some d \<Rightarrow> if d < asOf then overdue else upcoming)"

record CapitalMetrics =
  openExposureUnits :: int
  capitalAtRiskUnits :: int
  openPayableExposureUnits :: int
  overduePayableUnits :: int
  upcomingPayableUnits :: int
  undatedPayableUnits :: int

text \<open>The body of the loop for one aggregate; \<open>continue\<close> returns the accumulators.\<close>

definition capital_step ::
  "string \<Rightarrow> instant \<Rightarrow> instant \<Rightarrow> PositionAggregate \<Rightarrow> CapitalMetrics \<Rightarrow> CapitalMetrics" where
  "capital_step c riskCutoff asOf agg M =
     (if pa_currency agg \<noteq> c \<or> pa_hasReversal agg then M
      else case openBalanceUnitsOf agg of
        None \<Rightarrow> M
      | Some openBalance \<Rightarrow>
          if pa_objectType agg \<in> set USINA_PAYABLE_OBJECT_TYPES
          then let M' = M\<lparr>openPayableExposureUnits := openPayableExposureUnits M + openBalance\<rparr>
               in if openBalance > 0
                  then (case dueStateOf agg asOf of
                      overdue \<Rightarrow> M'\<lparr>overduePayableUnits := overduePayableUnits M' + openBalance\<rparr>
                    | upcoming \<Rightarrow> M'\<lparr>upcomingPayableUnits := upcomingPayableUnits M' + openBalance\<rparr>
                    | unknown \<Rightarrow> M'\<lparr>undatedPayableUnits := undatedPayableUnits M' + openBalance\<rparr>)
                  else M'
          else let M' = M\<lparr>openExposureUnits := openExposureUnits M + openBalance\<rparr>
               in if openBalance > 0 \<and> pa_totalSettledUnits agg = 0 \<and> pa_totalAdjustedUnits agg = 0 \<and>
                     (case pa_originatedAt agg of None \<Rightarrow> False | Some t \<Rightarrow> t \<le> riskCutoff)
                  then M'\<lparr>capitalAtRiskUnits := capitalAtRiskUnits M' + openBalance\<rparr>
                  else M')"

definition computeCapitalMetrics ::
  "PositionAggregate list \<Rightarrow> string \<Rightarrow> instant \<Rightarrow> instant \<Rightarrow> CapitalMetrics" where
  "computeCapitalMetrics aggs c riskCutoffMs asOf =
     fold (capital_step c riskCutoffMs asOf) aggs
       \<lparr>openExposureUnits = 0, capitalAtRiskUnits = 0, openPayableExposureUnits = 0,
        overduePayableUnits = 0, upcomingPayableUnits = 0, undatedPayableUnits = 0\<rparr>"

section \<open>Statuses as conditions on the totals\<close>

text \<open>The totals of an aggregate are sums of amounts, so they are not negative.\<close>

definition nonneg_totals :: "PositionAggregate \<Rightarrow> bool" where
  "nonneg_totals agg \<longleftrightarrow>
     0 \<le> pa_totalOriginatedUnits agg \<and> 0 \<le> pa_totalSettledUnits agg \<and> 0 \<le> pa_totalAdjustedUnits agg"

lemma openBalance_nonneg: "openBalanceUnitsOf agg = Some b \<Longrightarrow> 0 \<le> b"
  by (auto simp: openBalanceUnitsOf_def Let_def split: if_splits)

lemma openBalance_conserves:
  assumes "openBalanceUnitsOf agg = Some b"
    and "pa_totalSettledUnits agg + pa_totalAdjustedUnits agg \<le> pa_totalOriginatedUnits agg"
  shows "b + (pa_totalSettledUnits agg + pa_totalAdjustedUnits agg) = pa_totalOriginatedUnits agg"
  using assms by (auto simp: openBalanceUnitsOf_def Let_def split: if_splits)

text \<open>
  What a status tells about the balance: a settled position has none, a partly settled one has less
  than what was originated, an unknown one has no number at all.
\<close>

lemma status_balance:
  assumes "nonneg_totals agg" "\<not> pa_hasReversal agg"
  shows "derivePositionStatus agg = fully_settled \<longleftrightarrow>
      openBalanceUnitsOf agg = Some 0 \<and> pa_totalOriginatedUnits agg \<noteq> 0"
    and "derivePositionStatus agg = partially_settled \<longleftrightarrow>
      (\<exists>b. openBalanceUnitsOf agg = Some b \<and> 0 < b \<and> b < pa_totalOriginatedUnits agg)"
    and "derivePositionStatus agg = unknown_origin \<longleftrightarrow> openBalanceUnitsOf agg = None"
    and "derivePositionStatus agg = open_position \<longleftrightarrow>
      (\<exists>b. openBalanceUnitsOf agg = Some b \<and> b = pa_totalOriginatedUnits agg)"
  using assms
  by (auto simp: derivePositionStatus_def openBalanceUnitsOf_def nonneg_totals_def Let_def
      hasUnknownOrigination_def split: if_splits)

section \<open>The metrics as sums\<close>

definition counted_balance :: "string \<Rightarrow> PositionAggregate \<Rightarrow> int" where
  "counted_balance c agg =
     (if pa_currency agg \<noteq> c \<or> pa_hasReversal agg then 0
      else case openBalanceUnitsOf agg of None \<Rightarrow> 0 | Some b \<Rightarrow> b)"

definition is_payable :: "PositionAggregate \<Rightarrow> bool" where
  "is_payable agg \<longleftrightarrow> pa_objectType agg \<in> set USINA_PAYABLE_OBJECT_TYPES"

definition at_risk :: "instant \<Rightarrow> PositionAggregate \<Rightarrow> bool" where
  "at_risk cutoff agg \<longleftrightarrow>
     \<not> is_payable agg \<and> pa_totalSettledUnits agg = 0 \<and> pa_totalAdjustedUnits agg = 0 \<and>
     (case pa_originatedAt agg of None \<Rightarrow> False | Some t \<Rightarrow> t \<le> cutoff)"

definition balance_where :: "(PositionAggregate \<Rightarrow> bool) \<Rightarrow> string \<Rightarrow> PositionAggregate list \<Rightarrow> int" where
  "balance_where P c aggs = sum_list (map (\<lambda>agg. if P agg then counted_balance c agg else 0) aggs)"

lemma counted_balance_nonneg: "0 \<le> counted_balance c agg"
  using openBalance_nonneg by (auto simp: counted_balance_def split: option.splits)

lemma capital_step_sums:
  "capital_step c cutoff asOf agg M =
     \<lparr>openExposureUnits = openExposureUnits M + (if is_payable agg then 0 else counted_balance c agg),
      capitalAtRiskUnits = capitalAtRiskUnits M + (if at_risk cutoff agg then counted_balance c agg else 0),
      openPayableExposureUnits =
        openPayableExposureUnits M + (if is_payable agg then counted_balance c agg else 0),
      overduePayableUnits = overduePayableUnits M
        + (if is_payable agg \<and> dueStateOf agg asOf = overdue then counted_balance c agg else 0),
      upcomingPayableUnits = upcomingPayableUnits M
        + (if is_payable agg \<and> dueStateOf agg asOf = upcoming then counted_balance c agg else 0),
      undatedPayableUnits = undatedPayableUnits M
        + (if is_payable agg \<and> dueStateOf agg asOf = unknown then counted_balance c agg else 0)\<rparr>"
proof (cases "openBalanceUnitsOf agg")
  case None
  then show ?thesis by (simp add: capital_step_def counted_balance_def)
next
  case (Some b)
  with openBalance_nonneg have "b = 0 \<or> 0 < b" by fastforce
  with Some show ?thesis
    by (cases "dueStateOf agg asOf")
       (auto simp: capital_step_def counted_balance_def is_payable_def at_risk_def Let_def)
qed

lemma balance_where_Cons:
  "balance_where P c (agg # aggs) = (if P agg then counted_balance c agg else 0) + balance_where P c aggs"
  by (simp add: balance_where_def)

lemma capital_fold:
  "fold (capital_step c cutoff asOf) aggs M =
     \<lparr>openExposureUnits = openExposureUnits M + balance_where (\<lambda>a. \<not> is_payable a) c aggs,
      capitalAtRiskUnits = capitalAtRiskUnits M + balance_where (at_risk cutoff) c aggs,
      openPayableExposureUnits = openPayableExposureUnits M + balance_where is_payable c aggs,
      overduePayableUnits = overduePayableUnits M
        + balance_where (\<lambda>a. is_payable a \<and> dueStateOf a asOf = overdue) c aggs,
      upcomingPayableUnits = upcomingPayableUnits M
        + balance_where (\<lambda>a. is_payable a \<and> dueStateOf a asOf = upcoming) c aggs,
      undatedPayableUnits = undatedPayableUnits M
        + balance_where (\<lambda>a. is_payable a \<and> dueStateOf a asOf = unknown) c aggs\<rparr>"
proof (induction aggs arbitrary: M)
  case Nil
  then show ?case by (simp add: balance_where_def)
next
  case (Cons agg aggs)
  show ?case
    unfolding fold_simps unfolding Cons.IH unfolding capital_step_sums
    by (simp add: balance_where_Cons)
qed

lemma balance_where_split:
  "balance_where (\<lambda>a. P a \<and> Q a) c aggs + balance_where (\<lambda>a. P a \<and> \<not> Q a) c aggs = balance_where P c aggs"
  by (induction aggs) (auto simp: balance_where_def)

lemma balance_where_mono:
  "(\<And>a. P a \<Longrightarrow> Q a) \<Longrightarrow> balance_where P c aggs \<le> balance_where Q c aggs"
  by (induction aggs) (auto simp: balance_where_def counted_balance_nonneg add_increasing intro: add_mono)

lemma balance_where_nonneg: "0 \<le> balance_where P c aggs"
  unfolding balance_where_def by (rule sum_list_nonneg_int) (simp add: counted_balance_nonneg)

end
