(* ===== verification/Ledger_Store.thy ===== *)
theory Ledger_Store
  imports Position
begin

text \<open>
  \<open>InMemoryLedgerEventRepository.ts\<close>, the store of recorded events and its queries: the state is the
  array of events in the order they were saved. The interface \<open>ledger_repository\<close> states what the
  use cases rely on (\<open>LedgerEventRepository.ts\<close>); the store interprets it. Aggregations over
  positions are in \<open>Ledger_Aggregates\<close>, the listing of cash movements in \<open>Cash_Movements\<close>.
\<close>

type_synonym store = "LedgerEvent list"

section \<open>Saving and finding\<close>

definition save :: "store \<Rightarrow> LedgerEvent \<Rightarrow> ledger_error + store" where
  "save st ev =
     (if list_ex (\<lambda>e. ev_id e = ev_id ev) st
      then Inl (UseCase_Error (ImmutabilityViolation (ev_id ev)))
      else Inr (st @ [ev]))"

definition getById :: "store \<Rightarrow> string \<Rightarrow> LedgerEvent option" where
  "getById st i = find (\<lambda>e. ev_id e = i) st"

definition getByHash :: "store \<Rightarrow> string \<Rightarrow> LedgerEvent option" where
  "getByHash st h = find (\<lambda>e. ev_hash e = h) st"

definition getByCommandId :: "store \<Rightarrow> string \<Rightarrow> LedgerEvent option" where
  "getByCommandId st c = find (\<lambda>e. ev_commandId e = Some c) st"

definition getLastEventHash :: "store \<Rightarrow> string option" where
  "getLastEventHash st = (if st = [] then None else Some (ev_hash (last st)))"

definition existsBySourceReference :: "store \<Rightarrow> string \<Rightarrow> bool" where
  "existsBySourceReference st r = list_ex (\<lambda>e. src_reference (ev_source e) = r) st"

definition mentions :: "string \<Rightarrow> LedgerEvent \<Rightarrow> bool" where
  "mentions oid ev = list_ex (\<lambda>ob. obj_id ob = oid) (ev_objects ev)"

definition findByObjectId :: "store \<Rightarrow> string \<Rightarrow> LedgerEvent list" where
  "findByObjectId st oid = filter (mentions oid) st"

definition findByRelatedEventId :: "store \<Rightarrow> string \<Rightarrow> LedgerEvent list" where
  "findByRelatedEventId st i = filter (\<lambda>e. ev_relatedEventId e = Some i) st"

text \<open>A \<open>Set\<close> that is only added to is a list without repetitions in the order of insertion.\<close>

definition set_add :: "'a \<Rightarrow> 'a list \<Rightarrow> 'a list" where
  "set_add x s = (if x \<in> set s then s else s @ [x])"

definition findSettledObjectIds :: "store \<Rightarrow> string list \<Rightarrow> string list" where
  "findSettledObjectIds st wanted =
     (if wanted = [] then []
      else let retracted = retractedEventIds st
           in fold (\<lambda>ev settled.
                if ev_id ev \<in> set retracted then settled
                else fold (\<lambda>ob s. if obj_relation ob = Relation.SETTLES \<and> obj_id ob \<in> set wanted
                                 then set_add (obj_id ob) s else s)
                       (ev_objects ev) settled) st [])"

definition findByPartyId :: "store \<Rightarrow> string \<Rightarrow> LedgerEvent list" where
  "findByPartyId st p = filter (\<lambda>e. list_ex (\<lambda>q. party_id q = p) (ev_parties e)) st"

definition findAll :: "store \<Rightarrow> LedgerEvent list" where
  "findAll st = st"

definition findByPeriod :: "store \<Rightarrow> instant \<Rightarrow> instant \<Rightarrow> LedgerEvent list" where
  "findByPeriod st from to = filter (\<lambda>e. ev_occurredAt e \<ge> from \<and> ev_occurredAt e \<le> to) st"

definition findAllObjectIds :: "store \<Rightarrow> string list" where
  "findAllObjectIds st = fold (\<lambda>ev ids. fold (\<lambda>ob s. set_add (obj_id ob) s) (ev_objects ev) ids) st []"

definition partiesOfObject :: "store \<Rightarrow> string \<Rightarrow> string list" where
  "partiesOfObject st oid =
     (let retracted = retractedEventIds st
      in fold (\<lambda>ev parties.
           if ev_id ev \<in> set retracted then parties
           else if \<not> list_ex (\<lambda>ob. obj_id ob = oid) (ev_objects ev) then parties
           else fold (\<lambda>q s. set_add (party_id q) s) (ev_parties ev) parties) st [])"

section \<open>Orders on events\<close>

definition compareIds :: "string \<Rightarrow> string \<Rightarrow> SortOrder \<Rightarrow> int" where
  "compareIds a b direction =
     (let ascending = (if a < b then - 1 else if a > b then 1 else 0)
      in if direction = DESC then - ascending else ascending)"

text \<open>The comparator of the listings: an instant of the event, the id breaking ties the same way.\<close>

definition event_compare :: "(LedgerEvent \<Rightarrow> instant) \<Rightarrow> SortOrder \<Rightarrow> LedgerEvent \<Rightarrow> LedgerEvent \<Rightarrow> int" where
  "event_compare axis direction a b =
     (let diff = (if direction = DESC then axis b - axis a else axis a - axis b)
      in if diff \<noteq> 0 then diff else compareIds (ev_id a) (ev_id b) direction)"

fun event_axis :: "SortKey \<Rightarrow> LedgerEvent \<Rightarrow> instant" where
  "event_axis occurredAt ev = ev_occurredAt ev"
| "event_axis recordedAt ev = ev_recordedAt ev"

interpretation event_order: comparator "event_compare axis direction"
proof
  show "event_compare axis direction a b \<le> 0 \<or> event_compare axis direction b a \<le> 0" for a b
    by (auto simp: event_compare_def compareIds_def Let_def)
  show "event_compare axis direction a b \<le> 0 \<Longrightarrow> event_compare axis direction b c \<le> 0 \<Longrightarrow>
    event_compare axis direction a c \<le> 0" for a b c
    by (cases direction)
       (auto simp: event_compare_def compareIds_def Let_def split: if_splits)
qed

definition is_cash :: "LedgerEvent \<Rightarrow> bool" where
  "is_cash ev \<longleftrightarrow>
     ev_economicEffect ev = EconomicEffect.CASH_IN \<or> ev_economicEffect ev = EconomicEffect.CASH_OUT"

definition findRecentCashMovements :: "store \<Rightarrow> int \<Rightarrow> LedgerEvent list" where
  "findRecentCashMovements st limit =
     (let retracted = retractedEventIds st
      in slice 0 limit (sort_by (event_compare ev_occurredAt DESC)
           (filter (\<lambda>e. ev_id e \<notin> set retracted \<and> is_cash e) st)))"

definition findPaginated :: "store \<Rightarrow> PageOptions \<Rightarrow> LedgerEvent Page" where
  "findPaginated st opts =
     (let key = (if po_sortBy opts = Some occurredAt then occurredAt else recordedAt);
          direction = (if po_sortOrder opts = Some DESC then DESC else ASC)
      in paginate (sort_by (event_compare (event_axis key) direction) st) opts)"

section \<open>Cash totals\<close>

record CashFlows =
  cashInUnits :: int
  cashOutUnits :: int
  cf_currency :: string

text \<open>One event of the loop; the flag is \<open>found\<close>.\<close>

definition cash_step :: "LedgerEvent \<Rightarrow> CashFlows \<times> bool \<Rightarrow> CashFlows \<times> bool" where
  "cash_step ev = (\<lambda>(F, found).
     let F' = (if found then F else F\<lparr>cf_currency := currency (ev_amount ev)\<rparr>);
         u = toUnits (ev_amount ev)
     in if ev_economicEffect ev = EconomicEffect.CASH_IN
        then (F'\<lparr>cashInUnits := cashInUnits F' + u\<rparr>, True)
        else if ev_economicEffect ev = EconomicEffect.CASH_OUT
        then (F'\<lparr>cashOutUnits := cashOutUnits F' + u\<rparr>, True)
        else (F, found))"

definition no_flows :: CashFlows where
  "no_flows = \<lparr>cashInUnits = 0, cashOutUnits = 0, cf_currency = ''BRL''\<rparr>"

definition aggregateCashFlows :: "store \<Rightarrow> CashFlows" where
  "aggregateCashFlows st =
     (let retracted = retractedEventIds st
      in fst (fold (\<lambda>ev S. if ev_id ev \<in> set retracted then S else cash_step ev S) st (no_flows, False)))"

definition aggregateCashFlowsBefore :: "store \<Rightarrow> instant \<Rightarrow> CashFlows" where
  "aggregateCashFlowsBefore st date =
     (let retracted = retractedEventIds st
      in fst (fold (\<lambda>ev S. if ev_id ev \<in> set retracted then S
                          else if ev_occurredAt ev \<ge> date then S
                          else cash_step ev S) st (no_flows, False)))"

record ClosureStats =
  cs_cashInSettledUnits :: int
  cs_totalSettledUnits :: int

definition closure_step ::
  "string list \<Rightarrow> instant \<Rightarrow> instant \<Rightarrow> string \<Rightarrow> LedgerEvent \<Rightarrow> ClosureStats \<Rightarrow> ClosureStats" where
  "closure_step retracted from to c ev S =
     (if ev_id ev \<in> set retracted then S
      else if ev_occurredAt ev < from \<or> ev_occurredAt ev > to then S
      else if currency (ev_amount ev) \<noteq> c then S
      else if \<not> has_relation Relation.SETTLES (ev_objects ev) then S
      else let S' = S\<lparr>cs_totalSettledUnits := cs_totalSettledUnits S + toUnits (ev_amount ev)\<rparr>
           in if ev_economicEffect ev = EconomicEffect.CASH_IN
              then S'\<lparr>cs_cashInSettledUnits := cs_cashInSettledUnits S' + toUnits (ev_amount ev)\<rparr>
              else S')"

definition aggregateClosureStats :: "store \<Rightarrow> instant \<Rightarrow> instant \<Rightarrow> string \<Rightarrow> ClosureStats" where
  "aggregateClosureStats st from to c =
     fold (closure_step (retractedEventIds st) from to c) st
       \<lparr>cs_cashInSettledUnits = 0, cs_totalSettledUnits = 0\<rparr>"

text \<open>
  The key of a row is the text \<open>type|effect\<close>; no value contains the separator, so it stands for the
  pair it is split into again.
\<close>

definition period_key :: "EventType \<Rightarrow> EconomicEffect \<Rightarrow> string" where
  "period_key ty ef = eventType_value ty @ ''|'' @ economicEffect_value ef"

record PeriodRow =
  row_eventType :: EventType
  row_economicEffect :: EconomicEffect
  row_totalUnits :: int
  row_currency :: string

definition period_step ::
  "string list \<Rightarrow> instant \<Rightarrow> instant \<Rightarrow> LedgerEvent
     \<Rightarrow> ((EventType \<times> EconomicEffect) \<times> int \<times> string) list
     \<Rightarrow> ((EventType \<times> EconomicEffect) \<times> int \<times> string) list" where
  "period_step retracted from to ev byKey =
     (if ev_id ev \<in> set retracted then byKey
      else if ev_occurredAt ev < from \<or> ev_occurredAt ev > to then byKey
      else if \<not> is_cash ev then byKey
      else let key = (ev_eventType ev, ev_economicEffect ev); u = toUnits (ev_amount ev)
           in (case map_of byKey key of
                 Some (t, c) \<Rightarrow> AList.update key (t + u, c) byKey
               | None \<Rightarrow> AList.update key (u, currency (ev_amount ev)) byKey))"

definition aggregatePeriodCashFlow :: "store \<Rightarrow> instant \<Rightarrow> instant \<Rightarrow> PeriodRow list" where
  "aggregatePeriodCashFlow st from to =
     map (\<lambda>((ty, ef), (t, c)).
            \<lparr>row_eventType = ty, row_economicEffect = ef, row_totalUnits = t, row_currency = c\<rparr>)
       (fold (period_step (retractedEventIds st) from to) st [])"

section \<open>The interface the use cases rely on\<close>

text \<open>The hash chain of a list of events: each one names the hash of the one before it.\<close>

fun chained :: "string option \<Rightarrow> LedgerEvent list \<Rightarrow> bool" where
  "chained h [] = True"
| "chained h (e # es) = (ev_previousHash e = h \<and> chained (Some (ev_hash e)) es)"

abbreviation chain_end :: "string option \<Rightarrow> LedgerEvent list \<Rightarrow> string option" where
  "chain_end h es \<equiv> (if es = [] then h else Some (ev_hash (last es)))"

lemma chained_append: "chained h (xs @ ys) \<longleftrightarrow> chained h xs \<and> chained (chain_end h xs) ys"
  by (induction xs arbitrary: h) auto

locale ledger_repository =
  fixes save :: "'s \<Rightarrow> LedgerEvent \<Rightarrow> ledger_error + 's"
    and findAll :: "'s \<Rightarrow> LedgerEvent list"
    and getById :: "'s \<Rightarrow> string \<Rightarrow> LedgerEvent option"
    and getByCommandId :: "'s \<Rightarrow> string \<Rightarrow> LedgerEvent option"
    and existsBySourceReference :: "'s \<Rightarrow> string \<Rightarrow> bool"
    and getLastEventHash :: "'s \<Rightarrow> string option"
    and findByObjectId :: "'s \<Rightarrow> string \<Rightarrow> LedgerEvent list"
    and findByRelatedEventId :: "'s \<Rightarrow> string \<Rightarrow> LedgerEvent list"
  assumes save_Inr: "save s e = Inr s' \<Longrightarrow>
      findAll s' = findAll s @ [e] \<and> (\<forall>x\<in>set (findAll s). ev_id x \<noteq> ev_id e)"
    and save_fresh: "\<forall>x\<in>set (findAll s). ev_id x \<noteq> ev_id e \<Longrightarrow> \<exists>s'. save s e = Inr s'"
    and getById_Some: "getById s i = Some e \<Longrightarrow> e \<in> set (findAll s) \<and> ev_id e = i"
    and getById_None: "getById s i = None \<longleftrightarrow> (\<forall>e\<in>set (findAll s). ev_id e \<noteq> i)"
    and getByCommandId_Some: "getByCommandId s c = Some e \<Longrightarrow> e \<in> set (findAll s) \<and> ev_commandId e = Some c"
    and getByCommandId_None: "getByCommandId s c = None \<longleftrightarrow> (\<forall>e\<in>set (findAll s). ev_commandId e \<noteq> Some c)"
    and exists_source: "existsBySourceReference s r \<longleftrightarrow> (\<exists>e\<in>set (findAll s). src_reference (ev_source e) = r)"
    and last_hash: "getLastEventHash s = chain_end None (findAll s)"
    and by_object: "findByObjectId s oid = filter (mentions oid) (findAll s)"
    and by_related: "findByRelatedEventId s i = filter (\<lambda>e. ev_relatedEventId e = Some i) (findAll s)"
begin

lemma save_appends: "save s e = Inr s' \<Longrightarrow> findAll s' = findAll s @ [e]"
  by (simp add: save_Inr)

lemma save_iff: "(\<exists>s'. save s e = Inr s') \<longleftrightarrow> getById s (ev_id e) = None"
  using save_Inr save_fresh getById_None by metis

lemma save_distinct:
  "save s e = Inr s' \<Longrightarrow> distinct (map ev_id (findAll s)) \<Longrightarrow> distinct (map ev_id (findAll s'))"
  using save_Inr [of s e s'] by auto

lemma getById_member:
  assumes "distinct (map ev_id (findAll s))"
  shows "getById s i = Some e \<longleftrightarrow> e \<in> set (findAll s) \<and> ev_id e = i"
proof
  assume e: "e \<in> set (findAll s) \<and> ev_id e = i"
  then obtain x where x: "getById s i = Some x"
    using getById_None [of s i] by (cases "getById s i") auto
  with e assms have "x = e" using getById_Some [OF x] by (metis distinct_map inj_onD)
  with x show "getById s i = Some e" by simp
qed (rule getById_Some)

lemma saved_event_found:
  assumes "save s e = Inr s'" "distinct (map ev_id (findAll s))"
  shows "getById s' (ev_id e) = Some e"
  using assms save_distinct [OF assms] by (simp add: getById_member save_appends)

lemma saved_event_kept:
  assumes "save s e = Inr s'" "distinct (map ev_id (findAll s))" "getById s i = Some x"
  shows "getById s' i = Some x"
  using assms save_distinct [OF assms(1,2)] getById_Some [OF assms(3)]
  by (simp add: getById_member save_appends)

lemma save_chained:
  assumes "save s e = Inr s'" "chained None (findAll s)" "ev_previousHash e = getLastEventHash s"
  shows "chained None (findAll s')"
  using assms last_hash [of s] by (simp add: save_appends chained_append)

end

interpretation memory: ledger_repository save findAll getById getByCommandId existsBySourceReference
  getLastEventHash findByObjectId findByRelatedEventId
proof
  show "save s e = Inr s' \<Longrightarrow> findAll s' = findAll s @ [e] \<and> (\<forall>x\<in>set (findAll s). ev_id x \<noteq> ev_id e)"
    for s e s'
    by (auto simp: save_def findAll_def list_ex_Bex split: if_splits)
  show "\<forall>x\<in>set (findAll s). ev_id x \<noteq> ev_id e \<Longrightarrow> \<exists>s'. save s e = Inr s'" for s e
    by (auto simp: save_def findAll_def list_ex_Bex)
  show "getById s i = Some e \<Longrightarrow> e \<in> set (findAll s) \<and> ev_id e = i" for s i e
    by (auto simp: getById_def findAll_def dest: find_SomeD)
  show "getById s i = None \<longleftrightarrow> (\<forall>e\<in>set (findAll s). ev_id e \<noteq> i)" for s i
    by (auto simp: getById_def findAll_def find_None_iff)
  show "getByCommandId s c = Some e \<Longrightarrow> e \<in> set (findAll s) \<and> ev_commandId e = Some c" for s c e
    by (auto simp: getByCommandId_def findAll_def dest: find_SomeD)
  show "getByCommandId s c = None \<longleftrightarrow> (\<forall>e\<in>set (findAll s). ev_commandId e \<noteq> Some c)" for s c
    by (auto simp: getByCommandId_def findAll_def find_None_iff)
  show "existsBySourceReference s r \<longleftrightarrow> (\<exists>e\<in>set (findAll s). src_reference (ev_source e) = r)" for s r
    by (simp add: existsBySourceReference_def findAll_def list_ex_Bex)
  show "getLastEventHash s = chain_end None (findAll s)" for s
    by (simp add: getLastEventHash_def findAll_def)
  show "findByObjectId s oid = filter (mentions oid) (findAll s)" for s oid
    by (simp add: findByObjectId_def findAll_def)
  show "findByRelatedEventId s i = filter (\<lambda>e. ev_relatedEventId e = Some i) (findAll s)" for s i
    by (simp add: findByRelatedEventId_def findAll_def)
qed

section \<open>Sets of identifiers\<close>

lemma set_set_add [simp]: "set (set_add x s) = insert x (set s)"
  by (auto simp: set_add_def)

lemma distinct_set_add [simp]: "distinct (set_add x s) = distinct s"
  by (auto simp: set_add_def)

text \<open>A loop whose body adds the elements of \<open>A x\<close>, and keeps the list without repetitions.\<close>

lemma fold_union:
  "(\<And>x s. set (g x s) = set s \<union> A x) \<Longrightarrow> set (fold g xs s) = set s \<union> (\<Union>x\<in>set xs. A x)"
  by (induction xs arbitrary: s) auto

lemma fold_distinct:
  "(\<And>x s. distinct s \<Longrightarrow> distinct (g x s)) \<Longrightarrow> distinct s \<Longrightarrow> distinct (fold g xs s)"
  by (induction xs arbitrary: s) auto

lemma fold_set_add_if:
  "set (fold (\<lambda>x s. if P x then set_add (f x) s else s) xs s) = set s \<union> {f x |x. x \<in> set xs \<and> P x}"
  by (induction xs arbitrary: s) auto

lemma fold_set_add:
  "set (fold (\<lambda>x s. set_add (f x) s) xs s) = set s \<union> f ` set xs"
  by (induction xs arbitrary: s) auto

lemma set_findAllObjectIds: "set (findAllObjectIds st) = {oid. \<exists>ev\<in>set st. mentions oid ev}"
proof -
  have "set (fold (\<lambda>ev ids. fold (\<lambda>ob s. set_add (obj_id ob) s) (ev_objects ev) ids) st [])
      = set [] \<union> (\<Union>ev\<in>set st. obj_id ` set (ev_objects ev))"
    by (rule fold_union) (simp add: fold_set_add)
  then show ?thesis by (auto simp: findAllObjectIds_def mentions_def list_ex_Bex)
qed

lemma distinct_findAllObjectIds: "distinct (findAllObjectIds st)"
  unfolding findAllObjectIds_def by (intro fold_distinct) simp_all

lemma set_findSettledObjectIds:
  "set (findSettledObjectIds st wanted) =
     {oid \<in> set wanted. \<exists>ev\<in>set (standing st). names (\<lambda>r. r = Relation.SETTLES) oid ev}"
proof (cases "wanted = []")
  case True
  then show ?thesis by (simp add: findSettledObjectIds_def)
next
  case False
  let ?A = "\<lambda>ev. if ev_id ev \<in> set (retractedEventIds st) then {}
    else {obj_id ob |ob. ob \<in> set (ev_objects ev) \<and>
            obj_relation ob = Relation.SETTLES \<and> obj_id ob \<in> set wanted}"
  have "set (findSettledObjectIds st wanted) = set [] \<union> (\<Union>ev\<in>set st. ?A ev)"
    unfolding findSettledObjectIds_def Let_def using False
    by (simp only: if_False) (rule fold_union, simp add: fold_set_add_if)
  then show ?thesis by (auto simp: standing_def stands_def names_def split: if_splits)
qed

lemma set_partiesOfObject:
  "set (partiesOfObject st oid) =
     {p. \<exists>ev\<in>set (standing st). mentions oid ev \<and> p \<in> party_id ` set (ev_parties ev)}"
proof -
  let ?A = "\<lambda>ev. if ev_id ev \<in> set (retractedEventIds st) \<or> \<not> mentions oid ev then {}
    else party_id ` set (ev_parties ev)"
  have "set (partiesOfObject st oid) = set [] \<union> (\<Union>ev\<in>set st. ?A ev)"
    unfolding partiesOfObject_def Let_def
    by (rule fold_union) (simp add: fold_set_add mentions_def)
  then show ?thesis by (auto simp: standing_def stands_def split: if_splits)
qed

section \<open>Cash totals as sums\<close>

definition effect_units :: "EconomicEffect \<Rightarrow> LedgerEvent list \<Rightarrow> int" where
  "effect_units ef evs =
     sum_list (map (\<lambda>ev. if ev_economicEffect ev = ef then units (ev_amount ev) else 0) evs)"

lemma effect_units_simps [simp]:
  "effect_units ef [] = 0"
  "effect_units ef (ev # evs) =
     (if ev_economicEffect ev = ef then units (ev_amount ev) else 0) + effect_units ef evs"
  "effect_units ef (xs @ ys) = effect_units ef xs + effect_units ef ys"
  by (simp_all add: effect_units_def)

lemma fold_skip: "fold (\<lambda>x s. if P x then s else f x s) xs s = fold f (filter (\<lambda>x. \<not> P x) xs) s"
  by (induction xs arbitrary: s) auto

lemma cash_fold:
  "cashInUnits (fst (fold cash_step evs (F, b))) = cashInUnits F + effect_units EconomicEffect.CASH_IN evs"
  "cashOutUnits (fst (fold cash_step evs (F, b))) = cashOutUnits F + effect_units EconomicEffect.CASH_OUT evs"
  by (induction evs arbitrary: F b) (simp_all add: cash_step_def Let_def toUnits_def)

lemma aggregateCashFlows_fold: "aggregateCashFlows st = fst (fold cash_step (standing st) (no_flows, False))"
  by (simp add: aggregateCashFlows_def Let_def fold_skip standing_def stands_def [abs_def])

lemma aggregateCashFlowsBefore_fold:
  "aggregateCashFlowsBefore st d =
     fst (fold cash_step (filter (\<lambda>ev. ev_occurredAt ev < d) (standing st)) (no_flows, False))"
proof -
  have "(\<lambda>ev S. if ev_id ev \<in> set (retractedEventIds st) then S
           else if ev_occurredAt ev \<ge> d then S else cash_step ev S)
      = (\<lambda>ev S. if ev_id ev \<in> set (retractedEventIds st) \<or> ev_occurredAt ev \<ge> d then S else cash_step ev S)"
    by (auto simp: fun_eq_iff)
  then show ?thesis
    by (simp add: aggregateCashFlowsBefore_def Let_def fold_skip standing_def stands_def [abs_def]
        not_le conj_commute)
qed

lemma effect_units_split:
  "effect_units ef evs = effect_units ef (filter P evs) + effect_units ef (filter (\<lambda>e. \<not> P e) evs)"
  by (induction evs) auto

text \<open>All cash is the cash before a date and the cash from that date on.\<close>

lemma cash_before_after:
  "cashInUnits (aggregateCashFlows st) = cashInUnits (aggregateCashFlowsBefore st d)
     + effect_units EconomicEffect.CASH_IN (filter (\<lambda>e. \<not> ev_occurredAt e < d) (standing st))"
  "cashOutUnits (aggregateCashFlows st) = cashOutUnits (aggregateCashFlowsBefore st d)
     + effect_units EconomicEffect.CASH_OUT (filter (\<lambda>e. \<not> ev_occurredAt e < d) (standing st))"
  unfolding aggregateCashFlows_fold aggregateCashFlowsBefore_fold cash_fold
  using effect_units_split [of _ "standing st" "\<lambda>e. ev_occurredAt e < d"] by simp_all

section \<open>Closure figures and period rows as sums\<close>

definition in_period :: "instant \<Rightarrow> instant \<Rightarrow> LedgerEvent \<Rightarrow> bool" where
  "in_period from to ev \<longleftrightarrow> from \<le> ev_occurredAt ev \<and> ev_occurredAt ev \<le> to"

definition settling_in :: "store \<Rightarrow> instant \<Rightarrow> instant \<Rightarrow> string \<Rightarrow> LedgerEvent list" where
  "settling_in st from to c =
     filter (\<lambda>ev. in_period from to ev \<and> currency (ev_amount ev) = c \<and>
                 has_relation Relation.SETTLES (ev_objects ev)) (standing st)"

lemma closure_fold:
  "fold (closure_step ret from to c) evs S =
     (let E = filter (\<lambda>ev. ev_id ev \<notin> set ret \<and> in_period from to ev \<and> currency (ev_amount ev) = c \<and>
                 has_relation Relation.SETTLES (ev_objects ev)) evs
      in \<lparr>cs_cashInSettledUnits = cs_cashInSettledUnits S + effect_units EconomicEffect.CASH_IN E,
          cs_totalSettledUnits = cs_totalSettledUnits S + sum_list (map (\<lambda>e. units (ev_amount e)) E)\<rparr>)"
proof (induction evs arbitrary: S)
  case Nil
  then show ?case by simp
next
  case (Cons ev evs)
  show ?case
    unfolding fold_simps unfolding Cons.IH
    by (auto simp: closure_step_def in_period_def toUnits_def Let_def not_le)
qed

lemma aggregateClosureStats_sums:
  "aggregateClosureStats st from to c =
     \<lparr>cs_cashInSettledUnits = effect_units EconomicEffect.CASH_IN (settling_in st from to c),
      cs_totalSettledUnits = sum_list (map (\<lambda>e. units (ev_amount e)) (settling_in st from to c))\<rparr>"
proof -
  have "settling_in st from to c =
      filter (\<lambda>ev. ev_id ev \<notin> set (retractedEventIds st) \<and> in_period from to ev \<and>
        currency (ev_amount ev) = c \<and> has_relation Relation.SETTLES (ev_objects ev)) st"
    by (auto simp: settling_in_def standing_def stands_def intro!: filter_cong)
  then show ?thesis by (simp add: aggregateClosureStats_def closure_fold Let_def)
qed

lemma period_key_inject: "period_key a b = period_key c d \<longleftrightarrow> a = c \<and> b = d"
proof -
  have bar: "takeWhile (\<lambda>x. x \<noteq> CHR ''|'') (eventType_value ty @ ''|'' @ s) = eventType_value ty" for ty s
    by (cases ty) simp_all
  have "period_key a b = period_key c d \<Longrightarrow> eventType_value a = eventType_value c"
    unfolding period_key_def using bar by metis
  then show ?thesis
    by (auto simp: eventType.value_inject period_key_def economicEffect.value_inject)
qed

definition period_units :: "store \<Rightarrow> instant \<Rightarrow> instant \<Rightarrow> EventType \<Rightarrow> EconomicEffect \<Rightarrow> int" where
  "period_units st from to ty ef =
     sum_list (map (\<lambda>ev. units (ev_amount ev))
       (filter (\<lambda>ev. in_period from to ev \<and> ev_eventType ev = ty \<and> ev_economicEffect ev = ef) (standing st)))"

definition period_hits ::
  "string list \<Rightarrow> instant \<Rightarrow> instant \<Rightarrow> EventType \<times> EconomicEffect \<Rightarrow> LedgerEvent list \<Rightarrow> LedgerEvent list" where
  "period_hits ret from to k evs =
     filter (\<lambda>ev. ev_id ev \<notin> set ret \<and> in_period from to ev \<and> is_cash ev \<and>
       (ev_eventType ev, ev_economicEffect ev) = k) evs"

lemma period_step_lookup:
  "map_of (period_step ret from to ev m) k =
     (if period_hits ret from to k [ev] = [] then map_of m k
      else Some (case map_of m k of
          Some (t, c) \<Rightarrow> (t + units (ev_amount ev), c)
        | None \<Rightarrow> (units (ev_amount ev), currency (ev_amount ev))))"
  by (auto simp: period_step_def period_hits_def in_period_def Let_def map_of_update toUnits_def
      split: option.splits)

lemma period_fold_lookup:
  "map_option fst (map_of (fold (period_step ret from to) evs m) k) =
     (if map_of m k = None \<and> period_hits ret from to k evs = [] then None
      else Some ((case map_of m k of None \<Rightarrow> 0 | Some (t, c) \<Rightarrow> t)
        + sum_list (map (\<lambda>e. units (ev_amount e)) (period_hits ret from to k evs))))"
proof (induction evs arbitrary: m)
  case Nil
  then show ?case by (cases "map_of m k") (auto simp: period_hits_def)
next
  case (Cons ev evs)
  have split: "period_hits ret from to k (ev # evs)
      = period_hits ret from to k [ev] @ period_hits ret from to k evs"
    by (simp add: period_hits_def)
  have one: "period_hits ret from to k [ev] \<noteq> [] \<Longrightarrow> period_hits ret from to k [ev] = [ev]"
    by (simp add: period_hits_def split: if_splits)
  show ?case
    unfolding fold_simps unfolding Cons.IH unfolding period_step_lookup split
    using one by (cases "map_of m k") (auto split: prod.splits)
qed

end
