(* ===== verification/Ledger_Aggregates.thy ===== *)
theory Ledger_Aggregates
  imports Ledger_Store
begin

text \<open>
  \<open>InMemoryLedgerEventRepository.ts\<close>, positions: \<open>buildAggregateMap\<close> walks the standing events and
  keeps the numbers of every object they name; the listings sort, filter and page those numbers.
  The loop mutates the aggregate of one object at a time, so what it leaves for an object is the
  same walk over the mentions of that object alone (\<open>build_lookup\<close>); its totals are then the sums
  that the conservation guard of the write path computes by itself.
\<close>

section \<open>The loop over events and objects\<close>

definition new_aggregate :: "LedgerEvent \<Rightarrow> LedgerEventObject \<Rightarrow> PositionAggregate" where
  "new_aggregate ev ob =
     \<lparr>pa_objectId = obj_id ob, pa_objectType = obj_type ob, pa_currency = currency (ev_amount ev),
      pa_totalOriginatedUnits = 0, pa_totalSettledUnits = 0, pa_totalAdjustedUnits = 0,
      pa_cashRecoveredUnits = 0, pa_nonCashClosedUnits = 0,
      pa_refCashInUnits = 0, pa_refCashOutUnits = 0,
      pa_hasReversal = False, pa_hasUnresolvedLineage = False, pa_eventCount = 0,
      pa_lastEventAt = 0, pa_originatedAt = None, pa_createdAt = ev_recordedAt ev, pa_dueAt = None,
      pa_parties = None\<rparr>"

definition earlier :: "instant option \<Rightarrow> instant \<Rightarrow> instant option" where
  "earlier old t = (case old of None \<Rightarrow> Some t | Some o' \<Rightarrow> if t < o' then Some t else old)"

text \<open>The \<open>switch\<close> on the relation.\<close>

fun track_relation :: "Relation \<Rightarrow> LedgerEvent \<Rightarrow> PositionAggregate \<Rightarrow> PositionAggregate" where
  "track_relation Relation.ORIGINATES ev agg =
     (let a1 = agg\<lparr>pa_totalOriginatedUnits := pa_totalOriginatedUnits agg + toUnits (ev_amount ev)\<rparr>;
          a2 = a1\<lparr>pa_originatedAt := earlier (pa_originatedAt a1) (ev_occurredAt ev)\<rparr>
      in (case ev_dueAt ev of None \<Rightarrow> a2 | Some d \<Rightarrow> a2\<lparr>pa_dueAt := earlier (pa_dueAt a2) d\<rparr>))"
| "track_relation Relation.SETTLES ev agg =
     (let u = toUnits (ev_amount ev);
          a1 = agg\<lparr>pa_totalSettledUnits := pa_totalSettledUnits agg + u\<rparr>;
          a2 = (if ev_economicEffect ev = EconomicEffect.CASH_IN
                then a1\<lparr>pa_cashRecoveredUnits := pa_cashRecoveredUnits a1 + u\<rparr> else a1)
      in if ev_economicEffect ev = EconomicEffect.NON_CASH
         then a2\<lparr>pa_nonCashClosedUnits := pa_nonCashClosedUnits a2 + u\<rparr> else a2)"
| "track_relation Relation.ADJUSTS ev agg =
     agg\<lparr>pa_totalAdjustedUnits := pa_totalAdjustedUnits agg + toUnits (ev_amount ev)\<rparr>"
| "track_relation Relation.REVERSES ev agg = agg\<lparr>pa_hasReversal := True\<rparr>"
| "track_relation Relation.REFERENCES ev agg =
     (let u = toUnits (ev_amount ev);
          a1 = (if ev_economicEffect ev = EconomicEffect.CASH_IN
                then agg\<lparr>pa_refCashInUnits := pa_refCashInUnits agg + u\<rparr> else agg)
      in if ev_economicEffect ev = EconomicEffect.CASH_OUT
         then a1\<lparr>pa_refCashOutUnits := pa_refCashOutUnits a1 + u\<rparr> else a1)"
| "track_relation _ ev agg = agg"

definition track_object :: "LedgerEvent \<Rightarrow> LedgerEventObject \<Rightarrow> PositionAggregate \<Rightarrow> PositionAggregate" where
  "track_object ev ob agg =
     (let a1 = (if obj_type ob > pa_objectType agg then agg\<lparr>pa_objectType := obj_type ob\<rparr> else agg);
          a2 = (if unknown_origin_declared (ev_reason ev) then a1\<lparr>pa_hasUnresolvedLineage := True\<rparr> else a1);
          a3 = track_relation (obj_relation ob) ev a2;
          a4 = (if ev_occurredAt ev > pa_lastEventAt a3 then a3\<lparr>pa_lastEventAt := ev_occurredAt ev\<rparr> else a3)
      in if ev_recordedAt ev < pa_createdAt a4 then a4\<lparr>pa_createdAt := ev_recordedAt ev\<rparr> else a4)"

text \<open>The two maps of the function: \<open>aggMap\<close> and \<open>eventIdsByObject\<close>.\<close>

record AggState =
  aggMap :: "(string \<times> PositionAggregate) list"
  eventIdsByObject :: "(string \<times> string list) list"

definition touch :: "LedgerEvent \<Rightarrow> LedgerEventObject \<Rightarrow> AggState \<Rightarrow> AggState" where
  "touch ev ob S =
     (let oid = obj_id ob;
          S1 = (if map_of (aggMap S) oid = None
                then \<lparr>aggMap = AList.update oid (new_aggregate ev ob) (aggMap S),
                      eventIdsByObject = AList.update oid [] (eventIdsByObject S)\<rparr>
                else S);
          agg = the (map_of (aggMap S1) oid);
          ids = (case map_of (eventIdsByObject S1) oid of None \<Rightarrow> [] | Some s \<Rightarrow> s)
      in \<lparr>aggMap = AList.update oid (track_object ev ob agg) (aggMap S1),
          eventIdsByObject = AList.update oid (set_add (ev_id ev) ids) (eventIdsByObject S1)\<rparr>)"

definition build_event :: "string list \<Rightarrow> LedgerEvent \<Rightarrow> AggState \<Rightarrow> AggState" where
  "build_event retracted ev S =
     (if ev_id ev \<in> set retracted then S else fold (touch ev) (ev_objects ev) S)"

definition buildAggregateMap :: "store \<Rightarrow> (string \<times> PositionAggregate) list" where
  "buildAggregateMap st =
     (let S = fold (build_event (retractedEventIds st)) st \<lparr>aggMap = [], eventIdsByObject = []\<rparr>
      in map (\<lambda>(oid, agg).
            (oid, case map_of (eventIdsByObject S) oid of
                None \<Rightarrow> agg
              | Some ids \<Rightarrow> agg\<lparr>pa_eventCount := int (length ids)\<rparr>))
          (aggMap S))"

section \<open>Listings\<close>

definition recency :: "PositionAggregate \<Rightarrow> PositionAggregate \<Rightarrow> int" where
  "recency a b = pa_lastEventAt b - pa_lastEventAt a"

interpretation recency: comparator recency
  by unfold_locales (auto simp: recency_def)

definition findAllPositionAggregates :: "store \<Rightarrow> PositionAggregate list" where
  "findAllPositionAggregates st = sort_by recency (map snd (buildAggregateMap st))"

record OpenRow =
  or_objectType :: ObjectType
  or_openBalanceUnits :: int
  or_currency :: string

definition open_step ::
  "PositionAggregate \<Rightarrow> (ObjectType \<times> int \<times> string) list \<Rightarrow> (ObjectType \<times> int \<times> string) list" where
  "open_step agg byType =
     (if pa_hasReversal agg \<or> pa_totalOriginatedUnits agg = 0 then byType
      else case openBalanceUnitsOf agg of
          None \<Rightarrow> byType
        | Some b \<Rightarrow>
            if b = 0 then byType
            else (case map_of byType (pa_objectType agg) of
                Some (t, c) \<Rightarrow> AList.update (pa_objectType agg) (t + b, c) byType
              | None \<Rightarrow> AList.update (pa_objectType agg) (b, pa_currency agg) byType))"

definition aggregateOpenBalancesByObjectType :: "store \<Rightarrow> OpenRow list" where
  "aggregateOpenBalancesByObjectType st =
     map (\<lambda>(ty, (b, c)). \<lparr>or_objectType = ty, or_openBalanceUnits = b, or_currency = c\<rparr>)
       (fold open_step (map snd (buildAggregateMap st)) [])"

text \<open>A filter that admits one value, several, or is absent (\<open>asList\<close>).\<close>

datatype 'a selection = Absent | One 'a | Many "'a list"

fun asList :: "'a selection \<Rightarrow> 'a list" where
  "asList Absent = []"
| "asList (One x) = [x]"
| "asList (Many xs) = xs"

datatype PositionSortKey = by_createdAt | by_dueAt

record PositionAggregateOptions =
  pq_page :: "int option"
  pq_limit :: "int option"
  pq_status :: "PositionStatus selection"
  pq_outcome :: "EconomicOutcome option"
  pq_objectType :: "ObjectType selection"
  pq_partyId :: "string selection"
  pq_from :: "instant option"
  pq_to :: "instant option"
  pq_sortBy :: "PositionSortKey option"
  pq_sortOrder :: "SortOrder option"

definition deriveOutcomeFromAggregate :: "PositionStatus \<Rightarrow> PositionAggregate \<Rightarrow> EconomicOutcome" where
  "deriveOutcomeFromAggregate s agg =
     (if s = reversed then cancelled
      else if s = open_position \<or> s = partially_settled then pending
      else if pa_nonCashClosedUnits agg = 0 then gain
      else if pa_cashRecoveredUnits agg = 0 then full_loss
      else partial_loss)"

definition position_compare ::
  "platform \<Rightarrow> PositionSortKey option \<Rightarrow> SortOrder option \<Rightarrow> PositionAggregate \<Rightarrow> PositionAggregate \<Rightarrow> int" where
  "position_compare P sortBy sortOrder a b =
     (let ascending = (sortOrder = Some ASC);
          tie = locale_compare P (pa_objectId b) (pa_objectId a);
          by_time = (\<lambda>s t. let primary = (if ascending then s - t else t - s)
                           in if primary \<noteq> 0 then primary else tie)
      in if sortBy = Some by_dueAt
         then (case (pa_dueAt a, pa_dueAt b) of
               (Some s, Some t) \<Rightarrow> by_time s t
             | (None, None) \<Rightarrow> tie
             | (None, Some _) \<Rightarrow> 1
             | (Some _, None) \<Rightarrow> - 1)
         else by_time (pa_createdAt a) (pa_createdAt b))"

definition filter_if :: "bool \<Rightarrow> ('a \<Rightarrow> bool) \<Rightarrow> 'a list \<Rightarrow> 'a list" where
  "filter_if c p xs = (if c then filter p xs else xs)"

definition findPositionAggregates ::
  "platform \<Rightarrow> store \<Rightarrow> PositionAggregateOptions \<Rightarrow> PositionAggregate Page" where
  "findPositionAggregates P st opts =
     (let r0 = sort_by (position_compare P (pq_sortBy opts) (pq_sortOrder opts)) (map snd (buildAggregateMap st));
          objectTypes = asList (pq_objectType opts);
          r1 = filter_if (objectTypes \<noteq> []) (\<lambda>a. pa_objectType a \<in> set objectTypes) r0;
          statuses = asList (pq_status opts);
          r2 = filter_if (statuses \<noteq> []) (\<lambda>a. derivePositionStatus a \<in> set statuses) r1;
          r3 = (case pq_from opts of None \<Rightarrow> r2 | Some f \<Rightarrow> filter (\<lambda>a. pa_createdAt a \<ge> f) r2);
          r4 = (case pq_to opts of None \<Rightarrow> r3 | Some t \<Rightarrow> filter (\<lambda>a. pa_createdAt a \<le> t) r3);
          partyIds = asList (pq_partyId opts);
          r5 = filter_if (partyIds \<noteq> [])
                 (\<lambda>a. list_ex (\<lambda>p. p \<in> set (partiesOfObject st (pa_objectId a))) partyIds) r4;
          r6 = (case pq_outcome opts of
                  None \<Rightarrow> r5
                | Some target \<Rightarrow>
                    filter (\<lambda>a. deriveOutcomeFromAggregate (derivePositionStatus a) a = target) r5);
          page = max 1 (case pq_page opts of None \<Rightarrow> 1 | Some p \<Rightarrow> p);
          limit = min (max 1 (case pq_limit opts of None \<Rightarrow> 50 | Some l \<Rightarrow> l)) 200;
          n = int (length r6)
      in \<lparr>pg_data = map (\<lambda>a. a\<lparr>pa_parties := Some (partiesOfObject st (pa_objectId a))\<rparr>)
            (slice ((page - 1) * limit) (page * limit) r6),
          pg_total = n, pg_page = page, pg_limit = limit, pg_totalPages = page_count n limit\<rparr>)"

section \<open>The walk of one object\<close>

text \<open>What the loop does to the aggregate of one object when it meets one mention of it.\<close>

definition step_option :: "LedgerEvent \<times> LedgerEventObject \<Rightarrow> PositionAggregate option \<Rightarrow> PositionAggregate option" where
  "step_option m a =
     (case m of (ev, ob) \<Rightarrow>
       Some (track_object ev ob (case a of None \<Rightarrow> new_aggregate ev ob | Some agg \<Rightarrow> agg)))"

definition mentions_list :: "LedgerEvent list \<Rightarrow> (LedgerEvent \<times> LedgerEventObject) list" where
  "mentions_list evs = concat (map (\<lambda>ev. map (Pair ev) (ev_objects ev)) evs)"

definition mentions_of :: "string \<Rightarrow> LedgerEvent list \<Rightarrow> (LedgerEvent \<times> LedgerEventObject) list" where
  "mentions_of oid evs = filter (\<lambda>(ev, ob). obj_id ob = oid) (mentions_list evs)"

definition aggregate_of :: "string \<Rightarrow> LedgerEvent list \<Rightarrow> PositionAggregate option" where
  "aggregate_of oid evs = fold step_option (mentions_of oid evs) None"

definition event_ids_of :: "string \<Rightarrow> LedgerEvent list \<Rightarrow> string list" where
  "event_ids_of oid evs = fold (\<lambda>(ev, ob). set_add (ev_id ev)) (mentions_of oid evs) []"

lemma step_option_simps:
  "step_option (ev, ob) None = Some (track_object ev ob (new_aggregate ev ob))"
  "step_option (ev, ob) (Some a) = Some (track_object ev ob a)"
  by (simp_all add: step_option_def)

lemma touch_lookup:
  "map_of (aggMap (touch ev ob S)) oid =
     (if obj_id ob = oid then step_option (ev, ob) (map_of (aggMap S) oid) else map_of (aggMap S) oid)"
  by (auto simp: touch_def Let_def map_of_update step_option_def split: option.splits)

lemma touch_ids:
  "map_of (eventIdsByObject S) oid = None \<longleftrightarrow> map_of (aggMap S) oid = None \<Longrightarrow>
   map_of (eventIdsByObject (touch ev ob S)) oid =
     (if obj_id ob = oid
      then Some (set_add (ev_id ev) (case map_of (eventIdsByObject S) oid of None \<Rightarrow> [] | Some s \<Rightarrow> s))
      else map_of (eventIdsByObject S) oid)"
  by (auto simp: touch_def Let_def map_of_update split: option.splits)

lemma touch_distinct:
  "distinct (map fst (aggMap S)) \<Longrightarrow> distinct (map fst (aggMap (touch ev ob S)))"
  by (simp add: touch_def Let_def distinct_update)

lemma build_flat:
  "fold (build_event ret) evs S =
     fold (\<lambda>(ev, ob). touch ev ob) (mentions_list (filter (\<lambda>ev. ev_id ev \<notin> set ret) evs)) S"
proof (induction evs arbitrary: S)
  case Nil
  then show ?case by (simp add: mentions_list_def)
next
  case (Cons ev evs)
  have inner: "fold (\<lambda>(ev, ob). touch ev ob) (map (Pair ev) obs) S = fold (touch ev) obs S" for obs S
    by (induction obs arbitrary: S) simp_all
  show ?case
    unfolding fold_simps unfolding Cons.IH by (simp add: build_event_def mentions_list_def inner)
qed

lemma fold_touch_lookup:
  "map_of (aggMap (fold (\<lambda>(ev, ob). touch ev ob) ms S)) oid =
     fold step_option (filter (\<lambda>(ev, ob). obj_id ob = oid) ms) (map_of (aggMap S) oid)"
  by (induction ms arbitrary: S) (auto simp: touch_lookup split: prod.splits)

lemma fold_touch_ids:
  assumes "\<And>oid. map_of (eventIdsByObject S) oid = None \<longleftrightarrow> map_of (aggMap S) oid = None"
  shows "map_of (eventIdsByObject (fold (\<lambda>(ev, ob). touch ev ob) ms S)) oid =
    (case filter (\<lambda>(ev, ob). obj_id ob = oid) ms of
       [] \<Rightarrow> map_of (eventIdsByObject S) oid
     | ms' \<Rightarrow> Some (fold (\<lambda>(ev, ob). set_add (ev_id ev)) ms'
         (case map_of (eventIdsByObject S) oid of None \<Rightarrow> [] | Some s \<Rightarrow> s)))"
  using assms
proof (induction ms arbitrary: S)
  case Nil
  then show ?case by simp
next
  case (Cons m ms)
  obtain ev ob where m: "m = (ev, ob)" by (cases m)
  let ?S = "touch ev ob S"
  have inv: "map_of (eventIdsByObject ?S) k = None \<longleftrightarrow> map_of (aggMap ?S) k = None" for k
    using Cons.prems [of k] by (simp add: touch_ids touch_lookup step_option_def)
  show ?case
    using Cons.IH [OF inv] touch_ids [OF Cons.prems [of oid], of ev ob]
    by (simp add: m split: list.splits)
qed

lemma fold_touch_distinct:
  "distinct (map fst (aggMap S)) \<Longrightarrow>
   distinct (map fst (aggMap (fold (\<lambda>(ev, ob). touch ev ob) ms S)))"
  by (induction ms arbitrary: S) (auto simp: touch_distinct)

lemma standing_filter: "filter (\<lambda>ev. ev_id ev \<notin> set (retractedEventIds st)) st = standing st"
  by (simp add: standing_def stands_def [abs_def])

lemma step_option_Some: "fold step_option ms a = None \<longleftrightarrow> ms = [] \<and> a = None"
  by (induction ms arbitrary: a) (auto simp: step_option_def split: prod.splits)

lemma map_of_map_snd: "map_of (map (\<lambda>(k, v). (k, f k v)) xs) k = map_option (f k) (map_of xs k)"
  by (induction xs) auto

text \<open>What the map holds for an object: the walk over its own mentions, with the event count.\<close>

lemma build_lookup:
  "map_of (buildAggregateMap st) oid =
     map_option (\<lambda>agg. agg\<lparr>pa_eventCount := int (length (event_ids_of oid (standing st)))\<rparr>)
       (aggregate_of oid (standing st))"
proof -
  let ?ms = "mentions_list (standing st)"
  let ?init = "\<lparr>aggMap = [], eventIdsByObject = []\<rparr>"
  have look: "map_of (aggMap (fold (\<lambda>(ev, ob). touch ev ob) ?ms ?init)) oid = aggregate_of oid (standing st)"
    by (simp add: fold_touch_lookup aggregate_of_def mentions_of_def)
  have ids: "map_of (eventIdsByObject (fold (\<lambda>(ev, ob). touch ev ob) ?ms ?init)) oid =
      (if mentions_of oid (standing st) = [] then None else Some (event_ids_of oid (standing st)))"
    by (subst fold_touch_ids)
       (auto simp: mentions_of_def event_ids_of_def split: list.splits)
  have none: "aggregate_of oid (standing st) = None \<longleftrightarrow> mentions_of oid (standing st) = []"
    by (simp add: aggregate_of_def step_option_Some)
  show ?thesis
    unfolding buildAggregateMap_def Let_def build_flat standing_filter map_of_map_snd look ids
    using none by (cases "aggregate_of oid (standing st)") auto
qed

lemma build_distinct: "distinct (map fst (buildAggregateMap st))"
proof -
  have "distinct (map fst (aggMap (fold (\<lambda>(ev, ob). touch ev ob) ms \<lparr>aggMap = [], eventIdsByObject = []\<rparr>)))"
    for ms by (rule fold_touch_distinct) simp
  then show ?thesis
    by (simp add: buildAggregateMap_def Let_def build_flat comp_def case_prod_beta')
qed

section \<open>The figures of an object\<close>

definition mention_sum :: "(Relation \<Rightarrow> bool) \<Rightarrow> (LedgerEvent \<times> LedgerEventObject) list \<Rightarrow> int" where
  "mention_sum R ms =
     sum_list (map (\<lambda>(ev, ob). if R (obj_relation ob) then units (ev_amount ev) else 0) ms)"

lemma mention_sum_simps [simp]:
  "mention_sum R [] = 0"
  "mention_sum R ((ev, ob) # ms) = (if R (obj_relation ob) then units (ev_amount ev) else 0) + mention_sum R ms"
  "mention_sum R (ms @ ns) = mention_sum R ms + mention_sum R ns"
  by (simp_all add: mention_sum_def)

lemma mention_sum_event:
  "mention_sum R (filter (\<lambda>(ev, ob). obj_id ob = oid) (map (Pair ev) obs)) =
     int (length (filter (\<lambda>ob. obj_id ob = oid \<and> R (obj_relation ob)) obs)) * units (ev_amount ev)"
  by (induction obs) (auto simp: algebra_simps)

lemma mentions_of_Cons:
  "mentions_of oid (ev # evs) =
     filter (\<lambda>(ev, ob). obj_id ob = oid) (map (Pair ev) (ev_objects ev)) @ mentions_of oid evs"
  by (simp add: mentions_of_def mentions_list_def)

lemma mentions_of_Nil [simp]: "mentions_of oid [] = []"
  by (simp add: mentions_of_def mentions_list_def)

lemma set_mentions_of:
  "set (mentions_of oid evs) = {(ev, ob). ev \<in> set evs \<and> ob \<in> set (ev_objects ev) \<and> obj_id ob = oid}"
  by (auto simp: mentions_of_def mentions_list_def)

lemma mention_sum_events:
  "mention_sum R (mentions_of oid evs) = sum_list (map (relation_units R oid) evs)"
  by (induction evs) (simp_all add: mentions_of_Cons mention_sum_event relation_units_def)

text \<open>One mention, figure by figure.\<close>

lemma track_relation_figures:
  "pa_objectId (track_relation r ev agg) = pa_objectId agg"
  "pa_objectType (track_relation r ev agg) = pa_objectType agg"
  "pa_currency (track_relation r ev agg) = pa_currency agg"
  "pa_totalOriginatedUnits (track_relation r ev agg) =
     pa_totalOriginatedUnits agg + (if originates r then units (ev_amount ev) else 0)"
  "pa_totalSettledUnits (track_relation r ev agg) =
     pa_totalSettledUnits agg + (if r = Relation.SETTLES then units (ev_amount ev) else 0)"
  "pa_totalAdjustedUnits (track_relation r ev agg) =
     pa_totalAdjustedUnits agg + (if r = Relation.ADJUSTS then units (ev_amount ev) else 0)"
  "pa_hasReversal (track_relation r ev agg) \<longleftrightarrow> pa_hasReversal agg \<or> reverses r"
  "pa_hasUnresolvedLineage (track_relation r ev agg) = pa_hasUnresolvedLineage agg"
  "pa_createdAt (track_relation r ev agg) = pa_createdAt agg"
  "pa_lastEventAt (track_relation r ev agg) = pa_lastEventAt agg"
  by (cases r; simp add: Let_def toUnits_def split: option.splits)+

lemma if_less_max: "(if b < a then a else b) = max b a"
  for a b :: "'a :: linorder"
  by (auto simp: max_def)

lemma if_less_min: "(if a < b then a else b) = min b a"
  for a b :: "'a :: linorder"
  by (auto simp: min_def)

lemma track_object_figures:
  "pa_objectId (track_object ev ob agg) = pa_objectId agg"
  "pa_objectType (track_object ev ob agg) = max (pa_objectType agg) (obj_type ob)"
  "pa_totalOriginatedUnits (track_object ev ob agg) =
     pa_totalOriginatedUnits agg + (if originates (obj_relation ob) then units (ev_amount ev) else 0)"
  "pa_totalSettledUnits (track_object ev ob agg) =
     pa_totalSettledUnits agg + (if obj_relation ob = Relation.SETTLES then units (ev_amount ev) else 0)"
  "pa_totalAdjustedUnits (track_object ev ob agg) =
     pa_totalAdjustedUnits agg + (if obj_relation ob = Relation.ADJUSTS then units (ev_amount ev) else 0)"
  "pa_hasReversal (track_object ev ob agg) \<longleftrightarrow> pa_hasReversal agg \<or> reverses (obj_relation ob)"
  "pa_hasUnresolvedLineage (track_object ev ob agg) \<longleftrightarrow>
     pa_hasUnresolvedLineage agg \<or> unknown_origin_declared (ev_reason ev)"
  "pa_createdAt (track_object ev ob agg) = min (pa_createdAt agg) (ev_recordedAt ev)"
  by (simp_all add: track_object_def Let_def track_relation_figures if_less_max if_less_min
      del: track_relation.simps)

lemma new_aggregate_figures [simp]:
  "pa_objectId (new_aggregate ev ob) = obj_id ob"
  "pa_objectType (new_aggregate ev ob) = obj_type ob"
  "pa_totalOriginatedUnits (new_aggregate ev ob) = 0"
  "pa_totalSettledUnits (new_aggregate ev ob) = 0"
  "pa_totalAdjustedUnits (new_aggregate ev ob) = 0"
  "pa_hasReversal (new_aggregate ev ob) = False"
  "pa_hasUnresolvedLineage (new_aggregate ev ob) = False"
  "pa_createdAt (new_aggregate ev ob) = ev_recordedAt ev"
  by (simp_all add: new_aggregate_def)

text \<open>The walk from an aggregate that exists.\<close>

lemma walk_figures:
  "fold step_option ms (Some a) = Some b \<Longrightarrow>
   pa_objectId b = pa_objectId a \<and>
   pa_totalOriginatedUnits b = pa_totalOriginatedUnits a + mention_sum originates ms \<and>
   pa_totalSettledUnits b = pa_totalSettledUnits a + mention_sum (\<lambda>r. r = Relation.SETTLES) ms \<and>
   pa_totalAdjustedUnits b = pa_totalAdjustedUnits a + mention_sum (\<lambda>r. r = Relation.ADJUSTS) ms \<and>
   (pa_hasReversal b \<longleftrightarrow> pa_hasReversal a \<or> (\<exists>(ev, ob)\<in>set ms. reverses (obj_relation ob))) \<and>
   (pa_hasUnresolvedLineage b \<longleftrightarrow>
      pa_hasUnresolvedLineage a \<or> (\<exists>(ev, ob)\<in>set ms. unknown_origin_declared (ev_reason ev)))"
proof (induction ms arbitrary: a)
  case Nil
  then show ?case by simp
next
  case (Cons m ms)
  obtain ev ob where m: "m = (ev, ob)" by (cases m)
  from Cons.prems have "fold step_option ms (Some (track_object ev ob a)) = Some b"
    by (simp add: m step_option_simps)
  from Cons.IH [OF this] show ?case by (simp add: m track_object_figures algebra_simps)
qed

text \<open>The walk from nothing starts with the aggregate of the first mention, all figures zero.\<close>

lemma aggregate_of_figures:
  assumes "aggregate_of oid evs = Some b"
  shows "pa_objectId b = oid"
    and "pa_totalOriginatedUnits b = mention_sum originates (mentions_of oid evs)"
    and "pa_totalSettledUnits b = mention_sum (\<lambda>r. r = Relation.SETTLES) (mentions_of oid evs)"
    and "pa_totalAdjustedUnits b = mention_sum (\<lambda>r. r = Relation.ADJUSTS) (mentions_of oid evs)"
    and "pa_hasReversal b \<longleftrightarrow> (\<exists>(ev, ob)\<in>set (mentions_of oid evs). reverses (obj_relation ob))"
    and "pa_hasUnresolvedLineage b \<longleftrightarrow>
      (\<exists>(ev, ob)\<in>set (mentions_of oid evs). unknown_origin_declared (ev_reason ev))"
proof -
  from assms obtain ev ob ms where ms: "mentions_of oid evs = (ev, ob) # ms"
    by (cases "mentions_of oid evs") (auto simp: aggregate_of_def)
  then have "(ev, ob) \<in> set (mentions_of oid evs)" by simp
  then have ob: "obj_id ob = oid" unfolding set_mentions_of by simp
  from assms ms have "fold step_option ms (Some (track_object ev ob (new_aggregate ev ob))) = Some b"
    by (simp add: aggregate_of_def step_option_simps)
  note w = walk_figures [OF this]
  show "pa_objectId b = oid"
    and "pa_totalOriginatedUnits b = mention_sum originates (mentions_of oid evs)"
    and "pa_totalSettledUnits b = mention_sum (\<lambda>r. r = Relation.SETTLES) (mentions_of oid evs)"
    and "pa_totalAdjustedUnits b = mention_sum (\<lambda>r. r = Relation.ADJUSTS) (mentions_of oid evs)"
    and "pa_hasReversal b \<longleftrightarrow> (\<exists>(ev, ob)\<in>set (mentions_of oid evs). reverses (obj_relation ob))"
    and "pa_hasUnresolvedLineage b \<longleftrightarrow>
      (\<exists>(ev, ob)\<in>set (mentions_of oid evs). unknown_origin_declared (ev_reason ev))"
    using w ob by (simp_all add: ms track_object_figures)
qed

lemma aggregate_of_None: "aggregate_of oid evs = None \<longleftrightarrow> (\<forall>ev\<in>set evs. \<not> mentions oid ev)"
proof -
  have "mentions_of oid evs = [] \<longleftrightarrow> set (mentions_of oid evs) = {}" by simp
  then show ?thesis
    unfolding aggregate_of_def step_option_Some set_mentions_of
    by (auto simp: mentions_def list_ex_Bex)
qed

text \<open>The aggregate and the totals of the write path are the same numbers.\<close>

lemma sum_closes:
  "sum_list (map (relation_units (\<lambda>r. r = Relation.SETTLES) oid) evs)
     + sum_list (map (relation_units (\<lambda>r. r = Relation.ADJUSTS) oid) evs)
   = sum_list (map (relation_units closes oid) evs)"
proof -
  have "mention_sum (\<lambda>r. r = Relation.SETTLES) ms + mention_sum (\<lambda>r. r = Relation.ADJUSTS) ms
      = mention_sum closes ms" for ms
    by (induction ms) auto
  then show ?thesis by (metis mention_sum_events)
qed

lemma aggregate_of_totals:
  assumes "aggregate_of oid evs = Some b"
  shows "totals_of oid evs =
    \<lparr>originatedUnits = pa_totalOriginatedUnits b,
     closedUnits = pa_totalSettledUnits b + pa_totalAdjustedUnits b,
     ot_hasReversal = pa_hasReversal b\<rparr>"
proof -
  have "list_ex (names reverses oid) evs \<longleftrightarrow>
      (\<exists>(ev, ob)\<in>set (mentions_of oid evs). reverses (obj_relation ob))"
    unfolding set_mentions_of by (auto simp: list_ex_Bex names_def)
  then show ?thesis
    using aggregate_of_figures [OF assms]
    by (simp add: totals_of_def mention_sum_events sum_closes)
qed

lemma build_totals:
  assumes "map_of (buildAggregateMap st) oid = Some agg"
  shows "totals_of oid (standing st) =
    \<lparr>originatedUnits = pa_totalOriginatedUnits agg,
     closedUnits = pa_totalSettledUnits agg + pa_totalAdjustedUnits agg,
     ot_hasReversal = pa_hasReversal agg\<rparr>"
proof -
  from assms obtain b where "aggregate_of oid (standing st) = Some b"
    and "agg = b\<lparr>pa_eventCount := int (length (event_ids_of oid (standing st)))\<rparr>"
    unfolding build_lookup by auto
  with aggregate_of_totals show ?thesis by simp
qed

lemma build_None:
  "map_of (buildAggregateMap st) oid = None \<longleftrightarrow> (\<forall>ev\<in>set (standing st). \<not> mentions oid ev)"
  by (simp add: build_lookup aggregate_of_None)

section \<open>The events of one object alone\<close>

text \<open>
  The write path and the projection read only the events that name the object. They see what the
  whole book sees when every retraction of such an event names the object too.
\<close>

definition retractions_name :: "string \<Rightarrow> LedgerEvent list \<Rightarrow> bool" where
  "retractions_name oid evs \<longleftrightarrow>
     (\<forall>e\<in>set evs. \<forall>r\<in>set evs. mentions oid e \<and> retracts_id r (ev_id e) \<longrightarrow> mentions oid r)"

lemma retraction_map_filter:
  "(\<And>r. r \<in> set evs \<Longrightarrow> retracts_id r t \<Longrightarrow> P r) \<Longrightarrow>
   map_of (retractionByTarget (filter P evs)) t = map_of (retractionByTarget evs) t"
proof (induction evs rule: rev_induct)
  case Nil
  then show ?case by simp
next
  case (snoc r evs)
  then have IH: "map_of (retractionByTarget (filter P evs)) t = map_of (retractionByTarget evs) t"
    by simp
  show ?case
  proof (cases "P r")
    case True
    with IH show ?thesis by (simp add: map_of_retraction_snoc)
  next
    case False
    with snoc.prems have "\<not> retracts_id r t" by auto
    with False IH show ?thesis by (simp add: map_of_retraction_snoc)
  qed
qed

lemma stands_naming:
  assumes "retractions_name oid st" "e \<in> set st" "mentions oid e"
  shows "stands (findByObjectId st oid) e = stands st e"
proof -
  have named: "mentions oid r" if "r \<in> set st" "retracts_id r (ev_id x)" "x \<in> set st" "mentions oid x" for r x
    using assms(1) that unfolding retractions_name_def by blast
  have hop1: "map_of (retractionByTarget (findByObjectId st oid)) (ev_id e)
      = map_of (retractionByTarget st) (ev_id e)"
    unfolding findByObjectId_def using named assms(2,3) by (intro retraction_map_filter) blast
  have hop2: "map_of (retractionByTarget (findByObjectId st oid)) i = map_of (retractionByTarget st) i"
    if i: "map_of (retractionByTarget st) (ev_id e) = Some i" for i
  proof -
    from retraction_SomeD [OF i] obtain r where r: "r \<in> set st" "retracts_id r (ev_id e)" "ev_id r = i"
      by blast
    with named assms(2,3) have "mentions oid r" by blast
    with named r show ?thesis
      unfolding findByObjectId_def by (intro retraction_map_filter) blast
  qed
  have "ev_id e \<in> set (retractedEventIds (findByObjectId st oid)) \<longleftrightarrow> ev_id e \<in> set (retractedEventIds st)"
    unfolding retractedEventIds_iff hop1 using hop2 by auto
  then show ?thesis by (simp add: stands_def)
qed

lemma standing_naming:
  assumes "retractions_name oid st"
  shows "standing (findByObjectId st oid) = filter (mentions oid) (standing st)"
proof -
  have "standing (findByObjectId st oid) = filter (stands (findByObjectId st oid)) (filter (mentions oid) st)"
    by (simp add: standing_def findByObjectId_def)
  also have "\<dots> = filter (\<lambda>e. stands (findByObjectId st oid) e \<and> mentions oid e) st"
    by (simp add: conj_commute)
  also have "\<dots> = filter (\<lambda>e. stands st e \<and> mentions oid e) st"
    by (rule filter_cong) (use stands_naming [OF assms] in auto)
  also have "\<dots> = filter (mentions oid) (standing st)"
    by (simp add: standing_def conj_commute)
  finally show ?thesis .
qed

lemma mentions_names: "mentions oid = names (\<lambda>_. True) oid"
  by (simp add: fun_eq_iff mentions_def names_def list_ex_Bex)

lemma guard_totals:
  assumes "retractions_name oid st"
  shows "foldObjectTotals (findByObjectId st oid) oid = totals_of oid (standing st)"
  unfolding foldObjectTotals_sums standing_naming [OF assms] mentions_names totals_of_naming ..

end
