(* ===== verification/Listings.thy ===== *)
theory Listings
  imports Ledger_Aggregates
begin

text \<open>
  The listings of the store: numbered pages over the events and over the positions tile the sorted,
  filtered list, without gap or overlap; the recent movements are the newest ones. The collation of
  identifiers that breaks ties between positions is the platform's (\<open>localeCompare\<close>); the order is
  stated for a collation that is total and transitive.
\<close>

lemma filter_if_filter: "filter_if c p xs = filter (\<lambda>x. c \<longrightarrow> p x) xs"
  by (simp add: filter_if_def)

section \<open>Pages of events\<close>

definition events_order :: "PageOptions \<Rightarrow> LedgerEvent \<Rightarrow> LedgerEvent \<Rightarrow> int" where
  "events_order opts =
     event_compare (event_axis (if po_sortBy opts = Some occurredAt then occurredAt else recordedAt))
       (if po_sortOrder opts = Some DESC then DESC else ASC)"

lemma events_pages:
  assumes "1 \<le> limit"
  shows "concat (map (\<lambda>k. pg_data (findPaginated st
            \<lparr>po_page = int k + 1, po_limit = limit, po_sortBy = b, po_sortOrder = d\<rparr>))
          [0..<nat (page_count (int (length st)) limit)])
      = sort_by (events_order \<lparr>po_page = 1, po_limit = limit, po_sortBy = b, po_sortOrder = d\<rparr>) st"
    (is "_ = ?L")
proof -
  have page: "findPaginated st \<lparr>po_page = int k + 1, po_limit = limit, po_sortBy = b, po_sortOrder = d\<rparr>
      = paginate ?L \<lparr>po_page = int k + 1, po_limit = limit, po_sortBy = b, po_sortOrder = d\<rparr>" for k
    by (simp add: findPaginated_def Let_def events_order_def)
  show ?thesis
    using paginate_covers [OF assms, of ?L b d] by (simp add: page)
qed

lemma events_sorted:
  "sorted_wrt (\<lambda>a b. events_order opts a b \<le> 0) (sort_by (events_order opts) st)"
  unfolding events_order_def by (rule event_order.sorted_sort_by)

section \<open>Recent movements\<close>

lemma sorted_take_first:
  assumes "sorted_wrt R xs" "x \<in> set (take n xs)" "y \<in> set (drop n xs)"
  shows "R x y"
proof -
  have "sorted_wrt R (take n xs @ drop n xs)" using assms(1) by simp
  with assms(2,3) show ?thesis by (simp only: sorted_wrt_append)
qed

lemma recent_movements:
  assumes "0 \<le> limit"
  shows "set (findRecentCashMovements st limit) \<subseteq> {ev \<in> set (standing st). is_cash ev}"
    and "length (findRecentCashMovements st limit) = min (nat limit) (length (filter is_cash (standing st)))"
    and "x \<in> set (findRecentCashMovements st limit) \<Longrightarrow> y \<in> set (standing st) \<Longrightarrow> is_cash y \<Longrightarrow>
      y \<notin> set (findRecentCashMovements st limit) \<Longrightarrow> ev_occurredAt y \<le> ev_occurredAt x"
proof -
  let ?C = "filter (\<lambda>e. ev_id e \<notin> set (retractedEventIds st) \<and> is_cash e) st"
  let ?L = "sort_by (event_compare ev_occurredAt DESC) ?C"
  have C: "?C = filter is_cash (standing st)"
    by (simp add: standing_def stands_def conj_commute)
  have r: "findRecentCashMovements st limit = take (nat limit) ?L"
    using assms by (simp add: findRecentCashMovements_def Let_def)
  show "set (findRecentCashMovements st limit) \<subseteq> {ev \<in> set (standing st). is_cash ev}"
  proof
    fix e assume "e \<in> set (findRecentCashMovements st limit)"
    then have "e \<in> set ?L" unfolding r by (rule in_set_takeD)
    then show "e \<in> {ev \<in> set (standing st). is_cash ev}" by (simp add: C)
  qed
  show "length (findRecentCashMovements st limit) = min (nat limit) (length (filter is_cash (standing st)))"
    unfolding r C by (simp add: min.commute)
  assume x: "x \<in> set (findRecentCashMovements st limit)" and y: "y \<in> set (standing st)" "is_cash y"
    and out: "y \<notin> set (findRecentCashMovements st limit)"
  have "y \<in> set ?L" using y by (simp add: C)
  then have "y \<in> set (take (nat limit) ?L @ drop (nat limit) ?L)" by simp
  with out have "y \<in> set (drop (nat limit) ?L)" unfolding set_append r by blast
  then have "event_compare ev_occurredAt DESC x y \<le> 0"
    using sorted_take_first [OF event_order.sorted_sort_by [of ev_occurredAt DESC ?C]] x by (simp add: r)
  then show "ev_occurredAt y \<le> ev_occurredAt x"
    by (simp add: event_compare_def Let_def split: if_splits)
qed

section \<open>Pages of positions\<close>

text \<open>The filters of the query as one condition.\<close>

definition selected :: "store \<Rightarrow> PositionAggregateOptions \<Rightarrow> PositionAggregate \<Rightarrow> bool" where
  "selected st opts a \<longleftrightarrow>
     (asList (pq_objectType opts) \<noteq> [] \<longrightarrow> pa_objectType a \<in> set (asList (pq_objectType opts))) \<and>
     (asList (pq_status opts) \<noteq> [] \<longrightarrow> derivePositionStatus a \<in> set (asList (pq_status opts))) \<and>
     (case pq_from opts of None \<Rightarrow> True | Some f \<Rightarrow> f \<le> pa_createdAt a) \<and>
     (case pq_to opts of None \<Rightarrow> True | Some t \<Rightarrow> pa_createdAt a \<le> t) \<and>
     (asList (pq_partyId opts) \<noteq> [] \<longrightarrow>
        (\<exists>p\<in>set (asList (pq_partyId opts)). p \<in> set (partiesOfObject st (pa_objectId a)))) \<and>
     (case pq_outcome opts of None \<Rightarrow> True
      | Some target \<Rightarrow> deriveOutcomeFromAggregate (derivePositionStatus a) a = target)"

definition sorted_positions :: "platform \<Rightarrow> store \<Rightarrow> PositionAggregateOptions \<Rightarrow> PositionAggregate list" where
  "sorted_positions P st opts =
     filter (selected st opts)
       (sort_by (position_compare P (pq_sortBy opts) (pq_sortOrder opts)) (map snd (buildAggregateMap st)))"

definition page_limit :: "PositionAggregateOptions \<Rightarrow> int" where
  "page_limit opts = min (max 1 (case pq_limit opts of None \<Rightarrow> 50 | Some l \<Rightarrow> l)) 200"

lemma page_limit_range: "1 \<le> page_limit opts" "page_limit opts \<le> 200"
  by (simp_all add: page_limit_def)

definition with_parties :: "store \<Rightarrow> PositionAggregate \<Rightarrow> PositionAggregate" where
  "with_parties st a = a\<lparr>pa_parties := Some (partiesOfObject st (pa_objectId a))\<rparr>"

lemma positions_page:
  "findPositionAggregates P st opts =
    (let page = max 1 (case pq_page opts of None \<Rightarrow> 1 | Some p \<Rightarrow> p); limit = page_limit opts;
         all = sorted_positions P st opts
     in \<lparr>pg_data = map (with_parties st) (slice ((page - 1) * limit) (page * limit) all),
         pg_total = int (length all), pg_page = page, pg_limit = limit,
         pg_totalPages = page_count (int (length all)) limit\<rparr>)"
proof -
  have opt: "(case x of None \<Rightarrow> xs | Some v \<Rightarrow> filter (p v) xs)
      = filter (\<lambda>a. case x of None \<Rightarrow> True | Some v \<Rightarrow> p v a) xs" for x :: "'v option" and p and xs :: "'b list"
    by (cases x) simp_all
  show ?thesis
    unfolding findPositionAggregates_def Let_def filter_if_filter opt filter_filter
    by (simp add: sorted_positions_def selected_def [abs_def] page_limit_def with_parties_def list_ex_Bex
        conj_commute conj_left_commute)
qed

lemma pages_tile:
  assumes "1 \<le> limit"
  shows "concat (map (\<lambda>k. slice (int k * limit) ((int k + 1) * limit) xs)
      [0..<nat (page_count (int (length xs)) limit)]) = xs"
proof -
  have "pg_data (paginate xs \<lparr>po_page = int k + 1, po_limit = limit, po_sortBy = None, po_sortOrder = None\<rparr>)
      = slice (int k * limit) ((int k + 1) * limit) xs" for k
    by (simp add: paginate_def Let_def algebra_simps)
  with paginate_covers [OF assms, of xs None None] show ?thesis by simp
qed

lemma positions_pages:
  "concat (map (\<lambda>k. pg_data (findPositionAggregates P st (opts\<lparr>pq_page := Some (int k + 1)\<rparr>)))
     [0..<nat (page_count (int (length (sorted_positions P st opts))) (page_limit opts))])
   = map (with_parties st) (sorted_positions P st opts)"
proof -
  have same: "sorted_positions P st (opts\<lparr>pq_page := p\<rparr>) = sorted_positions P st opts"
    "page_limit (opts\<lparr>pq_page := p\<rparr>) = page_limit opts" for p
    by (simp_all add: sorted_positions_def selected_def [abs_def] page_limit_def)
  have "pg_data (findPositionAggregates P st (opts\<lparr>pq_page := Some (int k + 1)\<rparr>))
      = map (with_parties st) (slice (int k * page_limit opts) ((int k + 1) * page_limit opts)
          (sorted_positions P st opts))" for k
    by (simp add: positions_page Let_def same)
  then have "concat (map (\<lambda>k. pg_data (findPositionAggregates P st (opts\<lparr>pq_page := Some (int k + 1)\<rparr>))) ks)
      = map (with_parties st) (concat (map (\<lambda>k. slice (int k * page_limit opts) ((int k + 1) * page_limit opts)
          (sorted_positions P st opts)) ks))" for ks
    by (simp add: map_concat comp_def)
  then show ?thesis by (simp add: pages_tile [OF page_limit_range(1)])
qed

text \<open>The comparator of the positions is one for every collation that is one.\<close>

lemma position_comparator:
  assumes "comparator (locale_compare P)"
  shows "comparator (position_compare P sortBy sortOrder)"
proof -
  have total: "locale_compare P x y \<le> 0 \<or> locale_compare P y x \<le> 0" for x y
    using assms by (simp add: comparator_def)
  have trans: "locale_compare P x y \<le> 0 \<Longrightarrow> locale_compare P y z \<le> 0 \<Longrightarrow> locale_compare P x z \<le> 0" for x y z
    using assms unfolding comparator_def by blast
  show ?thesis
  proof
    show "position_compare P sortBy sortOrder a b \<le> 0 \<or> position_compare P sortBy sortOrder b a \<le> 0" for a b
      using total [of "pa_objectId a" "pa_objectId b"]
      by (auto simp: position_compare_def Let_def split: option.splits)
    show "position_compare P sortBy sortOrder a b \<le> 0 \<Longrightarrow> position_compare P sortBy sortOrder b c \<le> 0 \<Longrightarrow>
      position_compare P sortBy sortOrder a c \<le> 0" for a b c
      using trans [of "pa_objectId c" "pa_objectId b" "pa_objectId a"]
      by (auto simp: position_compare_def Let_def split: option.splits if_splits)
  qed
qed

lemma positions_sorted:
  assumes "comparator (locale_compare P)"
  shows "sorted_wrt (\<lambda>a b. position_compare P (pq_sortBy opts) (pq_sortOrder opts) a b \<le> 0) (sorted_positions P st opts)"
  unfolding sorted_positions_def
  by (intro sorted_wrt_filter comparator.sorted_sort_by [OF position_comparator [OF assms]])

end
