(* ===== verification/Create_Event.thy ===== *)
theory Create_Event
  imports Ledger_Aggregates
begin

text \<open>
  \<open>CreateLedgerEventUseCase.ts\<close>: recording one event. The steps are in the order of the code: the
  idempotency key, the uniqueness of the source reference, the amount, the origin event, the rules
  of retractions, the conservation of every settled object, and then the event itself, saved at the
  end of the chain. The identifier drawn and the two clock readings of one call are its arguments.
  An execution returns the event, the new store and the audit entries it wrote.
\<close>

section \<open>The command\<close>

record PartyInput =
  pi_partyId :: string
  pi_role :: PartyRole
  pi_direction :: Direction
  pi_amount :: "string option"

record ReporterInput =
  ri_reporterType :: ReporterType
  ri_reporterId :: string
  ri_reporterName :: "string option"
  ri_channel :: string

record CreateLedgerEventCommand =
  cmd_eventType :: EventType
  cmd_economicEffect :: EconomicEffect
  cmd_occurredAt :: js_date
  cmd_sourceAt :: "js_date option"
  cmd_dueAt :: "js_date option"
  cmd_amount :: string
  cmd_currency :: string
  cmd_description :: "string option"
  cmd_sourceSystem :: string
  cmd_sourceReference :: string
  cmd_normalizationVersion :: string
  cmd_normalizationWorkerId :: string
  cmd_commandId :: "string option"
  cmd_relatedEventId :: "string option"
  cmd_parties :: "PartyInput list"
  cmd_objects :: "LedgerEventObject list"
  cmd_reason :: "EventReason option"
  cmd_reporter :: ReporterInput

text \<open>What one call reads from its surroundings.\<close>

record call_env =
  env_uuid :: string
  env_reportedAt :: instant
  env_recordedAt :: instant

datatype AuditAction = LEDGER_EVENT_CREATED | STAGING_RECORD_REJECTED

record AuditEntry =
  au_action :: AuditAction
  au_timestamp :: string
  au_sourceSystem :: string
  au_eventId :: "string option"
  au_eventType :: "EventType option"
  au_economicEffect :: "EconomicEffect option"
  au_sourceReference :: "string option"
  au_commandId :: "string option"
  au_stagingId :: "string option"
  au_reasons :: "string list option"

section \<open>The guards that read the store\<close>

definition find_origin :: "store \<Rightarrow> CreateLedgerEventCommand \<Rightarrow> ledger_error + LedgerEvent option" where
  "find_origin st cmd =
     (if \<not> truthy (cmd_relatedEventId cmd) then Inr None
      else let i = the (cmd_relatedEventId cmd)
           in case getById st i of
                None \<Rightarrow> Inl (UseCase_Error (OriginNotFound i))
              | Some origin \<Rightarrow>
                  (case allowedOriginTypes (EVENT_CONTRACTS (cmd_eventType cmd)) of
                     None \<Rightarrow> Inr (Some origin)
                   | Some allowed \<Rightarrow>
                       if ev_eventType origin \<notin> set allowed
                       then Inl (UseCase_Error (OriginWrongType allowed (ev_eventType origin)))
                       else Inr (Some origin)))"

definition retraction_rules ::
  "store \<Rightarrow> CreateLedgerEventCommand \<Rightarrow> LedgerEvent option \<Rightarrow> usecase_error option" where
  "retraction_rules st cmd originEvent =
     (case originEvent of
        None \<Rightarrow> None
      | Some origin \<Rightarrow>
          if \<not> has_relation Relation.RETRACTS (cmd_objects cmd) then None
          else let target = the (cmd_relatedEventId cmd);
                   existing = filter is_retraction (findByRelatedEventId st target)
               in if existing \<noteq> [] then Some (AlreadyRetracted target (ev_id (hd existing)))
                  else if is_retraction origin \<and> truthy (ev_relatedEventId origin)
                  then (case getById st (the (ev_relatedEventId origin)) of
                          None \<Rightarrow> None
                        | Some t \<Rightarrow> throw_if (is_retraction t) RetractionTooDeep)
                  else None)"

text \<open>One iteration of the conservation loop; building the message can itself throw.\<close>

definition conservation_object :: "store \<Rightarrow> Money \<Rightarrow> LedgerEventObject \<Rightarrow> ledger_error option" where
  "conservation_object st money ob =
     (if obj_relation ob \<noteq> Relation.SETTLES then None
      else let T = foldObjectTotals (findByObjectId st (obj_id ob)) (obj_id ob)
           in if ot_hasReversal T then None
              else if originatedUnits T = 0 then None
              else if closedUnits T + toUnits money > originatedUnits T
              then (case fromUnits (originatedUnits T - closedUnits T) (currency money) of
                      Inl e \<Rightarrow> Some e
                    | Inr outstanding \<Rightarrow>
                        Some (UseCase_Error (OverSettlement (obj_id ob) (money_toString outstanding))))
              else None)"

definition conservation :: "store \<Rightarrow> Money \<Rightarrow> LedgerEventObject list \<Rightarrow> ledger_error option" where
  "conservation st money objs = throw_any (conservation_object st money) objs"

section \<open>Building and recording the event\<close>

definition make_party :: "string \<Rightarrow> PartyInput \<Rightarrow> ledger_error + LedgerEventParty" where
  "make_party c q =
     (if truthy (pi_amount q)
      then ebind (fromDecimal (the (pi_amount q)) c) (\<lambda>m.
        Inr \<lparr>party_id = pi_partyId q, party_role = pi_role q, party_direction = pi_direction q,
             party_amount = Some m\<rparr>)
      else Inr \<lparr>party_id = pi_partyId q, party_role = pi_role q, party_direction = pi_direction q,
                party_amount = None\<rparr>)"

definition make_reporter :: "call_env \<Rightarrow> ReporterInput \<Rightarrow> EventReporter" where
  "make_reporter env r =
     \<lparr>rep_type = ri_reporterType r, rep_id = ri_reporterId r, rep_name = ri_reporterName r,
      rep_reportedAt = env_reportedAt env, rep_channel = ri_channel r\<rparr>"

definition make_props ::
  "call_env \<Rightarrow> CreateLedgerEventCommand \<Rightarrow> string \<Rightarrow> Money \<Rightarrow> EventSource \<Rightarrow> NormalizationMetadata
     \<Rightarrow> string option \<Rightarrow> LedgerEventParty list \<Rightarrow> CreateLedgerEventProps" where
  "make_props env cmd i money src meta prev parties =
     \<lparr>pr_id = i, pr_eventType = cmd_eventType cmd, pr_economicEffect = cmd_economicEffect cmd,
      pr_occurredAt = cmd_occurredAt cmd, pr_sourceAt = cmd_sourceAt cmd, pr_dueAt = cmd_dueAt cmd,
      pr_amount = money, pr_description = cmd_description cmd, pr_source = src,
      pr_normalization = meta, pr_previousHash = prev, pr_commandId = cmd_commandId cmd,
      pr_relatedEventId = cmd_relatedEventId cmd, pr_parties = parties,
      pr_objects = cmd_objects cmd, pr_reason = cmd_reason cmd,
      pr_reporter = make_reporter env (cmd_reporter cmd)\<rparr>"

definition audit_created :: "platform \<Rightarrow> CreateLedgerEventCommand \<Rightarrow> LedgerEvent \<Rightarrow> AuditEntry" where
  "audit_created P cmd ev =
     \<lparr>au_action = LEDGER_EVENT_CREATED, au_timestamp = iso_string P (ev_recordedAt ev),
      au_sourceSystem = cmd_sourceSystem cmd, au_eventId = Some (ev_id ev),
      au_eventType = Some (ev_eventType ev), au_economicEffect = Some (ev_economicEffect ev),
      au_sourceReference = Some (cmd_sourceReference cmd), au_commandId = ev_commandId ev,
      au_stagingId = None, au_reasons = None\<rparr>"

definition known_command :: "store \<Rightarrow> CreateLedgerEventCommand \<Rightarrow> LedgerEvent option" where
  "known_command st cmd =
     (if truthy (cmd_commandId cmd) then getByCommandId st (the (cmd_commandId cmd)) else None)"

text \<open>Everything after the idempotency key, up to the event.\<close>

definition build_event_of ::
  "platform \<Rightarrow> call_env \<Rightarrow> store \<Rightarrow> CreateLedgerEventCommand \<Rightarrow> ledger_error + LedgerEvent" where
  "build_event_of P env st cmd =
     ebind (check (throw_if (existsBySourceReference st (cmd_sourceReference cmd))
                    (UseCase_Error (DuplicateSource (cmd_sourceReference cmd))))) (\<lambda>_.
     ebind (new_EventId (env_uuid env)) (\<lambda>i.
     ebind (fromDecimal (cmd_amount cmd) (cmd_currency cmd)) (\<lambda>money.
     ebind (find_origin st cmd) (\<lambda>originEvent.
     ebind (check (map_option UseCase_Error (retraction_rules st cmd originEvent))) (\<lambda>_.
     ebind (check (conservation st money (cmd_objects cmd))) (\<lambda>_.
     ebind (new_NormalizationMetadata (cmd_normalizationVersion cmd) (cmd_normalizationWorkerId cmd)) (\<lambda>meta.
     ebind (new_EventSource (cmd_sourceSystem cmd) (cmd_sourceReference cmd)) (\<lambda>src.
     ebind (emap (make_party (cmd_currency cmd)) (cmd_parties cmd)) (\<lambda>parties.
     create P (env_recordedAt env)
       (make_props env cmd i money src meta (getLastEventHash st) parties))))))))))"

definition execute ::
  "platform \<Rightarrow> call_env \<Rightarrow> store \<Rightarrow> CreateLedgerEventCommand
     \<Rightarrow> ledger_error + LedgerEvent \<times> store \<times> AuditEntry list" where
  "execute P env st cmd =
     (case known_command st cmd of
        Some existing \<Rightarrow> Inr (existing, st, [])
      | None \<Rightarrow>
          ebind (build_event_of P env st cmd) (\<lambda>ev.
          ebind (save st ev) (\<lambda>st'.
          Inr (ev, st', [audit_created P cmd ev]))))"

section \<open>What an execution does\<close>

lemma execute_Inr:
  "execute P env st cmd = Inr (ev, st', au) \<longleftrightarrow>
     known_command st cmd = Some ev \<and> st' = st \<and> au = [] \<or>
     known_command st cmd = None \<and> build_event_of P env st cmd = Inr ev \<and> save st ev = Inr st' \<and>
       au = [audit_created P cmd ev]"
  by (auto simp: execute_def ebind_Inr split: option.splits)

lemma known_commandD:
  "known_command st cmd = Some ev \<Longrightarrow>
   ev \<in> set st \<and> truthy (cmd_commandId cmd) \<and> ev_commandId ev = cmd_commandId cmd"
  using memory.getByCommandId_Some [of st]
  by (auto simp: known_command_def findAll_def split: if_splits elim: truthyE)

lemma known_command_None:
  "known_command st cmd = None \<longleftrightarrow>
     (truthy (cmd_commandId cmd) \<longrightarrow> (\<forall>e\<in>set st. ev_commandId e \<noteq> cmd_commandId cmd))"
  using memory.getByCommandId_None [of st]
  by (auto simp: known_command_def findAll_def elim: truthyE)

lemma make_party_Inr:
  "make_party c q = Inr r \<Longrightarrow>
   party_id r = pi_partyId q \<and> party_role r = pi_role q \<and> party_direction r = pi_direction q \<and>
   (case party_amount r of None \<Rightarrow> True | Some m \<Rightarrow> valid_money m)"
  by (auto simp: make_party_def ebind_Inr dest: fromDecimal_valid split: if_splits)

lemma made_parties_valid: "emap (make_party c) qs = Inr ps \<Longrightarrow> valid_parties ps"
proof -
  assume "emap (make_party c) qs = Inr ps"
  then have "list_all2 (\<lambda>q r. make_party c q = Inr r) qs ps" by (simp add: emap_Inr)
  then have "\<forall>r\<in>set ps. case party_amount r of None \<Rightarrow> True | Some m \<Rightarrow> valid_money m"
    by (induction rule: list_all2_induct) (auto dest: make_party_Inr)
  then show ?thesis by (simp add: valid_parties_def)
qed

text \<open>The properties of a recorded event, written back from its fields.\<close>

definition props_of :: "LedgerEvent \<Rightarrow> CreateLedgerEventProps" where
  "props_of ev =
     \<lparr>pr_id = ev_id ev, pr_eventType = ev_eventType ev, pr_economicEffect = ev_economicEffect ev,
      pr_occurredAt = Some (ev_occurredAt ev), pr_sourceAt = map_option Some (ev_sourceAt ev),
      pr_dueAt = map_option Some (ev_dueAt ev), pr_amount = ev_amount ev,
      pr_description = ev_description ev, pr_source = ev_source ev,
      pr_normalization = ev_normalization ev, pr_previousHash = ev_previousHash ev,
      pr_commandId = ev_commandId ev, pr_relatedEventId = ev_relatedEventId ev,
      pr_parties = ev_parties ev, pr_objects = ev_objects ev, pr_reason = ev_reason ev,
      pr_reporter = ev_reporter ev\<rparr>"

lemma props_of_event_of: "dates_ok p \<Longrightarrow> props_of (event_of P now p) = p"
  by (cases p; cases "pr_sourceAt p"; cases "pr_dueAt p")
     (auto simp: props_of_def event_of_def dates_ok_def)

text \<open>What holds of every event the factory returns.\<close>

definition lawful :: "platform \<Rightarrow> LedgerEvent \<Rightarrow> bool" where
  "lawful P ev \<longleftrightarrow>
     valid_event ev \<and> hash_valid P ev \<and> basic_ok (props_of ev) \<and> flows_ok (props_of ev) \<and>
     admissible (props_of ev)"

lemma create_lawful:
  assumes "valid_props p" "create P now p = Inr ev"
  shows "lawful P ev" and "props_of ev = p"
proof -
  from assms(2) have v: "validate p = Inr ()" "dates_ok p" "ev = event_of P now p"
    by (simp_all add: create_Inr)
  then show p: "props_of ev = p" by (simp add: props_of_event_of)
  have "basic_ok p \<and> flows_ok p \<and> admissible p" using v(1) validate_iff [OF assms(1)] by simp
  with p create_valid_event [OF assms] create_hash_valid [OF assms(2)] show "lawful P ev"
    by (simp add: lawful_def)
qed

text \<open>Every guard a recorded event has passed.\<close>

lemma build_event_of_Inr:
  assumes "build_event_of P env st cmd = Inr ev"
  obtains originEvent where
    "\<not> existsBySourceReference st (cmd_sourceReference cmd)"
    "fromDecimal (cmd_amount cmd) (cmd_currency cmd) = Inr (ev_amount ev)"
    "find_origin st cmd = Inr originEvent"
    "retraction_rules st cmd originEvent = None"
    "conservation st (ev_amount ev) (cmd_objects cmd) = None"
    "lawful P ev"
    "ev_previousHash ev = getLastEventHash st"
    "src_reference (ev_source ev) = cmd_sourceReference cmd"
    "ev_commandId ev = cmd_commandId cmd"
    "ev_relatedEventId ev = cmd_relatedEventId cmd"
    "ev_objects ev = cmd_objects cmd"
    "ev_eventType ev = cmd_eventType cmd"
    "ev_economicEffect ev = cmd_economicEffect cmd"
    "ev_id ev = env_uuid env"
proof -
  from assms obtain i money originEvent meta src parties where
    steps: "\<not> existsBySourceReference st (cmd_sourceReference cmd)"
      "new_EventId (env_uuid env) = Inr i"
      "fromDecimal (cmd_amount cmd) (cmd_currency cmd) = Inr money"
      "find_origin st cmd = Inr originEvent"
      "retraction_rules st cmd originEvent = None"
      "conservation st money (cmd_objects cmd) = None"
      "new_EventSource (cmd_sourceSystem cmd) (cmd_sourceReference cmd) = Inr src"
      "emap (make_party (cmd_currency cmd)) (cmd_parties cmd) = Inr parties"
      "create P (env_recordedAt env)
        (make_props env cmd i money src meta (getLastEventHash st) parties) = Inr ev"
    by (auto simp: build_event_of_def ebind_Inr)
  let ?p = "make_props env cmd i money src meta (getLastEventHash st) parties"
  have "valid_props ?p"
    using fromDecimal_valid [OF steps(3)] made_parties_valid [OF steps(8)]
    by (simp add: valid_props_def make_props_def)
  note ev = create_lawful [OF this steps(9)]
  have fields: "ev_amount ev = money" "ev_previousHash ev = getLastEventHash st" "ev_source ev = src"
    "ev_commandId ev = cmd_commandId cmd" "ev_relatedEventId ev = cmd_relatedEventId cmd"
    "ev_objects ev = cmd_objects cmd" "ev_eventType ev = cmd_eventType cmd"
    "ev_economicEffect ev = cmd_economicEffect cmd" "ev_id ev = i"
    using ev(2) by (simp_all add: props_of_def make_props_def)
  show thesis
    by (rule that [of originEvent])
       (use steps fields ev(1) in \<open>simp_all add: new_EventSource_Inr new_EventId_Inr\<close>)
qed

lemma find_origin_iff:
  "find_origin st cmd = Inr originEvent \<longleftrightarrow>
     (if truthy (cmd_relatedEventId cmd)
      then \<exists>origin. originEvent = Some origin \<and> getById st (the (cmd_relatedEventId cmd)) = Some origin \<and>
        (case allowedOriginTypes (EVENT_CONTRACTS (cmd_eventType cmd)) of
           None \<Rightarrow> True | Some allowed \<Rightarrow> ev_eventType origin \<in> set allowed)
      else originEvent = None)"
  by (cases "getById st (the (cmd_relatedEventId cmd))";
      cases "allowedOriginTypes (EVENT_CONTRACTS (cmd_eventType cmd))")
     (auto simp: find_origin_def)

lemma find_origin_Inr:
  assumes "find_origin st cmd = Inr originEvent"
  shows "truthy (cmd_relatedEventId cmd) \<longleftrightarrow> originEvent \<noteq> None"
    and "originEvent = Some origin \<Longrightarrow>
      origin \<in> set st \<and> cmd_relatedEventId cmd = Some (ev_id origin) \<and>
      (case allowedOriginTypes (EVENT_CONTRACTS (cmd_eventType cmd)) of
         None \<Rightarrow> True | Some allowed \<Rightarrow> ev_eventType origin \<in> set allowed)"
proof -
  show "truthy (cmd_relatedEventId cmd) \<longleftrightarrow> originEvent \<noteq> None"
    using assms by (auto simp: find_origin_iff split: if_splits)
  assume o: "originEvent = Some origin"
  with assms have t: "truthy (cmd_relatedEventId cmd)"
    and g: "getById st (the (cmd_relatedEventId cmd)) = Some origin"
    and allowed: "case allowedOriginTypes (EVENT_CONTRACTS (cmd_eventType cmd)) of
         None \<Rightarrow> True | Some allowed \<Rightarrow> ev_eventType origin \<in> set allowed"
    by (simp_all add: find_origin_iff split: if_splits)
  from memory.getById_Some [OF g] t allowed
  show "origin \<in> set st \<and> cmd_relatedEventId cmd = Some (ev_id origin) \<and>
      (case allowedOriginTypes (EVENT_CONTRACTS (cmd_eventType cmd)) of
         None \<Rightarrow> True | Some allowed \<Rightarrow> ev_eventType origin \<in> set allowed)"
    by (auto simp: findAll_def elim: truthyE)
qed

text \<open>The guard of one settled object, as a condition on the totals of its position.\<close>

definition settles_within :: "store \<Rightarrow> Money \<Rightarrow> LedgerEventObject \<Rightarrow> bool" where
  "settles_within st money ob \<longleftrightarrow>
     (let T = foldObjectTotals (findByObjectId st (obj_id ob)) (obj_id ob)
      in ot_hasReversal T \<or> originatedUnits T = 0 \<or> closedUnits T + units money \<le> originatedUnits T)"

lemma conservation_object_None:
  "conservation_object st money ob = None \<longleftrightarrow>
     (obj_relation ob = Relation.SETTLES \<longrightarrow> settles_within st money ob)"
proof (cases "fromUnits (originatedUnits (foldObjectTotals (findByObjectId st (obj_id ob)) (obj_id ob))
    - closedUnits (foldObjectTotals (findByObjectId st (obj_id ob)) (obj_id ob))) (currency money)")
  case (Inl e)
  then show ?thesis
    by (simp add: conservation_object_def settles_within_def Let_def toUnits_def not_less)
next
  case (Inr m)
  then show ?thesis
    by (simp add: conservation_object_def settles_within_def Let_def toUnits_def not_less)
qed

lemma conservation_None:
  "conservation st money objs = None \<longleftrightarrow>
     (\<forall>ob\<in>set objs. obj_relation ob = Relation.SETTLES \<longrightarrow> settles_within st money ob)"
  by (simp add: conservation_def throw_any_None conservation_object_None)

section \<open>Exactly when an event is recorded\<close>

text \<open>
  The properties handed to the factory, with the amounts read: \<open>None\<close> when an amount cannot be.
\<close>

definition command_props ::
  "call_env \<Rightarrow> store \<Rightarrow> CreateLedgerEventCommand \<Rightarrow> CreateLedgerEventProps option" where
  "command_props env st cmd =
     (case (fromDecimal (cmd_amount cmd) (cmd_currency cmd),
            emap (make_party (cmd_currency cmd)) (cmd_parties cmd)) of
        (Inr money, Inr parties) \<Rightarrow>
          Some (make_props env cmd (env_uuid env) money
            \<lparr>src_system = cmd_sourceSystem cmd, src_reference = cmd_sourceReference cmd\<rparr>
            \<lparr>norm_version = cmd_normalizationVersion cmd, norm_workerId = cmd_normalizationWorkerId cmd\<rparr>
            (getLastEventHash st) parties)
      | _ \<Rightarrow> None)"

definition guards_pass :: "store \<Rightarrow> CreateLedgerEventCommand \<Rightarrow> Money \<Rightarrow> bool" where
  "guards_pass st cmd money \<longleftrightarrow>
     (\<exists>originEvent. find_origin st cmd = Inr originEvent \<and> retraction_rules st cmd originEvent = None) \<and>
     (\<forall>ob\<in>set (cmd_objects cmd). obj_relation ob = Relation.SETTLES \<longrightarrow> settles_within st money ob)"

definition texts_given :: "call_env \<Rightarrow> CreateLedgerEventCommand \<Rightarrow> bool" where
  "texts_given env cmd \<longleftrightarrow>
     [] \<notin> set [env_uuid env, cmd_normalizationVersion cmd, cmd_normalizationWorkerId cmd,
               cmd_sourceSystem cmd, cmd_sourceReference cmd]"

definition accepts :: "call_env \<Rightarrow> store \<Rightarrow> CreateLedgerEventCommand \<Rightarrow> CreateLedgerEventProps \<Rightarrow> bool" where
  "accepts env st cmd p \<longleftrightarrow>
     command_props env st cmd = Some p \<and> texts_given env cmd \<and>
     (\<forall>e\<in>set st. src_reference (ev_source e) \<noteq> cmd_sourceReference cmd \<and> ev_id e \<noteq> env_uuid env) \<and>
     guards_pass st cmd (pr_amount p) \<and> basic_ok p \<and> flows_ok p \<and> admissible p \<and> dates_ok p"

lemma command_props_Some:
  "command_props env st cmd = Some p \<longleftrightarrow>
     (\<exists>money parties.
        fromDecimal (cmd_amount cmd) (cmd_currency cmd) = Inr money \<and>
        emap (make_party (cmd_currency cmd)) (cmd_parties cmd) = Inr parties \<and>
        p = make_props env cmd (env_uuid env) money
            \<lparr>src_system = cmd_sourceSystem cmd, src_reference = cmd_sourceReference cmd\<rparr>
            \<lparr>norm_version = cmd_normalizationVersion cmd, norm_workerId = cmd_normalizationWorkerId cmd\<rparr>
            (getLastEventHash st) parties)"
  by (auto simp: command_props_def split: sum.splits)

lemma command_props_valid: "command_props env st cmd = Some p \<Longrightarrow> valid_props p"
  by (auto simp: command_props_Some valid_props_def make_props_def
      dest: fromDecimal_valid made_parties_valid)

lemma build_event_of_iff:
  "build_event_of P env st cmd = Inr ev \<longleftrightarrow>
     (\<exists>p. command_props env st cmd = Some p \<and> texts_given env cmd \<and>
        (\<forall>e\<in>set st. src_reference (ev_source e) \<noteq> cmd_sourceReference cmd) \<and>
        guards_pass st cmd (pr_amount p) \<and> create P (env_recordedAt env) p = Inr ev)"
proof -
  have amount: "pr_amount (make_props env cmd i money src meta prev parties) = money"
    for i money src meta prev parties by (simp add: make_props_def)
  show ?thesis
    by (auto simp: build_event_of_def ebind_Inr command_props_Some texts_given_def guards_pass_def
        conservation_None new_EventId_Inr new_EventSource_Inr new_NormalizationMetadata_Inr amount
        existsBySourceReference_def list_ex_Bex)
qed

lemma execute_records_iff:
  "execute P env st cmd = Inr (ev, st @ [ev], [audit_created P cmd ev]) \<longleftrightarrow>
     known_command st cmd = None \<and>
     (\<exists>p. accepts env st cmd p \<and> ev = event_of P (env_recordedAt env) p)"
proof -
  have ids: "ev_id ev = env_uuid env" if "command_props env st cmd = Some p" "create P now p = Inr ev" for p now
    using that by (auto simp: command_props_Some create_Inr event_of_def make_props_def)
  have val: "validate p = Inr () \<longleftrightarrow> basic_ok p \<and> flows_ok p \<and> admissible p"
    if "command_props env st cmd = Some p" for p
    using validate_iff [OF command_props_valid [OF that]] .
  have saved: "save st ev = Inr (st @ [ev]) \<longleftrightarrow> (\<forall>e\<in>set st. ev_id e \<noteq> ev_id ev)"
    by (auto simp: save_def list_ex_Bex)
  show ?thesis
    unfolding execute_Inr build_event_of_iff saved accepts_def
    using ids val by (fastforce simp: create_Inr)
qed

lemma execute_recordsI:
  assumes "known_command st cmd = None" "accepts env st cmd p" "ev = event_of P (env_recordedAt env) p"
  shows "execute P env st cmd = Inr (ev, st @ [ev], [audit_created P cmd ev])"
  using assms unfolding execute_records_iff by blast

end
