(* ===== verification/Ledger_Invariant.thy ===== *)
theory Ledger_Invariant
  imports Create_Event
begin

text \<open>
  The ledger as a state machine: the states reachable from the empty store by executions of the use
  case. Every fact about a recorded event is a fact about the moment it was recorded, so the
  invariant is one predicate \<open>recorded_after\<close> on an event and the events before it, required of
  every position of the store (\<open>each_after\<close>). From it follow the uniqueness of identifiers and
  references, the hash chain, the lineage, the shape of retractions, and what a settlement may do to
  a position.
\<close>

section \<open>Reachable stores\<close>

inductive reachable :: "platform \<Rightarrow> store \<Rightarrow> bool" for P :: platform where
  empty: "reachable P []"
| record_event: "reachable P st \<Longrightarrow> execute P env st cmd = Inr (ev, st', au) \<Longrightarrow> reachable P st'"

inductive_cases reachable_NilE: "reachable P []"

definition each_after :: "(LedgerEvent list \<Rightarrow> LedgerEvent \<Rightarrow> bool) \<Rightarrow> LedgerEvent list \<Rightarrow> bool" where
  "each_after Q st \<longleftrightarrow> (\<forall>k<length st. Q (take k st) (st ! k))"

lemma each_after_Nil [simp]: "each_after Q []"
  by (simp add: each_after_def)

lemma each_after_snoc [simp]: "each_after Q (st @ [e]) \<longleftrightarrow> each_after Q st \<and> Q st e"
  by (auto simp: each_after_def nth_append less_Suc_eq)

lemma each_after_mono: "each_after Q st \<Longrightarrow> (\<And>xs e. Q xs e \<Longrightarrow> R xs e) \<Longrightarrow> each_after R st"
  by (simp add: each_after_def)

lemma each_after_member:
  assumes "each_after Q st" "e \<in> set st"
  obtains xs where "Q xs e" "set xs \<subseteq> set st"
  using assms by (auto simp: each_after_def in_set_conv_nth) (metis set_take_subset that)

section \<open>What is known of an event when it is recorded\<close>

text \<open>The origin it names was there before, and is of a type its contract admits.\<close>

definition lineage_ok :: "LedgerEvent list \<Rightarrow> LedgerEvent \<Rightarrow> bool" where
  "lineage_ok before ev \<longleftrightarrow>
     (truthy (ev_relatedEventId ev) \<longrightarrow>
        (\<exists>origin\<in>set before. ev_relatedEventId ev = Some (ev_id origin) \<and>
           (case allowedOriginTypes (EVENT_CONTRACTS (ev_eventType ev)) of
              None \<Rightarrow> True | Some allowed \<Rightarrow> ev_eventType origin \<in> set allowed)))"

text \<open>A retraction is the first one of its target, which is not a retraction of a retraction.\<close>

definition retraction_ok :: "LedgerEvent list \<Rightarrow> LedgerEvent \<Rightarrow> bool" where
  "retraction_ok before ev \<longleftrightarrow>
     (\<forall>t. retracts_id ev t \<longrightarrow>
        (\<forall>r\<in>set before. \<not> retracts_id r t) \<and>
        (\<forall>a\<in>set before. \<forall>b\<in>set before.
           ev_id a = t \<and> is_retraction b \<longrightarrow> \<not> retracts_id a (ev_id b)))"

definition settlement_ok :: "LedgerEvent list \<Rightarrow> LedgerEvent \<Rightarrow> bool" where
  "settlement_ok before ev \<longleftrightarrow>
     (\<forall>ob\<in>set (ev_objects ev). obj_relation ob = Relation.SETTLES \<longrightarrow> settles_within before (ev_amount ev) ob)"

definition fresh_keys :: "LedgerEvent list \<Rightarrow> LedgerEvent \<Rightarrow> bool" where
  "fresh_keys before ev \<longleftrightarrow>
     (\<forall>x\<in>set before. ev_id x \<noteq> ev_id ev \<and> src_reference (ev_source x) \<noteq> src_reference (ev_source ev) \<and>
        (truthy (ev_commandId ev) \<longrightarrow> ev_commandId x \<noteq> ev_commandId ev))"

definition recorded_after :: "platform \<Rightarrow> LedgerEvent list \<Rightarrow> LedgerEvent \<Rightarrow> bool" where
  "recorded_after P before ev \<longleftrightarrow>
     lawful P ev \<and> fresh_keys before ev \<and> ev_previousHash ev = getLastEventHash before \<and>
     lineage_ok before ev \<and> retraction_ok before ev \<and> settlement_ok before ev"

lemma lawful_retraction_target: "lawful P ev \<Longrightarrow> is_retraction ev \<Longrightarrow> truthy (ev_relatedEventId ev)"
  using admissible_retraction(3) [of "props_of ev"]
  by (simp add: lawful_def is_retraction_def props_of_def)

lemma retraction_rules_ok:
  assumes "find_origin st cmd = Inr originEvent" "retraction_rules st cmd originEvent = None"
    and ev: "ev_objects ev = cmd_objects cmd" "ev_relatedEventId ev = cmd_relatedEventId cmd"
    and distinct: "distinct (map ev_id st)"
  shows "retraction_ok st ev"
proof -
  have "(\<forall>r\<in>set st. \<not> retracts_id r t) \<and>
      (\<forall>a\<in>set st. \<forall>b\<in>set st. ev_id a = t \<and> is_retraction b \<longrightarrow> \<not> retracts_id a (ev_id b))"
    if r: "retracts_id ev t" for t
  proof -
    from r ev have t: "cmd_relatedEventId cmd = Some t" "t \<noteq> []" "has_relation Relation.RETRACTS (cmd_objects cmd)"
      by (simp_all add: retracts_id_def is_retraction_def)
    then obtain origin where o: "originEvent = Some origin"
      using find_origin_Inr(1) [OF assms(1)] by auto
    from find_origin_Inr(2) [OF assms(1) o] t have org: "origin \<in> set st" "ev_id origin = t" by simp_all
    from assms(2) o t have none: "filter is_retraction (findByRelatedEventId st t) = []"
      by (auto simp: retraction_rules_def Let_def split: if_splits)
    from assms(2) o t none have deep: "is_retraction origin \<and> truthy (ev_relatedEventId origin) \<Longrightarrow>
        (case getById st (the (ev_relatedEventId origin)) of None \<Rightarrow> True | Some x \<Rightarrow> \<not> is_retraction x)"
      by (auto simp: retraction_rules_def Let_def split: option.splits if_splits)
    have first: "\<not> retracts_id x t" if "x \<in> set st" for x
      using none that by (auto simp: findByRelatedEventId_def filter_empty_conv retracts_id_def)
    have second: "\<not> retracts_id a (ev_id b)" if "a \<in> set st" "b \<in> set st" "ev_id a = t" "is_retraction b" for a b
    proof
      assume ab: "retracts_id a (ev_id b)"
      have "a = origin" using distinct that(1,3) org by (metis distinct_map inj_onD)
      with ab deep have "case getById st (ev_id b) of None \<Rightarrow> True | Some x \<Rightarrow> \<not> is_retraction x"
        by (simp add: retracts_id_def)
      moreover have "getById st (ev_id b) = Some b"
        using memory.getById_member [of st "ev_id b" b] distinct that(2) by (simp add: findAll_def)
      ultimately show False using that(4) by simp
    qed
    show ?thesis using first second by blast
  qed
  then show ?thesis by (simp add: retraction_ok_def)
qed

lemma distinct_ids: "each_after (recorded_after P) st \<Longrightarrow> distinct (map ev_id st)"
  by (induction st rule: rev_induct) (auto simp: recorded_after_def fresh_keys_def)

lemma execute_step:
  assumes "each_after (recorded_after P) st" "execute P env st cmd = Inr (ev, st', au)"
  shows "st' = st \<and> au = [] \<and> ev \<in> set st \<or>
    st' = st @ [ev] \<and> recorded_after P st ev \<and> au = [audit_created P cmd ev]"
proof -
  from assms(2) consider "known_command st cmd = Some ev" "st' = st" "au = []"
    | "known_command st cmd = None" "build_event_of P env st cmd = Inr ev" "save st ev = Inr st'"
      "au = [audit_created P cmd ev]"
    by (auto simp: execute_Inr)
  then show ?thesis
  proof cases
    case 1
    then show ?thesis by (auto dest: known_commandD)
  next
    case 2
    obtain originEvent where b:
      "\<not> existsBySourceReference st (cmd_sourceReference cmd)"
      "find_origin st cmd = Inr originEvent"
      "retraction_rules st cmd originEvent = None"
      "conservation st (ev_amount ev) (cmd_objects cmd) = None"
      "lawful P ev" "ev_previousHash ev = getLastEventHash st"
      "src_reference (ev_source ev) = cmd_sourceReference cmd"
      "ev_commandId ev = cmd_commandId cmd" "ev_relatedEventId ev = cmd_relatedEventId cmd"
      "ev_objects ev = cmd_objects cmd" "ev_eventType ev = cmd_eventType cmd"
      by (rule build_event_of_Inr [OF 2(2)]) blast
    have saved: "st' = st @ [ev]" "\<forall>x\<in>set st. ev_id x \<noteq> ev_id ev"
      using memory.save_Inr [OF 2(3)] by (simp_all add: findAll_def)
    have "fresh_keys st ev"
      using saved(2) b(1,7,8) 2(1) memory.exists_source [of st "cmd_sourceReference cmd"]
      by (auto simp: fresh_keys_def known_command_None findAll_def)
    moreover have "lineage_ok st ev"
      using find_origin_Inr [OF b(2)] b(9,11)
      by (auto simp: lineage_ok_def)
    moreover have "retraction_ok st ev"
      by (rule retraction_rules_ok [OF b(2,3) b(10,9) distinct_ids [OF assms(1)]])
    moreover have "settlement_ok st ev"
      using b(4,10) by (simp add: settlement_ok_def conservation_None)
    ultimately show ?thesis using saved(1) b(5,6) 2(4) by (simp add: recorded_after_def)
  qed
qed

lemma reachable_each_after: "reachable P st \<Longrightarrow> each_after (recorded_after P) st"
proof (induction rule: reachable.induct)
  case empty
  then show ?case by simp
next
  case (record_event st env cmd ev st' au)
  from execute_step [OF record_event.IH record_event.hyps(2)] record_event.IH show ?case by auto
qed

section \<open>Consequences for the whole store\<close>

lemma distinct_sources: "each_after (recorded_after P) st \<Longrightarrow> distinct (map (src_reference \<circ> ev_source) st)"
  by (induction st rule: rev_induct) (auto simp: recorded_after_def fresh_keys_def)

lemma unique_commands:
  "each_after (recorded_after P) st \<Longrightarrow> a \<in> set st \<Longrightarrow> b \<in> set st \<Longrightarrow>
   truthy (ev_commandId a) \<Longrightarrow> ev_commandId a = ev_commandId b \<Longrightarrow> a = b"
  by (induction st rule: rev_induct) (auto simp: recorded_after_def fresh_keys_def)

lemma all_lawful: "each_after (recorded_after P) st \<Longrightarrow> e \<in> set st \<Longrightarrow> lawful P e"
  by (erule (1) each_after_member) (simp add: recorded_after_def)

lemma chain_intact: "each_after (recorded_after P) st \<Longrightarrow> chained None st"
  by (induction st rule: rev_induct) (auto simp: recorded_after_def chained_append getLastEventHash_def)

lemma retraction_targets_present:
  assumes "each_after (recorded_after P) st" "r \<in> set st" "retracts_id r t"
  shows "\<exists>e\<in>set st. ev_id e = t"
proof -
  from each_after_member [OF assms(1,2)] obtain xs where "recorded_after P xs r" "set xs \<subseteq> set st" .
  with assms(3) show ?thesis
    by (auto simp: recorded_after_def lineage_ok_def retracts_id_def truthy_def)
qed

lemma one_retraction:
  "each_after (recorded_after P) st \<Longrightarrow> one_retraction_each st"
proof (induction st rule: rev_induct)
  case Nil
  then show ?case by (simp add: one_retraction_each_def)
next
  case (snoc e st)
  then have IH: "one_retraction_each st" and ok: "retraction_ok st e" by (simp_all add: recorded_after_def)
  have "ev_id a = ev_id b"
    if ab: "a \<in> set (st @ [e])" "b \<in> set (st @ [e])" "retracts_id a t" "retracts_id b t" for a b t
  proof -
    consider "a \<in> set st" "b \<in> set st" | "a = e" "b = e" | "a = e" "b \<in> set st" | "a \<in> set st" "b = e"
      using ab(1,2) by auto
    then show ?thesis
    proof cases
      case 1
      with IH ab(3,4) show ?thesis unfolding one_retraction_each_def by blast
    next
      case 3
      with ok ab(3,4) show ?thesis unfolding retraction_ok_def by blast
    next
      case 4
      with ok ab(3,4) show ?thesis unfolding retraction_ok_def by blast
    qed simp
  qed
  then show ?case unfolding one_retraction_each_def by blast
qed

text \<open>No three retractions in a row.\<close>

lemma no_deep_chain:
  "each_after (recorded_after P) st \<Longrightarrow>
   a \<in> set st \<Longrightarrow> b \<in> set st \<Longrightarrow> c \<in> set st \<Longrightarrow>
   retracts_id a (ev_id b) \<Longrightarrow> retracts_id b (ev_id c) \<Longrightarrow> \<not> is_retraction c"
proof (induction st rule: rev_induct)
  case Nil
  then show ?case by simp
next
  case (snoc e st)
  from snoc.prems(1) have pre: "each_after (recorded_after P) st" and rec: "recorded_after P st e"
    by simp_all
  have fresh: "ev_id x \<noteq> ev_id e" if "x \<in> set st" for x
    using rec that by (auto simp: recorded_after_def fresh_keys_def)
  have target: "x \<noteq> e" if "y \<in> set (st @ [e])" "retracts_id y (ev_id x)" "x \<in> set (st @ [e])" for x y
  proof
    assume "x = e"
    show False
    proof (cases "y \<in> set st")
      case True
      with retraction_targets_present [OF pre True that(2)] fresh \<open>x = e\<close> show False by auto
    next
      case False
      with that(1) have "y = e" by simp
      with rec that(2) \<open>x = e\<close> have "\<exists>o'\<in>set st. ev_id o' = ev_id e"
        by (auto simp: recorded_after_def lineage_ok_def retracts_id_def)
      with fresh show False by blast
    qed
  qed
  have b: "b \<in> set st" using snoc.prems target [of a b] by auto
  have c: "c \<in> set st" using snoc.prems target [of b c] by auto
  show ?case
  proof (cases "a \<in> set st")
    case True
    with snoc.IH [OF pre True b c] snoc.prems show ?thesis by blast
  next
    case False
    with snoc.prems have "a = e" by simp
    with rec snoc.prems b c show ?thesis
      unfolding recorded_after_def retraction_ok_def by blast
  qed
qed

section \<open>The last hash seals the history\<close>

lemma history_sealed:
  assumes P: "faithful_platform P"
    and "each_after (recorded_after P) st" "each_after (recorded_after P) st'"
    and "getLastEventHash st = getLastEventHash st'"
  shows "map seal st = map seal st'"
  using assms(2-)
proof (induction st arbitrary: st' rule: rev_induct)
  case Nil
  then show ?case by (simp add: getLastEventHash_def split: if_splits)
next
  case (snoc e st)
  then obtain f st1 where st': "st' = st1 @ [f]"
    by (cases st' rule: rev_cases) (simp_all add: getLastEventHash_def)
  from snoc.prems st' have e: "recorded_after P st e" and f: "recorded_after P st1 f"
    and h: "ev_hash e = ev_hash f"
    by (simp_all add: getLastEventHash_def)
  then have sealed: "seal e = seal f"
    using hash_valid_eq [OF P, of e f] by (simp add: recorded_after_def lawful_def)
  then have "ev_previousHash e = ev_previousHash f" by (simp add: seal_eq)
  with e f have "getLastEventHash st = getLastEventHash st1" by (simp add: recorded_after_def)
  with snoc.IH [of st1] snoc.prems st' have "map seal st = map seal st1" by simp
  with sealed st' show ?case by simp
qed

section \<open>One hop decides what stands\<close>

text \<open>
  The meaning of retraction is recursive: an event stands when no standing event retracts it. A set
  with this property is a kernel of the store.
\<close>

definition kernel :: "LedgerEvent list \<Rightarrow> (LedgerEvent \<Rightarrow> bool) \<Rightarrow> bool" where
  "kernel st K \<longleftrightarrow> (\<forall>e\<in>set st. K e \<longleftrightarrow> \<not> (\<exists>r\<in>set st. K r \<and> retracts_id r (ev_id e)))"

lemma stands_iff:
  assumes "one_retraction_each st"
  shows "stands st e \<longleftrightarrow>
    (\<forall>r\<in>set st. retracts_id r (ev_id e) \<longrightarrow> (\<exists>s\<in>set st. retracts_id s (ev_id r)))"
  using retractedEventIds_unique [OF assms] by (auto simp: stands_def)

lemma stands_kernel:
  assumes "each_after (recorded_after P) st"
  shows "kernel st (stands st)"
proof -
  note one = one_retraction [OF assms]
  note stands = stands_iff [OF one]
  have "stands st e \<longleftrightarrow> \<not> (\<exists>r\<in>set st. stands st r \<and> retracts_id r (ev_id e))" if e: "e \<in> set st" for e
  proof
    assume std: "stands st e"
    show "\<not> (\<exists>r\<in>set st. stands st r \<and> retracts_id r (ev_id e))"
    proof
      assume "\<exists>r\<in>set st. stands st r \<and> retracts_id r (ev_id e)"
      then obtain r where r: "r \<in> set st" "stands st r" "retracts_id r (ev_id e)" by blast
      with std stands obtain s where s: "s \<in> set st" "retracts_id s (ev_id r)" by blast
      with r(2) stands obtain u where u: "u \<in> set st" "retracts_id u (ev_id s)" by blast
      from no_deep_chain [OF assms u(1) s(1) r(1) u(2) s(2)] r(3) show False
        by (simp add: retracts_id_def)
    qed
  next
    assume none: "\<not> (\<exists>r\<in>set st. stands st r \<and> retracts_id r (ev_id e))"
    show "stands st e"
      unfolding stands
    proof (intro ballI impI)
      fix r assume r: "r \<in> set st" "retracts_id r (ev_id e)"
      with none have "\<not> stands st r" by blast
      with r stands show "\<exists>s\<in>set st. retracts_id s (ev_id r)" by blast
    qed
  qed
  then show ?thesis unfolding kernel_def by blast
qed

text \<open>Retractions come after their targets, so a store has at most one kernel.\<close>

lemma retracts_later:
  assumes "each_after (recorded_after P) st" "j < length st" "k < length st"
    and "retracts_id (st ! k) (ev_id (st ! j))"
  shows "j < k"
proof -
  have "recorded_after P (take k st) (st ! k)" using assms(1,3) by (simp add: each_after_def)
  with assms(4) obtain x where x: "x \<in> set (take k st)" "ev_id x = ev_id (st ! j)"
    by (auto simp: recorded_after_def lineage_ok_def retracts_id_def)
  then obtain i where i: "i < k" "i < length st" "st ! i = x"
    by (auto simp: in_set_conv_nth)
  have "i = j" using distinct_ids [OF assms(1)] i x(2) assms(2) by (simp add: distinct_conv_nth) metis
  with i show ?thesis by simp
qed

lemma kernel_unique:
  assumes inv: "each_after (recorded_after P) st" and K: "kernel st K" "kernel st L"
  shows "j < length st \<Longrightarrow> K (st ! j) = L (st ! j)"
proof (induction "length st - j" arbitrary: j rule: less_induct)
  case less
  have same: "K r = L r" if r: "r \<in> set st" "retracts_id r (ev_id (st ! j))" for r
  proof -
    from r(1) obtain k where k: "k < length st" "r = st ! k" by (auto simp: in_set_conv_nth)
    with retracts_later [OF inv less.prems k(1)] r(2) have "j < k" by simp
    with k less.hyps [of k] show ?thesis by simp
  qed
  have m: "st ! j \<in> set st" using less.prems by simp
  from K m have "K (st ! j) \<longleftrightarrow> \<not> (\<exists>r\<in>set st. K r \<and> retracts_id r (ev_id (st ! j)))"
    and "L (st ! j) \<longleftrightarrow> \<not> (\<exists>r\<in>set st. L r \<and> retracts_id r (ev_id (st ! j)))"
    unfolding kernel_def by blast+
  with same show ?case by blast
qed

section \<open>What a recorded settlement does to its position\<close>

lemma position_after:
  assumes inv: "each_after (recorded_after P) st" and ev: "recorded_after P st ev"
    and "mentions oid ev" "\<not> is_retraction ev"
  shows "foldObjectTotals (findByObjectId (st @ [ev]) oid) oid =
    (let T = foldObjectTotals (findByObjectId st oid) oid
     in \<lparr>originatedUnits = originatedUnits T + relation_units originates oid ev,
         closedUnits = closedUnits T + relation_units closes oid ev,
         ot_hasReversal = (ot_hasReversal T \<or> names reverses oid ev)\<rparr>)"
proof -
  let ?F = "findByObjectId st oid"
  have F: "findByObjectId (st @ [ev]) oid = ?F @ [ev]" using assms(3) by (simp add: findByObjectId_def)
  have not_r: "\<not> retracts_id ev t" for t using assms(4) by (simp add: retracts_id_def)
  have map: "map_of (retractionByTarget (?F @ [ev])) t = map_of (retractionByTarget ?F) t" for t
    by (simp add: map_of_retraction_snoc not_r)
  have same: "stands (?F @ [ev]) e = stands ?F e" for e
    by (simp add: stands_def retractedEventIds_iff map)
  have no_target: "\<not> retracts_id r (ev_id ev)" if "r \<in> set st" for r
    using retraction_targets_present [OF inv that] ev by (auto simp: recorded_after_def fresh_keys_def)
  then have "\<forall>r\<in>set ?F. \<not> retracts_id r (ev_id ev)" by (simp add: findByObjectId_def)
  then have "map_of (retractionByTarget ?F) (ev_id ev) = None" by (simp add: retraction_None)
  then have std: "stands ?F ev" by (simp add: stands_def retractedEventIds_iff)
  have "standing (?F @ [ev]) = standing ?F @ [ev]"
    using std by (simp add: standing_def same [abs_def])
  then show ?thesis
    unfolding F foldObjectTotals_sums by (simp add: totals_of_append Let_def) (simp add: totals_of_def)
qed

lemma single_relation_units:
  assumes "filter (\<lambda>ob. obj_id ob = oid) (ev_objects ev) = [ob]"
  shows "relation_units R oid ev = (if R (obj_relation ob) then units (ev_amount ev) else 0)"
    and "names R oid ev \<longleftrightarrow> R (obj_relation ob)"
proof -
  have "filter (\<lambda>x. obj_id x = oid \<and> R (obj_relation x)) (ev_objects ev)
      = filter (\<lambda>x. R (obj_relation x)) (filter (\<lambda>x. obj_id x = oid) (ev_objects ev))"
    by (simp add: conj_commute)
  then have f: "filter (\<lambda>x. obj_id x = oid \<and> R (obj_relation x)) (ev_objects ev)
      = (if R (obj_relation ob) then [ob] else [])"
    by (simp add: assms)
  then show "relation_units R oid ev = (if R (obj_relation ob) then units (ev_amount ev) else 0)"
    by (simp add: relation_units_def)
  have "names R oid ev \<longleftrightarrow> filter (\<lambda>x. obj_id x = oid \<and> R (obj_relation x)) (ev_objects ev) \<noteq> []"
    by (auto simp: names_def filter_empty_conv)
  with f show "names R oid ev \<longleftrightarrow> R (obj_relation ob)" by simp
qed

lemma settlement_not_retraction:
  assumes "lawful P ev" "ob \<in> set (ev_objects ev)" "obj_relation ob \<noteq> Relation.RETRACTS"
  shows "\<not> is_retraction ev"
  using admissible_retraction(4) [of "props_of ev"] assms
  by (auto simp: lawful_def is_retraction_def props_of_def)

lemma settlement_conserves:
  assumes inv: "each_after (recorded_after P) st" and ev: "recorded_after P st ev"
    and one: "filter (\<lambda>ob. obj_id ob = oid) (ev_objects ev) = [ob]"
    and settles: "obj_relation ob = Relation.SETTLES"
    and T: "T = foldObjectTotals (findByObjectId st oid) oid"
    and T': "T' = foldObjectTotals (findByObjectId (st @ [ev]) oid) oid"
    and base: "originatedUnits T \<noteq> 0" "\<not> ot_hasReversal T"
  shows "originatedUnits T' = originatedUnits T"
    and "closedUnits T' = closedUnits T + units (ev_amount ev)"
    and "closedUnits T' \<le> originatedUnits T'"
proof -
  have ob: "ob \<in> set (ev_objects ev)" "obj_id ob = oid"
    using arg_cong [OF one, of set] by auto
  then have m: "mentions oid ev" by (auto simp: mentions_def list_ex_Bex)
  have "lawful P ev" using ev by (simp add: recorded_after_def)
  then have "\<not> is_retraction ev" by (rule settlement_not_retraction [OF _ ob(1)]) (simp add: settles)
  note after = position_after [OF inv ev m this]
  show o: "originatedUnits T' = originatedUnits T"
    and c: "closedUnits T' = closedUnits T + units (ev_amount ev)"
    unfolding T' after T using settles by (simp_all add: single_relation_units [OF one] Let_def)
  have "settles_within st (ev_amount ev) ob"
    using ev ob settles by (auto simp: recorded_after_def settlement_ok_def)
  with base ob(2) have "closedUnits T + units (ev_amount ev) \<le> originatedUnits T"
    by (auto simp: settles_within_def T Let_def)
  with o c show "closedUnits T' \<le> originatedUnits T'" by simp
qed

section \<open>Idempotency\<close>

lemma repeat_command:
  assumes inv: "each_after (recorded_after P) st" and ex: "execute P env st cmd = Inr (ev, st', au)"
    and c: "truthy (cmd_commandId cmd)" "cmd_commandId cmd' = cmd_commandId cmd"
  shows "execute P env' st' cmd' = Inr (ev, st', [])"
proof -
  have inv': "each_after (recorded_after P) st'" and mem: "ev \<in> set st'"
    using execute_step [OF inv ex] inv by auto
  have cid: "ev_commandId ev = cmd_commandId cmd"
    using ex by (auto simp: execute_Inr dest: known_commandD elim: build_event_of_Inr)
  obtain e where e: "known_command st' cmd' = Some e"
    using mem cid c known_command_None [of st' cmd'] by (cases "known_command st' cmd'") auto
  from known_commandD [OF e] unique_commands [OF inv', of e ev] mem cid c have "e = ev" by simp
  with e show ?thesis by (simp add: execute_def)
qed

end
