(* ===== verification/Sample_Book.thy ===== *)
theory Sample_Book
  imports Ledger_Invariant
begin

text \<open>
  A small book used to exercise the theorems at concrete inputs: an obligation of 1000.00 is
  recognized, 400.00 of it are paid, and the payment is then retracted. The platform digests a text
  by itself and writes an instant as its number of milliseconds.
\<close>

definition sample_platform :: platform where
  "sample_platform =
     \<lparr>sha256_hex = (\<lambda>s. s), iso_string = bigint_string, date_parse = (\<lambda>_. None),
      locale_compare = (\<lambda>a b. if a < b then - 1 else if b < a then 1 else 0)\<rparr>"

definition sample_command ::
  "EventType \<Rightarrow> EconomicEffect \<Rightarrow> string \<Rightarrow> string \<Rightarrow> string option \<Rightarrow> PartyInput list
     \<Rightarrow> (string \<times> Relation) list \<Rightarrow> ReasonType \<Rightarrow> CreateLedgerEventCommand" where
  "sample_command ty ef amount key related parties objs rs =
     \<lparr>cmd_eventType = ty, cmd_economicEffect = ef, cmd_occurredAt = Some 1000, cmd_sourceAt = None,
      cmd_dueAt = None, cmd_amount = amount, cmd_currency = ''BRL'', cmd_description = None,
      cmd_sourceSystem = ''erp'', cmd_sourceReference = key, cmd_normalizationVersion = ''1'',
      cmd_normalizationWorkerId = ''w'', cmd_commandId = Some key, cmd_relatedEventId = related,
      cmd_parties = parties,
      cmd_objects = map (\<lambda>(i, r). \<lparr>obj_id = i, obj_type = ObjectType.PAYABLE, obj_relation = r\<rparr>) objs,
      cmd_reason = Some \<lparr>rsn_type = rs, rsn_description = ''d'', rsn_confidence = ConfidenceLevel.HIGH,
        rsn_requiresFollowup = False\<rparr>,
      cmd_reporter = \<lparr>ri_reporterType = ReporterType.SYSTEM, ri_reporterId = ''sys'',
        ri_reporterName = None, ri_channel = ''api''\<rparr>\<rparr>"

definition supplier :: PartyInput where
  "supplier = \<lparr>pi_partyId = ''supplier'', pi_role = PartyRole.PAYEE, pi_direction = Direction.NEUTRAL,
     pi_amount = None\<rparr>"

definition payer :: "string \<Rightarrow> PartyInput" where
  "payer amount = \<lparr>pi_partyId = ''usina'', pi_role = PartyRole.PAYER, pi_direction = Direction.OUT,
     pi_amount = Some amount\<rparr>"

definition recognize_cmd :: CreateLedgerEventCommand where
  "recognize_cmd = sample_command EventType.OBLIGATION_RECOGNIZED EconomicEffect.NON_CASH ''1000.00''
     ''k1'' None [supplier] [(''ob-1'', Relation.ORIGINATES)] ReasonType.OBLIGATION_RECOGNITION"

definition pay_cmd :: "string \<Rightarrow> string \<Rightarrow> (string \<times> Relation) list \<Rightarrow> CreateLedgerEventCommand" where
  "pay_cmd amount key objs = sample_command EventType.OUTBOUND_PAYMENT EconomicEffect.CASH_OUT amount
     key None [payer amount, supplier] objs ReasonType.ORDINARY_SETTLEMENT"

definition retract_cmd :: "string \<Rightarrow> string \<Rightarrow> CreateLedgerEventCommand" where
  "retract_cmd key target = sample_command EventType.LEDGER_CORRECTION EconomicEffect.NON_CASH ''400.00''
     key (Some target) [supplier] [(''ob-1'', Relation.RETRACTS)] ReasonType.MANUAL_CORRECTION"

definition sample_env :: "string \<Rightarrow> call_env" where
  "sample_env i = \<lparr>env_uuid = i, env_reportedAt = 2000, env_recordedAt = 2000\<rparr>"

section \<open>The events recorded\<close>

definition sample_props ::
  "call_env \<Rightarrow> CreateLedgerEventCommand \<Rightarrow> int \<Rightarrow> string option \<Rightarrow> LedgerEventParty list \<Rightarrow> CreateLedgerEventProps" where
  "sample_props env cmd u prev parties =
     make_props env cmd (env_uuid env) \<lparr>units = u, currency = ''BRL''\<rparr>
       \<lparr>src_system = cmd_sourceSystem cmd, src_reference = cmd_sourceReference cmd\<rparr>
       \<lparr>norm_version = cmd_normalizationVersion cmd, norm_workerId = cmd_normalizationWorkerId cmd\<rparr>
       prev parties"

definition supplier_party :: LedgerEventParty where
  "supplier_party = \<lparr>party_id = ''supplier'', party_role = PartyRole.PAYEE,
     party_direction = Direction.NEUTRAL, party_amount = None\<rparr>"

definition payer_party :: "int \<Rightarrow> LedgerEventParty" where
  "payer_party u = \<lparr>party_id = ''usina'', party_role = PartyRole.PAYER,
     party_direction = Direction.OUT, party_amount = Some \<lparr>units = u, currency = ''BRL''\<rparr>\<rparr>"

definition recognized :: LedgerEvent where
  "recognized = event_of sample_platform 2000
     (sample_props (sample_env ''e1'') recognize_cmd 100000 None [supplier_party])"

definition paid :: LedgerEvent where
  "paid = event_of sample_platform 2000
     (sample_props (sample_env ''e2'') (pay_cmd ''400.00'' ''k2'' [(''ob-1'', Relation.SETTLES)]) 40000
       (Some (ev_hash recognized)) [payer_party 40000, supplier_party])"

definition retracted_payment :: LedgerEvent where
  "retracted_payment = event_of sample_platform 2000
     (sample_props (sample_env ''e3'') (retract_cmd ''k3'' ''e2'') 40000
       (Some (ev_hash paid)) [supplier_party])"

lemmas sample_cmd_defs = sample_command_def recognize_cmd_def pay_cmd_def retract_cmd_def
  sample_env_def supplier_def payer_def

lemmas sample_party_defs = supplier_party_def payer_party_def

lemma sample_amounts:
  "fromDecimal ''1000.00'' ''BRL'' = Inr \<lparr>units = 100000, currency = ''BRL''\<rparr>"
  "fromDecimal ''400.00'' ''BRL'' = Inr \<lparr>units = 40000, currency = ''BRL''\<rparr>"
  "fromDecimal ''700.00'' ''BRL'' = Inr \<lparr>units = 70000, currency = ''BRL''\<rparr>"
  by code_simp+

lemma event_of_fields [simp]:
  "ev_id (event_of P now p) = pr_id p"
  "ev_eventType (event_of P now p) = pr_eventType p"
  "ev_economicEffect (event_of P now p) = pr_economicEffect p"
  "ev_amount (event_of P now p) = pr_amount p"
  "ev_source (event_of P now p) = pr_source p"
  "ev_commandId (event_of P now p) = pr_commandId p"
  "ev_relatedEventId (event_of P now p) = pr_relatedEventId p"
  "ev_parties (event_of P now p) = pr_parties p"
  "ev_objects (event_of P now p) = pr_objects p"
  "ev_reason (event_of P now p) = pr_reason p"
  "ev_recordedAt (event_of P now p) = now"
  "ev_occurredAt (event_of P now p) = the (pr_occurredAt p)"
  "ev_dueAt (event_of P now p) = map_option the (pr_dueAt p)"
  by (simp_all add: event_of_def)

lemma sample_fields:
  "ev_id recognized = ''e1''" "ev_id paid = ''e2''" "ev_id retracted_payment = ''e3''"
  "src_reference (ev_source recognized) = ''k1''" "src_reference (ev_source paid) = ''k2''"
  "src_reference (ev_source retracted_payment) = ''k3''"
  "ev_commandId recognized = Some ''k1''" "ev_commandId paid = Some ''k2''"
  "ev_commandId retracted_payment = Some ''k3''"
  "ev_relatedEventId recognized = None" "ev_relatedEventId paid = None"
  "ev_relatedEventId retracted_payment = Some ''e2''"
  "ev_objects recognized = [\<lparr>obj_id = ''ob-1'', obj_type = ObjectType.PAYABLE, obj_relation = Relation.ORIGINATES\<rparr>]"
  "ev_objects paid = [\<lparr>obj_id = ''ob-1'', obj_type = ObjectType.PAYABLE, obj_relation = Relation.SETTLES\<rparr>]"
  "ev_objects retracted_payment =
     [\<lparr>obj_id = ''ob-1'', obj_type = ObjectType.PAYABLE, obj_relation = Relation.RETRACTS\<rparr>]"
  "ev_amount recognized = \<lparr>units = 100000, currency = ''BRL''\<rparr>"
  "ev_amount paid = \<lparr>units = 40000, currency = ''BRL''\<rparr>"
  "ev_amount retracted_payment = \<lparr>units = 40000, currency = ''BRL''\<rparr>"
  "ev_eventType recognized = EventType.OBLIGATION_RECOGNIZED" "ev_eventType paid = EventType.OUTBOUND_PAYMENT"
  "ev_eventType retracted_payment = EventType.LEDGER_CORRECTION"
  "ev_economicEffect recognized = EconomicEffect.NON_CASH" "ev_economicEffect paid = EconomicEffect.CASH_OUT"
  "ev_economicEffect retracted_payment = EconomicEffect.NON_CASH"
  by (simp_all add: recognized_def paid_def retracted_payment_def sample_props_def make_props_def
      sample_cmd_defs)

section \<open>The book is reachable\<close>

abbreviation recognize_props :: "string option \<Rightarrow> CreateLedgerEventProps" where
  "recognize_props prev \<equiv> sample_props (sample_env ''e1'') recognize_cmd 100000 prev [supplier_party]"

abbreviation pay_props :: "string option \<Rightarrow> CreateLedgerEventProps" where
  "pay_props prev \<equiv> sample_props (sample_env ''e2'')
     (pay_cmd ''400.00'' ''k2'' [(''ob-1'', Relation.SETTLES)]) 40000 prev [payer_party 40000, supplier_party]"

abbreviation retract_props :: "string option \<Rightarrow> CreateLedgerEventProps" where
  "retract_props prev \<equiv> sample_props (sample_env ''e3'') (retract_cmd ''k3'' ''e2'') 40000 prev [supplier_party]"

lemma sample_validateSemantic:
  "validateSemantic (recognize_props prev) = None"
  "validateSemantic (pay_props prev) = None"
  "validateSemantic (retract_props (Some h)) = None"
  by code_simp+

lemma sample_flows:
  "basic_ok (recognize_props prev)" "basic_ok (pay_props prev)" "basic_ok (retract_props prev)"
  "flows_ok (recognize_props prev)" "flows_ok (pay_props prev)" "flows_ok (retract_props prev)"
  "dates_ok (recognize_props prev)" "dates_ok (pay_props prev)" "dates_ok (retract_props prev)"
  by code_simp+

lemma sample_parties:
  "emap (make_party ''BRL'') [supplier] = Inr [supplier_party]"
  "emap (make_party ''BRL'') [payer ''400.00'', supplier] = Inr [payer_party 40000, supplier_party]"
  by code_simp+

lemmas fold_defs = foldObjectTotals_def findByObjectId_def mentions_def add_event_def add_object_def
  retractedEventIds_def retractionByTarget_def note_retraction_def is_retraction_def has_relation_def
  toUnits_def

lemma sample_totals:
  "foldObjectTotals (findByObjectId [recognized] ''ob-1'') ''ob-1'' =
     \<lparr>originatedUnits = 100000, closedUnits = 0, ot_hasReversal = False\<rparr>"
  "foldObjectTotals (findByObjectId [recognized, paid] ''ob-1'') ''ob-1'' =
     \<lparr>originatedUnits = 100000, closedUnits = 40000, ot_hasReversal = False\<rparr>"
  "foldObjectTotals (findByObjectId [recognized, paid, retracted_payment] ''ob-1'') ''ob-1'' =
     \<lparr>originatedUnits = 100000, closedUnits = 0, ot_hasReversal = False\<rparr>"
  by (simp_all add: fold_defs sample_fields)

lemma sample_cmd_fields:
  "cmd_commandId recognize_cmd = Some ''k1''" "cmd_commandId (pay_cmd a k objs) = Some k"
  "cmd_commandId (retract_cmd k t) = Some k"
  "cmd_relatedEventId recognize_cmd = None" "cmd_relatedEventId (pay_cmd a k objs) = None"
  "cmd_relatedEventId (retract_cmd k t) = Some t"
  "cmd_sourceReference recognize_cmd = ''k1''" "cmd_sourceReference (pay_cmd a k objs) = k"
  "cmd_sourceReference (retract_cmd k t) = k"
  "cmd_objects recognize_cmd = [\<lparr>obj_id = ''ob-1'', obj_type = ObjectType.PAYABLE, obj_relation = Relation.ORIGINATES\<rparr>]"
  "cmd_objects (pay_cmd a k [(''ob-1'', Relation.SETTLES)]) =
     [\<lparr>obj_id = ''ob-1'', obj_type = ObjectType.PAYABLE, obj_relation = Relation.SETTLES\<rparr>]"
  "cmd_objects (retract_cmd k t) =
     [\<lparr>obj_id = ''ob-1'', obj_type = ObjectType.PAYABLE, obj_relation = Relation.RETRACTS\<rparr>]"
  "cmd_eventType (retract_cmd k t) = EventType.LEDGER_CORRECTION"
  "cmd_amount recognize_cmd = ''1000.00''" "cmd_amount (pay_cmd a k objs) = a"
  "cmd_amount (retract_cmd k t) = ''400.00''"
  "cmd_currency recognize_cmd = ''BRL''" "cmd_currency (pay_cmd a k objs) = ''BRL''"
  "cmd_currency (retract_cmd k t) = ''BRL''"
  "cmd_parties recognize_cmd = [supplier]" "cmd_parties (pay_cmd a k objs) = [payer a, supplier]"
  "cmd_parties (retract_cmd k t) = [supplier]"
  "texts_given (sample_env ''e1'') recognize_cmd"
  "texts_given (sample_env ''e2'') (pay_cmd ''400.00'' ''k2'' [(''ob-1'', Relation.SETTLES)])"
  "texts_given (sample_env ''e3'') (retract_cmd ''k3'' ''e2'')"
  by (simp_all add: sample_cmd_defs texts_given_def)

lemma sample_env_fields: "env_uuid (sample_env i) = i" "env_recordedAt (sample_env i) = 2000"
  by (simp_all add: sample_env_def)

lemma sample_command_props:
  "command_props (sample_env ''e1'') st recognize_cmd = Some (recognize_props (getLastEventHash st))"
  "command_props (sample_env ''e2'') st (pay_cmd ''400.00'' ''k2'' [(''ob-1'', Relation.SETTLES)]) =
     Some (pay_props (getLastEventHash st))"
  "command_props (sample_env ''e3'') st (retract_cmd ''k3'' ''e2'') = Some (retract_props (getLastEventHash st))"
  by (simp_all add: command_props_def sample_amounts sample_parties sample_cmd_fields sample_env_fields
      sample_props_def del: emap.simps)

lemma sample_prop_amounts:
  "pr_amount (sample_props env cmd u prev parties) = \<lparr>units = u, currency = ''BRL''\<rparr>"
  by (simp add: sample_props_def make_props_def)

lemma sample_admissible:
  "admissible (recognize_props prev)" "admissible (pay_props prev)" "admissible (retract_props (Some h))"
  using sample_validateSemantic by (simp_all add: validateSemantic_iff)

lemma sample_accepts:
  "accepts (sample_env ''e1'') [] recognize_cmd (recognize_props None)"
  "accepts (sample_env ''e2'') [recognized] (pay_cmd ''400.00'' ''k2'' [(''ob-1'', Relation.SETTLES)])
     (pay_props (Some (ev_hash recognized)))"
  "accepts (sample_env ''e3'') [recognized, paid] (retract_cmd ''k3'' ''e2'')
     (retract_props (Some (ev_hash paid)))"
  by (simp_all add: accepts_def sample_command_props getLastEventHash_def sample_cmd_fields
      sample_env_fields sample_fields guards_pass_def find_origin_def retraction_rules_def
      sample_prop_amounts settles_within_def sample_totals sample_flows sample_admissible
      getById_def findByRelatedEventId_def algebra_simps_tables is_retraction_def has_relation_def)

lemma sample_executions:
  "execute sample_platform (sample_env ''e1'') [] recognize_cmd =
     Inr (recognized, [recognized], [audit_created sample_platform recognize_cmd recognized])"
  "execute sample_platform (sample_env ''e2'') [recognized]
     (pay_cmd ''400.00'' ''k2'' [(''ob-1'', Relation.SETTLES)]) =
     Inr (paid, [recognized, paid],
       [audit_created sample_platform (pay_cmd ''400.00'' ''k2'' [(''ob-1'', Relation.SETTLES)]) paid])"
  "execute sample_platform (sample_env ''e3'') [recognized, paid] (retract_cmd ''k3'' ''e2'') =
     Inr (retracted_payment, [recognized, paid, retracted_payment],
       [audit_created sample_platform (retract_cmd ''k3'' ''e2'') retracted_payment])"
proof -
  show "execute sample_platform (sample_env ''e1'') [] recognize_cmd =
     Inr (recognized, [recognized], [audit_created sample_platform recognize_cmd recognized])"
    using execute_recordsI [OF _ sample_accepts(1) recognized_def [folded sample_env_fields(2) [of "''e1''"]]]
    by (simp add: known_command_None)
  show "execute sample_platform (sample_env ''e2'') [recognized]
     (pay_cmd ''400.00'' ''k2'' [(''ob-1'', Relation.SETTLES)]) =
     Inr (paid, [recognized, paid],
       [audit_created sample_platform (pay_cmd ''400.00'' ''k2'' [(''ob-1'', Relation.SETTLES)]) paid])"
    using execute_recordsI [OF _ sample_accepts(2) paid_def [folded sample_env_fields(2) [of "''e2''"]]]
    by (simp add: known_command_None sample_cmd_fields sample_fields)
  show "execute sample_platform (sample_env ''e3'') [recognized, paid] (retract_cmd ''k3'' ''e2'') =
     Inr (retracted_payment, [recognized, paid, retracted_payment],
       [audit_created sample_platform (retract_cmd ''k3'' ''e2'') retracted_payment])"
    using execute_recordsI [OF _ sample_accepts(3)
        retracted_payment_def [folded sample_env_fields(2) [of "''e3''"]]]
    by (simp add: known_command_None sample_cmd_fields sample_fields)
qed

lemma sample_reachable:
  "reachable sample_platform [recognized]"
  "reachable sample_platform [recognized, paid]"
  "reachable sample_platform [recognized, paid, retracted_payment]"
proof -
  show r1: "reachable sample_platform [recognized]"
    by (rule reachable.record_event [OF reachable.empty sample_executions(1)])
  show r2: "reachable sample_platform [recognized, paid]"
    by (rule reachable.record_event [OF r1 sample_executions(2)])
  show "reachable sample_platform [recognized, paid, retracted_payment]"
    by (rule reachable.record_event [OF r2 sample_executions(3)])
qed

section \<open>The sample platform is faithful\<close>

lemma nat_string_first: "hd (nat_string n) \<noteq> CHR ''-''"
proof -
  have "is_digit (hd (nat_string n))"
    using nat_string_digits [of n] nat_string_nonempty [of n] by (cases "nat_string n") auto
  then show ?thesis by (auto simp: is_digit_of_char)
qed

lemma bigint_string_inject: "bigint_string a = bigint_string b \<longleftrightarrow> a = b"
proof
  assume eq: "bigint_string a = bigint_string b"
  show "a = b"
  proof (cases "a < 0"; cases "b < 0")
    assume "a < 0" "\<not> b < 0"
    with eq have "CHR ''-'' # nat_string (nat (- a)) = nat_string (nat b)" by (simp add: bigint_string_def)
    then have "hd (nat_string (nat b)) = CHR ''-''" by (metis list.sel(1))
    with nat_string_first show ?thesis by blast
  next
    assume "\<not> a < 0" "b < 0"
    with eq have "nat_string (nat a) = CHR ''-'' # nat_string (nat (- b))" by (simp add: bigint_string_def)
    then have "hd (nat_string (nat a)) = CHR ''-''" by (metis list.sel(1))
    with nat_string_first show ?thesis by blast
  qed (use eq in \<open>simp_all add: bigint_string_def\<close>)
qed simp

lemma sample_platform_faithful: "faithful_platform sample_platform"
  by (auto simp: faithful_platform_def sample_platform_def bigint_string_inject intro: injI)

end
