(* ===== verification/Projection.thy ===== *)
theory Projection
  imports Ledger_Aggregates
begin

text \<open>
  \<open>PositionProjectionService.ts\<close>: the summary of one object from its events, the list item from its
  aggregate, and the derivations (open balance, over-settlement, status, outcome) they share. Sums
  are \<open>Money\<close> additions, which refuse a second currency, so both can fail. The theory shows that the
  two read paths agree: the loop of the projection simulates the loop of the aggregate.
\<close>

section \<open>Derivations\<close>

definition deriveOpenBalance :: "Money \<Rightarrow> Money \<Rightarrow> bool \<Rightarrow> string \<Rightarrow> ledger_error + Money option" where
  "deriveOpenBalance originated totalClosed originUnknown c =
     (if originUnknown then Inr None
      else ebind (if toUnits totalClosed \<ge> toUnits originated then money_zero c
                  else money_subtract originated totalClosed) (\<lambda>m. Inr (Some m)))"

definition deriveOverSettlement :: "Money \<Rightarrow> Money \<Rightarrow> bool \<Rightarrow> string \<Rightarrow> ledger_error + Money option" where
  "deriveOverSettlement originated totalClosed originUnknown c =
     (if originUnknown then Inr None
      else ebind (if isZero originated \<or> toUnits totalClosed \<le> toUnits originated then money_zero c
                  else money_subtract totalClosed originated) (\<lambda>m. Inr (Some m)))"

definition deriveStatus :: "Money \<Rightarrow> Money \<Rightarrow> bool \<Rightarrow> bool \<Rightarrow> PositionStatus" where
  "deriveStatus originated totalClosed hasReversal originUnknown =
     (if hasReversal then reversed
      else if originUnknown then unknown_origin
      else if isZero originated then open_position
      else if toUnits totalClosed \<ge> toUnits originated then fully_settled
      else if \<not> isZero totalClosed then partially_settled
      else open_position)"

definition deriveOutcome :: "PositionStatus \<Rightarrow> Money \<Rightarrow> Money \<Rightarrow> EconomicOutcome" where
  "deriveOutcome s cashRecovered nonCashClosed =
     (if s = reversed then cancelled
      else if s = unknown_origin then pending
      else if s = open_position \<or> s = partially_settled then pending
      else if isZero nonCashClosed then gain
      else if isZero cashRecovered then full_loss
      else partial_loss)"

definition allocation_gap :: "Money \<Rightarrow> Money \<Rightarrow> string \<Rightarrow> ledger_error + Money" where
  "allocation_gap refCashIn refCashOut c =
     (if toUnits refCashIn \<le> toUnits refCashOut then money_zero c else money_subtract refCashIn refCashOut)"

text \<open>The figures of a position that both read paths publish.\<close>

record PositionFigures =
  pf_status :: PositionStatus
  pf_outcome :: EconomicOutcome
  pf_totalOriginated :: Money
  pf_totalSettled :: Money
  pf_totalAdjusted :: Money
  pf_openBalance :: "Money option"
  pf_overSettlement :: "Money option"
  pf_cashRecovered :: Money
  pf_nonCashClosed :: Money
  pf_allocationGap :: Money

section \<open>The list item of an aggregate\<close>

record PositionListItem =
  li_objectId :: string
  li_objectType :: ObjectType
  li_figures :: PositionFigures
  li_eventCount :: int
  li_lastEventAt :: instant
  li_originatedAt :: "instant option"
  li_createdAt :: instant
  li_dueAt :: "instant option"
  li_parties :: "string list option"

definition aggregateToListItem :: "PositionAggregate \<Rightarrow> ledger_error + PositionListItem" where
  "aggregateToListItem agg =
     (let c = pa_currency agg in
      ebind (fromUnits (pa_totalOriginatedUnits agg) c) (\<lambda>totalOriginated.
      ebind (fromUnits (pa_totalSettledUnits agg) c) (\<lambda>totalSettled.
      ebind (fromUnits (pa_totalAdjustedUnits agg) c) (\<lambda>totalAdjusted.
      ebind (fromUnits (pa_cashRecoveredUnits agg) c) (\<lambda>cashRecovered.
      ebind (fromUnits (pa_nonCashClosedUnits agg) c) (\<lambda>nonCashClosed.
      ebind (fromUnits (pa_refCashInUnits agg) c) (\<lambda>refCashIn.
      ebind (fromUnits (pa_refCashOutUnits agg) c) (\<lambda>refCashOut.
      ebind (money_add totalSettled totalAdjusted) (\<lambda>totalClosed.
      let originUnknown = hasUnknownOrigination agg in
      ebind (deriveOpenBalance totalOriginated totalClosed originUnknown c) (\<lambda>openBalance.
      ebind (deriveOverSettlement totalOriginated totalClosed originUnknown c) (\<lambda>overSettlement.
      ebind (allocation_gap refCashIn refCashOut c) (\<lambda>gap.
      let s = deriveStatus totalOriginated totalClosed (pa_hasReversal agg) originUnknown in
      Inr \<lparr>li_objectId = pa_objectId agg, li_objectType = pa_objectType agg,
           li_figures = \<lparr>pf_status = s, pf_outcome = deriveOutcome s cashRecovered nonCashClosed,
             pf_totalOriginated = totalOriginated, pf_totalSettled = totalSettled,
             pf_totalAdjusted = totalAdjusted, pf_openBalance = openBalance,
             pf_overSettlement = overSettlement, pf_cashRecovered = cashRecovered,
             pf_nonCashClosed = nonCashClosed, pf_allocationGap = gap\<rparr>,
           li_eventCount = pa_eventCount agg, li_lastEventAt = pa_lastEventAt agg,
           li_originatedAt = pa_originatedAt agg, li_createdAt = pa_createdAt agg,
           li_dueAt = pa_dueAt agg, li_parties = pa_parties agg\<rparr>))))))))))))"

definition summarizePaginated ::
  "platform \<Rightarrow> store \<Rightarrow> PositionAggregateOptions \<Rightarrow> ledger_error + PositionListItem Page" where
  "summarizePaginated P st opts =
     (let page = findPositionAggregates P st opts
      in ebind (emap aggregateToListItem (pg_data page)) (\<lambda>items.
         Inr \<lparr>pg_data = items, pg_total = pg_total page, pg_page = pg_page page,
              pg_limit = pg_limit page, pg_totalPages = pg_totalPages page\<rparr>))"

section \<open>The projection of the events of an object\<close>

record ProjTotals =
  pt_originated :: Money
  pt_settled :: Money
  pt_adjusted :: Money
  pt_cashRecovered :: Money
  pt_nonCashClosed :: Money
  pt_refCashIn :: Money
  pt_refCashOut :: Money
  pt_hasReversal :: bool
  pt_hasUnresolvedLineage :: bool

fun efold :: "('a \<Rightarrow> 's \<Rightarrow> 'e + 's) \<Rightarrow> 'a list \<Rightarrow> 's \<Rightarrow> 'e + 's" where
  "efold f [] s = Inr s"
| "efold f (x # xs) s = ebind (f x s) (efold f xs)"

fun project_relation :: "Relation \<Rightarrow> LedgerEvent \<Rightarrow> ProjTotals \<Rightarrow> ledger_error + ProjTotals" where
  "project_relation Relation.ORIGINATES ev T =
     ebind (money_add (pt_originated T) (ev_amount ev)) (\<lambda>m. Inr (T\<lparr>pt_originated := m\<rparr>))"
| "project_relation Relation.SETTLES ev T =
     ebind (money_add (pt_settled T) (ev_amount ev)) (\<lambda>m.
       let T1 = T\<lparr>pt_settled := m\<rparr>
       in if ev_economicEffect ev = EconomicEffect.CASH_IN
          then ebind (money_add (pt_cashRecovered T1) (ev_amount ev)) (\<lambda>c. Inr (T1\<lparr>pt_cashRecovered := c\<rparr>))
          else if ev_economicEffect ev = EconomicEffect.NON_CASH
          then ebind (money_add (pt_nonCashClosed T1) (ev_amount ev)) (\<lambda>c. Inr (T1\<lparr>pt_nonCashClosed := c\<rparr>))
          else Inr T1)"
| "project_relation Relation.ADJUSTS ev T =
     ebind (money_add (pt_adjusted T) (ev_amount ev)) (\<lambda>m. Inr (T\<lparr>pt_adjusted := m\<rparr>))"
| "project_relation Relation.REVERSES ev T = Inr (T\<lparr>pt_hasReversal := True\<rparr>)"
| "project_relation Relation.REFERENCES ev T =
     (if ev_economicEffect ev = EconomicEffect.CASH_IN
      then ebind (money_add (pt_refCashIn T) (ev_amount ev)) (\<lambda>m. Inr (T\<lparr>pt_refCashIn := m\<rparr>))
      else if ev_economicEffect ev = EconomicEffect.CASH_OUT
      then ebind (money_add (pt_refCashOut T) (ev_amount ev)) (\<lambda>m. Inr (T\<lparr>pt_refCashOut := m\<rparr>))
      else Inr T)"
| "project_relation _ ev T = Inr T"

definition project_event ::
  "string list \<Rightarrow> string \<Rightarrow> LedgerEvent \<Rightarrow> ProjTotals \<Rightarrow> ledger_error + ProjTotals" where
  "project_event retracted oid ev T =
     (if ev_id ev \<in> set retracted then Inr T
      else let T1 = (if unknown_origin_declared (ev_reason ev) then T\<lparr>pt_hasUnresolvedLineage := True\<rparr> else T)
           in efold (\<lambda>ob. project_relation (obj_relation ob) ev)
                (filter (\<lambda>ob. obj_id ob = oid) (ev_objects ev)) T1)"

record PositionOrigin =
  og_eventId :: string
  og_eventType :: EventType
  og_occurredAt :: instant
  og_source :: EventSource
  og_description :: "string option"
  og_reporterType :: ReporterType
  og_reporterId :: string
  og_reporterName :: "string option"
  og_reporterChannel :: string
  og_parties :: "(string \<times> PartyRole \<times> Direction \<times> string option) list"
  og_relatedObjects :: "LedgerEventObject list"

definition extractOrigin :: "string \<Rightarrow> LedgerEvent list \<Rightarrow> PositionOrigin option" where
  "extractOrigin oid evs =
     (case find (\<lambda>e. list_ex (\<lambda>ob. obj_id ob = oid \<and> obj_relation ob = Relation.ORIGINATES) (ev_objects e)) evs of
        None \<Rightarrow> None
      | Some ev \<Rightarrow>
          (let r = ev_reporter ev in Some
             \<lparr>og_eventId = ev_id ev, og_eventType = ev_eventType ev, og_occurredAt = ev_occurredAt ev,
              og_source = ev_source ev, og_description = ev_description ev,
              og_reporterType = rep_type r, og_reporterId = rep_id r, og_reporterName = rep_name r,
              og_reporterChannel = rep_channel r,
              og_parties = map (\<lambda>q. (party_id q, party_role q, party_direction q,
                 map_option money_toString (party_amount q))) (ev_parties ev),
              og_relatedObjects = filter (\<lambda>ob. obj_id ob \<noteq> oid) (ev_objects ev)\<rparr>))"

record PositionSummary =
  ps_objectId :: string
  ps_objectType :: ObjectType
  ps_figures :: PositionFigures
  ps_eventCount :: int
  ps_events :: "LedgerEvent list"
  ps_origin :: "PositionOrigin option"

text \<open>The types under which the events name the object, and the greatest of them.\<close>

definition named_types :: "string \<Rightarrow> LedgerEvent list \<Rightarrow> ObjectType list" where
  "named_types oid evs =
     map obj_type (filter (\<lambda>ob. obj_id ob = oid) (concat (map ev_objects evs)))"

definition greatest_type :: "ObjectType list \<Rightarrow> ObjectType" where
  "greatest_type ts = fold (\<lambda>t m. if t > m then t else m) (tl ts) (hd ts)"

definition project :: "string \<Rightarrow> LedgerEvent list \<Rightarrow> ledger_error + PositionSummary" where
  "project oid evs =
     (let c = currency (ev_amount (hd evs)) in
      ebind (money_zero c) (\<lambda>z.
      ebind (efold (project_event (retractedEventIds evs) oid) evs
         \<lparr>pt_originated = z, pt_settled = z, pt_adjusted = z, pt_cashRecovered = z, pt_nonCashClosed = z,
          pt_refCashIn = z, pt_refCashOut = z, pt_hasReversal = False, pt_hasUnresolvedLineage = False\<rparr>) (\<lambda>T.
      ebind (money_add (pt_settled T) (pt_adjusted T)) (\<lambda>totalClosed.
      let originUnknown = (pt_hasUnresolvedLineage T \<and> isZero (pt_originated T)) in
      ebind (deriveOpenBalance (pt_originated T) totalClosed originUnknown c) (\<lambda>openBalance.
      ebind (deriveOverSettlement (pt_originated T) totalClosed originUnknown c) (\<lambda>overSettlement.
      ebind (allocation_gap (pt_refCashIn T) (pt_refCashOut T) c) (\<lambda>gap.
      let s = deriveStatus (pt_originated T) totalClosed (pt_hasReversal T) originUnknown in
      Inr \<lparr>ps_objectId = oid, ps_objectType = greatest_type (named_types oid evs),
           ps_figures = \<lparr>pf_status = s, pf_outcome = deriveOutcome s (pt_cashRecovered T) (pt_nonCashClosed T),
             pf_totalOriginated = pt_originated T, pf_totalSettled = pt_settled T,
             pf_totalAdjusted = pt_adjusted T, pf_openBalance = openBalance,
             pf_overSettlement = overSettlement, pf_cashRecovered = pt_cashRecovered T,
             pf_nonCashClosed = pt_nonCashClosed T, pf_allocationGap = gap\<rparr>,
           ps_eventCount = int (length evs), ps_events = evs, ps_origin = extractOrigin oid evs\<rparr>)))))))"

definition summarize :: "store \<Rightarrow> string \<Rightarrow> ledger_error + PositionSummary option" where
  "summarize st oid =
     (let evs = findByObjectId st oid
      in if evs = [] then Inr None else ebind (project oid evs) (\<lambda>s. Inr (Some s)))"

text \<open>
  \<open>streamAll\<close> takes the identifiers in batches; the generator is run to its end, as \<open>summarizeAll\<close>
  does. A batch size below one would not advance, so the batches are those of a positive size.
\<close>

fun stream_batch :: "store \<Rightarrow> string list \<Rightarrow> ledger_error + PositionSummary list" where
  "stream_batch st [] = Inr []"
| "stream_batch st (oid # oids) =
     (let evs = findByObjectId st oid
      in if evs = [] then stream_batch st oids
         else ebind (project oid evs) (\<lambda>s. ebind (stream_batch st oids) (\<lambda>ss. Inr (s # ss))))"

function stream_from :: "store \<Rightarrow> nat \<Rightarrow> string list \<Rightarrow> nat \<Rightarrow> ledger_error + PositionSummary list" where
  "stream_from st batchSize allIds offset =
     (if offset < length allIds \<and> 0 < batchSize
      then ebind (stream_batch st (take batchSize (drop offset allIds))) (\<lambda>ss.
           ebind (stream_from st batchSize allIds (offset + batchSize)) (\<lambda>rest. Inr (ss @ rest)))
      else Inr [])"
  by pat_completeness auto
termination
  by (relation "measure (\<lambda>(st, b, ids, offset). length ids - offset)") auto

declare stream_from.simps [simp del]

definition summarizeAll :: "store \<Rightarrow> nat \<Rightarrow> ledger_error + PositionSummary list" where
  "summarizeAll st batchSize = stream_from st batchSize (findAllObjectIds st) 0"

section \<open>The list item never fails\<close>

text \<open>The amounts of an aggregate that comes from recorded events are valid.\<close>

definition valid_aggregate :: "PositionAggregate \<Rightarrow> bool" where
  "valid_aggregate agg \<longleftrightarrow>
     is_currency (pa_currency agg) \<and>
     (\<forall>u\<in>set [pa_totalOriginatedUnits agg, pa_totalSettledUnits agg, pa_totalAdjustedUnits agg,
       pa_cashRecoveredUnits agg, pa_nonCashClosedUnits agg, pa_refCashInUnits agg, pa_refCashOutUnits agg].
       0 \<le> u)"

abbreviation money_of :: "string \<Rightarrow> int \<Rightarrow> Money" where
  "money_of c u \<equiv> \<lparr>units = u, currency = c\<rparr>"

definition over_units :: "PositionAggregate \<Rightarrow> int option" where
  "over_units agg =
     (if hasUnknownOrigination agg then None
      else let closed = pa_totalSettledUnits agg + pa_totalAdjustedUnits agg
           in Some (if pa_totalOriginatedUnits agg = 0 \<or> closed \<le> pa_totalOriginatedUnits agg then 0
                    else closed - pa_totalOriginatedUnits agg))"

definition outcome_of :: "PositionAggregate \<Rightarrow> EconomicOutcome" where
  "outcome_of agg =
     (case derivePositionStatus agg of
        reversed \<Rightarrow> cancelled
      | fully_settled \<Rightarrow>
          (if pa_nonCashClosedUnits agg = 0 then gain
           else if pa_cashRecoveredUnits agg = 0 then full_loss else partial_loss)
      | _ \<Rightarrow> pending)"

definition figures_of :: "PositionAggregate \<Rightarrow> PositionFigures" where
  "figures_of agg =
     (let c = pa_currency agg in
      \<lparr>pf_status = derivePositionStatus agg, pf_outcome = outcome_of agg,
       pf_totalOriginated = money_of c (pa_totalOriginatedUnits agg),
       pf_totalSettled = money_of c (pa_totalSettledUnits agg),
       pf_totalAdjusted = money_of c (pa_totalAdjustedUnits agg),
       pf_openBalance = map_option (money_of c) (openBalanceUnitsOf agg),
       pf_overSettlement = map_option (money_of c) (over_units agg),
       pf_cashRecovered = money_of c (pa_cashRecoveredUnits agg),
       pf_nonCashClosed = money_of c (pa_nonCashClosedUnits agg),
       pf_allocationGap = money_of c (max 0 (pa_refCashInUnits agg - pa_refCashOutUnits agg))\<rparr>)"

lemma derived_open:
  "is_currency c \<Longrightarrow>
   deriveOpenBalance (money_of c a) (money_of c b) unk c =
     Inr (if unk then None else Some (money_of c (if b \<ge> a then 0 else a - b)))"
  by (auto simp: deriveOpenBalance_def toUnits_def money_zero_def new_Money_ok money_subtract_def
      assertSameCurrency_def throw_if_def)

lemma derived_over:
  "is_currency c \<Longrightarrow>
   deriveOverSettlement (money_of c a) (money_of c b) unk c =
     Inr (if unk then None else Some (money_of c (if a = 0 \<or> b \<le> a then 0 else b - a)))"
  by (auto simp: deriveOverSettlement_def toUnits_def isZero_def money_zero_def new_Money_ok
      money_subtract_def assertSameCurrency_def throw_if_def)

lemma derived_gap:
  "is_currency c \<Longrightarrow> allocation_gap (money_of c a) (money_of c b) c = Inr (money_of c (max 0 (a - b)))"
  by (auto simp: allocation_gap_def toUnits_def money_zero_def new_Money_ok money_subtract_def
      assertSameCurrency_def throw_if_def max_def)

lemma derived_status:
  "deriveStatus (money_of c (pa_totalOriginatedUnits agg))
     (money_of c (pa_totalSettledUnits agg + pa_totalAdjustedUnits agg))
     (pa_hasReversal agg) (hasUnknownOrigination agg) = derivePositionStatus agg"
  if "valid_aggregate agg"
  using that by (auto simp: deriveStatus_def derivePositionStatus_def isZero_def toUnits_def Let_def
      valid_aggregate_def)

lemma derived_outcome:
  "deriveOutcome (derivePositionStatus agg) (money_of c (pa_cashRecoveredUnits agg))
     (money_of c (pa_nonCashClosedUnits agg)) = outcome_of agg"
  by (cases "derivePositionStatus agg") (auto simp: deriveOutcome_def outcome_of_def isZero_def)

lemma open_units:
  "(if hasUnknownOrigination agg then None
    else Some (money_of c (if pa_totalSettledUnits agg + pa_totalAdjustedUnits agg \<ge> pa_totalOriginatedUnits agg
      then 0 else pa_totalOriginatedUnits agg - (pa_totalSettledUnits agg + pa_totalAdjustedUnits agg))))
   = map_option (money_of c) (openBalanceUnitsOf agg)"
  by (simp add: openBalanceUnitsOf_def Let_def)

lemma over_units_map:
  "(if hasUnknownOrigination agg then None
    else Some (money_of c (if pa_totalOriginatedUnits agg = 0 \<or>
        pa_totalSettledUnits agg + pa_totalAdjustedUnits agg \<le> pa_totalOriginatedUnits agg
      then 0 else pa_totalSettledUnits agg + pa_totalAdjustedUnits agg - pa_totalOriginatedUnits agg)))
   = map_option (money_of c) (over_units agg)"
  by (simp add: over_units_def Let_def)

lemma fromUnits_ok: "0 \<le> u \<Longrightarrow> is_currency c \<Longrightarrow> fromUnits u c = Inr (money_of c u)"
  by (simp add: fromUnits_def new_Money_ok)

lemma add_ok:
  "0 \<le> a \<Longrightarrow> 0 \<le> b \<Longrightarrow> is_currency c \<Longrightarrow> money_add (money_of c a) (money_of c b) = Inr (money_of c (a + b))"
  by (simp add: money_add_def assertSameCurrency_def throw_if_def new_Money_ok)

lemma list_item:
  assumes "valid_aggregate agg"
  shows "aggregateToListItem agg = Inr
    \<lparr>li_objectId = pa_objectId agg, li_objectType = pa_objectType agg, li_figures = figures_of agg,
     li_eventCount = pa_eventCount agg, li_lastEventAt = pa_lastEventAt agg,
     li_originatedAt = pa_originatedAt agg, li_createdAt = pa_createdAt agg,
     li_dueAt = pa_dueAt agg, li_parties = pa_parties agg\<rparr>"
proof -
  have c: "is_currency (pa_currency agg)" using assms by (simp add: valid_aggregate_def)
  have n: "0 \<le> pa_totalOriginatedUnits agg" "0 \<le> pa_totalSettledUnits agg" "0 \<le> pa_totalAdjustedUnits agg"
    "0 \<le> pa_cashRecoveredUnits agg" "0 \<le> pa_nonCashClosedUnits agg" "0 \<le> pa_refCashInUnits agg"
    "0 \<le> pa_refCashOutUnits agg"
    using assms by (simp_all add: valid_aggregate_def)
  show ?thesis
    unfolding aggregateToListItem_def Let_def fromUnits_ok [OF n(1) c] fromUnits_ok [OF n(2) c]
      fromUnits_ok [OF n(3) c] fromUnits_ok [OF n(4) c] fromUnits_ok [OF n(5) c] fromUnits_ok [OF n(6) c]
      fromUnits_ok [OF n(7) c] ebind_simps add_ok [OF n(2,3) c] derived_open [OF c] derived_over [OF c]
      derived_gap [OF c] derived_status [OF assms] derived_outcome open_units over_units_map
    by (simp add: figures_of_def Let_def)
qed

section \<open>The projection simulates the aggregate\<close>

text \<open>The part of an aggregate that the projection computes too.\<close>

definition amounts :: "PositionAggregate \<Rightarrow> string \<times> int list \<times> bool" where
  "amounts agg =
     (pa_currency agg,
      [pa_totalOriginatedUnits agg, pa_totalSettledUnits agg, pa_totalAdjustedUnits agg,
       pa_cashRecoveredUnits agg, pa_nonCashClosedUnits agg, pa_refCashInUnits agg, pa_refCashOutUnits agg],
      pa_hasReversal agg)"

definition proj_amounts :: "ProjTotals \<Rightarrow> Money list \<times> bool" where
  "proj_amounts T =
     ([pt_originated T, pt_settled T, pt_adjusted T, pt_cashRecovered T, pt_nonCashClosed T,
       pt_refCashIn T, pt_refCashOut T], pt_hasReversal T)"

definition tracks :: "string \<Rightarrow> ProjTotals \<Rightarrow> PositionAggregate \<Rightarrow> bool" where
  "tracks c T agg \<longleftrightarrow>
     (case amounts agg of (d, us, r) \<Rightarrow>
        d = c \<and> is_currency c \<and> (\<forall>u\<in>set us. 0 \<le> u) \<and> proj_amounts T = (map (money_of c) us, r))"

lemma tracks_valid: "tracks c T agg \<Longrightarrow> valid_aggregate agg \<and> pa_currency agg = c"
  by (simp add: tracks_def valid_aggregate_def amounts_def)

lemma tracks_cong: "amounts a = amounts b \<Longrightarrow> tracks c T a = tracks c T b"
  by (simp add: tracks_def)

lemma amounts_relation:
  "amounts a = amounts b \<Longrightarrow> amounts (track_relation r ev a) = amounts (track_relation r ev b)"
  by (cases r) (simp_all add: amounts_def Let_def split: option.splits)

lemma amounts_object: "amounts (track_object ev ob agg) = amounts (track_relation (obj_relation ob) ev agg)"
proof -
  let ?a1 = "if obj_type ob > pa_objectType agg then agg\<lparr>pa_objectType := obj_type ob\<rparr> else agg"
  let ?a2 = "if unknown_origin_declared (ev_reason ev) then ?a1\<lparr>pa_hasUnresolvedLineage := True\<rparr> else ?a1"
  have "amounts ?a2 = amounts agg" by (simp add: amounts_def)
  then have "amounts (track_relation (obj_relation ob) ev ?a2) = amounts (track_relation (obj_relation ob) ev agg)"
    by (rule amounts_relation)
  then show ?thesis by (simp add: track_object_def Let_def amounts_def)
qed

lemma tracks_relation:
  assumes t: "tracks c T agg" and u: "0 \<le> units (ev_amount ev)" and c: "currency (ev_amount ev) = c"
  shows "\<exists>T'. project_relation r ev T = Inr T' \<and> tracks c T' (track_relation r ev agg) \<and>
    pt_hasUnresolvedLineage T' = pt_hasUnresolvedLineage T"
proof -
  obtain u where a: "ev_amount ev = money_of c u" "0 \<le> u"
    using u c by (cases "ev_amount ev") auto
  show ?thesis
    using t a(2)
    by (cases r)
       (auto simp: tracks_def amounts_def proj_amounts_def add_ok a(1) Let_def toUnits_def split: option.splits)
qed

lemma tracks_objects:
  assumes "tracks c T agg" "0 \<le> units (ev_amount ev)" "currency (ev_amount ev) = c"
  shows "\<exists>T'. efold (\<lambda>ob. project_relation (obj_relation ob) ev) obs T = Inr T' \<and>
    tracks c T' (fold (track_object ev) obs agg) \<and> pt_hasUnresolvedLineage T' = pt_hasUnresolvedLineage T"
  using assms(1)
proof (induction obs arbitrary: T agg)
  case Nil
  then show ?case by simp
next
  case (Cons ob obs)
  from tracks_relation [OF Cons.prems assms(2,3)] obtain T1 where
    T1: "project_relation (obj_relation ob) ev T = Inr T1" "tracks c T1 (track_relation (obj_relation ob) ev agg)"
      "pt_hasUnresolvedLineage T1 = pt_hasUnresolvedLineage T"
    by blast
  then have "tracks c T1 (track_object ev ob agg)" using tracks_cong [OF amounts_object] by blast
  from Cons.IH [OF this] T1 show ?case by auto
qed

definition walk_object :: "string \<Rightarrow> LedgerEvent list \<Rightarrow> PositionAggregate \<Rightarrow> PositionAggregate" where
  "walk_object oid evs agg = fold (\<lambda>(ev, ob). track_object ev ob) (mentions_of oid evs) agg"

lemma tracks_events:
  assumes "tracks c T agg" "\<forall>ev\<in>set evs. 0 \<le> units (ev_amount ev) \<and> currency (ev_amount ev) = c"
  shows "\<exists>T'. efold (project_event ret oid) evs T = Inr T' \<and>
    tracks c T' (walk_object oid (filter (\<lambda>ev. ev_id ev \<notin> set ret) evs) agg) \<and>
    (pt_hasUnresolvedLineage T' \<longleftrightarrow> pt_hasUnresolvedLineage T \<or>
       (\<exists>ev\<in>set evs. ev_id ev \<notin> set ret \<and> unknown_origin_declared (ev_reason ev)))"
  using assms
proof (induction evs arbitrary: T agg)
  case Nil
  then show ?case by (simp add: walk_object_def)
next
  case (Cons ev evs)
  show ?case
  proof (cases "ev_id ev \<in> set ret")
    case True
    with Cons.IH [OF Cons.prems(1)] Cons.prems(2) show ?thesis by (simp add: project_event_def)
  next
    case False
    let ?T1 = "if unknown_origin_declared (ev_reason ev) then T\<lparr>pt_hasUnresolvedLineage := True\<rparr> else T"
    let ?obs = "filter (\<lambda>ob. obj_id ob = oid) (ev_objects ev)"
    have "tracks c ?T1 agg" using Cons.prems(1) by (simp add: tracks_def proj_amounts_def)
    from tracks_objects [OF this, of ev ?obs] Cons.prems(2) obtain T2 where
      T2: "efold (\<lambda>ob. project_relation (obj_relation ob) ev) ?obs ?T1 = Inr T2"
        "tracks c T2 (fold (track_object ev) ?obs agg)"
        "pt_hasUnresolvedLineage T2 = pt_hasUnresolvedLineage ?T1"
      by auto
    have inner: "fold (\<lambda>(ev, ob). track_object ev ob) (filter (\<lambda>(ev, ob). obj_id ob = oid) (map (Pair ev) obs)) a
        = fold (track_object ev) (filter (\<lambda>ob. obj_id ob = oid) obs) a" for obs a
      by (induction obs arbitrary: a) simp_all
    have w: "walk_object oid (filter (\<lambda>ev. ev_id ev \<notin> set ret) (ev # evs)) agg =
        walk_object oid (filter (\<lambda>ev. ev_id ev \<notin> set ret) evs) (fold (track_object ev) ?obs agg)"
      using False by (simp add: walk_object_def mentions_of_Cons inner)
    have step: "project_event ret oid ev T = Inr T2"
      using False T2(1) by (simp add: project_event_def)
    have lin: "pt_hasUnresolvedLineage T2 \<longleftrightarrow> pt_hasUnresolvedLineage T \<or> unknown_origin_declared (ev_reason ev)"
      using T2(3) by simp
    from Cons.IH [OF T2(2)] Cons.prems(2) False lin show ?thesis
      unfolding w efold.simps step ebind_simps by auto
  qed
qed

section \<open>The two read paths agree\<close>

lemma aggregate_walk:
  assumes "aggregate_of oid evs = Some b"
  obtains ev ob where "mentions_of oid evs \<noteq> []" "(ev, ob) = hd (mentions_of oid evs)"
    "b = walk_object oid evs (new_aggregate ev ob)"
proof -
  have run: "fold step_option ms (Some a) = Some (fold (\<lambda>(ev, ob). track_object ev ob) ms a)" for ms a
    by (induction ms arbitrary: a) (auto simp: step_option_simps)
  from assms obtain ev ob ms where ms: "mentions_of oid evs = (ev, ob) # ms"
    by (cases "mentions_of oid evs") (auto simp: aggregate_of_def)
  with assms have "b = walk_object oid evs (new_aggregate ev ob)"
    by (simp add: aggregate_of_def walk_object_def step_option_simps run)
  with ms show ?thesis by (intro that [of ev ob]) simp_all
qed

lemma new_tracks:
  "is_currency (currency (ev_amount ev)) \<Longrightarrow> currency (ev_amount ev) = c \<Longrightarrow> z = money_of c 0 \<Longrightarrow>
   tracks c \<lparr>pt_originated = z, pt_settled = z, pt_adjusted = z, pt_cashRecovered = z, pt_nonCashClosed = z,
     pt_refCashIn = z, pt_refCashOut = z, pt_hasReversal = False, pt_hasUnresolvedLineage = False\<rparr>
     (new_aggregate ev ob)"
  by (simp add: tracks_def amounts_def proj_amounts_def new_aggregate_def)

lemma mentions_of_naming: "mentions_of oid (filter (mentions oid) evs) = mentions_of oid evs"
proof (induction evs)
  case Nil
  then show ?case by simp
next
  case (Cons ev evs)
  have "\<not> mentions oid ev \<Longrightarrow> filter (\<lambda>(ev, ob). obj_id ob = oid) (map (Pair ev) (ev_objects ev)) = []"
    by (auto simp: mentions_def list_ex_Bex filter_empty_conv)
  with Cons show ?case by (simp add: mentions_of_Cons)
qed

text \<open>What the projection of a tracked walk publishes.\<close>

lemma project_tracked:
  assumes T: "tracks c T agg" "pt_hasUnresolvedLineage T = pa_hasUnresolvedLineage agg"
    and run: "efold (project_event (retractedEventIds evs) oid) evs
       \<lparr>pt_originated = money_of c 0, pt_settled = money_of c 0, pt_adjusted = money_of c 0,
        pt_cashRecovered = money_of c 0, pt_nonCashClosed = money_of c 0, pt_refCashIn = money_of c 0,
        pt_refCashOut = money_of c 0, pt_hasReversal = False, pt_hasUnresolvedLineage = False\<rparr> = Inr T"
    and c: "currency (ev_amount (hd evs)) = c"
  shows "\<exists>S. project oid evs = Inr S \<and> ps_figures S = figures_of agg"
proof -
  have v: "valid_aggregate agg" and pc: "pa_currency agg = c" using tracks_valid [OF T(1)] by auto
  then have cur: "is_currency c" by (auto simp: valid_aggregate_def)
  have n: "0 \<le> pa_totalSettledUnits agg" "0 \<le> pa_totalAdjustedUnits agg"
    using v by (simp_all add: valid_aggregate_def)
  have f: "pt_originated T = money_of c (pa_totalOriginatedUnits agg)"
    "pt_settled T = money_of c (pa_totalSettledUnits agg)"
    "pt_adjusted T = money_of c (pa_totalAdjustedUnits agg)"
    "pt_cashRecovered T = money_of c (pa_cashRecoveredUnits agg)"
    "pt_nonCashClosed T = money_of c (pa_nonCashClosedUnits agg)"
    "pt_refCashIn T = money_of c (pa_refCashInUnits agg)"
    "pt_refCashOut T = money_of c (pa_refCashOutUnits agg)"
    "pt_hasReversal T = pa_hasReversal agg"
    using T(1) by (simp_all add: tracks_def amounts_def proj_amounts_def)
  have unk: "(pt_hasUnresolvedLineage T \<and> isZero (money_of c (pa_totalOriginatedUnits agg)))
      = hasUnknownOrigination agg"
    by (simp add: T(2) isZero_def hasUnknownOrigination_def)
  have z: "money_zero c = Inr (money_of c 0)" using cur by (simp add: money_zero_def new_Money_ok)
  show ?thesis
    unfolding project_def Let_def c z ebind_simps run f
    unfolding unk add_ok [OF n cur] ebind_simps derived_open [OF cur] derived_over [OF cur] derived_gap [OF cur] derived_status [OF v] derived_outcome open_units over_units_map
    by (simp add: figures_of_def Let_def pc)
qed

lemma projection_agrees:
  assumes valid: "\<forall>ev\<in>set st. valid_money (ev_amount ev)"
    and one: "\<forall>ev\<in>set st. mentions oid ev \<longrightarrow> currency (ev_amount ev) = c"
    and named: "retractions_name oid st"
    and agg: "map_of (buildAggregateMap st) oid = Some agg"
  shows "\<exists>S. summarize st oid = Inr (Some S) \<and> ps_figures S = figures_of agg"
    and "valid_aggregate agg"
proof -
  let ?F = "findByObjectId st oid"
  from agg obtain b where b: "aggregate_of oid (standing st) = Some b"
    and agg_b: "agg = b\<lparr>pa_eventCount := int (length (event_ids_of oid (standing st)))\<rparr>"
    unfolding build_lookup by auto
  from aggregate_walk [OF b] obtain ev ob where ms: "mentions_of oid (standing st) \<noteq> []"
    "(ev, ob) = hd (mentions_of oid (standing st))" "b = walk_object oid (standing st) (new_aggregate ev ob)" .
  from ms(1,2) have "(ev, ob) \<in> set (mentions_of oid (standing st))" by simp
  then have ev: "ev \<in> set st" "mentions oid ev"
    unfolding set_mentions_of by (auto simp: standing_def mentions_def list_ex_Bex)
  have F: "\<forall>ev\<in>set ?F. 0 \<le> units (ev_amount ev) \<and> currency (ev_amount ev) = c"
    using valid one by (auto simp: findByObjectId_def valid_money_def)
  have Fne: "?F \<noteq> []" using ev by (auto simp: findByObjectId_def filter_empty_conv)
  have hdF: "currency (ev_amount (hd ?F)) = c" using F Fne by simp
  have cur: "is_currency (currency (ev_amount ev))" "currency (ev_amount ev) = c"
    using ev valid one by (auto simp: valid_money_def)
  have std: "filter (\<lambda>ev. ev_id ev \<notin> set (retractedEventIds ?F)) ?F = standing ?F"
    by (rule standing_filter)
  have mF: "mentions_of oid (standing ?F) = mentions_of oid (standing st)"
    unfolding standing_naming [OF named] by (rule mentions_of_naming)
  then have wF: "walk_object oid (standing ?F) a = walk_object oid (standing st) a" for a
    by (simp add: walk_object_def)
  from tracks_events [OF new_tracks [OF cur refl] F, of "retractedEventIds ?F" oid ob] obtain T where
    T: "efold (project_event (retractedEventIds ?F) oid) ?F
       \<lparr>pt_originated = money_of c 0, pt_settled = money_of c 0, pt_adjusted = money_of c 0,
        pt_cashRecovered = money_of c 0, pt_nonCashClosed = money_of c 0, pt_refCashIn = money_of c 0,
        pt_refCashOut = money_of c 0, pt_hasReversal = False, pt_hasUnresolvedLineage = False\<rparr> = Inr T"
      "tracks c T b"
      "pt_hasUnresolvedLineage T \<longleftrightarrow>
        (\<exists>ev\<in>set ?F. ev_id ev \<notin> set (retractedEventIds ?F) \<and> unknown_origin_declared (ev_reason ev))"
    unfolding std wF ms(3) [symmetric] by auto
  have "(\<exists>ev\<in>set ?F. ev_id ev \<notin> set (retractedEventIds ?F) \<and> unknown_origin_declared (ev_reason ev))
      \<longleftrightarrow> (\<exists>ev\<in>set (standing ?F). unknown_origin_declared (ev_reason ev))"
    by (auto simp: standing_def stands_def)
  also have "\<dots> \<longleftrightarrow> (\<exists>(ev, ob)\<in>set (mentions_of oid (standing st)). unknown_origin_declared (ev_reason ev))"
    unfolding standing_naming [OF named] set_mentions_of by (auto simp: mentions_def list_ex_Bex)
  finally have lin: "pt_hasUnresolvedLineage T = pa_hasUnresolvedLineage b"
    using T(3) aggregate_of_figures(6) [OF b] by simp
  from project_tracked [OF T(2) lin T(1) hdF] obtain S where
    S: "project oid ?F = Inr S" "ps_figures S = figures_of b" by blast
  have "figures_of agg = figures_of b"
    by (simp add: agg_b figures_of_def Let_def derivePositionStatus_def hasUnknownOrigination_def
        outcome_of_def openBalanceUnitsOf_def over_units_def)
  with S Fne show "\<exists>S. summarize st oid = Inr (Some S) \<and> ps_figures S = figures_of agg"
    by (simp add: summarize_def Let_def)
  show "valid_aggregate agg" using tracks_valid [OF T(2)] by (auto simp: agg_b valid_aggregate_def)
qed

end
