(* ===== verification/Cash_Reports.thy ===== *)
theory Cash_Reports
  imports Projection
begin

text \<open>
  The reports over the store: \<open>CashPositionService.ts\<close>, \<open>CashStatementService.ts\<close>,
  \<open>BookHealthService.ts\<close> and \<open>DashboardService.ts\<close>. The scores of the health service are computed
  in floating point from two ratios of ten-thousandths; they are modelled exactly, in units of the
  last digit the code keeps, without the rounding of doubles. Clock readings are arguments.
\<close>

section \<open>Cash position\<close>

record OpenBalanceByObjectType =
  ob_objectType :: ObjectType
  ob_openBalance :: Money

record CashPositionSummary =
  cp_totalCashIn :: Money
  cp_totalCashOut :: Money
  cp_openReceivables :: Money
  cp_openPayables :: Money
  cp_contingentExposure :: Money
  cp_openReceivablesByType :: "OpenBalanceByObjectType list"
  cp_openPayablesByType :: "OpenBalanceByObjectType list"
  cp_contingentExposureByType :: "OpenBalanceByObjectType list"
  cp_currency :: string
  cp_asOf :: instant

definition weight_compare :: "platform \<Rightarrow> OpenBalanceByObjectType \<Rightarrow> OpenBalanceByObjectType \<Rightarrow> int" where
  "weight_compare P a b =
     (let delta = toUnits (ob_openBalance b) - toUnits (ob_openBalance a)
      in if delta \<noteq> 0 then (if delta > 0 then 1 else - 1)
         else locale_compare P (objectType_value (ob_objectType a)) (objectType_value (ob_objectType b)))"

definition sortByWeight :: "platform \<Rightarrow> OpenBalanceByObjectType list \<Rightarrow> OpenBalanceByObjectType list" where
  "sortByWeight P lines = sort_by (weight_compare P) lines"

record PositionTotals =
  pq_openReceivables :: Money
  pq_openPayables :: Money
  pq_contingent :: Money
  pq_receivableLines :: "OpenBalanceByObjectType list"
  pq_payableLines :: "OpenBalanceByObjectType list"
  pq_contingentLines :: "OpenBalanceByObjectType list"

definition position_row :: "OpenRow \<Rightarrow> PositionTotals \<Rightarrow> ledger_error + PositionTotals" where
  "position_row row T =
     ebind (fromUnits (or_openBalanceUnits row) (or_currency row)) (\<lambda>amount.
       let line = \<lparr>ob_objectType = or_objectType row, ob_openBalance = amount\<rparr>
       in if or_objectType row \<in> set USINA_RECEIVABLE_OBJECT_TYPES
          then ebind (money_add (pq_openReceivables T) amount) (\<lambda>m.
            Inr (T\<lparr>pq_openReceivables := m, pq_receivableLines := pq_receivableLines T @ [line]\<rparr>))
          else if or_objectType row \<in> set USINA_PAYABLE_OBJECT_TYPES
          then ebind (money_add (pq_openPayables T) amount) (\<lambda>m.
            Inr (T\<lparr>pq_openPayables := m, pq_payableLines := pq_payableLines T @ [line]\<rparr>))
          else if or_objectType row \<in> set USINA_CONTINGENT_OBJECT_TYPES
          then ebind (money_add (pq_contingent T) amount) (\<lambda>m.
            Inr (T\<lparr>pq_contingent := m, pq_contingentLines := pq_contingentLines T @ [line]\<rparr>))
          else Inr T)"

definition computePositionTotals :: "store \<Rightarrow> string \<Rightarrow> ledger_error + PositionTotals" where
  "computePositionTotals st c =
     ebind (money_zero c) (\<lambda>z.
       efold position_row (aggregateOpenBalancesByObjectType st)
         \<lparr>pq_openReceivables = z, pq_openPayables = z, pq_contingent = z,
          pq_receivableLines = [], pq_payableLines = [], pq_contingentLines = []\<rparr>)"

definition cash_position :: "platform \<Rightarrow> instant \<Rightarrow> store \<Rightarrow> ledger_error + CashPositionSummary" where
  "cash_position P now st =
     (let F = aggregateCashFlows st; c = cf_currency F in
      ebind (fromUnits (cashInUnits F) c) (\<lambda>totalCashIn.
      ebind (fromUnits (cashOutUnits F) c) (\<lambda>totalCashOut.
      ebind (computePositionTotals st c) (\<lambda>T.
      Inr \<lparr>cp_totalCashIn = totalCashIn, cp_totalCashOut = totalCashOut,
           cp_openReceivables = pq_openReceivables T, cp_openPayables = pq_openPayables T,
           cp_contingentExposure = pq_contingent T,
           cp_openReceivablesByType = sortByWeight P (pq_receivableLines T),
           cp_openPayablesByType = sortByWeight P (pq_payableLines T),
           cp_contingentExposureByType = sortByWeight P (pq_contingentLines T),
           cp_currency = c, cp_asOf = now\<rparr>))))"

section \<open>Cash statement\<close>

record CashStatement =
  st_from :: instant
  st_to :: instant
  st_openingBalance :: Money
  st_openingBalanceNegative :: bool
  st_closingBalance :: Money
  st_closingBalanceNegative :: bool
  st_totalCashIn :: Money
  st_totalCashOut :: Money
  st_netFlow :: Money
  st_currency :: string

definition statement_retracted :: "store \<Rightarrow> LedgerEvent list \<Rightarrow> string list" where
  "statement_retracted st periodEvents =
     (let periodCash = filter is_cash periodEvents;
          firstHop = concat (map (\<lambda>e. findByRelatedEventId st (ev_id e)) periodCash);
          secondHop = concat (map (\<lambda>e. findByRelatedEventId st (ev_id e)) firstHop)
      in retractedEventIds (firstHop @ secondHop))"

definition usina_moves :: "string \<Rightarrow> Direction \<Rightarrow> LedgerEvent \<Rightarrow> bool" where
  "usina_moves usina d ev = list_ex (\<lambda>q. party_id q = usina \<and> party_direction q = d) (ev_parties ev)"

definition statement_step :: "string list \<Rightarrow> string \<Rightarrow> LedgerEvent \<Rightarrow> int \<times> int \<Rightarrow> int \<times> int" where
  "statement_step retracted usina ev = (\<lambda>(i, u).
     if ev_id ev \<in> set retracted then (i, u)
     else if ev_economicEffect ev = EconomicEffect.CASH_IN
     then (if usina_moves usina Direction.IN ev then (i + toUnits (ev_amount ev), u) else (i, u))
     else if ev_economicEffect ev = EconomicEffect.CASH_OUT
     then (if usina_moves usina Direction.OUT ev then (i, u + toUnits (ev_amount ev)) else (i, u))
     else (i, u))"

definition cash_statement :: "string \<Rightarrow> store \<Rightarrow> instant \<Rightarrow> instant \<Rightarrow> ledger_error + CashStatement" where
  "cash_statement usina st from to =
     (let prev = aggregateCashFlowsBefore st from;
          c = cf_currency prev; prevIn = cashInUnits prev; prevOut = cashOutUnits prev;
          openingNegative = (prevOut > prevIn);
          periodEvents = findByPeriod st from to;
          retracted = statement_retracted st periodEvents;
          (i, u) = fold (statement_step retracted usina) periodEvents (0, 0);
          totalIn = prevIn + i; totalOut = prevOut + u;
          closingNegative = (totalOut > totalIn)
      in
      ebind (fromUnits (if openingNegative then prevOut - prevIn else prevIn - prevOut) c) (\<lambda>openingBalance.
      ebind (fromUnits i c) (\<lambda>totalCashIn.
      ebind (fromUnits u c) (\<lambda>totalCashOut.
      ebind (fromUnits (if i \<ge> u then i - u else u - i) c) (\<lambda>netFlow.
      ebind (fromUnits (if closingNegative then totalOut - totalIn else totalIn - totalOut) c) (\<lambda>closingBalance.
      Inr \<lparr>st_from = from, st_to = to, st_openingBalance = openingBalance,
           st_openingBalanceNegative = openingNegative, st_closingBalance = closingBalance,
           st_closingBalanceNegative = closingNegative, st_totalCashIn = totalCashIn,
           st_totalCashOut = totalCashOut, st_netFlow = netFlow, st_currency = c\<rparr>))))))"

section \<open>Book health\<close>

datatype HealthLabel = healthy | at_risk_label | critical
datatype HealthTrend = up | down | stable

record BookHealthScore =
  hs_score_tenths :: int
  hs_label :: HealthLabel
  hs_trend :: HealthTrend
  hs_trendDelta_tenths :: int
  hs_closureQuality_thousandths :: int
  hs_openBookHealth_thousandths :: int
  hs_windowDays :: int

definition DAY_MS :: int where "DAY_MS = 24 * 60 * 60 * 1000"
definition WINDOW_DAYS :: int where "WINDOW_DAYS = 90"
definition THIRTY_DAYS_MS :: int where "THIRTY_DAYS_MS = 30 * DAY_MS"

text \<open>The two legs in ten-thousandths; \<open>1.0\<close> when there is nothing to divide by.\<close>

definition computeClosureQuality :: "ClosureStats \<Rightarrow> int" where
  "computeClosureQuality s =
     (if cs_totalSettledUnits s = 0 then 10000
      else cs_cashInSettledUnits s * 10000 div cs_totalSettledUnits s)"

definition computeOpenBookHealth :: "instant \<Rightarrow> PositionAggregate list \<Rightarrow> string \<Rightarrow> int" where
  "computeOpenBookHealth now aggs c =
     (let M = computeCapitalMetrics aggs c (now - THIRTY_DAYS_MS) now
      in if openExposureUnits M = 0 then 10000
         else 10000 - capitalAtRiskUnits M * 10000 div openExposureUnits M)"

text \<open>\<open>Math.round\<close> of a quotient by a positive number: half up.\<close>

definition round_div :: "int \<Rightarrow> int \<Rightarrow> int" where
  "round_div a b = (2 * a + b) div (2 * b)"

definition toLabel :: "int \<Rightarrow> HealthLabel" where
  "toLabel tenths = (if tenths \<ge> 800 then healthy else if tenths \<ge> 500 then at_risk_label else critical)"

definition DEFAULT_CURRENCY :: string where "DEFAULT_CURRENCY = ''BRL''"

definition book_health :: "instant \<Rightarrow> instant \<Rightarrow> store \<Rightarrow> PositionAggregate list \<Rightarrow> BookHealthScore" where
  "book_health now later st allAggs =
     (let currentFrom = now - WINDOW_DAYS * DAY_MS;
          prevTo = currentFrom - DAY_MS;
          prevFrom = prevTo - WINDOW_DAYS * DAY_MS;
          c = (case allAggs of [] \<Rightarrow> DEFAULT_CURRENCY | a # _ \<Rightarrow> pa_currency a);
          currentLeg1 = computeClosureQuality (aggregateClosureStats st currentFrom now c);
          prevLeg1 = computeClosureQuality (aggregateClosureStats st prevFrom prevTo c);
          leg2 = computeOpenBookHealth later allAggs c;
          score = round_div (4 * currentLeg1 + 6 * leg2) 100;
          delta = round_div (currentLeg1 - prevLeg1) 10
      in \<lparr>hs_score_tenths = score, hs_label = toLabel score,
          hs_trend = (if delta > 20 then up else if delta < - 20 then down else stable),
          hs_trendDelta_tenths = delta,
          hs_closureQuality_thousandths = round_div currentLeg1 10,
          hs_openBookHealth_thousandths = round_div leg2 10,
          hs_windowDays = WINDOW_DAYS\<rparr>)"

section \<open>Dashboard\<close>

record DashboardSummary =
  db_from :: instant
  db_to :: instant
  db_currency :: string
  db_cashIn :: Money
  db_cashOut :: Money
  db_netCashUnits :: int
  db_openExposure :: Money
  db_openPayableExposure :: Money
  db_overduePayable :: Money
  db_upcomingPayable :: Money
  db_undatedPayable :: Money
  db_capitalAtRisk :: Money
  db_cashInByType :: "(EventType \<times> Money) list"
  db_cashOutByType :: "(EventType \<times> Money) list"
  db_healthScore :: BookHealthScore
  db_attentionPositions :: "PositionListItem list"
  db_recentMovements :: "LedgerEvent list"

definition resolveCurrency :: "PeriodRow list \<Rightarrow> PositionAggregate list \<Rightarrow> string" where
  "resolveCurrency rows aggs =
     (case rows of r # _ \<Rightarrow> row_currency r
      | [] \<Rightarrow> (case aggs of a # _ \<Rightarrow> pa_currency a | [] \<Rightarrow> DEFAULT_CURRENCY))"

record DashboardFlows =
  df_in :: int
  df_out :: int
  df_inByType :: "(EventType \<times> Money) list"
  df_outByType :: "(EventType \<times> Money) list"

definition dashboard_row :: "string \<Rightarrow> PeriodRow \<Rightarrow> DashboardFlows \<Rightarrow> ledger_error + DashboardFlows" where
  "dashboard_row c row F =
     (if row_currency row \<noteq> c then Inr F
      else if row_economicEffect row = EconomicEffect.CASH_IN
      then ebind (fromUnits (row_totalUnits row) (row_currency row)) (\<lambda>m.
        Inr (F\<lparr>df_in := df_in F + row_totalUnits row,
               df_inByType := AList.update (row_eventType row) m (df_inByType F)\<rparr>))
      else if row_economicEffect row = EconomicEffect.CASH_OUT
      then ebind (fromUnits (row_totalUnits row) (row_currency row)) (\<lambda>m.
        Inr (F\<lparr>df_out := df_out F + row_totalUnits row,
               df_outByType := AList.update (row_eventType row) m (df_outByType F)\<rparr>))
      else Inr F)"

definition attention_compare :: "PositionAggregate \<Rightarrow> PositionAggregate \<Rightarrow> int" where
  "attention_compare a b =
     (case pa_originatedAt a of None \<Rightarrow> 0 | Some t \<Rightarrow> t)
       - (case pa_originatedAt b of None \<Rightarrow> 0 | Some t \<Rightarrow> t)"

interpretation attention: comparator attention_compare
  by unfold_locales (auto simp: attention_compare_def)

definition needs_attention :: "string \<Rightarrow> PositionAggregate \<Rightarrow> bool" where
  "needs_attention c agg \<longleftrightarrow>
     pa_currency agg = c \<and> derivePositionStatus agg \<in> set [open_position, partially_settled]"

definition dashboard ::
  "instant \<Rightarrow> instant \<Rightarrow> instant \<Rightarrow> store \<Rightarrow> instant \<Rightarrow> instant \<Rightarrow> ledger_error + DashboardSummary" where
  "dashboard now1 now2 now3 st from to =
     (let allAggs = findAllPositionAggregates st;
          rows = aggregatePeriodCashFlow st from to;
          recent = findRecentCashMovements st 8;
          health = book_health now1 now2 st allAggs;
          c = resolveCurrency rows allAggs;
          M = computeCapitalMetrics allAggs c (now3 - THIRTY_DAYS_MS) now3;
          attention = slice 0 6 (sort_by attention_compare (filter (needs_attention c) allAggs))
      in
      ebind (efold (dashboard_row c) rows \<lparr>df_in = 0, df_out = 0, df_inByType = [], df_outByType = []\<rparr>) (\<lambda>F.
      ebind (fromUnits (df_in F) c) (\<lambda>cashIn.
      ebind (fromUnits (df_out F) c) (\<lambda>cashOut.
      ebind (fromUnits (openExposureUnits M) c) (\<lambda>openExposure.
      ebind (fromUnits (capitalAtRiskUnits M) c) (\<lambda>capitalAtRisk.
      ebind (fromUnits (openPayableExposureUnits M) c) (\<lambda>payable.
      ebind (fromUnits (overduePayableUnits M) c) (\<lambda>overdueP.
      ebind (fromUnits (upcomingPayableUnits M) c) (\<lambda>upcomingP.
      ebind (fromUnits (undatedPayableUnits M) c) (\<lambda>undatedP.
      ebind (emap aggregateToListItem attention) (\<lambda>items.
      Inr \<lparr>db_from = from, db_to = to, db_currency = c, db_cashIn = cashIn, db_cashOut = cashOut,
           db_netCashUnits = df_in F - df_out F, db_openExposure = openExposure,
           db_openPayableExposure = payable, db_overduePayable = overdueP,
           db_upcomingPayable = upcomingP, db_undatedPayable = undatedP,
           db_capitalAtRisk = capitalAtRisk, db_cashInByType = df_inByType F,
           db_cashOutByType = df_outByType F, db_healthScore = health,
           db_attentionPositions = items, db_recentMovements = recent\<rparr>)))))))))))"

end
