(* ===== verification/Report_Sums.thy ===== *)
theory Report_Sums
  imports Cash_Reports
begin

text \<open>
  What the reports publish, as sums over the standing events and over the positions: the cash
  statement closes where it opened plus the flows of the period; the totals of the cash position are
  the sums of their own lines and of the open balances of their types; the ratios of the health score
  stay in their range; the rows of a period add up to the cash that stands in it; the dashboard does
  not fail and splits what is payable by its due date.
\<close>

section \<open>The statement adds up\<close>

text \<open>The sign of a balance is kept beside its amount.\<close>

definition signed :: "bool \<Rightarrow> Money \<Rightarrow> int" where
  "signed negative m = (if negative then - units m else units m)"

text \<open>What moved in a direction, with and without the usina among the parties that moved it.\<close>

definition usina_units :: "string \<Rightarrow> EconomicEffect \<Rightarrow> Direction \<Rightarrow> LedgerEvent list \<Rightarrow> int" where
  "usina_units usina ef d evs = effect_units ef (filter (usina_moves usina d) evs)"

definition others_units :: "string \<Rightarrow> EconomicEffect \<Rightarrow> Direction \<Rightarrow> LedgerEvent list \<Rightarrow> int" where
  "others_units usina ef d evs = effect_units ef (filter (\<lambda>e. \<not> usina_moves usina d e) evs)"

definition standing_in :: "store \<Rightarrow> instant \<Rightarrow> instant \<Rightarrow> LedgerEvent list" where
  "standing_in st from to = filter (in_period from to) (standing st)"

lemma effect_units_nonneg: "\<forall>ev\<in>set evs. 0 \<le> units (ev_amount ev) \<Longrightarrow> 0 \<le> effect_units ef evs"
  by (induction evs) auto

lemma statement_fold:
  "fold (statement_step ret usina) evs (i, u) =
     (i + usina_units usina EconomicEffect.CASH_IN Direction.IN (filter (\<lambda>ev. ev_id ev \<notin> set ret) evs),
      u + usina_units usina EconomicEffect.CASH_OUT Direction.OUT (filter (\<lambda>ev. ev_id ev \<notin> set ret) evs))"
  by (induction evs arbitrary: i u) (auto simp: statement_step_def usina_units_def toUnits_def)

text \<open>
  The retractions found by the two hops decide for the cash events of the period what the
  retractions of the whole store decide: every retraction of such an event is in the first hop, and
  every retraction of that one in the second.
\<close>

lemma statement_retracted_agrees:
  assumes one: "one_retraction_each st" and ev: "ev \<in> set evs" "is_cash ev"
  shows "ev_id ev \<in> set (statement_retracted st evs) \<longleftrightarrow> ev_id ev \<in> set (retractedEventIds st)"
proof -
  let ?first = "concat (map (\<lambda>e. findByRelatedEventId st (ev_id e)) (filter is_cash evs))"
  let ?H = "?first @ concat (map (\<lambda>e. findByRelatedEventId st (ev_id e)) ?first)"
  have sub: "set ?H \<subseteq> set st" by (auto simp: findByRelatedEventId_def)
  with one have H: "one_retraction_each ?H" unfolding one_retraction_each_def by blast
  have f: "r \<in> set ?first" if "r \<in> set st" "retracts_id r (ev_id ev)" for r
    using that ev by (force simp: findByRelatedEventId_def retracts_id_def)
  have s: "x \<in> set ?H" if "x \<in> set st" "retracts_id x (ev_id r)" "r \<in> set ?first" for x r
    using that by (force simp: findByRelatedEventId_def retracts_id_def)
  have "(\<exists>r\<in>set ?H. retracts_id r (ev_id ev) \<and> (\<forall>x\<in>set ?H. \<not> retracts_id x (ev_id r))) \<longleftrightarrow>
      (\<exists>r\<in>set st. retracts_id r (ev_id ev) \<and> (\<forall>x\<in>set st. \<not> retracts_id x (ev_id r)))"
    (is "?l \<longleftrightarrow> ?r")
  proof
    assume ?l
    then obtain r where r: "r \<in> set ?H" "retracts_id r (ev_id ev)" "\<forall>x\<in>set ?H. \<not> retracts_id x (ev_id r)"
      by blast
    then have "r \<in> set st" using sub by blast
    with r f s show ?r by blast
  next
    assume ?r
    then obtain r where r: "r \<in> set st" "retracts_id r (ev_id ev)" "\<forall>x\<in>set st. \<not> retracts_id x (ev_id r)"
      by blast
    then have "r \<in> set ?first" using f by blast
    then have "r \<in> set ?H" by simp
    moreover have "\<forall>x\<in>set ?H. \<not> retracts_id x (ev_id r)" using r(3) sub by blast
    ultimately show ?l using r(2) by blast
  qed
  then have "ev_id ev \<in> set (retractedEventIds ?H) \<longleftrightarrow> ev_id ev \<in> set (retractedEventIds st)"
    unfolding retractedEventIds_unique [OF H] retractedEventIds_unique [OF one] .
  then show ?thesis by (simp add: statement_retracted_def Let_def)
qed

lemma usina_units_cash:
  "usina_units usina EconomicEffect.CASH_IN d (filter is_cash evs) = usina_units usina EconomicEffect.CASH_IN d evs"
  "usina_units usina EconomicEffect.CASH_OUT d (filter is_cash evs) = usina_units usina EconomicEffect.CASH_OUT d evs"
  by (induction evs) (simp_all add: usina_units_def is_cash_def)

lemma statement_flows:
  assumes "one_retraction_each st"
  shows "fold (statement_step (statement_retracted st (findByPeriod st from to)) usina)
      (findByPeriod st from to) (0, 0) =
    (usina_units usina EconomicEffect.CASH_IN Direction.IN (standing_in st from to),
     usina_units usina EconomicEffect.CASH_OUT Direction.OUT (standing_in st from to))"
proof -
  let ?E = "findByPeriod st from to"
  let ?kept = "filter (\<lambda>ev. ev_id ev \<notin> set (statement_retracted st ?E)) ?E"
  have "filter is_cash ?kept =
      filter (\<lambda>ev. ev_id ev \<notin> set (statement_retracted st ?E) \<and> is_cash ev) ?E"
    by (simp add: conj_commute)
  also have "\<dots> = filter (\<lambda>ev. ev_id ev \<notin> set (retractedEventIds st) \<and> is_cash ev) ?E"
    by (rule filter_cong) (use statement_retracted_agrees [OF assms] in auto)
  also have "\<dots> = filter is_cash (standing_in st from to)"
    by (auto simp: standing_in_def standing_def stands_def findByPeriod_def in_period_def intro: filter_cong)
  finally have same: "filter is_cash ?kept = filter is_cash (standing_in st from to)" .
  have "usina_units usina EconomicEffect.CASH_IN d ?kept = usina_units usina EconomicEffect.CASH_IN d (standing_in st from to)"
    "usina_units usina EconomicEffect.CASH_OUT d ?kept = usina_units usina EconomicEffect.CASH_OUT d (standing_in st from to)"
    for d
    using usina_units_cash [of usina d ?kept] usina_units_cash [of usina d "standing_in st from to"] same
    by simp_all
  then show ?thesis by (simp add: statement_fold)
qed

lemma cash_currency:
  "cf_currency (fst (fold cash_step evs (F, b))) = cf_currency F \<or>
   (\<exists>ev\<in>set evs. cf_currency (fst (fold cash_step evs (F, b))) = currency (ev_amount ev))"
proof (induction evs arbitrary: F b)
  case Nil
  then show ?case by simp
next
  case (Cons ev evs)
  obtain G d where step: "cash_step ev (F, b) = (G, d)" by fastforce
  then have "cf_currency G = cf_currency F \<or> cf_currency G = currency (ev_amount ev)"
    by (auto simp: cash_step_def Let_def split: if_splits)
  with Cons.IH [of G d] step show ?case by auto
qed

definition valid_amounts :: "store \<Rightarrow> bool" where
  "valid_amounts st \<longleftrightarrow> (\<forall>ev\<in>set st. valid_money (ev_amount ev))"

lemma valid_amounts_standing: "valid_amounts st \<Longrightarrow> ev \<in> set (standing st) \<Longrightarrow> valid_money (ev_amount ev)"
  by (simp add: valid_amounts_def standing_def)

lemma flows_currency_valid:
  assumes "valid_amounts st"
  shows "is_currency (cf_currency (aggregateCashFlowsBefore st d))" "is_currency (cf_currency (aggregateCashFlows st))"
proof -
  have "is_currency (cf_currency no_flows)" by code_simp
  then show "is_currency (cf_currency (aggregateCashFlowsBefore st d))" "is_currency (cf_currency (aggregateCashFlows st))"
    unfolding aggregateCashFlowsBefore_fold aggregateCashFlows_fold
    using cash_currency [of "filter (\<lambda>ev. ev_occurredAt ev < d) (standing st)" no_flows False]
      cash_currency [of "standing st" no_flows False] valid_amounts_standing [OF assms]
    by (auto simp: valid_money_def)
qed

text \<open>What stands before a date, signed: cash in less cash out.\<close>

definition balance_before :: "store \<Rightarrow> instant \<Rightarrow> int" where
  "balance_before st d =
     effect_units EconomicEffect.CASH_IN (filter (\<lambda>ev. ev_occurredAt ev < d) (standing st))
     - effect_units EconomicEffect.CASH_OUT (filter (\<lambda>ev. ev_occurredAt ev < d) (standing st))"

text \<open>
  The statement never fails on valid amounts, and closes where it opened plus what the usina received
  less what it paid in the period.
\<close>

lemma cash_statement_adds_up:
  assumes one: "one_retraction_each st" and valid: "valid_amounts st"
  shows "\<exists>S. cash_statement usina st from to = Inr S \<and>
    signed (st_openingBalanceNegative S) (st_openingBalance S) = balance_before st from \<and>
    units (st_totalCashIn S) = usina_units usina EconomicEffect.CASH_IN Direction.IN (standing_in st from to) \<and>
    units (st_totalCashOut S) = usina_units usina EconomicEffect.CASH_OUT Direction.OUT (standing_in st from to) \<and>
    units (st_netFlow S) = \<bar>units (st_totalCashIn S) - units (st_totalCashOut S)\<bar> \<and>
    signed (st_closingBalanceNegative S) (st_closingBalance S) =
      balance_before st from + units (st_totalCashIn S) - units (st_totalCashOut S)"
proof -
  let ?F = "aggregateCashFlowsBefore st from"
  let ?i = "usina_units usina EconomicEffect.CASH_IN Direction.IN (standing_in st from to)"
  let ?u = "usina_units usina EconomicEffect.CASH_OUT Direction.OUT (standing_in st from to)"
  have c: "is_currency (cf_currency ?F)" by (rule flows_currency_valid [OF valid])
  have n: "0 \<le> ?i" "0 \<le> ?u"
    unfolding usina_units_def
    by (rule effect_units_nonneg, use valid_amounts_standing [OF valid] in \<open>auto simp: standing_in_def valid_money_def\<close>)+
  have b: "cashInUnits ?F - cashOutUnits ?F = balance_before st from"
    unfolding aggregateCashFlowsBefore_fold cash_fold balance_before_def by (simp add: no_flows_def)
  have ok: "fromUnits u (cf_currency ?F) = Inr \<lparr>units = u, currency = cf_currency ?F\<rparr>" if "0 \<le> u" for u
    using that c by (simp add: fromUnits_def)
  show ?thesis
    unfolding cash_statement_def Let_def statement_flows [OF one] prod.case
    using n b by (simp add: ok signed_def)
qed

text \<open>
  Two statements that follow each other: the second opens where the first closed, plus the cash of
  the first period that moved without the usina being the party that moved it.
\<close>

lemma balance_before_next:
  assumes "from \<le> to + 1"
  shows "balance_before st (to + 1) = balance_before st from
    + effect_units EconomicEffect.CASH_IN (standing_in st from to)
    - effect_units EconomicEffect.CASH_OUT (standing_in st from to)"
proof -
  have "effect_units ef (filter (\<lambda>ev. ev_occurredAt ev < to + 1) evs) =
      effect_units ef (filter (\<lambda>ev. ev_occurredAt ev < from) evs) + effect_units ef (filter (in_period from to) evs)"
    for ef evs
    using assms by (induction evs) (auto simp: in_period_def)
  then show ?thesis by (simp add: balance_before_def standing_in_def)
qed

lemma usina_others: "usina_units usina ef d evs + others_units usina ef d evs = effect_units ef evs"
  using effect_units_split [of ef evs "usina_moves usina d"] by (simp add: usina_units_def others_units_def)

lemma statement_gap:
  assumes one: "one_retraction_each st" and valid: "valid_amounts st" and "from \<le> to + 1"
    and S: "cash_statement usina st from to = Inr S" "cash_statement usina st (to + 1) to' = Inr S'"
  shows "signed (st_openingBalanceNegative S') (st_openingBalance S') =
    signed (st_closingBalanceNegative S) (st_closingBalance S)
      + others_units usina EconomicEffect.CASH_IN Direction.IN (standing_in st from to)
      - others_units usina EconomicEffect.CASH_OUT Direction.OUT (standing_in st from to)"
proof -
  from cash_statement_adds_up [OF one valid, of usina "from" to] S(1)
  have "signed (st_closingBalanceNegative S) (st_closingBalance S) = balance_before st from
      + usina_units usina EconomicEffect.CASH_IN Direction.IN (standing_in st from to)
      - usina_units usina EconomicEffect.CASH_OUT Direction.OUT (standing_in st from to)" by auto
  moreover from cash_statement_adds_up [OF one valid, of usina "to + 1" to'] S(2)
  have "signed (st_openingBalanceNegative S') (st_openingBalance S') = balance_before st (to + 1)" by auto
  ultimately show ?thesis
    using balance_before_next [OF assms(3), of st]
      usina_others [of usina EconomicEffect.CASH_IN Direction.IN "standing_in st from to"]
      usina_others [of usina EconomicEffect.CASH_OUT Direction.OUT "standing_in st from to"]
    by simp
qed

section \<open>The aggregates of a book in one currency\<close>

definition one_currency_book :: "string \<Rightarrow> store \<Rightarrow> bool" where
  "one_currency_book c st \<longleftrightarrow> (\<forall>ev\<in>set st. valid_money (ev_amount ev) \<and> currency (ev_amount ev) = c)"

lemma track_object_valid:
  assumes "valid_aggregate agg" "0 \<le> units (ev_amount ev)"
  shows "valid_aggregate (track_object ev ob agg) \<and> pa_currency (track_object ev ob agg) = pa_currency agg"
proof -
  have "valid_aggregate (track_relation r ev a) \<and> pa_currency (track_relation r ev a) = pa_currency a"
    if "valid_aggregate a" for r a
    using that assms(2) by (cases r) (auto simp: valid_aggregate_def Let_def toUnits_def split: option.splits)
  moreover have "valid_aggregate (a\<lparr>pa_objectType := ty\<rparr>) = valid_aggregate a"
    "valid_aggregate (a\<lparr>pa_hasUnresolvedLineage := b\<rparr>) = valid_aggregate a"
    "valid_aggregate (a\<lparr>pa_lastEventAt := t\<rparr>) = valid_aggregate a"
    "valid_aggregate (a\<lparr>pa_createdAt := t\<rparr>) = valid_aggregate a" for a ty b t
    by (simp_all add: valid_aggregate_def)
  ultimately show ?thesis using assms(1) by (simp add: track_object_def Let_def)
qed

lemma new_aggregate_valid:
  "is_currency (currency (ev_amount ev)) \<Longrightarrow> valid_aggregate (new_aggregate ev ob)"
  "pa_currency (new_aggregate ev ob) = currency (ev_amount ev)"
  by (simp_all add: valid_aggregate_def new_aggregate_def)

lemma walk_valid:
  "\<forall>(ev, ob)\<in>set ms. valid_money (ev_amount ev) \<and> currency (ev_amount ev) = c \<Longrightarrow>
   (\<And>a. init = Some a \<Longrightarrow> valid_aggregate a \<and> pa_currency a = c) \<Longrightarrow>
   fold step_option ms init = Some b \<Longrightarrow> valid_aggregate b \<and> pa_currency b = c"
proof (induction ms arbitrary: init)
  case Nil
  then show ?case by simp
next
  case (Cons m ms)
  obtain ev ob where m: "m = (ev, ob)" by (cases m)
  then have ev: "0 \<le> units (ev_amount ev)" "is_currency (currency (ev_amount ev))" "currency (ev_amount ev) = c"
    using Cons.prems(1) by (auto simp: valid_money_def)
  have "valid_aggregate a \<and> pa_currency a = c" if "step_option m init = Some a" for a
    using that Cons.prems(2) track_object_valid [OF _ ev(1)] new_aggregate_valid ev
    by (auto simp: m step_option_def split: option.splits)
  with Cons.IH [of "step_option m init"] Cons.prems(1,3) show ?case by simp
qed

lemma book_aggregates:
  assumes "one_currency_book c st" "agg \<in> set (map snd (buildAggregateMap st))"
  shows "valid_aggregate agg \<and> pa_currency agg = c"
proof -
  from assms(2) obtain oid where "(oid, agg) \<in> set (buildAggregateMap st)" by auto
  then have "map_of (buildAggregateMap st) oid = Some agg" by (simp add: build_distinct)
  then obtain b where b: "aggregate_of oid (standing st) = Some b"
    "agg = b\<lparr>pa_eventCount := int (length (event_ids_of oid (standing st)))\<rparr>"
    unfolding build_lookup by auto
  have "\<forall>(ev, ob)\<in>set (mentions_of oid (standing st)). valid_money (ev_amount ev) \<and> currency (ev_amount ev) = c"
    using assms(1) unfolding set_mentions_of by (auto simp: one_currency_book_def standing_def)
  from walk_valid [OF this _ b(1) [unfolded aggregate_of_def]] have "valid_aggregate b \<and> pa_currency b = c"
    by simp
  with b(2) show ?thesis by (auto simp: valid_aggregate_def)
qed

section \<open>Balances by type\<close>

lemma row_balance:
  assumes "valid_aggregate agg" "pa_currency agg = c"
  shows "open_step agg m =
    (if counted_balance c agg = 0 then m
     else AList.update (pa_objectType agg)
       (case map_of m (pa_objectType agg) of
          Some (t, d) \<Rightarrow> (t + counted_balance c agg, d) | None \<Rightarrow> (counted_balance c agg, c)) m)"
proof -
  have "counted_balance c agg = 0" if "pa_totalOriginatedUnits agg = 0"
    using that assms by (auto simp: counted_balance_def openBalanceUnitsOf_def valid_aggregate_def Let_def)
  then show ?thesis
    using assms by (auto simp: open_step_def counted_balance_def split: option.splits)
qed

definition of_type :: "ObjectType \<Rightarrow> PositionAggregate \<Rightarrow> bool" where
  "of_type ty agg \<longleftrightarrow> pa_objectType agg = ty"

lemma open_rows:
  assumes "\<forall>agg\<in>set aggs. valid_aggregate agg \<and> pa_currency agg = c"
    and "\<forall>ty t d. map_of m ty = Some (t, d) \<longrightarrow> 0 < t \<and> d = c"
  shows "(\<forall>ty t d. map_of (fold open_step aggs m) ty = Some (t, d) \<longrightarrow> 0 < t \<and> d = c) \<and>
    (\<forall>ty. (case map_of (fold open_step aggs m) ty of None \<Rightarrow> 0 | Some (t, d) \<Rightarrow> t) =
       (case map_of m ty of None \<Rightarrow> 0 | Some (t, d) \<Rightarrow> t) + balance_where (of_type ty) c aggs)"
  using assms
proof (induction aggs arbitrary: m)
  case Nil
  then show ?case by (simp add: balance_where_def)
next
  case (Cons agg aggs)
  have agg: "valid_aggregate agg" "pa_currency agg = c" using Cons.prems(1) by auto
  let ?b = "counted_balance c agg"
  let ?m = "open_step agg m"
  have step: "map_of ?m ty = (if ?b = 0 \<or> pa_objectType agg \<noteq> ty then map_of m ty
      else Some (case map_of m ty of Some (t, d) \<Rightarrow> (t + ?b, d) | None \<Rightarrow> (?b, c)))" for ty
    by (auto simp: row_balance [OF agg] map_of_update)
  have pos: "\<forall>ty t d. map_of ?m ty = Some (t, d) \<longrightarrow> 0 < t \<and> d = c"
    using Cons.prems(2) counted_balance_nonneg [of c agg]
    by (fastforce simp: step split: if_splits option.splits)
  have sum: "(case map_of ?m ty of None \<Rightarrow> 0 | Some (t, d) \<Rightarrow> t) =
      (case map_of m ty of None \<Rightarrow> 0 | Some (t, d) \<Rightarrow> t) + (if of_type ty agg then ?b else 0)" for ty
    by (auto simp: step of_type_def split: option.splits)
  from Cons.IH [OF _ pos] Cons.prems(1) show ?case
    unfolding fold_simps by (auto simp: sum balance_where_Cons)
qed

lemma open_rows_distinct:
  "distinct (map fst m) \<Longrightarrow> distinct (map fst (fold open_step aggs m))"
proof (induction aggs arbitrary: m)
  case Nil
  then show ?case by simp
next
  case (Cons agg aggs)
  then show ?case by (auto simp: open_step_def distinct_update split: option.splits)
qed

lemma sum_distinct_keys:
  fixes f :: "'k \<Rightarrow> int"
  assumes "distinct (map fst m)" "finite A" "\<And>k. (case map_of m k of None \<Rightarrow> 0 | Some (t, d) \<Rightarrow> t) = f k"
  shows "sum_list (map (\<lambda>(k, (t, d)). if k \<in> A then t else 0) m) = (\<Sum>k\<in>A. f k)"
  using assms(1,3)
proof (induction m arbitrary: f)
  case Nil
  then show ?case by (simp add: eq_commute [of 0])
next
  case (Cons x m)
  obtain k t d where x: "x = (k, (t, d))" by (cases x) auto
  have k: "map_of m k = None" using Cons.prems(1) by (simp add: x map_of_eq_None_iff)
  let ?g = "f(k := 0)"
  have g: "(case map_of m i of None \<Rightarrow> 0 | Some (t, d) \<Rightarrow> t) = ?g i" for i
    using Cons.prems(2) [of i] k by (auto simp: x)
  have fk: "f k = t" using Cons.prems(2) [of k] by (simp add: x)
  have "sum_list (map (\<lambda>(k, (t, d)). if k \<in> A then t else 0) m) = (\<Sum>i\<in>A. ?g i)"
    using Cons.IH [OF _ g] Cons.prems(1) by simp
  moreover have "(\<Sum>i\<in>A. f i) = (\<Sum>i\<in>A. ?g i) + (if k \<in> A then t else 0)"
  proof (cases "k \<in> A")
    case True
    then show ?thesis using assms(2) by (simp add: sum.remove [of A k] fk)
  next
    case False
    then show ?thesis by (auto intro!: sum.cong)
  qed
  ultimately show ?case by (simp add: x)
qed

lemma balance_where_types:
  assumes "finite A"
  shows "(\<Sum>ty\<in>A. balance_where (of_type ty) c aggs) = balance_where (\<lambda>a. pa_objectType a \<in> A) c aggs"
proof (induction aggs)
  case Nil
  then show ?case by (simp add: balance_where_def)
next
  case (Cons agg aggs)
  have "(\<Sum>ty\<in>A. if of_type ty agg then counted_balance c agg else 0) =
      (if pa_objectType agg \<in> A then counted_balance c agg else 0)"
    using assms by (simp add: of_type_def)
  with Cons show ?case by (simp add: balance_where_Cons sum.distrib)
qed

text \<open>The rows of a set of types add up to the open balances of the positions of those types.\<close>

definition rows_units :: "ObjectType list \<Rightarrow> OpenRow list \<Rightarrow> int" where
  "rows_units tys rows = sum_list (map or_openBalanceUnits (filter (\<lambda>r. or_objectType r \<in> set tys) rows))"

lemma sum_list_filter: "sum_list (map f (filter P xs)) = sum_list (map (\<lambda>x. if P x then f x else 0) xs)"
  for f :: "'a \<Rightarrow> int"
  by (induction xs) auto

lemma open_balance_rows:
  assumes "one_currency_book c st"
  shows "rows_units tys (aggregateOpenBalancesByObjectType st) =
      balance_where (\<lambda>a. pa_objectType a \<in> set tys) c (map snd (buildAggregateMap st))"
    and "\<forall>r\<in>set (aggregateOpenBalancesByObjectType st). 0 < or_openBalanceUnits r \<and> or_currency r = c"
proof -
  let ?aggs = "map snd (buildAggregateMap st)"
  let ?m = "fold open_step ?aggs []"
  have aggs: "\<forall>agg\<in>set ?aggs. valid_aggregate agg \<and> pa_currency agg = c"
    using book_aggregates [OF assms] by blast
  have rows: "\<forall>ty t d. map_of ?m ty = Some (t, d) \<longrightarrow> 0 < t \<and> d = c"
    and sums: "\<And>ty. (case map_of ?m ty of None \<Rightarrow> 0 | Some (t, d) \<Rightarrow> t) = balance_where (of_type ty) c ?aggs"
    using open_rows [OF aggs, of "[]"] by auto
  have dist: "distinct (map fst ?m)" by (rule open_rows_distinct) simp
  have "rows_units tys (aggregateOpenBalancesByObjectType st) =
      sum_list (map (\<lambda>(k, (t, d)). if k \<in> set tys then t else 0) ?m)"
    unfolding rows_units_def aggregateOpenBalancesByObjectType_def sum_list_filter
    by (simp add: comp_def case_prod_beta' if_distrib cong: if_cong)
  also have "\<dots> = (\<Sum>ty\<in>set tys. balance_where (of_type ty) c ?aggs)"
    by (rule sum_distinct_keys [OF dist _ sums]) simp
  also have "\<dots> = balance_where (\<lambda>a. pa_objectType a \<in> set tys) c ?aggs"
    by (rule balance_where_types) simp
  finally show "rows_units tys (aggregateOpenBalancesByObjectType st) =
      balance_where (\<lambda>a. pa_objectType a \<in> set tys) c ?aggs" .
  have "0 < t \<and> d = c" if "(ty, (t, d)) \<in> set ?m" for ty t d
    using rows that dist by (metis map_of_eq_Some_iff)
  then show "\<forall>r\<in>set (aggregateOpenBalancesByObjectType st). 0 < or_openBalanceUnits r \<and> or_currency r = c"
    unfolding aggregateOpenBalancesByObjectType_def by fastforce
qed

section \<open>Cash position\<close>

definition line_units :: "OpenBalanceByObjectType list \<Rightarrow> int" where
  "line_units lines = sum_list (map (units \<circ> ob_openBalance) lines)"

lemma line_units_simps [simp]:
  "line_units [] = 0" "line_units (xs @ [l]) = line_units xs + units (ob_openBalance l)"
  by (simp_all add: line_units_def)

lemma line_units_sort [simp]: "line_units (sort_by cmp lines) = line_units lines"
proof -
  have "mset (map (units \<circ> ob_openBalance) (sort_by cmp lines)) = mset (map (units \<circ> ob_openBalance) lines)"
    by simp
  then show ?thesis unfolding line_units_def by (metis sum_mset_sum_list)
qed

text \<open>Every total is the sum of its own lines, and of the rows of its types.\<close>

definition totals_ok :: "string \<Rightarrow> PositionTotals \<Rightarrow> bool" where
  "totals_ok c T \<longleftrightarrow>
     (\<forall>(m, lines)\<in>{(pq_openReceivables T, pq_receivableLines T), (pq_openPayables T, pq_payableLines T),
                   (pq_contingent T, pq_contingentLines T)}.
        valid_money m \<and> currency m = c \<and> units m = line_units lines)"

lemma types_disjoint:
  "set USINA_RECEIVABLE_OBJECT_TYPES \<inter> set USINA_PAYABLE_OBJECT_TYPES = {}"
  "set USINA_RECEIVABLE_OBJECT_TYPES \<inter> set USINA_CONTINGENT_OBJECT_TYPES = {}"
  "set USINA_PAYABLE_OBJECT_TYPES \<inter> set USINA_CONTINGENT_OBJECT_TYPES = {}"
  by (simp_all add: USINA_RECEIVABLE_OBJECT_TYPES_def USINA_PAYABLE_OBJECT_TYPES_def
      USINA_CONTINGENT_OBJECT_TYPES_def)

lemma rows_units_Cons:
  "rows_units tys (r # rows) = (if or_objectType r \<in> set tys then or_openBalanceUnits r else 0) + rows_units tys rows"
  by (simp add: rows_units_def)

lemma position_row_ok:
  assumes "totals_ok c T" "0 < or_openBalanceUnits r" "or_currency r = c" "is_currency c"
  shows "\<exists>T'. position_row r T = Inr T' \<and> totals_ok c T' \<and>
    units (pq_openReceivables T') = units (pq_openReceivables T) + rows_units USINA_RECEIVABLE_OBJECT_TYPES [r] \<and>
    units (pq_openPayables T') = units (pq_openPayables T) + rows_units USINA_PAYABLE_OBJECT_TYPES [r] \<and>
    units (pq_contingent T') = units (pq_contingent T) + rows_units USINA_CONTINGENT_OBJECT_TYPES [r]"
proof -
  have m: "fromUnits (or_openBalanceUnits r) c = Inr (money_of c (or_openBalanceUnits r))"
    using assms by (simp add: fromUnits_def)
  have add: "money_add a (money_of c (or_openBalanceUnits r)) = Inr (money_of c (units a + or_openBalanceUnits r))"
    if "valid_money a" "currency a = c" for a
    using that assms by (simp add: money_add_Inr valid_money_def)
  have v: "valid_money (pq_openReceivables T)" "currency (pq_openReceivables T) = c"
    "valid_money (pq_openPayables T)" "currency (pq_openPayables T) = c"
    "valid_money (pq_contingent T)" "currency (pq_contingent T) = c"
    using assms(1) by (auto simp: totals_ok_def)
  show ?thesis
    using assms types_disjoint v
    by (auto simp: position_row_def m add totals_ok_def valid_money_def rows_units_def Let_def)
qed

lemma position_rows_ok:
  assumes "totals_ok c T" "\<forall>r\<in>set rows. 0 < or_openBalanceUnits r \<and> or_currency r = c" "is_currency c"
  shows "\<exists>T'. efold position_row rows T = Inr T' \<and> totals_ok c T' \<and>
    units (pq_openReceivables T') = units (pq_openReceivables T) + rows_units USINA_RECEIVABLE_OBJECT_TYPES rows \<and>
    units (pq_openPayables T') = units (pq_openPayables T) + rows_units USINA_PAYABLE_OBJECT_TYPES rows \<and>
    units (pq_contingent T') = units (pq_contingent T) + rows_units USINA_CONTINGENT_OBJECT_TYPES rows"
  using assms(1,2)
proof (induction rows arbitrary: T)
  case Nil
  then show ?case by (simp add: rows_units_def)
next
  case (Cons r rows)
  then obtain T1 where T1: "position_row r T = Inr T1" "totals_ok c T1"
    "units (pq_openReceivables T1) = units (pq_openReceivables T) + rows_units USINA_RECEIVABLE_OBJECT_TYPES [r]"
    "units (pq_openPayables T1) = units (pq_openPayables T) + rows_units USINA_PAYABLE_OBJECT_TYPES [r]"
    "units (pq_contingent T1) = units (pq_contingent T) + rows_units USINA_CONTINGENT_OBJECT_TYPES [r]"
    using position_row_ok [OF Cons.prems(1) _ _ assms(3)] by (metis list.set_intros(1))
  have split: "rows_units tys (r # rows) = rows_units tys [r] + rows_units tys rows" for tys
    by (simp add: rows_units_def)
  from Cons.IH [OF T1(2)] Cons.prems(2) obtain T2 where
    "efold position_row rows T1 = Inr T2" "totals_ok c T2"
    "units (pq_openReceivables T2) = units (pq_openReceivables T1) + rows_units USINA_RECEIVABLE_OBJECT_TYPES rows"
    "units (pq_openPayables T2) = units (pq_openPayables T1) + rows_units USINA_PAYABLE_OBJECT_TYPES rows"
    "units (pq_contingent T2) = units (pq_contingent T1) + rows_units USINA_CONTINGENT_OBJECT_TYPES rows"
    by auto
  with T1 show ?case unfolding efold.simps T1(1) ebind_simps by (simp add: split)
qed

text \<open>
  The summary of a book in one currency: it does not fail, every total is the sum of the open
  balances of its types, and of the lines published beside it. The currency of a book without cash
  movements is the default one, so such a book has to be kept in that currency.
\<close>

lemma cash_position_sums:
  assumes book: "one_currency_book c st" and c: "cf_currency (aggregateCashFlows st) = c"
  shows "\<exists>S. cash_position P now st = Inr S \<and>
    units (cp_totalCashIn S) = effect_units EconomicEffect.CASH_IN (standing st) \<and>
    units (cp_totalCashOut S) = effect_units EconomicEffect.CASH_OUT (standing st) \<and>
    (\<forall>(m, lines, tys)\<in>{(cp_openReceivables S, cp_openReceivablesByType S, USINA_RECEIVABLE_OBJECT_TYPES),
                        (cp_openPayables S, cp_openPayablesByType S, USINA_PAYABLE_OBJECT_TYPES),
                        (cp_contingentExposure S, cp_contingentExposureByType S, USINA_CONTINGENT_OBJECT_TYPES)}.
       units m = line_units lines \<and>
       units m = balance_where (\<lambda>a. pa_objectType a \<in> set tys) c (map snd (buildAggregateMap st)))"
proof -
  have valid: "valid_amounts st" using book by (simp add: valid_amounts_def one_currency_book_def)
  have cur: "is_currency c" using flows_currency_valid(2) [OF valid] c by simp
  have sums: "cashInUnits (aggregateCashFlows st) = effect_units EconomicEffect.CASH_IN (standing st)"
    "cashOutUnits (aggregateCashFlows st) = effect_units EconomicEffect.CASH_OUT (standing st)"
    unfolding aggregateCashFlows_fold cash_fold by (simp_all add: no_flows_def)
  have n: "0 \<le> effect_units ef (standing st)" for ef
    by (rule effect_units_nonneg) (use valid_amounts_standing [OF valid] in \<open>auto simp: valid_money_def\<close>)
  have z: "money_zero c = Inr (money_of c 0)" using cur by (simp add: money_zero_def)
  note rows = open_balance_rows [OF book]
  let ?init = "\<lparr>pq_openReceivables = money_of c 0, pq_openPayables = money_of c 0, pq_contingent = money_of c 0,
    pq_receivableLines = [], pq_payableLines = [], pq_contingentLines = []\<rparr>"
  have "totals_ok c ?init" using cur by (simp add: totals_ok_def valid_money_def)
  from position_rows_ok [OF this rows(2) cur] obtain T where
    T: "efold position_row (aggregateOpenBalancesByObjectType st) ?init = Inr T" "totals_ok c T"
      "units (pq_openReceivables T) = rows_units USINA_RECEIVABLE_OBJECT_TYPES (aggregateOpenBalancesByObjectType st)"
      "units (pq_openPayables T) = rows_units USINA_PAYABLE_OBJECT_TYPES (aggregateOpenBalancesByObjectType st)"
      "units (pq_contingent T) = rows_units USINA_CONTINGENT_OBJECT_TYPES (aggregateOpenBalancesByObjectType st)"
    by auto
  have run: "computePositionTotals st c = Inr T"
    unfolding computePositionTotals_def z ebind_simps T(1) by simp
  have ok: "fromUnits u c = Inr (money_of c u)" if "0 \<le> u" for u
    using that cur by (simp add: fromUnits_def)
  show ?thesis
    unfolding cash_position_def Let_def c sums ok [OF n] run ebind_simps
    using T(2-5) by (simp add: totals_ok_def sortByWeight_def rows(1))
qed

section \<open>Ratios and the dashboard\<close>

lemma ratio_range:
  fixes a b :: int
  assumes "0 \<le> a" "a \<le> b" "0 < b"
  shows "0 \<le> a * 10000 div b" and "a * 10000 div b \<le> 10000"
proof -
  have "a * 10000 div b \<le> (10000 * b) div b" using assms by (intro zdiv_mono1) simp_all
  with assms show "a * 10000 div b \<le> 10000" by simp
  from assms show "0 \<le> a * 10000 div b" by (simp add: pos_imp_zdiv_nonneg_iff)
qed

lemma closure_quality_range:
  assumes "valid_amounts st"
  shows "computeClosureQuality (aggregateClosureStats st from to c) \<in> {0..10000}"
proof -
  let ?E = "settling_in st from to c"
  let ?t = "sum_list (map (\<lambda>e. units (ev_amount e)) ?E)"
  have E: "\<forall>ev\<in>set ?E. 0 \<le> units (ev_amount ev)"
    using valid_amounts_standing [OF assms] by (auto simp: settling_in_def valid_money_def)
  have le: "effect_units ef evs \<le> sum_list (map (\<lambda>e. units (ev_amount e)) evs)"
    if "\<forall>ev\<in>set evs. 0 \<le> units (ev_amount ev)" for ef evs
    using that by (induction evs) auto
  have "0 \<le> effect_units EconomicEffect.CASH_IN ?E" "effect_units EconomicEffect.CASH_IN ?E \<le> ?t"
    using effect_units_nonneg [OF E] le [OF E] by blast+
  moreover from this have "?t \<noteq> 0 \<Longrightarrow> 0 < ?t" by linarith
  ultimately show ?thesis
    using ratio_range [of "effect_units EconomicEffect.CASH_IN ?E" ?t]
    by (simp add: computeClosureQuality_def aggregateClosureStats_sums)
qed

lemma capital_sums:
  "openExposureUnits (computeCapitalMetrics aggs c k t) = balance_where (\<lambda>a. \<not> is_payable a) c aggs"
  "capitalAtRiskUnits (computeCapitalMetrics aggs c k t) = balance_where (at_risk k) c aggs"
  "openPayableExposureUnits (computeCapitalMetrics aggs c k t) = balance_where is_payable c aggs"
  "overduePayableUnits (computeCapitalMetrics aggs c k t) =
     balance_where (\<lambda>a. is_payable a \<and> dueStateOf a t = overdue) c aggs"
  "upcomingPayableUnits (computeCapitalMetrics aggs c k t) =
     balance_where (\<lambda>a. is_payable a \<and> dueStateOf a t = upcoming) c aggs"
  "undatedPayableUnits (computeCapitalMetrics aggs c k t) =
     balance_where (\<lambda>a. is_payable a \<and> dueStateOf a t = unknown) c aggs"
  by (simp_all add: computeCapitalMetrics_def capital_fold)

lemma risk_within_exposure:
  "balance_where (at_risk k) c aggs \<le> balance_where (\<lambda>a. \<not> is_payable a) c aggs"
  by (rule balance_where_mono) (simp add: at_risk_def)

lemma payable_split:
  "balance_where (\<lambda>a. is_payable a \<and> dueStateOf a t = overdue) c aggs
     + balance_where (\<lambda>a. is_payable a \<and> dueStateOf a t = upcoming) c aggs
     + balance_where (\<lambda>a. is_payable a \<and> dueStateOf a t = unknown) c aggs
   = balance_where is_payable c aggs"
proof (induction aggs)
  case Nil
  then show ?case by (simp add: balance_where_def)
next
  case (Cons agg aggs)
  then show ?case by (cases "dueStateOf agg t") (auto simp: balance_where_Cons)
qed

lemma open_book_health_range: "computeOpenBookHealth now aggs c \<in> {0..10000}"
proof -
  let ?r = "balance_where (at_risk (now - THIRTY_DAYS_MS)) c aggs"
  let ?e = "balance_where (\<lambda>a. \<not> is_payable a) c aggs"
  have "0 \<le> ?r" "?r \<le> ?e" by (rule balance_where_nonneg, rule risk_within_exposure)
  moreover from this have "?e \<noteq> 0 \<Longrightarrow> 0 < ?e" by linarith
  ultimately show ?thesis
    using ratio_range [of ?r ?e] by (simp add: computeOpenBookHealth_def capital_sums Let_def)
qed

lemma book_health_range:
  assumes "valid_amounts st"
  shows "hs_score_tenths (book_health now later st aggs) \<in> {0..1000}"
    and "hs_closureQuality_thousandths (book_health now later st aggs) \<in> {0..1000}"
    and "hs_openBookHealth_thousandths (book_health now later st aggs) \<in> {0..1000}"
proof -
  have r: "round_div x 10 \<in> {0..1000}" if "x \<in> {0..10000}" for x
    using that by (auto simp: round_div_def)
  have s: "round_div (4 * x + 6 * y) 100 \<in> {0..1000}" if "x \<in> {0..10000}" "y \<in> {0..10000}" for x y
    using that by (auto simp: round_div_def)
  show "hs_score_tenths (book_health now later st aggs) \<in> {0..1000}"
    and "hs_closureQuality_thousandths (book_health now later st aggs) \<in> {0..1000}"
    and "hs_openBookHealth_thousandths (book_health now later st aggs) \<in> {0..1000}"
    unfolding book_health_def Let_def BookHealthScore.select_convs
    by (intro r s closure_quality_range [OF assms] open_book_health_range)+
qed

lemma balance_where_sort [simp]: "balance_where Q c (sort_by cmp aggs) = balance_where Q c aggs"
proof -
  have "mset (map (\<lambda>a. if Q a then counted_balance c a else 0) (sort_by cmp aggs))
      = mset (map (\<lambda>a. if Q a then counted_balance c a else 0) aggs)" by simp
  then show ?thesis unfolding balance_where_def by (metis sum_mset_sum_list)
qed

section \<open>The rows of a period\<close>

lemma sum_update:
  fixes g :: "'k \<times> 'v \<Rightarrow> int"
  shows "sum_list (map g (AList.update k v m)) =
    sum_list (map g m) - (case map_of m k of None \<Rightarrow> 0 | Some w \<Rightarrow> g (k, w)) + g (k, v)"
  by (induction m) auto

definition keyed_units ::
  "EconomicEffect \<Rightarrow> ((EventType \<times> EconomicEffect) \<times> int \<times> string) list \<Rightarrow> int" where
  "keyed_units ef m = sum_list (map (\<lambda>((ty, e), (t, d)). if e = ef then t else 0) m)"

lemma period_step_units:
  assumes "ef \<in> {EconomicEffect.CASH_IN, EconomicEffect.CASH_OUT}"
  shows "keyed_units ef (period_step ret from to ev m) =
    keyed_units ef m + effect_units ef (filter (\<lambda>e. ev_id e \<notin> set ret \<and> in_period from to e) [ev])"
proof (cases "ev_id ev \<notin> set ret \<and> in_period from to ev \<and> is_cash ev")
  case True
  let ?k = "(ev_eventType ev, ev_economicEffect ev)"
  have "\<exists>t c. period_step ret from to ev m = AList.update ?k (t, c) m \<and>
      t = (case map_of m ?k of None \<Rightarrow> 0 | Some (t, d) \<Rightarrow> t) + units (ev_amount ev)"
    using True by (auto simp: period_step_def in_period_def Let_def toUnits_def split: option.splits)
  then obtain t c where u: "period_step ret from to ev m = AList.update ?k (t, c) m"
    "t = (case map_of m ?k of None \<Rightarrow> 0 | Some (t, d) \<Rightarrow> t) + units (ev_amount ev)" by blast
  show ?thesis
    using True by (auto simp: u keyed_units_def sum_update split: option.splits)
next
  case False
  have "period_step ret from to ev m = m"
    using False by (auto simp: period_step_def in_period_def)
  then show ?thesis using False assms by (auto simp: is_cash_def)
qed

lemma period_fold_units:
  assumes "ef \<in> {EconomicEffect.CASH_IN, EconomicEffect.CASH_OUT}"
  shows "keyed_units ef (fold (period_step ret from to) evs m) =
    keyed_units ef m + effect_units ef (filter (\<lambda>e. ev_id e \<notin> set ret \<and> in_period from to e) evs)"
proof (induction evs arbitrary: m)
  case Nil
  then show ?case by simp
next
  case (Cons ev evs)
  show ?case
    unfolding fold_simps unfolding Cons.IH unfolding period_step_units [OF assms] by auto
qed

lemma period_fold_range:
  assumes "\<forall>ev\<in>set evs. 0 \<le> units (ev_amount ev) \<and> currency (ev_amount ev) = c"
    and "\<forall>(k, (t, d))\<in>set m. 0 \<le> t \<and> d = c"
  shows "\<forall>(k, (t, d))\<in>set (fold (period_step ret from to) evs m). 0 \<le> t \<and> d = c"
  using assms
proof (induction evs arbitrary: m)
  case Nil
  then show ?case by simp
next
  case (Cons ev evs)
  have upd: "set (AList.update k v m) \<subseteq> insert (k, v) (set m)" for k v
    and m :: "((EventType \<times> EconomicEffect) \<times> int \<times> string) list"
    by (induction m) auto
  have "\<forall>(k, (t, d))\<in>set (period_step ret from to ev m). 0 \<le> t \<and> d = c"
    using Cons.prems upd
    by (fastforce simp: period_step_def Let_def toUnits_def dest!: map_of_SomeD split: option.splits if_splits)
  with Cons.IH Cons.prems(1) show ?case by simp
qed

definition row_units :: "EconomicEffect \<Rightarrow> PeriodRow list \<Rightarrow> int" where
  "row_units ef rows = sum_list (map (\<lambda>r. if row_economicEffect r = ef then row_totalUnits r else 0) rows)"

text \<open>The rows of a period add up to the cash that stands in it.\<close>

lemma period_rows_units:
  assumes "ef \<in> {EconomicEffect.CASH_IN, EconomicEffect.CASH_OUT}"
  shows "row_units ef (aggregatePeriodCashFlow st from to) = effect_units ef (standing_in st from to)"
proof -
  let ?m = "fold (period_step (retractedEventIds st) from to) st []"
  have "row_units ef (aggregatePeriodCashFlow st from to) = keyed_units ef ?m"
    by (simp add: row_units_def aggregatePeriodCashFlow_def keyed_units_def comp_def case_prod_beta' cong: if_cong)
  also have "\<dots> = effect_units ef (filter (\<lambda>e. ev_id e \<notin> set (retractedEventIds st) \<and> in_period from to e) st)"
    unfolding period_fold_units [OF assms] by (simp add: keyed_units_def)
  also have "filter (\<lambda>e. ev_id e \<notin> set (retractedEventIds st) \<and> in_period from to e) st = standing_in st from to"
    by (simp add: standing_in_def standing_def stands_def conj_commute)
  finally show ?thesis .
qed

lemma period_rows_range:
  assumes "one_currency_book c st"
  shows "\<forall>r\<in>set (aggregatePeriodCashFlow st from to). 0 \<le> row_totalUnits r \<and> row_currency r = c"
proof -
  have "\<forall>(k, (t, d))\<in>set (fold (period_step (retractedEventIds st) from to) st []). 0 \<le> t \<and> d = c"
    by (rule period_fold_range) (use assms in \<open>auto simp: one_currency_book_def valid_money_def\<close>)
  then show ?thesis unfolding aggregatePeriodCashFlow_def by fastforce
qed

lemma dashboard_rows:
  assumes "is_currency c" "\<forall>r\<in>set rows. 0 \<le> row_totalUnits r \<and> row_currency r = c"
  shows "\<exists>G. efold (dashboard_row c) rows F = Inr G \<and>
    df_in G = df_in F + row_units EconomicEffect.CASH_IN rows \<and>
    df_out G = df_out F + row_units EconomicEffect.CASH_OUT rows"
  using assms(2)
proof (induction rows arbitrary: F)
  case Nil
  then show ?case by (simp add: row_units_def)
next
  case (Cons r rows)
  have ok: "fromUnits (row_totalUnits r) c = Inr (money_of c (row_totalUnits r))"
    using Cons.prems assms(1) by (simp add: fromUnits_def)
  have "\<exists>G. dashboard_row c r F = Inr G \<and> df_in G = df_in F + row_units EconomicEffect.CASH_IN [r] \<and>
      df_out G = df_out F + row_units EconomicEffect.CASH_OUT [r]"
    using Cons.prems by (auto simp: dashboard_row_def ok row_units_def)
  then obtain G where G: "dashboard_row c r F = Inr G" "df_in G = df_in F + row_units EconomicEffect.CASH_IN [r]"
    "df_out G = df_out F + row_units EconomicEffect.CASH_OUT [r]" by blast
  have split: "row_units ef (r # rows) = row_units ef [r] + row_units ef rows" for ef
    by (simp add: row_units_def)
  from Cons.IH [of G] Cons.prems G show ?case unfolding efold.simps G(1) ebind_simps by (auto simp: split)
qed

lemma list_items_ok:
  "\<forall>agg\<in>set aggs. valid_aggregate agg \<Longrightarrow> \<exists>items. emap aggregateToListItem aggs = Inr items"
  by (induction aggs) (auto simp: list_item)

text \<open>The dashboard of a book in one currency.\<close>

lemma dashboard_sums:
  assumes book: "one_currency_book c st"
  shows "\<exists>D. dashboard now1 now2 now3 st from to = Inr D \<and>
    units (db_cashIn D) = effect_units EconomicEffect.CASH_IN (standing_in st from to) \<and>
    units (db_cashOut D) = effect_units EconomicEffect.CASH_OUT (standing_in st from to) \<and>
    db_netCashUnits D = units (db_cashIn D) - units (db_cashOut D) \<and>
    units (db_openPayableExposure D) = balance_where is_payable c (map snd (buildAggregateMap st)) \<and>
    units (db_overduePayable D) + units (db_upcomingPayable D) + units (db_undatedPayable D)
      = units (db_openPayableExposure D) \<and>
    units (db_openExposure D) = balance_where (\<lambda>a. \<not> is_payable a) c (map snd (buildAggregateMap st)) \<and>
    units (db_capitalAtRisk D) \<le> units (db_openExposure D)"
proof -
  let ?aggs = "findAllPositionAggregates st"
  let ?rows = "aggregatePeriodCashFlow st from to"
  let ?d = "resolveCurrency ?rows ?aggs"
  let ?M = "computeCapitalMetrics ?aggs ?d (now3 - THIRTY_DAYS_MS) now3"
  have aggs: "\<forall>a\<in>set ?aggs. valid_aggregate a \<and> pa_currency a = c"
    using book_aggregates [OF book] by (simp add: findAllPositionAggregates_def)
  note rows = period_rows_range [OF book, of "from" to]
  have "is_currency DEFAULT_CURRENCY" by code_simp
  moreover have "is_currency c" if "?rows \<noteq> [] \<or> ?aggs \<noteq> []"
  proof -
    have "st \<noteq> []"
      using that
      by (auto simp: aggregatePeriodCashFlow_def findAllPositionAggregates_def buildAggregateMap_def sort_by_def)
    with book show ?thesis by (cases st) (auto simp: one_currency_book_def valid_money_def)
  qed
  moreover have "(?rows \<noteq> [] \<or> ?aggs \<noteq> []) \<and> ?d = c \<or> ?rows = [] \<and> ?aggs = [] \<and> ?d = DEFAULT_CURRENCY"
    using rows aggs by (auto simp: resolveCurrency_def split: list.splits)
  ultimately have cur: "is_currency ?d" and d: "?d = c \<or> ?rows = [] \<and> ?aggs = []" by metis+
  from d have rows_d: "\<forall>r\<in>set ?rows. 0 \<le> row_totalUnits r \<and> row_currency r = ?d" using rows by auto
  from dashboard_rows [OF cur rows_d,
      of "\<lparr>df_in = 0, df_out = 0, df_inByType = [], df_outByType = []\<rparr>"] obtain F where
    F: "efold (dashboard_row ?d) ?rows \<lparr>df_in = 0, df_out = 0, df_inByType = [], df_outByType = []\<rparr> = Inr F"
      "df_in F = effect_units EconomicEffect.CASH_IN (standing_in st from to)"
      "df_out F = effect_units EconomicEffect.CASH_OUT (standing_in st from to)"
    by (auto simp: period_rows_units)
  have n: "0 \<le> effect_units ef (standing_in st from to)" for ef
    by (rule effect_units_nonneg) (use book in \<open>auto simp: standing_in_def standing_def one_currency_book_def valid_money_def\<close>)
  have ok: "fromUnits u ?d = Inr (money_of ?d u)" if "0 \<le> u" for u using that cur by (simp add: fromUnits_def)
  have bal: "balance_where Q ?d ?aggs = balance_where Q c (map snd (buildAggregateMap st))" for Q
  proof -
    have "balance_where Q ?d ?aggs = balance_where Q c ?aggs"
      using d by (auto simp: balance_where_def)
    then show ?thesis by (simp add: findAllPositionAggregates_def)
  qed
  let ?att = "slice 0 6 (sort_by attention_compare (filter (needs_attention ?d) ?aggs))"
  have "\<forall>a\<in>set ?att. valid_aggregate a"
    using aggs by (auto dest!: in_set_takeD)
  from list_items_ok [OF this] obtain items where items: "emap aggregateToListItem ?att = Inr items" by blast
  show ?thesis
    unfolding dashboard_def Let_def F ebind_simps capital_sums ok [OF n] ok [OF balance_where_nonneg] items
    by (simp add: bal payable_split risk_within_exposure)
qed

end
