(* ===== verification/Book_Facts.thy ===== *)
theory Book_Facts
  imports Ledger_Invariant Report_Sums
begin

text \<open>
  What the read side may rely on in every reachable book: amounts are valid, identifiers are there;
  recording an event changes which events stand only through the retraction it is. Then the two
  places where the write path and the read path have to see the same position, and the ways the
  guards refuse.
\<close>

section \<open>Reachable books\<close>

lemma reachable_ids: "reachable P st \<Longrightarrow> \<forall>e\<in>set st. ev_id e \<noteq> []"
proof (induction rule: reachable.induct)
  case empty
  then show ?case by simp
next
  case (record_event st env cmd ev st' au)
  then consider "st' = st" | "build_event_of P env st cmd = Inr ev" "save st ev = Inr st'"
    by (auto simp: execute_Inr)
  then show ?case
  proof cases
    case 1
    with record_event show ?thesis by simp
  next
    case 2
    have "env_uuid env \<noteq> []"
      using 2(1) by (auto simp: build_event_of_def ebind_Inr new_EventId_def split: if_splits)
    moreover have "ev_id ev = env_uuid env" by (rule build_event_of_Inr [OF 2(1)]) simp
    ultimately have "ev_id ev \<noteq> []" by simp
    with 2(2) record_event.IH show ?thesis by (auto simp: save_def split: if_splits)
  qed
qed

lemma reachable_amounts: "reachable P st \<Longrightarrow> valid_amounts st"
  using all_lawful [OF reachable_each_after] by (auto simp: valid_amounts_def lawful_def valid_event_def)

lemma reachable_one_retraction: "reachable P st \<Longrightarrow> one_retraction_each st"
  by (rule one_retraction [OF reachable_each_after])

section \<open>What recording an event does to the others\<close>

lemma same_id_same_event:
  "each_after (recorded_after P) st \<Longrightarrow> a \<in> set st \<Longrightarrow> b \<in> set st \<Longrightarrow> ev_id a = ev_id b \<Longrightarrow> a = b"
  using distinct_ids by (metis distinct_map inj_onD)

lemma new_id_untouched:
  assumes inv: "each_after (recorded_after P) st" and ev: "recorded_after P st r"
  shows "map_of (retractionByTarget st) (ev_id r) = None"
proof -
  have "\<not> retracts_id x (ev_id r)" if "x \<in> set st" for x
    using retraction_targets_present [OF inv that] ev by (auto simp: recorded_after_def fresh_keys_def)
  then show ?thesis by (simp add: retraction_None)
qed

lemma standing_after_plain:
  assumes inv: "each_after (recorded_after P) st" and ev: "recorded_after P st r" and "\<not> is_retraction r"
  shows "standing (st @ [r]) = standing st @ [r]"
proof -
  have m: "map_of (retractionByTarget (st @ [r])) t = map_of (retractionByTarget st) t" for t
    using assms(3) by (simp add: map_of_retraction_snoc retracts_id_def)
  have "stands (st @ [r]) e = stands st e" for e by (simp add: stands_def retractedEventIds_iff m)
  moreover have "stands st r" using new_id_untouched [OF inv ev] by (simp add: stands_def retractedEventIds_iff)
  ultimately show ?thesis by (simp add: standing_def cong: filter_cong)
qed

lemma stands_after_retraction:
  assumes inv: "each_after (recorded_after P) st" and r: "recorded_after P st r"
    and e: "e \<in> set st" "retracts_id r (ev_id e)" and x: "x \<in> set st"
  shows "stands (st @ [r]) x \<longleftrightarrow> x \<noteq> e \<and> (retracts_id e (ev_id x) \<or> stands st x)"
proof -
  let ?M = "map_of (retractionByTarget st)" and ?M' = "map_of (retractionByTarget (st @ [r]))"
  have M': "?M' t = (if t = ev_id e then Some (ev_id r) else ?M t)" for t
    using e(2) by (auto simp: map_of_retraction_snoc retracts_id_def)
  have fresh: "ev_id r \<noteq> ev_id e" using r e(1) by (auto simp: recorded_after_def fresh_keys_def)
  have top: "?M' (ev_id r) = None" using new_id_untouched [OF inv r] fresh by (simp add: M')
  show ?thesis
  proof (cases "x = e")
    case True
    then show ?thesis using top by (simp add: stands_def retractedEventIds_iff M' fresh)
  next
    case False
    then have id: "ev_id x \<noteq> ev_id e" using same_id_same_event [OF inv x e(1)] by blast
    have by_e: "?M (ev_id x) = Some (ev_id e) \<longleftrightarrow> retracts_id e (ev_id x)"
      using retraction_Some [OF one_retraction [OF inv]] e(1) same_id_same_event [OF inv] by blast
    have none: "?M (ev_id e) = None"
      using r e by (auto simp: retraction_None recorded_after_def retraction_ok_def)
    show ?thesis
      using False id by_e none by (auto simp: stands_def retractedEventIds_iff M')
  qed
qed

text \<open>
  Retracting an event takes exactly that event out of what stands; retracting a retraction also puts
  its target back.
\<close>

lemma standing_after_retraction:
  assumes inv: "each_after (recorded_after P) st" and r: "recorded_after P st r"
    and e: "e \<in> set st" "retracts_id r (ev_id e)"
  shows "standing (st @ [r]) = filter (\<lambda>x. x \<noteq> e \<and> (retracts_id e (ev_id x) \<or> stands st x)) st @ [r]"
proof -
  have "stands (st @ [r]) r"
  proof -
    have "ev_id r \<noteq> ev_id e" using r e(1) by (auto simp: recorded_after_def fresh_keys_def)
    then have "map_of (retractionByTarget (st @ [r])) (ev_id r) = None"
      using new_id_untouched [OF inv r] e(2) by (auto simp: map_of_retraction_snoc retracts_id_def)
    then show ?thesis by (simp add: stands_def retractedEventIds_iff)
  qed
  moreover have "filter (stands (st @ [r])) st = filter (\<lambda>x. x \<noteq> e \<and> (retracts_id e (ev_id x) \<or> stands st x)) st"
    by (rule filter_cong) (use stands_after_retraction [OF inv r e] in auto)
  ultimately show ?thesis by (simp add: standing_def)
qed

section \<open>The guard of the write path and the aggregates of the read path\<close>

lemma guard_sees_aggregate:
  assumes "retractions_name oid st"
  shows "foldObjectTotals (findByObjectId st oid) oid =
    (case map_of (buildAggregateMap st) oid of
       None \<Rightarrow> \<lparr>originatedUnits = 0, closedUnits = 0, ot_hasReversal = False\<rparr>
     | Some agg \<Rightarrow> \<lparr>originatedUnits = pa_totalOriginatedUnits agg,
                   closedUnits = pa_totalSettledUnits agg + pa_totalAdjustedUnits agg,
                   ot_hasReversal = pa_hasReversal agg\<rparr>)"
proof (cases "map_of (buildAggregateMap st) oid")
  case None
  then have "filter (mentions oid) (standing st) = []" by (simp add: build_None filter_empty_conv)
  then have "standing (findByObjectId st oid) = []" by (simp add: standing_naming [OF assms])
  with None show ?thesis by (simp add: foldObjectTotals_sums totals_of_def)
next
  case (Some agg)
  then show ?thesis by (simp add: guard_totals [OF assms] build_totals)
qed

section \<open>How the guards refuse\<close>

lemma conservation_refusal:
  assumes "valid_money money" and T: "T = foldObjectTotals (findByObjectId st (obj_id ob)) (obj_id ob)"
  shows "conservation_object st money ob = Some err \<longleftrightarrow>
    obj_relation ob = Relation.SETTLES \<and> \<not> ot_hasReversal T \<and> originatedUnits T \<noteq> 0 \<and>
    originatedUnits T < closedUnits T + units money \<and>
    err = (if originatedUnits T < closedUnits T then Money_Error MoneyNegative
           else UseCase_Error (OverSettlement (obj_id ob)
             (money_toString \<lparr>units = originatedUnits T - closedUnits T, currency = currency money\<rparr>)))"
  using assms(1) unfolding conservation_object_def Let_def T [symmetric]
  by (auto simp: fromUnits_def new_Money_def toUnits_def valid_money_def)

lemma second_retraction_refused:
  assumes inv: "each_after (recorded_after P) st" and r: "r \<in> set st" "retracts_id r t"
    and cmd: "known_command st cmd = None" "cmd_relatedEventId cmd = Some t"
      "has_relation Relation.RETRACTS (cmd_objects cmd)"
  shows "\<exists>err. execute P env st cmd = Inl err"
proof (cases "execute P env st cmd")
  case (Inl err)
  then show ?thesis by blast
next
  case (Inr res)
  obtain ev st' au where res: "res = (ev, st', au)" by (cases res)
  with Inr have "build_event_of P env st cmd = Inr ev" "save st ev = Inr st'" using cmd(1) by (auto simp: execute_Inr)
  then have "ev_relatedEventId ev = Some t" "is_retraction ev" "st' = st @ [ev]"
    using cmd by (auto elim!: build_event_of_Inr simp: is_retraction_def dest: memory.save_appends [unfolded findAll_def])
  moreover from this execute_step [OF inv Inr [unfolded res]] have "recorded_after P st ev" by auto
  ultimately show ?thesis
    using r by (auto simp: recorded_after_def retraction_ok_def retracts_id_def)
qed

end
