(* ===== verification/Cash_Movements.thy ===== *)
theory Cash_Movements
  imports Ledger_Aggregates
begin

text \<open>
  The listing of cash movements: the query of \<open>InMemoryLedgerEventRepository.ts\<close> in its two modes
  (numbered pages, keyset cursor) and \<open>CashEventListingService.ts\<close> in front of it. The text of a
  cursor is base64 of JSON, both of the platform, so the service takes the codec as an argument. The
  main result is that following the cursors visits every movement that matches, once, in order.
\<close>

section \<open>The query of the store\<close>

record CashMovementCursor =
  cur_key :: SortKey
  cur_order :: SortOrder
  cur_value :: instant
  cur_id :: string

record MovementQuery =
  mq_partyId :: "string option"
  mq_effect :: "EconomicEffect option"
  mq_from :: "instant option"
  mq_to :: "instant option"
  mq_limit :: int
  mq_cursor :: "CashMovementCursor option"
  mq_page :: "int option"
  mq_sortBy :: "SortKey option"
  mq_sortOrder :: "SortOrder option"

record CashMovementsQueryResult =
  mr_items :: "LedgerEvent list"
  mr_hasMore :: bool
  mr_nextCursor :: "CashMovementCursor option"
  mr_total :: "int option"
  mr_page :: "int option"
  mr_totalPages :: "int option"

definition party_moves :: "string option \<Rightarrow> Direction \<Rightarrow> LedgerEvent \<Rightarrow> bool" where
  "party_moves party d ev \<longleftrightarrow>
     (truthy party \<longrightarrow> list_ex (\<lambda>q. Some (party_id q) = party \<and> party_direction q = d) (ev_parties ev))"

definition movement_matches :: "string list \<Rightarrow> MovementQuery \<Rightarrow> LedgerEvent \<Rightarrow> bool" where
  "movement_matches retracted q ev =
     (if ev_id ev \<in> set retracted then False
      else if (case mq_effect q of None \<Rightarrow> False | Some ef \<Rightarrow> ev_economicEffect ev \<noteq> ef) then False
      else if ev_economicEffect ev = EconomicEffect.CASH_IN \<and> \<not> party_moves (mq_partyId q) Direction.IN ev
      then False
      else if ev_economicEffect ev = EconomicEffect.CASH_OUT \<and> \<not> party_moves (mq_partyId q) Direction.OUT ev
      then False
      else if \<not> is_cash ev then False
      else if (case mq_from q of None \<Rightarrow> False | Some f \<Rightarrow> ev_occurredAt ev < f) then False
      else if (case mq_to q of None \<Rightarrow> False | Some t \<Rightarrow> ev_occurredAt ev > t) then False
      else True)"

definition movement_key :: "MovementQuery \<Rightarrow> SortKey" where
  "movement_key q = (if mq_sortBy q = Some recordedAt then recordedAt else occurredAt)"

definition movement_order :: "MovementQuery \<Rightarrow> SortOrder" where
  "movement_order q = (if mq_sortOrder q = Some ASC then ASC else DESC)"

text \<open>Everything that matches, sorted: what both modes page over.\<close>

definition sorted_movements :: "store \<Rightarrow> MovementQuery \<Rightarrow> LedgerEvent list" where
  "sorted_movements st q =
     sort_by (event_compare (event_axis (movement_key q)) (movement_order q))
       (filter (movement_matches (retractedEventIds st) q) st)"

text \<open>Whether an event lies beyond the cursor in the direction of the listing.\<close>

definition beyond :: "MovementQuery \<Rightarrow> CashMovementCursor \<Rightarrow> LedgerEvent \<Rightarrow> bool" where
  "beyond q c ev =
     (let at = event_axis (movement_key q) ev
      in if movement_order q = ASC
         then at > cur_value c \<or> at = cur_value c \<and> ev_id ev > cur_id c
         else at < cur_value c \<or> at = cur_value c \<and> ev_id ev < cur_id c)"

definition cursor_at :: "MovementQuery \<Rightarrow> LedgerEvent \<Rightarrow> CashMovementCursor" where
  "cursor_at q ev =
     \<lparr>cur_key = movement_key q, cur_order = movement_order q,
      cur_value = event_axis (movement_key q) ev, cur_id = ev_id ev\<rparr>"

definition findCashMovementsPaginated :: "store \<Rightarrow> MovementQuery \<Rightarrow> CashMovementsQueryResult" where
  "findCashMovementsPaginated st q =
     (let sorted = sorted_movements st q; limit = mq_limit q
      in case mq_page q of
        Some p \<Rightarrow>
          (let page = max 1 p; n = int (length sorted)
           in \<lparr>mr_items = slice ((page - 1) * limit) (page * limit) sorted,
               mr_hasMore = page * limit < n, mr_nextCursor = None,
               mr_total = Some n, mr_page = Some page, mr_totalPages = Some (page_count n limit)\<rparr>)
      | None \<Rightarrow>
          (let rest = (case mq_cursor q of None \<Rightarrow> sorted | Some c \<Rightarrow> filter (beyond q c) sorted);
               taken = slice 0 (limit + 1) rest;
               hasMore = int (length taken) > limit;
               items = (if hasMore then slice 0 limit taken else taken)
           in \<lparr>mr_items = items, mr_hasMore = hasMore,
               mr_nextCursor =
                 (if hasMore \<and> items \<noteq> [] then Some (cursor_at q (last items)) else None),
               mr_total = None, mr_page = None, mr_totalPages = None\<rparr>))"

section \<open>The listing service\<close>

text \<open>The fields of the JSON text of a cursor, each of them possibly absent.\<close>

record CursorText =
  ct_key :: "string option"
  ct_order :: "string option"
  ct_value :: "string option"
  ct_occurredAt :: "string option"
  ct_id :: "string option"

text \<open>\<open>Buffer\<close> and \<open>JSON\<close>: reading is \<open>None\<close> when the text is not base64 of a JSON object.\<close>

record cursor_codec =
  write_cursor :: "CursorText \<Rightarrow> string"
  read_cursor :: "string \<Rightarrow> CursorText option"

datatype cursor_error = CursorUnreadable | CursorMismatch string string string string

definition encodeCursor :: "platform \<Rightarrow> cursor_codec \<Rightarrow> CashMovementCursor \<Rightarrow> string" where
  "encodeCursor P K c =
     write_cursor K
       \<lparr>ct_key = Some (sortKey_value (cur_key c)), ct_order = Some (sortOrder_value (cur_order c)),
        ct_value = Some (iso_string P (cur_value c)), ct_occurredAt = None, ct_id = Some (cur_id c)\<rparr>"

text \<open>The value of the cursor is a \<open>Date\<close> that may be invalid.\<close>

definition decodeCursor ::
  "platform \<Rightarrow> cursor_codec \<Rightarrow> string \<Rightarrow> SortKey \<Rightarrow> SortOrder
     \<Rightarrow> cursor_error + SortKey \<times> SortOrder \<times> js_date \<times> string" where
  "decodeCursor P K text sortBy sortOrder =
     (case read_cursor K text of
        None \<Rightarrow> Inl CursorUnreadable
      | Some d \<Rightarrow>
          (let key = (case ct_key d of None \<Rightarrow> ''occurredAt'' | Some k \<Rightarrow> k);
               order = (case ct_order d of None \<Rightarrow> sortOrder_value sortOrder | Some k \<Rightarrow> k);
               rawValue = (case ct_value d of None \<Rightarrow> ct_occurredAt d | Some v \<Rightarrow> Some v)
           in if \<not> truthy rawValue \<or> \<not> truthy (ct_id d) then Inl CursorUnreadable
              else if key \<noteq> sortKey_value sortBy \<or> order \<noteq> sortOrder_value sortOrder
              then Inl (CursorMismatch key order (sortKey_value sortBy) (sortOrder_value sortOrder))
              else Inr (sortBy, sortOrder, date_parse P (the rawValue), the (ct_id d))))"

record CashMovement =
  cm_eventId :: string
  cm_eventType :: EventType
  cm_occurredAt :: instant
  cm_recordedAt :: instant
  cm_effect :: EconomicEffect
  cm_amount :: Money
  cm_sourceReference :: string
  cm_sourceSystem :: string
  cm_objects :: "LedgerEventObject list"
  cm_parties :: "LedgerEventParty list"
  cm_counterparty :: "string option"
  cm_description :: "string option"

definition toMovement :: "LedgerEvent \<Rightarrow> CashMovement" where
  "toMovement ev =
     \<lparr>cm_eventId = ev_id ev, cm_eventType = ev_eventType ev, cm_occurredAt = ev_occurredAt ev,
      cm_recordedAt = ev_recordedAt ev, cm_effect = ev_economicEffect ev, cm_amount = ev_amount ev,
      cm_sourceReference = src_reference (ev_source ev), cm_sourceSystem = src_system (ev_source ev),
      cm_objects = ev_objects ev, cm_parties = ev_parties ev,
      cm_counterparty =
        map_option party_id (find (\<lambda>q. party_direction q = Direction.NEUTRAL) (ev_parties ev)),
      cm_description = ev_description ev\<rparr>"

record CashMovementPage =
  mp_items :: "CashMovement list"
  mp_nextCursor :: "string option"
  mp_hasMore :: bool
  mp_total :: "int option"
  mp_page :: "int option"
  mp_totalPages :: "int option"

record ListParams =
  lp_partyId :: "string option"
  lp_effect :: "EconomicEffect option"
  lp_from :: "instant option"
  lp_to :: "instant option"
  lp_limit :: int
  lp_cursor :: "string option"
  lp_page :: "int option"
  lp_sortBy :: "SortKey option"
  lp_sortOrder :: "SortOrder option"

text \<open>
  A cursor whose date cannot be read compares false with every instant (\<open>NaN\<close>), so nothing lies
  beyond it and the page is empty.
\<close>

definition list_movements ::
  "platform \<Rightarrow> cursor_codec \<Rightarrow> store \<Rightarrow> ListParams \<Rightarrow> cursor_error + CashMovementPage" where
  "list_movements P K st prm =
     (let limit = min (max 1 (lp_limit prm)) 200;
          sortBy = (case lp_sortBy prm of None \<Rightarrow> occurredAt | Some k \<Rightarrow> k);
          sortOrder = (case lp_sortOrder prm of None \<Rightarrow> DESC | Some k \<Rightarrow> k);
          query = (\<lambda>cursor page. \<lparr>mq_partyId = lp_partyId prm, mq_effect = lp_effect prm,
             mq_from = lp_from prm, mq_to = lp_to prm, mq_limit = limit, mq_cursor = cursor,
             mq_page = page, mq_sortBy = Some sortBy, mq_sortOrder = Some sortOrder\<rparr>);
          answer = (\<lambda>r. \<lparr>mp_items = map toMovement (mr_items r),
             mp_nextCursor = map_option (encodeCursor P K) (mr_nextCursor r), mp_hasMore = mr_hasMore r,
             mp_total = mr_total r, mp_page = mr_page r, mp_totalPages = mr_totalPages r\<rparr>)
      in if \<not> truthy (lp_cursor prm)
         then Inr (answer (findCashMovementsPaginated st (query None (lp_page prm))))
         else (case decodeCursor P K (the (lp_cursor prm)) sortBy sortOrder of
             Inl e \<Rightarrow> Inl e
           | Inr (key, order, None, i) \<Rightarrow>
               Inr \<lparr>mp_items = [], mp_nextCursor = None, mp_hasMore = False, mp_total = None,
                    mp_page = None, mp_totalPages = None\<rparr>
           | Inr (key, order, Some v, i) \<Rightarrow>
               Inr (answer (findCashMovementsPaginated st
                 (query (Some \<lparr>cur_key = key, cur_order = order, cur_value = v, cur_id = i\<rparr>) None)))))"

section \<open>The order of the listing\<close>

text \<open>With distinct identifiers the listing is strictly sorted: no two movements tie.\<close>

definition strictly_before :: "MovementQuery \<Rightarrow> LedgerEvent \<Rightarrow> LedgerEvent \<Rightarrow> bool" where
  "strictly_before q a b \<longleftrightarrow> beyond q (cursor_at q a) b"

lemma compare_strict:
  "ev_id a \<noteq> ev_id b \<Longrightarrow>
   event_compare (event_axis (movement_key q)) (movement_order q) a b \<le> 0 \<longleftrightarrow> strictly_before q a b"
  by (cases "movement_order q")
     (auto simp: event_compare_def compareIds_def strictly_before_def beyond_def cursor_at_def Let_def)

lemma strictly_before_irrefl: "\<not> strictly_before q a a"
  by (simp add: strictly_before_def beyond_def cursor_at_def Let_def)

lemma strictly_before_asym: "strictly_before q a b \<Longrightarrow> \<not> strictly_before q b a"
  by (auto simp: strictly_before_def beyond_def cursor_at_def Let_def)

lemma sorted_movements_set:
  "set (sorted_movements st q) = {ev \<in> set st. movement_matches (retractedEventIds st) q ev}"
  by (simp add: sorted_movements_def)

lemma sorted_movements_distinct:
  "distinct (map ev_id st) \<Longrightarrow> distinct (map ev_id (sorted_movements st q))"
  by (simp add: sorted_movements_def distinct_map_filter)

lemma sorted_movements_strict:
  assumes "distinct (map ev_id st)"
  shows "sorted_wrt (strictly_before q) (sorted_movements st q)"
proof -
  let ?L = "sorted_movements st q"
  have s: "sorted_wrt (\<lambda>a b. event_compare (event_axis (movement_key q)) (movement_order q) a b \<le> 0) ?L"
    unfolding sorted_movements_def by (rule event_order.sorted_sort_by)
  have d: "distinct (map ev_id ?L)" using assms by (rule sorted_movements_distinct)
  show ?thesis
    unfolding sorted_wrt_iff_nth_less
  proof (intro allI impI)
    fix i j assume ij: "i < j" "j < length ?L"
    with d have ne: "ev_id (?L ! i) \<noteq> ev_id (?L ! j)" by (auto simp: distinct_conv_nth)
    from s ij have "event_compare (event_axis (movement_key q)) (movement_order q) (?L ! i) (?L ! j) \<le> 0"
      by (simp add: sorted_wrt_iff_nth_less)
    then show "strictly_before q (?L ! i) (?L ! j)" by (rule compare_strict [OF ne, THEN iffD1])
  qed
qed

lemma filter_beyond:
  assumes "sorted_wrt (strictly_before q) (xs @ e # ys)"
  shows "filter (beyond q (cursor_at q e)) (xs @ e # ys) = ys"
proof -
  have "\<not> strictly_before q e x" if "x \<in> set xs" for x
    using assms that strictly_before_asym by (auto simp: sorted_wrt_append)
  then have "filter (beyond q (cursor_at q e)) xs = []"
    by (auto simp: filter_empty_conv strictly_before_def)
  moreover have "\<not> beyond q (cursor_at q e) e"
    using strictly_before_irrefl [of q e] by (simp add: strictly_before_def)
  moreover have "strictly_before q e y" if "y \<in> set ys" for y
    using assms that by (auto simp: sorted_wrt_append)
  then have "filter (beyond q (cursor_at q e)) ys = ys" by (simp add: strictly_before_def)
  ultimately show ?thesis by simp
qed

section \<open>Following the cursors\<close>

text \<open>A reader that asks for the next page until there is no cursor; the fuel bounds the pages.\<close>

fun walk :: "nat \<Rightarrow> store \<Rightarrow> MovementQuery \<Rightarrow> LedgerEvent list" where
  "walk 0 st q = []"
| "walk (Suc n) st q =
     (let r = findCashMovementsPaginated st q
      in mr_items r @ (case mr_nextCursor r of
           None \<Rightarrow> []
         | Some c \<Rightarrow> walk n st (q\<lparr>mq_cursor := Some c\<rparr>)))"

definition rest_of :: "store \<Rightarrow> MovementQuery \<Rightarrow> LedgerEvent list" where
  "rest_of st q =
     (case mq_cursor q of None \<Rightarrow> sorted_movements st q | Some c \<Rightarrow> filter (beyond q c) (sorted_movements st q))"

lemma keyset_page:
  assumes "mq_page q = None" "1 \<le> mq_limit q"
  shows "mr_items (findCashMovementsPaginated st q) = take (nat (mq_limit q)) (rest_of st q)"
    and "mr_nextCursor (findCashMovementsPaginated st q) =
      (if nat (mq_limit q) < length (rest_of st q)
       then Some (cursor_at q (rest_of st q ! (nat (mq_limit q) - 1))) else None)"
proof -
  let ?l = "nat (mq_limit q)" and ?R = "rest_of st q"
  have taken: "slice 0 (mq_limit q + 1) ?R = take (Suc ?l) ?R"
    using assms by (simp add: nat_add_distrib)
  have more: "int (length (take (Suc ?l) ?R)) > mq_limit q \<longleftrightarrow> ?l < length ?R"
    using assms by (auto simp: min_def)
  have page: "findCashMovementsPaginated st q =
      (let hasMore = ?l < length ?R; items = (if hasMore then take ?l (take (Suc ?l) ?R) else take (Suc ?l) ?R)
       in \<lparr>mr_items = items, mr_hasMore = hasMore,
           mr_nextCursor = (if hasMore \<and> items \<noteq> [] then Some (cursor_at q (last items)) else None),
           mr_total = None, mr_page = None, mr_totalPages = None\<rparr>)"
    unfolding findCashMovementsPaginated_def Let_def assms(1) option.case rest_of_def [symmetric] taken more
    using assms by simp
  show "mr_items (findCashMovementsPaginated st q) = take ?l ?R"
    by (auto simp: page Let_def)
  have "last (take ?l ?R) = ?R ! (?l - 1)" if "?l < length ?R"
  proof -
    have "take ?l ?R \<noteq> []" using that assms by auto
    then have "last (take ?l ?R) = take ?l ?R ! (?l - 1)" using that by (simp add: last_conv_nth min_def)
    also have "\<dots> = ?R ! (?l - 1)" using assms by (intro nth_take) simp
    finally show ?thesis .
  qed
  then show "mr_nextCursor (findCashMovementsPaginated st q) =
      (if ?l < length ?R then Some (cursor_at q (?R ! (?l - 1))) else None)"
    using assms by (auto simp: page Let_def)
qed

lemma query_fields [simp]:
  "movement_key (q\<lparr>mq_cursor := c\<rparr>) = movement_key q"
  "movement_order (q\<lparr>mq_cursor := c\<rparr>) = movement_order q"
  by (simp_all add: movement_key_def movement_order_def)

lemma query_matches [simp]: "movement_matches r (q\<lparr>mq_cursor := c\<rparr>) = movement_matches r q"
  by (rule ext) (simp add: movement_matches_def)

lemma query_cursor [simp]:
  "sorted_movements st (q\<lparr>mq_cursor := c\<rparr>) = sorted_movements st q"
  "cursor_at (q\<lparr>mq_cursor := c\<rparr>) = cursor_at q"
  by (simp_all add: sorted_movements_def cursor_at_def [abs_def])

lemma query_beyond [simp]: "beyond (q\<lparr>mq_cursor := c\<rparr>) = beyond q"
  by (intro ext) (simp add: beyond_def)

lemma rest_suffix:
  assumes "distinct (map ev_id st)" "sorted_movements st q = xs @ e # ys"
  shows "rest_of st (q\<lparr>mq_cursor := Some (cursor_at q e)\<rparr>) = ys"
proof -
  have "rest_of st (q\<lparr>mq_cursor := Some (cursor_at q e)\<rparr>)
      = filter (beyond q (cursor_at q e)) (xs @ e # ys)"
    unfolding rest_of_def assms(2) [symmetric] by simp
  also have "\<dots> = ys"
    using sorted_movements_strict [OF assms(1), of q] unfolding assms(2) by (rule filter_beyond)
  finally show ?thesis .
qed

lemma walk_rest:
  assumes "distinct (map ev_id st)" "mq_page q = None" "1 \<le> mq_limit q"
    and "sorted_movements st q = pre @ rest_of st q" "length (rest_of st q) < n"
  shows "walk n st q = rest_of st q"
  using assms(2-)
proof (induction n arbitrary: q pre)
  case 0
  then show ?case by simp
next
  case (Suc n)
  let ?l = "nat (mq_limit q)" and ?R = "rest_of st q"
  show ?case
  proof (cases "?l < length ?R")
    case False
    then show ?thesis using keyset_page [OF Suc.prems(1,2), of st] by (simp add: Let_def)
  next
    case True
    let ?e = "?R ! (?l - 1)"
    let ?q = "q\<lparr>mq_cursor := Some (cursor_at q ?e)\<rparr>"
    have "0 < ?l" using Suc.prems(2) by simp
    then have split: "?R = take (?l - 1) ?R @ ?e # drop ?l ?R"
      using True id_take_nth_drop [of "?l - 1" ?R] by simp
    have all: "sorted_movements st q = (pre @ take (?l - 1) ?R) @ ?e # drop ?l ?R"
      using Suc.prems(3) split by simp
    have rest: "rest_of st ?q = drop ?l ?R" by (rule rest_suffix [OF assms(1) all])
    have "sorted_movements st ?q = (pre @ take ?l ?R) @ rest_of st ?q"
      unfolding rest using Suc.prems(3) by simp
    moreover have "length (rest_of st ?q) < n" unfolding rest using Suc.prems(4) \<open>0 < ?l\<close> True by simp
    ultimately have "walk n st ?q = drop ?l ?R"
      using Suc.IH [of ?q "pre @ take ?l ?R"] Suc.prems(1,2) rest by simp
    with True show ?thesis
      using keyset_page [OF Suc.prems(1,2), of st] by (simp add: Let_def)
  qed
qed

lemma walk_all:
  assumes "distinct (map ev_id st)" "mq_page q = None" "mq_cursor q = None" "1 \<le> mq_limit q"
    and "length st < n"
  shows "walk n st q = sorted_movements st q"
proof -
  have rest: "rest_of st q = sorted_movements st q" using assms(3) by (simp add: rest_of_def)
  have "length (sorted_movements st q) \<le> length st"
    by (simp add: sorted_movements_def)
  with walk_rest [OF assms(1,2,4), of "[]" n] rest assms(5) show ?thesis by simp
qed

section \<open>Cursors through their text\<close>

definition faithful_codec :: "platform \<Rightarrow> cursor_codec \<Rightarrow> bool" where
  "faithful_codec P K \<longleftrightarrow>
     (\<forall>c. write_cursor K c \<noteq> [] \<and> read_cursor K (write_cursor K c) = Some c) \<and>
     (\<forall>t. iso_string P t \<noteq> [] \<and> date_parse P (iso_string P t) = Some t)"

lemma sortKey_value_inject: "sortKey_value a = sortKey_value b \<longleftrightarrow> a = b"
  by (cases a; cases b) simp_all

lemma sortOrder_value_inject: "sortOrder_value a = sortOrder_value b \<longleftrightarrow> a = b"
  by (cases a; cases b) simp_all

lemma decode_encode:
  assumes "faithful_codec P K" "cur_id c \<noteq> []"
  shows "decodeCursor P K (encodeCursor P K c) k d =
    (if cur_key c = k \<and> cur_order c = d then Inr (k, d, Some (cur_value c), cur_id c)
     else Inl (CursorMismatch (sortKey_value (cur_key c)) (sortOrder_value (cur_order c))
       (sortKey_value k) (sortOrder_value d)))"
  using assms
  by (auto simp: decodeCursor_def encodeCursor_def faithful_codec_def sortKey_value_inject
      sortOrder_value_inject Let_def)

section \<open>Following the cursors through the service\<close>

text \<open>A client that sends back the cursor of every answer, until an answer has none.\<close>

fun list_walk ::
  "nat \<Rightarrow> platform \<Rightarrow> cursor_codec \<Rightarrow> store \<Rightarrow> ListParams \<Rightarrow> cursor_error + CashMovement list" where
  "list_walk 0 P K st prm = Inr []"
| "list_walk (Suc n) P K st prm =
     ebind (list_movements P K st prm) (\<lambda>r.
       case mp_nextCursor r of
         None \<Rightarrow> Inr (mp_items r)
       | Some text \<Rightarrow> ebind (list_walk n P K st (prm\<lparr>lp_cursor := Some text\<rparr>)) (\<lambda>more. Inr (mp_items r @ more)))"

definition query_of :: "ListParams \<Rightarrow> CashMovementCursor option \<Rightarrow> MovementQuery" where
  "query_of prm c =
     \<lparr>mq_partyId = lp_partyId prm, mq_effect = lp_effect prm, mq_from = lp_from prm, mq_to = lp_to prm,
      mq_limit = min (max 1 (lp_limit prm)) 200, mq_cursor = c, mq_page = None,
      mq_sortBy = Some (case lp_sortBy prm of None \<Rightarrow> occurredAt | Some k \<Rightarrow> k),
      mq_sortOrder = Some (case lp_sortOrder prm of None \<Rightarrow> DESC | Some k \<Rightarrow> k)\<rparr>"

lemma query_of_simps:
  "query_of (prm\<lparr>lp_cursor := t\<rparr>) c = query_of prm c"
  "mq_page (query_of prm c) = None" "mq_cursor (query_of prm c) = c" "1 \<le> mq_limit (query_of prm c)"
  "(query_of prm c)\<lparr>mq_cursor := d\<rparr> = query_of prm d"
  "movement_key (query_of prm c) = (case lp_sortBy prm of None \<Rightarrow> occurredAt | Some k \<Rightarrow> k)"
  "movement_order (query_of prm c) = (case lp_sortOrder prm of None \<Rightarrow> DESC | Some k \<Rightarrow> k)"
  by (auto simp: query_of_def movement_key_def movement_order_def split: option.splits)
    (metis SortKey.exhaust, metis SortOrder.exhaust)

text \<open>A request whose cursor text was issued for this ordering asks the store for that cursor.\<close>

definition issued :: "ListParams \<Rightarrow> CashMovementCursor \<Rightarrow> bool" where
  "issued prm c \<longleftrightarrow> cur_key c = movement_key (query_of prm None) \<and>
     cur_order c = movement_order (query_of prm None) \<and> cur_id c \<noteq> []"

lemma list_movements_query:
  assumes "faithful_codec P K" "\<forall>d. c = Some d \<longrightarrow> issued prm d" "lp_page prm = None"
    and "lp_cursor prm = map_option (encodeCursor P K) c"
  shows "list_movements P K st prm =
    Inr (let r = findCashMovementsPaginated st (query_of prm c)
         in \<lparr>mp_items = map toMovement (mr_items r),
             mp_nextCursor = map_option (encodeCursor P K) (mr_nextCursor r), mp_hasMore = mr_hasMore r,
             mp_total = mr_total r, mp_page = mr_page r, mp_totalPages = mr_totalPages r\<rparr>)"
proof (cases c)
  case None
  with assms(3,4) show ?thesis by (simp add: list_movements_def query_of_def Let_def)
next
  case (Some d)
  have sent: "lp_cursor prm = Some (encodeCursor P K d)" using Some assms(4) by simp
  have nonempty: "encodeCursor P K d \<noteq> []"
    using assms(1) by (simp add: encodeCursor_def faithful_codec_def)
  have d: "cur_key d = (case lp_sortBy prm of None \<Rightarrow> occurredAt | Some k \<Rightarrow> k)"
    "cur_order d = (case lp_sortOrder prm of None \<Rightarrow> DESC | Some k \<Rightarrow> k)" "cur_id d \<noteq> []"
    using assms(2) Some by (simp_all add: issued_def query_of_simps)
  have dec: "decodeCursor P K (encodeCursor P K d) (cur_key d) (cur_order d)
      = Inr (cur_key d, cur_order d, Some (cur_value d), cur_id d)"
    by (simp add: decode_encode [OF assms(1) d(3)])
  have eta: "\<lparr>cur_key = cur_key d, cur_order = cur_order d, cur_value = cur_value d, cur_id = cur_id d\<rparr> = d"
    by simp
  show ?thesis
    using nonempty
    by (simp add: list_movements_def sent Let_def d(1,2) [symmetric] dec eta Some query_of_def)
qed

lemma next_issued:
  assumes "\<forall>e\<in>set st. ev_id e \<noteq> []" "mr_nextCursor (findCashMovementsPaginated st (query_of prm c)) = Some d"
  shows "issued prm d"
proof -
  let ?q = "query_of prm c"
  let ?l = "nat (mq_limit ?q)" and ?R = "rest_of st ?q"
  have d: "?l < length ?R" "d = cursor_at ?q (?R ! (?l - 1))"
    using assms(2) keyset_page(2) [OF query_of_simps(2,4), of st prm c] by (auto split: if_splits)
  then have "?R ! (?l - 1) \<in> set ?R" by (intro nth_mem) simp
  also have "set ?R \<subseteq> set st"
    by (auto simp: rest_of_def sorted_movements_set split: option.splits)
  finally have "ev_id (?R ! (?l - 1)) \<noteq> []" using assms(1) by blast
  with d(2) show ?thesis by (simp add: issued_def cursor_at_def query_of_simps)
qed

lemma list_walk_steps:
  assumes "faithful_codec P K" "\<forall>e\<in>set st. ev_id e \<noteq> []"
  shows "\<forall>d. c = Some d \<longrightarrow> issued prm d \<Longrightarrow> lp_page prm = None \<Longrightarrow>
    lp_cursor prm = map_option (encodeCursor P K) c \<Longrightarrow>
    list_walk n P K st prm = Inr (map toMovement (walk n st (query_of prm c)))"
proof (induction n arbitrary: prm c)
  case 0
  then show ?case by simp
next
  case (Suc n)
  let ?r = "findCashMovementsPaginated st (query_of prm c)"
  note answer = list_movements_query [OF assms(1) Suc.prems, of st]
  show ?case
  proof (cases "mr_nextCursor ?r")
    case None
    then show ?thesis by (simp add: answer Let_def)
  next
    case (Some d)
    let ?prm = "prm\<lparr>lp_cursor := Some (encodeCursor P K d)\<rparr>"
    have "issued prm d" by (rule next_issued [OF assms(2) Some])
    then have "\<forall>e. Some d = Some e \<longrightarrow> issued ?prm e" by (simp add: issued_def query_of_simps)
    from Suc.IH [OF this] Suc.prems(2)
    have "list_walk n P K st ?prm = Inr (map toMovement (walk n st (query_of ?prm (Some d))))" by simp
    with Some show ?thesis by (simp add: answer Let_def query_of_simps)
  qed
qed

lemma list_walk_all:
  assumes "faithful_codec P K" "distinct (map ev_id st)" "\<forall>e\<in>set st. ev_id e \<noteq> []"
    and "lp_cursor prm = None" "lp_page prm = None" "length st < n"
  shows "list_walk n P K st prm = Inr (map toMovement (sorted_movements st (query_of prm None)))"
  using list_walk_steps [OF assms(1,3), of None prm n] walk_all [OF assms(2) query_of_simps(2,3,4) assms(6)] assms(4,5)
  by simp

end
