(* ===== verification/Staging_Records.thy ===== *)
theory Staging_Records
  imports Create_Event
begin

text \<open>
  \<open>StagingRecord.ts\<close> and \<open>StagingRecordValidator.ts\<close>: a record as an outside system delivered it,
  every field possibly absent and every enumeration still a string, and the checks before anything is
  built from it. The validator collects all failures, in the order of the code. A record without
  failures can be read into a command: every cast of the code from a string to an enumeration is then
  justified. A dash of a message is its three UTF-8 bytes.
\<close>

section \<open>Records\<close>

datatype StagingStatus = pending_record | processing_record | queued_record | accepted_record | rejected_record

record StagingParty =
  sp_partyId :: "string option"
  sp_role :: "string option"
  sp_direction :: "string option"
  sp_amount :: "string option"

record StagingObject =
  so_objectId :: "string option"
  so_objectType :: "string option"
  so_relation :: "string option"

record StagingReason =
  sn_type :: "string option"
  sn_description :: "string option"
  sn_confidence :: "string option"
  sn_requiresFollowup :: "bool option"

record StagingReporter =
  sq_reporterType :: "string option"
  sq_reporterId :: "string option"
  sq_reporterName :: "string option"
  sq_channel :: "string option"

record StagingRecord =
  sr_id :: string
  sr_status :: StagingStatus
  sr_eventType :: "string option"
  sr_economicEffect :: "string option"
  sr_occurredAt :: "string option"
  sr_sourceAt :: "string option"
  sr_dueAt :: "string option"
  sr_amount :: "string option"
  sr_currency :: "string option"
  sr_description :: "string option"
  sr_sourceSystem :: "string option"
  sr_sourceReference :: "string option"
  sr_normalizationVersion :: "string option"
  sr_normalizationWorkerId :: "string option"
  sr_relatedEventId :: "string option"
  sr_parties :: "StagingParty list option"
  sr_objects :: "StagingObject list option"
  sr_reason :: "StagingReason option"
  sr_reporter :: "StagingReporter option"

section \<open>The validator\<close>

record ValidationFailure =
  vf_type :: RejectionType
  vf_description :: string

definition fails :: "bool \<Rightarrow> RejectionType \<Rightarrow> string \<Rightarrow> ValidationFailure list" where
  "fails c ty d = (if c then [\<lparr>vf_type = ty, vf_description = d\<rparr>] else [])"

text \<open>The value of a string that is present; what an absent one would be is never looked at.\<close>

definition str :: "string option \<Rightarrow> string" where
  "str s = (case s of None \<Rightarrow> [] | Some t \<Rightarrow> t)"

definition quoted :: "string \<Rightarrow> string" where
  "quoted s = CHR 0x22 # s @ [CHR 0x22]"

definition valid_values :: "string list \<Rightarrow> string" where
  "valid_values vs = ''. Valid values: '' @ join '', '' vs"

definition DEFAULT_SOURCE_SYSTEMS :: "string list" where
  "DEFAULT_SOURCE_SYSTEMS = [''normalizer'', ''manual-import'', ''integration'']"

definition REQUIRED_FIELDS :: "(string \<times> (StagingRecord \<Rightarrow> string option)) list" where
  "REQUIRED_FIELDS =
     [(''eventType'', sr_eventType), (''economicEffect'', sr_economicEffect), (''occurredAt'', sr_occurredAt),
      (''amount'', sr_amount), (''currency'', sr_currency), (''sourceReference'', sr_sourceReference),
      (''normalizationVersion'', sr_normalizationVersion),
      (''normalizationWorkerId'', sr_normalizationWorkerId)]"

definition reporter_complete :: "StagingReporter option \<Rightarrow> bool" where
  "reporter_complete r = (case r of None \<Rightarrow> False
     | Some q \<Rightarrow> truthy (sq_reporterType q) \<and> truthy (sq_reporterId q) \<and> truthy (sq_channel q))"

definition validateRequiredFields :: "string list \<Rightarrow> StagingRecord \<Rightarrow> ValidationFailure list" where
  "validateRequiredFields known r =
     concat (map (\<lambda>(field, get). fails (\<not> truthy (get r)) RejectionType.INVALID_SCHEMA
       (''Missing required field: '' @ field)) REQUIRED_FIELDS)
     @ (if \<not> truthy (sr_sourceSystem r)
        then fails True RejectionType.INVALID_SCHEMA ''Missing required field: sourceSystem''
        else fails (str (sr_sourceSystem r) \<notin> set known) RejectionType.INVALID_SCHEMA
          (''Unknown source system: '' @ quoted (str (sr_sourceSystem r))))
     @ fails (\<not> reporter_complete (sr_reporter r)) RejectionType.INVALID_SCHEMA
         ''Missing required reporter fields (reporterType, reporterId, channel)''"

text \<open>A string that is given and is not a value of the enumeration.\<close>

definition unreadable :: "('a \<Rightarrow> string) \<Rightarrow> 'a list \<Rightarrow> string option \<Rightarrow> bool" where
  "unreadable value members s \<longleftrightarrow> truthy s \<and> str s \<notin> set (map value members)"

definition validateEnumFields :: "StagingRecord \<Rightarrow> ValidationFailure list" where
  "validateEnumFields r =
     fails (unreadable eventType_value eventType_values (sr_eventType r)) RejectionType.INVALID_SCHEMA
       (''Invalid eventType: '' @ quoted (str (sr_eventType r)) @ valid_values (map eventType_value eventType_values))
     @ fails (unreadable economicEffect_value economicEffect_values (sr_economicEffect r)) RejectionType.INVALID_SCHEMA
       (''Invalid economicEffect: '' @ quoted (str (sr_economicEffect r))
          @ valid_values (map economicEffect_value economicEffect_values))
     @ (case sr_reporter r of None \<Rightarrow> [] | Some q \<Rightarrow>
         fails (unreadable reporterType_value reporterType_values (sq_reporterType q)) RejectionType.INVALID_SCHEMA
           (''Invalid reporterType: '' @ quoted (str (sq_reporterType q))
              @ valid_values (map reporterType_value reporterType_values)))"

definition validateAmount :: "StagingRecord \<Rightarrow> ValidationFailure list" where
  "validateAmount r =
     fails (truthy (sr_amount r) \<and> \<not> is_decimal (str (sr_amount r))) RejectionType.INVALID_AMOUNT
       (''Invalid amount format: '' @ quoted (str (sr_amount r)) @ '' '' @ [CHR 0xE2, CHR 0x80, CHR 0x94]
          @ '' must be a positive decimal with up to 2 places'')"

text \<open>
  One string of a party or an object: missing, or not a value. \<open>label\<close> is the subject and index, as
  in \<open>Party at index 0\<close>.
\<close>

definition enum_failure ::
  "RejectionType \<Rightarrow> string \<Rightarrow> string \<Rightarrow> ('a \<Rightarrow> string) \<Rightarrow> 'a list \<Rightarrow> string option \<Rightarrow> ValidationFailure list" where
  "enum_failure missing label field value members s =
     (if \<not> truthy s then fails True missing (label @ '' is missing '' @ field)
      else fails (unreadable value members s) RejectionType.INVALID_SCHEMA
        (label @ '' has invalid '' @ field @ '': '' @ quoted (str s) @ valid_values (map value members)))"

definition validateParty :: "nat \<Rightarrow> StagingParty \<Rightarrow> ValidationFailure list" where
  "validateParty i q =
     (let label = ''Party at index '' @ nat_string i in
      fails (\<not> truthy (sp_partyId q)) RejectionType.MISSING_PARTY (label @ '' is missing partyId'')
      @ enum_failure RejectionType.MISSING_PARTY label ''role'' partyRole_value partyRole_values (sp_role q)
      @ enum_failure RejectionType.MISSING_PARTY label ''direction'' direction_value direction_values (sp_direction q))"

definition validateParties :: "StagingRecord \<Rightarrow> ValidationFailure list" where
  "validateParties r =
     (case sr_parties r of
        None \<Rightarrow> fails True RejectionType.MISSING_PARTY ''At least one party is required''
      | Some qs \<Rightarrow>
          if qs = [] then fails True RejectionType.MISSING_PARTY ''At least one party is required''
          else concat (map (\<lambda>(i, q). validateParty i q) (enumerate 0 qs)))"

definition validateObject :: "nat \<Rightarrow> StagingObject \<Rightarrow> ValidationFailure list" where
  "validateObject i ob =
     (let label = ''Object at index '' @ nat_string i in
      fails (\<not> truthy (so_objectId ob)) RejectionType.INVALID_SCHEMA (label @ '' is missing objectId'')
      @ enum_failure RejectionType.INVALID_SCHEMA label ''objectType'' objectType_value objectType_values (so_objectType ob)
      @ enum_failure RejectionType.INVALID_SCHEMA label ''relation'' relation_value relation_values (so_relation ob))"

definition validateObjects :: "StagingRecord \<Rightarrow> ValidationFailure list" where
  "validateObjects r =
     (case sr_objects r of
        None \<Rightarrow> fails True RejectionType.INVALID_SCHEMA ''At least one economic object is required''
      | Some obs \<Rightarrow>
          if obs = [] then fails True RejectionType.INVALID_SCHEMA ''At least one economic object is required''
          else concat (map (\<lambda>(i, ob). validateObject i ob) (enumerate 0 obs)))"

definition validateReason :: "StagingRecord \<Rightarrow> ValidationFailure list" where
  "validateReason r =
     (case sr_reason r of
        None \<Rightarrow> []
      | Some rs \<Rightarrow>
          (if \<not> truthy (sn_type rs) then fails True RejectionType.INVALID_SCHEMA ''Reason is missing type''
           else fails (unreadable reasonType_value reasonType_values (sn_type rs)) RejectionType.INVALID_SCHEMA
             (''Invalid reason type: '' @ quoted (str (sn_type rs)) @ valid_values (map reasonType_value reasonType_values)))
          @ fails (\<not> truthy (sn_description rs) \<or> trim (str (sn_description rs)) = [])
              RejectionType.INVALID_SCHEMA ''Reason is missing description''
          @ (if \<not> truthy (sn_confidence rs)
             then fails True RejectionType.INVALID_SCHEMA ''Reason is missing confidence level''
             else fails (unreadable confidenceLevel_value confidenceLevel_values (sn_confidence rs))
               RejectionType.INVALID_SCHEMA
               (''Invalid confidence level: '' @ quoted (str (sn_confidence rs))
                  @ valid_values (map confidenceLevel_value confidenceLevel_values))))"

definition checkDuplicate :: "store \<Rightarrow> StagingRecord \<Rightarrow> ValidationFailure list" where
  "checkDuplicate st r =
     fails (truthy (sr_sourceReference r) \<and> existsBySourceReference st (str (sr_sourceReference r)))
       RejectionType.DUPLICATE_EVENT (''Duplicate source reference: '' @ quoted (str (sr_sourceReference r)))"

definition validateRecord :: "string list \<Rightarrow> store \<Rightarrow> StagingRecord \<Rightarrow> ValidationFailure list" where
  "validateRecord known st r =
     validateRequiredFields known r @ validateEnumFields r @ validateAmount r @ validateParties r
     @ validateObjects r @ validateReason r @ checkDuplicate st r"

section \<open>Reading a record into a command\<close>

text \<open>\<open>instant.ts\<close>: a date without a time is read at midnight of the configured zone.\<close>

definition DATE_ONLY :: "string \<Rightarrow> bool" where
  "DATE_ONLY s \<longleftrightarrow> length s = 10 \<and> s ! 4 = CHR ''-'' \<and> s ! 7 = CHR ''-'' \<and>
     list_all is_digit (take 4 s @ take 2 (drop 5 s) @ drop 8 s)"

definition parseInstant :: "platform \<Rightarrow> string \<Rightarrow> js_date" where
  "parseInstant P value =
     date_parse P (if DATE_ONLY (trim value) then trim value @ ''T00:00:00'' else value)"

definition parseOptionalInstant :: "platform \<Rightarrow> string option \<Rightarrow> js_date option" where
  "parseOptionalInstant P value =
     (case value of None \<Rightarrow> None | Some s \<Rightarrow> if s = [] then None else Some (parseInstant P s))"

text \<open>
  The casts of the code (\<open>as EventType\<close> and so on) are readings that can fail; the result is
  \<open>None\<close> where a cast would let a string pass that is no value of its enumeration.
\<close>

definition cast_party :: "StagingParty \<Rightarrow> PartyInput option" where
  "cast_party q =
     Option.bind (partyRole_of (str (sp_role q))) (\<lambda>role.
     Option.bind (direction_of (str (sp_direction q))) (\<lambda>d.
     Some \<lparr>pi_partyId = str (sp_partyId q), pi_role = role, pi_direction = d, pi_amount = sp_amount q\<rparr>))"

definition cast_object :: "StagingObject \<Rightarrow> LedgerEventObject option" where
  "cast_object ob =
     Option.bind (objectType_of (str (so_objectType ob))) (\<lambda>ty.
     Option.bind (relation_of (str (so_relation ob))) (\<lambda>rel.
     Some \<lparr>obj_id = str (so_objectId ob), obj_type = ty, obj_relation = rel\<rparr>))"

definition cast_reason :: "StagingReason option \<Rightarrow> EventReason option option" where
  "cast_reason rs =
     (case rs of
        None \<Rightarrow> Some None
      | Some r \<Rightarrow>
          Option.bind (reasonType_of (str (sn_type r))) (\<lambda>ty.
          Option.bind (confidenceLevel_of (str (sn_confidence r))) (\<lambda>c.
          Some (Some \<lparr>rsn_type = ty, rsn_description = str (sn_description r), rsn_confidence = c,
                      rsn_requiresFollowup = (sn_requiresFollowup r = Some True)\<rparr>))))"

definition cast_reporter :: "StagingReporter option \<Rightarrow> ReporterInput option" where
  "cast_reporter rep =
     Option.bind rep (\<lambda>q.
     Option.bind (reporterType_of (str (sq_reporterType q))) (\<lambda>ty.
     Some \<lparr>ri_reporterType = ty, ri_reporterId = str (sq_reporterId q), ri_reporterName = sq_reporterName q,
           ri_channel = str (sq_channel q)\<rparr>))"

definition toCreateCommand :: "platform \<Rightarrow> StagingRecord \<Rightarrow> CreateLedgerEventCommand option" where
  "toCreateCommand P r =
     Option.bind (eventType_of (str (sr_eventType r))) (\<lambda>ty.
     Option.bind (economicEffect_of (str (sr_economicEffect r))) (\<lambda>ef.
     Option.bind (Option.bind (sr_parties r) (\<lambda>qs. those (map cast_party qs))) (\<lambda>parties.
     Option.bind (Option.bind (sr_objects r) (\<lambda>obs. those (map cast_object obs))) (\<lambda>objs.
     Option.bind (cast_reason (sr_reason r)) (\<lambda>reason.
     Option.bind (cast_reporter (sr_reporter r)) (\<lambda>reporter.
     Some \<lparr>cmd_eventType = ty, cmd_economicEffect = ef,
           cmd_occurredAt = parseInstant P (str (sr_occurredAt r)),
           cmd_sourceAt = parseOptionalInstant P (sr_sourceAt r),
           cmd_dueAt = parseOptionalInstant P (sr_dueAt r),
           cmd_amount = str (sr_amount r), cmd_currency = str (sr_currency r),
           cmd_description = sr_description r,
           cmd_sourceSystem = str (sr_sourceSystem r), cmd_sourceReference = str (sr_sourceReference r),
           cmd_normalizationVersion = str (sr_normalizationVersion r),
           cmd_normalizationWorkerId = str (sr_normalizationWorkerId r),
           cmd_commandId = None, cmd_relatedEventId = sr_relatedEventId r,
           cmd_parties = parties, cmd_objects = objs, cmd_reason = reason, cmd_reporter = reporter\<rparr>))))))"

section \<open>What a record without failures is\<close>

lemma fails_Nil [simp]: "fails c ty d = [] \<longleftrightarrow> \<not> c"
  by (simp add: fails_def)

text \<open>The membership tests of the validator are readings of the enumeration.\<close>

context string_enum begin

lemma unreadable_iff: "unreadable value_of members s \<longleftrightarrow> truthy s \<and> read (str s) = None"
  using has_value [of "str s"] by (simp add: unreadable_def)

lemma enum_failure_Nil:
  "enum_failure ty label field value_of members s = [] \<longleftrightarrow> truthy s \<and> read (str s) \<noteq> None"
  by (simp add: enum_failure_def unreadable_iff)

end

definition party_ok :: "StagingParty \<Rightarrow> bool" where
  "party_ok q \<longleftrightarrow> truthy (sp_partyId q) \<and> truthy (sp_role q) \<and> partyRole_of (str (sp_role q)) \<noteq> None \<and>
     truthy (sp_direction q) \<and> direction_of (str (sp_direction q)) \<noteq> None"

definition object_ok :: "StagingObject \<Rightarrow> bool" where
  "object_ok ob \<longleftrightarrow> truthy (so_objectId ob) \<and> truthy (so_objectType ob) \<and>
     objectType_of (str (so_objectType ob)) \<noteq> None \<and>
     truthy (so_relation ob) \<and> relation_of (str (so_relation ob)) \<noteq> None"

definition staged_reason_ok :: "StagingReason \<Rightarrow> bool" where
  "staged_reason_ok rs \<longleftrightarrow> truthy (sn_type rs) \<and> reasonType_of (str (sn_type rs)) \<noteq> None \<and>
     trim (str (sn_description rs)) \<noteq> [] \<and>
     truthy (sn_confidence rs) \<and> confidenceLevel_of (str (sn_confidence rs)) \<noteq> None"

definition staged_ok :: "string list \<Rightarrow> StagingRecord \<Rightarrow> bool" where
  "staged_ok known r \<longleftrightarrow>
     (\<forall>(field, get)\<in>set REQUIRED_FIELDS. truthy (get r)) \<and>
     truthy (sr_sourceSystem r) \<and> str (sr_sourceSystem r) \<in> set known \<and>
     eventType_of (str (sr_eventType r)) \<noteq> None \<and> economicEffect_of (str (sr_economicEffect r)) \<noteq> None \<and>
     is_decimal (str (sr_amount r)) \<and>
     (\<exists>q. sr_reporter r = Some q \<and> reporter_complete (Some q) \<and> reporterType_of (str (sq_reporterType q)) \<noteq> None) \<and>
     (\<exists>qs. sr_parties r = Some qs \<and> qs \<noteq> [] \<and> (\<forall>q\<in>set qs. party_ok q)) \<and>
     (\<exists>obs. sr_objects r = Some obs \<and> obs \<noteq> [] \<and> (\<forall>ob\<in>set obs. object_ok ob)) \<and>
     (\<forall>rs. sr_reason r = Some rs \<longrightarrow> staged_reason_ok rs)"

lemma required_Nil:
  "validateRequiredFields known r = [] \<longleftrightarrow>
     (\<forall>(field, get)\<in>set REQUIRED_FIELDS. truthy (get r)) \<and>
     truthy (sr_sourceSystem r) \<and> str (sr_sourceSystem r) \<in> set known \<and> reporter_complete (sr_reporter r)"
  by (auto simp: validateRequiredFields_def)

lemma enums_Nil:
  "validateEnumFields r = [] \<longleftrightarrow>
     (truthy (sr_eventType r) \<longrightarrow> eventType_of (str (sr_eventType r)) \<noteq> None) \<and>
     (truthy (sr_economicEffect r) \<longrightarrow> economicEffect_of (str (sr_economicEffect r)) \<noteq> None) \<and>
     (\<forall>q. sr_reporter r = Some q \<longrightarrow> truthy (sq_reporterType q) \<longrightarrow>
       reporterType_of (str (sq_reporterType q)) \<noteq> None)"
  by (auto simp: validateEnumFields_def eventType.unreadable_iff economicEffect.unreadable_iff
      reporterType.unreadable_iff split: option.splits)

lemma concat_enumerate:
  "(\<And>i x. f i x = [] \<longleftrightarrow> P x) \<Longrightarrow>
   concat (map (\<lambda>(i, x). f i x) (enumerate n xs)) = [] \<longleftrightarrow> (\<forall>x\<in>set xs. P x)"
  by (induction xs arbitrary: n) auto

lemma party_Nil: "validateParty i q = [] \<longleftrightarrow> party_ok q"
  by (auto simp: validateParty_def Let_def party_ok_def partyRole.enum_failure_Nil direction.enum_failure_Nil)

lemma object_Nil: "validateObject i ob = [] \<longleftrightarrow> object_ok ob"
  by (auto simp: validateObject_def Let_def object_ok_def objectType.enum_failure_Nil relation.enum_failure_Nil)

lemma parties_Nil:
  "validateParties r = [] \<longleftrightarrow> (\<exists>qs. sr_parties r = Some qs \<and> qs \<noteq> [] \<and> (\<forall>q\<in>set qs. party_ok q))"
  using concat_enumerate [of validateParty party_ok, OF party_Nil]
  by (auto simp: validateParties_def simp del: concat_eq_Nil_conv split: option.splits)

lemma objects_Nil:
  "validateObjects r = [] \<longleftrightarrow> (\<exists>obs. sr_objects r = Some obs \<and> obs \<noteq> [] \<and> (\<forall>ob\<in>set obs. object_ok ob))"
  using concat_enumerate [of validateObject object_ok, OF object_Nil]
  by (auto simp: validateObjects_def simp del: concat_eq_Nil_conv split: option.splits)

lemma trim_str: "trim (str s) \<noteq> [] \<Longrightarrow> truthy s"
  by (cases s) (auto simp: str_def trim_def)

lemma reason_Nil: "validateReason r = [] \<longleftrightarrow> (\<forall>rs. sr_reason r = Some rs \<longrightarrow> staged_reason_ok rs)"
  by (auto simp: validateReason_def staged_reason_ok_def reasonType.unreadable_iff confidenceLevel.unreadable_iff
      dest: trim_str split: option.splits if_splits)

lemma validateRecord_Nil:
  "validateRecord known st r = [] \<longleftrightarrow>
     staged_ok known r \<and> \<not> existsBySourceReference st (str (sr_sourceReference r))"
proof (cases "\<forall>(field, get)\<in>set REQUIRED_FIELDS. truthy (get r)")
  case False
  then show ?thesis unfolding validateRecord_def append_is_Nil_conv required_Nil staged_ok_def by blast
next
  case True
  then have t: "truthy (sr_eventType r)" "truthy (sr_economicEffect r)" "truthy (sr_amount r)"
    "truthy (sr_sourceReference r)"
    by (auto simp: REQUIRED_FIELDS_def)
  have amount: "validateAmount r = [] \<longleftrightarrow> is_decimal (str (sr_amount r))"
    using t by (simp add: validateAmount_def)
  have dup: "checkDuplicate st r = [] \<longleftrightarrow> \<not> existsBySourceReference st (str (sr_sourceReference r))"
    using t by (simp add: checkDuplicate_def)
  show ?thesis
  proof (cases "sr_reporter r")
    case None
    have "\<not> reporter_complete None" by (simp add: reporter_complete_def)
    then show ?thesis unfolding validateRecord_def append_is_Nil_conv required_Nil staged_ok_def None by blast
  next
    case (Some q)
    have rep: "reporter_complete (Some q) \<Longrightarrow> truthy (sq_reporterType q)" by (simp add: reporter_complete_def)
    have enums: "validateEnumFields r = [] \<longleftrightarrow>
        eventType_of (str (sr_eventType r)) \<noteq> None \<and> economicEffect_of (str (sr_economicEffect r)) \<noteq> None \<and>
        (truthy (sq_reporterType q) \<longrightarrow> reporterType_of (str (sq_reporterType q)) \<noteq> None)"
      using t by (simp add: enums_Nil Some)
    show ?thesis
      unfolding validateRecord_def append_is_Nil_conv required_Nil enums amount parties_Nil objects_Nil reason_Nil
        dup staged_ok_def Some option.inject ex_simps simp_thms
      using True rep by blast
  qed
qed

section \<open>The casts are justified\<close>

lemma those_map: "(\<And>x. x \<in> set xs \<Longrightarrow> \<exists>y. f x = Some y) \<Longrightarrow> \<exists>ys. those (map f xs) = Some ys \<and> list_all2 (\<lambda>x y. f x = Some y) xs ys"
proof (induction xs)
  case Nil
  then show ?case by simp
next
  case (Cons x xs)
  then obtain y ys where "f x = Some y" "those (map f xs) = Some ys" "list_all2 (\<lambda>x y. f x = Some y) xs ys" by fastforce
  then show ?case by simp
qed

text \<open>
  The command of a record without failures exists, and says what the record says, field by field:
  every string is the value of the member the command carries, the dates are the readings of their
  texts, and what is optional is given exactly when the record gives it.
\<close>

definition reads_reason :: "StagingReason \<Rightarrow> EventReason \<Rightarrow> bool" where
  "reads_reason rs e \<longleftrightarrow>
     sn_type rs = Some (reasonType_value (rsn_type e)) \<and> sn_description rs = Some (rsn_description e) \<and>
     sn_confidence rs = Some (confidenceLevel_value (rsn_confidence e)) \<and>
     rsn_requiresFollowup e = (sn_requiresFollowup rs = Some True)"

definition reads_reporter :: "StagingReporter \<Rightarrow> ReporterInput \<Rightarrow> bool" where
  "reads_reporter q rep \<longleftrightarrow>
     sq_reporterType q = Some (reporterType_value (ri_reporterType rep)) \<and>
     sq_reporterId q = Some (ri_reporterId rep) \<and> sq_reporterName q = ri_reporterName rep \<and>
     sq_channel q = Some (ri_channel rep)"

definition reads_as :: "platform \<Rightarrow> StagingRecord \<Rightarrow> CreateLedgerEventCommand \<Rightarrow> bool" where
  "reads_as P r cmd \<longleftrightarrow>
     truthy (sr_occurredAt r) \<and> cmd_occurredAt cmd = parseInstant P (str (sr_occurredAt r)) \<and>
     cmd_sourceAt cmd = (if truthy (sr_sourceAt r) then Some (parseInstant P (str (sr_sourceAt r))) else None) \<and>
     cmd_dueAt cmd = (if truthy (sr_dueAt r) then Some (parseInstant P (str (sr_dueAt r))) else None) \<and>
     cmd_description cmd = sr_description r \<and>
     rel_option reads_reason (sr_reason r) (cmd_reason cmd) \<and>
     (\<exists>q. sr_reporter r = Some q \<and> reads_reporter q (cmd_reporter cmd)) \<and>
     sr_eventType r = Some (eventType_value (cmd_eventType cmd)) \<and>
     sr_economicEffect r = Some (economicEffect_value (cmd_economicEffect cmd)) \<and>
     sr_amount r = Some (cmd_amount cmd) \<and> sr_currency r = Some (cmd_currency cmd) \<and>
     sr_sourceSystem r = Some (cmd_sourceSystem cmd) \<and> sr_sourceReference r = Some (cmd_sourceReference cmd) \<and>
     sr_normalizationVersion r = Some (cmd_normalizationVersion cmd) \<and>
     sr_normalizationWorkerId r = Some (cmd_normalizationWorkerId cmd) \<and>
     sr_relatedEventId r = cmd_relatedEventId cmd \<and>
     (\<exists>qs. sr_parties r = Some qs \<and> list_all2 (\<lambda>q p. sp_partyId q = Some (pi_partyId p) \<and>
        sp_role q = Some (partyRole_value (pi_role p)) \<and>
        sp_direction q = Some (direction_value (pi_direction p)) \<and> sp_amount q = pi_amount p) qs (cmd_parties cmd)) \<and>
     (\<exists>obs. sr_objects r = Some obs \<and> list_all2 (\<lambda>s ob. so_objectId s = Some (obj_id ob) \<and>
        so_objectType s = Some (objectType_value (obj_type ob)) \<and>
        so_relation s = Some (relation_value (obj_relation ob))) obs (cmd_objects cmd))"

lemma str_Some: "truthy s \<Longrightarrow> s = Some (str s)"
  by (cases s) (simp_all add: str_def)

lemma cast_party_ok:
  assumes "party_ok q"
  shows "\<exists>p. cast_party q = Some p \<and> sp_partyId q = Some (pi_partyId p) \<and>
    sp_role q = Some (partyRole_value (pi_role p)) \<and>
    sp_direction q = Some (direction_value (pi_direction p)) \<and> sp_amount q = pi_amount p"
  using assms str_Some [of "sp_partyId q"] str_Some [of "sp_role q"] str_Some [of "sp_direction q"]
  by (auto simp: party_ok_def cast_party_def partyRole.read_Some direction.read_Some)

lemma cast_object_ok:
  assumes "object_ok s"
  shows "\<exists>ob. cast_object s = Some ob \<and> so_objectId s = Some (obj_id ob) \<and>
    so_objectType s = Some (objectType_value (obj_type ob)) \<and> so_relation s = Some (relation_value (obj_relation ob))"
  using assms str_Some [of "so_objectId s"] str_Some [of "so_objectType s"] str_Some [of "so_relation s"]
  by (auto simp: object_ok_def cast_object_def objectType.read_Some relation.read_Some)

lemma cast_reason_ok:
  assumes "\<And>r. rs = Some r \<Longrightarrow> staged_reason_ok r"
  shows "\<exists>e. cast_reason rs = Some e \<and> rel_option reads_reason rs e"
proof (cases rs)
  case None
  then show ?thesis by (simp add: cast_reason_def)
next
  case (Some r)
  have "truthy (sn_description r)" using assms [OF Some] trim_str by (simp add: staged_reason_ok_def)
  then show ?thesis
    using Some assms [OF Some] str_Some [of "sn_type r"] str_Some [of "sn_description r"] str_Some [of "sn_confidence r"]
    by (auto simp: cast_reason_def staged_reason_ok_def reads_reason_def reasonType.read_Some confidenceLevel.read_Some)
qed

lemma cast_reporter_ok:
  assumes "rep = Some q" "reporter_complete rep" "reporterType_of (str (sq_reporterType q)) \<noteq> None"
  shows "\<exists>e. cast_reporter rep = Some e \<and> reads_reporter q e"
  using assms str_Some [of "sq_reporterType q"] str_Some [of "sq_reporterId q"] str_Some [of "sq_channel q"]
  by (auto simp: cast_reporter_def reporter_complete_def reads_reporter_def reporterType.read_Some)

lemma parseOptionalInstant_truthy:
  "parseOptionalInstant P s = (if truthy s then Some (parseInstant P (str s)) else None)"
  by (cases s) (auto simp: parseOptionalInstant_def str_def)

lemma toCreateCommand_ok:
  assumes "staged_ok known r"
  shows "\<exists>cmd. toCreateCommand P r = Some cmd \<and> reads_as P r cmd \<and> cmd_commandId cmd = None"
proof -
  have req: "truthy (sr_eventType r)" "truthy (sr_economicEffect r)" "truthy (sr_amount r)" "truthy (sr_currency r)"
    "truthy (sr_sourceReference r)" "truthy (sr_normalizationVersion r)" "truthy (sr_normalizationWorkerId r)"
    "truthy (sr_sourceSystem r)" "truthy (sr_occurredAt r)"
    using assms by (auto simp: staged_ok_def REQUIRED_FIELDS_def)
  note present = req [THEN str_Some]
  from assms obtain ty ef where ty: "eventType_of (str (sr_eventType r)) = Some ty"
    "economicEffect_of (str (sr_economicEffect r)) = Some ef"
    by (auto simp: staged_ok_def)
  from assms obtain qs where qs: "sr_parties r = Some qs" "\<forall>q\<in>set qs. party_ok q" by (auto simp: staged_ok_def)
  from assms obtain obs where obs: "sr_objects r = Some obs" "\<forall>ob\<in>set obs. object_ok ob" by (auto simp: staged_ok_def)
  from those_map [of qs cast_party] qs(2) cast_party_ok obtain ps where
    ps: "those (map cast_party qs) = Some ps" "list_all2 (\<lambda>q p. cast_party q = Some p) qs ps" by blast
  from those_map [of obs cast_object] obs(2) cast_object_ok obtain os where
    os: "those (map cast_object obs) = Some os" "list_all2 (\<lambda>s ob. cast_object s = Some ob) obs os" by blast
  from cast_reason_ok [of "sr_reason r"] assms obtain e where
    e: "cast_reason (sr_reason r) = Some e" "rel_option reads_reason (sr_reason r) e" by (auto simp: staged_ok_def)
  from assms obtain q where q: "sr_reporter r = Some q" "reporter_complete (Some q)"
    "reporterType_of (str (sq_reporterType q)) \<noteq> None" by (auto simp: staged_ok_def)
  from cast_reporter_ok [OF refl q(2,3)] obtain rep where
    rep: "cast_reporter (Some q) = Some rep" "reads_reporter q rep" by blast
  have parties: "list_all2 (\<lambda>q p. sp_partyId q = Some (pi_partyId p) \<and> sp_role q = Some (partyRole_value (pi_role p)) \<and>
      sp_direction q = Some (direction_value (pi_direction p)) \<and> sp_amount q = pi_amount p) qs ps"
    by (rule list.rel_mono_strong [OF ps(2)]) (use qs(2) cast_party_ok in fastforce)
  have objects: "list_all2 (\<lambda>s ob. so_objectId s = Some (obj_id ob) \<and> so_objectType s = Some (objectType_value (obj_type ob)) \<and>
      so_relation s = Some (relation_value (obj_relation ob))) obs os"
    by (rule list.rel_mono_strong [OF os(2)]) (use obs(2) cast_object_ok in fastforce)
  show ?thesis
    using present ty parties objects e(2) rep(2) req(9)
    by (simp add: toCreateCommand_def qs obs ps os e(1) rep(1) q(1) reads_as_def parseOptionalInstant_truthy
        eventType.read_Some economicEffect.read_Some)
qed

end
