(* ===== verification/Rejections.thy ===== *)
theory Rejections
  imports Staging_Records Ledger_Invariant
begin

text \<open>
  \<open>RejectionCatalog.ts\<close> and \<open>SubmitCandidateUseCase.ts\<close>: the failures and errors of the ledger as
  the closed contract a client acts on, and the synchronous submit path. The catalog recognizes an
  error by searching its message for fixed phrases; the lemmas say which error gets which code, as
  long as the identifiers a message quotes do not themselves contain such a phrase.
\<close>

section \<open>The contract\<close>

datatype RejectionCategory = input_rejection | lineage_rejection | duplicate_rejection | internal_rejection

datatype RejectionCode =
    AMOUNT_INVALID | PARTY_MISSING | FIELD_MISSING | DUPLICATE | ORIGIN_NOT_FOUND | ORIGIN_WRONG_TYPE
  | LINEAGE_REQUIRED | OVER_SETTLEMENT | TUPLE_INVALID

record RejectionDetail =
  rd_code :: RejectionCode
  rd_category :: RejectionCategory
  rd_field :: "string option"
  rd_detail :: string
  rd_limit :: "string option"

definition USER_FIELDS :: "string list" where
  "USER_FIELDS = [''amount'', ''currency'', ''occurredAt'']"

definition rejection ::
  "RejectionCode \<Rightarrow> RejectionCategory \<Rightarrow> string option \<Rightarrow> string \<Rightarrow> string option \<Rightarrow> RejectionDetail" where
  "rejection code category field txt limit =
     \<lparr>rd_code = code, rd_category = category, rd_field = field, rd_detail = txt, rd_limit = limit\<rparr>"

definition internal :: RejectionDetail where
  "internal = rejection TUPLE_INVALID internal_rejection None
     ''This operation could not be recorded automatically and was routed for review.'' None"

section \<open>Regular expressions\<close>

fun substring :: "string \<Rightarrow> string \<Rightarrow> bool" where
  "substring p [] \<longleftrightarrow> p = []"
| "substring p (c # s) \<longleftrightarrow> take (length p) (c # s) = p \<or> substring p s"

text \<open>\<open>/p/i.test(s)\<close> for a pattern of plain characters.\<close>

definition matches :: "string \<Rightarrow> string \<Rightarrow> bool" where
  "matches p s = substring (map lower_char p) (map lower_char s)"

definition is_word :: "char \<Rightarrow> bool" where
  "is_word c \<longleftrightarrow> is_digit c \<or> is_lower (lower_char c) \<or> c = CHR ''_''"

text \<open>\<open>/^Missing required field:\s*(\w+)/\<close> and its group.\<close>

definition missing_field :: "string \<Rightarrow> string option" where
  "missing_field s =
     (let p = ''Missing required field:''
      in if take (length p) s \<noteq> p then None
         else let w = takeWhile is_word (dropWhile is_space (drop (length p) s))
              in if w = [] then None else Some w)"

definition is_newline :: "char \<Rightarrow> bool" where
  "is_newline c \<longleftrightarrow> c = CHR 0x0A \<or> c = CHR 0x0D"

text \<open>
  The group of \<open>/outstanding balance of \S+ is\s*(.+?)\s*$/i\<close>. From one position: the phrase, a
  maximal run of non-spaces (the next character of the pattern is a space), the word \<open>is\<close>, then the
  rest of the text without the spaces around it. When there are only spaces the group is the last
  character that is not a line terminator.
\<close>

definition limit_group :: "string \<Rightarrow> string option" where
  "limit_group rest =
     (let t = trim rest in
      if t = [] then (case filter (\<lambda>c. \<not> is_newline c) rest of [] \<Rightarrow> None | cs \<Rightarrow> Some [last cs])
      else if list_ex is_newline t then None else Some t)"

definition limit_at :: "string \<Rightarrow> string option" where
  "limit_at s =
     (let p = ''outstanding balance of '' in
      if map lower_char (take (length p) s) \<noteq> p then None
      else let run = takeWhile (\<lambda>c. \<not> is_space c) (drop (length p) s);
               rest = dropWhile (\<lambda>c. \<not> is_space c) (drop (length p) s)
           in if run = [] \<or> map lower_char (take 3 rest) \<noteq> '' is'' then None
              else limit_group (drop 3 rest))"

fun outstanding_limit :: "string \<Rightarrow> string option" where
  "outstanding_limit [] = None"
| "outstanding_limit (c # s) = (case limit_at (c # s) of Some l \<Rightarrow> Some l | None \<Rightarrow> outstanding_limit s)"

section \<open>The catalog\<close>

definition classifyStagingFailure :: "ValidationFailure \<Rightarrow> RejectionDetail" where
  "classifyStagingFailure f =
     (case vf_type f of
        INVALID_AMOUNT \<Rightarrow> rejection AMOUNT_INVALID input_rejection (Some ''amount'') ''The amount is invalid.'' None
      | DUPLICATE_EVENT \<Rightarrow>
          rejection DUPLICATE duplicate_rejection None ''This entry was already recorded.'' None
      | MISSING_PARTY \<Rightarrow>
          (if matches ''partyId'' (vf_description f)
           then rejection PARTY_MISSING input_rejection (Some ''parties'') ''A required party is missing.'' None
           else internal)
      | INVALID_SCHEMA \<Rightarrow>
          (case missing_field (vf_description f) of
             Some field \<Rightarrow>
               (if field \<in> set USER_FIELDS
                then rejection FIELD_MISSING input_rejection (Some field) ''A required field is missing.'' None
                else internal)
           | None \<Rightarrow> internal)
      | POLICY_VIOLATION \<Rightarrow> internal)"

definition classifyError :: "string \<Rightarrow> RejectionDetail" where
  "classifyError message =
     (if matches ''Duplicate source reference'' message
      then rejection DUPLICATE duplicate_rejection None ''This entry was already recorded.'' None
      else if matches ''Origin event not found'' message
      then rejection ORIGIN_NOT_FOUND lineage_rejection (Some ''relatedEventId'')
             ''The referenced originating entry could not be found.'' None
      else if matches ''must point to a'' message
      then rejection ORIGIN_WRONG_TYPE lineage_rejection (Some ''relatedEventId'')
             ''The referenced originating entry is not the expected kind.'' None
      else if matches ''requires relatedEventId'' message
      then rejection LINEAGE_REQUIRED lineage_rejection (Some ''relatedEventId'')
             ''This operation must reference an originating entry.'' None
      else if matches ''already been retracted'' message
      then rejection DUPLICATE duplicate_rejection None ''This entry was already recorded.'' None
      else if matches ''Over-settlement'' message
      then rejection OVER_SETTLEMENT input_rejection (Some ''amount'')
             ''The amount exceeds the outstanding balance.'' (outstanding_limit message)
      else if matches ''amount cannot be zero'' message
      then rejection AMOUNT_INVALID input_rejection (Some ''amount'') ''The amount is invalid.'' None
      else internal)"

section \<open>Submitting a candidate\<close>

record SubmitCandidateInput =
  si_sourceReference :: "string option"
  si_eventType :: "string option"
  si_economicEffect :: "string option"
  si_occurredAt :: "string option"
  si_sourceAt :: "string option"
  si_dueAt :: "string option"
  si_amount :: "string option"
  si_currency :: "string option"
  si_description :: "string option"
  si_relatedEventId :: "string option"
  si_parties :: "StagingParty list option"
  si_objects :: "StagingObject list option"
  si_reason :: "StagingReason option"
  si_reporter :: "StagingReporter option"

datatype SubmitOutcome = Submit_accepted string | Submit_rejected string "RejectionDetail list"

definition SOURCE_SYSTEM :: string where "SOURCE_SYSTEM = ''integration''"
definition NORMALIZATION_VERSION :: string where "NORMALIZATION_VERSION = ''1.0''"
definition NORMALIZATION_WORKER :: string where "NORMALIZATION_WORKER = ''user-app-submit''"

definition toStagingRecord :: "string \<Rightarrow> SubmitCandidateInput \<Rightarrow> StagingRecord" where
  "toStagingRecord i s =
     \<lparr>sr_id = i, sr_status = pending_record, sr_eventType = si_eventType s, sr_economicEffect = si_economicEffect s,
      sr_occurredAt = si_occurredAt s, sr_sourceAt = si_sourceAt s, sr_dueAt = si_dueAt s,
      sr_amount = si_amount s, sr_currency = si_currency s, sr_description = si_description s,
      sr_sourceSystem = Some SOURCE_SYSTEM, sr_sourceReference = si_sourceReference s,
      sr_normalizationVersion = Some NORMALIZATION_VERSION, sr_normalizationWorkerId = Some NORMALIZATION_WORKER,
      sr_relatedEventId = si_relatedEventId s, sr_parties = si_parties s, sr_objects = si_objects s,
      sr_reason = si_reason s, sr_reporter = si_reporter s\<rparr>"

text \<open>The command has the fields of the staging record and the key of the caller.\<close>

definition toCommand :: "platform \<Rightarrow> SubmitCandidateInput \<Rightarrow> string \<Rightarrow> CreateLedgerEventCommand option" where
  "toCommand P s key =
     map_option (\<lambda>cmd. cmd\<lparr>cmd_commandId := Some key\<rparr>) (toCreateCommand P (toStagingRecord [] s))"

text \<open>
  The result is \<open>None\<close> only where a cast of \<open>toCommand\<close> is not justified; \<open>submit_total\<close> says this
  does not happen.
\<close>

definition submit ::
  "platform \<Rightarrow> call_env \<Rightarrow> string list \<Rightarrow> store \<Rightarrow> SubmitCandidateInput \<Rightarrow> string
     \<Rightarrow> (SubmitOutcome \<times> store \<times> AuditEntry list) option" where
  "submit P env known st s key =
     (case getByCommandId st key of
        Some existing \<Rightarrow> Some (Submit_accepted (ev_id existing), st, [])
      | None \<Rightarrow>
          let failures = validateRecord known st (toStagingRecord (env_uuid env) s) in
          if failures \<noteq> []
          then Some (Submit_rejected (join ''; '' (map vf_description failures))
                 (map classifyStagingFailure failures), st, [])
          else (case toCommand P s key of
              None \<Rightarrow> None
            | Some cmd \<Rightarrow>
                (case execute P env st cmd of
                   Inr (ev, st', au) \<Rightarrow> Some (Submit_accepted (ev_id ev), st', au)
                 | Inl err \<Rightarrow> Some (Submit_rejected (error_message err) [classifyError (error_message err)], st, []))))"

section \<open>Searching a message word by word\<close>

lemma substring_iff: "substring p s \<longleftrightarrow> (\<exists>a b. s = a @ p @ b)"
proof (induction s)
  case Nil
  then show ?case by auto
next
  case (Cons c s)
  have "(\<exists>a b. c # s = a @ p @ b) \<longleftrightarrow> (\<exists>b. c # s = p @ b) \<or> (\<exists>a b. s = a @ p @ b)"
    by (metis append_Cons append_Nil list.exhaust list.inject)
  moreover have "(\<exists>b. c # s = p @ b) \<longleftrightarrow> take (length p) (c # s) = p"
    by (metis append_eq_conv_conj append_take_drop_id)
  ultimately show ?case using Cons by simp
qed

text \<open>
  A pattern with a separator in it, \<open>x @ d # y\<close>: at every separator of the text, the text before has
  to end in \<open>x\<close> and the text after to begin with \<open>y\<close>. What precedes is kept reversed.
\<close>

fun scan :: "char \<Rightarrow> string \<Rightarrow> string \<Rightarrow> string \<Rightarrow> string \<Rightarrow> bool" where
  "scan d x y before [] = False"
| "scan d x y before (c # s) =
     (if c = d then take (length x) before = rev x \<and> take (length y) s = y \<or> scan d x y [] s
      else scan d x y (c # before) s)"

lemma prefix_take: "(\<exists>b. s = p @ b) \<longleftrightarrow> take (length p) s = p"
  by (metis append_eq_conv_conj append_take_drop_id)

lemma split_at_separator:
  assumes "d \<notin> set a" "d \<notin> set x"
  shows "(\<exists>u v. a @ d # b = u @ (x @ d # y) @ v) \<longleftrightarrow>
    ((\<exists>u. a = u @ x) \<and> (\<exists>v. b = y @ v)) \<or> (\<exists>u v. b = u @ (x @ d # y) @ v)"
    (is "?l \<longleftrightarrow> ?r")
proof
  assume ?l
  then obtain u v where eq: "a @ d # b = (u @ x) @ d # (y @ v)" by auto
  then obtain us where "a = (u @ x) @ us \<and> us @ d # b = d # (y @ v) \<or> a @ us = u @ x \<and> d # b = us @ d # (y @ v)"
    unfolding append_eq_append_conv2 by blast
  then show ?r
  proof
    assume "a = (u @ x) @ us \<and> us @ d # b = d # (y @ v)"
    then show ?r using assms(1) by (cases us) auto
  next
    assume 2: "a @ us = u @ x \<and> d # b = us @ d # (y @ v)"
    show ?r
    proof (cases us)
      case Nil
      with 2 show ?r by auto
    next
      case (Cons c us')
      with 2 have c: "c = d" "b = us' @ d # (y @ v)" "a @ d # us' = u @ x" by auto
      from c(3) obtain ws where "a = u @ ws \<and> ws @ d # us' = x \<or> a @ ws = u \<and> d # us' = ws @ x"
        unfolding append_eq_append_conv2 by blast
      then obtain w where "us' = w @ x"
        using assms(2) by (cases ws) auto
      with c(2) have "b = w @ (x @ d # y) @ v" by simp
      then show ?r by blast
    qed
  qed
next
  assume ?r
  then show ?l
  proof
    assume "(\<exists>u. a = u @ x) \<and> (\<exists>v. b = y @ v)"
    then obtain u v where "a = u @ x" "b = y @ v" by blast
    then have "a @ d # b = u @ (x @ d # y) @ v" by simp
    then show ?l by blast
  next
    assume "\<exists>u v. b = u @ (x @ d # y) @ v"
    then obtain u v where "b = u @ (x @ d # y) @ v" by blast
    then have "a @ d # b = (a @ d # u) @ (x @ d # y) @ v" by simp
    then show ?l by blast
  qed
qed

lemma suffix_take: "(\<exists>u. a = u @ x) \<longleftrightarrow> take (length x) (rev a) = rev x"
proof -
  have "(\<exists>u. a = u @ x) \<longleftrightarrow> (\<exists>b. rev a = rev x @ b)"
    by (metis rev_append rev_rev_ident)
  then show ?thesis by (simp add: prefix_take)
qed

lemma substring_scan:
  assumes "d \<notin> set before" "d \<notin> set x"
  shows "substring (x @ d # y) (rev before @ s) \<longleftrightarrow> scan d x y before s"
  using assms(1)
proof (induction s arbitrary: before)
  case Nil
  have "d \<in> set (rev before)" if "rev before = a @ (x @ d # y) @ b" for a b unfolding that by simp
  with Nil have "\<not> substring (x @ d # y) (rev before)" unfolding substring_iff set_rev by blast
  then show ?case by simp
next
  case (Cons c s)
  show ?case
  proof (cases "c = d")
    case True
    have "substring (x @ d # y) (rev before @ d # s) \<longleftrightarrow>
        ((\<exists>u. rev before = u @ x) \<and> (\<exists>v. s = y @ v)) \<or> substring (x @ d # y) s"
      unfolding substring_iff by (rule split_at_separator) (use Cons.prems assms(2) in auto)
    then show ?thesis
      using Cons.IH [of "[]"] True by (simp add: suffix_take prefix_take)
  next
    case False
    then show ?thesis using Cons.IH [of "c # before"] Cons.prems by simp
  qed
qed

lemma scan_block: "d \<notin> set w \<Longrightarrow> scan d x y before (w @ s) = scan d x y (rev w @ before) s"
  by (induction w arbitrary: before) auto

lemma scan_end: "d \<notin> set w \<Longrightarrow> scan d x y before w = False"
  by (induction w arbitrary: before) auto

text \<open>A pattern without the separator lies on one side of it.\<close>

lemma substring_apart:
  assumes "d \<notin> set p"
  shows "substring p (a @ d # b) \<longleftrightarrow> substring p a \<or> substring p b"
proof
  assume "substring p (a @ d # b)"
  then obtain u v where "a @ d # b = u @ p @ v" by (auto simp: substring_iff)
  then obtain us where "a = u @ us \<and> us @ d # b = p @ v \<or> a @ us = u \<and> d # b = us @ p @ v"
    unfolding append_eq_append_conv2 by blast
  then show "substring p a \<or> substring p b"
  proof
    assume 1: "a = u @ us \<and> us @ d # b = p @ v"
    then obtain ws where "us = p @ ws \<and> ws @ d # b = v \<or> us @ ws = p \<and> d # b = ws @ v"
      unfolding append_eq_append_conv2 by blast
    then show ?thesis
    proof
      assume "us = p @ ws \<and> ws @ d # b = v"
      with 1 show ?thesis unfolding substring_iff by auto
    next
      assume 2: "us @ ws = p \<and> d # b = ws @ v"
      with assms have "ws = []" by (cases ws) auto
      with 1 2 show ?thesis unfolding substring_iff by (metis append.right_neutral)
    qed
  next
    assume 2: "a @ us = u \<and> d # b = us @ p @ v"
    show ?thesis
    proof (cases us)
      case Nil
      with 2 assms have "p = []" by (cases p) auto
      then have "a = a @ p @ []" by simp
      then show ?thesis unfolding substring_iff by blast
    next
      case (Cons c us')
      with 2 show ?thesis unfolding substring_iff by auto
    qed
  qed
next
  assume "substring p a \<or> substring p b"
  then show "substring p (a @ d # b)"
    unfolding substring_iff by (metis append.assoc append_Cons)
qed

section \<open>Which error gets which code\<close>

text \<open>An identifier that a phrase of the catalog cannot be found in.\<close>

definition plain_id :: "string \<Rightarrow> bool" where
  "plain_id s \<longleftrightarrow> list_all (\<lambda>c. \<not> is_space c) s \<and> \<not> matches ''Over-settlement'' s"

lemma lower_space: "lower_char c = CHR '' '' \<longleftrightarrow> c = CHR '' ''"
  by (cases c) (auto simp: Let_def)

lemma plain_words [simp]: "plain_id s \<Longrightarrow> CHR '' '' \<notin> lower_char ` set s"
proof
  assume plain: "plain_id s" and "CHR '' '' \<in> lower_char ` set s"
  then obtain c where c: "c \<in> set s" "lower_char c = CHR '' ''" by (metis imageE)
  from c(2) have "is_space c" by (simp only: lower_space) (simp add: is_space_def)
  with plain c(1) show False by (simp add: plain_id_def list_all_iff)
qed

lemma matches_scan:
  assumes "map lower_char p = x @ CHR '' '' # y" "CHR '' '' \<notin> set x"
  shows "matches p s \<longleftrightarrow> scan (CHR '' '') x y [] (map lower_char s)"
  using substring_scan [of "CHR '' ''" "[]" x y "map lower_char s"] assms by (simp add: matches_def)

lemma phrases:
  "matches ''Duplicate source reference'' s \<longleftrightarrow> scan (CHR '' '') ''duplicate'' ''source reference'' [] (map lower_char s)"
  "matches ''Origin event not found'' s \<longleftrightarrow> scan (CHR '' '') ''origin'' ''event not found'' [] (map lower_char s)"
  "matches ''must point to a'' s \<longleftrightarrow> scan (CHR '' '') ''must'' ''point to a'' [] (map lower_char s)"
  "matches ''requires relatedEventId'' s \<longleftrightarrow> scan (CHR '' '') ''requires'' ''relatedeventid'' [] (map lower_char s)"
  "matches ''already been retracted'' s \<longleftrightarrow> scan (CHR '' '') ''already'' ''been retracted'' [] (map lower_char s)"
  "matches ''amount cannot be zero'' s \<longleftrightarrow> scan (CHR '' '') ''amount'' ''cannot be zero'' [] (map lower_char s)"
  by (rule matches_scan; simp)+

lemma settlement_apart:
  "matches ''Over-settlement'' (a @ CHR '' '' # b) \<longleftrightarrow> matches ''Over-settlement'' a \<or> matches ''Over-settlement'' b"
  using substring_apart [of "CHR '' ''" "''over-settlement''" "map lower_char a" "map lower_char b"]
  by (simp add: matches_def)

lemmas scanning = phrases settlement_apart scan_end scan_block

text \<open>The values an error quotes besides identifiers are words.\<close>

lemma enum_words:
  "list_all (\<lambda>v. plain_id v) (map eventType_value eventType_values)"
  "list_all (\<lambda>v. plain_id v) (map economicEffect_value economicEffect_values)"
  "list_all (\<lambda>v. plain_id v) (map relation_value relation_values)"
  "list_all (\<lambda>v. plain_id v) (map objectType_value objectType_values)"
  "list_all (\<lambda>v. plain_id v) (map reasonType_value reasonType_values)"
  by code_simp+



definition quotes_plainly :: "ledger_error \<Rightarrow> bool" where
  "quotes_plainly e \<longleftrightarrow>
     (case e of
        Event_Error (PayerIn p) \<Rightarrow> plain_id p
      | Event_Error (PayeeOut p) \<Rightarrow> plain_id p
      | UseCase_Error (OriginNotFound i) \<Rightarrow> plain_id i
      | UseCase_Error (AlreadyRetracted target retraction) \<Rightarrow> plain_id target \<and> plain_id retraction
      | UseCase_Error (OverSettlement oid outstanding) \<Rightarrow> plain_id oid \<and> plain_id outstanding
      | UseCase_Error (ImmutabilityViolation i) \<Rightarrow> plain_id i
      | _ \<Rightarrow> True)"

definition code_of_error :: "ledger_error \<Rightarrow> RejectionCode" where
  "code_of_error e =
     (case e of
        UseCase_Error (DuplicateSource s) \<Rightarrow> DUPLICATE
      | UseCase_Error (OriginNotFound i) \<Rightarrow> ORIGIN_NOT_FOUND
      | UseCase_Error (OriginWrongType allowed found) \<Rightarrow> ORIGIN_WRONG_TYPE
      | Policy_Error (RelatedMissing ty) \<Rightarrow> LINEAGE_REQUIRED
      | Policy_Error RetractionTarget \<Rightarrow> LINEAGE_REQUIRED
      | UseCase_Error (AlreadyRetracted target retraction) \<Rightarrow> DUPLICATE
      | UseCase_Error (OverSettlement oid outstanding) \<Rightarrow> OVER_SETTLEMENT
      | Event_Error ZeroAmount \<Rightarrow> AMOUNT_INVALID
      | _ \<Rightarrow> TUPLE_INVALID)"

lemma classifyError_code:
  "rd_code (classifyError m) =
     (if matches ''Duplicate source reference'' m then DUPLICATE
      else if matches ''Origin event not found'' m then ORIGIN_NOT_FOUND
      else if matches ''must point to a'' m then ORIGIN_WRONG_TYPE
      else if matches ''requires relatedEventId'' m then LINEAGE_REQUIRED
      else if matches ''already been retracted'' m then DUPLICATE
      else if matches ''Over-settlement'' m then OVER_SETTLEMENT
      else if matches ''amount cannot be zero'' m then AMOUNT_INVALID
      else TUPLE_INVALID)"
  by (simp add: classifyError_def rejection_def internal_def)

lemma plain_value [simp]:
  "plain_id (eventType_value t)" "plain_id (economicEffect_value ef)" "plain_id (relation_value r)"
  "plain_id (objectType_value ob)" "plain_id (reasonType_value rs)"
  using enum_words eventType.complete economicEffect.complete relation.complete objectType.complete
    reasonType.complete by (simp_all only: list_all_iff set_map ball_simps)

lemma enum_dashless:
  "list_all (\<lambda>v. CHR ''-'' \<notin> set v) (map eventType_value eventType_values)"
  "list_all (\<lambda>v. CHR ''-'' \<notin> set v) (map economicEffect_value economicEffect_values)"
  "list_all (\<lambda>v. CHR ''-'' \<notin> set v) (map relation_value relation_values)"
  "list_all (\<lambda>v. CHR ''-'' \<notin> set v) (map objectType_value objectType_values)"
  "list_all (\<lambda>v. CHR ''-'' \<notin> set v) (map reasonType_value reasonType_values)"
  by code_simp+

lemma lower_dash: "lower_char c = CHR ''-'' \<longleftrightarrow> c = CHR ''-''"
  by (cases c) (auto simp: Let_def)

lemma lower_dashless: "CHR ''-'' \<notin> set v \<Longrightarrow> CHR ''-'' \<notin> lower_char ` set v"
  by (metis imageE lower_dash)

lemma dashless_value [simp]:
  "CHR ''-'' \<notin> lower_char ` set (eventType_value t)" "CHR ''-'' \<notin> lower_char ` set (economicEffect_value ef)"
  "CHR ''-'' \<notin> lower_char ` set (relation_value r)"
  "CHR ''-'' \<notin> lower_char ` set (objectType_value ob)" "CHR ''-'' \<notin> lower_char ` set (reasonType_value rs)"
  using enum_dashless eventType.complete economicEffect.complete relation.complete objectType.complete
    reasonType.complete by (auto simp only: list_all_iff set_map ball_simps intro!: lower_dashless)

lemma settlement_scan:
  "matches ''Over-settlement'' s \<longleftrightarrow> scan (CHR ''-'') ''over'' ''settlement'' [] (map lower_char s)"
  using substring_scan [of "CHR ''-''" "[]" "''over''" "''settlement''" "map lower_char s"]
  by (simp add: matches_def)

lemma settlement_party:
  "matches ''Over-settlement'' (''Party '' @ p @ CHR '':'' # s) \<longleftrightarrow>
     matches ''Over-settlement'' p \<or> matches ''Over-settlement'' s"
proof -
  have "map lower_char (''Party '' @ p @ CHR '':'' # s) =
      ''party'' @ CHR '' '' # (map lower_char p @ CHR '':'' # map lower_char s)" by simp
  then show ?thesis
    unfolding matches_def by (simp only: substring_apart list.set) (simp add: substring_apart)
qed

lemma classify_money: "rd_code (classifyError (money_message e)) = TUPLE_INVALID"
  by (cases e) (simp_all add: classifyError_code phrases settlement_scan)
lemma classify_value: "rd_code (classifyError (value_message e)) = TUPLE_INVALID"
  by (cases e) (simp_all add: classifyError_code phrases settlement_scan)

lemma classify_policy: "rd_code (classifyError (policy_message e)) = code_of_error (Policy_Error e)"
  by (cases e) (simp_all add: classifyError_code phrases settlement_scan code_of_error_def scan_block scan_end)

lemma plain_settlement: "plain_id p \<Longrightarrow> \<not> matches ''Over-settlement'' p"
  by (simp add: plain_id_def)

lemma classify_event:
  assumes "quotes_plainly (Event_Error e)"
  shows "rd_code (classifyError (event_message e)) = code_of_error (Event_Error e)"
proof -
  have "\<not> matches ''Over-settlement'' (''Party '' @ p @ '': PAYER cannot have direction IN'')"
       "\<not> matches ''Over-settlement'' (''Party '' @ p @ '': PAYEE cannot have direction OUT'')"
    if "plain_id p" for p
    using that by (simp_all only: settlement_party plain_settlement) (simp_all add: settlement_scan)
  with assms show ?thesis
    by (cases e) (simp_all add: quotes_plainly_def classifyError_code phrases scanning code_of_error_def,
        simp_all add: settlement_scan)
qed

text \<open>The list of allowed types in a message: words with \<open>or\<close> between them.\<close>

lemma scan_types:
  assumes "CHR '' '' \<notin> set w"
  shows "\<not> scan (CHR '' '') ''duplicate'' ''source reference'' before
      (map lower_char (join '' or '' (map eventType_value ts)) @ '' event, but found '' @ w)"
    and "\<not> scan (CHR '' '') ''origin'' ''event not found'' before
      (map lower_char (join '' or '' (map eventType_value ts)) @ '' event, but found '' @ w)"
  by (induction ts arbitrary: before rule: induct_list012) (simp_all add: scan_block scan_end assms)

lemma classify_usecase:
  assumes "quotes_plainly (UseCase_Error e)"
  shows "rd_code (classifyError (usecase_message e)) = code_of_error (UseCase_Error e)"
proof (cases e)
  case (OriginWrongType allowed found)
  then show ?thesis
    using scan_types [of "map lower_char (eventType_value found)"]
    by (simp add: classifyError_code phrases code_of_error_def)
next
  case (ImmutabilityViolation i)
  have "map lower_char (usecase_message e) =
      ''immutability violation: event'' @ CHR '' '' # (map lower_char i @ CHR '' '' # ''already exists in the ledger'')"
    by (simp add: ImmutabilityViolation)
  then have "\<not> matches ''Over-settlement'' (usecase_message e)"
    using assms unfolding matches_def
    by (simp only: substring_apart list.set) (simp add: ImmutabilityViolation quotes_plainly_def plain_id_def
       matches_def substring_apart)
  then show ?thesis
    using assms by (simp add: ImmutabilityViolation classifyError_code phrases scan_block code_of_error_def quotes_plainly_def)
qed (use assms in \<open>simp_all add: classifyError_code phrases settlement_scan scan_block scan_end code_of_error_def quotes_plainly_def\<close>)

lemma classified: "quotes_plainly e \<Longrightarrow> rd_code (classifyError (error_message e)) = code_of_error e"
  using classify_event classify_usecase
  by (cases e) (simp_all add: classify_money classify_value classify_policy, simp_all add: code_of_error_def)

text \<open>The limit of an over-settlement is the outstanding balance the guard reported.\<close>

lemma limit_at_phrase:
  assumes "oid \<noteq> []" "list_all (\<lambda>c. \<not> is_space c) oid" "limit \<noteq> []" "list_all (\<lambda>c. \<not> is_space c) limit"
  shows "limit_at (''outstanding balance of '' @ oid @ '' is '' @ limit) = Some limit"
proof -
  have sp: "is_space CHR '' ''" by (simp add: is_space_def)
  have run: "takeWhile (\<lambda>c. \<not> is_space c) (oid @ '' is '' @ limit) = oid"
    "dropWhile (\<lambda>c. \<not> is_space c) (oid @ '' is '' @ limit) = '' is '' @ limit"
    using assms(2) sp by (simp_all add: list_all_iff)
  have solid: "dropWhile is_space l = l" if "list_all (\<lambda>c. \<not> is_space c) l" for l
    using that by (cases l) auto
  have "trim (CHR '' '' # limit) = limit"
    using solid [of limit] solid [of "rev limit"] assms(4) sp by (simp add: trim_def list_all_rev)
  moreover have "\<not> list_ex is_newline limit"
    using assms(4) by (auto simp: list_ex_iff list_all_iff is_newline_def is_space_def)
  ultimately have "limit_group (CHR '' '' # limit) = Some limit"
    using assms(3) by (simp add: limit_group_def)
  with run assms(1) show ?thesis by (simp add: limit_at_def Let_def)
qed

lemma outstanding_limit_skip:
  "limit_at (c # s) = None \<Longrightarrow> outstanding_limit (c # s) = outstanding_limit s" by simp

lemma limit_at_first: "lower_char c \<noteq> CHR ''o'' \<Longrightarrow> limit_at (c # s) = None"
  by (simp add: limit_at_def)

lemma limit_at_second: "lower_char d \<noteq> CHR ''u'' \<Longrightarrow> limit_at (c # d # s) = None"
  by (simp add: limit_at_def)

lemma limit_of_code: "rd_code (classifyError m) = OVER_SETTLEMENT \<Longrightarrow> rd_limit (classifyError m) = outstanding_limit m"
  by (simp add: classifyError_def rejection_def internal_def split: if_splits)

lemma over_settlement_limit:
  assumes "plain_id oid" "oid \<noteq> []" "plain_id limit" "limit \<noteq> []"
  shows "rd_limit (classifyError (error_message (UseCase_Error (OverSettlement oid limit)))) = Some limit"
proof -
  let ?tail = "''outstanding balance of '' @ oid @ '' is '' @ limit"
  have found: "limit_at ?tail = Some limit"
    by (rule limit_at_phrase) (use assms in \<open>simp_all add: plain_id_def\<close>)
  have "outstanding_limit ?tail = Some limit"
    using found by (cases ?tail) simp_all
  then have "outstanding_limit (''Over-settlement: the '' @ ?tail) = Some limit"
    by (simp add: limit_at_first limit_at_second del: outstanding_limit.simps(2) add: outstanding_limit_skip)
  then have limit: "outstanding_limit (error_message (UseCase_Error (OverSettlement oid limit))) = Some limit"
    by simp
  have "rd_code (classifyError (error_message (UseCase_Error (OverSettlement oid limit)))) = OVER_SETTLEMENT"
    by (subst classified) (use assms in \<open>simp_all add: quotes_plainly_def code_of_error_def\<close>)
  then show ?thesis using limit by (simp only: limit_of_code)
qed

section \<open>What a submission does\<close>

lemma staged_ok_id: "staged_ok known (toStagingRecord i s) \<longleftrightarrow> staged_ok known (toStagingRecord j s)"
  by (simp add: staged_ok_def toStagingRecord_def REQUIRED_FIELDS_def)

lemma toCommand_ok:
  assumes "staged_ok known (toStagingRecord i s)"
  obtains cmd where "toCommand P s key = Some cmd" and "cmd_commandId cmd = Some key"
    and "si_sourceReference s = Some (cmd_sourceReference cmd)"
proof -
  from assms have "staged_ok known (toStagingRecord [] s)" using staged_ok_id by blast
  from toCreateCommand_ok [OF this, of P] obtain cmd where
    "toCreateCommand P (toStagingRecord [] s) = Some cmd" "reads_as P (toStagingRecord [] s) cmd" by blast
  then show thesis
    by (intro that [of "cmd\<lparr>cmd_commandId := Some key\<rparr>"]) (simp_all add: toCommand_def reads_as_def toStagingRecord_def)
qed

text \<open>The outcomes of a submission, with what each leaves behind.\<close>

definition submission_ok ::
  "store \<Rightarrow> string \<Rightarrow> SubmitOutcome \<Rightarrow> store \<Rightarrow> AuditEntry list \<Rightarrow> bool" where
  "submission_ok st key outcome st' au \<longleftrightarrow>
     (case outcome of
        Submit_accepted ref \<Rightarrow>
          (\<exists>ev. getByCommandId st' key = Some ev \<and> ev_id ev = ref \<and>
             (getByCommandId st key = Some ev \<and> st' = st \<and> au = [] \<or>
              getByCommandId st key = None \<and> st' = st @ [ev] \<and> length au = 1))
      | Submit_rejected reason details \<Rightarrow>
          getByCommandId st key = None \<and> st' = st \<and> au = [] \<and> details \<noteq> [])"

lemma known_key:
  "getByCommandId st key = None \<Longrightarrow> cmd_commandId cmd = Some key \<Longrightarrow> known_command st cmd = None"
  by (simp add: known_command_def)

lemma find_snoc: "find Q xs = None \<Longrightarrow> Q x \<Longrightarrow> find Q (xs @ [x]) = Some x"
  by (induction xs) (auto split: if_splits)

lemma submit_outcome:
  "\<exists>outcome st' au. submit P env known st s key = Some (outcome, st', au) \<and> submission_ok st key outcome st' au"
proof (cases "getByCommandId st key")
  case (Some ev)
  then show ?thesis by (simp add: submit_def submission_ok_def)
next
  case None
  show ?thesis
  proof (cases "validateRecord known st (toStagingRecord (env_uuid env) s)")
    case (Cons f fs)
    with None show ?thesis by (simp add: submit_def submission_ok_def)
  next
    case Nil
    then have "staged_ok known (toStagingRecord (env_uuid env) s)" by (simp add: validateRecord_Nil)
    from toCommand_ok [OF this, of P key] obtain cmd where
      cmd: "toCommand P s key = Some cmd" "cmd_commandId cmd = Some key" .
    show ?thesis
    proof (cases "execute P env st cmd")
      case (Inl e)
      with None Nil cmd show ?thesis by (simp add: submit_def submission_ok_def)
    next
      case (Inr res)
      obtain ev st' au where res: "res = (ev, st', au)" by (cases res)
      from Inr known_key [OF None cmd(2)] have ex: "build_event_of P env st cmd = Inr ev"
        "save st ev = Inr st'" "au = [audit_created P cmd ev]"
        by (simp_all add: res execute_Inr)
      from memory.save_appends [OF ex(2)] have st': "st' = st @ [ev]" by (simp add: findAll_def)
      from build_event_of_Inr [OF ex(1)] cmd(2) have "ev_commandId ev = Some key" by metis
      with None have "getByCommandId st' key = Some ev"
        by (simp add: st' getByCommandId_def find_snoc)
      with None Nil cmd Inr ex(3) st' show ?thesis by (simp add: submit_def submission_ok_def res)
    qed
  qed
qed

lemma submit_reachable:
  assumes "reachable P st" "submit P env known st s key = Some (outcome, st', au)"
  shows "reachable P st'"
  using assms
  by (auto simp: submit_def Let_def intro: record_event split: option.splits if_splits sum.splits)

end
