(* ===== verification/Staging_Posting.thy ===== *)
theory Staging_Posting
  imports Rejections Pages
begin

text \<open>
  Posting staged records: \<open>StagingPostingJob\<close>, the resolver of a receipt's origin, the use case that
  records a rejection, the in-memory staging and rejection stores, and \<open>StagingSubmitJob\<close>. Every
  record handled ends accepted, with one event appended to the ledger, or rejected, with the ledger
  untouched and one rejection recorded; a blank staging id is the only thing that makes \<open>handle\<close>
  throw. The raw payload kept with a rejection is opaque and is left out.
\<close>

section \<open>Rejections on record\<close>

record RejectionReason =
  rr_type :: RejectionType
  rr_description :: string

definition new_RejectionReason :: "RejectionType \<Rightarrow> string \<Rightarrow> ledger_error + RejectionReason" where
  "new_RejectionReason ty d =
     (if trim d = [] then Inl (Value_Error DescriptionRequired)
      else Inr \<lparr>rr_type = ty, rr_description = d\<rparr>)"

definition new_StagingId :: "string \<Rightarrow> ledger_error + string" where
  "new_StagingId v = (if trim v = [] then Inl (Value_Error StagingIdRequired) else Inr v)"

record RejectedEvent =
  rej_id :: string
  rej_stagingId :: string
  rej_reasons :: "RejectionReason list"
  rej_rejectedAt :: instant

text \<open>The identifier drawn and the clock reading of a rejection are arguments.\<close>

definition create_rejected ::
  "string \<Rightarrow> instant \<Rightarrow> string \<Rightarrow> RejectionReason list \<Rightarrow> ledger_error + RejectedEvent" where
  "create_rejected uuid now sid why =
     (if why = [] then Inl (Value_Error RejectionReasonRequired)
      else ebind (new_EventId uuid) (\<lambda>i.
        Inr \<lparr>rej_id = i, rej_stagingId = sid, rej_reasons = why, rej_rejectedAt = now\<rparr>))"

record RejectLedgerEventCommand =
  rc_stagingId :: string
  rc_reasons :: "ValidationFailure list"
  rc_sourceSystem :: "string option"

definition audit_rejected :: "platform \<Rightarrow> RejectLedgerEventCommand \<Rightarrow> RejectedEvent \<Rightarrow> AuditEntry" where
  "audit_rejected P cmd ev =
     \<lparr>au_action = STAGING_RECORD_REJECTED, au_timestamp = iso_string P (rej_rejectedAt ev),
      au_sourceSystem = (case rc_sourceSystem cmd of None \<Rightarrow> ''unknown'' | Some s \<Rightarrow> s),
      au_eventId = None, au_eventType = None, au_economicEffect = None, au_sourceReference = None,
      au_commandId = None, au_stagingId = Some (rc_stagingId cmd),
      au_reasons = Some (map vf_description (rc_reasons cmd))\<rparr>"

definition save_rejected :: "RejectedEvent list \<Rightarrow> RejectedEvent \<Rightarrow> RejectedEvent list" where
  "save_rejected store ev = store @ [ev]"

definition rejected_page :: "RejectedEvent list \<Rightarrow> PageOptions \<Rightarrow> RejectedEvent Page" where
  "rejected_page store options = paginate store options"

definition reject ::
  "platform \<Rightarrow> string \<Rightarrow> instant \<Rightarrow> RejectedEvent list \<Rightarrow> RejectLedgerEventCommand
     \<Rightarrow> ledger_error + RejectedEvent \<times> RejectedEvent list \<times> AuditEntry list" where
  "reject P uuid now store cmd =
     ebind (emap (\<lambda>r. new_RejectionReason (vf_type r) (vf_description r)) (rc_reasons cmd)) (\<lambda>why.
     ebind (new_StagingId (rc_stagingId cmd)) (\<lambda>sid.
     ebind (create_rejected uuid now sid why) (\<lambda>ev.
     Inr (ev, save_rejected store ev, [audit_rejected P cmd ev]))))"

section \<open>The staging store\<close>

definition save_staged :: "StagingRecord list \<Rightarrow> StagingRecord \<Rightarrow> StagingRecord list" where
  "save_staged store r = store @ [r]"

definition claimable :: "string list \<Rightarrow> StagingRecord \<Rightarrow> bool" where
  "claimable eventTypes r \<longleftrightarrow>
     sr_status r = pending_record \<and>
     (eventTypes = [] \<or> (case sr_eventType r of None \<Rightarrow> False | Some t \<Rightarrow> t \<in> set eventTypes))"

text \<open>
  The claimed records and the store after the claim; the records handed out are the objects of the
  store, so they carry the new status.
\<close>

fun claimPending ::
  "StagingStatus \<Rightarrow> nat \<Rightarrow> string list \<Rightarrow> StagingRecord list \<Rightarrow> StagingRecord list \<times> StagingRecord list" where
  "claimPending target limit eventTypes [] = ([], [])"
| "claimPending target limit eventTypes (r # store) =
     (if claimable eventTypes r \<and> limit > 0
      then let r' = r\<lparr>sr_status := target\<rparr>;
               (claimed, store') = claimPending target (limit - 1) eventTypes store
           in (r' # claimed, r' # store')
      else let (claimed, store') = claimPending target limit eventTypes store
           in (claimed, r # store'))"

text \<open>\<open>markAsAccepted\<close>, \<open>markAsRejected\<close> and \<open>markAsPending\<close>: the first record with the id.\<close>

fun mark :: "StagingStatus \<Rightarrow> string \<Rightarrow> StagingRecord list \<Rightarrow> StagingRecord list" where
  "mark status i [] = []"
| "mark status i (r # store) =
     (if sr_id r = i then r\<lparr>sr_status := status\<rparr> # store else r # mark status i store)"

definition staged_page :: "StagingRecord list \<Rightarrow> PageOptions \<Rightarrow> StagingRecord Page" where
  "staged_page store options = paginate store options"

section \<open>The origin of a receipt\<close>

definition findExpected :: "store \<Rightarrow> string \<Rightarrow> string option" where
  "findExpected st oid =
     map_option ev_id (find (\<lambda>e. ev_eventType e = EventType.COMMISSION_EXPECTED) (findByObjectId st oid))"

definition resolve :: "store \<Rightarrow> StagingRecord \<Rightarrow> ledger_error + string option" where
  "resolve st r =
     (if sr_eventType r \<noteq> Some (eventType_value EventType.COMMISSION_RECEIVED) then Inr (sr_relatedEventId r)
      else if truthy (sr_relatedEventId r) then Inr (sr_relatedEventId r)
      else case find (\<lambda>ob. so_objectType ob = Some (objectType_value ObjectType.COMMISSION_RECEIVABLE))
                 (case sr_objects r of None \<Rightarrow> [] | Some obs \<Rightarrow> obs) of
             None \<Rightarrow> Inl (UseCase_Error NoReceivable)
           | Some receivable \<Rightarrow>
               (if truthy (so_objectId receivable) then Inr (findExpected st (str (so_objectId receivable)))
                else Inl (UseCase_Error NoReceivable)))"

section \<open>The posting job\<close>

definition markOrphanIfUnlinked ::
  "CreateLedgerEventCommand \<Rightarrow> string option \<Rightarrow> CreateLedgerEventCommand" where
  "markOrphanIfUnlinked cmd related =
     (if cmd_eventType cmd \<noteq> EventType.COMMISSION_RECEIVED \<or> related \<noteq> None then cmd
      else cmd\<lparr>cmd_reason := Some
             \<lparr>rsn_type = ReasonType.UNKNOWN_ORIGIN,
              rsn_description = ''Commission received with unresolved origin'',
              rsn_confidence = (case cmd_reason cmd of None \<Rightarrow> ConfidenceLevel.MEDIUM | Some r \<Rightarrow> rsn_confidence r),
              rsn_requiresFollowup = True\<rparr>\<rparr>)"

text \<open>What one call of \<open>handle\<close> reads from its surroundings, and the stores it works on.\<close>

record handle_env =
  he_call :: call_env
  he_rejectId :: string
  he_rejectedAt :: instant

record posting_state =
  ps_ledger :: store
  ps_staging :: "StagingRecord list"
  ps_rejected :: "RejectedEvent list"
  ps_audit :: "AuditEntry list"

text \<open>The two branches of the \<open>try\<close> block; what it throws leaves no effect behind.\<close>

definition reject_record ::
  "platform \<Rightarrow> handle_env \<Rightarrow> posting_state \<Rightarrow> StagingRecord \<Rightarrow> ValidationFailure list
     \<Rightarrow> ledger_error + posting_state" where
  "reject_record P env s r why =
     ebind (reject P (he_rejectId env) (he_rejectedAt env) (ps_rejected s)
        \<lparr>rc_stagingId = sr_id r, rc_reasons = why, rc_sourceSystem = sr_sourceSystem r\<rparr>) (\<lambda>(_, rejected, au).
     Inr (s\<lparr>ps_rejected := rejected, ps_audit := ps_audit s @ au,
            ps_staging := mark rejected_record (sr_id r) (ps_staging s)\<rparr>))"

text \<open>
  The command of a validated record exists (\<open>toCreateCommand_ok\<close>); \<open>resolver\<close> says whether the job
  was given one.
\<close>

definition post_record ::
  "platform \<Rightarrow> handle_env \<Rightarrow> bool \<Rightarrow> posting_state \<Rightarrow> StagingRecord \<Rightarrow> ledger_error + posting_state" where
  "post_record P env resolver s r =
     (let command = the (toCreateCommand P r) in
      ebind (if resolver then resolve (ps_ledger s) r else Inr (cmd_relatedEventId command)) (\<lambda>related.
      ebind (execute P (he_call env) (ps_ledger s)
              ((markOrphanIfUnlinked command related)\<lparr>cmd_relatedEventId := related\<rparr>)) (\<lambda>(_, ledger, au).
      Inr (s\<lparr>ps_ledger := ledger, ps_audit := ps_audit s @ au,
             ps_staging := mark accepted_record (sr_id r) (ps_staging s)\<rparr>))))"

definition handle ::
  "platform \<Rightarrow> handle_env \<Rightarrow> string list \<Rightarrow> bool \<Rightarrow> posting_state \<Rightarrow> StagingRecord
     \<Rightarrow> ledger_error + posting_state" where
  "handle P env known resolver s r =
     (let failures = validateRecord known (ps_ledger s) r in
      case (if failures \<noteq> [] then reject_record P env s r failures else post_record P env resolver s r) of
        Inr s' \<Rightarrow> Inr s'
      | Inl e \<Rightarrow>
          reject_record P env s r
            [\<lparr>vf_type = RejectionType.POLICY_VIOLATION, vf_description = error_message e\<rparr>])"

text \<open>The loop of \<open>run\<close>: an error that \<open>handle\<close> throws ends it, with what was done before kept.\<close>

fun handle_all ::
  "platform \<Rightarrow> (nat \<Rightarrow> handle_env) \<Rightarrow> string list \<Rightarrow> bool \<Rightarrow> nat \<Rightarrow> StagingRecord list \<Rightarrow> posting_state
     \<Rightarrow> ledger_error option \<times> posting_state" where
  "handle_all P envs known resolver n [] s = (None, s)"
| "handle_all P envs known resolver n (r # rs) s =
     (case handle P (envs n) known resolver s r of
        Inl e \<Rightarrow> (Some e, s)
      | Inr s' \<Rightarrow> handle_all P envs known resolver (Suc n) rs s')"

definition run ::
  "platform \<Rightarrow> (nat \<Rightarrow> handle_env) \<Rightarrow> string list \<Rightarrow> bool \<Rightarrow> posting_state \<Rightarrow> ledger_error option \<times> posting_state" where
  "run P envs known resolver s =
     (let (records, staging) = claimPending processing_record 100 [] (ps_staging s)
      in handle_all P envs known resolver 0 records (s\<lparr>ps_staging := staging\<rparr>))"

section \<open>The submit job\<close>

text \<open>
  \<open>publish n r\<close> is whether the broker took the \<open>n\<close>th message; the result is the messages it took
  and the store.
\<close>

fun publish_all ::
  "(nat \<Rightarrow> StagingRecord \<Rightarrow> bool) \<Rightarrow> nat \<Rightarrow> StagingRecord list \<Rightarrow> StagingRecord list
     \<Rightarrow> StagingRecord list \<times> StagingRecord list" where
  "publish_all publish n [] store = ([], store)"
| "publish_all publish n (r # rs) store =
     (if publish n r
      then let (sent, store') = publish_all publish (Suc n) rs store in (r # sent, store')
      else publish_all publish (Suc n) rs (mark pending_record (sr_id r) store))"

definition submit_run ::
  "(nat \<Rightarrow> StagingRecord \<Rightarrow> bool) \<Rightarrow> string list \<Rightarrow> StagingRecord list \<Rightarrow> StagingRecord list \<times> StagingRecord list" where
  "submit_run publish eventTypes store =
     (let (records, store') = claimPending queued_record 100 eventTypes store
      in publish_all publish 0 records store')"

section \<open>No description is blank\<close>

lemma message_described: "trim (error_message e) \<noteq> []"
proof (cases e)
  case (Money_Error x) then show ?thesis by (cases x) (simp_all add: trim_eq_Nil is_space_def)
next
  case (Value_Error x) then show ?thesis by (cases x) (simp_all add: trim_eq_Nil is_space_def)
next
  case (Event_Error x) then show ?thesis by (cases x) (simp_all add: trim_eq_Nil is_space_def)
next
  case (Policy_Error x) then show ?thesis by (cases x) (simp_all add: trim_eq_Nil is_space_def)
next
  case (UseCase_Error x) then show ?thesis by (cases x) (simp_all add: trim_eq_Nil is_space_def)
qed

definition described :: "ValidationFailure list \<Rightarrow> bool" where
  "described fs \<longleftrightarrow> (\<forall>f\<in>set fs. trim (vf_description f) \<noteq> [])"

lemma described_simps [simp]:
  "described []" "described (fs @ gs) \<longleftrightarrow> described fs \<and> described gs"
  "described (fails c ty d) \<longleftrightarrow> (c \<longrightarrow> trim d \<noteq> [])"
  "described (concat fss) \<longleftrightarrow> (\<forall>fs\<in>set fss. described fs)"
  by (auto simp: described_def fails_def)

lemma starts_described: "\<not> is_space c \<Longrightarrow> trim (c # s) \<noteq> []"
  by (simp add: trim_eq_Nil)

lemma letters [simp]: "\<not> is_space CHR ''M''" "\<not> is_space CHR ''U''" "\<not> is_space CHR ''I''" "\<not> is_space CHR ''P''"
    "\<not> is_space CHR ''O''" "\<not> is_space CHR ''A''" "\<not> is_space CHR ''R''" "\<not> is_space CHR ''D''"
  by (simp_all add: is_space_def)

lemma failures_described: "described (validateRecord known st r)"
  by (auto simp: validateRecord_def validateRequiredFields_def validateEnumFields_def validateAmount_def
      validateParties_def validateParty_def validateObjects_def validateObject_def validateReason_def
      checkDuplicate_def enum_failure_def Let_def starts_described split: option.splits)

section \<open>Recording a rejection\<close>

definition rejection_of :: "handle_env \<Rightarrow> StagingRecord \<Rightarrow> ValidationFailure list \<Rightarrow> RejectedEvent" where
  "rejection_of env r why =
     \<lparr>rej_id = he_rejectId env, rej_stagingId = sr_id r,
      rej_reasons = map (\<lambda>f. \<lparr>rr_type = vf_type f, rr_description = vf_description f\<rparr>) why,
      rej_rejectedAt = he_rejectedAt env\<rparr>"

lemma reject_record_Inr:
  assumes "trim (sr_id r) \<noteq> []" "he_rejectId env \<noteq> []" "described why" "why \<noteq> []"
  shows "\<exists>re au. reject_record P env s r why =
      Inr (s\<lparr>ps_rejected := ps_rejected s @ [re], ps_audit := ps_audit s @ [au],
             ps_staging := mark rejected_record (sr_id r) (ps_staging s)\<rparr>) \<and>
    rej_stagingId re = sr_id r \<and> map rr_description (rej_reasons re) = map vf_description why"
proof -
  have "emap (\<lambda>f. new_RejectionReason (vf_type f) (vf_description f)) why =
      Inr (map (\<lambda>f. \<lparr>rr_type = vf_type f, rr_description = vf_description f\<rparr>) why)"
    by (rule emap_total) (use assms(3) in \<open>simp add: described_def new_RejectionReason_def\<close>)
  then have "reject_record P env s r why =
      Inr (s\<lparr>ps_rejected := ps_rejected s @ [rejection_of env r why], ps_audit := ps_audit s
             @ [audit_rejected P \<lparr>rc_stagingId = sr_id r, rc_reasons = why, rc_sourceSystem = sr_sourceSystem r\<rparr>
                  (rejection_of env r why)],
             ps_staging := mark rejected_record (sr_id r) (ps_staging s)\<rparr>)"
    using assms(1,2,4)
    by (simp add: reject_record_def reject_def new_StagingId_def create_rejected_def new_EventId_def
        save_rejected_def rejection_of_def)
  then show ?thesis by (intro exI conjI) (assumption, simp_all add: rejection_of_def)
qed

lemma reject_record_blank:
  assumes "trim (sr_id r) = []" "described why"
  shows "reject_record P env s r why = Inl (Value_Error StagingIdRequired)"
proof -
  have "emap (\<lambda>f. new_RejectionReason (vf_type f) (vf_description f)) why =
      Inr (map (\<lambda>f. \<lparr>rr_type = vf_type f, rr_description = vf_description f\<rparr>) why)"
    by (rule emap_total) (use assms(2) in \<open>simp add: described_def new_RejectionReason_def\<close>)
  with assms(1) show ?thesis by (simp add: reject_record_def reject_def new_StagingId_def)
qed

section \<open>Handling one record\<close>

definition posted :: "posting_state \<Rightarrow> StagingRecord \<Rightarrow> posting_state \<Rightarrow> bool" where
  "posted s r s' \<longleftrightarrow>
     (\<exists>ev. ps_ledger s' = ps_ledger s @ [ev] \<and> sr_sourceReference r = Some (src_reference (ev_source ev)) \<and>
        sr_eventType r = Some (eventType_value (ev_eventType ev))) \<and>
     ps_rejected s' = ps_rejected s \<and>
     ps_staging s' = mark accepted_record (sr_id r) (ps_staging s)"

definition refused :: "posting_state \<Rightarrow> StagingRecord \<Rightarrow> posting_state \<Rightarrow> bool" where
  "refused s r s' \<longleftrightarrow>
     ps_ledger s' = ps_ledger s \<and>
     (\<exists>re. ps_rejected s' = ps_rejected s @ [re] \<and> rej_stagingId re = sr_id r \<and> rej_reasons re \<noteq> []) \<and>
     ps_staging s' = mark rejected_record (sr_id r) (ps_staging s)"

lemma reject_record_refused:
  assumes "trim (sr_id r) \<noteq> []" "he_rejectId env \<noteq> []" "described why" "why \<noteq> []"
  obtains s' where "reject_record P env s r why = Inr s'" "refused s r s'"
proof -
  from reject_record_Inr [OF assms] obtain re au where eq: "reject_record P env s r why =
      Inr (s\<lparr>ps_rejected := ps_rejected s @ [re], ps_audit := ps_audit s @ [au],
             ps_staging := mark rejected_record (sr_id r) (ps_staging s)\<rparr>)"
    and re: "rej_stagingId re = sr_id r" "map rr_description (rej_reasons re) = map vf_description why"
    by blast
  from re(2) assms(4) have "rej_reasons re \<noteq> []" by auto
  with eq re(1) show thesis by (intro that) (auto simp: refused_def)
qed

text \<open>The command a posted record was turned into.\<close>

definition final_command :: "CreateLedgerEventCommand \<Rightarrow> string option \<Rightarrow> CreateLedgerEventCommand" where
  "final_command cmd related = (markOrphanIfUnlinked cmd related)\<lparr>cmd_relatedEventId := related\<rparr>"

lemma final_command_fields:
  "cmd_commandId (final_command cmd related) = cmd_commandId cmd"
  "cmd_sourceReference (final_command cmd related) = cmd_sourceReference cmd"
  "cmd_eventType (final_command cmd related) = cmd_eventType cmd"
  "cmd_relatedEventId (final_command cmd related) = related"
  "cmd_objects (final_command cmd related) = cmd_objects cmd"
  by (simp_all add: final_command_def markOrphanIfUnlinked_def)

lemma post_record_built:
  assumes "validateRecord known (ps_ledger s) r = []" "post_record P env resolver s r = Inr s'"
  obtains cmd related ev where
    "reads_as P r cmd" "cmd_commandId cmd = None"
    "(if resolver then resolve (ps_ledger s) r else Inr (sr_relatedEventId r)) = Inr related"
    "build_event_of P (he_call env) (ps_ledger s) (final_command cmd related) = Inr ev"
    "s' = s\<lparr>ps_ledger := ps_ledger s @ [ev],
            ps_audit := ps_audit s @ [audit_created P (final_command cmd related) ev],
            ps_staging := mark accepted_record (sr_id r) (ps_staging s)\<rparr>"
    "execute P (he_call env) (ps_ledger s) (final_command cmd related) =
       Inr (ev, ps_ledger s @ [ev], [audit_created P (final_command cmd related) ev])"
proof -
  from assms(1) have "staged_ok known r" by (simp add: validateRecord_Nil)
  from toCreateCommand_ok [OF this, of P] obtain cmd where
    cmd: "toCreateCommand P r = Some cmd" "reads_as P r cmd" "cmd_commandId cmd = None" by blast
  from cmd(2) have rel: "cmd_relatedEventId cmd = sr_relatedEventId r" by (simp add: reads_as_def)
  from assms(2) obtain related ev ledger au where steps:
    "(if resolver then resolve (ps_ledger s) r else Inr (sr_relatedEventId r)) = Inr related"
    "execute P (he_call env) (ps_ledger s) (final_command cmd related) = Inr (ev, ledger, au)"
    "s' = s\<lparr>ps_ledger := ledger, ps_audit := ps_audit s @ au,
            ps_staging := mark accepted_record (sr_id r) (ps_staging s)\<rparr>"
    unfolding post_record_def Let_def cmd(1) option.sel rel by (auto simp: ebind_Inr final_command_def)
  have "known_command (ps_ledger s) (final_command cmd related) = None"
    by (simp add: known_command_def final_command_fields cmd(3))
  with steps(2) have built: "build_event_of P (he_call env) (ps_ledger s) (final_command cmd related) = Inr ev"
    "save (ps_ledger s) ev = Inr ledger" "au = [audit_created P (final_command cmd related) ev]"
    by (simp_all add: execute_Inr)
  have "ledger = ps_ledger s @ [ev]" using memory.save_appends [OF built(2)] by (simp add: findAll_def)
  with cmd(2,3) steps built show thesis by (intro that) simp_all
qed

lemma post_record_posted:
  assumes "validateRecord known (ps_ledger s) r = []" "post_record P env resolver s r = Inr s'"
  shows "posted s r s'" and "reachable P (ps_ledger s) \<Longrightarrow> reachable P (ps_ledger s')"
proof -
  from assms obtain cmd related ev where b: "reads_as P r cmd"
    "build_event_of P (he_call env) (ps_ledger s) (final_command cmd related) = Inr ev"
    "s' = s\<lparr>ps_ledger := ps_ledger s @ [ev],
            ps_audit := ps_audit s @ [audit_created P (final_command cmd related) ev],
            ps_staging := mark accepted_record (sr_id r) (ps_staging s)\<rparr>"
    "execute P (he_call env) (ps_ledger s) (final_command cmd related) =
       Inr (ev, ps_ledger s @ [ev], [audit_created P (final_command cmd related) ev])"
    by (elim post_record_built)
  have "src_reference (ev_source ev) = cmd_sourceReference cmd" "ev_eventType ev = cmd_eventType cmd"
    using build_event_of_Inr [OF b(2)] by (metis final_command_fields)+
  with b(1,3) show "posted s r s'" by (simp add: posted_def reads_as_def)
  show "reachable P (ps_ledger s) \<Longrightarrow> reachable P (ps_ledger s')"
    using b(3,4) by (auto intro: record_event)
qed

lemma handle_outcome:
  assumes "trim (sr_id r) \<noteq> []" "he_rejectId env \<noteq> []"
  obtains s' where "handle P env known resolver s r = Inr s'" "posted s r s' \<or> refused s r s'"
    "reachable P (ps_ledger s) \<Longrightarrow> reachable P (ps_ledger s')"
proof (cases "validateRecord known (ps_ledger s) r = []")
  case False
  from reject_record_refused [OF assms failures_described False] obtain s' where
    s': "reject_record P env s r (validateRecord known (ps_ledger s) r) = Inr s'" "refused s r s'" by blast
  then show thesis using False by (intro that [of s']) (simp_all add: handle_def refused_def)
next
  case True
  show thesis
  proof (cases "post_record P env resolver s r")
    case (Inr s')
    with True post_record_posted [OF True Inr] show thesis
      by (intro that [of s']) (simp_all add: handle_def)
  next
    case (Inl e)
    let ?why = "[\<lparr>vf_type = RejectionType.POLICY_VIOLATION, vf_description = error_message e\<rparr>]"
    have "described ?why" by (simp add: described_def message_described)
    from reject_record_refused [OF assms this] obtain s' where
      s': "reject_record P env s r ?why = Inr s'" "refused s r s'" by blast
    then show thesis using True Inl by (intro that [of s']) (simp_all add: handle_def refused_def)
  qed
qed

text \<open>With a blank id nothing can be refused, and the error escapes.\<close>

lemma handle_blank:
  assumes "trim (sr_id r) = []"
  shows "(\<exists>s'. handle P env known resolver s r = Inr s' \<and> posted s r s') \<or>
    handle P env known resolver s r = Inl (Value_Error StagingIdRequired)"
proof -
  have again: "reject_record P env s r [\<lparr>vf_type = RejectionType.POLICY_VIOLATION, vf_description = d\<rparr>]
      = Inl (Value_Error StagingIdRequired)" if "trim d \<noteq> []" for d
    by (rule reject_record_blank [OF assms]) (simp add: described_def that)
  have first: "reject_record P env s r (validateRecord known (ps_ledger s) r) = Inl (Value_Error StagingIdRequired)"
    by (rule reject_record_blank [OF assms failures_described])
  show ?thesis
  proof (cases "validateRecord known (ps_ledger s) r = []")
    case False
    with first again show ?thesis by (simp add: handle_def Let_def starts_described letters is_space_def)
  next
    case True
    then show ?thesis
      using post_record_posted(1) [OF True] again [OF message_described]
      by (cases "post_record P env resolver s r") (auto simp: handle_def)
  qed
qed

section \<open>Running the job\<close>

abbreviation ids :: "StagingRecord list \<Rightarrow> string list" where
  "ids store \<equiv> map sr_id store"

lemma mark_map:
  "distinct (ids store) \<Longrightarrow> mark status i store = map (\<lambda>r. if sr_id r = i then r\<lparr>sr_status := status\<rparr> else r) store"
proof (induction store)
  case Nil
  then show ?case by simp
next
  case (Cons r store)
  have "map (\<lambda>r. if sr_id r = i then r\<lparr>sr_status := status\<rparr> else r) store = store" if "i \<notin> set (ids store)"
    using that by (intro map_idI) auto
  with Cons show ?case by auto
qed

lemma ids_mark [simp]: "ids (mark status i store) = ids store"
  by (induction store) auto

lemma claimPending_facts:
  assumes "claimPending target limit types store = (claimed, store')"
  shows "length claimed = min limit (length (filter (claimable types) store))"
    and "ids store' = ids store" and "set (ids claimed) \<subseteq> set (ids store)"
    and "distinct (ids store) \<Longrightarrow> distinct (ids claimed)"
    and "\<forall>c\<in>set claimed. \<exists>r\<in>set store. claimable types r \<and> c = r\<lparr>sr_status := target\<rparr>"
proof -
  have "length claimed = min limit (length (filter (claimable types) store)) \<and>
    ids store' = ids store \<and> set (ids claimed) \<subseteq> set (ids store) \<and>
    (distinct (ids store) \<longrightarrow> distinct (ids claimed)) \<and>
    (\<forall>c\<in>set claimed. \<exists>r\<in>set store. claimable types r \<and> c = r\<lparr>sr_status := target\<rparr>)"
    using assms
  proof (induction target limit types store arbitrary: claimed store' rule: claimPending.induct)
    case (1 target limit types)
    then show ?case by simp
  next
    case (2 target limit types r store)
    show ?case
    proof (cases "claimable types r \<and> limit > 0")
      case True
      obtain c s where rest: "claimPending target (limit - 1) types store = (c, s)" by fastforce
      with 2(3) True have eq: "claimed = r\<lparr>sr_status := target\<rparr> # c" "store' = r\<lparr>sr_status := target\<rparr> # s"
        by (simp_all add: Let_def)
      from 2(1) [OF True refl rest] True show ?thesis by (auto simp: eq)
    next
      case False
      obtain c s where rest: "claimPending target limit types store = (c, s)" by fastforce
      with 2(3) False have eq: "claimed = c" "store' = r # s" by (auto simp: Let_def)
      from 2(2) [OF False rest] False show ?thesis by (auto simp: eq)
    qed
  qed
  then show "length claimed = min limit (length (filter (claimable types) store))"
    and "ids store' = ids store" and "set (ids claimed) \<subseteq> set (ids store)"
    and "distinct (ids store) \<Longrightarrow> distinct (ids claimed)"
    and "\<forall>c\<in>set claimed. \<exists>r\<in>set store. claimable types r \<and> c = r\<lparr>sr_status := target\<rparr>"
    by auto
qed

text \<open>With distinct ids a claim is the records it took, with the new status, in the store and in hand.\<close>

definition restatus :: "(string \<Rightarrow> StagingStatus) \<Rightarrow> string list \<Rightarrow> StagingRecord \<Rightarrow> StagingRecord" where
  "restatus f is r = (if sr_id r \<in> set is then r\<lparr>sr_status := f (sr_id r)\<rparr> else r)"

lemma restatus_id [simp]: "sr_id (restatus f is r) = sr_id r"
  by (simp add: restatus_def)

lemma claimPending_map:
  assumes "claimPending target limit types store = (claimed, store')" "distinct (ids store)"
  shows "store' = map (restatus (\<lambda>_. target) (ids claimed)) store \<and>
    claimed = map (\<lambda>r. r\<lparr>sr_status := target\<rparr>) (filter (\<lambda>r. sr_id r \<in> set (ids claimed)) store)"
  using assms
proof (induction target limit types store arbitrary: claimed store' rule: claimPending.induct)
  case (1 target limit types)
  then show ?case by simp
next
  case (2 target limit types r store)
  show ?case
  proof (cases "claimable types r \<and> limit > 0")
    case True
    obtain c s where rest: "claimPending target (limit - 1) types store = (c, s)" by fastforce
    with 2(3) True have eq: "claimed = r\<lparr>sr_status := target\<rparr> # c" "store' = r\<lparr>sr_status := target\<rparr> # s"
      by (simp_all add: Let_def)
    from 2(4) have d: "distinct (ids store)" "sr_id r \<notin> set (ids store)" by auto
    have same: "sr_id x \<in> set (ids claimed) \<longleftrightarrow> sr_id x \<in> set (ids c)" if "x \<in> set store" for x
    proof -
      from that have "sr_id x \<in> set (ids store)" by simp
      with d(2) have "sr_id x \<noteq> sr_id r" by metis
      then show ?thesis by (simp add: eq)
    qed
    from 2(1) [OF True refl rest d(1)] have IH: "s = map (restatus (\<lambda>_. target) (ids c)) store"
      "c = map (\<lambda>r. r\<lparr>sr_status := target\<rparr>) (filter (\<lambda>r. sr_id r \<in> set (ids c)) store)" by auto
    have m: "map (restatus (\<lambda>_. target) (ids claimed)) store = s"
      unfolding IH(1) by (rule map_cong) (use same in \<open>simp_all add: restatus_def\<close>)
    have fl: "filter (\<lambda>r. sr_id r \<in> set (ids claimed)) store = filter (\<lambda>r. sr_id r \<in> set (ids c)) store"
      by (rule filter_cong) (use same in simp_all)
    have head: "sr_id r \<in> set (ids claimed)" by (simp add: eq)
    then have "restatus (\<lambda>_. target) (ids claimed) r = r\<lparr>sr_status := target\<rparr>" by (simp add: restatus_def)
    then show ?thesis
      unfolding list.map(2) filter.simps(2) m fl using head IH(2) by (simp only: if_True) (simp add: eq)
  next
    case False
    obtain c s where rest: "claimPending target limit types store = (c, s)" by fastforce
    with 2(3) False have eq: "claimed = c" "store' = r # s" by (auto simp: Let_def)
    from 2(4) have d: "distinct (ids store)" "sr_id r \<notin> set (ids store)" by auto
    with claimPending_facts(3) [OF rest] have "sr_id r \<notin> set (ids c)" by blast
    with 2(2) [OF False rest d(1)] show ?thesis by (auto simp: eq restatus_def)
  qed
qed

definition done_status :: "StagingStatus set" where
  "done_status = {accepted_record, rejected_record}"

text \<open>The outcome of every record handled, and what the ledger and the rejections grow by.\<close>

lemma handle_all_settles:
  assumes "distinct (ids rs)" "distinct (ids (ps_staging s))"
    and "\<forall>r\<in>set rs. trim (sr_id r) \<noteq> []" "\<forall>n. he_rejectId (envs n) \<noteq> []"
  shows "\<exists>s' f. handle_all P envs known resolver n rs s = (None, s') \<and> range f \<subseteq> done_status \<and>
    ps_staging s' = map (restatus f (ids rs)) (ps_staging s) \<and>
    length (ps_ledger s') = length (ps_ledger s) + length (filter (\<lambda>r. f (sr_id r) = accepted_record) rs) \<and>
    length (ps_rejected s') = length (ps_rejected s) + length (filter (\<lambda>r. f (sr_id r) = rejected_record) rs) \<and>
    (reachable P (ps_ledger s) \<longrightarrow> reachable P (ps_ledger s'))"
  using assms(1-3)
proof (induction rs arbitrary: n s)
  case Nil
  have "map (restatus (\<lambda>_. accepted_record) []) (ps_staging s) = ps_staging s"
    by (rule map_idI) (simp add: restatus_def)
  then show ?case by (intro exI [of _ s] exI [of _ "\<lambda>_. accepted_record"]) (auto simp: done_status_def)
next
  case (Cons r rs)
  from Cons.prems assms(4) obtain s1 where s1: "handle P (envs n) known resolver s r = Inr s1"
    "posted s r s1 \<or> refused s r s1" "reachable P (ps_ledger s) \<Longrightarrow> reachable P (ps_ledger s1)"
    using handle_outcome [of r "envs n" P known resolver s] by auto
  then obtain x where x: "x \<in> done_status" "ps_staging s1 = mark x (sr_id r) (ps_staging s)"
    "length (ps_ledger s1) = length (ps_ledger s) + of_bool (x = accepted_record)"
    "length (ps_rejected s1) = length (ps_rejected s) + of_bool (x = rejected_record)"
    by (auto simp: posted_def refused_def done_status_def)
  have d1: "distinct (ids (ps_staging s1))" using Cons.prems(2) by (simp add: x(2))
  from Cons.IH [of s1 "Suc n"] Cons.prems d1 obtain s' f where IH:
    "handle_all P envs known resolver (Suc n) rs s1 = (None, s')" "range f \<subseteq> done_status"
    "ps_staging s' = map (restatus f (ids rs)) (ps_staging s1)"
    "length (ps_ledger s') = length (ps_ledger s1) + length (filter (\<lambda>r. f (sr_id r) = accepted_record) rs)"
    "length (ps_rejected s') = length (ps_rejected s1) + length (filter (\<lambda>r. f (sr_id r) = rejected_record) rs)"
    "reachable P (ps_ledger s1) \<longrightarrow> reachable P (ps_ledger s')" by auto
  let ?f = "f(sr_id r := x)"
  have ne: "sr_id q \<noteq> sr_id r" if "q \<in> set rs" for q
  proof -
    from that have "sr_id q \<in> set (ids rs)" by simp
    with Cons.prems(1) show ?thesis by auto
  qed
  have others: "filter (\<lambda>q. ?f (sr_id q) = y) rs = filter (\<lambda>q. f (sr_id q) = y) rs" for y
    by (rule filter_cong) (use ne in auto)
  have "ps_staging s' = map (restatus ?f (ids (r # rs))) (ps_staging s)"
    unfolding IH(3) x(2) mark_map [OF Cons.prems(2)] map_map
    by (rule map_cong) (use Cons.prems(1) in \<open>auto simp: restatus_def\<close>)
  moreover have "range ?f \<subseteq> done_status" using IH(2) x(1) by auto
  moreover have "handle_all P envs known resolver n (r # rs) s = (None, s')" using s1(1) IH(1) by simp
  moreover have "length (filter (\<lambda>q. ?f (sr_id q) = y) (r # rs)) =
      of_bool (x = y) + length (filter (\<lambda>q. f (sr_id q) = y) rs)" for y
    unfolding filter.simps(2) others by simp
  moreover have "reachable P (ps_ledger s) \<longrightarrow> reachable P (ps_ledger s')" using IH(6) s1(3) by blast
  ultimately show ?case
    using IH(4,5) x(3,4) by (intro exI [of _ s'] exI [of _ ?f]) (simp only: add.assoc simp_thms)
qed

definition count :: "StagingStatus \<Rightarrow> StagingRecord list \<Rightarrow> nat" where
  "count x store = length (filter (\<lambda>r. sr_status r = x) store)"

lemma count_restatus:
  "count x (map (restatus f is) store) =
     count x (filter (\<lambda>r. sr_id r \<notin> set is) store)
       + length (filter (\<lambda>r. f (sr_id r) = x) (filter (\<lambda>r. sr_id r \<in> set is) store))"
  by (induction store) (auto simp: count_def restatus_def)

lemma count_split:
  "count x store = count x (filter (\<lambda>r. sr_id r \<notin> set is) store) + count x (filter (\<lambda>r. sr_id r \<in> set is) store)"
  by (induction store) (auto simp: count_def)

lemma run_settles:
  assumes "distinct (ids (ps_staging s))" "\<forall>r\<in>set (ps_staging s). trim (sr_id r) \<noteq> []"
    and "\<forall>n. he_rejectId (envs n) \<noteq> []" "reachable P (ps_ledger s)"
  shows "\<exists>s'. run P envs known resolver s = (None, s') \<and> reachable P (ps_ledger s') \<and>
    list_all2 (\<lambda>r r'. r' = r \<or> sr_status r = pending_record \<and> (\<exists>x\<in>done_status. r' = r\<lparr>sr_status := x\<rparr>))
      (ps_staging s) (ps_staging s') \<and>
    count pending_record (ps_staging s') = count pending_record (ps_staging s) - 100 \<and>
    count accepted_record (ps_staging s') - count accepted_record (ps_staging s) = length (ps_ledger s') - length (ps_ledger s) \<and>
    count rejected_record (ps_staging s') - count rejected_record (ps_staging s) = length (ps_rejected s') - length (ps_rejected s)"
proof -
  let ?store = "ps_staging s"
  obtain claimed staging where claim: "claimPending processing_record 100 [] ?store = (claimed, staging)" by fastforce
  note facts = claimPending_facts [OF claim]
  note maps = claimPending_map [OF claim assms(1)]
  let ?in = "filter (\<lambda>r. sr_id r \<in> set (ids claimed)) ?store"
  have len: "length claimed = length ?in" using maps by (metis length_map)
  have pending: "sr_status r = pending_record" if "r \<in> set ?in" for r
  proof -
    from that obtain c where c: "c \<in> set claimed" "sr_id c = sr_id r" "r \<in> set ?store" by auto
    with facts(5) obtain q where q: "q \<in> set ?store" "claimable [] q" "c = q\<lparr>sr_status := processing_record\<rparr>" by blast
    from q(1,3) c(2,3) assms(1) have "q = r" by (auto simp: distinct_map inj_on_def)
    with q(2) show ?thesis by (simp add: claimable_def)
  qed
  have blank: "\<forall>r\<in>set claimed. trim (sr_id r) \<noteq> []" using facts(5) assms(2) by fastforce
  let ?s = "s\<lparr>ps_staging := staging\<rparr>"
  have "distinct (ids claimed)" "distinct (ids (ps_staging ?s))" using facts assms(1) by simp_all
  from handle_all_settles [OF this blank assms(3), of P known resolver 0] obtain s' f where H:
    "handle_all P envs known resolver 0 claimed ?s = (None, s')" "range f \<subseteq> done_status"
    "ps_staging s' = map (restatus f (ids claimed)) staging"
    "length (ps_ledger s') = length (ps_ledger s) + length (filter (\<lambda>r. f (sr_id r) = accepted_record) claimed)"
    "length (ps_rejected s') = length (ps_rejected s) + length (filter (\<lambda>r. f (sr_id r) = rejected_record) claimed)"
    "reachable P (ps_ledger s) \<longrightarrow> reachable P (ps_ledger s')" by auto
  have staging': "ps_staging s' = map (restatus f (ids claimed)) ?store"
    unfolding H(3) using maps by (auto simp: restatus_def)
  have inside: "length (filter (\<lambda>r. f (sr_id r) = x) claimed) = length (filter (\<lambda>r. f (sr_id r) = x) ?in)" for x
    by (subst maps [THEN conjunct2]) (simp add: filter_map comp_def)
  have zero: "count x ?in = 0" if "x \<noteq> pending_record" for x
    using pending that by (auto simp: count_def filter_empty_conv)
  have "filter (\<lambda>r. sr_status r = pending_record) ?in = ?in"
    by (rule filter_True) (use pending in blast)
  then have all: "count pending_record ?in = length ?in"
    unfolding count_def by (rule arg_cong)
  have settled: "f i \<in> done_status" for i using H(2) by blast
  have pending_free: "f i \<noteq> pending_record" for i using settled [of i] by (auto simp: done_status_def)
  have none: "length (filter (\<lambda>r. f (sr_id r) = pending_record) ?in) = 0"
    using pending_free by (simp add: filter_empty_conv)
  have rel: "list_all2 (\<lambda>r r'. r' = r \<or> sr_status r = pending_record \<and> (\<exists>x\<in>done_status. r' = r\<lparr>sr_status := x\<rparr>))
      ?store (ps_staging s')"
    unfolding staging' list.rel_map
    by (rule list.rel_refl_strong) (use pending settled in \<open>auto simp: restatus_def\<close>)
  have claimable: "filter (claimable []) ?store = filter (\<lambda>r. sr_status r = pending_record) ?store"
    by (rule filter_cong) (simp_all add: claimable_def)
  have "length claimed = min 100 (count pending_record ?store)"
    using facts(1) unfolding claimable count_def by simp
  moreover have "count pending_record (ps_staging s') + length claimed = count pending_record ?store"
    unfolding staging' count_restatus none len by (subst count_split [of _ ?store "ids claimed"]) (simp only: all add_0_right)
  ultimately have "count pending_record (ps_staging s') = count pending_record ?store - 100" by linarith
  moreover have "count x (ps_staging s') = count x ?store + length (filter (\<lambda>r. f (sr_id r) = x) claimed)"
    if "x \<noteq> pending_record" for x
    unfolding staging' count_restatus inside using zero [OF that] count_split [of x ?store "ids claimed"] by simp
  ultimately show ?thesis
    using H(1,4,5,6) assms(4) rel by (intro exI [of _ s']) (simp add: run_def claim)
qed

section \<open>A record delivered twice\<close>

text \<open>
  A broker delivers at least once. Handling a record again after it was posted does not post it
  twice; but it is refused as a duplicate, which overwrites its status.
\<close>

lemma validateRecord_duplicate:
  assumes "staged_ok known r" "existsBySourceReference st (str (sr_sourceReference r))"
  shows "validateRecord known st r =
    [\<lparr>vf_type = RejectionType.DUPLICATE_EVENT,
      vf_description = ''Duplicate source reference: '' @ quoted (str (sr_sourceReference r))\<rparr>]"
proof -
  have "truthy (sr_sourceReference r)" using assms(1) by (auto simp: staged_ok_def REQUIRED_FIELDS_def)
  then have dup: "checkDuplicate st r = [\<lparr>vf_type = RejectionType.DUPLICATE_EVENT,
      vf_description = ''Duplicate source reference: '' @ quoted (str (sr_sourceReference r))\<rparr>]"
    using assms(2) by (simp add: checkDuplicate_def fails_def)
  have "validateRecord known [] r = []"
    using assms(1) by (simp add: validateRecord_Nil existsBySourceReference_def)
  then show ?thesis by (simp add: validateRecord_def dup)
qed

lemma redelivered:
  assumes "handle P env known resolver s r = Inr s1" "posted s r s1" "validateRecord known (ps_ledger s) r = []"
    and "trim (sr_id r) \<noteq> []" "he_rejectId env2 \<noteq> []"
  obtains s2 where "handle P env2 known resolver s1 r = Inr s2" "refused s1 r s2"
proof -
  from assms(2) obtain ev where "ps_ledger s1 = ps_ledger s @ [ev]"
    "sr_sourceReference r = Some (src_reference (ev_source ev))" by (auto simp: posted_def)
  then have "existsBySourceReference (ps_ledger s1) (str (sr_sourceReference r))"
    by (simp add: existsBySourceReference_def str_def)
  moreover have "staged_ok known r" using assms(3) by (simp add: validateRecord_Nil)
  ultimately have "validateRecord known (ps_ledger s1) r \<noteq> []" by (simp add: validateRecord_duplicate)
  from reject_record_refused [OF assms(4,5) failures_described this, of P s1] obtain s2 where
    s2: "reject_record P env2 s1 r (validateRecord known (ps_ledger s1) r) = Inr s2" "refused s1 r s2" by blast
  with \<open>validateRecord known (ps_ledger s1) r \<noteq> []\<close> show thesis
    by (intro that [of s2]) (simp_all add: handle_def)
qed

section \<open>Submitting to the broker\<close>

text \<open>A claimed record is on the broker and queued, or pending again.\<close>

lemma publish_all_result:
  assumes "distinct (ids store)" "distinct (ids rs)"
  shows "fst (publish_all publish n rs store) = map snd (filter (\<lambda>(k, r). publish k r) (enumerate n rs)) \<and>
    snd (publish_all publish n rs store) =
      map (restatus (\<lambda>_. pending_record) (map (sr_id \<circ> snd) (filter (\<lambda>(k, r). \<not> publish k r) (enumerate n rs)))) store"
  using assms
proof (induction rs arbitrary: n store)
  case Nil
  then show ?case by (simp add: restatus_def map_idI)
next
  case (Cons r rs)
  show ?case
  proof (cases "publish n r")
    case True
    then show ?thesis using Cons by (simp add: case_prod_unfold)
  next
    case False
    let ?store = "mark pending_record (sr_id r) store"
    have "distinct (ids ?store)" "distinct (ids rs)" using Cons.prems by simp_all
    note IH = Cons.IH [OF this, of "Suc n"]
    have "map (restatus (\<lambda>_. pending_record) is) ?store = map (restatus (\<lambda>_. pending_record) (sr_id r # is)) store" for "is"
      unfolding mark_map [OF Cons.prems(1)] map_map by (rule map_cong) (auto simp: restatus_def)
    with IH False show ?thesis by (simp add: case_prod_unfold)
  qed
qed

text \<open>What one submission round leaves: nothing claimed is lost.\<close>

lemma submit_run_result:
  assumes "distinct (ids store)" "submit_run publish types store = (sent, store')"
  shows "\<exists>claimed. (\<forall>c\<in>set claimed. \<exists>r\<in>set store. claimable types r \<and> c = r\<lparr>sr_status := queued_record\<rparr>) \<and>
    sent = map snd (filter (\<lambda>(k, r). publish k r) (enumerate 0 claimed)) \<and>
    store' = map (restatus (\<lambda>_. pending_record)
        (map (sr_id \<circ> snd) (filter (\<lambda>(k, r). \<not> publish k r) (enumerate 0 claimed))))
      (map (restatus (\<lambda>_. queued_record) (ids claimed)) store) \<and>
    length claimed = min 100 (length (filter (claimable types) store))"
proof -
  obtain claimed st1 where claim: "claimPending queued_record 100 types store = (claimed, st1)" by fastforce
  note facts = claimPending_facts [OF claim]
  have "publish_all publish 0 claimed st1 = (sent, store')"
    using assms(2) by (simp add: submit_run_def claim)
  then have "sent = map snd (filter (\<lambda>(k, r). publish k r) (enumerate 0 claimed)) \<and>
    store' = map (restatus (\<lambda>_. pending_record)
        (map (sr_id \<circ> snd) (filter (\<lambda>(k, r). \<not> publish k r) (enumerate 0 claimed)))) st1"
    using publish_all_result [of st1 claimed publish 0] facts(2,4) assms(1) by simp
  moreover have "st1 = map (restatus (\<lambda>_. queued_record) (ids claimed)) store"
    using claimPending_map [OF claim assms(1)] by simp
  ultimately show ?thesis using facts(1,5) by blast
qed

section \<open>The origin of a posted receipt\<close>

lemma findExpected_Some:
  "findExpected st oid = Some i \<Longrightarrow>
     \<exists>e\<in>set st. ev_id e = i \<and> ev_eventType e = EventType.COMMISSION_EXPECTED \<and> mentions oid e"
  by (auto simp: findExpected_def findByObjectId_def dest!: find_SomeD)

lemma findExpected_None:
  "findExpected st oid = None \<longleftrightarrow> (\<forall>e\<in>set st. mentions oid e \<longrightarrow> ev_eventType e \<noteq> EventType.COMMISSION_EXPECTED)"
  by (auto simp: findExpected_def findByObjectId_def find_None_iff)

lemma resolve_None:
  assumes "resolve st r = Inr None" "sr_eventType r = Some (eventType_value EventType.COMMISSION_RECEIVED)"
  obtains ob where "so_objectType ob = Some (objectType_value ObjectType.COMMISSION_RECEIVABLE)"
    "\<exists>obs. sr_objects r = Some obs \<and> ob \<in> set obs" "findExpected st (str (so_objectId ob)) = None"
  using assms
  by (auto simp: resolve_def dest!: find_SomeD split: option.splits if_splits)

lemma resolve_nonempty:
  assumes "resolve st r = Inr (Some i)" "sr_eventType r = Some (eventType_value EventType.COMMISSION_RECEIVED)"
    "\<forall>e\<in>set st. ev_id e \<noteq> []"
  shows "i \<noteq> []"
  using assms
  by (auto simp: resolve_def truthy_def dest: findExpected_Some split: option.splits if_splits)

definition receipt_linked :: "store \<Rightarrow> LedgerEvent \<Rightarrow> bool" where
  "receipt_linked st ev \<longleftrightarrow>
     (\<exists>origin\<in>set st. ev_relatedEventId ev = Some (ev_id origin) \<and> ev_eventType origin = EventType.COMMISSION_EXPECTED)"

text \<open>The unresolved origin is declared, and no event of the ledger could have been it.\<close>

definition receipt_orphan :: "store \<Rightarrow> StagingRecord \<Rightarrow> LedgerEvent \<Rightarrow> bool" where
  "receipt_orphan st r ev \<longleftrightarrow>
     ev_relatedEventId ev = None \<and>
     (\<exists>rs. ev_reason ev = Some rs \<and> rsn_type rs = ReasonType.UNKNOWN_ORIGIN \<and> rsn_requiresFollowup rs) \<and>
     (\<exists>obs ob. sr_objects r = Some obs \<and> ob \<in> set obs \<and>
        so_objectType ob = Some (objectType_value ObjectType.COMMISSION_RECEIVABLE) \<and>
        (\<forall>e\<in>set st. mentions (str (so_objectId ob)) e \<longrightarrow> ev_eventType e \<noteq> EventType.COMMISSION_EXPECTED))"

lemma receipt_origin:
  assumes "validateRecord known (ps_ledger s) r = []" "post_record P env True s r = Inr s'"
    and "sr_eventType r = Some (eventType_value EventType.COMMISSION_RECEIVED)"
    and "\<forall>e\<in>set (ps_ledger s). ev_id e \<noteq> []"
  shows "\<exists>ev. ps_ledger s' = ps_ledger s @ [ev] \<and>
    (receipt_linked (ps_ledger s) ev \<or> receipt_orphan (ps_ledger s) r ev)"
proof -
  from assms(1,2) obtain cmd related ev where b: "reads_as P r cmd"
    "(if True then resolve (ps_ledger s) r else Inr (sr_relatedEventId r)) = Inr related"
    "build_event_of P (he_call env) (ps_ledger s) (final_command cmd related) = Inr ev"
    "s' = s\<lparr>ps_ledger := ps_ledger s @ [ev],
            ps_audit := ps_audit s @ [audit_created P (final_command cmd related) ev],
            ps_staging := mark accepted_record (sr_id r) (ps_staging s)\<rparr>"
    by (elim post_record_built)
  have b2: "resolve (ps_ledger s) r = Inr related" using b(2) by simp
  have ty: "cmd_eventType cmd = EventType.COMMISSION_RECEIVED"
  proof -
    have "eventType_value (cmd_eventType cmd) = eventType_value EventType.COMMISSION_RECEIVED"
      using b(1) assms(3) unfolding reads_as_def by simp
    then show ?thesis by (simp only: eventType.value_inject)
  qed
  from b(3) obtain originEvent where o: "find_origin (ps_ledger s) (final_command cmd related) = Inr originEvent"
    "ev_relatedEventId ev = related"
    by (elim build_event_of_Inr) (simp add: final_command_fields)
  have reason: "ev_reason ev = cmd_reason (final_command cmd related)"
    using b(3) by (auto simp: build_event_of_iff command_props_Some create_Inr event_of_def make_props_def)
  show ?thesis
  proof (cases related)
    case (Some i)
    with b2 assms(3,4) have "truthy (Some i)" using resolve_nonempty by (simp add: truthy_def)
    with o(1) Some obtain origin where "originEvent = Some origin"
      by (auto simp: find_origin_iff final_command_fields)
    with find_origin_Inr(2) [OF o(1)] ty have "origin \<in> set (ps_ledger s)" "related = Some (ev_id origin)"
      "ev_eventType origin = EventType.COMMISSION_EXPECTED"
      by (auto simp: final_command_fields contract_COMMISSION_RECEIVED_def)
    with o(2) b(4) show ?thesis by (auto simp: receipt_linked_def)
  next
    case None
    with b2 have "resolve (ps_ledger s) r = Inr None" by simp
    from resolve_None [OF this assms(3)] obtain ob obs where
      "so_objectType ob = Some (objectType_value ObjectType.COMMISSION_RECEIVABLE)" "sr_objects r = Some obs"
      "ob \<in> set obs" "findExpected (ps_ledger s) (str (so_objectId ob)) = None" by blast
    moreover have "\<exists>rs. ev_reason ev = Some rs \<and> rsn_type rs = ReasonType.UNKNOWN_ORIGIN \<and> rsn_requiresFollowup rs"
      using reason ty None by (simp add: final_command_def markOrphanIfUnlinked_def)
    ultimately show ?thesis using o(2) None b(4) by (auto simp: receipt_orphan_def findExpected_None)
  qed
qed

end
