(* ===== verification/Ledger_Published.thy ===== *)
theory Ledger_Published
  imports Listings Cash_Movements Cash_Reports Staging_Posting
begin

text \<open>
  What the read API of the ledger publishes (\<open>presentation/web/api/serializers\<close>): amounts as decimal
  texts, instants as ISO texts (\<open>Date.toJSON\<close>), enumerations as their values. A figure the book cannot
  derive is published as \<open>null\<close>, never as zero.
\<close>

section \<open>Events\<close>

record PublishedParty =
  pp_partyId :: string
  pp_role :: string
  pp_direction :: string
  pp_amount :: "string option"

record PublishedObject =
  pob_objectId :: string
  pob_objectType :: string
  pob_relation :: string

record PublishedReason =
  prs_type :: string
  prs_description :: string
  prs_confidence :: string
  prs_requiresFollowup :: bool

record PublishedReporter =
  prp_type :: string
  prp_id :: string
  prp_name :: "string option"
  prp_reportedAt :: string
  prp_channel :: string

record PublishedEvent =
  pe_id :: string
  pe_eventType :: string
  pe_economicEffect :: string
  pe_occurredAt :: string
  pe_recordedAt :: string
  pe_dueAt :: "string option"
  pe_amount :: string
  pe_currency :: string
  pe_description :: "string option"
  pe_source :: EventSource
  pe_normalization :: NormalizationMetadata
  pe_parties :: "PublishedParty list"
  pe_objects :: "PublishedObject list"
  pe_reason :: "PublishedReason option"
  pe_reporter :: PublishedReporter
  pe_hash :: string
  pe_previousHash :: "string option"
  pe_relatedEventId :: "string option"

definition publish_party :: "LedgerEventParty \<Rightarrow> PublishedParty" where
  "publish_party q =
     \<lparr>pp_partyId = party_id q, pp_role = partyRole_value (party_role q),
      pp_direction = direction_value (party_direction q), pp_amount = map_option money_toString (party_amount q)\<rparr>"

definition publish_object :: "LedgerEventObject \<Rightarrow> PublishedObject" where
  "publish_object ob =
     \<lparr>pob_objectId = obj_id ob, pob_objectType = objectType_value (obj_type ob),
      pob_relation = relation_value (obj_relation ob)\<rparr>"

definition publish_reason :: "EventReason \<Rightarrow> PublishedReason" where
  "publish_reason r =
     \<lparr>prs_type = reasonType_value (rsn_type r), prs_description = rsn_description r,
      prs_confidence = confidenceLevel_value (rsn_confidence r), prs_requiresFollowup = rsn_requiresFollowup r\<rparr>"

definition publish_reporter :: "platform \<Rightarrow> EventReporter \<Rightarrow> PublishedReporter" where
  "publish_reporter P r =
     \<lparr>prp_type = reporterType_value (rep_type r), prp_id = rep_id r, prp_name = rep_name r,
      prp_reportedAt = iso_string P (rep_reportedAt r), prp_channel = rep_channel r\<rparr>"

definition serializeEvent :: "platform \<Rightarrow> LedgerEvent \<Rightarrow> PublishedEvent" where
  "serializeEvent P ev =
     \<lparr>pe_id = ev_id ev, pe_eventType = eventType_value (ev_eventType ev),
      pe_economicEffect = economicEffect_value (ev_economicEffect ev),
      pe_occurredAt = iso_string P (ev_occurredAt ev), pe_recordedAt = iso_string P (ev_recordedAt ev),
      pe_dueAt = map_option (iso_string P) (ev_dueAt ev), pe_amount = money_toString (ev_amount ev),
      pe_currency = currency (ev_amount ev), pe_description = ev_description ev, pe_source = ev_source ev,
      pe_normalization = ev_normalization ev, pe_parties = map publish_party (ev_parties ev),
      pe_objects = map publish_object (ev_objects ev), pe_reason = map_option publish_reason (ev_reason ev),
      pe_reporter = publish_reporter P (ev_reporter ev), pe_hash = ev_hash ev,
      pe_previousHash = ev_previousHash ev, pe_relatedEventId = ev_relatedEventId ev\<rparr>"

section \<open>Positions\<close>

fun positionStatus_value :: "PositionStatus \<Rightarrow> string" where
  "positionStatus_value open_position = ''open''"
| "positionStatus_value partially_settled = ''partially_settled''"
| "positionStatus_value fully_settled = ''fully_settled''"
| "positionStatus_value reversed = ''reversed''"
| "positionStatus_value unknown_origin = ''unknown_origin''"

fun outcome_value :: "EconomicOutcome \<Rightarrow> string" where
  "outcome_value gain = ''gain''"
| "outcome_value partial_loss = ''partial_loss''"
| "outcome_value full_loss = ''full_loss''"
| "outcome_value cancelled = ''cancelled''"
| "outcome_value pending = ''pending''"

record PublishedFigures =
  pfg_status :: string
  pfg_outcome :: string
  pfg_currency :: string
  pfg_totalOriginated :: string
  pfg_totalSettled :: string
  pfg_totalAdjusted :: string
  pfg_openBalance :: "string option"
  pfg_overSettlement :: "string option"
  pfg_cashRecovered :: string
  pfg_nonCashClosed :: string
  pfg_allocationGap :: string

definition publish_figures :: "PositionFigures \<Rightarrow> PublishedFigures" where
  "publish_figures f =
     \<lparr>pfg_status = positionStatus_value (pf_status f), pfg_outcome = outcome_value (pf_outcome f),
      pfg_currency = currency (pf_totalOriginated f), pfg_totalOriginated = money_toString (pf_totalOriginated f),
      pfg_totalSettled = money_toString (pf_totalSettled f), pfg_totalAdjusted = money_toString (pf_totalAdjusted f),
      pfg_openBalance = map_option money_toString (pf_openBalance f),
      pfg_overSettlement = map_option money_toString (pf_overSettlement f),
      pfg_cashRecovered = money_toString (pf_cashRecovered f), pfg_nonCashClosed = money_toString (pf_nonCashClosed f),
      pfg_allocationGap = money_toString (pf_allocationGap f)\<rparr>"

record PublishedPosition =
  pub_objectId :: string
  pub_objectType :: string
  pub_figures :: PublishedFigures
  pub_eventCount :: int
  pub_lastEventAt :: string
  pub_originatedAt :: "string option"
  pub_createdAt :: string
  pub_dueAt :: "string option"
  pub_parties :: "string list option"

definition serializePositionListItem :: "platform \<Rightarrow> PositionListItem \<Rightarrow> PublishedPosition" where
  "serializePositionListItem P x =
     \<lparr>pub_objectId = li_objectId x, pub_objectType = objectType_value (li_objectType x),
      pub_figures = publish_figures (li_figures x), pub_eventCount = li_eventCount x,
      pub_lastEventAt = iso_string P (li_lastEventAt x),
      pub_originatedAt = map_option (iso_string P) (li_originatedAt x),
      pub_createdAt = iso_string P (li_createdAt x), pub_dueAt = map_option (iso_string P) (li_dueAt x),
      pub_parties = li_parties x\<rparr>"

text \<open>The detail of a position marks the events that no longer count, with the fold the projection uses.\<close>

record LifeEvent = PublishedEvent +
  pe_retracted :: bool

record PublishedOrigin =
  pog_eventId :: string
  pog_eventType :: string
  pog_occurredAt :: string
  pog_source :: EventSource
  pog_description :: "string option"
  pog_reporterType :: string
  pog_reporterId :: string
  pog_reporterName :: "string option"
  pog_reporterChannel :: string
  pog_parties :: "PublishedParty list"
  pog_relatedObjects :: "PublishedObject list"

record PublishedDetail =
  pd_objectId :: string
  pd_objectType :: string
  pd_figures :: PublishedFigures
  pd_eventCount :: int
  pd_events :: "LifeEvent list"
  pd_origin :: "PublishedOrigin option"

definition publish_life_event :: "platform \<Rightarrow> string list \<Rightarrow> LedgerEvent \<Rightarrow> LifeEvent" where
  "publish_life_event P retracted ev =
     PublishedEvent.extend (serializeEvent P ev) (LifeEvent.fields (ev_id ev \<in> set retracted))"

definition publish_origin :: "platform \<Rightarrow> PositionOrigin \<Rightarrow> PublishedOrigin" where
  "publish_origin P g =
     \<lparr>pog_eventId = og_eventId g, pog_eventType = eventType_value (og_eventType g),
      pog_occurredAt = iso_string P (og_occurredAt g), pog_source = og_source g, pog_description = og_description g,
      pog_reporterType = reporterType_value (og_reporterType g), pog_reporterId = og_reporterId g,
      pog_reporterName = og_reporterName g, pog_reporterChannel = og_reporterChannel g,
      pog_parties = map (\<lambda>(i, r, d, a). \<lparr>pp_partyId = i, pp_role = partyRole_value r,
        pp_direction = direction_value d, pp_amount = a\<rparr>) (og_parties g),
      pog_relatedObjects = map publish_object (og_relatedObjects g)\<rparr>"

definition serializePositionSummary :: "platform \<Rightarrow> PositionSummary \<Rightarrow> PublishedDetail" where
  "serializePositionSummary P s =
     (let retracted = retractedEventIds (ps_events s)
      in \<lparr>pd_objectId = ps_objectId s, pd_objectType = objectType_value (ps_objectType s),
          pd_figures = publish_figures (ps_figures s), pd_eventCount = ps_eventCount s,
          pd_events = map (publish_life_event P retracted) (ps_events s),
          pd_origin = map_option (publish_origin P) (ps_origin s)\<rparr>)"

lemma publish_life_event_simps [simp]:
  "pe_id (publish_life_event P r ev) = ev_id ev"
  "pe_retracted (publish_life_event P r ev) \<longleftrightarrow> ev_id ev \<in> set r"
  "pe_objects (publish_life_event P r ev) = map publish_object (ev_objects ev)"
  "pe_parties (publish_life_event P r ev) = map publish_party (ev_parties ev)"
  "pe_relatedEventId (publish_life_event P r ev) = ev_relatedEventId ev"
  "pe_reason (publish_life_event P r ev) = map_option publish_reason (ev_reason ev)"
  by (simp_all add: publish_life_event_def PublishedEvent.defs LifeEvent.defs serializeEvent_def)

section \<open>Cash\<close>

record PublishedComposition =
  pcm_objectType :: string
  pcm_openBalance :: string

record PublishedCashPosition =
  pcp_totalCashIn :: string
  pcp_totalCashOut :: string
  pcp_netCashFlow :: string
  pcp_openReceivables :: string
  pcp_openPayables :: string
  pcp_contingentExposure :: string
  pcp_openReceivablesByType :: "PublishedComposition list"
  pcp_openPayablesByType :: "PublishedComposition list"
  pcp_contingentExposureByType :: "PublishedComposition list"
  pcp_currency :: string
  pcp_asOf :: string

definition serializeComposition :: "OpenBalanceByObjectType list \<Rightarrow> PublishedComposition list" where
  "serializeComposition =
     map (\<lambda>l. \<lparr>pcm_objectType = objectType_value (ob_objectType l), pcm_openBalance = money_toString (ob_openBalance l)\<rparr>)"

text \<open>The net flow is the unsigned difference behind a sign; no cash at all counts as plus.\<close>

definition serializeCashPosition :: "platform \<Rightarrow> CashPositionSummary \<Rightarrow> ledger_error + PublishedCashPosition" where
  "serializeCashPosition P s =
     (let i = toUnits (cp_totalCashIn s); u = toUnits (cp_totalCashOut s);
          sign = (if i \<ge> u then ''+'' else ''-'')
      in ebind (fromUnits (if i \<ge> u then i - u else u - i) (cp_currency s)) (\<lambda>net.
         Inr \<lparr>pcp_totalCashIn = money_toString (cp_totalCashIn s), pcp_totalCashOut = money_toString (cp_totalCashOut s),
              pcp_netCashFlow = sign @ money_toString net,
              pcp_openReceivables = money_toString (cp_openReceivables s),
              pcp_openPayables = money_toString (cp_openPayables s),
              pcp_contingentExposure = money_toString (cp_contingentExposure s),
              pcp_openReceivablesByType = serializeComposition (cp_openReceivablesByType s),
              pcp_openPayablesByType = serializeComposition (cp_openPayablesByType s),
              pcp_contingentExposureByType = serializeComposition (cp_contingentExposureByType s),
              pcp_currency = cp_currency s, pcp_asOf = iso_string P (cp_asOf s)\<rparr>))"

record PublishedMovement =
  pm_eventId :: string
  pm_eventType :: string
  pm_occurredAt :: string
  pm_recordedAt :: string
  pm_effect :: string
  pm_amount :: string
  pm_sourceReference :: string
  pm_sourceSystem :: string
  pm_objects :: "PublishedObject list"
  pm_parties :: "PublishedParty list"
  pm_counterparty :: "string option"
  pm_description :: "string option"

record PublishedMovementPage =
  pmp_items :: "PublishedMovement list"
  pmp_nextCursor :: "string option"
  pmp_hasMore :: bool
  pmp_total :: "int option"
  pmp_page :: "int option"
  pmp_totalPages :: "int option"

definition publish_movement :: "platform \<Rightarrow> CashMovement \<Rightarrow> PublishedMovement" where
  "publish_movement P m =
     \<lparr>pm_eventId = cm_eventId m, pm_eventType = eventType_value (cm_eventType m),
      pm_occurredAt = iso_string P (cm_occurredAt m), pm_recordedAt = iso_string P (cm_recordedAt m),
      pm_effect = economicEffect_value (cm_effect m), pm_amount = money_toString (cm_amount m),
      pm_sourceReference = cm_sourceReference m, pm_sourceSystem = cm_sourceSystem m,
      pm_objects = map publish_object (cm_objects m), pm_parties = map publish_party (cm_parties m),
      pm_counterparty = cm_counterparty m, pm_description = cm_description m\<rparr>"

definition serializeCashMovementPage :: "platform \<Rightarrow> CashMovementPage \<Rightarrow> PublishedMovementPage" where
  "serializeCashMovementPage P page =
     \<lparr>pmp_items = map (publish_movement P) (mp_items page), pmp_nextCursor = mp_nextCursor page,
      pmp_hasMore = mp_hasMore page, pmp_total = mp_total page, pmp_page = mp_page page,
      pmp_totalPages = mp_totalPages page\<rparr>"

record PublishedStatement =
  pst_from :: string
  pst_to :: string
  pst_openingBalance :: string
  pst_closingBalance :: string
  pst_totalCashIn :: string
  pst_totalCashOut :: string
  pst_netFlow :: string
  pst_currency :: string

definition serializeCashStatement :: "platform \<Rightarrow> CashStatement \<Rightarrow> PublishedStatement" where
  "serializeCashStatement P s =
     (let signed = (\<lambda>negative m. (if negative then ''-'' else []) @ money_toString m)
      in \<lparr>pst_from = iso_string P (st_from s), pst_to = iso_string P (st_to s),
          pst_openingBalance = signed (st_openingBalanceNegative s) (st_openingBalance s),
          pst_closingBalance = signed (st_closingBalanceNegative s) (st_closingBalance s),
          pst_totalCashIn = money_toString (st_totalCashIn s), pst_totalCashOut = money_toString (st_totalCashOut s),
          pst_netFlow = money_toString (st_netFlow s), pst_currency = st_currency s\<rparr>)"

section \<open>Dashboard\<close>

fun healthLabel_value :: "HealthLabel \<Rightarrow> string" where
  "healthLabel_value healthy = ''healthy''"
| "healthLabel_value at_risk_label = ''at_risk''"
| "healthLabel_value critical = ''critical''"

fun healthTrend_value :: "HealthTrend \<Rightarrow> string" where
  "healthTrend_value up = ''up''"
| "healthTrend_value down = ''down''"
| "healthTrend_value stable = ''stable''"

text \<open>The score and its legs stay the exact fractions of the model.\<close>

record PublishedHealth =
  phs_score_tenths :: int
  phs_label :: string
  phs_trend :: string
  phs_trendDelta_tenths :: int
  phs_closureQuality_thousandths :: int
  phs_openBookHealth_thousandths :: int
  phs_windowDays :: int

record PublishedDashboard =
  pdb_from :: string
  pdb_to :: string
  pdb_currency :: string
  pdb_cashIn :: string
  pdb_cashOut :: string
  pdb_netCash :: string
  pdb_netCashNegative :: bool
  pdb_openExposure :: string
  pdb_openPayableExposure :: string
  pdb_overduePayable :: string
  pdb_upcomingPayable :: string
  pdb_undatedPayable :: string
  pdb_capitalAtRisk :: string
  pdb_cashInByType :: "(string \<times> string) list"
  pdb_cashOutByType :: "(string \<times> string) list"
  pdb_healthScore :: PublishedHealth
  pdb_attentionPositions :: "PublishedPosition list"
  pdb_recentMovements :: "PublishedEvent list"

definition serializeMoneyMap :: "(EventType \<times> Money) list \<Rightarrow> (string \<times> string) list" where
  "serializeMoneyMap = map (\<lambda>(t, m). (eventType_value t, money_toString m))"

definition Money_unitsToString :: "int \<Rightarrow> string" where
  "Money_unitsToString u = bigint_string (u div 100) @ ''.'' @ pad_start 2 CHR ''0'' (bigint_string (u mod 100))"

definition publish_health :: "BookHealthScore \<Rightarrow> PublishedHealth" where
  "publish_health h =
     \<lparr>phs_score_tenths = hs_score_tenths h, phs_label = healthLabel_value (hs_label h),
      phs_trend = healthTrend_value (hs_trend h), phs_trendDelta_tenths = hs_trendDelta_tenths h,
      phs_closureQuality_thousandths = hs_closureQuality_thousandths h,
      phs_openBookHealth_thousandths = hs_openBookHealth_thousandths h, phs_windowDays = hs_windowDays h\<rparr>"

definition serializeDashboard :: "platform \<Rightarrow> DashboardSummary \<Rightarrow> PublishedDashboard" where
  "serializeDashboard P s =
     \<lparr>pdb_from = iso_string P (db_from s), pdb_to = iso_string P (db_to s), pdb_currency = db_currency s,
      pdb_cashIn = money_toString (db_cashIn s), pdb_cashOut = money_toString (db_cashOut s),
      pdb_netCash = Money_unitsToString (abs (db_netCashUnits s)), pdb_netCashNegative = (db_netCashUnits s < 0),
      pdb_openExposure = money_toString (db_openExposure s),
      pdb_openPayableExposure = money_toString (db_openPayableExposure s),
      pdb_overduePayable = money_toString (db_overduePayable s),
      pdb_upcomingPayable = money_toString (db_upcomingPayable s),
      pdb_undatedPayable = money_toString (db_undatedPayable s),
      pdb_capitalAtRisk = money_toString (db_capitalAtRisk s),
      pdb_cashInByType = serializeMoneyMap (db_cashInByType s), pdb_cashOutByType = serializeMoneyMap (db_cashOutByType s),
      pdb_healthScore = publish_health (db_healthScore s),
      pdb_attentionPositions = map (serializePositionListItem P) (db_attentionPositions s),
      pdb_recentMovements = map (serializeEvent P) (db_recentMovements s)\<rparr>"

section \<open>Rejections\<close>

record PublishedRejection =
  prj_id :: string
  prj_stagingId :: string
  prj_rejectedAt :: string
  prj_reasons :: "(string \<times> string) list"

definition serializeRejectedEvent :: "platform \<Rightarrow> RejectedEvent \<Rightarrow> PublishedRejection" where
  "serializeRejectedEvent P r =
     \<lparr>prj_id = rej_id r, prj_stagingId = rej_stagingId r, prj_rejectedAt = iso_string P (rej_rejectedAt r),
      prj_reasons = map (\<lambda>w. (rejectionType_value (rr_type w), rr_description w)) (rej_reasons r)\<rparr>"

end
