(* ===== verification/Ledger_Api.thy ===== *)
theory Ledger_Api
  imports Ledger_Published
begin

text \<open>
  The read routes of the ledger (\<open>presentation/web/api/routes\<close>). A request is the list of parameters
  of its query string, in order; a parameter that the route reads once is given at most once. An answer
  is a status, when the route refuses or fails, or what is published. Which path leads to which route is
  fixed by the caller of a route here. An error thrown by a service
  reaches the default handler of the server: status 500, or the status the error carries.
\<close>

section \<open>Query strings\<close>

type_synonym query = "(string \<times> string) list"
type_synonym 'a answer = "nat + 'a"

definition one :: "query \<Rightarrow> string \<Rightarrow> string option" where
  "one q key = map_of q key"

definition many :: "query \<Rightarrow> string \<Rightarrow> string list" where
  "many q key = map snd (filter (\<lambda>(k, _). k = key) q)"

text \<open>\<open>parseInt(s, 10)\<close>: blanks, a sign, the longest run of digits; \<open>None\<close> is \<open>NaN\<close>.\<close>

definition parseInt :: "string \<Rightarrow> int option" where
  "parseInt s =
     (let t = dropWhile is_space s;
          (negative, u) = (case t of [] \<Rightarrow> (False, [])
             | c # r \<Rightarrow> if c = CHR ''-'' then (True, r) else if c = CHR ''+'' then (False, r) else (False, t));
          ds = takeWhile is_digit u
      in if ds = [] then None else Some (if negative then - digits_value ds else digits_value ds))"

definition number :: "query \<Rightarrow> string \<Rightarrow> int option" where
  "number q key = Option.bind (one q key) parseInt"

text \<open>\<open>parseInt(...) || undefined\<close>.\<close>

definition or_undefined :: "int option \<Rightarrow> int option" where
  "or_undefined n = (if n = Some 0 then None else n)"

fun split_commas :: "string \<Rightarrow> string list" where
  "split_commas [] = [[]]"
| "split_commas (c # s) =
     (case split_commas s of w # ws \<Rightarrow> if c = CHR '','' then [] # w # ws else (c # w) # ws | [] \<Rightarrow> [[c]])"

definition parts :: "query \<Rightarrow> string \<Rightarrow> string list" where
  "parts q key = map trim (concat (map split_commas (many q key)))"

definition as_selection :: "'a list \<Rightarrow> 'a selection" where
  "as_selection xs = (let unique = fold set_add xs [] in if unique = [] then Absent else Many unique)"

text \<open>A filter with a closed set of values: what is not in the set is dropped.\<close>

definition parseSelection :: "('a \<Rightarrow> string) \<Rightarrow> 'a list \<Rightarrow> query \<Rightarrow> string \<Rightarrow> 'a selection" where
  "parseSelection value_of members q key =
     as_selection (concat (map (\<lambda>s. case find (\<lambda>x. value_of x = s) members of None \<Rightarrow> [] | Some x \<Rightarrow> [x]) (parts q key)))"

definition parseIds :: "query \<Rightarrow> string \<Rightarrow> string selection" where
  "parseIds q key = as_selection (filter (\<lambda>s. s \<noteq> []) (parts q key))"

definition parseBound :: "platform \<Rightarrow> query \<Rightarrow> string \<Rightarrow> instant option answer" where
  "parseBound P q key =
     (case one q key of
        None \<Rightarrow> Inr None
      | Some s \<Rightarrow> if s = [] then Inr None
                 else (case parseInstant P s of None \<Rightarrow> Inl 400 | Some t \<Rightarrow> Inr (Some t)))"

definition refuse_if :: "bool \<Rightarrow> nat \<Rightarrow> unit answer" where
  "refuse_if b status = (if b then Inl status else Inr ())"

definition thrown :: "ledger_error + 'a \<Rightarrow> 'a answer" where
  "thrown r = (case r of Inl e \<Rightarrow> Inl 500 | Inr x \<Rightarrow> Inr x)"

definition page_of :: "('a \<Rightarrow> 'b) \<Rightarrow> 'a Page \<Rightarrow> 'b Page" where
  "page_of f p = \<lparr>pg_data = map f (pg_data p), pg_total = pg_total p, pg_page = pg_page p, pg_limit = pg_limit p,
     pg_totalPages = pg_totalPages p\<rparr>"

section \<open>Positions\<close>

definition VALID_STATUSES :: "PositionStatus list" where
  "VALID_STATUSES = [open_position, partially_settled, fully_settled, reversed, unknown_origin]"

definition VALID_OUTCOMES :: "EconomicOutcome list" where
  "VALID_OUTCOMES = [gain, partial_loss, full_loss, cancelled, pending]"

fun sortKey_name :: "PositionSortKey \<Rightarrow> string" where
  "sortKey_name by_createdAt = ''createdAt''"
| "sortKey_name by_dueAt = ''dueAt''"

definition known_value :: "('a \<Rightarrow> string) \<Rightarrow> 'a list \<Rightarrow> string option \<Rightarrow> 'a option" where
  "known_value value_of members s = Option.bind s (\<lambda>v. find (\<lambda>x. value_of x = v) members)"

definition position_options :: "query \<Rightarrow> instant option \<Rightarrow> instant option \<Rightarrow> PositionAggregateOptions" where
  "position_options q from to =
     \<lparr>pq_page = or_undefined (number q ''page''), pq_limit = or_undefined (number q ''limit''),
      pq_status = parseSelection positionStatus_value VALID_STATUSES q ''status'',
      pq_outcome = known_value outcome_value VALID_OUTCOMES (one q ''outcome''),
      pq_objectType = parseSelection objectType_value objectType_values q ''objectType'',
      pq_partyId = parseIds q ''partyId'', pq_from = from, pq_to = to,
      pq_sortBy = known_value sortKey_name [by_createdAt, by_dueAt] (one q ''sortBy''),
      pq_sortOrder = known_value sortOrder_value SORT_ORDER_VALUES (one q ''sortOrder'')\<rparr>"

definition positions_route :: "platform \<Rightarrow> store \<Rightarrow> query \<Rightarrow> PublishedPosition Page answer" where
  "positions_route P st q =
     ebind (parseBound P q ''from'') (\<lambda>from.
     ebind (parseBound P q ''to'') (\<lambda>to.
     ebind (refuse_if (case (from, to) of (Some f, Some t) \<Rightarrow> f > t | _ \<Rightarrow> False) 400) (\<lambda>_.
     ebind (thrown (summarizePaginated P st (position_options q from to))) (\<lambda>page.
     Inr (page_of (serializePositionListItem P) page)))))"

definition position_route :: "platform \<Rightarrow> store \<Rightarrow> string \<Rightarrow> PublishedDetail answer" where
  "position_route P st oid =
     ebind (thrown (summarize st oid)) (\<lambda>found.
       case found of None \<Rightarrow> Inl 404 | Some s \<Rightarrow> Inr (serializePositionSummary P s))"

section \<open>Events\<close>

record ListedEvent = PublishedEvent +
  pe_hasOpenPosition :: bool

definition event_page_options :: "query \<Rightarrow> PageOptions" where
  "event_page_options q =
     normalizePageOptions (or_undefined (number q ''page'')) (or_undefined (number q ''limit''))
       (one q ''sortBy'') (one q ''sortOrder'')"

definition originated_ids :: "LedgerEvent list \<Rightarrow> string list" where
  "originated_ids evs =
     fold (\<lambda>ev. fold (\<lambda>ob ids. if obj_relation ob = Relation.ORIGINATES then set_add (obj_id ob) ids else ids)
       (ev_objects ev)) evs []"

definition list_event :: "platform \<Rightarrow> string list \<Rightarrow> LedgerEvent \<Rightarrow> ListedEvent" where
  "list_event P settled ev =
     PublishedEvent.extend (serializeEvent P ev)
       (ListedEvent.fields
          (list_ex (\<lambda>ob. obj_relation ob = Relation.ORIGINATES \<and> obj_id ob \<notin> set settled) (ev_objects ev)))"

definition events_route :: "platform \<Rightarrow> store \<Rightarrow> query \<Rightarrow> ListedEvent Page answer" where
  "events_route P st q =
     (let page = findPaginated st (event_page_options q);
          settled = findSettledObjectIds st (originated_ids (pg_data page))
      in Inr (page_of (list_event P settled) page))"

definition event_route :: "platform \<Rightarrow> store \<Rightarrow> string \<Rightarrow> PublishedEvent answer" where
  "event_route P st i = (case getById st i of None \<Rightarrow> Inl 404 | Some ev \<Rightarrow> Inr (serializeEvent P ev))"

text \<open>The feed shows each event with the chain of the position it names first.\<close>

record ChainLink =
  ch_id :: string
  ch_relation :: string
  ch_occurredAt :: string
  ch_amount :: string
  ch_economicEffect :: string

record FeedEvent = PublishedEvent +
  fe_positionStatus :: string
  fe_daysOpen :: int
  fe_originalDate :: string
  fe_chain :: "ChainLink list"

definition chain_link :: "platform \<Rightarrow> LedgerEvent \<Rightarrow> ChainLink" where
  "chain_link P e =
     \<lparr>ch_id = ev_id e,
      ch_relation = (case ev_objects e of [] \<Rightarrow> ''references'' | ob # _ \<Rightarrow> relation_value (obj_relation ob)),
      ch_occurredAt = iso_string P (ev_occurredAt e), ch_amount = money_toString (ev_amount e),
      ch_economicEffect = economicEffect_value (ev_economicEffect e)\<rparr>"

definition standing_chain :: "store \<Rightarrow> LedgerEvent \<Rightarrow> LedgerEvent list" where
  "standing_chain st ev =
     (let evs = (case ev_objects ev of [] \<Rightarrow> [ev] | ob # _ \<Rightarrow> if obj_id ob = [] then [ev] else findByObjectId st (obj_id ob));
          retracted = retractedEventIds evs
      in filter (\<lambda>e. ev_id e \<notin> set retracted) evs)"

text \<open>An empty chain has no earliest date (\<open>Math.min()\<close> is infinite) and the route throws.\<close>

definition feed_event :: "platform \<Rightarrow> instant \<Rightarrow> store \<Rightarrow> LedgerEvent \<Rightarrow> FeedEvent answer" where
  "feed_event P now st ev =
     (let chain = standing_chain st ev;
          rels = concat (map (\<lambda>e. map obj_relation (ev_objects e)) chain);
          status = (if Relation.REVERSES \<in> set rels then ''estornada''
                    else if Relation.SETTLES \<in> set rels then ''liquidada'' else ''aberta'')
      in case map ev_occurredAt chain of
           [] \<Rightarrow> Inl 500
         | t # ts \<Rightarrow>
             (let original = fold min ts t
              in Inr (PublishedEvent.extend (serializeEvent P ev)
                   (FeedEvent.fields status
                      (if status = ''aberta'' then (now - original) div DAY_MS else 0)
                      (iso_string P original)
                      (map (chain_link P) (sort_by (\<lambda>a b. ev_occurredAt a - ev_occurredAt b) chain))))))"

definition feed_route :: "platform \<Rightarrow> instant \<Rightarrow> store \<Rightarrow> query \<Rightarrow> FeedEvent Page answer" where
  "feed_route P now st q =
     (let page = findPaginated st (normalizePageOptions (or_undefined (number q ''page''))
                   (or_undefined (number q ''limit'')) (Some ''occurredAt'') (Some ''DESC''))
      in ebind (emap (feed_event P now st) (pg_data page)) (\<lambda>items.
         Inr \<lparr>pg_data = items, pg_total = pg_total page, pg_page = pg_page page, pg_limit = pg_limit page,
              pg_totalPages = pg_totalPages page\<rparr>))"

section \<open>Cash\<close>

text \<open>\<open>s ? parseInstant(s) : undefined\<close>, refused when it is no date.\<close>

definition given_instant :: "platform \<Rightarrow> string option \<Rightarrow> instant option answer" where
  "given_instant P s =
     (if \<not> truthy s then Inr None
      else (case parseInstant P (the s) of None \<Rightarrow> Inl 400 | Some t \<Rightarrow> Inr (Some t)))"

definition truthy_only :: "string option \<Rightarrow> string option" where
  "truthy_only s = (if truthy s then s else None)"

definition movement_params ::
  "query \<Rightarrow> int \<Rightarrow> instant option \<Rightarrow> instant option \<Rightarrow> ListParams" where
  "movement_params q limit from to =
     \<lparr>lp_partyId = one q ''partyId'',
      lp_effect = known_value economicEffect_value [EconomicEffect.CASH_IN, EconomicEffect.CASH_OUT] (one q ''effect''),
      lp_from = from, lp_to = to, lp_limit = limit, lp_cursor = one q ''cursor'', lp_page = number q ''page'',
      lp_sortBy = known_value sortKey_value SORT_BY_VALUES (one q ''sortBy''),
      lp_sortOrder = known_value sortOrder_value SORT_ORDER_VALUES (one q ''sortOrder'')\<rparr>"

definition MOVEMENT_MAX_LIMIT :: int where "MOVEMENT_MAX_LIMIT = 200"
definition MOVEMENT_DEFAULT_LIMIT :: int where "MOVEMENT_DEFAULT_LIMIT = 50"

definition cash_movements_route ::
  "platform \<Rightarrow> cursor_codec \<Rightarrow> store \<Rightarrow> query \<Rightarrow> PublishedMovementPage answer" where
  "cash_movements_route P K st q =
     (let limit = (case number q ''limit'' of None \<Rightarrow> MOVEMENT_DEFAULT_LIMIT | Some l \<Rightarrow> l);
          unknown = (\<lambda>key members. truthy (one q key) \<and> the (one q key) \<notin> set members)
      in ebind (refuse_if (limit > MOVEMENT_MAX_LIMIT) 400) (\<lambda>_.
         ebind (refuse_if (unknown ''effect'' [''cash_in'', ''cash_out'']) 400) (\<lambda>_.
         ebind (refuse_if (unknown ''sortBy'' (map sortKey_value SORT_BY_VALUES)) 400) (\<lambda>_.
         ebind (refuse_if (unknown ''sortOrder'' (map sortOrder_value SORT_ORDER_VALUES)) 400) (\<lambda>_.
         ebind (refuse_if (case number q ''page'' of None \<Rightarrow> False | Some p \<Rightarrow> p < 1) 400) (\<lambda>_.
         ebind (given_instant P (one q ''from'')) (\<lambda>from.
         ebind (given_instant P (one q ''to'')) (\<lambda>to.
         (case list_movements P K st (movement_params q limit from to) of
            Inl e \<Rightarrow> Inl 400
          | Inr page \<Rightarrow> Inr (serializeCashMovementPage P page))))))))))"

definition cash_position_route :: "platform \<Rightarrow> instant \<Rightarrow> store \<Rightarrow> PublishedCashPosition answer" where
  "cash_position_route P now st =
     ebind (thrown (cash_position P now st)) (\<lambda>s. thrown (serializeCashPosition P s))"

definition cash_statement_route :: "platform \<Rightarrow> string \<Rightarrow> store \<Rightarrow> query \<Rightarrow> PublishedStatement answer" where
  "cash_statement_route P usina st q =
     (if \<not> truthy (one q ''from'') \<or> \<not> truthy (one q ''to'') then Inl 400
      else (case (parseInstant P (the (one q ''from'')), parseInstant P (the (one q ''to''))) of
          (Some f, Some t) \<Rightarrow>
            ebind (thrown (cash_statement usina st f t)) (\<lambda>s. Inr (serializeCashStatement P s))
        | _ \<Rightarrow> Inl 400))"

section \<open>Dashboard, staging and rejections\<close>

definition DEFAULT_PERIOD_DAYS :: int where "DEFAULT_PERIOD_DAYS = 30"

definition parsePeriod :: "platform \<Rightarrow> instant \<Rightarrow> query \<Rightarrow> (instant \<times> instant) answer" where
  "parsePeriod P now q =
     (let to = (if truthy (one q ''to'') then parseInstant P (the (one q ''to'')) else Some now);
          from = (if truthy (one q ''from'') then parseInstant P (the (one q ''from''))
                  else map_option (\<lambda>t. t - DEFAULT_PERIOD_DAYS * DAY_MS) to)
      in case (from, to) of
           (Some f, Some t) \<Rightarrow> if f > t then Inl 400 else Inr (f, t)
         | _ \<Rightarrow> Inl 400)"

text \<open>The route reads the clock once, the service three times.\<close>

definition dashboard_route ::
  "platform \<Rightarrow> instant \<Rightarrow> instant \<Rightarrow> instant \<Rightarrow> instant \<Rightarrow> store \<Rightarrow> query \<Rightarrow> PublishedDashboard answer" where
  "dashboard_route P now now1 now2 now3 st q =
     ebind (parsePeriod P now q) (\<lambda>(from, to).
     ebind (thrown (dashboard now1 now2 now3 st from to)) (\<lambda>s. Inr (serializeDashboard P s)))"

definition list_options :: "query \<Rightarrow> PageOptions" where
  "list_options q =
     normalizePageOptions (or_undefined (number q ''page'')) (or_undefined (number q ''limit'')) None None"

definition rejected_route :: "platform \<Rightarrow> RejectedEvent list \<Rightarrow> query \<Rightarrow> PublishedRejection Page answer" where
  "rejected_route P store q = Inr (page_of (serializeRejectedEvent P) (rejected_page store (list_options q)))"

definition staging_route :: "StagingRecord list \<Rightarrow> query \<Rightarrow> StagingRecord Page answer" where
  "staging_route store q = Inr (staged_page store (list_options q))"

section \<open>The gate\<close>

text \<open>
  \<open>requireServiceToken\<close>: without a configured token every request is refused; otherwise the header has
  to be \<open>Bearer\<close> and the token. \<open>/health\<close> and \<open>/ready\<close> stand before the gate.
\<close>

definition bearer :: "string option \<Rightarrow> string" where
  "bearer header =
     (case header of None \<Rightarrow> [] | Some h \<Rightarrow> if take 7 h = ''Bearer '' then drop 7 h else [])"

definition requireServiceToken :: "string \<Rightarrow> string option \<Rightarrow> 'a answer \<Rightarrow> 'a answer" where
  "requireServiceToken expected header route =
     (if expected = [] then Inl 503
      else if bearer header \<noteq> expected then Inl 401
      else route)"

definition health_route :: "nat \<times> string" where
  "health_route = (200, ''ok'')"

definition ready_route :: "bool \<Rightarrow> nat \<times> string" where
  "ready_route database = (if database then (200, ''ready'') else (503, ''unready''))"

section \<open>The server\<close>

text \<open>
  What a client can ask for (\<open>createServer\<close>). Everything but the two probes stands behind the gate,
  with the one token the client sends. A path parameter arrives as the client encoded it.
\<close>

record ledger_api =
  api_dashboard :: "query \<Rightarrow> PublishedDashboard answer"
  api_staging :: "query \<Rightarrow> StagingRecord Page answer"
  api_rejected :: "query \<Rightarrow> PublishedRejection Page answer"
  api_events :: "query \<Rightarrow> ListedEvent Page answer"
  api_feed :: "query \<Rightarrow> FeedEvent Page answer"
  api_event :: "string \<Rightarrow> PublishedEvent answer"
  api_positions :: "query \<Rightarrow> PublishedPosition Page answer"
  api_position :: "string \<Rightarrow> PublishedDetail answer"
  api_cash_position :: "PublishedCashPosition answer"
  api_cash_statement :: "query \<Rightarrow> PublishedStatement answer"
  api_cash_movements :: "query \<Rightarrow> PublishedMovementPage answer"

record ledger_books =
  bk_events :: store
  bk_rejected :: "RejectedEvent list"
  bk_staging :: "StagingRecord list"

record server_config =
  sv_platform :: platform
  sv_codec :: cursor_codec
  sv_usina :: string
  sv_serviceToken :: string

definition createServer :: "server_config \<Rightarrow> string option \<Rightarrow> instant \<Rightarrow> ledger_books \<Rightarrow> ledger_api" where
  "createServer C header now B =
     (let P = sv_platform C; st = bk_events B;
          gate = sv_serviceToken C
      in \<lparr>api_dashboard = (\<lambda>q. requireServiceToken gate header (dashboard_route P now now now now st q)),
          api_staging = (\<lambda>q. requireServiceToken gate header (staging_route (bk_staging B) q)),
          api_rejected = (\<lambda>q. requireServiceToken gate header (rejected_route P (bk_rejected B) q)),
          api_events = (\<lambda>q. requireServiceToken gate header (events_route P st q)),
          api_feed = (\<lambda>q. requireServiceToken gate header (feed_route P now st q)),
          api_event = (\<lambda>i. requireServiceToken gate header (event_route P st i)),
          api_positions = (\<lambda>q. requireServiceToken gate header (positions_route P st q)),
          api_position = (\<lambda>i. requireServiceToken gate header (position_route P st i)),
          api_cash_position = requireServiceToken gate header (cash_position_route P now st),
          api_cash_statement = (\<lambda>q. requireServiceToken gate header (cash_statement_route P (sv_usina C) st q)),
          api_cash_movements = (\<lambda>q. requireServiceToken gate header (cash_movements_route P (sv_codec C) st q))\<rparr>)"

lemma requireServiceToken_opens:
  "t \<noteq> [] \<Longrightarrow> requireServiceToken t (Some (''Bearer '' @ t)) r = r"
  by (simp add: requireServiceToken_def bearer_def)

lemma requireServiceToken_refuses:
  "bearer header \<noteq> t \<or> t = [] \<Longrightarrow> requireServiceToken t header r = Inl (if t = [] then 503 else 401)"
  by (auto simp: requireServiceToken_def)

end
