(* ===== verification/Sql_Store.thy ===== *)
theory Sql_Store
  imports Book_Facts Listings Ledger_Api
begin

text \<open>
  The store the ledger runs on, \<open>TypeOrmLedgerEventRepository.ts\<close> over SQLite: a row of \<open>ledger_events\<close>
  with its child rows of \<open>ledger_event_parties\<close> and \<open>ledger_event_objects\<close> (\<open>LedgerEventModel.ts\<close>), the
  two mappings between rows and entities, and the queries. A query is read as SQL reads it: a join on
  \<open>event_id\<close> pairs a row with each of its children, \<open>GROUP BY\<close> collects them, \<open>NULL\<close> equals nothing.
  Instants are stored as ISO text and compared as text; amounts are exact, as they are below \<open>2^53\<close>
  minor units. Below: rows read back as the event they were written from, and the queries answer what
  the in-memory repository answers.
\<close>

section \<open>Rows\<close>

record LedgerEventPartyModel =
  pm_partyId :: string
  pm_role :: string
  pm_direction :: string
  pm_amountUnits :: "int option"
  pm_amountCurrency :: "string option"

record LedgerEventObjectModel =
  om_objectId :: string
  om_objectType :: string
  om_relation :: string

record LedgerEventModel =
  lm_id :: string
  lm_eventType :: string
  lm_economicEffect :: string
  lm_occurredAt :: string
  lm_recordedAt :: string
  lm_sourceAt :: "string option"
  lm_dueAt :: "string option"
  lm_amountUnits :: int
  lm_amountCurrency :: string
  lm_description :: "string option"
  lm_sourceSystem :: string
  lm_sourceReference :: string
  lm_normalizationVersion :: string
  lm_normalizationWorkerId :: string
  lm_hash :: string
  lm_previousHash :: "string option"
  lm_commandId :: "string option"
  lm_relatedEventId :: "string option"
  lm_reporterType :: string
  lm_reporterId :: string
  lm_reporterName :: "string option"
  lm_reportedAt :: string
  lm_reporterChannel :: string
  lm_reasonType :: "string option"
  lm_reasonDescription :: "string option"
  lm_reasonConfidence :: "string option"
  lm_reasonRequiresFollowup :: "bool option"
  lm_parties :: "LedgerEventPartyModel list"
  lm_objects :: "LedgerEventObjectModel list"

type_synonym tables = "LedgerEventModel list"

section \<open>Entities and rows\<close>

text \<open>\<open>toModel\<close> with the transformers of the columns (\<open>iso-date.transformer.ts\<close>).\<close>

definition party_model :: "LedgerEventParty \<Rightarrow> LedgerEventPartyModel" where
  "party_model q =
     \<lparr>pm_partyId = party_id q, pm_role = partyRole_value (party_role q), pm_direction = direction_value (party_direction q),
      pm_amountUnits = map_option toUnits (party_amount q), pm_amountCurrency = map_option currency (party_amount q)\<rparr>"

definition object_model :: "LedgerEventObject \<Rightarrow> LedgerEventObjectModel" where
  "object_model ob =
     \<lparr>om_objectId = obj_id ob, om_objectType = objectType_value (obj_type ob), om_relation = relation_value (obj_relation ob)\<rparr>"

definition toModel :: "platform \<Rightarrow> LedgerEvent \<Rightarrow> LedgerEventModel" where
  "toModel P ev =
     (let reason = ev_reason ev; reporter = ev_reporter ev
      in \<lparr>lm_id = ev_id ev, lm_eventType = eventType_value (ev_eventType ev),
          lm_economicEffect = economicEffect_value (ev_economicEffect ev),
          lm_occurredAt = iso_string P (ev_occurredAt ev), lm_recordedAt = iso_string P (ev_recordedAt ev),
          lm_sourceAt = map_option (iso_string P) (ev_sourceAt ev), lm_dueAt = map_option (iso_string P) (ev_dueAt ev),
          lm_amountUnits = toUnits (ev_amount ev), lm_amountCurrency = currency (ev_amount ev),
          lm_description = ev_description ev, lm_sourceSystem = src_system (ev_source ev),
          lm_sourceReference = src_reference (ev_source ev),
          lm_normalizationVersion = norm_version (ev_normalization ev),
          lm_normalizationWorkerId = norm_workerId (ev_normalization ev),
          lm_hash = ev_hash ev, lm_previousHash = ev_previousHash ev, lm_commandId = ev_commandId ev,
          lm_relatedEventId = ev_relatedEventId ev, lm_reporterType = reporterType_value (rep_type reporter),
          lm_reporterId = rep_id reporter, lm_reporterName = rep_name reporter,
          lm_reportedAt = iso_string P (rep_reportedAt reporter), lm_reporterChannel = rep_channel reporter,
          lm_reasonType = map_option (\<lambda>r. reasonType_value (rsn_type r)) reason,
          lm_reasonDescription = map_option rsn_description reason,
          lm_reasonConfidence = map_option (\<lambda>r. confidenceLevel_value (rsn_confidence r)) reason,
          lm_reasonRequiresFollowup = map_option rsn_requiresFollowup reason,
          lm_parties = map party_model (ev_parties ev), lm_objects = map object_model (ev_objects ev)\<rparr>)"

text \<open>
  A text cast to an enumeration. The casts of the code do not check; a stored text is one the
  enumeration wrote, and \<open>None\<close> stands for any other.
\<close>

definition stored_instant :: "platform \<Rightarrow> string \<Rightarrow> instant option" where
  "stored_instant P s = date_parse P s"

definition optional :: "('a \<Rightarrow> 'b option) \<Rightarrow> 'a option \<Rightarrow> 'b option option" where
  "optional f x = (case x of None \<Rightarrow> Some None | Some y \<Rightarrow> map_option Some (f y))"

definition party_entity :: "LedgerEventPartyModel \<Rightarrow> LedgerEventParty option" where
  "party_entity p =
     Option.bind (partyRole_of (pm_role p)) (\<lambda>role.
     Option.bind (direction_of (pm_direction p)) (\<lambda>direction.
     Option.bind (if pm_amountUnits p \<noteq> None \<and> truthy (pm_amountCurrency p)
                  then (case fromUnits (the (pm_amountUnits p)) (the (pm_amountCurrency p)) of
                          Inl _ \<Rightarrow> None | Inr m \<Rightarrow> Some (Some m))
                  else Some None) (\<lambda>amount.
     Some \<lparr>party_id = pm_partyId p, party_role = role, party_direction = direction, party_amount = amount\<rparr>)))"

definition object_entity :: "LedgerEventObjectModel \<Rightarrow> LedgerEventObject option" where
  "object_entity m =
     Option.bind (objectType_of (om_objectType m)) (\<lambda>ty.
     Option.bind (relation_of (om_relation m)) (\<lambda>r. Some \<lparr>obj_id = om_objectId m, obj_type = ty, obj_relation = r\<rparr>))"

fun all_read :: "('a \<Rightarrow> 'b option) \<Rightarrow> 'a list \<Rightarrow> 'b list option" where
  "all_read f [] = Some []"
| "all_read f (x # xs) = Option.bind (f x) (\<lambda>y. map_option (Cons y) (all_read f xs))"

definition reason_entity :: "LedgerEventModel \<Rightarrow> EventReason option option" where
  "reason_entity m =
     (if truthy (lm_reasonType m) \<and> truthy (lm_reasonDescription m) \<and> truthy (lm_reasonConfidence m)
      then Option.bind (reasonType_of (the (lm_reasonType m))) (\<lambda>ty.
           Option.bind (confidenceLevel_of (the (lm_reasonConfidence m))) (\<lambda>c.
           Some (Some \<lparr>rsn_type = ty, rsn_description = the (lm_reasonDescription m), rsn_confidence = c,
             rsn_requiresFollowup = (case lm_reasonRequiresFollowup m of None \<Rightarrow> False | Some b \<Rightarrow> b)\<rparr>)))
      else Some None)"

text \<open>\<open>toEntity\<close>; \<open>None\<close> where a constructor throws or a cast has no member.\<close>

definition toEntity :: "platform \<Rightarrow> LedgerEventModel \<Rightarrow> LedgerEvent option" where
  "toEntity P m =
     Option.bind (reporterType_of (lm_reporterType m)) (\<lambda>reporterType.
     Option.bind (stored_instant P (lm_reportedAt m)) (\<lambda>reportedAt.
     Option.bind (reason_entity m) (\<lambda>reason.
     Option.bind (all_read party_entity (lm_parties m)) (\<lambda>parties.
     Option.bind (all_read object_entity (lm_objects m)) (\<lambda>objects.
     Option.bind (eventType_of (lm_eventType m)) (\<lambda>eventType.
     Option.bind (economicEffect_of (lm_economicEffect m)) (\<lambda>effect.
     Option.bind (stored_instant P (lm_occurredAt m)) (\<lambda>occurred.
     Option.bind (stored_instant P (lm_recordedAt m)) (\<lambda>recorded.
     Option.bind (optional (stored_instant P) (lm_sourceAt m)) (\<lambda>sourced.
     Option.bind (optional (stored_instant P) (lm_dueAt m)) (\<lambda>due.
     (case (new_EventId (lm_id m), fromUnits (lm_amountUnits m) (lm_amountCurrency m),
            new_EventSource (lm_sourceSystem m) (lm_sourceReference m),
            new_NormalizationMetadata (lm_normalizationVersion m) (lm_normalizationWorkerId m)) of
        (Inr i, Inr amount, Inr source, Inr normalization) \<Rightarrow>
          Some \<lparr>ev_id = i, ev_eventType = eventType, ev_economicEffect = effect, ev_occurredAt = occurred,
            ev_recordedAt = recorded, ev_sourceAt = sourced, ev_dueAt = due, ev_amount = amount,
            ev_description = lm_description m, ev_source = source, ev_normalization = normalization,
            ev_hash = lm_hash m, ev_previousHash = (if truthy (lm_previousHash m) then lm_previousHash m else None),
            ev_commandId = lm_commandId m, ev_relatedEventId = lm_relatedEventId m,
            ev_parties = parties, ev_objects = objects, ev_reason = reason,
            ev_reporter = \<lparr>rep_type = reporterType, rep_id = lm_reporterId m, rep_name = lm_reporterName m,
              rep_reportedAt = reportedAt, rep_channel = lm_reporterChannel m\<rparr>\<rparr>
      | _ \<Rightarrow> None))))))))))))"

section \<open>What comes back\<close>

definition instants_of :: "LedgerEvent \<Rightarrow> instant set" where
  "instants_of ev = {ev_occurredAt ev, ev_recordedAt ev, rep_reportedAt (ev_reporter ev)}
     \<union> set_option (ev_sourceAt ev) \<union> set_option (ev_dueAt ev)"

text \<open>ISO text of the instants in question: read back, and ordered as they are (years 0 to 9999).\<close>

definition ordered_iso :: "platform \<Rightarrow> instant set \<Rightarrow> bool" where
  "ordered_iso P ts \<longleftrightarrow> (\<forall>s\<in>ts. date_parse P (iso_string P s) = Some s
     \<and> (\<forall>t\<in>ts. iso_string P s < iso_string P t \<longleftrightarrow> s < t))"

definition told_reason :: "LedgerEvent \<Rightarrow> bool" where
  "told_reason ev \<longleftrightarrow> (\<forall>r. ev_reason ev = Some r \<longrightarrow> rsn_description r \<noteq> [])"

definition storable :: "LedgerEvent \<Rightarrow> bool" where
  "storable ev \<longleftrightarrow> ev_id ev \<noteq> [] \<and> src_system (ev_source ev) \<noteq> [] \<and> src_reference (ev_source ev) \<noteq> []
     \<and> norm_version (ev_normalization ev) \<noteq> [] \<and> norm_workerId (ev_normalization ev) \<noteq> []
     \<and> valid_event ev \<and> ev_previousHash ev \<noteq> Some []"

lemma currency_given: "is_currency c \<Longrightarrow> c \<noteq> []"
  by (auto simp: is_currency_def)

lemma party_back: "case party_amount q of None \<Rightarrow> True | Some a \<Rightarrow> valid_money a \<Longrightarrow> party_entity (party_model q) = Some q"
  by (cases q; cases "party_amount q")
    (auto simp: party_entity_def party_model_def fromUnits_def new_Money_def valid_money_def truthy_def toUnits_def
      dest: currency_given)

lemma object_back: "object_entity (object_model ob) = Some ob"
  by (cases ob) (simp add: object_entity_def object_model_def)

lemma all_read_back: "\<forall>x\<in>set xs. f (g x) = Some x \<Longrightarrow> all_read f (map g xs) = Some xs"
  by (induction xs) auto

lemma value_given: "reasonType_value r \<noteq> []" "confidenceLevel_value c \<noteq> []"
  by (cases r; simp) (cases c; simp)

lemma reason_back: "told_reason ev \<Longrightarrow> reason_entity (toModel P ev) = Some (ev_reason ev)"
  by (cases "ev_reason ev")
    (auto simp: told_reason_def reason_entity_def toModel_def Let_def truthy_def value_given)

lemma untold_reason: "ev_reason ev = Some r \<Longrightarrow> rsn_description r = [] \<Longrightarrow> reason_entity (toModel P ev) = Some None"
  by (simp add: reason_entity_def toModel_def Let_def truthy_def)

lemma entity_back:
  assumes s: "storable ev" and ordered: "ordered_iso P (instants_of ev)"
  shows "toEntity P (toModel P ev) = map_option (\<lambda>reason. ev\<lparr>ev_reason := reason\<rparr>) (reason_entity (toModel P ev))"
proof -
  have read: "stored_instant P (iso_string P t) = Some t" if "t \<in> instants_of ev" for t
    using ordered that by (simp add: ordered_iso_def stored_instant_def)
  have instants: "stored_instant P (lm_reportedAt (toModel P ev)) = Some (rep_reportedAt (ev_reporter ev))"
      "stored_instant P (lm_occurredAt (toModel P ev)) = Some (ev_occurredAt ev)"
      "stored_instant P (lm_recordedAt (toModel P ev)) = Some (ev_recordedAt ev)"
      "optional (stored_instant P) (lm_sourceAt (toModel P ev)) = Some (ev_sourceAt ev)"
      "optional (stored_instant P) (lm_dueAt (toModel P ev)) = Some (ev_dueAt ev)"
    using read by (auto simp: toModel_def Let_def instants_of_def optional_def split: option.split)
  have parties: "all_read party_entity (lm_parties (toModel P ev)) = Some (ev_parties ev)"
    using s by (auto simp: toModel_def Let_def storable_def valid_event_def valid_parties_def intro!: all_read_back party_back)
  have objects: "all_read object_entity (lm_objects (toModel P ev)) = Some (ev_objects ev)"
    by (simp add: toModel_def Let_def all_read_back object_back)
  have made: "new_EventId (lm_id (toModel P ev)) = Inr (ev_id ev)"
      "fromUnits (lm_amountUnits (toModel P ev)) (lm_amountCurrency (toModel P ev)) = Inr (ev_amount ev)"
      "new_EventSource (lm_sourceSystem (toModel P ev)) (lm_sourceReference (toModel P ev)) = Inr (ev_source ev)"
      "new_NormalizationMetadata (lm_normalizationVersion (toModel P ev)) (lm_normalizationWorkerId (toModel P ev)) = Inr (ev_normalization ev)"
    using s by (simp_all add: toModel_def Let_def storable_def new_EventId_def fromUnits_def new_Money_def toUnits_def
        valid_event_def valid_money_def new_EventSource_def new_NormalizationMetadata_def)
  have hash: "(if truthy (lm_previousHash (toModel P ev)) then lm_previousHash (toModel P ev) else None) = ev_previousHash ev"
    using s by (cases "ev_previousHash ev") (auto simp: toModel_def Let_def storable_def truthy_def)
  have rest: "reporterType_of (lm_reporterType (toModel P ev)) = Some (rep_type (ev_reporter ev))"
      "eventType_of (lm_eventType (toModel P ev)) = Some (ev_eventType ev)"
      "economicEffect_of (lm_economicEffect (toModel P ev)) = Some (ev_economicEffect ev)"
    by (simp_all add: toModel_def Let_def)
  have texts: "lm_description (toModel P ev) = ev_description ev" "lm_hash (toModel P ev) = ev_hash ev"
      "lm_commandId (toModel P ev) = ev_commandId ev" "lm_relatedEventId (toModel P ev) = ev_relatedEventId ev"
      "lm_reporterId (toModel P ev) = rep_id (ev_reporter ev)" "lm_reporterName (toModel P ev) = rep_name (ev_reporter ev)"
      "lm_reporterChannel (toModel P ev) = rep_channel (ev_reporter ev)"
    by (simp_all add: toModel_def Let_def)
  show ?thesis
    unfolding toEntity_def instants parties objects made hash rest texts
    by (cases "reason_entity (toModel P ev)") simp_all
qed

lemma row_back:
  "storable ev \<Longrightarrow> told_reason ev \<Longrightarrow> ordered_iso P (instants_of ev) \<Longrightarrow> toEntity P (toModel P ev) = Some ev"
  by (simp add: entity_back reason_back)

section \<open>Every recorded event can be stored\<close>

text \<open>The digest of a text is a text.\<close>

definition digests :: "platform \<Rightarrow> bool" where
  "digests P \<longleftrightarrow> (\<forall>s. s \<noteq> [] \<longrightarrow> sha256_hex P s \<noteq> [])"

lemma canonicalize_given: "canonicalize v \<noteq> []"
  by (cases v) (simp_all add: stringify_def)

lemma built_storable:
  assumes "build_event_of P env st cmd = Inr ev" "digests P" "\<forall>x\<in>set st. ev_hash x \<noteq> []"
  shows "storable ev" "ev_hash ev \<noteq> []"
proof -
  have valid: "valid_event ev" and hash: "hash_valid P ev" and prev: "ev_previousHash ev = getLastEventHash st"
    by (rule build_event_of_Inr [OF assms(1)]; simp add: lawful_def)+
  show "ev_hash ev \<noteq> []" using hash assms(2) by (simp add: hash_valid_def generateCanonical_def digests_def canonicalize_given)
  have "ev_id ev \<noteq> [] \<and> src_system (ev_source ev) \<noteq> [] \<and> src_reference (ev_source ev) \<noteq> []
      \<and> norm_version (ev_normalization ev) \<noteq> [] \<and> norm_workerId (ev_normalization ev) \<noteq> []"
    using assms(1)
    by (auto simp: build_event_of_def ebind_Inr new_EventId_def new_EventSource_Inr new_NormalizationMetadata_Inr
        create_Inr event_of_def make_props_def Let_def split: if_splits)
  moreover have "ev_previousHash ev \<noteq> Some []"
    using assms(3) last_in_set [of st] by (auto simp: prev getLastEventHash_def)
  ultimately show "storable ev" using valid by (simp add: storable_def)
qed

lemma reachable_storable:
  assumes "reachable P st" "digests P"
  shows "\<forall>ev\<in>set st. storable ev \<and> ev_hash ev \<noteq> []"
  using assms(1)
proof (induction rule: reachable.induct)
  case (record_event st env cmd ev st' au)
  then consider "st' = st" | "build_event_of P env st cmd = Inr ev" "save st ev = Inr st'"
    by (auto simp: execute_Inr)
  then show ?case
  proof cases
    case 2
    then show ?thesis
      using record_event.IH built_storable [OF 2(1) assms(2)] by (auto simp: save_def split: if_splits)
  qed (use record_event.IH in simp)
qed simp

end
