(* ===== verification/Sql_Queries.thy ===== *)
theory Sql_Queries
  imports Sql_Store Cash_Movements
begin

text \<open>
  The queries of \<open>TypeOrmLedgerEventRepository.ts\<close> over the rows of \<open>Sql_Store\<close>. A statement reads as
  SQL reads: \<open>JOIN\<close> pairs an event with each of its children, \<open>GROUP BY\<close> collects the pairs of one
  key, \<open>SUM(CASE ...)\<close> adds over a group, \<open>MIN\<close> and \<open>MAX\<close> pass over \<open>NULL\<close>, instants and identifiers
  compare as text. Where the statement leaves the order of its rows open, they come in the order the
  table has them. The lemmas state that a query answers what the in-memory repository answers, on the
  tables of a reachable book.
\<close>

section \<open>Standing rows\<close>

definition retraction_row :: "LedgerEventModel \<Rightarrow> string \<Rightarrow> bool" where
  "retraction_row r target \<longleftrightarrow>
     lm_relatedEventId r = Some target \<and> list_ex (\<lambda>ob. om_relation ob = ''retracts'') (lm_objects r)"

text \<open>The two nested \<open>NOT EXISTS\<close>.\<close>

definition notRetracted :: "tables \<Rightarrow> LedgerEventModel \<Rightarrow> bool" where
  "notRetracted t e \<longleftrightarrow>
     \<not> list_ex (\<lambda>r. retraction_row r (lm_id e) \<and> \<not> list_ex (\<lambda>r2. retraction_row r2 (lm_id r)) t) t"

definition hydrate :: "platform \<Rightarrow> tables \<Rightarrow> LedgerEvent list option" where
  "hydrate P rows = all_read (toEntity P) rows"

section \<open>Saving and finding\<close>

text \<open>
  \<open>repo.save\<close> of an event whose identifier no row has, with the \<open>UNIQUE\<close> columns; \<open>None\<close> where the
  driver throws.
\<close>

definition sql_insert :: "tables \<Rightarrow> LedgerEventModel \<Rightarrow> tables option" where
  "sql_insert t m =
     (if list_ex (\<lambda>r. lm_hash r = lm_hash m \<or> lm_commandId m \<noteq> None \<and> lm_commandId r = lm_commandId m) t
      then None else Some (t @ [m]))"

definition sql_getById :: "platform \<Rightarrow> tables \<Rightarrow> string \<Rightarrow> LedgerEvent option" where
  "sql_getById P t i = Option.bind (find (\<lambda>r. lm_id r = i) t) (toEntity P)"

definition sql_getByHash :: "platform \<Rightarrow> tables \<Rightarrow> string \<Rightarrow> LedgerEvent option" where
  "sql_getByHash P t h = Option.bind (find (\<lambda>r. lm_hash r = h) t) (toEntity P)"

definition sql_getByCommandId :: "platform \<Rightarrow> tables \<Rightarrow> string \<Rightarrow> LedgerEvent option" where
  "sql_getByCommandId P t c = Option.bind (find (\<lambda>r. lm_commandId r = Some c) t) (toEntity P)"

text \<open>\<open>ORDER BY\<close> an instant, then the identifier, in one direction.\<close>

definition row_compare :: "(LedgerEventModel \<Rightarrow> string) \<Rightarrow> SortOrder \<Rightarrow> LedgerEventModel \<Rightarrow> LedgerEventModel \<Rightarrow> int" where
  "row_compare axis direction a b =
     (let c = compareIds (axis a) (axis b) direction
      in if c \<noteq> 0 then c else compareIds (lm_id a) (lm_id b) direction)"

definition time_compare :: "(LedgerEventModel \<Rightarrow> string) \<Rightarrow> SortOrder \<Rightarrow> LedgerEventModel \<Rightarrow> LedgerEventModel \<Rightarrow> int" where
  "time_compare axis direction a b = compareIds (axis a) (axis b) direction"

definition sql_getLastEventHash :: "tables \<Rightarrow> string option" where
  "sql_getLastEventHash t =
     (case sort_by (time_compare lm_recordedAt DESC) t of [] \<Rightarrow> None | r # _ \<Rightarrow> Some (lm_hash r))"

definition sql_existsBySourceReference :: "tables \<Rightarrow> string \<Rightarrow> bool" where
  "sql_existsBySourceReference t reference = list_ex (\<lambda>r. lm_sourceReference r = reference) t"

definition sql_findByObjectId :: "platform \<Rightarrow> tables \<Rightarrow> string \<Rightarrow> LedgerEvent list option" where
  "sql_findByObjectId P t oid =
     hydrate P (sort_by (time_compare lm_recordedAt ASC) (filter (\<lambda>r. list_ex (\<lambda>ob. om_objectId ob = oid) (lm_objects r)) t))"

definition sql_findByRelatedEventId :: "platform \<Rightarrow> tables \<Rightarrow> string \<Rightarrow> LedgerEvent list option" where
  "sql_findByRelatedEventId P t i =
     hydrate P (sort_by (time_compare lm_recordedAt ASC) (filter (\<lambda>r. lm_relatedEventId r = Some i) t))"

definition sql_findByPartyId :: "platform \<Rightarrow> tables \<Rightarrow> string \<Rightarrow> LedgerEvent list option" where
  "sql_findByPartyId P t p =
     hydrate P (sort_by (time_compare lm_recordedAt ASC) (filter (\<lambda>r. list_ex (\<lambda>q. pm_partyId q = p) (lm_parties r)) t))"

definition sql_findAll :: "platform \<Rightarrow> tables \<Rightarrow> LedgerEvent list option" where
  "sql_findAll P t = hydrate P t"

definition sql_findByPeriod :: "platform \<Rightarrow> tables \<Rightarrow> instant \<Rightarrow> instant \<Rightarrow> LedgerEvent list option" where
  "sql_findByPeriod P t from to =
     hydrate P (sort_by (time_compare lm_occurredAt ASC)
       (filter (\<lambda>r. iso_string P from \<le> lm_occurredAt r \<and> lm_occurredAt r \<le> iso_string P to) t))"

text \<open>An event joined with its objects, standing ones only.\<close>

definition joined :: "tables \<Rightarrow> (LedgerEventModel \<times> LedgerEventObjectModel) list" where
  "joined t = concat (map (\<lambda>e. map (Pair e) (lm_objects e)) (filter (notRetracted t) t))"

definition sql_distinct :: "'a list \<Rightarrow> 'a list" where
  "sql_distinct xs = fold set_add xs []"

definition sql_findSettledObjectIds :: "tables \<Rightarrow> string list \<Rightarrow> string list" where
  "sql_findSettledObjectIds t wanted =
     (if wanted = [] then []
      else sql_distinct (map (om_objectId \<circ> snd)
        (filter (\<lambda>(e, ob). om_objectId ob \<in> set wanted \<and> om_relation ob = ''settles'') (joined t))))"

definition sql_findAllObjectIds :: "tables \<Rightarrow> string list" where
  "sql_findAllObjectIds t = sql_distinct (concat (map (\<lambda>e. map om_objectId (lm_objects e)) t))"

section \<open>Cash\<close>

definition cash_row :: "LedgerEventModel \<Rightarrow> bool" where
  "cash_row e \<longleftrightarrow> lm_economicEffect e \<in> {''cash_in'', ''cash_out''}"

definition groups :: "('a \<Rightarrow> 'k) \<Rightarrow> 'a list \<Rightarrow> ('k \<times> 'a list) list" where
  "groups key xs = map (\<lambda>k. (k, filter (\<lambda>x. key x = k) xs)) (sql_distinct (map key xs))"

fun sql_max :: "'a::linorder list \<Rightarrow> 'a option" where
  "sql_max [] = None"
| "sql_max (x # xs) = Some (fold max xs x)"

fun sql_min :: "'a::linorder list \<Rightarrow> 'a option" where
  "sql_min [] = None"
| "sql_min (x # xs) = Some (fold min xs x)"

definition sum_units :: "tables \<Rightarrow> int" where
  "sum_units rows = sum_list (map lm_amountUnits rows)"

text \<open>The rows of the statement: effect, total, currency; and the loop that reads them.\<close>

definition flow_rows :: "(LedgerEventModel \<Rightarrow> bool) \<Rightarrow> tables \<Rightarrow> (string \<times> int \<times> string) list" where
  "flow_rows cond t =
     map (\<lambda>(effect, rows). (effect, sum_units rows, the (sql_max (map lm_amountCurrency rows))))
       (groups lm_economicEffect (filter (\<lambda>e. cash_row e \<and> cond e \<and> notRetracted t e) t))"

definition read_flow :: "string \<times> int \<times> string \<Rightarrow> CashFlows \<Rightarrow> CashFlows" where
  "read_flow = (\<lambda>(effect, sum, c) F.
     let F1 = F\<lparr>cf_currency := c\<rparr>;
         F2 = (if effect = ''cash_in'' then F1\<lparr>cashInUnits := sum\<rparr> else F1)
     in if effect = ''cash_out'' then F2\<lparr>cashOutUnits := sum\<rparr> else F2)"

definition sql_aggregateCashFlows :: "tables \<Rightarrow> CashFlows" where
  "sql_aggregateCashFlows t = fold read_flow (flow_rows (\<lambda>_. True) t) no_flows"

definition sql_aggregateCashFlowsBefore :: "platform \<Rightarrow> tables \<Rightarrow> instant \<Rightarrow> CashFlows" where
  "sql_aggregateCashFlowsBefore P t date =
     fold read_flow (flow_rows (\<lambda>e. lm_occurredAt e < iso_string P date) t) no_flows"

definition sql_aggregateClosureStats :: "platform \<Rightarrow> tables \<Rightarrow> instant \<Rightarrow> instant \<Rightarrow> string \<Rightarrow> ClosureStats" where
  "sql_aggregateClosureStats P t from to c =
     (let rows = filter (\<lambda>e. iso_string P from \<le> lm_occurredAt e \<and> lm_occurredAt e \<le> iso_string P to \<and>
              lm_amountCurrency e = c \<and> list_ex (\<lambda>ob. om_relation ob = ''settles'') (lm_objects e) \<and>
              notRetracted t e) t
      in \<lparr>cs_cashInSettledUnits =
            sum_list (map (\<lambda>e. if lm_economicEffect e = ''cash_in'' then lm_amountUnits e else 0) rows),
          cs_totalSettledUnits = sum_units rows\<rparr>)"

text \<open>The rows of the period: type, effect, total, currency.\<close>

definition sql_aggregatePeriodCashFlow ::
  "platform \<Rightarrow> tables \<Rightarrow> instant \<Rightarrow> instant \<Rightarrow> ((string \<times> string) \<times> int \<times> string) list" where
  "sql_aggregatePeriodCashFlow P t from to =
     map (\<lambda>(key, rows). (key, sum_units rows, the (sql_max (map lm_amountCurrency rows))))
       (groups (\<lambda>e. (lm_eventType e, lm_economicEffect e))
         (filter (\<lambda>e. iso_string P from \<le> lm_occurredAt e \<and> lm_occurredAt e \<le> iso_string P to \<and>
              cash_row e \<and> notRetracted t e) t))"

section \<open>Listings of events\<close>

definition row_axis :: "SortKey \<Rightarrow> LedgerEventModel \<Rightarrow> string" where
  "row_axis key = (if key = occurredAt then lm_occurredAt else lm_recordedAt)"

text \<open>\<open>LIMIT\<close> and \<open>OFFSET\<close> (\<open>take\<close>, \<open>skip\<close>).\<close>

definition limited :: "int \<Rightarrow> int \<Rightarrow> 'a list \<Rightarrow> 'a list" where
  "limited offset limit xs = take (nat limit) (drop (nat offset) xs)"

definition sql_findPaginated :: "platform \<Rightarrow> tables \<Rightarrow> PageOptions \<Rightarrow> LedgerEvent Page option" where
  "sql_findPaginated P t opts =
     (let offset = (po_page opts - 1) * po_limit opts;
          sortCol = (if po_sortBy opts = Some occurredAt then occurredAt else recordedAt);
          sortDir = (case po_sortOrder opts of None \<Rightarrow> ASC | Some d \<Rightarrow> d);
          n = int (length t)
      in map_option (\<lambda>items. \<lparr>pg_data = items, pg_total = n, pg_page = po_page opts, pg_limit = po_limit opts,
             pg_totalPages = page_count n (po_limit opts)\<rparr>)
           (hydrate P (limited offset (po_limit opts) (sort_by (row_compare (row_axis sortCol) sortDir) t))))"

definition sql_findRecentCashMovements :: "platform \<Rightarrow> tables \<Rightarrow> int \<Rightarrow> LedgerEvent list option" where
  "sql_findRecentCashMovements P t limit =
     hydrate P (limited 0 limit (sort_by (row_compare lm_occurredAt DESC) (filter (\<lambda>e. cash_row e \<and> notRetracted t e) t)))"

text \<open>The condition of the statement; the join with \<open>filterParty\<close> is there when a party was named.\<close>

definition movement_row :: "platform \<Rightarrow> tables \<Rightarrow> MovementQuery \<Rightarrow> LedgerEventModel \<Rightarrow> bool" where
  "movement_row P t q e \<longleftrightarrow>
     (case mq_effect q of None \<Rightarrow> cash_row e | Some ef \<Rightarrow> lm_economicEffect e = economicEffect_value ef) \<and>
     notRetracted t e \<and>
     (truthy (mq_partyId q) \<longrightarrow>
        list_ex (\<lambda>p. Some (pm_partyId p) = mq_partyId q \<and>
          (lm_economicEffect e = ''cash_in'' \<and> pm_direction p = ''in'' \<or>
           lm_economicEffect e = ''cash_out'' \<and> pm_direction p = ''out'')) (lm_parties e)) \<and>
     (case mq_from q of None \<Rightarrow> True | Some f \<Rightarrow> iso_string P f \<le> lm_occurredAt e) \<and>
     (case mq_to q of None \<Rightarrow> True | Some u \<Rightarrow> lm_occurredAt e \<le> iso_string P u)"

definition beyond_row :: "platform \<Rightarrow> MovementQuery \<Rightarrow> CashMovementCursor \<Rightarrow> LedgerEventModel \<Rightarrow> bool" where
  "beyond_row P q c e =
     (let at = row_axis (movement_key q) e; cursorAt = iso_string P (cur_value c)
      in if movement_order q = ASC
         then at > cursorAt \<or> at = cursorAt \<and> lm_id e > cur_id c
         else at < cursorAt \<or> at = cursorAt \<and> lm_id e < cur_id c)"

definition sql_findCashMovementsPaginated :: "platform \<Rightarrow> tables \<Rightarrow> MovementQuery \<Rightarrow> CashMovementsQueryResult option" where
  "sql_findCashMovementsPaginated P t q =
     (let matching = filter (movement_row P t q) t;
          order = sort_by (row_compare (row_axis (movement_key q)) (movement_order q))
      in case mq_page q of
        Some p \<Rightarrow>
          (let page = max 1 p; n = int (length matching)
           in map_option (\<lambda>items. \<lparr>mr_items = items, mr_hasMore = page * mq_limit q < n, mr_nextCursor = None,
                  mr_total = Some n, mr_page = Some page, mr_totalPages = Some (page_count n (mq_limit q))\<rparr>)
                (hydrate P (limited ((page - 1) * mq_limit q) (mq_limit q) (order matching))))
      | None \<Rightarrow>
          (let rest = (case mq_cursor q of None \<Rightarrow> matching | Some c \<Rightarrow> filter (beyond_row P q c) matching);
               taken = limited 0 (mq_limit q + 1) (order rest);
               hasMore = int (length taken) > mq_limit q;
               rows = (if hasMore then limited 0 (mq_limit q) taken else taken);
               final = (if rows \<noteq> [] then Some (last rows) else None)
           in Option.bind (case final of
                  Some e \<Rightarrow> if hasMore
                    then map_option (\<lambda>at. Some \<lparr>cur_key = movement_key q, cur_order = movement_order q,
                           cur_value = at, cur_id = lm_id e\<rparr>) (stored_instant P (row_axis (movement_key q) e))
                    else Some None
                | None \<Rightarrow> Some None) (\<lambda>nextCursor.
              map_option (\<lambda>items. \<lparr>mr_items = items, mr_hasMore = hasMore, mr_nextCursor = nextCursor,
                  mr_total = None, mr_page = None, mr_totalPages = None\<rparr>) (hydrate P rows))))"

section \<open>The tables of a book\<close>

abbreviation tables_of :: "platform \<Rightarrow> store \<Rightarrow> tables" where
  "tables_of P st \<equiv> map (toModel P) st"

definition sound_book :: "store \<Rightarrow> bool" where
  "sound_book st \<longleftrightarrow> one_retraction_each st \<and> distinct (map ev_id st) \<and> (\<forall>ev\<in>set st. storable ev)"

definition told_book :: "store \<Rightarrow> bool" where
  "told_book st \<longleftrightarrow> (\<forall>ev\<in>set st. told_reason ev)"

text \<open>Every instant of the book and of the question is written in the ordered form.\<close>

definition readable :: "platform \<Rightarrow> instant set \<Rightarrow> store \<Rightarrow> bool" where
  "readable P ts st \<longleftrightarrow> ordered_iso P (ts \<union> \<Union> (instants_of ` set st))"

lemma row_simps [simp]:
  "lm_id (toModel P ev) = ev_id ev"
  "lm_eventType (toModel P ev) = eventType_value (ev_eventType ev)"
  "lm_economicEffect (toModel P ev) = economicEffect_value (ev_economicEffect ev)"
  "lm_occurredAt (toModel P ev) = iso_string P (ev_occurredAt ev)"
  "lm_recordedAt (toModel P ev) = iso_string P (ev_recordedAt ev)"
  "lm_dueAt (toModel P ev) = map_option (iso_string P) (ev_dueAt ev)"
  "lm_amountUnits (toModel P ev) = units (ev_amount ev)"
  "lm_amountCurrency (toModel P ev) = currency (ev_amount ev)"
  "lm_sourceReference (toModel P ev) = src_reference (ev_source ev)"
  "lm_hash (toModel P ev) = ev_hash ev"
  "lm_commandId (toModel P ev) = ev_commandId ev"
  "lm_relatedEventId (toModel P ev) = ev_relatedEventId ev"
  "lm_reasonType (toModel P ev) = map_option (\<lambda>r. reasonType_value (rsn_type r)) (ev_reason ev)"
  "lm_reasonRequiresFollowup (toModel P ev) = map_option rsn_requiresFollowup (ev_reason ev)"
  "lm_parties (toModel P ev) = map party_model (ev_parties ev)"
  "lm_objects (toModel P ev) = map object_model (ev_objects ev)"
  by (simp_all add: toModel_def Let_def toUnits_def)

lemma child_simps [simp]:
  "om_objectId (object_model ob) = obj_id ob"
  "om_objectType (object_model ob) = objectType_value (obj_type ob)"
  "om_relation (object_model ob) = relation_value (obj_relation ob)"
  "pm_partyId (party_model q) = party_id q"
  "pm_direction (party_model q) = direction_value (party_direction q)"
  by (simp_all add: object_model_def party_model_def)

lemma relation_is [simp]:
  "relation_value r = ''retracts'' \<longleftrightarrow> r = Relation.RETRACTS"
  "relation_value r = ''settles'' \<longleftrightarrow> r = Relation.SETTLES"
  "relation_value r = ''originates'' \<longleftrightarrow> r = Relation.ORIGINATES"
  "relation_value r = ''adjusts'' \<longleftrightarrow> r = Relation.ADJUSTS"
  "relation_value r = ''reverses'' \<longleftrightarrow> r = Relation.REVERSES"
  "relation_value r = ''references'' \<longleftrightarrow> r = Relation.REFERENCES"
  by (cases r; simp)+

lemma effect_is [simp]:
  "economicEffect_value e = ''cash_in'' \<longleftrightarrow> e = EconomicEffect.CASH_IN"
  "economicEffect_value e = ''cash_out'' \<longleftrightarrow> e = EconomicEffect.CASH_OUT"
  "economicEffect_value e = ''non_cash'' \<longleftrightarrow> e = EconomicEffect.NON_CASH"
  by (cases e; simp)+

lemma direction_is [simp]:
  "direction_value d = ''in'' \<longleftrightarrow> d = Direction.IN"
  "direction_value d = ''out'' \<longleftrightarrow> d = Direction.OUT"
  by (cases d; simp)+

lemma reason_is [simp]: "reasonType_value y = ''unknown_origin'' \<longleftrightarrow> y = ReasonType.UNKNOWN_ORIGIN"
  by (cases y; simp)

lemma cash_row_model [simp]: "cash_row (toModel P ev) = is_cash ev"
  by (simp add: cash_row_def is_cash_def)

lemma settles_row: "list_ex (\<lambda>ob. om_relation ob = ''settles'') (lm_objects (toModel P ev)) = has_relation Relation.SETTLES (ev_objects ev)"
  by (simp add: list_ex_Bex has_relation_def)

lemma retraction_row_model: "retraction_row (toModel P r) i \<longleftrightarrow> is_retraction r \<and> ev_relatedEventId r = Some i"
  by (auto simp: retraction_row_def is_retraction_def has_relation_def list_ex_Bex)

lemma notRetracted_model:
  assumes "sound_book st" "e \<in> set st"
  shows "notRetracted (tables_of P st) (toModel P e) = stands st e"
proof -
  have ids: "ev_id x \<noteq> []" if "x \<in> set st" for x using assms(1) that by (simp add: sound_book_def storable_def)
  have r: "retraction_row (toModel P r) (ev_id x) = retracts_id r (ev_id x)" if "x \<in> set st" for r x
    using ids [OF that] by (simp add: retraction_row_model retracts_id_def)
  have "one_retraction_each st" using assms(1) by (simp add: sound_book_def)
  from retractedEventIds_unique [OF this] show ?thesis
    using assms(2) r by (auto simp: notRetracted_def list_ex_Bex stands_def)
qed

lemma filter_tables: "filter p (tables_of P xs) = tables_of P (filter (\<lambda>e. p (toModel P e)) xs)"
  by (simp add: filter_map comp_def)

lemma standing_rows:
  assumes "sound_book st"
  shows "filter (\<lambda>r. q r \<and> notRetracted (tables_of P st) r) (tables_of P st)
      = tables_of P (filter (\<lambda>e. q (toModel P e)) (standing st))"
proof -
  have "filter (\<lambda>e. q (toModel P e) \<and> notRetracted (tables_of P st) (toModel P e)) st
      = filter (\<lambda>e. q (toModel P e) \<and> stands st e) st"
    by (rule filter_cong) (simp_all add: notRetracted_model [OF assms])
  then show ?thesis by (simp add: filter_tables standing_def conj_commute)
qed

lemma standing_rows_all:
  "sound_book st \<Longrightarrow> filter (notRetracted (tables_of P st)) (tables_of P st) = tables_of P (standing st)"
  using standing_rows [of st "\<lambda>_. True"] by simp

lemma readable_less:
  assumes "readable P ts st"
  shows "s \<in> ts \<union> \<Union> (instants_of ` set st) \<Longrightarrow> u \<in> ts \<union> \<Union> (instants_of ` set st) \<Longrightarrow>
      iso_string P s < iso_string P u \<longleftrightarrow> s < u"
    and "s \<in> ts \<union> \<Union> (instants_of ` set st) \<Longrightarrow> u \<in> ts \<union> \<Union> (instants_of ` set st) \<Longrightarrow>
      iso_string P s \<le> iso_string P u \<longleftrightarrow> s \<le> u"
    and "s \<in> ts \<union> \<Union> (instants_of ` set st) \<Longrightarrow> u \<in> ts \<union> \<Union> (instants_of ` set st) \<Longrightarrow>
      iso_string P s = iso_string P u \<longleftrightarrow> s = u"
proof -
  show less: "iso_string P s < iso_string P u \<longleftrightarrow> s < u"
    if "s \<in> ts \<union> \<Union> (instants_of ` set st)" "u \<in> ts \<union> \<Union> (instants_of ` set st)" for s u
    using assms that by (simp add: readable_def ordered_iso_def)
  show "iso_string P s \<le> iso_string P u \<longleftrightarrow> s \<le> u"
    if "s \<in> ts \<union> \<Union> (instants_of ` set st)" "u \<in> ts \<union> \<Union> (instants_of ` set st)"
    using less [OF that(2,1)] by (simp add: linorder_not_less [symmetric])
  show "iso_string P s = iso_string P u \<longleftrightarrow> s = u"
    if "s \<in> ts \<union> \<Union> (instants_of ` set st)" "u \<in> ts \<union> \<Union> (instants_of ` set st)"
    using less [OF that] less [OF that(2,1)] by (metis less_irrefl linorder_neqE)
qed

lemma hydrate_rows:
  assumes "sound_book st" "readable P ts st" "set xs \<subseteq> set st" "told_book st"
  shows "hydrate P (tables_of P xs) = Some xs"
  unfolding hydrate_def
proof (rule all_read_back, rule ballI)
  fix ev assume ev: "ev \<in> set xs"
  with assms(3) have "ev \<in> set st" by blast
  then have "instants_of ev \<subseteq> ts \<union> \<Union> (instants_of ` set st)" by blast
  then have "ordered_iso P (instants_of ev)"
    using assms(2) unfolding readable_def ordered_iso_def by (metis subsetD)
  with assms(1,4) \<open>ev \<in> set st\<close> show "toEntity P (toModel P ev) = Some ev"
    by (intro row_back) (simp_all add: sound_book_def told_book_def)
qed

section \<open>Sorting the rows\<close>

lemma insort_by_map:
  "(\<And>y. y \<in> set ys \<Longrightarrow> cmp' (f x) (f y) \<le> 0 \<longleftrightarrow> cmp x y \<le> 0) \<Longrightarrow>
   insort_by cmp' (f x) (map f ys) = map f (insort_by cmp x ys)"
  by (induction ys) auto

lemma sort_by_map:
  "(\<And>x y. x \<in> set xs \<Longrightarrow> y \<in> set xs \<Longrightarrow> cmp' (f x) (f y) \<le> 0 \<longleftrightarrow> cmp x y \<le> 0) \<Longrightarrow>
   sort_by cmp' (map f xs) = map f (sort_by cmp xs)"
proof (induction xs)
  case Nil
  then show ?case by (simp add: sort_by_def)
next
  case (Cons x xs)
  have rest: "sort_by cmp' (map f xs) = map f (sort_by cmp xs)" using Cons by simp
  have "insort_by cmp' (f x) (map f (sort_by cmp xs)) = map f (insort_by cmp x (sort_by cmp xs))"
    by (rule insort_by_map) (use Cons.prems in simp)
  with rest show ?case by (simp add: sort_by_def)
qed

lemma row_order:
  assumes "readable P ts st" "a \<in> set st" "b \<in> set st"
  shows "row_compare (row_axis key) dir (toModel P a) (toModel P b) \<le> 0
      \<longleftrightarrow> event_compare (event_axis key) dir a b \<le> 0"
proof -
  have mem: "event_axis key x \<in> ts \<union> \<Union> (instants_of ` set st)" if "x \<in> set st" for x
    using that by (cases key) (auto simp: instants_of_def)
  have axis: "row_axis key (toModel P x) = iso_string P (event_axis key x)" for x
    by (cases key) (simp_all add: row_axis_def)
  show ?thesis
    unfolding row_compare_def event_compare_def axis compareIds_def Let_def
      readable_less(1) [OF assms(1) mem [OF assms(2)] mem [OF assms(3)]]
      readable_less(1) [OF assms(1) mem [OF assms(3)] mem [OF assms(2)]]
    by (cases dir) auto
qed

lemma sorted_rows:
  assumes "readable P ts st" "set xs \<subseteq> set st"
  shows "sort_by (row_compare (row_axis key) dir) (tables_of P xs)
      = tables_of P (sort_by (event_compare (event_axis key) dir) xs)"
  by (rule sort_by_map, rule row_order [OF assms(1)]) (use assms(2) in auto)

section \<open>Groups\<close>

lemma sql_distinct_set [simp]: "set (sql_distinct xs) = set xs"
  using fold_set_add [of "\<lambda>x. x" xs "[]"] by (simp add: sql_distinct_def)

lemma sql_distinct_distinct [simp]: "distinct (sql_distinct xs)"
  unfolding sql_distinct_def by (rule fold_distinct) simp_all

lemma map_fst_groups [simp]: "map fst (groups f xs) = sql_distinct (map f xs)"
  by (simp add: groups_def comp_def)

lemma set_groups: "(k, rows) \<in> set (groups f xs) \<longleftrightarrow> k \<in> f ` set xs \<and> rows = filter (\<lambda>x. f x = k) xs"
  by (auto simp: groups_def)

lemma map_of_groups:
  "map_of (groups f xs) k = (if filter (\<lambda>x. f x = k) xs = [] then None else Some (filter (\<lambda>x. f x = k) xs))"
proof -
  have "map_of (map (\<lambda>k. (k, filter (\<lambda>x. f x = k) xs)) ks) k
      = (if k \<in> set ks then Some (filter (\<lambda>x. f x = k) xs) else None)" for ks
    by (induction ks) auto
  then show ?thesis by (auto simp: groups_def filter_empty_conv)
qed

lemma map_of_map_groups:
  "map_of (map (\<lambda>(k, rows). (k, h rows)) (groups f xs)) k
     = (if filter (\<lambda>x. f x = k) xs = [] then None else Some (h (filter (\<lambda>x. f x = k) xs)))"
  by (simp add: map_of_map_snd map_of_groups)

lemma max_same: "\<forall>x\<in>set xs. x = c \<Longrightarrow> xs \<noteq> [] \<Longrightarrow> sql_max xs = Some c"
proof (cases xs)
  case (Cons x ys)
  have "\<forall>x\<in>set ys. x = c \<Longrightarrow> fold max ys c = c" for ys by (induction ys) auto
  then show "\<forall>x\<in>set xs. x = c \<Longrightarrow> sql_max xs = Some c" by (simp add: Cons)
qed simp

section \<open>Cash flows\<close>

lemma read_flow_fields:
  "cashInUnits (read_flow r F) = (if fst r = ''cash_in'' then fst (snd r) else cashInUnits F)"
  "cashOutUnits (read_flow r F) = (if fst r = ''cash_out'' then fst (snd r) else cashOutUnits F)"
  "cf_currency (read_flow r F) = snd (snd r)"
  by (cases r; simp add: read_flow_def Let_def)+

lemma read_flows:
  assumes "distinct (map fst rows)"
  shows "cashInUnits (fold read_flow rows F) = (case map_of rows ''cash_in'' of None \<Rightarrow> cashInUnits F | Some r \<Rightarrow> fst r)"
    and "cashOutUnits (fold read_flow rows F) = (case map_of rows ''cash_out'' of None \<Rightarrow> cashOutUnits F | Some r \<Rightarrow> fst r)"
    and "(\<forall>r\<in>set rows. snd (snd r) = c) \<Longrightarrow> cf_currency (fold read_flow rows F) = (if rows = [] then cf_currency F else c)"
proof -
  have none: "k \<notin> fst ` set rs \<Longrightarrow> map_of rs k = None" for k and rs :: "(string \<times> int \<times> string) list"
    by (simp add: map_of_eq_None_iff)
  show "cashInUnits (fold read_flow rows F) = (case map_of rows ''cash_in'' of None \<Rightarrow> cashInUnits F | Some r \<Rightarrow> fst r)"
    using assms by (induction rows arbitrary: F) (auto simp: read_flow_fields none split: option.splits)
  show "cashOutUnits (fold read_flow rows F) = (case map_of rows ''cash_out'' of None \<Rightarrow> cashOutUnits F | Some r \<Rightarrow> fst r)"
    using assms by (induction rows arbitrary: F) (auto simp: read_flow_fields none split: option.splits)
  show "(\<forall>r\<in>set rows. snd (snd r) = c) \<Longrightarrow> cf_currency (fold read_flow rows F) = (if rows = [] then cf_currency F else c)"
    by (induction rows arbitrary: F) (auto simp: read_flow_fields)
qed

lemma sum_units_rows: "sum_units (tables_of P xs) = sum_list (map (\<lambda>e. units (ev_amount e)) xs)"
  by (simp add: sum_units_def comp_def)

lemma effect_rows:
  "sum_list (map (\<lambda>e. units (ev_amount e)) (filter (\<lambda>e. is_cash e \<and> ev_economicEffect e = ef) xs))
     = (if ef \<in> {EconomicEffect.CASH_IN, EconomicEffect.CASH_OUT} then effect_units ef xs else 0)"
  by (induction xs) (auto simp: is_cash_def)

lemma flow_currency:
  assumes "\<forall>e\<in>set evs. currency (ev_amount e) = c" "b \<Longrightarrow> cf_currency F = c"
  shows "cf_currency (fst (fold cash_step evs (F, b))) = (if b \<or> filter is_cash evs \<noteq> [] then c else cf_currency F)"
  using assms
proof (induction evs arbitrary: F b)
  case (Cons e evs)
  show ?case
  proof (cases "is_cash e")
    case True
    then obtain F' where F': "cash_step e (F, b) = (F', True)" "cf_currency F' = c"
      using Cons.prems by (cases b) (auto simp: cash_step_def is_cash_def Let_def)
    with Cons True show ?thesis by simp
  next
    case False
    then have "cash_step e (F, b) = (F, b)" by (simp add: cash_step_def is_cash_def)
    with Cons False show ?thesis by simp
  qed
qed simp

text \<open>Both readings of the cash totals, over a list of standing events.\<close>

definition single_currency :: "string \<Rightarrow> store \<Rightarrow> bool" where
  "single_currency c st \<longleftrightarrow> (\<forall>ev\<in>set st. currency (ev_amount ev) = c)"

lemma flows_agree:
  assumes "single_currency c evs"
  shows "fold read_flow (map (\<lambda>(effect, rows). (effect, sum_units rows, the (sql_max (map lm_amountCurrency rows))))
      (groups lm_economicEffect (tables_of P (filter is_cash evs)))) no_flows
    = fst (fold cash_step evs (no_flows, False))" (is "fold read_flow ?R _ = ?F")
proof -
  let ?g = "\<lambda>rows. (sum_units rows, the (sql_max (map lm_amountCurrency rows)))"
  have look: "map_of ?R k = (if filter (\<lambda>r. lm_economicEffect r = k) (tables_of P (filter is_cash evs)) = [] then None
      else Some (?g (filter (\<lambda>r. lm_economicEffect r = k) (tables_of P (filter is_cash evs)))))" for k
    by (rule map_of_map_groups)
  have d: "distinct (map fst ?R)" by (simp add: comp_def case_prod_beta')
  have sums: "(case map_of ?R (economicEffect_value ef) of None \<Rightarrow> 0 | Some r \<Rightarrow> fst r) = effect_units ef evs"
    if "ef \<in> {EconomicEffect.CASH_IN, EconomicEffect.CASH_OUT}" for ef
  proof -
    have "filter (\<lambda>r. lm_economicEffect r = economicEffect_value ef) (tables_of P (filter is_cash evs))
        = tables_of P (filter (\<lambda>e. is_cash e \<and> ev_economicEffect e = ef) evs)"
      by (simp add: filter_tables economicEffect.value_inject conj_commute)
    then show ?thesis
      using that effect_rows [of ef evs] unfolding look by (auto simp: sum_units_rows)
  qed
  have same: "\<forall>r\<in>set ?R. snd (snd r) = c"
  proof
    fix r assume "r \<in> set ?R"
    then obtain k rows where "(k, rows) \<in> set (groups lm_economicEffect (tables_of P (filter is_cash evs)))"
      and "r = (k, ?g rows)"
      unfolding set_map by (auto simp del: set_map)
    then have k: "k \<in> lm_economicEffect ` set (tables_of P (filter is_cash evs))"
      and r: "r = (k, ?g (filter (\<lambda>r. lm_economicEffect r = k) (tables_of P (filter is_cash evs))))"
      unfolding set_groups by simp_all
    have "sql_max (map lm_amountCurrency (filter (\<lambda>r. lm_economicEffect r = k) (tables_of P (filter is_cash evs)))) = Some c"
      using k assms by (intro max_same) (auto simp: single_currency_def filter_empty_conv)
    with r show "snd (snd r) = c" by simp
  qed
  have empty: "?R = [] \<longleftrightarrow> filter is_cash evs = []"
  proof -
    have "?R = [] \<longleftrightarrow> set (map fst ?R) = {}" by simp
    also have "\<dots> \<longleftrightarrow> filter is_cash evs = []" by (simp add: comp_def case_prod_beta' del: set_map)
    finally show ?thesis .
  qed
  show ?thesis
  proof (rule CashFlows.equality)
    show "cashInUnits (fold read_flow ?R no_flows) = cashInUnits ?F"
      using sums [of EconomicEffect.CASH_IN] by (simp add: read_flows(1) [OF d] cash_fold no_flows_def cong: option.case_cong)
    show "cashOutUnits (fold read_flow ?R no_flows) = cashOutUnits ?F"
      using sums [of EconomicEffect.CASH_OUT] by (simp add: read_flows(2) [OF d] cash_fold no_flows_def cong: option.case_cong)
    show "cf_currency (fold read_flow ?R no_flows) = cf_currency ?F"
      using assms unfolding read_flows(3) [OF d same] empty
      by (subst flow_currency [of evs c]) (auto simp: single_currency_def)
  qed simp
qed

lemma standing_subset: "set (standing st) \<subseteq> set st"
  by (auto simp: standing_def)

lemma before_rows:
  "readable P ts st \<Longrightarrow> d \<in> ts \<Longrightarrow> e \<in> set st \<Longrightarrow> iso_string P (ev_occurredAt e) < iso_string P d \<longleftrightarrow> ev_occurredAt e < d"
  by (intro readable_less(1)) (auto simp: instants_of_def)

lemma period_rows:
  "readable P ts st \<Longrightarrow> t0 \<in> ts \<Longrightarrow> t1 \<in> ts \<Longrightarrow> e \<in> set st \<Longrightarrow>
    iso_string P t0 \<le> iso_string P (ev_occurredAt e) \<and> iso_string P (ev_occurredAt e) \<le> iso_string P t1 \<longleftrightarrow> in_period t0 t1 e"
  unfolding in_period_def by (subst (1 2) readable_less(2) [of P ts st]) (auto simp: instants_of_def)

lemma flow_rows_standing:
  assumes "sound_book st"
  shows "filter (\<lambda>e. cash_row e \<and> cond e \<and> notRetracted (tables_of P st) e) (tables_of P st)
      = tables_of P (filter is_cash (filter (\<lambda>e. cond (toModel P e)) (standing st)))"
  using standing_rows [OF assms, of "\<lambda>e. cash_row e \<and> cond e" P] by (simp add: conj_assoc conj_commute)

lemma flows_sql:
  assumes "sound_book st" "single_currency c st"
  shows "sql_aggregateCashFlows (tables_of P st) = aggregateCashFlows st"
proof -
  have "single_currency c (standing st)" using assms(2) standing_subset [of st] by (auto simp: single_currency_def)
  then show ?thesis
    unfolding sql_aggregateCashFlows_def flow_rows_def flow_rows_standing [OF assms(1)] aggregateCashFlows_fold
    by (simp add: flows_agree)
qed

lemma flows_before_sql:
  assumes "sound_book st" "single_currency c st" "readable P {d} st"
  shows "sql_aggregateCashFlowsBefore P (tables_of P st) d = aggregateCashFlowsBefore st d"
proof -
  have "filter (\<lambda>e. lm_occurredAt (toModel P e) < iso_string P d) (standing st)
      = filter (\<lambda>e. ev_occurredAt e < d) (standing st)"
    using before_rows [OF assms(3)] standing_subset [of st] by (intro filter_cong) auto
  moreover have "single_currency c (filter (\<lambda>e. ev_occurredAt e < d) (standing st))"
    using assms(2) standing_subset [of st] by (auto simp: single_currency_def)
  ultimately show ?thesis
    unfolding sql_aggregateCashFlowsBefore_def flow_rows_def flow_rows_standing [OF assms(1)] aggregateCashFlowsBefore_fold
    by (simp only: flows_agree)
qed

lemma closure_sql:
  assumes "sound_book st" "readable P {t0, t1} st"
  shows "sql_aggregateClosureStats P (tables_of P st) t0 t1 c = aggregateClosureStats st t0 t1 c"
proof -
  let ?q = "\<lambda>e. iso_string P t0 \<le> lm_occurredAt e \<and> lm_occurredAt e \<le> iso_string P t1 \<and>
      lm_amountCurrency e = c \<and> list_ex (\<lambda>ob. om_relation ob = ''settles'') (lm_objects e)"
  have here: "filter (\<lambda>e. ?q (toModel P e)) (standing st) = settling_in st t0 t1 c"
    unfolding settling_in_def using period_rows [OF assms(2), of t0 t1] standing_subset [of st]
    by (intro filter_cong) (auto simp del: row_simps simp: settles_row row_simps(4,8))
  have rows: "filter (\<lambda>e. ?q e \<and> notRetracted (tables_of P st) e) (tables_of P st) = tables_of P (settling_in st t0 t1 c)"
    by (simp only: standing_rows [OF assms(1)] here)
  have "sum_list (map (\<lambda>e. if lm_economicEffect e = ''cash_in'' then lm_amountUnits e else 0) (tables_of P xs))
      = effect_units EconomicEffect.CASH_IN xs" for xs
    by (induction xs) auto
  then show ?thesis
    unfolding sql_aggregateClosureStats_def aggregateClosureStats_sums Let_def
    using rows by (simp add: sum_units_rows conj_assoc)
qed

lemma joined_rows:
  assumes "sound_book st"
  shows "joined (tables_of P st) = map (\<lambda>(e, ob). (toModel P e, object_model ob)) (mentions_list (standing st))"
proof -
  have "concat (map (\<lambda>e. map (Pair e) (lm_objects e)) (tables_of P xs))
      = map (\<lambda>(e, ob). (toModel P e, object_model ob)) (mentions_list xs)" for xs
    by (induction xs) (simp_all add: mentions_list_def comp_def)
  then show ?thesis by (simp add: joined_def standing_rows_all [OF assms])
qed

lemma set_mentions_list: "set (mentions_list evs) = {(ev, ob). ev \<in> set evs \<and> ob \<in> set (ev_objects ev)}"
  by (auto simp: mentions_list_def)

lemma settled_sql:
  assumes "sound_book st"
  shows "set (sql_findSettledObjectIds (tables_of P st) wanted) = set (findSettledObjectIds st wanted)"
proof -
  have "map (om_objectId \<circ> snd) (filter (\<lambda>(e, ob). om_objectId ob \<in> set wanted \<and> om_relation ob = ''settles'') (joined (tables_of P st)))
      = map (\<lambda>(e, ob). obj_id ob) (filter (\<lambda>(e, ob). obj_id ob \<in> set wanted \<and> obj_relation ob = Relation.SETTLES) (mentions_list (standing st)))"
    by (simp add: joined_rows [OF assms] filter_map comp_def case_prod_beta')
  note ids = this
  show ?thesis
  proof (cases "wanted = []")
    case False
    then have "set (sql_findSettledObjectIds (tables_of P st) wanted)
        = (\<lambda>(e, ob). obj_id ob) ` {m. m \<in> set (mentions_list (standing st)) \<and>
            (\<lambda>(e, ob). obj_id ob \<in> set wanted \<and> obj_relation ob = Relation.SETTLES) m}"
      unfolding sql_findSettledObjectIds_def ids by (simp only: if_False sql_distinct_set set_map set_filter)
    then show ?thesis
      unfolding set_findSettledObjectIds by (auto simp: set_mentions_list names_def image_iff)
  qed (simp add: sql_findSettledObjectIds_def findSettledObjectIds_def)
qed

lemma period_sql:
  assumes "sound_book st" "readable P {t0, t1} st"
  shows "map_option fst (map_of (sql_aggregatePeriodCashFlow P (tables_of P st) t0 t1) (eventType_value ty, economicEffect_value ef))
    = map_option fst (map_of (fold (period_step (retractedEventIds st) t0 t1) st []) (ty, ef))"
proof -
  let ?q = "\<lambda>e. iso_string P t0 \<le> lm_occurredAt e \<and> lm_occurredAt e \<le> iso_string P t1 \<and> cash_row e"
  let ?rows = "tables_of P (filter (\<lambda>e. in_period t0 t1 e \<and> is_cash e) (standing st))"
  have here: "filter (\<lambda>e. ?q (toModel P e)) (standing st) = filter (\<lambda>e. in_period t0 t1 e \<and> is_cash e) (standing st)"
    using period_rows [OF assms(2), of t0 t1] standing_subset [of st] by (intro filter_cong) auto
  have rows: "filter (\<lambda>e. ?q e \<and> notRetracted (tables_of P st) e) (tables_of P st) = ?rows"
    by (simp only: standing_rows [OF assms(1)] here)
  have hits: "filter (\<lambda>e. (lm_eventType e, lm_economicEffect e) = (eventType_value ty, economicEffect_value ef)) ?rows
      = tables_of P (period_hits (retractedEventIds st) t0 t1 (ty, ef) st)"
    by (simp add: filter_tables period_hits_def standing_def stands_def [abs_def] eventType.value_inject
        economicEffect.value_inject conj_ac)
  show ?thesis
    unfolding sql_aggregatePeriodCashFlow_def period_fold_lookup
    using rows by (simp add: conj_assoc map_of_map_groups hits [simplified] sum_units_rows)
qed

section \<open>Listings answer alike\<close>

context comparator
begin

lemma filter_insort:
  "sorted_wrt (\<lambda>a b. cmp a b \<le> 0) ys \<Longrightarrow>
   filter p (insort_by cmp x ys) = (if p x then insort_by cmp x (filter p ys) else filter p ys)"
proof (induction ys)
  case (Cons y ys)
  show ?case
  proof (cases "cmp x y \<le> 0")
    case True
    with Cons.prems have *: "\<forall>z\<in>set (y # ys). cmp x z \<le> 0" using trans by auto
    have "\<forall>z\<in>set zs. cmp x z \<le> 0 \<Longrightarrow> insort_by cmp x zs = x # zs" for zs by (cases zs) simp_all
    from this [of "filter p (y # ys)"] * have "insort_by cmp x (filter p (y # ys)) = x # filter p (y # ys)" by simp
    with True show ?thesis by simp
  next
    case False
    with Cons show ?thesis by simp
  qed
qed simp

lemma filter_sort: "filter p (sort_by cmp xs) = sort_by cmp (filter p xs)"
proof (induction xs)
  case (Cons x xs)
  have step: "sort_by cmp (y # ys) = insort_by cmp y (sort_by cmp ys)" for y ys by (simp add: sort_by_def)
  show ?case using Cons by (simp add: step filter_insort sorted_sort_by)
qed (simp add: sort_by_def)

end

lemma limited_tables: "limited i n (tables_of P xs) = tables_of P (limited i n xs)"
  by (simp add: limited_def take_map drop_map)

lemma limited_subset: "set (limited i n xs) \<subseteq> set xs"
  unfolding limited_def by (meson in_set_dropD in_set_takeD subsetI)

lemma limited_slice: "0 \<le> i \<Longrightarrow> 0 \<le> n \<Longrightarrow> limited i n xs = slice i (i + n) xs"
  by (simp add: limited_def slice_nonneg)

lemma recent_sql:
  assumes "sound_book st" "readable P {} st" "0 \<le> n" and told: "told_book st"
  shows "sql_findRecentCashMovements P (tables_of P st) n = Some (findRecentCashMovements st n)"
proof -
  let ?C = "filter is_cash (standing st)"
  have C: "filter (\<lambda>e. ev_id e \<notin> set (retractedEventIds st) \<and> is_cash e) st = ?C"
    by (simp add: standing_def stands_def [abs_def] conj_commute)
  have sub: "set ?C \<subseteq> set st" using standing_subset [of st] by auto
  have rows: "filter (\<lambda>e. cash_row e \<and> notRetracted (tables_of P st) e) (tables_of P st) = tables_of P ?C"
    by (simp add: standing_rows [OF assms(1)])
  have order: "sort_by (row_compare lm_occurredAt DESC) (tables_of P ?C) = tables_of P (sort_by (event_compare ev_occurredAt DESC) ?C)"
  proof -
    have "event_axis occurredAt = ev_occurredAt" by (rule ext) simp
    with sorted_rows [OF assms(2) sub, of occurredAt DESC] show ?thesis by (simp add: row_axis_def)
  qed
  have "set (limited 0 n (sort_by (event_compare ev_occurredAt DESC) ?C)) \<subseteq> set st"
    using limited_subset sub by (metis (no_types, lifting) order_trans set_sort_by)
  from hydrate_rows [OF assms(1,2) this told] show ?thesis
    unfolding sql_findRecentCashMovements_def rows order limited_tables
    using assms(3) by (simp add: limited_slice findRecentCashMovements_def Let_def C)
qed

lemma pages_sql:
  assumes "sound_book st" "readable P {} st" "1 \<le> po_page opts" "1 \<le> po_limit opts" and told: "told_book st"
  shows "sql_findPaginated P (tables_of P st) opts = Some (findPaginated st opts)"
proof -
  define key where "key = (if po_sortBy opts = Some occurredAt then occurredAt else recordedAt)"
  define dir where "dir = (case po_sortOrder opts of None \<Rightarrow> ASC | Some d \<Rightarrow> d)"
  have dir': "dir = (if po_sortOrder opts = Some DESC then DESC else ASC)"
    by (cases "po_sortOrder opts"; cases dir) (auto simp: dir_def)
  have order: "sort_by (row_compare (row_axis key) dir) (tables_of P st) = tables_of P (sort_by (event_compare (event_axis key) dir) st)"
    by (rule sorted_rows [OF assms(2)]) simp
  have "set (limited ((po_page opts - 1) * po_limit opts) (po_limit opts) (sort_by (event_compare (event_axis key) dir) st)) \<subseteq> set st"
    using limited_subset by (metis set_sort_by)
  from hydrate_rows [OF assms(1,2) this told]
  have page: "sql_findPaginated P (tables_of P st) opts
      = Some (paginate (sort_by (event_compare (event_axis key) dir) st) opts)"
    using assms(3,4)
    by (simp add: sql_findPaginated_def Let_def key_def [symmetric] dir_def [symmetric] order limited_tables limited_slice
        paginate_def)
  have "findPaginated st opts = paginate (sort_by (event_compare (event_axis key) dir) st) opts"
    by (simp add: findPaginated_def Let_def key_def dir')
  with page show ?thesis by simp
qed

section \<open>The cash listing\<close>

definition cash_question :: "MovementQuery \<Rightarrow> bool" where
  "cash_question q \<longleftrightarrow> 1 \<le> mq_limit q \<and> mq_effect q \<in> {None, Some EconomicEffect.CASH_IN, Some EconomicEffect.CASH_OUT}"

definition question_instants :: "MovementQuery \<Rightarrow> instant set" where
  "question_instants q = set_option (mq_from q) \<union> set_option (mq_to q) \<union> cur_value ` set_option (mq_cursor q)"

lemma known_instants:
  "e \<in> set st \<Longrightarrow> event_axis key e \<in> ts \<union> \<Union> (instants_of ` set st)"
  by (cases key) (auto simp: instants_of_def)

lemma movement_row_model:
  assumes "sound_book st" "readable P (question_instants q) st" "cash_question q" "e \<in> set st"
  shows "movement_row P (tables_of P st) q (toModel P e) = movement_matches (retractedEventIds st) q e"
proof -
  have t: "ev_occurredAt e \<in> question_instants q \<union> \<Union> (instants_of ` set st)"
    using known_instants [OF assms(4), of occurredAt] by simp
  have since: "iso_string P f \<le> iso_string P (ev_occurredAt e) \<longleftrightarrow> f \<le> ev_occurredAt e" if "mq_from q = Some f" for f
    by (rule readable_less(2) [OF assms(2) _ t]) (simp add: question_instants_def that)
  have until: "iso_string P (ev_occurredAt e) \<le> iso_string P u \<longleftrightarrow> ev_occurredAt e \<le> u" if "mq_to q = Some u" for u
    by (rule readable_less(2) [OF assms(2) t]) (simp add: question_instants_def that)
  have party: "list_ex (\<lambda>p. Some (pm_partyId p) = mq_partyId q \<and>
          (lm_economicEffect (toModel P e) = ''cash_in'' \<and> pm_direction p = ''in'' \<or>
           lm_economicEffect (toModel P e) = ''cash_out'' \<and> pm_direction p = ''out'')) (lm_parties (toModel P e))
      \<longleftrightarrow> ev_economicEffect e = EconomicEffect.CASH_IN \<and>
            list_ex (\<lambda>p. Some (party_id p) = mq_partyId q \<and> party_direction p = Direction.IN) (ev_parties e)
        \<or> ev_economicEffect e = EconomicEffect.CASH_OUT \<and>
            list_ex (\<lambda>p. Some (party_id p) = mq_partyId q \<and> party_direction p = Direction.OUT) (ev_parties e)"
    by (auto simp: list_ex_Bex)
  have effect: "(case mq_effect q of None \<Rightarrow> cash_row (toModel P e) | Some ef \<Rightarrow> lm_economicEffect (toModel P e) = economicEffect_value ef)
      \<longleftrightarrow> is_cash e \<and> (case mq_effect q of None \<Rightarrow> True | Some ef \<Rightarrow> ev_economicEffect e = ef)"
    using assms(3) by (auto simp: cash_question_def is_cash_def economicEffect.value_inject split: option.splits)
  show ?thesis
    unfolding movement_row_def effect party notRetracted_model [OF assms(1,4)] movement_matches_def party_moves_def stands_def
    using since until by (auto simp: is_cash_def not_le not_less split: option.splits)
qed

lemma beyond_row_model:
  assumes "readable P (question_instants q) st" "mq_cursor q = Some c" "e \<in> set st"
  shows "beyond_row P q c (toModel P e) = beyond q c e"
proof -
  have axis: "row_axis key (toModel P e) = iso_string P (event_axis key e)" for key
    by (cases key) (simp_all add: row_axis_def)
  have c: "cur_value c \<in> question_instants q \<union> \<Union> (instants_of ` set st)"
    using assms(2) by (simp add: question_instants_def)
  show ?thesis
    unfolding beyond_row_def beyond_def Let_def axis
      readable_less(1) [OF assms(1) c known_instants [OF assms(3)]] readable_less(1) [OF assms(1) known_instants [OF assms(3)] c]
      readable_less(3) [OF assms(1) known_instants [OF assms(3)] c]
    by simp
qed

lemma stored_back: "readable P ts st \<Longrightarrow> e \<in> set st \<Longrightarrow> stored_instant P (row_axis key (toModel P e)) = Some (event_axis key e)"
proof -
  assume r: "readable P ts st" and e: "e \<in> set st"
  have "date_parse P (iso_string P (event_axis key e)) = Some (event_axis key e)"
    using r known_instants [OF e, of key ts] unfolding readable_def ordered_iso_def by blast
  then show ?thesis by (cases key) (simp_all add: stored_instant_def row_axis_def)
qed

lemma movements_sql:
  assumes b: "sound_book st" and r: "readable P (question_instants q) st" and q: "cash_question q" and told: "told_book st"
  shows "sql_findCashMovementsPaginated P (tables_of P st) q = Some (findCashMovementsPaginated st q)"
proof -
  let ?M = "filter (movement_matches (retractedEventIds st) q) st"
  let ?sorted = "sort_by (event_compare (event_axis (movement_key q)) (movement_order q))"
  let ?order = "sort_by (row_compare (row_axis (movement_key q)) (movement_order q))"
  have lim: "1 \<le> mq_limit q" using q by (simp add: cash_question_def)
  have matching: "filter (movement_row P (tables_of P st) q) (tables_of P st) = tables_of P ?M"
    using movement_row_model [OF b r q] by (simp add: filter_tables cong: filter_cong)
  have order: "?order (tables_of P xs) = tables_of P (?sorted xs)" if "set xs \<subseteq> set st" for xs
    using that by (rule sorted_rows [OF r])
  have hyd: "hydrate P (tables_of P xs) = Some xs" if "set xs \<subseteq> set st" for xs
    using that by (rule hydrate_rows [OF b r _ told])
  show ?thesis
  proof (cases "mq_page q")
    case (Some p)
    have "set (limited ((max 1 p - 1) * mq_limit q) (mq_limit q) (?sorted ?M)) \<subseteq> set st"
      using limited_subset [of _ _ "?sorted ?M"] by (auto dest!: subsetD)
    from hyd [OF this] have "hydrate P (limited ((max 1 p - 1) * mq_limit q) (mq_limit q) (?order (tables_of P ?M)))
        = Some (slice ((max 1 p - 1) * mq_limit q) (max 1 p * mq_limit q) (?sorted ?M))"
      using lim by (simp add: order limited_tables limited_slice algebra_simps)
    then show ?thesis
      by (simp add: sql_findCashMovementsPaginated_def findCashMovementsPaginated_def Some Let_def matching sorted_movements_def)
  next
    case None
    define R where "R = (case mq_cursor q of None \<Rightarrow> ?M | Some c \<Rightarrow> filter (beyond q c) ?M)"
    have rest: "(case mq_cursor q of None \<Rightarrow> tables_of P ?M | Some c \<Rightarrow> filter (beyond_row P q c) (tables_of P ?M)) = tables_of P R"
    proof (cases "mq_cursor q")
      case (Some c)
      have "filter (\<lambda>e. beyond_row P q c (toModel P e)) ?M = filter (beyond q c) ?M"
        by (rule filter_cong) (simp_all add: beyond_row_model [OF r Some])
      with Some show ?thesis by (simp only: R_def filter_tables option.case)
    qed (simp add: R_def)
    have R: "set R \<subseteq> set st" by (auto simp: R_def split: option.splits)
    have sorted: "(case mq_cursor q of None \<Rightarrow> sorted_movements st q | Some c \<Rightarrow> filter (beyond q c) (sorted_movements st q)) = ?sorted R"
      by (simp add: R_def sorted_movements_def event_order.filter_sort split: option.split)
    let ?taken = "slice 0 (mq_limit q + 1) (?sorted R)"
    have taken: "limited 0 (mq_limit q + 1) (?order (tables_of P R)) = tables_of P ?taken"
      using lim by (simp add: order [OF R] limited_tables limited_slice)
    define more where "more = (int (length ?taken) > mq_limit q)"
    define items where "items = (if more then slice 0 (mq_limit q) ?taken else ?taken)"
    have rows: "(if more then limited 0 (mq_limit q) (tables_of P ?taken) else tables_of P ?taken) = tables_of P items"
      using lim by (simp add: items_def limited_tables limited_slice)
    have "set items \<subseteq> set R"
      using lim by (auto simp: items_def dest!: in_set_takeD split: if_splits)
    with R have items: "set items \<subseteq> set st" by blast
    have final: "items \<noteq> [] \<Longrightarrow> last items \<in> set st" using items last_in_set [of items] by blast
    have sql: "sql_findCashMovementsPaginated P (tables_of P st) q =
      Option.bind (case (if tables_of P items \<noteq> [] then Some (last (tables_of P items)) else None) of
          Some e \<Rightarrow> if more
            then map_option (\<lambda>at. Some \<lparr>cur_key = movement_key q, cur_order = movement_order q,
                   cur_value = at, cur_id = lm_id e\<rparr>) (stored_instant P (row_axis (movement_key q) e))
            else Some None
        | None \<Rightarrow> Some None) (\<lambda>nextCursor.
      map_option (\<lambda>xs. \<lparr>mr_items = xs, mr_hasMore = more, mr_nextCursor = nextCursor,
          mr_total = None, mr_page = None, mr_totalPages = None\<rparr>) (hydrate P (tables_of P items)))"
      unfolding sql_findCashMovementsPaginated_def Let_def matching None option.case rest taken length_map
        more_def [symmetric] rows ..
    have mem: "findCashMovementsPaginated st q =
      \<lparr>mr_items = items, mr_hasMore = more,
        mr_nextCursor = (if more \<and> items \<noteq> [] then Some (cursor_at q (last items)) else None),
        mr_total = None, mr_page = None, mr_totalPages = None\<rparr>"
      unfolding findCashMovementsPaginated_def Let_def None option.case sorted more_def [symmetric] items_def [symmetric] ..
    show ?thesis
    proof (cases "items = []")
      case True
      then show ?thesis unfolding sql mem by (simp add: hydrate_def)
    next
      case False
      then have "last (tables_of P items) = toModel P (last items)" by (rule last_map)
      with False show ?thesis
        unfolding sql mem by (simp add: hyd [OF items] stored_back [OF r final] cursor_at_def)
    qed
  qed
qed

end
