(* ===== verification/Sql_Aggregates.thy ===== *)
theory Sql_Aggregates
  imports Sql_Queries
begin

text \<open>
  The positions as \<open>TypeOrmLedgerEventRepository.ts\<close> selects them: one row per object, grouped over the
  join of standing events and their objects, narrowed by semi-joins before the grouping and by its
  conditions after it. The lemmas relate a group to the walk of \<open>buildAggregateMap\<close> over the same
  mentions, and the page to the page of the in-memory repository.
\<close>

section \<open>The rows of a group\<close>

type_synonym joined_row = "LedgerEventModel \<times> LedgerEventObjectModel"

record AggRow =
  ar_object_id :: string
  ar_object_type :: string
  ar_currency :: string
  ar_total_originated :: int
  ar_total_settled :: int
  ar_total_adjusted :: int
  ar_cash_recovered :: int
  ar_non_cash_closed :: int
  ar_ref_cash_in :: int
  ar_ref_cash_out :: int
  ar_has_reversal :: int
  ar_has_unresolved_lineage :: int
  ar_event_count :: int
  ar_last_event_at :: string
  ar_originated_at :: "string option"
  ar_created_at :: string
  ar_due_at :: "string option"

text \<open>\<open>SUM(CASE WHEN ... THEN e.amount_units ELSE 0 END)\<close>, \<open>anyOf\<close> and \<open>toBool\<close>, and \<open>MIN\<close> over a \<open>CASE\<close>.\<close>

definition sum_case :: "(joined_row \<Rightarrow> bool) \<Rightarrow> joined_row list \<Rightarrow> int" where
  "sum_case p rows = sum_list (map (\<lambda>r. if p r then lm_amountUnits (fst r) else 0) rows)"

definition anyOf :: "(joined_row \<Rightarrow> bool) \<Rightarrow> joined_row list \<Rightarrow> int" where
  "anyOf p rows = the (sql_max (map (\<lambda>r. if p r then 1 else 0 :: int) rows))"

definition toBool :: "int \<Rightarrow> bool" where
  "toBool v \<longleftrightarrow> v = 1"

definition min_given :: "(joined_row \<Rightarrow> string option) \<Rightarrow> joined_row list \<Rightarrow> string option" where
  "min_given f rows = sql_min (concat (map (\<lambda>r. case f r of None \<Rightarrow> [] | Some s \<Rightarrow> [s]) rows))"

definition has_rel :: "string \<Rightarrow> joined_row \<Rightarrow> bool" where
  "has_rel rel r \<longleftrightarrow> om_relation (snd r) = rel"

definition has_effect :: "string \<Rightarrow> joined_row \<Rightarrow> bool" where
  "has_effect ef r \<longleftrightarrow> lm_economicEffect (fst r) = ef"

definition agg_row :: "string \<Rightarrow> joined_row list \<Rightarrow> AggRow" where
  "agg_row oid rows =
     \<lparr>ar_object_id = oid,
      ar_object_type = the (sql_max (map (om_objectType \<circ> snd) rows)),
      ar_currency = the (sql_max (map (lm_amountCurrency \<circ> fst) rows)),
      ar_total_originated = sum_case (has_rel ''originates'') rows,
      ar_total_settled = sum_case (has_rel ''settles'') rows,
      ar_total_adjusted = sum_case (has_rel ''adjusts'') rows,
      ar_cash_recovered = sum_case (\<lambda>r. has_rel ''settles'' r \<and> has_effect ''cash_in'' r) rows,
      ar_non_cash_closed = sum_case (\<lambda>r. has_rel ''settles'' r \<and> has_effect ''non_cash'' r) rows,
      ar_ref_cash_in = sum_case (\<lambda>r. has_rel ''references'' r \<and> has_effect ''cash_in'' r) rows,
      ar_ref_cash_out = sum_case (\<lambda>r. has_rel ''references'' r \<and> has_effect ''cash_out'' r) rows,
      ar_has_reversal = anyOf (has_rel ''reverses'') rows,
      ar_has_unresolved_lineage = anyOf (\<lambda>r. lm_reasonType (fst r) = Some ''unknown_origin'' \<and>
         lm_reasonRequiresFollowup (fst r) = Some True) rows,
      ar_event_count = int (length (sql_distinct (map (lm_id \<circ> fst) rows))),
      ar_last_event_at = the (sql_max (map (lm_occurredAt \<circ> fst) rows)),
      ar_originated_at = min_given (\<lambda>r. if has_rel ''originates'' r then Some (lm_occurredAt (fst r)) else None) rows,
      ar_created_at = the (sql_min (map (lm_recordedAt \<circ> fst) rows)),
      ar_due_at = min_given (\<lambda>r. if has_rel ''originates'' r then lm_dueAt (fst r) else None) rows\<rparr>"

text \<open>The common table: the candidates are the objects the semi-joins leave.\<close>

definition aggs_table :: "(string \<Rightarrow> bool) \<Rightarrow> tables \<Rightarrow> AggRow list" where
  "aggs_table candidate t =
     map (\<lambda>(oid, rows). agg_row oid rows)
       (groups (om_objectId \<circ> snd) (filter (\<lambda>r. candidate (om_objectId (snd r))) (joined t)))"

text \<open>The row as the repository hands it out.\<close>

definition position_of_row :: "platform \<Rightarrow> AggRow \<Rightarrow> PositionAggregate option" where
  "position_of_row P r =
     Option.bind (objectType_of (ar_object_type r)) (\<lambda>ty.
     Option.bind (stored_instant P (ar_last_event_at r)) (\<lambda>lastAt.
     Option.bind (optional (stored_instant P) (ar_originated_at r)) (\<lambda>originatedAt.
     Option.bind (stored_instant P (ar_created_at r)) (\<lambda>createdAt.
     Option.bind (optional (stored_instant P) (ar_due_at r)) (\<lambda>dueAt.
     Some \<lparr>pa_objectId = ar_object_id r, pa_objectType = ty, pa_currency = ar_currency r,
       pa_totalOriginatedUnits = ar_total_originated r, pa_totalSettledUnits = ar_total_settled r,
       pa_totalAdjustedUnits = ar_total_adjusted r, pa_cashRecoveredUnits = ar_cash_recovered r,
       pa_nonCashClosedUnits = ar_non_cash_closed r, pa_refCashInUnits = ar_ref_cash_in r,
       pa_refCashOutUnits = ar_ref_cash_out r, pa_hasReversal = toBool (ar_has_reversal r),
       pa_hasUnresolvedLineage = toBool (ar_has_unresolved_lineage r), pa_eventCount = ar_event_count r,
       pa_lastEventAt = lastAt, pa_originatedAt = originatedAt, pa_createdAt = createdAt, pa_dueAt = dueAt,
       pa_parties = None\<rparr>)))))"

section \<open>Conditions\<close>

definition UNKNOWN_ORIGIN_SQL :: "AggRow \<Rightarrow> bool" where
  "UNKNOWN_ORIGIN_SQL r \<longleftrightarrow> ar_total_originated r = 0 \<and> ar_has_unresolved_lineage r \<noteq> 0"

fun statusToSql :: "PositionStatus \<Rightarrow> AggRow \<Rightarrow> bool" where
  "statusToSql unknown_origin r = (ar_has_reversal r = 0 \<and> UNKNOWN_ORIGIN_SQL r)"
| "statusToSql open_position r = (ar_has_reversal r = 0 \<and> \<not> UNKNOWN_ORIGIN_SQL r \<and>
     (ar_total_originated r = 0 \<or> ar_total_settled r + ar_total_adjusted r = 0))"
| "statusToSql partially_settled r = (ar_has_reversal r = 0 \<and> ar_total_originated r > 0 \<and>
     ar_total_settled r + ar_total_adjusted r > 0 \<and> ar_total_settled r + ar_total_adjusted r < ar_total_originated r)"
| "statusToSql fully_settled r = (ar_has_reversal r = 0 \<and> ar_total_originated r > 0 \<and>
     ar_total_settled r + ar_total_adjusted r \<ge> ar_total_originated r)"
| "statusToSql reversed r = (ar_has_reversal r = 1)"

fun outcomeToSql :: "EconomicOutcome \<Rightarrow> AggRow \<Rightarrow> bool" where
  "outcomeToSql pending r = (ar_has_reversal r = 0 \<and>
     (ar_total_originated r = 0 \<or> ar_total_settled r + ar_total_adjusted r < ar_total_originated r))"
| "outcomeToSql cancelled r = (ar_has_reversal r = 1)"
| "outcomeToSql gain r = (ar_has_reversal r = 0 \<and> ar_total_originated r > 0 \<and>
     ar_total_settled r + ar_total_adjusted r \<ge> ar_total_originated r \<and> ar_non_cash_closed r = 0)"
| "outcomeToSql full_loss r = (ar_has_reversal r = 0 \<and> ar_total_originated r > 0 \<and>
     ar_total_settled r + ar_total_adjusted r \<ge> ar_total_originated r \<and> ar_cash_recovered r = 0)"
| "outcomeToSql partial_loss r = (ar_has_reversal r = 0 \<and> ar_total_originated r > 0 \<and>
     ar_total_settled r + ar_total_adjusted r \<ge> ar_total_originated r \<and> ar_cash_recovered r > 0 \<and> ar_non_cash_closed r > 0)"

text \<open>One semi-join (\<open>objectsWhere\<close>): some standing event of the object satisfies the predicate.\<close>

definition objectsWhere :: "tables \<Rightarrow> (joined_row \<Rightarrow> bool) \<Rightarrow> string \<Rightarrow> bool" where
  "objectsWhere t p oid \<longleftrightarrow> list_ex (\<lambda>r. om_objectId (snd r) = oid \<and> p r) (joined t)"

definition candidateFilter :: "platform \<Rightarrow> tables \<Rightarrow> PositionAggregateOptions \<Rightarrow> string \<Rightarrow> bool" where
  "candidateFilter P t opts oid \<longleftrightarrow>
     (asList (pq_objectType opts) \<noteq> [] \<longrightarrow>
        objectsWhere t (\<lambda>r. om_objectType (snd r) \<in> set (map objectType_value (asList (pq_objectType opts)))) oid) \<and>
     (case pq_from opts of None \<Rightarrow> True | Some f \<Rightarrow> objectsWhere t (\<lambda>r. lm_recordedAt (fst r) \<ge> iso_string P f) oid) \<and>
     (case pq_to opts of None \<Rightarrow> True | Some u \<Rightarrow> objectsWhere t (\<lambda>r. lm_recordedAt (fst r) \<le> iso_string P u) oid) \<and>
     (asList (pq_partyId opts) \<noteq> [] \<longrightarrow>
        objectsWhere t (\<lambda>r. list_ex (\<lambda>p. pm_partyId p \<in> set (asList (pq_partyId opts))) (lm_parties (fst r))) oid)"

definition whereClause :: "platform \<Rightarrow> PositionAggregateOptions \<Rightarrow> AggRow \<Rightarrow> bool" where
  "whereClause P opts r \<longleftrightarrow>
     (asList (pq_objectType opts) \<noteq> [] \<longrightarrow>
        ar_object_type r \<in> set (map objectType_value (asList (pq_objectType opts)))) \<and>
     (asList (pq_status opts) \<noteq> [] \<longrightarrow> list_ex (\<lambda>s. statusToSql s r) (asList (pq_status opts))) \<and>
     (case pq_outcome opts of None \<Rightarrow> True | Some oc \<Rightarrow> outcomeToSql oc r) \<and>
     (case pq_from opts of None \<Rightarrow> True | Some f \<Rightarrow> ar_created_at r \<ge> iso_string P f) \<and>
     (case pq_to opts of None \<Rightarrow> True | Some u \<Rightarrow> ar_created_at r \<le> iso_string P u)"

text \<open>\<open>ORDER BY\<close> the sort column, \<open>NULLS LAST\<close> for the due date, the identifier descending.\<close>

definition agg_compare :: "PositionSortKey option \<Rightarrow> SortOrder option \<Rightarrow> AggRow \<Rightarrow> AggRow \<Rightarrow> int" where
  "agg_compare sortBy sortOrder a b =
     (let dir = (if sortOrder = Some ASC then ASC else DESC);
          tie = compareIds (ar_object_id a) (ar_object_id b) DESC;
          by_text = (\<lambda>s u. let c = compareIds s u dir in if c \<noteq> 0 then c else tie)
      in if sortBy = Some by_dueAt
         then (case (ar_due_at a, ar_due_at b) of
               (Some s, Some u) \<Rightarrow> by_text s u
             | (None, None) \<Rightarrow> tie
             | (None, Some _) \<Rightarrow> 1
             | (Some _, None) \<Rightarrow> - 1)
         else by_text (ar_created_at a) (ar_created_at b))"

text \<open>\<open>group_concat(DISTINCT p.party_id)\<close> for one object, and the split of its text.\<close>

definition partiesOfObjects :: "tables \<Rightarrow> string \<Rightarrow> string list" where
  "partiesOfObjects t oid =
     (let ids = sql_distinct (concat (map (\<lambda>r. map pm_partyId (lm_parties (fst r)))
                  (filter (\<lambda>r. om_objectId (snd r) = oid) (joined t))));
          parties = (if ids = [] then None else Some (join '','' ids))
      in if truthy parties then split_commas (the parties) else [])"

definition sql_findPositionAggregates ::
  "platform \<Rightarrow> tables \<Rightarrow> PositionAggregateOptions \<Rightarrow> PositionAggregate Page option" where
  "sql_findPositionAggregates P t opts =
     (let page = max 1 (case pq_page opts of None \<Rightarrow> 1 | Some p \<Rightarrow> p);
          limit = min (max 1 (case pq_limit opts of None \<Rightarrow> 50 | Some l \<Rightarrow> l)) 200;
          selected_rows = filter (whereClause P opts) (aggs_table (candidateFilter P t opts) t);
          rows = limited ((page - 1) * limit) limit (sort_by (agg_compare (pq_sortBy opts) (pq_sortOrder opts)) selected_rows);
          n = (if rows \<noteq> [] then int (length selected_rows)
               else if page = 1 then 0 else int (length selected_rows))
      in map_option (\<lambda>data.
           \<lparr>pg_data = map (\<lambda>a. a\<lparr>pa_parties := Some (partiesOfObjects t (pa_objectId a))\<rparr>) data,
            pg_total = n, pg_page = page, pg_limit = limit, pg_totalPages = page_count n limit\<rparr>)
         (all_read (position_of_row P) rows))"

definition sql_findAllPositionAggregates :: "platform \<Rightarrow> tables \<Rightarrow> PositionAggregate list option" where
  "sql_findAllPositionAggregates P t =
     all_read (position_of_row P) (sort_by (\<lambda>a b. compareIds (ar_last_event_at a) (ar_last_event_at b) DESC) (aggs_table (\<lambda>_. True) t))"

text \<open>The open balances: type, sum of the balances, currency.\<close>

definition sql_aggregateOpenBalancesByObjectType :: "tables \<Rightarrow> (string \<times> int \<times> string) list" where
  "sql_aggregateOpenBalancesByObjectType t =
     map (\<lambda>(ty, rows). (ty,
            sum_list (map (\<lambda>r. ar_total_originated r - ar_total_settled r - ar_total_adjusted r) rows),
            the (sql_max (map ar_currency rows))))
       (groups ar_object_type (filter (\<lambda>r. ar_has_reversal r = 0 \<and> ar_total_originated r > 0 \<and>
            ar_total_settled r + ar_total_adjusted r < ar_total_originated r) (aggs_table (\<lambda>_. True) t)))"

section \<open>The walk of one object, field by field\<close>

lemma track_relation_more:
  "pa_cashRecoveredUnits (track_relation r ev a) = pa_cashRecoveredUnits a
     + (if r = Relation.SETTLES \<and> ev_economicEffect ev = EconomicEffect.CASH_IN then units (ev_amount ev) else 0)"
  "pa_nonCashClosedUnits (track_relation r ev a) = pa_nonCashClosedUnits a
     + (if r = Relation.SETTLES \<and> ev_economicEffect ev = EconomicEffect.NON_CASH then units (ev_amount ev) else 0)"
  "pa_refCashInUnits (track_relation r ev a) = pa_refCashInUnits a
     + (if r = Relation.REFERENCES \<and> ev_economicEffect ev = EconomicEffect.CASH_IN then units (ev_amount ev) else 0)"
  "pa_refCashOutUnits (track_relation r ev a) = pa_refCashOutUnits a
     + (if r = Relation.REFERENCES \<and> ev_economicEffect ev = EconomicEffect.CASH_OUT then units (ev_amount ev) else 0)"
  "pa_originatedAt (track_relation r ev a) =
     (if originates r then earlier (pa_originatedAt a) (ev_occurredAt ev) else pa_originatedAt a)"
  "pa_dueAt (track_relation r ev a) =
     (if originates r then (case ev_dueAt ev of None \<Rightarrow> pa_dueAt a | Some d \<Rightarrow> earlier (pa_dueAt a) d) else pa_dueAt a)"
  "pa_eventCount (track_relation r ev a) = pa_eventCount a"
  "pa_parties (track_relation r ev a) = pa_parties a"
  by (cases r; simp add: Let_def toUnits_def split: option.splits)+

lemma track_object_more:
  "pa_currency (track_object ev ob a) = pa_currency a"
  "pa_cashRecoveredUnits (track_object ev ob a) = pa_cashRecoveredUnits a
     + (if obj_relation ob = Relation.SETTLES \<and> ev_economicEffect ev = EconomicEffect.CASH_IN then units (ev_amount ev) else 0)"
  "pa_nonCashClosedUnits (track_object ev ob a) = pa_nonCashClosedUnits a
     + (if obj_relation ob = Relation.SETTLES \<and> ev_economicEffect ev = EconomicEffect.NON_CASH then units (ev_amount ev) else 0)"
  "pa_refCashInUnits (track_object ev ob a) = pa_refCashInUnits a
     + (if obj_relation ob = Relation.REFERENCES \<and> ev_economicEffect ev = EconomicEffect.CASH_IN then units (ev_amount ev) else 0)"
  "pa_refCashOutUnits (track_object ev ob a) = pa_refCashOutUnits a
     + (if obj_relation ob = Relation.REFERENCES \<and> ev_economicEffect ev = EconomicEffect.CASH_OUT then units (ev_amount ev) else 0)"
  "pa_originatedAt (track_object ev ob a) =
     (if originates (obj_relation ob) then earlier (pa_originatedAt a) (ev_occurredAt ev) else pa_originatedAt a)"
  "pa_dueAt (track_object ev ob a) =
     (if originates (obj_relation ob)
      then (case ev_dueAt ev of None \<Rightarrow> pa_dueAt a | Some d \<Rightarrow> earlier (pa_dueAt a) d) else pa_dueAt a)"
  "pa_lastEventAt (track_object ev ob a) = max (pa_lastEventAt a) (ev_occurredAt ev)"
  "pa_parties (track_object ev ob a) = pa_parties a"
  by (simp_all add: track_object_def Let_def track_relation_figures track_relation_more if_less_max
      del: track_relation.simps split: option.split)

definition walked :: "(LedgerEvent \<times> LedgerEventObject) list \<Rightarrow> PositionAggregate \<Rightarrow> PositionAggregate" where
  "walked ms a = fold (\<lambda>(ev, ob). track_object ev ob) ms a"

lemma walked_option: "fold step_option ms (Some a) = Some (walked ms a)"
  by (induction ms arbitrary: a) (auto simp: walked_def step_option_simps)

lemma walk_starts: "fold step_option ((ev, ob) # ms) None = Some (walked ((ev, ob) # ms) (new_aggregate ev ob))"
  using walked_option [of ms "track_object ev ob (new_aggregate ev ob)"]
  by (simp add: step_option_simps walked_def)

lemma walk_field:
  assumes "\<And>ev ob a. field (track_object ev ob a) = f ev ob (field a)"
  shows "field (walked ms a) = fold (\<lambda>(ev, ob). f ev ob) ms (field a)"
  by (induction ms arbitrary: a) (auto simp: walked_def assms)

lemma fold_sum: "fold (\<lambda>m s. s + g m) ms s = s + sum_list (map g ms)" for s :: int
  by (induction ms arbitrary: s) simp_all

lemma walk_sum:
  fixes g :: "LedgerEvent \<times> LedgerEventObject \<Rightarrow> int"
  assumes "\<And>ev ob a. field (track_object ev ob a) = field a + g (ev, ob)"
  shows "field (walked ms a) = field a + sum_list (map g ms)"
  using walk_field [of field "\<lambda>ev ob s. s + g (ev, ob)" ms a] assms fold_sum [of g ms "field a"]
  by (simp add: case_prod_eta [of "\<lambda>m s. s + g m"] case_prod_beta')

definition earliest :: "instant list \<Rightarrow> instant option" where
  "earliest ts = (case ts of [] \<Rightarrow> None | t # ts \<Rightarrow> Some (fold min ts t))"

lemma fold_earlier: "fold (\<lambda>t x. earlier x t) ts None = earliest ts"
proof -
  have "fold (\<lambda>t x. earlier x t) ts (Some u) = Some (fold min ts u)" for ts u
    by (induction ts arbitrary: u) (auto simp: earlier_def min_def)
  then show ?thesis by (cases ts) (simp_all add: earliest_def earlier_def)
qed

lemma fold_concat: "fold f (concat (map h ms)) x = fold (\<lambda>m. fold f (h m)) ms x"
  by (induction ms arbitrary: x) simp_all

definition origin_times :: "LedgerEvent \<times> LedgerEventObject \<Rightarrow> instant list" where
  "origin_times m = (case m of (ev, ob) \<Rightarrow> if originates (obj_relation ob) then [ev_occurredAt ev] else [])"

definition due_times :: "LedgerEvent \<times> LedgerEventObject \<Rightarrow> instant list" where
  "due_times m = (case m of (ev, ob) \<Rightarrow> if originates (obj_relation ob)
      then (case ev_dueAt ev of None \<Rightarrow> [] | Some d \<Rightarrow> [d]) else [])"

lemma walk_times:
  "pa_originatedAt a = None \<Longrightarrow> pa_originatedAt (walked ms a) = earliest (concat (map origin_times ms))"
  "pa_dueAt a = None \<Longrightarrow> pa_dueAt (walked ms a) = earliest (concat (map due_times ms))"
proof -
  have one: "fold (\<lambda>t x. earlier x t) (origin_times (ev, ob)) x
      = (if originates (obj_relation ob) then earlier x (ev_occurredAt ev) else x)" for ev ob x
    by (simp add: origin_times_def)
  have two: "fold (\<lambda>t x. earlier x t) (due_times (ev, ob)) x
      = (if originates (obj_relation ob) then (case ev_dueAt ev of None \<Rightarrow> x | Some d \<Rightarrow> earlier x d) else x)" for ev ob x
    by (simp add: due_times_def split: option.split)
  show "pa_originatedAt a = None \<Longrightarrow> pa_originatedAt (walked ms a) = earliest (concat (map origin_times ms))"
    unfolding fold_earlier [symmetric] fold_concat
    by (subst walk_field [of pa_originatedAt "\<lambda>ev ob. fold (\<lambda>t x. earlier x t) (origin_times (ev, ob))"])
      (simp_all add: track_object_more one case_prod_beta')
  show "pa_dueAt a = None \<Longrightarrow> pa_dueAt (walked ms a) = earliest (concat (map due_times ms))"
    unfolding fold_earlier [symmetric] fold_concat
    by (subst walk_field [of pa_dueAt "\<lambda>ev ob. fold (\<lambda>t x. earlier x t) (due_times (ev, ob))"])
      (simp_all add: track_object_more two case_prod_beta')
qed

section \<open>A group of rows and the walk\<close>

definition rows_of :: "platform \<Rightarrow> (LedgerEvent \<times> LedgerEventObject) list \<Rightarrow> joined_row list" where
  "rows_of P ms = map (\<lambda>(e, ob). (toModel P e, object_model ob)) ms"

lemma sum_case_rows:
  "sum_case p (rows_of P ms) = sum_list (map (\<lambda>(e, ob). if p (toModel P e, object_model ob) then units (ev_amount e) else 0) ms)"
  by (induction ms) (auto simp: sum_case_def rows_of_def)

lemma anyOf_any:
  assumes "rows \<noteq> []"
  shows "anyOf p rows = (if list_ex p rows then 1 else 0)"
proof -
  have "fold max (map (\<lambda>r. if p r then 1 else 0 :: int) rs) v = (if v = 1 \<or> list_ex p rs then 1 else 0)"
    if "v \<in> {0, 1}" for v :: int and rs
    using that by (induction rs arbitrary: v) auto
  with assms show ?thesis by (cases rows) (auto simp: anyOf_def)
qed

lemma fold_max_hom:
  assumes "\<And>x y. x \<in> T \<Longrightarrow> y \<in> T \<Longrightarrow> f (max x y) = max (f x) (f y)"
  shows "set xs \<subseteq> T \<Longrightarrow> x \<in> T \<Longrightarrow> fold max (map f xs) (f x) = f (fold max xs x)"
proof (induction xs arbitrary: x)
  case (Cons y xs)
  then have "fold max (map f xs) (f (max y x)) = f (fold max xs (max y x))" by (intro Cons.IH) (auto simp: max_def)
  moreover have "f (max y x) = max (f y) (f x)" using Cons.prems by (intro assms) simp_all
  ultimately show ?case by simp
qed simp

lemma fold_min_hom:
  assumes "\<And>x y. x \<in> T \<Longrightarrow> y \<in> T \<Longrightarrow> f (min x y) = min (f x) (f y)"
  shows "set xs \<subseteq> T \<Longrightarrow> x \<in> T \<Longrightarrow> fold min (map f xs) (f x) = f (fold min xs x)"
proof (induction xs arbitrary: x)
  case (Cons y xs)
  then have "fold min (map f xs) (f (min y x)) = f (fold min xs (min y x))" by (intro Cons.IH) (auto simp: min_def)
  moreover have "f (min y x) = min (f y) (f x)" using Cons.prems by (intro assms) simp_all
  ultimately show ?case by simp
qed simp

lemma fold_min_member: "set xs \<subseteq> T \<Longrightarrow> x \<in> T \<Longrightarrow> fold min xs x \<in> T"
  by (induction xs arbitrary: x) (auto simp: min_def)

lemma fold_max_member: "set xs \<subseteq> T \<Longrightarrow> x \<in> T \<Longrightarrow> fold max xs x \<in> T"
  by (induction xs arbitrary: x) (auto simp: max_def)

lemma fold_max_case: "fold (\<lambda>m t. max t (g m)) ms x = fold max (map g ms) x" for x :: "'b::linorder"
  by (induction ms arbitrary: x) (simp_all add: max.commute)

lemma fold_min_case: "fold (\<lambda>m t. min t (g m)) ms x = fold min (map g ms) x" for x :: "'b::linorder"
  by (induction ms arbitrary: x) (simp_all add: min.commute)

lemma objectType_max: "objectType_value (max a b) = max (objectType_value a) (objectType_value b)"
  by (auto simp: max_def less_eq_ObjectType_def)

lemma earliest_member: "set ts \<subseteq> T \<Longrightarrow> set_option (earliest ts) \<subseteq> T"
  by (cases ts) (auto simp: earliest_def intro: fold_min_member)

text \<open>Over instants the book can write, text and time have the same extremes.\<close>

abbreviation span :: "instant set \<Rightarrow> store \<Rightarrow> instant set" where
  "span ts st \<equiv> ts \<union> \<Union> (instants_of ` set st)"

lemma iso_max: "readable P ts st \<Longrightarrow> x \<in> span ts st \<Longrightarrow> y \<in> span ts st \<Longrightarrow>
    iso_string P (max x y) = max (iso_string P x) (iso_string P y)"
  using readable_less(2) [of P ts st x y] by (simp add: max_def)

lemma iso_min: "readable P ts st \<Longrightarrow> x \<in> span ts st \<Longrightarrow> y \<in> span ts st \<Longrightarrow>
    iso_string P (min x y) = min (iso_string P x) (iso_string P y)"
  using readable_less(2) [of P ts st x y] by (simp add: min_def)

lemma iso_back: "readable P ts st \<Longrightarrow> x \<in> span ts st \<Longrightarrow> stored_instant P (iso_string P x) = Some x"
  unfolding readable_def ordered_iso_def stored_instant_def by blast

lemma iso_latest: "readable P ts st \<Longrightarrow> set xs \<subseteq> span ts st \<Longrightarrow> x \<in> span ts st \<Longrightarrow>
    sql_max (map (iso_string P) (x # xs)) = Some (iso_string P (fold max xs x))"
  using fold_max_hom [of "span ts st" "iso_string P"] iso_max by simp

lemma iso_first: "readable P ts st \<Longrightarrow> set xs \<subseteq> span ts st \<Longrightarrow> x \<in> span ts st \<Longrightarrow>
    sql_min (map (iso_string P) (x # xs)) = Some (iso_string P (fold min xs x))"
  using fold_min_hom [of "span ts st" "iso_string P"] iso_min by simp

lemma iso_earliest: "readable P ts st \<Longrightarrow> set xs \<subseteq> span ts st \<Longrightarrow>
    sql_min (map (iso_string P) xs) = map_option (iso_string P) (earliest xs)"
  using iso_first [of P ts st] by (cases xs) (simp_all add: earliest_def)

lemma optional_back: "readable P ts st \<Longrightarrow> set_option x \<subseteq> span ts st \<Longrightarrow>
    optional (stored_instant P) (map_option (iso_string P) x) = Some x"
  using iso_back [of P ts st] by (cases x) (simp_all add: optional_def)

lemma walked_sums:
  "pa_totalOriginatedUnits (walked ms a) = pa_totalOriginatedUnits a
     + sum_list (map (\<lambda>(e, ob). if obj_relation ob = Relation.ORIGINATES then units (ev_amount e) else 0) ms)"
  "pa_totalSettledUnits (walked ms a) = pa_totalSettledUnits a
     + sum_list (map (\<lambda>(e, ob). if obj_relation ob = Relation.SETTLES then units (ev_amount e) else 0) ms)"
  "pa_totalAdjustedUnits (walked ms a) = pa_totalAdjustedUnits a
     + sum_list (map (\<lambda>(e, ob). if obj_relation ob = Relation.ADJUSTS then units (ev_amount e) else 0) ms)"
  "pa_cashRecoveredUnits (walked ms a) = pa_cashRecoveredUnits a
     + sum_list (map (\<lambda>(e, ob). if obj_relation ob = Relation.SETTLES \<and> ev_economicEffect e = EconomicEffect.CASH_IN
         then units (ev_amount e) else 0) ms)"
  "pa_nonCashClosedUnits (walked ms a) = pa_nonCashClosedUnits a
     + sum_list (map (\<lambda>(e, ob). if obj_relation ob = Relation.SETTLES \<and> ev_economicEffect e = EconomicEffect.NON_CASH
         then units (ev_amount e) else 0) ms)"
  "pa_refCashInUnits (walked ms a) = pa_refCashInUnits a
     + sum_list (map (\<lambda>(e, ob). if obj_relation ob = Relation.REFERENCES \<and> ev_economicEffect e = EconomicEffect.CASH_IN
         then units (ev_amount e) else 0) ms)"
  "pa_refCashOutUnits (walked ms a) = pa_refCashOutUnits a
     + sum_list (map (\<lambda>(e, ob). if obj_relation ob = Relation.REFERENCES \<and> ev_economicEffect e = EconomicEffect.CASH_OUT
         then units (ev_amount e) else 0) ms)"
  by (rule walk_sum, simp add: track_object_figures track_object_more)+

lemma walked_flags:
  "pa_hasReversal (walked ms a) \<longleftrightarrow> pa_hasReversal a \<or> (\<exists>(e, ob)\<in>set ms. reverses (obj_relation ob))"
  "pa_hasUnresolvedLineage (walked ms a) \<longleftrightarrow>
     pa_hasUnresolvedLineage a \<or> (\<exists>(e, ob)\<in>set ms. unknown_origin_declared (ev_reason e))"
  using walk_figures [OF walked_option [of ms a]] by simp_all

lemma walked_rest:
  "pa_objectId (walked ms a) = pa_objectId a" "pa_currency (walked ms a) = pa_currency a"
  "pa_parties (walked ms a) = pa_parties a"
  "pa_objectType (walked ms a) = fold max (map (obj_type \<circ> snd) ms) (pa_objectType a)"
  "pa_lastEventAt (walked ms a) = fold max (map (ev_occurredAt \<circ> fst) ms) (pa_lastEventAt a)"
  "pa_createdAt (walked ms a) = fold min (map (ev_recordedAt \<circ> fst) ms) (pa_createdAt a)"
proof -
  have same: "fold (\<lambda>(e, ob) x. x) ms x = x" for x :: 'x by (induction ms) auto
  show "pa_objectId (walked ms a) = pa_objectId a" "pa_currency (walked ms a) = pa_currency a"
    "pa_parties (walked ms a) = pa_parties a"
    by (subst walk_field [where f = "\<lambda>e ob x. x"]; simp add: track_object_figures track_object_more same)+
  show "pa_objectType (walked ms a) = fold max (map (obj_type \<circ> snd) ms) (pa_objectType a)"
    by (subst walk_field [where f = "\<lambda>e ob x. max x (obj_type ob)"])
      (simp_all add: track_object_figures case_prod_beta' flip: fold_max_case)
  show "pa_lastEventAt (walked ms a) = fold max (map (ev_occurredAt \<circ> fst) ms) (pa_lastEventAt a)"
    by (subst walk_field [where f = "\<lambda>e ob x. max x (ev_occurredAt e)"])
      (simp_all add: track_object_more case_prod_beta' flip: fold_max_case)
  show "pa_createdAt (walked ms a) = fold min (map (ev_recordedAt \<circ> fst) ms) (pa_createdAt a)"
    by (subst walk_field [where f = "\<lambda>e ob x. min x (ev_recordedAt e)"])
      (simp_all add: track_object_figures case_prod_beta' flip: fold_min_case)
qed

text \<open>The mentions of one object in a book.\<close>

definition object_mentions :: "store \<Rightarrow> string \<Rightarrow> (LedgerEvent \<times> LedgerEventObject) list \<Rightarrow> bool" where
  "object_mentions st oid ms \<longleftrightarrow> (\<forall>(e, ob)\<in>set ms. e \<in> set st \<and> obj_id ob = oid)"

definition since_epoch :: "store \<Rightarrow> bool" where
  "since_epoch st \<longleftrightarrow> (\<forall>e\<in>set st. 0 \<le> ev_occurredAt e)"

lemma row_extremes:
  assumes r: "readable P ts st" and ms: "object_mentions st oid ((e0, ob0) # ms)"
  shows "the (sql_max (map (om_objectType \<circ> snd) (rows_of P ((e0, ob0) # ms))))
      = objectType_value (fold max (map (obj_type \<circ> snd) ms) (obj_type ob0))"
    and "the (sql_max (map (lm_occurredAt \<circ> fst) (rows_of P ((e0, ob0) # ms))))
      = iso_string P (fold max (map (ev_occurredAt \<circ> fst) ms) (ev_occurredAt e0))"
    and "the (sql_min (map (lm_recordedAt \<circ> fst) (rows_of P ((e0, ob0) # ms))))
      = iso_string P (fold min (map (ev_recordedAt \<circ> fst) ms) (ev_recordedAt e0))"
    and "single_currency c st \<Longrightarrow> the (sql_max (map (lm_amountCurrency \<circ> fst) (rows_of P ((e0, ob0) # ms)))) = currency (ev_amount e0)"
proof -
  have mem: "e \<in> set st" if "(e, ob) \<in> set ((e0, ob0) # ms)" for e ob
    using ms that by (auto simp: object_mentions_def)
  have occurred: "set (map (ev_occurredAt \<circ> fst) ms) \<subseteq> span ts st" "ev_occurredAt e0 \<in> span ts st"
    and recorded: "set (map (ev_recordedAt \<circ> fst) ms) \<subseteq> span ts st" "ev_recordedAt e0 \<in> span ts st"
    using mem by (fastforce simp: instants_of_def)+
  have rows: "map (g \<circ> fst) (rows_of P ms) = map (\<lambda>m. g (toModel P (fst m))) ms" for g :: "LedgerEventModel \<Rightarrow> 'z"
    by (simp add: rows_of_def comp_def case_prod_beta')
  show "the (sql_max (map (om_objectType \<circ> snd) (rows_of P ((e0, ob0) # ms))))
      = objectType_value (fold max (map (obj_type \<circ> snd) ms) (obj_type ob0))"
    using fold_max_hom [of UNIV objectType_value "map (obj_type \<circ> snd) ms" "obj_type ob0"] objectType_max
    by (simp add: rows_of_def comp_def case_prod_beta')
  show "the (sql_max (map (lm_occurredAt \<circ> fst) (rows_of P ((e0, ob0) # ms))))
      = iso_string P (fold max (map (ev_occurredAt \<circ> fst) ms) (ev_occurredAt e0))"
    using iso_latest [OF r occurred] by (simp add: rows_of_def comp_def case_prod_beta')
  show "the (sql_min (map (lm_recordedAt \<circ> fst) (rows_of P ((e0, ob0) # ms))))
      = iso_string P (fold min (map (ev_recordedAt \<circ> fst) ms) (ev_recordedAt e0))"
    using iso_first [OF r recorded] by (simp add: rows_of_def comp_def case_prod_beta')
  assume "single_currency c st"
  then have "\<forall>x\<in>set (map (lm_amountCurrency \<circ> fst) (rows_of P ((e0, ob0) # ms))). x = currency (ev_amount e0)"
    using mem by (fastforce simp: single_currency_def rows_of_def)
  from max_same [OF this] show "the (sql_max (map (lm_amountCurrency \<circ> fst) (rows_of P ((e0, ob0) # ms)))) = currency (ev_amount e0)"
    by (simp add: rows_of_def)
qed

lemma row_times:
  assumes r: "readable P ts st" and ms: "object_mentions st oid ms"
  shows "min_given (\<lambda>r. if has_rel ''originates'' r then Some (lm_occurredAt (fst r)) else None) (rows_of P ms)
      = map_option (iso_string P) (earliest (concat (map origin_times ms)))"
    and "min_given (\<lambda>r. if has_rel ''originates'' r then lm_dueAt (fst r) else None) (rows_of P ms)
      = map_option (iso_string P) (earliest (concat (map due_times ms)))"
    and "set (concat (map origin_times ms)) \<subseteq> span ts st" "set (concat (map due_times ms)) \<subseteq> span ts st"
proof -
  have book: "e \<in> set st" if "(e, ob) \<in> set ms" for e ob
    using ms that by (auto simp: object_mentions_def)
  have mem: "t \<in> span ts st" if "(e, ob) \<in> set ms" "t \<in> instants_of e" for e ob t
    using book [OF that(1)] that(2) by blast
  have "t \<in> span ts st" if "m \<in> set ms" "t \<in> set (origin_times m)" for m t
  proof -
    obtain e ob where m: "m = (e, ob)" by (cases m)
    with that(2) have "t = ev_occurredAt e" by (simp add: origin_times_def split: if_splits)
    with that(1) m show ?thesis by (intro mem [of e ob]) (simp_all add: instants_of_def)
  qed
  then show o': "set (concat (map origin_times ms)) \<subseteq> span ts st" unfolding set_concat set_map by blast
  have "t \<in> span ts st" if "m \<in> set ms" "t \<in> set (due_times m)" for m t
  proof -
    obtain e ob where m: "m = (e, ob)" by (cases m)
    with that(2) have "ev_dueAt e = Some t" by (cases "ev_dueAt e"; cases "originates (obj_relation ob)") (simp_all add: due_times_def)
    with that(1) m show ?thesis by (intro mem [of e ob]) (simp_all add: instants_of_def)
  qed
  then show d: "set (concat (map due_times ms)) \<subseteq> span ts st" unfolding set_concat set_map by blast
  have "concat (map (\<lambda>r. case (if has_rel ''originates'' r then Some (lm_occurredAt (fst r)) else None) of None \<Rightarrow> [] | Some s \<Rightarrow> [s]) (rows_of P ms))
      = map (iso_string P) (concat (map origin_times ms))"
    by (induction ms) (auto simp: rows_of_def has_rel_def origin_times_def)
  then show "min_given (\<lambda>r. if has_rel ''originates'' r then Some (lm_occurredAt (fst r)) else None) (rows_of P ms)
      = map_option (iso_string P) (earliest (concat (map origin_times ms)))"
    by (simp only: min_given_def iso_earliest [OF r o'])
  have "concat (map (\<lambda>r. case (if has_rel ''originates'' r then lm_dueAt (fst r) else None) of None \<Rightarrow> [] | Some s \<Rightarrow> [s]) (rows_of P ms))
      = map (iso_string P) (concat (map due_times ms))"
    by (induction ms) (auto simp: rows_of_def has_rel_def due_times_def split: option.split)
  then show "min_given (\<lambda>r. if has_rel ''originates'' r then lm_dueAt (fst r) else None) (rows_of P ms)
      = map_option (iso_string P) (earliest (concat (map due_times ms)))"
    by (simp only: min_given_def iso_earliest [OF r d])
qed

section \<open>The row of a position\<close>

text \<open>An aggregate written as the row the statement returns for it.\<close>

definition row_of_position :: "platform \<Rightarrow> PositionAggregate \<Rightarrow> AggRow" where
  "row_of_position P a =
     \<lparr>ar_object_id = pa_objectId a, ar_object_type = objectType_value (pa_objectType a), ar_currency = pa_currency a,
      ar_total_originated = pa_totalOriginatedUnits a, ar_total_settled = pa_totalSettledUnits a,
      ar_total_adjusted = pa_totalAdjustedUnits a, ar_cash_recovered = pa_cashRecoveredUnits a,
      ar_non_cash_closed = pa_nonCashClosedUnits a, ar_ref_cash_in = pa_refCashInUnits a,
      ar_ref_cash_out = pa_refCashOutUnits a, ar_has_reversal = (if pa_hasReversal a then 1 else 0),
      ar_has_unresolved_lineage = (if pa_hasUnresolvedLineage a then 1 else 0), ar_event_count = pa_eventCount a,
      ar_last_event_at = iso_string P (pa_lastEventAt a),
      ar_originated_at = map_option (iso_string P) (pa_originatedAt a),
      ar_created_at = iso_string P (pa_createdAt a), ar_due_at = map_option (iso_string P) (pa_dueAt a)\<rparr>"

definition aggregate_instants :: "PositionAggregate \<Rightarrow> instant set" where
  "aggregate_instants a = {pa_lastEventAt a, pa_createdAt a} \<union> set_option (pa_originatedAt a) \<union> set_option (pa_dueAt a)"

lemma position_back:
  assumes "readable P ts st" "aggregate_instants a \<subseteq> span ts st" "pa_parties a = None"
  shows "position_of_row P (row_of_position P a) = Some a"
proof -
  have "set_option (pa_originatedAt a) \<subseteq> span ts st" "set_option (pa_dueAt a) \<subseteq> span ts st"
      "pa_lastEventAt a \<in> span ts st" "pa_createdAt a \<in> span ts st"
    using assms(2) by (simp_all add: aggregate_instants_def)
  then show ?thesis
    using assms(3)
    by (simp add: position_of_row_def row_of_position_def optional_back [OF assms(1)] iso_back [OF assms(1)] toBool_def)
qed

definition walk_aggregate :: "(LedgerEvent \<times> LedgerEventObject) list \<Rightarrow> PositionAggregate" where
  "walk_aggregate ms = (walked ms (case hd ms of (e, ob) \<Rightarrow> new_aggregate e ob))
     \<lparr>pa_eventCount := int (length (fold (\<lambda>(e, ob). set_add (ev_id e)) ms []))\<rparr>"

lemma new_aggregate_more:
  "pa_currency (new_aggregate e ob) = currency (ev_amount e)" "pa_cashRecoveredUnits (new_aggregate e ob) = 0"
  "pa_nonCashClosedUnits (new_aggregate e ob) = 0" "pa_refCashInUnits (new_aggregate e ob) = 0"
  "pa_refCashOutUnits (new_aggregate e ob) = 0" "pa_lastEventAt (new_aggregate e ob) = 0"
  "pa_originatedAt (new_aggregate e ob) = None" "pa_dueAt (new_aggregate e ob) = None"
  "pa_parties (new_aggregate e ob) = None"
  by (simp_all add: new_aggregate_def)

lemma lineage_row:
  "lm_reasonType (toModel P e) = Some ''unknown_origin'' \<and> lm_reasonRequiresFollowup (toModel P e) = Some True
     \<longleftrightarrow> unknown_origin_declared (ev_reason e)"
  by (cases "ev_reason e") (simp_all add: unknown_origin_declared_def)

lemma any_rows: "list_ex p (rows_of P ms) \<longleftrightarrow> (\<exists>(e, ob)\<in>set ms. p (toModel P e, object_model ob))"
  by (simp add: rows_of_def list_ex_Bex case_prod_beta')

lemma event_count_rows: "sql_distinct (map (lm_id \<circ> fst) (rows_of P ms)) = fold (\<lambda>(e, ob). set_add (ev_id e)) ms []"
  by (simp add: sql_distinct_def rows_of_def fold_map comp_def case_prod_beta')

lemma group_row:
  assumes r: "readable P ts st" and ms: "object_mentions st oid ms" "ms \<noteq> []"
    and c: "single_currency c st" and ep: "since_epoch st"
  shows "agg_row oid (rows_of P ms) = row_of_position P (walk_aggregate ms)"
proof -
  obtain e0 ob0 ms' where ms': "ms = (e0, ob0) # ms'" using ms(2) by (cases ms) auto
  have oid: "obj_id ob0 = oid" and e0: "e0 \<in> set st" using ms(1) by (auto simp: ms' object_mentions_def)
  have ne: "rows_of P ms \<noteq> []" by (simp add: ms' rows_of_def)
  have late: "max (ev_occurredAt e0) 0 = ev_occurredAt e0" using ep e0 by (simp add: since_epoch_def)
  let ?a = "walked ms (new_aggregate e0 ob0)"
  have a: "walk_aggregate ms = ?a\<lparr>pa_eventCount := int (length (fold (\<lambda>(e, ob). set_add (ev_id e)) ms []))\<rparr>"
    by (simp add: walk_aggregate_def ms')
  note ex = row_extremes [OF r ms(1) [unfolded ms'], folded ms']
  have ty: "pa_objectType ?a = fold max (map (obj_type \<circ> snd) ms') (obj_type ob0)"
    and la: "pa_lastEventAt ?a = fold max (map (ev_occurredAt \<circ> fst) ms') (ev_occurredAt e0)"
    and cr: "pa_createdAt ?a = fold min (map (ev_recordedAt \<circ> fst) ms') (ev_recordedAt e0)"
    and cu: "pa_currency ?a = currency (ev_amount e0)"
    by (simp_all add: walked_rest ms' new_aggregate_more late)
  have flags: "anyOf (has_rel ''reverses'') (rows_of P ms) = (if pa_hasReversal ?a then 1 else 0)"
      "anyOf (\<lambda>r. lm_reasonType (fst r) = Some ''unknown_origin'' \<and> lm_reasonRequiresFollowup (fst r) = Some True) (rows_of P ms)
        = (if pa_hasUnresolvedLineage ?a then 1 else 0)"
    unfolding anyOf_any [OF ne] any_rows walked_flags by (simp_all only: has_rel_def fst_conv snd_conv child_simps relation_is lineage_row new_aggregate_figures simp_thms)
  show ?thesis
    unfolding agg_row_def row_of_position_def a ex(1,2,3) ex(4) [OF c] flags row_times [OF r ms(1)] event_count_rows sum_case_rows
    by (simp add: walked_sums walk_times ty la cr cu walked_rest(1) oid new_aggregate_more has_rel_def has_effect_def)
qed

lemma walk_instants:
  assumes ms: "object_mentions st oid ms" "ms \<noteq> []" and ep: "since_epoch st" and r: "readable P ts st"
  shows "aggregate_instants (walk_aggregate ms) \<subseteq> span ts st" "pa_parties (walk_aggregate ms) = None"
proof -
  obtain e0 ob0 ms' where ms': "ms = (e0, ob0) # ms'" using ms(2) by (cases ms) auto
  have mem: "e \<in> set st" if "(e, ob) \<in> set ms" for e ob using ms that by (auto simp: object_mentions_def)
  have e0: "e0 \<in> set st" by (rule mem [of e0 ob0]) (simp add: ms')
  have late: "max (ev_occurredAt e0) 0 = ev_occurredAt e0" using ep e0 by (simp add: since_epoch_def)
  have occurred: "set (map (ev_occurredAt \<circ> fst) ms') \<subseteq> span ts st" "ev_occurredAt e0 \<in> span ts st"
    and recorded: "set (map (ev_recordedAt \<circ> fst) ms') \<subseteq> span ts st" "ev_recordedAt e0 \<in> span ts st"
    using mem ms' by (fastforce simp: instants_of_def)+
  let ?a = "walked ms (new_aggregate e0 ob0)"
  have la: "pa_lastEventAt ?a = fold max (map (ev_occurredAt \<circ> fst) ms') (ev_occurredAt e0)"
    and cr: "pa_createdAt ?a = fold min (map (ev_recordedAt \<circ> fst) ms') (ev_recordedAt e0)"
    by (simp_all add: walked_rest ms' new_aggregate_more late)
  have times: "pa_originatedAt ?a = earliest (concat (map origin_times ms))" "pa_dueAt ?a = earliest (concat (map due_times ms))"
    by (simp_all add: walk_times new_aggregate_more)
  have "walk_aggregate ms = ?a\<lparr>pa_eventCount := int (length (fold (\<lambda>(e, ob). set_add (ev_id e)) ms []))\<rparr>"
    by (simp add: walk_aggregate_def ms')
  then show "aggregate_instants (walk_aggregate ms) \<subseteq> span ts st" "pa_parties (walk_aggregate ms) = None"
    using fold_max_member [OF occurred] fold_min_member [OF recorded]
      earliest_member [OF row_times(3) [OF r ms(1)]] earliest_member [OF row_times(4) [OF r ms(1)]]
    by (simp_all add: aggregate_instants_def la cr times walked_rest(3) new_aggregate_more)
qed

section \<open>The grouped table is the map of the walk\<close>

lemma sql_distinct_snoc: "sql_distinct (xs @ [x]) = set_add x (sql_distinct xs)"
  by (simp add: sql_distinct_def)

lemma sql_distinct_filter: "sql_distinct (filter p xs) = filter p (sql_distinct xs)"
proof (induction xs rule: rev_induct)
  case (snoc x xs)
  have "p x \<Longrightarrow> x \<in> set (filter p ys) \<longleftrightarrow> x \<in> set ys" for ys by simp
  with snoc show ?case by (simp add: sql_distinct_snoc set_add_def)
qed (simp add: sql_distinct_def)

lemma groups_filter: "groups key (filter (\<lambda>x. c (key x)) xs) = filter (\<lambda>(k, rows). c k) (groups key xs)"
proof -
  have keys: "map key (filter (\<lambda>x. c (key x)) xs) = filter c (map key xs)" by (simp add: filter_map comp_def)
  have rows: "filter (\<lambda>x. key x = k) (filter (\<lambda>x. c (key x)) xs) = filter (\<lambda>x. key x = k) xs" if "c k" for k
    using that by (auto intro!: filter_cong)
  have "map (\<lambda>k. (k, filter (\<lambda>x. key x = k) (filter (\<lambda>x. c (key x)) xs))) (filter c ks)
      = filter (\<lambda>(k, rows). c k) (map (\<lambda>k. (k, filter (\<lambda>x. key x = k) xs)) ks)" for ks
    by (induction ks) (simp_all add: rows del: filter_filter)
  then show ?thesis unfolding groups_def keys sql_distinct_filter .
qed

lemma ar_object_id_agg [simp]: "ar_object_id (agg_row oid rows) = oid"
  by (simp add: agg_row_def)

lemma aggs_candidates: "aggs_table c t = filter (\<lambda>r. c (ar_object_id r)) (aggs_table (\<lambda>_. True) t)"
proof -
  have "groups (om_objectId \<circ> snd) (filter (\<lambda>r. c (om_objectId (snd r))) (joined t))
      = filter (\<lambda>(k, rows). c k) (groups (om_objectId \<circ> snd) (joined t))"
    using groups_filter [of "om_objectId \<circ> snd" c "joined t"] by simp
  then show ?thesis by (simp add: aggs_table_def filter_map comp_def case_prod_beta')
qed

lemma touch_keys: "map fst (aggMap (touch e ob S)) = set_add (obj_id ob) (map fst (aggMap S))"
proof -
  have keys: "map fst (AList.update k v m) = set_add k (map fst m)" for k v and m :: "(string \<times> PositionAggregate) list"
    by (simp add: update_keys set_add_def)
  have twice: "set_add k (set_add k xs) = set_add k xs" for k :: string and xs by (simp add: set_add_def)
  have there: "map_of m k \<noteq> None \<Longrightarrow> set_add k (map fst m) = map fst m" for k and m :: "(string \<times> PositionAggregate) list"
    by (auto simp: set_add_def map_of_eq_None_iff)
  show ?thesis by (simp add: touch_def Let_def keys twice there)
qed

lemma walk_keys: "map fst (aggMap (fold (\<lambda>(e, ob). touch e ob) ms S)) = fold (\<lambda>(e, ob). set_add (obj_id ob)) ms (map fst (aggMap S))"
  by (induction ms arbitrary: S) (auto simp: touch_keys)

lemma build_keys: "map fst (buildAggregateMap st) = sql_distinct (map (obj_id \<circ> snd) (mentions_list (standing st)))"
proof -
  have "map fst (buildAggregateMap st) = map fst (aggMap (fold (\<lambda>(e, ob). touch e ob) (mentions_list (standing st))
      \<lparr>aggMap = [], eventIdsByObject = []\<rparr>))"
    by (simp add: buildAggregateMap_def Let_def build_flat standing_filter comp_def case_prod_beta')
  then show ?thesis
    unfolding walk_keys by (simp add: sql_distinct_def fold_map comp_def case_prod_beta')
qed

lemma build_walk:
  assumes "mentions_of oid (standing st) \<noteq> []"
  shows "map_of (buildAggregateMap st) oid = Some (walk_aggregate (mentions_of oid (standing st)))"
proof -
  obtain e ob ms where ms: "mentions_of oid (standing st) = (e, ob) # ms"
    using assms by (cases "mentions_of oid (standing st)") auto
  then have "aggregate_of oid (standing st) = Some (walked (mentions_of oid (standing st)) (new_aggregate e ob))"
    unfolding aggregate_of_def using walk_starts by simp
  then show ?thesis by (simp add: build_lookup walk_aggregate_def event_ids_of_def ms)
qed

lemma positions_listed:
  "map snd (buildAggregateMap st) = map (\<lambda>oid. walk_aggregate (mentions_of oid (standing st)))
     (sql_distinct (map (obj_id \<circ> snd) (mentions_list (standing st))))"
proof -
  have "map snd m = map (\<lambda>k. the (map_of m k)) (map fst m)" if "distinct (map fst m)" for m :: "(string \<times> PositionAggregate) list"
    using that by (auto simp: comp_def)
  from this [OF build_distinct] have "map snd (buildAggregateMap st)
      = map (\<lambda>k. the (map_of (buildAggregateMap st) k)) (sql_distinct (map (obj_id \<circ> snd) (mentions_list (standing st))))"
    by (simp only: build_keys)
  also have "\<dots> = map (\<lambda>oid. walk_aggregate (mentions_of oid (standing st)))
      (sql_distinct (map (obj_id \<circ> snd) (mentions_list (standing st))))"
  proof (rule map_cong [OF refl])
    fix k assume "k \<in> set (sql_distinct (map (obj_id \<circ> snd) (mentions_list (standing st))))"
    then have "mentions_of k (standing st) \<noteq> []"
      by (fastforce simp: mentions_of_def filter_empty_conv)
    then show "the (map_of (buildAggregateMap st) k) = walk_aggregate (mentions_of k (standing st))" by (simp add: build_walk)
  qed
  finally show ?thesis .
qed

lemma mentions_in_book: "object_mentions st oid (mentions_of oid (standing st))"
  using standing_subset [of st] by (auto simp: object_mentions_def set_mentions_of)

definition plain_book :: "platform \<Rightarrow> instant set \<Rightarrow> string \<Rightarrow> store \<Rightarrow> bool" where
  "plain_book P ts c st \<longleftrightarrow> sound_book st \<and> readable P ts st \<and> single_currency c st \<and> since_epoch st"

lemma aggs_rows:
  assumes "plain_book P ts c st"
  shows "aggs_table (\<lambda>_. True) (tables_of P st) = map (row_of_position P) (map snd (buildAggregateMap st))"
proof -
  have b: "sound_book st" "readable P ts st" "single_currency c st" "since_epoch st"
    using assms by (simp_all add: plain_book_def)
  let ?L = "mentions_list (standing st)"
  have j: "joined (tables_of P st) = rows_of P ?L" by (simp add: joined_rows [OF b(1)] rows_of_def)
  have keys: "map (om_objectId \<circ> snd) (rows_of P ?L) = map (obj_id \<circ> snd) ?L"
    by (simp add: rows_of_def comp_def case_prod_beta')
  have rows: "filter (\<lambda>r. (om_objectId \<circ> snd) r = k) (rows_of P ?L) = rows_of P (mentions_of k (standing st))" for k
    by (simp add: rows_of_def mentions_of_def filter_map comp_def case_prod_beta')
  have all: "filter (\<lambda>r. True) xs = xs" for xs :: "joined_row list" by simp
  have "aggs_table (\<lambda>_. True) (tables_of P st) = map (\<lambda>oid. agg_row oid (rows_of P (mentions_of oid (standing st))))
      (sql_distinct (map (obj_id \<circ> snd) ?L))"
    unfolding aggs_table_def j groups_def all keys map_map comp_def [of "\<lambda>(oid, rows). agg_row oid rows"] prod.case rows ..
  also have "\<dots> = map (\<lambda>oid. row_of_position P (walk_aggregate (mentions_of oid (standing st)))) (sql_distinct (map (obj_id \<circ> snd) ?L))"
  proof (rule map_cong [OF refl])
    fix k assume "k \<in> set (sql_distinct (map (obj_id \<circ> snd) ?L))"
    then have "mentions_of k (standing st) \<noteq> []" by (fastforce simp: mentions_of_def filter_empty_conv)
    then show "agg_row k (rows_of P (mentions_of k (standing st))) = row_of_position P (walk_aggregate (mentions_of k (standing st)))"
      by (rule group_row [OF b(2) mentions_in_book _ b(3,4)])
  qed
  finally show ?thesis by (simp add: positions_listed)
qed

lemma listed_instants:
  assumes "plain_book P ts c st" "a \<in> set (map snd (buildAggregateMap st))"
  shows "aggregate_instants a \<subseteq> span ts st" "pa_parties a = None"
proof -
  have b: "sound_book st" "readable P ts st" "single_currency c st" "since_epoch st"
    using assms by (simp_all add: plain_book_def)
  obtain k where k: "k \<in> set (sql_distinct (map (obj_id \<circ> snd) (mentions_list (standing st))))"
    and a: "a = walk_aggregate (mentions_of k (standing st))"
    using assms(2) unfolding positions_listed by auto
  from k have "mentions_of k (standing st) \<noteq> []" by (fastforce simp: mentions_of_def filter_empty_conv)
  from walk_instants [OF mentions_in_book this b(4,2)] show "aggregate_instants a \<subseteq> span ts st" "pa_parties a = None"
    by (simp_all add: a)
qed

lemma positions_back:
  assumes "plain_book P ts c st" "set xs \<subseteq> set (map snd (buildAggregateMap st))"
  shows "all_read (position_of_row P) (map (row_of_position P) xs) = Some xs"
proof (intro all_read_back ballI)
  fix a assume "a \<in> set xs"
  then have a: "a \<in> set (map snd (buildAggregateMap st))" using assms(2) by blast
  have "readable P ts st" using assms(1) by (simp add: plain_book_def)
  from position_back [OF this listed_instants [OF assms(1) a]]
  show "position_of_row P (row_of_position P a) = Some a" .
qed

section \<open>The same order\<close>

text \<open>The collation of the identifiers in the book is the order of their bytes, as SQLite compares them.\<close>

definition byte_collation :: "platform \<Rightarrow> store \<Rightarrow> bool" where
  "byte_collation P st \<longleftrightarrow> (\<forall>x\<in>set (findAllObjectIds st). \<forall>y\<in>set (findAllObjectIds st). locale_compare P x y \<le> 0 \<longleftrightarrow> x \<le> y)"

lemma listed_walk:
  assumes "a \<in> set (map snd (buildAggregateMap st))"
  obtains m ms where "mentions_of (pa_objectId a) (standing st) = m # ms"
    "a = walk_aggregate (mentions_of (pa_objectId a) (standing st))"
proof -
  obtain k where k: "k \<in> set (sql_distinct (map (obj_id \<circ> snd) (mentions_list (standing st))))"
    and a: "a = walk_aggregate (mentions_of k (standing st))"
    using assms unfolding positions_listed by auto
  from k have "mentions_of k (standing st) \<noteq> []" by (fastforce simp: mentions_of_def filter_empty_conv)
  then obtain e ob ms where ms: "mentions_of k (standing st) = (e, ob) # ms" by (cases "mentions_of k (standing st)") auto
  then have "(e, ob) \<in> set (mentions_of k (standing st))" by simp
  then have "obj_id ob = k" unfolding set_mentions_of by simp
  then have "pa_objectId a = k" by (simp add: a walk_aggregate_def walked_rest ms)
  with a ms show thesis by (intro that [of "(e, ob)" ms]) simp_all
qed

lemma listed_id:
  assumes "a \<in> set (map snd (buildAggregateMap st))"
  shows "pa_objectId a \<in> set (findAllObjectIds st)"
proof -
  obtain m ms where "mentions_of (pa_objectId a) (standing st) = m # ms" using listed_walk [OF assms] .
  then have "m \<in> set (mentions_of (pa_objectId a) (standing st))" by simp
  then show ?thesis
    unfolding set_mentions_of set_findAllObjectIds using standing_subset [of st] by (auto simp: mentions_def list_ex_Bex)
qed

lemma ids_compare: "compareIds x y DESC \<le> 0 \<longleftrightarrow> y \<le> x" "compareIds x y ASC \<le> 0 \<longleftrightarrow> x \<le> y"
  "compareIds x y d = 0 \<longleftrightarrow> x = y"
  by (auto simp: compareIds_def Let_def)

lemma time_text:
  assumes "readable P ts st" "s \<in> span ts st" "u \<in> span ts st" "tie \<le> 0 \<longleftrightarrow> tie' \<le> 0"
  shows "(let c = compareIds (iso_string P s) (iso_string P u) (if asc then ASC else DESC) in if c \<noteq> 0 then c else tie) \<le> 0
    \<longleftrightarrow> (let primary = (if asc then s - u else u - s) in if primary \<noteq> 0 then primary else tie') \<le> 0"
  using readable_less(2) [OF assms(1,2,3)] readable_less(2) [OF assms(1,3,2)] readable_less(3) [OF assms(1,2,3)] assms(4)
  by (simp add: ids_compare Let_def)

lemma order_rows:
  assumes p: "plain_book P ts c st" and coll: "byte_collation P st"
    and a: "a \<in> set (map snd (buildAggregateMap st))" and b: "b \<in> set (map snd (buildAggregateMap st))"
  shows "agg_compare sb so (row_of_position P a) (row_of_position P b) \<le> 0 \<longleftrightarrow> position_compare P sb so a b \<le> 0"
proof -
  have r: "readable P ts st" using p by (simp add: plain_book_def)
  have tie: "compareIds (pa_objectId a) (pa_objectId b) DESC \<le> 0 \<longleftrightarrow> locale_compare P (pa_objectId b) (pa_objectId a) \<le> 0"
    using coll listed_id [OF a] listed_id [OF b] by (simp add: ids_compare byte_collation_def)
  have in_span: "pa_createdAt x \<in> span ts st" "set_option (pa_dueAt x) \<subseteq> span ts st"
    if "x \<in> set (map snd (buildAggregateMap st))" for x
    using listed_instants(1) [OF p that] by (simp_all add: aggregate_instants_def)
  have created: "pa_createdAt a \<in> span ts st" "pa_createdAt b \<in> span ts st"
    and due: "set_option (pa_dueAt a) \<subseteq> span ts st" "set_option (pa_dueAt b) \<subseteq> span ts st"
    using in_span [OF a] in_span [OF b] by blast+
  have row: "ar_object_id (row_of_position P x) = pa_objectId x" "ar_created_at (row_of_position P x) = iso_string P (pa_createdAt x)"
    "ar_due_at (row_of_position P x) = map_option (iso_string P) (pa_dueAt x)" for x
    by (simp_all add: row_of_position_def)
  show ?thesis
  proof (cases "sb = Some by_dueAt")
    case False
    then show ?thesis
      using time_text [OF r created tie, of "so = Some ASC"]
      by (simp only: agg_compare_def position_compare_def Let_def row if_False)
  next
    case True
    show ?thesis
    proof (cases "pa_dueAt a")
      case None
      then show ?thesis
        using True tie by (cases "pa_dueAt b") (simp_all add: agg_compare_def position_compare_def Let_def row)
    next
      case (Some s)
      show ?thesis
      proof (cases "pa_dueAt b")
        case None
        with Some True show ?thesis by (simp add: agg_compare_def position_compare_def Let_def row)
      next
        case b': (Some u)
        have "s \<in> span ts st" "u \<in> span ts st" using due Some b' by simp_all
        from time_text [OF r this tie, of "so = Some ASC"] show ?thesis
          by (simp only: agg_compare_def position_compare_def Let_def row Some b' True option.case prod.case option.map if_P [OF refl])
      qed
    qed
  qed
qed

section \<open>The same selection\<close>

lemma listed_nonneg:
  assumes "sound_book st" "a \<in> set (map snd (buildAggregateMap st))"
  shows "nonneg_totals a"
proof -
  obtain m ms where ms: "mentions_of (pa_objectId a) (standing st) = m # ms"
    and a: "a = walk_aggregate (mentions_of (pa_objectId a) (standing st))"
    using listed_walk [OF assms(2)] .
  have units: "0 \<le> units (ev_amount e)" if "(e, ob) \<in> set (mentions_of oid (standing st))" for e ob oid
  proof -
    have "e \<in> set st" using that standing_subset [of st] by (auto simp: set_mentions_of)
    with assms(1) show ?thesis by (simp add: sound_book_def storable_def valid_event_def valid_money_def)
  qed
  have sums: "0 \<le> sum_list (map (\<lambda>(e, ob). if p e ob then units (ev_amount e) else 0) (mentions_of oid (standing st)))" for p oid
    by (rule sum_list_nonneg) (use units in fastforce)
  obtain e ob where "m = (e, ob)" by (cases m)
  with ms have "walk_aggregate (mentions_of (pa_objectId a) (standing st))
      = (walked (mentions_of (pa_objectId a) (standing st)) (new_aggregate e ob))
        \<lparr>pa_eventCount := int (length (fold (\<lambda>(e, ob). set_add (ev_id e)) (mentions_of (pa_objectId a) (standing st)) []))\<rparr>"
    by (simp add: walk_aggregate_def)
  then show ?thesis
    using sums [of "\<lambda>e ob. obj_relation ob = Relation.ORIGINATES"] sums [of "\<lambda>e ob. obj_relation ob = Relation.SETTLES"]
      sums [of "\<lambda>e ob. obj_relation ob = Relation.ADJUSTS"]
    by (subst a) (simp add: nonneg_totals_def walked_sums)
qed

lemma status_row: "nonneg_totals a \<Longrightarrow> statusToSql s (row_of_position P a) \<longleftrightarrow> derivePositionStatus a = s"
  by (cases s)
    (auto simp: row_of_position_def UNKNOWN_ORIGIN_SQL_def derivePositionStatus_def hasUnknownOrigination_def nonneg_totals_def Let_def)

lemma semi_join:
  assumes "sound_book st"
  shows "objectsWhere (tables_of P st) p oid \<longleftrightarrow> (\<exists>(e, ob)\<in>set (mentions_of oid (standing st)). p (toModel P e, object_model ob))"
  unfolding objectsWhere_def joined_rows [OF assms] list_ex_Bex set_mentions_of set_map set_mentions_list
  by (auto simp: image_iff)

text \<open>What a position shows of its mentions: some mention carries its type, some its time of entry.\<close>

lemma position_witnesses:
  assumes "a \<in> set (map snd (buildAggregateMap st))"
  shows "\<exists>(e, ob)\<in>set (mentions_of (pa_objectId a) (standing st)). obj_type ob = pa_objectType a"
    and "\<exists>(e, ob)\<in>set (mentions_of (pa_objectId a) (standing st)). ev_recordedAt e = pa_createdAt a"
proof -
  obtain m ms where ms: "mentions_of (pa_objectId a) (standing st) = m # ms"
    and a: "a = walk_aggregate (mentions_of (pa_objectId a) (standing st))"
    using listed_walk [OF assms] .
  obtain e ob where m: "m = (e, ob)" by (cases m)
  let ?ms = "mentions_of (pa_objectId a) (standing st)"
  have types: "fold max (map (obj_type \<circ> snd) ms) (obj_type ob) \<in> (obj_type \<circ> snd) ` set (m # ms)"
    by (rule fold_max_member) (auto simp: m)
  then have "pa_objectType (walk_aggregate ?ms) \<in> (obj_type \<circ> snd) ` set ?ms"
    unfolding ms by (simp add: walk_aggregate_def walked_rest m)
  then show "\<exists>(e, ob)\<in>set ?ms. obj_type ob = pa_objectType a" using a by force
  have "fold min (map (ev_recordedAt \<circ> fst) ms) (ev_recordedAt e) \<in> (ev_recordedAt \<circ> fst) ` set (m # ms)"
    by (rule fold_min_member) (auto simp: m)
  then have "pa_createdAt (walk_aggregate ?ms) \<in> (ev_recordedAt \<circ> fst) ` set ?ms"
    unfolding ms by (simp add: walk_aggregate_def walked_rest m)
  then show "\<exists>(e, ob)\<in>set ?ms. ev_recordedAt e = pa_createdAt a" using a by force
qed

lemma party_join:
  assumes "sound_book st"
  shows "objectsWhere (tables_of P st) (\<lambda>r. list_ex (\<lambda>p. pm_partyId p \<in> set wanted) (lm_parties (fst r))) oid
    \<longleftrightarrow> (\<exists>p\<in>set wanted. p \<in> set (partiesOfObject st oid))"
  unfolding semi_join [OF assms] set_partiesOfObject set_mentions_of
  by (fastforce simp: list_ex_Bex mentions_def)

definition period_instants :: "PositionAggregateOptions \<Rightarrow> instant set" where
  "period_instants opts = set_option (pq_from opts) \<union> set_option (pq_to opts)"

lemma selection_rows:
  assumes p: "plain_book P ts c st" and ts: "period_instants opts \<subseteq> ts" and oc: "pq_outcome opts = None"
    and a: "a \<in> set (map snd (buildAggregateMap st))"
  shows "candidateFilter P (tables_of P st) opts (pa_objectId a) \<and> whereClause P opts (row_of_position P a) \<longleftrightarrow> selected st opts a"
proof -
  have b: "sound_book st" and r: "readable P ts st" using p by (simp_all add: plain_book_def)
  obtain e1 ob1 where typed: "(e1, ob1) \<in> set (mentions_of (pa_objectId a) (standing st))" "obj_type ob1 = pa_objectType a"
    using position_witnesses(1) [OF a] by blast
  obtain e2 ob2 where entered: "(e2, ob2) \<in> set (mentions_of (pa_objectId a) (standing st))" "ev_recordedAt e2 = pa_createdAt a"
    using position_witnesses(2) [OF a] by blast
  have created: "pa_createdAt a \<in> span ts st" using listed_instants(1) [OF p a] by (simp add: aggregate_instants_def)
  have types: "objectType_value ty \<in> set (map objectType_value tys) \<longleftrightarrow> ty \<in> set tys" for ty tys
    by (auto simp: objectType.value_inject)
  have since: "iso_string P f \<le> iso_string P (pa_createdAt a) \<longleftrightarrow> f \<le> pa_createdAt a" if "pq_from opts = Some f" for f
    by (rule readable_less(2) [OF r _ created]) (use ts that in \<open>auto simp: period_instants_def\<close>)
  have until: "iso_string P (pa_createdAt a) \<le> iso_string P u \<longleftrightarrow> pa_createdAt a \<le> u" if "pq_to opts = Some u" for u
    by (rule readable_less(2) [OF r created]) (use ts that in \<open>auto simp: period_instants_def\<close>)
  have statuses: "list_ex (\<lambda>s. statusToSql s (row_of_position P a)) ss \<longleftrightarrow> derivePositionStatus a \<in> set ss" for ss
    by (auto simp: list_ex_Bex status_row [OF listed_nonneg [OF b a]])
  have join_type: "objectsWhere (tables_of P st) (\<lambda>r. om_objectType (snd r) \<in> set (map objectType_value tys)) (pa_objectId a)"
    if "pa_objectType a \<in> set tys" for tys
    using typed that unfolding semi_join [OF b] by (intro bexI [OF _ typed(1)]) auto
  have join_from: "objectsWhere (tables_of P st) (\<lambda>r. lm_recordedAt (fst r) \<ge> iso_string P f) (pa_objectId a)"
    if "iso_string P f \<le> iso_string P (pa_createdAt a)" for f
    using that unfolding semi_join [OF b] by (intro bexI [OF _ entered(1)]) (simp add: entered(2))
  have join_to: "objectsWhere (tables_of P st) (\<lambda>r. lm_recordedAt (fst r) \<le> iso_string P u) (pa_objectId a)"
    if "iso_string P (pa_createdAt a) \<le> iso_string P u" for u
    using that unfolding semi_join [OF b] by (intro bexI [OF _ entered(1)]) (simp add: entered(2))
  have row: "ar_object_type (row_of_position P a) = objectType_value (pa_objectType a)"
    "ar_created_at (row_of_position P a) = iso_string P (pa_createdAt a)"
    by (simp_all add: row_of_position_def)
  show ?thesis
    unfolding candidateFilter_def whereClause_def selected_def row oc types statuses party_join [OF b]
    using join_type join_from join_to since until
    by (cases "pq_from opts"; cases "pq_to opts") auto
qed

section \<open>The parties of a position\<close>

definition plain_parties :: "store \<Rightarrow> bool" where
  "plain_parties st \<longleftrightarrow> (\<forall>e\<in>set st. \<forall>q\<in>set (ev_parties e). party_id q \<noteq> [] \<and> CHR '','' \<notin> set (party_id q))"

lemma split_commas_word: "CHR '','' \<notin> set w \<Longrightarrow> split_commas w = [w]"
  by (induction w) auto

lemma split_commas_given: "split_commas s \<noteq> []"
  by (cases s) (simp_all split: list.splits)

lemma split_commas_append: "CHR '','' \<notin> set w \<Longrightarrow> split_commas (w @ CHR '','' # s) = w # split_commas s"
proof (induction w)
  case Nil
  then show ?case using split_commas_given [of s] by (cases "split_commas s") simp_all
next
  case (Cons c w)
  then have "split_commas (w @ CHR '','' # s) = w # split_commas s" "c \<noteq> CHR '',''" by auto
  then show ?case by simp
qed

lemma split_joined: "xs \<noteq> [] \<Longrightarrow> \<forall>w\<in>set xs. CHR '','' \<notin> set w \<Longrightarrow> split_commas (join '','' xs) = xs"
proof (induction xs rule: induct_list012)
  case (3 x y xs)
  then show ?case using split_commas_append [of x "join '','' (y # xs)"] by simp
qed (simp_all add: split_commas_word)

lemma join_given: "xs \<noteq> [] \<Longrightarrow> \<forall>w\<in>set xs. w \<noteq> [] \<Longrightarrow> join sep xs \<noteq> []"
  by (induction sep xs rule: join.induct) auto

lemma set_add_again: "set xs \<subseteq> set s \<Longrightarrow> fold set_add xs s = s"
  by (induction xs) (auto simp: set_add_def)

lemma fold_repeat: "fold set_add (concat (map (\<lambda>_. xs) ys)) s = (if ys = [] then s else fold set_add xs s)"
proof (induction ys arbitrary: s)
  case (Cons y ys)
  have "set xs \<subseteq> set (fold set_add xs s)" using fold_set_add [of "\<lambda>x. x" xs s] by simp
  then show ?case using Cons [of "fold set_add xs s"] by (simp add: set_add_again)
qed simp

lemma parties_added:
  "fold set_add (concat (map (\<lambda>(e, ob). map party_id (ev_parties e)) (mentions_of oid evs))) s
    = fold (\<lambda>e s. if \<not> mentions oid e then s else fold (\<lambda>q s. set_add (party_id q) s) (ev_parties e) s) evs s"
proof (induction evs arbitrary: s)
  case (Cons e evs)
  let ?own = "filter (\<lambda>(ev, ob). obj_id ob = oid) (map (Pair e) (ev_objects e))"
  have "map (\<lambda>(e, ob). map party_id (ev_parties e)) ?own = map (\<lambda>_. map party_id (ev_parties e)) ?own"
    by (intro map_cong refl) auto
  then have same: "map (\<lambda>(e, ob). map party_id (ev_parties e)) ?own = map (\<lambda>_. map party_id (ev_parties e)) ?own" .
  have none: "?own = [] \<longleftrightarrow> \<not> mentions oid e" by (auto simp: filter_empty_conv mentions_def list_ex_Bex)
  have adds: "fold (\<lambda>q s. set_add (party_id q) s) (ev_parties e) s = fold set_add (map party_id (ev_parties e)) s"
    by (simp add: fold_map comp_def)
  have "fold set_add (concat (map (\<lambda>(e, ob). map party_id (ev_parties e)) (mentions_of oid (e # evs)))) s
      = fold set_add (concat (map (\<lambda>(e, ob). map party_id (ev_parties e)) (mentions_of oid evs)))
          (if \<not> mentions oid e then s else fold set_add (map party_id (ev_parties e)) s)"
    unfolding mentions_of_Cons map_append concat_append fold_append same fold_repeat none comp_def ..
  then show ?case unfolding Cons.IH adds [symmetric] fold_simps .
qed simp

lemma memory_parties:
  "partiesOfObject st oid = sql_distinct (concat (map (\<lambda>(e, ob). map party_id (ev_parties e)) (mentions_of oid (standing st))))"
proof -
  have one: "filter (\<lambda>e. ev_id e \<notin> set (retractedEventIds st) \<and> p e) st = filter p (standing st)" for p
    by (simp add: standing_def stands_def [abs_def] conj_commute)
  have "partiesOfObject st oid
      = fold (\<lambda>e s. if \<not> mentions oid e then s else fold (\<lambda>q s. set_add (party_id q) s) (ev_parties e) s) (standing st) []"
    by (simp add: partiesOfObject_def Let_def fold_skip one mentions_def)
  then show ?thesis by (simp only: parties_added sql_distinct_def)
qed

lemma parties_rows:
  assumes "sound_book st" "plain_parties st"
  shows "partiesOfObjects (tables_of P st) oid = partiesOfObject st oid"
proof -
  have rows: "filter (\<lambda>r. om_objectId (snd r) = oid) (joined (tables_of P st)) = rows_of P (mentions_of oid (standing st))"
    by (simp add: joined_rows [OF assms(1)] rows_of_def mentions_of_def filter_map comp_def case_prod_beta')
  have "map (\<lambda>r. map pm_partyId (lm_parties (fst r))) (rows_of P ms) = map (\<lambda>(e, ob). map party_id (ev_parties e)) ms" for ms
    by (simp add: rows_of_def comp_def case_prod_beta')
  then have named: "sql_distinct (concat (map (\<lambda>r. map pm_partyId (lm_parties (fst r)))
      (filter (\<lambda>r. om_objectId (snd r) = oid) (joined (tables_of P st))))) = partiesOfObject st oid"
    by (simp only: rows memory_parties)
  have plain: "p \<noteq> [] \<and> CHR '','' \<notin> set p" if "p \<in> set (partiesOfObject st oid)" for p
  proof -
    from that obtain e q where "e \<in> set (standing st)" "q \<in> set (ev_parties e)" "p = party_id q"
      unfolding set_partiesOfObject by blast
    then show ?thesis using assms(2) standing_subset [of st] by (auto simp: plain_parties_def)
  qed
  show ?thesis
    unfolding partiesOfObjects_def Let_def named
    using split_joined [of "partiesOfObject st oid"] join_given [of "partiesOfObject st oid" "'',''"] plain
    by (auto simp: truthy_def)
qed

section \<open>The same page\<close>

lemma positions_sql:
  assumes p: "plain_book P ts c st" and ts: "period_instants opts \<subseteq> ts" and oc: "pq_outcome opts = None"
    and total: "comparator (locale_compare P)" and coll: "byte_collation P st" and parties: "plain_parties st"
  shows "sql_findPositionAggregates P (tables_of P st) opts = Some (findPositionAggregates P st opts)"
proof -
  have b: "sound_book st" using p by (simp add: plain_book_def)
  let ?L = "map snd (buildAggregateMap st)"
  let ?cmp = "position_compare P (pq_sortBy opts) (pq_sortOrder opts)"
  define page where "page = max 1 (case pq_page opts of None \<Rightarrow> 1 | Some p \<Rightarrow> p)"
  define limit where "limit = min (max 1 (case pq_limit opts of None \<Rightarrow> 50 | Some l \<Rightarrow> l)) 200"
  have range: "1 \<le> page" "1 \<le> limit" by (simp_all add: page_def limit_def)
  let ?S = "filter (selected st opts) ?L"
  have rows: "filter (whereClause P opts) (aggs_table (candidateFilter P (tables_of P st) opts) (tables_of P st)) = map (row_of_position P) ?S"
  proof -
    have id: "ar_object_id (row_of_position P a) = pa_objectId a" for a by (simp add: row_of_position_def)
    have "filter (\<lambda>a. whereClause P opts (row_of_position P a) \<and> candidateFilter P (tables_of P st) opts (pa_objectId a)) ?L = ?S"
    proof (rule filter_cong [OF refl])
      fix a assume "a \<in> set ?L"
      from selection_rows [OF p ts oc this]
      show "(whereClause P opts (row_of_position P a) \<and> candidateFilter P (tables_of P st) opts (pa_objectId a)) = selected st opts a"
        by blast
    qed
    then show ?thesis
      unfolding aggs_candidates [of "candidateFilter P (tables_of P st) opts"] aggs_rows [OF p] filter_map comp_def id filter_filter
      by (simp only: conj_commute)
  qed
  have order: "sort_by (agg_compare (pq_sortBy opts) (pq_sortOrder opts)) (map (row_of_position P) ?S)
      = map (row_of_position P) (sort_by ?cmp ?S)"
    by (rule sort_by_map) (use order_rows [OF p coll] in auto)
  have all: "sorted_positions P st opts = sort_by ?cmp ?S"
    unfolding sorted_positions_def by (rule comparator.filter_sort [OF position_comparator [OF total]])
  have rows_page: "limited ((page - 1) * limit) limit (map (row_of_position P) (sort_by ?cmp ?S))
      = map (row_of_position P) (slice ((page - 1) * limit) (page * limit) (sort_by ?cmp ?S))"
    using range limited_slice [of "(page - 1) * limit" limit "sort_by ?cmp ?S"]
    by (simp add: limited_def take_map drop_map algebra_simps)
  let ?P = "slice ((page - 1) * limit) (page * limit) (sort_by ?cmp ?S)"
  have "set ?P \<subseteq> set (sort_by ?cmp ?S)"
    using range limited_slice [of "(page - 1) * limit" limit "sort_by ?cmp ?S"]
      limited_subset [of "(page - 1) * limit" limit "sort_by ?cmp ?S"] by (simp add: algebra_simps)
  then have "set ?P \<subseteq> set ?L" by auto
  then have given: "all_read (position_of_row P) (map (row_of_position P) ?P) = Some ?P" by (rule positions_back [OF p])
  have n: "(if map (row_of_position P) ?P \<noteq> [] then int (length (map (row_of_position P) ?S))
      else if page = 1 then 0 else int (length (map (row_of_position P) ?S))) = int (length (sort_by ?cmp ?S))"
  proof (cases "page = 1 \<and> ?P = []")
    case True
    then have one: "page = 1" and "?P = []" by blast+
    then have "slice 0 limit (sort_by ?cmp ?S) = []" by simp
    then have "take (nat limit) (sort_by ?cmp ?S) = []" using range by simp
    then have "sort_by ?cmp ?S = []" using range by simp
    then show ?thesis by (metis True length_0_conv length_sort_by list.map_disc_iff of_nat_0)
  qed auto
  have sql: "sql_findPositionAggregates P (tables_of P st) opts
      = Some \<lparr>pg_data = map (\<lambda>a. a\<lparr>pa_parties := Some (partiesOfObject st (pa_objectId a))\<rparr>) ?P,
          pg_total = int (length (sort_by ?cmp ?S)), pg_page = page, pg_limit = limit,
          pg_totalPages = page_count (int (length (sort_by ?cmp ?S))) limit\<rparr>"
    unfolding sql_findPositionAggregates_def Let_def page_def [symmetric] limit_def [symmetric] rows order rows_page n given
      parties_rows [OF b parties] by simp
  show ?thesis
    unfolding sql positions_page Let_def page_def [symmetric] page_limit_def limit_def [symmetric] all
    by (simp add: with_parties_def)
qed

section \<open>Reachable books\<close>

lemma stored_sound: "reachable P st \<Longrightarrow> digests P \<Longrightarrow> sound_book st"
  using reachable_storable reachable_one_retraction distinct_ids [OF reachable_each_after]
  by (simp add: sound_book_def)

lemma readable_mono: "readable P ts st \<Longrightarrow> ts' \<subseteq> ts \<Longrightarrow> readable P ts' st"
  unfolding readable_def ordered_iso_def by blast

lemma found_row:
  assumes "distinct (map ev_id st)" "ev \<in> set st"
  shows "sql_getById P (tables_of P st) (ev_id ev) = toEntity P (toModel P ev)"
proof -
  have "find p (map f xs) = map_option f (find (\<lambda>x. p (f x)) xs)" for p and f :: "LedgerEvent \<Rightarrow> LedgerEventModel" and xs
    by (induction xs) auto
  then have "find (\<lambda>r. lm_id r = ev_id ev) (tables_of P st) = map_option (toModel P) (find (\<lambda>e. ev_id e = ev_id ev) st)"
    by simp
  also have "find (\<lambda>e. ev_id e = ev_id ev) st = Some ev"
    using memory.getById_member [of st "ev_id ev" ev] assms by (simp add: getById_def findAll_def)
  finally show ?thesis by (simp add: sql_getById_def)
qed

lemma event_back:
  assumes "storable ev" "ordered_iso P (instants_of ev)"
  shows "toEntity P (toModel P ev) = Some (ev\<lparr>ev_reason := (if told_reason ev then ev_reason ev else None)\<rparr>)"
proof (cases "told_reason ev")
  case True
  with entity_back [OF assms] reason_back [OF True, of P] show ?thesis by simp
next
  case False
  then obtain r where "ev_reason ev = Some r" "rsn_description r = []" by (auto simp: told_reason_def)
  with entity_back [OF assms] untold_reason [of ev r P] False show ?thesis by simp
qed

text \<open>
  The filter by outcome of the statement and the outcome the listing publishes: they agree on settled
  positions of which cash was recovered; of a position settled without any cash recovered and without any
  part closed otherwise (an obligation paid) the filter for a full loss takes what is published as a gain.
\<close>

lemma outcome_row:
  assumes "nonneg_totals a" "derivePositionStatus a = fully_settled" "0 \<le> pa_cashRecoveredUnits a" "0 \<le> pa_nonCashClosedUnits a"
  shows "outcomeToSql oc (row_of_position P a) \<longleftrightarrow> deriveOutcomeFromAggregate (derivePositionStatus a) a = oc
    \<or> oc = full_loss \<and> pa_cashRecoveredUnits a = 0 \<and> pa_nonCashClosedUnits a = 0"
  using assms
  by (cases oc) (auto simp: row_of_position_def deriveOutcomeFromAggregate_def derivePositionStatus_def nonneg_totals_def Let_def
      split: if_splits)

section \<open>The other reads and the write\<close>

lemma save_sql:
  assumes "save st ev = Inr st'" "\<forall>x\<in>set st. ev_hash x \<noteq> ev_hash ev"
    and "\<forall>x\<in>set st. ev_commandId ev \<noteq> None \<longrightarrow> ev_commandId x \<noteq> ev_commandId ev"
  shows "sql_insert (tables_of P st) (toModel P ev) = Some (tables_of P st')"
  using assms by (auto simp: sql_insert_def save_def list_ex_Bex split: if_splits)

lemma all_positions_sql:
  assumes p: "plain_book P ts c st"
  shows "sql_findAllPositionAggregates P (tables_of P st) = Some (findAllPositionAggregates st)"
proof -
  let ?L = "map snd (buildAggregateMap st)"
  have r: "readable P ts st" using p by (simp add: plain_book_def)
  have last: "pa_lastEventAt a \<in> span ts st" if "a \<in> set ?L" for a
    using listed_instants(1) [OF p that] by (simp add: aggregate_instants_def)
  have "sort_by (\<lambda>a b. compareIds (ar_last_event_at a) (ar_last_event_at b) DESC) (map (row_of_position P) ?L)
      = map (row_of_position P) (sort_by recency ?L)"
  proof (rule sort_by_map)
    fix a b assume "a \<in> set ?L" "b \<in> set ?L"
    from readable_less(2) [OF r last [OF this(2)] last [OF this(1)]]
    show "compareIds (ar_last_event_at (row_of_position P a)) (ar_last_event_at (row_of_position P b)) DESC \<le> 0
        \<longleftrightarrow> recency a b \<le> 0"
      by (simp add: ids_compare row_of_position_def recency_def)
  qed
  then show ?thesis
    unfolding sql_findAllPositionAggregates_def aggs_rows [OF p] findAllPositionAggregates_def
    using positions_back [OF p, of "sort_by recency ?L"] by simp
qed

text \<open>The open balance of a type, as both stores report it.\<close>

lemma open_balances_sql:
  assumes p: "plain_book P ts c st"
  shows "(case map_of (sql_aggregateOpenBalancesByObjectType (tables_of P st)) (objectType_value ty) of None \<Rightarrow> 0 | Some (b, d) \<Rightarrow> b)
    = (case map_of (fold open_step (map snd (buildAggregateMap st)) []) ty of None \<Rightarrow> 0 | Some (b, d) \<Rightarrow> b)"
proof -
  let ?L = "map snd (buildAggregateMap st)"
  have "one_currency_book c st"
    using p by (simp add: plain_book_def sound_book_def storable_def valid_event_def single_currency_def one_currency_book_def)
  then have valid: "valid_aggregate a" "pa_currency a = c" if "a \<in> set ?L" for a
    using book_aggregates [OF _ that] by simp_all
  define op where "op a \<longleftrightarrow> \<not> pa_hasReversal a \<and> pa_totalOriginatedUnits a > 0 \<and>
      pa_totalSettledUnits a + pa_totalAdjustedUnits a < pa_totalOriginatedUnits a" for a :: PositionAggregate
  define left where "left a = pa_totalOriginatedUnits a - pa_totalSettledUnits a - pa_totalAdjustedUnits a" for a :: PositionAggregate
  have rows: "filter (\<lambda>r. ar_has_reversal r = 0 \<and> ar_total_originated r > 0 \<and>
      ar_total_settled r + ar_total_adjusted r < ar_total_originated r) (map (row_of_position P) xs)
      = map (row_of_position P) (filter op xs)" for xs
    by (auto simp: filter_map comp_def row_of_position_def op_def intro!: arg_cong [where f = "map (row_of_position P)"] filter_cong)
  have typed: "filter (\<lambda>r. ar_object_type r = objectType_value ty) (map (row_of_position P) xs)
      = map (row_of_position P) (filter (\<lambda>a. pa_objectType a = ty) xs)" for xs
    by (simp add: filter_map comp_def row_of_position_def objectType.value_inject)
  have sum: "sum_list (map (\<lambda>r. ar_total_originated r - ar_total_settled r - ar_total_adjusted r) (map (row_of_position P) xs))
      = sum_list (map left xs)" for xs
    by (induction xs) (simp_all add: row_of_position_def left_def)
  have balance: "sum_list (map left (filter (\<lambda>a. pa_objectType a = ty) (filter op xs))) = balance_where (of_type ty) c xs"
    if "\<forall>a\<in>set xs. valid_aggregate a \<and> pa_currency a = c" for xs
    using that
    by (induction xs)
      (auto simp: balance_where_def of_type_def counted_balance_def openBalanceUnitsOf_def hasUnknownOrigination_def op_def left_def
        valid_aggregate_def Let_def)
  have "(case map_of (sql_aggregateOpenBalancesByObjectType (tables_of P st)) (objectType_value ty) of None \<Rightarrow> 0 | Some (b, d) \<Rightarrow> b)
      = sum_list (map left (filter (\<lambda>a. pa_objectType a = ty) (filter op ?L)))"
    unfolding sql_aggregateOpenBalancesByObjectType_def aggs_rows [OF p] rows map_of_map_groups typed
    by (auto simp: sum simp del: filter_filter map_map)
  also have "\<dots> = balance_where (of_type ty) c ?L" using valid by (intro balance) blast
  also have "\<dots> = (case map_of (fold open_step ?L []) ty of None \<Rightarrow> 0 | Some (b, d) \<Rightarrow> b)"
    using open_rows [of ?L c "[]"] valid by simp
  finally show ?thesis .
qed

lemma exists_source_sql: "sql_existsBySourceReference (tables_of P st) r = existsBySourceReference st r"
  by (simp add: sql_existsBySourceReference_def existsBySourceReference_def list_ex_Bex)

lemma object_ids_sql: "set (sql_findAllObjectIds (tables_of P st)) = set (findAllObjectIds st)"
  by (auto simp: sql_findAllObjectIds_def set_findAllObjectIds mentions_def list_ex_Bex image_iff)

text \<open>With a clock that only goes forward the rows come in the order they were written.\<close>

definition forward_clock :: "store \<Rightarrow> bool" where
  "forward_clock st \<longleftrightarrow> sorted_wrt (\<lambda>a b. ev_recordedAt a < ev_recordedAt b) st"

lemma sort_by_sorted: "sorted_wrt (\<lambda>a b. cmp a b \<le> 0) xs \<Longrightarrow> sort_by cmp xs = xs"
proof (induction xs)
  case (Cons x xs)
  then have "sort_by cmp (x # xs) = insort_by cmp x xs" by (simp add: sort_by_def)
  with Cons.prems show ?case by (cases xs) simp_all
qed (simp add: sort_by_def)

lemma clock_text:
  assumes "readable P ts st" "a \<in> set st" "b \<in> set st"
  shows "iso_string P (ev_recordedAt a) < iso_string P (ev_recordedAt b) \<longleftrightarrow> ev_recordedAt a < ev_recordedAt b"
  by (rule readable_less(1) [OF assms(1)]) (use assms(2,3) in \<open>auto simp: instants_of_def\<close>)

lemma recorded_order:
  assumes "readable P ts st" "forward_clock st" "set xs \<subseteq> set st" "sorted_wrt (\<lambda>a b. ev_recordedAt a < ev_recordedAt b) xs"
  shows "sort_by (time_compare lm_recordedAt ASC) (tables_of P xs) = tables_of P xs"
proof (rule sort_by_sorted)
  have "time_compare lm_recordedAt ASC (toModel P a) (toModel P b) \<le> 0"
    if "a \<in> set xs" "b \<in> set xs" "ev_recordedAt a < ev_recordedAt b" for a b
    using clock_text [OF assms(1) subsetD [OF assms(3) that(1)] subsetD [OF assms(3) that(2)]] that(3)
    by (simp add: time_compare_def ids_compare less_imp_le)
  then show "sorted_wrt (\<lambda>a b. time_compare lm_recordedAt ASC a b \<le> 0) (tables_of P xs)"
    using assms(4) by (auto simp: sorted_wrt_map elim!: sorted_wrt_mono_rel [rotated])
qed

lemma filtered_in_order:
  assumes "readable P ts st" "forward_clock st" "sound_book st" "told_book st"
  shows "hydrate P (sort_by (time_compare lm_recordedAt ASC) (tables_of P (filter p st))) = Some (filter p st)"
proof -
  have "sorted_wrt (\<lambda>a b. ev_recordedAt a < ev_recordedAt b) (filter p st)"
    using assms(2) by (simp add: forward_clock_def sorted_wrt_filter)
  with recorded_order [OF assms(1,2)] have "sort_by (time_compare lm_recordedAt ASC) (tables_of P (filter p st)) = tables_of P (filter p st)"
    by simp
  with hydrate_rows [OF assms(3,1) _ assms(4)] show ?thesis by simp
qed

lemma finds_sql:
  assumes "readable P ts st" "forward_clock st" "sound_book st" "told_book st"
  shows "sql_findByObjectId P (tables_of P st) oid = Some (findByObjectId st oid)"
    and "sql_findByRelatedEventId P (tables_of P st) i = Some (findByRelatedEventId st i)"
    and "sql_findByPartyId P (tables_of P st) p = Some (findByPartyId st p)"
    and "sql_findAll P (tables_of P st) = Some (findAll st)"
  using filtered_in_order [OF assms] hydrate_rows [OF assms(3,1) subset_refl assms(4)]
  by (simp_all add: sql_findByObjectId_def sql_findByRelatedEventId_def sql_findByPartyId_def sql_findAll_def filter_tables
      list.pred_set list_ex_Bex findByObjectId_def findByRelatedEventId_def findByPartyId_def findAll_def mentions_def [abs_def])

lemma greatest_first:
  "(\<And>r. r \<in> set rs \<Longrightarrow> cmp m r \<le> 0) \<Longrightarrow> (\<And>r. r \<in> set rs \<Longrightarrow> \<not> cmp r m \<le> 0) \<Longrightarrow> sort_by cmp (rs @ [m]) = m # sort_by cmp rs"
  by (induction rs) (simp_all add: sort_by_def)

lemma last_row:
  assumes "readable P ts (st @ [e])" "forward_clock (st @ [e])"
  shows "sql_getLastEventHash (tables_of P (st @ [e])) = getLastEventHash (st @ [e])"
proof -
  let ?c = "time_compare lm_recordedAt DESC"
  have less: "iso_string P (ev_recordedAt x) < iso_string P (ev_recordedAt e)" if "x \<in> set st" for x
    using that assms(2) clock_text [OF assms(1), of x e] by (auto simp: forward_clock_def sorted_wrt_append)
  have "?c (toModel P e) r \<le> 0" "\<not> ?c r (toModel P e) \<le> 0" if "r \<in> set (tables_of P st)" for r
    using that less by (auto simp: time_compare_def ids_compare not_le less_imp_le)
  then have "sort_by ?c (tables_of P st @ [toModel P e]) = toModel P e # sort_by ?c (tables_of P st)"
    by (rule greatest_first)
  then show ?thesis by (simp add: sql_getLastEventHash_def getLastEventHash_def)
qed

end
