(* ===== verification/Sample_Sql.thy ===== *)
theory Sample_Sql
  imports Sample_Book Sql_Aggregates
begin

text \<open>
  The small book on a platform that also reads back what it writes: the tables of \<open>Sql_Store\<close> it fills.
\<close>

definition stored_platform :: platform where
  "stored_platform = sample_platform\<lparr>date_parse :=
     (\<lambda>s. if s = bigint_string 1000 then Some 1000 else if s = bigint_string 2000 then Some 2000 else None)\<rparr>"

lemma stored_events:
  "recognized = event_of stored_platform 2000 (sample_props (sample_env ''e1'') recognize_cmd 100000 None [supplier_party])"
  "paid = event_of stored_platform 2000
     (sample_props (sample_env ''e2'') (pay_cmd ''400.00'' ''k2'' [(''ob-1'', Relation.SETTLES)]) 40000
       (Some (ev_hash recognized)) [payer_party 40000, supplier_party])"
proof -
  have "event_of (P\<lparr>date_parse := r\<rparr>) now p = event_of P now p" for P r now p
    by (simp add: event_of_def generateCanonical_def)
  then show "recognized = event_of stored_platform 2000 (sample_props (sample_env ''e1'') recognize_cmd 100000 None [supplier_party])"
    "paid = event_of stored_platform 2000
     (sample_props (sample_env ''e2'') (pay_cmd ''400.00'' ''k2'' [(''ob-1'', Relation.SETTLES)]) 40000
       (Some (ev_hash recognized)) [payer_party 40000, supplier_party])"
    by (simp_all only: stored_platform_def recognized_def paid_def)
qed

definition stored_book :: store where
  "stored_book = [recognized, paid]"

lemma stored_reachable: "reachable stored_platform stored_book"
proof -
  have "execute stored_platform (sample_env ''e1'') [] recognize_cmd =
     Inr (recognized, [recognized], [audit_created stored_platform recognize_cmd recognized])"
    using execute_recordsI [OF _ sample_accepts(1) stored_events(1) [folded sample_env_fields(2) [of "''e1''"]]]
    by (simp add: known_command_None)
  from reachable.record_event [OF reachable.empty this] have r1: "reachable stored_platform [recognized]" .
  have "execute stored_platform (sample_env ''e2'') [recognized]
     (pay_cmd ''400.00'' ''k2'' [(''ob-1'', Relation.SETTLES)]) =
     Inr (paid, [recognized, paid],
       [audit_created stored_platform (pay_cmd ''400.00'' ''k2'' [(''ob-1'', Relation.SETTLES)]) paid])"
    using execute_recordsI [OF _ sample_accepts(2) stored_events(2) [folded sample_env_fields(2) [of "''e2''"]]]
    by (simp add: known_command_None sample_cmd_fields sample_fields)
  from reachable.record_event [OF r1 this] show ?thesis by (simp add: stored_book_def)
qed

lemma stored_instants: "instants_of recognized = {1000, 2000}" "instants_of paid = {1000, 2000}"
  by (auto simp: instants_of_def recognized_def paid_def event_of_def sample_props_def make_props_def make_reporter_def sample_cmd_defs)

lemma stored_order: "ordered_iso stored_platform {1000, 2000}"
proof -
  have "bigint_string 1000 = ''1000''" "bigint_string 2000 = ''2000''" by code_simp+
  then show ?thesis by (simp add: ordered_iso_def stored_platform_def sample_platform_def)
qed

lemma stored_readable: "ts \<subseteq> {1000, 2000} \<Longrightarrow> readable stored_platform ts stored_book"
proof -
  assume "ts \<subseteq> {1000, 2000}"
  then have "span ts stored_book = {1000, 2000}" by (auto simp: stored_book_def stored_instants)
  with stored_order show ?thesis by (simp add: readable_def)
qed

lemma stored_book_facts:
  "digests stored_platform" "told_book stored_book" "single_currency ''BRL'' stored_book" "since_epoch stored_book"
  "plain_parties stored_book" "comparator (locale_compare stored_platform)" "byte_collation stored_platform stored_book"
proof -
  show "digests stored_platform" by (simp add: digests_def stored_platform_def sample_platform_def)
  show "told_book stored_book"
    by (simp add: told_book_def told_reason_def stored_book_def recognized_def paid_def sample_props_def make_props_def sample_cmd_defs)
  show "single_currency ''BRL'' stored_book" by (simp add: single_currency_def stored_book_def sample_fields)
  show "since_epoch stored_book"
    by (simp add: since_epoch_def stored_book_def recognized_def paid_def sample_props_def make_props_def sample_cmd_defs)
  show "plain_parties stored_book"
    by (simp add: plain_parties_def stored_book_def recognized_def paid_def sample_props_def make_props_def sample_party_defs)
  show "comparator (locale_compare stored_platform)"
    by unfold_locales (auto simp: stored_platform_def sample_platform_def split: if_splits)
  show "byte_collation stored_platform stored_book"
    by (auto simp: byte_collation_def stored_platform_def sample_platform_def)
qed

text \<open>A question with every filter, and a question to the statement.\<close>

definition stored_question :: PositionAggregateOptions where
  "stored_question =
     \<lparr>pq_page = Some 1, pq_limit = Some 10, pq_status = Many [open_position, partially_settled], pq_outcome = None,
      pq_objectType = One ObjectType.PAYABLE, pq_partyId = One ''usina'', pq_from = Some 1000, pq_to = Some 2000,
      pq_sortBy = Some by_dueAt, pq_sortOrder = Some ASC\<rparr>"

definition stored_movements :: MovementQuery where
  "stored_movements =
     \<lparr>mq_partyId = Some ''usina'', mq_effect = None, mq_from = Some 1000, mq_to = Some 2000, mq_limit = 5, mq_cursor = None,
      mq_page = None, mq_sortBy = None, mq_sortOrder = None\<rparr>"

end
