(* ===== verification/Sample_Staging.thy ===== *)
theory Sample_Staging
  imports Staging_Posting Sample_Book
begin

text \<open>
  A receipt of 400.00 whose origin nobody recorded: a staged record that validates, is posted to an
  empty ledger as an orphan and, delivered again, is refused. The platform reads every date.
\<close>

definition reading_platform :: platform where
  "reading_platform = sample_platform\<lparr>date_parse := (\<lambda>_. Some 1000)\<rparr>"

definition receipt_record :: StagingRecord where
  "receipt_record =
     \<lparr>sr_id = ''s1'', sr_status = pending_record, sr_eventType = Some ''commission_received'',
      sr_economicEffect = Some ''cash_in'', sr_occurredAt = Some ''2026-01-02'', sr_sourceAt = None,
      sr_dueAt = None, sr_amount = Some ''400.00'', sr_currency = Some ''BRL'', sr_description = None,
      sr_sourceSystem = Some ''normalizer'', sr_sourceReference = Some ''r1'',
      sr_normalizationVersion = Some ''1'', sr_normalizationWorkerId = Some ''w'',
      sr_relatedEventId = None,
      sr_parties = Some [\<lparr>sp_partyId = Some ''usina'', sp_role = Some ''payee'', sp_direction = Some ''in'',
        sp_amount = Some ''400.00''\<rparr>],
      sr_objects = Some [\<lparr>so_objectId = Some ''cr-1'', so_objectType = Some ''commission_receivable'',
        so_relation = Some ''settles''\<rparr>],
      sr_reason = None,
      sr_reporter = Some \<lparr>sq_reporterType = Some ''system'', sq_reporterId = Some ''sys'',
        sq_reporterName = None, sq_channel = Some ''api''\<rparr>\<rparr>"

definition receipt_command :: CreateLedgerEventCommand where
  "receipt_command =
     \<lparr>cmd_eventType = EventType.COMMISSION_RECEIVED, cmd_economicEffect = EconomicEffect.CASH_IN,
      cmd_occurredAt = Some 1000, cmd_sourceAt = None,
      cmd_dueAt = None, cmd_amount = ''400.00'', cmd_currency = ''BRL'', cmd_description = None,
      cmd_sourceSystem = ''normalizer'', cmd_sourceReference = ''r1'', cmd_normalizationVersion = ''1'',
      cmd_normalizationWorkerId = ''w'', cmd_commandId = None, cmd_relatedEventId = None,
      cmd_parties = [\<lparr>pi_partyId = ''usina'', pi_role = PartyRole.PAYEE, pi_direction = Direction.IN,
        pi_amount = Some ''400.00''\<rparr>],
      cmd_objects = [\<lparr>obj_id = ''cr-1'', obj_type = ObjectType.COMMISSION_RECEIVABLE,
        obj_relation = Relation.SETTLES\<rparr>],
      cmd_reason = None,
      cmd_reporter = \<lparr>ri_reporterType = ReporterType.SYSTEM, ri_reporterId = ''sys'',
        ri_reporterName = None, ri_channel = ''api''\<rparr>\<rparr>"

definition handling :: "string \<Rightarrow> handle_env" where
  "handling i = \<lparr>he_call = sample_env i, he_rejectId = i, he_rejectedAt = 3000\<rparr>"

definition start :: posting_state where
  "start = \<lparr>ps_ledger = [], ps_staging = [receipt_record], ps_rejected = [], ps_audit = []\<rparr>"

lemma receipt_validates: "validateRecord DEFAULT_SOURCE_SYSTEMS [] receipt_record = []"
  by code_simp

lemma receipt_reads: "toCreateCommand reading_platform receipt_record = Some receipt_command"
  by code_simp

definition orphan_command :: CreateLedgerEventCommand where
  "orphan_command = final_command receipt_command None"

definition receipt_props :: CreateLedgerEventProps where
  "receipt_props = make_props (sample_env ''e1'') orphan_command ''e1'' \<lparr>units = 40000, currency = ''BRL''\<rparr>
     \<lparr>src_system = ''normalizer'', src_reference = ''r1''\<rparr> \<lparr>norm_version = ''1'', norm_workerId = ''w''\<rparr> None
     [\<lparr>party_id = ''usina'', party_role = PartyRole.PAYEE, party_direction = Direction.IN,
       party_amount = Some \<lparr>units = 40000, currency = ''BRL''\<rparr>\<rparr>]"

definition receipt_event :: LedgerEvent where
  "receipt_event = event_of reading_platform 2000 receipt_props"

lemma receipt_rules:
  "validateSemantic receipt_props = None" "basic_ok receipt_props" "flows_ok receipt_props" "dates_ok receipt_props"
  "command_props (sample_env ''e1'') [] orphan_command = Some receipt_props"
  "texts_given (sample_env ''e1'') orphan_command" "pr_amount receipt_props = \<lparr>units = 40000, currency = ''BRL''\<rparr>"
  "conservation [] \<lparr>units = 40000, currency = ''BRL''\<rparr> (cmd_objects orphan_command) = None"
  by code_simp+

lemma receipt_accepted: "accepts (sample_env ''e1'') [] orphan_command receipt_props"
  using receipt_rules
  by (simp add: accepts_def guards_pass_def find_origin_def orphan_command_def final_command_fields
      validateSemantic_iff retraction_rules_def conservation_None receipt_command_def)

lemma receipt_executed:
  "execute reading_platform (sample_env ''e1'') [] orphan_command =
     Inr (receipt_event, [receipt_event], [audit_created reading_platform orphan_command receipt_event])"
  using execute_recordsI [OF _ receipt_accepted, of receipt_event reading_platform]
  by (simp add: known_command_None receipt_event_def sample_env_fields)

definition after_receipt :: posting_state where
  "after_receipt = start\<lparr>ps_ledger := [receipt_event],
     ps_audit := [audit_created reading_platform orphan_command receipt_event],
     ps_staging := [receipt_record\<lparr>sr_status := accepted_record\<rparr>]\<rparr>"

lemma receipt_resolved: "resolve [] receipt_record = Inr None"
  by code_simp

lemma receipt_post: "post_record reading_platform (handling ''e1'') True start receipt_record = Inr after_receipt"
  using receipt_executed
  by (simp add: post_record_def receipt_reads start_def receipt_resolved handling_def orphan_command_def
      final_command_def after_receipt_def)

lemma receipt_handled:
  "handle reading_platform (handling ''e1'') DEFAULT_SOURCE_SYSTEMS True start receipt_record = Inr after_receipt"
  using receipt_validates receipt_post by (simp add: handle_def start_def)

lemma receipt_posted: "posted start receipt_record after_receipt"
  using post_record_posted(1) [OF _ receipt_post] receipt_validates by (simp add: start_def)

lemma start_ready:
  "distinct (ids (ps_staging start))" "\<forall>r\<in>set (ps_staging start). trim (sr_id r) \<noteq> []"
  "reachable P (ps_ledger start)" "trim (sr_id receipt_record) \<noteq> []" "he_rejectId (handling ''e1'') \<noteq> []"
  "ps_ledger start = []"
  by (simp_all add: start_def receipt_record_def handling_def trim_eq_Nil is_space_def reachable.empty)

lemma start_validates:
  "validateRecord DEFAULT_SOURCE_SYSTEMS (ps_ledger start) receipt_record = []"
  "sr_eventType receipt_record = Some (eventType_value EventType.COMMISSION_RECEIVED)"
  using receipt_validates by (simp_all add: start_ready(6), simp add: receipt_record_def)

text \<open>A candidate that says nothing.\<close>

definition empty_candidate :: SubmitCandidateInput where
  "empty_candidate =
     \<lparr>si_sourceReference = None, si_eventType = None, si_economicEffect = None, si_occurredAt = None,
      si_sourceAt = None, si_dueAt = None, si_amount = None, si_currency = None, si_description = None,
      si_relatedEventId = None, si_parties = None, si_objects = None, si_reason = None, si_reporter = None\<rparr>"

end
