(* ===== verification/Scenarios.thy ===== *)
theory Scenarios
  imports Ledger_Prelude
begin

text \<open>
  The conversations of the treasury as data: \<open>SlotType.ts\<close>, \<open>Slot.ts\<close> and \<open>Scenario.ts\<close> with the
  seventeen \<open>register*.ts\<close> scenarios it registers. Texts are UTF-8 bytes. Looking a scenario up is
  \<open>map_of\<close> of the registry; the names every JavaScript object inherits (such as \<open>constructor\<close>) are
  taken to be absent.
\<close>

datatype SlotType = STRING | MONEY | DATE | CHOICE | PARTY | EVENT_REF

record SlotDefinition =
  sl_key :: string
  sl_type :: SlotType
  sl_prompt :: string
  sl_required :: bool
  sl_help :: "string option"
  sl_choices :: "string list option"
  sl_suggestionSource :: "string option"
  sl_allowUnidentifiable :: bool

record Scenario =
  sc_id :: string
  sc_title :: string
  sc_description :: string
  sc_slots :: "SlotDefinition list"
  sc_keywords :: "(string \<times> string list) list"

text \<open>A slot with the optional fields left out.\<close>

definition slot :: "string \<Rightarrow> SlotType \<Rightarrow> string \<Rightarrow> bool \<Rightarrow> SlotDefinition" where
  "slot key ty prompt required =
     \<lparr>sl_key = key, sl_type = ty, sl_prompt = prompt, sl_required = required, sl_help = None, sl_choices = None,
      sl_suggestionSource = None, sl_allowUnidentifiable = False\<rparr>"

section \<open>The scenarios\<close>

definition registerPayment :: Scenario where
  "registerPayment =
     \<lparr>sc_id = ''register_payment'', sc_title = ''Register a general payment'',
      sc_description =
        ''Record a general outbound payment not covered by a specific operation (e.g. a supplier). Use a specific operation when one exists (e.g. Payroll).'',
      sc_slots =
        [(slot ''payee'' SlotType.PARTY ''Who is being paid?'' True)
           \<lparr>sl_suggestionSource := Some ''parties''\<rparr>,
         slot ''amount'' SlotType.MONEY ''What is the payment amount?'' True,
         (slot ''currency'' SlotType.CHOICE ''Which currency?'' True)
           \<lparr>sl_choices := Some [''BRL'', ''USD'']\<rparr>,
         slot ''occurredAt'' SlotType.DATE ''On what date was the payment made?'' True,
         slot ''objectRef'' SlotType.STRING ''Which recognized obligation does this pay?'' False,
         slot ''description'' SlotType.STRING ''A short description (optional).'' False],
      sc_keywords = [(''pt-BR'', [''fornecedor'', ''fornecedores'', ''avulso'', ''diversos''])]\<rparr>"

definition registerPayroll :: Scenario where
  "registerPayroll =
     \<lparr>sc_id = ''register_payroll'', sc_title = ''Register payroll'',
      sc_description =
        ''Record a payroll payment made by the usina to its employees (cash out).'',
      sc_slots =
        [(slot ''payee'' SlotType.PARTY ''Who is being paid (employee or payroll provider)?'' True)
           \<lparr>sl_suggestionSource := Some ''parties''\<rparr>,
         slot ''amount'' SlotType.MONEY ''What is the payroll amount?'' True,
         (slot ''currency'' SlotType.CHOICE ''Which currency?'' True)
           \<lparr>sl_choices := Some [''BRL'', ''USD'']\<rparr>,
         slot ''occurredAt'' SlotType.DATE ''On what date was payroll paid?'' True,
         slot ''objectRef'' SlotType.STRING ''Which recognized obligation does this pay?'' False,
         slot ''description'' SlotType.STRING ''A short description (optional).'' False],
      sc_keywords = [(''pt-BR'', [''folha'', ''salario'', ''salarios'', ''empregados'', ''funcionarios''])]\<rparr>"

definition registerInfrastructure :: Scenario where
  "registerInfrastructure =
     \<lparr>sc_id = ''register_infrastructure'', sc_title = ''Register infrastructure expense'',
      sc_description =
        ''Record an infrastructure/operational cost paid by the usina (cash out).'',
      sc_slots =
        [(slot ''payee'' SlotType.PARTY ''Who is being paid (supplier or provider)?'' True)
           \<lparr>sl_suggestionSource := Some ''parties''\<rparr>,
         slot ''amount'' SlotType.MONEY ''What is the amount?'' True,
         (slot ''currency'' SlotType.CHOICE ''Which currency?'' True)
           \<lparr>sl_choices := Some [''BRL'', ''USD'']\<rparr>,
         slot ''occurredAt'' SlotType.DATE ''On what date was it paid?'' True,
         slot ''objectRef'' SlotType.STRING ''Which recognized obligation does this pay?'' False,
         slot ''description'' SlotType.STRING ''A short description (optional).'' False],
      sc_keywords = [(''pt-BR'', [''infraestrutura'', ''infra'', ''hospedagem''])]\<rparr>"

definition registerPenalty :: Scenario where
  "registerPenalty =
     \<lparr>sc_id = ''register_penalty'', sc_title = ''Register penalty payment'',
      sc_description =
        ''Record a penalty or fine paid by the usina (cash out).'',
      sc_slots =
        [(slot ''payee'' SlotType.PARTY ''Who is being paid (authority or counterparty)?'' True)
           \<lparr>sl_suggestionSource := Some ''parties''\<rparr>,
         slot ''amount'' SlotType.MONEY ''What is the penalty amount?'' True,
         (slot ''currency'' SlotType.CHOICE ''Which currency?'' True)
           \<lparr>sl_choices := Some [''BRL'', ''USD'']\<rparr>,
         slot ''occurredAt'' SlotType.DATE ''On what date was it paid?'' True,
         slot ''description'' SlotType.STRING ''A short description (optional).'' False],
      sc_keywords = [(''pt-BR'', [''multa'', ''multas'', ''penalidade''])]\<rparr>"

definition registerIncentive :: Scenario where
  "registerIncentive =
     \<lparr>sc_id = ''register_incentive'', sc_title = ''Register incentive payment'',
      sc_description =
        ''Record an incentive or bonus paid by the usina to a broker or partner (cash out).'',
      sc_slots =
        [(slot ''payee'' SlotType.PARTY ''Who is receiving the incentive (broker or partner)?'' True)
           \<lparr>sl_suggestionSource := Some ''parties''\<rparr>,
         (slot ''kind'' SlotType.CHOICE ''Is this an incentive or a bonus?'' True)
           \<lparr>sl_choices := Some [''incentive'', ''bonus'']\<rparr>,
         slot ''amount'' SlotType.MONEY ''What is the amount?'' True,
         (slot ''currency'' SlotType.CHOICE ''Which currency?'' True)
           \<lparr>sl_choices := Some [''BRL'', ''USD'']\<rparr>,
         slot ''occurredAt'' SlotType.DATE ''On what date was it paid?'' True,
         slot ''description'' SlotType.STRING ''A short description (optional).'' False],
      sc_keywords = [(''pt-BR'', [''incentivo'', ''bonus'', ''bonificacao'', ''premiacao''])]\<rparr>"

definition registerAdvance :: Scenario where
  "registerAdvance =
     \<lparr>sc_id = ''register_advance'', sc_title = ''Register advance payment'',
      sc_description =
        ''Record an advance disbursed by the usina to a broker or partner (cash out; originates an advance to be settled later).'',
      sc_slots =
        [(slot ''payee'' SlotType.PARTY ''Who is receiving the advance (broker or partner)?'' True)
           \<lparr>sl_suggestionSource := Some ''parties''\<rparr>,
         slot ''amount'' SlotType.MONEY ''What is the advance amount?'' True,
         (slot ''currency'' SlotType.CHOICE ''Which currency?'' True)
           \<lparr>sl_choices := Some [''BRL'', ''USD'']\<rparr>,
         slot ''occurredAt'' SlotType.DATE ''On what date was the advance disbursed?'' True,
         slot ''description'' SlotType.STRING ''A short description (optional).'' False],
      sc_keywords = [(''pt-BR'', [''adiantamento'', ''adiantar''])]\<rparr>"

definition registerLoan :: Scenario where
  "registerLoan =
     \<lparr>sc_id = ''register_loan'', sc_title = ''Register loan origination'',
      sc_description =
        ''Record a loan disbursed by the usina to a broker (cash out; originates a loan receivable to be repaid later).'',
      sc_slots =
        [(slot ''payee'' SlotType.PARTY ''Who is receiving the loan (borrower)?'' True)
           \<lparr>sl_suggestionSource := Some ''parties''\<rparr>,
         slot ''amount'' SlotType.MONEY ''What is the loan amount?'' True,
         (slot ''currency'' SlotType.CHOICE ''Which currency?'' True)
           \<lparr>sl_choices := Some [''BRL'', ''USD'']\<rparr>,
         slot ''occurredAt'' SlotType.DATE ''On what date was the loan disbursed?'' True,
         slot ''description'' SlotType.STRING ''A short description (optional).'' False],
      sc_keywords = [(''pt-BR'', [''emprestimo'', ''emprestar''])]\<rparr>"

definition registerWaiver :: Scenario where
  "registerWaiver =
     \<lparr>sc_id = ''register_waiver'', sc_title = ''Register commission waiver'',
      sc_description =
        ''Record a commission waiver '' @ [CHR 0xE2, CHR 0x80, CHR 0x94] @ '' the usina gives up a broker'' @ [CHR 0x27] @ ''s commission entitlement (no cash moves).'',
      sc_slots =
        [(slot ''payee'' SlotType.PARTY ''Whose commission is being waived (broker or partner)?'' True)
           \<lparr>sl_suggestionSource := Some ''parties''\<rparr>,
         (slot ''basis'' SlotType.CHOICE ''Is this a standard waiver, or reversing an incorrectly granted entitlement?'' True)
           \<lparr>sl_choices := Some [''waiver'', ''reversal'']\<rparr>,
         slot ''amount'' SlotType.MONEY ''What is the waived amount?'' True,
         (slot ''currency'' SlotType.CHOICE ''Which currency?'' True)
           \<lparr>sl_choices := Some [''BRL'', ''USD'']\<rparr>,
         slot ''occurredAt'' SlotType.DATE ''On what date was it waived?'' True,
         slot ''description'' SlotType.STRING ''A short description (optional).'' False],
      sc_keywords = [(''pt-BR'', [''renuncia'', ''renunciar'', ''isencao'', ''perdao''])]\<rparr>"

definition registerCommissionAccrual :: Scenario where
  "registerCommissionAccrual =
     \<lparr>sc_id = ''register_commission_accrual'', sc_title = ''Register expected commission'',
      sc_description =
        ''Record a commission the usina expects to receive before the cash arrives (an accrual; no cash moves).'',
      sc_slots =
        [slot ''amount'' SlotType.MONEY ''What commission amount is expected?'' True,
         (slot ''currency'' SlotType.CHOICE ''Which currency?'' True)
           \<lparr>sl_choices := Some [''BRL'', ''USD'']\<rparr>,
         slot ''occurredAt'' SlotType.DATE ''As of what date is it expected?'' True,
         slot ''description'' SlotType.STRING ''A short description (optional).'' False],
      sc_keywords = [(''pt-BR'', [''provisao'', ''prevista'', ''esperada''])]\<rparr>"

definition registerDirectPayment :: Scenario where
  "registerDirectPayment =
     \<lparr>sc_id = ''register_direct_payment'', sc_title = ''Acknowledge direct payment to a broker'',
      sc_description =
        ''Record that the operator paid a broker directly '' @ [CHR 0xE2, CHR 0x80, CHR 0x94] @ '' the usina'' @ [CHR 0x27] @ ''s commission receivable is settled with no cash movement.'',
      sc_slots =
        [(slot ''payee'' SlotType.PARTY ''Which broker was paid directly?'' True)
           \<lparr>sl_suggestionSource := Some ''parties''\<rparr>,
         slot ''amount'' SlotType.MONEY ''What is the commission amount that was settled?'' True,
         (slot ''currency'' SlotType.CHOICE ''Which currency?'' True)
           \<lparr>sl_choices := Some [''BRL'', ''USD'']\<rparr>,
         slot ''occurredAt'' SlotType.DATE ''On what date was the broker paid?'' True,
         slot ''description'' SlotType.STRING ''A short description (optional).'' False],
      sc_keywords = [(''pt-BR'', [''direto'', ''diretamente'', ''operadora''])]\<rparr>"

definition registerCommissionReceived :: Scenario where
  "registerCommissionReceived =
     \<lparr>sc_id = ''register_commission_received'', sc_title = ''Register commission received'',
      sc_description =
        ''Record a commission the usina received (cash in), settling an expected commission.'',
      sc_slots =
        [(slot ''payer'' SlotType.PARTY ''Who paid the commission (operator or counterparty)?'' True)
           \<lparr>sl_suggestionSource := Some ''parties'', sl_allowUnidentifiable := True\<rparr>,
         slot ''amount'' SlotType.MONEY ''What is the commission amount received?'' True,
         (slot ''currency'' SlotType.CHOICE ''Which currency?'' True)
           \<lparr>sl_choices := Some [''BRL'', ''USD'']\<rparr>,
         slot ''occurredAt'' SlotType.DATE ''On what date was it received?'' True,
         (slot ''origin'' SlotType.EVENT_REF ''Which expected commission does this settle? (leave empty if unknown)'' False)
           \<lparr>sl_suggestionSource := Some ''origin_events''\<rparr>,
         slot ''objectRef'' SlotType.STRING ''If you know it, the id of the receivable being settled (optional).'' False,
         slot ''description'' SlotType.STRING ''A short description (optional).'' False],
      sc_keywords = [(''pt-BR'', [''recebida'', ''recebimento''])]\<rparr>"

definition registerAdvanceSettlement :: Scenario where
  "registerAdvanceSettlement =
     \<lparr>sc_id = ''register_advance_settlement'', sc_title = ''Register advance recovery'',
      sc_description =
        ''Record recovery of an advance the usina disbursed (cash in), settling the originating advance.'',
      sc_slots =
        [(slot ''payer'' SlotType.PARTY ''Who is repaying the advance (broker or partner)?'' True)
           \<lparr>sl_suggestionSource := Some ''parties''\<rparr>,
         slot ''amount'' SlotType.MONEY ''What amount was recovered?'' True,
         (slot ''currency'' SlotType.CHOICE ''Which currency?'' True)
           \<lparr>sl_choices := Some [''BRL'', ''USD'']\<rparr>,
         slot ''occurredAt'' SlotType.DATE ''On what date was it recovered?'' True,
         (slot ''origin'' SlotType.EVENT_REF ''Which advance does this settle?'' True)
           \<lparr>sl_suggestionSource := Some ''origin_events''\<rparr>,
         slot ''objectRef'' SlotType.STRING ''If you know it, the id of the advance being settled (optional).'' False,
         slot ''description'' SlotType.STRING ''A short description (optional).'' False],
      sc_keywords = [(''pt-BR'', [''recuperacao'', ''recuperar'', ''recuperado''])]\<rparr>"

definition registerRectification :: Scenario where
  "registerRectification =
     \<lparr>sc_id = ''register_rectification'', sc_title = ''Rectify a recorded entry'',
      sc_description =
        ''Declare that an entry already recorded never happened '' @ [CHR 0xE2, CHR 0x80, CHR 0x94] @ '' a keying error confirmed against the source. The correct value, if there is one, is recorded afterwards as its own entry.'',
      sc_slots =
        [(slot ''target'' SlotType.EVENT_REF ''Which entry never happened?'' True)
           \<lparr>sl_suggestionSource := Some ''origin_events''\<rparr>,
         slot ''objectRef'' SlotType.STRING ''The position the corrected entry moved.'' True,
         (slot ''objectType'' SlotType.CHOICE ''The kind of position the corrected entry moved.'' True)
           \<lparr>sl_choices := Some [''advance'', ''loan'', ''commission_receivable'']\<rparr>,
         slot ''amount'' SlotType.MONEY ''The amount the corrected entry asserted.'' True,
         (slot ''currency'' SlotType.CHOICE ''Which currency?'' True)
           \<lparr>sl_choices := Some [''BRL'', ''USD'']\<rparr>,
         slot ''occurredAt'' SlotType.DATE ''On what date was the error established?'' True,
         slot ''description'' SlotType.STRING ''What established the error (document, reconciliation)?'' False,
         slot ''reissue'' SlotType.STRING ''Whether a corrected entry is to follow.'' False],
      sc_keywords = [(''pt-BR'', [''retificar'', ''retificacao'', ''corrigir'', ''estava errado''])]\<rparr>"

definition registerLoanRepayment :: Scenario where
  "registerLoanRepayment =
     \<lparr>sc_id = ''register_loan_repayment'', sc_title = ''Register loan repayment'',
      sc_description =
        ''Record a loan repayment received by the usina (cash in), settling the originating loan.'',
      sc_slots =
        [(slot ''payer'' SlotType.PARTY ''Who is repaying the loan (borrower)?'' True)
           \<lparr>sl_suggestionSource := Some ''parties''\<rparr>,
         slot ''amount'' SlotType.MONEY ''What amount was repaid?'' True,
         (slot ''currency'' SlotType.CHOICE ''Which currency?'' True)
           \<lparr>sl_choices := Some [''BRL'', ''USD'']\<rparr>,
         slot ''occurredAt'' SlotType.DATE ''On what date was it repaid?'' True,
         (slot ''origin'' SlotType.EVENT_REF ''Which loan does this repay?'' True)
           \<lparr>sl_suggestionSource := Some ''origin_events''\<rparr>,
         slot ''objectRef'' SlotType.STRING ''If you know it, the id of the loan being repaid (optional).'' False,
         slot ''description'' SlotType.STRING ''A short description (optional).'' False],
      sc_keywords = [(''pt-BR'', [''quitacao'', ''quitar'', ''quitado'', ''reembolso''])]\<rparr>"

definition registerObligationRecognition :: Scenario where
  "registerObligationRecognition =
     \<lparr>sc_id = ''register_obligation_recognition'', sc_title = ''Recognize an obligation'',
      sc_description =
        ''Record an obligation the usina owes, established by an external fact (invoice, payroll, tax) before it is paid.'',
      sc_slots =
        [(slot ''kind'' SlotType.CHOICE ''What kind of obligation is it?'' True)
           \<lparr>sl_choices := Some [''payroll'', ''service'', ''infrastructure'', ''tax'', ''other'']\<rparr>,
         (slot ''payee'' SlotType.PARTY ''Who is it owed to?'' True)
           \<lparr>sl_suggestionSource := Some ''parties''\<rparr>,
         slot ''amount'' SlotType.MONEY ''What is the amount owed?'' True,
         (slot ''currency'' SlotType.CHOICE ''Which currency?'' True)
           \<lparr>sl_choices := Some [''BRL'', ''USD'']\<rparr>,
         slot ''occurredAt'' SlotType.DATE ''On what date was the obligation established?'' True,
         slot ''dueAt'' SlotType.DATE ''On what date does it fall due? (leave empty if the document does not say)'' False,
         slot ''objectRef'' SlotType.STRING ''Was this obligation already paid? If so, which payment does it explain?'' False,
         slot ''description'' SlotType.STRING ''A short description (optional).'' False],
      sc_keywords = [(''pt-BR'', [''reconhecer'', ''reconhecimento'', ''obrigacao'', ''nota'', ''fatura'', ''competencia'', ''provisionar''])]\<rparr>"

definition registerServiceFee :: Scenario where
  "registerServiceFee =
     \<lparr>sc_id = ''register_service_fee'', sc_title = ''Register service fee payment'',
      sc_description =
        ''Record a service fee paid by the usina (cash out).'',
      sc_slots =
        [(slot ''payee'' SlotType.PARTY ''Who is being paid (supplier or provider)?'' True)
           \<lparr>sl_suggestionSource := Some ''parties''\<rparr>,
         slot ''amount'' SlotType.MONEY ''What is the fee amount?'' True,
         (slot ''currency'' SlotType.CHOICE ''Which currency?'' True)
           \<lparr>sl_choices := Some [''BRL'', ''USD'']\<rparr>,
         slot ''occurredAt'' SlotType.DATE ''On what date was it paid?'' True,
         slot ''objectRef'' SlotType.STRING ''Which recognized obligation does this pay?'' False,
         slot ''description'' SlotType.STRING ''A short description (optional).'' False],
      sc_keywords = [(''pt-BR'', [''taxa'', ''taxas'', ''honorario'', ''honorarios'', ''servico''])]\<rparr>"

definition registerTax :: Scenario where
  "registerTax =
     \<lparr>sc_id = ''register_tax'', sc_title = ''Register tax payment'',
      sc_description =
        ''Record a tax paid by the usina (cash out).'',
      sc_slots =
        [(slot ''payee'' SlotType.PARTY ''Who is being paid (tax authority)?'' True)
           \<lparr>sl_suggestionSource := Some ''parties''\<rparr>,
         slot ''amount'' SlotType.MONEY ''What is the tax amount?'' True,
         (slot ''currency'' SlotType.CHOICE ''Which currency?'' True)
           \<lparr>sl_choices := Some [''BRL'', ''USD'']\<rparr>,
         slot ''occurredAt'' SlotType.DATE ''On what date was it paid?'' True,
         slot ''objectRef'' SlotType.STRING ''Which recognized obligation does this pay?'' False,
         slot ''description'' SlotType.STRING ''A short description (optional).'' False],
      sc_keywords = [(''pt-BR'', [''imposto'', ''impostos'', ''tributo'', ''tributos'', ''darf''])]\<rparr>"

definition REGISTRY :: "(string \<times> Scenario) list" where
  "REGISTRY =
     map (\<lambda>s. (sc_id s, s))
       [registerPayment, registerPayroll, registerInfrastructure, registerPenalty,
        registerIncentive, registerAdvance, registerLoan, registerWaiver,
        registerCommissionAccrual, registerDirectPayment, registerCommissionReceived, registerAdvanceSettlement,
        registerRectification, registerLoanRepayment, registerObligationRecognition, registerServiceFee,
        registerTax]"

definition getScenario :: "string \<Rightarrow> Scenario option" where
  "getScenario i = map_of REGISTRY i"

definition listScenarios :: "Scenario list" where
  "listScenarios = map snd REGISTRY"

section \<open>What every scenario has\<close>

text \<open>
  The keys of a scenario are distinct, every scenario asks for an amount, a currency and a date, and
  choices are given to choice slots only.
\<close>

definition well_formed_scenario :: "Scenario \<Rightarrow> bool" where
  "well_formed_scenario s \<longleftrightarrow>
     distinct (map sl_key (sc_slots s))
     \<and> list_all (\<lambda>(k, t). list_ex (\<lambda>x. sl_key x = k \<and> sl_type x = t \<and> sl_required x) (sc_slots s))
         [(''amount'', SlotType.MONEY), (''currency'', SlotType.CHOICE), (''occurredAt'', SlotType.DATE)]
     \<and> list_all (\<lambda>x. sl_choices x = None \<longleftrightarrow> sl_type x \<noteq> SlotType.CHOICE) (sc_slots s)"

lemma scenarios_well_formed: "list_all well_formed_scenario listScenarios"
  by code_simp

lemma scenario_ids: "list_all (\<lambda>(i, s). sc_id s = i) REGISTRY \<and> distinct (map fst REGISTRY)"
  by code_simp

lemma getScenario_well_formed:
  assumes "getScenario i = Some s"
  shows "well_formed_scenario s" and "sc_id s = i"
proof -
  have m: "(i, s) \<in> set REGISTRY" using assms unfolding getScenario_def by (rule map_of_SomeD)
  then show "sc_id s = i" using scenario_ids by (auto simp: list_all_iff)
  from m have "s \<in> set listScenarios" by (force simp: listScenarios_def)
  then show "well_formed_scenario s" using scenarios_well_formed by (simp add: list_all_iff)
qed

lemma registered:
  assumes "s \<in> set listScenarios"
  shows "getScenario (sc_id s) = Some s"
proof -
  obtain i where i: "(i, s) \<in> set REGISTRY" using assms by (auto simp: listScenarios_def)
  then have "sc_id s = i" using scenario_ids by (auto simp: list_all_iff)
  with i show ?thesis unfolding getScenario_def using scenario_ids map_of_is_SomeI by metis
qed

end
