(* ===== verification/Scenario_Mappings.thy ===== *)
theory Scenario_Mappings
  imports Scenarios
begin

text \<open>
  The table of \<open>CandidateMapper.ts\<close>: for every scenario the tuple the treasury proposes to the
  ledger, its parties and objects, and what an answer may change of them. Every entry is a definition
  of its own; optional fields left out are those of \<open>mapping\<close>. The functions that read the table
  without building a candidate are here too.
\<close>

record TupleOverride =
  ov_economicEffect :: "string option"
  ov_objectType :: "string option"
  ov_relation :: "string option"
  ov_reasonType :: "string option"
  ov_reasonText :: "string option"

definition no_override :: TupleOverride where
  "no_override =
     \<lparr>ov_economicEffect = None, ov_objectType = None, ov_relation = None, ov_reasonType = None, ov_reasonText = None\<rparr>"

datatype who = USINA | COUNTERPARTY

record PartyTemplate =
  pt_who :: who
  pt_role :: string
  pt_direction :: string
  pt_carriesAmount :: bool

record ObjectTemplate =
  ot_objectType :: string
  ot_relation :: string

datatype ContinuityMode = Open | Unoriginated

record ScenarioMapping =
  sm_eventType :: string
  sm_economicEffect :: string
  sm_counterpartySlot :: "string option"
  sm_parties :: "PartyTemplate list"
  sm_objects :: "ObjectTemplate list"
  sm_reasonType :: string
  sm_reasonText :: string
  sm_variants :: "(string \<times> (string \<times> TupleOverride) list) option"
  sm_relatedEventSlot :: "string option"
  sm_objectIdSlot :: "string option"
  sm_orphan :: "(string \<times> string) option"
  sm_continuityMode :: ContinuityMode
  sm_retroactive :: "(string \<times> string) option"
  sm_followupSlot :: "string option"
  sm_inheritsCounterparty :: bool

definition mapping ::
  "string \<Rightarrow> string \<Rightarrow> PartyTemplate list \<Rightarrow> ObjectTemplate list \<Rightarrow> string \<Rightarrow> string \<Rightarrow> ScenarioMapping" where
  "mapping eventType effect ps os reasonType reasonText =
     \<lparr>sm_eventType = eventType, sm_economicEffect = effect, sm_counterpartySlot = None, sm_parties = ps,
      sm_objects = os, sm_reasonType = reasonType, sm_reasonText = reasonText, sm_variants = None,
      sm_relatedEventSlot = None, sm_objectIdSlot = None, sm_orphan = None, sm_continuityMode = Open,
      sm_retroactive = None, sm_followupSlot = None, sm_inheritsCounterparty = False\<rparr>"

section \<open>The mappings\<close>

definition cashInParties :: "PartyTemplate list" where
  "cashInParties =
       [\<lparr>pt_who = USINA, pt_role = ''payee'', pt_direction = ''in'', pt_carriesAmount = True\<rparr>,
        \<lparr>pt_who = COUNTERPARTY, pt_role = ''payer'', pt_direction = ''neutral'', pt_carriesAmount = True\<rparr>]"

definition cashOutParties :: "PartyTemplate list" where
  "cashOutParties =
       [\<lparr>pt_who = USINA, pt_role = ''payer'', pt_direction = ''out'', pt_carriesAmount = True\<rparr>,
        \<lparr>pt_who = COUNTERPARTY, pt_role = ''payee'', pt_direction = ''neutral'', pt_carriesAmount = False\<rparr>]"

definition obligationParties :: "PartyTemplate list" where
  "obligationParties =
       [\<lparr>pt_who = USINA, pt_role = ''payer'', pt_direction = ''neutral'', pt_carriesAmount = False\<rparr>,
        \<lparr>pt_who = COUNTERPARTY, pt_role = ''payee'', pt_direction = ''neutral'', pt_carriesAmount = False\<rparr>]"

definition map_register_payment :: ScenarioMapping where
  "map_register_payment =
     (mapping ''outbound_payment'' ''cash_out''
       cashOutParties
       [\<lparr>ot_objectType = ''payable'', ot_relation = ''settles''\<rparr>]
       ''ordinary_settlement'' ''Ordinary settlement of a payable'')
       \<lparr>sm_counterpartySlot := Some ''payee'',
        sm_objectIdSlot := Some ''objectRef''\<rparr>"

definition map_register_payroll :: ScenarioMapping where
  "map_register_payroll =
     (mapping ''payroll_payment'' ''cash_out''
       cashOutParties
       [\<lparr>ot_objectType = ''payroll'', ot_relation = ''settles''\<rparr>]
       ''payroll_payment'' ''Payroll payment'')
       \<lparr>sm_counterpartySlot := Some ''payee'',
        sm_objectIdSlot := Some ''objectRef'',
        sm_inheritsCounterparty := True\<rparr>"

definition map_register_infrastructure :: ScenarioMapping where
  "map_register_infrastructure =
     (mapping ''infrastructure_expense'' ''cash_out''
       cashOutParties
       [\<lparr>ot_objectType = ''infrastructure_cost'', ot_relation = ''settles''\<rparr>]
       ''infrastructure_expense'' ''Infrastructure expense'')
       \<lparr>sm_counterpartySlot := Some ''payee'',
        sm_objectIdSlot := Some ''objectRef''\<rparr>"

definition map_register_service_fee :: ScenarioMapping where
  "map_register_service_fee =
     (mapping ''service_fee_payment'' ''cash_out''
       cashOutParties
       [\<lparr>ot_objectType = ''service_fee'', ot_relation = ''settles''\<rparr>]
       ''service_fee_payment'' ''Service fee payment'')
       \<lparr>sm_counterpartySlot := Some ''payee'',
        sm_objectIdSlot := Some ''objectRef''\<rparr>"

definition map_register_tax :: ScenarioMapping where
  "map_register_tax =
     (mapping ''tax_payment'' ''cash_out''
       cashOutParties
       [\<lparr>ot_objectType = ''tax'', ot_relation = ''settles''\<rparr>]
       ''tax_payment'' ''Tax payment'')
       \<lparr>sm_counterpartySlot := Some ''payee'',
        sm_objectIdSlot := Some ''objectRef''\<rparr>"

definition map_register_penalty :: ScenarioMapping where
  "map_register_penalty =
     (mapping ''penalty_payment'' ''cash_out''
       cashOutParties
       [\<lparr>ot_objectType = ''penalty'', ot_relation = ''settles''\<rparr>]
       ''penalty_payment'' ''Penalty payment'')
       \<lparr>sm_counterpartySlot := Some ''payee''\<rparr>"

definition map_register_incentive :: ScenarioMapping where
  "map_register_incentive =
     (mapping ''incentive_payment'' ''cash_out''
       cashOutParties
       [\<lparr>ot_objectType = ''incentive'', ot_relation = ''settles''\<rparr>]
       ''incentive_payment'' ''Incentive payment'')
       \<lparr>sm_counterpartySlot := Some ''payee'',
        sm_variants := Some (''kind'',
          [(''incentive'', no_override\<lparr>ov_objectType := Some ''incentive''\<rparr>),
           (''bonus'', no_override\<lparr>ov_objectType := Some ''bonus''\<rparr>)])\<rparr>"

definition map_register_advance :: ScenarioMapping where
  "map_register_advance =
     (mapping ''advance_payment'' ''cash_out''
       cashOutParties
       [\<lparr>ot_objectType = ''advance'', ot_relation = ''originates''\<rparr>]
       ''advance_payment'' ''Advance disbursement'')
       \<lparr>sm_counterpartySlot := Some ''payee''\<rparr>"

definition map_register_loan :: ScenarioMapping where
  "map_register_loan =
     (mapping ''loan_origination'' ''cash_out''
       cashOutParties
       [\<lparr>ot_objectType = ''loan'', ot_relation = ''originates''\<rparr>]
       ''loan_origination'' ''Loan origination'')
       \<lparr>sm_counterpartySlot := Some ''payee''\<rparr>"

definition map_register_waiver :: ScenarioMapping where
  "map_register_waiver =
     (mapping ''commission_waiver'' ''non_cash''
       [\<lparr>pt_who = COUNTERPARTY, pt_role = ''beneficiary'', pt_direction = ''neutral'', pt_carriesAmount = False\<rparr>]
       [\<lparr>ot_objectType = ''commission_entitlement'', ot_relation = ''settles''\<rparr>]
       ''commission_waiver'' ''Commission waiver'')
       \<lparr>sm_counterpartySlot := Some ''payee'',
        sm_variants := Some (''basis'',
          [(''waiver'', no_override\<lparr>ov_relation := Some ''settles''\<rparr>),
           (''reversal'', no_override\<lparr>ov_relation := Some ''reverses''\<rparr>)])\<rparr>"

definition map_register_commission_accrual :: ScenarioMapping where
  "map_register_commission_accrual =
     (mapping ''commission_expected'' ''non_cash''
       [\<lparr>pt_who = USINA, pt_role = ''beneficiary'', pt_direction = ''neutral'', pt_carriesAmount = False\<rparr>]
       [\<lparr>ot_objectType = ''commission_receivable'', ot_relation = ''originates''\<rparr>]
       ''commission_accrual'' ''Accrual of an expected commission'')"

definition map_register_direct_payment :: ScenarioMapping where
  "map_register_direct_payment =
     (mapping ''direct_payment_acknowledged'' ''non_cash''
       [\<lparr>pt_who = COUNTERPARTY, pt_role = ''beneficiary'', pt_direction = ''neutral'', pt_carriesAmount = False\<rparr>]
       [\<lparr>ot_objectType = ''commission_receivable'', ot_relation = ''settles''\<rparr>, \<lparr>ot_objectType = ''commission_entitlement'', ot_relation = ''settles''\<rparr>]
       ''direct_commission_payment_authorized'' ''Operator paid the broker directly'')
       \<lparr>sm_counterpartySlot := Some ''payee''\<rparr>"

definition map_register_commission_received :: ScenarioMapping where
  "map_register_commission_received =
     (mapping ''commission_received'' ''cash_in''
       cashInParties
       [\<lparr>ot_objectType = ''commission_receivable'', ot_relation = ''settles''\<rparr>]
       ''commission_payment'' ''Commission received'')
       \<lparr>sm_counterpartySlot := Some ''payer'',
        sm_relatedEventSlot := Some ''origin'',
        sm_objectIdSlot := Some ''objectRef'',
        sm_orphan := Some (''unknown_origin'', ''Commission received; originating expected unknown'')\<rparr>"

definition map_register_advance_settlement :: ScenarioMapping where
  "map_register_advance_settlement =
     (mapping ''advance_settlement'' ''cash_in''
       cashInParties
       [\<lparr>ot_objectType = ''advance'', ot_relation = ''settles''\<rparr>]
       ''advance_payment'' ''Advance recovery'')
       \<lparr>sm_counterpartySlot := Some ''payer'',
        sm_relatedEventSlot := Some ''origin'',
        sm_objectIdSlot := Some ''objectRef'',
        sm_inheritsCounterparty := True\<rparr>"

definition map_register_rectification :: ScenarioMapping where
  "map_register_rectification =
     (mapping ''ledger_correction'' ''non_cash''
       [\<lparr>pt_who = USINA, pt_role = ''platform'', pt_direction = ''neutral'', pt_carriesAmount = False\<rparr>]
       [\<lparr>ot_objectType = ''advance'', ot_relation = ''retracts''\<rparr>]
       ''data_reconciliation'' ''Entry rectified: verified against the source, it never happened'')
       \<lparr>sm_relatedEventSlot := Some ''target'',
        sm_objectIdSlot := Some ''objectRef'',
        sm_followupSlot := Some ''reissue'',
        sm_variants := Some (''objectType'',
          [(''advance'', no_override\<lparr>ov_objectType := Some ''advance''\<rparr>),
           (''loan'', no_override\<lparr>ov_objectType := Some ''loan''\<rparr>),
           (''commission_receivable'', no_override\<lparr>ov_objectType := Some ''commission_receivable''\<rparr>)])\<rparr>"

definition map_register_loan_repayment :: ScenarioMapping where
  "map_register_loan_repayment =
     (mapping ''loan_repayment'' ''cash_in''
       cashInParties
       [\<lparr>ot_objectType = ''loan'', ot_relation = ''settles''\<rparr>]
       ''loan_repayment'' ''Loan repayment'')
       \<lparr>sm_counterpartySlot := Some ''payer'',
        sm_relatedEventSlot := Some ''origin'',
        sm_objectIdSlot := Some ''objectRef'',
        sm_inheritsCounterparty := True\<rparr>"

definition map_register_obligation_recognition :: ScenarioMapping where
  "map_register_obligation_recognition =
     (mapping ''obligation_recognized'' ''non_cash''
       obligationParties
       [\<lparr>ot_objectType = ''payable'', ot_relation = ''originates''\<rparr>]
       ''obligation_recognition'' ''Obligation established by an external fact'')
       \<lparr>sm_counterpartySlot := Some ''payee'',
        sm_objectIdSlot := Some ''objectRef'',
        sm_retroactive := Some (''late_awareness'', ''Obligation identified after the payment was already recorded''),
        sm_variants := Some (''kind'',
          [(''payroll'', no_override\<lparr>ov_objectType := Some ''payroll''\<rparr>),
           (''service'', no_override\<lparr>ov_objectType := Some ''service_fee''\<rparr>),
           (''infrastructure'', no_override\<lparr>ov_objectType := Some ''infrastructure_cost''\<rparr>),
           (''tax'', no_override\<lparr>ov_objectType := Some ''tax''\<rparr>),
           (''other'', no_override\<lparr>ov_objectType := Some ''payable''\<rparr>)]),
        sm_continuityMode := Unoriginated\<rparr>"

definition MAPPINGS :: "(string \<times> ScenarioMapping) list" where
  "MAPPINGS =
     [(''register_payment'', map_register_payment),
      (''register_payroll'', map_register_payroll),
      (''register_infrastructure'', map_register_infrastructure),
      (''register_service_fee'', map_register_service_fee),
      (''register_tax'', map_register_tax),
      (''register_penalty'', map_register_penalty),
      (''register_incentive'', map_register_incentive),
      (''register_advance'', map_register_advance),
      (''register_loan'', map_register_loan),
      (''register_waiver'', map_register_waiver),
      (''register_commission_accrual'', map_register_commission_accrual),
      (''register_direct_payment'', map_register_direct_payment),
      (''register_commission_received'', map_register_commission_received),
      (''register_advance_settlement'', map_register_advance_settlement),
      (''register_rectification'', map_register_rectification),
      (''register_loan_repayment'', map_register_loan_repayment),
      (''register_obligation_recognition'', map_register_obligation_recognition)]"

section \<open>Reading the table\<close>

definition mapping_of :: "string \<Rightarrow> ScenarioMapping option" where
  "mapping_of i = map_of MAPPINGS i"

definition continuityObjectType :: "string \<Rightarrow> (string \<times> string) list \<Rightarrow> string option" where
  "continuityObjectType i a =
     (case mapping_of i of None \<Rightarrow> None
      | Some m \<Rightarrow>
          if sm_objectIdSlot m = None \<or> length (sm_objects m) \<noteq> 1 then None
          else case sm_variants m of
              None \<Rightarrow> Some (ot_objectType (hd (sm_objects m)))
            | Some (selector, byChoice) \<Rightarrow>
                (case Option.bind (map_of a selector) (map_of byChoice) of
                   None \<Rightarrow> None
                 | Some ov \<Rightarrow> Some (case ov_objectType ov of Some t \<Rightarrow> t | None \<Rightarrow> ot_objectType (hd (sm_objects m)))))"

definition continuitySlot :: "string \<Rightarrow> string option" where
  "continuitySlot i = Option.bind (mapping_of i) sm_objectIdSlot"

definition continuityMode :: "string \<Rightarrow> ContinuityMode" where
  "continuityMode i = (case mapping_of i of None \<Rightarrow> Open | Some m \<Rightarrow> sm_continuityMode m)"

definition lineageSlot :: "string \<Rightarrow> string option" where
  "lineageSlot i = Option.bind (mapping_of i) sm_relatedEventSlot"

definition counterpartySlot :: "string \<Rightarrow> string option" where
  "counterpartySlot i = Option.bind (mapping_of i) sm_counterpartySlot"

definition inheritsCounterparty :: "string \<Rightarrow> bool" where
  "inheritsCounterparty i = (case mapping_of i of None \<Rightarrow> False | Some m \<Rightarrow> sm_inheritsCounterparty m)"

definition variantSlot :: "string \<Rightarrow> string option" where
  "variantSlot i = map_option fst (Option.bind (mapping_of i) sm_variants)"

record ProducibleTuple =
  ptu_scenarioId :: string
  ptu_eventType :: string
  ptu_objectType :: string
  ptu_relation :: string
  ptu_variantChoice :: "string option"
  ptu_touchesOtherPositions :: bool

definition branches :: "ScenarioMapping \<Rightarrow> (string option \<times> TupleOverride) list" where
  "branches m =
     (case sm_variants m of
        Some (_, byChoice) \<Rightarrow> map (\<lambda>(c, ov). (Some c, ov)) byChoice
      | None \<Rightarrow> [(None, no_override)])"

definition or_else :: "'a option \<Rightarrow> 'a \<Rightarrow> 'a" where
  "or_else x d = (case x of Some v \<Rightarrow> v | None \<Rightarrow> d)"

text \<open>The override is about the first object; the others are carried as they are.\<close>

definition object_templates :: "TupleOverride \<Rightarrow> ObjectTemplate list \<Rightarrow> ObjectTemplate list" where
  "object_templates ov os =
     (case os of [] \<Rightarrow> []
      | ob # rest \<Rightarrow> \<lparr>ot_objectType = or_else (ov_objectType ov) (ot_objectType ob),
                      ot_relation = or_else (ov_relation ov) (ot_relation ob)\<rparr> # rest)"

definition producibleTuples :: "ProducibleTuple list" where
  "producibleTuples =
     concat (map (\<lambda>(i, m).
       concat (map (\<lambda>(choice, ov).
         map (\<lambda>ob. \<lparr>ptu_scenarioId = i, ptu_eventType = sm_eventType m, ptu_objectType = ot_objectType ob,
                     ptu_relation = ot_relation ob, ptu_variantChoice = choice,
                     ptu_touchesOtherPositions = 1 < length (sm_objects m)\<rparr>)
           (object_templates ov (sm_objects m))) (branches m))) MAPPINGS)"

definition fieldToSlot :: "string \<Rightarrow> string \<Rightarrow> string option" where
  "fieldToSlot i field =
     (case mapping_of i of None \<Rightarrow> None
      | Some m \<Rightarrow>
          if field = ''parties'' then sm_counterpartySlot m
          else if field = ''relatedEventId'' then sm_relatedEventSlot m
          else if field = ''amount'' \<or> field = ''currency'' \<or> field = ''occurredAt'' \<or> field = ''description''
          then Some field
          else None)"

section \<open>The table agrees with the scenarios\<close>

text \<open>
  Every scenario has a mapping, and every slot a mapping names is a slot of its scenario: the
  counterparty's is a required party slot, the selector's choices are the branches.
\<close>

definition has_slot :: "Scenario \<Rightarrow> (SlotDefinition \<Rightarrow> bool) \<Rightarrow> string option \<Rightarrow> bool" where
  "has_slot s P k = (case k of None \<Rightarrow> True | Some key \<Rightarrow> list_ex (\<lambda>x. sl_key x = key \<and> P x) (sc_slots s))"

definition agrees :: "Scenario \<Rightarrow> ScenarioMapping \<Rightarrow> bool" where
  "agrees s m \<longleftrightarrow>
     has_slot s (\<lambda>x. sl_type x = SlotType.PARTY \<and> sl_required x) (sm_counterpartySlot m)
     \<and> (list_ex (\<lambda>q. pt_who q = COUNTERPARTY) (sm_parties m) \<longrightarrow> sm_counterpartySlot m \<noteq> None)
     \<and> has_slot s (\<lambda>x. sl_type x = SlotType.EVENT_REF \<and> (sl_required x \<or> sm_orphan m \<noteq> None)) (sm_relatedEventSlot m)
     \<and> has_slot s (\<lambda>x. sl_type x = SlotType.STRING) (sm_objectIdSlot m)
     \<and> has_slot s (\<lambda>x. sl_type x = SlotType.STRING) (sm_followupSlot m)
     \<and> has_slot s (\<lambda>x. sl_required x \<and> sl_choices x = map_option (map fst \<circ> snd) (sm_variants m))
         (map_option fst (sm_variants m))
     \<and> (sm_objectIdSlot m \<noteq> None \<longrightarrow> length (sm_objects m) = 1)"

lemma mappings_agree:
  "list_all (\<lambda>s. case mapping_of (sc_id s) of None \<Rightarrow> False | Some m \<Rightarrow> agrees s m) listScenarios"
  by code_simp

lemma mapping_agrees:
  assumes "getScenario i = Some s"
  obtains m where "mapping_of i = Some m" "agrees s m"
proof -
  have "s \<in> set listScenarios"
    using map_of_SomeD [OF assms [unfolded getScenario_def]] by (force simp: listScenarios_def)
  then show ?thesis
    using mappings_agree getScenario_well_formed(2) [OF assms] that by (auto simp: list_all_iff split: option.splits)
qed

end
