(* ===== verification/Party_Names.thy ===== *)
theory Party_Names
  imports Complex_Main Ledger_Errors
begin

text \<open>
  \<open>PartyNormalization.ts\<close>: the comparison key of a name, the digits of a document, and the edit
  distance. Removing accents (\<open>normalize("NFD")\<close> and the combining marks) is a parameter that leaves
  ASCII alone. A similarity is a number between 0 and 1; it is kept as a fraction, where the code
  divides doubles.
\<close>

section \<open>Names\<close>

definition CORPORATE_SUFFIXES :: "string list" where
  "CORPORATE_SUFFIXES =
     [''sociedade anonima'', ''eireli'', ''ltda'', ''epp'', ''mei'', ''me'', ''sa'', ''s a'']"

definition is_alnum :: "char \<Rightarrow> bool" where
  "is_alnum c \<longleftrightarrow> is_lower c \<or> is_digit c"

text \<open>\<open>replace(/[^a-z0-9]+/g, " ")\<close> and \<open>replace(/\s+/g, " ")\<close>: every maximal run becomes one space.\<close>

fun squeeze :: "(char \<Rightarrow> bool) \<Rightarrow> string \<Rightarrow> string" where
  "squeeze P [] = []"
| "squeeze P (c # s) =
     (if P c then (case s of [] \<Rightarrow> '' '' | d # _ \<Rightarrow> if P d then squeeze P s else CHR '' '' # squeeze P s)
      else c # squeeze P s)"

definition ends_with :: "string \<Rightarrow> string \<Rightarrow> bool" where
  "ends_with t s \<longleftrightarrow> length t \<le> length s \<and> drop (length s - length t) s = t"

definition next_suffix :: "string \<Rightarrow> string option" where
  "next_suffix out = find (\<lambda>t. out \<noteq> t \<and> ends_with (CHR '' '' # t) out) CORPORATE_SUFFIXES"

lemma next_suffix_shorter: "next_suffix out = Some t \<Longrightarrow> length t < length out"
  by (auto simp: next_suffix_def ends_with_def dest!: find_SomeD)

lemma length_trim: "length (trim s) \<le> length s"
proof -
  have "length (trim s) \<le> length (dropWhile is_space s)"
    unfolding trim_def by (metis length_dropWhile_le length_rev)
  also have "\<dots> \<le> length s" by (rule length_dropWhile_le)
  finally show ?thesis .
qed

function strip_suffixes :: "string \<Rightarrow> string" where
  "strip_suffixes out =
     (case next_suffix out of
        None \<Rightarrow> out
      | Some t \<Rightarrow> strip_suffixes (trim (take (length out - (length t + 1)) out)))"
  by pat_completeness auto
termination
proof (relation "measure length")
  show "wf (measure length)" by simp
next
  fix out t
  assume "next_suffix out = Some t"
  then have "length t < length out" by (rule next_suffix_shorter)
  then have "length (take (length out - (length t + 1)) out) < length out" by simp
  then show "(trim (take (length out - (length t + 1)) out), out) \<in> measure length"
    using le_less_trans [OF length_trim] by simp
qed

declare strip_suffixes.simps [simp del]

definition normalizeName :: "(string \<Rightarrow> string) \<Rightarrow> string \<Rightarrow> string" where
  "normalizeName stripAccents txt =
     strip_suffixes (squeeze is_space (trim (squeeze (\<lambda>c. \<not> is_alnum c) (map lower_char (stripAccents txt)))))"

definition normalizeDocument :: "string \<Rightarrow> string" where
  "normalizeDocument txt = filter is_digit txt"

section \<open>Edit distance\<close>

text \<open>One row of the table: the cells right of \<open>left\<close>, from the row above.\<close>

fun edit_row :: "char \<Rightarrow> string \<Rightarrow> nat list \<Rightarrow> nat \<Rightarrow> nat list" where
  "edit_row x (y # ys) (p # q # previous) left =
     (let c = min (min (left + 1) (q + 1)) (p + (if x = y then 0 else 1))
      in c # edit_row x ys (q # previous) c)"
| "edit_row x ys previous left = []"

fun edit_rows :: "nat \<Rightarrow> string \<Rightarrow> string \<Rightarrow> nat list \<Rightarrow> nat list" where
  "edit_rows i [] b previous = previous"
| "edit_rows i (x # a) b previous = edit_rows (Suc i) a b (i # edit_row x b previous i)"

definition editDistance :: "string \<Rightarrow> string \<Rightarrow> nat" where
  "editDistance a b =
     (if a = b then 0 else if a = [] then length b else if b = [] then length a
      else edit_rows 1 a b [0..<length b + 1] ! length b)"

definition similarity :: "string \<Rightarrow> string \<Rightarrow> rat" where
  "similarity a b =
     (if a = [] \<and> b = [] then 1
      else 1 - of_nat (editDistance a b) / of_nat (max (length a) (length b)))"

section \<open>The edit distance is the least cost of an alignment\<close>

text \<open>\<open>aligns n a b\<close>: the texts can be lined up by \<open>n\<close> deletions, insertions and replacements.\<close>

inductive aligns :: "nat \<Rightarrow> 'a list \<Rightarrow> 'a list \<Rightarrow> bool" where
  nothing: "aligns 0 [] []"
| delete: "aligns n a b \<Longrightarrow> aligns (Suc n) (x # a) b"
| insert: "aligns n a b \<Longrightarrow> aligns (Suc n) a (y # b)"
| keep: "aligns n a b \<Longrightarrow> aligns n (x # a) (x # b)"
| replace: "aligns n a b \<Longrightarrow> aligns (Suc n) (x # a) (y # b)"

text \<open>The recursive reference, on the last characters.\<close>

fun lev :: "'a list \<Rightarrow> 'a list \<Rightarrow> nat" where
  "lev [] b = length b"
| "lev a [] = length a"
| "lev (x # a) (y # b) =
     min (min (lev (x # a) b + 1) (lev a (y # b) + 1)) (lev a b + (if x = y then 0 else 1))"

lemma lev_Nil2 [simp]: "lev a [] = length a"
  by (cases a) auto

lemma aligns_inserts: "aligns (length b) [] b"
  by (induction b) (auto intro: aligns.intros)

lemma aligns_deletes: "aligns (length a) a []"
  by (induction a) (auto intro: aligns.intros)

lemma aligns_lev: "aligns (lev a b) a b"
proof (induction a b rule: lev.induct)
  case (3 x a y b)
  then show ?case by (auto simp: min_def intro: aligns.intros)
qed (auto intro: aligns_inserts aligns_deletes aligns_deletes [of "_ # _", simplified])

lemma lev_Cons1: "lev (x # a) b \<le> Suc (lev a b)"
  by (induction b) auto

lemma lev_Cons2: "lev a (y # b) \<le> Suc (lev a b)"
  by (induction a) auto

lemma lev_least: "aligns n a b \<Longrightarrow> lev a b \<le> n"
proof (induction rule: aligns.induct)
  case (delete n a b x)
  then show ?case using lev_Cons1 [of x a b] by simp
next
  case (insert n a b y)
  then show ?case using lev_Cons2 [of a y b] by simp
qed auto

lemma aligns_snoc:
  "aligns n a b \<Longrightarrow> aligns (Suc n) (a @ [x]) b"
  "aligns n a b \<Longrightarrow> aligns (Suc n) a (b @ [y])"
  "aligns n a b \<Longrightarrow> aligns n (a @ [x]) (b @ [x])"
  "aligns n a b \<Longrightarrow> aligns (Suc n) (a @ [x]) (b @ [y])"
  by (induction rule: aligns.induct) (auto intro: aligns.intros)

lemma aligns_rev: "aligns n a b \<Longrightarrow> aligns n (rev a) (rev b)"
  by (induction rule: aligns.induct) (auto intro: aligns.intros aligns_snoc)

lemma aligns_swap: "aligns n a b \<Longrightarrow> aligns n b a"
  by (induction rule: aligns.induct) (auto intro: aligns.intros)

lemma lev_rev: "lev (rev a) (rev b) = lev a b"
  by (metis aligns_lev aligns_rev antisym lev_least rev_rev_ident)

text \<open>The table holds the distances of the prefixes.\<close>

definition prefix_row :: "string \<Rightarrow> string \<Rightarrow> nat list" where
  "prefix_row a b = map (\<lambda>j. lev (rev a) (rev (take j b))) [0..<Suc (length b)]"

lemma first_row: "[0..<length b + 1] = prefix_row [] b"
  by (rule nth_equalityI) (simp_all add: prefix_row_def min_def del: upt_Suc)

lemma edit_row_step:
  "M = q # rest \<Longrightarrow> min (min (l + 1) (q + 1)) (p + (if x = y then 0 else 1)) = c \<Longrightarrow>
    edit_row x (y # b) (p # M) l = c # edit_row x b M c"
  by (simp add: Let_def)

lemma map_upt_first: "map f [0..<Suc n] = f 0 # map (\<lambda>j. f (Suc j)) [0..<n]"
  by (simp add: upt_conv_Cons map_Suc_upt [symmetric] comp_def del: upt_Suc)

lemma edit_row_prefixes:
  "edit_row x b (map (\<lambda>j. lev (rev a) (rev (take j b) @ c)) [0..<Suc (length b)]) (lev (x # rev a) c) =
     map (\<lambda>j. lev (x # rev a) (rev (take (Suc j) b) @ c)) [0..<length b]"
proof (induction b arbitrary: c)
  case Nil
  then show ?case by simp
next
  case (Cons y b)
  let ?M = "map (\<lambda>j. lev (rev a) (rev (take j b) @ (y # c))) [0..<Suc (length b)]"
  have M: "?M = lev (rev a) (y # c) # map (\<lambda>j. lev (rev a) (rev (take (Suc j) b) @ (y # c))) [0..<length b]"
    unfolding map_upt_first by simp
  have "edit_row x (y # b) (lev (rev a) c # ?M) (lev (x # rev a) c)
      = lev (x # rev a) (y # c) # edit_row x b ?M (lev (x # rev a) (y # c))"
    by (rule edit_row_step [OF M]) simp
  also have "edit_row x b ?M (lev (x # rev a) (y # c)) =
      map (\<lambda>j. lev (x # rev a) (rev (take (Suc j) b) @ (y # c))) [0..<length b]"
    by (rule Cons.IH)
  also have "lev (x # rev a) (y # c) # \<dots> =
      map (\<lambda>j. lev (x # rev a) (rev (take (Suc j) (y # b)) @ c)) [0..<length (y # b)]"
    unfolding length_Cons map_upt_first [of _ "length b"]
    by (simp del: upt_Suc lev.simps edit_row.simps)
  finally show ?case
    unfolding length_Cons map_upt_first [of _ "Suc (length b)"]
    by (simp del: upt_Suc lev.simps edit_row.simps)
qed

lemma edit_rows_prefixes:
  "edit_rows (Suc (length a)) c b (prefix_row a b) = prefix_row (a @ c) b"
proof (induction c arbitrary: a)
  case Nil
  then show ?case by simp
next
  case (Cons x c)
  have "Suc (length a) # edit_row x b (prefix_row a b) (Suc (length a)) = prefix_row (a @ [x]) b"
    using edit_row_prefixes [of x b a "[]"] unfolding prefix_row_def map_upt_first [of _ "length b"] by simp
  then show ?case using Cons.IH [of "a @ [x]"] by simp
qed

lemma editDistance_lev: "editDistance a b = lev a b"
proof -
  have "edit_rows 1 a b [0..<length b + 1] ! length b = lev (rev a) (rev b)"
    using edit_rows_prefixes [of "[]" a b] unfolding first_row
    by (simp add: prefix_row_def del: upt_Suc)
  moreover have "lev a a = 0" by (induction a) auto
  ultimately show ?thesis by (auto simp: editDistance_def lev_rev)
qed

section \<open>Tidy names\<close>

text \<open>Words of letters and digits with one space between them.\<close>

definition plain :: "string \<Rightarrow> bool" where
  "plain s \<longleftrightarrow> (\<forall>c\<in>set s. is_alnum c \<or> c = CHR '' '') \<and>
     successively (\<lambda>c d. c \<noteq> CHR '' '' \<or> d \<noteq> CHR '' '') s"

definition tidy :: "string \<Rightarrow> bool" where
  "tidy s \<longleftrightarrow> plain s \<and> (s \<noteq> [] \<longrightarrow> hd s \<noteq> CHR '' '' \<and> last s \<noteq> CHR '' '')"

lemma alnum_not_space: "is_alnum c \<Longrightarrow> \<not> is_space c"
  and space_is_space: "is_space (CHR '' '')"
  and space_not_alnum: "\<not> is_alnum (CHR '' '')"
  by (auto simp: is_alnum_def is_lower_def is_digit_def is_space_def less_eq_char_def)

lemma alnum_lower: "is_alnum c \<Longrightarrow> lower_char c = c"
  by (cases c) (auto simp: is_alnum_def is_lower_def is_digit_def less_eq_char_def Let_def of_bool_def split: if_splits)

lemma lower_of_space: "lower_char (CHR '' '') = CHR '' ''"
  by simp

lemma plain_Cons:
  "plain (c # s) \<longleftrightarrow> (is_alnum c \<or> c = CHR '' '') \<and> plain s \<and> (c = CHR '' '' \<longrightarrow> s \<noteq> [] \<longrightarrow> hd s \<noteq> CHR '' '')"
  by (cases s) (auto simp: plain_def)

lemma plain_Nil [simp]: "plain []"
  by (simp add: plain_def)

lemma squeeze_Cons:
  "squeeze P (c # s) =
     (if \<not> P c then c # squeeze P s
      else if s \<noteq> [] \<and> P (hd s) then squeeze P s else CHR '' '' # squeeze P s)"
  by (cases s) simp_all

declare squeeze.simps(2) [simp del]

lemma squeeze_Nil [simp]: "squeeze P s = [] \<longleftrightarrow> s = []"
  by (induction s) (auto simp: squeeze_Cons)

lemma squeeze_hd: "s \<noteq> [] \<Longrightarrow> hd (squeeze P s) = (if P (hd s) then CHR '' '' else hd s)"
  by (induction s) (auto simp: squeeze_Cons)

lemma squeeze_plain: "plain (squeeze (\<lambda>c. \<not> is_alnum c) s)"
proof (induction s)
  case (Cons c s)
  have "hd (squeeze (\<lambda>c. \<not> is_alnum c) s) \<noteq> CHR '' ''" if "s \<noteq> []" "is_alnum (hd s)"
    using that space_not_alnum by (auto simp: squeeze_hd)
  with Cons show ?case
    using space_not_alnum by (auto simp: squeeze_Cons plain_Cons)
qed simp

lemma plain_squeeze: "plain s \<Longrightarrow> P (CHR '' '') \<Longrightarrow> \<forall>c\<in>set s. is_alnum c \<longrightarrow> \<not> P c \<Longrightarrow> squeeze P s = s"
proof (induction s)
  case (Cons c s)
  have s: "squeeze P s = s" using Cons by (simp add: plain_Cons)
  show ?case
  proof (cases "is_alnum c")
    case True
    then show ?thesis using Cons.prems(3) s by (simp add: squeeze_Cons)
  next
    case False
    with Cons.prems(1) have c: "c = CHR '' ''" and hd: "s \<noteq> [] \<Longrightarrow> hd s \<noteq> CHR '' ''" and p: "plain s"
      by (auto simp: plain_Cons)
    have "\<not> P (hd s)" if "s \<noteq> []"
      using hd [OF that] that p Cons.prems(3) by (cases s) (auto simp: plain_Cons)
    then show ?thesis using c s Cons.prems(2) by (cases "s = []") (simp_all add: squeeze_Cons)
  qed
qed simp

lemma plain_append: "plain (s @ t) \<Longrightarrow> plain s \<and> plain t"
  by (auto simp: plain_def successively_append_iff)

lemma plain_take: "plain s \<Longrightarrow> plain (take n s)"
  using plain_append [of "take n s" "drop n s"] by simp

lemma dropWhile_suffix: "\<exists>t. s = t @ dropWhile P s"
  by (metis takeWhile_dropWhile_id)

lemma plain_dropWhile: "plain s \<Longrightarrow> plain (dropWhile P s)"
  using dropWhile_suffix [of s P] plain_append by metis

lemma trim_infix: "\<exists>t u. s = t @ trim s @ u"
proof -
  let ?d = "dropWhile is_space s"
  obtain t where t: "s = t @ ?d" using dropWhile_suffix by blast
  obtain u where "rev ?d = u @ dropWhile is_space (rev ?d)" using dropWhile_suffix by blast
  then have "?d = trim s @ rev u" unfolding trim_def by (metis rev_append rev_rev_ident)
  then show ?thesis using t by metis
qed

lemma trim_hd: "trim s \<noteq> [] \<Longrightarrow> \<not> is_space (hd (trim s)) \<and> \<not> is_space (last (trim s))"
proof -
  assume ne: "trim s \<noteq> []"
  let ?d = "dropWhile is_space s"
  have d: "?d \<noteq> []" using ne unfolding trim_def by (metis dropWhile.simps(1) rev.simps(1))
  have last: "\<not> is_space (last (trim s))"
    using ne hd_dropWhile [of is_space "rev ?d"] by (simp add: trim_def last_rev)
  obtain u where "rev ?d = u @ dropWhile is_space (rev ?d)" using dropWhile_suffix by blast
  then have "?d = trim s @ rev u" unfolding trim_def by (metis rev_append rev_rev_ident)
  then have "hd ?d = hd (trim s)" using ne by simp
  then show ?thesis using hd_dropWhile [OF d] last by simp
qed

lemma trim_tidy: "plain s \<Longrightarrow> tidy (trim s)"
  unfolding tidy_def using trim_infix [of s] trim_hd [of s] plain_append space_is_space by metis

lemma tidy_trim: "tidy s \<Longrightarrow> trim s = s"
proof -
  assume tidy: "tidy s"
  show ?thesis
  proof (cases "s = []")
    case False
    have "\<not> is_space (hd s)" "\<not> is_space (last s)"
      using tidy False by (auto simp: tidy_def plain_def dest: alnum_not_space)
    then have "dropWhile is_space s = s" "dropWhile is_space (rev s) = rev s"
      by (auto simp: dropWhile_eq_self_iff hd_rev)
    then show ?thesis by (simp add: trim_def)
  qed (simp add: trim_def)
qed

lemma strip_suffixes_tidy: "tidy s \<Longrightarrow> tidy (strip_suffixes s)"
proof (induction s rule: strip_suffixes.induct)
  case (1 s)
  show ?case
  proof (cases "next_suffix s")
    case None
    then show ?thesis using 1(2) by (subst strip_suffixes.simps) simp
  next
    case (Some t)
    have "plain s" using 1(2) by (simp add: tidy_def)
    then have "tidy (strip_suffixes (trim (take (length s - (length t + 1)) s)))"
      by (intro 1(1) [OF Some] trim_tidy plain_take)
    with Some show ?thesis by (subst strip_suffixes.simps) simp
  qed
qed

lemma no_suffix_left: "next_suffix (strip_suffixes s) = None"
proof (induction s rule: strip_suffixes.induct)
  case (1 s)
  then show ?case by (subst strip_suffixes.simps) (auto split: option.splits)
qed

lemma strip_done: "next_suffix s = None \<Longrightarrow> strip_suffixes s = s"
  by (subst strip_suffixes.simps) simp

lemma normalizeName_tidy: "tidy (normalizeName acc s)"
proof -
  have "tidy (trim (squeeze (\<lambda>c. \<not> is_alnum c) (map lower_char (acc s))))" (is "tidy ?t")
    by (intro trim_tidy squeeze_plain)
  moreover from this have "squeeze is_space ?t = ?t"
    by (intro plain_squeeze) (auto simp: tidy_def alnum_not_space space_is_space space_not_alnum)
  ultimately show ?thesis unfolding normalizeName_def by (simp add: strip_suffixes_tidy)
qed

lemma normalizeName_tidy_id:
  assumes "tidy s" "acc s = s"
  shows "normalizeName acc s = strip_suffixes s"
proof -
  have low: "map lower_char s = s"
    using assms(1) by (intro map_idI) (auto simp: tidy_def plain_def alnum_lower lower_of_space simp del: lower_char.simps)
  have "squeeze (\<lambda>c. \<not> is_alnum c) s = s" "squeeze is_space s = s"
    using assms(1) by (auto intro!: plain_squeeze simp: tidy_def alnum_not_space space_is_space space_not_alnum)
  then show ?thesis using assms low by (simp add: normalizeName_def tidy_trim)
qed

text \<open>A text of ASCII characters, which has no accents.\<close>

definition ascii :: "string \<Rightarrow> bool" where
  "ascii s \<longleftrightarrow> (\<forall>c\<in>set s. c < CHR 0x80)"

lemma tidy_ascii: "tidy s \<Longrightarrow> ascii s"
  unfolding tidy_def plain_def ascii_def
  by (auto simp: is_alnum_def is_lower_def is_digit_def less_eq_char_def less_char_def)

lemma normalizeName_again:
  assumes "\<And>s. ascii s \<Longrightarrow> acc s = s"
  shows "normalizeName acc (normalizeName acc s) = normalizeName acc s"
proof -
  have "normalizeName acc (normalizeName acc s) = strip_suffixes (normalizeName acc s)"
    by (intro normalizeName_tidy_id normalizeName_tidy assms tidy_ascii)
  also have "\<dots> = normalizeName acc s"
    unfolding normalizeName_def by (intro strip_done no_suffix_left)
  finally show ?thesis .
qed

end
