(* ===== verification/Party_Directory.thy ===== *)
theory Party_Directory
  imports Party_Names Pages
begin

text \<open>
  The parties the treasury knows and the cascade that finds one from what a user typed:
  \<open>Party.ts\<close>, \<open>PartyAttribute.ts\<close>, \<open>PartyResolution.ts\<close>, \<open>PartyCompleteness.ts\<close>,
  \<open>InMemoryPartyRepository.ts\<close>, \<open>PartyDirectory.ts\<close>, \<open>IdentitySlotResolution.ts\<close> and the use cases
  that write parties outside a conversation. The store is the association list of its \<open>Map\<close>; the
  removal of accents and the collation of identifiers are parameters. A confidence and a score are
  fractions, where the code has doubles.
\<close>

section \<open>Parties\<close>

datatype PartyIdentityState = IDENTIFIED | UNIDENTIFIABLE | MERGED

datatype AttributeState = KNOWN | DECLINED

datatype AttributeSource = USER | EXTRACTION | IMPORT | DERIVED

record PartyAttribute =
  attr_state :: AttributeState
  attr_value :: "string option"
  attr_source :: AttributeSource
  attr_confidence :: rat
  attr_capturedAt :: string
  attr_capturedBy :: "string option"
  attr_intentId :: "string option"

definition DOCUMENT_KEY :: string where "DOCUMENT_KEY = ''document''"
definition TYPE_KEY :: string where "TYPE_KEY = ''type''"

definition attributeState :: "(string \<times> PartyAttribute) list \<Rightarrow> string \<Rightarrow> AttributeState option" where
  "attributeState attributes key = map_option attr_state (map_of attributes key)"

record ExternalId =
  ext_system :: string
  ext_value :: string

record Party =
  pty_partyId :: string
  pty_identityState :: PartyIdentityState
  pty_displayName :: string
  pty_aliases :: "string list"
  pty_externalIds :: "ExternalId list"
  pty_attributes :: "(string \<times> PartyAttribute) list"
  pty_mergedInto :: "string option"

section \<open>The repository\<close>

type_synonym party_store = "(string \<times> Party) list"

definition save_party :: "Party \<Rightarrow> party_store \<Rightarrow> party_store" where
  "save_party p st = AList.update (pty_partyId p) p st"

definition find_party :: "party_store \<Rightarrow> string \<Rightarrow> Party option" where
  "find_party st i = map_of st i"

definition all_parties :: "party_store \<Rightarrow> Party list" where
  "all_parties st = map snd st"

text \<open>Every party is kept under its own identifier, once.\<close>

definition keyed :: "party_store \<Rightarrow> bool" where
  "keyed st \<longleftrightarrow> distinct (map fst st) \<and> (\<forall>i p. map_of st i = Some p \<longrightarrow> pty_partyId p = i)"

lemma find_save [simp]:
  "find_party (save_party p st) i = (if i = pty_partyId p then Some p else find_party st i)"
  by (simp add: find_party_def save_party_def map_of_update)

lemma keyed_save [simp]: "keyed st \<Longrightarrow> keyed (save_party p st)"
  by (auto simp: keyed_def save_party_def map_of_update distinct_update)

lemma keyed_find:
  assumes "keyed st"
  shows "p \<in> set (all_parties st) \<longleftrightarrow> find_party st (pty_partyId p) = Some p"
proof
  note k = assms
  assume "p \<in> set (all_parties st)"
  then obtain i where "(i, p) \<in> set st" by (auto simp: all_parties_def)
  with k have "map_of st i = Some p" by (simp add: keyed_def)
  with k show "find_party st (pty_partyId p) = Some p" by (auto simp: keyed_def find_party_def)
next
  assume "find_party st (pty_partyId p) = Some p"
  then have "(pty_partyId p, p) \<in> set st" unfolding find_party_def by (rule map_of_SomeD)
  then show "p \<in> set (all_parties st)" by (force simp: all_parties_def)
qed

section \<open>What is worth asking\<close>

definition RECOMMENDED_ATTRIBUTES :: "string list" where
  "RECOMMENDED_ATTRIBUTES = [DOCUMENT_KEY, TYPE_KEY]"

record PartyCompleteness =
  cmp_partyId :: string
  cmp_displayName :: string
  cmp_missing :: "string list"
  cmp_declined :: "string list"

definition completenessOf :: "Party \<Rightarrow> PartyCompleteness" where
  "completenessOf p =
     \<lparr>cmp_partyId = pty_partyId p, cmp_displayName = pty_displayName p,
      cmp_missing = filter (\<lambda>key. attributeState (pty_attributes p) key = None) RECOMMENDED_ATTRIBUTES,
      cmp_declined = filter (\<lambda>key. attributeState (pty_attributes p) key = Some DECLINED) RECOMMENDED_ATTRIBUTES\<rparr>"

definition isWorthAsking :: "Party \<Rightarrow> bool" where
  "isWorthAsking p \<longleftrightarrow> pty_identityState p = IDENTIFIED \<and> cmp_missing (completenessOf p) \<noteq> []"

section \<open>The resolution cascade\<close>

record directory_env =
  stripAccents :: "string \<Rightarrow> string"
  localeCompare :: "string \<Rightarrow> string \<Rightarrow> int"

record Mention =
  mn_text :: string
  mn_normalized :: string

datatype ResolutionRule = EXACT_ID | EXACT_DOCUMENT | EXACT_EXTERNAL_ID | EXACT_NAME | SIMILARITY

record ResolutionQuery =
  rq_mention :: string
  rq_document :: "string option"
  rq_externalId :: "ExternalId option"

record ResolutionCandidate =
  rc_partyId :: string
  rc_displayName :: string
  rc_score :: rat

datatype Resolution =
    Resolved Mention string ResolutionRule rat bool
  | Ambiguous Mention "ResolutionCandidate list"
  | New Mention

definition DEFAULT_SIMILARITY_THRESHOLD :: rat where
  "DEFAULT_SIMILARITY_THRESHOLD = 85 / 100"

definition effectiveId :: "Party \<Rightarrow> string" where
  "effectiveId p =
     (if pty_identityState p = MERGED \<and> truthy (pty_mergedInto p) then the (pty_mergedInto p) else pty_partyId p)"

definition nameKeys :: "directory_env \<Rightarrow> Party \<Rightarrow> string list" where
  "nameKeys E p = map (normalizeName (stripAccents E)) (pty_displayName p # pty_aliases p)"

definition best_score :: "directory_env \<Rightarrow> string \<Rightarrow> Party \<Rightarrow> rat" where
  "best_score E key p = (case map (similarity key) (nameKeys E p) of [] \<Rightarrow> 0 | x # xs \<Rightarrow> foldl max x xs)"

definition score_compare :: "directory_env \<Rightarrow> ResolutionCandidate \<Rightarrow> ResolutionCandidate \<Rightarrow> int" where
  "score_compare E a b =
     (if rc_score b < rc_score a then -1 else if rc_score a < rc_score b then 1
      else localeCompare E (rc_partyId a) (rc_partyId b))"

text \<open>\<open>filter((c, i) => findIndex(same key) === i)\<close> and \<open>[...new Set(xs)]\<close>: the first of every key.\<close>

fun keep_first :: "('a \<Rightarrow> 'b) \<Rightarrow> 'a list \<Rightarrow> 'a list" where
  "keep_first k [] = []"
| "keep_first k (x # xs) = x # keep_first k (filter (\<lambda>y. k y \<noteq> k x) xs)"

definition similar_parties :: "directory_env \<Rightarrow> rat \<Rightarrow> string \<Rightarrow> Party list \<Rightarrow> ResolutionCandidate list" where
  "similar_parties E threshold key ps =
     keep_first rc_partyId
       (sort_by (score_compare E)
         (filter (\<lambda>c. threshold \<le> rc_score c)
           (map (\<lambda>p. \<lparr>rc_partyId = effectiveId p, rc_displayName = pty_displayName p, rc_score = best_score E key p\<rparr>) ps)))"

definition document_of :: "Party \<Rightarrow> string option" where
  "document_of p = (case map_of (pty_attributes p) DOCUMENT_KEY of None \<Rightarrow> None | Some a \<Rightarrow> attr_value a)"

definition by_document :: "string \<Rightarrow> Party \<Rightarrow> bool" where
  "by_document doc p \<longleftrightarrow> map_option normalizeDocument (document_of p) = Some (normalizeDocument doc)"

definition resolveParty :: "directory_env \<Rightarrow> rat \<Rightarrow> ResolutionQuery \<Rightarrow> Party list \<Rightarrow> Resolution" where
  "resolveParty E threshold q ps =
     (let key = normalizeName (stripAccents E) (rq_mention q);
          mention = \<lparr>mn_text = rq_mention q, mn_normalized = key\<rparr>;
          exact = (\<lambda>rule p. Resolved mention (effectiveId p) rule 1 False);
          byId = find (\<lambda>p. pty_partyId p = rq_mention q) ps;
          byDocument = (case rq_document q of None \<Rightarrow> None
                        | Some d \<Rightarrow> if d = [] \<or> normalizeDocument d = [] then None else find (by_document d) ps);
          byExternal = (case rq_externalId q of None \<Rightarrow> None
                        | Some x \<Rightarrow> find (\<lambda>p. x \<in> set (pty_externalIds p)) ps);
          byName = (if key = [] then None else find (\<lambda>p. key \<in> set (nameKeys E p)) ps)
      in case byId of Some p \<Rightarrow> exact EXACT_ID p
         | None \<Rightarrow> case byDocument of Some p \<Rightarrow> exact EXACT_DOCUMENT p
         | None \<Rightarrow> case byExternal of Some p \<Rightarrow> exact EXACT_EXTERNAL_ID p
         | None \<Rightarrow> case byName of Some p \<Rightarrow> exact EXACT_NAME p
         | None \<Rightarrow>
             if key = [] then New mention
             else case similar_parties E threshold key ps of
                 [] \<Rightarrow> New mention
               | [c] \<Rightarrow> Resolved mention (rc_partyId c) SIMILARITY (rc_score c) True
               | cs \<Rightarrow> Ambiguous mention cs)"

definition directory_resolve :: "directory_env \<Rightarrow> rat \<Rightarrow> party_store \<Rightarrow> ResolutionQuery \<Rightarrow> Resolution" where
  "directory_resolve E threshold st q = resolveParty E threshold q (all_parties st)"

definition isRecordable :: "Resolution \<Rightarrow> bool" where
  "isRecordable r = (case r of Resolved _ _ _ _ needsConfirmation \<Rightarrow> \<not> needsConfirmation | _ \<Rightarrow> False)"

definition recordableId :: "Resolution \<Rightarrow> string option" where
  "recordableId r = (case r of Resolved _ i _ _ _ \<Rightarrow> if isRecordable r then Some i else None | _ \<Rightarrow> None)"

section \<open>Only an exact rung gives an identity\<close>

text \<open>What makes a party an exact answer to a query, rung by rung.\<close>

definition match_document :: "ResolutionQuery \<Rightarrow> Party \<Rightarrow> bool" where
  "match_document q p \<longleftrightarrow> (\<exists>d. rq_document q = Some d \<and> normalizeDocument d \<noteq> [] \<and> by_document d p)"

definition match_external :: "ResolutionQuery \<Rightarrow> Party \<Rightarrow> bool" where
  "match_external q p \<longleftrightarrow> (\<exists>x. rq_externalId q = Some x \<and> x \<in> set (pty_externalIds p))"

definition match_name :: "directory_env \<Rightarrow> ResolutionQuery \<Rightarrow> Party \<Rightarrow> bool" where
  "match_name E q p \<longleftrightarrow>
     (let key = normalizeName (stripAccents E) (rq_mention q) in key \<noteq> [] \<and> key \<in> set (nameKeys E p))"

definition exact_match :: "directory_env \<Rightarrow> ResolutionQuery \<Rightarrow> Party \<Rightarrow> bool" where
  "exact_match E q p \<longleftrightarrow>
     pty_partyId p = rq_mention q \<or> match_document q p \<or> match_external q p \<or> match_name E q p"

lemma find_cases:
  obtains "find P xs = None" "\<And>x. x \<in> set xs \<Longrightarrow> \<not> P x"
  | x where "find P xs = Some x" "x \<in> set xs" "P x"
  by (cases "find P xs") (auto simp: find_None_iff dest: find_SomeD)

lemma find_never: "find (\<lambda>x. False) xs = None"
  by (simp add: find_None_iff)

lemma normalizeDocument_Nil [simp]: "normalizeDocument [] = []"
  by (simp add: normalizeDocument_def)

text \<open>The cascade as four searches and a last resort.\<close>

definition last_resort :: "directory_env \<Rightarrow> rat \<Rightarrow> ResolutionQuery \<Rightarrow> Party list \<Rightarrow> Resolution" where
  "last_resort E threshold q ps =
     (let key = normalizeName (stripAccents E) (rq_mention q);
          mention = \<lparr>mn_text = rq_mention q, mn_normalized = key\<rparr>
      in if key = [] then New mention
         else case similar_parties E threshold key ps of
             [] \<Rightarrow> New mention
           | [c] \<Rightarrow> Resolved mention (rc_partyId c) SIMILARITY (rc_score c) True
           | cs \<Rightarrow> Ambiguous mention cs)"

lemma resolveParty_rungs:
  "resolveParty E threshold q ps =
     (let exact = (\<lambda>rule p. Resolved \<lparr>mn_text = rq_mention q, mn_normalized = normalizeName (stripAccents E) (rq_mention q)\<rparr>
            (effectiveId p) rule 1 False)
      in case find (\<lambda>p. pty_partyId p = rq_mention q) ps of Some p \<Rightarrow> exact EXACT_ID p
         | None \<Rightarrow> case find (match_document q) ps of Some p \<Rightarrow> exact EXACT_DOCUMENT p
         | None \<Rightarrow> case find (match_external q) ps of Some p \<Rightarrow> exact EXACT_EXTERNAL_ID p
         | None \<Rightarrow> case find (match_name E q) ps of Some p \<Rightarrow> exact EXACT_NAME p
         | None \<Rightarrow> last_resort E threshold q ps)"
proof -
  have doc: "(case rq_document q of None \<Rightarrow> None
      | Some d \<Rightarrow> if d = [] \<or> normalizeDocument d = [] then None else find (by_document d) ps) = find (match_document q) ps"
    by (auto simp: match_document_def [abs_def] find_never split: option.split)
  have ext: "(case rq_externalId q of None \<Rightarrow> None | Some x \<Rightarrow> find (\<lambda>p. x \<in> set (pty_externalIds p)) ps) =
      find (match_external q) ps"
    by (auto simp: match_external_def [abs_def] find_never split: option.split)
  have nm: "(if normalizeName (stripAccents E) (rq_mention q) = [] then None
      else find (\<lambda>p. normalizeName (stripAccents E) (rq_mention q) \<in> set (nameKeys E p)) ps) = find (match_name E q) ps"
    by (auto simp: match_name_def [abs_def] find_never Let_def)
  show ?thesis
    unfolding resolveParty_def last_resort_def Let_def doc ext nm by (rule refl)
qed

lemma last_resort_not_recorded: "recordableId (last_resort E threshold q ps) = None"
  by (simp add: last_resort_def Let_def recordableId_def isRecordable_def split: list.split)

lemma exact_answer:
  "case recordableId (resolveParty E threshold q ps) of
     None \<Rightarrow> \<not> (\<exists>p\<in>set ps. exact_match E q p)
   | Some i \<Rightarrow> \<exists>p\<in>set ps. exact_match E q p \<and> effectiveId p = i"
proof (cases rule: find_cases [of "\<lambda>p. pty_partyId p = rq_mention q" ps])
  case (2 p)
  then show ?thesis by (auto simp: resolveParty_rungs recordableId_def isRecordable_def exact_match_def)
next
  case id: 1
  show ?thesis
  proof (cases rule: find_cases [of "match_document q" ps])
    case (2 p)
    then show ?thesis by (auto simp: resolveParty_rungs recordableId_def isRecordable_def exact_match_def id)
  next
    case doc: 1
    show ?thesis
    proof (cases rule: find_cases [of "match_external q" ps])
      case (2 p)
      then show ?thesis by (auto simp: resolveParty_rungs recordableId_def isRecordable_def exact_match_def id doc)
    next
      case ext: 1
      show ?thesis
      proof (cases rule: find_cases [of "match_name E q" ps])
        case (2 p)
        then show ?thesis by (auto simp: resolveParty_rungs recordableId_def isRecordable_def exact_match_def id doc ext)
      next
        case 1
        then show ?thesis
          by (auto simp: resolveParty_rungs exact_match_def id doc ext last_resort_not_recorded)
      qed
    qed
  qed
qed

text \<open>An identifier the directory holds answers for itself, or for the party it was merged into.\<close>

lemma id_resolves:
  assumes "keyed st" "find_party st i = Some p" "rq_mention q = i"
  shows "recordableId (directory_resolve E threshold st q) = Some (effectiveId p)"
proof (cases rule: find_cases [of "\<lambda>p. pty_partyId p = rq_mention q" "all_parties st"])
  case 1
  have "pty_partyId p = i" using assms(1,2) by (simp add: keyed_def find_party_def)
  moreover from this have "p \<in> set (all_parties st)" using assms keyed_find [OF assms(1), of p] by simp
  ultimately show ?thesis using 1(2) [of p] assms(3) by simp
next
  case (2 r)
  then have "r = p" using assms keyed_find [OF assms(1), of r] by simp
  with 2 show ?thesis
    by (simp add: directory_resolve_def resolveParty_rungs recordableId_def isRecordable_def)
qed

text \<open>A choice between several is left to the user: they are different parties, all close enough.\<close>

lemma keep_first_set: "set (keep_first k xs) \<subseteq> set xs"
  by (induction k xs rule: keep_first.induct) auto

lemma keep_first_distinct: "distinct (map k (keep_first k xs))"
proof (induction k xs rule: keep_first.induct)
  case (2 k x xs)
  then show ?case using keep_first_set [of k "filter (\<lambda>y. k y \<noteq> k x) xs"] by auto
qed simp

lemma keep_first_keys: "k ` set (keep_first k xs) = k ` set xs"
  by (induction k xs rule: keep_first.induct) auto

lemma ambiguous_choice:
  assumes "resolveParty E threshold q ps = Ambiguous m cs"
  shows "2 \<le> length cs \<and> distinct (map rc_partyId cs) \<and> (\<forall>c\<in>set cs. threshold \<le> rc_score c)"
proof -
  let ?s = "similar_parties E threshold (normalizeName (stripAccents E) (rq_mention q)) ps"
  have "cs = ?s \<and> (\<exists>x y zs. ?s = x # y # zs)"
    using assms by (cases ?s rule: remdups_adj.cases)
      (auto simp: resolveParty_rungs last_resort_def Let_def split: option.splits if_splits)
  then have "cs = ?s \<and> 2 \<le> length cs" by auto
  then show ?thesis
    using keep_first_set [of rc_partyId] keep_first_distinct by (fastforce simp: similar_parties_def)
qed

end
