(* ===== verification/Party_Upkeep.thy ===== *)
theory Party_Upkeep
  imports Party_Directory
begin

text \<open>
  The use cases that fill the directory outside a conversation: \<open>ImportParties.ts\<close>,
  \<open>RecordPartyAttribute.ts\<close>, \<open>ListIncompleteParties.ts\<close> and \<open>MeasureResolution.ts\<close>. A thrown error is
  its message. Importing a source twice changes nothing the second time; what an import and an answer
  never do is overwrite.
\<close>

section \<open>Gathering what is not there yet\<close>

text \<open>Every loop of the import adds what a test does not find and counts what it added.\<close>

definition add_new :: "('a list \<Rightarrow> 'a \<Rightarrow> bool) \<Rightarrow> 'a list \<Rightarrow> 'a list \<Rightarrow> 'a list \<times> nat" where
  "add_new has new held =
     fold (\<lambda>x (acc, n). if has acc x then (acc, n) else (acc @ [x], Suc n)) new (held, 0)"

locale gathering =
  fixes has :: "'a list \<Rightarrow> 'a \<Rightarrow> bool"
  assumes grows: "has acc x \<Longrightarrow> has (acc @ ys) x"
    and added: "has (acc @ [x]) x \<or> has acc x"
begin

lemma fold_add:
  "fold (\<lambda>x (acc, n). if has acc x then (acc, n) else (acc @ [x], Suc n)) new (held, k) =
     (fst (add_new has new held), k + snd (add_new has new held))"
proof (induction new arbitrary: held k)
  case (Cons x new)
  have "add_new has (x # new) held =
     (if has held x then add_new has new held
      else (fst (add_new has new (held @ [x])), 1 + snd (add_new has new (held @ [x]))))"
    using Cons.IH [of "held @ [x]" 1] by (simp add: add_new_def)
  then show ?case
    using Cons.IH [of held k] Cons.IH [of "held @ [x]" "Suc k"] by simp
qed (simp add: add_new_def)

lemma add_new_Cons:
  "add_new has (x # new) held =
     (if has held x then add_new has new held
      else (fst (add_new has new (held @ [x])), Suc (snd (add_new has new (held @ [x])))))"
  using fold_add [of new "held @ [x]" 1] by (simp add: add_new_def)

lemma add_new_extends: "\<exists>ys. fst (add_new has new held) = held @ ys"
proof (induction new arbitrary: held)
  case (Cons x new)
  show ?case using Cons.IH [of held] Cons.IH [of "held @ [x]"] by (auto simp: add_new_Cons)
qed (simp add: add_new_def)

lemma add_new_has: "x \<in> set new \<Longrightarrow> has (fst (add_new has new held)) x"
proof (induction new arbitrary: held)
  case (Cons y new)
  have head: "has (fst (add_new has new held)) y" if "has held y" for held
    using add_new_extends [of new held] grows [OF that] by auto
  have "has (held @ [y]) y" if "\<not> has held y" using added [of held y] that by auto
  then show ?case
    using Cons.IH [of held] Cons.IH [of "held @ [y]"] Cons.prems head [of held] head [of "held @ [y]"]
    by (auto simp: add_new_Cons)
qed simp

lemma add_new_idle: "(\<And>x. x \<in> set new \<Longrightarrow> has held x) \<Longrightarrow> add_new has new held = (held, 0)"
proof (induction new)
  case Nil
  then show ?case by (simp add: add_new_def)
next
  case (Cons x new)
  then show ?case by (simp add: add_new_Cons)
qed

lemma add_new_none: "snd (add_new has new held) = 0 \<Longrightarrow> fst (add_new has new held) = held"
proof (induction new)
  case (Cons x new)
  then show ?case by (simp add: add_new_Cons split: if_splits)
qed (simp add: add_new_def)

end

text \<open>\<open>addAlias\<close>: what makes a form of a name superfluous.\<close>

definition alias_known :: "(string \<Rightarrow> string) \<Rightarrow> string \<Rightarrow> string list \<Rightarrow> string \<Rightarrow> bool" where
  "alias_known acc displayName aliases candidate \<longleftrightarrow>
     (let key = normalizeName acc candidate
      in key = [] \<or> key = normalizeName acc displayName \<or> (\<exists>a\<in>set aliases. normalizeName acc a = key))"

definition attribute_held :: "(string \<times> PartyAttribute) list \<Rightarrow> string \<times> PartyAttribute \<Rightarrow> bool" where
  "attribute_held attributes x \<longleftrightarrow> map_of attributes (fst x) \<noteq> None"

definition external_held :: "ExternalId list \<Rightarrow> ExternalId \<Rightarrow> bool" where
  "external_held held x \<longleftrightarrow> x \<in> set held"

interpretation aliases: gathering "alias_known acc displayName" for acc displayName
  by unfold_locales (auto simp: alias_known_def Let_def)

interpretation attributes: gathering attribute_held
  by unfold_locales (auto simp: attribute_held_def)

interpretation externals: gathering external_held
  by unfold_locales (auto simp: external_held_def)

section \<open>Importing parties\<close>

record PartySeed =
  seed_partyId :: string
  seed_displayName :: string
  seed_aliases :: "string list"
  seed_document :: "string option"
  seed_externalIds :: "ExternalId list"
  seed_type :: "string option"

definition attributesOf :: "PartySeed \<Rightarrow> string \<Rightarrow> string \<Rightarrow> (string \<times> PartyAttribute) list" where
  "attributesOf seed sys now =
     (let imported = (\<lambda>v. \<lparr>attr_state = KNOWN, attr_value = Some v, attr_source = IMPORT, attr_confidence = 1,
                           attr_capturedAt = now, attr_capturedBy = Some sys, attr_intentId = None\<rparr>)
      in (if truthy (seed_document seed) then [(DOCUMENT_KEY, imported (the (seed_document seed)))] else [])
         @ (if truthy (seed_type seed) then [(TYPE_KEY, imported (the (seed_type seed)))] else []))"

definition build_party :: "directory_env \<Rightarrow> PartySeed \<Rightarrow> string \<Rightarrow> string \<Rightarrow> Party" where
  "build_party E seed sys now =
     \<lparr>pty_partyId = seed_partyId seed, pty_identityState = IDENTIFIED, pty_displayName = seed_displayName seed,
      pty_aliases = fst (add_new (alias_known (stripAccents E) (seed_displayName seed)) (seed_aliases seed) []),
      pty_externalIds = seed_externalIds seed, pty_attributes = attributesOf seed sys now,
      pty_mergedInto = None\<rparr>"

definition enrich :: "directory_env \<Rightarrow> Party \<Rightarrow> PartySeed \<Rightarrow> string \<Rightarrow> string \<Rightarrow> Party \<times> bool \<times> nat" where
  "enrich E p seed sys now =
     (let (aliases, aliasesAdded) =
            add_new (alias_known (stripAccents E) (pty_displayName p)) (seed_displayName seed # seed_aliases seed) (pty_aliases p);
          (externalIds, externalIdsAdded) = add_new external_held (seed_externalIds seed) (pty_externalIds p);
          (attributes, attributesAdded) = add_new attribute_held (attributesOf seed sys now) (pty_attributes p)
      in (p\<lparr>pty_aliases := aliases, pty_externalIds := externalIds, pty_attributes := attributes\<rparr>,
          0 < aliasesAdded + externalIdsAdded + attributesAdded, aliasesAdded))"

record ImportPartiesResult =
  imp_system :: string
  imp_seen :: nat
  imp_created :: nat
  imp_enriched :: nat
  imp_unchanged :: nat
  imp_aliasesAdded :: nat

definition import_seed ::
  "directory_env \<Rightarrow> string \<Rightarrow> string \<Rightarrow> PartySeed \<Rightarrow> party_store \<times> ImportPartiesResult \<Rightarrow> party_store \<times> ImportPartiesResult" where
  "import_seed E sys now seed = (\<lambda>(st, r).
     case find_party st (seed_partyId seed) of
       None \<Rightarrow> (let p = build_party E seed sys now
                in (save_party p st,
                    r\<lparr>imp_created := imp_created r + 1, imp_aliasesAdded := imp_aliasesAdded r + length (pty_aliases p)\<rparr>))
     | Some existing \<Rightarrow> (let (p, changed, n) = enrich E existing seed sys now
                        in if changed
                           then (save_party p st,
                                 r\<lparr>imp_enriched := imp_enriched r + 1, imp_aliasesAdded := imp_aliasesAdded r + n\<rparr>)
                           else (st, r\<lparr>imp_unchanged := imp_unchanged r + 1\<rparr>)))"

definition import_parties ::
  "directory_env \<Rightarrow> string \<Rightarrow> string \<Rightarrow> PartySeed list \<Rightarrow> party_store \<Rightarrow> party_store \<times> ImportPartiesResult" where
  "import_parties E sys now seeds st =
     fold (import_seed E sys now) seeds
       (st, \<lparr>imp_system = sys, imp_seen = length seeds, imp_created = 0, imp_enriched = 0, imp_unchanged = 0,
             imp_aliasesAdded = 0\<rparr>)"

subsection \<open>Importing again\<close>

definition keys_held :: "PartySeed \<Rightarrow> (string \<times> PartyAttribute) list \<Rightarrow> bool" where
  "keys_held seed held \<longleftrightarrow>
     (truthy (seed_document seed) \<longrightarrow> map_of held DOCUMENT_KEY \<noteq> None)
     \<and> (truthy (seed_type seed) \<longrightarrow> map_of held TYPE_KEY \<noteq> None)"

lemma keys_held: "(\<forall>x\<in>set (attributesOf seed sys now). attribute_held held x) \<longleftrightarrow> keys_held seed held"
  by (auto simp: attributesOf_def attribute_held_def keys_held_def Let_def)

text \<open>The party holds everything the seed says of it.\<close>

definition absorbed :: "directory_env \<Rightarrow> PartySeed \<Rightarrow> Party \<Rightarrow> bool" where
  "absorbed E seed p \<longleftrightarrow>
     (\<forall>c\<in>set (seed_displayName seed # seed_aliases seed).
        alias_known (stripAccents E) (pty_displayName p) (pty_aliases p) c)
     \<and> (\<forall>x\<in>set (seed_externalIds seed). external_held (pty_externalIds p) x)
     \<and> keys_held seed (pty_attributes p)"

lemma build_absorbed: "absorbed E seed (build_party E seed sys now)"
proof -
  have "keys_held seed (attributesOf seed sys now)"
    by (simp add: keys_held_def attributesOf_def Let_def)
  moreover have "alias_known acc n xs n" for acc n xs
    by (simp add: alias_known_def Let_def)
  ultimately show ?thesis
    unfolding absorbed_def using aliases.add_new_has by (simp add: build_party_def external_held_def)
qed

lemma enrich_parts:
  "pty_aliases (fst (enrich E p seed sys now)) =
     fst (add_new (alias_known (stripAccents E) (pty_displayName p)) (seed_displayName seed # seed_aliases seed) (pty_aliases p))"
  "pty_externalIds (fst (enrich E p seed sys now)) = fst (add_new external_held (seed_externalIds seed) (pty_externalIds p))"
  "pty_attributes (fst (enrich E p seed sys now)) = fst (add_new attribute_held (attributesOf seed sys now) (pty_attributes p))"
  "pty_displayName (fst (enrich E p seed sys now)) = pty_displayName p"
  "pty_partyId (fst (enrich E p seed sys now)) = pty_partyId p"
  by (simp_all add: enrich_def case_prod_unfold Let_def)

lemma enrich_absorbed: "absorbed E seed (fst (enrich E p seed sys now))"
  unfolding absorbed_def enrich_parts keys_held [of seed sys now, symmetric]
  using aliases.add_new_has externals.add_new_has attributes.add_new_has by blast

lemma keys_held_grows: "keys_held seed held \<Longrightarrow> keys_held seed (held @ ys)"
  by (auto simp: keys_held_def)

lemma enrich_keeps: 
  assumes "absorbed E seed p"
  shows "absorbed E seed (fst (enrich E p other sys now))"
proof -
  let ?q = "fst (enrich E p other sys now)"
  obtain xs where xs: "pty_aliases ?q = pty_aliases p @ xs"
    unfolding enrich_parts using aliases.add_new_extends by blast
  obtain ys where ys: "pty_externalIds ?q = pty_externalIds p @ ys"
    unfolding enrich_parts using externals.add_new_extends by blast
  obtain zs where zs: "pty_attributes ?q = pty_attributes p @ zs"
    unfolding enrich_parts using attributes.add_new_extends by blast
  show ?thesis
    using assms unfolding absorbed_def xs ys zs enrich_parts(4)
    by (blast intro: aliases.grows keys_held_grows externals.grows)
qed

lemma enrich_absorbed_idle:
  assumes "absorbed E seed p"
  shows "enrich E p seed sys now = (p, False, 0)"
proof -
  have "add_new (alias_known (stripAccents E) (pty_displayName p)) (seed_displayName seed # seed_aliases seed)
      (pty_aliases p) = (pty_aliases p, 0)"
    using assms unfolding absorbed_def by (blast intro: aliases.add_new_idle)
  moreover have "add_new external_held (seed_externalIds seed) (pty_externalIds p) = (pty_externalIds p, 0)"
    using assms unfolding absorbed_def by (blast intro: externals.add_new_idle)
  moreover have "add_new attribute_held (attributesOf seed sys now) (pty_attributes p) = (pty_attributes p, 0)"
    using assms unfolding absorbed_def keys_held [of seed sys now, symmetric] by (blast intro: attributes.add_new_idle)
  ultimately show ?thesis by (simp add: enrich_def)
qed

definition held_by :: "directory_env \<Rightarrow> party_store \<Rightarrow> PartySeed \<Rightarrow> bool" where
  "held_by E st seed \<longleftrightarrow> (\<exists>p. find_party st (seed_partyId seed) = Some p \<and> absorbed E seed p)"

lemma keyed_id: "keyed st \<Longrightarrow> find_party st i = Some p \<Longrightarrow> pty_partyId p = i"
  by (simp add: keyed_def find_party_def)

lemma enrich_unchanged: "fst (snd (enrich E p seed sys now)) = False \<Longrightarrow> fst (enrich E p seed sys now) = p"
  using aliases.add_new_none externals.add_new_none attributes.add_new_none
  by (auto simp: enrich_def case_prod_unfold Let_def)

lemma import_seed_keyed: "keyed st \<Longrightarrow> keyed (fst (import_seed E sys now seed (st, r)))"
  by (auto simp: import_seed_def case_prod_unfold Let_def split: option.split)

lemma import_seed_find:
  assumes "keyed st"
  shows "find_party (fst (import_seed E sys now seed (st, r))) i =
    (if i = seed_partyId seed
     then Some (case find_party st i of None \<Rightarrow> build_party E seed sys now | Some p \<Rightarrow> fst (enrich E p seed sys now))
     else find_party st i)"
proof (cases "find_party st (seed_partyId seed)")
  case None
  then show ?thesis by (simp add: import_seed_def Let_def build_party_def)
next
  case (Some p)
  have p: "pty_partyId p = seed_partyId seed" using keyed_id [OF assms Some] .
  show ?thesis
  proof (cases "fst (snd (enrich E p seed sys now))")
    case True
    then show ?thesis using Some p by (simp add: import_seed_def case_prod_unfold Let_def enrich_parts(5))
  next
    case False
    then show ?thesis
      using Some enrich_unchanged [of E p seed sys now] by (simp add: import_seed_def case_prod_unfold Let_def)
  qed
qed

lemma import_seed_holds: "keyed st \<Longrightarrow> held_by E (fst (import_seed E sys now seed (st, r))) seed"
  by (auto simp: held_by_def import_seed_find build_absorbed enrich_absorbed split: option.split)

lemma import_seed_keeps:
  "keyed st \<Longrightarrow> held_by E st other \<Longrightarrow> held_by E (fst (import_seed E sys now seed (st, r))) other"
  by (auto simp: held_by_def import_seed_find enrich_keeps)

lemma import_fold_holds:
  assumes "keyed (fst S)"
  shows "keyed (fst (fold (import_seed E sys now) seeds S)) \<and>
    (\<forall>s. held_by E (fst S) s \<or> s \<in> set seeds \<longrightarrow> held_by E (fst (fold (import_seed E sys now) seeds S)) s)"
  using assms
proof (induction seeds arbitrary: S)
  case (Cons x seeds)
  obtain st r where S: "S = (st, r)" by (cases S)
  show ?case
    using Cons.IH [of "import_seed E sys now x S"] Cons.prems import_seed_keyed [of st E sys now x r]
      import_seed_holds [of st E sys now x r] import_seed_keeps [of st E _ sys now x r]
    unfolding S by (auto simp: S)
qed simp

lemma import_seed_idle:
  "held_by E st seed \<Longrightarrow> import_seed E sys now seed (st, r) = (st, r\<lparr>imp_unchanged := imp_unchanged r + 1\<rparr>)"
  by (auto simp: held_by_def import_seed_def enrich_absorbed_idle)

lemma import_fold_idle:
  "(\<And>s. s \<in> set seeds \<Longrightarrow> held_by E st s) \<Longrightarrow>
   fold (import_seed E sys now) seeds (st, r) = (st, r\<lparr>imp_unchanged := imp_unchanged r + length seeds\<rparr>)"
  by (induction seeds arbitrary: r) (simp_all add: import_seed_idle)

lemma import_twice:
  assumes "keyed st"
  shows "import_parties E sys later seeds (fst (import_parties E sys now seeds st)) =
    (fst (import_parties E sys now seeds st),
     \<lparr>imp_system = sys, imp_seen = length seeds, imp_created = 0, imp_enriched = 0,
      imp_unchanged = length seeds, imp_aliasesAdded = 0\<rparr>)"
proof -
  have "held_by E (fst (import_parties E sys now seeds st)) s" if "s \<in> set seeds" for s
    using import_fold_holds [of "(st, _)" E sys now seeds] assms that unfolding import_parties_def by auto
  then show ?thesis
    unfolding import_parties_def [of E sys later] by (subst import_fold_idle) auto
qed

subsection \<open>An import adds, it does not overwrite\<close>

text \<open>What is known of a party is kept: its name, its identity state, its forms and its attributes.\<close>

definition kept_in :: "Party \<Rightarrow> Party \<Rightarrow> bool" where
  "kept_in p q \<longleftrightarrow>
     pty_partyId q = pty_partyId p \<and> pty_displayName q = pty_displayName p
     \<and> pty_identityState q = pty_identityState p \<and> pty_mergedInto q = pty_mergedInto p
     \<and> (\<exists>xs. pty_aliases q = pty_aliases p @ xs) \<and> (\<exists>xs. pty_externalIds q = pty_externalIds p @ xs)
     \<and> (\<exists>xs. pty_attributes q = pty_attributes p @ xs)"

lemma kept_refl: "kept_in p p"
  by (simp add: kept_in_def)

lemma kept_trans: "kept_in p q \<Longrightarrow> kept_in q r \<Longrightarrow> kept_in p r"
  by (auto simp: kept_in_def)

lemma enrich_kept: "kept_in p (fst (enrich E p seed sys now))"
proof -
  have "pty_identityState (fst (enrich E p seed sys now)) = pty_identityState p"
    "pty_mergedInto (fst (enrich E p seed sys now)) = pty_mergedInto p"
    by (simp_all add: enrich_def case_prod_unfold Let_def)
  then show ?thesis
    unfolding kept_in_def enrich_parts
    using aliases.add_new_extends externals.add_new_extends attributes.add_new_extends by blast
qed

lemma import_seed_kept:
  assumes "keyed st" "find_party st i = Some p"
  shows "\<exists>q. find_party (fst (import_seed E sys now seed (st, r))) i = Some q \<and> kept_in p q"
  using assms enrich_kept kept_refl by (auto simp: import_seed_find)

lemma import_fold_kept:
  assumes "keyed (fst S)" "find_party (fst S) i = Some p"
  shows "\<exists>q. find_party (fst (fold (import_seed E sys now) seeds S)) i = Some q \<and> kept_in p q"
  using assms
proof (induction seeds arbitrary: S p)
  case Nil
  then show ?case using kept_refl by simp
next
  case (Cons x seeds)
  obtain st r where S: "S = (st, r)" by (cases S)
  obtain q where q: "find_party (fst (import_seed E sys now x S)) i = Some q" "kept_in p q"
    using import_seed_kept Cons.prems unfolding S by (metis fst_conv)
  have "keyed (fst (import_seed E sys now x S))"
    using import_seed_keyed Cons.prems unfolding S by (metis fst_conv)
  from Cons.IH [OF this q(1)] show ?case using kept_trans [OF q(2)] by auto
qed

section \<open>Answering an enrichment question\<close>

record TreasuryAudit =
  ta_intentId :: string
  ta_at :: string
  ta_type :: string
  ta_detail :: "string option"

record RecordPartyAttributeInput =
  rpa_partyId :: string
  rpa_key :: string
  rpa_value :: "string option"
  rpa_userId :: string
  rpa_intentId :: "string option"

text \<open>The separator of the parts of an audit line is a middle dot, two bytes of UTF-8.\<close>

definition DOT :: string where
  "DOT = [CHR '' '', CHR 0xC2, CHR 0xB7, CHR '' '']"

definition single_quoted :: "string \<Rightarrow> string" where
  "single_quoted s = CHR 0x27 # s @ [CHR 0x27]"

definition record_attribute ::
  "string \<Rightarrow> RecordPartyAttributeInput \<Rightarrow> party_store \<Rightarrow> string + party_store \<times> TreasuryAudit list \<times> Party" where
  "record_attribute now inp st =
     (if rpa_key inp \<notin> set RECOMMENDED_ATTRIBUTES
      then Inl (single_quoted (rpa_key inp) @ '' is not an attribute the conversation asks for.'')
      else case find_party st (rpa_partyId inp) of
        None \<Rightarrow> Inl (''Unknown party: '' @ rpa_partyId inp)
      | Some p \<Rightarrow>
          if attributeState (pty_attributes p) (rpa_key inp) = Some KNOWN then Inr (st, [], p)
          else
            (let val = map_option trim (rpa_value inp);
                 declined = \<not> truthy val;
                 updated = p\<lparr>pty_attributes := AList.update (rpa_key inp)
                   \<lparr>attr_state = (if declined then DECLINED else KNOWN),
                    attr_value = (if declined then None else val), attr_source = AttributeSource.USER,
                    attr_confidence = 1, attr_capturedAt = now, attr_capturedBy = Some (rpa_userId inp),
                    attr_intentId = rpa_intentId inp\<rparr> (pty_attributes p)\<rparr>;
                 entry = (\<lambda>i. \<lparr>ta_intentId = i, ta_at = now, ta_type = ''party.enriched'',
                   ta_detail = Some (rpa_partyId inp @ DOT @ rpa_key inp @ DOT
                     @ (if declined then ''declined'' else ''known'') @ DOT @ ''by '' @ rpa_userId inp)\<rparr>)
             in Inr (save_party updated st, if truthy (rpa_intentId inp) then [entry (the (rpa_intentId inp))] else [],
                     updated)))"

text \<open>A known attribute stays as it is, and a key once asked for is never missing again.\<close>

lemma record_attribute_keeps_known:
  assumes "record_attribute now inp st = Inr (st', entries, q)" "find_party st (rpa_partyId inp) = Some p"
    "map_of (pty_attributes p) key = Some a" "attr_state a = KNOWN"
  shows "map_of (pty_attributes q) key = Some a"
  using assms by (auto simp: record_attribute_def attributeState_def Let_def map_of_update split: if_splits)

lemma record_attribute_settles:
  assumes "record_attribute now inp st = Inr (st', entries, q)"
  shows "rpa_key inp \<notin> set (cmp_missing (completenessOf q))"
  using assms
  by (auto simp: record_attribute_def attributeState_def completenessOf_def Let_def map_of_update
      split: if_splits option.splits)

section \<open>What the directory still lacks\<close>

definition incomplete_compare :: "directory_env \<Rightarrow> PartyCompleteness \<Rightarrow> PartyCompleteness \<Rightarrow> int" where
  "incomplete_compare E a b =
     (let d = int (length (cmp_missing b)) - int (length (cmp_missing a))
      in if d \<noteq> 0 then d else localeCompare E (cmp_partyId a) (cmp_partyId b))"

definition list_incomplete :: "directory_env \<Rightarrow> party_store \<Rightarrow> PartyCompleteness list" where
  "list_incomplete E st =
     sort_by (incomplete_compare E)
       (filter (\<lambda>c. 0 < length (cmp_missing c))
         (map completenessOf (filter (\<lambda>p. pty_identityState p = IDENTIFIED) (all_parties st))))"

text \<open>The list holds exactly the parties worth asking about.\<close>

lemma list_incomplete_worth:
  "mset (list_incomplete E st) = mset (map completenessOf (filter isWorthAsking (all_parties st)))"
proof -
  have "filter (\<lambda>c. 0 < length (cmp_missing c)) (map completenessOf (filter (\<lambda>p. pty_identityState p = IDENTIFIED) ps)) =
      map completenessOf (filter isWorthAsking ps)" for ps
    by (induction ps) (auto simp: isWorthAsking_def)
  then show ?thesis by (simp add: list_incomplete_def)
qed

section \<open>Measuring a corpus of mentions\<close>

record ResolutionMeasurement =
  ms_total :: nat
  ms_exact :: nat
  ms_needsConfirmation :: nat
  ms_ambiguous :: nat
  ms_unresolved :: nat
  ms_ambiguousSamples :: "(string \<times> ResolutionCandidate list) list"
  ms_unresolvedSamples :: "string list"

definition SAMPLE_LIMIT :: nat where "SAMPLE_LIMIT = 10"

definition measure_one :: "(string \<Rightarrow> Resolution) \<Rightarrow> string \<Rightarrow> ResolutionMeasurement \<Rightarrow> ResolutionMeasurement" where
  "measure_one resolve mention m =
     (case resolve mention of
        Resolved _ _ _ _ needsConfirmation \<Rightarrow>
          if needsConfirmation then m\<lparr>ms_needsConfirmation := ms_needsConfirmation m + 1\<rparr>
          else m\<lparr>ms_exact := ms_exact m + 1\<rparr>
      | Ambiguous _ cs \<Rightarrow>
          m\<lparr>ms_ambiguous := ms_ambiguous m + 1,
            ms_ambiguousSamples :=
              (if length (ms_ambiguousSamples m) < SAMPLE_LIMIT then ms_ambiguousSamples m @ [(mention, cs)]
               else ms_ambiguousSamples m)\<rparr>
      | New _ \<Rightarrow>
          m\<lparr>ms_unresolved := ms_unresolved m + 1,
            ms_unresolvedSamples :=
              (if length (ms_unresolvedSamples m) < SAMPLE_LIMIT then ms_unresolvedSamples m @ [mention]
               else ms_unresolvedSamples m)\<rparr>)"

definition measure_resolution :: "(string \<Rightarrow> Resolution) \<Rightarrow> string list \<Rightarrow> ResolutionMeasurement" where
  "measure_resolution resolve mentions =
     fold (measure_one resolve) mentions
       \<lparr>ms_total = length mentions, ms_exact = 0, ms_needsConfirmation = 0, ms_ambiguous = 0, ms_unresolved = 0,
        ms_ambiguousSamples = [], ms_unresolvedSamples = []\<rparr>"

text \<open>Every mention is counted once, exact exactly when its identity may be recorded.\<close>

definition measured :: "ResolutionMeasurement \<Rightarrow> nat" where
  "measured m = ms_exact m + ms_needsConfirmation m + ms_ambiguous m + ms_unresolved m"

lemma measure_one_counts:
  "measured (measure_one resolve x m) = Suc (measured m)"
  "ms_total (measure_one resolve x m) = ms_total m"
  "ms_exact (measure_one resolve x m) = ms_exact m + (if isRecordable (resolve x) then 1 else 0)"
  by (auto simp: measure_one_def measured_def isRecordable_def split: Resolution.splits)

lemma measure_fold_counts:
  "measured (fold (measure_one resolve) xs m) = measured m + length xs"
  "ms_total (fold (measure_one resolve) xs m) = ms_total m"
  "ms_exact (fold (measure_one resolve) xs m) = ms_exact m + length (filter (isRecordable \<circ> resolve) xs)"
  by (induction xs arbitrary: m) (simp_all add: measure_one_counts)

lemma measurement_total:
  "measured (measure_resolution resolve mentions) = ms_total (measure_resolution resolve mentions)"
  "ms_exact (measure_resolution resolve mentions) = length (filter (isRecordable \<circ> resolve) mentions)"
  unfolding measure_resolution_def by (simp_all add: measure_fold_counts) (simp add: measured_def)

end
