(* ===== verification/Conversation.thy ===== *)
theory Conversation
  imports Scenarios Party_Upkeep Ledger_Money
begin

text \<open>
  The guided conversation of the treasury: the intent and its life cycle (\<open>Intent.ts\<close>), the dialog
  engine (\<open>DialogEngine.ts\<close>), the in-memory repository and audit log, and the use cases
  \<open>StartIntent\<close>, \<open>AdvanceDialog\<close>, \<open>ApplyAnswers\<close>, \<open>DecideIdentity\<close>, \<open>GetIntent\<close> and \<open>ListIntents\<close>. A
  thrown error is its message and leaves the state as it was before the call, since the use cases work
  on a copy until they save. The readings of the clock within one call are numbered, and the identifiers the call
  generates are its arguments.
\<close>

section \<open>Intents\<close>

datatype IntentStatus =
    DRAFT
  | GATHERING
  | AWAITING_CONFIRMATION
  | CONFIRMED
  | SUBMITTED
  | AWAITING_CORRECTION
  | ACCEPTED
  | REJECTED

fun intentStatus_value :: "IntentStatus \<Rightarrow> string" where
  "intentStatus_value DRAFT = ''draft''"
| "intentStatus_value GATHERING = ''gathering''"
| "intentStatus_value AWAITING_CONFIRMATION = ''awaiting_confirmation''"
| "intentStatus_value CONFIRMED = ''confirmed''"
| "intentStatus_value SUBMITTED = ''submitted''"
| "intentStatus_value AWAITING_CORRECTION = ''awaiting_correction''"
| "intentStatus_value ACCEPTED = ''accepted''"
| "intentStatus_value REJECTED = ''rejected''"

type_synonym answers = "(string \<times> string) list"

record Intent =
  it_id :: string
  it_scenarioId :: string
  it_userId :: string
  it_status :: IntentStatus
  it_answers :: answers
  it_createdAt :: string
  it_updatedAt :: string
  it_ledgerReference :: "string option"
  it_rejectionReason :: "string option"

definition start_intent :: "string \<Rightarrow> string \<Rightarrow> string \<Rightarrow> string \<Rightarrow> Intent" where
  "start_intent i scenarioId userId now =
     \<lparr>it_id = i, it_scenarioId = scenarioId, it_userId = userId, it_status = GATHERING, it_answers = [],
      it_createdAt = now, it_updatedAt = now, it_ledgerReference = None, it_rejectionReason = None\<rparr>"

definition record_answer :: "string \<Rightarrow> string \<Rightarrow> string \<Rightarrow> Intent \<Rightarrow> Intent" where
  "record_answer key v now it =
     it\<lparr>it_answers := AList.update key v (it_answers it), it_status := GATHERING, it_updatedAt := now\<rparr>"

definition markAwaitingConfirmation :: "string \<Rightarrow> Intent \<Rightarrow> Intent" where
  "markAwaitingConfirmation now it = it\<lparr>it_status := AWAITING_CONFIRMATION, it_updatedAt := now\<rparr>"

definition markSubmitted :: "string \<Rightarrow> Intent \<Rightarrow> string + Intent" where
  "markSubmitted now it =
     (if it_status it \<noteq> AWAITING_CONFIRMATION
      then Inl (''Intent '' @ it_id it @ '' is not ready to submit (status: ''
                @ intentStatus_value (it_status it) @ '').'')
      else Inr (it\<lparr>it_status := SUBMITTED, it_updatedAt := now\<rparr>))"

definition markAwaitingCorrection :: "string \<Rightarrow> Intent \<Rightarrow> Intent" where
  "markAwaitingCorrection now it = it\<lparr>it_status := AWAITING_CORRECTION, it_updatedAt := now\<rparr>"

definition markAccepted :: "string \<Rightarrow> string \<Rightarrow> Intent \<Rightarrow> Intent" where
  "markAccepted ledgerReference now it =
     it\<lparr>it_status := ACCEPTED, it_ledgerReference := Some ledgerReference, it_updatedAt := now\<rparr>"

definition markRejected :: "string \<Rightarrow> string \<Rightarrow> Intent \<Rightarrow> Intent" where
  "markRejected reason now it =
     it\<lparr>it_status := REJECTED, it_rejectionReason := Some reason, it_updatedAt := now\<rparr>"

section \<open>The dialog engine\<close>

definition isBlank :: "string option \<Rightarrow> bool" where
  "isBlank v = (case v of None \<Rightarrow> True | Some s \<Rightarrow> trim s = [])"

datatype DialogState = Question SlotDefinition nat nat | Ready nat nat

record SlotValidationError =
  sve_key :: string
  sve_message :: string

definition nextState :: "Scenario \<Rightarrow> answers \<Rightarrow> DialogState" where
  "nextState s a =
     (let total = length (sc_slots s);
          answered = length (filter (\<lambda>x. \<not> isBlank (map_of a (sl_key x))) (sc_slots s))
      in case find (\<lambda>x. sl_required x \<and> isBlank (map_of a (sl_key x))) (sc_slots s) of
           Some x \<Rightarrow> Question x answered total
         | None \<Rightarrow> Ready answered total)"

definition is_ready :: "DialogState \<Rightarrow> bool" where
  "is_ready d = (case d of Ready _ _ \<Rightarrow> True | _ \<Rightarrow> False)"

fun join_with :: "string \<Rightarrow> string list \<Rightarrow> string" where
  "join_with sep [] = []"
| "join_with sep [x] = x"
| "join_with sep (x # xs) = x @ sep @ join_with sep xs"

text \<open>\<open>Number(value) <= 0\<close> for a text that is a decimal: all its digits are zero.\<close>

definition not_positive :: "string \<Rightarrow> bool" where
  "not_positive v \<longleftrightarrow> list_all (\<lambda>c. c = CHR ''0'' \<or> c = CHR ''.'') v"

text \<open>Unparsed dates are those \<open>Date.parse\<close> gives no number for.\<close>

definition validateAnswer :: "(string \<Rightarrow> int option) \<Rightarrow> SlotDefinition \<Rightarrow> string \<Rightarrow> SlotValidationError option" where
  "validateAnswer parse x v =
     (let err = (\<lambda>m. Some \<lparr>sve_key = sl_key x, sve_message = m\<rparr>)
      in if sl_required x \<and> isBlank (Some v) then err (sl_prompt x @ '' is required.'')
         else if isBlank (Some v) then None
         else case sl_type x of
             SlotType.MONEY \<Rightarrow>
               (if \<not> is_decimal v then err ''Enter a valid amount, e.g. 1500.00.''
                else if not_positive v then err ''Amount must be greater than zero.''
                else None)
           | SlotType.DATE \<Rightarrow> (if parse v = None then err ''Enter a valid date.'' else None)
           | SlotType.CHOICE \<Rightarrow>
               (case sl_choices x of
                  Some cs \<Rightarrow> if v \<notin> set cs then err (''Choose one of: '' @ join_with '', '' cs @ ''.'') else None
                | None \<Rightarrow> None)
           | _ \<Rightarrow> None)"

section \<open>The state of the treasury\<close>

record treasury_env =
  te_directory :: directory_env
  te_threshold :: rat
  te_dateParse :: "string \<Rightarrow> int option"
  te_isoString :: "int \<Rightarrow> string"
  te_usina :: string

record treasury =
  tr_intents :: "(string \<times> Intent) list"
  tr_parties :: party_store
  tr_audit :: "TreasuryAudit list"

definition find_intent :: "treasury \<Rightarrow> string \<Rightarrow> Intent option" where
  "find_intent T i = map_of (tr_intents T) i"

definition save_intent :: "Intent \<Rightarrow> treasury \<Rightarrow> treasury" where
  "save_intent it T = T\<lparr>tr_intents := AList.update (it_id it) it (tr_intents T)\<rparr>"

definition list_by_user :: "treasury \<Rightarrow> string \<Rightarrow> Intent list" where
  "list_by_user T u = filter (\<lambda>it. it_userId it = u) (map snd (tr_intents T))"

definition audit :: "string \<Rightarrow> string \<Rightarrow> string \<Rightarrow> string option \<Rightarrow> TreasuryAudit" where
  "audit i t ty detail = \<lparr>ta_intentId = i, ta_at = t, ta_type = ty, ta_detail = detail\<rparr>"

definition journal :: "TreasuryAudit list \<Rightarrow> treasury \<Rightarrow> treasury" where
  "journal es T = T\<lparr>tr_audit := tr_audit T @ es\<rparr>"

definition listByIntent :: "treasury \<Rightarrow> string \<Rightarrow> TreasuryAudit list" where
  "listByIntent T i = filter (\<lambda>e. ta_intentId e = i) (tr_audit T)"

text \<open>The intent a call names and its scenario, or the error the call throws.\<close>

definition intent_and_scenario :: "treasury \<Rightarrow> string \<Rightarrow> string + Intent \<times> Scenario" where
  "intent_and_scenario T i =
     (case find_intent T i of
        None \<Rightarrow> Inl (''Unknown intent: '' @ i)
      | Some it \<Rightarrow>
          (case getScenario (it_scenarioId it) of
             None \<Rightarrow> Inl (''Unknown scenario: '' @ it_scenarioId it)
           | Some s \<Rightarrow> Inr (it, s)))"

section \<open>Starting\<close>

definition start_use_case ::
  "string \<Rightarrow> (nat \<Rightarrow> string) \<Rightarrow> string \<Rightarrow> string \<Rightarrow> treasury \<Rightarrow> string + treasury \<times> string \<times> DialogState" where
  "start_use_case newId now scenarioId userId T =
     (case getScenario scenarioId of
        None \<Rightarrow> Inl (''Unknown scenario: '' @ scenarioId)
      | Some s \<Rightarrow>
          (let it = start_intent newId (sc_id s) userId (now 0)
           in Inr (journal [audit newId (now 1) ''intent.started'' (Some (sc_id s))] (save_intent it T),
                   newId, nextState s (it_answers it))))"

section \<open>Identity of a party slot\<close>

definition resolveIdentitySlot :: "treasury_env \<Rightarrow> party_store \<Rightarrow> SlotDefinition \<Rightarrow> string \<Rightarrow> Resolution option" where
  "resolveIdentitySlot E ps x v =
     (if sl_type x \<noteq> SlotType.PARTY then None
      else Some (directory_resolve (te_directory E) (te_threshold E) ps
                   \<lparr>rq_mention = v, rq_document = None, rq_externalId = None\<rparr>))"

fun resolutionRule_value :: "ResolutionRule \<Rightarrow> string" where
  "resolutionRule_value EXACT_ID = ''exact_id''"
| "resolutionRule_value EXACT_DOCUMENT = ''exact_document''"
| "resolutionRule_value EXACT_EXTERNAL_ID = ''exact_external_id''"
| "resolutionRule_value EXACT_NAME = ''exact_name''"
| "resolutionRule_value SIMILARITY = ''similarity''"

definition ARROW :: string where
  "ARROW = [CHR '' '', CHR 0xE2, CHR 0x86, CHR 0x92, CHR '' '']"

definition auditDetail :: "string \<Rightarrow> Resolution \<Rightarrow> string" where
  "auditDetail key r =
     (let mention = (\<lambda>m. key @ '': '' @ [CHR 0x22] @ mn_text m @ [CHR 0x22] @ ARROW)
      in case r of
           Resolved m i rule _ needsConfirmation \<Rightarrow>
             mention m @ i @ '' via '' @ resolutionRule_value rule @ (if needsConfirmation then '' (needs confirmation)'' else [])
         | Ambiguous m cs \<Rightarrow> mention m @ ''ambiguous ['' @ join_with '', '' (map rc_partyId cs) @ '']''
         | New m \<Rightarrow> mention m @ ''no known party'')"

section \<open>One answer\<close>

record AdvanceDialogResult =
  adr_state :: DialogState
  adr_error :: "SlotValidationError option"
  adr_identity :: "(string \<times> Resolution) option"

definition advance_dialog ::
  "treasury_env \<Rightarrow> (nat \<Rightarrow> string) \<Rightarrow> string \<Rightarrow> string \<Rightarrow> string \<Rightarrow> treasury \<Rightarrow> string + treasury \<times> AdvanceDialogResult" where
  "advance_dialog E now i key v T =
     ebind (intent_and_scenario T i) (\<lambda>(it, s).
       case find (\<lambda>x. sl_key x = key) (sc_slots s) of
         None \<Rightarrow> Inl (''Unknown slot '' @ single_quoted key @ '' for scenario '' @ single_quoted (sc_id s))
       | Some x \<Rightarrow>
           (case validateAnswer (te_dateParse E) x v of
              Some e \<Rightarrow>
                Inr (journal [audit (it_id it) (now 0) ''slot.rejected'' (Some (key @ '': '' @ sve_message e))] T,
                     \<lparr>adr_state = nextState s (it_answers it), adr_error = Some e, adr_identity = None\<rparr>)
            | None \<Rightarrow>
                (let resolution = resolveIdentitySlot E (tr_parties T) x v;
                     asked = (case resolution of None \<Rightarrow> []
                              | Some r \<Rightarrow> [audit (it_id it) (now 0) ''identity.resolution'' (Some (auditDetail key r))]);
                     k = length asked;
                     valueToRecord = (case resolution of None \<Rightarrow> Some v | Some r \<Rightarrow> recordableId r);
                     identity = map_option (Pair key) resolution
                 in case valueToRecord of
                      None \<Rightarrow>
                        Inr (journal asked T,
                             \<lparr>adr_state = nextState s (it_answers it), adr_error = None, adr_identity = identity\<rparr>)
                    | Some w \<Rightarrow>
                        (let it1 = record_answer key w (now k) it;
                             st = nextState s (it_answers it1);
                             it2 = (if is_ready st then markAwaitingConfirmation (now (k + 2)) it1 else it1)
                         in Inr (save_intent it2
                                   (journal (asked @ [audit (it_id it) (now (k + 1)) ''slot.answered'' (Some key)]) T),
                                 \<lparr>adr_state = st, adr_error = None, adr_identity = identity\<rparr>)))))"

section \<open>Many answers\<close>

datatype ApplyMode = Fill | Edit

record merge_state =
  mg_intent :: Intent
  mg_audit :: "TreasuryAudit list"
  mg_rejected :: "SlotValidationError list"
  mg_skipped :: "string list"
  mg_identity :: "(string \<times> Resolution) list"
  mg_recorded :: nat

definition apply_answer ::
  "treasury_env \<Rightarrow> party_store \<Rightarrow> string \<Rightarrow> Scenario \<Rightarrow> ApplyMode \<Rightarrow> string \<times> string \<Rightarrow> merge_state \<Rightarrow> merge_state" where
  "apply_answer E ps now s mode kv M =
     (let (key, v) = kv; it = mg_intent M
      in case find (\<lambda>x. sl_key x = key) (sc_slots s) of
        None \<Rightarrow>
          M\<lparr>mg_rejected := mg_rejected M @ [\<lparr>sve_key = key,
              sve_message = ''Unknown slot '' @ single_quoted key @ '' for scenario '' @ single_quoted (sc_id s) @ ''.''\<rparr>]\<rparr>
      | Some x \<Rightarrow>
          if mode = Fill \<and> \<not> isBlank (map_of (it_answers it) key)
          then M\<lparr>mg_skipped := mg_skipped M @ [key]\<rparr>
          else
            (case validateAnswer (te_dateParse E) x v of
               Some e \<Rightarrow>
                 M\<lparr>mg_rejected := mg_rejected M @ [e],
                   mg_audit := mg_audit M @ [audit (it_id it) now ''slot.rejected'' (Some (key @ '': '' @ sve_message e))]\<rparr>
             | None \<Rightarrow>
                 (let resolution = resolveIdentitySlot E ps x v;
                      M1 = (case resolution of None \<Rightarrow> M
                            | Some r \<Rightarrow> M\<lparr>mg_identity := mg_identity M @ [(key, r)],
                                         mg_audit := mg_audit M @ [audit (it_id it) now ''identity.resolution'' (Some (auditDetail key r))]\<rparr>);
                      valueToRecord = (case resolution of None \<Rightarrow> Some v | Some r \<Rightarrow> recordableId r)
                  in case valueToRecord of
                       None \<Rightarrow> M1
                     | Some w \<Rightarrow>
                         M1\<lparr>mg_intent := record_answer key w now it,
                            mg_audit := mg_audit M1 @ [audit (it_id it) now ''slot.answered'' (Some key)],
                            mg_recorded := mg_recorded M1 + 1\<rparr>)))"

record ApplyAnswersResult =
  aar_state :: DialogState
  aar_rejected :: "SlotValidationError list"
  aar_skipped :: "string list"
  aar_identity :: "(string \<times> Resolution) list"

definition apply_answers ::
  "treasury_env \<Rightarrow> string \<Rightarrow> string \<Rightarrow> (string \<times> string) list \<Rightarrow> ApplyMode \<Rightarrow> treasury
    \<Rightarrow> string + treasury \<times> ApplyAnswersResult" where
  "apply_answers E now i answers mode T =
     ebind (intent_and_scenario T i) (\<lambda>(it, s).
       let M = fold (apply_answer E (tr_parties T) now s mode) answers
             \<lparr>mg_intent = it, mg_audit = [], mg_rejected = [], mg_skipped = [], mg_identity = [], mg_recorded = 0\<rparr>;
           st = nextState s (it_answers (mg_intent M));
           it1 = (if is_ready st then markAwaitingConfirmation now (mg_intent M) else mg_intent M);
           T1 = journal (mg_audit M) T
       in Inr (if 0 < mg_recorded M then save_intent it1 T1 else T1,
               \<lparr>aar_state = st, aar_rejected = mg_rejected M, aar_skipped = mg_skipped M,
                aar_identity = mg_identity M\<rparr>))"

section \<open>Deciding an identity\<close>

datatype IdentityDecisionKind = CREATE | UNIDENTIFIABLE_PARTY

fun identityDecisionKind_value :: "IdentityDecisionKind \<Rightarrow> string" where
  "identityDecisionKind_value CREATE = ''create''"
| "identityDecisionKind_value UNIDENTIFIABLE_PARTY = ''unidentifiable''"

record IdentityDecision =
  idd_kind :: IdentityDecisionKind
  idd_partyId :: string
  idd_mention :: string
  idd_slot :: string
  idd_justification :: "string option"
  idd_decidedBy :: string
  idd_decidedAt :: string
  idd_intentId :: string

definition UNIDENTIFIABLE_LABEL :: string where
  "UNIDENTIFIABLE_LABEL = ''Contraparte n'' @ [CHR 0xC3, CHR 0xA3] @ ''o identificada''"

definition new_party :: "string \<Rightarrow> PartyIdentityState \<Rightarrow> string \<Rightarrow> Party" where
  "new_party freshId state displayName =
     \<lparr>pty_partyId = ''party-'' @ freshId, pty_identityState = state, pty_displayName = displayName,
      pty_aliases = [], pty_externalIds = [], pty_attributes = [], pty_mergedInto = None\<rparr>"

definition buildCreated :: "string \<Rightarrow> string \<Rightarrow> string + Party" where
  "buildCreated freshId mention =
     (if mention = []
      then Inl (''Creating a party needs the name the user used '' @ [CHR 0xE2, CHR 0x80, CHR 0x94]
                @ '' there is nothing to record.'')
      else Inr (new_party freshId IDENTIFIED mention))"

definition buildUnidentifiable :: "string \<Rightarrow> bool \<Rightarrow> string \<Rightarrow> string option \<Rightarrow> string + Party" where
  "buildUnidentifiable freshId allowed mention justification =
     (if \<not> allowed then Inl ''This operation does not admit an unidentifiable counterparty.''
      else if \<not> truthy (map_option trim justification)
      then Inl ''Declaring a counterparty unidentifiable requires a justification.''
      else Inr (new_party freshId UNIDENTIFIABLE (if mention = [] then UNIDENTIFIABLE_LABEL else mention)))"

definition decide_identity ::
  "string \<Rightarrow> string \<Rightarrow> string \<Rightarrow> string \<Rightarrow> IdentityDecisionKind \<Rightarrow> string option \<Rightarrow> string option \<Rightarrow> string \<Rightarrow> treasury
    \<Rightarrow> string + treasury \<times> IdentityDecision \<times> DialogState" where
  "decide_identity freshId now i key kind mention0 justification userId T =
     ebind (intent_and_scenario T i) (\<lambda>(it, s).
       case find (\<lambda>x. sl_key x = key) (sc_slots s) of
         None \<Rightarrow> Inl (''Unknown slot '' @ single_quoted key @ '' for scenario '' @ single_quoted (sc_id s))
       | Some x \<Rightarrow>
           if sl_type x \<noteq> SlotType.PARTY then Inl (''Slot '' @ single_quoted key @ '' does not hold an identity.'')
           else
             (let mention = trim (case mention0 of None \<Rightarrow> [] | Some m \<Rightarrow> m)
              in ebind (if kind = CREATE then buildCreated freshId mention
                        else buildUnidentifiable freshId (sl_allowUnidentifiable x) mention justification) (\<lambda>p.
                let it1 = record_answer key (pty_partyId p) now it;
                    why = map_option trim justification;
                    decision = \<lparr>idd_kind = kind, idd_partyId = pty_partyId p, idd_mention = mention, idd_slot = key,
                      idd_justification = (if truthy why then why else None), idd_decidedBy = userId,
                      idd_decidedAt = now, idd_intentId = it_id it\<rparr>;
                    detail = identityDecisionKind_value kind @ DOT @ key @ DOT @ [CHR 0x22] @ mention @ [CHR 0x22] @ ARROW
                      @ pty_partyId p @ DOT @ ''by '' @ userId @ (if truthy why then DOT @ the why else []);
                    st = nextState s (it_answers it1);
                    it2 = (if is_ready st then markAwaitingConfirmation now it1 else it1);
                    T1 = T\<lparr>tr_parties := save_party p (tr_parties T)\<rparr>
                in Inr (save_intent it2
                          (journal [audit (it_id it) now ''identity.decision'' (Some detail),
                                    audit (it_id it) now ''slot.answered'' (Some key)] T1),
                        decision, st))))"

section \<open>Reading\<close>

record GetIntentResult =
  gir_intent :: Intent
  gir_scenarioTitle :: string
  gir_history :: "TreasuryAudit list"

definition scenario_title :: "string \<Rightarrow> string" where
  "scenario_title i = (case getScenario i of None \<Rightarrow> i | Some s \<Rightarrow> sc_title s)"

definition get_intent :: "treasury \<Rightarrow> string \<Rightarrow> string + GetIntentResult" where
  "get_intent T i =
     (case find_intent T i of
        None \<Rightarrow> Inl (''Unknown intent: '' @ i)
      | Some it \<Rightarrow> Inr \<lparr>gir_intent = it, gir_scenarioTitle = scenario_title (it_scenarioId it),
                      gir_history = listByIntent T i\<rparr>)"

record IntentSummary =
  isu_id :: string
  isu_scenarioId :: string
  isu_scenarioTitle :: string
  isu_status :: IntentStatus
  isu_updatedAt :: string

definition list_intents :: "directory_env \<Rightarrow> treasury \<Rightarrow> string \<Rightarrow> IntentSummary list" where
  "list_intents E T u =
     sort_by (\<lambda>a b. localeCompare E (isu_updatedAt b) (isu_updatedAt a))
       (map (\<lambda>it. \<lparr>isu_id = it_id it, isu_scenarioId = it_scenarioId it,
                   isu_scenarioTitle = scenario_title (it_scenarioId it), isu_status = it_status it,
                   isu_updatedAt = it_updatedAt it\<rparr>) (list_by_user T u))"

end
