(* ===== verification/Ledger_Read_Models.thy ===== *)
theory Ledger_Read_Models
  imports Ledger_Prelude
begin

text \<open>
  What the treasury keeps of the ledger's answers (\<open>LedgerReadModels.ts\<close> and the read ports). Amounts and
  instants stay the texts the ledger published; the treasury never recomputes them.
\<close>

section \<open>One recorded event\<close>

record RecordedObject =
  ro_objectId :: string
  ro_objectType :: string
  ro_relation :: string

record RecordedParty =
  rp_partyId :: string
  rp_role :: string
  rp_direction :: string
  rp_amount :: "string option"

record RecordedSource =
  rs_system :: string
  rs_reference :: string

record RecordedEntry =
  re_eventId :: string
  re_eventType :: string
  re_economicEffect :: string
  re_amount :: string
  re_currency :: string
  re_occurredAt :: string
  re_description :: "string option"
  re_relatedEventId :: "string option"
  re_objects :: "RecordedObject list"
  re_parties :: "RecordedParty list"
  re_source :: RecordedSource

section \<open>The life of a position\<close>

record LifecycleEvent =
  lc_eventId :: string
  lc_eventType :: string
  lc_economicEffect :: string
  lc_relation :: "string option"
  lc_amount :: string
  lc_currency :: string
  lc_occurredAt :: string
  lc_recordedAt :: string
  lc_description :: "string option"
  lc_relatedEventId :: "string option"
  lc_retracted :: bool
  lc_requiresFollowup :: bool
  lc_objects :: "RecordedObject list"
  lc_source :: RecordedSource
  lc_parties :: "RecordedParty list"

record PositionOriginRef =
  por_eventId :: string
  por_eventType :: string
  por_occurredAt :: string
  por_source :: RecordedSource
  por_relatedObjects :: "RecordedObject list"
  por_parties :: "RecordedParty list"

record PositionLifecycle =
  plc_objectId :: string
  plc_objectType :: string
  plc_status :: string
  plc_outcome :: string
  plc_currency :: string
  plc_totalOriginated :: string
  plc_totalSettled :: string
  plc_openBalance :: "string option"
  plc_eventCount :: int
  plc_events :: "LifecycleEvent list"
  plc_origin :: "PositionOriginRef option"

section \<open>Positions in a list\<close>

record PositionItem =
  tp_objectId :: string
  tp_objectType :: string
  tp_status :: string
  tp_outcome :: string
  tp_currency :: string
  tp_totalOriginated :: string
  tp_openBalance :: "string option"
  tp_eventCount :: int
  tp_lastEventAt :: "string option"
  tp_originatedAt :: "string option"
  tp_createdAt :: "string option"
  tp_dueAt :: "string option"
  tp_parties :: "string list option"

record PositionCandidate =
  pca_objectId :: string
  pca_objectType :: string
  pca_originEventId :: "string option"
  pca_counterpartyId :: "string option"
  pca_totalOriginated :: string
  pca_openBalance :: "string option"
  pca_currency :: string
  pca_originatedAt :: "string option"

text \<open>The questions a list can be asked; a filter that was not chosen is empty or \<open>None\<close>.\<close>

record PositionsQuery =
  qp_limit :: "int option"
  qp_page :: "int option"
  qp_status :: "string list"
  qp_objectType :: "string list"
  qp_partyId :: "string list"
  qp_outcome :: "string option"
  qp_from :: "string option"
  qp_to :: "string option"
  qp_sortBy :: "string option"
  qp_sortOrder :: "string option"

definition all_positions :: PositionsQuery where
  "all_positions =
     \<lparr>qp_limit = None, qp_page = None, qp_status = [], qp_objectType = [], qp_partyId = [], qp_outcome = None,
      qp_from = None, qp_to = None, qp_sortBy = None, qp_sortOrder = None\<rparr>"

record CashMovementsQuery =
  qm_partyId :: "string option"
  qm_effect :: "string option"
  qm_from :: "string option"
  qm_to :: "string option"
  qm_limit :: "int option"
  qm_cursor :: "string option"
  qm_page :: "int option"
  qm_sortBy :: "string option"
  qm_sortOrder :: "string option"

definition all_movements :: CashMovementsQuery where
  "all_movements =
     \<lparr>qm_partyId = None, qm_effect = None, qm_from = None, qm_to = None, qm_limit = None, qm_cursor = None,
      qm_page = None, qm_sortBy = None, qm_sortOrder = None\<rparr>"

section \<open>The feed of what was recorded\<close>

record RecordedEvent =
  rev_eventId :: string
  rev_objectIds :: "string list"

end
