(* ===== verification/Candidate_Mapping.thy ===== *)
theory Candidate_Mapping
  imports Scenario_Mappings Conversation Ledger_Read_Models
begin

text \<open>
  What the treasury proposes to the ledger: \<open>Candidate.ts\<close>, \<open>instant.ts\<close> and the two directions of
  \<open>CandidateMapper.ts\<close>, \<open>build\<close> from a confirmed intent to a candidate and \<open>planReissue\<close> from a
  recorded entry back to the answers that would produce it. A field the code leaves undefined is
  \<open>None\<close>; reading a missing date is the \<open>TypeError\<close> of \<open>undefined.trim()\<close>, writing an invalid one the
  \<open>RangeError\<close> of \<open>toISOString\<close>.
\<close>

section \<open>Candidates\<close>

record CandidateParty =
  cp_partyId :: "string option"
  cp_role :: string
  cp_direction :: string
  cp_amount :: "string option"

record CandidateObject =
  co_objectId :: string
  co_objectKind :: string
  co_relation :: string

record CandidateReason =
  cr_type :: string
  cr_description :: string
  cr_confidence :: string
  cr_requiresFollowup :: bool

record Candidate =
  cd_sourceReference :: string
  cd_eventType :: string
  cd_economicEffect :: string
  cd_occurredAt :: string
  cd_dueAt :: "string option"
  cd_amount :: "string option"
  cd_currency :: "string option"
  cd_description :: "string option"
  cd_relatedEventId :: "string option"
  cd_parties :: "CandidateParty list"
  cd_objects :: "CandidateObject list"
  cd_reason :: CandidateReason
  cd_reporterType :: string
  cd_reporterId :: string
  cd_channel :: string

section \<open>Instants\<close>

definition bare_date :: "string \<Rightarrow> bool" where
  "bare_date v \<longleftrightarrow>
     length v = 10 \<and> v ! 4 = CHR ''-'' \<and> v ! 7 = CHR ''-'' \<and> list_all is_digit (take 4 v @ take 2 (drop 5 v) @ drop 8 v)"

definition parse_answer :: "treasury_env \<Rightarrow> string \<Rightarrow> int option" where
  "parse_answer E v =
     (let trimmed = trim v in te_dateParse E (if bare_date trimmed then trimmed @ ''T00:00:00'' else trimmed))"

definition toInstantISO :: "treasury_env \<Rightarrow> string option \<Rightarrow> string + string" where
  "toInstantISO E v =
     (case v of
        None \<Rightarrow> Inl (''Cannot read properties of undefined (reading '' @ single_quoted ''trim'' @ '')'')
      | Some s \<Rightarrow> (case parse_answer E s of
                    None \<Rightarrow> Inl ''Invalid time value''
                  | Some t \<Rightarrow> Inr (te_isoString E t)))"

section \<open>From an intent to a candidate\<close>

definition UNIDENTIFIED_COUNTERPARTY :: string where
  "UNIDENTIFIED_COUNTERPARTY = ''counterparty not identified''"

text \<open>An answer that is there and not blank, trimmed.\<close>

definition filled :: "answers \<Rightarrow> string option \<Rightarrow> string option" where
  "filled a key = (case Option.bind key (map_of a) of None \<Rightarrow> None | Some v \<Rightarrow> if trim v = [] then None else Some (trim v))"

definition override_of :: "ScenarioMapping \<Rightarrow> answers \<Rightarrow> TupleOverride" where
  "override_of m a =
     (case sm_variants m of
        None \<Rightarrow> no_override
      | Some (selector, byChoice) \<Rightarrow> or_else (Option.bind (map_of a selector) (map_of byChoice)) no_override)"

text \<open>The reason type, its text and the follow-up flag, in the order the code settles them.\<close>

definition reason_of :: "ScenarioMapping \<Rightarrow> answers \<Rightarrow> bool \<Rightarrow> CandidateReason" where
  "reason_of m a unidentified =
     (let ov = override_of m a;
          base = (or_else (ov_reasonType ov) (sm_reasonType m), or_else (ov_reasonText ov) (sm_reasonText m));
          origin = filled a (sm_relatedEventSlot m);
          orphaned = sm_relatedEventSlot m \<noteq> None \<and> origin = None \<and> sm_orphan m \<noteq> None;
          (ty1, text1) = (if orphaned then the (sm_orphan m) else base);
          late = filled a (sm_objectIdSlot m) \<noteq> None \<and> sm_retroactive m \<noteq> None;
          (ty2, text2) = (if late then the (sm_retroactive m) else (ty1, text1))
      in \<lparr>cr_type = ty2,
          cr_description = (if unidentified then text2 @ DOT @ UNIDENTIFIED_COUNTERPARTY else text2),
          cr_confidence = ''high'',
          cr_requiresFollowup = (orphaned \<or> unidentified \<or> filled a (sm_followupSlot m) \<noteq> None)\<rparr>)"

definition party_of :: "treasury_env \<Rightarrow> ScenarioMapping \<Rightarrow> answers \<Rightarrow> PartyTemplate \<Rightarrow> CandidateParty" where
  "party_of E m a t =
     \<lparr>cp_partyId = (case pt_who t of USINA \<Rightarrow> Some (te_usina E) | COUNTERPARTY \<Rightarrow> Option.bind (sm_counterpartySlot m) (map_of a)),
      cp_role = pt_role t, cp_direction = pt_direction t,
      cp_amount = (if pt_carriesAmount t then map_of a ''amount'' else None)\<rparr>"

definition objects_of :: "ScenarioMapping \<Rightarrow> answers \<Rightarrow> string \<Rightarrow> CandidateObject list" where
  "objects_of m a sourceReference =
     (let templates = object_templates (override_of m a) (sm_objects m)
      in map (\<lambda>t. \<lparr>co_objectId =
                    (case filled a (sm_objectIdSlot m) of
                       Some i \<Rightarrow> i
                     | None \<Rightarrow> if length templates = 1 then sourceReference else sourceReference @ '':'' @ ot_objectType t),
                  co_objectKind = ot_objectType t, co_relation = ot_relation t\<rparr>) templates)"

definition build_candidate :: "treasury_env \<Rightarrow> string list \<Rightarrow> Intent \<Rightarrow> string + Candidate" where
  "build_candidate E unidentifiedParties it =
     (case mapping_of (it_scenarioId it) of
        None \<Rightarrow> Inl (''No candidate mapping for scenario '' @ single_quoted (it_scenarioId it))
      | Some m \<Rightarrow>
          (let a = it_answers it;
               sourceReference = ''intent:'' @ it_id it;
               parties = map (party_of E m a) (sm_parties m);
               unidentified = list_ex (\<lambda>q. case cp_partyId q of None \<Rightarrow> False | Some i \<Rightarrow> i \<in> set unidentifiedParties) parties
           in ebind (toInstantISO E (map_of a ''occurredAt'')) (\<lambda>occurredAt.
              ebind (if filled a (Some ''dueAt'') = None then Inr None
                     else ebind (toInstantISO E (map_of a ''dueAt'')) (\<lambda>d. Inr (Some d))) (\<lambda>dueAt.
              Inr \<lparr>cd_sourceReference = sourceReference,
                   cd_eventType = sm_eventType m,
                   cd_economicEffect = or_else (ov_economicEffect (override_of m a)) (sm_economicEffect m),
                   cd_occurredAt = occurredAt,
                   cd_dueAt = dueAt,
                   cd_amount = map_of a ''amount'',
                   cd_currency = map_of a ''currency'',
                   cd_description = (if truthy (map_of a ''description'') then map_of a ''description'' else None),
                   cd_relatedEventId = filled a (sm_relatedEventSlot m),
                   cd_parties = parties,
                   cd_objects = objects_of m a sourceReference,
                   cd_reason = reason_of m a unidentified,
                   cd_reporterType = ''user'', cd_reporterId = it_userId it, cd_channel = ''web''\<rparr>))))"

definition unidentifiedPartiesOf :: "party_store \<Rightarrow> Candidate \<Rightarrow> string list" where
  "unidentifiedPartiesOf st c =
     (let ids = keep_first id (map cp_partyId (cd_parties c));
          parties = map (\<lambda>i. Option.bind i (find_party st)) ids
      in concat (map (\<lambda>p. case p of None \<Rightarrow> []
                     | Some q \<Rightarrow> if pty_identityState q = UNIDENTIFIABLE then [pty_partyId q] else []) parties))"

text \<open>What preview shows and submit sends: built once to learn the parties, then with what is known of them.\<close>

definition candidate_of :: "treasury_env \<Rightarrow> party_store \<Rightarrow> Intent \<Rightarrow> string + Candidate" where
  "candidate_of E ps it =
     ebind (build_candidate E [] it) (\<lambda>draft. build_candidate E (unidentifiedPartiesOf ps draft) it)"

section \<open>From a recorded entry to the answers\<close>

datatype NotReissuable = NO_SCENARIO | AMBIGUOUS_VARIANT | IS_A_CORRECTION

definition moved_object :: "RecordedEntry \<Rightarrow> RecordedObject option" where
  "moved_object e = find (\<lambda>ob. ro_relation ob \<noteq> ''references'') (re_objects e)"

definition override_matches :: "RecordedEntry \<Rightarrow> TupleOverride \<Rightarrow> bool" where
  "override_matches e ov \<longleftrightarrow>
     (ov_objectType ov = None \<or> ov_objectType ov = map_option ro_objectType (moved_object e))
     \<and> (ov_relation ov = None \<or> ov_relation ov = map_option ro_relation (moved_object e))
     \<and> (ov_economicEffect ov = None \<or> ov_economicEffect ov = Some (re_economicEffect e))"

definition planReissue :: "string \<Rightarrow> RecordedEntry \<Rightarrow> NotReissuable + string \<times> (string \<times> string) list" where
  "planReissue usina e =
     (case find (\<lambda>(i, m). sm_eventType m = re_eventType e) MAPPINGS of
        None \<Rightarrow> Inl NO_SCENARIO
      | Some (scenarioId, m) \<Rightarrow>
          if list_ex (\<lambda>ob. ot_relation ob = ''retracts'') (sm_objects m) then Inl IS_A_CORRECTION
          else
            (let given = (\<lambda>key v. case key of None \<Rightarrow> [] | Some k \<Rightarrow> (case v of None \<Rightarrow> [] | Some w \<Rightarrow> [(k, w)]));
                 base = [(''amount'', re_amount e), (''currency'', re_currency e), (''occurredAt'', re_occurredAt e)]
                   @ given (Some ''description'') (if truthy (re_description e) then re_description e else None);
                 counterparty = map_option rp_partyId (find (\<lambda>q. rp_partyId q \<noteq> usina) (re_parties e));
                 rest = given (sm_counterpartySlot m) counterparty
                   @ given (sm_objectIdSlot m) (map_option ro_objectId (moved_object e))
                   @ given (sm_relatedEventSlot m) (if truthy (re_relatedEventId e) then re_relatedEventId e else None)
             in case sm_variants m of
                  None \<Rightarrow> Inr (scenarioId, base @ rest)
                | Some (selector, byChoice) \<Rightarrow>
                    (case filter (\<lambda>(c, ov). override_matches e ov) byChoice of
                       [(c, ov)] \<Rightarrow> Inr (scenarioId, base @ [(selector, c)] @ rest)
                     | _ \<Rightarrow> Inl AMBIGUOUS_VARIANT)))"

end
