(* ===== verification/Submission.thy ===== *)
theory Submission
  imports Candidate_Mapping
begin

text \<open>
  Use cases that end or open a conversation: \<open>PreviewIntent\<close>, \<open>SubmitIntent\<close>, \<open>StartPositionAction\<close> and
  \<open>SubmitRectification\<close>, with \<open>PendingCorrection.ts\<close>. Other services are arguments: the ledger behind
  the submission port, the lookup of an event, the life of a position. A use case is a state
  transformer that also says what it returned or threw, because some of them have written before they
  throw. The ledger can throw (a failed request), refuse or accept.
\<close>

section \<open>Use cases in sequence\<close>

type_synonym 'a run = "treasury \<Rightarrow> treasury \<times> (string + 'a)"

definition and_then :: "'a run \<Rightarrow> ('a \<Rightarrow> 'b run) \<Rightarrow> 'b run" where
  "and_then m f T = (case m T of (T1, Inl e) \<Rightarrow> (T1, Inl e) | (T1, Inr x) \<Rightarrow> f x T1)"

definition give :: "'a \<Rightarrow> 'a run" where
  "give x T = (T, Inr x)"

definition throw :: "string \<Rightarrow> 'a run" where
  "throw e T = (T, Inl e)"

text \<open>A use case of \<open>Conversation\<close>, which writes nothing when it throws.\<close>

definition lift :: "(treasury \<Rightarrow> string + treasury \<times> 'a) \<Rightarrow> 'a run" where
  "lift f T = (case f T of Inl e \<Rightarrow> (T, Inl e) | Inr (T1, x) \<Rightarrow> (T1, Inr x))"

section \<open>The submission boundary\<close>

datatype RejectionKind = Input | Lineage | Duplicate | Internal

record SubmissionRejection =
  rj_code :: string
  rj_category :: RejectionKind
  rj_field :: "string option"
  rj_detail :: string

datatype SubmissionOutcome =
    Sub_accepted "string option"
  | Sub_rejected "string option" "SubmissionRejection list option"

section \<open>Preview\<close>

record PreviewIntentResult =
  pvw_intentId :: string
  pvw_scenarioTitle :: string
  pvw_answers :: answers
  pvw_candidate :: Candidate
  pvw_partyNames :: "(string \<times> string) list"
  pvw_enrichment :: "(string \<times> string \<times> string) option"

definition preview_parties :: "party_store \<Rightarrow> Candidate \<Rightarrow> Party list" where
  "preview_parties ps c =
     concat (map (\<lambda>i. case Option.bind i (find_party ps) of None \<Rightarrow> [] | Some p \<Rightarrow> [p])
       (keep_first id (map cp_partyId (cd_parties c))))"

definition preview_intent :: "treasury_env \<Rightarrow> string \<Rightarrow> treasury \<Rightarrow> string + PreviewIntentResult" where
  "preview_intent E i T =
     ebind (intent_and_scenario T i) (\<lambda>(it, s).
       if \<not> is_ready (nextState s (it_answers it))
       then Inl (''Intent is not ready to preview '' @ [CHR 0xE2, CHR 0x80, CHR 0x94]
                 @ '' required information is still missing.'')
       else ebind (candidate_of E (tr_parties T) it) (\<lambda>c.
         let parties = preview_parties (tr_parties T) c
         in Inr \<lparr>pvw_intentId = it_id it, pvw_scenarioTitle = sc_title s, pvw_answers = it_answers it,
                 pvw_candidate = c,
                 pvw_partyNames = fold (\<lambda>p. AList.update (pty_partyId p) (pty_displayName p)) parties [],
                 pvw_enrichment =
                   map_option (\<lambda>p. (pty_partyId p, pty_displayName p, hd (cmp_missing (completenessOf p))))
                     (find isWorthAsking parties)\<rparr>))"

section \<open>Submit\<close>

record SubmitIntentResult =
  sir_status :: bool
  sir_intentStatus :: IntentStatus
  sir_ledgerReference :: "string option"
  sir_reason :: "string option"
  sir_correction :: "string list"
  sir_candidate :: Candidate

definition fixable :: "SubmissionRejection \<Rightarrow> bool" where
  "fixable r \<longleftrightarrow> rj_category r = Input \<or> rj_category r = Lineage"

definition correction_slots :: "Scenario \<Rightarrow> SubmissionRejection list \<Rightarrow> string list" where
  "correction_slots s rejections =
     keep_first id
       (filter (\<lambda>k. k \<noteq> [] \<and> list_ex (\<lambda>x. sl_key x = k) (sc_slots s))
         (concat (map (\<lambda>r. case (if truthy (rj_field r) then fieldToSlot (sc_id s) (the (rj_field r)) else None) of
                             None \<Rightarrow> [] | Some k \<Rightarrow> [k])
           (filter fixable rejections))))"

definition submit_intent ::
  "treasury_env \<Rightarrow> (Candidate \<Rightarrow> string + SubmissionOutcome) \<Rightarrow> (nat \<Rightarrow> string) \<Rightarrow> string \<Rightarrow> SubmitIntentResult run" where
  "submit_intent E ledger now i T =
     (case ebind (intent_and_scenario T i) (\<lambda>(it, s).
             ebind (markSubmitted (now 0) it) (\<lambda>it1.
             ebind (candidate_of E (tr_parties T) it1) (\<lambda>c. Inr (it1, s, c)))) of
        Inl e \<Rightarrow> (T, Inl e)
      | Inr (it, s, c) \<Rightarrow>
          (let T1 = journal [audit i (now 1) ''intent.submitted'' (Some (cd_sourceReference c))] T
           in case ledger c of
                Inl e \<Rightarrow> (T1, Inl e)
              | Inr (Sub_accepted ref) \<Rightarrow>
                  (save_intent (markAccepted (or_else ref []) (now 2) it)
                     (journal [audit i (now 3) ''intent.accepted'' ref] T1),
                   Inr \<lparr>sir_status = True, sir_intentStatus = ACCEPTED, sir_ledgerReference = ref,
                        sir_reason = None, sir_correction = [], sir_candidate = c\<rparr>)
              | Inr (Sub_rejected reason rejections) \<Rightarrow>
                  (let slots = correction_slots s (or_else rejections [])
                   in if slots \<noteq> []
                      then (save_intent (markAwaitingCorrection (now 2) it)
                              (journal [audit i (now 3) ''intent.correction'' (Some (join_with '', '' slots))] T1),
                            Inr \<lparr>sir_status = False, sir_intentStatus = AWAITING_CORRECTION,
                                 sir_ledgerReference = None, sir_reason = reason, sir_correction = slots,
                                 sir_candidate = c\<rparr>)
                      else (save_intent (markRejected (or_else reason ''Rejected by the Ledger.'') (now 2) it)
                              (journal [audit i (now 3) ''intent.rejected'' reason] T1),
                            Inr \<lparr>sir_status = False, sir_intentStatus = REJECTED, sir_ledgerReference = None,
                                 sir_reason = reason, sir_correction = [], sir_candidate = c\<rparr>))))"

section \<open>Opening a conversation from a position\<close>

record StartPositionActionResult =
  spa_intentId :: string
  spa_state :: DialogState
  spa_prefilled :: "string list"

definition counterparty_of :: "string \<Rightarrow> RecordedEntry \<Rightarrow> string option" where
  "counterparty_of usina e = map_option rp_partyId (find (\<lambda>q. rp_partyId q \<noteq> usina) (re_parties e))"

definition standing_origination :: "PositionLifecycle \<Rightarrow> LifecycleEvent option" where
  "standing_origination p =
     find (\<lambda>e. \<not> lc_retracted e \<and> lc_relation e = Some ''originates'') (plc_events p)"

definition position_answers ::
  "string \<Rightarrow> (string \<Rightarrow> RecordedEntry option) \<Rightarrow> string \<Rightarrow> string option \<Rightarrow> PositionLifecycle \<Rightarrow> (string \<times> string) list" where
  "position_answers usina event scenarioId variantChoice p =
     (let given = (\<lambda>key v. case key of None \<Rightarrow> [] | Some k \<Rightarrow> (case v of None \<Rightarrow> [] | Some w \<Rightarrow> [(k, w)]));
          origin = standing_origination p;
          party = Option.bind origin (\<lambda>ev. Option.bind (event (lc_eventId ev)) (counterparty_of usina))
      in [(''currency'', plc_currency p)]
         @ given (variantSlot scenarioId) (if truthy variantChoice then variantChoice else None)
         @ given (continuitySlot scenarioId) (Some (plc_objectId p))
         @ given (lineageSlot scenarioId) (map_option lc_eventId origin)
         @ given (if inheritsCounterparty scenarioId then counterpartySlot scenarioId else None)
             (if truthy party then party else None))"

definition start_run :: "string \<Rightarrow> (nat \<Rightarrow> string) \<Rightarrow> string \<Rightarrow> string \<Rightarrow> (string \<times> DialogState) run" where
  "start_run freshId now scenarioId userId = lift (start_use_case freshId now scenarioId userId)"

definition apply_run ::
  "treasury_env \<Rightarrow> string \<Rightarrow> string \<Rightarrow> (string \<times> string) list \<Rightarrow> ApplyAnswersResult run" where
  "apply_run E now i answers = lift (apply_answers E now i answers Fill)"

definition rejection_messages :: "ApplyAnswersResult \<Rightarrow> string" where
  "rejection_messages r = join_with ''; '' (map sve_message (aar_rejected r))"

definition start_position_action ::
  "treasury_env \<Rightarrow> (string \<Rightarrow> PositionLifecycle option) \<Rightarrow> (string \<Rightarrow> RecordedEntry option) \<Rightarrow> string \<Rightarrow> (nat \<Rightarrow> string)
    \<Rightarrow> string \<Rightarrow> string \<Rightarrow> string \<Rightarrow> string option \<Rightarrow> StartPositionActionResult run" where
  "start_position_action E lifecycle event freshId now objectId scenarioId userId variantChoice =
     (case lifecycle objectId of
        None \<Rightarrow> throw (''Unknown position: '' @ objectId)
      | Some p \<Rightarrow>
          and_then (start_run freshId now scenarioId userId) (\<lambda>(i, _).
          let answers = position_answers (te_usina E) event scenarioId variantChoice p
          in and_then (apply_run E (now 2) i answers) (\<lambda>merged.
             if aar_rejected merged \<noteq> []
             then throw (''Could not open the operation from this position: '' @ rejection_messages merged)
             else give \<lparr>spa_intentId = i, spa_state = aar_state merged,
                        spa_prefilled = filter (\<lambda>k. k \<notin> sve_key ` set (aar_rejected merged)) (map fst answers)\<rparr>)))"

section \<open>Rectifying a recorded entry\<close>

record CorrectedValues =
  cv_amount :: "string option"
  cv_occurredAt :: "string option"
  cv_description :: "string option"

record RectificationResult =
  rrs_retraction :: "SubmitIntentResult option"
  rrs_reissue :: "SubmitIntentResult option"
  rrs_notReissuable :: "NotReissuable option"
  rrs_missingSlot :: "string option"

definition SUPPORTED_OBJECT_TYPES :: "string list" where
  "SUPPORTED_OBJECT_TYPES = [''advance'', ''loan'', ''commission_receivable'']"

text \<open>\<open>fill\<close>: merge the answers of a fresh intent, then submit it.\<close>

definition fill_run ::
  "treasury_env \<Rightarrow> (Candidate \<Rightarrow> string + SubmissionOutcome) \<Rightarrow> (nat \<Rightarrow> string) \<Rightarrow> string \<Rightarrow> (string \<times> string) list
    \<Rightarrow> SubmitIntentResult run" where
  "fill_run E ledger now i answers =
     and_then (apply_run E (now 2) i answers) (\<lambda>merged.
       if aar_rejected merged \<noteq> [] then throw (''Could not describe the entry: '' @ rejection_messages merged)
       else submit_intent E ledger (\<lambda>k. now (k + 3)) i)"

definition retraction_answers ::
  "string \<Rightarrow> RecordedEntry \<Rightarrow> RecordedObject \<Rightarrow> bool \<Rightarrow> string option \<Rightarrow> (string \<times> string) list" where
  "retraction_answers now target moved awaitingReissue description =
     [(''target'', re_eventId target), (''objectRef'', ro_objectId moved), (''objectType'', ro_objectType moved),
      (''amount'', re_amount target), (''currency'', re_currency target), (''occurredAt'', now)]
     @ (if awaitingReissue then [(''reissue'', ''pending'')] else [])
     @ (if truthy description then [(''description'', the description)] else [])"

definition retract_run ::
  "treasury_env \<Rightarrow> (Candidate \<Rightarrow> string + SubmissionOutcome) \<Rightarrow> string \<Rightarrow> (nat \<Rightarrow> string) \<Rightarrow> string \<Rightarrow> RecordedEntry
    \<Rightarrow> RecordedObject \<Rightarrow> bool \<Rightarrow> string option \<Rightarrow> SubmitIntentResult run" where
  "retract_run E ledger freshId now userId target moved awaitingReissue description =
     and_then (start_run freshId now ''register_rectification'' userId) (\<lambda>(i, _).
       fill_run E ledger (\<lambda>k. now (k + 1)) i (retraction_answers (now 2) target moved awaitingReissue description))"

definition overrides_of :: "CorrectedValues \<Rightarrow> (string \<times> string) list" where
  "overrides_of cv =
     (if truthy (cv_amount cv) then [(''amount'', the (cv_amount cv))] else [])
     @ (if truthy (cv_occurredAt cv) then [(''occurredAt'', the (cv_occurredAt cv))] else [])
     @ (if truthy (cv_description cv) then [(''description'', the (cv_description cv))] else [])"

definition reissue_answers :: "CorrectedValues \<Rightarrow> (string \<times> string) list \<Rightarrow> (string \<times> string) list" where
  "reissue_answers cv planned =
     (let overrides = overrides_of cv;
          restated = map (\<lambda>(k, v). (k, or_else (map_of overrides k) v)) planned
      in restated @ filter (\<lambda>(k, v). k \<notin> fst ` set restated) overrides)"

definition reissue_run ::
  "treasury_env \<Rightarrow> (Candidate \<Rightarrow> string + SubmissionOutcome) \<Rightarrow> string \<Rightarrow> (nat \<Rightarrow> string) \<Rightarrow> string \<Rightarrow> CorrectedValues
    \<Rightarrow> string \<times> (string \<times> string) list \<Rightarrow> (string + SubmitIntentResult) run" where
  "reissue_run E ledger freshId now userId cv plan =
     and_then (start_run freshId now (fst plan) userId) (\<lambda>(i, _).
     and_then (apply_run E (now 2) i (reissue_answers cv (snd plan))) (\<lambda>merged.
       if aar_rejected merged \<noteq> [] then throw (''Could not describe the entry: '' @ rejection_messages merged)
       else case aar_state merged of
           Question x _ _ \<Rightarrow> give (Inl (sl_key x))
         | Ready _ _ \<Rightarrow> and_then (submit_intent E ledger (\<lambda>k. now (k + 3)) i) (\<lambda>r. give (Inr r))))"

definition rectification_result ::
  "SubmitIntentResult option \<Rightarrow> SubmitIntentResult option \<Rightarrow> NotReissuable option \<Rightarrow> string option \<Rightarrow> RectificationResult" where
  "rectification_result r x n m =
     \<lparr>rrs_retraction = r, rrs_reissue = x, rrs_notReissuable = n, rrs_missingSlot = m\<rparr>"

text \<open>The ledger may answer the retraction and the reissue differently, so it is given once for each.\<close>

definition submit_rectification ::
  "treasury_env \<Rightarrow> (string \<Rightarrow> RecordedEntry option) \<Rightarrow> (Candidate \<Rightarrow> string + SubmissionOutcome)
    \<Rightarrow> (Candidate \<Rightarrow> string + SubmissionOutcome) \<Rightarrow> string \<Rightarrow> string \<Rightarrow> (nat \<Rightarrow> string) \<Rightarrow> string \<Rightarrow> string
    \<Rightarrow> string option \<Rightarrow> CorrectedValues option \<Rightarrow> RectificationResult run" where
  "submit_rectification E event ledger1 ledger2 id1 id2 now targetEventId userId description corrected =
     (case event targetEventId of
        None \<Rightarrow> throw (''Unknown entry: '' @ targetEventId)
      | Some target \<Rightarrow>
          (case moved_object target of
             None \<Rightarrow> throw (''Entry '' @ targetEventId @ '' moved no position, so there is nothing to rectify.'')
           | Some moved \<Rightarrow>
               if ro_objectType moved \<notin> set SUPPORTED_OBJECT_TYPES
               then throw (''Rectifying a '' @ ro_objectType moved @ '' entry is not supported yet.'')
               else case map_option (\<lambda>cv. (cv, planReissue (te_usina E) target)) corrected of
                   Some (_, Inl why) \<Rightarrow> give (rectification_result None None (Some why) None)
                 | plan \<Rightarrow>
                     and_then (retract_run E ledger1 id1 now userId target moved (plan \<noteq> None) description) (\<lambda>r.
                       case plan of
                         Some (cv, Inr p) \<Rightarrow>
                           if \<not> sir_status r then give (rectification_result (Some r) None None None)
                           else and_then (reissue_run E ledger2 id2 (\<lambda>k. now (k + 20)) userId cv p) (\<lambda>x.
                             case x of
                               Inl key \<Rightarrow> give (rectification_result (Some r) None None (Some key))
                             | Inr y \<Rightarrow> give (rectification_result (Some r) (Some y) None None))
                       | _ \<Rightarrow> give (rectification_result (Some r) None None None))))"

section \<open>A correction that is halfway\<close>

definition is_retraction_event :: "LifecycleEvent \<Rightarrow> bool" where
  "is_retraction_event e \<longleftrightarrow> lc_relation e = Some ''retracts''"

definition is_awaiting_reissue :: "LifecycleEvent \<Rightarrow> bool" where
  "is_awaiting_reissue e \<longleftrightarrow> is_retraction_event e \<and> lc_requiresFollowup e \<and> lc_relatedEventId e \<noteq> None"

text \<open>
  The loop from the last standing event to the first: \<open>later\<close> are those after the event looked at,
  the next one first.
\<close>

fun pending_from :: "LifecycleEvent list \<Rightarrow> LifecycleEvent list \<Rightarrow> (string \<times> string) option" where
  "pending_from [] later = None"
| "pending_from (e # before) later =
     (if \<not> is_awaiting_reissue e then pending_from before (e # later)
      else if list_ex (\<lambda>x. \<not> is_retraction_event x) later then None
      else Some (lc_eventId e, the (lc_relatedEventId e)))"

definition pendingCorrection :: "LifecycleEvent list \<Rightarrow> (string \<times> string) option" where
  "pendingCorrection events = pending_from (rev (filter (\<lambda>e. \<not> lc_retracted e) events)) []"

end
