(* ===== verification/Interpretation.thy ===== *)
theory Interpretation
  imports Conversation
begin

text \<open>
  Free text: \<open>InterpretUtterance.ts\<close> over the port \<open>SlotExtractionPort.ts\<close>, and the extractor by
  patterns, \<open>StubSlotExtractionAdapter.ts\<close>. The port is any function of the request that may also
  fail; the use case puts its proposals through the same merge as every other answer. Below: whatever
  a port proposes, a turn only adds answers that pass the checks.
\<close>

section \<open>The port\<close>

record SlotProposal =
  spr_key :: string
  spr_value :: string
  spr_confidence :: rat

record ScenarioCatalogEntry =
  cat_id :: string
  cat_title :: string
  cat_description :: string
  cat_slots :: "SlotDefinition list"
  cat_keywords :: "string list"

record SlotExtractionRequest =
  ser_utterance :: string
  ser_slots :: "SlotDefinition list option"
  ser_scenarios :: "ScenarioCatalogEntry list option"
  ser_priorAnswers :: "answers option"
  ser_knownParties :: "(string \<times> string) list option"

record SlotExtractionResult =
  xtr_scenarioId :: "string option"
  xtr_clarification :: "string option"
  xtr_slots :: "SlotProposal list"

type_synonym extractor = "SlotExtractionRequest \<Rightarrow> string + SlotExtractionResult"

section \<open>The use case\<close>

record InterpretUtteranceResult =
  iur_intentId :: "string option"
  iur_scenarioId :: "string option"
  iur_state :: "DialogState option"
  iur_clarification :: "string option"
  iur_accepted :: "string list"
  iur_rejected :: "SlotValidationError list"
  iur_skipped :: "string list"
  iur_lowConfidence :: "SlotProposal list"
  iur_identity :: "(string \<times> Resolution) list"

definition confidenceThreshold :: rat where
  "confidenceThreshold = 1 / 2"

text \<open>\<open>knownParties\<close> and the catalog of \<open>interpretNew\<close>: the keywords of every locale together.\<close>

definition knownParties :: "party_store \<Rightarrow> (string \<times> string) list" where
  "knownParties ps = map (\<lambda>p. (pty_partyId p, pty_displayName p)) (all_parties ps)"

definition catalog :: "ScenarioCatalogEntry list" where
  "catalog = map (\<lambda>s. \<lparr>cat_id = sc_id s, cat_title = sc_title s, cat_description = sc_description s,
      cat_slots = sc_slots s, cat_keywords = concat (map snd (sc_keywords s))\<rparr>) listScenarios"

definition defaultClarification :: "ScenarioCatalogEntry list \<Rightarrow> string" where
  "defaultClarification cs = ''Which operation do you mean? '' @ join_with DOT (map cat_title cs)"

text \<open>A port that fails proposes nothing; the failure is written down at the time \<open>at\<close>.\<close>

definition safeExtract ::
  "extractor \<Rightarrow> string \<Rightarrow> string \<Rightarrow> SlotExtractionRequest \<Rightarrow> treasury \<Rightarrow> treasury \<times> SlotExtractionResult" where
  "safeExtract X intentId t request T =
     (case X request of
        Inr r \<Rightarrow> (T, r)
      | Inl message \<Rightarrow>
          (journal [audit intentId t ''extraction.failed'' (Some message)] T,
           \<lparr>xtr_scenarioId = None, xtr_clarification = None, xtr_slots = []\<rparr>))"

definition mergeProposals ::
  "treasury_env \<Rightarrow> string \<Rightarrow> string \<Rightarrow> SlotProposal list \<Rightarrow> treasury
     \<Rightarrow> string + treasury \<times> (string list \<times> SlotProposal list \<times> ApplyAnswersResult)" where
  "mergeProposals E now i proposals T =
     (let confident = filter (\<lambda>p. confidenceThreshold \<le> spr_confidence p) proposals;
          lowConfidence = filter (\<lambda>p. spr_confidence p < confidenceThreshold) proposals
      in ebind (apply_answers E now i (map (\<lambda>p. (spr_key p, spr_value p)) confident) Fill T) (\<lambda>(T', applied).
         Inr (T', (filter (\<lambda>k. k \<notin> set (map sve_key (aar_rejected applied)) \<and> k \<notin> set (aar_skipped applied))
                     (map spr_key confident),
                   lowConfidence, applied))))"

definition merged_result ::
  "string \<Rightarrow> string \<Rightarrow> string list \<times> SlotProposal list \<times> ApplyAnswersResult \<Rightarrow> InterpretUtteranceResult" where
  "merged_result i scenarioId merged =
     (case merged of (accepted, low, applied) \<Rightarrow>
        \<lparr>iur_intentId = Some i, iur_scenarioId = Some scenarioId, iur_state = Some (aar_state applied),
         iur_clarification = None, iur_accepted = accepted, iur_rejected = aar_rejected applied,
         iur_skipped = aar_skipped applied, iur_lowConfidence = low, iur_identity = aar_identity applied\<rparr>)"

text \<open>The readings of the clock in the order the code takes them.\<close>

definition interpretBound ::
  "treasury_env \<Rightarrow> extractor \<Rightarrow> (nat \<Rightarrow> string) \<Rightarrow> string \<Rightarrow> string \<Rightarrow> treasury
     \<Rightarrow> string + treasury \<times> InterpretUtteranceResult" where
  "interpretBound E X now i utterance T =
     ebind (intent_and_scenario T i) (\<lambda>(it, s).
       let T1 = journal [audit i (now 0) ''utterance.received'' (Some utterance)] T;
           (T2, result) = safeExtract X i (now 1)
             \<lparr>ser_utterance = utterance, ser_slots = Some (sc_slots s), ser_scenarios = None,
              ser_priorAnswers = Some (it_answers it), ser_knownParties = Some (knownParties (tr_parties T))\<rparr> T1
       in ebind (mergeProposals E (now 2) i (xtr_slots result) T2) (\<lambda>(T3, merged).
          Inr (T3, merged_result i (sc_id s) merged)))"

definition interpretNew ::
  "treasury_env \<Rightarrow> extractor \<Rightarrow> string \<Rightarrow> (nat \<Rightarrow> string) \<Rightarrow> string \<Rightarrow> string \<Rightarrow> treasury
     \<Rightarrow> string + treasury \<times> InterpretUtteranceResult" where
  "interpretNew E X newId now userId utterance T =
     (if userId = [] then Inl ''userId is required to start an intent from an utterance.''
      else let (T1, result) = safeExtract X ''-'' (now 0)
             \<lparr>ser_utterance = utterance, ser_slots = None, ser_scenarios = Some catalog, ser_priorAnswers = None,
              ser_knownParties = Some (knownParties (tr_parties T))\<rparr> T
           in case (if truthy (xtr_scenarioId result) then getScenario (the (xtr_scenarioId result)) else None) of
             None \<Rightarrow>
               Inr (T1, \<lparr>iur_intentId = None, iur_scenarioId = None, iur_state = None,
                  iur_clarification = Some (case xtr_clarification result of
                      Some q \<Rightarrow> q | None \<Rightarrow> defaultClarification catalog),
                  iur_accepted = [], iur_rejected = [], iur_skipped = [], iur_lowConfidence = [], iur_identity = []\<rparr>)
           | Some s \<Rightarrow>
               (let it = start_intent newId (sc_id s) userId (now 1);
                    T2 = journal [audit newId (now 1) ''intent.started'' (Some (sc_id s)),
                                  audit newId (now 1) ''utterance.received'' (Some utterance)] (save_intent it T1)
                in ebind (mergeProposals E (now 2) newId (xtr_slots result) T2) (\<lambda>(T3, merged).
                   Inr (T3, merged_result newId (sc_id s) merged))))"

definition interpret_utterance ::
  "treasury_env \<Rightarrow> extractor \<Rightarrow> string \<Rightarrow> (nat \<Rightarrow> string) \<Rightarrow> string option \<Rightarrow> string \<Rightarrow> string \<Rightarrow> treasury
     \<Rightarrow> string + treasury \<times> InterpretUtteranceResult" where
  "interpret_utterance E X newId now intentId utterance userId T =
     (if truthy intentId then interpretBound E X now (the intentId) utterance T
      else interpretNew E X newId now userId utterance T)"

section \<open>Extraction by patterns\<close>

text \<open>The case of a letter as a pattern with the flag \<open>i\<close> sees it: ASCII letters are raised.\<close>

record text_env =
  tx_stripAccents :: "string \<Rightarrow> string"
  tx_canonicalize :: "string \<Rightarrow> string"

definition is_word_char :: "char \<Rightarrow> bool" where
  "is_word_char c \<longleftrightarrow> is_lower (lower_char c) \<or> is_digit c \<or> c = CHR ''_''"

fun starts_with :: "string \<Rightarrow> string \<Rightarrow> bool" where
  "starts_with [] s = True"
| "starts_with (c # t) [] = False"
| "starts_with (c # t) (d # s) = (c = d \<and> starts_with t s)"

text \<open>\<open>\b\<close> between what was read last and the rest of the text.\<close>

definition word_boundary :: "char option \<Rightarrow> string \<Rightarrow> bool" where
  "word_boundary prior rest \<longleftrightarrow>
     ((case prior of None \<Rightarrow> False | Some c \<Rightarrow> is_word_char c) \<noteq> (case rest of [] \<Rightarrow> False | c # _ \<Rightarrow> is_word_char c))"

definition last_char :: "char option \<Rightarrow> string \<Rightarrow> char option" where
  "last_char prior s = (if s = [] then prior else Some (last s))"

fun mentions_word :: "string \<Rightarrow> char option \<Rightarrow> string \<Rightarrow> bool" where
  "mentions_word w prior s =
     (word_boundary prior s \<and> starts_with w s \<and> word_boundary (last_char prior w) (drop (length w) s)
      \<or> (case s of [] \<Rightarrow> False | c # t \<Rightarrow> mentions_word w (Some c) t))"

declare mentions_word.simps [simp del]

definition says_word :: "text_env \<Rightarrow> string \<Rightarrow> string \<Rightarrow> bool" where
  "says_word X w t \<longleftrightarrow> mentions_word (tx_canonicalize X w) None (tx_canonicalize X t)"

text \<open>Runs of at least three letters and digits, accents and case removed.\<close>

fun alnum_runs :: "string \<Rightarrow> string \<Rightarrow> string list" where
  "alnum_runs acc [] = (if acc = [] then [] else [acc])"
| "alnum_runs acc (c # s) =
     (if is_alnum c then alnum_runs (acc @ [c]) s else (if acc = [] then [] else [acc]) @ alnum_runs [] s)"

definition tokenize :: "text_env \<Rightarrow> string \<Rightarrow> string list" where
  "tokenize X s = filter (\<lambda>w. 3 \<le> length w) (alnum_runs [] (map lower_char (tx_stripAccents X s)))"

definition catalog_text :: "ScenarioCatalogEntry \<Rightarrow> string" where
  "catalog_text s = cat_title s @ '' '' @ cat_description s @ '' '' @ join_with '' '' (cat_keywords s)"

text \<open>The identifiers of the scenarios whose text has the token.\<close>

definition token_owners :: "text_env \<Rightarrow> ScenarioCatalogEntry list \<Rightarrow> string \<Rightarrow> string list" where
  "token_owners X cs tok = remdups (map cat_id (filter (\<lambda>s. tok \<in> set (tokenize X (catalog_text s))) cs))"

definition classify_score :: "text_env \<Rightarrow> ScenarioCatalogEntry list \<Rightarrow> string \<Rightarrow> ScenarioCatalogEntry \<Rightarrow> nat" where
  "classify_score X cs txt s = length (filter (\<lambda>t. token_owners X cs t = [cat_id s]) (remdups (tokenize X txt)))"

definition classify :: "text_env \<Rightarrow> string \<Rightarrow> ScenarioCatalogEntry list \<Rightarrow> ScenarioCatalogEntry option" where
  "classify X txt cs =
     (case sort_by (\<lambda>a b. int (snd b) - int (snd a)) (map (\<lambda>s. (s, classify_score X cs txt s)) cs) of
        [] \<Rightarrow> None
      | best # rest \<Rightarrow>
          if snd best = 0 then None
          else (case rest of
              [] \<Rightarrow> Some (fst best)
            | runnerUp # _ \<Rightarrow> if snd runnerUp = snd best then None else Some (fst best)))"

text \<open>
  The pattern of an amount. The prefix and the spaces before it may be empty, so a match always starts
  its digits at the first digit of the text; the alternatives are tried in their order there.
\<close>

fun three_digit_groups :: "char \<Rightarrow> string \<Rightarrow> string \<times> string" where
  "three_digit_groups sep (s # a # b # c # rest) =
     (if s = sep \<and> is_digit a \<and> is_digit b \<and> is_digit c
      then (let (g, r) = three_digit_groups sep rest in (s # a # b # c # g, r))
      else ([], s # a # b # c # rest))"
| "three_digit_groups sep rest = ([], rest)"

definition two_decimals :: "char list \<Rightarrow> string \<Rightarrow> string option" where
  "two_decimals seps s =
     (case s of
        p # a # b # _ \<Rightarrow> if p \<in> set seps \<and> is_digit a \<and> is_digit b then Some [p, a, b] else None
      | _ \<Rightarrow> None)"

definition grouped_amount :: "char \<Rightarrow> char \<Rightarrow> string \<Rightarrow> string option" where
  "grouped_amount sep point s =
     (let ip = takeWhile is_digit s; (g, rest) = three_digit_groups sep (dropWhile is_digit s)
      in if length ip \<le> 3 \<and> g \<noteq> [] then map_option (\<lambda>d. ip @ g @ d) (two_decimals [point] rest) else None)"

definition money_token :: "string \<Rightarrow> string option" where
  "money_token txt =
     (let s = dropWhile (\<lambda>c. \<not> is_digit c) txt; ip = takeWhile is_digit s
      in if s = [] then None
         else Some (case grouped_amount CHR ''.'' CHR '','' s of
             Some m \<Rightarrow> m
           | None \<Rightarrow> (case grouped_amount CHR '','' CHR ''.'' s of
               Some m \<Rightarrow> m
             | None \<Rightarrow> (case two_decimals [CHR ''.'', CHR '',''] (dropWhile is_digit s) of
                 Some d \<Rightarrow> ip @ d
               | None \<Rightarrow> ip))))"

definition remove_all :: "char \<Rightarrow> string \<Rightarrow> string" where
  "remove_all c s = filter (\<lambda>d. d \<noteq> c) s"

fun replace_first :: "char \<Rightarrow> char \<Rightarrow> string \<Rightarrow> string" where
  "replace_first c d [] = []"
| "replace_first c d (x # s) = (if x = c then d # s else x # replace_first c d s)"

text \<open>The last of two characters to occur in the text.\<close>

definition later_than :: "char \<Rightarrow> char \<Rightarrow> string \<Rightarrow> bool" where
  "later_than c d s \<longleftrightarrow> length (takeWhile (\<lambda>x. x \<noteq> c) (rev s)) < length (takeWhile (\<lambda>x. x \<noteq> d) (rev s))"

definition normalizeMoney :: "string \<Rightarrow> string option" where
  "normalizeMoney raw =
     (let s = trim raw; hasComma = CHR '','' \<in> set s; hasDot = CHR ''.'' \<in> set s;
          t = (if hasComma \<and> hasDot
               then (if later_than CHR '','' CHR ''.'' s
                     then replace_first CHR '','' CHR ''.'' (remove_all CHR ''.'' s) else remove_all CHR '','' s)
               else if hasComma then replace_first CHR '','' CHR ''.'' s else s)
      in if \<not> is_decimal t then None else if not_positive t then None else Some t)"

fun iso_date_at :: "string \<Rightarrow> bool" where
  "iso_date_at (a # b # c # d # p # e # f # q # g # h # _) =
     (list_all is_digit [a, b, c, d, e, f, g, h] \<and> p = CHR ''-'' \<and> q = CHR ''-'')"
| "iso_date_at _ = False"

fun date_token :: "char option \<Rightarrow> string \<Rightarrow> string option" where
  "date_token prior [] = None"
| "date_token prior (c # s) =
     (if word_boundary prior (c # s) \<and> iso_date_at (c # s) \<and> word_boundary (Some CHR ''0'') (drop 10 (c # s))
      then Some (take 10 (c # s)) else date_token (Some c) s)"

definition proposeForSlot ::
  "text_env \<Rightarrow> string \<Rightarrow> (string \<times> string) list \<Rightarrow> SlotDefinition \<Rightarrow> SlotProposal option" where
  "proposeForSlot X txt known x =
     (let propose = (\<lambda>conf v. \<lparr>spr_key = sl_key x, spr_value = v, spr_confidence = conf\<rparr>)
      in case sl_type x of
          SlotType.MONEY \<Rightarrow> map_option (propose (9 / 10)) (Option.bind (money_token txt) normalizeMoney)
        | SlotType.DATE \<Rightarrow> map_option (propose (9 / 10)) (date_token None txt)
        | SlotType.CHOICE \<Rightarrow>
            map_option (propose (3 / 4)) (find (\<lambda>c. says_word X c txt) (case sl_choices x of None \<Rightarrow> [] | Some cs \<Rightarrow> cs))
        | SlotType.PARTY \<Rightarrow>
            map_option (\<lambda>p. propose (3 / 4) (fst p)) (find (\<lambda>p. snd p \<noteq> [] \<and> says_word X (snd p) txt) known)
        | _ \<Rightarrow> None)"

definition extractSlots ::
  "text_env \<Rightarrow> SlotDefinition list \<Rightarrow> string \<Rightarrow> (string \<times> string) list \<Rightarrow> SlotProposal list" where
  "extractSlots X slots txt known = List.map_filter (proposeForSlot X txt known) slots"

definition stub_extract :: "text_env \<Rightarrow> extractor" where
  "stub_extract X request =
     (let txt = ser_utterance request; known = (case ser_knownParties request of None \<Rightarrow> [] | Some ps \<Rightarrow> ps)
      in Inr (case ser_scenarios request of
          Some cs \<Rightarrow>
            (case classify X txt cs of
               None \<Rightarrow> \<lparr>xtr_scenarioId = None, xtr_clarification = Some (defaultClarification cs), xtr_slots = []\<rparr>
             | Some s \<Rightarrow> \<lparr>xtr_scenarioId = Some (cat_id s), xtr_clarification = None,
                          xtr_slots = extractSlots X (cat_slots s) txt known\<rparr>)
        | None \<Rightarrow> \<lparr>xtr_scenarioId = None, xtr_clarification = None,
            xtr_slots = extractSlots X (case ser_slots request of None \<Rightarrow> [] | Some xs \<Rightarrow> xs) txt known\<rparr>))"

section \<open>A turn only adds answers\<close>

text \<open>The same intent with nothing that was answered taken back or changed.\<close>

definition fills :: "Intent \<Rightarrow> Intent \<Rightarrow> bool" where
  "fills it it' \<longleftrightarrow> it_id it' = it_id it \<and> it_scenarioId it' = it_scenarioId it \<and> it_userId it' = it_userId it
     \<and> (\<forall>key. \<not> isBlank (map_of (it_answers it) key) \<longrightarrow> map_of (it_answers it') key = map_of (it_answers it) key)"

lemma fills_refl [simp]: "fills it it"
  by (simp add: fills_def)

lemma fills_trans: "fills a b \<Longrightarrow> fills b c \<Longrightarrow> fills a c"
  unfolding fills_def by metis

lemma fills_record:
  "isBlank (map_of (it_answers it) key) \<Longrightarrow> fills it (record_answer key w now it)"
  by (auto simp: fills_def record_answer_def update_conv')

lemma apply_answer_fills: "fills (mg_intent M) (mg_intent (apply_answer E ps now s Fill kv M))"
  by (cases kv)
     (auto simp: apply_answer_def Let_def intro!: fills_record split: option.splits)

lemma apply_fold_fills: "fills (mg_intent M) (mg_intent (fold (apply_answer E ps now s Fill) kvs M))"
proof (induction kvs arbitrary: M)
  case Nil
  show ?case by simp
next
  case (Cons kv kvs)
  show ?case using fills_trans [OF apply_answer_fills Cons.IH] by simp
qed

text \<open>What a turn does to the state: an intent that was there is filled, the directory is left alone.\<close>

definition only_fills :: "treasury \<Rightarrow> treasury \<Rightarrow> bool" where
  "only_fills T T' \<longleftrightarrow> tr_parties T' = tr_parties T
     \<and> (\<forall>i it. find_intent T i = Some it \<longrightarrow> (\<exists>it'. find_intent T' i = Some it' \<and> fills it it'))"

lemma only_fills_refl [simp]: "only_fills T T"
  unfolding only_fills_def using fills_refl by blast

lemma only_fills_trans: "only_fills T U \<Longrightarrow> only_fills U V \<Longrightarrow> only_fills T V"
  unfolding only_fills_def using fills_trans by metis

lemma find_save_intent [simp]:
  "find_intent (save_intent it T) i = (if i = it_id it then Some it else find_intent T i)"
  by (simp add: find_intent_def save_intent_def map_of_update)

lemma parties_save_intent [simp]: "tr_parties (save_intent it T) = tr_parties T"
  by (simp add: save_intent_def)

lemma journal_simps [simp]:
  "tr_parties (journal es T) = tr_parties T" "find_intent (journal es T) i = find_intent T i"
  by (simp_all add: journal_def find_intent_def)

lemma only_fills_journal: "only_fills T (journal es T)"
  using fills_refl by (auto simp: only_fills_def)

lemma only_fills_save:
  "find_intent T (it_id it') = None \<or> (\<exists>it. find_intent T (it_id it') = Some it \<and> fills it it') \<Longrightarrow> only_fills T (save_intent it' T)"
  using fills_refl by (auto simp: only_fills_def)

definition ids_kept :: "treasury \<Rightarrow> bool" where
  "ids_kept T \<longleftrightarrow> (\<forall>i it. find_intent T i = Some it \<longrightarrow> it_id it = i)"

lemma apply_answers_fills:
  assumes "ids_kept T" "apply_answers E now i answers Fill T = Inr (T', r)"
  shows "only_fills T T'"
proof -
  obtain it s where its: "find_intent T i = Some it" "intent_and_scenario T i = Inr (it, s)"
    using assms(2) by (auto simp: apply_answers_def ebind_Inr intent_and_scenario_def split: option.splits)
  define M where "M = fold (apply_answer E (tr_parties T) now s Fill) answers
    \<lparr>mg_intent = it, mg_audit = [], mg_rejected = [], mg_skipped = [], mg_identity = [], mg_recorded = 0\<rparr>"
  define it1 where "it1 = (if is_ready (nextState s (it_answers (mg_intent M))) then markAwaitingConfirmation now (mg_intent M) else mg_intent M)"
  have "fills it (mg_intent M)"
    using apply_fold_fills [of "\<lparr>mg_intent = it, mg_audit = [], mg_rejected = [], mg_skipped = [], mg_identity = [], mg_recorded = 0\<rparr>"]
    by (simp add: M_def)
  then have "fills it it1" by (simp add: it1_def fills_def markAwaitingConfirmation_def)
  moreover from this have "it_id it1 = i" using assms(1) its(1) by (simp add: fills_def ids_kept_def)
  moreover have "T' = (if 0 < mg_recorded M then save_intent it1 (journal (mg_audit M) T) else journal (mg_audit M) T)"
    using assms(2) unfolding apply_answers_def its(2) ebind_simps Let_def prod.case M_def [symmetric] it1_def [symmetric]
    by (auto simp del: if_split)
  ultimately show ?thesis
    using only_fills_trans [OF only_fills_journal only_fills_save [of "journal (mg_audit M) T" it1]] its(1) only_fills_journal
    by auto
qed

lemma merge_fills:
  assumes "ids_kept T" "mergeProposals E now i proposals T = Inr (T', r)"
  shows "only_fills T T'"
  using assms(2) apply_answers_fills [OF assms(1)] by (auto simp: mergeProposals_def Let_def ebind_Inr)

lemma ids_kept_journal [simp]: "ids_kept (journal es T) = ids_kept T"
  by (simp add: ids_kept_def)

lemma ids_kept_save: "ids_kept T \<Longrightarrow> ids_kept (save_intent it T)"
  by (simp add: ids_kept_def)

lemma extract_journals:
  "\<exists>es. fst (safeExtract X i t request T) = journal es T"
proof (cases "X request")
  case (Inl message)
  then show ?thesis by (auto simp: safeExtract_def)
next
  case (Inr r)
  then show ?thesis by (auto simp: safeExtract_def journal_def intro!: exI [of _ "[]"])
qed

text \<open>A turn asks back, merges into the intent it names, or starts an intent and merges into that.\<close>

lemma interpret_cases:
  assumes "interpret_utterance E X newId now i utterance u T = Inr (T', r)"
  obtains (asked) es where "T' = journal es T"
  | (continued) es t i' proposals m where "mergeProposals E t i' proposals (journal es T) = Inr (T', m)"
  | (started) es es' t sc proposals m where
      "mergeProposals E t newId proposals (journal es' (save_intent (start_intent newId sc u (now 1)) (journal es T))) = Inr (T', m)"
proof (cases "truthy i")
  case True
  obtain it s where its: "intent_and_scenario T (the i) = Inr (it, s)"
    using assms True by (auto simp: interpret_utterance_def interpretBound_def ebind_Inr)
  let ?T1 = "journal [audit (the i) (now 0) ''utterance.received'' (Some utterance)] T"
  obtain T2 result where ex: "safeExtract X (the i) (now 1)
      \<lparr>ser_utterance = utterance, ser_slots = Some (sc_slots s), ser_scenarios = None,
       ser_priorAnswers = Some (it_answers it), ser_knownParties = Some (knownParties (tr_parties T))\<rparr> ?T1 = (T2, result)"
    by (rule prod.exhaust) blast
  obtain es where "T2 = journal es ?T1" using extract_journals ex by (metis fst_conv)
  then have "T2 = journal ([audit (the i) (now 0) ''utterance.received'' (Some utterance)] @ es) T"
    by (simp add: journal_def)
  moreover obtain m where "mergeProposals E (now 2) (the i) (xtr_slots result) T2 = Inr (T', m)"
    using assms True its ex by (auto simp: interpret_utterance_def interpretBound_def ebind_Inr Let_def)
  ultimately show thesis using continued by blast
next
  case False
  obtain T1 result where ex: "safeExtract X ''-'' (now 0) \<lparr>ser_utterance = utterance, ser_slots = None,
      ser_scenarios = Some catalog, ser_priorAnswers = None, ser_knownParties = Some (knownParties (tr_parties T))\<rparr> T = (T1, result)"
    by (rule prod.exhaust) blast
  obtain es where es: "T1 = journal es T" using extract_journals ex by (metis fst_conv)
  show thesis
  proof (cases "if truthy (xtr_scenarioId result) then getScenario (the (xtr_scenarioId result)) else None")
    case None
    then have "T' = T1" using assms False ex
      by (auto simp: interpret_utterance_def interpretNew_def Let_def split: if_splits)
    then show thesis using asked es by blast
  next
    case (Some s)
    then obtain m where "mergeProposals E (now 2) newId (xtr_slots result)
        (journal [audit newId (now 1) ''intent.started'' (Some (sc_id s)), audit newId (now 1) ''utterance.received'' (Some utterance)]
          (save_intent (start_intent newId (sc_id s) u (now 1)) T1)) = Inr (T', m)"
      using assms False ex
      by (auto simp: interpret_utterance_def interpretNew_def Let_def ebind_Inr split: if_splits)
    then show thesis unfolding es by (rule started)
  qed
qed

lemma interpretation_fills:
  assumes "ids_kept T" "find_intent T newId = None" "interpret_utterance E X newId now i utterance u T = Inr (T', r)"
  shows "only_fills T T'"
  using assms(3)
proof (cases rule: interpret_cases)
  case (asked es)
  then show ?thesis using only_fills_journal by simp
next
  case (continued es t i' proposals m)
  then have "only_fills (journal es T) T'" by (rule merge_fills [rotated]) (simp add: assms(1))
  then show ?thesis by (rule only_fills_trans [OF only_fills_journal])
next
  case (started es es' t sc proposals m)
  let ?U = "save_intent (start_intent newId sc u (now 1)) (journal es T)"
  have "only_fills (journal es T) ?U"
    by (rule only_fills_save) (use assms(2) in \<open>simp add: start_intent_def\<close>)
  moreover have "only_fills ?U T'"
    by (rule only_fills_trans [OF only_fills_journal merge_fills [OF _ started]]) (simp add: assms(1) ids_kept_save)
  ultimately show ?thesis using only_fills_trans only_fills_journal by metis
qed

section \<open>What the extractor by patterns proposes\<close>

text \<open>It keeps the contract of the port: only keys of the slots in play, only values that read as such.\<close>

lemma extracted_keys: "p \<in> set (extractSlots X slots txt known) \<Longrightarrow> spr_key p \<in> sl_key ` set slots"
  by (auto simp: extractSlots_def map_filter_def proposeForSlot_def Let_def split: SlotType.splits)

lemma money_proposed: "normalizeMoney raw = Some v \<Longrightarrow> is_decimal v \<and> \<not> not_positive v"
  by (simp add: normalizeMoney_def Let_def split: if_splits)

interpretation score_order: comparator "\<lambda>a b :: ScenarioCatalogEntry \<times> nat. int (snd b) - int (snd a)"
  by unfold_locales auto

lemma classify_best:
  assumes "classify X txt cs = Some s"
  shows "s \<in> set cs \<and> 0 < classify_score X cs txt s \<and>
    (\<forall>s'\<in>set cs. s' \<noteq> s \<longrightarrow> classify_score X cs txt s' < classify_score X cs txt s)"
proof -
  let ?cmp = "\<lambda>a b :: ScenarioCatalogEntry \<times> nat. int (snd b) - int (snd a)"
  let ?ranked = "sort_by ?cmp (map (\<lambda>s. (s, classify_score X cs txt s)) cs)"
  obtain best rest where ranked: "?ranked = best # rest"
    using assms by (cases ?ranked) (simp_all add: classify_def)
  have best: "snd best \<noteq> 0"
    using assms unfolding classify_def ranked list.case by (simp split: if_splits)
  have "s = fst best \<and> (rest = [] \<or> snd (hd rest) \<noteq> snd best)"
    using assms best unfolding classify_def ranked list.case by (cases rest) (simp_all split: if_splits)
  then have picked: "s = fst best" and clear: "rest = [] \<or> snd (hd rest) \<noteq> snd best" by simp_all
  note best = best picked
  have members: "set (best # rest) = (\<lambda>s. (s, classify_score X cs txt s)) ` set cs"
    using set_sort_by [of ?cmp "map (\<lambda>s. (s, classify_score X cs txt s)) cs"] unfolding ranked by simp
  have scored: "snd x = classify_score X cs txt (fst x)" if "x \<in> set (best # rest)" for x
    using that unfolding members by (rule imageE) simp
  have sorted: "sorted_wrt (\<lambda>a b. ?cmp a b \<le> 0) (best # rest)" unfolding ranked [symmetric] by (rule score_order.sorted_sort_by)
  have below: "\<forall>x\<in>set rest. snd x \<le> snd best" using sorted by simp
  have lower: "snd x < snd best" if x: "x \<in> set rest" for x
  proof -
    obtain y ys where rest: "rest = y # ys" using x by (cases rest) simp_all
    then have "snd y \<le> snd best" "snd y \<noteq> snd best" using below clear by simp_all
    moreover have "\<forall>z\<in>set ys. snd z \<le> snd y" using sorted unfolding rest by simp
    then have "snd x \<le> snd y" using x unfolding rest by auto
    ultimately show ?thesis by simp
  qed
  show ?thesis
  proof (intro conjI ballI impI)
    have "best \<in> (\<lambda>s. (s, classify_score X cs txt s)) ` set cs" unfolding members [symmetric] by simp
    then show "s \<in> set cs" unfolding best(2) by (rule imageE) simp
    show "0 < classify_score X cs txt s" using scored [of best] best by (metis list.set_intros(1) not_gr_zero)
    fix s' assume "s' \<in> set cs" "s' \<noteq> s"
    then have "(s', classify_score X cs txt s') \<in> set rest"
      using members best(2) by (metis (no_types, lifting) fst_conv image_eqI set_ConsD)
    then show "classify_score X cs txt s' < classify_score X cs txt s"
      using lower scored [of best] best(2) by fastforce
  qed
qed

end
