(* ===== verification/Treasury_Invariant.thy ===== *)
theory Treasury_Invariant
  imports Submission Interpretation
begin

text \<open>
  What holds in every state the treasury can reach: the parties are kept under their own identifiers,
  an answer that names a counterparty is the identifier of a party of the directory, every other
  answer passed its validation, and an intent that waits for confirmation has all its required answers.
\<close>

section \<open>The invariant\<close>

definition answer_sound :: "treasury_env \<Rightarrow> party_store \<Rightarrow> SlotDefinition \<Rightarrow> string \<Rightarrow> bool" where
  "answer_sound E ps x v \<longleftrightarrow>
     (if sl_type x = SlotType.PARTY then find_party ps v \<noteq> None else validateAnswer (te_dateParse E) x v = None)"

definition answers_sound :: "treasury_env \<Rightarrow> party_store \<Rightarrow> Scenario \<Rightarrow> answers \<Rightarrow> bool" where
  "answers_sound E ps s a \<longleftrightarrow>
     fst ` set a \<subseteq> sl_key ` set (sc_slots s)
     \<and> (\<forall>x\<in>set (sc_slots s). \<forall>v. map_of a (sl_key x) = Some v \<longrightarrow> answer_sound E ps x v)"

definition intent_sound :: "treasury_env \<Rightarrow> party_store \<Rightarrow> Intent \<Rightarrow> bool" where
  "intent_sound E ps it \<longleftrightarrow>
     (\<forall>s. getScenario (it_scenarioId it) = Some s \<longrightarrow>
        answers_sound E ps s (it_answers it)
        \<and> (it_status it = AWAITING_CONFIRMATION \<longrightarrow> is_ready (nextState s (it_answers it))))"

definition directory_sound :: "party_store \<Rightarrow> bool" where
  "directory_sound ps \<longleftrightarrow> keyed ps \<and> (\<forall>i p. find_party ps i = Some p \<longrightarrow> pty_identityState p \<noteq> MERGED)"

definition treasury_sound :: "treasury_env \<Rightarrow> treasury \<Rightarrow> bool" where
  "treasury_sound E T \<longleftrightarrow>
     directory_sound (tr_parties T)
     \<and> (\<forall>i it. find_intent T i = Some it \<longrightarrow> it_id it = i \<and> intent_sound E (tr_parties T) it)"

lemma intent_sound_slot:
  assumes "intent_sound E ps it" "getScenario (it_scenarioId it) = Some s" "x \<in> set (sc_slots s)"
  shows "case map_of (it_answers it) (sl_key x) of
      None \<Rightarrow> sl_required x \<longrightarrow> it_status it \<noteq> AWAITING_CONFIRMATION
    | Some v \<Rightarrow> if sl_type x = SlotType.PARTY then find_party ps v \<noteq> None else validateAnswer (te_dateParse E) x v = None"
proof (cases "map_of (it_answers it) (sl_key x)")
  case None
  then have "\<not> is_ready (nextState s (it_answers it))" if "sl_required x"
    using that assms(3) by (auto simp: nextState_def is_ready_def isBlank_def find_None_iff Let_def split: option.splits)
  with None show ?thesis using assms(1,2) by (auto simp: intent_sound_def)
next
  case (Some v)
  then have "answer_sound E ps x v" using assms by (auto simp: intent_sound_def answers_sound_def)
  with Some show ?thesis by (simp add: answer_sound_def)
qed

section \<open>The directory\<close>

definition grows_to :: "party_store \<Rightarrow> party_store \<Rightarrow> bool" where
  "grows_to ps qs \<longleftrightarrow> (\<forall>i. find_party ps i \<noteq> None \<longrightarrow> find_party qs i \<noteq> None)"

lemma intent_sound_grows: "intent_sound E ps it \<Longrightarrow> grows_to ps qs \<Longrightarrow> intent_sound E qs it"
  unfolding intent_sound_def answers_sound_def answer_sound_def grows_to_def by (metis (full_types))

lemma save_party_grows: "grows_to ps (save_party p ps)"
  by (simp add: grows_to_def)

lemma directory_sound_save:
  "directory_sound ps \<Longrightarrow> pty_identityState p \<noteq> MERGED \<Longrightarrow> directory_sound (save_party p ps)"
  by (auto simp: directory_sound_def split: if_splits)

lemma import_seed_sound:
  assumes "directory_sound ps"
  shows "directory_sound (fst (import_seed E sys now x (ps, r)))"
    and "grows_to ps (fst (import_seed E sys now x (ps, r)))"
proof -
  have k: "keyed ps" using assms by (simp add: directory_sound_def)
  have "pty_identityState q \<noteq> MERGED" if "find_party (fst (import_seed E sys now x (ps, r))) i = Some q" for i q
  proof -
    have "pty_identityState (fst (enrich E p x sys now)) = pty_identityState p" for p
      using enrich_kept [of p E x sys now] by (simp add: kept_in_def)
    moreover have "pty_identityState (build_party E x sys now) = IDENTIFIED" by (simp add: build_party_def)
    ultimately show ?thesis
      using that assms unfolding directory_sound_def import_seed_find [OF k] by (auto split: if_splits option.splits)
  qed
  with import_seed_keyed [OF k] show "directory_sound (fst (import_seed E sys now x (ps, r)))"
    by (auto simp: directory_sound_def)
  show "grows_to ps (fst (import_seed E sys now x (ps, r)))"
    by (simp add: grows_to_def import_seed_find [OF k])
qed

lemma import_fold_sound:
  "directory_sound (fst S) \<Longrightarrow>
   directory_sound (fst (fold (import_seed E sys now) seeds S)) \<and> grows_to (fst S) (fst (fold (import_seed E sys now) seeds S))"
proof (induction seeds arbitrary: S)
  case Nil
  then show ?case by (simp add: grows_to_def)
next
  case (Cons x seeds)
  obtain ps r where S: "S = (ps, r)" by (cases S)
  have "directory_sound (fst (import_seed E sys now x S))" "grows_to (fst S) (fst (import_seed E sys now x S))"
    using import_seed_sound Cons.prems unfolding S by auto
  with Cons.IH [of "import_seed E sys now x S"] show ?case by (auto simp: grows_to_def)
qed

lemma record_attribute_sound:
  assumes "directory_sound ps" "record_attribute now inp ps = Inr (qs, entries, q)"
  shows "directory_sound qs \<and> grows_to ps qs"
proof -
  have "pty_identityState (p\<lparr>pty_attributes := a\<rparr>) \<noteq> MERGED" if "find_party ps i = Some p" for i p a
    using assms(1) that by (auto simp: directory_sound_def)
  then show ?thesis
    using assms save_party_grows
    by (auto simp: record_attribute_def Let_def grows_to_def split: if_splits option.splits intro!: directory_sound_save)
qed

text \<open>An identifier that may be recorded is that of a party.\<close>

lemma recordable_known:
  assumes "directory_sound ps" "recordableId (directory_resolve D threshold ps q) = Some i"
  shows "find_party ps i \<noteq> None"
proof -
  obtain p where p: "p \<in> set (all_parties ps)" "effectiveId p = i"
    using exact_answer [where E = D and threshold = threshold and q = q and ps = "all_parties ps"] assms(2) by (auto simp: directory_resolve_def)
  have k: "keyed ps" using assms(1) by (simp add: directory_sound_def)
  have f: "find_party ps (pty_partyId p) = Some p" using p(1) keyed_find [OF k] by simp
  then have "pty_identityState p \<noteq> MERGED" using assms(1) by (auto simp: directory_sound_def)
  then have "effectiveId p = pty_partyId p" by (simp add: effectiveId_def)
  with f p(2) show ?thesis by simp
qed

section \<open>Recording an answer\<close>

lemma slot_unique:
  assumes "getScenario i = Some s" "find (\<lambda>x. sl_key x = key) (sc_slots s) = Some x" "y \<in> set (sc_slots s)" "sl_key y = key"
  shows "y = x"
proof -
  have "distinct (map sl_key (sc_slots s))"
    using getScenario_well_formed(1) [OF assms(1)] by (simp add: well_formed_scenario_def)
  moreover have "x \<in> set (sc_slots s)" "sl_key x = key" using find_SomeD [OF assms(2)] by auto
  ultimately show ?thesis using assms(3,4) by (metis distinct_map inj_on_eq_iff)
qed

lemma record_answer_sound:
  assumes "intent_sound E ps it" "getScenario (it_scenarioId it) = Some s"
    "find (\<lambda>x. sl_key x = key) (sc_slots s) = Some x" "answer_sound E ps x w"
  shows "intent_sound E ps (record_answer key w now it)"
proof -
  have "answer_sound E ps y v"
    if "y \<in> set (sc_slots s)" "map_of (AList.update key w (it_answers it)) (sl_key y) = Some v" for y v
  proof (cases "sl_key y = key")
    case True
    then show ?thesis using slot_unique [OF assms(2,3) that(1)] that(2) assms(4) by (simp add: map_of_update)
  next
    case False
    then have "map_of (it_answers it) (sl_key y) = Some v" using that(2) by (simp add: map_of_update)
    with assms(1,2) that(1) show ?thesis by (auto simp: intent_sound_def answers_sound_def)
  qed
  moreover have "fst ` set (AList.update key w (it_answers it)) \<subseteq> sl_key ` set (sc_slots s)"
    using assms(1,2) find_SomeD [OF assms(3)] by (auto simp: intent_sound_def answers_sound_def dom_update)
  ultimately show ?thesis using assms(2) by (simp add: intent_sound_def answers_sound_def record_answer_def)
qed

lemma mark_ready_sound:
  assumes "intent_sound E ps it" "getScenario (it_scenarioId it) = Some s"
  shows "intent_sound E ps (if is_ready (nextState s (it_answers it)) then markAwaitingConfirmation now it else it)"
  using assms by (auto simp: intent_sound_def markAwaitingConfirmation_def)

text \<open>What a party slot records was resolved, what another slot records was validated.\<close>

lemma recorded_value_sound:
  assumes "directory_sound ps" "validateAnswer (te_dateParse E) x v = None"
    "(case resolveIdentitySlot E ps x v of None \<Rightarrow> Some v | Some r \<Rightarrow> recordableId r) = Some w"
  shows "answer_sound E ps x w"
  using assms recordable_known [OF assms(1)]
  by (auto simp: answer_sound_def resolveIdentitySlot_def split: if_splits)

section \<open>Every use case keeps the invariant\<close>

lemma sound_journal [simp]: "treasury_sound E (journal es T) = treasury_sound E T"
  by (simp add: treasury_sound_def)

lemma sound_save_intent:
  "treasury_sound E T \<Longrightarrow> intent_sound E (tr_parties T) it \<Longrightarrow> treasury_sound E (save_intent it T)"
  by (simp add: treasury_sound_def)

lemma sound_parties:
  assumes "treasury_sound E T" "directory_sound ps" "grows_to (tr_parties T) ps"
  shows "treasury_sound E (T\<lparr>tr_parties := ps\<rparr>)"
  using assms intent_sound_grows by (fastforce simp: treasury_sound_def find_intent_def)

lemma intent_and_scenario_Inr:
  "intent_and_scenario T i = Inr (it, s) \<longleftrightarrow> find_intent T i = Some it \<and> getScenario (it_scenarioId it) = Some s"
  by (auto simp: intent_and_scenario_def split: option.splits)

lemma soundD:
  assumes "treasury_sound E T" "intent_and_scenario T i = Inr (it, s)"
  shows "intent_sound E (tr_parties T) it" "it_id it = i" "getScenario (it_scenarioId it) = Some s"
    "directory_sound (tr_parties T)"
  using assms by (auto simp: treasury_sound_def intent_and_scenario_Inr)

lemma start_sound:
  assumes "treasury_sound E T" "start_use_case newId now scenarioId userId T = Inr (T', x)"
  shows "treasury_sound E T'"
  using assms
  by (auto simp: start_use_case_def Let_def start_intent_def intent_sound_def answers_sound_def
      split: option.splits intro!: sound_save_intent)

text \<open>The intent after an answer, and when it is ready.\<close>

definition answered :: "Scenario \<Rightarrow> string \<Rightarrow> string \<Rightarrow> string \<Rightarrow> string \<Rightarrow> Intent \<Rightarrow> Intent" where
  "answered s key w t u it =
     (if is_ready (nextState s (it_answers (record_answer key w t it)))
      then markAwaitingConfirmation u (record_answer key w t it) else record_answer key w t it)"

lemma answered_sound:
  assumes "intent_sound E ps it" "getScenario (it_scenarioId it) = Some s"
    "find (\<lambda>x. sl_key x = key) (sc_slots s) = Some x" "answer_sound E ps x w"
  shows "intent_sound E ps (answered s key w t u it)"
  unfolding answered_def
  by (rule mark_ready_sound [OF record_answer_sound [OF assms]]) (simp add: record_answer_def assms(2))

lemma advance_cases:
  assumes "advance_dialog E now i key v T = Inr (T', r)"
  obtains (noted) es where "T' = journal es T"
  | (recorded) it s x w t u es where "intent_and_scenario T i = Inr (it, s)"
      "find (\<lambda>x. sl_key x = key) (sc_slots s) = Some x" "validateAnswer (te_dateParse E) x v = None"
      "(case resolveIdentitySlot E (tr_parties T) x v of None \<Rightarrow> Some v | Some q \<Rightarrow> recordableId q) = Some w"
      "T' = save_intent (answered s key w t u it) (journal es T)"
proof -
  obtain it s where its: "intent_and_scenario T i = Inr (it, s)"
    using assms by (auto simp: advance_dialog_def ebind_Inr)
  obtain x where x: "find (\<lambda>x. sl_key x = key) (sc_slots s) = Some x"
    using assms its by (auto simp: advance_dialog_def split: option.splits)
  show thesis
  proof (cases "validateAnswer (te_dateParse E) x v")
    case (Some e)
    then show ?thesis using assms its x noted by (auto simp: advance_dialog_def)
  next
    case None
    show ?thesis
    proof (cases "case resolveIdentitySlot E (tr_parties T) x v of None \<Rightarrow> Some v | Some q \<Rightarrow> recordableId q")
      case none: None
      then show ?thesis using assms its x None noted by (auto simp: advance_dialog_def Let_def)
    next
      case (Some w)
      have "\<exists>t u es. T' = save_intent (answered s key w t u it) (journal es T)"
        using assms its x None Some unfolding advance_dialog_def Let_def answered_def
        by (simp add: record_answer_def split del: if_split) blast
      then show ?thesis using recorded [OF its x None Some] by blast
    qed
  qed
qed

lemma advance_sound:
  assumes "treasury_sound E T" "advance_dialog E now i key v T = Inr (T', r)"
  shows "treasury_sound E T'"
  using assms(2)
proof (cases rule: advance_cases)
  case (recorded it s x w t u es)
  note d = soundD [OF assms(1) recorded(1)]
  have "answer_sound E (tr_parties T) x w" by (rule recorded_value_sound [OF d(4) recorded(3,4)])
  from answered_sound [OF d(1,3) recorded(2) this] show ?thesis
    using assms(1) by (simp add: recorded(5) sound_save_intent)
qed (use assms(1) in simp)

lemma apply_answer_sound:
  assumes "directory_sound ps" "intent_sound E ps (mg_intent M)" "getScenario (it_scenarioId (mg_intent M)) = Some s"
  shows "intent_sound E ps (mg_intent (apply_answer E ps now s mode kv M)) \<and>
    it_scenarioId (mg_intent (apply_answer E ps now s mode kv M)) = it_scenarioId (mg_intent M) \<and>
    it_id (mg_intent (apply_answer E ps now s mode kv M)) = it_id (mg_intent M)"
proof -
  obtain key v where kv: "kv = (key, v)" by (cases kv)
  have "intent_sound E ps (record_answer key w now (mg_intent M))"
    if "find (\<lambda>x. sl_key x = key) (sc_slots s) = Some x" "validateAnswer (te_dateParse E) x v = None"
      "(case resolveIdentitySlot E ps x v of None \<Rightarrow> Some v | Some r \<Rightarrow> recordableId r) = Some w" for x w
    by (rule record_answer_sound [OF assms(2,3) that(1) recorded_value_sound [OF assms(1) that(2,3)]])
  then show ?thesis
    using assms unfolding kv apply_answer_def Let_def
    by (auto simp: record_answer_def split: option.split)
qed

lemma apply_fold_sound:
  assumes "directory_sound ps" "intent_sound E ps (mg_intent M)" "getScenario (it_scenarioId (mg_intent M)) = Some s"
  shows "intent_sound E ps (mg_intent (fold (apply_answer E ps now s mode) kvs M)) \<and>
    it_scenarioId (mg_intent (fold (apply_answer E ps now s mode) kvs M)) = it_scenarioId (mg_intent M) \<and>
    it_id (mg_intent (fold (apply_answer E ps now s mode) kvs M)) = it_id (mg_intent M)"
  using assms(2,3)
proof (induction kvs arbitrary: M)
  case (Cons kv kvs)
  note one = apply_answer_sound [OF assms(1) Cons.prems, of now mode kv]
  show ?case using Cons.IH [of "apply_answer E ps now s mode kv M"] one Cons.prems(2) by auto
qed simp

lemma apply_sound:
  assumes "treasury_sound E T" "apply_answers E now i answers mode T = Inr (T', r)"
  shows "treasury_sound E T'"
proof -
  obtain it s where its: "intent_and_scenario T i = Inr (it, s)"
    using assms(2) by (auto simp: apply_answers_def ebind_Inr)
  note d = soundD [OF assms(1) its]
  let ?start = "\<lparr>mg_intent = it, mg_audit = [], mg_rejected = [], mg_skipped = [], mg_identity = [], mg_recorded = 0\<rparr>"
  let ?M = "fold (apply_answer E (tr_parties T) now s mode) answers ?start"
  have M: "intent_sound E (tr_parties T) (mg_intent ?M)" "getScenario (it_scenarioId (mg_intent ?M)) = Some s"
    using apply_fold_sound [OF d(4), where E = E and M = ?start and s = s and now = now and mode = mode and kvs = answers] d(1,3) by auto
  have "T' = (if 0 < mg_recorded ?M then save_intent (if is_ready (nextState s (it_answers (mg_intent ?M)))
      then markAwaitingConfirmation now (mg_intent ?M) else mg_intent ?M) (journal (mg_audit ?M) T)
      else journal (mg_audit ?M) T)"
    using assms(2) its unfolding apply_answers_def by (simp add: Let_def)
  then show ?thesis using assms(1) mark_ready_sound [OF M] by (auto intro!: sound_save_intent)
qed

lemma merge_sound:
  assumes "treasury_sound E T" "mergeProposals E now i proposals T = Inr (T', r)"
  shows "treasury_sound E T'"
  using assms(2) apply_sound [OF assms(1)] by (auto simp: mergeProposals_def Let_def ebind_Inr)

lemma interpret_sound:
  assumes "treasury_sound E T" "interpret_utterance E X newId now i utterance u T = Inr (T', r)"
  shows "treasury_sound E T'"
  using assms(2)
proof (cases rule: interpret_cases)
  case (started es es' t sc proposals m)
  have "treasury_sound E (save_intent (start_intent newId sc u (now 1)) (journal es T))"
    by (rule sound_save_intent) (simp_all add: assms(1) start_intent_def intent_sound_def answers_sound_def)
  then show ?thesis by (intro merge_sound [OF _ started]) simp
qed (auto simp: assms(1) intro: merge_sound [rotated])

lemma decide_cases:
  assumes "decide_identity freshId now i key kind mention justification u T = Inr (T', d, st)"
  obtains it s x p es where "intent_and_scenario T i = Inr (it, s)"
    "find (\<lambda>x. sl_key x = key) (sc_slots s) = Some x" "sl_type x = SlotType.PARTY" "pty_identityState p \<noteq> MERGED"
    "T' = save_intent (answered s key (pty_partyId p) now now it)
       (journal es (T\<lparr>tr_parties := save_party p (tr_parties T)\<rparr>))"
proof -
  obtain it s where its: "intent_and_scenario T i = Inr (it, s)"
    using assms by (auto simp: decide_identity_def ebind_Inr)
  obtain x where x: "find (\<lambda>x. sl_key x = key) (sc_slots s) = Some x" "sl_type x = SlotType.PARTY"
    using assms its by (auto simp: decide_identity_def split: option.splits if_splits)
  let ?mention = "trim (case mention of None \<Rightarrow> [] | Some m \<Rightarrow> m)"
  obtain p where p: "(if kind = CREATE then buildCreated freshId ?mention
      else buildUnidentifiable freshId (sl_allowUnidentifiable x) ?mention justification) = Inr p"
    using assms its x unfolding decide_identity_def Let_def
    by (cases "if kind = CREATE then buildCreated freshId ?mention
      else buildUnidentifiable freshId (sl_allowUnidentifiable x) ?mention justification") auto
  have identified: "pty_identityState p \<noteq> MERGED"
    using p by (auto simp: buildCreated_def buildUnidentifiable_def new_party_def split: if_splits)
  have "\<exists>es. T' = save_intent (answered s key (pty_partyId p) now now it)
      (journal es (T\<lparr>tr_parties := save_party p (tr_parties T)\<rparr>))"
    using assms its x p unfolding decide_identity_def Let_def answered_def by (simp split del: if_split) blast
  then show thesis using that [OF its x identified] by blast
qed

lemma decide_sound:
  assumes "treasury_sound E T" "decide_identity freshId now i key kind mention justification u T = Inr (T', d, st)"
  shows "treasury_sound E T'"
  using assms(2)
proof (cases rule: decide_cases)
  case (1 it s x p es)
  note d = soundD [OF assms(1) 1(1)]
  let ?T = "T\<lparr>tr_parties := save_party p (tr_parties T)\<rparr>"
  have T: "treasury_sound E ?T"
    by (rule sound_parties [OF assms(1) directory_sound_save [OF d(4) 1(4)] save_party_grows])
  have it: "intent_sound E (tr_parties ?T) it"
    using intent_sound_grows [OF d(1) save_party_grows] by simp
  have "answer_sound E (tr_parties ?T) x (pty_partyId p)" by (simp add: answer_sound_def 1(3))
  from answered_sound [OF it d(3) 1(2) this] show ?thesis
    using T by (simp add: 1(5) sound_save_intent)
qed

text \<open>Use cases in sequence.\<close>

definition keeps_sound :: "treasury_env \<Rightarrow> 'a run \<Rightarrow> bool" where
  "keeps_sound E m \<longleftrightarrow> (\<forall>T. treasury_sound E T \<longrightarrow> treasury_sound E (fst (m T)))"

lemma keeps_and_then: "keeps_sound E m \<Longrightarrow> (\<And>x. keeps_sound E (f x)) \<Longrightarrow> keeps_sound E (and_then m f)"
  by (auto simp: keeps_sound_def and_then_def split: prod.split sum.split)

lemma keeps_give [simp]: "keeps_sound E (give x)" and keeps_throw [simp]: "keeps_sound E (throw e)"
  by (simp_all add: keeps_sound_def give_def throw_def)

lemma keeps_lift:
  "(\<And>T T' x. treasury_sound E T \<Longrightarrow> f T = Inr (T', x) \<Longrightarrow> treasury_sound E T') \<Longrightarrow> keeps_sound E (lift f)"
  by (auto simp: keeps_sound_def lift_def split: sum.split)

lemma keeps_start: "keeps_sound E (start_run i now sc u)"
  unfolding start_run_def using start_sound by (intro keeps_lift) blast

lemma keeps_apply: "keeps_sound E (apply_run E now i answers)"
  unfolding apply_run_def using apply_sound by (intro keeps_lift) blast

lemma settled_sound:
  "intent_sound E ps it \<Longrightarrow> it_status it' \<noteq> AWAITING_CONFIRMATION \<Longrightarrow> it_answers it' = it_answers it \<Longrightarrow>
   it_scenarioId it' = it_scenarioId it \<Longrightarrow> intent_sound E ps it'"
  by (auto simp: intent_sound_def)

lemma keeps_submit: "keeps_sound E (submit_intent E ledger now i)"
  unfolding keeps_sound_def
proof (intro allI impI)
  fix T assume T: "treasury_sound E T"
  show "treasury_sound E (fst (submit_intent E ledger now i T))"
  proof (cases "ebind (intent_and_scenario T i) (\<lambda>(it, s). ebind (markSubmitted (now 0) it) (\<lambda>it1.
      ebind (candidate_of E (tr_parties T) it1) (\<lambda>c. Inr (it1, s, c))))")
    case (Inl e)
    then show ?thesis using T by (simp add: submit_intent_def)
  next
    case (Inr r)
    obtain it1 s c where r: "r = (it1, s, c)" by (cases r)
    from Inr obtain it where it: "intent_and_scenario T i = Inr (it, s)" "markSubmitted (now 0) it = Inr it1"
      unfolding r by (auto simp: ebind_Inr)
    note d = soundD [OF T it(1)]
    have same: "it_answers it1 = it_answers it" "it_scenarioId it1 = it_scenarioId it"
      using it(2) by (auto simp: markSubmitted_def split: if_splits)
    have "intent_sound E (tr_parties T) (markAccepted ref t it1)"
      "intent_sound E (tr_parties T) (markAwaitingCorrection t it1)"
      "intent_sound E (tr_parties T) (markRejected why t it1)" for ref t why
      by (auto intro!: settled_sound [OF d(1)] simp: same markAccepted_def markAwaitingCorrection_def markRejected_def)
    then show ?thesis
      using T Inr unfolding r submit_intent_def
      by (auto simp: Let_def intro!: sound_save_intent split: sum.split SubmissionOutcome.split)
  qed
qed

lemma keeps_position_action: "keeps_sound E (start_position_action E lifecycle event i now objectId sc u choice)"
  unfolding start_position_action_def Let_def
  by (auto intro!: keeps_and_then keeps_start keeps_apply split: option.split)

lemma keeps_fill: "keeps_sound E (fill_run E ledger now i answers)"
  unfolding fill_run_def by (auto intro!: keeps_and_then keeps_apply keeps_submit)

lemma keeps_reissue: "keeps_sound E (reissue_run E ledger i now u cv plan)"
  unfolding reissue_run_def
  by (auto intro!: keeps_and_then keeps_start keeps_apply keeps_submit split: DialogState.split)

lemma keeps_retract: "keeps_sound E (retract_run E ledger i now u target moved waits why)"
  unfolding retract_run_def by (auto intro!: keeps_and_then keeps_start keeps_fill)

lemma keeps_rectification:
  "keeps_sound E (submit_rectification E event ledger1 ledger2 id1 id2 now target u why corrected)"
  unfolding submit_rectification_def
  by (auto intro!: keeps_and_then keeps_retract keeps_reissue split: option.split sum.split prod.split)

section \<open>Reachable states\<close>

text \<open>The steps that do not submit, and those that do, with any ledger behind them.\<close>

inductive desk_step :: "treasury_env \<Rightarrow> treasury \<Rightarrow> treasury \<Rightarrow> bool" for E where
  start: "start_use_case i now sc u T = Inr (T', x) \<Longrightarrow> desk_step E T T'"
| advance: "advance_dialog E now i key v T = Inr (T', r) \<Longrightarrow> desk_step E T T'"
| apply_many: "apply_answers E t i answers mode T = Inr (T', r') \<Longrightarrow> desk_step E T T'"
| interpret_text: "interpret_utterance E X newId now i' utterance u T = Inr (T', r'') \<Longrightarrow> desk_step E T T'"
| decide: "decide_identity fresh t i key kind mention why u T = Inr (T', d, st) \<Longrightarrow> desk_step E T T'"
| position: "desk_step E T (fst (start_position_action E lifecycle event i now objectId sc u choice T))"
| import_source: "desk_step E T (T\<lparr>tr_parties := fst (import_parties D sys t seeds (tr_parties T))\<rparr>)"
| answer_enrichment: "record_attribute t inp (tr_parties T) = Inr (ps, es, p) \<Longrightarrow>
    desk_step E T (journal es (T\<lparr>tr_parties := ps\<rparr>))"

inductive treasury_step :: "treasury_env \<Rightarrow> treasury \<Rightarrow> treasury \<Rightarrow> bool" for E where
  desk: "desk_step E T T' \<Longrightarrow> treasury_step E T T'"
| submit: "treasury_step E T (fst (submit_intent E ledger now i T))"
| rectify: "treasury_step E T (fst (submit_rectification E event ledger1 ledger2 id1 id2 now target u why corrected T))"

definition empty_treasury :: treasury where
  "empty_treasury = \<lparr>tr_intents = [], tr_parties = [], tr_audit = []\<rparr>"

inductive treasury_reachable :: "treasury_env \<Rightarrow> treasury \<Rightarrow> bool" for E where
  empty: "treasury_reachable E empty_treasury"
| step: "treasury_reachable E T \<Longrightarrow> treasury_step E T T' \<Longrightarrow> treasury_reachable E T'"

lemma desk_step_sound: "desk_step E T T' \<Longrightarrow> treasury_sound E T \<Longrightarrow> treasury_sound E T'"
proof (induction rule: desk_step.induct)
  case (import_source T D sys t seeds)
  have "directory_sound (tr_parties T)" using import_source by (simp add: treasury_sound_def)
  then show ?case
    using import_fold_sound [of "(tr_parties T, _)" D sys t seeds] import_source
    unfolding import_parties_def by (auto intro!: sound_parties)
next
  case (answer_enrichment t inp T ps es p)
  have "directory_sound (tr_parties T)" using answer_enrichment by (simp add: treasury_sound_def)
  then have "directory_sound ps \<and> grows_to (tr_parties T) ps"
    using record_attribute_sound answer_enrichment by blast
  then show ?case using answer_enrichment by (auto intro!: sound_parties)
next
  case (position T lifecycle event i now objectId sc u choice)
  then show ?case using keeps_position_action unfolding keeps_sound_def by blast
qed (blast intro: start_sound advance_sound apply_sound interpret_sound decide_sound)+

lemma step_sound: "treasury_step E T T' \<Longrightarrow> treasury_sound E T \<Longrightarrow> treasury_sound E T'"
proof (induction rule: treasury_step.induct)
  case (desk T T')
  then show ?case by (blast intro: desk_step_sound)
next
  case (submit T ledger now i)
  then show ?case using keeps_submit unfolding keeps_sound_def by blast
next
  case (rectify T event ledger1 ledger2 id1 id2 now target u why corrected)
  then show ?case using keeps_rectification unfolding keeps_sound_def by blast
qed

theorem reachable_sound: "treasury_reachable E T \<Longrightarrow> treasury_sound E T"
proof (induction rule: treasury_reachable.induct)
  case empty
  show ?case
    by (simp add: treasury_sound_def empty_treasury_def directory_sound_def keyed_def find_party_def find_intent_def)
qed (rule step_sound)

end
