(* ===== verification/Treasury_Ledger.thy ===== *)
theory Treasury_Ledger
  imports Treasury_Invariant Rejections
begin

text \<open>
  The boundary between the two programs: \<open>HttpCandidateSubmissionAdapter.ts\<close> of the treasury and
  \<open>submitRoutes.ts\<close> of the ledger. A candidate becomes the body of a request, its source reference
  the idempotency key, and the reply an outcome or an error. The network between them is a response
  that may also be lost. The second part is the pair of programs: the treasury with its intents and
  the ledger with its store, and what every accepted intent means for the book.
\<close>

section \<open>The request\<close>

text \<open>The fields of a candidate as the ledger reads them; a field that is \<open>undefined\<close> is not sent.\<close>

definition candidate_body :: "Candidate \<Rightarrow> SubmitCandidateInput" where
  "candidate_body c =
     \<lparr>si_sourceReference = Some (cd_sourceReference c), si_eventType = Some (cd_eventType c),
      si_economicEffect = Some (cd_economicEffect c), si_occurredAt = Some (cd_occurredAt c),
      si_sourceAt = None, si_dueAt = cd_dueAt c, si_amount = cd_amount c, si_currency = cd_currency c,
      si_description = cd_description c, si_relatedEventId = cd_relatedEventId c,
      si_parties = Some (map (\<lambda>q. \<lparr>sp_partyId = cp_partyId q, sp_role = Some (cp_role q),
          sp_direction = Some (cp_direction q), sp_amount = cp_amount q\<rparr>) (cd_parties c)),
      si_objects = Some (map (\<lambda>ob. \<lparr>so_objectId = Some (co_objectId ob), so_objectType = Some (co_objectKind ob),
          so_relation = Some (co_relation ob)\<rparr>) (cd_objects c)),
      si_reason = Some \<lparr>sn_type = Some (cr_type (cd_reason c)), sn_description = Some (cr_description (cd_reason c)),
          sn_confidence = Some (cr_confidence (cd_reason c)), sn_requiresFollowup = Some (cr_requiresFollowup (cd_reason c))\<rparr>,
      si_reporter = Some \<lparr>sq_reporterType = Some (cd_reporterType c), sq_reporterId = Some (cd_reporterId c),
          sq_reporterName = None, sq_channel = Some (cd_channel c)\<rparr>\<rparr>"

record SubmitRequest =
  sq_body :: SubmitCandidateInput
  sq_idempotencyKey :: "string option"

definition submit_request :: "Candidate \<Rightarrow> SubmitRequest" where
  "submit_request c = \<lparr>sq_body = candidate_body c, sq_idempotencyKey = Some (cd_sourceReference c)\<rparr>"

section \<open>The reply\<close>

record ReplyBody =
  rb_status :: "string option"
  rb_ledgerReference :: "string option"
  rb_reason :: "string option"
  rb_rejections :: "SubmissionRejection list option"

datatype Response = Lost string | Http nat ReplyBody

text \<open>\<open>res.ok\<close> is a status of the two hundreds.\<close>

definition read_response :: "Response \<Rightarrow> string + SubmissionOutcome" where
  "read_response r =
     (case r of
        Lost e \<Rightarrow> Inl e
      | Http code b \<Rightarrow>
          if \<not> (200 \<le> code \<and> code < 300) then Inl (''Ledger submit failed (HTTP '' @ nat_string code @ '')'')
          else if rb_status b = Some ''accepted'' then Inr (Sub_accepted (rb_ledgerReference b))
          else if rb_status b = Some ''rejected'' then Inr (Sub_rejected (rb_reason b) (rb_rejections b))
          else Inl ''Ledger submit returned an unrecognized outcome'')"

section \<open>The route of the ledger\<close>

fun rejectionCode_value :: "RejectionCode \<Rightarrow> string" where
  "rejectionCode_value AMOUNT_INVALID = ''AMOUNT_INVALID''"
| "rejectionCode_value PARTY_MISSING = ''PARTY_MISSING''"
| "rejectionCode_value FIELD_MISSING = ''FIELD_MISSING''"
| "rejectionCode_value DUPLICATE = ''DUPLICATE''"
| "rejectionCode_value ORIGIN_NOT_FOUND = ''ORIGIN_NOT_FOUND''"
| "rejectionCode_value ORIGIN_WRONG_TYPE = ''ORIGIN_WRONG_TYPE''"
| "rejectionCode_value LINEAGE_REQUIRED = ''LINEAGE_REQUIRED''"
| "rejectionCode_value OVER_SETTLEMENT = ''OVER_SETTLEMENT''"
| "rejectionCode_value TUPLE_INVALID = ''TUPLE_INVALID''"

fun category_read :: "RejectionCategory \<Rightarrow> RejectionKind" where
  "category_read input_rejection = Input"
| "category_read lineage_rejection = Lineage"
| "category_read duplicate_rejection = Duplicate"
| "category_read internal_rejection = Internal"

text \<open>A rejection of the ledger as the treasury reads it; the hint is not used.\<close>

definition rejection_read :: "RejectionDetail \<Rightarrow> SubmissionRejection" where
  "rejection_read d =
     \<lparr>rj_code = rejectionCode_value (rd_code d), rj_category = category_read (rd_category d),
      rj_field = rd_field d, rj_detail = rd_detail d\<rparr>"

definition reply_of :: "SubmitOutcome \<Rightarrow> ReplyBody" where
  "reply_of x =
     (case x of
        Submit_accepted ref \<Rightarrow>
          \<lparr>rb_status = Some ''accepted'', rb_ledgerReference = Some ref, rb_reason = None, rb_rejections = None\<rparr>
      | Submit_rejected reason details \<Rightarrow>
          \<lparr>rb_status = Some ''rejected'', rb_ledgerReference = None, rb_reason = Some reason,
           rb_rejections = Some (map rejection_read details)\<rparr>)"

definition bad_request :: Response where
  "bad_request = Http 400 \<lparr>rb_status = None, rb_ledgerReference = None, rb_reason = None, rb_rejections = None\<rparr>"

text \<open>
  The reply of the route and the store after it; a text that is sent is a string. A submission always
  has an outcome (\<open>submit_outcome\<close>), so the case without one does not arise.
\<close>

definition submit_route ::
  "platform \<Rightarrow> call_env \<Rightarrow> string list \<Rightarrow> store \<Rightarrow> SubmitRequest \<Rightarrow> Response \<times> store" where
  "submit_route P env known st q =
     (case si_sourceReference (sq_body q) of
        None \<Rightarrow> (bad_request, st)
      | Some ref \<Rightarrow>
          (let key = (if truthy (sq_idempotencyKey q) then the (sq_idempotencyKey q) else ref)
           in case submit P env known st (sq_body q) key of
                None \<Rightarrow> (bad_request, st)
              | Some (outcome, st', _) \<Rightarrow> (Http 200 (reply_of outcome), st')))"

end
