(* ===== verification/Proposals.thy ===== *)
theory Proposals
  imports Treasury_Ledger
begin

text \<open>
  Every tuple the treasury can propose is one the ledger's tables admit. A tuple is reduced to its
  shape: the types, relations, roles and directions it names, and the flags the answers decide. The
  check runs over every scenario, every choice of its selector and every combination of flags the
  slots of the scenario allow.
\<close>

section \<open>Shapes\<close>

definition carried :: "Direction \<Rightarrow> (PartyRole \<times> Direction \<times> bool) list \<Rightarrow> int" where
  "carried d ps = int (length (filter (\<lambda>(_, e, b). e = d \<and> b) ps))"

definition flows_admitted :: "EconomicEffect \<Rightarrow> (PartyRole \<times> Direction \<times> bool) list \<Rightarrow> bool" where
  "flows_admitted ef ps \<longleftrightarrow>
     (let i = carried Direction.IN ps; u = carried Direction.OUT ps; n = carried Direction.NEUTRAL ps
      in effect_flows ef 1 i u \<and> (n = 0 \<or> i = 0 \<and> u = 0 \<or> n = (if i = 0 then u else i)))"

definition roles_admitted :: "(PartyRole \<times> Direction \<times> bool) list \<Rightarrow> bool" where
  "roles_admitted ps \<longleftrightarrow>
     list_all (\<lambda>(r, d, _). (r, d) \<notin> {(PartyRole.PAYER, Direction.IN), (PartyRole.PAYEE, Direction.OUT)}) ps"

definition tuple_admitted ::
  "EventType \<Rightarrow> EconomicEffect \<Rightarrow> ReasonType \<Rightarrow> bool \<Rightarrow> (ObjectType \<times> Relation) list \<Rightarrow> bool \<Rightarrow> bool \<Rightarrow> bool" where
  "tuple_admitted ty ef rt followup os related due \<longleftrightarrow>
     ef \<in> set (economicEffects (EVENT_CONTRACTS ty)) \<and> allowed_by (reasons (EVENT_CONTRACTS ty)) rt
     \<and> allowed_by (REASON_EFFECT_MATRIX rt) ef
     \<and> list_all (\<lambda>(t, rel). OBJECT_NATURE_MATRIX t \<noteq> ObjectNature.CONTEXTUAL \<and> tuple_admissible ty ef t rel rt) os
     \<and> (requiresRelatedEventId (EVENT_CONTRACTS ty) \<longrightarrow> related \<or> rt = ReasonType.UNKNOWN_ORIGIN \<and> followup)
     \<and> (list_ex (\<lambda>(_, rel). rel = Relation.RETRACTS) os \<longrightarrow> related \<and> list_all (\<lambda>(_, rel). rel = Relation.RETRACTS) os)
     \<and> (due \<longrightarrow> admitsDueAt (EVENT_CONTRACTS ty) \<and> list_ex (\<lambda>(_, rel). rel = Relation.ORIGINATES) os)"

definition party_shape :: "PartyTemplate \<Rightarrow> (PartyRole \<times> Direction \<times> bool) option" where
  "party_shape t = Option.bind (partyRole_of (pt_role t)) (\<lambda>r. Option.bind (direction_of (pt_direction t)) (\<lambda>d.
     Some (r, d, pt_carriesAmount t)))"

definition object_shape :: "ObjectTemplate \<Rightarrow> (ObjectType \<times> Relation) option" where
  "object_shape t = Option.bind (objectType_of (ot_objectType t)) (\<lambda>ty. Option.bind (relation_of (ot_relation t)) (\<lambda>rel.
     Some (ty, rel)))"

definition reason_type_of :: "ScenarioMapping \<Rightarrow> TupleOverride \<Rightarrow> bool \<Rightarrow> bool \<Rightarrow> string \<times> string" where
  "reason_type_of m ov orphaned late =
     (if late \<and> sm_retroactive m \<noteq> None then the (sm_retroactive m)
      else if orphaned then the (sm_orphan m)
      else (or_else (ov_reasonType ov) (sm_reasonType m), or_else (ov_reasonText ov) (sm_reasonText m)))"

text \<open>
  What the answers can say about a scenario: whether they name a related event, continue a recorded
  object, or give a due date.
\<close>

definition related_flags :: "ScenarioMapping \<Rightarrow> bool list" where
  "related_flags m =
     (case sm_relatedEventSlot m of None \<Rightarrow> [False] | Some _ \<Rightarrow> if sm_orphan m = None then [True] else [True, False])"

definition late_flags :: "ScenarioMapping \<Rightarrow> bool list" where
  "late_flags m = (if sm_objectIdSlot m = None then [False] else [False, True])"

definition due_flags :: "Scenario \<Rightarrow> bool list" where
  "due_flags s = (if list_ex (\<lambda>x. sl_key x = ''dueAt'') (sc_slots s) then [False, True] else [False])"

definition orphaned_proposal :: "ScenarioMapping \<Rightarrow> bool \<Rightarrow> bool" where
  "orphaned_proposal m related \<longleftrightarrow> sm_relatedEventSlot m \<noteq> None \<and> \<not> related \<and> sm_orphan m \<noteq> None"

definition reason_admitted ::
  "Scenario \<Rightarrow> ScenarioMapping \<Rightarrow> TupleOverride \<Rightarrow> EventType \<Rightarrow> EconomicEffect \<Rightarrow> (ObjectType \<times> Relation) list
     \<Rightarrow> bool \<Rightarrow> bool \<Rightarrow> bool" where
  "reason_admitted s m ov ty ef os related late \<longleftrightarrow>
     (let r = reason_type_of m ov (orphaned_proposal m related) late
      in trim (snd r) \<noteq> [] \<and>
         (case reasonType_of (fst r) of
            None \<Rightarrow> False
          | Some rt \<Rightarrow> list_all (tuple_admitted ty ef rt (orphaned_proposal m related) os related) (due_flags s)))"

definition branch_admitted :: "Scenario \<Rightarrow> ScenarioMapping \<Rightarrow> TupleOverride \<Rightarrow> bool" where
  "branch_admitted s m ov \<longleftrightarrow>
     (case (eventType_of (sm_eventType m), economicEffect_of (or_else (ov_economicEffect ov) (sm_economicEffect m)),
            those (map party_shape (sm_parties m)), those (map object_shape (object_templates ov (sm_objects m)))) of
        (Some ty, Some ef, Some qs, Some os) \<Rightarrow>
          qs \<noteq> [] \<and> os \<noteq> [] \<and> flows_admitted ef qs \<and> roles_admitted qs
          \<and> list_all (\<lambda>related. list_all (reason_admitted s m ov ty ef os related) (late_flags m)) (related_flags m)
      | _ \<Rightarrow> False)"

definition scenario_admitted :: "Scenario \<Rightarrow> bool" where
  "scenario_admitted s \<longleftrightarrow>
     (case mapping_of (sc_id s) of
        None \<Rightarrow> False
      | Some m \<Rightarrow> list_all (\<lambda>(_, ov). branch_admitted s m ov) (branches m)
          \<and> list_all (\<lambda>x. sl_key x = ''currency'' \<longrightarrow>
              (case sl_choices x of None \<Rightarrow> False | Some cs \<Rightarrow> list_all is_currency cs)) (sc_slots s))"

lemma every_scenario_admitted: "list_all scenario_admitted listScenarios" by code_simp
end
