(* ===== verification/Admission.thy ===== *)
theory Admission
  imports Proposals
begin

text \<open>
  From a shape to the ledger: a candidate whose shape is admitted and whose texts are given passes the
  validator of \<open>Staging_Records\<close>, is read into one command and satisfies every rule of an event that
  does not depend on the book. What depends on the book is \<open>book_admits\<close>.
\<close>

section \<open>Amounts\<close>

lemma digit_value_nonneg: "is_digit c \<Longrightarrow> 0 \<le> digit_value c \<and> (digit_value c = 0 \<longrightarrow> c = CHR ''0'')"
  by (cases c) (auto simp: is_digit_def digit_value_def)

lemma digits_value_append: "digits_value (ds @ [c]) = 10 * digits_value ds + digit_value c"
  by (simp add: digits_value_def)

lemma digits_value_zero:
  "list_all is_digit ds \<Longrightarrow> 0 \<le> digits_value ds \<and> (digits_value ds = 0 \<longrightarrow> list_all (\<lambda>c. c = CHR ''0'') ds)"
proof (induction ds rule: rev_induct)
  case Nil
  show ?case by (simp add: digits_value_def)
next
  case (snoc c ds)
  then show ?case using digit_value_nonneg [of c] by (auto simp: digits_value_append)
qed

text \<open>An amount the conversation accepts is a positive amount of the ledger.\<close>

lemma positive_amount:
  assumes "is_decimal v" "\<not> not_positive v" "is_currency cu"
  obtains m where "fromDecimal v cu = Inr m" "0 < units m" "currency m = cu"
proof -
  obtain ip where ip: "ip \<noteq> []" "list_all is_digit ip"
    and v: "v = ip \<or> (\<exists>ds. v = ip @ CHR ''.'' # ds \<and> (length ds = 1 \<or> length ds = 2) \<and> list_all is_digit ds)"
    using assms(1) by (auto simp: is_decimal_cases)
  have i: "0 \<le> digits_value ip" "digits_value ip = 0 \<Longrightarrow> list_all (\<lambda>c. c = CHR ''0'') ip"
    using digits_value_zero [OF ip(2)] by auto
  have made: "\<exists>m. fromDecimal v cu = Inr m \<and> 0 < units m \<and> currency m = cu"
    if "fromDecimal v cu = new_Money u cu" "0 < u" for u
    using that assms(3) by (simp add: new_Money_ok)
  have "\<exists>m. fromDecimal v cu = Inr m \<and> 0 < units m \<and> currency m = cu"
    using v
  proof (elim disjE exE conjE)
    assume "v = ip"
    moreover from this have "\<not> list_all (\<lambda>c. c = CHR ''0'') ip"
      using assms(2) by (auto simp: not_positive_def list_all_iff)
    ultimately show ?thesis using made fromDecimal_integer [OF ip] i by fastforce
  next
    fix ds assume ds: "v = ip @ CHR ''.'' # ds" "list_all is_digit ds" "length ds = 1"
    then obtain d where d: "ds = [d]" "is_digit d" by (cases ds) auto
    have "\<not> (list_all (\<lambda>c. c = CHR ''0'') ip \<and> d = CHR ''0'')"
      using assms(2) ds d by (auto simp: not_positive_def list_all_iff)
    then have "0 < 100 * digits_value ip + 10 * digit_value d" using i digit_value_nonneg [OF d(2)] by fastforce
    then show ?thesis using made fromDecimal_one_place [OF ip d(2)] ds d by simp
  next
    fix ds assume ds: "v = ip @ CHR ''.'' # ds" "list_all is_digit ds" "length ds = 2"
    have "\<not> (list_all (\<lambda>c. c = CHR ''0'') ip \<and> list_all (\<lambda>c. c = CHR ''0'') ds)"
      using assms(2) ds by (auto simp: not_positive_def list_all_iff)
    then have "0 < 100 * digits_value ip + digits_value ds" using i digits_value_zero [OF ds(2)] by fastforce
    then show ?thesis using made fromDecimal_two_places [OF ip ds(2,3)] ds by simp
  qed
  then show thesis using that by blast
qed

section \<open>A candidate the ledger understands\<close>

definition candidate_party_shape :: "CandidateParty \<Rightarrow> (PartyRole \<times> Direction \<times> bool) option" where
  "candidate_party_shape q = Option.bind (partyRole_of (cp_role q)) (\<lambda>r. Option.bind (direction_of (cp_direction q)) (\<lambda>d.
     Some (r, d, cp_amount q \<noteq> None)))"

definition candidate_object_shape :: "CandidateObject \<Rightarrow> (ObjectType \<times> Relation) option" where
  "candidate_object_shape t = Option.bind (objectType_of (co_objectKind t)) (\<lambda>ty. Option.bind (relation_of (co_relation t)) (\<lambda>rel.
     Some (ty, rel)))"

definition lawful_candidate :: "Candidate \<Rightarrow> bool" where
  "lawful_candidate c \<longleftrightarrow>
     (\<exists>ty ef rt ps os. eventType_of (cd_eventType c) = Some ty \<and> economicEffect_of (cd_economicEffect c) = Some ef
        \<and> reasonType_of (cr_type (cd_reason c)) = Some rt
        \<and> those (map candidate_party_shape (cd_parties c)) = Some ps
        \<and> those (map candidate_object_shape (cd_objects c)) = Some os
        \<and> ps \<noteq> [] \<and> os \<noteq> [] \<and> flows_admitted ef ps \<and> roles_admitted ps
        \<and> tuple_admitted ty ef rt (cr_requiresFollowup (cd_reason c)) os (cd_relatedEventId c \<noteq> None) (cd_dueAt c \<noteq> None))"

definition complete_candidate :: "Candidate \<Rightarrow> bool" where
  "complete_candidate c \<longleftrightarrow>
     cd_sourceReference c \<noteq> [] \<and> cd_occurredAt c \<noteq> []
     \<and> (\<exists>v cu. cd_amount c = Some v \<and> is_decimal v \<and> \<not> not_positive v \<and> cd_currency c = Some cu \<and> is_currency cu)
     \<and> (\<forall>q\<in>set (cd_parties c). truthy (cp_partyId q) \<and> cp_amount q \<in> {None, cd_amount c})
     \<and> (\<forall>ob\<in>set (cd_objects c). co_objectId ob \<noteq> [])
     \<and> trim (cr_description (cd_reason c)) \<noteq> [] \<and> cr_confidence (cd_reason c) = ''high''
     \<and> cd_reporterType c = ''user'' \<and> cd_reporterId c \<noteq> [] \<and> cd_channel c \<noteq> []
     \<and> cd_relatedEventId c \<noteq> Some [] \<and> cd_dueAt c \<noteq> Some []"

lemma those_iff: "those (map f xs) = Some ys \<longleftrightarrow> list_all2 (\<lambda>x y. f x = Some y) xs ys"
  by (induction xs arbitrary: ys) (auto simp: list_all2_Cons1 split: option.splits)

lemma candidate_staged_ok:
  assumes "lawful_candidate c" "complete_candidate c" "SOURCE_SYSTEM \<in> set known"
  shows "staged_ok known (toStagingRecord i (candidate_body c))"
proof -
  obtain ty ef rt ps os where sh: "eventType_of (cd_eventType c) = Some ty" "economicEffect_of (cd_economicEffect c) = Some ef"
    "reasonType_of (cr_type (cd_reason c)) = Some rt" "those (map candidate_party_shape (cd_parties c)) = Some ps"
    "those (map candidate_object_shape (cd_objects c)) = Some os" "ps \<noteq> []" "os \<noteq> []"
    using assms(1) by (auto simp: lawful_candidate_def)
  have p: "list_all2 (\<lambda>q s. candidate_party_shape q = Some s) (cd_parties c) ps"
    and o: "list_all2 (\<lambda>q s. candidate_object_shape q = Some s) (cd_objects c) os"
    using sh by (simp_all add: those_iff)
  have ne: "cd_parties c \<noteq> []" "cd_objects c \<noteq> []" using p o sh by auto
  have parties: "\<exists>r d. partyRole_of (cp_role q) = Some r \<and> direction_of (cp_direction q) = Some d" if "q \<in> set (cd_parties c)" for q
    using p that by (auto simp: list_all2_conv_all_nth in_set_conv_nth candidate_party_shape_def bind_eq_Some_conv)
  have objects: "\<exists>r d. objectType_of (co_objectKind q) = Some r \<and> relation_of (co_relation q) = Some d" if "q \<in> set (cd_objects c)" for q
    using o that by (auto simp: list_all2_conv_all_nth in_set_conv_nth candidate_object_shape_def bind_eq_Some_conv)
  have nonempty: "partyRole_of [] = None" "direction_of [] = None" "objectType_of [] = None" "relation_of [] = None"
    "eventType_of [] = None" "economicEffect_of [] = None" "reasonType_of [] = None"
    by code_simp+
  have high: "reporterType_of ''user'' = Some ReporterType.USER" "confidenceLevel_of ''high'' = Some ConfidenceLevel.HIGH"
    by code_simp+
  note c = assms(2) [unfolded complete_candidate_def]
  have "truthy (Some (cd_eventType c))" "truthy (Some (cd_economicEffect c))" "truthy (Some (cr_type (cd_reason c)))"
    using sh nonempty by (auto intro!: Nat.gr0I)
  moreover have "party_ok \<lparr>sp_partyId = cp_partyId q, sp_role = Some (cp_role q), sp_direction = Some (cp_direction q),
      sp_amount = cp_amount q\<rparr>" if "q \<in> set (cd_parties c)" for q
    using parties [OF that] c that nonempty by (auto simp: party_ok_def str_def)
  moreover have "object_ok \<lparr>so_objectId = Some (co_objectId q), so_objectType = Some (co_objectKind q),
      so_relation = Some (co_relation q)\<rparr>" if "q \<in> set (cd_objects c)" for q
    using objects [OF that] c that nonempty by (auto simp: object_ok_def str_def)
  ultimately show ?thesis
    using c sh ne assms(3) high
    by (auto simp: toStagingRecord_def candidate_body_def staged_ok_def REQUIRED_FIELDS_def str_def
        SOURCE_SYSTEM_def NORMALIZATION_VERSION_def NORMALIZATION_WORKER_def staged_reason_ok_def
        reporter_complete_def is_decimal_def is_currency_def)
qed

text \<open>The command the ledger reads from a candidate.\<close>

definition party_command :: "CandidateParty \<Rightarrow> PartyInput" where
  "party_command q = \<lparr>pi_partyId = str (cp_partyId q), pi_role = the (partyRole_of (cp_role q)),
     pi_direction = the (direction_of (cp_direction q)), pi_amount = cp_amount q\<rparr>"

definition object_command :: "CandidateObject \<Rightarrow> LedgerEventObject" where
  "object_command ob = \<lparr>obj_id = co_objectId ob, obj_type = the (objectType_of (co_objectKind ob)),
     obj_relation = the (relation_of (co_relation ob))\<rparr>"

definition command_of :: "platform \<Rightarrow> string \<Rightarrow> Candidate \<Rightarrow> CreateLedgerEventCommand" where
  "command_of P key c =
     \<lparr>cmd_eventType = the (eventType_of (cd_eventType c)), cmd_economicEffect = the (economicEffect_of (cd_economicEffect c)),
      cmd_occurredAt = parseInstant P (cd_occurredAt c), cmd_sourceAt = None,
      cmd_dueAt = parseOptionalInstant P (cd_dueAt c), cmd_amount = str (cd_amount c), cmd_currency = str (cd_currency c),
      cmd_description = cd_description c, cmd_sourceSystem = SOURCE_SYSTEM, cmd_sourceReference = cd_sourceReference c,
      cmd_normalizationVersion = NORMALIZATION_VERSION, cmd_normalizationWorkerId = NORMALIZATION_WORKER,
      cmd_commandId = Some key, cmd_relatedEventId = cd_relatedEventId c,
      cmd_parties = map party_command (cd_parties c), cmd_objects = map object_command (cd_objects c),
      cmd_reason = Some \<lparr>rsn_type = the (reasonType_of (cr_type (cd_reason c))),
        rsn_description = cr_description (cd_reason c), rsn_confidence = ConfidenceLevel.HIGH,
        rsn_requiresFollowup = cr_requiresFollowup (cd_reason c)\<rparr>,
      cmd_reporter = \<lparr>ri_reporterType = ReporterType.USER, ri_reporterId = cd_reporterId c, ri_reporterName = None,
        ri_channel = cd_channel c\<rparr>\<rparr>"

lemma those_all: "(\<And>x. x \<in> set xs \<Longrightarrow> f x = Some (g x)) \<Longrightarrow> those (map f xs) = Some (map g xs)"
  by (induction xs) auto

lemma lawful_parts:
  assumes "lawful_candidate c"
  obtains ty ef rt where "eventType_of (cd_eventType c) = Some ty" "economicEffect_of (cd_economicEffect c) = Some ef"
    "reasonType_of (cr_type (cd_reason c)) = Some rt" "cd_parties c \<noteq> []" "cd_objects c \<noteq> []"
    "\<And>q. q \<in> set (cd_parties c) \<Longrightarrow> partyRole_of (cp_role q) \<noteq> None \<and> direction_of (cp_direction q) \<noteq> None"
    "\<And>ob. ob \<in> set (cd_objects c) \<Longrightarrow> objectType_of (co_objectKind ob) \<noteq> None \<and> relation_of (co_relation ob) \<noteq> None"
    "flows_admitted ef (map (\<lambda>q. (pi_role (party_command q), pi_direction (party_command q), cp_amount q \<noteq> None)) (cd_parties c))"
    "list_all (\<lambda>q. (pi_role (party_command q), pi_direction (party_command q))
        \<notin> {(PartyRole.PAYER, Direction.IN), (PartyRole.PAYEE, Direction.OUT)}) (cd_parties c)"
    "tuple_admitted ty ef rt (cr_requiresFollowup (cd_reason c))
       (map (\<lambda>ob. (obj_type (object_command ob), obj_relation (object_command ob))) (cd_objects c))
       (cd_relatedEventId c \<noteq> None) (cd_dueAt c \<noteq> None)"
proof -
  obtain ty ef rt ps os where sh: "eventType_of (cd_eventType c) = Some ty" "economicEffect_of (cd_economicEffect c) = Some ef"
    "reasonType_of (cr_type (cd_reason c)) = Some rt" "those (map candidate_party_shape (cd_parties c)) = Some ps"
    "those (map candidate_object_shape (cd_objects c)) = Some os" "ps \<noteq> []" "os \<noteq> []" "flows_admitted ef ps" "roles_admitted ps"
    "tuple_admitted ty ef rt (cr_requiresFollowup (cd_reason c)) os (cd_relatedEventId c \<noteq> None) (cd_dueAt c \<noteq> None)"
    using assms by (auto simp: lawful_candidate_def)
  have p: "list_all2 (\<lambda>q s. candidate_party_shape q = Some s) (cd_parties c) ps"
    and o: "list_all2 (\<lambda>q s. candidate_object_shape q = Some s) (cd_objects c) os"
    using sh by (simp_all add: those_iff)
  have ps: "ps = map (\<lambda>q. (pi_role (party_command q), pi_direction (party_command q), cp_amount q \<noteq> None)) (cd_parties c)"
    by (rule nth_equalityI) (use p in \<open>auto simp: list_all2_conv_all_nth candidate_party_shape_def party_command_def bind_eq_Some_conv\<close>)
  have os: "os = map (\<lambda>ob. (obj_type (object_command ob), obj_relation (object_command ob))) (cd_objects c)"
    by (rule nth_equalityI) (use o in \<open>auto simp: list_all2_conv_all_nth candidate_object_shape_def object_command_def bind_eq_Some_conv\<close>)
  have "partyRole_of (cp_role q) \<noteq> None \<and> direction_of (cp_direction q) \<noteq> None" if "q \<in> set (cd_parties c)" for q
    using p that by (auto simp: list_all2_conv_all_nth in_set_conv_nth candidate_party_shape_def bind_eq_Some_conv)
  moreover have "objectType_of (co_objectKind q) \<noteq> None \<and> relation_of (co_relation q) \<noteq> None" if "q \<in> set (cd_objects c)" for q
    using o that by (auto simp: list_all2_conv_all_nth in_set_conv_nth candidate_object_shape_def bind_eq_Some_conv)
  moreover have "list_all (\<lambda>q. (pi_role (party_command q), pi_direction (party_command q))
        \<notin> {(PartyRole.PAYER, Direction.IN), (PartyRole.PAYEE, Direction.OUT)}) (cd_parties c)"
    using sh(9) by (simp add: ps roles_admitted_def list_all_iff)
  moreover have "cd_parties c \<noteq> []" "cd_objects c \<noteq> []" using sh(6,7) by (auto simp: ps os)
  ultimately show thesis using that sh(1-3,8,10) unfolding ps os by blast
qed

lemma candidate_command:
  assumes "lawful_candidate c" "complete_candidate c"
  shows "toCommand P (candidate_body c) key = Some (command_of P key c)"
proof -
  obtain ty ef rt where sh: "eventType_of (cd_eventType c) = Some ty" "economicEffect_of (cd_economicEffect c) = Some ef"
    "reasonType_of (cr_type (cd_reason c)) = Some rt"
    "\<And>q. q \<in> set (cd_parties c) \<Longrightarrow> partyRole_of (cp_role q) \<noteq> None \<and> direction_of (cp_direction q) \<noteq> None"
    "\<And>ob. ob \<in> set (cd_objects c) \<Longrightarrow> objectType_of (co_objectKind ob) \<noteq> None \<and> relation_of (co_relation ob) \<noteq> None"
    using lawful_parts [OF assms(1)] by metis
  have high: "reporterType_of ''user'' = Some ReporterType.USER" "confidenceLevel_of ''high'' = Some ConfidenceLevel.HIGH"
    by code_simp+
  have ps: "those (map cast_party (map (\<lambda>q. \<lparr>sp_partyId = cp_partyId q, sp_role = Some (cp_role q),
      sp_direction = Some (cp_direction q), sp_amount = cp_amount q\<rparr>) (cd_parties c))) = Some (map party_command (cd_parties c))"
    unfolding map_map by (rule those_all) (use sh(4) in \<open>fastforce simp: cast_party_def party_command_def str_def\<close>)
  have os: "those (map cast_object (map (\<lambda>ob. \<lparr>so_objectId = Some (co_objectId ob), so_objectType = Some (co_objectKind ob),
      so_relation = Some (co_relation ob)\<rparr>) (cd_objects c))) = Some (map object_command (cd_objects c))"
    unfolding map_map by (rule those_all) (use sh(5) in \<open>fastforce simp: cast_object_def object_command_def str_def\<close>)
  show ?thesis
    using assms(2) sh(1-3)
    by (simp add: toCommand_def toCreateCommand_def toStagingRecord_def candidate_body_def command_of_def ps os
        cast_reason_def cast_reporter_def high complete_candidate_def str_def parseOptionalInstant_def
        del: map_map)
qed

section \<open>The ledger admits a lawful candidate\<close>

definition made_party :: "Money \<Rightarrow> PartyInput \<Rightarrow> LedgerEventParty" where
  "made_party m q = \<lparr>party_id = pi_partyId q, party_role = pi_role q, party_direction = pi_direction q,
     party_amount = (if pi_amount q = None then None else Some m)\<rparr>"

lemma make_parties:
  assumes "fromDecimal v cu = Inr m" "v \<noteq> []" "\<forall>q\<in>set qs. pi_amount q \<in> {None, Some v}"
  shows "emap (make_party cu) qs = Inr (map (made_party m) qs)"
  by (rule emap_total) (use assms in \<open>auto simp: make_party_def made_party_def\<close>)

lemma flow_sum_made:
  "flow_sum d (map (made_party m) qs) =
     units m * carried d (map (\<lambda>q. (pi_role q, pi_direction q, pi_amount q \<noteq> None)) qs)"
  by (induction qs) (auto simp: flow_sum_def carried_def made_party_def algebra_simps)

lemma effect_flows_scale: "effect_flows ef 1 i u \<Longrightarrow> effect_flows ef k (k * i) (k * u)"
  by (cases ef) auto

lemma flows_admitted_scale:
  assumes "flows_admitted ef (map (\<lambda>q. (pi_role q, pi_direction q, pi_amount q \<noteq> None)) qs)"
    "pr_parties p = map (made_party (pr_amount p)) qs" "pr_economicEffect p = ef" "0 < units (pr_amount p)"
  shows "flows_ok p"
proof -
  have "one_currency (currency (pr_amount p)) (pr_parties p)"
    by (auto simp: one_currency_def assms(2) made_party_def)
  then show ?thesis
    using assms(1,4) effect_flows_scale
    by (auto simp: flows_ok_def flows_admitted_def Let_def assms(2,3) flow_sum_made)
qed

lemma tuple_admitted_admissible:
  assumes "tuple_admitted (pr_eventType p) (pr_economicEffect p) rt followup
      (map (\<lambda>ob. (obj_type ob, obj_relation ob)) (pr_objects p)) related due"
    "pr_reason p = Some r" "rsn_type r = rt" "rsn_requiresFollowup r = followup" "rsn_confidence r = ConfidenceLevel.HIGH"
    "pr_previousHash p \<noteq> None" "truthy (pr_relatedEventId p) = related" "(pr_dueAt p \<noteq> None) = due"
  shows "admissible p"
proof -
  note t = assms(1) [unfolded tuple_admitted_def]
  have top: "confidence_rank least \<le> confidence_rank ConfidenceLevel.HIGH" for least by (cases least) simp_all
  have rel: "has_relation rel (pr_objects p) \<longleftrightarrow>
      list_ex (\<lambda>(_, s). s = rel) (map (\<lambda>ob. (obj_type ob, obj_relation ob)) (pr_objects p))" for rel
    by (auto simp: has_relation_def list_ex_iff)
  have objs: "\<forall>ob\<in>set (pr_objects p). \<not> is_contextual ob \<and> admissible_object p r ob"
    using t assms(3) by (simp add: list_all_iff is_contextual_def admissible_object_def)
  have lineage: "requiresRelatedEventId (contract_of p) \<longrightarrow> truthy (pr_relatedEventId p) \<or> unknown_origin_declared (pr_reason p)"
    using t assms(2-4,7) by (simp add: unknown_origin_declared_def)
  have retracts: "has_relation Relation.RETRACTS (pr_objects p) \<longrightarrow>
      truthy (pr_relatedEventId p) \<and> (\<forall>ob\<in>set (pr_objects p). obj_relation ob = Relation.RETRACTS)"
    using t assms(7) by (simp add: rel list_all_iff)
  have due: "pr_dueAt p \<noteq> None \<longrightarrow> admitsDueAt (contract_of p) \<and> has_relation Relation.ORIGINATES (pr_objects p)"
    using t assms(8) by (simp add: rel)
  have hash: "pr_previousHash p = None \<longrightarrow>
      \<not> requiresPreviousHash (contract_of p) \<and> \<not> has_relation Relation.REVERSES (pr_objects p)"
    using assms(6) by blast
  show ?thesis
    unfolding admissible_def using t assms(2,3,5) objs hash lineage retracts due top by simp
qed

text \<open>What the ledger still decides for itself, reading its own book.\<close>

definition book_admits :: "platform \<Rightarrow> call_env \<Rightarrow> store \<Rightarrow> Candidate \<Rightarrow> bool" where
  "book_admits P env st c \<longleftrightarrow>
     st \<noteq> [] \<and> env_uuid env \<noteq> []
     \<and> (\<forall>ev\<in>set st. src_reference (ev_source ev) \<noteq> cd_sourceReference c \<and> ev_id ev \<noteq> env_uuid env)
     \<and> (\<forall>m. fromDecimal (str (cd_amount c)) (str (cd_currency c)) = Inr m \<longrightarrow>
          guards_pass st (command_of P (cd_sourceReference c) c) m)"

definition read_instants :: "platform \<Rightarrow> Candidate \<Rightarrow> bool" where
  "read_instants P c \<longleftrightarrow>
     parseInstant P (cd_occurredAt c) \<noteq> None \<and> (\<forall>d. cd_dueAt c = Some d \<longrightarrow> parseInstant P d \<noteq> None)"

text \<open>
  The event says what the candidate says: every field of the event but its identifier, its seal and the
  instants of the recording is a field of the candidate, or the constant the treasury submits under.
\<close>

definition records_candidate :: "platform \<Rightarrow> Candidate \<Rightarrow> LedgerEvent \<Rightarrow> bool" where
  "records_candidate P c ev \<longleftrightarrow>
     eventType_of (cd_eventType c) = Some (ev_eventType ev)
     \<and> economicEffect_of (cd_economicEffect c) = Some (ev_economicEffect ev)
     \<and> parseInstant P (cd_occurredAt c) = Some (ev_occurredAt ev)
     \<and> fromDecimal (str (cd_amount c)) (str (cd_currency c)) = Inr (ev_amount ev)
     \<and> ev_commandId ev = Some (cd_sourceReference c) \<and> ev_relatedEventId ev = cd_relatedEventId c
     \<and> ev_objects ev = map object_command (cd_objects c)
     \<and> ev_parties ev = map (made_party (ev_amount ev) \<circ> party_command) (cd_parties c)
     \<and> map_option (parseInstant P) (cd_dueAt c) = map_option Some (ev_dueAt ev) \<and> ev_sourceAt ev = None
     \<and> ev_description ev = cd_description c
     \<and> ev_source ev = \<lparr>src_system = SOURCE_SYSTEM, src_reference = cd_sourceReference c\<rparr>
     \<and> ev_normalization ev = \<lparr>norm_version = NORMALIZATION_VERSION, norm_workerId = NORMALIZATION_WORKER\<rparr>
     \<and> (\<exists>r. ev_reason ev = Some r \<and> reasonType_of (cr_type (cd_reason c)) = Some (rsn_type r)
          \<and> rsn_description r = cr_description (cd_reason c)
          \<and> confidenceLevel_of (cr_confidence (cd_reason c)) = Some (rsn_confidence r)
          \<and> rsn_requiresFollowup r = cr_requiresFollowup (cd_reason c))
     \<and> reporterType_of (cd_reporterType c) = Some (rep_type (ev_reporter ev))
     \<and> rep_id (ev_reporter ev) = cd_reporterId c \<and> rep_name (ev_reporter ev) = None
     \<and> rep_channel (ev_reporter ev) = cd_channel c"

lemma lawful_accepts:
  assumes "lawful_candidate c" "complete_candidate c" "book_admits P env st c" "read_instants P c"
  shows "\<exists>p. accepts env st (command_of P (cd_sourceReference c) c) p"
proof -
  obtain ty ef rt where sh: "eventType_of (cd_eventType c) = Some ty" "economicEffect_of (cd_economicEffect c) = Some ef"
    "reasonType_of (cr_type (cd_reason c)) = Some rt" "cd_parties c \<noteq> []" "cd_objects c \<noteq> []"
    "flows_admitted ef (map (\<lambda>q. (pi_role (party_command q), pi_direction (party_command q), cp_amount q \<noteq> None)) (cd_parties c))"
    "list_all (\<lambda>q. (pi_role (party_command q), pi_direction (party_command q))
        \<notin> {(PartyRole.PAYER, Direction.IN), (PartyRole.PAYEE, Direction.OUT)}) (cd_parties c)"
    "tuple_admitted ty ef rt (cr_requiresFollowup (cd_reason c))
       (map (\<lambda>ob. (obj_type (object_command ob), obj_relation (object_command ob))) (cd_objects c))
       (cd_relatedEventId c \<noteq> None) (cd_dueAt c \<noteq> None)"
    by (rule lawful_parts [OF assms(1)]) blast
  obtain v cu where v: "cd_amount c = Some v" "is_decimal v" "\<not> not_positive v" "cd_currency c = Some cu" "is_currency cu"
    using assms(2) by (auto simp: complete_candidate_def)
  obtain m where m: "fromDecimal v cu = Inr m" "0 < units m" "currency m = cu" by (rule positive_amount [OF v(2,3,5)])
  let ?cmd = "command_of P (cd_sourceReference c) c"
  let ?ps = "map party_command (cd_parties c)"
  let ?p = "make_props env ?cmd (env_uuid env) m \<lparr>src_system = SOURCE_SYSTEM, src_reference = cd_sourceReference c\<rparr>
    \<lparr>norm_version = NORMALIZATION_VERSION, norm_workerId = NORMALIZATION_WORKER\<rparr> (getLastEventHash st) (map (made_party m) ?ps)"
  have amounts: "\<forall>q\<in>set ?ps. pi_amount q \<in> {None, Some v}"
    using assms(2) v(1) by (auto simp: complete_candidate_def party_command_def)
  have fields: "cmd_amount ?cmd = v" "cmd_currency ?cmd = cu" "cmd_parties ?cmd = ?ps" "cmd_sourceSystem ?cmd = SOURCE_SYSTEM"
    "cmd_sourceReference ?cmd = cd_sourceReference c" "cmd_normalizationVersion ?cmd = NORMALIZATION_VERSION"
    "cmd_normalizationWorkerId ?cmd = NORMALIZATION_WORKER"
    by (simp_all add: command_of_def v str_def)
  have "v \<noteq> []" using v(2) by (auto simp: is_decimal_def)
  from make_parties [OF m(1) this amounts] have props: "command_props env st ?cmd = Some ?p"
    by (simp add: command_props_def fields m(1) del: map_map)
  have shapes: "map (\<lambda>q. (pi_role q, pi_direction q, pi_amount q \<noteq> None)) ?ps =
      map (\<lambda>q. (pi_role (party_command q), pi_direction (party_command q), cp_amount q \<noteq> None)) (cd_parties c)"
    by (simp add: party_command_def)
  have "flows_admitted ef (map (\<lambda>q. (pi_role q, pi_direction q, pi_amount q \<noteq> None)) ?ps)"
    unfolding shapes by (rule sh(6))
  from flows_admitted_scale [OF this, of ?p] have "flows_ok ?p"
    using sh(2) m(2) by (simp add: make_props_def command_of_def del: map_map)
  moreover have "basic_ok ?p"
    using sh(4,5,7) m(2) by (auto simp: basic_ok_def make_props_def command_of_def made_party_def list_all_iff)
  moreover have "admissible ?p"
  proof (rule tuple_admitted_admissible [where r = "the (cmd_reason ?cmd)"])
    show "tuple_admitted (pr_eventType ?p) (pr_economicEffect ?p) rt (cr_requiresFollowup (cd_reason c))
        (map (\<lambda>ob. (obj_type ob, obj_relation ob)) (pr_objects ?p)) (cd_relatedEventId c \<noteq> None) (cd_dueAt c \<noteq> None)"
      using sh by (simp add: make_props_def command_of_def comp_def)
    show "pr_previousHash ?p \<noteq> None"
      using assms(3) by (simp add: make_props_def getLastEventHash_def book_admits_def)
    show "truthy (pr_relatedEventId ?p) = (cd_relatedEventId c \<noteq> None)"
      using assms(2) by (cases "cd_relatedEventId c") (auto simp: make_props_def command_of_def complete_candidate_def)
    show "(pr_dueAt ?p \<noteq> None) = (cd_dueAt c \<noteq> None)"
      using assms(2) by (auto simp: make_props_def command_of_def complete_candidate_def parseOptionalInstant_def split: option.splits)
  qed (simp_all add: make_props_def command_of_def sh)
  moreover have "dates_ok ?p"
    using assms(4) by (auto simp: dates_ok_def make_props_def command_of_def read_instants_def parseOptionalInstant_def
        split: option.splits)
  moreover have "texts_given env ?cmd"
    using assms(2,3) by (auto simp: texts_given_def fields book_admits_def complete_candidate_def
        SOURCE_SYSTEM_def NORMALIZATION_VERSION_def NORMALIZATION_WORKER_def)
  moreover have "guards_pass st ?cmd m" using assms(3) m(1) v by (simp add: book_admits_def str_def)
  moreover have "pr_amount ?p = m" "cmd_sourceReference ?cmd = cd_sourceReference c"
    by (simp_all add: make_props_def command_of_def)
  ultimately show ?thesis using props assms(3) by (auto simp: accepts_def book_admits_def)
qed

theorem lawful_recorded:
  assumes "lawful_candidate c" "complete_candidate c" "book_admits P env st c" "read_instants P c"
    "SOURCE_SYSTEM \<in> set known" "getByCommandId st (cd_sourceReference c) = None"
  obtains ev where "submit_route P env known st (submit_request c) =
      (Http 200 (reply_of (Submit_accepted (env_uuid env))), st @ [ev])"
    "ev_id ev = env_uuid env" "records_candidate P c ev"
proof -
  let ?cmd = "command_of P (cd_sourceReference c) c"
  obtain p where p: "accepts env st ?cmd p" using lawful_accepts [OF assms(1-4)] by blast
  let ?ev = "event_of P (env_recordedAt env) p"
  have ref: "cd_sourceReference c \<noteq> []" using assms(2) by (simp add: complete_candidate_def)
  have "known_command st ?cmd = None" by (rule known_key [OF assms(6)]) (simp add: command_of_def)
  then have ex: "execute P env st ?cmd = Inr (?ev, st @ [?ev], [audit_created P ?cmd ?ev])"
    by (rule execute_recordsI [OF _ p refl])
  have "\<not> existsBySourceReference st (cd_sourceReference c)"
    using assms(3) by (auto simp: book_admits_def existsBySourceReference_def list_ex_iff)
  then have valid: "validateRecord known st (toStagingRecord (env_uuid env) (candidate_body c)) = []"
    using candidate_staged_ok [OF assms(1,2,5)]
    by (simp add: validateRecord_Nil toStagingRecord_def candidate_body_def str_def)
  have props: "command_props env st ?cmd = Some p" using p by (simp add: accepts_def)
  obtain v cu where v0: "cd_amount c = Some v" "is_decimal v" "cd_currency c = Some cu"
    "\<forall>q\<in>set (map party_command (cd_parties c)). pi_amount q \<in> {None, Some v}"
    using assms(2) by (auto simp: complete_candidate_def party_command_def)
  have "v \<noteq> []" using v0(2) by (auto simp: is_decimal_def)
  note v = v0(1) this v0(3,4)
  obtain m ps where m: "fromDecimal v cu = Inr m" "emap (make_party cu) (map party_command (cd_parties c)) = Inr ps"
    "p = make_props env ?cmd (env_uuid env) m \<lparr>src_system = SOURCE_SYSTEM, src_reference = cd_sourceReference c\<rparr>
      \<lparr>norm_version = NORMALIZATION_VERSION, norm_workerId = NORMALIZATION_WORKER\<rparr> (getLastEventHash st) ps"
    using props unfolding command_props_Some by (auto simp: command_of_def v(1,3) str_def)
  have ps: "ps = map (made_party m \<circ> party_command) (cd_parties c)"
    using make_parties [OF m(1) v(2,4)] m(2) by simp
  have ev: "ev_id ?ev = env_uuid env" by (simp add: m(3) event_of_def make_props_def)
  obtain ty ef rt where ty: "eventType_of (cd_eventType c) = Some ty" "economicEffect_of (cd_economicEffect c) = Some ef"
    "reasonType_of (cr_type (cd_reason c)) = Some rt" by (rule lawful_parts [OF assms(1)]) blast
  have high: "reporterType_of ''user'' = Some ReporterType.USER" "confidenceLevel_of ''high'' = Some ConfidenceLevel.HIGH"
    by code_simp+
  have says: "cr_confidence (cd_reason c) = ''high''" "cd_reporterType c = ''user''"
    using assms(2) by (simp_all add: complete_candidate_def)
  have due: "map_option (parseInstant P) (cd_dueAt c) = map_option Some (ev_dueAt ?ev)"
    using assms(2,4) by (cases "cd_dueAt c") (auto simp: m(3) event_of_def make_props_def command_of_def parseOptionalInstant_def
        complete_candidate_def read_instants_def)
  obtain t where t: "parseInstant P (cd_occurredAt c) = Some t" using assms(4) by (auto simp: read_instants_def)
  have records: "records_candidate P c ?ev"
    using m(1) due by (simp add: records_candidate_def m(3) ps event_of_def make_props_def command_of_def make_reporter_def
        says high ty t v(1,3) str_def)
  have "submit P env known st (candidate_body c) (cd_sourceReference c) =
      Some (Submit_accepted (env_uuid env), st @ [?ev], [audit_created P ?cmd ?ev])"
    using assms(6) valid candidate_command [OF assms(1,2)] ex ev by (simp add: submit_def)
  then have "submit_route P env known st (submit_request c) =
      (Http 200 (reply_of (Submit_accepted (env_uuid env))), st @ [?ev])"
    using ref by (simp add: submit_route_def submit_request_def candidate_body_def)
  then show thesis using that ev records by blast
qed

end
