(* ===== verification/Confirmed_Intents.thy ===== *)
theory Confirmed_Intents
  imports Admission
begin

text \<open>
  From an intent to a shape: the answers of an intent that waits for confirmation were validated and
  are complete, so its candidate is one \<open>Admission\<close> is about.
\<close>

section \<open>What the answers of a confirmed intent give\<close>

lemma ready_answered:
  assumes "is_ready (nextState s a)" "x \<in> set (sc_slots s)" "sl_required x"
  obtains v where "map_of a (sl_key x) = Some v" "trim v \<noteq> []"
proof -
  have "find (\<lambda>x. sl_required x \<and> isBlank (map_of a (sl_key x))) (sc_slots s) = None"
    using assms(1) by (auto simp: nextState_def is_ready_def Let_def split: option.splits)
  with assms(2,3) have "\<not> isBlank (map_of a (sl_key x))" by (auto simp: find_None_iff)
  with that show thesis by (auto simp: isBlank_def split: option.splits)
qed

lemma given_valid:
  assumes "answers_sound E ps s a" "x \<in> set (sc_slots s)" "sl_type x \<noteq> SlotType.PARTY" "map_of a (sl_key x) = Some v"
  shows "validateAnswer (te_dateParse E) x v = None"
  using assms unfolding answers_sound_def answer_sound_def by fastforce

lemma filled_Some: "filled a key = Some w \<longleftrightarrow> (\<exists>k v. key = Some k \<and> map_of a k = Some v \<and> trim v \<noteq> [] \<and> w = trim v)"
  by (auto simp: filled_def bind_eq_Some_conv split: option.splits if_splits)

lemma filled_nonempty: "filled a key \<noteq> Some []"
  by (auto simp: filled_Some)

text \<open>The amount and the currency of a sound and complete set of answers.\<close>

lemma answered_money:
  assumes "getScenario i = Some s" "answers_sound E ps s a" "is_ready (nextState s a)"
  obtains v cu where "map_of a ''amount'' = Some v" "is_decimal v" "\<not> not_positive v"
    "map_of a ''currency'' = Some cu" "is_currency cu"
proof -
  have wf: "well_formed_scenario s" and id: "sc_id s = i" using getScenario_well_formed [OF assms(1)] by auto
  obtain x where x: "x \<in> set (sc_slots s)" "sl_key x = ''amount''" "sl_type x = SlotType.MONEY" "sl_required x"
    using wf by (auto simp: well_formed_scenario_def list_ex_iff)
  obtain y where y: "y \<in> set (sc_slots s)" "sl_key y = ''currency''" "sl_type y = SlotType.CHOICE" "sl_required y"
    using wf by (auto simp: well_formed_scenario_def list_ex_iff)
  obtain v where v: "map_of a ''amount'' = Some v" "trim v \<noteq> []" using ready_answered [OF assms(3) x(1,4)] x(2) by metis
  obtain cu where cu: "map_of a ''currency'' = Some cu" "trim cu \<noteq> []" using ready_answered [OF assms(3) y(1,4)] y(2) by metis
  have "s \<in> set listScenarios" using map_of_SomeD [OF assms(1) [unfolded getScenario_def]] by (force simp: listScenarios_def)
  then have "scenario_admitted s" using every_scenario_admitted by (simp add: list_all_iff)
  then obtain cs where cs: "sl_choices y = Some cs" "list_all is_currency cs"
    using y by (auto simp: scenario_admitted_def list_all_iff split: option.splits)
  have "validateAnswer (te_dateParse E) x v = None" "validateAnswer (te_dateParse E) y cu = None"
    using given_valid [OF assms(2) x(1)] given_valid [OF assms(2) y(1)] x y v cu by auto
  then have "is_decimal v" "\<not> not_positive v" "cu \<in> set cs"
    using v cu x y cs by (auto simp: validateAnswer_def Let_def isBlank_def split: if_splits)
  with that v cu cs show thesis by (auto simp: list_all_iff)
qed

lemma override_branch:
  assumes "getScenario i = Some s" "answers_sound E ps s a" "is_ready (nextState s a)" "agrees s m"
  obtains choice where "(choice, override_of m a) \<in> set (branches m)"
proof (cases "sm_variants m")
  case None
  then show thesis using that by (auto simp: branches_def override_of_def)
next
  case (Some sel)
  obtain selector byChoice where sel: "sel = (selector, byChoice)" by (cases sel)
  obtain x where x: "x \<in> set (sc_slots s)" "sl_key x = selector" "sl_required x" "sl_choices x = Some (map fst byChoice)"
    using assms(4) Some sel by (auto simp: agrees_def has_slot_def list_ex_iff)
  then have ty: "sl_type x = SlotType.CHOICE"
    using getScenario_well_formed(1) [OF assms(1)] by (auto simp: well_formed_scenario_def list_all_iff)
  obtain v where v: "map_of a selector = Some v" "trim v \<noteq> []" using ready_answered [OF assms(3) x(1,3)] x(2) by metis
  have "validateAnswer (te_dateParse E) x v = None" using given_valid [OF assms(2) x(1)] ty x v by auto
  then have "v \<in> fst ` set byChoice" using v x ty by (auto simp: validateAnswer_def Let_def isBlank_def split: if_splits)
  then obtain ov where "map_of byChoice v = Some ov" by (metis map_of_eq_None_iff not_Some_eq)
  then have "(Some v, override_of m a) \<in> set (branches m)"
    using v by (force simp: branches_def override_of_def Some sel or_else_def dest: map_of_SomeD)
  with that show thesis .
qed

section \<open>The candidate of a confirmed intent\<close>

text \<open>The reason in terms of the two facts it depends on, an origin that is missing and a late awareness.\<close>

abbreviation orphaned :: "ScenarioMapping \<Rightarrow> answers \<Rightarrow> bool" where
  "orphaned m a \<equiv> sm_relatedEventSlot m \<noteq> None \<and> filled a (sm_relatedEventSlot m) = None \<and> sm_orphan m \<noteq> None"

lemma reason_of_type:
  "cr_type (reason_of m a u) = fst (reason_type_of m (override_of m a) (orphaned m a) (filled a (sm_objectIdSlot m) \<noteq> None))"
  "orphaned m a \<Longrightarrow> cr_requiresFollowup (reason_of m a u)"
  "cr_confidence (reason_of m a u) = ''high''"
  "trim (snd (reason_type_of m (override_of m a) (orphaned m a) (filled a (sm_objectIdSlot m) \<noteq> None))) \<noteq> [] \<Longrightarrow>
     trim (cr_description (reason_of m a u)) \<noteq> []"
  by (auto simp: reason_of_def reason_type_of_def Let_def trim_eq_Nil split: prod.splits if_splits)

lemma party_of_shape:
  "map_of a ''amount'' \<noteq> None \<Longrightarrow> candidate_party_shape (party_of E m a t) = party_shape t"
  by (simp add: candidate_party_shape_def party_of_def party_shape_def)

lemma objects_of_shape:
  "map candidate_object_shape (objects_of m a ref) = map object_shape (object_templates (override_of m a) (sm_objects m))"
  by (simp add: objects_of_def candidate_object_shape_def object_shape_def Let_def)

lemma tuple_admitted_mono:
  "tuple_admitted ty ef rt f os related due \<Longrightarrow> (f \<Longrightarrow> g) \<Longrightarrow> tuple_admitted ty ef rt g os related due"
  by (auto simp: tuple_admitted_def)

text \<open>What a candidate is, field by field.\<close>

definition built :: "treasury_env \<Rightarrow> ScenarioMapping \<Rightarrow> Intent \<Rightarrow> Candidate \<Rightarrow> bool" where
  "built E m it c \<longleftrightarrow>
     cd_sourceReference c = ''intent:'' @ it_id it \<and> cd_eventType c = sm_eventType m
     \<and> cd_economicEffect c = or_else (ov_economicEffect (override_of m (it_answers it))) (sm_economicEffect m)
     \<and> cd_occurredAt c \<in> range (te_isoString E)
     \<and> (if filled (it_answers it) (Some ''dueAt'') = None then cd_dueAt c = None
        else cd_dueAt c \<in> Some ` range (te_isoString E))
     \<and> cd_amount c = map_of (it_answers it) ''amount'' \<and> cd_currency c = map_of (it_answers it) ''currency''
     \<and> cd_relatedEventId c = filled (it_answers it) (sm_relatedEventSlot m)
     \<and> cd_parties c = map (party_of E m (it_answers it)) (sm_parties m)
     \<and> cd_objects c = objects_of m (it_answers it) (cd_sourceReference c)
     \<and> cd_reason c \<in> range (reason_of m (it_answers it))
     \<and> cd_reporterType c = ''user'' \<and> cd_reporterId c = it_userId it \<and> cd_channel c = ''web''"

lemma build_built:
  assumes "build_candidate E unid it = Inr c"
  obtains m where "mapping_of (it_scenarioId it) = Some m" "built E m it c"
proof -
  obtain m where m: "mapping_of (it_scenarioId it) = Some m"
    using assms by (auto simp: build_candidate_def split: option.splits)
  note b = assms [unfolded build_candidate_def m option.case Let_def ebind_Inr toInstantISO_def]
  have "built E m it c" using b by (auto simp: built_def ebind_Inr split: option.splits if_splits)
  with m show thesis by (rule that)
qed

lemma built_due: "built E m it c \<Longrightarrow> (cd_dueAt c \<noteq> None) = (filled (it_answers it) (Some ''dueAt'') \<noteq> None)"
  by (auto simp: built_def split: if_splits)

lemma slot_filled:
  assumes "answers_sound E ps s a" "filled a (Some k) \<noteq> None"
  shows "list_ex (\<lambda>x. sl_key x = k) (sc_slots s)"
proof -
  obtain v where "map_of a k = Some v" using assms(2) by (auto simp: filled_def split: option.splits)
  then have "k \<in> fst ` set a" by (metis map_of_eq_None_iff option.distinct(1))
  with assms(1) have "k \<in> sl_key ` set (sc_slots s)" by (auto simp: answers_sound_def)
  then show ?thesis by (auto simp: list_ex_iff)
qed

lemma origin_given:
  assumes "is_ready (nextState s a)" "agrees s m" "sm_relatedEventSlot m \<noteq> None" "filled a (sm_relatedEventSlot m) = None"
  shows "sm_orphan m \<noteq> None"
proof (rule ccontr)
  assume no: "\<not> sm_orphan m \<noteq> None"
  obtain k where k: "sm_relatedEventSlot m = Some k" using assms(3) by auto
  obtain x where x: "x \<in> set (sc_slots s)" "sl_key x = k" "sl_required x"
    using assms(2) k no by (auto simp: agrees_def has_slot_def list_ex_iff)
  obtain v where "map_of a k = Some v" "trim v \<noteq> []" using ready_answered [OF assms(1) x(1,3)] x(2) by metis
  with assms(4) k show False by (simp add: filled_def)
qed

text \<open>The flags of the answers are among those checked for the branch.\<close>

lemma branch_tuple:
  assumes "getScenario i = Some s" "answers_sound E ps s a" "is_ready (nextState s a)" "mapping_of i = Some m" "agrees s m"
  obtains ty ef rt qs os where
    "eventType_of (sm_eventType m) = Some ty"
    "economicEffect_of (or_else (ov_economicEffect (override_of m a)) (sm_economicEffect m)) = Some ef"
    "those (map party_shape (sm_parties m)) = Some qs"
    "those (map object_shape (object_templates (override_of m a) (sm_objects m))) = Some os"
    "qs \<noteq> []" "os \<noteq> []" "flows_admitted ef qs" "roles_admitted qs"
    "reasonType_of (fst (reason_type_of m (override_of m a) (orphaned m a) (filled a (sm_objectIdSlot m) \<noteq> None))) = Some rt"
    "trim (snd (reason_type_of m (override_of m a) (orphaned m a) (filled a (sm_objectIdSlot m) \<noteq> None))) \<noteq> []"
    "tuple_admitted ty ef rt (orphaned m a) os (filled a (sm_relatedEventSlot m) \<noteq> None) (filled a (Some ''dueAt'') \<noteq> None)"
proof -
  let ?ov = "override_of m a"
  let ?related = "filled a (sm_relatedEventSlot m) \<noteq> None"
  let ?late = "filled a (sm_objectIdSlot m) \<noteq> None"
  let ?due = "filled a (Some ''dueAt'') \<noteq> None"
  have "s \<in> set listScenarios" using map_of_SomeD [OF assms(1) [unfolded getScenario_def]] by (force simp: listScenarios_def)
  then have "scenario_admitted s" using every_scenario_admitted by (simp add: list_all_iff)
  moreover have "sc_id s = i" using getScenario_well_formed(2) [OF assms(1)] .
  moreover obtain choice where "(choice, ?ov) \<in> set (branches m)" by (rule override_branch [OF assms(1-3,5)])
  ultimately have b: "branch_admitted s m ?ov"
    using assms(4) by (auto simp: scenario_admitted_def list_all_iff)
  have flags: "?related \<in> set (related_flags m)" "?late \<in> set (late_flags m)" "?due \<in> set (due_flags s)"
    using origin_given [OF assms(3,5)] slot_filled [OF assms(2), of "''dueAt''"]
    by (auto simp: related_flags_def late_flags_def due_flags_def filled_def split: option.splits if_splits)
  have orphan: "orphaned_proposal m ?related = orphaned m a" by (auto simp: orphaned_proposal_def)
  obtain ty ef qs os where sh: "eventType_of (sm_eventType m) = Some ty"
    "economicEffect_of (or_else (ov_economicEffect ?ov) (sm_economicEffect m)) = Some ef"
    "those (map party_shape (sm_parties m)) = Some qs"
    "those (map object_shape (object_templates ?ov (sm_objects m))) = Some os"
    "qs \<noteq> []" "os \<noteq> []" "flows_admitted ef qs" "roles_admitted qs"
    "list_all (\<lambda>related. list_all (reason_admitted s m ?ov ty ef os related) (late_flags m)) (related_flags m)"
    using b unfolding branch_admitted_def by (auto split: option.splits)
  have "reason_admitted s m ?ov ty ef os ?related ?late"
    using sh(9) flags(1,2) unfolding list_all_iff by blast
  then obtain rt where rt: "reasonType_of (fst (reason_type_of m ?ov (orphaned m a) ?late)) = Some rt"
    "trim (snd (reason_type_of m ?ov (orphaned m a) ?late)) \<noteq> []"
    "list_all (tuple_admitted ty ef rt (orphaned m a) os ?related) (due_flags s)"
    unfolding reason_admitted_def Let_def orphan by (auto split: option.splits)
  have "tuple_admitted ty ef rt (orphaned m a) os ?related ?due"
    using rt(3) flags(3) unfolding list_all_iff by blast
  then show thesis using that [OF sh(1-8) rt(1,2)] by blast
qed

lemma confirmed_lawful:
  assumes "getScenario (it_scenarioId it) = Some s" "answers_sound E ps s (it_answers it)"
    "is_ready (nextState s (it_answers it))" "build_candidate E unid it = Inr c"
  shows "lawful_candidate c"
proof -
  let ?a = "it_answers it"
  obtain m0 where m0: "mapping_of (it_scenarioId it) = Some m0" "agrees s m0" by (rule mapping_agrees [OF assms(1)])
  obtain m where m: "mapping_of (it_scenarioId it) = Some m" and b: "built E m it c" by (rule build_built [OF assms(4)])
  have agr: "agrees s m" using m m0 by simp
  obtain ty ef rt qs os where t:
    "eventType_of (sm_eventType m) = Some ty"
    "economicEffect_of (or_else (ov_economicEffect (override_of m ?a)) (sm_economicEffect m)) = Some ef"
    "those (map party_shape (sm_parties m)) = Some qs"
    "those (map object_shape (object_templates (override_of m ?a) (sm_objects m))) = Some os"
    "qs \<noteq> []" "os \<noteq> []" "flows_admitted ef qs" "roles_admitted qs"
    "reasonType_of (fst (reason_type_of m (override_of m ?a) (orphaned m ?a) (filled ?a (sm_objectIdSlot m) \<noteq> None))) = Some rt"
    "tuple_admitted ty ef rt (orphaned m ?a) os (filled ?a (sm_relatedEventSlot m) \<noteq> None) (filled ?a (Some ''dueAt'') \<noteq> None)"
    by (rule branch_tuple [OF assms(1-3) m agr]) blast
  obtain v where v: "map_of ?a ''amount'' = Some v" by (rule answered_money [OF assms(1-3)])
  have parties: "map candidate_party_shape (cd_parties c) = map party_shape (sm_parties m)"
    using v b by (simp add: built_def party_of_shape)
  have related: "cd_relatedEventId c = filled ?a (sm_relatedEventSlot m)" and objects: "cd_objects c = objects_of m ?a (cd_sourceReference c)"
    and kind: "cd_eventType c = sm_eventType m"
      "cd_economicEffect c = or_else (ov_economicEffect (override_of m ?a)) (sm_economicEffect m)"
    using b by (simp_all add: built_def)
  obtain u where u: "cd_reason c = reason_of m ?a u" using b by (auto simp: built_def)
  have "tuple_admitted ty ef rt (cr_requiresFollowup (cd_reason c)) os (cd_relatedEventId c \<noteq> None) (cd_dueAt c \<noteq> None)"
    unfolding related built_due [OF b] u using t(10) by (rule tuple_admitted_mono) (rule reason_of_type(2))
  moreover have "reasonType_of (cr_type (cd_reason c)) = Some rt" unfolding u reason_of_type(1) by (rule t(9))
  moreover have "those (map candidate_object_shape (cd_objects c)) = Some os"
    unfolding objects objects_of_shape by (rule t(4))
  moreover have "those (map candidate_party_shape (cd_parties c)) = Some qs" unfolding parties by (rule t(3))
  ultimately show ?thesis unfolding lawful_candidate_def kind using t(1,2,5-8) by blast
qed

lemma confirmed_complete:
  assumes "getScenario (it_scenarioId it) = Some s" "answers_sound E ps s (it_answers it)"
    "is_ready (nextState s (it_answers it))" "build_candidate E unid it = Inr c"
    "te_usina E \<noteq> []" "it_userId it \<noteq> []" "\<And>t. te_isoString E t \<noteq> []"
  shows "complete_candidate c"
proof -
  let ?a = "it_answers it"
  obtain m0 where m0: "mapping_of (it_scenarioId it) = Some m0" "agrees s m0" by (rule mapping_agrees [OF assms(1)])
  obtain m where m: "mapping_of (it_scenarioId it) = Some m" and b: "built E m it c" by (rule build_built [OF assms(4)])
  note f = b [unfolded built_def]
  have agr: "agrees s m" using m m0 by simp
  have text1: "trim (snd (reason_type_of m (override_of m ?a) (orphaned m ?a) (filled ?a (sm_objectIdSlot m) \<noteq> None))) \<noteq> []"
    by (rule branch_tuple [OF assms(1-3) m agr])
  obtain v cu where v: "map_of ?a ''amount'' = Some v" "is_decimal v" "\<not> not_positive v"
    "map_of ?a ''currency'' = Some cu" "is_currency cu" by (rule answered_money [OF assms(1-3)])
  have "truthy (cp_partyId (party_of E m ?a t)) \<and> cp_amount (party_of E m ?a t) \<in> {None, cd_amount c}"
    if "t \<in> set (sm_parties m)" for t
  proof (cases "pt_who t")
    case USINA
    then show ?thesis using assms(5) f by (simp add: party_of_def)
  next
    case COUNTERPARTY
    then have "sm_counterpartySlot m \<noteq> None" using agr that by (auto simp: agrees_def list_ex_iff)
    then obtain k where k: "sm_counterpartySlot m = Some k" by auto
    then obtain x where x: "x \<in> set (sc_slots s)" "sl_key x = k" "sl_required x"
      using agr by (auto simp: agrees_def has_slot_def list_ex_iff)
    obtain w where w: "map_of ?a k = Some w" "trim w \<noteq> []" using ready_answered [OF assms(3) x(1,3)] x(2) by metis
    then have "w \<noteq> []" by (auto simp: trim_eq_Nil)
    with w(1) k COUNTERPARTY f show ?thesis by (simp add: party_of_def)
  qed
  moreover have "co_objectId ob \<noteq> []" if "ob \<in> set (cd_objects c)" for ob
    using that f filled_nonempty [of ?a "sm_objectIdSlot m"]
    by (auto simp: objects_of_def Let_def split: option.splits if_splits)
  moreover obtain u where u: "cd_reason c = reason_of m ?a u" using f by blast
  moreover have "trim (cr_description (cd_reason c)) \<noteq> []" "cr_confidence (cd_reason c) = ''high''"
    unfolding u using reason_of_type(3,4) text1 by auto
  moreover have "cd_relatedEventId c \<noteq> Some []" using f filled_nonempty by simp
  moreover have "cd_dueAt c \<noteq> Some []"
  proof -
    have "Some [] \<notin> Some ` range (te_isoString E)" using assms(7) by (metis imageE option.inject)
    then show ?thesis using f by (cases "filled ?a (Some ''dueAt'')") auto
  qed
  moreover have "cd_occurredAt c \<noteq> []" using f assms(7) by (metis imageE)
  ultimately show ?thesis
    unfolding complete_candidate_def using f v assms(6) by simp
qed

lemma confirmed_instants:
  assumes "build_candidate E unid it = Inr c" "\<And>t. parseInstant P (te_isoString E t) \<noteq> None"
  shows "read_instants P c"
proof -
  obtain m where "built E m it c" by (rule build_built [OF assms(1)])
  then show ?thesis using assms(2) by (auto simp: built_def read_instants_def split: if_splits)
qed

text \<open>A candidate of an intent that waits for confirmation is one the ledger understands.\<close>

theorem confirmed_candidate:
  assumes "treasury_reachable E T" "find_intent T i = Some it" "it_status it = AWAITING_CONFIRMATION"
    "candidate_of E (tr_parties T) it = Inr c" "getScenario (it_scenarioId it) = Some s"
    "te_usina E \<noteq> []" "it_userId it \<noteq> []"
    "\<And>t. te_isoString E t \<noteq> [] \<and> parseInstant P (te_isoString E t) \<noteq> None"
  shows "lawful_candidate c" "complete_candidate c" "read_instants P c"
proof -
  have sound: "intent_sound E (tr_parties T) it"
    using reachable_sound [OF assms(1)] assms(2) by (simp add: treasury_sound_def)
  then have a: "answers_sound E (tr_parties T) s (it_answers it)" "is_ready (nextState s (it_answers it))"
    using assms(3,5) by (auto simp: intent_sound_def)
  obtain unid where c: "build_candidate E unid it = Inr c"
    using assms(4) by (auto simp: candidate_of_def ebind_Inr)
  show "lawful_candidate c" by (rule confirmed_lawful [OF assms(5) a c])
  show "complete_candidate c" by (rule confirmed_complete [OF assms(5) a c assms(6,7)]) (use assms(8) in blast)
  show "read_instants P c" by (rule confirmed_instants [OF c]) (use assms(8) in blast)
qed

end
