(* ===== verification/Joint_Run.thy ===== *)
theory Joint_Run
  imports Confirmed_Intents
begin

text \<open>
  The two programs running together. The treasury talks and submits, the ledger also records what others
  send it, and a reply may be lost after the ledger has recorded. The theory shows what acceptance in
  the treasury means for the book: the event is there, under the key of the intent.
\<close>

section \<open>What a use case does to the accepted intents\<close>

definition acknowledged :: "(string \<Rightarrow> string \<Rightarrow> bool) \<Rightarrow> Intent \<Rightarrow> bool" where
  "acknowledged Q it \<longleftrightarrow>
     (it_status it = ACCEPTED \<longrightarrow> (\<exists>r. it_ledgerReference it = Some r \<and> Q (''intent:'' @ it_id it) r))"

definition accepts_only :: "(string \<Rightarrow> string \<Rightarrow> bool) \<Rightarrow> treasury \<Rightarrow> treasury \<Rightarrow> bool" where
  "accepts_only Q T T' \<longleftrightarrow>
     (\<forall>i it. find_intent T' i = Some it \<longrightarrow> find_intent T i = Some it \<or> acknowledged Q it)"

lemma accepts_only_refl [simp]: "accepts_only Q T T"
  by (simp add: accepts_only_def)

lemma accepts_only_trans [trans]: "accepts_only Q T T1 \<Longrightarrow> accepts_only Q T1 T2 \<Longrightarrow> accepts_only Q T T2"
  unfolding accepts_only_def by metis

lemma accepts_only_journal [simp]:
  "accepts_only Q T (journal es T') = accepts_only Q T T'" "accepts_only Q (journal es T) T' = accepts_only Q T T'"
  by (simp_all add: accepts_only_def)

lemma accepts_only_save: "acknowledged Q it \<Longrightarrow> accepts_only Q T (save_intent it T)"
  by (simp add: accepts_only_def)

lemma accepts_only_parties [simp]:
  "accepts_only Q T (T'\<lparr>tr_parties := ps\<rparr>) = accepts_only Q T T'"
  "accepts_only Q (T\<lparr>tr_parties := ps\<rparr>) T' = accepts_only Q T T'"
  by (simp_all add: accepts_only_def find_intent_def)

lemma acknowledged_open: "it_status it \<noteq> ACCEPTED \<Longrightarrow> acknowledged Q it"
  by (simp add: acknowledged_def)

lemma acknowledged_mono: "acknowledged Q it \<Longrightarrow> (\<And>k r. Q k r \<Longrightarrow> R k r) \<Longrightarrow> acknowledged R it"
  by (auto simp: acknowledged_def)

lemma accepts_only_mono: "accepts_only Q T T' \<Longrightarrow> (\<And>k r. Q k r \<Longrightarrow> R k r) \<Longrightarrow> accepts_only R T T'"
  unfolding accepts_only_def using acknowledged_mono by blast

section \<open>The use cases that do not submit\<close>

lemma marked_open:
  "it_status it \<noteq> ACCEPTED \<Longrightarrow> it_status (if b then markAwaitingConfirmation now it else it) \<noteq> ACCEPTED"
  "it_status (record_answer key v now it) \<noteq> ACCEPTED"
  by (simp_all add: markAwaitingConfirmation_def record_answer_def)

lemma start_accepts: "start_use_case newId now sc u T = Inr (T', x) \<Longrightarrow> accepts_only Q T T'"
  by (auto simp: start_use_case_def Let_def start_intent_def acknowledged_def intro!: accepts_only_save split: option.splits)

lemma answered_open: "it_status (answered s key w t u it) \<noteq> ACCEPTED"
  unfolding answered_def by (intro marked_open)

lemma save_accepts:
  "it_status it \<noteq> ACCEPTED \<Longrightarrow> accepts_only Q T T1 \<Longrightarrow> accepts_only Q T (save_intent it T1)"
  by (rule accepts_only_trans [OF _ accepts_only_save [OF acknowledged_open]])

lemma advance_accepts: "advance_dialog E now i key v T = Inr (T', r) \<Longrightarrow> accepts_only Q T T'"
  by (erule advance_cases) (auto intro!: save_accepts answered_open)

lemma decide_accepts:
  "decide_identity fresh t i key kind mention why u T = Inr (T', d, st) \<Longrightarrow> accepts_only Q T T'"
  by (erule decide_cases) (auto intro!: save_accepts answered_open)

lemma apply_answer_open:
  "(mg_recorded M > 0 \<longrightarrow> it_status (mg_intent M) \<noteq> ACCEPTED) \<Longrightarrow>
   (mg_recorded (apply_answer E ps now s mode kv M) > 0 \<longrightarrow> it_status (mg_intent (apply_answer E ps now s mode kv M)) \<noteq> ACCEPTED)"
  by (auto simp: apply_answer_def Let_def record_answer_def split: prod.splits option.splits)

lemma apply_fold_open:
  "(mg_recorded M > 0 \<longrightarrow> it_status (mg_intent M) \<noteq> ACCEPTED) \<Longrightarrow>
   (mg_recorded (fold (apply_answer E ps now s mode) kvs M) > 0 \<longrightarrow>
      it_status (mg_intent (fold (apply_answer E ps now s mode) kvs M)) \<noteq> ACCEPTED)"
proof (induction kvs arbitrary: M)
  case (Cons kv kvs)
  then show ?case using apply_answer_open [of M E ps now s mode kv] by simp
qed simp

lemma apply_accepts:
  assumes "apply_answers E now i answers mode T = Inr (T', r)"
  shows "accepts_only Q T T'"
proof -
  obtain it s where its: "intent_and_scenario T i = Inr (it, s)"
    using assms by (auto simp: apply_answers_def ebind_Inr)
  let ?M = "fold (apply_answer E (tr_parties T) now s mode) answers
    \<lparr>mg_intent = it, mg_audit = [], mg_rejected = [], mg_skipped = [], mg_identity = [], mg_recorded = 0\<rparr>"
  have T': "T' = (if 0 < mg_recorded ?M then save_intent (if is_ready (nextState s (it_answers (mg_intent ?M)))
      then markAwaitingConfirmation now (mg_intent ?M) else mg_intent ?M) (journal (mg_audit ?M) T)
      else journal (mg_audit ?M) T)"
    using assms its unfolding apply_answers_def by (simp add: Let_def)
  have "0 < mg_recorded ?M \<Longrightarrow> it_status (mg_intent ?M) \<noteq> ACCEPTED"
    using apply_fold_open [of "\<lparr>mg_intent = it, mg_audit = [], mg_rejected = [], mg_skipped = [], mg_identity = [], mg_recorded = 0\<rparr>"]
    by simp
  then show ?thesis unfolding T' by (auto simp: markAwaitingConfirmation_def intro!: save_accepts)
qed

definition run_accepts :: "(string \<Rightarrow> string \<Rightarrow> bool) \<Rightarrow> 'a run \<Rightarrow> bool" where
  "run_accepts Q m \<longleftrightarrow> (\<forall>T. accepts_only Q T (fst (m T)))"

lemma run_accepts_and_then: "run_accepts Q m \<Longrightarrow> (\<And>x. run_accepts Q (f x)) \<Longrightarrow> run_accepts Q (and_then m f)"
  unfolding run_accepts_def and_then_def by (auto split: prod.split sum.split) (metis accepts_only_trans fst_conv)+

lemma run_accepts_simple [simp]: "run_accepts Q (give x)" "run_accepts Q (throw e)"
  by (simp_all add: run_accepts_def give_def throw_def)

lemma run_accepts_lift: "(\<And>T T' x. f T = Inr (T', x) \<Longrightarrow> accepts_only Q T T') \<Longrightarrow> run_accepts Q (lift f)"
  by (auto simp: run_accepts_def lift_def split: sum.split)

lemma run_accepts_start: "run_accepts Q (start_run i now sc u)"
  unfolding start_run_def by (rule run_accepts_lift) (rule start_accepts)

lemma run_accepts_apply: "run_accepts Q (apply_run E now i answers)"
  unfolding apply_run_def by (rule run_accepts_lift) (rule apply_accepts)

lemma run_accepts_position:
  "run_accepts Q (start_position_action E lifecycle event i now objectId sc u choice)"
  unfolding start_position_action_def
  by (auto simp: Let_def intro!: run_accepts_and_then run_accepts_start run_accepts_apply split: option.split)

lemma interpret_accepts:
  assumes "interpret_utterance E X newId now i utterance u T = Inr (T', r)"
  shows "accepts_only Q T T'"
proof -
  have merged: "accepts_only Q U T'" if "mergeProposals E t i' proposals U = Inr (T', m)" for t i' proposals U m
    using that apply_accepts by (auto simp: mergeProposals_def Let_def ebind_Inr)
  show ?thesis
    using assms
  proof (cases rule: interpret_cases)
    case (asked es)
    then show ?thesis by simp
  next
    case (continued es t i' proposals m)
    from merged [OF this] show ?thesis by simp
  next
    case (started es es' t sc proposals m)
    have "accepts_only Q T (save_intent (start_intent newId sc u (now 1)) (journal es T))"
      by (rule save_accepts) (simp_all add: start_intent_def)
    moreover have "accepts_only Q (save_intent (start_intent newId sc u (now 1)) (journal es T)) T'"
      using merged [OF started] by simp
    ultimately show ?thesis by (rule accepts_only_trans)
  qed
qed

lemma desk_accepts: "desk_step E T T' \<Longrightarrow> accepts_only Q T T'"
proof (induction rule: desk_step.induct)
  case (position T lifecycle event i now objectId sc u choice)
  then show ?case using run_accepts_position unfolding run_accepts_def by blast
qed (auto intro: start_accepts advance_accepts apply_accepts interpret_accepts decide_accepts)

section \<open>The use cases that submit\<close>

text \<open>A ledger that says accepted only of what \<open>Q\<close> says it holds, under the key of the candidate.\<close>

definition truthful :: "(string \<Rightarrow> string \<Rightarrow> bool) \<Rightarrow> (Candidate \<Rightarrow> string + SubmissionOutcome) \<Rightarrow> bool" where
  "truthful Q ledger \<longleftrightarrow>
     (\<forall>c ref. ledger c = Inr (Sub_accepted ref) \<longrightarrow> Q (cd_sourceReference c) (or_else ref []))"

definition sent :: "treasury_env \<Rightarrow> string \<Rightarrow> string \<Rightarrow> treasury \<Rightarrow> string + Intent \<times> Scenario \<times> Candidate" where
  "sent E now i T =
     ebind (intent_and_scenario T i) (\<lambda>(it, s).
     ebind (markSubmitted now it) (\<lambda>it1.
     ebind (candidate_of E (tr_parties T) it1) (\<lambda>c. Inr (it1, s, c))))"

lemma sent_Inr:
  assumes "sent E now i T = Inr (it1, s, c)"
  obtains it where "find_intent T i = Some it" "getScenario (it_scenarioId it) = Some s" "it_status it = AWAITING_CONFIRMATION"
    "it1 = it\<lparr>it_status := SUBMITTED, it_updatedAt := now\<rparr>" "candidate_of E (tr_parties T) it1 = Inr c"
    "cd_sourceReference c = ''intent:'' @ it_id it1"
proof -
  obtain it where it: "intent_and_scenario T i = Inr (it, s)" "markSubmitted now it = Inr it1"
    "candidate_of E (tr_parties T) it1 = Inr c"
    using assms by (auto simp: sent_def ebind_Inr)
  obtain unid where "build_candidate E unid it1 = Inr c" using it(3) by (auto simp: candidate_of_def ebind_Inr)
  then have "cd_sourceReference c = ''intent:'' @ it_id it1" by (rule build_built) (simp add: built_def)
  then show thesis
    using that it by (auto simp: intent_and_scenario_Inr markSubmitted_def split: if_splits)
qed

lemma submit_intent_cases:
  obtains (unsent) e where "sent E (now 0) i T = Inl e" "fst (submit_intent E ledger now i T) = T"
  | (failed) it s c e es where "sent E (now 0) i T = Inr (it, s, c)" "ledger c = Inl e" "fst (submit_intent E ledger now i T) = journal es T"
  | (accepted) it s c ref es where "sent E (now 0) i T = Inr (it, s, c)" "ledger c = Inr (Sub_accepted ref)"
      "fst (submit_intent E ledger now i T) = save_intent (markAccepted (or_else ref []) (now 2) it) (journal es T)"
      "snd (submit_intent E ledger now i T) = Inr \<lparr>sir_status = True, sir_intentStatus = ACCEPTED,
         sir_ledgerReference = ref, sir_reason = None, sir_correction = [], sir_candidate = c\<rparr>"
  | (refused) it s c reason rejections it' es where "sent E (now 0) i T = Inr (it, s, c)"
      "ledger c = Inr (Sub_rejected reason rejections)" "it_status it' \<noteq> ACCEPTED"
      "fst (submit_intent E ledger now i T) = save_intent it' (journal es T)"
proof (cases "sent E (now 0) i T")
  case (Inl e)
  then show ?thesis using unsent by (simp add: submit_intent_def sent_def)
next
  case (Inr r)
  obtain it s c where r: "r = (it, s, c)" by (cases r)
  note S = Inr [unfolded r, unfolded sent_def]
  have journals: "journal xs (journal ys T) = journal (ys @ xs) T" for xs ys by (simp add: journal_def)
  show ?thesis
  proof (cases "ledger c")
    case (Inl e)
    then show ?thesis using failed [OF Inr [unfolded r]] S by (simp add: submit_intent_def Let_def)
  next
    case outcome: (Inr out)
    show ?thesis
    proof (cases out)
      case (Sub_accepted ref)
      then show ?thesis
        using accepted [OF Inr [unfolded r]] S outcome by (simp add: submit_intent_def Let_def journals)
    next
      case (Sub_rejected reason rejections)
      note T' = S outcome this
      show ?thesis
      proof (cases "correction_slots s (or_else rejections []) = []")
        case True
        with T' show ?thesis
          using refused [OF Inr [unfolded r], of reason rejections "markRejected (or_else reason ''Rejected by the Ledger.'') (now 2) it"]
          by (simp add: submit_intent_def Let_def journals markRejected_def)
      next
        case False
        with T' show ?thesis
          using refused [OF Inr [unfolded r], of reason rejections "markAwaitingCorrection (now 2) it"]
          by (simp add: submit_intent_def Let_def journals markAwaitingCorrection_def)
      qed
    qed
  qed
qed

lemma sent_key:
  assumes "treasury_sound E T" "sent E now i T = Inr (it, s, c)"
  shows "cd_sourceReference c = ''intent:'' @ i"
proof -
  obtain it0 where "find_intent T i = Some it0" "it = it0\<lparr>it_status := SUBMITTED, it_updatedAt := now\<rparr>"
    "cd_sourceReference c = ''intent:'' @ it_id it"
    by (rule sent_Inr [OF assms(2)])
  then show ?thesis using assms(1) by (auto simp: treasury_sound_def)
qed

lemma submit_marks:
  assumes "treasury_sound E T" "sent E (now 0) i T = Inr (it, s, c)" "ledger c = Inr (Sub_accepted (Some ref))"
  shows "find_intent (fst (submit_intent E ledger now i T)) i = Some (markAccepted ref (now 2) it)"
proof -
  obtain it0 where "find_intent T i = Some it0" "it = it0\<lparr>it_status := SUBMITTED, it_updatedAt := now 0\<rparr>"
    by (rule sent_Inr [OF assms(2)])
  then have i: "it_id it = i" using assms(1) by (auto simp: treasury_sound_def)
  show ?thesis
    by (cases rule: submit_intent_cases [where E = E and ledger = ledger and now = now and i = i and T = T])
      (use assms(2,3) i in \<open>auto simp: or_else_def markAccepted_def\<close>)
qed

lemma submit_accepts:
  assumes "truthful Q ledger"
  shows "accepts_only Q T (fst (submit_intent E ledger now i T))"
proof (cases rule: submit_intent_cases [where E = E and ledger = ledger and now = now and i = i and T = T])
  case (accepted it s c ref es)
  from accepted(1) have "cd_sourceReference c = ''intent:'' @ it_id it" by (rule sent_Inr)
  then have "acknowledged Q (markAccepted (or_else ref []) (now 2) it)"
    using assms accepted(2) unfolding truthful_def by (simp add: acknowledged_def markAccepted_def) (metis append_Cons append_Nil)
  then show ?thesis
    unfolding accepted(3) by (intro accepts_only_trans [OF _ accepts_only_save]) simp_all
next
  case (refused it s c reason rejections it' es)
  then show ?thesis by (simp add: save_accepts)
qed simp_all

lemma run_accepts_submit: "truthful Q ledger \<Longrightarrow> run_accepts Q (submit_intent E ledger now i)"
  by (simp add: run_accepts_def submit_accepts)

lemma run_accepts_rectification:
  assumes "truthful Q ledger1" "truthful Q ledger2"
  shows "run_accepts Q (submit_rectification E event ledger1 ledger2 id1 id2 now target u why corrected)"
  using assms
  unfolding submit_rectification_def retract_run_def fill_run_def reissue_run_def
  by (auto intro!: run_accepts_and_then run_accepts_start run_accepts_apply run_accepts_submit
      split: option.split sum.split prod.split DialogState.split)

section \<open>The ledger behind the wire\<close>

definition over_http :: "platform \<Rightarrow> call_env \<Rightarrow> string list \<Rightarrow> store \<Rightarrow> Candidate \<Rightarrow> string + SubmissionOutcome" where
  "over_http P env known st c = read_response (fst (submit_route P env known st (submit_request c)))"

definition store_after :: "platform \<Rightarrow> call_env \<Rightarrow> string list \<Rightarrow> store \<Rightarrow> Candidate \<Rightarrow> store" where
  "store_after P env known st c = snd (submit_route P env known st (submit_request c))"

definition holds_key :: "store \<Rightarrow> string \<Rightarrow> string \<Rightarrow> bool" where
  "holds_key st key ref \<longleftrightarrow> (\<exists>ev\<in>set st. ev_commandId ev = Some key \<and> ev_id ev = ref)"

lemma holds_key_mono: "set st \<subseteq> set st' \<Longrightarrow> holds_key st key ref \<Longrightarrow> holds_key st' key ref"
  by (auto simp: holds_key_def)

lemma submit_route_request:
  "submit_route P env known st (submit_request c) =
     (case submit P env known st (candidate_body c) (cd_sourceReference c) of
        None \<Rightarrow> (bad_request, st) | Some (outcome, st', _) \<Rightarrow> (Http 200 (reply_of outcome), st'))"
  by (simp add: submit_route_def submit_request_def candidate_body_def Let_def)

lemma over_http_outcome:
  obtains (accepted) ev where "over_http P env known st c = Inr (Sub_accepted (Some (ev_id ev)))"
      "ev \<in> set (store_after P env known st c)" "ev_commandId ev = Some (cd_sourceReference c)"
  | (refused) reason details where "over_http P env known st c = Inr (Sub_rejected (Some reason) (Some details))"
      "store_after P env known st c = st" "details \<noteq> []"
proof -
  obtain outcome st' au where out: "submit P env known st (candidate_body c) (cd_sourceReference c) = Some (outcome, st', au)"
    "submission_ok st (cd_sourceReference c) outcome st' au"
    using submit_outcome by blast
  have http: "over_http P env known st c = read_response (Http 200 (reply_of outcome))" "store_after P env known st c = st'"
    by (simp_all add: over_http_def store_after_def submit_route_request out(1))
  show thesis
  proof (cases outcome)
    case (Submit_accepted ref)
    with out(2) obtain ev where "getByCommandId st' (cd_sourceReference c) = Some ev" "ev_id ev = ref"
      by (auto simp: submission_ok_def)
    then have "ev \<in> set st'" "ev_commandId ev = Some (cd_sourceReference c)"
      using memory.getByCommandId_Some [of st'] by (auto simp: findAll_def)
    then show ?thesis
      using accepted [of ev] http Submit_accepted \<open>ev_id ev = ref\<close> by (simp add: read_response_def reply_of_def)
  next
    case (Submit_rejected reason details)
    with out(2) show ?thesis using refused http by (simp add: submission_ok_def read_response_def reply_of_def)
  qed
qed

text \<open>
  A submission whose key the ledger knows is answered with the recorded event, whatever the candidate
  says now, and records nothing.
\<close>

lemma known_key_answered:
  assumes "getByCommandId st (cd_sourceReference c) = Some ev"
  shows "over_http P env known st c = Inr (Sub_accepted (Some (ev_id ev)))" "store_after P env known st c = st"
  using assms
  by (simp_all add: over_http_def store_after_def submit_route_request submit_def read_response_def reply_of_def)

section \<open>Both programs\<close>

inductive store_path :: "platform \<Rightarrow> store \<Rightarrow> store \<Rightarrow> bool" for P where
  stay: "store_path P st st"
| more: "store_path P st st1 \<Longrightarrow> execute P env st1 cmd = Inr (ev, st2, au) \<Longrightarrow> store_path P st st2"

lemma store_after_path: "store_path P st (store_after P env known st c)"
proof -
  obtain outcome st' au where out: "submit P env known st (candidate_body c) (cd_sourceReference c) = Some (outcome, st', au)"
    using submit_outcome by blast
  then have "st' = st \<or> (\<exists>cmd ev au'. execute P env st cmd = Inr (ev, st', au'))"
    by (auto simp: submit_def Let_def split: option.splits sum.splits if_splits)
  then show ?thesis
    using store_path.stay store_path.more [OF store_path.stay] by (auto simp: store_after_def submit_route_request out)
qed

text \<open>
  A reply the treasury receives was given by the ledger at some moment of the step; a request or reply
  can also be lost.
\<close>

definition serves ::
  "platform \<Rightarrow> string list \<Rightarrow> store \<Rightarrow> store \<Rightarrow> (Candidate \<Rightarrow> string + SubmissionOutcome) \<Rightarrow> bool" where
  "serves P known st st' ledger \<longleftrightarrow>
     (\<forall>c out. ledger c = Inr out \<longrightarrow>
        (\<exists>env st1. store_path P st st1 \<and> over_http P env known st1 c = Inr out
           \<and> store_path P (store_after P env known st1 c) st'))"

inductive joint_step ::
  "treasury_env \<Rightarrow> platform \<Rightarrow> string list \<Rightarrow> treasury \<times> store \<Rightarrow> treasury \<times> store \<Rightarrow> bool" for E P known where
  desk: "desk_step E T T' \<Longrightarrow> joint_step E P known (T, st) (T', st)"
| elsewhere: "execute P env st cmd = Inr (ev, st', au) \<Longrightarrow> joint_step E P known (T, st) (T, st')"
| submit: "store_path P st st' \<Longrightarrow> serves P known st st' ledger \<Longrightarrow>
    joint_step E P known (T, st) (fst (submit_intent E ledger now i T), st')"
| rectify: "store_path P st st' \<Longrightarrow> serves P known st st' ledger1 \<Longrightarrow> serves P known st st' ledger2 \<Longrightarrow>
    joint_step E P known (T, st)
      (fst (submit_rectification E event ledger1 ledger2 id1 id2 now target u why corrected T), st')"

inductive joint_reachable :: "treasury_env \<Rightarrow> platform \<Rightarrow> string list \<Rightarrow> treasury \<times> store \<Rightarrow> bool" for E P known where
  empty: "joint_reachable E P known (empty_treasury, [])"
| step: "joint_reachable E P known S \<Longrightarrow> joint_step E P known S S' \<Longrightarrow> joint_reachable E P known S'"

lemma execute_extends: "execute P env st cmd = Inr (ev, st', au) \<Longrightarrow> set st \<subseteq> set st'"
  by (auto simp: execute_Inr findAll_def dest!: memory.save_appends)

lemma store_path_extends: "store_path P st st' \<Longrightarrow> set st \<subseteq> set st'"
  by (induction rule: store_path.induct) (use execute_extends in blast)+

lemma store_path_reachable: "store_path P st st' \<Longrightarrow> reachable P st \<Longrightarrow> reachable P st'"
  by (induction rule: store_path.induct) (auto intro: record_event)

lemma serves_truthful:
  assumes "serves P known st st' ledger"
  shows "truthful (holds_key st') ledger"
  unfolding truthful_def
proof (intro allI impI)
  fix c ref assume "ledger c = Inr (Sub_accepted ref)"
  then obtain env st1 where out: "over_http P env known st1 c = Inr (Sub_accepted ref)"
    "store_path P (store_after P env known st1 c) st'"
    using assms unfolding serves_def by blast
  then show "holds_key st' (cd_sourceReference c) (or_else ref [])"
    using store_path_extends [OF out(2)]
    by (cases rule: over_http_outcome [of P env known st1 c]) (auto simp: holds_key_def or_else_def)
qed

definition joint_sound :: "treasury_env \<Rightarrow> platform \<Rightarrow> treasury \<times> store \<Rightarrow> bool" where
  "joint_sound E P S \<longleftrightarrow>
     treasury_sound E (fst S) \<and> reachable P (snd S)
     \<and> (\<forall>i it. find_intent (fst S) i = Some it \<longrightarrow> acknowledged (holds_key (snd S)) it)"

lemma accepts_only_acknowledged:
  assumes "accepts_only (holds_key st') T T'" "set st \<subseteq> set st'"
    "\<forall>i it. find_intent T i = Some it \<longrightarrow> acknowledged (holds_key st) it"
  shows "\<forall>i it. find_intent T' i = Some it \<longrightarrow> acknowledged (holds_key st') it"
proof (intro allI impI)
  fix i it assume it: "find_intent T' i = Some it"
  show "acknowledged (holds_key st') it"
  proof (cases "find_intent T i = Some it")
    case True
    then have "acknowledged (holds_key st) it" using assms(3) by blast
    then show ?thesis by (rule acknowledged_mono) (rule holds_key_mono [OF assms(2)])
  next
    case False
    with it assms(1) show ?thesis unfolding accepts_only_def by blast
  qed
qed

lemma joint_step_sound: "joint_step E P known S S' \<Longrightarrow> joint_sound E P S \<Longrightarrow> joint_sound E P S'"
proof (induction rule: joint_step.induct)
  case (desk T T' st)
  then show ?case
    using desk_step_sound accepts_only_acknowledged [OF desk_accepts [OF desk(1)] subset_refl]
    by (simp add: joint_sound_def)
next
  case (elsewhere env st cmd ev st' au T)
  then show ?case
    using accepts_only_acknowledged [OF accepts_only_refl execute_extends [OF elsewhere(1)]] record_event
    by (auto simp: joint_sound_def)
next
  case (submit st st' ledger T now i)
  have "treasury_sound E (fst (submit_intent E ledger now i T))"
    using keeps_submit submit(3) unfolding keeps_sound_def joint_sound_def by simp
  moreover have "accepts_only (holds_key st') T (fst (submit_intent E ledger now i T))"
    by (rule submit_accepts [OF serves_truthful [OF submit(2)]])
  ultimately show ?case
    using submit(3) store_path_reachable [OF submit(1)] accepts_only_acknowledged [OF _ store_path_extends [OF submit(1)]]
    by (simp add: joint_sound_def)
next
  case (rectify st st' ledger1 ledger2 T event id1 id2 now target u why corrected)
  let ?T = "fst (submit_rectification E event ledger1 ledger2 id1 id2 now target u why corrected T)"
  have "treasury_sound E ?T"
    using keeps_rectification rectify(4) unfolding keeps_sound_def joint_sound_def by simp
  moreover have "accepts_only (holds_key st') T ?T"
    using run_accepts_rectification [OF serves_truthful [OF rectify(2)] serves_truthful [OF rectify(3)]]
    unfolding run_accepts_def by blast
  ultimately show ?case
    using rectify(4) store_path_reachable [OF rectify(1)] accepts_only_acknowledged [OF _ store_path_extends [OF rectify(1)]]
    by (simp add: joint_sound_def)
qed

lemma joint_reachable_sound: "joint_reachable E P known S \<Longrightarrow> joint_sound E P S"
proof (induction rule: joint_reachable.induct)
  case empty
  show ?case
    using treasury_reachable.empty [THEN reachable_sound] reachable.empty
    by (simp add: joint_sound_def empty_treasury_def find_intent_def)
qed (rule joint_step_sound)

section \<open>What the treasury can rely on\<close>

lemma accepted_recorded:
  assumes "joint_reachable E P known (T, st)" "find_intent T i = Some it" "it_status it = ACCEPTED"
  shows "\<exists>!ev. ev \<in> set st \<and> ev_commandId ev = Some (''intent:'' @ i)"
    and "\<exists>ev\<in>set st. ev_commandId ev = Some (''intent:'' @ i) \<and> it_ledgerReference it = Some (ev_id ev)"
proof -
  have sound: "joint_sound E P (T, st)" using joint_reachable_sound [OF assms(1)] .
  then have i: "it_id it = i" using assms(2) by (auto simp: joint_sound_def treasury_sound_def)
  show ref: "\<exists>ev\<in>set st. ev_commandId ev = Some (''intent:'' @ i) \<and> it_ledgerReference it = Some (ev_id ev)"
    using sound assms(2,3) i by (auto simp: joint_sound_def acknowledged_def holds_key_def)
  have "each_after (recorded_after P) st" using sound by (auto simp: joint_sound_def intro: reachable_each_after)
  from unique_commands [OF this] ref show "\<exists>!ev. ev \<in> set st \<and> ev_commandId ev = Some (''intent:'' @ i)"
    by (metis append_is_Nil_conv list.distinct(1) truthy_simps(2))
qed

lemma sent_candidate:
  assumes "treasury_sound E T" "sent E now i T = Inr (it, s, c)"
    "te_usina E \<noteq> []" "it_userId it \<noteq> []" "\<And>t. te_isoString E t \<noteq> [] \<and> parseInstant P (te_isoString E t) \<noteq> None"
  shows "lawful_candidate c" "complete_candidate c" "read_instants P c"
proof -
  obtain it0 where it0: "find_intent T i = Some it0" "getScenario (it_scenarioId it0) = Some s"
    "it_status it0 = AWAITING_CONFIRMATION" "it = it0\<lparr>it_status := SUBMITTED, it_updatedAt := now\<rparr>"
    "candidate_of E (tr_parties T) it = Inr c"
    by (rule sent_Inr [OF assms(2)])
  then have a: "answers_sound E (tr_parties T) s (it_answers it)" "is_ready (nextState s (it_answers it))"
    "getScenario (it_scenarioId it) = Some s"
    using assms(1) by (auto simp: treasury_sound_def intent_sound_def)
  obtain unid where c: "build_candidate E unid it = Inr c"
    using it0(5) by (auto simp: candidate_of_def ebind_Inr)
  show "lawful_candidate c" by (rule confirmed_lawful [OF a(3,1,2) c])
  show "complete_candidate c" by (rule confirmed_complete [OF a(3,1,2) c assms(3,4)]) (use assms(5) in blast)
  show "read_instants P c" by (rule confirmed_instants [OF c]) (use assms(5) in blast)
qed

lemma confirmed_recorded:
  assumes "treasury_sound E T" "sent E (now 0) i T = Inr (it, s, c)"
    "te_usina E \<noteq> []" "it_userId it \<noteq> []" "\<And>t. te_isoString E t \<noteq> [] \<and> parseInstant P (te_isoString E t) \<noteq> None"
    "book_admits P env st c" "SOURCE_SYSTEM \<in> set known" "\<forall>ev\<in>set st. ev_commandId ev \<noteq> Some (cd_sourceReference c)"
  obtains ev where "store_after P env known st c = st @ [ev]" "ev_id ev = env_uuid env"
    "records_candidate P c ev" "cd_sourceReference c = ''intent:'' @ i"
    "find_intent (fst (submit_intent E (over_http P env known st) now i T)) i =
       Some (markAccepted (env_uuid env) (now 2) it)"
proof -
  have "getByCommandId st (cd_sourceReference c) = None"
    using assms(8) memory.getByCommandId_None [of st] by (simp add: findAll_def)
  then obtain ev where ev: "submit_route P env known st (submit_request c) =
      (Http 200 (reply_of (Submit_accepted (env_uuid env))), st @ [ev])"
    "ev_id ev = env_uuid env" "records_candidate P c ev"
    by (rule lawful_recorded [OF sent_candidate(1,2) [OF assms(1-5)] assms(6) sent_candidate(3) [OF assms(1-5)] assms(7)])
  have http: "over_http P env known st c = Inr (Sub_accepted (Some (env_uuid env)))"
    by (simp add: over_http_def ev(1) read_response_def reply_of_def)
  obtain it0 where it0: "find_intent T i = Some it0" "it = it0\<lparr>it_status := SUBMITTED, it_updatedAt := now 0\<rparr>"
    "cd_sourceReference c = ''intent:'' @ it_id it"
    by (rule sent_Inr [OF assms(2)])
  then have "it_id it = i" using assms(1) by (auto simp: treasury_sound_def)
  moreover have "find_intent (fst (submit_intent E (over_http P env known st) now i T)) i = Some (markAccepted (env_uuid env) (now 2) it)"
    by (rule submit_marks [where ledger = "over_http P env known st" and now = now, OF assms(1,2) http])
  ultimately show thesis using that [of ev] ev it0(3) by (simp add: store_after_def)
qed

end
