(* ===== verification/Sample_Treasury.thy ===== *)
theory Sample_Treasury
  imports Joint_Run Sample_Book
begin

text \<open>
  Both programs on a small run: the ledger holds the recognized obligation, the treasury opens an
  intent to register an expected commission, fills it in one go and submits it.
\<close>

definition sample_directory :: directory_env where
  "sample_directory =
     \<lparr>stripAccents = (\<lambda>s. s), localeCompare = (\<lambda>a b. if a < b then - 1 else if b < a then 1 else 0)\<rparr>"

definition sample_treasury_env :: treasury_env where
  "sample_treasury_env =
     \<lparr>te_directory = sample_directory, te_threshold = 1, te_dateParse = (\<lambda>_. Some 1000),
      te_isoString = (\<lambda>_. ''t''), te_usina = ''usina''\<rparr>"

definition joint_platform :: platform where
  "joint_platform = sample_platform\<lparr>date_parse := (\<lambda>_. Some 1000)\<rparr>"

definition clock :: "nat \<Rightarrow> string" where
  "clock k = ''now''"

definition accrual_answers :: "(string \<times> string) list" where
  "accrual_answers = [(''amount'', ''100.00''), (''currency'', ''BRL''), (''occurredAt'', ''2026-01-02'')]"

definition accrual :: "IntentStatus \<Rightarrow> (string \<times> string) list \<Rightarrow> Intent" where
  "accrual status a =
     \<lparr>it_id = ''i1'', it_scenarioId = ''register_commission_accrual'', it_userId = ''ana'', it_status = status,
      it_answers = a, it_createdAt = ''now'', it_updatedAt = ''now'', it_ledgerReference = None, it_rejectionReason = None\<rparr>"

definition noted :: "string \<Rightarrow> string \<Rightarrow> TreasuryAudit" where
  "noted ty detail = \<lparr>ta_intentId = ''i1'', ta_at = ''now'', ta_type = ty, ta_detail = Some detail\<rparr>"

definition opened :: treasury where
  "opened = \<lparr>tr_intents = [(''i1'', accrual GATHERING [])], tr_parties = [],
     tr_audit = [noted ''intent.started'' ''register_commission_accrual'']\<rparr>"

definition filled_in :: treasury where
  "filled_in = \<lparr>tr_intents = [(''i1'', accrual AWAITING_CONFIRMATION accrual_answers)], tr_parties = [],
     tr_audit = noted ''intent.started'' ''register_commission_accrual'' # map (noted ''slot.answered'' \<circ> fst) accrual_answers\<rparr>"

definition accrual_candidate :: Candidate where
  "accrual_candidate =
     \<lparr>cd_sourceReference = ''intent:i1'', cd_eventType = ''commission_expected'', cd_economicEffect = ''non_cash'',
      cd_occurredAt = ''t'', cd_dueAt = None, cd_amount = Some ''100.00'', cd_currency = Some ''BRL'',
      cd_description = None, cd_relatedEventId = None,
      cd_parties = [\<lparr>cp_partyId = Some ''usina'', cp_role = ''beneficiary'', cp_direction = ''neutral'', cp_amount = None\<rparr>],
      cd_objects = [\<lparr>co_objectId = ''intent:i1'', co_objectKind = ''commission_receivable'', co_relation = ''originates''\<rparr>],
      cd_reason = \<lparr>cr_type = ''commission_accrual'', cr_description = ''Accrual of an expected commission'',
        cr_confidence = ''high'', cr_requiresFollowup = False\<rparr>,
      cd_reporterType = ''user'', cd_reporterId = ''ana'', cd_channel = ''web''\<rparr>"

lemmas run_defs = opened_def filled_in_def accrual_def noted_def accrual_answers_def

lemma opened_start:
  "fst (projr (start_use_case ''i1'' clock ''register_commission_accrual'' ''ana'' empty_treasury)) = opened"
  "\<not> isl (start_use_case ''i1'' clock ''register_commission_accrual'' ''ana'' empty_treasury)"
  by code_simp+

lemma accrual_scenario: "getScenario ''register_commission_accrual'' = Some registerCommissionAccrual"
proof -
  have "registerCommissionAccrual \<in> set listScenarios"
    unfolding listScenarios_def REGISTRY_def list.map list.set snd_conv by blast
  moreover have "sc_id registerCommissionAccrual = ''register_commission_accrual''"
    by (simp only: registerCommissionAccrual_def Scenario.select_convs)
  ultimately show ?thesis using registered by metis
qed

lemma apply_valid_answer:
  assumes "find (\<lambda>x. sl_key x = key) (sc_slots s) = Some x" "sl_type x \<noteq> SlotType.PARTY"
    "isBlank (map_of (it_answers (mg_intent M)) key)" "validateAnswer (te_dateParse E) x v = None"
  shows "apply_answer E ps now s Fill (key, v) M =
    M\<lparr>mg_intent := record_answer key v now (mg_intent M),
      mg_audit := mg_audit M @ [audit (it_id (mg_intent M)) now ''slot.answered'' (Some key)],
      mg_recorded := mg_recorded M + 1\<rparr>"
  using assms by (simp add: apply_answer_def resolveIdentitySlot_def Let_def)

lemma accrual_slots:
  "find (\<lambda>x. sl_key x = ''amount'') (sc_slots registerCommissionAccrual) =
     Some (slot ''amount'' SlotType.MONEY ''What commission amount is expected?'' True)"
  "find (\<lambda>x. sl_key x = ''currency'') (sc_slots registerCommissionAccrual) =
     Some ((slot ''currency'' SlotType.CHOICE ''Which currency?'' True)\<lparr>sl_choices := Some [''BRL'', ''USD'']\<rparr>)"
  "find (\<lambda>x. sl_key x = ''occurredAt'') (sc_slots registerCommissionAccrual) =
     Some (slot ''occurredAt'' SlotType.DATE ''As of what date is it expected?'' True)"
  by (simp_all add: registerCommissionAccrual_def slot_def)

lemma slot_types:
  "sl_type (slot k ty prompt r) = ty" "sl_type (x\<lparr>sl_choices := cs\<rparr>) = sl_type x"
  by (simp_all add: slot_def)

lemma accrual_valid:
  "validateAnswer parse (slot ''amount'' SlotType.MONEY prompt True) ''100.00'' = None"
  "validateAnswer parse ((slot ''currency'' SlotType.CHOICE prompt True)\<lparr>sl_choices := Some [''BRL'', ''USD'']\<rparr>) ''BRL'' = None"
  "validateAnswer (\<lambda>_. Some 1000) (slot ''occurredAt'' SlotType.DATE prompt True) ''2026-01-02'' = None"
proof -
  have "is_decimal ''100.00''" "\<not> not_positive ''100.00''" "trim ''100.00'' \<noteq> []" "trim ''BRL'' \<noteq> []" "trim ''2026-01-02'' \<noteq> []"
    by code_simp+
  then show "validateAnswer parse (slot ''amount'' SlotType.MONEY prompt True) ''100.00'' = None"
    "validateAnswer parse ((slot ''currency'' SlotType.CHOICE prompt True)\<lparr>sl_choices := Some [''BRL'', ''USD'']\<rparr>) ''BRL'' = None"
    "validateAnswer (\<lambda>_. Some 1000) (slot ''occurredAt'' SlotType.DATE prompt True) ''2026-01-02'' = None"
    by (simp_all add: validateAnswer_def slot_def isBlank_def)
qed

lemma accrual_ready: "is_ready (nextState registerCommissionAccrual accrual_answers)"
  by code_simp

lemma filled_in_apply: "\<exists>r. apply_answers sample_treasury_env ''now'' ''i1'' accrual_answers Fill opened = Inr (filled_in, r)"
proof -
  let ?start = "\<lparr>mg_intent = accrual GATHERING [], mg_audit = [], mg_rejected = [], mg_skipped = [], mg_identity = [], mg_recorded = 0\<rparr>"
  have i: "intent_and_scenario opened ''i1'' = Inr (accrual GATHERING [], registerCommissionAccrual)"
    by (simp add: intent_and_scenario_Inr find_intent_def opened_def accrual_scenario accrual_def)
  have d: "te_dateParse sample_treasury_env = (\<lambda>_. Some 1000)" by (simp add: sample_treasury_env_def)
  have M: "fold (apply_answer sample_treasury_env [] ''now'' registerCommissionAccrual Fill) accrual_answers ?start =
    ?start\<lparr>mg_intent := accrual GATHERING accrual_answers, mg_audit := map (noted ''slot.answered'' \<circ> fst) accrual_answers,
      mg_recorded := 3\<rparr>"
    unfolding accrual_answers_def
    by (simp add: apply_valid_answer [OF accrual_slots(1)] apply_valid_answer [OF accrual_slots(2)]
        apply_valid_answer [OF accrual_slots(3)] d accrual_valid slot_types accrual_def record_answer_def isBlank_def audit_def noted_def)
  have t: "tr_parties opened = []" "it_answers (accrual s a) = a" for s a by (simp_all add: opened_def accrual_def)
  have "apply_answers sample_treasury_env ''now'' ''i1'' accrual_answers Fill opened =
    Inr (save_intent (markAwaitingConfirmation ''now'' (accrual GATHERING accrual_answers))
           (journal (map (noted ''slot.answered'' \<circ> fst) accrual_answers) opened),
         \<lparr>aar_state = nextState registerCommissionAccrual accrual_answers, aar_rejected = [], aar_skipped = [], aar_identity = []\<rparr>)"
    unfolding apply_answers_def i ebind_simps split t(1) Let_def M by (simp add: t(2) accrual_ready)
  moreover have "save_intent (markAwaitingConfirmation ''now'' (accrual GATHERING accrual_answers))
      (journal (map (noted ''slot.answered'' \<circ> fst) accrual_answers) opened) = filled_in"
    by (simp add: markAwaitingConfirmation_def save_intent_def journal_def opened_def filled_in_def accrual_def)
  ultimately show ?thesis by simp
qed

lemma accrual_built:
  "build_candidate sample_treasury_env [] (accrual SUBMITTED accrual_answers) = Inr accrual_candidate"
proof -
  have m: "mapping_of ''register_commission_accrual'' = Some map_register_commission_accrual"
    by (simp add: mapping_of_def MAPPINGS_def)
  have i: "toInstantISO sample_treasury_env (Some ''2026-01-02'') = Inr ''t''"
    by (simp add: toInstantISO_def parse_answer_def sample_treasury_env_def)
  show ?thesis
    unfolding build_candidate_def accrual_def accrual_answers_def Let_def
    by (simp add: m i [unfolded sample_treasury_env_def] ebind_def filled_def override_of_def reason_of_def party_of_def objects_of_def mapping_def
        map_register_commission_accrual_def no_override_def or_else_def object_templates_def accrual_candidate_def
        sample_treasury_env_def truthy_def)
qed

lemma filled_in_sent:
  "sent sample_treasury_env (clock 0) ''i1'' filled_in =
     Inr (accrual SUBMITTED accrual_answers, registerCommissionAccrual, accrual_candidate)"
proof -
  have f: "find_intent filled_in ''i1'' = Some (accrual AWAITING_CONFIRMATION accrual_answers)"
    by (simp add: find_intent_def filled_in_def)
  have m: "markSubmitted (clock 0) (accrual AWAITING_CONFIRMATION accrual_answers) = Inr (accrual SUBMITTED accrual_answers)"
    by (simp add: markSubmitted_def accrual_def clock_def)
  have u: "unidentifiedPartiesOf [] accrual_candidate = []" by code_simp
  have i: "intent_and_scenario filled_in ''i1'' = Inr (accrual AWAITING_CONFIRMATION accrual_answers, registerCommissionAccrual)"
    using f accrual_scenario by (simp add: intent_and_scenario_Inr accrual_def)
  have p: "tr_parties filled_in = []" by (simp add: filled_in_def)
  show ?thesis by (simp add: sent_def i m p candidate_of_def accrual_built u)
qed

lemma inr_of: "\<not> isl x \<Longrightarrow> fst (projr x) = T \<Longrightarrow> \<exists>y. x = Inr (T, y)"
  by (cases x) auto

lemma sample_desk:
  "desk_step sample_treasury_env empty_treasury opened" "desk_step sample_treasury_env opened filled_in"
  using inr_of [OF opened_start(2,1)] filled_in_apply by (auto intro: desk_step.start desk_step.apply_many)

lemma sample_treasury_reachable: "treasury_reachable sample_treasury_env filled_in"
  by (rule treasury_reachable.step [OF treasury_reachable.step [OF treasury_reachable.empty
      treasury_step.desk [OF sample_desk(1)]] treasury_step.desk [OF sample_desk(2)]])

section \<open>The ledger behind the treasury\<close>

definition obligation :: LedgerEvent where
  "obligation = event_of joint_platform 2000 (sample_props (sample_env ''e1'') recognize_cmd 100000 None [supplier_party])"

definition joint_book :: store where
  "joint_book = [obligation]"

definition sources :: "string list" where
  "sources = [SOURCE_SYSTEM]"

lemma obligation_executed:
  "execute joint_platform (sample_env ''e1'') [] recognize_cmd =
     Inr (obligation, joint_book, [audit_created joint_platform recognize_cmd obligation])"
  using execute_recordsI [OF _ sample_accepts(1), where P = joint_platform and ev = obligation]
  by (simp add: known_command_None obligation_def joint_book_def sample_env_fields)

lemma obligation_fields:
  "ev_id obligation = ''e1''" "src_reference (ev_source obligation) = ''k1''" "ev_commandId obligation = Some ''k1''"
  by (simp_all add: obligation_def sample_props_def make_props_def sample_cmd_fields sample_env_fields)

lemma accrual_fields:
  "cd_sourceReference accrual_candidate = ''intent:i1''" "cd_amount accrual_candidate = Some ''100.00''"
  "cd_currency accrual_candidate = Some ''BRL''" "cd_relatedEventId accrual_candidate = None"
  by (simp_all add: accrual_candidate_def)

lemma sample_instants: "te_isoString sample_treasury_env t \<noteq> [] \<and> parseInstant joint_platform (te_isoString sample_treasury_env t) \<noteq> None"
  by (simp add: sample_treasury_env_def joint_platform_def parseInstant_def)

lemma accrual_settles_nothing: "list_all (\<lambda>ob. obj_relation ob \<noteq> Relation.SETTLES) (map object_command (cd_objects accrual_candidate))"
  by code_simp

lemma accrual_admitted: "book_admits joint_platform (sample_env ''e9'') joint_book accrual_candidate"
proof -
  have f: "cmd_relatedEventId (command_of joint_platform k accrual_candidate) = None"
    "cmd_objects (command_of joint_platform k accrual_candidate) = map object_command (cd_objects accrual_candidate)"
    "cmd_eventType (command_of joint_platform k accrual_candidate) = EventType.COMMISSION_EXPECTED" for k
    by (simp_all add: command_of_def accrual_fields) (code_simp+)
  have "retraction_rules joint_book (command_of joint_platform k accrual_candidate) None = None" for k
    by (simp add: retraction_rules_def f)
  then have "guards_pass joint_book (command_of joint_platform k accrual_candidate) m" for k m
    using accrual_settles_nothing by (simp add: guards_pass_def find_origin_def f list_all_iff)
  then show ?thesis
    by (simp add: book_admits_def joint_book_def obligation_fields accrual_fields sample_env_fields)
qed

lemma accrual_unused: "\<forall>ev\<in>set joint_book. ev_commandId ev \<noteq> Some (cd_sourceReference accrual_candidate)"
  by (simp add: joint_book_def obligation_fields accrual_fields)

section \<open>The submission\<close>

definition wire :: "Candidate \<Rightarrow> string + SubmissionOutcome" where
  "wire c = (if c = accrual_candidate then over_http joint_platform (sample_env ''e9'') sources joint_book c else Inl ''down'')"

definition settled :: "treasury \<times> store" where
  "settled = (fst (submit_intent sample_treasury_env wire clock ''i1'' filled_in),
     store_after joint_platform (sample_env ''e9'') sources joint_book accrual_candidate)"

lemma sample_treasury_sound: "treasury_sound sample_treasury_env filled_in"
  by (rule reachable_sound [OF sample_treasury_reachable])

lemma sample_given: "te_usina sample_treasury_env \<noteq> []" "it_userId (accrual status a) \<noteq> []" "SOURCE_SYSTEM \<in> set sources"
  by (simp_all add: sample_treasury_env_def accrual_def sources_def)

lemma settled_wire: "wire accrual_candidate = Inr (Sub_accepted (Some ''e9''))"
proof -
  have k: "getByCommandId joint_book (cd_sourceReference accrual_candidate) = None"
    using accrual_unused memory.getByCommandId_None [of joint_book] by (simp add: findAll_def)
  note sent = sent_candidate [OF sample_treasury_sound filled_in_sent sample_given(1,2) sample_instants]
  obtain ev where "submit_route joint_platform (sample_env ''e9'') sources joint_book (submit_request accrual_candidate) =
      (Http 200 (reply_of (Submit_accepted (env_uuid (sample_env ''e9'')))), joint_book @ [ev])"
    by (rule lawful_recorded [OF sent(1,2) accrual_admitted sent(3) sample_given(3) k])
  then show ?thesis by (simp add: wire_def over_http_def read_response_def reply_of_def sample_env_fields)
qed

lemma settled_reachable: "joint_reachable sample_treasury_env joint_platform sources settled"
proof -
  have "joint_step sample_treasury_env joint_platform sources (empty_treasury, []) (empty_treasury, joint_book)"
    by (rule joint_step.elsewhere [OF obligation_executed])
  moreover have "joint_step sample_treasury_env joint_platform sources (empty_treasury, joint_book) (opened, joint_book)"
    "joint_step sample_treasury_env joint_platform sources (opened, joint_book) (filled_in, joint_book)"
    by (rule joint_step.desk, rule sample_desk)+
  moreover have "joint_step sample_treasury_env joint_platform sources (filled_in, joint_book) settled"
    unfolding settled_def
  proof (rule joint_step.submit)
    let ?after = "store_after joint_platform (sample_env ''e9'') sources joint_book accrual_candidate"
    show "serves joint_platform sources joint_book ?after wire"
      unfolding serves_def wire_def using store_path.stay by (metis sum.distinct(1))
    show "store_path joint_platform joint_book ?after" by (rule store_after_path)
  qed
  ultimately show ?thesis by (meson joint_reachable.intros)
qed

lemma settled_accepted:
  "find_intent (fst settled) ''i1'' = Some (markAccepted ''e9'' (clock 2) (accrual SUBMITTED accrual_answers))"
  unfolding settled_def fst_conv by (rule submit_marks [where ledger = wire and now = clock, OF sample_treasury_sound filled_in_sent settled_wire])

text \<open>The same store after an earlier submission of the intent whose reply was lost.\<close>

definition earlier_accrual :: LedgerEvent where
  "earlier_accrual = obligation\<lparr>ev_id := ''e9'', ev_commandId := Some ''intent:i1''\<rparr>"

definition resent_book :: store where
  "resent_book = joint_book @ [earlier_accrual]"

lemma resent_found: "getByCommandId resent_book (''intent:'' @ ''i1'') = Some earlier_accrual"
  by (simp add: getByCommandId_def resent_book_def joint_book_def earlier_accrual_def obligation_fields)

lemma filled_in_intent: "find_intent filled_in ''i1'' = Some (accrual AWAITING_CONFIRMATION accrual_answers)"
  by (simp add: find_intent_def filled_in_def)

lemma accrual_intent_scenario:
  "getScenario (it_scenarioId (accrual AWAITING_CONFIRMATION accrual_answers)) = Some registerCommissionAccrual"
  by (simp add: accrual_def accrual_scenario)

definition accrual_amount :: SlotDefinition where
  "accrual_amount = slot ''amount'' SlotType.MONEY ''What commission amount is expected?'' True"

lemma accrual_amount_slot: "accrual_amount \<in> set (sc_slots registerCommissionAccrual)"
  by (simp add: registerCommissionAccrual_def accrual_amount_def)

definition acme :: PartySeed where
  "acme = \<lparr>seed_partyId = ''acme'', seed_displayName = ''Acme S.A.'', seed_aliases = [''ACME''],
     seed_document = Some ''12.345'', seed_externalIds = [], seed_type = None\<rparr>"

end
