(* ===== verification/Sample_Reports.thy ===== *)
theory Sample_Reports
  imports Sample_Book Book_Facts Cash_Movements
begin

text \<open>
  Concrete inputs for the theorems about reports: a codec of cursors, the sample book seen as a book
  in one currency, and a payment that names the same position twice.
\<close>

section \<open>A codec of cursors\<close>

definition write_opt :: "string option \<Rightarrow> string" where
  "write_opt t = (case t of None \<Rightarrow> ''n''
     | Some s \<Rightarrow> CHR ''s'' # concat (map (\<lambda>c. [CHR ''c'', c]) s) @ ''.'')"

fun read_chars :: "string \<Rightarrow> (string \<times> string) option" where
  "read_chars [] = None"
| "read_chars [a] = (if a = CHR ''.'' then Some ([], []) else None)"
| "read_chars (a # c # r) =
     (if a = CHR ''.'' then Some ([], c # r)
      else map_option (\<lambda>(s, rest). (c # s, rest)) (read_chars r))"

definition read_opt :: "string \<Rightarrow> (string option \<times> string) option" where
  "read_opt t = (case t of [] \<Rightarrow> None
     | a # r \<Rightarrow> if a = CHR ''n'' then Some (None, r) else map_option (\<lambda>(s, rest). (Some s, rest)) (read_chars r))"

lemma read_chars_write: "read_chars (concat (map (\<lambda>c. [CHR ''c'', c]) s) @ CHR ''.'' # rest) = Some (s, rest)"
proof (induction s)
  case Nil
  then show ?case by (cases rest) simp_all
next
  case (Cons c s)
  then show ?case by simp
qed

lemma read_write_opt: "read_opt (write_opt t @ rest) = Some (t, rest)"
  by (cases t) (simp_all add: write_opt_def read_opt_def read_chars_write)

definition sample_codec :: cursor_codec where
  "sample_codec =
     \<lparr>write_cursor = (\<lambda>c. write_opt (ct_key c) @ write_opt (ct_order c) @ write_opt (ct_value c)
        @ write_opt (ct_occurredAt c) @ write_opt (ct_id c)),
      read_cursor = (\<lambda>t.
        case read_opt t of None \<Rightarrow> None | Some (k, t1) \<Rightarrow>
        (case read_opt t1 of None \<Rightarrow> None | Some (d, t2) \<Rightarrow>
        (case read_opt t2 of None \<Rightarrow> None | Some (v, t3) \<Rightarrow>
        (case read_opt t3 of None \<Rightarrow> None | Some (a, t4) \<Rightarrow>
        (case read_opt t4 of None \<Rightarrow> None | Some (i, _) \<Rightarrow>
          Some \<lparr>ct_key = k, ct_order = d, ct_value = v, ct_occurredAt = a, ct_id = i\<rparr>)))))\<rparr>"

definition read_instant :: "string \<Rightarrow> js_date" where
  "read_instant s = Some (if hd s = CHR ''-'' then - digits_value (tl s) else digits_value s)"

definition sample_dates :: platform where
  "sample_dates = sample_platform\<lparr>date_parse := read_instant\<rparr>"

lemma read_bigint: "read_instant (bigint_string t) = Some t"
  using nat_string_first [of "nat t"] by (simp add: read_instant_def bigint_string_def)

lemma sample_codec_faithful: "faithful_codec sample_dates sample_codec"
proof -
  have read_last: "read_opt (write_opt t) = Some (t, [])" for t using read_write_opt [of t "[]"] by simp
  have nonempty: "write_opt t \<noteq> []" for t by (simp add: write_opt_def split: option.splits)
  have "bigint_string t \<noteq> []" for t by (simp add: bigint_string_def)
  then show ?thesis
    by (simp add: faithful_codec_def sample_codec_def sample_dates_def sample_platform_def read_write_opt
        read_last nonempty read_bigint)
qed

section \<open>The sample book\<close>

lemma sample_book_brl:
  "one_currency_book ''BRL'' [recognized, paid]" "one_currency_book ''BRL'' [recognized, paid, retracted_payment]"
proof -
  have "is_currency ''BRL''" by code_simp
  then show "one_currency_book ''BRL'' [recognized, paid]"
    "one_currency_book ''BRL'' [recognized, paid, retracted_payment]"
    by (simp_all add: one_currency_book_def valid_money_def sample_fields)
qed

lemma sample_ids: "distinct (map ev_id [recognized, paid])" "\<forall>e\<in>set [recognized, paid]. ev_id e \<noteq> []"
  by (simp_all add: sample_fields)

lemma sample_named: "retractions_name ''ob-1'' [recognized, paid, retracted_payment]"
  by (simp add: retractions_name_def mentions_def sample_fields)

lemma sample_parties_moved:
  "ev_parties paid = [payer_party 40000, supplier_party]" "ev_parties recognized = [supplier_party]"
  "ev_occurredAt recognized = 1000" "ev_occurredAt paid = 1000" "ev_occurredAt retracted_payment = 1000"
  by (simp_all add: recognized_def paid_def retracted_payment_def sample_props_def make_props_def sample_cmd_defs)

text \<open>The one position of the book after the payment.\<close>

lemma sample_aggregate:
  obtains agg where "agg \<in> set (findAllPositionAggregates [recognized, paid])" "\<not> pa_hasReversal agg"
    "pa_totalOriginatedUnits agg = 100000" "derivePositionStatus agg = partially_settled"
proof -
  let ?st = "[recognized, paid]"
  have "map_of (buildAggregateMap ?st) ''ob-1'' \<noteq> None"
    by (simp add: build_None standing_def stands_def fold_defs sample_fields)
  then obtain agg where agg: "map_of (buildAggregateMap ?st) ''ob-1'' = Some agg" by blast
  have "retractions_name ''ob-1'' ?st" by (simp add: retractions_name_def mentions_def sample_fields)
  then have T: "pa_totalOriginatedUnits agg = 100000" "pa_totalSettledUnits agg + pa_totalAdjustedUnits agg = 40000"
    "\<not> pa_hasReversal agg"
    using guard_sees_aggregate [of "''ob-1''" ?st] agg by (simp_all add: sample_totals)
  then have "derivePositionStatus agg = partially_settled"
    by (simp add: derivePositionStatus_def hasUnknownOrigination_def Let_def)
  moreover have "agg \<in> set (findAllPositionAggregates ?st)"
    using map_of_SomeD [OF agg] by (force simp: findAllPositionAggregates_def)
  ultimately show ?thesis using T that by blast
qed

section \<open>A payment that names a position twice\<close>

abbreviation double_cmd :: CreateLedgerEventCommand where
  "double_cmd \<equiv> pay_cmd ''700.00'' ''k2'' [(''ob-1'', Relation.SETTLES), (''ob-1'', Relation.SETTLES)]"

abbreviation double_props :: CreateLedgerEventProps where
  "double_props \<equiv> sample_props (sample_env ''e2'') double_cmd 70000 (Some (ev_hash recognized))
     [payer_party 70000, supplier_party]"

definition paid_twice :: LedgerEvent where
  "paid_twice = event_of sample_platform 2000 double_props"

lemma double_rules:
  "validateSemantic (sample_props (sample_env ''e2'') double_cmd 70000 (Some h) [payer_party 70000, supplier_party]) = None"
  "basic_ok (sample_props (sample_env ''e2'') double_cmd 70000 (Some h) [payer_party 70000, supplier_party])"
  "flows_ok (sample_props (sample_env ''e2'') double_cmd 70000 (Some h) [payer_party 70000, supplier_party])"
  "dates_ok (sample_props (sample_env ''e2'') double_cmd 70000 (Some h) [payer_party 70000, supplier_party])"
  by code_simp+

lemma double_parts:
  "emap (make_party ''BRL'') [payer ''700.00'', supplier] = Inr [payer_party 70000, supplier_party]"
  "texts_given (sample_env ''e2'') double_cmd"
  "cmd_objects double_cmd = [\<lparr>obj_id = ''ob-1'', obj_type = ObjectType.PAYABLE, obj_relation = Relation.SETTLES\<rparr>,
     \<lparr>obj_id = ''ob-1'', obj_type = ObjectType.PAYABLE, obj_relation = Relation.SETTLES\<rparr>]"
  by (code_simp, simp_all add: texts_given_def sample_cmd_defs)

lemma double_execution:
  "execute sample_platform (sample_env ''e2'') [recognized] double_cmd =
     Inr (paid_twice, [recognized] @ [paid_twice], [audit_created sample_platform double_cmd paid_twice])"
proof (rule execute_recordsI)
  show "known_command [recognized] double_cmd = None"
    by (simp add: known_command_None sample_cmd_fields sample_fields)
  have props: "command_props (sample_env ''e2'') [recognized] double_cmd = Some double_props"
    by (simp add: command_props_def sample_amounts double_parts sample_cmd_fields sample_env_fields
        sample_props_def getLastEventHash_def del: emap.simps)
  show "accepts (sample_env ''e2'') [recognized] double_cmd double_props"
    using double_rules(1) [of "ev_hash recognized"]
    by (simp add: accepts_def props double_parts double_rules sample_cmd_fields sample_env_fields sample_fields
        guards_pass_def find_origin_def retraction_rules_def sample_prop_amounts settles_within_def
        sample_totals validateSemantic_iff [symmetric])
  show "paid_twice = event_of sample_platform (env_recordedAt (sample_env ''e2'')) double_props"
    by (simp add: paid_twice_def sample_env_fields)
qed

lemma double_totals:
  "foldObjectTotals (findByObjectId [recognized, paid_twice] ''ob-1'') ''ob-1'' =
     \<lparr>originatedUnits = 100000, closedUnits = 140000, ot_hasReversal = False\<rparr>"
proof -
  have f: "ev_id paid_twice = ''e2''" "ev_objects paid_twice = cmd_objects double_cmd"
    "ev_relatedEventId paid_twice = None" "ev_amount paid_twice = \<lparr>units = 70000, currency = ''BRL''\<rparr>"
    by (simp_all add: paid_twice_def sample_props_def make_props_def sample_cmd_defs)
  show ?thesis by (simp add: fold_defs f double_parts sample_fields)
qed

end
