(* ===== verification/Treasury_Reads.thy ===== *)
theory Treasury_Reads
  imports Ledger_Api Submission
begin

text \<open>
  How the treasury reads the ledger (\<open>HttpLedgerReadAdapter.ts\<close>): the query strings it sends, and what
  it keeps of the answers. A failed request is the status the server answered with; a connection that
  fails or times out is status 0. Two requests sent together are answered in the order they are
  written; only the error that is thrown depends on it. A \<open>page\<close> of 0 is not sent.
\<close>

section \<open>Requests\<close>

definition getOrNull :: "'a answer \<Rightarrow> 'a option answer" where
  "getOrNull r = (case r of Inl status \<Rightarrow> if status = 404 then Inr None else Inl status | Inr x \<Rightarrow> Inr (Some x))"

definition auth_header :: "string \<Rightarrow> string option" where
  "auth_header serviceToken = (if serviceToken = [] then None else Some (''Bearer '' @ serviceToken))"

definition text_param :: "string \<Rightarrow> string option \<Rightarrow> query" where
  "text_param key v = (if truthy v then [(key, the v)] else [])"

definition number_param :: "string \<Rightarrow> int option \<Rightarrow> query" where
  "number_param key v = (case or_undefined v of None \<Rightarrow> [] | Some n \<Rightarrow> [(key, bigint_string n)])"

definition limit_param :: "int option \<Rightarrow> query" where
  "limit_param v = [(''limit'', bigint_string (case v of None \<Rightarrow> 50 | Some l \<Rightarrow> l))]"

definition toValues :: "string list \<Rightarrow> string list" where
  "toValues vs = filter (\<lambda>v. v \<noteq> []) vs"

definition positions_request :: "PositionsQuery \<Rightarrow> query" where
  "positions_request q =
     limit_param (qp_limit q) @ number_param ''page'' (qp_page q)
     @ map (Pair ''status'') (toValues (qp_status q))
     @ map (Pair ''objectType'') (toValues (qp_objectType q))
     @ map (Pair ''partyId'') (toValues (qp_partyId q))
     @ text_param ''outcome'' (qp_outcome q) @ text_param ''from'' (qp_from q) @ text_param ''to'' (qp_to q)
     @ text_param ''sortBy'' (qp_sortBy q) @ text_param ''sortOrder'' (qp_sortOrder q)"

definition movements_request :: "CashMovementsQuery \<Rightarrow> query" where
  "movements_request q =
     limit_param (qm_limit q) @ text_param ''partyId'' (qm_partyId q) @ text_param ''effect'' (qm_effect q)
     @ text_param ''from'' (qm_from q) @ text_param ''to'' (qm_to q) @ text_param ''cursor'' (qm_cursor q)
     @ number_param ''page'' (qm_page q) @ text_param ''sortBy'' (qm_sortBy q)
     @ text_param ''sortOrder'' (qm_sortOrder q)"

section \<open>Answers\<close>

definition map_parties :: "PublishedParty list \<Rightarrow> RecordedParty list" where
  "map_parties = map (\<lambda>p. \<lparr>rp_partyId = pp_partyId p, rp_role = pp_role p, rp_direction = pp_direction p,
     rp_amount = pp_amount p\<rparr>)"

definition map_objects :: "PublishedObject list \<Rightarrow> RecordedObject list" where
  "map_objects = map (\<lambda>ob. \<lparr>ro_objectId = pob_objectId ob, ro_objectType = pob_objectType ob,
     ro_relation = pob_relation ob\<rparr>)"

definition map_source :: "EventSource \<Rightarrow> RecordedSource" where
  "map_source s = \<lparr>rs_system = src_system s, rs_reference = src_reference s\<rparr>"

definition position_item :: "PublishedPosition \<Rightarrow> PositionItem" where
  "position_item p =
     \<lparr>tp_objectId = pub_objectId p, tp_objectType = pub_objectType p, tp_status = pfg_status (pub_figures p),
      tp_outcome = pfg_outcome (pub_figures p), tp_currency = pfg_currency (pub_figures p),
      tp_totalOriginated = pfg_totalOriginated (pub_figures p), tp_openBalance = pfg_openBalance (pub_figures p),
      tp_eventCount = pub_eventCount p, tp_lastEventAt = Some (pub_lastEventAt p),
      tp_originatedAt = pub_originatedAt p, tp_createdAt = Some (pub_createdAt p), tp_dueAt = pub_dueAt p,
      tp_parties = pub_parties p\<rparr>"

definition read_positions :: "ledger_api \<Rightarrow> PositionsQuery \<Rightarrow> PositionItem Page answer" where
  "read_positions A q =
     ebind (api_positions A (positions_request q)) (\<lambda>raw. Inr (page_of position_item raw))"

definition read_cash_movements :: "ledger_api \<Rightarrow> CashMovementsQuery \<Rightarrow> PublishedMovementPage answer" where
  "read_cash_movements A q = api_cash_movements A (movements_request q)"

record BookExposure =
  bex_currency :: string
  bex_period :: "string \<times> string"
  bex_cashIn :: string
  bex_cashOut :: string
  bex_netCash :: string
  bex_netCashNegative :: bool
  bex_cashInByType :: "(string \<times> string) list"
  bex_cashOutByType :: "(string \<times> string) list"
  bex_openExposure :: string
  bex_openPayableExposure :: string
  bex_overduePayable :: string
  bex_upcomingPayable :: string
  bex_undatedPayable :: string
  bex_capitalAtRisk :: string
  bex_healthScore :: PublishedHealth

definition book_exposure :: "ledger_api \<Rightarrow> string option \<Rightarrow> string option \<Rightarrow> BookExposure answer" where
  "book_exposure A from to =
     ebind (api_dashboard A (text_param ''from'' from @ text_param ''to'' to)) (\<lambda>raw.
     Inr \<lparr>bex_currency = pdb_currency raw, bex_period = (pdb_from raw, pdb_to raw), bex_cashIn = pdb_cashIn raw,
          bex_cashOut = pdb_cashOut raw, bex_netCash = pdb_netCash raw,
          bex_netCashNegative = pdb_netCashNegative raw, bex_cashInByType = pdb_cashInByType raw,
          bex_cashOutByType = pdb_cashOutByType raw, bex_openExposure = pdb_openExposure raw,
          bex_openPayableExposure = pdb_openPayableExposure raw, bex_overduePayable = pdb_overduePayable raw,
          bex_upcomingPayable = pdb_upcomingPayable raw, bex_undatedPayable = pdb_undatedPayable raw,
          bex_capitalAtRisk = pdb_capitalAtRisk raw, bex_healthScore = pdb_healthScore raw\<rparr>)"

section \<open>One position\<close>

definition originates_here :: "string \<Rightarrow> LifeEvent \<Rightarrow> bool" where
  "originates_here oid e \<longleftrightarrow>
     \<not> pe_retracted e \<and> list_ex (\<lambda>ob. pob_objectId ob = oid \<and> pob_relation ob = ''originates'') (pe_objects e)"

definition standingOrigination :: "LifeEvent list \<Rightarrow> string \<Rightarrow> LifeEvent option" where
  "standingOrigination events oid = find (originates_here oid) events"

definition originOf :: "PublishedDetail \<Rightarrow> string \<Rightarrow> PositionOriginRef option" where
  "originOf raw oid =
     map_option (\<lambda>e.
       \<lparr>por_eventId = pe_id e, por_eventType = pe_eventType e, por_occurredAt = pe_occurredAt e,
        por_source = map_source (pe_source e),
        por_relatedObjects = filter (\<lambda>ob. ro_objectId ob \<noteq> oid) (map_objects (pe_objects e)),
        por_parties = map_parties (pe_parties e)\<rparr>)
       (standingOrigination (pd_events raw) oid)"

definition life_event :: "string \<Rightarrow> LifeEvent \<Rightarrow> LifecycleEvent" where
  "life_event oid e =
     \<lparr>lc_eventId = pe_id e, lc_eventType = pe_eventType e, lc_economicEffect = pe_economicEffect e,
      lc_relation = map_option pob_relation (find (\<lambda>ob. pob_objectId ob = oid) (pe_objects e)),
      lc_amount = pe_amount e, lc_currency = pe_currency e, lc_occurredAt = pe_occurredAt e,
      lc_recordedAt = pe_recordedAt e, lc_description = pe_description e,
      lc_relatedEventId = pe_relatedEventId e, lc_retracted = pe_retracted e,
      lc_requiresFollowup = (case pe_reason e of None \<Rightarrow> False | Some r \<Rightarrow> prs_requiresFollowup r),
      lc_objects = map_objects (pe_objects e), lc_source = map_source (pe_source e),
      lc_parties = map_parties (pe_parties e)\<rparr>"

definition read_lifecycle :: "ledger_api \<Rightarrow> string \<Rightarrow> PositionLifecycle option answer" where
  "read_lifecycle A oid =
     ebind (getOrNull (api_position A oid)) (\<lambda>found.
     Inr (map_option (\<lambda>raw.
       \<lparr>plc_objectId = pd_objectId raw, plc_objectType = pd_objectType raw,
        plc_status = pfg_status (pd_figures raw), plc_outcome = pfg_outcome (pd_figures raw),
        plc_currency = pfg_currency (pd_figures raw), plc_totalOriginated = pfg_totalOriginated (pd_figures raw),
        plc_totalSettled = pfg_totalSettled (pd_figures raw), plc_openBalance = pfg_openBalance (pd_figures raw),
        plc_eventCount = pd_eventCount raw, plc_events = map (life_event (pd_objectId raw)) (pd_events raw),
        plc_origin = originOf raw oid\<rparr>) found))"

section \<open>Positions to choose from\<close>

definition DEFAULT_CANDIDATES :: nat where "DEFAULT_CANDIDATES = 20"

definition open_candidate :: "string \<Rightarrow> PositionItem \<Rightarrow> PublishedDetail option \<Rightarrow> PositionCandidate" where
  "open_candidate usina item detail =
     (let originating = Option.bind detail (\<lambda>d. standingOrigination (pd_events d) (tp_objectId item))
      in \<lparr>pca_objectId = tp_objectId item, pca_objectType = tp_objectType item,
          pca_originEventId = map_option pe_id originating,
          pca_counterpartyId = Option.bind originating (\<lambda>e.
            map_option pp_partyId (find (\<lambda>p. pp_partyId p \<noteq> usina) (pe_parties e))),
          pca_totalOriginated = tp_totalOriginated item, pca_openBalance = tp_openBalance item,
          pca_currency = tp_currency item, pca_originatedAt = tp_originatedAt item\<rparr>)"

definition openPositions :: "string \<Rightarrow> ledger_api \<Rightarrow> string \<Rightarrow> nat \<Rightarrow> PositionCandidate list answer" where
  "openPositions usina A objectType limit =
     (let listed = (\<lambda>status. read_positions A (all_positions\<lparr>qp_limit := Some (int limit),
            qp_status := [status], qp_objectType := [objectType]\<rparr>))
      in ebind (listed ''open'') (\<lambda>p1.
         ebind (listed ''partially_settled'') (\<lambda>p2.
         let items = take limit (pg_data p1 @ pg_data p2) in
         emap (\<lambda>item. ebind (getOrNull (api_position A (tp_objectId item))) (\<lambda>d.
                 Inr (open_candidate usina item d))) items)))"

definition unoriginatedPositions :: "ledger_api \<Rightarrow> string \<Rightarrow> nat \<Rightarrow> PositionCandidate list answer" where
  "unoriginatedPositions A objectType limit =
     ebind (read_positions A (all_positions\<lparr>qp_limit := Some (int limit * 2), qp_status := [''open''],
              qp_objectType := [objectType]\<rparr>)) (\<lambda>page.
     Inr (map (\<lambda>item. \<lparr>pca_objectId = tp_objectId item, pca_objectType = tp_objectType item,
            pca_originEventId = None, pca_counterpartyId = None, pca_totalOriginated = tp_totalOriginated item,
            pca_openBalance = tp_openBalance item, pca_currency = tp_currency item, pca_originatedAt = None\<rparr>)
         (take limit (filter (\<lambda>item. not_positive (tp_totalOriginated item) \<and> 0 < tp_eventCount item) (pg_data page)))))"

section \<open>Events\<close>

definition recentlyRecorded :: "ledger_api \<Rightarrow> int \<Rightarrow> int \<Rightarrow> RecordedEvent list answer" where
  "recentlyRecorded A limit page =
     ebind (api_events A [(''sortBy'', ''recordedAt''), (''sortOrder'', ''DESC''),
              (''limit'', bigint_string limit), (''page'', bigint_string page)]) (\<lambda>raw.
     Inr (map (\<lambda>e. \<lparr>rev_eventId = pe_id e, rev_objectIds = fold set_add (map pob_objectId (pe_objects e)) []\<rparr>)
         (pg_data raw)))"

definition read_event :: "ledger_api \<Rightarrow> string \<Rightarrow> RecordedEntry option answer" where
  "read_event A i =
     ebind (getOrNull (api_event A i)) (\<lambda>found.
     Inr (map_option (\<lambda>raw.
       \<lparr>re_eventId = pe_id raw, re_eventType = pe_eventType raw, re_economicEffect = pe_economicEffect raw,
        re_amount = pe_amount raw, re_currency = pe_currency raw, re_occurredAt = pe_occurredAt raw,
        re_description = pe_description raw, re_relatedEventId = pe_relatedEventId raw,
        re_objects = map_objects (pe_objects raw), re_parties = map_parties (pe_parties raw),
        re_source = map_source (pe_source raw)\<rparr>) found))"

section \<open>A ledger that answers\<close>

lemma gate_opens: "t \<noteq> [] \<Longrightarrow> requireServiceToken t (auth_header t) r = r"
  by (simp add: requireServiceToken_def auth_header_def bearer_def)

definition answering :: "server_config \<Rightarrow> instant \<Rightarrow> ledger_books \<Rightarrow> ledger_api" where
  "answering C now B = createServer C (auth_header (sv_serviceToken C)) now B"

lemma answering_routes:
  assumes "sv_serviceToken C \<noteq> []"
  shows "api_positions (answering C now B) = positions_route (sv_platform C) (bk_events B)"
    and "api_position (answering C now B) = position_route (sv_platform C) (bk_events B)"
    and "api_events (answering C now B) = events_route (sv_platform C) (bk_events B)"
    and "api_event (answering C now B) = event_route (sv_platform C) (bk_events B)"
    and "api_cash_movements (answering C now B) = cash_movements_route (sv_platform C) (sv_codec C) (bk_events B)"
    and "api_dashboard (answering C now B) = dashboard_route (sv_platform C) now now now now (bk_events B)"
  using assms by (simp_all add: answering_def createServer_def Let_def gate_opens)

end
