(* ===== verification/Treasury_Screens.thy ===== *)
theory Treasury_Screens
  imports Treasury_Reads
begin

text \<open>
  The use cases behind the treasury's screens: they ask the ledger, put the names of the Directory beside
  the answer and say \<open>unavailable\<close> when a read fails (\<open>None\<close>), never zero or empty. The Directory is the
  treasury's own store and does not fail. An input number is an integer; an empty text filter is the
  empty list.
\<close>

section \<open>Names beside an answer\<close>

text \<open>The \<open>nameParties\<close> of four use cases: one lookup per distinct identifier, unknown ones stay absent.\<close>

definition name_parties :: "party_store \<Rightarrow> string list \<Rightarrow> (string \<times> string) list" where
  "name_parties ps is =
     (let found = map (find_party ps) (fold set_add is [])
      in fold (\<lambda>q labels. case q of None \<Rightarrow> labels
           | Some p \<Rightarrow> AList.update (pty_partyId p) (pty_displayName p) labels) found [])"

definition clamp :: "int \<Rightarrow> int option \<Rightarrow> int" where
  "clamp standard n = (case n of None \<Rightarrow> standard | Some k \<Rightarrow> min (max 1 k) 200)"

text \<open>\<open>page && page > 0\<close>.\<close>

definition positive_page :: "int option \<Rightarrow> int option" where
  "positive_page p = (case p of None \<Rightarrow> None | Some n \<Rightarrow> if 0 < n then Some n else None)"

definition unavailable_or :: "'a answer \<Rightarrow> 'a option" where
  "unavailable_or r = (case r of Inl _ \<Rightarrow> None | Inr x \<Rightarrow> Some x)"

section \<open>Positions\<close>

definition LIST_PAGE_SIZE :: int where "LIST_PAGE_SIZE = 20"

definition asValues :: "string list \<Rightarrow> string list" where
  "asValues vs = filter (\<lambda>v. v \<noteq> []) vs"

definition clampPageSize :: "int option \<Rightarrow> int" where
  "clampPageSize perPage = clamp LIST_PAGE_SIZE perPage"

record ListPositionsResult =
  lpr_page :: "PositionItem Page option"
  lpr_selectedParties :: "string list"
  lpr_selfPartyId :: string
  lpr_partyNames :: "(string \<times> string) list"

definition list_positions_query :: "PositionsQuery \<Rightarrow> PositionsQuery" where
  "list_positions_query input =
     input\<lparr>qp_page := Some (case positive_page (qp_page input) of None \<Rightarrow> 1 | Some n \<Rightarrow> n),
           qp_limit := Some (clampPageSize (qp_limit input))\<rparr>"

text \<open>The second component is what is handed to \<open>remember\<close>.\<close>

definition list_positions ::
  "string \<Rightarrow> party_store \<Rightarrow> ledger_api \<Rightarrow> PositionsQuery \<Rightarrow> ListPositionsResult \<times> PositionItem list" where
  "list_positions usina ps A input =
     (let result = (\<lambda>page labels. \<lparr>lpr_page = page, lpr_selectedParties = asValues (qp_partyId input),
            lpr_selfPartyId = usina, lpr_partyNames = labels\<rparr>)
      in case read_positions A (list_positions_query input) of
           Inl _ \<Rightarrow> (result None [], [])
         | Inr page \<Rightarrow>
             (result (Some page)
                (name_parties ps (concat (map (\<lambda>p. case tp_parties p of None \<Rightarrow> [] | Some is \<Rightarrow> is) (pg_data page)))),
              pg_data page))"

section \<open>Cash movements, exposure, one event\<close>

definition MOVEMENTS_PAGE_SIZE :: int where "MOVEMENTS_PAGE_SIZE = 50"

definition clampLimit :: "int option \<Rightarrow> int" where
  "clampLimit limit = clamp MOVEMENTS_PAGE_SIZE limit"

definition list_cash_movements :: "ledger_api \<Rightarrow> CashMovementsQuery \<Rightarrow> PublishedMovementPage option" where
  "list_cash_movements A input =
     unavailable_or (read_cash_movements A
       (input\<lparr>qm_limit := Some (clampLimit (qm_limit input)), qm_page := positive_page (qm_page input)\<rparr>))"

definition get_book_exposure :: "ledger_api \<Rightarrow> string option \<Rightarrow> string option \<Rightarrow> BookExposure option" where
  "get_book_exposure A from to = unavailable_or (book_exposure A from to)"

definition get_ledger_event :: "ledger_api \<Rightarrow> string \<Rightarrow> RecordedEntry option answer" where
  "get_ledger_event A i = read_event A i"

definition get_object_lifecycle ::
  "party_store \<Rightarrow> ledger_api \<Rightarrow> string \<Rightarrow> (PositionLifecycle \<times> (string \<times> string) list) option answer" where
  "get_object_lifecycle ps A oid =
     ebind (read_lifecycle A oid) (\<lambda>found.
     Inr (map_option (\<lambda>l.
       (l, name_parties ps (concat (map (\<lambda>e. map rp_partyId (lc_parties e)) (plc_events l))
             @ (case plc_origin l of None \<Rightarrow> [] | Some g \<Rightarrow> map rp_partyId (por_parties g))))) found))"

section \<open>Positions a settlement could be about\<close>

record SettlementCandidate =
  sc_objectId :: string
  sc_originEventId :: "string option"
  sc_counterparty :: "string option"
  sc_totalOriginated :: string
  sc_openBalance :: "string option"
  sc_currency :: string
  sc_originatedAt :: "string option"

record SettlementCandidates =
  scs_continuity :: "string option"
  scs_lineage :: "string option"
  scs_candidates :: "SettlementCandidate list"

definition settlement_candidate :: "(string \<times> string) list \<Rightarrow> PositionCandidate \<Rightarrow> SettlementCandidate" where
  "settlement_candidate labels c =
     \<lparr>sc_objectId = pca_objectId c, sc_originEventId = pca_originEventId c,
      sc_counterparty = (if truthy (pca_counterpartyId c)
        then Some (or_else (map_of labels (the (pca_counterpartyId c))) (the (pca_counterpartyId c))) else None),
      sc_totalOriginated = pca_totalOriginated c,
      sc_openBalance = (if pca_openBalance c \<noteq> Some (pca_totalOriginated c) then pca_openBalance c else None),
      sc_currency = pca_currency c, sc_originatedAt = pca_originatedAt c\<rparr>"

definition list_settlement_candidates ::
  "string \<Rightarrow> treasury \<Rightarrow> ledger_api \<Rightarrow> string \<Rightarrow> (string + nat) + SettlementCandidates" where
  "list_settlement_candidates usina T A i =
     (case find_intent T i of
        None \<Rightarrow> Inl (Inl (''Unknown intent: '' @ i))
      | Some it \<Rightarrow>
          (case continuityObjectType (it_scenarioId it) (it_answers it) of
             None \<Rightarrow> Inr \<lparr>scs_continuity = None, scs_lineage = None, scs_candidates = []\<rparr>
           | Some objectType \<Rightarrow>
               if objectType = [] then Inr \<lparr>scs_continuity = None, scs_lineage = None, scs_candidates = []\<rparr>
               else
                 (let found = (if continuityMode (it_scenarioId it) = Unoriginated
                     then unoriginatedPositions A objectType DEFAULT_CANDIDATES
                     else ebind (openPositions usina A objectType DEFAULT_CANDIDATES) (\<lambda>cs.
                            Inr (filter (\<lambda>c. pca_originatedAt c \<noteq> None) cs)))
                  in case found of
                       Inl e \<Rightarrow> Inl (Inr e)
                     | Inr cs \<Rightarrow>
                         (let labels = name_parties (tr_parties T)
                                (concat (map (\<lambda>c. case pca_counterpartyId c of None \<Rightarrow> [] | Some q \<Rightarrow> [q]) cs))
                          in Inr \<lparr>scs_continuity = continuitySlot (it_scenarioId it),
                                  scs_lineage = lineageSlot (it_scenarioId it),
                                  scs_candidates = map (settlement_candidate labels) cs\<rparr>))))"

section \<open>Payable positions\<close>

definition PAYABLE_OBJECT_TYPES :: "string list" where
  "PAYABLE_OBJECT_TYPES = [''payable'', ''payroll'', ''service_fee'', ''infrastructure_cost'', ''tax'']"

definition OPEN_STATUSES :: "string list" where
  "OPEN_STATUSES = [''open'', ''partially_settled'']"

definition PER_QUERY_LIMIT :: int where "PER_QUERY_LIMIT = 200"

record PayablePositions =
  ppr_overdue :: "PositionItem list"
  ppr_upcoming :: "PositionItem list"
  ppr_undated :: "PositionItem list"
  ppr_truncated :: bool

definition payable_query :: PositionsQuery where
  "payable_query = all_positions\<lparr>qp_objectType := PAYABLE_OBJECT_TYPES, qp_status := OPEN_STATUSES,
     qp_limit := Some PER_QUERY_LIMIT, qp_sortBy := Some ''dueAt'', qp_sortOrder := Some ''ASC''\<rparr>"

text \<open>
  \<open>new Date(dueAt) < asOf\<close> and the comparison of two dates; an unparseable date is never before another,
  and a difference that is \<open>NaN\<close> leaves the order.
\<close>

definition due_before :: "platform \<Rightarrow> PositionItem \<Rightarrow> instant \<Rightarrow> bool" where
  "due_before P p asOf =
     (case Option.bind (tp_dueAt p) (date_parse P) of None \<Rightarrow> False | Some d \<Rightarrow> d < asOf)"

definition by_due_date :: "platform \<Rightarrow> PositionItem \<Rightarrow> PositionItem \<Rightarrow> int" where
  "by_due_date P a b =
     (case (Option.bind (tp_dueAt a) (date_parse P), Option.bind (tp_dueAt b) (date_parse P)) of
        (Some x, Some y) \<Rightarrow> x - y | _ \<Rightarrow> 0)"

definition outstanding_item :: "PositionItem \<Rightarrow> bool" where
  "outstanding_item p = (case tp_openBalance p of None \<Rightarrow> False | Some b \<Rightarrow> \<not> not_positive b)"

definition split_payables :: "platform \<Rightarrow> instant \<Rightarrow> PositionItem list \<Rightarrow> PayablePositions" where
  "split_payables P asOf rows =
     (let outstanding = filter outstanding_item rows
      in \<lparr>ppr_overdue = sort_by (by_due_date P) (filter (\<lambda>p. tp_dueAt p \<noteq> None \<and> due_before P p asOf) outstanding),
          ppr_upcoming = sort_by (by_due_date P) (filter (\<lambda>p. tp_dueAt p \<noteq> None \<and> \<not> due_before P p asOf) outstanding),
          ppr_undated = filter (\<lambda>p. tp_dueAt p = None) outstanding,
          ppr_truncated = (PER_QUERY_LIMIT \<le> int (length rows))\<rparr>)"

definition list_payable_positions :: "platform \<Rightarrow> instant \<Rightarrow> ledger_api \<Rightarrow> PayablePositions option" where
  "list_payable_positions P asOf A =
     unavailable_or (ebind (read_positions A payable_query) (\<lambda>page. Inr (split_payables P asOf (pg_data page))))"

end
