(* ===== verification/Payable_Lists.thy ===== *)
theory Payable_Lists
  imports Treasury_Screens Report_Sums
begin

text \<open>
  The lists of what the company owes, read by the treasury through the API, against the figures the
  ledger's own dashboard computes: when the listing is not cut off, the rows of each list add up to the
  figure above it.
\<close>

section \<open>Published amounts\<close>

definition item_units :: "PositionItem \<Rightarrow> int" where
  "item_units p =
     (case tp_openBalance p of None \<Rightarrow> 0
      | Some b \<Rightarrow> (case fromDecimal b (tp_currency p) of Inl _ \<Rightarrow> 0 | Inr m \<Rightarrow> units m))"

lemma zero_digits: "list_all (\<lambda>c. c = CHR ''0'') s \<Longrightarrow> digits_value s = 0"
proof (induction s rule: rev_induct)
  case Nil
  then show ?case by simp
next
  case (snoc c s)
  moreover have "digit_value CHR ''0'' = 0" by code_simp
  ultimately show ?case by simp
qed

lemma not_positive_toString:
  assumes "0 \<le> units m"
  shows "not_positive (money_toString m) \<longleftrightarrow> units m = 0"
proof
  let ?ip = "bigint_string (units m div 100)"
  let ?ds = "pad_start 2 CHR ''0'' (bigint_string (units m mod 100))"
  have dot: "\<not> is_digit CHR ''.''" by code_simp
  have ip: "list_all is_digit ?ip" "digits_value ?ip = units m div 100"
    using assms by (simp_all add: bigint_string_def nat_string_digits pos_imp_zdiv_neg_iff)
  have ds: "list_all is_digit ?ds" "digits_value ?ds = units m mod 100"
    by (rule cents_string; simp)+
  have s: "money_toString m = ?ip @ CHR ''.'' # ?ds"
    by (simp add: money_toString_def SCALE_def)
  have zeros: "list_all (\<lambda>c. c = CHR ''0'' \<or> c = CHR ''.'') t \<Longrightarrow> list_all is_digit t \<Longrightarrow>
      list_all (\<lambda>c. c = CHR ''0'') t" for t
    using dot by (auto simp: list_all_iff)
  assume "not_positive (money_toString m)"
  then have "digits_value ?ip = 0" "digits_value ?ds = 0"
    unfolding not_positive_def s using zeros ip(1) ds(1) zero_digits by simp_all
  with ip ds have "units m div 100 = 0" "units m mod 100 = 0" by simp_all
  then show "units m = 0" by presburger
next
  assume "units m = 0"
  then have "money_toString m = money_toString \<lparr>units = 0, currency = []\<rparr>" by (simp add: money_toString_def)
  moreover have "not_positive (money_toString \<lparr>units = 0, currency = []\<rparr>)" by code_simp
  ultimately show "not_positive (money_toString m)" by simp
qed

section \<open>The row of an aggregate\<close>

definition list_item_of :: "PositionAggregate \<Rightarrow> PositionListItem" where
  "list_item_of agg =
     \<lparr>li_objectId = pa_objectId agg, li_objectType = pa_objectType agg, li_figures = figures_of agg,
      li_eventCount = pa_eventCount agg, li_lastEventAt = pa_lastEventAt agg,
      li_originatedAt = pa_originatedAt agg, li_createdAt = pa_createdAt agg,
      li_dueAt = pa_dueAt agg, li_parties = pa_parties agg\<rparr>"

definition row_of :: "platform \<Rightarrow> store \<Rightarrow> PositionAggregate \<Rightarrow> PositionItem" where
  "row_of P st agg = position_item (serializePositionListItem P (list_item_of (with_parties st agg)))"

lemma with_parties_same [simp]:
  "valid_aggregate (with_parties st agg) = valid_aggregate agg"
  "figures_of (with_parties st agg) = figures_of agg"
  by (simp_all add: with_parties_def valid_aggregate_def figures_of_def Let_def derivePositionStatus_def
      hasUnknownOrigination_def outcome_of_def openBalanceUnitsOf_def over_units_def)

lemma row_fields:
  "tp_openBalance (row_of P st agg) = map_option (\<lambda>u. money_toString (money_of (pa_currency agg) u)) (openBalanceUnitsOf agg)"
  "tp_currency (row_of P st agg) = pa_currency agg"
  "tp_dueAt (row_of P st agg) = map_option (iso_string P) (pa_dueAt agg)"
  "tp_objectId (row_of P st agg) = pa_objectId agg"
  "tp_objectType (row_of P st agg) = objectType_value (pa_objectType agg)"
  by (simp_all add: row_of_def position_item_def serializePositionListItem_def list_item_of_def
      publish_figures_def figures_of_def Let_def with_parties_def option.map_comp comp_def
      openBalanceUnitsOf_def hasUnknownOrigination_def)

lemma item_units_row:
  assumes "valid_aggregate agg"
  shows "item_units (row_of P st agg) = (case openBalanceUnitsOf agg of None \<Rightarrow> 0 | Some b \<Rightarrow> b)"
proof (cases "openBalanceUnitsOf agg")
  case (Some b)
  with openBalance_nonneg have "0 \<le> b" by blast
  moreover have "is_currency (pa_currency agg)" using assms by (simp add: valid_aggregate_def)
  ultimately show ?thesis
    using Some fromDecimal_toString [of "money_of (pa_currency agg) b" "pa_currency agg"]
    by (simp add: item_units_def row_fields new_Money_ok)
qed (simp add: item_units_def row_fields)

lemma outstanding_row:
  "outstanding_item (row_of P st agg) \<longleftrightarrow> (case openBalanceUnitsOf agg of None \<Rightarrow> False | Some b \<Rightarrow> b \<noteq> 0)"
proof (cases "openBalanceUnitsOf agg")
  case (Some b)
  with openBalance_nonneg have "0 \<le> b" by blast
  with Some not_positive_toString [of "money_of (pa_currency agg) b"] show ?thesis
    by (simp add: outstanding_item_def row_fields)
qed (simp add: outstanding_item_def row_fields)

section \<open>What the listing answers\<close>

text \<open>The query as the route reads it.\<close>

definition payable_options :: PositionAggregateOptions where
  "payable_options =
     \<lparr>pq_page = None, pq_limit = Some 200, pq_status = Many [open_position, partially_settled], pq_outcome = None,
      pq_objectType = Many USINA_PAYABLE_OBJECT_TYPES, pq_partyId = Absent, pq_from = None, pq_to = None,
      pq_sortBy = Some by_dueAt, pq_sortOrder = Some ASC\<rparr>"

lemma payable_request:
  "position_options (positions_request payable_query) None None = payable_options"
  "one (positions_request payable_query) ''from'' = None" "one (positions_request payable_query) ''to'' = None"
  by code_simp+

lemma set_slice: "set (slice f t xs) \<subseteq> set xs"
  by (auto simp: slice_def Let_def dest!: in_set_takeD in_set_dropD)

lemma set_sort: "set (sort_by cmp xs) = set xs"
  by (metis mset_sort_by set_mset_mset)

lemma set_sorted_positions: "set (sorted_positions P st opts) \<subseteq> set (map snd (buildAggregateMap st))"
  by (auto simp: sorted_positions_def set_sort)

lemma positions_answer:
  assumes book: "one_currency_book c st"
    and none: "one q ''from'' = None" "one q ''to'' = None"
  shows "positions_route P st q =
    Inr (page_of (serializePositionListItem P \<circ> list_item_of) (findPositionAggregates P st (position_options q None None)))"
proof -
  let ?opts = "position_options q None None"
  let ?D = "pg_data (findPositionAggregates P st ?opts)"
  have "set ?D \<subseteq> with_parties st ` set (map snd (buildAggregateMap st))"
    unfolding positions_page Let_def using set_slice set_sorted_positions by fastforce
  then have "valid_aggregate a" if "a \<in> set ?D" for a
    using that book_aggregates [OF book] by fastforce
  then have "emap aggregateToListItem ?D = Inr (map list_item_of ?D)"
    by (intro emap_total) (simp add: list_item list_item_of_def)
  then have "summarizePaginated P st ?opts = Inr (page_of list_item_of (findPositionAggregates P st ?opts))"
    by (simp add: summarizePaginated_def Let_def page_of_def)
  then show ?thesis
    by (simp add: positions_route_def parseBound_def none refuse_if_def thrown_def page_of_def comp_def)
qed

lemma payable_rows:
  assumes "one_currency_book c (bk_events B)" "sv_serviceToken C \<noteq> []"
  shows "list_payable_positions (sv_platform C) asOf (answering C now B)
    = Some (split_payables (sv_platform C) asOf (map (row_of (sv_platform C) (bk_events B))
        (take 200 (sorted_positions (sv_platform C) (bk_events B) payable_options))))"
proof -
  let ?P = "sv_platform C" and ?st = "bk_events B"
  have "read_positions (answering C now B) payable_query
      = Inr (page_of (row_of ?P ?st) \<lparr>pg_data = take 200 (sorted_positions ?P ?st payable_options),
          pg_total = pg_total (findPositionAggregates ?P ?st payable_options), pg_page = 1, pg_limit = 200,
          pg_totalPages = pg_totalPages (findPositionAggregates ?P ?st payable_options)\<rparr>)"
    by (simp add: read_positions_def answering_routes [OF assms(2)] payable_request(1)
        positions_answer [OF assms(1) payable_request(2,3)] page_of_def positions_page Let_def slice_nonneg
        payable_options_def page_limit_def row_of_def)
  then show ?thesis
    by (simp add: list_payable_positions_def unavailable_or_def page_of_def)
qed

section \<open>The lists add up\<close>

lemma sum_sort: "sum_list (map f (sort_by cmp xs)) = sum_list (map f xs)"
  for f :: "'a \<Rightarrow> int"
proof -
  have "mset (map f (sort_by cmp xs)) = mset (map f xs)" by simp
  then show ?thesis by (metis sum_mset_sum_list)
qed

lemma payable_balance:
  assumes "valid_aggregate agg" "pa_currency agg = c"
  shows "(if selected st payable_options agg \<and> outstanding_item (row_of P st agg) then item_units (row_of P st agg) else 0)
    = (if is_payable agg then counted_balance c agg else 0)"
proof (cases "openBalanceUnitsOf agg")
  case None
  then show ?thesis by (simp add: outstanding_row counted_balance_def)
next
  case (Some b)
  have sel: "selected st payable_options agg \<longleftrightarrow>
      is_payable agg \<and> (derivePositionStatus agg = open_position \<or> derivePositionStatus agg = partially_settled)"
    by (auto simp: selected_def payable_options_def is_payable_def USINA_PAYABLE_OBJECT_TYPES_def)
  have "pa_hasReversal agg \<Longrightarrow> derivePositionStatus agg = reversed"
    by (simp add: derivePositionStatus_def)
  moreover have "derivePositionStatus agg = open_position \<or> derivePositionStatus agg = partially_settled"
    if "\<not> pa_hasReversal agg" "b \<noteq> 0"
    using Some that assms(1)
    by (auto simp: derivePositionStatus_def openBalanceUnitsOf_def Let_def valid_aggregate_def split: if_splits)
  ultimately show ?thesis
    using Some assms by (auto simp: sel outstanding_row item_units_row counted_balance_def)
qed

lemma listed_units:
  assumes "one_currency_book c st" "\<And>agg. Q (row_of P st agg) \<longleftrightarrow> R agg"
  shows "sum_list (map item_units (filter Q (filter outstanding_item
      (map (row_of P st) (sorted_positions P st payable_options)))))
    = balance_where (\<lambda>a. is_payable a \<and> R a) c (map snd (buildAggregateMap st))"
proof -
  let ?aggs = "map snd (buildAggregateMap st)"
  let ?f = "\<lambda>a. if selected st payable_options a \<and> outstanding_item (row_of P st a) \<and> R a
    then item_units (row_of P st a) else 0"
  have "sum_list (map item_units (filter Q (filter outstanding_item (map (row_of P st) (filter p xs)))))
      = sum_list (map (\<lambda>a. if p a \<and> outstanding_item (row_of P st a) \<and> R a then item_units (row_of P st a) else 0) xs)"
    for p and xs
    by (induction xs) (simp_all add: assms(2))
  then have "sum_list (map item_units (filter Q (filter outstanding_item
      (map (row_of P st) (sorted_positions P st payable_options))))) = sum_list (map ?f ?aggs)"
    by (simp only: sorted_positions_def sum_sort)
  also have "map ?f ?aggs = map (\<lambda>a. if is_payable a \<and> R a then counted_balance c a else 0) ?aggs"
  proof (rule map_cong [OF refl])
    fix a assume "a \<in> set ?aggs"
    with book_aggregates [OF assms(1)] have "valid_aggregate a" "pa_currency a = c" by blast+
    from payable_balance [OF this, of st P] show "?f a = (if is_payable a \<and> R a then counted_balance c a else 0)"
      by (auto split: if_splits)
  qed
  finally show ?thesis by (simp add: balance_where_def)
qed

text \<open>What the dashboard says of the payables, figure by figure.\<close>

lemma dashboard_payables:
  assumes "one_currency_book c st" "dashboard now1 now2 now3 st from to = Inr D"
  shows "units (db_overduePayable D) =
      balance_where (\<lambda>a. is_payable a \<and> dueStateOf a now3 = overdue) c (map snd (buildAggregateMap st))"
    and "units (db_upcomingPayable D) =
      balance_where (\<lambda>a. is_payable a \<and> dueStateOf a now3 = upcoming) c (map snd (buildAggregateMap st))"
    and "units (db_undatedPayable D) =
      balance_where (\<lambda>a. is_payable a \<and> dueStateOf a now3 = unknown) c (map snd (buildAggregateMap st))"
proof -
  let ?aggs = "findAllPositionAggregates st"
  let ?d = "resolveCurrency (aggregatePeriodCashFlow st from to) ?aggs"
  have aggs: "\<forall>a\<in>set ?aggs. valid_aggregate a \<and> pa_currency a = c"
    using book_aggregates [OF assms(1)] by (simp add: findAllPositionAggregates_def)
  have rows: "\<forall>r\<in>set (aggregatePeriodCashFlow st from to). row_currency r = c"
    using period_rows_range [OF assms(1)] by blast
  have "?d = c \<or> ?aggs = []"
    using rows aggs by (auto simp: resolveCurrency_def split: list.splits)
  then have bal: "balance_where Q ?d ?aggs = balance_where Q c (map snd (buildAggregateMap st))" for Q
  proof -
    have "balance_where Q ?d ?aggs = balance_where Q c ?aggs"
      using \<open>?d = c \<or> ?aggs = []\<close> by (auto simp: balance_where_def)
    then show ?thesis by (simp add: findAllPositionAggregates_def)
  qed
  have u: "fromUnits u d = Inr m \<Longrightarrow> units m = u" for u d m
    by (auto simp: fromUnits_def new_Money_def split: if_splits)
  from assms(2) show "units (db_overduePayable D) =
      balance_where (\<lambda>a. is_payable a \<and> dueStateOf a now3 = overdue) c (map snd (buildAggregateMap st))"
    "units (db_upcomingPayable D) =
      balance_where (\<lambda>a. is_payable a \<and> dueStateOf a now3 = upcoming) c (map snd (buildAggregateMap st))"
    "units (db_undatedPayable D) =
      balance_where (\<lambda>a. is_payable a \<and> dueStateOf a now3 = unknown) c (map snd (buildAggregateMap st))"
    unfolding dashboard_def Let_def ebind_Inr capital_sums bal by (auto dest!: u)
qed

lemma due_states:
  assumes "\<And>t. date_parse P (iso_string P t) = Some t"
  shows "tp_dueAt (row_of P st a) \<noteq> None \<and> due_before P (row_of P st a) now \<longleftrightarrow> dueStateOf a now = overdue"
    and "tp_dueAt (row_of P st a) \<noteq> None \<and> \<not> due_before P (row_of P st a) now \<longleftrightarrow> dueStateOf a now = upcoming"
    and "tp_dueAt (row_of P st a) = None \<longleftrightarrow> dueStateOf a now = unknown"
  using assms by (auto simp: row_fields due_before_def dueStateOf_def split: option.splits)

text \<open>
  The payables that are owed: the positions of a payable kind that nothing reversed and that have an
  open balance.
\<close>

definition owed :: "PositionAggregate \<Rightarrow> bool" where
  "owed agg \<longleftrightarrow> is_payable agg \<and> \<not> pa_hasReversal agg \<and>
     (case openBalanceUnitsOf agg of None \<Rightarrow> False | Some b \<Rightarrow> 0 < b)"

lemma owed_listed:
  assumes "valid_aggregate agg"
  shows "selected st payable_options agg \<and> outstanding_item (row_of P st agg) \<longleftrightarrow> owed agg"
proof (cases "openBalanceUnitsOf agg")
  case None
  then show ?thesis by (simp add: outstanding_row owed_def)
next
  case (Some b)
  with openBalance_nonneg have b: "0 \<le> b" by blast
  have sel: "selected st payable_options agg \<longleftrightarrow>
      is_payable agg \<and> (derivePositionStatus agg = open_position \<or> derivePositionStatus agg = partially_settled)"
    by (auto simp: selected_def payable_options_def is_payable_def USINA_PAYABLE_OBJECT_TYPES_def)
  have "pa_hasReversal agg \<Longrightarrow> derivePositionStatus agg = reversed"
    by (simp add: derivePositionStatus_def)
  moreover have "derivePositionStatus agg = open_position \<or> derivePositionStatus agg = partially_settled"
    if "\<not> pa_hasReversal agg" "b \<noteq> 0"
    using Some that assms
    by (auto simp: derivePositionStatus_def openBalanceUnitsOf_def Let_def valid_aggregate_def split: if_splits)
  ultimately show ?thesis using Some b by (auto simp: sel outstanding_row owed_def)
qed

lemma listed_rows:
  assumes "one_currency_book c st" "\<And>agg. Q (row_of P st agg) \<longleftrightarrow> R agg"
  shows "mset (filter Q (filter outstanding_item (map (row_of P st) (sorted_positions P st payable_options))))
    = mset (map (row_of P st) (filter (\<lambda>a. owed a \<and> R a) (findAllPositionAggregates st)))"
proof -
  let ?aggs = "map snd (buildAggregateMap st)"
  let ?sorted = "sort_by (position_compare P (pq_sortBy payable_options) (pq_sortOrder payable_options)) ?aggs"
  have "filter Q (filter outstanding_item (map (row_of P st) (filter p xs)))
      = map (row_of P st) (filter (\<lambda>a. (p a \<and> outstanding_item (row_of P st a)) \<and> R a) xs)" for p xs
    by (induction xs) (simp_all add: assms(2))
  then have "filter Q (filter outstanding_item (map (row_of P st) (sorted_positions P st payable_options)))
      = map (row_of P st) (filter (\<lambda>a. (selected st payable_options a \<and> outstanding_item (row_of P st a)) \<and> R a) ?sorted)"
    by (simp only: sorted_positions_def)
  also have "\<dots> = map (row_of P st) (filter (\<lambda>a. owed a \<and> R a) ?sorted)"
    using book_aggregates [OF assms(1)] owed_listed
    by (intro arg_cong [where f = "map _"] filter_cong refl) (auto simp: set_sort)
  finally show ?thesis by (simp add: findAllPositionAggregates_def)
qed

definition listed_total :: "PositionItem list \<Rightarrow> int" where
  "listed_total ps = sum_list (map item_units ps)"

lemma payable_lists_sums:
  assumes book: "one_currency_book c (bk_events B)" and token: "sv_serviceToken C \<noteq> []"
    and dates: "\<And>t. date_parse (sv_platform C) (iso_string (sv_platform C) t) = Some t"
    and lists: "list_payable_positions (sv_platform C) asOf (answering C now B) = Some L"
    and whole: "\<not> ppr_truncated L"
    and dash: "dashboard now1 now2 asOf (bk_events B) from to = Inr D"
  shows "listed_total (ppr_overdue L) = units (db_overduePayable D)"
    and "listed_total (ppr_upcoming L) = units (db_upcomingPayable D)"
    and "listed_total (ppr_undated L) = units (db_undatedPayable D)"
    and "mset (ppr_overdue L) = mset (map (row_of (sv_platform C) (bk_events B))
      (filter (\<lambda>a. owed a \<and> dueStateOf a asOf = overdue) (findAllPositionAggregates (bk_events B))))"
    and "mset (ppr_upcoming L) = mset (map (row_of (sv_platform C) (bk_events B))
      (filter (\<lambda>a. owed a \<and> dueStateOf a asOf = upcoming) (findAllPositionAggregates (bk_events B))))"
    and "mset (ppr_undated L) = mset (map (row_of (sv_platform C) (bk_events B))
      (filter (\<lambda>a. owed a \<and> dueStateOf a asOf = unknown) (findAllPositionAggregates (bk_events B))))"
proof -
  let ?P = "sv_platform C" and ?st = "bk_events B"
  let ?all = "sorted_positions ?P ?st payable_options"
  from lists payable_rows [OF book token] have L: "L = split_payables ?P asOf (map (row_of ?P ?st) (take 200 ?all))"
    by simp
  with whole have "length ?all < 200"
    by (simp add: split_payables_def Let_def PER_QUERY_LIMIT_def)
  with L have L: "L = split_payables ?P asOf (map (row_of ?P ?st) ?all)" by simp
  note sums = dashboard_payables [OF book dash]
  show "listed_total (ppr_overdue L) = units (db_overduePayable D)"
    unfolding sums by (simp only: L split_payables_def Let_def PayablePositions.select_convs listed_total_def sum_sort)
      (rule listed_units, rule book, rule due_states(1), rule dates)
  show "listed_total (ppr_upcoming L) = units (db_upcomingPayable D)"
    unfolding sums by (simp only: L split_payables_def Let_def PayablePositions.select_convs listed_total_def sum_sort)
      (rule listed_units, rule book, rule due_states(2), rule dates)
  show "listed_total (ppr_undated L) = units (db_undatedPayable D)"
    unfolding sums by (simp only: L split_payables_def Let_def PayablePositions.select_convs listed_total_def)
      (rule listed_units, rule book, rule due_states(3), rule dates)
  show "mset (ppr_overdue L) = mset (map (row_of ?P ?st)
      (filter (\<lambda>a. owed a \<and> dueStateOf a asOf = overdue) (findAllPositionAggregates ?st)))"
    by (simp only: L split_payables_def Let_def PayablePositions.select_convs mset_sort_by)
      (rule listed_rows, rule book, rule due_states(1), rule dates)
  show "mset (ppr_upcoming L) = mset (map (row_of ?P ?st)
      (filter (\<lambda>a. owed a \<and> dueStateOf a asOf = upcoming) (findAllPositionAggregates ?st)))"
    by (simp only: L split_payables_def Let_def PayablePositions.select_convs mset_sort_by)
      (rule listed_rows, rule book, rule due_states(2), rule dates)
  show "mset (ppr_undated L) = mset (map (row_of ?P ?st)
      (filter (\<lambda>a. owed a \<and> dueStateOf a asOf = unknown) (findAllPositionAggregates ?st)))"
    by (simp only: L split_payables_def Let_def PayablePositions.select_convs)
      (rule listed_rows, rule book, rule due_states(3), rule dates)
qed

end
