(* ===== verification/Position_Actions.thy ===== *)
theory Position_Actions
  imports Treasury_Screens Ledger_Algebra
begin

text \<open>
  What the treasury offers to record about a position: the ledger exports its tables as a snapshot
  (\<open>export-algebra.ts\<close>), the treasury turns the snapshot round (\<open>LedgerAlgebra.ts\<close>) and offers what the
  tables admit and its own mappings can produce (\<open>ListPositionActions.ts\<close>). An object with string keys
  is an association list in the order of its keys.
\<close>

section \<open>The exported tables\<close>

record AlgebraContract =
  ac_economicEffects :: "string list"
  ac_objects :: "(string \<times> string list) list"
  ac_reasons :: "string list"
  ac_minConfidence :: "string option"
  ac_requiresPreviousHash :: bool
  ac_requiresRelatedEventId :: bool
  ac_allowedOriginTypes :: "string list"

record LedgerAlgebraSnapshot =
  las_version :: int
  las_objectNature :: "(string \<times> string) list"
  las_objectRelations :: "(string \<times> string list) list"
  las_effectRelations :: "(string \<times> string list) list"
  las_reasonEffects :: "(string \<times> string list) list"
  las_reasonRelations :: "(string \<times> string list) list"
  las_contracts :: "(string \<times> AlgebraContract) list"

definition ALGEBRA_SNAPSHOT_VERSION :: int where "ALGEBRA_SNAPSHOT_VERSION = 1"

definition sortedMap ::
  "('k \<Rightarrow> string) \<Rightarrow> 'k list \<Rightarrow> ('k \<Rightarrow> string list option) \<Rightarrow> (string \<times> string list) list" where
  "sortedMap key keys source =
     concat (map (\<lambda>(s, v). case v of None \<Rightarrow> [] | Some xs \<Rightarrow> [(s, xs)])
       (sort_key fst (map (\<lambda>k. (key k, source k)) keys)))"

definition export_contract :: "EventSemanticContract \<Rightarrow> AlgebraContract" where
  "export_contract c =
     \<lparr>ac_economicEffects = map economicEffect_value (economicEffects c),
      ac_objects = map (\<lambda>ob. (objectType_value (co_objectType ob), map relation_value (co_relations ob))) (contractObjects c),
      ac_reasons = (case reasons c of None \<Rightarrow> [] | Some rs \<Rightarrow> map reasonType_value rs),
      ac_minConfidence = map_option confidenceLevel_value (minConfidence c),
      ac_requiresPreviousHash = requiresPreviousHash c,
      ac_requiresRelatedEventId = requiresRelatedEventId c,
      ac_allowedOriginTypes = (case allowedOriginTypes c of None \<Rightarrow> [] | Some ts \<Rightarrow> map eventType_value ts)\<rparr>"

definition buildAlgebraSnapshot :: LedgerAlgebraSnapshot where
  "buildAlgebraSnapshot =
     \<lparr>las_version = ALGEBRA_SNAPSHOT_VERSION,
      las_objectNature = sort_key fst (map (\<lambda>t. (objectType_value t, objectNature_value (OBJECT_NATURE_MATRIX t)))
        objectType_values),
      las_objectRelations = sortedMap objectType_value objectType_values
        (\<lambda>t. map_option (map relation_value) (OBJECT_RELATION_MATRIX t)),
      las_effectRelations = sortedMap economicEffect_value economicEffect_values
        (\<lambda>t. Some (map relation_value (ECONOMIC_EFFECT_RELATION_MATRIX t))),
      las_reasonEffects = sortedMap reasonType_value reasonType_values
        (\<lambda>t. map_option (map economicEffect_value) (REASON_EFFECT_MATRIX t)),
      las_reasonRelations = sortedMap reasonType_value reasonType_values
        (\<lambda>t. map_option (map relation_value) (REASON_RELATION_MATRIX t)),
      las_contracts = map (\<lambda>(s, t). (s, export_contract (EVENT_CONTRACTS t)))
        (sort_key fst (map (\<lambda>t. (eventType_value t, t)) eventType_values))\<rparr>"

section \<open>The tables read backwards\<close>

type_synonym action_index = "(string \<times> (string \<times> string) list) list"

definition index_object :: "string \<Rightarrow> string \<times> string list \<Rightarrow> action_index \<Rightarrow> action_index" where
  "index_object eventType = (\<lambda>(objectType, relations) ix.
     AList.update objectType
       ((case map_of ix objectType of None \<Rightarrow> [] | Some as \<Rightarrow> as) @ map (Pair eventType) relations) ix)"

definition index_contracts :: "(string \<times> AlgebraContract) list \<Rightarrow> action_index" where
  "index_contracts contracts = fold (\<lambda>(eventType, c). fold (index_object eventType) (ac_objects c)) contracts []"

text \<open>The constructor refuses a snapshot of another version.\<close>

definition SUPPORTED_SNAPSHOT_VERSION :: int where "SUPPORTED_SNAPSHOT_VERSION = 1"

record LedgerAlgebra =
  la_snapshot :: LedgerAlgebraSnapshot
  la_byObjectType :: action_index

definition new_LedgerAlgebra :: "LedgerAlgebraSnapshot \<Rightarrow> LedgerAlgebra option" where
  "new_LedgerAlgebra s =
     (if las_version s \<noteq> SUPPORTED_SNAPSHOT_VERSION then None
      else Some \<lparr>la_snapshot = s, la_byObjectType = index_contracts (las_contracts s)\<rparr>)"

definition admissibleFor :: "LedgerAlgebra \<Rightarrow> string \<Rightarrow> (string \<times> string) list" where
  "admissibleFor L objectType = (case map_of (la_byObjectType L) objectType of None \<Rightarrow> [] | Some as \<Rightarrow> as)"

definition algebra_knows :: "LedgerAlgebra \<Rightarrow> string \<Rightarrow> bool" where
  "algebra_knows L objectType \<longleftrightarrow> objectType \<in> set (map fst (las_objectNature (la_snapshot L)))"

definition algebra_isPositional :: "LedgerAlgebra \<Rightarrow> string \<Rightarrow> bool" where
  "algebra_isPositional L objectType \<longleftrightarrow> map_of (las_objectNature (la_snapshot L)) objectType = Some ''positional''"

section \<open>The offer\<close>

record PositionAction =
  pac_scenarioId :: string
  pac_eventType :: string
  pac_relation :: string
  pac_variantChoice :: "string option"
  pac_touchesOtherPositions :: bool
  pac_likely :: bool

record PositionActions =
  pas_objectId :: string
  pas_objectType :: string
  pas_known :: bool
  pas_actions :: "PositionAction list"

definition isLikely :: "string \<Rightarrow> bool \<Rightarrow> bool \<Rightarrow> bool" where
  "isLikely relation hasOutstanding nothingOriginated =
     (if relation = ''settles'' \<or> relation = ''adjusts'' then hasOutstanding
      else if relation = ''originates'' then nothingOriginated
      else False)"

definition action_of :: "PositionLifecycle \<Rightarrow> ProducibleTuple \<Rightarrow> PositionAction" where
  "action_of p t =
     \<lparr>pac_scenarioId = ptu_scenarioId t, pac_eventType = ptu_eventType t, pac_relation = ptu_relation t,
      pac_variantChoice = (if truthy (ptu_variantChoice t) then ptu_variantChoice t else None),
      pac_touchesOtherPositions = ptu_touchesOtherPositions t,
      pac_likely = isLikely (ptu_relation t)
        (case plc_openBalance p of None \<Rightarrow> False | Some b \<Rightarrow> \<not> not_positive b)
        (not_positive (plc_totalOriginated p))\<rparr>"

definition action_order :: "(string \<Rightarrow> string \<Rightarrow> int) \<Rightarrow> PositionAction \<Rightarrow> PositionAction \<Rightarrow> int" where
  "action_order compare a b =
     (if pac_likely a = pac_likely b then compare (pac_scenarioId a) (pac_scenarioId b)
      else if pac_likely a then -1 else 1)"

definition offered :: "LedgerAlgebra \<Rightarrow> string \<Rightarrow> ProducibleTuple list" where
  "offered L objectType =
     filter (\<lambda>t. ptu_objectType t = objectType
               \<and> (ptu_eventType t, ptu_relation t) \<in> set (admissibleFor L objectType)) producibleTuples"

definition list_position_actions ::
  "(string \<Rightarrow> string \<Rightarrow> int) \<Rightarrow> LedgerAlgebra \<Rightarrow> ledger_api \<Rightarrow> string \<Rightarrow> PositionActions option answer" where
  "list_position_actions compare L A oid =
     ebind (read_lifecycle A oid) (\<lambda>found.
     Inr (map_option (\<lambda>p.
       \<lparr>pas_objectId = oid, pas_objectType = plc_objectType p, pas_known = algebra_knows L (plc_objectType p),
        pas_actions = sort_by (action_order compare) (map (action_of p) (offered L (plc_objectType p)))\<rparr>) found))"

section \<open>The index holds what the contracts list\<close>

lemma index_object_lookup:
  "map_of (index_object t x ix) o' =
     (if o' = fst x then Some ((case map_of ix o' of None \<Rightarrow> [] | Some as \<Rightarrow> as) @ map (Pair t) (snd x))
      else map_of ix o')"
  by (cases x) (simp add: index_object_def map_of_update split: option.splits)

definition index_at :: "action_index \<Rightarrow> string \<Rightarrow> (string \<times> string) list" where
  "index_at ix objectType = (case map_of ix objectType of None \<Rightarrow> [] | Some as \<Rightarrow> as)"

lemma index_objects_at:
  "set (index_at (fold (index_object t) xs ix) b) =
     set (index_at ix b) \<union> {(t, r) | r. \<exists>x\<in>set xs. fst x = b \<and> r \<in> set (snd x)}"
proof (induction xs arbitrary: ix)
  case Nil
  then show ?case by simp
next
  case (Cons x xs)
  have "set (index_at (index_object t x ix) b) =
      set (index_at ix b) \<union> {(t, r) | r. fst x = b \<and> r \<in> set (snd x)}"
    by (auto simp: index_at_def index_object_lookup)
  with Cons.IH [of "index_object t x ix"] show ?case by auto
qed

lemma index_fold_at:
  "set (index_at (fold (\<lambda>(eventType, c). fold (index_object eventType) (ac_objects c)) cs ix) b) =
     set (index_at ix b) \<union> {(t, r). \<exists>c. (t, c) \<in> set cs \<and> (\<exists>x\<in>set (ac_objects c). fst x = b \<and> r \<in> set (snd x))}"
proof (induction cs arbitrary: ix)
  case Nil
  then show ?case by simp
next
  case (Cons tc cs)
  obtain t c where tc: "tc = (t, c)" by fastforce
  show ?case
    using Cons.IH [of "fold (index_object t) (ac_objects c) ix"]
    by (auto simp: tc index_objects_at)
qed

lemma admissibleFor_contracts:
  assumes "new_LedgerAlgebra s = Some L"
  shows "(t, r) \<in> set (admissibleFor L b) \<longleftrightarrow>
    (\<exists>c. (t, c) \<in> set (las_contracts s) \<and> (\<exists>x\<in>set (ac_objects c). fst x = b \<and> r \<in> set (snd x)))"
proof -
  have L: "admissibleFor L b = index_at (fold (\<lambda>(eventType, c). fold (index_object eventType) (ac_objects c)) (las_contracts s) []) b"
    using assms by (auto simp: new_LedgerAlgebra_def admissibleFor_def index_at_def index_contracts_def split: if_splits)
  show ?thesis unfolding L index_fold_at by (simp add: index_at_def)
qed

text \<open>Over the ledger's own tables the index answers what the contracts say.\<close>

definition ledger_algebra :: LedgerAlgebra where
  "ledger_algebra =
     \<lparr>la_snapshot = buildAlgebraSnapshot, la_byObjectType = index_contracts (las_contracts buildAlgebraSnapshot)\<rparr>"

lemma ledger_algebra_read: "new_LedgerAlgebra buildAlgebraSnapshot = Some ledger_algebra"
  by (simp add: new_LedgerAlgebra_def ledger_algebra_def buildAlgebraSnapshot_def
      ALGEBRA_SNAPSHOT_VERSION_def SUPPORTED_SNAPSHOT_VERSION_def)

lemma exported_contract:
  "(eventType_value t, c) \<in> set (las_contracts buildAlgebraSnapshot) \<longleftrightarrow> c = export_contract (EVENT_CONTRACTS t)"
proof -
  have "set (las_contracts buildAlgebraSnapshot) =
      (\<lambda>t. (eventType_value t, export_contract (EVENT_CONTRACTS t))) ` set eventType_values"
    by (simp add: buildAlgebraSnapshot_def image_image)
  then show ?thesis by (auto simp: eventType_values_complete eventType.value_inject)
qed

lemma admissible_contract:
  "(eventType_value t, relation_value r) \<in> set (admissibleFor ledger_algebra (objectType_value b))
    \<longleftrightarrow> (b, r) \<in> set (contract_pairs t)"
  unfolding admissibleFor_contracts [OF ledger_algebra_read] exported_contract
  by (fastforce simp: export_contract_def contract_pairs_def objectType.value_inject relation.value_inject)

section \<open>What is offered can be recorded\<close>

definition tuple_recordable :: "ProducibleTuple \<Rightarrow> bool" where
  "tuple_recordable t =
     (case (eventType_of (ptu_eventType t), objectType_of (ptu_objectType t), relation_of (ptu_relation t)) of
        (Some ty, Some b, Some r) \<Rightarrow> pair_recordable ty b r | _ \<Rightarrow> False)"

lemma producible_recordable: "list_all tuple_recordable producibleTuples"
  by code_simp

lemma tuple_recordable_iff:
  "tuple_recordable t \<longleftrightarrow> (\<exists>ty b r. ptu_eventType t = eventType_value ty \<and> ptu_objectType t = objectType_value b
     \<and> ptu_relation t = relation_value r \<and> pair_recordable ty b r)"
  by (fastforce simp: tuple_recordable_def eventType.read_Some objectType.read_Some relation.read_Some split: option.splits)

lemma recordable_listed: "pair_recordable ty b r \<Longrightarrow> (b, r) \<in> set (contract_pairs ty)"
  by (fastforce simp: pair_recordable_def tuple_admissible_def contract_entry_def contract_pairs_def list_ex_iff
      find_Some_iff split: option.splits)

text \<open>Over the ledger's tables the filter drops nothing the treasury can produce.\<close>

lemma offered_all: "offered ledger_algebra b = filter (\<lambda>t. ptu_objectType t = b) producibleTuples"
  unfolding offered_def
proof (rule filter_cong [OF refl])
  fix t assume "t \<in> set producibleTuples"
  with producible_recordable have "tuple_recordable t" by (simp add: list_all_iff)
  then obtain ty o' r where t: "ptu_eventType t = eventType_value ty" "ptu_objectType t = objectType_value o'"
      "ptu_relation t = relation_value r" "pair_recordable ty o' r"
    unfolding tuple_recordable_iff by blast
  with recordable_listed show "(ptu_objectType t = b \<and> (ptu_eventType t, ptu_relation t) \<in> set (admissibleFor ledger_algebra b))
      = (ptu_objectType t = b)"
    by (auto simp: admissible_contract)
qed

section \<open>The likely ones come first\<close>

definition likely_before :: "PositionAction \<Rightarrow> PositionAction \<Rightarrow> bool" where
  "likely_before a b \<longleftrightarrow> (pac_likely b \<longrightarrow> pac_likely a)"

lemma insort_likely:
  "sorted_wrt likely_before ys \<Longrightarrow> sorted_wrt likely_before (insort_by (action_order compare) x ys)"
proof (induction ys)
  case Nil
  then show ?case by simp
next
  case (Cons y ys)
  have members: "set (insort_by cmp x zs) = insert x (set zs)" for cmp and zs :: "PositionAction list"
    using mset_insort_by [of cmp x zs] by (metis set_mset_add_mset_insert set_mset_mset)
  show ?case
    using Cons by (auto simp: members likely_before_def action_order_def split: if_splits)
qed

lemma sort_likely: "sorted_wrt likely_before (sort_by (action_order compare) xs)"
  unfolding sort_by_def by (induction xs) (simp_all add: insort_likely)

lemma actions_offered:
  assumes "list_position_actions compare ledger_algebra A oid = Inr (Some R)"
  obtains p where "read_lifecycle A oid = Inr (Some p)" "pas_objectType R = plc_objectType p"
    "mset (pas_actions R) = mset (map (action_of p) (filter (\<lambda>t. ptu_objectType t = pas_objectType R) producibleTuples))"
    "sorted_wrt likely_before (pas_actions R)"
proof -
  from assms obtain p where p: "read_lifecycle A oid = Inr (Some p)" and R: "R =
      \<lparr>pas_objectId = oid, pas_objectType = plc_objectType p, pas_known = algebra_knows ledger_algebra (plc_objectType p),
       pas_actions = sort_by (action_order compare) (map (action_of p) (offered ledger_algebra (plc_objectType p)))\<rparr>"
    by (auto simp: list_position_actions_def ebind_Inr)
  show ?thesis by (rule that [OF p]) (simp_all add: R offered_all sort_likely)
qed

end
