(* ===== verification/Treasury_Overview.thy ===== *)
theory Treasury_Overview
  imports Treasury_Screens Party_Upkeep
begin

text \<open>
  The overview screen (\<open>GetTreasuryDashboard.ts\<close> with \<open>classificationHealth.ts\<close>) and the harvest of party
  identifiers from the ledger (\<open>LedgerPartySweepSource.ts\<close>, \<open>run-seed.ts\<close>). The share of uncategorized
  positions is rounded exactly; the doubles of the code can fall on the other side of an exact half.
\<close>

section \<open>Uncategorized positions\<close>

definition UNCATEGORIZED_OBJECT_TYPE :: string where "UNCATEGORIZED_OBJECT_TYPE = ''payable''"
definition AGING_FRESH_MAX_DAYS :: int where "AGING_FRESH_MAX_DAYS = 30"
definition AGING_RECENT_MAX_DAYS :: int where "AGING_RECENT_MAX_DAYS = 90"

record ClassificationHealth =
  clh_uncategorizedCount :: int
  clh_scannedCount :: int
  clh_totalPositions :: int
  clh_sharePercent :: int
  clh_fresh :: int
  clh_recent :: int
  clh_stale :: int
  clh_oldestDays :: "int option"

definition ageInDays :: "platform \<Rightarrow> string option \<Rightarrow> instant \<Rightarrow> int option" where
  "ageInDays P stamp now =
     (if \<not> truthy stamp then None
      else map_option (\<lambda>t. let days = (now - t) div DAY_MS in if days < 0 then 0 else days) (date_parse P (the stamp)))"

definition share_percent :: "int \<Rightarrow> int \<Rightarrow> int" where
  "share_percent part whole = (if 0 < whole then (200 * part + whole) div (2 * whole) else 0)"

definition age_step :: "platform \<Rightarrow> instant \<Rightarrow> PositionItem \<Rightarrow> ClassificationHealth \<Rightarrow> ClassificationHealth" where
  "age_step P now p H =
     (case ageInDays P (tp_lastEventAt p) now of
        None \<Rightarrow> H
      | Some age \<Rightarrow>
          (let H1 = H\<lparr>clh_oldestDays := Some (case clh_oldestDays H of None \<Rightarrow> age | Some d \<Rightarrow> if age > d then age else d)\<rparr>
           in if age \<le> AGING_FRESH_MAX_DAYS then H1\<lparr>clh_fresh := clh_fresh H1 + 1\<rparr>
              else if age \<le> AGING_RECENT_MAX_DAYS then H1\<lparr>clh_recent := clh_recent H1 + 1\<rparr>
              else H1\<lparr>clh_stale := clh_stale H1 + 1\<rparr>))"

definition computeClassificationHealth ::
  "platform \<Rightarrow> PositionItem list \<Rightarrow> int \<Rightarrow> instant \<Rightarrow> ClassificationHealth" where
  "computeClassificationHealth P rows totalPositions now =
     (let uncategorized = filter (\<lambda>p. tp_objectType p = UNCATEGORIZED_OBJECT_TYPE) rows
      in fold (age_step P now) uncategorized
           \<lparr>clh_uncategorizedCount = int (length uncategorized), clh_scannedCount = int (length rows),
            clh_totalPositions = totalPositions,
            clh_sharePercent = share_percent (int (length uncategorized)) totalPositions,
            clh_fresh = 0, clh_recent = 0, clh_stale = 0, clh_oldestDays = None\<rparr>)"

section \<open>The overview\<close>

definition HEALTH_SCAN_LIMIT :: int where "HEALTH_SCAN_LIMIT = 500"
definition DISPLAY_POSITIONS :: int where "DISPLAY_POSITIONS = 8"

record TreasuryDashboardInput =
  tdi_from :: "string option"
  tdi_to :: "string option"
  tdi_effect :: "string option"
  tdi_perPage :: "int option"
  tdi_page :: "int option"
  tdi_movementsPage :: "int option"
  tdi_status :: "string list"
  tdi_objectType :: "string list"

record DashboardPaging =
  dpg_total :: int
  dpg_page :: int
  dpg_limit :: int
  dpg_totalPages :: int

record TreasuryDashboard =
  tdb_cashPosition :: PublishedCashPosition
  tdb_movements :: "PublishedMovement list"
  tdb_positions :: "PositionItem list"
  tdb_positionsPage :: DashboardPaging
  tdb_movementsCursor :: "string option"
  tdb_movementsHasMore :: bool
  tdb_movementsPaging :: "DashboardPaging option"
  tdb_classificationHealth :: ClassificationHealth
  tdb_partyNames :: "(string \<times> string) list"

definition clampSlice :: "int option \<Rightarrow> int" where
  "clampSlice perPage = clamp DISPLAY_POSITIONS perPage"

definition servedByScan :: "TreasuryDashboardInput \<Rightarrow> int \<Rightarrow> int \<Rightarrow> bool" where
  "servedByScan input perPage page \<longleftrightarrow>
     page = 1 \<and> perPage \<le> HEALTH_SCAN_LIMIT \<and> \<not> truthy (tdi_from input) \<and> \<not> truthy (tdi_to input)
     \<and> tdi_status input = [] \<and> tdi_objectType input = []"

definition counterparties :: "PublishedMovement list \<Rightarrow> string list" where
  "counterparties ms =
     concat (map (\<lambda>m. (case pm_counterparty m of None \<Rightarrow> [] | Some i \<Rightarrow> [i]) @ map pp_partyId (pm_parties m)) ms)"

definition positions_slice ::
  "ledger_api \<Rightarrow> TreasuryDashboardInput \<Rightarrow> PositionItem Page \<Rightarrow> int \<Rightarrow> int \<Rightarrow> PositionItem Page answer" where
  "positions_slice A input whole perPage page =
     (if servedByScan input perPage page
      then Inr \<lparr>pg_data = take (nat perPage) (pg_data whole), pg_total = pg_total whole, pg_page = 1,
                pg_limit = perPage, pg_totalPages = max 1 (- ((- pg_total whole) div perPage))\<rparr>
      else read_positions A (all_positions\<lparr>qp_page := Some page, qp_limit := Some perPage,
             qp_status := tdi_status input, qp_objectType := tdi_objectType input,
             qp_from := tdi_from input, qp_to := tdi_to input\<rparr>))"

definition get_treasury_dashboard ::
  "platform \<Rightarrow> string \<Rightarrow> party_store \<Rightarrow> instant \<Rightarrow> ledger_api \<Rightarrow> TreasuryDashboardInput \<Rightarrow> TreasuryDashboard option" where
  "get_treasury_dashboard P usina ps now A input =
     (let perPage = clampSlice (tdi_perPage input);
          page = (case positive_page (tdi_page input) of None \<Rightarrow> 1 | Some n \<Rightarrow> n)
      in unavailable_or
        (ebind (api_cash_position A) (\<lambda>cash.
         ebind (read_cash_movements A (all_movements\<lparr>qm_partyId := Some usina, qm_effect := tdi_effect input,
                  qm_from := tdi_from input, qm_to := tdi_to input, qm_limit := Some perPage,
                  qm_page := positive_page (tdi_movementsPage input)\<rparr>)) (\<lambda>movements.
         ebind (read_positions A (all_positions\<lparr>qp_limit := Some HEALTH_SCAN_LIMIT\<rparr>)) (\<lambda>whole.
         ebind (positions_slice A input whole perPage page) (\<lambda>slice.
         Inr \<lparr>tdb_cashPosition = cash, tdb_movements = pmp_items movements, tdb_positions = pg_data slice,
              tdb_positionsPage = \<lparr>dpg_total = pg_total slice, dpg_page = pg_page slice, dpg_limit = pg_limit slice,
                dpg_totalPages = pg_totalPages slice\<rparr>,
              tdb_movementsCursor = pmp_nextCursor movements, tdb_movementsHasMore = pmp_hasMore movements,
              tdb_movementsPaging = map_option (\<lambda>total. \<lparr>dpg_total = total,
                dpg_page = or_else (pmp_page movements) 1, dpg_limit = perPage,
                dpg_totalPages = or_else (pmp_totalPages movements) 1\<rparr>) (pmp_total movements),
              tdb_classificationHealth = computeClassificationHealth P (pg_data whole) (pg_total whole) now,
              tdb_partyNames = name_parties ps (counterparties (pmp_items movements))\<rparr>))))))"

section \<open>Harvesting party identifiers\<close>

definition SWEEP_LIMIT :: int where "SWEEP_LIMIT = 500"

definition plain_seed :: "string \<Rightarrow> PartySeed" where
  "plain_seed i = \<lparr>seed_partyId = i, seed_displayName = i, seed_aliases = [], seed_document = None, seed_externalIds = [],
     seed_type = None\<rparr>"

definition harvest :: "string \<Rightarrow> PublishedMovement list \<Rightarrow> PartySeed list" where
  "harvest usina ms =
     map plain_seed (fold (\<lambda>m is. case map_option trim (pm_counterparty m) of
         None \<Rightarrow> is | Some i \<Rightarrow> if i = [] then is else set_add i is) ms [usina])"

definition sweep_fetch :: "ledger_api \<Rightarrow> string \<Rightarrow> int \<Rightarrow> PartySeed list answer" where
  "sweep_fetch A usina limit =
     ebind (read_cash_movements A (all_movements\<lparr>qm_partyId := Some usina, qm_limit := Some limit\<rparr>)) (\<lambda>page.
     Inr (harvest usina (pmp_items page)))"

text \<open>\<open>run-seed.ts\<close> against a live ledger: the adapter is built without a service token.\<close>

definition seed_from_live_ledger :: "server_config \<Rightarrow> instant \<Rightarrow> ledger_books \<Rightarrow> string \<Rightarrow> PartySeed list answer" where
  "seed_from_live_ledger C now B usina = sweep_fetch (createServer C (auth_header []) now B) usina SWEEP_LIMIT"

lemma seeding_refused: "seed_from_live_ledger C now B usina = Inl (if sv_serviceToken C = [] then 503 else 401)"
  by (simp add: seed_from_live_ledger_def sweep_fetch_def read_cash_movements_def createServer_def Let_def
      auth_header_def requireServiceToken_def bearer_def)

lemma sweep_refused:
  "sweep_fetch (answering C now B) usina SWEEP_LIMIT = Inl (if sv_serviceToken C = [] then 503 else 400)"
proof -
  have "number (movements_request (all_movements\<lparr>qm_partyId := Some usina, qm_limit := Some SWEEP_LIMIT\<rparr>)) ''limit'' = Some 500"
  proof -
    have "parseInt (bigint_string 500) = Some 500" by code_simp
    then show ?thesis
      by (simp add: number_def one_def movements_request_def limit_param_def all_movements_def SWEEP_LIMIT_def)
  qed
  then have "cash_movements_route (sv_platform C) (sv_codec C) (bk_events B)
      (movements_request (all_movements\<lparr>qm_partyId := Some usina, qm_limit := Some SWEEP_LIMIT\<rparr>)) = Inl 400"
    by (simp add: cash_movements_route_def Let_def refuse_if_def MOVEMENT_MAX_LIMIT_def)
  then show ?thesis
    by (simp add: sweep_fetch_def read_cash_movements_def answering_def createServer_def Let_def
        gate_opens requireServiceToken_def auth_header_def bearer_def)
qed

text \<open>Repeating a parameter does not keep a value with a comma together: the route still splits it.\<close>

lemma comma_splits: "parseIds [(''partyId'', ''a,b'')] ''partyId'' = Many [''a'', ''b'']"
  by code_simp

end
