(* ===== verification/Position_Snapshot.thy ===== *)
theory Position_Snapshot
  imports Payable_Lists
begin

text \<open>
  The treasury's discardable copy of positions (\<open>PositionSnapshot.ts\<close>) and the sweep that keeps it honest
  against other writers (\<open>SnapshotRefresher.ts\<close>). A sweep that throws changes nothing. The interface
  \<open>answered_book\<close> says what the copy relies on: recording an event changes the answers about the objects
  the event names, and no others.
\<close>

section \<open>The copy\<close>

record SnapshotPosition = PositionItem +
  snp_asOf :: string

type_synonym snapshot = "(string \<times> SnapshotPosition) list"

definition remember :: "string \<Rightarrow> PositionItem list \<Rightarrow> snapshot \<Rightarrow> snapshot" where
  "remember asOf positions snap =
     fold (\<lambda>p. AList.update (tp_objectId p) (PositionItem.extend p (SnapshotPosition.fields asOf))) positions snap"

definition snapshot_get :: "snapshot \<Rightarrow> string \<Rightarrow> SnapshotPosition option" where
  "snapshot_get snap oid = map_of snap oid"

definition invalidate :: "string \<Rightarrow> snapshot \<Rightarrow> snapshot" where
  "invalidate oid snap = filter (\<lambda>(k, _). k \<noteq> oid) snap"

definition invalidateAll :: "string list \<Rightarrow> snapshot \<Rightarrow> snapshot" where
  "invalidateAll oids snap = fold invalidate oids snap"

definition snapshot_size :: "snapshot \<Rightarrow> nat" where
  "snapshot_size snap = length snap"

section \<open>The sweep\<close>

definition SWEEP_PAGE_SIZE :: int where "SWEEP_PAGE_SIZE = 100"
definition SWEEP_MAX_PAGES :: nat where "SWEEP_MAX_PAGES = 20"

record RefreshOutcome =
  ref_invalidated :: "string list"
  ref_gaveUp :: bool

text \<open>One page of the feed: the objects touched before the cursor is met, and whether it was met.\<close>

fun scan_page :: "string option \<Rightarrow> RecordedEvent list \<Rightarrow> string list \<Rightarrow> string list \<times> bool" where
  "scan_page cursor [] touched = (touched, False)"
| "scan_page cursor (e # es) touched =
     (if Some (rev_eventId e) = cursor then (touched, True)
      else scan_page cursor es (fold set_add (rev_objectIds e) touched))"

text \<open>The loop over the pages, with as many left as the bound allows.\<close>

fun walk_feed :: "(int \<Rightarrow> int \<Rightarrow> RecordedEvent list answer) \<Rightarrow> string option \<Rightarrow> nat \<Rightarrow> int \<Rightarrow> string list
    \<Rightarrow> string option \<Rightarrow> (string list \<times> string option \<times> bool) answer" where
  "walk_feed feed cursor 0 page touched newest = Inr (touched, newest, cursor = None)"
| "walk_feed feed cursor (Suc left) page touched newest =
     ebind (feed SWEEP_PAGE_SIZE page) (\<lambda>events.
       case events of
         [] \<Rightarrow> Inr (touched, newest, True)
       | e # _ \<Rightarrow>
           (let newest' = (case newest of None \<Rightarrow> Some (rev_eventId e) | Some i \<Rightarrow> Some i);
                (touched', met) = scan_page cursor events touched
            in if met \<or> cursor = None then Inr (touched', newest', True)
               else walk_feed feed cursor left (page + 1) touched' newest'))"

record refresher =
  rf_cursor :: "string option"
  rf_snapshot :: snapshot

definition refresh :: "(int \<Rightarrow> int \<Rightarrow> RecordedEvent list answer) \<Rightarrow> refresher \<Rightarrow> RefreshOutcome answer \<times> refresher" where
  "refresh feed R =
     (case walk_feed feed (rf_cursor R) SWEEP_MAX_PAGES 1 [] None of
        Inl status \<Rightarrow> (Inl status, R)
      | Inr (touched, newest, reached) \<Rightarrow>
          if rf_cursor R = None then (Inr \<lparr>ref_invalidated = [], ref_gaveUp = False\<rparr>, R\<lparr>rf_cursor := newest\<rparr>)
          else if \<not> reached
          then (Inr \<lparr>ref_invalidated = (if 0 < snapshot_size (rf_snapshot R) then [''*''] else []), ref_gaveUp = True\<rparr>,
                \<lparr>rf_cursor = newest, rf_snapshot = []\<rparr>)
          else (Inr \<lparr>ref_invalidated = touched, ref_gaveUp = False\<rparr>,
                \<lparr>rf_cursor = (case newest of None \<Rightarrow> rf_cursor R | Some i \<Rightarrow> Some i),
                 rf_snapshot = invalidateAll touched (rf_snapshot R)\<rparr>))"

section \<open>What the copy relies on\<close>

locale answered_book =
  fixes answer :: "'book \<Rightarrow> string \<Rightarrow> 'item option"
    and record_event :: "'event \<Rightarrow> 'book \<Rightarrow> 'book"
    and named :: "'event \<Rightarrow> string list"
    and sound :: "'book \<Rightarrow> bool"
  assumes untouched:
    "sound (record_event e b) \<Longrightarrow> oid \<notin> set (named e) \<Longrightarrow> answer (record_event e b) oid = answer b oid"
    and sound_before: "sound (record_event e b) \<Longrightarrow> sound b"
begin

text \<open>What is remembered of an object outside \<open>stale\<close> is what the book answers now.\<close>

definition trusted :: "'book \<Rightarrow> string set \<Rightarrow> (string \<Rightarrow> 'item option) \<Rightarrow> bool" where
  "trusted b stale mem \<longleftrightarrow> (\<forall>oid x. mem oid = Some x \<longrightarrow> oid \<in> stale \<or> answer b oid = Some x)"

lemma trusted_record:
  "trusted b stale mem \<Longrightarrow> sound (record_event e b) \<Longrightarrow> trusted (record_event e b) (stale \<union> set (named e)) mem"
  using untouched by (fastforce simp: trusted_def)

lemma trusted_remember:
  "trusted b stale mem \<Longrightarrow> (\<And>oid x. mem' oid = Some x \<Longrightarrow> mem oid = Some x \<or> answer b oid = Some x) \<Longrightarrow>
   trusted b stale mem'"
  by (fastforce simp: trusted_def)

lemma trusted_forget: "trusted b stale mem \<Longrightarrow> stale \<subseteq> X \<Longrightarrow> trusted b {} (mem |` (- X))"
  by (auto simp: trusted_def restrict_map_def)

end

section \<open>The ledger is such a book\<close>

definition ledger_answer :: "platform \<Rightarrow> store \<Rightarrow> string \<Rightarrow> PositionItem option" where
  "ledger_answer P st oid =
     Option.bind (map_of (buildAggregateMap st) oid) (\<lambda>agg.
       case aggregateToListItem (with_parties st agg) of
         Inl _ \<Rightarrow> None | Inr li \<Rightarrow> Some (position_item (serializePositionListItem P li)))"

definition names_retracted :: "store \<Rightarrow> bool" where
  "names_retracted st \<longleftrightarrow> (\<forall>oid. retractions_name oid st)"

definition objects_named :: "LedgerEvent \<Rightarrow> string list" where
  "objects_named ev = map obj_id (ev_objects ev)"

lemma objects_named_mentions: "oid \<in> set (objects_named ev) \<longleftrightarrow> mentions oid ev"
  by (auto simp: objects_named_def mentions_def list_ex_iff)

lemma parties_walk:
  "partiesOfObject st oid =
     fold (\<lambda>ev parties. fold (\<lambda>q s. set_add (party_id q) s) (ev_parties ev) parties) (filter (mentions oid) (standing st)) []"
proof -
  let ?r = "retractedEventIds st"
  have run: "fold (\<lambda>ev parties. if ev_id ev \<in> set ?r then parties
           else if \<not> list_ex (\<lambda>ob. obj_id ob = oid) (ev_objects ev) then parties
           else fold (\<lambda>q s. set_add (party_id q) s) (ev_parties ev) parties) xs s
    = fold (\<lambda>ev parties. fold (\<lambda>q s. set_add (party_id q) s) (ev_parties ev) parties)
        (filter (mentions oid) (filter (\<lambda>ev. ev_id ev \<notin> set ?r) xs)) s" for xs s
    by (induction xs arbitrary: s) (auto simp: mentions_def)
  show ?thesis unfolding partiesOfObject_def Let_def run standing_filter ..
qed

lemma build_objectId: "map_of (buildAggregateMap st) oid = Some agg \<Longrightarrow> pa_objectId agg = oid"
  using aggregate_of_figures(1) by (fastforce simp: build_lookup)

lemma answer_local:
  assumes "retractions_name oid st" "retractions_name oid st'" "filter (mentions oid) st = filter (mentions oid) st'"
  shows "ledger_answer P st oid = ledger_answer P st' oid"
proof -
  have F: "filter (mentions oid) (standing st) = filter (mentions oid) (standing st')"
    using standing_naming [OF assms(1)] standing_naming [OF assms(2)] assms(3) by (simp add: findByObjectId_def)
  have "mentions_of oid (standing st) = mentions_of oid (filter (mentions oid) (standing st))"
    by (rule mentions_of_naming [symmetric])
  also have "\<dots> = mentions_of oid (standing st')" unfolding F by (rule mentions_of_naming)
  finally have look: "map_of (buildAggregateMap st) oid = map_of (buildAggregateMap st') oid"
    by (simp add: build_lookup aggregate_of_def event_ids_of_def)
  have parties: "partiesOfObject st oid = partiesOfObject st' oid" by (simp add: parties_walk F)
  show ?thesis
  proof (cases "map_of (buildAggregateMap st') oid")
    case (Some agg)
    then have "with_parties st agg = with_parties st' agg"
      using build_objectId parties by (simp add: with_parties_def)
    with Some look show ?thesis by (simp add: ledger_answer_def)
  qed (simp add: ledger_answer_def look)
qed

lemma retractions_name_before: "retractions_name oid (st @ es) \<Longrightarrow> retractions_name oid st"
  unfolding retractions_name_def set_append by blast

lemma names_retracted_before: "names_retracted (st @ [ev]) \<Longrightarrow> names_retracted st"
  unfolding names_retracted_def using retractions_name_before by blast

lemma answer_untouched:
  assumes "names_retracted (st @ [ev])" "oid \<notin> set (objects_named ev)"
  shows "ledger_answer P (st @ [ev]) oid = ledger_answer P st oid"
proof (rule answer_local)
  show "retractions_name oid (st @ [ev])" using assms(1) by (simp add: names_retracted_def)
  show "retractions_name oid st"
    using names_retracted_before [OF assms(1)] by (simp add: names_retracted_def)
  show "filter (mentions oid) (st @ [ev]) = filter (mentions oid) st"
    using assms(2) by (simp add: objects_named_mentions)
qed

interpretation ledger_book: answered_book "ledger_answer P" "\<lambda>ev st. st @ [ev]" objects_named names_retracted
  for P :: platform
  by unfold_locales (rule answer_untouched, assumption+, rule names_retracted_before)

section \<open>What the feed publishes\<close>

lemma parseInt_number: "0 \<le> n \<Longrightarrow> parseInt (bigint_string n) = Some n"
proof -
  assume n: "0 \<le> n"
  obtain c r where c: "nat_string (nat n) = c # r" by (cases "nat_string (nat n)") auto
  have ds: "list_all is_digit (nat_string (nat n))" by (rule nat_string_digits)
  then have d: "is_digit c" by (simp add: c)
  have "\<not> is_digit x" if "is_space x \<or> x = CHR ''-'' \<or> x = CHR ''+''" for x
    using that by (auto simp: is_space_def is_digit_def less_eq_char_def)
  with d have "\<not> is_space c" "c \<noteq> CHR ''-''" "c \<noteq> CHR ''+''" by blast+
  moreover have "takeWhile is_digit (c # r) = c # r"
    using ds by (simp add: c takeWhile_eq_all_conv list_all_iff)
  moreover have "digits_value (c # r) = n" using n digits_value_nat_string [of "nat n"] by (simp add: c)
  ultimately show ?thesis using n by (simp add: parseInt_def bigint_string_def c Let_def)
qed

definition recorded_of :: "LedgerEvent \<Rightarrow> RecordedEvent" where
  "recorded_of ev = \<lparr>rev_eventId = ev_id ev, rev_objectIds = fold set_add (objects_named ev) []\<rparr>"

text \<open>When no two events were recorded at the same time, newest first is the store read backwards.\<close>

lemma insort_last: "\<forall>y\<in>set ys. 0 < cmp x y \<Longrightarrow> insort_by cmp x ys = ys @ [x]"
  by (induction ys) auto

lemma newest_first:
  "sorted_wrt (<) (map ev_recordedAt st) \<Longrightarrow> sort_by (event_compare ev_recordedAt DESC) st = rev st"
  unfolding sort_by_def
proof (induction st)
  case Nil
  then show ?case by simp
next
  case (Cons e st)
  then have "\<forall>y\<in>set (rev st). 0 < event_compare ev_recordedAt DESC e y"
    by (auto simp: event_compare_def Let_def)
  with Cons show ?case by (simp add: insort_last)
qed

lemma feed_page:
  assumes "sv_serviceToken C \<noteq> []" "sorted_wrt (<) (map ev_recordedAt (bk_events B))" "1 \<le> page"
  shows "recentlyRecorded (answering C now B) SWEEP_PAGE_SIZE page =
    Inr (map recorded_of (take 100 (drop (nat ((page - 1) * 100)) (rev (bk_events B)))))"
proof -
  let ?q = "[(''sortBy'', ''recordedAt''), (''sortOrder'', ''DESC''), (''limit'', bigint_string 100),
      (''page'', bigint_string page)]"
  have "number ?q ''limit'' = Some 100" "number ?q ''page'' = Some page"
    using assms(3) by (simp_all add: number_def one_def parseInt_number)
  then have "event_page_options ?q =
      \<lparr>po_page = page, po_limit = 100, po_sortBy = Some recordedAt, po_sortOrder = Some DESC\<rparr>"
    using assms(3) by (simp add: event_page_options_def or_undefined_def normalizePageOptions_def one_def
        MAX_PAGE_LIMIT_def SORT_BY_VALUES_def SORT_ORDER_VALUES_def)
  moreover have "event_axis recordedAt = ev_recordedAt" by (rule ext) simp
  ultimately have "pg_data (findPaginated (bk_events B) (event_page_options ?q)) =
      take 100 (drop (nat ((page - 1) * 100)) (rev (bk_events B)))"
    using assms(3) by (simp add: findPaginated_def Let_def paginate_def newest_first [OF assms(2)] slice_nonneg)
  then show ?thesis
    by (simp add: recentlyRecorded_def SWEEP_PAGE_SIZE_def answering_routes [OF assms(1)] events_route_def Let_def
        page_of_def list_event_def serializeEvent_def PublishedEvent.defs ListedEvent.defs recorded_of_def
        publish_object_def objects_named_def comp_def)
qed

section \<open>What a walk over the feed finds\<close>

definition touch_all :: "RecordedEvent list \<Rightarrow> string list \<Rightarrow> string list" where
  "touch_all es touched = fold (\<lambda>e. fold set_add (rev_objectIds e)) es touched"

lemma scan_page_takeWhile:
  "scan_page (Some c) es touched =
     (touch_all (takeWhile (\<lambda>e. rev_eventId e \<noteq> c) es) touched, \<exists>e\<in>set es. rev_eventId e = c)"
  by (induction es arbitrary: touched) (auto simp: touch_all_def)

lemma set_add_all [simp]: "set (fold set_add xs s) = set s \<union> set xs"
  by (induction xs arbitrary: s) (auto simp: set_add_def)

lemma set_touch_all: "set (touch_all es touched) = set touched \<union> (\<Union>e\<in>set es. set (rev_objectIds e))"
  unfolding touch_all_def by (induction es arbitrary: touched) auto

lemma walk_meets:
  assumes "\<And>page. 1 \<le> page \<Longrightarrow> feed SWEEP_PAGE_SIZE page = Inr (take 100 (drop (nat ((page - 1) * 100)) L))"
    and "1 \<le> page" "drop (nat ((page - 1) * 100)) L = before @ e # rest"
    and "rev_eventId e = c" "\<forall>x\<in>set before. rev_eventId x \<noteq> c"
    and "newest = None \<longrightarrow> page = 1"
  shows "\<exists>touched'. walk_feed feed (Some c) left page touched newest =
      Inr (touched', (if left = 0 then newest else Some (case newest of None \<Rightarrow> rev_eventId (hd L) | Some i \<Rightarrow> i)),
        length before < 100 * left)
    \<and> (length before < 100 * left \<longrightarrow> touched' = touch_all before touched)"
  using assms(2-6)
proof (induction left arbitrary: page touched newest before)
  case 0
  then show ?case by simp
next
  case (Suc left)
  let ?D = "drop (nat ((page - 1) * 100)) L"
  let ?newest = "Some (case newest of None \<Rightarrow> rev_eventId (hd L) | Some i \<Rightarrow> i)"
  obtain x xs where D: "take 100 ?D = x # xs" using Suc.prems(2) by (cases "take 100 ?D") auto
  have "newest = None \<Longrightarrow> x = hd L" using Suc.prems(5) D by (cases L) auto
  then have newest: "(case newest of None \<Rightarrow> Some (rev_eventId x) | Some i \<Rightarrow> Some i) = ?newest"
    by (auto split: option.splits)
  show ?case
  proof (cases "length before < 100")
    case True
    then have page: "take 100 ?D = before @ e # take (99 - length before) rest"
      using Suc.prems(2) by (simp add: take_Cons' Suc_diff_le numeral_eq_Suc)
    then have "takeWhile (\<lambda>e. rev_eventId e \<noteq> c) (take 100 ?D) = before"
      using Suc.prems(3,4) by (simp add: takeWhile_append2)
    with page Suc.prems(3) have "scan_page (Some c) (take 100 ?D) touched = (touch_all before touched, True)"
      by (auto simp: scan_page_takeWhile)
    with D newest True show ?thesis by (simp add: assms(1) [OF Suc.prems(1)])
  next
    case False
    then have page: "take 100 ?D = take 100 before" "drop 100 ?D = drop 100 before @ e # rest"
      using Suc.prems(2) by simp_all
    then have "takeWhile (\<lambda>e. rev_eventId e \<noteq> c) (take 100 ?D) = take 100 before"
      using Suc.prems(4) by (auto simp: takeWhile_eq_all_conv dest: in_set_takeD)
    moreover have "\<not> (\<exists>x\<in>set (take 100 ?D). rev_eventId x = c)"
      unfolding page(1) using Suc.prems(4) by (auto dest: in_set_takeD)
    ultimately have scan: "scan_page (Some c) (take 100 ?D) touched = (touch_all (take 100 before) touched, False)"
      by (simp add: scan_page_takeWhile)
    have "drop (nat ((page + 1 - 1) * 100)) L = drop 100 before @ e # rest"
      using Suc.prems(1) page(2) by (simp add: nat_mult_distrib nat_diff_distrib algebra_simps)
    moreover have "\<forall>x\<in>set (drop 100 before). rev_eventId x \<noteq> c" using Suc.prems(4) by (auto dest: in_set_dropD)
    ultimately obtain t where t:
      "walk_feed feed (Some c) left (page + 1) (touch_all (take 100 before) touched) ?newest =
         Inr (t, (if left = 0 then ?newest else Some (case ?newest of None \<Rightarrow> rev_eventId (hd L) | Some i \<Rightarrow> i)),
           length (drop 100 before) < 100 * left)"
      "length (drop 100 before) < 100 * left \<longrightarrow> t = touch_all (drop 100 before) (touch_all (take 100 before) touched)"
      using Suc.IH [of "page + 1" "drop 100 before" "?newest" "touch_all (take 100 before) touched"] Suc.prems(1,3)
      by auto
    have "touch_all (drop 100 before) (touch_all (take 100 before) touched) = touch_all before touched"
      unfolding touch_all_def by (metis append_take_drop_id comp_apply fold_append)
    moreover have "length (drop 100 before) < 100 * left \<longleftrightarrow> length before < 100 * Suc left" using False by auto
    ultimately show ?thesis using t scan D newest by (auto simp: assms(1) [OF Suc.prems(1)])
  qed
qed

section \<open>The copy beside the book\<close>

text \<open>
  One step of the world the copy lives in: some writer records an event, a listing is answered and
  remembered, objects are forgotten after a submission, or a sweep runs against a book that does not
  move meanwhile.
\<close>

record watched =
  wt_books :: ledger_books
  wt_refresher :: refresher

definition records_next :: "store \<Rightarrow> LedgerEvent \<Rightarrow> bool" where
  "records_next st ev \<longleftrightarrow>
     names_retracted (st @ [ev]) \<and> ev_id ev \<notin> ev_id ` set st \<and> (\<forall>e\<in>set st. ev_recordedAt e < ev_recordedAt ev)"

inductive watch_step :: "server_config \<Rightarrow> watched \<Rightarrow> watched \<Rightarrow> bool" for C where
  recorded: "records_next (bk_events (wt_books W)) ev \<Longrightarrow>
    watch_step C W (W\<lparr>wt_books := (wt_books W)\<lparr>bk_events := bk_events (wt_books W) @ [ev]\<rparr>\<rparr>)"
| listed: "list_positions usina ps (answering C now (wt_books W)) q = (answer, rows) \<Longrightarrow>
    watch_step C W (W\<lparr>wt_refresher := (wt_refresher W)\<lparr>rf_snapshot := remember asOf rows (rf_snapshot (wt_refresher W))\<rparr>\<rparr>)"
| forgotten: "watch_step C W (W\<lparr>wt_refresher := (wt_refresher W)\<lparr>rf_snapshot := invalidateAll oids (rf_snapshot (wt_refresher W))\<rparr>\<rparr>)"
| swept: "refresh (recentlyRecorded (answering C now (wt_books W))) (wt_refresher W) = (outcome, R) \<Longrightarrow>
    watch_step C W (W\<lparr>wt_refresher := R\<rparr>)"

inductive watched_from :: "server_config \<Rightarrow> watched \<Rightarrow> watched \<Rightarrow> bool" for C W where
  start: "watched_from C W W"
| step: "watched_from C W V \<Longrightarrow> watch_step C V U \<Longrightarrow> watched_from C W U"

definition orderly_book :: "store \<Rightarrow> bool" where
  "orderly_book st \<longleftrightarrow> names_retracted st \<and> distinct (map ev_id st) \<and> sorted_wrt (<) (map ev_recordedAt st)"

lemma orderly_next: "orderly_book st \<Longrightarrow> records_next st ev \<Longrightarrow> orderly_book (st @ [ev])"
  by (auto simp: orderly_book_def records_next_def sorted_wrt_append)

definition remembered :: "refresher \<Rightarrow> string \<Rightarrow> PositionItem option" where
  "remembered R oid = map_option PositionItem.truncate (map_of (rf_snapshot R) oid)"

text \<open>The cursor stands somewhere in the book, and only what was recorded after it can be out of date.\<close>

definition follows :: "platform \<Rightarrow> store \<Rightarrow> refresher \<Rightarrow> bool" where
  "follows P st R \<longleftrightarrow> (\<exists>old e later. st = old @ e # later \<and> rf_cursor R = Some (ev_id e) \<and>
     ledger_book.trusted P st (\<Union>ev\<in>set later. set (objects_named ev)) (remembered R))"

definition up_to_date :: "platform \<Rightarrow> store \<Rightarrow> refresher \<Rightarrow> bool" where
  "up_to_date P st R \<longleftrightarrow> ledger_book.trusted P st {} (remembered R)"

subsection \<open>Each step\<close>

lemma follows_recorded:
  assumes "follows P st R" "records_next st ev"
  shows "follows P (st @ [ev]) R"
proof -
  from assms(1) obtain old e later where s: "st = old @ e # later" "rf_cursor R = Some (ev_id e)"
    "ledger_book.trusted P st (\<Union>x\<in>set later. set (objects_named x)) (remembered R)"
    unfolding follows_def by blast
  have "names_retracted (st @ [ev])" using assms(2) by (simp add: records_next_def)
  from ledger_book.trusted_record [OF s(3) this]
  have "ledger_book.trusted P (st @ [ev]) (\<Union>x\<in>set (later @ [ev]). set (objects_named x)) (remembered R)"
    by (simp add: Un_commute)
  with s(1,2) show ?thesis unfolding follows_def by (metis append_Cons append_assoc)
qed

lemma map_of_invalidateAll: "map_of (invalidateAll oids snap) = map_of snap |` (- set oids)"
proof (induction oids arbitrary: snap)
  case Nil
  then show ?case by (simp add: invalidateAll_def)
next
  case (Cons oid oids)
  have "map_of (invalidate oid snap) = map_of snap |` (- {oid})"
    unfolding invalidate_def by (induction snap) (auto simp: restrict_map_def fun_eq_iff)
  with Cons [of "invalidate oid snap"] show ?case
    by (auto simp: invalidateAll_def restrict_map_def fun_eq_iff)
qed

lemma invalidateAll_filter: "invalidateAll oids snap = filter (\<lambda>(k, _). k \<notin> set oids) snap"
proof (induction oids arbitrary: snap)
  case Nil
  then show ?case by (simp add: invalidateAll_def case_prod_unfold)
next
  case (Cons oid oids)
  have "invalidateAll (oid # oids) snap = invalidateAll oids (invalidate oid snap)" by (simp add: invalidateAll_def)
  also have "\<dots> = filter (\<lambda>(k, _). k \<notin> set oids) (filter (\<lambda>(k, _). k \<noteq> oid) snap)"
    by (simp add: Cons.IH invalidate_def)
  also have "\<dots> = filter (\<lambda>(k, _). k \<notin> set (oid # oids)) snap"
    unfolding filter_filter by (rule filter_cong) auto
  finally show ?case .
qed

lemma remembered_invalidateAll:
  "remembered (R\<lparr>rf_snapshot := invalidateAll oids (rf_snapshot R)\<rparr>) = remembered R |` (- set oids)"
  by (rule ext) (simp add: remembered_def map_of_invalidateAll restrict_map_def)

lemma map_of_remember:
  "map_of (remember asOf rows snap) oid = Some x \<Longrightarrow>
   map_of snap oid = Some x \<or> (\<exists>p\<in>set rows. tp_objectId p = oid \<and> PositionItem.truncate x = p)"
proof (induction rows arbitrary: snap)
  case Nil
  then show ?case by (simp add: remember_def)
next
  case (Cons p rows)
  let ?y = "PositionItem.extend p (SnapshotPosition.fields asOf)"
  from Cons.prems have "map_of (remember asOf rows (AList.update (tp_objectId p) ?y snap)) oid = Some x"
    by (simp add: remember_def)
  from Cons.IH [OF this] show ?case
    by (auto simp: map_of_update PositionItem.defs split: if_splits)
qed

lemma follows_copy:
  assumes "follows P st R" "rf_cursor R' = rf_cursor R"
    and "\<And>oid x. remembered R' oid = Some x \<Longrightarrow> remembered R oid = Some x \<or> ledger_answer P st oid = Some x"
  shows "follows P st R'"
proof -
  from assms(1) obtain old e later where s: "st = old @ e # later" "rf_cursor R = Some (ev_id e)"
    "ledger_book.trusted P st (\<Union>x\<in>set later. set (objects_named x)) (remembered R)"
    unfolding follows_def by blast
  from ledger_book.trusted_remember [OF s(3) assms(3)]
  have "ledger_book.trusted P st (\<Union>x\<in>set later. set (objects_named x)) (remembered R')" .
  with s(1,2) assms(2) show ?thesis unfolding follows_def by auto
qed

text \<open>A row of a listing is what the book answers about its object.\<close>

lemma list_all2_source: "list_all2 R xs ys \<Longrightarrow> y \<in> set ys \<Longrightarrow> \<exists>x\<in>set xs. R x y"
  by (induction rule: list_all2_induct) auto

lemma thrown_Inr: "thrown r = Inr x \<longleftrightarrow> r = Inr x"
  by (cases r) (simp_all add: thrown_def)

lemma listed_answer:
  assumes token: "sv_serviceToken C \<noteq> []"
    and rows: "list_positions usina ps (answering C now B) q = (result, rows)" "p \<in> set rows"
  shows "ledger_answer (sv_platform C) (bk_events B) (tp_objectId p) = Some p"
proof -
  let ?P = "sv_platform C" and ?st = "bk_events B"
  from rows obtain page where page: "read_positions (answering C now B) (list_positions_query q) = Inr page"
    "rows = pg_data page"
    by (auto simp: list_positions_def Let_def split: sum.splits)
  then obtain raw opts where raw: "summarizePaginated ?P ?st opts = Inr raw"
    "rows = map (position_item \<circ> serializePositionListItem ?P) (pg_data raw)"
    by (auto simp: read_positions_def answering_routes [OF token] positions_route_def ebind_Inr thrown_Inr page_of_def)
  then have rel: "list_all2 (\<lambda>agg li. aggregateToListItem agg = Inr li)
      (pg_data (findPositionAggregates ?P ?st opts)) (pg_data raw)"
    by (auto simp: summarizePaginated_def Let_def ebind_Inr emap_Inr)
  from raw(2) rows(2) obtain li where li: "li \<in> set (pg_data raw)"
    "p = position_item (serializePositionListItem ?P li)" by auto
  from list_all2_source [OF rel li(1)] obtain agg where
    agg: "agg \<in> set (pg_data (findPositionAggregates ?P ?st opts))" "aggregateToListItem agg = Inr li" by blast
  from agg(1) obtain a where a: "agg = with_parties ?st a" "a \<in> set (map snd (buildAggregateMap ?st))"
    unfolding positions_page Let_def using set_slice set_sorted_positions by fastforce
  then obtain oid where "(oid, a) \<in> set (buildAggregateMap ?st)" by auto
  then have look: "map_of (buildAggregateMap ?st) oid = Some a" by (simp add: build_distinct)
  have "li_objectId li = pa_objectId agg" using agg(2) by (auto simp: aggregateToListItem_def Let_def ebind_Inr)
  then have "tp_objectId p = oid"
    using build_objectId [OF look] by (simp add: li(2) a(1) with_parties_def position_item_def serializePositionListItem_def)
  with look agg(2) a(1) li(2) show ?thesis by (simp add: ledger_answer_def)
qed

lemma follows_listed:
  assumes "sv_serviceToken C \<noteq> []" "follows (sv_platform C) (bk_events B) R"
    and "list_positions usina ps (answering C now B) q = (result, rows)"
  shows "follows (sv_platform C) (bk_events B) (R\<lparr>rf_snapshot := remember asOf rows (rf_snapshot R)\<rparr>)"
proof (rule follows_copy [OF assms(2)])
  fix oid x assume "remembered (R\<lparr>rf_snapshot := remember asOf rows (rf_snapshot R)\<rparr>) oid = Some x"
  then obtain y where y: "map_of (remember asOf rows (rf_snapshot R)) oid = Some y" "x = PositionItem.truncate y"
    by (auto simp: remembered_def)
  from map_of_remember [OF y(1)] show "remembered R oid = Some x \<or> ledger_answer (sv_platform C) (bk_events B) oid = Some x"
    using listed_answer [OF assms(1,3)] y(2) by (auto simp: remembered_def)
qed simp

lemma follows_forgotten:
  assumes "follows P st R"
  shows "follows P st (R\<lparr>rf_snapshot := invalidateAll oids (rf_snapshot R)\<rparr>)"
  by (rule follows_copy [OF assms]) (simp_all add: remembered_invalidateAll restrict_map_def split: if_splits)

text \<open>
  What a sweep keeps: the rows of the objects that no event recorded since the last sweep names, or
  nothing when there are more such events than the walk can see.
\<close>

definition swept_rows :: "LedgerEvent list \<Rightarrow> snapshot \<Rightarrow> snapshot" where
  "swept_rows later snap =
     (if length later < 2000 then filter (\<lambda>(oid, _). list_all (\<lambda>ev. \<not> mentions oid ev) later) snap else [])"

text \<open>The sweep itself: it ends at the newest event and leaves nothing out of date.\<close>

lemma follows_swept:
  assumes token: "sv_serviceToken C \<noteq> []" and book: "orderly_book (bk_events B)"
    and R: "follows (sv_platform C) (bk_events B) R"
    and sweep: "refresh (recentlyRecorded (answering C now B)) R = (outcome, R')"
  shows "up_to_date (sv_platform C) (bk_events B) R'"
    and "rf_cursor R' = Some (ev_id (last (bk_events B)))"
    and "\<exists>o'. outcome = Inr o'"
    and "\<exists>old e later. bk_events B = old @ e # later \<and> rf_cursor R = Some (ev_id e)
      \<and> rf_snapshot R' = swept_rows later (rf_snapshot R)"
proof -
  let ?P = "sv_platform C" and ?st = "bk_events B"
  let ?feed = "recentlyRecorded (answering C now B)"
  from R obtain old e later where s: "?st = old @ e # later" "rf_cursor R = Some (ev_id e)"
    "ledger_book.trusted ?P ?st (\<Union>x\<in>set later. set (objects_named x)) (remembered R)"
    unfolding follows_def by blast
  let ?L = "map recorded_of (rev ?st)" and ?before = "map recorded_of (rev later)"
  have feed: "?feed SWEEP_PAGE_SIZE page = Inr (take 100 (drop (nat ((page - 1) * 100)) ?L))" if "1 \<le> page" for page
    using feed_page [OF token _ that] book by (simp add: orderly_book_def take_map drop_map)
  have L: "drop (nat ((1 - 1) * 100)) ?L = ?before @ recorded_of e # map recorded_of (rev old)" by (simp add: s(1))
  have others: "\<forall>x\<in>set ?before. rev_eventId x \<noteq> ev_id e"
  proof (intro ballI notI)
    fix x assume "x \<in> set ?before" "rev_eventId x = ev_id e"
    then obtain y where "y \<in> set later" "ev_id y = ev_id e" by (auto simp: recorded_of_def)
    moreover have "ev_id e \<notin> ev_id ` set later" using book unfolding orderly_book_def s(1) by simp
    ultimately show False by (metis imageI)
  qed
  have hd: "rev_eventId (hd ?L) = ev_id (last ?st)"
    using s(1) by (simp add: hd_map hd_rev recorded_of_def)
  from walk_meets [where feed = ?feed and L = ?L and page = 1 and before = ?before and e = "recorded_of e"
      and rest = "map recorded_of (rev old)" and c = "ev_id e" and newest = None and left = SWEEP_MAX_PAGES
      and touched = "[]", OF feed _ L _ others] obtain t where
    t: "walk_feed ?feed (Some (ev_id e)) SWEEP_MAX_PAGES 1 [] None =
        Inr (t, Some (ev_id (last ?st)), length later < 2000)"
      "length later < 2000 \<longrightarrow> t = touch_all ?before []"
    using hd by (auto simp: SWEEP_MAX_PAGES_def recorded_of_def)
  show "\<exists>o'. outcome = Inr o'"
    using sweep by (auto simp: refresh_def s(2) t(1) split: if_splits)
  show "rf_cursor R' = Some (ev_id (last ?st))"
    using sweep by (auto simp: refresh_def s(2) t(1) split: if_splits)
  have touched: "set t = (\<Union>x\<in>set later. set (objects_named x))" if "length later < 2000"
    using t(2) that by (simp add: set_touch_all recorded_of_def)
  have "rf_snapshot R' = swept_rows later (rf_snapshot R)"
  proof (cases "length later < 2000")
    case True
    then have "oid \<notin> set t \<longleftrightarrow> list_all (\<lambda>ev. \<not> mentions oid ev) later" for oid
      by (simp add: touched list_all_iff objects_named_mentions)
    with sweep True show ?thesis by (auto simp: refresh_def s(2) t(1) invalidateAll_filter swept_rows_def)
  next
    case False
    with sweep show ?thesis by (auto simp: refresh_def s(2) t(1) swept_rows_def)
  qed
  with s(1,2) show "\<exists>old e later. ?st = old @ e # later \<and> rf_cursor R = Some (ev_id e)
      \<and> rf_snapshot R' = swept_rows later (rf_snapshot R)" by blast
  show "up_to_date ?P ?st R'"
  proof (cases "length later < 2000")
    case True
    then have "set t = (\<Union>x\<in>set later. set (objects_named x))"
      by (rule touched)
    then have "ledger_book.trusted ?P ?st {} (remembered R |` (- set t))"
      by (intro ledger_book.trusted_forget [OF s(3)]) (simp only: subset_refl)
    moreover from sweep True have "remembered R' = remembered (R\<lparr>rf_snapshot := invalidateAll t (rf_snapshot R)\<rparr>)"
      by (auto simp: refresh_def s(2) t(1) remembered_def [abs_def])
    ultimately show ?thesis unfolding up_to_date_def remembered_invalidateAll [symmetric] by simp
  next
    case False
    with sweep have "rf_snapshot R' = []" by (auto simp: refresh_def s(2) t(1))
    then show ?thesis by (simp add: up_to_date_def ledger_book.trusted_def remembered_def)
  qed
qed

subsection \<open>Every run\<close>

definition keeps_up :: "server_config \<Rightarrow> watched \<Rightarrow> bool" where
  "keeps_up C W \<longleftrightarrow> orderly_book (bk_events (wt_books W)) \<and>
     follows (sv_platform C) (bk_events (wt_books W)) (wt_refresher W)"

lemma up_to_date_follows:
  assumes "up_to_date P st R" "st \<noteq> []" "rf_cursor R = Some (ev_id (last st))"
  shows "follows P st R"
proof -
  have "st = butlast st @ last st # []" using assms(2) by simp
  moreover have "ledger_book.trusted P st (\<Union>x\<in>set []. set (objects_named x)) (remembered R)"
    using assms(1) by (simp add: up_to_date_def)
  ultimately show ?thesis using assms(3) unfolding follows_def by blast
qed

lemma watch_step_keeps:
  assumes "sv_serviceToken C \<noteq> []" "watch_step C W V" "keeps_up C W"
  shows "keeps_up C V"
  using assms(2,3)
proof cases
  case (recorded ev)
  with assms(3) show ?thesis by (simp add: keeps_up_def orderly_next follows_recorded)
next
  case (listed usina ps now q answer rows asOf)
  with assms(1,3) show ?thesis by (simp add: keeps_up_def follows_listed)
next
  case (forgotten oids)
  with assms(3) show ?thesis by (simp add: keeps_up_def follows_forgotten)
next
  case (swept now outcome R)
  with assms(3) have book: "orderly_book (bk_events (wt_books W))"
    and follow: "follows (sv_platform C) (bk_events (wt_books W)) (wt_refresher W)" by (simp_all add: keeps_up_def)
  from follow have "bk_events (wt_books W) \<noteq> []" by (auto simp: follows_def)
  with follows_swept [OF assms(1) book follow swept(2)] book swept(1) show ?thesis
    by (simp add: keeps_up_def up_to_date_follows)
qed

lemma watched_keeps:
  assumes "sv_serviceToken C \<noteq> []" "watched_from C W V" "keeps_up C W"
  shows "keeps_up C V"
  using assms(2,3) by induction (auto intro: watch_step_keeps [OF assms(1)])

text \<open>After the first sweep over a book with an event, on an empty copy, everything keeps up.\<close>

lemma first_sweep:
  assumes "sv_serviceToken C \<noteq> []" "orderly_book (bk_events B)" "bk_events B \<noteq> []"
    and "refresh (recentlyRecorded (answering C now B)) \<lparr>rf_cursor = None, rf_snapshot = []\<rparr> = (outcome, R)"
  shows "keeps_up C \<lparr>wt_books = B, wt_refresher = R\<rparr>"
proof -
  obtain e es where rev_st: "rev (bk_events B) = e # es" using assms(3) by (cases "rev (bk_events B)") auto
  then have e: "e = last (bk_events B)" by (metis last_rev list.sel(1) rev_rev_ident hd_rev)
  have "recentlyRecorded (answering C now B) SWEEP_PAGE_SIZE 1 = Inr (map recorded_of (take 100 (e # es)))"
    using feed_page [OF assms(1), of B 1] assms(2) rev_st by (simp add: orderly_book_def)
  then have "R = \<lparr>rf_cursor = Some (ev_id e), rf_snapshot = []\<rparr>"
    using assms(4) by (auto simp: refresh_def SWEEP_MAX_PAGES_def numeral_eq_Suc recorded_of_def split: prod.splits)
  then show ?thesis
    using assms(2,3) e by (simp add: keeps_up_def up_to_date_follows up_to_date_def ledger_book.trusted_def remembered_def)
qed

text \<open>A sweep without a cursor forgets nothing, whatever the copy holds.\<close>

lemma bearings_forget_nothing:
  "rf_cursor R = None \<Longrightarrow> rf_snapshot (snd (refresh feed R)) = rf_snapshot R"
  by (simp add: refresh_def split: sum.splits prod.splits)

end
