(* ===== verification/Sample_Screens.thy ===== *)
theory Sample_Screens
  imports Sample_Reports Payable_Lists Position_Actions Treasury_Overview Position_Snapshot
begin

text \<open>A small ledger behind its API, to exercise the theorems about the treasury's screens.\<close>

definition sample_server :: server_config where
  "sample_server = \<lparr>sv_platform = sample_dates, sv_codec = sample_codec, sv_usina = ''usina'', sv_serviceToken = ''t''\<rparr>"

definition sample_books :: "store \<Rightarrow> ledger_books" where
  "sample_books st = \<lparr>bk_events = st, bk_rejected = [], bk_staging = []\<rparr>"

lemma sample_server_fields [simp]:
  "sv_serviceToken sample_server \<noteq> []" "sv_platform sample_server = sample_dates" "bk_events (sample_books st) = st"
  by (simp_all add: sample_server_def sample_books_def)

lemma sample_dates_read: "date_parse sample_dates (iso_string sample_dates t) = Some t"
  by (simp add: sample_dates_def sample_platform_def read_bigint)

lemma sample_one_position: "length (buildAggregateMap [recognized, paid]) \<le> 1"
proof -
  have "map_of (buildAggregateMap [recognized, paid]) oid = None" if "oid \<noteq> ''ob-1''" for oid
  proof -
    have "\<not> mentions oid recognized" "\<not> mentions oid paid"
      using that by (auto simp: mentions_def sample_fields)
    then show ?thesis by (simp add: build_None standing_def)
  qed
  then have "set (map fst (buildAggregateMap [recognized, paid])) \<subseteq> {''ob-1''}"
    unfolding map_of_eq_None_iff set_map by blast
  then have "card (set (map fst (buildAggregateMap [recognized, paid]))) \<le> 1"
    by (metis card_mono finite.emptyI finite_insert is_singletonI is_singleton_altdef)
  then show ?thesis by (simp only: distinct_card [OF build_distinct] length_map)
qed

lemma sample_not_truncated:
  assumes "list_payable_positions sample_dates asOf (answering sample_server now (sample_books [recognized, paid])) = Some L"
  shows "\<not> ppr_truncated L"
proof -
  have "length (sorted_positions sample_dates [recognized, paid] payable_options) \<le> length (sort_by
      (position_compare sample_dates (pq_sortBy payable_options) (pq_sortOrder payable_options))
      (map snd (buildAggregateMap [recognized, paid])))"
    unfolding sorted_positions_def by (rule length_filter_le)
  also have "\<dots> = length (map snd (buildAggregateMap [recognized, paid]))"
    by (metis mset_sort_by size_mset)
  also have "\<dots> \<le> 1" using sample_one_position by simp
  finally have "length (sorted_positions sample_dates [recognized, paid] payable_options) \<le> 1" .
  with assms payable_rows [of "''BRL''" "sample_books [recognized, paid]" sample_server asOf now] sample_book_brl(1)
  show ?thesis by (auto simp: split_payables_def Let_def PER_QUERY_LIMIT_def)
qed

lemma sample_orderly: "orderly_book [recognized]"
  by (simp add: orderly_book_def names_retracted_def retractions_name_def mentions_def sample_fields)

text \<open>The offer for the one position of the small book.\<close>

lemma sample_offer:
  obtains R where "list_position_actions compare ledger_algebra
    (answering sample_server now (sample_books [recognized, paid])) ''ob-1'' = Inr (Some R)"
proof -
  let ?st = "[recognized, paid]"
  obtain agg where agg: "map_of (buildAggregateMap ?st) ''ob-1'' = Some agg"
    using build_None [of ?st "''ob-1''"] by (fastforce simp: standing_def stands_def fold_defs sample_fields mentions_def)
  have "retractions_name ''ob-1'' ?st" by (simp add: retractions_name_def mentions_def sample_fields)
  from projection_agrees(1) [OF _ _ this agg, of "''BRL''"] sample_book_brl(1) obtain S where
    "summarize ?st ''ob-1'' = Inr (Some S)" by (auto simp: one_currency_book_def)
  then have "api_position (answering sample_server now (sample_books ?st)) ''ob-1''
      = Inr (serializePositionSummary sample_dates S)"
    by (simp add: answering_routes position_route_def thrown_def)
  then show ?thesis
    by (intro that) (simp add: list_position_actions_def read_lifecycle_def getOrNull_def)
qed

text \<open>A run of the copy: a first sweep, a listing, a payment by another writer, a sweep, a listing.\<close>

definition paid_later :: LedgerEvent where
  "paid_later = paid\<lparr>ev_recordedAt := 3000\<rparr>"

lemma paid_later_fields [simp]:
  "ev_id paid_later = ''e2''" "ev_objects paid_later = ev_objects paid" "ev_amount paid_later = ev_amount paid"
  "ev_parties paid_later = ev_parties paid" "ev_relatedEventId paid_later = None" "ev_recordedAt paid_later = 3000"
  "ev_id recognized = ''e1''" "ev_recordedAt recognized = 2000"
  by (simp_all add: paid_later_def sample_fields) (simp add: recognized_def event_of_def)

lemma every_request:
  "position_options (positions_request (list_positions_query all_positions)) None None =
     \<lparr>pq_page = Some 1, pq_limit = Some 20, pq_status = Absent, pq_outcome = None, pq_objectType = Absent,
      pq_partyId = Absent, pq_from = None, pq_to = None, pq_sortBy = None, pq_sortOrder = None\<rparr>"
  "one (positions_request (list_positions_query all_positions)) ''from'' = None"
  "one (positions_request (list_positions_query all_positions)) ''to'' = None"
  by code_simp+

lemma one_position_listed:
  assumes "one_currency_book c (bk_events B)" "sv_serviceToken C \<noteq> []" "buildAggregateMap (bk_events B) = [(oid, agg)]"
  shows "snd (list_positions u ps (answering C now B) all_positions) = [row_of (sv_platform C) (bk_events B) agg]"
proof -
  let ?P = "sv_platform C" and ?st = "bk_events B"
  let ?opts = "position_options (positions_request (list_positions_query all_positions)) None None"
  have "sorted_positions ?P ?st ?opts = [agg]"
    by (simp add: sorted_positions_def assms(3) sort_by_def selected_def every_request(1))
  then have "pg_data (findPositionAggregates ?P ?st ?opts) = [with_parties ?st agg]"
    by (simp add: positions_page Let_def every_request(1) page_limit_def slice_nonneg)
  then show ?thesis
    by (simp add: list_positions_def read_positions_def answering_routes [OF assms(2)]
        positions_answer [OF assms(1) every_request(2,3)] page_of_def row_of_def)
qed


lemma sample_single:
  assumes "st \<in> {[recognized], [recognized, paid_later]}"
  obtains agg where "buildAggregateMap st = [(''ob-1'', agg)]" "one_currency_book ''BRL'' st" "orderly_book st"
proof -
  have named: "mentions oid e \<longleftrightarrow> oid = ''ob-1''" if "e \<in> set st" for oid e
    using that assms by (auto simp: mentions_def sample_fields)
  have stands: "standing st \<noteq> []" "standing st = [] \<or> set (standing st) \<subseteq> set st"
    using assms by (auto simp: standing_def stands_def fold_defs sample_fields)
  then obtain e where e: "e \<in> set (standing st)" "e \<in> set st" by (cases "standing st") auto
  have "map_of (buildAggregateMap st) oid = None \<longleftrightarrow> oid \<noteq> ''ob-1''" for oid
    using stands named e unfolding build_None by blast
  then have keys: "set (map fst (buildAggregateMap st)) = {''ob-1''}" by (auto simp: map_of_eq_None_iff)
  then have "length (map fst (buildAggregateMap st)) = 1" by (simp only: distinct_card [OF build_distinct, symmetric]) simp
  with keys obtain agg where "buildAggregateMap st = [(''ob-1'', agg)]"
    by (cases "buildAggregateMap st") auto
  moreover have "is_currency ''BRL''" by code_simp
  then have "one_currency_book ''BRL'' st"
    using assms by (auto simp: one_currency_book_def valid_money_def sample_fields)
  moreover have "orderly_book st"
    using assms by (auto simp: orderly_book_def names_retracted_def retractions_name_def mentions_def sample_fields)
  ultimately show thesis by (rule that)
qed


lemma sample_watched:
  obtains first R0 W where
    "refresh (recentlyRecorded (answering sample_server 5000 (sample_books [recognized])))
      \<lparr>rf_cursor = None, rf_snapshot = []\<rparr> = (first, R0)"
    "watched_from sample_server \<lparr>wt_books = sample_books [recognized], wt_refresher = R0\<rparr> W"
    "wt_books W = sample_books [recognized, paid_later]" "rf_cursor (wt_refresher W) = Some ''e2''"
    "snapshot_get (rf_snapshot (wt_refresher W)) ''ob-1'' \<noteq> None"
proof -
  let ?B1 = "sample_books [recognized]" and ?B2 = "sample_books [recognized, paid_later]"
  let ?feed = "\<lambda>B. recentlyRecorded (answering sample_server 5000 B)"
  let ?list = "\<lambda>B. list_positions ''usina'' [] (answering sample_server 5000 B) all_positions"
  let ?seen = "\<lambda>B R. R\<lparr>rf_snapshot := remember ''t'' (snd (?list B)) (rf_snapshot R)\<rparr>"
  obtain first R0 where R0: "refresh (?feed ?B1) \<lparr>rf_cursor = None, rf_snapshot = []\<rparr> = (first, R0)" by fastforce
  obtain agg1 where one1: "orderly_book [recognized]" by (rule sample_single [of "[recognized]"]) auto
  obtain agg where two: "buildAggregateMap [recognized, paid_later] = [(''ob-1'', agg)]"
    "one_currency_book ''BRL'' [recognized, paid_later]" "orderly_book [recognized, paid_later]"
    by (rule sample_single [of "[recognized, paid_later]"]) auto
  let ?V = "\<lparr>wt_books = ?B1, wt_refresher = R0\<rparr>"
  let ?V1 = "\<lparr>wt_books = ?B1, wt_refresher = ?seen ?B1 R0\<rparr>"
  let ?V2 = "\<lparr>wt_books = ?B2, wt_refresher = ?seen ?B1 R0\<rparr>"
  obtain outcome R where R: "refresh (?feed ?B2) (?seen ?B1 R0) = (outcome, R)" by fastforce
  let ?V3 = "\<lparr>wt_books = ?B2, wt_refresher = R\<rparr>" and ?W = "\<lparr>wt_books = ?B2, wt_refresher = ?seen ?B2 R\<rparr>"
  have s1: "watch_step sample_server ?V ?V1"
    using watch_step.listed [of "''usina''" "[]" sample_server 5000 ?V all_positions "fst (?list ?B1)" "snd (?list ?B1)" "''t''"]
    by simp
  have after: "records_next [recognized] paid_later"
    using two(3) by (auto simp: records_next_def orderly_book_def)
  then have s2: "watch_step sample_server ?V1 ?V2"
    using watch_step.recorded [of ?V1 paid_later sample_server] by (simp add: sample_books_def)
  have s3: "watch_step sample_server ?V2 ?V3"
    using watch_step.swept [of sample_server 5000 ?V2 outcome R] R by simp
  have s4: "watch_step sample_server ?V3 ?W"
    using watch_step.listed [of "''usina''" "[]" sample_server 5000 ?V3 all_positions "fst (?list ?B2)" "snd (?list ?B2)" "''t''"]
    by simp
  have half: "watched_from sample_server ?V ?V2"
    by (rule watched_from.step [OF watched_from.step [OF watched_from.start s1] s2])
  have run: "watched_from sample_server ?V ?W" by (rule watched_from.step [OF watched_from.step [OF half s3] s4])
  have "keeps_up sample_server ?V2"
    by (rule watched_keeps [OF sample_server_fields(1) half first_sweep [OF _ _ _ R0]]) (simp_all add: one1)
  then have "rf_cursor R = Some ''e2''"
    using follows_swept(2) [OF sample_server_fields(1) _ _ R] by (simp add: keeps_up_def)
  moreover have "snd (?list ?B2) = [row_of sample_dates [recognized, paid_later] agg]"
    using one_position_listed [of "''BRL''" ?B2 sample_server] two(1,2) by simp
  then have "snapshot_get (rf_snapshot (?seen ?B2 R)) ''ob-1'' \<noteq> None"
    using build_objectId [of "[recognized, paid_later]" "''ob-1''" agg] two(1)
    by (simp add: snapshot_get_def remember_def update_conv row_fields)
  ultimately show thesis by (intro that [OF R0 run]) simp_all
qed

end
