(* ===== verification/Receipt_Ingest.thy ===== *)
theory Receipt_Ingest
  imports Staging_Posting Admission
begin

text \<open>
  What the ledger takes in from the documents of other systems: \<open>ReceiptStagingBuilder.ts\<close>,
  \<open>AdvanceStagingJob.ts\<close>, the two ingest jobs that feed them, the fields the two readers take from a
  document (\<open>MongoReceiptETLReader.ts\<close>, \<open>MongoAdvanceReportReader.ts\<close>; the query itself runs in the
  database) and \<open>ProposalContextNormalizer.ts\<close>. A number is the exact rational of its double, the
  result of \<open>parseFloat\<close> the decimal before it is rounded. Below: a receipt or an advance that is
  staged is posted as one event that says the same, unless the book refuses it, and an expected
  commission without a positive value never is.
\<close>

section \<open>Numbers of the language\<close>

text \<open>\<open>isNonEmpty\<close> of \<open>guards.ts\<close>; a field that is no string is \<open>None\<close>.\<close>

definition isNonEmpty :: "string option \<Rightarrow> bool" where
  "isNonEmpty v \<longleftrightarrow> trim (str v) \<noteq> []"

definition ten_to :: "int \<Rightarrow> rat" where
  "ten_to k = (if 0 \<le> k then 10 ^ nat k else 1 / 10 ^ nat (- k))"

definition split_sign :: "string \<Rightarrow> bool \<times> string" where
  "split_sign s =
     (case s of [] \<Rightarrow> (False, s)
      | c # w \<Rightarrow> if c = CHR ''-'' then (True, w) else if c = CHR ''+'' then (False, w) else (False, s))"

text \<open>The exponent a number may end with; without digits it is not part of the number.\<close>

definition exponent_value :: "string \<Rightarrow> int" where
  "exponent_value s =
     (case s of [] \<Rightarrow> 0
      | c # w \<Rightarrow>
          if c = CHR ''e'' \<or> c = CHR ''E''
          then (let (negative, ds) = split_sign w; n = digits_value (takeWhile is_digit ds)
                in if negative then - n else n)
          else 0)"

text \<open>
  The longest prefix of the text that is a decimal number, as an exact value; \<open>None\<close> stands for
  \<open>NaN\<close> and for \<open>Infinity\<close>.
\<close>

definition float_value :: "string \<Rightarrow> rat option" where
  "float_value s =
     (let (negative, u) = split_sign (dropWhile is_space s);
          ip = takeWhile is_digit u;
          (fp, rest) = (case dropWhile is_digit u of
              [] \<Rightarrow> ([], [])
            | c # w \<Rightarrow> if c = CHR ''.'' then (takeWhile is_digit w, dropWhile is_digit w) else ([], c # w));
          v = of_int (digits_value (ip @ fp)) * ten_to (exponent_value rest - int (length fp))
      in if ip @ fp = [] then None else Some (if negative then - v else v))"

text \<open>
  \<open>isFinite(parseFloat(s)) && parseFloat(s) > 0\<close>: rounding takes values up to $2^{-1075}$ to zero
  and values from $2^{1024} - 2^{970}$ on to \<open>Infinity\<close>.
\<close>

definition positive_float :: "string \<Rightarrow> bool" where
  "positive_float s \<longleftrightarrow>
     (case float_value s of None \<Rightarrow> False | Some v \<Rightarrow> 1 / 2 ^ 1075 < v \<and> v < 2 ^ 1024 - 2 ^ 970)"

definition is_integer :: "rat \<Rightarrow> bool" where
  "is_integer x \<longleftrightarrow> of_int \<lfloor>x\<rfloor> = x"

text \<open>\<open>x.toFixed(2)\<close> for a number that is not negative and below $10^{21}$: the nearest hundredth, a tie goes up.\<close>

definition hundredths :: "rat \<Rightarrow> int" where
  "hundredths x = \<lfloor>x * 100 + 1 / 2\<rfloor>"

definition toFixed_2 :: "rat \<Rightarrow> string" where
  "toFixed_2 x =
     bigint_string (hundredths x div 100) @ ''.'' @ pad_start 2 CHR ''0'' (bigint_string (hundredths x mod 100))"

section \<open>Receipts\<close>

record EnrichedReceiptInput =
  rcp_receiptId :: "string option"
  rcp_proposalId :: string
  rcp_installmentNumber :: rat
  rcp_downloadedValue :: string
  rcp_dischargeDate :: "string option"
  rcp_receiptStatus :: string
  rcp_proposalNumber :: "string option"
  rcp_operatorId :: "string option"
  rcp_brokerId :: "string option"
  rcp_registeredAt :: string
  rcp_createdAt :: string

definition DISCHARGED :: string where
  "DISCHARGED = ''BAIXADO''"

definition NOT_DISCHARGED :: "string list" where
  "NOT_DISCHARGED = [''N'' @ [CHR 0xC3, CHR 0x83] @ ''O BAIXADO'', ''ABERTA'']"

definition buildCashInParties :: "string \<Rightarrow> string \<Rightarrow> string \<Rightarrow> StagingParty list" where
  "buildCashInParties operatorId usinaPartyId downloadedValue =
     [\<lparr>sp_partyId = Some operatorId, sp_role = Some (partyRole_value PartyRole.PAYER),
       sp_direction = Some (direction_value Direction.OUT), sp_amount = None\<rparr>,
      \<lparr>sp_partyId = Some usinaPartyId, sp_role = Some (partyRole_value PartyRole.PAYEE),
       sp_direction = Some (direction_value Direction.IN), sp_amount = Some downloadedValue\<rparr>]"

definition buildNonCashParties :: "string \<Rightarrow> string \<Rightarrow> StagingParty list" where
  "buildNonCashParties operatorId usinaPartyId =
     [\<lparr>sp_partyId = Some operatorId, sp_role = Some (partyRole_value PartyRole.PAYER),
       sp_direction = Some (direction_value Direction.NEUTRAL), sp_amount = None\<rparr>,
      \<lparr>sp_partyId = Some usinaPartyId, sp_role = Some (partyRole_value PartyRole.PAYEE),
       sp_direction = Some (direction_value Direction.NEUTRAL), sp_amount = None\<rparr>]"

definition buildObjects :: "string \<Rightarrow> string \<Rightarrow> int \<Rightarrow> bool \<Rightarrow> StagingObject list" where
  "buildObjects receiptId proposalId installmentNumber isBaixado =
     [\<lparr>so_objectId = Some (''receivable:'' @ receiptId),
       so_objectType = Some (objectType_value ObjectType.COMMISSION_RECEIVABLE),
       so_relation = Some (relation_value (if isBaixado then Relation.SETTLES else Relation.ORIGINATES))\<rparr>,
      \<lparr>so_objectId = Some proposalId, so_objectType = Some (objectType_value ObjectType.PROPOSAL),
       so_relation = Some (relation_value Relation.REFERENCES)\<rparr>,
      \<lparr>so_objectId = Some (proposalId @ '':'' @ bigint_string installmentNumber),
       so_objectType = Some (objectType_value ObjectType.INSTALLMENT),
       so_relation = Some (relation_value Relation.REFERENCES)\<rparr>]"

text \<open>The guards in their order; the warning of the first that fails.\<close>

definition receipt_refusal :: "platform \<Rightarrow> EnrichedReceiptInput \<Rightarrow> string option" where
  "receipt_refusal P i =
     (let rejected = ''Rejected receipt '' @ str (rcp_receiptId i) @ '': '';
          status = rcp_receiptStatus i
      in if \<not> isNonEmpty (rcp_receiptId i) then Some ''Rejected: receiptId null or empty''
      else if \<not> isNonEmpty (rcp_operatorId i) then Some (rejected @ ''operatorId null or empty'')
      else if \<not> isNonEmpty (rcp_proposalNumber i) then Some (rejected @ ''proposalNumber null or empty'')
      else if date_parse P (rcp_registeredAt i) = None then Some (rejected @ ''registeredAt is not a valid date'')
      else if date_parse P (rcp_createdAt i) = None then Some (rejected @ ''createdAt is not a valid date'')
      else if status \<noteq> DISCHARGED \<and> status \<notin> set NOT_DISCHARGED
        then Some (rejected @ ''unknown receiptStatus '' @ quoted status)
      else if rcp_dischargeDate i \<noteq> None \<and> status \<noteq> DISCHARGED
        then Some (rejected @ ''dischargeDate present but receiptStatus is '' @ quoted status)
      else if rcp_dischargeDate i \<noteq> None \<and> date_parse P (str (rcp_dischargeDate i)) = None
        then Some (rejected @ ''dischargeDate is not a valid date'')
      else if rcp_dischargeDate i = None \<and> status \<notin> set NOT_DISCHARGED
        then Some (rejected @ ''dischargeDate is null but receiptStatus is '' @ quoted status)
      else if \<not> is_integer (rcp_installmentNumber i) \<or> rcp_installmentNumber i \<le> 0
        then Some (rejected @ ''installmentNumber must be a positive integer'')
      else if status = DISCHARGED \<and> \<not> positive_float (rcp_downloadedValue i)
        then Some (rejected @ ''downloadedValue '' @ quoted (rcp_downloadedValue i)
               @ '' is zero, negative, or non-parseable'')
      else None)"

definition receipt_candidate ::
  "platform \<Rightarrow> string \<Rightarrow> string \<Rightarrow> string \<Rightarrow> EnrichedReceiptInput \<Rightarrow> StagingRecord" where
  "receipt_candidate P usinaPartyId workerId uuid i =
     (let isBaixado = (rcp_receiptStatus i = DISCHARGED)
      in \<lparr>sr_id = uuid, sr_status = pending_record,
          sr_eventType = Some (eventType_value
            (if isBaixado then EventType.COMMISSION_RECEIVED else EventType.COMMISSION_EXPECTED)),
          sr_economicEffect = Some (economicEffect_value
            (if isBaixado then EconomicEffect.CASH_IN else EconomicEffect.NON_CASH)),
          sr_occurredAt = Some (if isBaixado then str (rcp_dischargeDate i)
            else iso_string P (the (date_parse P (rcp_createdAt i)))),
          sr_sourceAt = rcp_dischargeDate i, sr_dueAt = None,
          sr_amount = Some (if positive_float (rcp_downloadedValue i) then rcp_downloadedValue i else ''0''),
          sr_currency = Some ''BRL'', sr_description = None, sr_sourceSystem = Some ''integration'',
          sr_sourceReference = Some (''receipt:'' @ str (rcp_receiptId i) @ '':''
            @ (if isBaixado then ''received'' else ''expected'')),
          sr_normalizationVersion = Some ''1.0'', sr_normalizationWorkerId = Some workerId,
          sr_relatedEventId = None,
          sr_parties = Some (if isBaixado
            then buildCashInParties (str (rcp_operatorId i)) usinaPartyId (rcp_downloadedValue i)
            else buildNonCashParties (str (rcp_operatorId i)) usinaPartyId),
          sr_objects = Some (buildObjects (str (rcp_receiptId i)) (rcp_proposalId i)
            \<lfloor>rcp_installmentNumber i\<rfloor> isBaixado),
          sr_reason = Some \<lparr>sn_type = Some (reasonType_value
              (if isBaixado then ReasonType.COMMISSION_PAYMENT else ReasonType.COMMISSION_ACCRUAL)),
            sn_description = Some ''Receipt receivable recognition'',
            sn_confidence = Some (confidenceLevel_value ConfidenceLevel.MEDIUM), sn_requiresFollowup = Some False\<rparr>,
          sr_reporter = Some \<lparr>sq_reporterType = Some (reporterType_value ReporterType.SYSTEM),
            sq_reporterId = Some ''receipt-posting-job'', sq_reporterName = None,
            sq_channel = Some ''batch-integration''\<rparr>\<rparr>)"

text \<open>What is staged, or the warning that is given instead.\<close>

definition build_receipt ::
  "platform \<Rightarrow> string \<Rightarrow> string \<Rightarrow> string \<times> EnrichedReceiptInput \<Rightarrow> string + StagingRecord" where
  "build_receipt P usinaPartyId workerId =
     (\<lambda>(uuid, i). case receipt_refusal P i of
        Some warning \<Rightarrow> Inl warning
      | None \<Rightarrow> Inr (receipt_candidate P usinaPartyId workerId uuid i))"

text \<open>
  The store and the warnings given so far. Every input comes with the identifier it gets if it is
  staged. \<open>stage_all\<close> is the loop both builders share.
\<close>

type_synonym staging = "StagingRecord list \<times> string list"

definition stage :: "string + StagingRecord \<Rightarrow> staging \<Rightarrow> staging" where
  "stage x = (\<lambda>(store, warnings). case x of
      Inl w \<Rightarrow> (store, warnings @ [w])
    | Inr r \<Rightarrow> (save_staged store r, warnings))"

definition stage_receipts ::
  "platform \<Rightarrow> string \<Rightarrow> string \<Rightarrow> (string \<times> EnrichedReceiptInput) list \<Rightarrow> staging \<Rightarrow> staging" where
  "stage_receipts P usina worker inputs = fold (\<lambda>i. stage (build_receipt P usina worker i)) inputs"

section \<open>The ingest job of receipts\<close>

definition RECEIPT_BATCH_SIZE :: nat where
  "RECEIPT_BATCH_SIZE = 500"

record ingest_state =
  ing_buf :: "(string \<times> EnrichedReceiptInput) list"
  ing_staging :: staging
  ing_staged :: nat

definition ingest_step ::
  "platform \<Rightarrow> string \<Rightarrow> string \<Rightarrow> string \<times> EnrichedReceiptInput \<Rightarrow> ingest_state \<Rightarrow> ingest_state" where
  "ingest_step P usina worker enriched s =
     (let buf = ing_buf s @ [enriched]
      in if length buf \<ge> RECEIPT_BATCH_SIZE
         then \<lparr>ing_buf = [], ing_staging = stage_receipts P usina worker buf (ing_staging s),
               ing_staged = ing_staged s + RECEIPT_BATCH_SIZE\<rparr>
         else s\<lparr>ing_buf := buf\<rparr>)"

text \<open>The store, the warnings and the number the job reports.\<close>

definition ingest_receipts ::
  "platform \<Rightarrow> string \<Rightarrow> string \<Rightarrow> (string \<times> EnrichedReceiptInput) list \<Rightarrow> staging \<Rightarrow> staging \<times> nat" where
  "ingest_receipts P usina worker stream staging =
     (let s = fold (ingest_step P usina worker) stream \<lparr>ing_buf = [], ing_staging = staging, ing_staged = 0\<rparr>
      in if ing_buf s \<noteq> []
         then (stage_receipts P usina worker (ing_buf s) (ing_staging s), ing_staged s + length (ing_buf s))
         else (ing_staging s, ing_staged s))"

section \<open>Advances\<close>

record EnrichedAdvanceInput =
  adv_advanceReportId :: string
  adv_amountToPay :: rat
  adv_brokerId :: "string option"
  adv_isPaid :: bool
  adv_isCancelled :: bool
  adv_createdAt :: instant

text \<open>Writing a number that is refused into the warning is left to \<open>show_number\<close>.\<close>

definition advance_refusal :: "(rat \<Rightarrow> string) \<Rightarrow> EnrichedAdvanceInput \<Rightarrow> string option" where
  "advance_refusal show_number i =
     (let skipped = ''Skipped advance '' @ adv_advanceReportId i @ '': ''
      in if \<not> adv_isPaid i then Some (skipped @ ''not paid'')
      else if adv_isCancelled i then Some (skipped @ ''cancelled'')
      else if adv_amountToPay i \<le> 0
        then Some (skipped @ ''amountToPay='' @ show_number (adv_amountToPay i) @ '' is not positive'')
      else if \<not> truthy (adv_brokerId i) then Some (skipped @ ''brokerId is empty'')
      else None)"

definition advance_candidate ::
  "platform \<Rightarrow> string \<Rightarrow> string \<Rightarrow> string \<Rightarrow> EnrichedAdvanceInput \<Rightarrow> StagingRecord" where
  "advance_candidate P usinaPartyId workerId uuid i =
     (let amountStr = toFixed_2 (adv_amountToPay i)
      in \<lparr>sr_id = uuid, sr_status = pending_record,
          sr_eventType = Some (eventType_value EventType.ADVANCE_PAYMENT),
          sr_economicEffect = Some (economicEffect_value EconomicEffect.CASH_OUT),
          sr_occurredAt = Some (iso_string P (adv_createdAt i)), sr_sourceAt = None, sr_dueAt = None,
          sr_amount = Some amountStr, sr_currency = Some ''BRL'', sr_description = None,
          sr_sourceSystem = Some ''integration'',
          sr_sourceReference = Some (''advance:'' @ adv_advanceReportId i @ '':disbursement''),
          sr_normalizationVersion = Some ''1.0'', sr_normalizationWorkerId = Some workerId,
          sr_relatedEventId = None,
          sr_parties = Some
            [\<lparr>sp_partyId = Some usinaPartyId, sp_role = Some (partyRole_value PartyRole.PAYER),
              sp_direction = Some (direction_value Direction.OUT), sp_amount = Some amountStr\<rparr>,
             \<lparr>sp_partyId = adv_brokerId i, sp_role = Some (partyRole_value PartyRole.PAYEE),
              sp_direction = Some (direction_value Direction.NEUTRAL), sp_amount = None\<rparr>],
          sr_objects = Some
            [\<lparr>so_objectId = Some (adv_advanceReportId i), so_objectType = Some (objectType_value ObjectType.ADVANCE),
              so_relation = Some (relation_value Relation.ORIGINATES)\<rparr>],
          sr_reason = Some \<lparr>sn_type = Some (reasonType_value ReasonType.ADVANCE_PAYMENT),
            sn_description = Some ''Advance on future commission'',
            sn_confidence = Some (confidenceLevel_value ConfidenceLevel.HIGH), sn_requiresFollowup = Some False\<rparr>,
          sr_reporter = Some \<lparr>sq_reporterType = Some (reporterType_value ReporterType.SYSTEM),
            sq_reporterId = Some ''advance-posting-job'', sq_reporterName = None,
            sq_channel = Some ''batch-integration''\<rparr>\<rparr>)"

definition build_advance ::
  "platform \<Rightarrow> (rat \<Rightarrow> string) \<Rightarrow> string \<Rightarrow> string \<Rightarrow> string \<times> EnrichedAdvanceInput \<Rightarrow> string + StagingRecord" where
  "build_advance P show_number usina worker =
     (\<lambda>(uuid, i). case advance_refusal show_number i of
        Some warning \<Rightarrow> Inl warning
      | None \<Rightarrow> Inr (advance_candidate P usina worker uuid i))"

definition ingest_advances ::
  "platform \<Rightarrow> (rat \<Rightarrow> string) \<Rightarrow> string \<Rightarrow> string \<Rightarrow> (string \<times> EnrichedAdvanceInput) list \<Rightarrow> staging
     \<Rightarrow> staging \<times> nat" where
  "ingest_advances P show_number usina worker stream staging =
     fold (\<lambda>i (s, staged). (stage (build_advance P show_number usina worker i) s, staged + 1)) stream (staging, 0)"

section \<open>Reading the documents\<close>

text \<open>A field of a document: a date, a text, or anything else (absent, a number, a list).\<close>

datatype document_value = Doc_date instant | Doc_text string | Doc_other

fun isNonEmptyString :: "document_value \<Rightarrow> bool" where
  "isNonEmptyString (Doc_text s) = (trim s \<noteq> [])"
| "isNonEmptyString _ = False"

fun document_text :: "document_value \<Rightarrow> string" where
  "document_text (Doc_text s) = s"
| "document_text _ = []"

record receipt_document =
  doc_receipt_id :: "string option"
  doc_proposal_id :: string
  doc_installment_number :: rat
  doc_downloaded_value :: string
  doc_discharge_date :: document_value
  doc_receipt_status :: string
  doc_created_at :: document_value
  doc_number :: "string option"
  doc_client_id :: "string option"
  doc_effective_date :: document_value
  doc_updated_at :: document_value

definition registered_at :: "platform \<Rightarrow> instant \<Rightarrow> receipt_document \<Rightarrow> string" where
  "registered_at P now d =
     (if isNonEmptyString (doc_effective_date d) then document_text (doc_effective_date d)
      else case doc_updated_at d of Doc_date t \<Rightarrow> iso_string P t | _ \<Rightarrow> iso_string P now)"

definition enrich_receipt :: "platform \<Rightarrow> instant \<Rightarrow> receipt_document \<Rightarrow> EnrichedReceiptInput" where
  "enrich_receipt P now d =
     \<lparr>rcp_receiptId = doc_receipt_id d, rcp_proposalId = doc_proposal_id d,
      rcp_installmentNumber = doc_installment_number d, rcp_downloadedValue = doc_downloaded_value d,
      rcp_dischargeDate = (case doc_discharge_date d of Doc_date t \<Rightarrow> Some (iso_string P t) | _ \<Rightarrow> None),
      rcp_receiptStatus = doc_receipt_status d, rcp_proposalNumber = doc_number d, rcp_operatorId = doc_client_id d,
      rcp_brokerId = None, rcp_registeredAt = registered_at P now d,
      rcp_createdAt = (case doc_created_at d of
          Doc_date t \<Rightarrow> iso_string P t
        | Doc_text s \<Rightarrow> if trim s \<noteq> [] then s else registered_at P now d
        | Doc_other \<Rightarrow> registered_at P now d)\<rparr>"

section \<open>The context of proposals\<close>

record ProposalContextInput =
  pci_proposalId :: "string option"
  pci_proposalNumber :: "string option"
  pci_operatorId :: "string option"
  pci_brokerId :: "string option"
  pci_supervisorId :: "string option"
  pci_registeredAt :: string

record ProposalContext =
  pcx_proposalId :: string
  pcx_proposalNumber :: string
  pcx_operatorId :: string
  pcx_brokerId :: "string option"
  pcx_supervisorId :: "string option"
  pcx_registeredAt :: instant

text \<open>One round of the loop: the contexts kept so far are also the identifiers seen.\<close>

definition normalize_step ::
  "platform \<Rightarrow> ProposalContextInput \<Rightarrow> ProposalContext list \<times> string list \<Rightarrow> ProposalContext list \<times> string list" where
  "normalize_step P i = (\<lambda>(result, warnings).
     let rejected = ''Rejected '' @ str (pci_proposalId i) @ '': '' in
     if \<not> isNonEmpty (pci_proposalId i) then (result, warnings @ [''Rejected: proposalId null or empty''])
     else if \<not> isNonEmpty (pci_operatorId i) then (result, warnings @ [rejected @ ''operatorId null or empty''])
     else if \<not> isNonEmpty (pci_proposalNumber i) then (result, warnings @ [rejected @ ''proposalNumber null or empty''])
     else case date_parse P (pci_registeredAt i) of
         None \<Rightarrow> (result, warnings @ [rejected @ ''registeredAt is not a valid date''])
       | Some t \<Rightarrow>
           if str (pci_proposalId i) \<in> set (map pcx_proposalId result)
           then (result, warnings @ [''Skipped duplicate proposalId: '' @ str (pci_proposalId i)])
           else (result @ [\<lparr>pcx_proposalId = str (pci_proposalId i), pcx_proposalNumber = str (pci_proposalNumber i),
                   pcx_operatorId = str (pci_operatorId i), pcx_brokerId = pci_brokerId i,
                   pcx_supervisorId = pci_supervisorId i, pcx_registeredAt = t\<rparr>], warnings))"

definition normalize_proposals :: "platform \<Rightarrow> ProposalContextInput list \<Rightarrow> ProposalContext list \<times> string list" where
  "normalize_proposals P inputs = fold (normalize_step P) inputs ([], [])"

section \<open>Positive numbers are positive amounts\<close>

lemma zeros_value: "list_all (\<lambda>c. c = CHR ''0'') ds \<Longrightarrow> digits_value ds = 0"
proof (induction ds rule: rev_induct)
  case Nil
  show ?case by (simp add: digits_value_def)
next
  case (snoc c ds)
  then show ?case by (simp add: digits_value_append digit_value_def)
qed

lemma positive_float_value:
  assumes "positive_float v"
  obtains x where "float_value v = Some x" "0 < x"
proof (cases "float_value v")
  case None
  with assms show thesis by (simp only: positive_float_def option.case)
next
  case (Some x)
  with assms have "1 / 2 ^ 1075 < x" by (simp only: positive_float_def option.case)
  moreover have "0 < (1 :: rat) / 2 ^ 1075" by (rule divide_pos_pos [OF zero_less_one zero_less_power [OF zero_less_numeral]])
  ultimately have "0 < x" by (rule less_trans [rotated])
  with Some show thesis by (rule that)
qed

lemma positive_float_given:
  assumes "positive_float v"
  shows "\<not> not_positive v"
proof
  assume v: "not_positive v"
  then have plain: "\<forall>c\<in>set v. c = CHR ''0'' \<or> c = CHR ''.''" by (simp add: not_positive_def list_all_iff)
  then have start: "dropWhile is_space v = v" "split_sign v = (False, v)"
    by (cases v; auto simp: is_space_def split_sign_def)+
  have not_digit: "\<not> is_digit CHR ''.''" by (simp add: is_digit_def)
  have zeros: "digits_value (takeWhile is_digit w @ takeWhile is_digit u) = 0" if "set w \<subseteq> set v" "set u \<subseteq> set v" for w u
  proof (rule zeros_value, unfold list_all_iff, rule ballI)
    fix c assume "c \<in> set (takeWhile is_digit w @ takeWhile is_digit u)"
    then have "c \<in> set v" "is_digit c" using that by (auto dest!: set_takeWhileD)
    then show "c = CHR ''0''" using bspec [OF plain] not_digit by blast
  qed
  obtain x where x: "float_value v = Some x" "0 < x" by (rule positive_float_value [OF assms])
  obtain fp rest where split: "(case dropWhile is_digit v of [] \<Rightarrow> ([], [])
      | c # w \<Rightarrow> if c = CHR ''.'' then (takeWhile is_digit w, dropWhile is_digit w) else ([], c # w)) = (fp, rest)"
    by (rule prod.exhaust) blast
  have "digits_value (takeWhile is_digit v @ fp) = 0"
  proof (cases "dropWhile is_digit v")
    case Nil
    then show ?thesis using split zeros [of v "[]"] unfolding Nil by simp
  next
    case (Cons c w)
    have "set (c # w) \<subseteq> set v" unfolding Cons [symmetric] by (rule subsetI) (rule set_dropWhileD)
    then have "set w \<subseteq> set v" by simp
    then show ?thesis using split zeros [of v w] zeros [of v "[]"] unfolding Cons by (simp split: if_splits)
  qed
  then show False
    using x unfolding float_value_def start Let_def prod.case split by (simp split: if_splits)
qed

section \<open>A command that is recorded\<close>

definition props_for :: "call_env \<Rightarrow> store \<Rightarrow> CreateLedgerEventCommand \<Rightarrow> Money \<Rightarrow> CreateLedgerEventProps" where
  "props_for env st cmd m = make_props env cmd (env_uuid env) m
     \<lparr>src_system = cmd_sourceSystem cmd, src_reference = cmd_sourceReference cmd\<rparr>
     \<lparr>norm_version = cmd_normalizationVersion cmd, norm_workerId = cmd_normalizationWorkerId cmd\<rparr>
     (getLastEventHash st) (map (made_party m) (cmd_parties cmd))"

text \<open>The texts and identifiers of a command that is new to the book.\<close>

definition new_to :: "call_env \<Rightarrow> store \<Rightarrow> CreateLedgerEventCommand \<Rightarrow> bool" where
  "new_to env st cmd \<longleftrightarrow> texts_given env cmd \<and>
     (\<forall>e\<in>set st. src_reference (ev_source e) \<noteq> cmd_sourceReference cmd \<and> ev_id e \<noteq> env_uuid env)"

definition well_formed_command :: "CreateLedgerEventCommand \<Rightarrow> bool" where
  "well_formed_command cmd \<longleftrightarrow>
     cmd_amount cmd \<noteq> [] \<and> (\<forall>q\<in>set (cmd_parties cmd). pi_amount q \<in> {None, Some (cmd_amount cmd)})
     \<and> cmd_parties cmd \<noteq> [] \<and> cmd_objects cmd \<noteq> []
     \<and> flows_admitted (cmd_economicEffect cmd) (map (\<lambda>q. (pi_role q, pi_direction q, pi_amount q \<noteq> None)) (cmd_parties cmd))
     \<and> roles_admitted (map (\<lambda>q. (pi_role q, pi_direction q, pi_amount q \<noteq> None)) (cmd_parties cmd))
     \<and> cmd_occurredAt cmd \<noteq> None \<and> cmd_sourceAt cmd \<noteq> Some None \<and> cmd_dueAt cmd \<noteq> Some None"

lemma command_accepts:
  assumes "fromDecimal (cmd_amount cmd) (cmd_currency cmd) = Inr m" "0 < units m"
    and "well_formed_command cmd" "new_to env st cmd" "guards_pass st cmd m" "admissible (props_for env st cmd m)"
  shows "accepts env st cmd (props_for env st cmd m)"
proof -
  note w = assms(3) [unfolded well_formed_command_def]
  have "emap (make_party (cmd_currency cmd)) (cmd_parties cmd) = Inr (map (made_party m) (cmd_parties cmd))"
    by (rule make_parties [OF assms(1)]) (use w in simp_all)
  then have props: "command_props env st cmd = Some (props_for env st cmd m)"
    by (simp add: command_props_def assms(1) props_for_def)
  have "flows_ok (props_for env st cmd m)"
    by (rule flows_admitted_scale [where qs = "cmd_parties cmd"])
       (use w assms(2) in \<open>simp_all add: props_for_def make_props_def\<close>)
  moreover have "basic_ok (props_for env st cmd m)"
    using w assms(2) by (auto simp: basic_ok_def props_for_def make_props_def roles_admitted_def list_all_iff made_party_def)
  moreover have "dates_ok (props_for env st cmd m)"
    using w by (auto simp: dates_ok_def props_for_def make_props_def)
  moreover have "pr_amount (props_for env st cmd m) = m" by (simp add: props_for_def make_props_def)
  ultimately show ?thesis using props assms(4-6) by (simp add: accepts_def new_to_def)
qed

lemma handle_posts:
  assumes "validateRecord known (ps_ledger s) r = []" "toCreateCommand P r = Some cmd" "cmd_commandId cmd = None"
    and "(if resolver then resolve (ps_ledger s) r else Inr (cmd_relatedEventId cmd)) = Inr related"
    and "accepts (he_call env) (ps_ledger s) (final_command cmd related) p"
  shows "handle P env known resolver s r =
    Inr (s\<lparr>ps_ledger := ps_ledger s @ [event_of P (env_recordedAt (he_call env)) p],
           ps_audit := ps_audit s @ [audit_created P (final_command cmd related) (event_of P (env_recordedAt (he_call env)) p)],
           ps_staging := mark accepted_record (sr_id r) (ps_staging s)\<rparr>)"
proof -
  have "known_command (ps_ledger s) (final_command cmd related) = None"
    by (simp add: known_command_None final_command_fields assms(3))
  from execute_recordsI [OF this assms(5) refl] show ?thesis
    using assms(1-4) by (simp add: handle_def post_record_def final_command_def)
qed

section \<open>A receipt that is staged is recorded\<close>

definition receipt_money :: "EnrichedReceiptInput \<Rightarrow> string" where
  "receipt_money i = (if positive_float (rcp_downloadedValue i) then rcp_downloadedValue i else ''0'')"

text \<open>The command the posting job reads from a staged receipt.\<close>

definition receipt_command_of :: "platform \<Rightarrow> string \<Rightarrow> string \<Rightarrow> EnrichedReceiptInput \<Rightarrow> CreateLedgerEventCommand" where
  "receipt_command_of P usina worker i =
     (let isBaixado = (rcp_receiptStatus i = DISCHARGED); v = rcp_downloadedValue i;
          operator = str (rcp_operatorId i); receipt = str (rcp_receiptId i)
      in \<lparr>cmd_eventType = (if isBaixado then EventType.COMMISSION_RECEIVED else EventType.COMMISSION_EXPECTED),
          cmd_economicEffect = (if isBaixado then EconomicEffect.CASH_IN else EconomicEffect.NON_CASH),
          cmd_occurredAt = parseInstant P (if isBaixado then str (rcp_dischargeDate i)
            else iso_string P (the (date_parse P (rcp_createdAt i)))),
          cmd_sourceAt = parseOptionalInstant P (rcp_dischargeDate i), cmd_dueAt = None,
          cmd_amount = receipt_money i, cmd_currency = ''BRL'', cmd_description = None,
          cmd_sourceSystem = ''integration'',
          cmd_sourceReference = ''receipt:'' @ receipt @ '':'' @ (if isBaixado then ''received'' else ''expected''),
          cmd_normalizationVersion = ''1.0'', cmd_normalizationWorkerId = worker, cmd_commandId = None,
          cmd_relatedEventId = None,
          cmd_parties = (if isBaixado
            then [\<lparr>pi_partyId = operator, pi_role = PartyRole.PAYER, pi_direction = Direction.OUT, pi_amount = None\<rparr>,
                  \<lparr>pi_partyId = usina, pi_role = PartyRole.PAYEE, pi_direction = Direction.IN, pi_amount = Some v\<rparr>]
            else [\<lparr>pi_partyId = operator, pi_role = PartyRole.PAYER, pi_direction = Direction.NEUTRAL, pi_amount = None\<rparr>,
                  \<lparr>pi_partyId = usina, pi_role = PartyRole.PAYEE, pi_direction = Direction.NEUTRAL, pi_amount = None\<rparr>]),
          cmd_objects =
            [\<lparr>obj_id = ''receivable:'' @ receipt, obj_type = ObjectType.COMMISSION_RECEIVABLE,
              obj_relation = (if isBaixado then Relation.SETTLES else Relation.ORIGINATES)\<rparr>,
             \<lparr>obj_id = rcp_proposalId i, obj_type = ObjectType.PROPOSAL, obj_relation = Relation.REFERENCES\<rparr>,
             \<lparr>obj_id = rcp_proposalId i @ '':'' @ bigint_string \<lfloor>rcp_installmentNumber i\<rfloor>,
              obj_type = ObjectType.INSTALLMENT, obj_relation = Relation.REFERENCES\<rparr>],
          cmd_reason = Some \<lparr>rsn_type = (if isBaixado then ReasonType.COMMISSION_PAYMENT else ReasonType.COMMISSION_ACCRUAL),
            rsn_description = ''Receipt receivable recognition'', rsn_confidence = ConfidenceLevel.MEDIUM,
            rsn_requiresFollowup = False\<rparr>,
          cmd_reporter = \<lparr>ri_reporterType = ReporterType.SYSTEM, ri_reporterId = ''receipt-posting-job'',
            ri_reporterName = None, ri_channel = ''batch-integration''\<rparr>\<rparr>)"

lemma built_receipt_reads:
  "toCreateCommand P (receipt_candidate P usina worker uuid i) = Some (receipt_command_of P usina worker i)"
proof -
  have enums: "eventType_of ''commission_received'' = Some EventType.COMMISSION_RECEIVED"
    "eventType_of ''commission_expected'' = Some EventType.COMMISSION_EXPECTED"
    "economicEffect_of ''cash_in'' = Some EconomicEffect.CASH_IN" "economicEffect_of ''non_cash'' = Some EconomicEffect.NON_CASH"
    "partyRole_of ''payer'' = Some PartyRole.PAYER" "partyRole_of ''payee'' = Some PartyRole.PAYEE"
    "direction_of ''in'' = Some Direction.IN" "direction_of ''out'' = Some Direction.OUT"
    "direction_of ''neutral'' = Some Direction.NEUTRAL"
    "objectType_of ''commission_receivable'' = Some ObjectType.COMMISSION_RECEIVABLE"
    "objectType_of ''proposal'' = Some ObjectType.PROPOSAL" "objectType_of ''installment'' = Some ObjectType.INSTALLMENT"
    "relation_of ''settles'' = Some Relation.SETTLES" "relation_of ''originates'' = Some Relation.ORIGINATES"
    "relation_of ''references'' = Some Relation.REFERENCES"
    "reasonType_of ''commission_payment'' = Some ReasonType.COMMISSION_PAYMENT"
    "reasonType_of ''commission_accrual'' = Some ReasonType.COMMISSION_ACCRUAL"
    "confidenceLevel_of ''medium'' = Some ConfidenceLevel.MEDIUM" "reporterType_of ''system'' = Some ReporterType.SYSTEM"
    by code_simp+
  show ?thesis
    by (cases "rcp_receiptStatus i = DISCHARGED")
       (simp_all add: toCreateCommand_def receipt_candidate_def Let_def receipt_command_of_def str_def enums
          buildCashInParties_def buildNonCashParties_def buildObjects_def cast_party_def cast_object_def
          cast_reason_def cast_reporter_def receipt_money_def parseOptionalInstant_def)
qed

text \<open>
  The texts a receipt needs beyond the guards of the builder: the identifiers of the configuration and
  of the proposal, an amount with at most two places, and a date the ledger reads.
\<close>

definition readable_record :: "platform \<Rightarrow> StagingRecord \<Rightarrow> bool" where
  "readable_record P r \<longleftrightarrow> str (sr_occurredAt r) \<noteq> [] \<and> parseInstant P (str (sr_occurredAt r)) \<noteq> None
     \<and> (truthy (sr_sourceAt r) \<longrightarrow> parseInstant P (str (sr_sourceAt r)) \<noteq> None)"

definition complete_receipt :: "string \<Rightarrow> string \<Rightarrow> EnrichedReceiptInput \<Rightarrow> bool" where
  "complete_receipt usina worker i \<longleftrightarrow> usina \<noteq> [] \<and> worker \<noteq> [] \<and> rcp_proposalId i \<noteq> []
     \<and> is_decimal (rcp_downloadedValue i) \<and> positive_float (rcp_downloadedValue i)"

lemma isNonEmpty_str: "isNonEmpty v \<Longrightarrow> str v \<noteq> []"
  by (auto simp: isNonEmpty_def trim_def)

lemma receipt_staged_ok:
  assumes "receipt_refusal P i = None" "complete_receipt usina worker i"
    and "readable_record P (receipt_candidate P usina worker uuid i)" "''integration'' \<in> set known"
  shows "staged_ok known (receipt_candidate P usina worker uuid i)"
proof -
  have "isNonEmpty (rcp_operatorId i)" using assms(1) by (simp add: receipt_refusal_def Let_def split: if_splits)
  note texts = isNonEmpty_str [OF this]
  have dec: "str (Some (rcp_downloadedValue i)) \<noteq> []" using assms(2) by (auto simp: complete_receipt_def is_decimal_def str_def)
  have enums: "eventType_of ''commission_received'' \<noteq> None"
    "eventType_of ''commission_expected'' \<noteq> None" "economicEffect_of ''cash_in'' \<noteq> None" "economicEffect_of ''non_cash'' \<noteq> None"
    "partyRole_of ''payer'' \<noteq> None" "partyRole_of ''payee'' \<noteq> None" "direction_of ''in'' \<noteq> None" "direction_of ''out'' \<noteq> None"
    "direction_of ''neutral'' \<noteq> None" "objectType_of ''commission_receivable'' \<noteq> None"
    "objectType_of ''proposal'' \<noteq> None" "objectType_of ''installment'' \<noteq> None" "relation_of ''settles'' \<noteq> None"
    "relation_of ''originates'' \<noteq> None" "relation_of ''references'' \<noteq> None" "reasonType_of ''commission_payment'' \<noteq> None"
    "reasonType_of ''commission_accrual'' \<noteq> None" "confidenceLevel_of ''medium'' \<noteq> None" "reporterType_of ''system'' \<noteq> None"
    "trim ''Receipt receivable recognition'' \<noteq> []"
    by code_simp+
  show ?thesis
    using assms(2-4) texts dec enums
    by (cases "rcp_receiptStatus i = DISCHARGED")
       (simp_all add: staged_ok_def REQUIRED_FIELDS_def receipt_candidate_def Let_def complete_receipt_def readable_record_def
          buildCashInParties_def buildNonCashParties_def buildObjects_def party_ok_def object_ok_def staged_reason_ok_def
          reporter_complete_def str_def)
qed

lemma receipt_well_formed:
  assumes "complete_receipt usina worker i" "readable_record P (receipt_candidate P usina worker uuid i)"
  shows "well_formed_command (final_command (receipt_command_of P usina worker i) related)"
proof -
  have "rcp_downloadedValue i \<noteq> []" using assms(1) by (auto simp: complete_receipt_def is_decimal_def)
  moreover have "parseOptionalInstant P (rcp_dischargeDate i) \<noteq> Some None"
    using assms(2) by (auto simp: readable_record_def receipt_candidate_def Let_def parseOptionalInstant_def str_def split: option.splits)
  ultimately show ?thesis
    using assms
    by (cases "rcp_receiptStatus i = DISCHARGED")
       (simp_all add: well_formed_command_def final_command_def markOrphanIfUnlinked_def receipt_command_of_def Let_def
          receipt_money_def complete_receipt_def flows_admitted_def carried_def roles_admitted_def
          readable_record_def receipt_candidate_def str_def)
qed

lemma receipt_admissible:
  assumes "if rcp_receiptStatus i = DISCHARGED then related \<noteq> Some [] else related = None"
  shows "admissible (props_for env st (final_command (receipt_command_of P usina worker i) related) m)"
proof (cases "rcp_receiptStatus i = DISCHARGED")
  case True
  show ?thesis
    using assms True
    by (cases related)
       (simp_all add: admissible_def props_for_def make_props_def final_command_def markOrphanIfUnlinked_def
          receipt_command_of_def Let_def algebra_simps_tables has_relation_def is_contextual_def admissible_object_def
          tuple_admissible_def unknown_origin_declared_def allowed_by_def contract_entry_def contract_object_def)
next
  case False
  show ?thesis
    using assms False
    by (simp add: admissible_def props_for_def make_props_def final_command_def markOrphanIfUnlinked_def
          receipt_command_of_def Let_def algebra_simps_tables has_relation_def is_contextual_def admissible_object_def
          tuple_admissible_def unknown_origin_declared_def allowed_by_def contract_entry_def contract_object_def)
qed

text \<open>The receipt is new to the book, and a discharged one does not close more than its position has left.\<close>

definition receivable_of :: "EnrichedReceiptInput \<Rightarrow> string" where
  "receivable_of i = ''receivable:'' @ str (rcp_receiptId i)"

definition book_takes_receipt :: "call_env \<Rightarrow> store \<Rightarrow> EnrichedReceiptInput \<Rightarrow> bool" where
  "book_takes_receipt env st i \<longleftrightarrow> env_uuid env \<noteq> []
     \<and> (\<forall>e\<in>set st. ev_id e \<noteq> env_uuid env \<and> src_reference (ev_source e) \<noteq> ''receipt:'' @ str (rcp_receiptId i) @ '':''
          @ (if rcp_receiptStatus i = DISCHARGED then ''received'' else ''expected''))
     \<and> (rcp_receiptStatus i = DISCHARGED \<longrightarrow> (\<forall>m. fromDecimal (rcp_downloadedValue i) ''BRL'' = Inr m \<longrightarrow>
          settles_within st m \<lparr>obj_id = receivable_of i, obj_type = ObjectType.COMMISSION_RECEIVABLE,
            obj_relation = Relation.SETTLES\<rparr>))"

definition receipt_origin_of :: "store \<Rightarrow> EnrichedReceiptInput \<Rightarrow> string option" where
  "receipt_origin_of st i = (if rcp_receiptStatus i = DISCHARGED then findExpected st (receivable_of i) else None)"

lemma receipt_resolves:
  "resolve st (receipt_candidate P usina worker uuid i) = Inr (receipt_origin_of st i)"
proof -
  have "eventType_value EventType.COMMISSION_EXPECTED \<noteq> eventType_value EventType.COMMISSION_RECEIVED" by simp
  then show ?thesis
    by (cases "rcp_receiptStatus i = DISCHARGED")
       (simp_all add: resolve_def receipt_candidate_def Let_def buildObjects_def receipt_origin_of_def receivable_of_def str_def)
qed

lemma receipt_guards:
  assumes "distinct (map ev_id st)" "book_takes_receipt env st i" "fromDecimal (rcp_downloadedValue i) ''BRL'' = Inr m"
  shows "guards_pass st (final_command (receipt_command_of P usina worker i) (receipt_origin_of st i)) m"
proof -
  let ?cmd = "final_command (receipt_command_of P usina worker i) (receipt_origin_of st i)"
  have fields: "cmd_relatedEventId ?cmd = receipt_origin_of st i" "\<not> has_relation Relation.RETRACTS (cmd_objects ?cmd)"
    "cmd_eventType ?cmd = (if rcp_receiptStatus i = DISCHARGED then EventType.COMMISSION_RECEIVED else EventType.COMMISSION_EXPECTED)"
    by (simp_all add: final_command_fields receipt_command_of_def Let_def has_relation_def)
  have "\<exists>originEvent. find_origin st ?cmd = Inr originEvent"
  proof (cases "truthy (receipt_origin_of st i)")
    case False
    then show ?thesis unfolding find_origin_iff fields by simp
  next
    case True
    then obtain r where r: "receipt_origin_of st i = Some r" "rcp_receiptStatus i = DISCHARGED"
      by (cases "rcp_receiptStatus i = DISCHARGED"; cases "receipt_origin_of st i") (simp_all add: receipt_origin_of_def)
    then obtain e where e: "e \<in> set st" "ev_id e = r" "ev_eventType e = EventType.COMMISSION_EXPECTED"
      using findExpected_Some by (metis receipt_origin_of_def)
    then have "getById st r = Some e" using memory.getById_member [of st r e] assms(1) by (simp add: findAll_def)
    then show ?thesis
      unfolding find_origin_iff fields using True r e by (simp add: algebra_simps_tables)
  qed
  moreover have "retraction_rules st ?cmd originEvent = None" for originEvent
    using fields(2) by (simp add: retraction_rules_def split: option.splits)
  moreover have "settles_within st m ob" if "ob \<in> set (cmd_objects ?cmd)" "obj_relation ob = Relation.SETTLES" for ob
    using that assms(2,3)
    by (auto simp: final_command_fields receipt_command_of_def Let_def book_takes_receipt_def receivable_of_def split: if_splits)
  ultimately show ?thesis by (simp add: guards_pass_def)
qed

text \<open>
  What the event of a receipt says, apart from its seal. A discharged receipt is cash that the operator
  pays to the company on the day of the discharge and that settles the receivable; an open one is an
  expectation of the day it was created, without flows, that originates it. Both refer to the proposal
  and to the installment. A discharged receipt whose expectation the book does not hold is told as one
  of unknown origin, to be followed up.
\<close>

definition receipt_parties :: "string \<Rightarrow> EnrichedReceiptInput \<Rightarrow> Money \<Rightarrow> LedgerEventParty list" where
  "receipt_parties usina i m =
     (if rcp_receiptStatus i = DISCHARGED
      then [\<lparr>party_id = str (rcp_operatorId i), party_role = PartyRole.PAYER, party_direction = Direction.OUT,
              party_amount = None\<rparr>,
            \<lparr>party_id = usina, party_role = PartyRole.PAYEE, party_direction = Direction.IN, party_amount = Some m\<rparr>]
      else [\<lparr>party_id = str (rcp_operatorId i), party_role = PartyRole.PAYER, party_direction = Direction.NEUTRAL,
              party_amount = None\<rparr>,
            \<lparr>party_id = usina, party_role = PartyRole.PAYEE, party_direction = Direction.NEUTRAL, party_amount = None\<rparr>])"

definition receipt_objects :: "EnrichedReceiptInput \<Rightarrow> LedgerEventObject list" where
  "receipt_objects i =
     [\<lparr>obj_id = receivable_of i, obj_type = ObjectType.COMMISSION_RECEIVABLE,
       obj_relation = (if rcp_receiptStatus i = DISCHARGED then Relation.SETTLES else Relation.ORIGINATES)\<rparr>,
      \<lparr>obj_id = rcp_proposalId i, obj_type = ObjectType.PROPOSAL, obj_relation = Relation.REFERENCES\<rparr>,
      \<lparr>obj_id = rcp_proposalId i @ '':'' @ bigint_string \<lfloor>rcp_installmentNumber i\<rfloor>, obj_type = ObjectType.INSTALLMENT,
       obj_relation = Relation.REFERENCES\<rparr>]"

definition receipt_reason :: "store \<Rightarrow> EnrichedReceiptInput \<Rightarrow> EventReason" where
  "receipt_reason st i =
     (if rcp_receiptStatus i \<noteq> DISCHARGED
      then \<lparr>rsn_type = ReasonType.COMMISSION_ACCRUAL, rsn_description = ''Receipt receivable recognition'',
             rsn_confidence = ConfidenceLevel.MEDIUM, rsn_requiresFollowup = False\<rparr>
      else if receipt_origin_of st i = None
      then \<lparr>rsn_type = ReasonType.UNKNOWN_ORIGIN, rsn_description = ''Commission received with unresolved origin'',
             rsn_confidence = ConfidenceLevel.MEDIUM, rsn_requiresFollowup = True\<rparr>
      else \<lparr>rsn_type = ReasonType.COMMISSION_PAYMENT, rsn_description = ''Receipt receivable recognition'',
             rsn_confidence = ConfidenceLevel.MEDIUM, rsn_requiresFollowup = False\<rparr>)"

definition says_receipt ::
  "platform \<Rightarrow> string \<Rightarrow> string \<Rightarrow> EnrichedReceiptInput \<Rightarrow> store \<Rightarrow> LedgerEvent \<Rightarrow> bool" where
  "says_receipt P usina worker i st ev \<longleftrightarrow>
     (if rcp_receiptStatus i = DISCHARGED
      then ev_eventType ev = EventType.COMMISSION_RECEIVED \<and> ev_economicEffect ev = EconomicEffect.CASH_IN
        \<and> (\<exists>d. rcp_dischargeDate i = Some d \<and> parseInstant P d = Some (ev_occurredAt ev) \<and> ev_sourceAt ev = Some (ev_occurredAt ev))
        \<and> ev_source ev = \<lparr>src_system = ''integration'', src_reference = ''receipt:'' @ str (rcp_receiptId i) @ '':received''\<rparr>
      else ev_eventType ev = EventType.COMMISSION_EXPECTED \<and> ev_economicEffect ev = EconomicEffect.NON_CASH
        \<and> (\<exists>d. date_parse P (rcp_createdAt i) = Some d \<and> parseInstant P (iso_string P d) = Some (ev_occurredAt ev))
        \<and> ev_sourceAt ev = None
        \<and> ev_source ev = \<lparr>src_system = ''integration'', src_reference = ''receipt:'' @ str (rcp_receiptId i) @ '':expected''\<rparr>)
     \<and> fromDecimal (rcp_downloadedValue i) ''BRL'' = Inr (ev_amount ev)
     \<and> ev_dueAt ev = None \<and> ev_description ev = None \<and> ev_commandId ev = None
     \<and> ev_normalization ev = \<lparr>norm_version = ''1.0'', norm_workerId = worker\<rparr>
     \<and> ev_relatedEventId ev = receipt_origin_of st i
     \<and> ev_parties ev = receipt_parties usina i (ev_amount ev)
     \<and> ev_objects ev = receipt_objects i
     \<and> ev_reason ev = Some (receipt_reason st i)
     \<and> rep_type (ev_reporter ev) = ReporterType.SYSTEM \<and> rep_id (ev_reporter ev) = ''receipt-posting-job''
     \<and> rep_name (ev_reporter ev) = None \<and> rep_channel (ev_reporter ev) = ''batch-integration''"

lemma receipt_event_says:
  assumes "receipt_refusal P i = None" "complete_receipt usina worker i"
    and "readable_record P (receipt_candidate P usina worker uuid i)" "fromDecimal (rcp_downloadedValue i) ''BRL'' = Inr m"
  shows "says_receipt P usina worker i st (event_of P now
    (props_for env st (final_command (receipt_command_of P usina worker i) (receipt_origin_of st i)) m))"
proof -
  have v: "rcp_downloadedValue i \<noteq> []" using assms(2) by (auto simp: complete_receipt_def is_decimal_def)
  note defs = says_receipt_def event_of_def props_for_def make_props_def make_reporter_def receipt_command_of_def Let_def
    receipt_parties_def receipt_objects_def receipt_reason_def receivable_of_def made_party_def
  show ?thesis
  proof (cases "rcp_receiptStatus i = DISCHARGED")
    case True
    obtain d where d: "rcp_dischargeDate i = Some d"
      using assms(1) True by (auto simp: receipt_refusal_def Let_def DISCHARGED_def NOT_DISCHARGED_def split: option.splits if_splits)
    obtain t where t: "parseInstant P d = Some t" "d \<noteq> []"
      using assms(3) True d by (auto simp: readable_record_def receipt_candidate_def Let_def str_def)
    show ?thesis
      using True assms(4) d t
      by (cases "receipt_origin_of st i")
         (simp_all add: defs final_command_def markOrphanIfUnlinked_def parseOptionalInstant_def str_def)
  next
    case False
    have none: "rcp_dischargeDate i = None" and "date_parse P (rcp_createdAt i) \<noteq> None"
      using assms(1) False by (auto simp: receipt_refusal_def Let_def split: option.splits if_splits)
    then obtain d where d: "date_parse P (rcp_createdAt i) = Some d" by blast
    obtain t where t: "parseInstant P (iso_string P d) = Some t"
      using assms(3) False d by (auto simp: readable_record_def receipt_candidate_def Let_def str_def)
    have "receipt_origin_of st i = None" using False by (simp add: receipt_origin_of_def)
    then show ?thesis
      using False assms(4) d t none
      by (simp add: defs final_command_def markOrphanIfUnlinked_def parseOptionalInstant_def)
  qed
qed

lemma built_receipt_posted:
  assumes "build_receipt P usina worker (uuid, i) = Inr r" "complete_receipt usina worker i" "readable_record P r"
    and "''integration'' \<in> set known" "distinct (map ev_id (ps_ledger s))" "\<forall>e\<in>set (ps_ledger s). ev_id e \<noteq> []"
    and "book_takes_receipt (he_call env) (ps_ledger s) i"
  obtains ev au where "says_receipt P usina worker i (ps_ledger s) ev"
    "handle P env known True s r = Inr (s\<lparr>ps_ledger := ps_ledger s @ [ev], ps_audit := ps_audit s @ [au],
       ps_staging := mark accepted_record uuid (ps_staging s)\<rparr>)"
proof -
  have r: "receipt_refusal P i = None" "r = receipt_candidate P usina worker uuid i"
    using assms(1) by (simp_all add: build_receipt_def split: option.splits)
  let ?cmd = "final_command (receipt_command_of P usina worker i) (receipt_origin_of (ps_ledger s) i)"
  have amount: "is_decimal (rcp_downloadedValue i)" "\<not> not_positive (rcp_downloadedValue i)" "is_currency ''BRL''"
    using assms(2) positive_float_given by (auto simp: complete_receipt_def is_currency_def less_eq_char_def)
  obtain m where m: "fromDecimal (rcp_downloadedValue i) ''BRL'' = Inr m" "0 < units m" by (rule positive_amount [OF amount])
  have money: "cmd_amount ?cmd = rcp_downloadedValue i" "cmd_currency ?cmd = ''BRL''"
    using assms(2) by (simp_all add: final_command_def markOrphanIfUnlinked_def receipt_command_of_def Let_def
        receipt_money_def complete_receipt_def)
  have "\<not> existsBySourceReference (ps_ledger s) (str (sr_sourceReference r))"
    using assms(7) by (auto simp: existsBySourceReference_def list_ex_iff book_takes_receipt_def r(2) receipt_candidate_def
        Let_def str_def split: if_splits)
  then have valid: "validateRecord known (ps_ledger s) r = []"
    using receipt_staged_ok [OF r(1) assms(2) assms(3) [unfolded r(2)] assms(4)] by (simp add: validateRecord_Nil r(2))
  have "receipt_origin_of (ps_ledger s) i \<noteq> Some []"
    using findExpected_Some [of "ps_ledger s" "receivable_of i" "[]"] assms(6) by (auto simp: receipt_origin_of_def)
  then have "admissible (props_for (he_call env) (ps_ledger s) ?cmd m)"
    by (intro receipt_admissible) (simp add: receipt_origin_of_def split: if_splits)
  moreover have "new_to (he_call env) (ps_ledger s) ?cmd"
    using assms(2,7) by (auto simp: new_to_def texts_given_def final_command_def markOrphanIfUnlinked_def receipt_command_of_def
        Let_def complete_receipt_def book_takes_receipt_def)
  ultimately have "accepts (he_call env) (ps_ledger s) ?cmd (props_for (he_call env) (ps_ledger s) ?cmd m)"
    using receipt_guards [OF assms(5,7) m(1)] m(1)
    by (intro command_accepts [OF _ m(2) receipt_well_formed [OF assms(2) assms(3) [unfolded r(2)]]]) (simp_all add: money)
  from handle_posts [OF valid [unfolded r(2)] built_receipt_reads _ _ this] have posted: "handle P env known True s r =
      Inr (s\<lparr>ps_ledger := ps_ledger s @ [event_of P (env_recordedAt (he_call env)) (props_for (he_call env) (ps_ledger s) ?cmd m)],
        ps_audit := ps_audit s @ [audit_created P ?cmd (event_of P (env_recordedAt (he_call env)) (props_for (he_call env) (ps_ledger s) ?cmd m))],
        ps_staging := mark accepted_record (sr_id (receipt_candidate P usina worker uuid i)) (ps_staging s)\<rparr>)"
    by (simp add: receipt_resolves r(2) receipt_command_of_def Let_def)
  moreover have "sr_id (receipt_candidate P usina worker uuid i) = uuid" by (simp add: receipt_candidate_def Let_def)
  moreover note receipt_event_says [OF r(1) assms(2) assms(3) [unfolded r(2)] m(1), of "ps_ledger s"
      "env_recordedAt (he_call env)" "he_call env"]
  ultimately show thesis using that by simp
qed

text \<open>
  An open receipt without a positive value is staged with the amount \<open>0\<close>, which no event may carry.
\<close>

lemma zero_receipt_staged:
  assumes "build_receipt P usina worker (uuid, i) = Inr r" "\<not> positive_float (rcp_downloadedValue i)"
  shows "sr_id r = uuid" "sr_eventType r = Some (eventType_value EventType.COMMISSION_EXPECTED)" "sr_amount r = Some ''0''"
proof -
  have "receipt_refusal P i = None" "r = receipt_candidate P usina worker uuid i"
    using assms(1) by (simp_all add: build_receipt_def split: option.splits)
  moreover from this have "rcp_receiptStatus i \<noteq> DISCHARGED"
    using assms(2) by (auto simp: receipt_refusal_def Let_def split: if_splits)
  ultimately show "sr_id r = uuid" "sr_eventType r = Some (eventType_value EventType.COMMISSION_EXPECTED)" "sr_amount r = Some ''0''"
    using assms(2) by (simp_all add: receipt_candidate_def Let_def)
qed

lemma zero_receipt_refused:
  assumes "build_receipt P usina worker (uuid, i) = Inr r" "\<not> positive_float (rcp_downloadedValue i)"
    and "trim uuid \<noteq> []" "he_rejectId env \<noteq> []"
  obtains s' where "rcp_receiptStatus i \<noteq> DISCHARGED" "handle P env known resolver s r = Inr s'" "refused s r s'"
proof -
  have r: "receipt_refusal P i = None" "r = receipt_candidate P usina worker uuid i"
    using assms(1) by (simp_all add: build_receipt_def split: option.splits)
  have open_receipt: "rcp_receiptStatus i \<noteq> DISCHARGED" using r(1) assms(2) by (auto simp: receipt_refusal_def Let_def split: if_splits)
  have sid: "sr_id r = uuid" and amount: "sr_amount r = Some ''0''"
    by (rule zero_receipt_staged [OF assms(1,2)])+
  have never: "post_record P env resolver s r \<noteq> Inr s'" if "validateRecord known (ps_ledger s) r = []" for s'
  proof
    assume "post_record P env resolver s r = Inr s'"
    from post_record_built [OF that this] obtain cmd related ev where
      c: "reads_as P r cmd" "execute P (he_call env) (ps_ledger s) (final_command cmd related) =
        Inr (ev, ps_ledger s @ [ev], [audit_created P (final_command cmd related) ev])" by metis
    then have "cmd_amount (final_command cmd related) = ''0''"
      using amount by (simp add: reads_as_def final_command_def markOrphanIfUnlinked_def)
    moreover have "units m = 0" if "fromDecimal ''0'' cu = Inr m" for cu m
      using that fromDecimal_integer [of "''0''" cu]
      by (auto simp: is_digit_def digits_value_def digit_value_def new_Money_def split: if_splits)
    ultimately show False
      using c(2) unfolding execute_records_iff accepts_def command_props_Some
      by (auto simp: basic_ok_def make_props_def)
  qed
  obtain s' where s': "handle P env known resolver s r = Inr s'" "posted s r s' \<or> refused s r s'"
    using handle_outcome [of r env P known resolver s] assms(3,4) sid by metis
  have "\<not> posted s r s'"
  proof
    assume "posted s r s'"
    then have grown: "ps_ledger s' \<noteq> ps_ledger s" by (auto simp: posted_def)
    have "ps_ledger s'' = ps_ledger s" if "reject_record P env s r why = Inr s''" for why s''
      using that by (auto simp: reject_record_def ebind_Inr)
    with s'(1) never grown show False
      by (auto simp: handle_def Let_def split: sum.splits if_splits)
  qed
  with s' open_receipt that show thesis by blast
qed

section \<open>Batches change nothing\<close>

lemma stage_receipts_append:
  "stage_receipts P usina worker (xs @ ys) s = stage_receipts P usina worker ys (stage_receipts P usina worker xs s)"
  by (simp add: stage_receipts_def)

lemma ingest_steps:
  assumes "length (ing_buf s) < RECEIPT_BATCH_SIZE" "s' = fold (ingest_step P usina worker) xs s"
  shows "stage_receipts P usina worker (ing_buf s') (ing_staging s') = stage_receipts P usina worker (ing_buf s @ xs) (ing_staging s)
    \<and> ing_staged s' + length (ing_buf s') = ing_staged s + length (ing_buf s) + length xs"
  using assms
proof (induction xs arbitrary: s)
  case Nil
  then show ?case by simp
next
  case (Cons x xs)
  let ?t = "ingest_step P usina worker x s"
  have "stage_receipts P usina worker (ing_buf ?t) (ing_staging ?t) = stage_receipts P usina worker (ing_buf s @ [x]) (ing_staging s)"
    "ing_staged ?t + length (ing_buf ?t) = ing_staged s + length (ing_buf s) + 1" "length (ing_buf ?t) < RECEIPT_BATCH_SIZE"
    using Cons.prems(1) by (auto simp: ingest_step_def Let_def RECEIPT_BATCH_SIZE_def stage_receipts_def)
  moreover have "stage_receipts P usina worker (ing_buf s @ x # xs) (ing_staging s) =
      stage_receipts P usina worker xs (stage_receipts P usina worker (ing_buf s @ [x]) (ing_staging s))"
    by (simp add: stage_receipts_def)
  ultimately show ?case
    using Cons.IH [of ?t] Cons.prems(2) by (simp add: stage_receipts_append)
qed

lemma ingest_receipts_eq:
  "ingest_receipts P usina worker stream staging = (stage_receipts P usina worker stream staging, length stream)"
proof -
  let ?s = "\<lparr>ing_buf = [], ing_staging = staging, ing_staged = 0\<rparr>"
  let ?t = "fold (ingest_step P usina worker) stream ?s"
  have "stage_receipts P usina worker (ing_buf ?t) (ing_staging ?t) = stage_receipts P usina worker stream staging
      \<and> ing_staged ?t + length (ing_buf ?t) = length stream"
    using ingest_steps [of ?s ?t P usina worker stream] by (simp add: RECEIPT_BATCH_SIZE_def)
  then show ?thesis
    by (cases "ing_buf ?t") (simp_all add: ingest_receipts_def Let_def stage_receipts_def)
qed

text \<open>Every input is either staged or warned about, in the order of the stream.\<close>

definition refusals :: "(string + StagingRecord) list \<Rightarrow> string list" where
  "refusals xs = concat (map (\<lambda>x. case x of Inl w \<Rightarrow> [w] | Inr _ \<Rightarrow> []) xs)"

definition candidates :: "(string + StagingRecord) list \<Rightarrow> StagingRecord list" where
  "candidates xs = concat (map (\<lambda>x. case x of Inl _ \<Rightarrow> [] | Inr r \<Rightarrow> [r]) xs)"

lemma stage_receipts_eq:
  "stage_receipts P usina worker inputs (store, warnings) =
     (store @ candidates (map (build_receipt P usina worker) inputs),
      warnings @ refusals (map (build_receipt P usina worker) inputs))"
  by (induction inputs arbitrary: store warnings)
     (auto simp: stage_receipts_def stage_def save_staged_def candidates_def refusals_def split: sum.splits)

section \<open>An advance that is staged is recorded\<close>

lemma toFixed_2_money: "toFixed_2 x = money_toString \<lparr>units = hundredths x, currency = c\<rparr>"
  by (simp add: toFixed_2_def money_toString_def SCALE_FACTOR_def SCALE_def)

lemma fixed_amount:
  assumes "0 \<le> hundredths x"
  shows "fromDecimal (toFixed_2 x) ''BRL'' = Inr \<lparr>units = hundredths x, currency = ''BRL''\<rparr>" "is_decimal (toFixed_2 x)"
proof -
  have cur: "is_currency ''BRL''" by (simp add: is_currency_def less_eq_char_def)
  show made: "fromDecimal (toFixed_2 x) ''BRL'' = Inr \<lparr>units = hundredths x, currency = ''BRL''\<rparr>"
    using fromDecimal_toString [of "\<lparr>units = hundredths x, currency = ''BRL''\<rparr>" "''BRL''"] assms
      new_Money_ok [OF assms cur]
    by (simp add: toFixed_2_money [where c = "''BRL''"])
  then show "is_decimal (toFixed_2 x)" by (simp add: fromDecimal_def split: if_splits)
qed

definition advance_command_of :: "platform \<Rightarrow> string \<Rightarrow> string \<Rightarrow> EnrichedAdvanceInput \<Rightarrow> CreateLedgerEventCommand" where
  "advance_command_of P usina worker i =
     \<lparr>cmd_eventType = EventType.ADVANCE_PAYMENT, cmd_economicEffect = EconomicEffect.CASH_OUT,
      cmd_occurredAt = parseInstant P (iso_string P (adv_createdAt i)), cmd_sourceAt = None, cmd_dueAt = None,
      cmd_amount = toFixed_2 (adv_amountToPay i), cmd_currency = ''BRL'', cmd_description = None,
      cmd_sourceSystem = ''integration'',
      cmd_sourceReference = ''advance:'' @ adv_advanceReportId i @ '':disbursement'',
      cmd_normalizationVersion = ''1.0'', cmd_normalizationWorkerId = worker, cmd_commandId = None,
      cmd_relatedEventId = None,
      cmd_parties =
        [\<lparr>pi_partyId = usina, pi_role = PartyRole.PAYER, pi_direction = Direction.OUT,
          pi_amount = Some (toFixed_2 (adv_amountToPay i))\<rparr>,
         \<lparr>pi_partyId = str (adv_brokerId i), pi_role = PartyRole.PAYEE, pi_direction = Direction.NEUTRAL, pi_amount = None\<rparr>],
      cmd_objects = [\<lparr>obj_id = adv_advanceReportId i, obj_type = ObjectType.ADVANCE, obj_relation = Relation.ORIGINATES\<rparr>],
      cmd_reason = Some \<lparr>rsn_type = ReasonType.ADVANCE_PAYMENT, rsn_description = ''Advance on future commission'',
        rsn_confidence = ConfidenceLevel.HIGH, rsn_requiresFollowup = False\<rparr>,
      cmd_reporter = \<lparr>ri_reporterType = ReporterType.SYSTEM, ri_reporterId = ''advance-posting-job'',
        ri_reporterName = None, ri_channel = ''batch-integration''\<rparr>\<rparr>"

lemma advance_enums:
  "eventType_of ''advance_payment'' = Some EventType.ADVANCE_PAYMENT" "economicEffect_of ''cash_out'' = Some EconomicEffect.CASH_OUT"
  "partyRole_of ''payer'' = Some PartyRole.PAYER" "partyRole_of ''payee'' = Some PartyRole.PAYEE"
  "direction_of ''out'' = Some Direction.OUT" "direction_of ''neutral'' = Some Direction.NEUTRAL"
  "objectType_of ''advance'' = Some ObjectType.ADVANCE" "relation_of ''originates'' = Some Relation.ORIGINATES"
  "reasonType_of ''advance_payment'' = Some ReasonType.ADVANCE_PAYMENT"
  "confidenceLevel_of ''high'' = Some ConfidenceLevel.HIGH" "reporterType_of ''system'' = Some ReporterType.SYSTEM"
  "trim ''Advance on future commission'' \<noteq> []"
  by code_simp+

lemma advance_reads:
  "toCreateCommand P (advance_candidate P usina worker uuid i) = Some (advance_command_of P usina worker i)"
  by (simp add: toCreateCommand_def advance_candidate_def Let_def advance_command_of_def str_def advance_enums
      cast_party_def cast_object_def cast_reason_def cast_reporter_def parseOptionalInstant_def)

text \<open>At least half a cent, so that the amount written is positive.\<close>

definition complete_advance :: "string \<Rightarrow> string \<Rightarrow> EnrichedAdvanceInput \<Rightarrow> bool" where
  "complete_advance usina worker i \<longleftrightarrow> usina \<noteq> [] \<and> worker \<noteq> [] \<and> adv_advanceReportId i \<noteq> [] \<and> 1 / 200 \<le> adv_amountToPay i"

definition book_takes_advance :: "call_env \<Rightarrow> store \<Rightarrow> EnrichedAdvanceInput \<Rightarrow> bool" where
  "book_takes_advance env st i \<longleftrightarrow> env_uuid env \<noteq> [] \<and> (\<forall>e\<in>set st. ev_id e \<noteq> env_uuid env
     \<and> src_reference (ev_source e) \<noteq> ''advance:'' @ adv_advanceReportId i @ '':disbursement'')"

lemma complete_advance_positive: "complete_advance usina worker i \<Longrightarrow> 0 < hundredths (adv_amountToPay i)"
  by (simp add: complete_advance_def hundredths_def)

lemma advance_staged_ok:
  assumes "complete_advance usina worker i" "truthy (adv_brokerId i)"
    and "readable_record P (advance_candidate P usina worker uuid i)" "''integration'' \<in> set known"
  shows "staged_ok known (advance_candidate P usina worker uuid i)"
proof -
  have dec: "is_decimal (toFixed_2 (adv_amountToPay i))"
    using fixed_amount(2) complete_advance_positive [OF assms(1)] by simp
  then have "toFixed_2 (adv_amountToPay i) \<noteq> []" by (auto simp: is_decimal_def)
  then show ?thesis
    using assms dec
    by (simp add: staged_ok_def REQUIRED_FIELDS_def advance_candidate_def Let_def complete_advance_def readable_record_def
        party_ok_def object_ok_def staged_reason_ok_def reporter_complete_def str_def advance_enums)
qed

text \<open>An advance is cash the company pays to the broker, on the day the advance was made.\<close>

definition says_advance :: "platform \<Rightarrow> string \<Rightarrow> string \<Rightarrow> EnrichedAdvanceInput \<Rightarrow> LedgerEvent \<Rightarrow> bool" where
  "says_advance P usina worker i ev \<longleftrightarrow> ev_eventType ev = EventType.ADVANCE_PAYMENT
     \<and> ev_economicEffect ev = EconomicEffect.CASH_OUT
     \<and> ev_amount ev = \<lparr>units = hundredths (adv_amountToPay i), currency = ''BRL''\<rparr>
     \<and> parseInstant P (iso_string P (adv_createdAt i)) = Some (ev_occurredAt ev)
     \<and> ev_sourceAt ev = None \<and> ev_dueAt ev = None \<and> ev_description ev = None
     \<and> ev_commandId ev = None \<and> ev_relatedEventId ev = None
     \<and> ev_source ev = \<lparr>src_system = ''integration'', src_reference = ''advance:'' @ adv_advanceReportId i @ '':disbursement''\<rparr>
     \<and> ev_normalization ev = \<lparr>norm_version = ''1.0'', norm_workerId = worker\<rparr>
     \<and> ev_parties ev =
          [\<lparr>party_id = usina, party_role = PartyRole.PAYER, party_direction = Direction.OUT, party_amount = Some (ev_amount ev)\<rparr>,
           \<lparr>party_id = str (adv_brokerId i), party_role = PartyRole.PAYEE, party_direction = Direction.NEUTRAL,
             party_amount = None\<rparr>]
     \<and> ev_reason ev = Some \<lparr>rsn_type = ReasonType.ADVANCE_PAYMENT, rsn_description = ''Advance on future commission'',
          rsn_confidence = ConfidenceLevel.HIGH, rsn_requiresFollowup = False\<rparr>
     \<and> rep_type (ev_reporter ev) = ReporterType.SYSTEM \<and> rep_id (ev_reporter ev) = ''advance-posting-job''
     \<and> rep_name (ev_reporter ev) = None \<and> rep_channel (ev_reporter ev) = ''batch-integration''
     \<and> ev_objects ev = [\<lparr>obj_id = adv_advanceReportId i, obj_type = ObjectType.ADVANCE, obj_relation = Relation.ORIGINATES\<rparr>]"

lemma advance_posted:
  assumes "build_advance P show_number usina worker (uuid, i) = Inr r" "complete_advance usina worker i" "readable_record P r"
    and "''integration'' \<in> set known" "book_takes_advance (he_call env) (ps_ledger s) i"
  obtains ev au where "says_advance P usina worker i ev"
    "handle P env known resolver s r = Inr (s\<lparr>ps_ledger := ps_ledger s @ [ev], ps_audit := ps_audit s @ [au],
       ps_staging := mark accepted_record uuid (ps_staging s)\<rparr>)"
proof -
  have refusal: "advance_refusal show_number i = None" and r: "r = advance_candidate P usina worker uuid i"
    using assms(1) by (simp_all add: build_advance_def split: option.splits)
  have broker: "truthy (adv_brokerId i)" using refusal by (simp add: advance_refusal_def Let_def split: if_splits)
  let ?cmd = "advance_command_of P usina worker i"
  let ?m = "\<lparr>units = hundredths (adv_amountToPay i), currency = ''BRL''\<rparr>"
  have final: "final_command ?cmd None = ?cmd"
    by (simp add: final_command_def markOrphanIfUnlinked_def advance_command_of_def)
  have m: "fromDecimal (cmd_amount ?cmd) (cmd_currency ?cmd) = Inr ?m" "0 < units ?m" "cmd_amount ?cmd \<noteq> []"
    using fixed_amount [of "adv_amountToPay i"] complete_advance_positive [OF assms(2)]
    by (auto simp: advance_command_of_def is_decimal_def)
  have "\<not> existsBySourceReference (ps_ledger s) (str (sr_sourceReference r))"
    using assms(5) by (auto simp: existsBySourceReference_def list_ex_iff book_takes_advance_def r advance_candidate_def Let_def str_def)
  then have valid: "validateRecord known (ps_ledger s) r = []"
    using advance_staged_ok [OF assms(2) broker assms(3) [unfolded r] assms(4)] by (simp add: validateRecord_Nil r)
  have "accepts (he_call env) (ps_ledger s) ?cmd (props_for (he_call env) (ps_ledger s) ?cmd ?m)"
  proof (rule command_accepts [OF m(1,2)])
    show "well_formed_command ?cmd"
      using m(3) assms(3)
      by (simp add: well_formed_command_def advance_command_of_def flows_admitted_def carried_def roles_admitted_def
          readable_record_def r advance_candidate_def Let_def str_def)
    show "new_to (he_call env) (ps_ledger s) ?cmd"
      using assms(2,5) by (auto simp: new_to_def texts_given_def advance_command_of_def complete_advance_def book_takes_advance_def)
    show "guards_pass (ps_ledger s) ?cmd ?m"
      by (simp add: guards_pass_def find_origin_iff retraction_rules_def advance_command_of_def)
    show "admissible (props_for (he_call env) (ps_ledger s) ?cmd ?m)"
      by (simp add: admissible_def props_for_def make_props_def advance_command_of_def algebra_simps_tables has_relation_def
          is_contextual_def admissible_object_def tuple_admissible_def unknown_origin_declared_def allowed_by_def
          contract_entry_def contract_object_def)
  qed
  then have "accepts (he_call env) (ps_ledger s) (final_command ?cmd None) (props_for (he_call env) (ps_ledger s) ?cmd ?m)"
    by (simp only: final)
  moreover have "(if resolver then resolve (ps_ledger s) r else Inr (cmd_relatedEventId ?cmd)) = Inr None"
    by (simp add: resolve_def r advance_candidate_def Let_def advance_command_of_def)
  moreover have "cmd_commandId ?cmd = None" by (simp add: advance_command_of_def)
  moreover have "parseInstant P (iso_string P (adv_createdAt i)) \<noteq> None"
    using assms(3) by (simp add: readable_record_def r advance_candidate_def Let_def str_def)
  then have "says_advance P usina worker i
      (event_of P (env_recordedAt (he_call env)) (props_for (he_call env) (ps_ledger s) ?cmd ?m))"
    by (auto simp: says_advance_def event_of_def props_for_def make_props_def advance_command_of_def make_reporter_def
        made_party_def)
  moreover have "sr_id r = uuid" by (simp add: r advance_candidate_def Let_def)
  ultimately show thesis
    using handle_posts [OF valid advance_reads [of P usina worker uuid i, folded r]] that by metis
qed

section \<open>The contexts of proposals\<close>

lemma normalize_keeps:
  assumes "distinct (map pcx_proposalId (fst s))"
  shows "distinct (map pcx_proposalId (fst (fold (normalize_step P) inputs s))) \<and>
    length (fst (fold (normalize_step P) inputs s)) + length (snd (fold (normalize_step P) inputs s))
      = length (fst s) + length (snd s) + length inputs"
  using assms
proof (induction inputs arbitrary: s)
  case Nil
  then show ?case by simp
next
  case (Cons i inputs)
  have "distinct (map pcx_proposalId (fst (normalize_step P i s)))"
    "length (fst (normalize_step P i s)) + length (snd (normalize_step P i s)) = length (fst s) + length (snd s) + 1"
    using Cons.prems by (auto simp: normalize_step_def Let_def split: prod.splits option.splits)
  with Cons.IH [of "normalize_step P i s"] show ?case by simp
qed

text \<open>No proposal is kept twice, and every input is either kept or warned about.\<close>

lemma normalize_proposals_once:
  "distinct (map pcx_proposalId (fst (normalize_proposals P inputs)))"
  "length (fst (normalize_proposals P inputs)) + length (snd (normalize_proposals P inputs)) = length inputs"
  using normalize_keeps [of "([], [])" P inputs] by (simp_all add: normalize_proposals_def)

end
