(* ===== verification/Sample_Ingest.thy ===== *)
theory Sample_Ingest
  imports Receipt_Ingest Sample_Staging
begin

text \<open>A discharged receipt of 400.00 and a paid advance of 250.50, staged for an empty ledger.\<close>

definition sample_receipt :: EnrichedReceiptInput where
  "sample_receipt =
     \<lparr>rcp_receiptId = Some ''r-1'', rcp_proposalId = ''p-1'', rcp_installmentNumber = 2, rcp_downloadedValue = ''400.00'',
      rcp_dischargeDate = Some ''2026-01-02'', rcp_receiptStatus = ''BAIXADO'', rcp_proposalNumber = Some ''17'',
      rcp_operatorId = Some ''op-1'', rcp_brokerId = None, rcp_registeredAt = ''2026-01-01'', rcp_createdAt = ''2026-01-01''\<rparr>"

definition sample_advance :: EnrichedAdvanceInput where
  "sample_advance =
     \<lparr>adv_advanceReportId = ''adv-1'', adv_amountToPay = 501 / 2, adv_brokerId = Some ''broker-1'', adv_isPaid = True,
      adv_isCancelled = False, adv_createdAt = 500\<rparr>"

lemma middle_sized:
  assumes "1 \<le> v" "v \<le> 1000000"
  shows "1 / 2 ^ 1075 < (v :: rat) \<and> v < 2 ^ 1024 - 2 ^ 970"
proof
  have "(1 :: rat) < 2 ^ 1075" by (rule one_less_power) simp_all
  then have "1 / 2 ^ 1075 < (1 :: rat)" by (rule iffD2 [OF divide_less_eq_1_pos, rotated]) (rule zero_less_power, simp)
  then show "1 / 2 ^ 1075 < v" using assms(1) by (rule less_le_trans)
  have "(2 :: rat) ^ 1024 - 2 ^ 970 = (2 ^ 54 - 1) * 2 ^ 970"
    unfolding left_diff_distrib power_add [symmetric] mult_1_left by (rule arg_cong [where f = "\<lambda>k. 2 ^ k - 2 ^ 970"]) simp
  moreover have "(2 ^ 54 - 1) * 1 \<le> (2 ^ 54 - 1) * (2 :: rat) ^ 970"
    by (rule mult_left_mono [OF one_le_power]) simp_all
  ultimately show "v < 2 ^ 1024 - 2 ^ 970" using assms(2) by (simp only:) simp
qed

lemma sample_value: "float_value ''400.00'' = Some 400"
  by (simp add: float_value_def is_space_def split_sign_def is_digit_def digits_value_def digit_value_def
      exponent_value_def ten_to_def Let_def)

lemma sample_positive: "positive_float ''400.00''"
  using middle_sized [of 400] unfolding positive_float_def sample_value option.case by simp

definition ingest_start :: posting_state where
  "ingest_start = \<lparr>ps_ledger = [], ps_staging = [], ps_rejected = [], ps_audit = []\<rparr>"

lemma ingest_start_fields: "ps_ledger ingest_start = []" "reachable P (ps_ledger ingest_start)"
  by (simp_all add: ingest_start_def reachable.empty)

lemma sample_receipt_built:
  "build_receipt reading_platform ''usina'' ''w'' (''s1'', sample_receipt) =
     Inr (receipt_candidate reading_platform ''usina'' ''w'' ''s1'' sample_receipt)"
proof -
  have "isNonEmpty (Some ''r-1'')" "isNonEmpty (Some ''op-1'')" "isNonEmpty (Some ''17'')" by code_simp+
  then show ?thesis
    by (simp add: build_receipt_def receipt_refusal_def Let_def sample_receipt_def reading_platform_def DISCHARGED_def
        is_integer_def sample_positive)
qed

lemma sample_receipt_ready:
  "complete_receipt ''usina'' ''w'' sample_receipt"
  "readable_record reading_platform (receipt_candidate reading_platform ''usina'' ''w'' ''s1'' sample_receipt)"
  "book_takes_receipt (sample_env ''e1'') [] sample_receipt"
proof -
  show "complete_receipt ''usina'' ''w'' sample_receipt"
    by (simp add: complete_receipt_def sample_receipt_def sample_positive is_decimal_def is_digit_def)
  show "readable_record reading_platform (receipt_candidate reading_platform ''usina'' ''w'' ''s1'' sample_receipt)"
    by (simp add: readable_record_def receipt_candidate_def Let_def sample_receipt_def DISCHARGED_def str_def parseInstant_def
        reading_platform_def)
  show "book_takes_receipt (sample_env ''e1'') [] sample_receipt"
    by (simp add: book_takes_receipt_def sample_env_fields settles_within_def findByObjectId_def foldObjectTotals_def Let_def retractedEventIds_def)
qed

lemma sample_advance_built:
  "build_advance reading_platform (\<lambda>_. []) ''usina'' ''w'' (''s1'', sample_advance) =
     Inr (advance_candidate reading_platform ''usina'' ''w'' ''s1'' sample_advance)"
  by (simp add: build_advance_def advance_refusal_def Let_def sample_advance_def)

lemma sample_advance_ready:
  "complete_advance ''usina'' ''w'' sample_advance" "book_takes_advance (sample_env ''e1'') [] sample_advance"
  "readable_record reading_platform (advance_candidate reading_platform ''usina'' ''w'' ''s1'' sample_advance)"
  by (simp_all add: complete_advance_def sample_advance_def book_takes_advance_def sample_env_fields readable_record_def
      advance_candidate_def Let_def str_def parseInstant_def reading_platform_def sample_platform_def bigint_string_def)

text \<open>The same receipt, open and with nothing received.\<close>

definition open_receipt :: EnrichedReceiptInput where
  "open_receipt = sample_receipt\<lparr>rcp_receiptStatus := ''ABERTA'', rcp_dischargeDate := None, rcp_downloadedValue := ''0.00''\<rparr>"

lemma open_receipt_zero: "\<not> positive_float (rcp_downloadedValue open_receipt)"
proof -
  have "not_positive ''0.00''" by code_simp
  then show ?thesis using positive_float_given by (auto simp: open_receipt_def)
qed

lemma open_receipt_built:
  "build_receipt reading_platform ''usina'' ''w'' (''s1'', open_receipt) =
     Inr (receipt_candidate reading_platform ''usina'' ''w'' ''s1'' open_receipt)"
proof -
  have "isNonEmpty (Some ''r-1'')" "isNonEmpty (Some ''op-1'')" "isNonEmpty (Some ''17'')" by code_simp+
  then show ?thesis
    by (simp add: build_receipt_def receipt_refusal_def Let_def open_receipt_def sample_receipt_def reading_platform_def
        DISCHARGED_def NOT_DISCHARGED_def is_integer_def)
qed

end
