(* ===== verification/Accounts.thy ===== *)
theory Accounts
  imports Ledger_Prelude "HOL-Library.AList"
begin

text \<open>
  Who may do what in the treasury: roles and their permissions (\<open>rolePermissions.ts\<close>), users
  (\<open>User.ts\<close>, \<open>seedUsers.ts\<close>, \<open>InMemoryUserRepository.ts\<close>), password hashing
  (\<open>ScryptPasswordHasher.ts\<close>, scrypt itself a parameter), sessions (\<open>InMemorySessionStore.ts\<close>), the
  service over them (\<open>AuthService.ts\<close>) and the session cookie (\<open>middleware/auth.ts\<close>). Below: a
  session answers with the user whose login created it, until it expires or is destroyed, and never
  otherwise.
\<close>

section \<open>Roles and permissions\<close>

datatype Role = FINANCE_MANAGER | VIEWER

fun role_value :: "Role \<Rightarrow> string" where
  "role_value FINANCE_MANAGER = ''finance_manager''"
| "role_value VIEWER = ''viewer''"

datatype Permission = INTENT_CREATE | INTENT_SUBMIT | INTENT_READ | DASHBOARD_READ

fun permission_value :: "Permission \<Rightarrow> string" where
  "permission_value INTENT_CREATE = ''intent:create''"
| "permission_value INTENT_SUBMIT = ''intent:submit''"
| "permission_value INTENT_READ = ''intent:read''"
| "permission_value DASHBOARD_READ = ''dashboard:read''"

fun permissionsFor :: "Role \<Rightarrow> Permission list" where
  "permissionsFor FINANCE_MANAGER = [INTENT_CREATE, INTENT_SUBMIT, INTENT_READ, DASHBOARD_READ]"
| "permissionsFor VIEWER = [INTENT_READ, DASHBOARD_READ]"

definition can :: "Role \<Rightarrow> Permission \<Rightarrow> bool" where
  "can role permission \<longleftrightarrow> permission \<in> set (permissionsFor role)"

section \<open>Users\<close>

record User =
  usr_id :: string
  usr_username :: string
  usr_displayName :: string
  usr_role :: Role
  usr_passwordHash :: string
  usr_passwordSalt :: string

record PublicUser =
  pub_id :: string
  pub_username :: string
  pub_displayName :: string
  pub_role :: string

definition toPublic :: "User \<Rightarrow> PublicUser" where
  "toPublic u = \<lparr>pub_id = usr_id u, pub_username = usr_username u, pub_displayName = usr_displayName u,
     pub_role = role_value (usr_role u)\<rparr>"

definition findByUsername :: "User list \<Rightarrow> string \<Rightarrow> User option" where
  "findByUsername users name = find (\<lambda>u. usr_username u = name) users"

definition findById :: "User list \<Rightarrow> string \<Rightarrow> User option" where
  "findById users i = find (\<lambda>u. usr_id u = i) users"

section \<open>Passwords\<close>

definition hex_char :: "nat \<Rightarrow> char" where
  "hex_char n = ''0123456789abcdef'' ! n"

definition to_hex :: "string \<Rightarrow> string" where
  "to_hex bytes = concat (map (\<lambda>c. [hex_char (of_char c div 16), hex_char (of_char c mod 16)]) bytes)"

definition unhex :: "char \<Rightarrow> nat option" where
  "unhex c = (let i = length (takeWhile (\<lambda>d. d \<noteq> c) ''0123456789abcdef'');
                 j = length (takeWhile (\<lambda>d. d \<noteq> c) ''0123456789ABCDEF'')
             in if i < 16 then Some i else if j < 16 then Some j else None)"

text \<open>\<open>Buffer.from(s, "hex")\<close> stops at the first pair that is no byte.\<close>

fun from_hex :: "string \<Rightarrow> string" where
  "from_hex (a # b # s) =
     (case (unhex a, unhex b) of (Some m, Some n) \<Rightarrow> char_of (16 * m + n) # from_hex s | _ \<Rightarrow> [])"
| "from_hex _ = []"

record HashedPassword =
  hp_hash :: string
  hp_salt :: string

text \<open>\<open>scrypt password salt\<close> are the derived bytes; the random bytes of the salt are an argument.\<close>

definition hash_password :: "(string \<Rightarrow> string \<Rightarrow> string) \<Rightarrow> string \<Rightarrow> string \<Rightarrow> HashedPassword" where
  "hash_password scrypt random password =
     \<lparr>hp_hash = to_hex (scrypt password (to_hex random)), hp_salt = to_hex random\<rparr>"

definition verify_password :: "(string \<Rightarrow> string \<Rightarrow> string) \<Rightarrow> string \<Rightarrow> string \<Rightarrow> string \<Rightarrow> bool" where
  "verify_password scrypt password hash salt \<longleftrightarrow>
     (let candidate = scrypt password salt; stored = from_hex hash
      in length stored = length candidate \<and> stored = candidate)"

record UserSeed =
  useed_id :: string
  useed_username :: string
  useed_displayName :: string
  useed_role :: Role
  useed_password :: string

definition seedUsers :: "(string \<Rightarrow> string \<Rightarrow> string) \<Rightarrow> (UserSeed \<times> string) list \<Rightarrow> User list" where
  "seedUsers scrypt seeds = map (\<lambda>(s, random).
     let h = hash_password scrypt random (useed_password s)
     in \<lparr>usr_id = useed_id s, usr_username = useed_username s, usr_displayName = useed_displayName s,
         usr_role = useed_role s, usr_passwordHash = hp_hash h, usr_passwordSalt = hp_salt h\<rparr>) seeds"

section \<open>Sessions\<close>

record Session =
  ses_userId :: string
  ses_expiresAt :: int

type_synonym sessions = "(string \<times> Session) list"

text \<open>The identifier is the random one the platform gives, the time the reading of the clock.\<close>

definition create_session :: "int \<Rightarrow> string \<Rightarrow> int \<Rightarrow> string \<Rightarrow> sessions \<Rightarrow> sessions" where
  "create_session ttl sid now userId S =
     AList.update sid \<lparr>ses_userId = userId, ses_expiresAt = now + ttl\<rparr> S"

definition destroy_session :: "string \<Rightarrow> sessions \<Rightarrow> sessions" where
  "destroy_session sid S = AList.delete sid S"

definition userIdFor :: "int \<Rightarrow> string \<Rightarrow> sessions \<Rightarrow> sessions \<times> string option" where
  "userIdFor now sid S =
     (case map_of S sid of
        None \<Rightarrow> (S, None)
      | Some ses \<Rightarrow> if ses_expiresAt ses < now then (AList.delete sid S, None) else (S, Some (ses_userId ses)))"

section \<open>The service\<close>

record accounts =
  acc_users :: "User list"
  acc_scrypt :: "string \<Rightarrow> string \<Rightarrow> string"
  acc_ttl :: int

definition login ::
  "accounts \<Rightarrow> string \<Rightarrow> int \<Rightarrow> string \<Rightarrow> string \<Rightarrow> sessions \<Rightarrow> sessions \<times> (string \<times> User) option" where
  "login A sid now username password S =
     (case findByUsername (acc_users A) username of
        None \<Rightarrow> (S, None)
      | Some u \<Rightarrow>
          if \<not> verify_password (acc_scrypt A) password (usr_passwordHash u) (usr_passwordSalt u) then (S, None)
          else (create_session (acc_ttl A) sid now (usr_id u) S, Some (sid, u)))"

definition authenticate :: "accounts \<Rightarrow> int \<Rightarrow> string \<Rightarrow> sessions \<Rightarrow> sessions \<times> User option" where
  "authenticate A now sid S =
     (case userIdFor now sid S of
        (S', None) \<Rightarrow> (S', None)
      | (S', Some i) \<Rightarrow> (S', if i = [] then None else findById (acc_users A) i))"

definition logout :: "string \<Rightarrow> sessions \<Rightarrow> sessions" where
  "logout sid S = destroy_session sid S"

section \<open>The cookie\<close>

definition SESSION_COOKIE :: string where
  "SESSION_COOKIE = ''sid''"

text \<open>\<open>encodeURIComponent\<close> and \<open>decodeURIComponent\<close>; the latter throws on a malformed text.\<close>

record uri_codec =
  uri_encode :: "string \<Rightarrow> string"
  uri_decode :: "string \<Rightarrow> string option"

definition faithful_uri :: "uri_codec \<Rightarrow> bool" where
  "faithful_uri U \<longleftrightarrow> (\<forall>s. uri_decode U (uri_encode U s) = Some s
     \<and> (\<forall>c\<in>set (uri_encode U s). c \<noteq> CHR '';'' \<and> c \<noteq> CHR ''='' \<and> \<not> is_space c))"

fun split_at :: "char \<Rightarrow> string \<Rightarrow> string list" where
  "split_at d [] = [[]]"
| "split_at d (c # s) =
     (case split_at d s of w # ws \<Rightarrow> if c = d then [] # w # ws else (c # w) # ws | [] \<Rightarrow> [[c]])"

definition parse_cookie :: "uri_codec \<Rightarrow> string \<Rightarrow> (string \<times> string) list option \<Rightarrow> (string \<times> string) list option" where
  "parse_cookie U part out =
     (if CHR ''='' \<notin> set part then out
      else Option.bind out (\<lambda>cookies.
        let name = trim (takeWhile (\<lambda>c. c \<noteq> CHR ''='') part); v = trim (tl (dropWhile (\<lambda>c. c \<noteq> CHR ''='') part))
        in map_option (\<lambda>w. AList.update name w cookies) (uri_decode U v)))"

text \<open>\<open>None\<close> is the error of a value that cannot be decoded.\<close>

definition parseCookies :: "uri_codec \<Rightarrow> string option \<Rightarrow> (string \<times> string) list option" where
  "parseCookies U header =
     (if \<not> truthy header then Some [] else fold (parse_cookie U) (split_at CHR '';'' (the header)) (Some []))"

definition serializeSessionCookie :: "uri_codec \<Rightarrow> string \<Rightarrow> string \<Rightarrow> bool \<Rightarrow> string" where
  "serializeSessionCookie U sid maxAge secure =
     SESSION_COOKIE @ ''='' @ uri_encode U sid @ ''; HttpOnly; Path=/; SameSite=Lax; Max-Age='' @ maxAge
       @ (if secure then ''; Secure'' else [])"

definition clearSessionCookie :: string where
  "clearSessionCookie = SESSION_COOKIE @ ''=; HttpOnly; Path=/; SameSite=Lax; Max-Age=0''"

text \<open>\<open>attachUser\<close>: an error means nobody, and never stops the request.\<close>

definition attachUser :: "uri_codec \<Rightarrow> accounts \<Rightarrow> int \<Rightarrow> string option \<Rightarrow> sessions \<Rightarrow> sessions \<times> User option" where
  "attachUser U A now header S =
     (case parseCookies U header of
        None \<Rightarrow> (S, None)
      | Some cookies \<Rightarrow>
          (case map_of cookies SESSION_COOKIE of
             None \<Rightarrow> (S, None)
           | Some sid \<Rightarrow> if sid = [] then (S, None) else authenticate A now sid S))"

section \<open>Hashing and checking\<close>

lemma unhex_digit: "n < 16 \<Longrightarrow> unhex (hex_char n) = Some n"
proof -
  have "list_all (\<lambda>n. unhex (hex_char n) = Some n) [0..<16]" by code_simp
  then show "n < 16 \<Longrightarrow> unhex (hex_char n) = Some n" by (simp add: list_all_iff)
qed

lemma from_to_hex: "from_hex (to_hex bytes) = bytes"
proof (induction bytes)
  case Nil
  show ?case by (simp add: to_hex_def)
next
  case (Cons c bytes)
  have "of_char c < (256 :: nat)" by simp
  then have "of_char c div 16 < (16 :: nat)" by (intro less_mult_imp_div_less) simp
  then have small: "of_char c div 16 < (16 :: nat)" "of_char c mod 16 < (16 :: nat)" by simp_all
  have "char_of (16 * (of_char c div 16) + of_char c mod 16 :: nat) = c" by simp
  then show ?case using Cons.IH unfolding to_hex_def by (simp add: unhex_digit [OF small(1)] unhex_digit [OF small(2)])
qed

lemma hash_verifies:
  "verify_password scrypt password (hp_hash (hash_password scrypt random password)) (hp_salt (hash_password scrypt random password))"
  by (simp add: verify_password_def hash_password_def from_to_hex)

text \<open>Every seeded user whose name is taken once can log in with the password of the seed.\<close>

lemma seeded_login:
  assumes "acc_users A = seedUsers (acc_scrypt A) seeds" "distinct (map (useed_username \<circ> fst) seeds)" "(s, random) \<in> set seeds"
  obtains u where "usr_id u = useed_id s" "usr_role u = useed_role s"
    "login A sid now (useed_username s) (useed_password s) S = (create_session (acc_ttl A) sid now (usr_id u) S, Some (sid, u))"
proof -
  let ?h = "hash_password (acc_scrypt A) random (useed_password s)"
  let ?u = "\<lparr>usr_id = useed_id s, usr_username = useed_username s, usr_displayName = useed_displayName s,
         usr_role = useed_role s, usr_passwordHash = hp_hash ?h, usr_passwordSalt = hp_salt ?h\<rparr>"
  have member: "?u \<in> set (acc_users A)" using assms(3) by (force simp: assms(1) seedUsers_def Let_def)
  have names: "distinct (map usr_username (acc_users A))"
    using assms(2) by (simp add: assms(1) seedUsers_def Let_def comp_def case_prod_unfold)
  have "findByUsername (acc_users A) (useed_username s) = Some ?u"
  proof (cases "findByUsername (acc_users A) (useed_username s)")
    case None
    then show ?thesis using member by (auto simp: findByUsername_def find_None_iff)
  next
    case (Some v)
    then have "v \<in> set (acc_users A)" "usr_username v = usr_username ?u"
      by (auto simp: findByUsername_def find_Some_iff)
    then have "v = ?u" using names member by (metis distinct_map inj_onD)
    then show ?thesis using Some by simp
  qed
  then show thesis using hash_verifies by (intro that [of ?u]) (simp_all add: login_def)
qed

section \<open>Whose session it is\<close>

datatype session_act = Login string int string string | Request int string | Logout string

definition session_step :: "accounts \<Rightarrow> session_act \<Rightarrow> sessions \<Rightarrow> sessions" where
  "session_step A act S =
     (case act of
        Login sid now username password \<Rightarrow> fst (login A sid now username password S)
      | Request now sid \<Rightarrow> fst (authenticate A now sid S)
      | Logout sid \<Rightarrow> logout sid S)"

definition sessions_after :: "accounts \<Rightarrow> session_act list \<Rightarrow> sessions" where
  "sessions_after A acts = fold (session_step A) acts []"

text \<open>A session that is there was opened by a login with the password of its user, and not closed since.\<close>

definition opened_by :: "accounts \<Rightarrow> session_act list \<Rightarrow> string \<Rightarrow> Session \<Rightarrow> bool" where
  "opened_by A acts sid ses \<longleftrightarrow>
     (\<exists>earlier now username password later u. acts = earlier @ Login sid now username password # later
        \<and> findByUsername (acc_users A) username = Some u
        \<and> verify_password (acc_scrypt A) password (usr_passwordHash u) (usr_passwordSalt u)
        \<and> ses = \<lparr>ses_userId = usr_id u, ses_expiresAt = now + acc_ttl A\<rparr> \<and> Logout sid \<notin> set later)"

lemma opened_by_later: "opened_by A acts sid ses \<Longrightarrow> act \<noteq> Logout sid \<Longrightarrow> opened_by A (acts @ [act]) sid ses"
proof -
  assume "opened_by A acts sid ses" and last: "act \<noteq> Logout sid"
  then obtain earlier now username password later u where split: "acts = earlier @ Login sid now username password # later"
    and user: "findByUsername (acc_users A) username = Some u"
      "verify_password (acc_scrypt A) password (usr_passwordHash u) (usr_passwordSalt u)"
      "ses = \<lparr>ses_userId = usr_id u, ses_expiresAt = now + acc_ttl A\<rparr>" and later: "Logout sid \<notin> set later"
    unfolding opened_by_def by blast
  have "acts @ [act] = earlier @ Login sid now username password # (later @ [act])" using split by simp
  moreover have "Logout sid \<notin> set (later @ [act])" using later last by simp
  ultimately show "opened_by A (acts @ [act]) sid ses" unfolding opened_by_def using user by blast
qed

lemma userIdFor_kept: "map_of (fst (userIdFor now sid S)) k = Some ses \<Longrightarrow> map_of S k = Some ses"
  by (auto simp: userIdFor_def delete_conv' split: option.splits if_splits)

lemma authenticate_kept: "map_of (fst (authenticate A now sid S)) k = Some ses \<Longrightarrow> map_of S k = Some ses"
  using userIdFor_kept [of now sid S k ses] by (auto simp: authenticate_def split: prod.splits option.splits)

lemma session_opened: "map_of (sessions_after A acts) sid = Some ses \<Longrightarrow> opened_by A acts sid ses"
proof (induction acts arbitrary: ses rule: rev_induct)
  case Nil
  then show ?case by (simp add: sessions_after_def)
next
  case (snoc act acts)
  let ?S = "sessions_after A acts"
  have now: "map_of (session_step A act ?S) sid = Some ses"
    using snoc.prems by (simp add: sessions_after_def)
  show ?case
  proof (cases act)
    case (Request t k)
    then have "map_of ?S sid = Some ses" using now by (auto simp: session_step_def intro: authenticate_kept)
    then show ?thesis unfolding Request by (intro opened_by_later snoc.IH) simp_all
  next
    case (Logout k)
    then have "map_of ?S sid = Some ses \<and> k \<noteq> sid"
      using now by (simp add: session_step_def logout_def destroy_session_def delete_conv' split: if_splits)
    then show ?thesis unfolding Logout by (intro opened_by_later snoc.IH) simp_all
  next
    case (Login k t username password)
    show ?thesis
    proof (cases "map_of ?S sid = Some ses")
      case True
      then show ?thesis unfolding Login by (intro opened_by_later snoc.IH) simp_all
    next
      case False
      then have "k = sid" "\<exists>u. findByUsername (acc_users A) username = Some u
          \<and> verify_password (acc_scrypt A) password (usr_passwordHash u) (usr_passwordSalt u)
          \<and> ses = \<lparr>ses_userId = usr_id u, ses_expiresAt = t + acc_ttl A\<rparr>"
        using now Login
        by (auto simp: session_step_def login_def create_session_def update_conv' split: option.splits if_splits)
      then show ?thesis unfolding opened_by_def Login by (intro exI [of _ acts]) auto
    qed
  qed
qed

lemma authenticated_opened:
  assumes "snd (authenticate A now sid (sessions_after A acts)) = Some u" "distinct (map usr_id (acc_users A))"
  obtains ses where "opened_by A acts sid ses" "ses_userId ses = usr_id u" "now \<le> ses_expiresAt ses" "u \<in> set (acc_users A)"
proof -
  obtain ses where ses: "map_of (sessions_after A acts) sid = Some ses" "now \<le> ses_expiresAt ses"
      "findById (acc_users A) (ses_userId ses) = Some u"
    using assms(1) by (auto simp: authenticate_def userIdFor_def split: option.splits if_splits)
  then have "u \<in> set (acc_users A)" "usr_id u = ses_userId ses" by (auto simp: findById_def find_Some_iff)
  with ses session_opened that show thesis by metis
qed

text \<open>And it stays open for its time, whatever other sessions do, until it is closed.\<close>

definition leaves_open :: "string \<Rightarrow> int \<Rightarrow> session_act \<Rightarrow> bool" where
  "leaves_open sid until act \<longleftrightarrow>
     (case act of Login k _ _ _ \<Rightarrow> k \<noteq> sid | Request t k \<Rightarrow> k = sid \<longrightarrow> t \<le> until | Logout k \<Rightarrow> k \<noteq> sid)"

lemma session_kept:
  assumes "map_of S sid = Some ses" "\<forall>act\<in>set acts. leaves_open sid (ses_expiresAt ses) act"
  shows "map_of (fold (session_step A) acts S) sid = Some ses"
  using assms
proof (induction acts arbitrary: S)
  case Nil
  then show ?case by simp
next
  case (Cons act acts)
  have "map_of (session_step A act S) sid = Some ses"
  proof (cases act)
    case (Login k t username password)
    then show ?thesis using Cons.prems
      by (auto simp: session_step_def leaves_open_def login_def create_session_def update_conv' split: option.split)
  next
    case (Request t k)
    then show ?thesis using Cons.prems
      by (auto simp: session_step_def leaves_open_def authenticate_def userIdFor_def delete_conv' split: option.split prod.split)
  next
    case (Logout k)
    then show ?thesis using Cons.prems
      by (auto simp: session_step_def leaves_open_def logout_def destroy_session_def delete_conv')
  qed
  then show ?case using Cons by simp
qed

section \<open>The cookie comes back\<close>

lemma split_plain: "d \<notin> set s \<Longrightarrow> split_at d s = [s]"
  by (induction s) auto

text \<open>The browser sends back the name and the value of the cookie.\<close>

lemma cookie_read:
  assumes "faithful_uri U"
  shows "parseCookies U (Some (SESSION_COOKIE @ ''='' @ uri_encode U sid)) = Some [(SESSION_COOKIE, sid)]"
proof -
  let ?h = "SESSION_COOKIE @ ''='' @ uri_encode U sid"
  have u: "uri_decode U (uri_encode U sid) = Some sid" "\<forall>c\<in>set (uri_encode U sid). c \<noteq> CHR '';'' \<and> c \<noteq> CHR ''='' \<and> \<not> is_space c"
    using assms by (simp_all add: faithful_uri_def)
  have "CHR '';'' \<notin> set ?h" using u(2) by (auto simp: SESSION_COOKIE_def)
  then have "split_at CHR '';'' ?h = [?h]" by (rule split_plain)
  moreover have "trim (uri_encode U sid) = uri_encode U sid"
  proof -
    have "dropWhile is_space w = w" if "\<forall>c\<in>set w. \<not> is_space c" for w
      using that by (cases w) simp_all
    from this [of "uri_encode U sid"] this [of "rev (uri_encode U sid)"] show ?thesis
      using u(2) by (simp add: trim_def)
  qed
  moreover have "trim ''sid'' = ''sid''" by code_simp
  moreover have "truthy (Some ?h)" by (simp add: SESSION_COOKIE_def)
  ultimately show ?thesis
    using u(1) unfolding parseCookies_def by (simp add: parse_cookie_def SESSION_COOKIE_def)
qed

end
