(* ===== verification/Treasury_Api.thy ===== *)
theory Treasury_Api
  imports Accounts Treasury_Invariant Treasury_Overview Position_Snapshot Position_Actions
begin

text \<open>
  The HTTP interface of the treasury (\<open>presentation/web/api\<close>): the guards of \<open>middleware/auth.ts\<close>, the
  routes of \<open>conversationRoutes.ts\<close>, \<open>intentRoutes.ts\<close>, \<open>dashboardRoutes.ts\<close>, \<open>authRoutes.ts\<close> and
  \<open>healthRoutes.ts\<close>, and the order in which \<open>server.ts\<close> mounts them, over the state \<open>index.ts\<close> wires
  together: the sessions, the treasury and the snapshot of positions. Requests are served one after the
  other. A request has its path as decoded segments, its query as pairs and the fields of its JSON body
  that are texts; a text field that is absent reads \<open>undefined\<close>, as it does in a message, and no
  scenario, slot or attribute has that name. Paths are spelled as the code spells them: Express, as it is
  configured, also matches the literal parts in other letter cases and ignores one trailing slash, so a
  request written like that is served as its plain spelling is here. The files of the client are not
  served here.
\<close>

section \<open>What a request works with\<close>

text \<open>What \<open>index.ts\<close> fixes when it starts, and what the outside answers during one request.\<close>

record surroundings =
  su_env :: treasury_env
  su_accounts :: accounts
  su_uri :: uri_codec
  su_secure :: bool
  su_ttlSeconds :: nat
  su_platform :: platform
  su_algebra :: LedgerAlgebra
  su_extract :: extractor

record moment =
  mo_clock :: int
  mo_instant :: instant
  mo_now :: "nat \<Rightarrow> string"
  mo_ids :: "nat \<Rightarrow> string"
  mo_ledger :: ledger_api
  mo_submission :: "nat \<Rightarrow> Candidate \<Rightarrow> string + SubmissionOutcome"

record desk =
  dk_sessions :: sessions
  dk_treasury :: treasury
  dk_snapshot :: snapshot

datatype Method = Get | Post

record json_body =
  jb_texts :: "(string \<times> string) list"
  jb_answers :: "(string \<times> string) list"
  jb_corrected :: "CorrectedValues option"

record http_request =
  hq_method :: Method
  hq_path :: "string list"
  hq_query :: query
  hq_cookie :: "string option"
  hq_body :: json_body

datatype payload =
    Failed string
  | Failed_read nat
  | Alive string
  | Unknown_route
  | Logged_out
  | User_shown PublicUser "string list"
  | Scenario_list "(string \<times> string \<times> string) list"
  | Action_list PositionActions
  | Opened_position StartPositionActionResult
  | Started_intent string DialogState
  | Advanced AdvanceDialogResult
  | Applied ApplyAnswersResult
  | Interpreted InterpretUtteranceResult
  | Decided IdentityDecision DialogState
  | Enriched string
  | Incomplete_parties "PartyCompleteness list"
  | Candidate_list SettlementCandidates
  | Previewed PreviewIntentResult
  | Submitted SubmitIntentResult
  | Rectified RectificationResult
  | Intent_list "IntentSummary list"
  | One_intent GetIntentResult
  | Overview_shown "TreasuryDashboard option"
  | Exposure_shown "BookExposure option"
  | Position_list ListPositionsResult
  | Movement_list "PublishedMovementPage option"
  | Payable_list "PayablePositions option"
  | Life_shown PositionLifecycle "(string \<times> string) list"
  | Entry_shown RecordedEntry

record reply =
  rly_status :: nat
  rly_cookie :: "string option"
  rly_payload :: payload

definition replies :: "nat \<Rightarrow> payload \<Rightarrow> reply" where
  "replies status p = \<lparr>rly_status = status, rly_cookie = None, rly_payload = p\<rparr>"

text \<open>The error boundary of \<open>createServer\<close>.\<close>

definition boundary :: "string \<Rightarrow> reply" where
  "boundary message = replies 400 (Failed message)"

definition failed_read :: "nat \<Rightarrow> reply" where
  "failed_read status = replies 400 (Failed_read status)"

definition text_field :: "json_body \<Rightarrow> string \<Rightarrow> string option" where
  "text_field b key = map_of (jb_texts b) key"

definition field_text :: "json_body \<Rightarrow> string \<Rightarrow> string" where
  "field_text b key = or_else (text_field b key) ''undefined''"

section \<open>Routing\<close>

datatype segment = Lit string | Param

type_synonym handler = "string list \<Rightarrow> desk \<Rightarrow> desk \<times> reply"
type_synonym route = "Method \<times> segment list \<times> handler"

text \<open>
  A pattern against a path in its plain spelling (literals in lower case, no trailing slash): the other
  spellings Express takes for the same path are not told apart here, a request has only this one.
\<close>

fun route_match :: "segment list \<Rightarrow> string list \<Rightarrow> string list option" where
  "route_match [] [] = Some []"
| "route_match (Lit s # ps) (w # ws) = (if s = w then route_match ps ws else None)"
| "route_match (Param # ps) (w # ws) = map_option (Cons w) (route_match ps ws)"
| "route_match _ _ = None"

fun dispatch :: "route list \<Rightarrow> Method \<Rightarrow> string list \<Rightarrow> desk \<Rightarrow> desk \<times> reply" where
  "dispatch [] m path D = (D, replies 404 Unknown_route)"
| "dispatch ((m', pattern, h) # rs) m path D =
     (case (if m' = m then route_match pattern path else None) of
        Some params \<Rightarrow> h params D
      | None \<Rightarrow> dispatch rs m path D)"

section \<open>Guards\<close>

definition requireAuth :: "User option \<Rightarrow> (User \<Rightarrow> desk \<Rightarrow> desk \<times> reply) \<Rightarrow> desk \<Rightarrow> desk \<times> reply" where
  "requireAuth user next D =
     (case user of None \<Rightarrow> (D, replies 401 (Failed ''Authentication required.'')) | Some u \<Rightarrow> next u D)"

definition requirePermission :: "Permission \<Rightarrow> User \<Rightarrow> (desk \<Rightarrow> desk \<times> reply) \<Rightarrow> desk \<Rightarrow> desk \<times> reply" where
  "requirePermission permission u next D =
     (if \<not> can (usr_role u) permission
      then (D, replies 403 (Failed ''You do not have permission for this action.'')) else next D)"

section \<open>Sessions\<close>

definition publicUser :: "User \<Rightarrow> payload" where
  "publicUser u = User_shown (toPublic u) (map permission_value (permissionsFor (usr_role u)))"

definition login_handler :: "surroundings \<Rightarrow> moment \<Rightarrow> http_request \<Rightarrow> handler" where
  "login_handler S M r params D =
     (case login (su_accounts S) (mo_ids M 0) (mo_clock M) (or_else (text_field (hq_body r) ''username'') [])
             (or_else (text_field (hq_body r) ''password'') []) (dk_sessions D) of
        (sessions, None) \<Rightarrow> (D\<lparr>dk_sessions := sessions\<rparr>, replies 401 (Failed ''Invalid username or password.''))
      | (sessions, Some (sid, u)) \<Rightarrow>
          (D\<lparr>dk_sessions := sessions\<rparr>,
           \<lparr>rly_status = 200,
            rly_cookie = Some (serializeSessionCookie (su_uri S) sid (nat_string (su_ttlSeconds S)) (su_secure S)),
            rly_payload = publicUser u\<rparr>))"

definition logout_handler :: "surroundings \<Rightarrow> http_request \<Rightarrow> handler" where
  "logout_handler S r params D =
     (case parseCookies (su_uri S) (hq_cookie r) of
        None \<Rightarrow> (D, boundary ''URI malformed'')
      | Some cookies \<Rightarrow>
          ((case map_of cookies SESSION_COOKIE of
              None \<Rightarrow> D
            | Some sid \<Rightarrow> if sid = [] then D else D\<lparr>dk_sessions := logout sid (dk_sessions D)\<rparr>),
           \<lparr>rly_status = 200, rly_cookie = Some clearSessionCookie, rly_payload = Logged_out\<rparr>))"

definition auth_routes :: "surroundings \<Rightarrow> moment \<Rightarrow> http_request \<Rightarrow> User option \<Rightarrow> route list" where
  "auth_routes S M r user =
     [(Post, [Lit ''login''], login_handler S M r),
      (Post, [Lit ''logout''], logout_handler S r),
      (Get, [Lit ''me''], \<lambda>params. requireAuth user (\<lambda>u D. (D, replies 200 (publicUser u))))]"

section \<open>The conversation\<close>

text \<open>A use case over the treasury: what it throws goes to the error boundary.\<close>

definition run_case :: "('a run) \<Rightarrow> ('a \<Rightarrow> desk \<Rightarrow> desk \<times> reply) \<Rightarrow> desk \<Rightarrow> desk \<times> reply" where
  "run_case m next D =
     (case m (dk_treasury D) of
        (T, Inl e) \<Rightarrow> (D\<lparr>dk_treasury := T\<rparr>, boundary e)
      | (T, Inr x) \<Rightarrow> next x (D\<lparr>dk_treasury := T\<rparr>))"

definition shown :: "nat \<Rightarrow> payload \<Rightarrow> desk \<Rightarrow> desk \<times> reply" where
  "shown status p D = (D, replies status p)"

definition movedBy :: "SubmitIntentResult \<Rightarrow> string list" where
  "movedBy result = map co_objectId (cd_objects (sir_candidate result))"

definition forget_accepted :: "SubmitIntentResult \<Rightarrow> desk \<Rightarrow> desk" where
  "forget_accepted result D =
     (if sir_status result then D\<lparr>dk_snapshot := fold invalidate (movedBy result) (dk_snapshot D)\<rparr> else D)"

definition actions_handler :: "surroundings \<Rightarrow> moment \<Rightarrow> handler" where
  "actions_handler S M params D =
     (D, case list_position_actions (localeCompare (te_directory (su_env S))) (su_algebra S) (mo_ledger M) (hd params) of
           Inl n \<Rightarrow> failed_read n
         | Inr None \<Rightarrow> replies 404 (Failed ''Position not found.'')
         | Inr (Some result) \<Rightarrow> replies 200 (Action_list result))"

text \<open>
  \<open>counterpartyOf\<close> asks the ledger for the origination only where the scenario inherits the
  counterparty; when that read fails the intent has been started already.
\<close>

definition origin_read :: "ledger_api \<Rightarrow> string \<Rightarrow> PositionLifecycle \<Rightarrow> RecordedEntry option answer" where
  "origin_read A scenarioId p =
     (case standing_origination p of
        None \<Rightarrow> Inr None
      | Some ev \<Rightarrow> if counterpartySlot scenarioId \<noteq> None \<and> inheritsCounterparty scenarioId
                   then read_event A (lc_eventId ev) else Inr None)"

definition start_position_handler :: "surroundings \<Rightarrow> moment \<Rightarrow> http_request \<Rightarrow> User \<Rightarrow> handler" where
  "start_position_handler S M r u params D =
     (case text_field (hq_body r) ''scenarioId'' of
        None \<Rightarrow> (D, replies 400 (Failed ''scenarioId is required.''))
      | Some scenarioId \<Rightarrow>
          if trim scenarioId = [] then (D, replies 400 (Failed ''scenarioId is required.''))
          else case read_lifecycle (mo_ledger M) (hd params) of
            Inl n \<Rightarrow> (D, failed_read n)
          | Inr found \<Rightarrow>
              (case (case found of None \<Rightarrow> Inr None | Some p \<Rightarrow> origin_read (mo_ledger M) scenarioId p) of
                 Inl n \<Rightarrow> run_case (start_run (mo_ids M 0) (mo_now M) scenarioId (usr_id u)) (\<lambda>_ D. (D, failed_read n)) D
               | Inr entry \<Rightarrow>
                   run_case (start_position_action (su_env S) (\<lambda>_. found) (\<lambda>_. entry) (mo_ids M 0) (mo_now M)
                       (hd params) scenarioId (usr_id u) (text_field (hq_body r) ''variantChoice''))
                     (\<lambda>result. shown 200 (Opened_position result)) D))"

definition scenarios_handler :: handler where
  "scenarios_handler params = shown 200 (Scenario_list (map (\<lambda>s. (sc_id s, sc_title s, sc_description s)) listScenarios))"

definition start_handler :: "moment \<Rightarrow> http_request \<Rightarrow> User \<Rightarrow> handler" where
  "start_handler M r u params =
     run_case (start_run (mo_ids M 0) (mo_now M) (field_text (hq_body r) ''scenarioId'') (usr_id u))
       (\<lambda>(i, st). shown 201 (Started_intent i st))"

text \<open>An answer whose value is absent is read as blank.\<close>

definition answer_handler :: "surroundings \<Rightarrow> moment \<Rightarrow> http_request \<Rightarrow> handler" where
  "answer_handler S M r params =
     run_case (lift (advance_dialog (su_env S) (mo_now M) (hd params) (field_text (hq_body r) ''key'')
                 (or_else (text_field (hq_body r) ''value'') [])))
       (\<lambda>result. shown (if adr_error result \<noteq> None then 422 else 200) (Advanced result))"

text \<open>\<open>mode\<close> is \<open>fill\<close> unless the body says otherwise; anything but \<open>fill\<close> overwrites.\<close>

definition apply_handler :: "surroundings \<Rightarrow> moment \<Rightarrow> http_request \<Rightarrow> handler" where
  "apply_handler S M r params =
     run_case (lift (apply_answers (su_env S) (mo_now M 0) (hd params) (jb_answers (hq_body r))
                 (if or_else (text_field (hq_body r) ''mode'') ''fill'' = ''fill'' then Fill else Edit)))
       (\<lambda>result. shown (if aar_rejected result \<noteq> [] then 422 else 200) (Applied result))"

definition interpret_handler :: "surroundings \<Rightarrow> moment \<Rightarrow> http_request \<Rightarrow> User \<Rightarrow> handler" where
  "interpret_handler S M r u params =
     run_case (lift (interpret_utterance (su_env S) (su_extract S) (mo_ids M 0) (mo_now M)
                 (case params of [] \<Rightarrow> None | i # _ \<Rightarrow> Some i) (or_else (text_field (hq_body r) ''utterance'') [])
                 (usr_id u)))
       (\<lambda>result. shown 200 (Interpreted result))"

text \<open>A refused decision is a 422, whatever the reason.\<close>

definition identity_handler :: "surroundings \<Rightarrow> moment \<Rightarrow> http_request \<Rightarrow> User \<Rightarrow> handler" where
  "identity_handler S M r u params D =
     (case find (\<lambda>k. Some (identityDecisionKind_value k) = text_field (hq_body r) ''kind'') [CREATE, UNIDENTIFIABLE_PARTY] of
        None \<Rightarrow> (D, replies 422 (Failed (''kind must be '' @ single_quoted ''create'' @ '' or '' @ single_quoted ''unidentifiable'' @ ''.'')))
      | Some kind \<Rightarrow>
          (case decide_identity (mo_ids M 0) (mo_now M 0) (hd params) (field_text (hq_body r) ''slot'') kind
                  (text_field (hq_body r) ''mention'') (text_field (hq_body r) ''justification'') (usr_id u) (dk_treasury D) of
             Inl e \<Rightarrow> (D, replies 422 (Failed e))
           | Inr (T, decision, st) \<Rightarrow> (D\<lparr>dk_treasury := T\<rparr>, replies 200 (Decided decision st))))"

definition enrich_handler :: "moment \<Rightarrow> http_request \<Rightarrow> User \<Rightarrow> handler" where
  "enrich_handler M r u params D =
     (case record_attribute (mo_now M 0)
             \<lparr>rpa_partyId = field_text (hq_body r) ''partyId'', rpa_key = field_text (hq_body r) ''key'',
              rpa_value = text_field (hq_body r) ''value'', rpa_userId = usr_id u, rpa_intentId = Some (hd params)\<rparr>
             (tr_parties (dk_treasury D)) of
        Inl e \<Rightarrow> (D, replies 422 (Failed e))
      | Inr (ps, entries, p) \<Rightarrow>
          (D\<lparr>dk_treasury := journal entries ((dk_treasury D)\<lparr>tr_parties := ps\<rparr>)\<rparr>, replies 200 (Enriched (pty_partyId p))))"

definition incomplete_handler :: "surroundings \<Rightarrow> handler" where
  "incomplete_handler S params D =
     (D, replies 200 (Incomplete_parties (list_incomplete (te_directory (su_env S)) (tr_parties (dk_treasury D)))))"

definition candidates_handler :: "surroundings \<Rightarrow> moment \<Rightarrow> handler" where
  "candidates_handler S M params D =
     (D, case list_settlement_candidates (te_usina (su_env S)) (dk_treasury D) (mo_ledger M) (hd params) of
           Inl (Inl e) \<Rightarrow> boundary e
         | Inl (Inr n) \<Rightarrow> failed_read n
         | Inr result \<Rightarrow> replies 200 (Candidate_list result))"

definition preview_handler :: "surroundings \<Rightarrow> handler" where
  "preview_handler S params D =
     (D, case preview_intent (su_env S) (hd params) (dk_treasury D) of
           Inl e \<Rightarrow> boundary e | Inr result \<Rightarrow> replies 200 (Previewed result))"

definition submit_handler :: "surroundings \<Rightarrow> moment \<Rightarrow> handler" where
  "submit_handler S M params =
     run_case (submit_intent (su_env S) (mo_submission M 0) (mo_now M) (hd params))
       (\<lambda>result D. shown 200 (Submitted result) (forget_accepted result D))"

definition rectify_handler :: "surroundings \<Rightarrow> moment \<Rightarrow> http_request \<Rightarrow> User \<Rightarrow> handler" where
  "rectify_handler S M r u params D =
     (case text_field (hq_body r) ''targetEventId'' of
        None \<Rightarrow> (D, replies 400 (Failed ''targetEventId is required.''))
      | Some target \<Rightarrow>
          if trim target = [] then (D, replies 400 (Failed ''targetEventId is required.''))
          else case read_event (mo_ledger M) target of
            Inl n \<Rightarrow> (D, failed_read n)
          | Inr entry \<Rightarrow>
              run_case (submit_rectification (su_env S) (\<lambda>_. entry) (mo_submission M 0) (mo_submission M 1)
                  (mo_ids M 0) (mo_ids M 1) (mo_now M) target (usr_id u) (text_field (hq_body r) ''description'')
                  (jb_corrected (hq_body r)))
                (\<lambda>outcome D. shown 200 (Rectified outcome)
                   (fold (\<lambda>step D. case step of None \<Rightarrow> D | Some result \<Rightarrow> forget_accepted result D)
                      [rrs_retraction outcome, rrs_reissue outcome] D)) D)"

definition conversation_routes :: "surroundings \<Rightarrow> moment \<Rightarrow> http_request \<Rightarrow> User \<Rightarrow> route list" where
  "conversation_routes S M r u =
     [(Get, [Lit ''positions'', Param, Lit ''actions''], actions_handler S M),
      (Post, [Lit ''positions'', Param, Lit ''start''],
         \<lambda>params. requirePermission INTENT_SUBMIT u (start_position_handler S M r u params)),
      (Get, [Lit ''scenarios''], scenarios_handler),
      (Post, [Lit ''start''], start_handler M r u),
      (Post, [Param, Lit ''answer''], answer_handler S M r),
      (Post, [Param, Lit ''apply''], apply_handler S M r),
      (Post, [Lit ''interpret''], interpret_handler S M r u),
      (Post, [Param, Lit ''interpret''], interpret_handler S M r u),
      (Post, [Param, Lit ''identity''], identity_handler S M r u),
      (Post, [Param, Lit ''enrich''], enrich_handler M r u),
      (Get, [Lit ''parties'', Lit ''incomplete''], incomplete_handler S),
      (Get, [Param, Lit ''candidates''], candidates_handler S M),
      (Get, [Param, Lit ''preview''], preview_handler S),
      (Post, [Param, Lit ''submit''], \<lambda>params. requirePermission INTENT_SUBMIT u (submit_handler S M params)),
      (Post, [Lit ''rectify''], \<lambda>params. requirePermission INTENT_SUBMIT u (rectify_handler S M r u params))]"

definition intent_routes :: "surroundings \<Rightarrow> User \<Rightarrow> route list" where
  "intent_routes S u =
     [(Get, [], \<lambda>params D.
         (D, replies 200 (Intent_list (list_intents (te_directory (su_env S)) (dk_treasury D) (usr_id u))))),
      (Get, [Param], \<lambda>params D.
         (D, case get_intent (dk_treasury D) (hd params) of
               Inl e \<Rightarrow> boundary e | Inr found \<Rightarrow> replies 200 (One_intent found)))]"

section \<open>The dashboard\<close>

text \<open>\<open>a ?? b\<close> over the parameters of the query: the first key that is there.\<close>

definition present_key :: "query \<Rightarrow> string list \<Rightarrow> string" where
  "present_key q keys = (case find (\<lambda>k. many q k \<noteq> []) keys of None \<Rightarrow> last keys | Some k \<Rightarrow> k)"

definition intParam :: "query \<Rightarrow> string list \<Rightarrow> int option" where
  "intParam q keys = number q (present_key q keys)"

definition strParam :: "query \<Rightarrow> string \<Rightarrow> string option" where
  "strParam q key = (case many q key of [s] \<Rightarrow> (if s = [] then None else Some s) | _ \<Rightarrow> None)"

definition listParam :: "query \<Rightarrow> string list \<Rightarrow> string list" where
  "listParam q keys = keep_first id (filter (\<lambda>s. s \<noteq> []) (parts q (present_key q keys)))"

definition bad_date :: "platform \<Rightarrow> string option \<Rightarrow> bool" where
  "bad_date P s \<longleftrightarrow> s \<noteq> None \<and> parseInstant P (the s) = None"

definition readPeriod :: "platform \<Rightarrow> query \<Rightarrow> string + (string option \<times> string option)" where
  "readPeriod P q =
     (let from = strParam q ''from''; to = strParam q ''to'';
          refused = (\<lambda>label. Inl (''Invalid date in '' @ single_quoted label @ '' parameter''))
      in if bad_date P from then refused ''from'' else if bad_date P to then refused ''to''
         else Inr (from, to))"

definition with_period :: "surroundings \<Rightarrow> http_request \<Rightarrow> (string option \<Rightarrow> string option \<Rightarrow> desk \<Rightarrow> desk \<times> reply) \<Rightarrow> handler" where
  "with_period S r next params D =
     (case readPeriod (su_platform S) (hq_query r) of
        Inl e \<Rightarrow> (D, replies 400 (Failed e))
      | Inr (from, to) \<Rightarrow> next from to D)"

definition overview_handler :: "surroundings \<Rightarrow> moment \<Rightarrow> http_request \<Rightarrow> handler" where
  "overview_handler S M r = with_period S r (\<lambda>from to D.
     let q = hq_query r
     in (D, replies 200 (Overview_shown (get_treasury_dashboard (su_platform S) (te_usina (su_env S))
          (tr_parties (dk_treasury D)) (mo_instant M) (mo_ledger M)
          \<lparr>tdi_from = from, tdi_to = to, tdi_effect = strParam q ''effect'', tdi_perPage = intParam q [''per_page'', ''perPage''],
           tdi_page = intParam q [''page''], tdi_movementsPage = intParam q [''movementsPage''],
           tdi_status = listParam q [''status''], tdi_objectType = listParam q [''objectType'']\<rparr>))))"

definition exposure_handler :: "surroundings \<Rightarrow> moment \<Rightarrow> http_request \<Rightarrow> handler" where
  "exposure_handler S M r = with_period S r (\<lambda>from to.
     shown 200 (Exposure_shown (get_book_exposure (mo_ledger M) from to)))"

text \<open>The positions the ledger answered with are remembered in the snapshot.\<close>

definition positions_handler :: "surroundings \<Rightarrow> moment \<Rightarrow> http_request \<Rightarrow> handler" where
  "positions_handler S M r = with_period S r (\<lambda>from to D.
     let q = hq_query r;
         (result, seen) = list_positions (te_usina (su_env S)) (tr_parties (dk_treasury D)) (mo_ledger M)
           \<lparr>qp_limit = intParam q [''per_page'', ''perPage''], qp_page = intParam q [''page''],
            qp_status = listParam q [''status''], qp_objectType = listParam q [''objectType''],
            qp_partyId = listParam q [''partyId'', ''counterparty''], qp_outcome = strParam q ''outcome'',
            qp_from = from, qp_to = to, qp_sortBy = strParam q ''sortBy'', qp_sortOrder = strParam q ''sortOrder''\<rparr>
     in (D\<lparr>dk_snapshot := remember (mo_now M 0) seen (dk_snapshot D)\<rparr>, replies 200 (Position_list result)))"

definition movements_handler :: "surroundings \<Rightarrow> moment \<Rightarrow> http_request \<Rightarrow> handler" where
  "movements_handler S M r = with_period S r (\<lambda>from to.
     let q = hq_query r
     in shown 200 (Movement_list (list_cash_movements (mo_ledger M)
          \<lparr>qm_partyId = strParam q ''partyId'', qm_effect = strParam q ''effect'', qm_from = from, qm_to = to,
           qm_limit = intParam q [''limit'', ''per_page'', ''perPage''], qm_cursor = strParam q ''cursor'',
           qm_page = intParam q [''page''], qm_sortBy = strParam q ''sortBy'', qm_sortOrder = strParam q ''sortOrder''\<rparr>)))"

definition payables_handler :: "surroundings \<Rightarrow> moment \<Rightarrow> handler" where
  "payables_handler S M params =
     shown 200 (Payable_list (list_payable_positions (su_platform S) (mo_instant M) (mo_ledger M)))"

definition lifecycle_handler :: "moment \<Rightarrow> handler" where
  "lifecycle_handler M params D =
     (D, case get_object_lifecycle (tr_parties (dk_treasury D)) (mo_ledger M) (hd params) of
           Inl n \<Rightarrow> failed_read n
         | Inr None \<Rightarrow> replies 404 (Failed ''Position not found'')
         | Inr (Some (life, labels)) \<Rightarrow> replies 200 (Life_shown life labels))"

definition event_handler :: "moment \<Rightarrow> handler" where
  "event_handler M params D =
     (D, case get_ledger_event (mo_ledger M) (hd params) of
           Inl n \<Rightarrow> failed_read n
         | Inr None \<Rightarrow> replies 404 (Failed ''Event not found'')
         | Inr (Some entry) \<Rightarrow> replies 200 (Entry_shown entry))"

definition dashboard_routes :: "surroundings \<Rightarrow> moment \<Rightarrow> http_request \<Rightarrow> route list" where
  "dashboard_routes S M r =
     [(Get, [Lit ''overview''], overview_handler S M r),
      (Get, [Lit ''exposure''], exposure_handler S M r),
      (Get, [Lit ''positions''], positions_handler S M r),
      (Get, [Lit ''movements''], movements_handler S M r),
      (Get, [Lit ''payables''], payables_handler S M),
      (Get, [Lit ''positions'', Param], lifecycle_handler M),
      (Get, [Lit ''events'', Param], event_handler M)]"

section \<open>The server\<close>

definition health_routes :: "route list" where
  "health_routes =
     [(Get, [Lit ''health''], \<lambda>params. shown 200 (Alive ''ok'')), (Get, [Lit ''ready''], \<lambda>params. shown 200 (Alive ''ready''))]"

definition guarded :: "User option \<Rightarrow> Permission \<Rightarrow> (User \<Rightarrow> route list) \<Rightarrow> Method \<Rightarrow> string list \<Rightarrow> desk \<Rightarrow> desk \<times> reply" where
  "guarded user permission routes m path =
     requireAuth user (\<lambda>u. requirePermission permission u (dispatch (routes u) m path))"

definition api :: "surroundings \<Rightarrow> moment \<Rightarrow> http_request \<Rightarrow> User option \<Rightarrow> desk \<Rightarrow> desk \<times> reply" where
  "api S M r user D =
     (let m = hq_method r; path = hq_path r; rest = tl (tl path); under = (\<lambda>name. take 2 path = [''api'', name])
      in if under ''auth'' then dispatch (auth_routes S M r user) m rest D
         else if under ''conversation'' then guarded user INTENT_CREATE (conversation_routes S M r) m rest D
         else if under ''intents'' then guarded user INTENT_READ (intent_routes S) m rest D
         else if under ''dashboard'' then guarded user DASHBOARD_READ (\<lambda>_. dashboard_routes S M r) m rest D
         else (D, replies 404 Unknown_route))"

text \<open>The health checks come before the session is looked at.\<close>

definition is_health :: "http_request \<Rightarrow> bool" where
  "is_health r \<longleftrightarrow> hq_method r = Get \<and> (hq_path r = [''health''] \<or> hq_path r = [''ready''])"

definition respond :: "surroundings \<Rightarrow> moment \<Rightarrow> http_request \<Rightarrow> desk \<Rightarrow> desk \<times> reply" where
  "respond S M r D =
     (if is_health r then dispatch health_routes (hq_method r) (hq_path r) D
      else let (sessions, user) = attachUser (su_uri S) (su_accounts S) (mo_clock M) (hq_cookie r) (dk_sessions D)
           in api S M r user (D\<lparr>dk_sessions := sessions\<rparr>))"

section \<open>What a route can do\<close>

lemma dispatch_rule:
  assumes "\<And>pattern h params. (m, pattern, h) \<in> set rs \<Longrightarrow> route_match pattern path = Some params \<Longrightarrow> Q (h params D)"
    and "Q (D, replies 404 Unknown_route)"
  shows "Q (dispatch rs m path D)"
  using assms
proof (induction rs)
  case Nil
  then show ?case by simp
next
  case (Cons r rs)
  obtain m' pattern h where r: "r = (m', pattern, h)" by (cases r)
  have rest: "Q (dispatch rs m path D)"
  proof (rule Cons.IH)
    fix pattern h params
    assume "(m, pattern, h) \<in> set rs" "route_match pattern path = Some params"
    then show "Q (h params D)" using Cons.prems(1) [of pattern h params] by simp
  qed (rule Cons.prems(2))
  show ?case
  proof (cases "if m' = m then route_match pattern path else None")
    case None
    then show ?thesis using rest r by simp
  next
    case (Some params)
    then have "m' = m" "route_match pattern path = Some params" by (simp_all split: if_splits)
    then show ?thesis using Cons.prems(1) [of pattern h params] Some r by simp
  qed
qed

lemma guarded_rule:
  assumes "\<And>u. user = Some u \<Longrightarrow> can (usr_role u) permission \<Longrightarrow> Q (dispatch (routes u) m path D)"
    and "Q (D, replies 401 (Failed ''Authentication required.''))"
    and "Q (D, replies 403 (Failed ''You do not have permission for this action.''))"
  shows "Q (guarded user permission routes m path D)"
  using assms by (cases user) (simp_all add: guarded_def requireAuth_def requirePermission_def)

lemma run_case_cases:
  "(\<And>T e. m (dk_treasury D) = (T, Inl e) \<Longrightarrow> Q (D\<lparr>dk_treasury := T\<rparr>, boundary e)) \<Longrightarrow>
   (\<And>T x. m (dk_treasury D) = (T, Inr x) \<Longrightarrow> Q (next x (D\<lparr>dk_treasury := T\<rparr>))) \<Longrightarrow> Q (run_case m next D)"
  unfolding run_case_def by (cases "m (dk_treasury D)"; cases "snd (m (dk_treasury D))") auto

lemma forget_accepted_kept [simp]:
  "dk_sessions (forget_accepted result D) = dk_sessions D" "dk_treasury (forget_accepted result D) = dk_treasury D"
  by (simp_all add: forget_accepted_def)

text \<open>The treasury moves by its own steps, and the sessions stay.\<close>

definition moves :: "treasury_env \<Rightarrow> desk \<Rightarrow> desk \<Rightarrow> bool" where
  "moves E D D' \<longleftrightarrow> dk_sessions D' = dk_sessions D \<and> (treasury_step E)\<^sup>*\<^sup>* (dk_treasury D) (dk_treasury D')"

lemma moves_refl [simp]: "moves E D D"
  by (simp add: moves_def)

definition steps :: "treasury_env \<Rightarrow> 'a run \<Rightarrow> bool" where
  "steps E m \<longleftrightarrow> (\<forall>T. (treasury_step E)\<^sup>*\<^sup>* T (fst (m T)))"

lemma steps_lift: "(\<And>T T' x. f T = Inr (T', x) \<Longrightarrow> desk_step E T T') \<Longrightarrow> steps E (lift f)"
  unfolding steps_def lift_def by (auto intro!: r_into_rtranclp treasury_step.desk split: sum.split)

lemma steps_one: "(\<And>T. treasury_step E T (fst (m T))) \<Longrightarrow> steps E m"
  unfolding steps_def by blast

lemma steps_start: "steps E (start_run i now sc u)"
  unfolding start_run_def by (intro steps_lift) (auto intro: desk_step.start)

lemma run_case_moves:
  assumes "steps E m" "\<And>x D. dk_sessions (fst (next x D)) = dk_sessions D \<and> dk_treasury (fst (next x D)) = dk_treasury D"
  shows "moves E D (fst (run_case m next D))"
proof (rule run_case_cases [where Q = "\<lambda>r. moves E D (fst r)"])
  fix T e
  assume "m (dk_treasury D) = (T, Inl e)"
  then show "moves E D (fst (D\<lparr>dk_treasury := T\<rparr>, boundary e))"
    using assms(1) unfolding steps_def moves_def by (metis fst_conv desk.select_convs(1,2) desk.surjective desk.update_convs(2))
next
  fix T x
  assume "m (dk_treasury D) = (T, Inr x)"
  then show "moves E D (fst (next x (D\<lparr>dk_treasury := T\<rparr>)))"
    using assms unfolding steps_def moves_def by (metis fst_conv desk.select_convs(1,2) desk.surjective desk.update_convs(2))
qed

lemma requirePermission_moves: "(\<And>D. moves E D (fst (next D))) \<Longrightarrow> moves E D (fst (requirePermission p u next D))"
  by (simp add: requirePermission_def)

lemma start_position_moves: "moves (su_env S) D (fst (start_position_handler S M r u params D))"
proof -
  have "steps (su_env S) (start_position_action (su_env S) lifecycle event i now oid sc us choice)" for lifecycle event i now oid sc us choice
    by (intro steps_one treasury_step.desk desk_step.position)
  then show ?thesis
    unfolding start_position_handler_def
    by (auto simp: shown_def intro!: run_case_moves steps_start split: option.split sum.split)
qed

lemma rectify_moves: "moves (su_env S) D (fst (rectify_handler S M r u params D))"
proof -
  have "steps (su_env S) (submit_rectification (su_env S) event l1 l2 i1 i2 now target us why corrected)" for event l1 l2 i1 i2 now target us why corrected
    by (intro steps_one treasury_step.rectify)
  then show ?thesis
    unfolding rectify_handler_def
    by (auto simp: shown_def intro!: run_case_moves split: option.split sum.split)
qed

lemma submit_moves: "moves (su_env S) D (fst (submit_handler S M params D))"
  unfolding submit_handler_def by (intro run_case_moves steps_one treasury_step.submit) (simp add: shown_def)

lemma dialog_moves:
  "moves (su_env S) D (fst (start_handler M r u params D))"
  "moves (su_env S) D (fst (answer_handler S M r params D))"
  "moves (su_env S) D (fst (apply_handler S M r params D))"
  "moves (su_env S) D (fst (interpret_handler S M r u params D))"
  unfolding start_handler_def answer_handler_def apply_handler_def interpret_handler_def
  by (intro run_case_moves steps_start steps_lift;
      auto simp: shown_def intro: desk_step.advance desk_step.apply_many desk_step.interpret_text)+

lemma identity_moves: "moves (su_env S) D (fst (identity_handler S M r u params D))"
  unfolding identity_handler_def
  by (auto simp: moves_def intro!: r_into_rtranclp treasury_step.desk desk_step.decide split: option.split sum.split prod.split)

lemma enrich_moves: "moves E D (fst (enrich_handler M r u params D))"
  unfolding enrich_handler_def moves_def
  by (auto split: sum.split prod.split dest!: desk_step.answer_enrichment [where E = E] dest: treasury_step.desk)

text \<open>The routes that only read: the treasury and the sessions stay.\<close>

definition same_books :: "desk \<Rightarrow> desk \<Rightarrow> bool" where
  "same_books D D' \<longleftrightarrow> dk_sessions D' = dk_sessions D \<and> dk_treasury D' = dk_treasury D"

lemma same_moves: "same_books D D' \<Longrightarrow> moves E D D'"
  by (simp add: same_books_def moves_def)

lemma with_period_same:
  "(\<And>from to. same_books D (fst (next from to D))) \<Longrightarrow> same_books D (fst (with_period S r next params D))"
  by (simp add: with_period_def same_books_def split: sum.split prod.split)

lemma reading_same:
  "same_books D (fst (actions_handler S M params D))"
  "same_books D (fst (scenarios_handler params D))"
  "same_books D (fst (incomplete_handler S params D))"
  "same_books D (fst (candidates_handler S M params D))"
  "same_books D (fst (preview_handler S params D))"
  by (simp_all add: same_books_def actions_handler_def scenarios_handler_def incomplete_handler_def
      candidates_handler_def preview_handler_def shown_def)

lemma dashboard_same: "same_books D (fst (dispatch (dashboard_routes S M r) m path D))"
proof (rule dispatch_rule [where Q = "\<lambda>x. same_books D (fst x)"])
  fix pattern h params
  assume route: "(m, pattern, h) \<in> set (dashboard_routes S M r)"
  have "same_books D (fst (overview_handler S M r params D))" "same_books D (fst (exposure_handler S M r params D))"
      "same_books D (fst (positions_handler S M r params D))" "same_books D (fst (movements_handler S M r params D))"
    unfolding overview_handler_def exposure_handler_def positions_handler_def movements_handler_def
    by (intro with_period_same; simp add: same_books_def shown_def Let_def case_prod_unfold)+
  moreover have "same_books D (fst (payables_handler S M params D))" "same_books D (fst (lifecycle_handler M params D))"
      "same_books D (fst (event_handler M params D))"
    by (simp_all add: payables_handler_def lifecycle_handler_def event_handler_def shown_def same_books_def)
  ultimately show "same_books D (fst (h params D))"
    using route unfolding dashboard_routes_def by auto
qed (simp add: same_books_def)

lemma intents_same: "same_books D (fst (dispatch (intent_routes S u) m path D))"
  by (rule dispatch_rule [where Q = "\<lambda>x. same_books D (fst x)"]) (auto simp: intent_routes_def same_books_def)

lemma conversation_moves: "moves (su_env S) D (fst (dispatch (conversation_routes S M r u) m path D))"
proof (rule dispatch_rule [where Q = "\<lambda>x. moves (su_env S) D (fst x)"])
  fix pattern h params
  assume "(m, pattern, h) \<in> set (conversation_routes S M r u)"
  then show "moves (su_env S) D (fst (h params D))"
    unfolding conversation_routes_def
    by (auto intro!: requirePermission_moves start_position_moves rectify_moves submit_moves dialog_moves
        identity_moves enrich_moves reading_same [THEN same_moves])
qed simp

lemma conversation_get: "same_books D (fst (dispatch (conversation_routes S M r u) Get path D))"
proof (rule dispatch_rule [where Q = "\<lambda>x. same_books D (fst x)"])
  fix pattern h params
  assume "(Get, pattern, h) \<in> set (conversation_routes S M r u)"
  then show "same_books D (fst (h params D))"
    unfolding conversation_routes_def by (auto intro!: reading_same)
qed (simp add: same_books_def)

lemma auth_treasury: "dk_treasury (fst (dispatch (auth_routes S M r user) m path D)) = dk_treasury D"
proof (rule dispatch_rule [where Q = "\<lambda>x. dk_treasury (fst x) = dk_treasury D"])
  fix pattern h params
  assume "(m, pattern, h) \<in> set (auth_routes S M r user)"
  then show "dk_treasury (fst (h params D)) = dk_treasury D"
    by (auto simp: auth_routes_def login_handler_def logout_handler_def requireAuth_def split: prod.split option.split)
qed simp

section \<open>What a request does to the treasury\<close>

definition requester :: "surroundings \<Rightarrow> moment \<Rightarrow> http_request \<Rightarrow> desk \<Rightarrow> User option" where
  "requester S M r D = snd (attachUser (su_uri S) (su_accounts S) (mo_clock M) (hq_cookie r) (dk_sessions D))"

lemma respond_api:
  "\<not> is_health r \<Longrightarrow> respond S M r D = api S M r (requester S M r D)
     (D\<lparr>dk_sessions := fst (attachUser (su_uri S) (su_accounts S) (mo_clock M) (hq_cookie r) (dk_sessions D))\<rparr>)"
  by (simp add: respond_def requester_def case_prod_unfold Let_def)

lemma health_kept: "is_health r \<Longrightarrow> fst (respond S M r D) = D"
  by (auto simp: respond_def is_health_def health_routes_def shown_def)

definition may_write :: "User option \<Rightarrow> bool" where
  "may_write user \<longleftrightarrow> (case user of None \<Rightarrow> False | Some u \<Rightarrow> can (usr_role u) INTENT_CREATE)"

lemma api_treasury:
  "(treasury_step (su_env S))\<^sup>*\<^sup>* (dk_treasury D) (dk_treasury (fst (api S M r user D)))"
  "hq_method r = Get \<or> \<not> may_write user \<Longrightarrow> dk_treasury (fst (api S M r user D)) = dk_treasury D"
proof -
  let ?conv = "guarded user INTENT_CREATE (conversation_routes S M r) (hq_method r) (tl (tl (hq_path r))) D"
  have others: "dk_treasury (fst (guarded user INTENT_READ (intent_routes S) m path D)) = dk_treasury D"
      "dk_treasury (fst (guarded user DASHBOARD_READ (\<lambda>_. dashboard_routes S M r) m path D)) = dk_treasury D" for m path
    using intents_same dashboard_same unfolding same_books_def
    by (auto intro: guarded_rule [where Q = "\<lambda>x. dk_treasury (fst x) = dk_treasury D"])
  have "(treasury_step (su_env S))\<^sup>*\<^sup>* (dk_treasury D) (dk_treasury (fst ?conv))"
    using conversation_moves unfolding moves_def
    by (auto intro: guarded_rule [where Q = "\<lambda>x. (treasury_step (su_env S))\<^sup>*\<^sup>* (dk_treasury D) (dk_treasury (fst x))"])
  then show "(treasury_step (su_env S))\<^sup>*\<^sup>* (dk_treasury D) (dk_treasury (fst (api S M r user D)))"
    by (simp add: api_def Let_def auth_treasury others)
  assume "hq_method r = Get \<or> \<not> may_write user"
  then have "dk_treasury (fst ?conv) = dk_treasury D"
    using conversation_get unfolding same_books_def
    by (intro guarded_rule [where Q = "\<lambda>x. dk_treasury (fst x) = dk_treasury D"]) (auto simp: may_write_def)
  then show "dk_treasury (fst (api S M r user D)) = dk_treasury D"
    by (simp add: api_def Let_def auth_treasury others)
qed

lemma respond_steps: "(treasury_step (su_env S))\<^sup>*\<^sup>* (dk_treasury D) (dk_treasury (fst (respond S M r D)))"
  by (cases "is_health r") (use api_treasury(1) [of S "D\<lparr>dk_sessions := s\<rparr>" for s] in \<open>simp_all add: health_kept respond_api\<close>)

lemma respond_reads:
  "hq_method r = Get \<or> \<not> may_write (requester S M r D) \<Longrightarrow> dk_treasury (fst (respond S M r D)) = dk_treasury D"
  by (cases "is_health r") (simp_all add: health_kept respond_api api_treasury(2))

section \<open>Requests in a row\<close>

definition serve :: "surroundings \<Rightarrow> (moment \<times> http_request) list \<Rightarrow> desk \<Rightarrow> desk" where
  "serve S reqs D = fold (\<lambda>(M, r) D. fst (respond S M r D)) reqs D"

text \<open>What a request asks of the sessions, read off the request alone.\<close>

definition cookie_sid :: "uri_codec \<Rightarrow> string option \<Rightarrow> string option" where
  "cookie_sid U header =
     (case parseCookies U header of
        None \<Rightarrow> None
      | Some cookies \<Rightarrow> (case map_of cookies SESSION_COOKIE of None \<Rightarrow> None | Some sid \<Rightarrow> if sid = [] then None else Some sid))"

definition auth_acts :: "surroundings \<Rightarrow> moment \<Rightarrow> http_request \<Rightarrow> session_act list" where
  "auth_acts S M r =
     (if hq_method r \<noteq> Post then []
      else if hq_path r = [''api'', ''auth'', ''login'']
      then [Login (mo_ids M 0) (mo_clock M) (or_else (text_field (hq_body r) ''username'') [])
              (or_else (text_field (hq_body r) ''password'') [])]
      else if hq_path r = [''api'', ''auth'', ''logout'']
      then (case cookie_sid (su_uri S) (hq_cookie r) of None \<Rightarrow> [] | Some sid \<Rightarrow> [Logout sid])
      else [])"

definition session_acts :: "surroundings \<Rightarrow> moment \<times> http_request \<Rightarrow> session_act list" where
  "session_acts S = (\<lambda>(M, r).
     if is_health r then []
     else (case cookie_sid (su_uri S) (hq_cookie r) of None \<Rightarrow> [] | Some sid \<Rightarrow> [Request (mo_clock M) sid]) @ auth_acts S M r)"

lemma attachUser_cookie:
  "attachUser U A now header S = (case cookie_sid U header of None \<Rightarrow> (S, None) | Some sid \<Rightarrow> authenticate A now sid S)"
  by (simp add: attachUser_def cookie_sid_def split: option.split)

lemma route_match_lit: "route_match [Lit s] path = (if path = [s] then Some [] else None)"
proof (cases path)
  case (Cons w ws)
  then show ?thesis by (cases ws) auto
qed simp

lemma dispatch_auth:
  "dispatch (auth_routes S M r user) m rest D =
     (if m = Post \<and> rest = [''login''] then login_handler S M r [] D
      else if m = Post \<and> rest = [''logout''] then logout_handler S r [] D
      else if m = Get \<and> rest = [''me''] then requireAuth user (\<lambda>u D. (D, replies 200 (publicUser u))) D
      else (D, replies 404 Unknown_route))"
  by (cases m) (auto simp: auth_routes_def route_match_lit)

lemma path_split: "take 2 path = [a, b] \<Longrightarrow> path = a # b # tl (tl path)"
  by (cases path; cases "tl path") auto

lemma respond_sessions:
  "dk_sessions (fst (respond S M r D)) = fold (session_step (su_accounts S)) (session_acts S (M, r)) (dk_sessions D)"
proof (cases "is_health r")
  case True
  then show ?thesis by (simp add: health_kept session_acts_def)
next
  case False
  let ?A = "su_accounts S" and ?rest = "tl (tl (hq_path r))" and ?m = "hq_method r"
  let ?D = "D\<lparr>dk_sessions := fst (attachUser (su_uri S) ?A (mo_clock M) (hq_cookie r) (dk_sessions D))\<rparr>"
  have seen: "dk_sessions ?D = fold (session_step ?A)
      (case cookie_sid (su_uri S) (hq_cookie r) of None \<Rightarrow> [] | Some sid \<Rightarrow> [Request (mo_clock M) sid]) (dk_sessions D)"
    by (simp add: attachUser_cookie session_step_def split: option.split)
  have guards: "dk_sessions (fst (guarded user INTENT_CREATE (conversation_routes S M r) m path D')) = dk_sessions D'"
      "dk_sessions (fst (guarded user INTENT_READ (intent_routes S) m path D')) = dk_sessions D'"
      "dk_sessions (fst (guarded user DASHBOARD_READ (\<lambda>_. dashboard_routes S M r) m path D')) = dk_sessions D'" for user m path D'
    using conversation_moves intents_same dashboard_same unfolding moves_def same_books_def
    by (auto intro!: guarded_rule [where Q = "\<lambda>x. dk_sessions (fst x) = dk_sessions D'"])
  have login: "dk_sessions (fst (login_handler S M r [] D')) = session_step ?A (Login (mo_ids M 0) (mo_clock M)
      (or_else (text_field (hq_body r) ''username'') []) (or_else (text_field (hq_body r) ''password'') [])) (dk_sessions D')" for D'
    by (simp add: login_handler_def session_step_def split: prod.split option.split)
  have logout: "dk_sessions (fst (logout_handler S r [] D')) = fold (session_step ?A)
      (case cookie_sid (su_uri S) (hq_cookie r) of None \<Rightarrow> [] | Some sid \<Rightarrow> [Logout sid]) (dk_sessions D')" for D'
    by (simp add: logout_handler_def cookie_sid_def session_step_def split: option.split)
  have me: "dk_sessions (fst (requireAuth user (\<lambda>u D. (D, replies 200 (publicUser u))) D')) = dk_sessions D'" for user D'
    by (simp add: requireAuth_def split: option.split)
  have "dk_sessions (fst (api S M r user ?D)) = fold (session_step ?A) (auth_acts S M r) (dk_sessions ?D)" for user
  proof (cases "take 2 (hq_path r) = [''api'', ''auth'']")
    case True
    then have "hq_path r = ''api'' # ''auth'' # ?rest" by (rule path_split)
    then have "hq_path r = [''api'', ''auth'', w] \<longleftrightarrow> ?rest = [w]" for w by (metis list.inject)
    with True show ?thesis
      by (simp add: api_def Let_def dispatch_auth auth_acts_def login logout me)
  next
    case False
    then have "auth_acts S M r = []" by (auto simp: auth_acts_def)
    then show ?thesis using False by (simp add: api_def Let_def guards)
  qed
  then show ?thesis using False seen by (simp add: respond_api session_acts_def)
qed

lemma serve_sessions:
  "dk_sessions (serve S reqs D) = fold (session_step (su_accounts S)) (concat (map (session_acts S) reqs)) (dk_sessions D)"
  by (induction reqs arbitrary: D) (auto simp: serve_def respond_sessions)

lemma serve_steps: "(treasury_step (su_env S))\<^sup>*\<^sup>* (dk_treasury D) (dk_treasury (serve S reqs D))"
proof (induction reqs arbitrary: D)
  case Nil
  then show ?case by (simp add: serve_def)
next
  case (Cons x reqs)
  obtain M r where "x = (M, r)" by (cases x)
  then show ?case using Cons.IH [of "fst (respond S M r D)"] respond_steps [of S D M r] by (simp add: serve_def)
qed

text \<open>Who changed the treasury: a manager who logged in with the password and has not logged out since.\<close>

lemma writer_logged_in:
  assumes "dk_sessions D = []" "distinct (map usr_id (acc_users (su_accounts S)))"
    and "dk_treasury (fst (respond S M r (serve S reqs D))) \<noteq> dk_treasury (serve S reqs D)"
  obtains sid ses u where "cookie_sid (su_uri S) (hq_cookie r) = Some sid"
    "opened_by (su_accounts S) (concat (map (session_acts S) reqs)) sid ses" "mo_clock M \<le> ses_expiresAt ses"
    "u \<in> set (acc_users (su_accounts S))" "usr_id u = ses_userId ses" "can (usr_role u) INTENT_CREATE"
proof -
  let ?D = "serve S reqs D"
  obtain u where u: "requester S M r ?D = Some u" "can (usr_role u) INTENT_CREATE"
  proof -
    have "may_write (requester S M r ?D)" using respond_reads assms(3) by blast
    then show ?thesis using that by (auto simp: may_write_def split: option.splits)
  qed
  then obtain sid where sid: "cookie_sid (su_uri S) (hq_cookie r) = Some sid"
      "snd (authenticate (su_accounts S) (mo_clock M) sid (dk_sessions ?D)) = Some u"
    by (auto simp: requester_def attachUser_cookie split: option.splits)
  have "dk_sessions ?D = sessions_after (su_accounts S) (concat (map (session_acts S) reqs))"
    using assms(1) by (simp add: serve_sessions sessions_after_def)
  then obtain ses where "opened_by (su_accounts S) (concat (map (session_acts S) reqs)) sid ses" "ses_userId ses = usr_id u"
      "mo_clock M \<le> ses_expiresAt ses" "u \<in> set (acc_users (su_accounts S))"
    using sid(2) assms(2) by (metis authenticated_opened)
  then show thesis using that sid(1) u(2) by metis
qed

section \<open>What an accepted submission forgets\<close>

lemma invalidate_get: "snapshot_get (invalidate i snap) k = (if k = i then None else snapshot_get snap k)"
  unfolding snapshot_get_def invalidate_def by (induction snap) auto

lemma forgotten: "snapshot_get (fold invalidate oids snap) k = (if k \<in> set oids then None else snapshot_get snap k)"
  by (induction oids arbitrary: snap) (auto simp: invalidate_get)

definition forgets_moved :: "desk \<Rightarrow> desk \<times> reply \<Rightarrow> bool" where
  "forgets_moved D x \<longleftrightarrow>
     (case rly_payload (snd x) of
        Submitted result \<Rightarrow> (\<forall>k. snapshot_get (dk_snapshot (fst x)) k =
          (if sir_status result \<and> k \<in> set (movedBy result) then None else snapshot_get (dk_snapshot D) k))
      | _ \<Rightarrow> True)"

lemma submit_forgets: "forgets_moved D (submit_handler S M params D)"
  unfolding submit_handler_def
  by (rule run_case_cases) (auto simp: forgets_moved_def boundary_def replies_def shown_def forget_accepted_def forgotten)

lemma run_case_other:
  assumes "\<And>x D'. \<forall>result. rly_payload (snd (next x D')) \<noteq> Submitted result"
  shows "forgets_moved D (run_case m next D)"
proof -
  have "\<forall>result. rly_payload (snd (run_case m next D)) \<noteq> Submitted result"
    by (rule run_case_cases [where Q = "\<lambda>x. \<forall>result. rly_payload (snd x) \<noteq> Submitted result"])
      (use assms in \<open>simp_all add: boundary_def replies_def\<close>)
  then show ?thesis by (simp add: forgets_moved_def split: payload.split)
qed

lemma quiet_replies [simp]:
  "forgets_moved D (D', boundary e)" "forgets_moved D (D', failed_read n)" "forgets_moved D (D', replies n (Failed e))"
  "forgets_moved D (D', \<lparr>rly_status = n, rly_cookie = c, rly_payload = Failed e\<rparr>)"
  "forgets_moved D (D', \<lparr>rly_status = n, rly_cookie = c, rly_payload = Failed_read k\<rparr>)"
  by (simp_all add: forgets_moved_def boundary_def failed_read_def replies_def)

lemma conversation_forgets: "forgets_moved D (dispatch (conversation_routes S M r u) m path D)"
proof (rule dispatch_rule)
  fix pattern h params
  assume route: "(m, pattern, h) \<in> set (conversation_routes S M r u)"
  note other = forgets_moved_def replies_def boundary_def failed_read_def shown_def
  have run: "forgets_moved D (start_handler M r u params D)" "forgets_moved D (answer_handler S M r params D)"
      "forgets_moved D (apply_handler S M r params D)" "forgets_moved D (interpret_handler S M r u params D)"
    unfolding start_handler_def answer_handler_def apply_handler_def interpret_handler_def
    by (rule run_case_other; auto simp: other)+
  have position: "forgets_moved D (start_position_handler S M r u params D)"
    unfolding start_position_handler_def
    by (auto simp: replies_def failed_read_def shown_def intro!: run_case_other split: option.split sum.split)
  have rectify: "forgets_moved D (rectify_handler S M r u params D)"
    unfolding rectify_handler_def by (auto simp: replies_def shown_def intro!: run_case_other split: option.split sum.split)
  have rest: "forgets_moved D (actions_handler S M params D)" "forgets_moved D (scenarios_handler params D)"
      "forgets_moved D (incomplete_handler S params D)" "forgets_moved D (candidates_handler S M params D)"
      "forgets_moved D (preview_handler S params D)" "forgets_moved D (identity_handler S M r u params D)"
      "forgets_moved D (enrich_handler M r u params D)"
    by (auto simp: other actions_handler_def scenarios_handler_def incomplete_handler_def candidates_handler_def
        preview_handler_def identity_handler_def enrich_handler_def split: option.split sum.split prod.split)
  have gated: "forgets_moved D (requirePermission p u cont D)" if "forgets_moved D (cont D)" for p cont
    using that by (simp add: requirePermission_def other)
  show "forgets_moved D (h params D)"
    using route run position rectify rest submit_forgets unfolding conversation_routes_def by (auto intro!: gated)
qed (simp add: forgets_moved_def replies_def)

lemma api_forgets: "forgets_moved D (api S M r user D)"
proof -
  have quiet: "forgets_moved D x" if "\<forall>result. rly_payload (snd x) \<noteq> Submitted result" for x
    using that by (simp add: forgets_moved_def split: payload.split)
  have auth: "forgets_moved D (dispatch (auth_routes S M r user) m path D)" for m path
    by (rule dispatch_rule; rule quiet)
      (auto simp: auth_routes_def login_handler_def logout_handler_def requireAuth_def publicUser_def replies_def
        boundary_def split: prod.split option.split)
  have intents: "forgets_moved D (dispatch (intent_routes S u) m path D)" for u m path
    by (rule dispatch_rule; rule quiet) (auto simp: intent_routes_def replies_def boundary_def split: sum.splits)
  have period: "\<forall>result. rly_payload (snd (with_period S r f params D)) \<noteq> Submitted result"
    if "\<And>from to. \<forall>result. rly_payload (snd (f from to D)) \<noteq> Submitted result" for f params
    using that by (simp add: with_period_def replies_def split: sum.split prod.split)
  have dashboard: "forgets_moved D (dispatch (dashboard_routes S M r) m path D)" for m path
  proof (rule dispatch_rule; rule quiet)
    fix pattern h params
    assume route: "(m, pattern, h) \<in> set (dashboard_routes S M r)"
    let ?quiet = "\<lambda>x :: desk \<times> reply. \<forall>result. rly_payload (snd x) \<noteq> Submitted result"
    have "?quiet (overview_handler S M r params D)" "?quiet (exposure_handler S M r params D)"
        "?quiet (positions_handler S M r params D)" "?quiet (movements_handler S M r params D)"
      unfolding overview_handler_def exposure_handler_def positions_handler_def movements_handler_def
      by (intro period; simp add: shown_def replies_def Let_def case_prod_unfold)+
    moreover have "?quiet (payables_handler S M params D)" "?quiet (lifecycle_handler M params D)"
        "?quiet (event_handler M params D)"
      by (auto simp: payables_handler_def lifecycle_handler_def event_handler_def shown_def replies_def failed_read_def
          split: sum.splits option.splits)
    ultimately show "?quiet (h params D)"
      using route unfolding dashboard_routes_def by auto
  qed (simp add: replies_def)
  have guarded: "forgets_moved D (guarded user p routes m path D)"
    if "\<And>u. forgets_moved D (dispatch (routes u) m path D)" for p routes m path
    using that by (rule guarded_rule [where Q = "forgets_moved D"]) simp_all
  show ?thesis
    by (simp add: api_def Let_def auth guarded conversation_forgets intents dashboard)
      (simp add: forgets_moved_def replies_def)
qed

lemma respond_forgets: "forgets_moved D (respond S M r D)"
proof (cases "is_health r")
  case True
  then show ?thesis
    by (auto simp: is_health_def respond_def health_routes_def shown_def replies_def forgets_moved_def)
next
  case False
  have "forgets_moved (D\<lparr>dk_sessions := s\<rparr>) x \<longleftrightarrow> forgets_moved D x" for s x
    by (cases "rly_payload (snd x)") (simp_all add: forgets_moved_def)
  with False show ?thesis using api_forgets by (metis respond_api)
qed

lemma respond_conversation:
  assumes "requester S M r D = Some u" "usr_role u = FINANCE_MANAGER" "hq_path r = ''api'' # ''conversation'' # path"
  shows "respond S M r D = dispatch (conversation_routes S M r u) (hq_method r) path
    (D\<lparr>dk_sessions := fst (attachUser (su_uri S) (su_accounts S) (mo_clock M) (hq_cookie r) (dk_sessions D))\<rparr>)"
proof -
  have "\<not> is_health r" using assms(3) by (simp add: is_health_def)
  then show ?thesis
    using assms by (simp add: respond_api api_def guarded_def requireAuth_def requirePermission_def can_def)
qed

section \<open>The cookie of a login\<close>

definition logs_in :: "UserSeed \<Rightarrow> http_request \<Rightarrow> bool" where
  "logs_in s r \<longleftrightarrow> hq_method r = Post \<and> hq_path r = [''api'', ''auth'', ''login'']
     \<and> text_field (hq_body r) ''username'' = Some (useed_username s) \<and> text_field (hq_body r) ''password'' = Some (useed_password s)"

definition seeded :: "accounts \<Rightarrow> (UserSeed \<times> string) list \<Rightarrow> bool" where
  "seeded A seeds \<longleftrightarrow> acc_users A = seedUsers (acc_scrypt A) seeds \<and> distinct (map (useed_username \<circ> fst) seeds)
     \<and> distinct (map (useed_id \<circ> fst) seeds) \<and> (\<forall>(s, random)\<in>set seeds. useed_id s \<noteq> [])"

lemma seeded_ids: "seeded A seeds \<Longrightarrow> distinct (map usr_id (acc_users A))"
  by (simp add: seeded_def seedUsers_def Let_def comp_def case_prod_unfold)

lemma login_member: "snd (login A sid now name password S) = Some (k, u) \<Longrightarrow> u \<in> set (acc_users A)"
  by (auto simp: login_def findByUsername_def find_Some_iff split: option.splits if_splits)

lemma found_user: "distinct (map usr_id users) \<Longrightarrow> u \<in> set users \<Longrightarrow> findById users (usr_id u) = Some u"
  unfolding findById_def by (induction users) (auto simp: rev_image_eqI)

lemma login_recognised:
  assumes A: "seeded (su_accounts S) seeds" "(s, random) \<in> set seeds" and r: "logs_in s r"
    and U: "faithful_uri (su_uri S)" and sid: "mo_ids M 0 \<noteq> []"
    and kept: "\<forall>act\<in>set (concat (map (session_acts S) reqs)).
      leaves_open (mo_ids M 0) (mo_clock M + acc_ttl (su_accounts S)) act"
    and r': "hq_cookie r' = Some (SESSION_COOKIE @ ''='' @ uri_encode (su_uri S) (mo_ids M 0))"
      "mo_clock M' \<le> mo_clock M + acc_ttl (su_accounts S)"
  obtains u where "usr_id u = useed_id s" "usr_role u = useed_role s"
    "respond S M r D = (fst (respond S M r D), \<lparr>rly_status = 200,
       rly_cookie = Some (serializeSessionCookie (su_uri S) (mo_ids M 0) (nat_string (su_ttlSeconds S)) (su_secure S)),
       rly_payload = publicUser u\<rparr>)"
    "requester S M' r' (serve S reqs (fst (respond S M r D))) = Some u"
proof -
  let ?A = "su_accounts S" and ?sid = "mo_ids M 0"
  let ?S = "fst (attachUser (su_uri S) ?A (mo_clock M) (hq_cookie r) (dk_sessions D))"
  obtain u where u: "usr_id u = useed_id s" "usr_role u = useed_role s"
      and login: "login ?A ?sid (mo_clock M) (useed_username s) (useed_password s) ?S =
        (create_session (acc_ttl ?A) ?sid (mo_clock M) (usr_id u) ?S, Some (?sid, u))"
    using seeded_login [of ?A seeds s random] A unfolding seeded_def by metis
  have member: "u \<in> set (acc_users ?A)" 
    using login_member [of ?A ?sid "mo_clock M" "useed_username s" "useed_password s" ?S ?sid u] login by simp
  let ?ses = "\<lparr>ses_userId = usr_id u, ses_expiresAt = mo_clock M + acc_ttl ?A\<rparr>"
  have "\<not> is_health r" using r by (simp add: logs_in_def is_health_def)
  then have answer: "respond S M r D = login_handler S M r [] (D\<lparr>dk_sessions := ?S\<rparr>)"
    using r by (simp add: respond_api logs_in_def api_def dispatch_auth)
  then have reply: "respond S M r D = (D\<lparr>dk_sessions := create_session (acc_ttl ?A) ?sid (mo_clock M) (usr_id u) ?S\<rparr>,
     \<lparr>rly_status = 200,
       rly_cookie = Some (serializeSessionCookie (su_uri S) ?sid (nat_string (su_ttlSeconds S)) (su_secure S)),
       rly_payload = publicUser u\<rparr>)"
    using r login by (simp add: login_handler_def logs_in_def or_else_def)
  have "map_of (dk_sessions (serve S reqs (fst (respond S M r D)))) ?sid = Some ?ses"
    unfolding serve_sessions by (rule session_kept) (use kept in \<open>simp_all add: reply create_session_def update_conv'\<close>)
  moreover have "findById (acc_users ?A) (usr_id u) = Some u"
    using found_user [OF seeded_ids [OF A(1)] member] .
  moreover have "usr_id u \<noteq> []" using A u(1) by (auto simp: seeded_def)
  moreover have "cookie_sid (su_uri S) (hq_cookie r') = Some ?sid"
    using cookie_read [OF U] sid by (simp add: r'(1) cookie_sid_def)
  ultimately have "requester S M' r' (serve S reqs (fst (respond S M r D))) = Some u"
    using r'(2) by (simp add: requester_def attachUser_cookie authenticate_def userIdFor_def)
  then show thesis using that [OF u] reply by simp
qed

end
