(* ===== verification/Sample_Api.thy ===== *)
theory Sample_Api
  imports Sample_Treasury Sample_Screens Treasury_Api
begin

text \<open>
  A manager on the treasury's interface: logs in, starts the intent of \<open>Sample_Treasury\<close> with the cookie
  and, once it is filled in, submits it.
\<close>

definition hex_uri :: uri_codec where
  "hex_uri = \<lparr>uri_encode = to_hex, uri_decode = (\<lambda>s. Some (from_hex s))\<rparr>"

lemma hex_chars: "c \<in> set (to_hex s) \<Longrightarrow> c \<in> set ''0123456789abcdef''"
proof -
  assume "c \<in> set (to_hex s)"
  then obtain b where b: "c = hex_char (of_char b div 16) \<or> c = hex_char (of_char b mod 16)"
    by (auto simp: to_hex_def)
  have "of_char b < (256 :: nat)" by simp
  then have "of_char b div 16 < (16 :: nat)" by (intro less_mult_imp_div_less) simp
  moreover have "of_char b mod 16 < (16 :: nat)" by (rule mod_less_divisor) simp
  ultimately obtain n where "n < 16" "c = hex_char n" using b by blast
  then show "c \<in> set ''0123456789abcdef''" using nth_mem [of n "''0123456789abcdef''"] unfolding hex_char_def by simp
qed

lemma hex_uri_faithful: "faithful_uri hex_uri"
proof -
  have "list_all (\<lambda>c. c \<noteq> CHR '';'' \<and> c \<noteq> CHR ''='' \<and> \<not> is_space c) ''0123456789abcdef''" by code_simp
  then have plain: "\<forall>c\<in>set ''0123456789abcdef''. c \<noteq> CHR '';'' \<and> c \<noteq> CHR ''='' \<and> \<not> is_space c"
    by (simp only: list_all_iff)
  have "\<forall>c\<in>set (to_hex s). c \<noteq> CHR '';'' \<and> c \<noteq> CHR ''='' \<and> \<not> is_space c" for s
    by (rule ballI) (rule bspec [OF plain hex_chars])
  then show ?thesis by (simp add: faithful_uri_def hex_uri_def from_to_hex)
qed

definition manager_seed :: UserSeed where
  "manager_seed = \<lparr>useed_id = ''ana'', useed_username = ''cfo'', useed_displayName = ''CFO'',
     useed_role = FINANCE_MANAGER, useed_password = ''pw''\<rparr>"

definition sample_accounts :: accounts where
  "sample_accounts = \<lparr>acc_users = seedUsers (@) [(manager_seed, ''salt'')], acc_scrypt = (@), acc_ttl = 1000\<rparr>"

lemma sample_seeded: "seeded sample_accounts [(manager_seed, ''salt'')]"
  by (simp add: seeded_def sample_accounts_def manager_seed_def)

definition sample_desktop :: surroundings where
  "sample_desktop = \<lparr>su_env = sample_treasury_env, su_accounts = sample_accounts, su_uri = hex_uri, su_secure = True,
     su_ttlSeconds = 1, su_platform = joint_platform, su_algebra = ledger_algebra, su_extract = (\<lambda>_. Inl ''off'')\<rparr>"

definition sample_moment :: moment where
  "sample_moment = \<lparr>mo_clock = 0, mo_instant = 0, mo_now = clock, mo_ids = (\<lambda>_. ''i1''),
     mo_ledger = answering sample_server 0 (sample_books []), mo_submission = (\<lambda>_. wire)\<rparr>"

lemma sample_desktop_fields [simp]:
  "su_env sample_desktop = sample_treasury_env" "su_accounts sample_desktop = sample_accounts" "su_uri sample_desktop = hex_uri"
  "mo_clock sample_moment = 0" "mo_now sample_moment = clock" "mo_ids sample_moment k = ''i1''"
  "mo_submission sample_moment k = wire" "acc_ttl sample_accounts = 1000"
  by (simp_all add: sample_desktop_def sample_moment_def sample_accounts_def)

definition manager_cookie :: string where
  "manager_cookie = SESSION_COOKIE @ ''='' @ uri_encode hex_uri ''i1''"

definition post_to :: "string list \<Rightarrow> string option \<Rightarrow> (string \<times> string) list \<Rightarrow> http_request" where
  "post_to path cookie texts = \<lparr>hq_method = Post, hq_path = ''api'' # path, hq_query = [], hq_cookie = cookie,
     hq_body = \<lparr>jb_texts = texts, jb_answers = [], jb_corrected = None\<rparr>\<rparr>"

definition login_request :: http_request where
  "login_request = post_to [''auth'', ''login''] None [(''username'', ''cfo''), (''password'', ''pw'')]"

definition opening_request :: http_request where
  "opening_request = post_to [''conversation'', ''start''] (Some manager_cookie) [(''scenarioId'', ''register_commission_accrual'')]"

definition sending_request :: http_request where
  "sending_request = post_to [''conversation'', ''i1'', ''submit''] (Some manager_cookie) []"

definition closed_desk :: desk where
  "closed_desk = \<lparr>dk_sessions = [], dk_treasury = empty_treasury, dk_snapshot = []\<rparr>"

lemma login_request_logs: "logs_in manager_seed login_request"
  by (simp add: logs_in_def login_request_def post_to_def manager_seed_def text_field_def)

lemma manager_recognised:
  assumes "hq_cookie r = Some manager_cookie"
  obtains u where "usr_id u = ''ana''" "usr_role u = FINANCE_MANAGER"
    "requester sample_desktop sample_moment r (serve sample_desktop [(sample_moment, login_request)] D) = Some u"
proof -
  obtain u where u: "usr_id u = useed_id manager_seed" "usr_role u = useed_role manager_seed"
      "requester sample_desktop sample_moment r
        (serve sample_desktop [] (fst (respond sample_desktop sample_moment login_request D))) = Some u"
    by (rule login_recognised [of sample_desktop "[(manager_seed, ''salt'')]" manager_seed "''salt''" login_request
        sample_moment "[]" r sample_moment D])
      (use assms in \<open>simp_all add: sample_seeded login_request_logs hex_uri_faithful manager_cookie_def\<close>)
  show thesis by (rule that [of u]) (use u in \<open>simp_all add: manager_seed_def serve_def\<close>)
qed

lemma opened_started:
  "\<exists>x. start_use_case ''i1'' clock ''register_commission_accrual'' ''ana'' empty_treasury = Inr (opened, x)"
  using inr_of [OF opened_start(2,1)] .

lemma login_only: "dk_treasury (serve sample_desktop [(sample_moment, login_request)] D) = dk_treasury D"
proof -
  have "\<not> is_health login_request" by (simp add: is_health_def login_request_def post_to_def)
  then show ?thesis
    by (simp add: serve_def respond_api api_def Let_def login_request_def post_to_def auth_treasury)
qed

lemma opening_changes:
  "dk_treasury (fst (respond sample_desktop sample_moment opening_request
     (serve sample_desktop [(sample_moment, login_request)] closed_desk))) = opened"
proof -
  let ?D = "serve sample_desktop [(sample_moment, login_request)] closed_desk"
  have c: "hq_cookie opening_request = Some manager_cookie" by (simp add: opening_request_def post_to_def)
  obtain u where u: "usr_id u = ''ana''" "usr_role u = FINANCE_MANAGER" "requester sample_desktop sample_moment opening_request ?D = Some u"
    by (rule manager_recognised [OF c])
  have path: "hq_path opening_request = ''api'' # ''conversation'' # [''start'']" by (simp add: opening_request_def post_to_def)
  have m: "hq_method opening_request = Post" by (simp add: opening_request_def post_to_def)
  have scenario: "field_text (hq_body opening_request) ''scenarioId'' = ''register_commission_accrual''"
    by (simp add: field_text_def text_field_def or_else_def opening_request_def post_to_def)
  have T: "dk_treasury ?D = empty_treasury" by (simp add: login_only closed_desk_def)
  obtain x where "start_use_case ''i1'' clock ''register_commission_accrual'' ''ana'' empty_treasury = Inr (opened, x)"
    using opened_started by blast
  then show ?thesis
    unfolding respond_conversation [OF u(3,2) path] m
    by (simp add: conversation_routes_def start_handler_def scenario run_case_def start_run_def lift_def u(1) T shown_def
        case_prod_unfold)
qed

text \<open>The desk of the manager once the intent is filled in, with some position remembered for it.\<close>

definition filled_desk :: "SnapshotPosition \<Rightarrow> desk" where
  "filled_desk item = \<lparr>dk_sessions = [(''i1'', \<lparr>ses_userId = ''ana'', ses_expiresAt = 1000\<rparr>)], dk_treasury = filled_in,
     dk_snapshot = [(''intent:i1'', item), (''ob-1'', item)]\<rparr>"

definition sent_result :: SubmitIntentResult where
  "sent_result = \<lparr>sir_status = True, sir_intentStatus = ACCEPTED, sir_ledgerReference = Some ''e9'', sir_reason = None,
     sir_correction = [], sir_candidate = accrual_candidate\<rparr>"

lemma sending_accepted:
  "rly_payload (snd (respond sample_desktop sample_moment sending_request (filled_desk item))) = Submitted sent_result"
proof -
  let ?D = "filled_desk item"
  have c: "hq_cookie sending_request = Some manager_cookie" "hq_method sending_request = Post"
    by (simp_all add: sending_request_def post_to_def)
  have path: "hq_path sending_request = ''api'' # ''conversation'' # [''i1'', ''submit'']"
    by (simp add: sending_request_def post_to_def)
  obtain u where u: "u \<in> set (acc_users sample_accounts)" "usr_id u = ''ana''" "usr_role u = FINANCE_MANAGER"
    by (simp add: sample_accounts_def seedUsers_def manager_seed_def Let_def)
  have "cookie_sid hex_uri (hq_cookie sending_request) = Some ''i1''"
    using cookie_read [OF hex_uri_faithful] by (simp add: c(1) manager_cookie_def cookie_sid_def)
  moreover have "findById (acc_users sample_accounts) ''ana'' = Some u"
    using found_user [OF seeded_ids [OF sample_seeded] u(1)] u(2) by simp
  ultimately have user: "requester sample_desktop sample_moment sending_request ?D = Some u"
    by (simp add: requester_def attachUser_cookie authenticate_def userIdFor_def filled_desk_def)
  have "snd (submit_intent sample_treasury_env wire clock ''i1'' filled_in) = Inr sent_result"
    by (cases rule: submit_intent_cases [where E = sample_treasury_env and ledger = wire and now = clock and i = "''i1''" and T = filled_in])
      (simp_all add: filled_in_sent settled_wire sent_result_def)
  then obtain T where "submit_intent sample_treasury_env wire clock ''i1'' filled_in = (T, Inr sent_result)"
    by (metis prod.collapse)
  then show ?thesis
    unfolding respond_conversation [OF user u(3) path] c(2)
    by (simp add: conversation_routes_def requirePermission_def can_def u(3) submit_handler_def run_case_def shown_def replies_def
        filled_desk_def)
qed

text \<open>An extractor that proposes another amount, sure of itself.\<close>

definition pushy :: extractor where
  "pushy request = Inr \<lparr>xtr_scenarioId = None, xtr_clarification = None,
     xtr_slots = [\<lparr>spr_key = ''amount'', spr_value = ''999.00'', spr_confidence = 1\<rparr>]\<rparr>"

lemma intent_and_scenario_journal: "intent_and_scenario (journal es T) i = intent_and_scenario T i"
  by (simp add: intent_and_scenario_def)

lemma pushy_answers:
  "\<exists>T' r. interpret_utterance sample_treasury_env pushy ''i2'' clock (Some ''i1'') utterance ''ana'' filled_in = Inr (T', r)"
proof -
  have i: "intent_and_scenario filled_in ''i1'' = Inr (accrual AWAITING_CONFIRMATION accrual_answers, registerCommissionAccrual)"
    using filled_in_intent accrual_scenario by (simp add: intent_and_scenario_Inr accrual_def)
  let ?T = "journal [audit ''i1'' (clock 0) ''utterance.received'' (Some utterance)] filled_in"
    and ?ps = "[\<lparr>spr_key = ''amount'', spr_value = ''999.00'', spr_confidence = 1\<rparr>]"
  have "\<exists>T' r. mergeProposals sample_treasury_env (clock 2) ''i1'' ?ps ?T = Inr (T', r)"
    unfolding mergeProposals_def apply_answers_def intent_and_scenario_journal i by (simp add: Let_def ebind_def)
  then obtain T' r where M: "mergeProposals sample_treasury_env (clock 2) ''i1'' ?ps ?T = Inr (T', r)" by blast
  have X: "safeExtract pushy k t request U = (U, \<lparr>xtr_scenarioId = None, xtr_clarification = None, xtr_slots = ?ps\<rparr>)" for k t request U
    by (simp add: safeExtract_def pushy_def)
  have "truthy (Some ''i1'')" by (simp add: truthy_def)
  then have "interpret_utterance sample_treasury_env pushy ''i2'' clock (Some ''i1'') utterance ''ana'' filled_in =
      Inr (T', merged_result ''i1'' (sc_id registerCommissionAccrual) r)"
    unfolding interpret_utterance_def interpretBound_def option.sel i by (simp add: ebind_def X M)
  then show ?thesis by blast
qed

end
