(* ===== verification/Spec2Isabelle.thy ===== *)
theory Spec2Isabelle
  imports Listings Sample_Sql Sample_Staging Sample_Treasury Sample_Screens Sample_Ingest Sample_Api
begin

text \<open>
  Verification library of the ledger system, a monorepo of two programs: the ledger (\<open>src/ledger\<close>), an
  append-only book of economic events, and the treasury (\<open>src/treasury\<close>), where people describe in guided
  conversations what happened and see what the book says. The treasury submits candidates to the ledger over
  HTTP and reads its positions and cash movements; staged records of other systems reach the ledger through
  its own jobs. Paths below are under \<open>src/ledger/src\<close> and \<open>src/treasury/src\<close>.

  \<^bold>\<open>How the model reads.\<close> Classes are records, enumerations datatypes, strings lists of bytes (UTF-8), bigint and
  dates unbounded integers, a \<open>Map\<close> an association list in insertion order, an array a list. A throw is an
  \<open>Inl\<close> with a constructor per statement and the function that gives its message; a use case of the treasury
  returns its state also when it throws (\<open>Submission.run\<close>). Clock readings, identifiers, hashing, reading and
  writing of dates, collation, accents, base64, URI encoding and scrypt are arguments, with what is assumed of
  them named where it is used (\<open>faithful_platform\<close>, \<open>faithful_codec\<close>, \<open>faithful_uri\<close>). Every definition
  computes. Asynchronous calls run one after the other: a use case, a request or a job is one step.

  \<^bold>\<open>The ledger, writing.\<close> \<open>Ledger_Prelude\<close> holds the checks-in-order combinator and the collections of facts;
  \<open>Ledger_Enums\<close>, \<open>Ledger_Errors\<close>, \<open>Ledger_Money\<close> and \<open>Ledger_Entities\<close> the vocabulary, the errors and messages,
  \<open>Money.ts\<close> and the value objects; \<open>Ledger_Algebra\<close> the contracts and matrices; \<open>Invariant_Policy\<close> the thirteen
  steps of \<open>validateSemantic\<close> with their declarative reading; \<open>Canonical_Hash\<close> the canonical text and
  \<open>Ledger_Event\<close> the factory \<open>LedgerEvent.create\<close>, which \<open>Event_Seal\<close> relates to what the hash covers. \<open>Retraction\<close>
  holds the folds of \<open>retractionUtils.ts\<close>, \<open>Ledger_Store\<close> the in-memory repository behind the locale that states its
  contract, \<open>Create_Event\<close> the use case \<open>CreateLedgerEventUseCase\<close> with its guards. \<open>Ledger_Invariant\<close> is the state
  machine: the stores reachable by executions, and the predicate \<open>recorded_after\<close> every event satisfies against
  the events before it; \<open>Book_Facts\<close> derives what the other theories use of it.

  \<^bold>\<open>The ledger, reading.\<close> \<open>Pages\<close> is the stable sort with a comparator and the slicing; \<open>Position\<close>,
  \<open>Ledger_Aggregates\<close>, \<open>Projection\<close>, \<open>Listings\<close> the positions and events listed; \<open>Cash_Movements\<close> the cursor walk;
  \<open>Cash_Reports\<close> and \<open>Report_Sums\<close> the statement, cash position, dashboard and health with their sums;
  \<open>Ledger_Published\<close> and \<open>Ledger_Api\<close> the serializers and read routes.

  \<^bold>\<open>The ledger, stored.\<close> \<open>Sql_Store\<close> is the production store \<open>TypeOrmLedgerEventRepository.ts\<close> with its tables
  \<open>LedgerEventModel.ts\<close>: events written to rows and read back. \<open>Sql_Queries\<close> are its queries over events and cash,
  \<open>Sql_Aggregates\<close> those over positions, each statement read as SQL reads it; the lemmas relate a row to the event it
  was written from, a group of rows to the walk of the in-memory repository over the same mentions
  (\<open>row_of_position\<close>), and every listing to the listing of that repository.

  \<^bold>\<open>Records of other systems.\<close> \<open>Receipt_Ingest\<close> builds staged records from receipts and advances,
  \<open>Staging_Records\<close> validates them, \<open>Staging_Posting\<close> posts or rejects them (both in-memory stores, the resolver of
  origins, the submit job), \<open>Rejections\<close> classifies failures and is \<open>SubmitCandidateUseCase\<close>.

  \<^bold>\<open>The treasury.\<close> \<open>Party_Names\<close>, \<open>Party_Directory\<close> and \<open>Party_Upkeep\<close> are the directory: normal names, the
  resolution cascade, imports and enrichment. \<open>Scenarios\<close> holds the seventeen scenarios as data, \<open>Scenario_Mappings\<close>
  and \<open>Candidate_Mapping\<close> the tuple each proposes; \<open>Conversation\<close> the intents and the dialog, \<open>Interpretation\<close> free
  text, \<open>Submission\<close> preview, submit, rectification and starting from a position. \<open>Treasury_Invariant\<close> is its state
  machine. \<open>Ledger_Read_Models\<close>, \<open>Treasury_Reads\<close>, \<open>Treasury_Screens\<close>, \<open>Treasury_Overview\<close>, \<open>Payable_Lists\<close>,
  \<open>Position_Actions\<close> and \<open>Position_Snapshot\<close> are what it reads, shows, offers and remembers. \<open>Accounts\<close> and
  \<open>Treasury_Api\<close> are its users, sessions and HTTP interface.

  \<^bold>\<open>Both programs.\<close> \<open>Treasury_Ledger\<close> is the request and the reply between them, \<open>Proposals\<close>, \<open>Confirmed_Intents\<close>
  and \<open>Admission\<close> carry a confirmed intent to an event the ledger records, \<open>Joint_Run\<close> lets both run together with
  replies that may be lost. The theories \<open>Sample_\<dots>\<close> are concrete runs at which the properties are exercised.

  \<^bold>\<open>What the lemmas show.\<close> Recording: which commands are recorded and as what, that the book only grows, chains
  its hashes, keeps its keys unique and is pinned down by its last hash; that a settlement which names a
  position once never closes more than the position originated, when it has an origination and no reversal (a
  command that names it twice can: \<open>double_settlement_passes\<close>). Reading: that the
  folds, the aggregates, the projection and the guard agree, that pages and cursors tile the listing, that reports
  add up. Boundary: that a confirmed intent is recorded as what it says, that an accepted one has its one event,
  that a repeated submission records nothing. Staging: that a run settles what it claimed. Treasury: that answers
  stay validated, identities exact, that text only fills blanks, that a sweep leaves nothing stale, that only a
  logged-in manager changes anything. The section of each property says where its parts come from.

  \<^bold>\<open>Locales.\<close> \<open>ledger_repository\<close> (\<open>Ledger_Store\<close>) is the interface the use cases rely on, \<open>string_enum\<close>
  (\<open>Ledger_Prelude\<close>) an enumeration with its texts, \<open>comparator\<close> (\<open>Pages\<close>) what a sort needs, \<open>gathering\<close>
  (\<open>Party_Upkeep\<close>) the loops of the import, \<open>answered_book\<close> (\<open>Position_Snapshot\<close>) a copy of answers over a growing
  book; each is interpreted on the code's own definitions.

  \<^bold>\<open>Bounds.\<close> No loop of the model needs fuel of its own: where the code bounds a loop the bound is the code's. The
  sweep of the feed reads at most 20 pages of 100 events (\<open>SWEEP_MAX_PAGES\<close>) and clears the copy when that is not
  enough, which is why it leaves nothing stale; a job claims batches of its own size until none is left, and the
  batches are finite because every claim takes records out of what waits; the projection streams in batches of a
  size that is a parameter here (50 in the code) and the listings clamp their limits as the routes do. Loops without a structural argument (suffixes, runs of
  characters) have their measure.

  \<^bold>\<open>Not modelled.\<close> The SQL store of staged records and the Mongo readers' queries (the in-memory repository states the same
  contract); the engine behind the SQL store of events: the statements are read, not parsed; RabbitMQ, the workers' endless polling, timers and shutdown; the connection, migration and
  environment code and the development runner; the other spellings of a path that Express takes for the same route
  (letter case, a trailing slash); the files and screens of the web client and of the ledger's static
  page; the demonstration simulator and the stub adapters; concurrency inside one process, where an awaited call of
  one request could run between two of another.
\<close>

section \<open>Recording events\<close>

text \<open>
  C1. Every event of every store the use case can reach was, at the moment it was recorded, built
  from valid properties and hashed over its own content; its identifier, source reference and
  command key were new; it names the hash of the event before it; the origin it refers to was there
  before and is of a type its contract admits; a retraction is the first one of its target and never
  retracts a retraction of a retraction; and no settlement exceeded what its position had open.
\<close>

theorem recorded_events_lawful:
  "reachable P st \<Longrightarrow> each_after (recorded_after P) st"
  by (rule reachable_each_after)

theorem recorded_events_lawful_witness:
  "each_after (recorded_after sample_platform) [recognized, paid, retracted_payment]"
  by (rule recorded_events_lawful [OF sample_reachable(3)])

text \<open>
  C2. The use case records an event exactly when the command is new, its texts and amounts can be
  read, its source reference and the drawn identifier are unused, the guards on the origin, on
  retractions and on every settled object pass, and the properties built from it satisfy the basic
  rules, the flow rules, the semantic policy and have valid dates; the event recorded is then the
  one built from those properties, appended to the store, with one audit entry.
\<close>

theorem execute_records_exactly:
  "execute P env st cmd = Inr (ev, st @ [ev], [audit_created P cmd ev]) \<longleftrightarrow>
     known_command st cmd = None \<and>
     (\<exists>p. accepts env st cmd p \<and> ev = event_of P (env_recordedAt env) p)"
  by (rule execute_records_iff)

text \<open>
  C7. The last hash of a reachable ledger determines its whole history: two reachable stores with
  the same last hash have the same number of events, which agree in the same order on everything the
  hash covers.
\<close>

theorem last_hash_pins_history:
  assumes "faithful_platform P" "reachable P st" "reachable P st'"
    and "getLastEventHash st = getLastEventHash st'"
  shows "map seal st = map seal st'"
  using assms by (intro history_sealed reachable_each_after)

theorem last_hash_pins_history_witness:
  "map seal [recognized, paid] = map seal [recognized, paid]"
  by (rule last_hash_pins_history [OF sample_platform_faithful sample_reachable(2) sample_reachable(2) refl])

text \<open>
  C8. What \<open>retractedEventIds\<close> leaves standing is what retraction means: an event stands if and
  only if no standing event retracts it. The two hops of the fold decide this for every reachable
  store, and there is no other reading of the store with this property.
\<close>

theorem one_hop_decides_standing:
  assumes "reachable P st"
  shows "kernel st (stands st) \<and> (\<forall>K. kernel st K \<longrightarrow> (\<forall>e\<in>set st. K e = stands st e))"
proof -
  note inv = reachable_each_after [OF assms]
  have "K e = stands st e" if "kernel st K" "e \<in> set st" for K e
    using kernel_unique [OF inv that(1) stands_kernel [OF inv]] that(2)
    by (auto simp: in_set_conv_nth)
  with stands_kernel [OF inv] show ?thesis by blast
qed

theorem one_hop_decides_standing_witness:
  "kernel [recognized, paid, retracted_payment] (stands [recognized, paid, retracted_payment]) \<and>
   \<not> stands [recognized, paid, retracted_payment] paid"
  using one_hop_decides_standing [OF sample_reachable(3)]
  by (simp add: stands_def fold_defs sample_fields)

text \<open>
  C10. Conservation: when a reachable ledger records a settlement that names a position once, and the
  position has an origination on record and no reversal, the closed total of the position grows by
  the amount of the event, its origination stays, and what is closed does not exceed it. Without an
  origination, or after a reversal, the code does not compare, on purpose: such a settlement may close
  any amount.
\<close>

theorem settlement_never_exceeds:
  assumes "reachable P st" "execute P env st cmd = Inr (ev, st @ [ev], au)"
    and "filter (\<lambda>ob. obj_id ob = oid) (ev_objects ev) = [ob]" "obj_relation ob = Relation.SETTLES"
    and "originatedUnits (foldObjectTotals (findByObjectId st oid) oid) \<noteq> 0"
    and "\<not> ot_hasReversal (foldObjectTotals (findByObjectId st oid) oid)"
  shows "originatedUnits (foldObjectTotals (findByObjectId (st @ [ev]) oid) oid)
      = originatedUnits (foldObjectTotals (findByObjectId st oid) oid) \<and>
    closedUnits (foldObjectTotals (findByObjectId (st @ [ev]) oid) oid)
      = closedUnits (foldObjectTotals (findByObjectId st oid) oid) + units (ev_amount ev) \<and>
    closedUnits (foldObjectTotals (findByObjectId (st @ [ev]) oid) oid)
      \<le> originatedUnits (foldObjectTotals (findByObjectId (st @ [ev]) oid) oid)"
proof -
  note inv = reachable_each_after [OF assms(1)]
  have "recorded_after P st ev" using execute_step [OF inv assms(2)] by auto
  from settlement_conserves [OF inv this assms(3,4) refl refl assms(5,6)] show ?thesis by blast
qed

theorem settlement_never_exceeds_witness:
  "closedUnits (foldObjectTotals (findByObjectId ([recognized] @ [paid]) ''ob-1'') ''ob-1'')
     \<le> originatedUnits (foldObjectTotals (findByObjectId ([recognized] @ [paid]) ''ob-1'') ''ob-1'')"
  using settlement_never_exceeds [OF sample_reachable(1), of _ _ paid _ "''ob-1''"
      "\<lparr>obj_id = ''ob-1'', obj_type = ObjectType.PAYABLE, obj_relation = Relation.SETTLES\<rparr>"]
    sample_executions(2) sample_totals(1)
  by (simp add: sample_fields)

text \<open>
  Idempotency: once a command with a key has been executed, executing any command with the same
  key returns the same event, leaves the store as it is and writes no audit entry, whatever the rest
  of the command and the surroundings say.
\<close>

theorem same_key_same_event:
  assumes "reachable P st" "execute P env st cmd = Inr (ev, st', au)"
    and "truthy (cmd_commandId cmd)" "cmd_commandId cmd' = cmd_commandId cmd"
  shows "execute P env' st' cmd' = Inr (ev, st', [])"
  using assms by (intro repeat_command [OF reachable_each_after])

theorem same_key_same_event_witness:
  "execute sample_platform (sample_env ''e9'') [recognized, paid]
     (pay_cmd ''700.00'' ''k2'' [(''ob-2'', Relation.SETTLES)]) = Inr (paid, [recognized, paid], [])"
  by (rule same_key_same_event [OF sample_reachable(1) sample_executions(2)])
     (simp_all add: sample_cmd_fields)

text \<open>
  C11. The ledger is append-only: an execution that succeeds either leaves the store untouched and
  returns an event that was already there, or adds one event at the end; identifiers, source
  references and command keys of a reachable store are never shared by two events, and the hashes
  form one chain.
\<close>

theorem append_only_ledger:
  assumes "reachable P st" "execute P env st cmd = Inr (ev, st', au)"
  shows "(st' = st \<and> ev \<in> set st \<or> st' = st @ [ev]) \<and>
    distinct (map ev_id st') \<and> distinct (map (src_reference \<circ> ev_source) st') \<and> chained None st' \<and>
    (\<forall>a\<in>set st'. \<forall>b\<in>set st'. truthy (ev_commandId a) \<and> ev_commandId a = ev_commandId b \<longrightarrow> a = b)"
proof -
  have inv: "each_after (recorded_after P) st'"
    by (rule reachable_each_after) (rule reachable.record_event [OF assms])
  have "st' = st \<and> ev \<in> set st \<or> st' = st @ [ev]"
    using execute_step [OF reachable_each_after [OF assms(1)] assms(2)] by blast
  moreover have "\<forall>a\<in>set st'. \<forall>b\<in>set st'. truthy (ev_commandId a) \<and> ev_commandId a = ev_commandId b \<longrightarrow> a = b"
    using unique_commands [OF inv] by blast
  ultimately show ?thesis
    using distinct_ids [OF inv] distinct_sources [OF inv] chain_intact [OF inv] by blast
qed

theorem append_only_ledger_witness:
  "distinct (map ev_id [recognized, paid]) \<and> chained None [recognized, paid]"
  using append_only_ledger [OF sample_reachable(1) sample_executions(2)] by blast

section \<open>One event\<close>

text \<open>
  C12. The factory returns an event exactly for the properties that satisfy the basic rules, the flow
  rules, the semantic policy and have valid dates; the event carries those properties unchanged.
\<close>

theorem create_decides:
  assumes "valid_props p"
  shows "create P now p = Inr ev \<longleftrightarrow>
    basic_ok p \<and> flows_ok p \<and> admissible p \<and> dates_ok p \<and> ev = event_of P now p"
  using validate_iff [OF assms] by (auto simp: create_Inr)

theorem create_decides_witness:
  "create sample_platform 2000 (recognize_props None) = Inr recognized"
proof -
  have "valid_props (recognize_props None)" by code_simp
  from create_decides [OF this] show ?thesis
    by (simp add: sample_flows sample_admissible recognized_def)
qed

text \<open>
  C13. The thirteen ordered steps of the semantic policy let an event pass exactly when the tables
  admit it: the effect of the event by its contract; for every positional object the tuple of type,
  effect, object type, relation and reason; contextual objects only as references; the confidence;
  the previous hash; the origin; retractions alone and with a target; a due date only with an
  origination of a contract that admits one.
\<close>

theorem policy_decides_admissible:
  "validateSemantic p = None \<longleftrightarrow> admissible p"
  by (rule validateSemantic_iff)

text \<open>
  C14. Two recorded events have the same hash exactly when they agree on everything but the command
  key, the currency of their amounts, and the name and time of their reporter: any other change is
  visible in the hash, and a change of currency is not.
\<close>

theorem hash_covers_seal:
  assumes "faithful_platform P" "lawful P a" "lawful P b"
  shows "ev_hash a = ev_hash b \<longleftrightarrow> seal a = seal b"
  using hash_valid_eq [of P a b] assms by (simp add: lawful_def)

theorem hash_covers_seal_witness:
  "ev_hash recognized \<noteq> ev_hash paid"
proof -
  have "lawful sample_platform recognized" "lawful sample_platform paid"
    using all_lawful [OF reachable_each_after [OF sample_reachable(2)]] by simp_all
  from hash_covers_seal [OF sample_platform_faithful this] show ?thesis
    by (simp add: seal_eq sample_fields)
qed

text \<open>
  C15. The conservation guard and the position listings cannot disagree about a position whose
  retractions name it: the totals the guard folds from the events of the object are the totals of the
  aggregate that the listings publish, and zero where there is no aggregate. Without that condition
  (a retraction recorded under other objects than its target's) the two can differ.
\<close>

theorem guard_agrees_with_listing:
  assumes "retractions_name oid st"
  shows "foldObjectTotals (findByObjectId st oid) oid =
    (case map_of (buildAggregateMap st) oid of
       None \<Rightarrow> \<lparr>originatedUnits = 0, closedUnits = 0, ot_hasReversal = False\<rparr>
     | Some agg \<Rightarrow> \<lparr>originatedUnits = pa_totalOriginatedUnits agg,
                   closedUnits = pa_totalSettledUnits agg + pa_totalAdjustedUnits agg,
                   ot_hasReversal = pa_hasReversal agg\<rparr>)"
  using assms by (rule guard_sees_aggregate)

theorem guard_agrees_with_listing_witness:
  "(case map_of (buildAggregateMap [recognized, paid, retracted_payment]) ''ob-1'' of
      None \<Rightarrow> 0 | Some agg \<Rightarrow> pa_totalOriginatedUnits agg) = 100000"
  using guard_agrees_with_listing [OF sample_named] unfolding sample_totals
  by (auto split: option.splits)

text \<open>
  What an execution does to the events that stand: an event that is not a retraction is added to
  them; a retraction takes exactly its target out, and puts back what the target had retracted.
\<close>

theorem retraction_moves_standing:
  assumes "reachable P st" "execute P env st cmd = Inr (r, st @ [r], au)"
  shows "(\<not> is_retraction r \<longrightarrow> standing (st @ [r]) = standing st @ [r]) \<and>
    (\<forall>e\<in>set st. retracts_id r (ev_id e) \<longrightarrow>
      standing (st @ [r]) = filter (\<lambda>x. x \<noteq> e \<and> (retracts_id e (ev_id x) \<or> stands st x)) st @ [r])"
proof -
  note inv = reachable_each_after [OF assms(1)]
  have r: "recorded_after P st r" using execute_step [OF inv assms(2)] by auto
  show ?thesis
    using standing_after_plain [OF inv r] standing_after_retraction [OF inv r] by blast
qed

theorem retraction_moves_standing_witness:
  "standing ([recognized, paid] @ [retracted_payment]) = [recognized, retracted_payment]"
proof -
  have "execute sample_platform (sample_env ''e3'') [recognized, paid] (retract_cmd ''k3'' ''e2'') =
      Inr (retracted_payment, [recognized, paid] @ [retracted_payment],
        [audit_created sample_platform (retract_cmd ''k3'' ''e2'') retracted_payment])"
    by (simp add: sample_executions(3))
  note retraction_moves_standing [OF sample_reachable(2) this]
  then have "standing ([recognized, paid] @ [retracted_payment]) =
      filter (\<lambda>x. x \<noteq> paid \<and> (retracts_id paid (ev_id x) \<or> stands [recognized, paid] x)) [recognized, paid]
        @ [retracted_payment]"
    by (auto simp: retracts_id_def is_retraction_def has_relation_def sample_fields)
  moreover have "recognized \<noteq> paid" using sample_fields(1,2) by force
  moreover have "stands [recognized, paid] recognized" by (simp add: stands_def fold_defs sample_fields)
  ultimately show ?thesis by simp
qed

text \<open>
  C23. The conservation guard refuses a settlement exactly when the position has an origination on
  record, no reversal, and less open than the amount; the error names what is open, except for a
  position that is already closed beyond its origination, where computing that amount fails first.
\<close>

theorem over_settlement_refused:
  assumes "valid_money money"
  shows "conservation_object st money ob = Some err \<longleftrightarrow>
    (let T = foldObjectTotals (findByObjectId st (obj_id ob)) (obj_id ob) in
     obj_relation ob = Relation.SETTLES \<and> \<not> ot_hasReversal T \<and> originatedUnits T \<noteq> 0 \<and>
     originatedUnits T < closedUnits T + units money \<and>
     err = (if originatedUnits T < closedUnits T then Money_Error MoneyNegative
            else UseCase_Error (OverSettlement (obj_id ob)
              (money_toString \<lparr>units = originatedUnits T - closedUnits T, currency = currency money\<rparr>))))"
  using conservation_refusal [OF assms refl] by (simp add: Let_def)

theorem over_settlement_refused_witness:
  "conservation_object [recognized, paid] \<lparr>units = 70000, currency = ''BRL''\<rparr>
     \<lparr>obj_id = ''ob-1'', obj_type = ObjectType.PAYABLE, obj_relation = Relation.SETTLES\<rparr>
   = Some (UseCase_Error (OverSettlement ''ob-1'' ''600.00''))"
proof -
  have "valid_money \<lparr>units = 70000, currency = ''BRL''\<rparr>" by code_simp
  moreover have "money_toString \<lparr>units = 60000, currency = ''BRL''\<rparr> = ''600.00''" by code_simp
  ultimately show ?thesis by (simp add: over_settlement_refused sample_totals Let_def)
qed

text \<open>
  The guard looks at one object of the command at a time, against the store before the command: a
  payment that names the same position in two objects passes although the two amounts together exceed
  what is open, and leaves the position closed beyond its origination.
\<close>

theorem double_settlement_passes:
  "execute sample_platform (sample_env ''e2'') [recognized] double_cmd =
     Inr (paid_twice, [recognized] @ [paid_twice], [audit_created sample_platform double_cmd paid_twice]) \<and>
   foldObjectTotals (findByObjectId [recognized, paid_twice] ''ob-1'') ''ob-1'' =
     \<lparr>originatedUnits = 100000, closedUnits = 140000, ot_hasReversal = False\<rparr>"
  using double_execution double_totals by blast

text \<open>
  An event is retracted at most once: when some recorded retraction names a target, every new
  command that retracts the same target is refused, also when that retraction no longer stands.
\<close>

theorem retracted_once:
  assumes "reachable P st" "r \<in> set st" "retracts_id r t"
    and "known_command st cmd = None" "cmd_relatedEventId cmd = Some t"
    and "has_relation Relation.RETRACTS (cmd_objects cmd)"
  shows "\<exists>err. execute P env st cmd = Inl err"
  using assms by (intro second_retraction_refused [OF reachable_each_after])

theorem retracted_once_witness:
  "\<exists>err. execute sample_platform (sample_env ''e4'') [recognized, paid, retracted_payment]
     (retract_cmd ''k4'' ''e2'') = Inl err"
  by (rule retracted_once [OF sample_reachable(3), of retracted_payment "''e2''"])
     (simp_all add: retracts_id_def is_retraction_def has_relation_def sample_fields sample_cmd_fields
      known_command_None)

section \<open>Positions\<close>

text \<open>
  The totals of a position do not depend on the order in which its events are read.
\<close>

theorem totals_order_free:
  assumes "reachable P st" "mset evs = mset (findByObjectId st oid)"
  shows "foldObjectTotals evs oid = foldObjectTotals (findByObjectId st oid) oid"
proof -
  have "one_retraction_each (findByObjectId st oid)"
    using reachable_one_retraction [OF assms(1)] by (auto simp: one_retraction_each_def findByObjectId_def)
  from foldObjectTotals_permute [OF this assms(2)] show ?thesis .
qed

theorem totals_order_free_witness:
  "foldObjectTotals [retracted_payment, paid, recognized] ''ob-1'' =
     foldObjectTotals (findByObjectId [recognized, paid, retracted_payment] ''ob-1'') ''ob-1''"
  by (rule totals_order_free [OF sample_reachable(3)])
     (simp add: findByObjectId_def mentions_def sample_fields)

text \<open>
  C24. The two read paths of a position publish the same figures: the projection over the events of
  the object does not fail and has the status, outcome, balances and totals of the aggregate over the
  whole store, for a position whose events are in one currency and whose retractions name it.
\<close>

theorem projection_matches_aggregate:
  assumes "reachable P st" "\<forall>ev\<in>set st. mentions oid ev \<longrightarrow> currency (ev_amount ev) = c"
    and "retractions_name oid st" "map_of (buildAggregateMap st) oid = Some agg"
  shows "\<exists>S. summarize st oid = Inr (Some S) \<and> ps_figures S = figures_of agg"
  using projection_agrees [OF _ assms(2-4)] reachable_amounts [OF assms(1)] by (simp add: valid_amounts_def)

theorem projection_matches_aggregate_witness:
  "\<exists>S. summarize [recognized, paid, retracted_payment] ''ob-1'' = Inr (Some S) \<and> pf_status (ps_figures S) = open_position"
proof -
  let ?st = "[recognized, paid, retracted_payment]"
  have "map_of (buildAggregateMap ?st) ''ob-1'' \<noteq> None"
    by (simp add: build_None standing_def stands_def fold_defs sample_fields)
  then obtain agg where agg: "map_of (buildAggregateMap ?st) ''ob-1'' = Some agg" by blast
  have "\<forall>ev\<in>set ?st. mentions ''ob-1'' ev \<longrightarrow> currency (ev_amount ev) = ''BRL''" by (simp add: sample_fields)
  from projection_matches_aggregate [OF sample_reachable(3) this sample_named agg] obtain S where
    S: "summarize ?st ''ob-1'' = Inr (Some S)" "ps_figures S = figures_of agg" by blast
  have T: "pa_totalOriginatedUnits agg = 100000" "pa_totalSettledUnits agg + pa_totalAdjustedUnits agg = 0"
    "\<not> pa_hasReversal agg"
    using guard_sees_aggregate [OF sample_named] agg by (simp_all add: sample_totals)
  then have "derivePositionStatus agg = open_position"
    by (simp add: derivePositionStatus_def hasUnknownOrigination_def Let_def)
  with S show ?thesis by (auto simp: figures_of_def Let_def)
qed

text \<open>
  A list item is published for every aggregate with valid amounts, without failing, and its money
  fields are the figures of the aggregate.
\<close>

theorem list_item_figures:
  assumes "one_currency_book c st" "agg \<in> set (findAllPositionAggregates st)"
  shows "\<exists>item. aggregateToListItem agg = Inr item \<and> li_figures item = figures_of agg"
  using book_aggregates [OF assms(1), of agg] assms(2) list_item [of agg]
  by (auto simp: findAllPositionAggregates_def)

theorem list_item_figures_witness:
  "\<exists>agg item. agg \<in> set (findAllPositionAggregates [recognized, paid]) \<and>
     aggregateToListItem agg = Inr item \<and> pf_status (li_figures item) = partially_settled"
proof (rule sample_aggregate)
  fix agg assume agg: "agg \<in> set (findAllPositionAggregates [recognized, paid])"
    "derivePositionStatus agg = partially_settled"
  from list_item_figures [OF sample_book_brl(1) agg(1)] agg show ?thesis
    by (auto simp: figures_of_def Let_def)
qed

text \<open>
  What the status of a position says about its balance: without a reversal, a settled position
  has an origination and nothing open, a partly settled one has less open than was originated, an
  unknown origin has no balance at all, and an open one has all that was originated.
\<close>

theorem status_tells_balance:
  assumes "one_currency_book c st" "agg \<in> set (findAllPositionAggregates st)" "\<not> pa_hasReversal agg"
  shows "case derivePositionStatus agg of
      fully_settled \<Rightarrow> openBalanceUnitsOf agg = Some 0 \<and> pa_totalOriginatedUnits agg \<noteq> 0
    | partially_settled \<Rightarrow> \<exists>b. openBalanceUnitsOf agg = Some b \<and> 0 < b \<and> b < pa_totalOriginatedUnits agg
    | unknown_origin \<Rightarrow> openBalanceUnitsOf agg = None
    | open_position \<Rightarrow> openBalanceUnitsOf agg = Some (pa_totalOriginatedUnits agg)
    | reversed \<Rightarrow> False"
proof -
  have "nonneg_totals agg"
    using book_aggregates [OF assms(1), of agg] assms(2)
    by (auto simp: findAllPositionAggregates_def nonneg_totals_def valid_aggregate_def)
  note s = status_balance [OF this assms(3)]
  have "derivePositionStatus agg \<noteq> reversed"
    using assms(3) by (simp add: derivePositionStatus_def Let_def)
  with s show ?thesis by (cases "derivePositionStatus agg") auto
qed

theorem status_tells_balance_witness:
  "\<exists>agg b. agg \<in> set (findAllPositionAggregates [recognized, paid]) \<and>
     openBalanceUnitsOf agg = Some b \<and> 0 < b \<and> b < 100000"
proof (rule sample_aggregate)
  fix agg assume agg: "agg \<in> set (findAllPositionAggregates [recognized, paid])" "\<not> pa_hasReversal agg"
    "pa_totalOriginatedUnits agg = 100000" "derivePositionStatus agg = partially_settled"
  from status_tells_balance [OF sample_book_brl(1) agg(1,2)] agg show ?thesis by auto
qed

text \<open>
  The outcome by which the listing filters is the outcome it publishes, except for a position of
  unknown origin: it is published as pending and never found under that outcome.
\<close>

theorem outcome_filter_differs:
  "deriveOutcomeFromAggregate (derivePositionStatus agg) agg = outcome_of agg \<longleftrightarrow>
     derivePositionStatus agg \<noteq> unknown_origin"
  by (cases "derivePositionStatus agg") (auto simp: deriveOutcomeFromAggregate_def outcome_of_def)

section \<open>Reports\<close>

text \<open>
  C25. The cash statement of a period never fails on a reachable book; it opens with all cash that
  stands before the period, and closes where it opened plus what the usina received less what it paid
  in the period. What a later retraction took back is in none of the figures.
\<close>

theorem statement_adds_up:
  assumes "reachable P st"
  shows "\<exists>S. cash_statement usina st from to = Inr S \<and>
    signed (st_openingBalanceNegative S) (st_openingBalance S) = balance_before st from \<and>
    units (st_totalCashIn S) = usina_units usina EconomicEffect.CASH_IN Direction.IN (standing_in st from to) \<and>
    units (st_totalCashOut S) = usina_units usina EconomicEffect.CASH_OUT Direction.OUT (standing_in st from to) \<and>
    units (st_netFlow S) = \<bar>units (st_totalCashIn S) - units (st_totalCashOut S)\<bar> \<and>
    signed (st_closingBalanceNegative S) (st_closingBalance S) =
      balance_before st from + units (st_totalCashIn S) - units (st_totalCashOut S)"
  by (rule cash_statement_adds_up [OF reachable_one_retraction [OF assms] reachable_amounts [OF assms]])

theorem statement_adds_up_witness:
  "\<exists>S. cash_statement ''usina'' [recognized, paid] 0 2000 = Inr S \<and>
     signed (st_closingBalanceNegative S) (st_closingBalance S) = - 40000"
proof -
  have std: "standing [recognized, paid] = [recognized, paid]"
    by (simp add: standing_def stands_def fold_defs sample_fields)
  have b: "balance_before [recognized, paid] 0 = 0"
    by (simp add: balance_before_def std sample_parties_moved)
  from statement_adds_up [OF sample_reachable(2), of "''usina''" 0 2000] show ?thesis
    unfolding b standing_in_def std
    by (auto simp: in_period_def sample_parties_moved sample_fields usina_units_def usina_moves_def
        payer_party_def supplier_party_def)
qed

text \<open>
  C26. Two statements in a row: the second opens where the first closed, plus the cash that moved in
  the first period without the usina being the party that moved it, which the opening balance counts
  and the flows of a period do not.
\<close>

theorem statements_in_a_row:
  assumes "reachable P st" "from \<le> to + 1"
    and "cash_statement usina st from to = Inr S" "cash_statement usina st (to + 1) to' = Inr S'"
  shows "signed (st_openingBalanceNegative S') (st_openingBalance S') =
    signed (st_closingBalanceNegative S) (st_closingBalance S)
      + others_units usina EconomicEffect.CASH_IN Direction.IN (standing_in st from to)
      - others_units usina EconomicEffect.CASH_OUT Direction.OUT (standing_in st from to)"
  by (rule statement_gap [OF reachable_one_retraction [OF assms(1)] reachable_amounts [OF assms(1)] assms(2-4)])

theorem statements_in_a_row_witness:
  "\<exists>S S'. cash_statement ''other'' [recognized, paid] 0 2000 = Inr S \<and>
     cash_statement ''other'' [recognized, paid] 2001 3000 = Inr S' \<and>
     signed (st_openingBalanceNegative S') (st_openingBalance S') =
       signed (st_closingBalanceNegative S) (st_closingBalance S) - 40000"
proof -
  have std: "standing [recognized, paid] = [recognized, paid]"
    by (simp add: standing_def stands_def fold_defs sample_fields)
  have ok: "\<exists>S. cash_statement ''other'' [recognized, paid] f t = Inr S" for f t
    using cash_statement_adds_up [OF reachable_one_retraction reachable_amounts] sample_reachable(2) by blast
  obtain S where S: "cash_statement ''other'' [recognized, paid] 0 2000 = Inr S" using ok by blast
  obtain S' where S': "cash_statement ''other'' [recognized, paid] (2000 + 1) 3000 = Inr S'" using ok by blast
  have o: "others_units ''other'' EconomicEffect.CASH_IN Direction.IN (standing_in [recognized, paid] 0 2000) = 0"
    "others_units ''other'' EconomicEffect.CASH_OUT Direction.OUT (standing_in [recognized, paid] 0 2000) = 40000"
    by (simp_all add: standing_in_def std in_period_def sample_parties_moved sample_fields others_units_def
        usina_moves_def payer_party_def supplier_party_def)
  from statements_in_a_row [OF sample_reachable(2) _ S S'] show ?thesis using S S' by (simp add: o)
qed

text \<open>
  The cash position of a book in one currency does not fail; each of its three open totals is the
  sum of the lines published beside it and of the open balances of the positions of its types. The
  currency of the summary is that of the first standing cash movement, or the default one.
\<close>

theorem cash_position_totals:
  assumes "one_currency_book c st" "cf_currency (aggregateCashFlows st) = c"
  shows "\<exists>S. cash_position P now st = Inr S \<and>
    units (cp_totalCashIn S) = effect_units EconomicEffect.CASH_IN (standing st) \<and>
    units (cp_totalCashOut S) = effect_units EconomicEffect.CASH_OUT (standing st) \<and>
    (\<forall>(m, lines, tys)\<in>{(cp_openReceivables S, cp_openReceivablesByType S, USINA_RECEIVABLE_OBJECT_TYPES),
                        (cp_openPayables S, cp_openPayablesByType S, USINA_PAYABLE_OBJECT_TYPES),
                        (cp_contingentExposure S, cp_contingentExposureByType S, USINA_CONTINGENT_OBJECT_TYPES)}.
       units m = line_units lines \<and>
       units m = balance_where (\<lambda>a. pa_objectType a \<in> set tys) c (map snd (buildAggregateMap st)))"
  using assms by (rule cash_position_sums)

theorem cash_position_totals_witness:
  "\<exists>S. cash_position sample_platform 5000 [recognized, paid] = Inr S \<and> units (cp_totalCashOut S) = 40000"
proof -
  have std: "standing [recognized, paid] = [recognized, paid]"
    by (simp add: standing_def stands_def fold_defs sample_fields)
  have "cf_currency (aggregateCashFlows [recognized, paid]) = ''BRL''"
    by (simp add: aggregateCashFlows_fold std cash_step_def sample_fields Let_def no_flows_def)
  from cash_position_totals [OF sample_book_brl(1) this, of sample_platform 5000] show ?thesis
    unfolding std by (auto simp: sample_fields)
qed

text \<open>
  C28. The dashboard of a book in one currency does not fail: its flows are the cash that stands in the
  period, what is payable is exactly what the cash position calls payable and splits without rest into
  overdue, upcoming and undated, and what is at risk is part of the exposure.
\<close>

theorem dashboard_adds_up:
  assumes "one_currency_book c st"
  shows "\<exists>D. dashboard now1 now2 now3 st from to = Inr D \<and>
    units (db_cashIn D) = effect_units EconomicEffect.CASH_IN (standing_in st from to) \<and>
    units (db_cashOut D) = effect_units EconomicEffect.CASH_OUT (standing_in st from to) \<and>
    db_netCashUnits D = units (db_cashIn D) - units (db_cashOut D) \<and>
    units (db_openPayableExposure D) = balance_where is_payable c (map snd (buildAggregateMap st)) \<and>
    units (db_overduePayable D) + units (db_upcomingPayable D) + units (db_undatedPayable D)
      = units (db_openPayableExposure D) \<and>
    units (db_openExposure D) = balance_where (\<lambda>a. \<not> is_payable a) c (map snd (buildAggregateMap st)) \<and>
    units (db_capitalAtRisk D) \<le> units (db_openExposure D)"
  using assms by (rule dashboard_sums)

theorem dashboard_adds_up_witness:
  "\<exists>D. dashboard 5000 5000 5000 [recognized, paid] 0 2000 = Inr D \<and> units (db_cashOut D) = 40000"
proof -
  have std: "standing [recognized, paid] = [recognized, paid]"
    by (simp add: standing_def stands_def fold_defs sample_fields)
  from dashboard_adds_up [OF sample_book_brl(1), of 5000 5000 5000 0 2000] show ?thesis
    unfolding standing_in_def std by (auto simp: in_period_def sample_parties_moved sample_fields)
qed

text \<open>
  C29. The two legs of the health score of a reachable book, in ten-thousandths, lie between 0 and
  10000, and the score in tenths between 0 and 1000.
\<close>

theorem health_in_range:
  assumes "reachable P st"
  shows "computeClosureQuality (aggregateClosureStats st from to c) \<in> {0..10000} \<and>
    computeOpenBookHealth now aggs c \<in> {0..10000} \<and>
    hs_score_tenths (book_health now later st aggs) \<in> {0..1000}"
  using closure_quality_range [OF reachable_amounts [OF assms]] open_book_health_range
    book_health_range(1) [OF reachable_amounts [OF assms]] by blast

theorem health_in_range_witness:
  "computeClosureQuality (aggregateClosureStats [recognized, paid] 0 2000 ''BRL'') \<in> {0..10000}"
  using health_in_range [OF sample_reachable(2)] by blast

section \<open>Listings\<close>

text \<open>
  C30. A client that follows the cursors of the cash listing, text by text, receives every standing
  movement that matches its filters exactly once and in the order of the listing, whatever the limit.
\<close>

theorem cursor_walk_complete:
  assumes "reachable P' st" "faithful_codec P K" "lp_cursor prm = None" "lp_page prm = None" "length st < n"
  shows "list_walk n P K st prm = Inr (map toMovement (sorted_movements st (query_of prm None))) \<and>
    distinct (sorted_movements st (query_of prm None)) \<and>
    set (sorted_movements st (query_of prm None)) =
      {ev \<in> set st. movement_matches (retractedEventIds st) (query_of prm None) ev} \<and>
    sorted_wrt (strictly_before (query_of prm None)) (sorted_movements st (query_of prm None))"
proof (intro conjI)
  have d: "distinct (map ev_id st)" by (rule distinct_ids [OF reachable_each_after [OF assms(1)]])
  show "list_walk n P K st prm = Inr (map toMovement (sorted_movements st (query_of prm None)))"
    by (rule list_walk_all [OF assms(2) d reachable_ids [OF assms(1)] assms(3-5)])
  show "distinct (sorted_movements st (query_of prm None))"
    using sorted_movements_distinct [OF d] distinct_map by blast
  show "set (sorted_movements st (query_of prm None)) =
      {ev \<in> set st. movement_matches (retractedEventIds st) (query_of prm None) ev}"
    by (rule sorted_movements_set)
  show "sorted_wrt (strictly_before (query_of prm None)) (sorted_movements st (query_of prm None))"
    by (rule sorted_movements_strict [OF d])
qed

theorem cursor_walk_complete_witness:
  "list_walk 3 sample_dates sample_codec [recognized, paid]
     \<lparr>lp_partyId = None, lp_effect = None, lp_from = None, lp_to = None, lp_limit = 1, lp_cursor = None,
      lp_page = None, lp_sortBy = None, lp_sortOrder = None\<rparr> = Inr [toMovement paid]"
proof -
  let ?prm = "\<lparr>lp_partyId = None, lp_effect = None, lp_from = None, lp_to = None, lp_limit = 1, lp_cursor = None,
      lp_page = None, lp_sortBy = None, lp_sortOrder = None\<rparr>"
  have "sorted_movements [recognized, paid] (query_of ?prm None) = [paid]"
    by (simp add: sorted_movements_def query_of_def movement_matches_def party_moves_def is_cash_def
        sample_fields fold_defs sort_by_def truthy_def)
  with cursor_walk_complete [OF sample_reachable(2) sample_codec_faithful, of ?prm 3] show ?thesis by simp
qed

text \<open>
  A cursor survives its text: read back under the ordering it was issued for it is the same
  position, and under any other ordering it is refused.
\<close>

theorem cursor_text_round_trip:
  assumes "faithful_codec P K" "cur_id c \<noteq> []"
  shows "decodeCursor P K (encodeCursor P K c) k d =
    (if cur_key c = k \<and> cur_order c = d then Inr (k, d, Some (cur_value c), cur_id c)
     else Inl (CursorMismatch (sortKey_value (cur_key c)) (sortOrder_value (cur_order c))
       (sortKey_value k) (sortOrder_value d)))"
  using assms by (rule decode_encode)

theorem cursor_text_round_trip_witness:
  "decodeCursor sample_dates sample_codec (encodeCursor sample_dates sample_codec
     \<lparr>cur_key = occurredAt, cur_order = DESC, cur_value = 1000, cur_id = ''e2''\<rparr>) occurredAt ASC =
   Inl (CursorMismatch ''occurredAt'' ''DESC'' ''occurredAt'' ''ASC'')"
  by (simp add: cursor_text_round_trip [OF sample_codec_faithful])

text \<open>
  The numbered pages of the ledger tile the sorted events: put together, the pages of any size
  are all events once, in the order of the request.
\<close>

theorem event_pages_tile:
  assumes "1 \<le> limit"
  shows "concat (map (\<lambda>k. pg_data (findPaginated st
            \<lparr>po_page = int k + 1, po_limit = limit, po_sortBy = b, po_sortOrder = d\<rparr>))
          [0..<nat (page_count (int (length st)) limit)])
      = sort_by (events_order \<lparr>po_page = 1, po_limit = limit, po_sortBy = b, po_sortOrder = d\<rparr>) st \<and>
    sorted_wrt (\<lambda>x y. events_order \<lparr>po_page = 1, po_limit = limit, po_sortBy = b, po_sortOrder = d\<rparr> x y \<le> 0)
      (sort_by (events_order \<lparr>po_page = 1, po_limit = limit, po_sortBy = b, po_sortOrder = d\<rparr>) st)"
  using events_pages [OF assms] events_sorted by blast

theorem event_pages_tile_witness:
  "mset (concat (map (\<lambda>k. pg_data (findPaginated [recognized, paid]
      \<lparr>po_page = int k + 1, po_limit = 1, po_sortBy = None, po_sortOrder = None\<rparr>)) [0..<2]))
   = mset [recognized, paid]"
proof -
  have "nat (page_count (int (length [recognized, paid])) 1) = 2" by (simp add: page_count_def)
  with event_pages_tile [of 1 "[recognized, paid]" None None] show ?thesis by simp
qed

text \<open>
  The pages of the position listing tile the positions that satisfy every filter, sorted by the
  comparator of the request; no page is longer than 200.
\<close>

theorem position_pages_tile:
  "concat (map (\<lambda>k. pg_data (findPositionAggregates P st (opts\<lparr>pq_page := Some (int k + 1)\<rparr>)))
     [0..<nat (page_count (int (length (sorted_positions P st opts))) (page_limit opts))])
   = map (with_parties st) (sorted_positions P st opts) \<and>
   set (sorted_positions P st opts) = {a \<in> set (map snd (buildAggregateMap st)). selected st opts a} \<and>
   page_limit opts \<in> {1..200}"
  using positions_pages page_limit_range [of opts] by (auto simp: sorted_positions_def)

text \<open>
  The recent movements are the newest standing cash movements: there are as many as asked for or
  all there are, and none left out is newer than one that is listed.
\<close>

theorem recent_are_newest:
  assumes "0 \<le> limit"
  shows "set (findRecentCashMovements st limit) \<subseteq> {ev \<in> set (standing st). is_cash ev} \<and>
    length (findRecentCashMovements st limit) = min (nat limit) (length (filter is_cash (standing st))) \<and>
    (\<forall>x\<in>set (findRecentCashMovements st limit). \<forall>y\<in>set (standing st).
       is_cash y \<and> y \<notin> set (findRecentCashMovements st limit) \<longrightarrow> ev_occurredAt y \<le> ev_occurredAt x)"
  using recent_movements [where st = st, OF assms] by blast

theorem recent_are_newest_witness:
  "length (findRecentCashMovements [recognized, paid] 8) = 1"
  using recent_are_newest [of 8 "[recognized, paid]"]
  by (simp add: standing_def stands_def fold_defs sample_fields is_cash_def)

text \<open>
  The identifiers the store answers with: all objects named by some event, the wanted objects that
  some standing event settles, and the parties of the standing events of an object.
\<close>

theorem identifiers_found:
  "set (findAllObjectIds st) = {oid. \<exists>ev\<in>set st. mentions oid ev} \<and> distinct (findAllObjectIds st) \<and>
   set (findSettledObjectIds st wanted) =
     {oid \<in> set wanted. \<exists>ev\<in>set (standing st). names (\<lambda>r. r = Relation.SETTLES) oid ev} \<and>
   set (partiesOfObject st oid) =
     {p. \<exists>ev\<in>set (standing st). mentions oid ev \<and> p \<in> party_id ` set (ev_parties ev)}"
  using set_findAllObjectIds distinct_findAllObjectIds set_findSettledObjectIds set_partiesOfObject by blast

text \<open>
  The grouped figures of a period are sums over the standing events: the rows of an effect add up
  to all cash of that effect in the period, and the closure figures to the settlements in the period
  and currency.
\<close>

theorem period_figures_sum:
  "row_units EconomicEffect.CASH_IN (aggregatePeriodCashFlow st from to)
     = effect_units EconomicEffect.CASH_IN (standing_in st from to) \<and>
   row_units EconomicEffect.CASH_OUT (aggregatePeriodCashFlow st from to)
     = effect_units EconomicEffect.CASH_OUT (standing_in st from to) \<and>
   aggregateClosureStats st from to c =
     \<lparr>cs_cashInSettledUnits = effect_units EconomicEffect.CASH_IN (settling_in st from to c),
      cs_totalSettledUnits = sum_list (map (\<lambda>e. units (ev_amount e)) (settling_in st from to c))\<rparr>"
  by (simp add: period_rows_units aggregateClosureStats_sums)

section \<open>Texts\<close>

text \<open>
  C31. An amount survives its text: written out and read again in a valid currency it is the same
  amount.
\<close>

theorem money_text_round_trip:
  assumes "valid_money m"
  shows "fromDecimal (money_toString m) (currency m) = Inr m"
  using assms by (cases m) (simp add: fromDecimal_toString valid_money_def)

theorem money_text_round_trip_witness:
  "fromDecimal (money_toString \<lparr>units = 123405, currency = ''BRL''\<rparr>) ''BRL'' = Inr \<lparr>units = 123405, currency = ''BRL''\<rparr>"
proof -
  have "valid_money \<lparr>units = 123405, currency = ''BRL''\<rparr>" by code_simp
  from money_text_round_trip [OF this] show ?thesis by simp
qed

text \<open>
  The canonical text of a value determines the value up to the order in which the fields of its
  objects were written, and nothing else is lost.
\<close>

theorem canonical_text_determines:
  "canonicalize v = canonicalize w \<longleftrightarrow> sorted_form v = sorted_form w"
  by (rule canonicalize_inject)

section \<open>Staged records and submissions\<close>

text \<open>
  C36. The rejection catalog recognizes errors by phrases of their messages. As long as the
  identifiers an error quotes have no spaces and do not contain the phrase of an over-settlement
  themselves, every error gets the code meant for it, and the code of an over-settlement comes with
  the outstanding balance the guard reported as its limit.
\<close>

theorem errors_classified:
  assumes "quotes_plainly e"
  shows "rd_code (classifyError (error_message e)) = code_of_error e \<and>
    (\<forall>oid limit. e = UseCase_Error (OverSettlement oid limit) \<longrightarrow> oid \<noteq> [] \<longrightarrow> limit \<noteq> [] \<longrightarrow>
       rd_limit (classifyError (error_message e)) = Some limit)"
  using classified [OF assms] over_settlement_limit assms by (auto simp: quotes_plainly_def)

theorem errors_classified_witness:
  "rd_code (classifyError (error_message (UseCase_Error (OverSettlement ''ob-1'' ''600.00'')))) = OVER_SETTLEMENT \<and>
   rd_limit (classifyError (error_message (UseCase_Error (OverSettlement ''ob-1'' ''600.00'')))) = Some ''600.00''"
proof -
  have "quotes_plainly (UseCase_Error (OverSettlement ''ob-1'' ''600.00''))" by code_simp
  from errors_classified [OF this] show ?thesis by (simp add: code_of_error_def)
qed

text \<open>
  C37. A record the validator finds no failure in can be read: every string the code casts to an
  enumeration is one of its values, and the command says what the record says, every field of it: the
  two classifications, the three dates, the amount and its currency, the description, the source, the
  normalization, the related event, each party and object, the reason when there is one, the reporter.
  The command has no idempotency key.
\<close>

theorem validated_record_reads:
  assumes "validateRecord known st r = []"
  shows "\<exists>cmd. toCreateCommand P r = Some cmd \<and> reads_as P r cmd \<and> cmd_commandId cmd = None"
  using assms toCreateCommand_ok [of known r P] by (auto simp: validateRecord_Nil)

theorem validated_record_reads_witness:
  "\<exists>cmd. toCreateCommand reading_platform receipt_record = Some cmd \<and> reads_as reading_platform receipt_record cmd \<and>
     cmd_commandId cmd = None"
  by (rule validated_record_reads [OF receipt_validates])

text \<open>
  C38. Submitting a candidate always answers. An acceptance names an event of the ledger with the
  key of the caller, recorded now or before; a rejection leaves the ledger as it was and gives at
  least one classified reason. Submitting anything under the key of an acceptance again gives the same
  answer and changes nothing. The ledger stays reachable.
\<close>

theorem submission_answers_once:
  assumes "reachable P st"
  shows "\<exists>outcome st' au. submit P env known st s key = Some (outcome, st', au) \<and> reachable P st' \<and>
    submission_ok st key outcome st' au \<and>
    (\<forall>ref env2 known2 s2. outcome = Submit_accepted ref \<longrightarrow>
       submit P env2 known2 st' s2 key = Some (outcome, st', []))"
proof -
  from submit_outcome [of P env known st s key] obtain outcome st' au where
    o: "submit P env known st s key = Some (outcome, st', au)" "submission_ok st key outcome st' au" by blast
  moreover have "submit P env2 known2 st' s2 key = Some (outcome, st', [])"
    if "outcome = Submit_accepted ref" for ref env2 known2 s2
    using o(2) that by (auto simp: submission_ok_def submit_def)
  ultimately show ?thesis using submit_reachable [OF assms] by blast
qed

theorem submission_answers_once_witness:
  "\<exists>outcome st' au. submit sample_platform (sample_env ''e9'') [] [recognized] empty_candidate ''k1'' =
     Some (outcome, st', au) \<and> reachable sample_platform st'"
  using submission_answers_once [OF sample_reachable(1), of "sample_env ''e9''" "[]" empty_candidate "''k1''"] by blast

text \<open>
  C39. A run of the posting job over staged records with distinct ids that are not blank ends, and
  settles what it claimed: of the pending records exactly the first hundred leave that state and
  each becomes accepted or rejected, no other record changes, the ledger grew by one event for
  every record accepted and the rejections by one for every record rejected, and the ledger stays
  reachable. (The identifiers drawn for rejections are not empty.)
\<close>

theorem posting_run_settles:
  assumes "distinct (ids (ps_staging s))" "\<forall>r\<in>set (ps_staging s). trim (sr_id r) \<noteq> []"
    and "\<forall>n. he_rejectId (envs n) \<noteq> []" "reachable P (ps_ledger s)"
  shows "\<exists>s'. run P envs known resolver s = (None, s') \<and> reachable P (ps_ledger s') \<and>
    list_all2 (\<lambda>r r'. r' = r \<or> sr_status r = pending_record \<and> (\<exists>x\<in>done_status. r' = r\<lparr>sr_status := x\<rparr>))
      (ps_staging s) (ps_staging s') \<and>
    count pending_record (ps_staging s') = count pending_record (ps_staging s) - 100 \<and>
    count accepted_record (ps_staging s') - count accepted_record (ps_staging s) = length (ps_ledger s') - length (ps_ledger s) \<and>
    count rejected_record (ps_staging s') - count rejected_record (ps_staging s) = length (ps_rejected s') - length (ps_rejected s)"
  by (rule run_settles [OF assms])

theorem posting_run_settles_witness:
  "\<exists>s'. run reading_platform (\<lambda>_. handling ''e1'') DEFAULT_SOURCE_SYSTEMS True start = (None, s') \<and>
     reachable reading_platform (ps_ledger s') \<and> count pending_record (ps_staging s') = 0"
proof -
  have "\<forall>n :: nat. he_rejectId (handling ''e1'') \<noteq> []" using start_ready(5) by blast
  from posting_run_settles [OF start_ready(1,2) this start_ready(3), of reading_platform DEFAULT_SOURCE_SYSTEMS True]
  have "\<exists>s'. run reading_platform (\<lambda>_. handling ''e1'') DEFAULT_SOURCE_SYSTEMS True start = (None, s') \<and>
     reachable reading_platform (ps_ledger s') \<and>
     count pending_record (ps_staging s') = count pending_record (ps_staging start) - 100" by blast
  then show ?thesis by (simp add: count_def start_def)
qed

text \<open>
  A commission receipt that was posted through the resolver either refers to an event of the
  ledger that expected the commission, or it is an orphan: it refers to nothing, declares an unknown
  origin to be followed up, and no event of the ledger that mentions its receivable expected it.
\<close>

theorem receipt_has_origin:
  assumes "reachable P (ps_ledger s)" "validateRecord known (ps_ledger s) r = []"
    and "post_record P env True s r = Inr s'"
    and "sr_eventType r = Some (eventType_value EventType.COMMISSION_RECEIVED)"
  shows "\<exists>ev. ps_ledger s' = ps_ledger s @ [ev] \<and>
    (receipt_linked (ps_ledger s) ev \<or> receipt_orphan (ps_ledger s) r ev)"
  by (rule receipt_origin [OF assms(2-4) reachable_ids [OF assms(1)]])

theorem receipt_has_origin_witness:
  "\<exists>ev. ps_ledger after_receipt = ps_ledger start @ [ev] \<and>
    (receipt_linked (ps_ledger start) ev \<or> receipt_orphan (ps_ledger start) receipt_record ev)"
  by (rule receipt_has_origin [OF start_ready(3) start_validates(1) receipt_post start_validates(2)])

text \<open>
  C40. A record that was posted and is delivered again is not posted twice: the second delivery
  leaves the ledger as it is. But it records a rejection and turns the status of the accepted record
  into rejected.
\<close>

theorem redelivery_refused:
  assumes "handle P env known resolver s r = Inr s1" "posted s r s1" "validateRecord known (ps_ledger s) r = []"
    and "trim (sr_id r) \<noteq> []" "he_rejectId env2 \<noteq> []"
  shows "\<exists>s2. handle P env2 known resolver s1 r = Inr s2 \<and> ps_ledger s2 = ps_ledger s1 \<and>
    length (ps_rejected s2) = length (ps_rejected s1) + 1 \<and>
    ps_staging s2 = mark rejected_record (sr_id r) (ps_staging s1)"
proof -
  from redelivered [OF assms] obtain s2 where "handle P env2 known resolver s1 r = Inr s2" "refused s1 r s2" .
  then show ?thesis by (auto simp: refused_def)
qed

theorem redelivery_refused_witness:
  "\<exists>s2. handle reading_platform (handling ''e1'') DEFAULT_SOURCE_SYSTEMS True after_receipt receipt_record = Inr s2 \<and>
    ps_ledger s2 = ps_ledger after_receipt \<and>
    length (ps_rejected s2) = length (ps_rejected after_receipt) + 1 \<and>
    ps_staging s2 = mark rejected_record (sr_id receipt_record) (ps_staging after_receipt)"
  by (rule redelivery_refused [OF receipt_handled receipt_posted start_validates(1) start_ready(4,5)])

section \<open>The treasury and the ledger\<close>

text \<open>
  C3. When the treasury says of an intent that it was accepted, the ledger holds exactly one event under
  the key of that intent and the reference the intent keeps is the identifier of that event. It holds
  in every state both programs can reach together, whoever else writes to the ledger, whatever is
  answered in between, and however many replies are lost.
\<close>

theorem accepted_intent_recorded:
  assumes "joint_reachable E P known (T, st)" "find_intent T i = Some it" "it_status it = ACCEPTED"
  shows "\<exists>ev. {e \<in> set st. ev_commandId e = Some (''intent:'' @ i)} = {ev} \<and> it_ledgerReference it = Some (ev_id ev)"
  using accepted_recorded [OF assms] by blast

theorem accepted_intent_recorded_witness:
  "\<exists>ev. {e \<in> set (snd settled). ev_commandId e = Some (''intent:'' @ ''i1'')} = {ev} \<and>
    it_ledgerReference (markAccepted ''e9'' (clock 2) (accrual SUBMITTED accrual_answers)) = Some (ev_id ev)"
proof (rule accepted_intent_recorded)
  show "joint_reachable sample_treasury_env joint_platform sources (fst settled, snd settled)"
    using settled_reachable by simp
qed (rule settled_accepted, simp add: markAccepted_def)

text \<open>
  C4. What a user confirms is recorded. An intent that waits for confirmation in a sound treasury, of
  any scenario and with any answers, is sent as a candidate that passes the staging checks and every
  rule of the ledger that does not read the book; when the ledger knows the source, the book admits
  the candidate and its key is new, the ledger appends one event that says what the candidate says, and
  the intent is accepted with its identifier. Every field of the event but its identifier, its seal and
  the instants of the recording is pinned down by the candidate: classification, dates, amount,
  description, source, parties, objects, reason and reporter.
\<close>

theorem confirmed_intent_recorded:
  assumes "treasury_sound E T" "sent E (now 0) i T = Inr (it, s, c)"
    "te_usina E \<noteq> []" "it_userId it \<noteq> []" "\<And>t. te_isoString E t \<noteq> [] \<and> parseInstant P (te_isoString E t) \<noteq> None"
    "book_admits P env st c" "SOURCE_SYSTEM \<in> set known" "\<forall>ev\<in>set st. ev_commandId ev \<noteq> Some (cd_sourceReference c)"
  shows "\<exists>ev. store_after P env known st c = st @ [ev] \<and> ev_id ev = env_uuid env \<and> records_candidate P c ev \<and>
    find_intent (fst (submit_intent E (over_http P env known st) now i T)) i = Some (markAccepted (ev_id ev) (now 2) it)"
  by (rule confirmed_recorded [where now = now, OF assms]) auto

theorem confirmed_intent_recorded_witness:
  "\<exists>ev. store_after joint_platform (sample_env ''e9'') sources joint_book accrual_candidate = joint_book @ [ev] \<and>
    ev_id ev = env_uuid (sample_env ''e9'') \<and> records_candidate joint_platform accrual_candidate ev \<and>
    find_intent (fst (submit_intent sample_treasury_env
      (over_http joint_platform (sample_env ''e9'') sources joint_book) clock ''i1'' filled_in)) ''i1'' =
      Some (markAccepted (ev_id ev) (clock 2) (accrual SUBMITTED accrual_answers))"
  by (rule confirmed_intent_recorded [where now = clock, OF sample_treasury_sound filled_in_sent sample_given(1,2)
      sample_instants accrual_admitted sample_given(3) accrual_unused])

text \<open>
  C5. Submitting again is safe and says nothing new: when the ledger already holds an event under the key
  of the intent (the reply was lost, or the intent was edited after it was accepted), the submission
  leaves the ledger as it is and the intent becomes accepted with that event, whatever the candidate
  says now.
\<close>

theorem resubmission_returns_recorded:
  assumes "treasury_sound E T" "sent E (now 0) i T = Inr (it, s, c)" "getByCommandId st (''intent:'' @ i) = Some ev"
  shows "store_after P env known st c = st \<and>
    find_intent (fst (submit_intent E (over_http P env known st) now i T)) i = Some (markAccepted (ev_id ev) (now 2) it)"
proof -
  have k: "getByCommandId st (cd_sourceReference c) = Some ev"
    using sent_key [OF assms(1,2)] assms(3) by simp
  show ?thesis
    using known_key_answered [OF k] submit_marks [where ledger = "over_http P env known st" and now = now, OF assms(1,2)] by simp
qed

theorem resubmission_returns_recorded_witness:
  "store_after joint_platform (sample_env ''e10'') sources resent_book accrual_candidate = resent_book \<and>
    find_intent (fst (submit_intent sample_treasury_env
      (over_http joint_platform (sample_env ''e10'') sources resent_book) clock ''i1'' filled_in)) ''i1'' =
      Some (markAccepted (ev_id earlier_accrual) (clock 2) (accrual SUBMITTED accrual_answers))"
  by (rule resubmission_returns_recorded [where now = clock, OF sample_treasury_sound filled_in_sent]) (rule resent_found)

text \<open>
  C6. In every state the treasury can reach, a slot that asks for a counterparty holds the identifier of
  a party of the directory, every other slot holds an answer that passed its validation, and an intent
  that waits for confirmation has an answer for every required slot.
\<close>

theorem answers_stay_sound:
  assumes "treasury_reachable E T" "find_intent T i = Some it" "getScenario (it_scenarioId it) = Some s"
    "x \<in> set (sc_slots s)"
  shows "(case map_of (it_answers it) (sl_key x) of
      None \<Rightarrow> sl_required x \<longrightarrow> it_status it \<noteq> AWAITING_CONFIRMATION
    | Some v \<Rightarrow> if sl_type x = SlotType.PARTY then find_party (tr_parties T) v \<noteq> None
        else validateAnswer (te_dateParse E) x v = None)"
proof -
  have "intent_sound E (tr_parties T) it"
    using reachable_sound [OF assms(1)] assms(2) by (auto simp: treasury_sound_def)
  then show ?thesis using intent_sound_slot [OF _ assms(3,4)] by blast
qed

theorem answers_stay_sound_witness:
  "(case map_of (it_answers (accrual AWAITING_CONFIRMATION accrual_answers)) (sl_key accrual_amount) of
      None \<Rightarrow> sl_required accrual_amount \<longrightarrow> it_status (accrual AWAITING_CONFIRMATION accrual_answers) \<noteq> AWAITING_CONFIRMATION
    | Some v \<Rightarrow> if sl_type accrual_amount = SlotType.PARTY then find_party (tr_parties filled_in) v \<noteq> None
        else validateAnswer (te_dateParse sample_treasury_env) accrual_amount v = None)"
  by (rule answers_stay_sound [OF sample_treasury_reachable filled_in_intent accrual_intent_scenario accrual_amount_slot])

section \<open>Parties\<close>

text \<open>
  The resolution of a mention yields an identifier that may be recorded exactly when some party of
  the directory matches exactly (by identifier, document, external identifier or name), and then it is
  the effective identifier of such a party; similarity alone never records an identity.
\<close>

theorem identity_needs_exact_match:
  "case recordableId (directory_resolve D threshold ps q) of
     None \<Rightarrow> \<not> (\<exists>p\<in>set (all_parties ps). exact_match D q p)
   | Some i \<Rightarrow> \<exists>p\<in>set (all_parties ps). exact_match D q p \<and> effectiveId p = i"
  unfolding directory_resolve_def by (rule exact_answer)

text \<open>
  C32. The two-row table computes the edit distance: the least number of insertions, deletions and
  replacements that turn one text into the other.
\<close>

theorem edit_distance_least:
  "editDistance a b = (LEAST n. aligns n a b)"
  unfolding editDistance_lev by (rule Least_equality [symmetric]) (rule aligns_lev, rule lev_least)

text \<open>
  C33. Stripping the corporate suffixes of a name ends with none left, and a normalized name is its own
  normal form.
\<close>

theorem normal_names_settle:
  assumes "\<And>s. ascii s \<Longrightarrow> acc s = s"
  shows "next_suffix (normalizeName acc s) = None \<and> normalizeName acc (normalizeName acc s) = normalizeName acc s"
  using normalizeName_again [OF assms] no_suffix_left by (simp add: normalizeName_def)

theorem normal_names_settle_witness:
  "next_suffix (normalizeName (stripAccents sample_directory) ''Acme S.A. Ltda'') = None \<and>
   normalizeName (stripAccents sample_directory) (normalizeName (stripAccents sample_directory) ''Acme S.A. Ltda'') =
     normalizeName (stripAccents sample_directory) ''Acme S.A. Ltda''"
  by (rule normal_names_settle) (simp add: sample_directory_def)

text \<open>
  Importing the same source twice changes nothing the second time and counts every entry as
  unchanged, whatever clock the second import reads.
\<close>

theorem second_import_idle:
  assumes "keyed st"
  shows "import_parties D sys later seeds (fst (import_parties D sys now seeds st)) =
    (fst (import_parties D sys now seeds st),
     \<lparr>imp_system = sys, imp_seen = length seeds, imp_created = 0, imp_enriched = 0,
      imp_unchanged = length seeds, imp_aliasesAdded = 0\<rparr>)"
  by (rule import_twice [OF assms])

theorem second_import_idle_witness:
  "import_parties sample_directory ''erp'' ''t2'' [acme, acme] (fst (import_parties sample_directory ''erp'' ''t1'' [acme, acme] [])) =
    (fst (import_parties sample_directory ''erp'' ''t1'' [acme, acme] []),
     \<lparr>imp_system = ''erp'', imp_seen = length [acme, acme], imp_created = 0, imp_enriched = 0,
      imp_unchanged = length [acme, acme], imp_aliasesAdded = 0\<rparr>)"
  by (rule second_import_idle) (simp add: keyed_def)

section \<open>What the treasury shows of the ledger\<close>

text \<open>
  C18. The lists of what is owed and the ledger's own figures agree. For a book in one currency, and dates that are read back from their texts, the
  treasury's payable lists are available through the API and the ledger's dashboard answers; and unless
  the listing was cut off at its two hundred rows, the overdue, the upcoming and the undated list hold
  exactly the positions of a payable kind, not reversed, with an open balance, split by their due date,
  each once and as the row the ledger publishes, and the open balances of each list add up to the
  dashboard's figure for it, although the two sides select, read and sum by different code.
\<close>

theorem payable_lists_add_up:
  assumes "one_currency_book c (bk_events B)" "sv_serviceToken C \<noteq> []"
    and "\<And>t. date_parse (sv_platform C) (iso_string (sv_platform C) t) = Some t"
  shows "\<exists>L D. list_payable_positions (sv_platform C) asOf (answering C now B) = Some L \<and>
    dashboard now1 now2 asOf (bk_events B) from to = Inr D \<and>
    (ppr_truncated L \<or>
     mset (ppr_overdue L) = mset (map (row_of (sv_platform C) (bk_events B))
       (filter (\<lambda>a. owed a \<and> dueStateOf a asOf = overdue) (findAllPositionAggregates (bk_events B)))) \<and>
     mset (ppr_upcoming L) = mset (map (row_of (sv_platform C) (bk_events B))
       (filter (\<lambda>a. owed a \<and> dueStateOf a asOf = upcoming) (findAllPositionAggregates (bk_events B)))) \<and>
     mset (ppr_undated L) = mset (map (row_of (sv_platform C) (bk_events B))
       (filter (\<lambda>a. owed a \<and> dueStateOf a asOf = unknown) (findAllPositionAggregates (bk_events B)))) \<and>
     listed_total (ppr_overdue L) = units (db_overduePayable D) \<and>
     listed_total (ppr_upcoming L) = units (db_upcomingPayable D) \<and>
     listed_total (ppr_undated L) = units (db_undatedPayable D))"
proof -
  from dashboard_sums [OF assms(1)] obtain D where D: "dashboard now1 now2 asOf (bk_events B) from to = Inr D" by blast
  obtain L where L: "list_payable_positions (sv_platform C) asOf (answering C now B) = Some L"
    using payable_rows [OF assms(1,2)] by blast
  from payable_lists_sums [OF assms(1,2,3) L _ D] show ?thesis using L D by blast
qed

theorem payable_lists_add_up_witness:
  "\<exists>L D. list_payable_positions sample_dates 5000 (answering sample_server 5000 (sample_books [recognized, paid])) = Some L
     \<and> dashboard 5000 5000 5000 [recognized, paid] 0 2000 = Inr D
     \<and> mset (ppr_undated L) = mset (map (row_of sample_dates [recognized, paid])
         (filter (\<lambda>a. owed a \<and> dueStateOf a 5000 = unknown) (findAllPositionAggregates [recognized, paid])))
     \<and> listed_total (ppr_undated L) = units (db_undatedPayable D)"
proof -
  have "one_currency_book ''BRL'' (bk_events (sample_books [recognized, paid]))" using sample_book_brl(1) by simp
  from payable_lists_add_up [OF this sample_server_fields(1), of 5000 5000 5000 5000 0 2000]
  obtain L D where LD: "list_payable_positions sample_dates 5000 (answering sample_server 5000 (sample_books [recognized, paid])) = Some L"
    "dashboard 5000 5000 5000 [recognized, paid] 0 2000 = Inr D"
    "\<not> ppr_truncated L \<Longrightarrow> mset (ppr_undated L) = mset (map (row_of sample_dates [recognized, paid])
         (filter (\<lambda>a. owed a \<and> dueStateOf a 5000 = unknown) (findAllPositionAggregates [recognized, paid])))
     \<and> listed_total (ppr_undated L) = units (db_undatedPayable D)"
    by (auto simp: sample_dates_read)
  with sample_not_truncated [OF LD(1)] show ?thesis by blast
qed

text \<open>
  C27. What is offered for a position can be recorded, and nothing that can be recorded is hidden: over
  the tables the ledger exports, every offered action is a pair of an event type and a relation that
  some effect and reason of the ledger admits for this kind of object; every tuple the treasury can
  produce for the kind is offered; the likely actions stand before the unlikely ones.
\<close>

theorem offer_is_recordable:
  assumes "list_position_actions compare ledger_algebra A oid = Inr (Some R)"
  shows "(\<forall>a\<in>set (pas_actions R). \<exists>ty b r. pac_eventType a = eventType_value ty \<and>
      pas_objectType R = objectType_value b \<and> pac_relation a = relation_value r \<and> pair_recordable ty b r) \<and>
    (\<forall>t\<in>set (filter (\<lambda>t. ptu_objectType t = pas_objectType R) producibleTuples). \<exists>a\<in>set (pas_actions R).
      pac_scenarioId a = ptu_scenarioId t \<and> pac_eventType a = ptu_eventType t \<and> pac_relation a = ptu_relation t) \<and>
    sorted_wrt (\<lambda>a b. pac_likely a \<or> \<not> pac_likely b) (pas_actions R)"
proof -
  obtain p where p: "mset (pas_actions R) = mset (map (action_of p)
      (filter (\<lambda>t. ptu_objectType t = pas_objectType R) producibleTuples))" "sorted_wrt likely_before (pas_actions R)"
    using assms by (rule actions_offered)
  have members: "set (pas_actions R) = action_of p ` set (filter (\<lambda>t. ptu_objectType t = pas_objectType R) producibleTuples)"
    using arg_cong [OF p(1), of set_mset] by simp
  have order: "likely_before = (\<lambda>a b. pac_likely a \<or> \<not> pac_likely b)"
    by (intro ext) (auto simp: likely_before_def)
  have recordable: "\<exists>ty b r. ptu_eventType t = eventType_value ty \<and> ptu_objectType t = objectType_value b \<and>
      ptu_relation t = relation_value r \<and> pair_recordable ty b r" if "t \<in> set producibleTuples" for t
    using that producible_recordable by (simp add: list_all_iff tuple_recordable_iff)
  have same: "pac_scenarioId (action_of p t) = ptu_scenarioId t" "pac_eventType (action_of p t) = ptu_eventType t"
    "pac_relation (action_of p t) = ptu_relation t" for t
    by (simp_all add: action_of_def)
  show ?thesis
  proof (intro conjI ballI)
    fix a assume "a \<in> set (pas_actions R)"
    then obtain t where t: "t \<in> set producibleTuples" "ptu_objectType t = pas_objectType R" "a = action_of p t"
      unfolding members by auto
    from recordable [OF t(1)] show "\<exists>ty b r. pac_eventType a = eventType_value ty \<and>
      pas_objectType R = objectType_value b \<and> pac_relation a = relation_value r \<and> pair_recordable ty b r"
      unfolding t(3) same t(2) [symmetric] .
  next
    fix t assume "t \<in> set (filter (\<lambda>t. ptu_objectType t = pas_objectType R) producibleTuples)"
    then have "action_of p t \<in> set (pas_actions R)" unfolding members by (rule imageI)
    then show "\<exists>a\<in>set (pas_actions R). pac_scenarioId a = ptu_scenarioId t \<and> pac_eventType a = ptu_eventType t \<and>
      pac_relation a = ptu_relation t" by (rule bexI [rotated]) (simp add: same)
  next
    show "sorted_wrt (\<lambda>a b. pac_likely a \<or> \<not> pac_likely b) (pas_actions R)" using p(2) by (simp add: order)
  qed
qed

theorem offer_is_recordable_witness:
  "\<exists>R. list_position_actions (\<lambda>a b. 0) ledger_algebra
      (answering sample_server 5000 (sample_books [recognized, paid])) ''ob-1'' = Inr (Some R)
    \<and> sorted_wrt (\<lambda>a b. pac_likely a \<or> \<not> pac_likely b) (pas_actions R)"
proof -
  obtain R where R: "list_position_actions (\<lambda>a b. 0) ledger_algebra
      (answering sample_server 5000 (sample_books [recognized, paid])) ''ob-1'' = Inr (Some R)"
    by (rule sample_offer)
  from offer_is_recordable [OF R] R show ?thesis by blast
qed

text \<open>
  C17. A sweep leaves nothing out of date and forgets no more than it must. The copy starts empty, takes
  its bearings by a first sweep over a book with an event, and from then on writers record events, listings
  are remembered, objects forgotten and sweeps run in any order. Right after a sweep everything the
  treasury remembers about a position is what the ledger answers about it; and what the sweep keeps are
  exactly the rows of the objects that no event recorded since the sweep before names, or nothing when
  there are two thousand such events or more. Events have new identifiers and later recording times, and
  a retraction names the objects of the event it retracts (\<open>records_next\<close>, \<open>orderly_book\<close>). A listing
  remembered before the first sweep is outside of this: that sweep would not forget it.
\<close>

theorem sweep_leaves_nothing_stale:
  assumes "sv_serviceToken C \<noteq> []" "orderly_book (bk_events B)" "bk_events B \<noteq> []"
    and "refresh (recentlyRecorded (answering C now0 B)) \<lparr>rf_cursor = None, rf_snapshot = []\<rparr> = (first, R0)"
    and "watched_from C \<lparr>wt_books = B, wt_refresher = R0\<rparr> W"
    and "refresh (recentlyRecorded (answering C now (wt_books W))) (wt_refresher W) = (outcome, R)"
  shows "(\<forall>oid. snapshot_get (rf_snapshot R) oid = None \<or>
      map_option PositionItem.truncate (snapshot_get (rf_snapshot R) oid)
        = ledger_answer (sv_platform C) (bk_events (wt_books W)) oid)
    \<and> (\<exists>old e later. bk_events (wt_books W) = old @ e # later \<and> rf_cursor (wt_refresher W) = Some (ev_id e)
        \<and> rf_snapshot R = swept_rows later (rf_snapshot (wt_refresher W)))"
proof -
  have "keeps_up C W" by (rule watched_keeps [OF assms(1,5) first_sweep [OF assms(1-4)]])
  then have "orderly_book (bk_events (wt_books W))" "follows (sv_platform C) (bk_events (wt_books W)) (wt_refresher W)"
    by (simp_all add: keeps_up_def)
  note swept = follows_swept [OF assms(1) this assms(6)]
  have now: "ledger_answer (sv_platform C) (bk_events (wt_books W)) oid = Some x"
    if "map_option PositionItem.truncate (snapshot_get (rf_snapshot R) oid) = Some x" for oid x
    using that swept(1) unfolding up_to_date_def ledger_book.trusted_def remembered_def snapshot_get_def by blast
  have "snapshot_get (rf_snapshot R) oid = None \<or> map_option PositionItem.truncate (snapshot_get (rf_snapshot R) oid)
      = ledger_answer (sv_platform C) (bk_events (wt_books W)) oid" for oid
    using now [of oid] by (cases "snapshot_get (rf_snapshot R) oid") simp_all
  with swept(4) show ?thesis by blast
qed

theorem sweep_leaves_nothing_stale_witness:
  "\<exists>R0 W outcome R row. watched_from sample_server \<lparr>wt_books = sample_books [recognized], wt_refresher = R0\<rparr> W
    \<and> wt_books W = sample_books [recognized, paid_later]
    \<and> refresh (recentlyRecorded (answering sample_server 6000 (wt_books W))) (wt_refresher W) = (outcome, R)
    \<and> snapshot_get (rf_snapshot R) ''ob-1'' = Some row
    \<and> ledger_answer sample_dates [recognized, paid_later] ''ob-1'' = Some (PositionItem.truncate row)"
proof -
  obtain first R0 W where run: "refresh (recentlyRecorded (answering sample_server 5000 (sample_books [recognized])))
      \<lparr>rf_cursor = None, rf_snapshot = []\<rparr> = (first, R0)"
    "watched_from sample_server \<lparr>wt_books = sample_books [recognized], wt_refresher = R0\<rparr> W"
    "wt_books W = sample_books [recognized, paid_later]" "rf_cursor (wt_refresher W) = Some ''e2''"
    "snapshot_get (rf_snapshot (wt_refresher W)) ''ob-1'' \<noteq> None" by (rule sample_watched)
  obtain outcome R where R: "refresh (recentlyRecorded (answering sample_server 6000 (wt_books W))) (wt_refresher W)
      = (outcome, R)" by fastforce
  have "orderly_book (bk_events (sample_books [recognized]))" "bk_events (sample_books [recognized]) \<noteq> []"
    using sample_orderly by simp_all
  note swept = sweep_leaves_nothing_stale [OF sample_server_fields(1) this run(1,2) R]
  from swept obtain old e later where cut: "[recognized, paid_later] = old @ e # later" "ev_id e = ''e2''"
    "rf_snapshot R = swept_rows later (rf_snapshot (wt_refresher W))"
    unfolding run(3,4) sample_server_fields(3) by auto
  then have "later = []" by (auto simp: Cons_eq_append_conv)
  with cut(3) have "rf_snapshot R = rf_snapshot (wt_refresher W)" by (simp add: swept_rows_def)
  with run(5) obtain row where row: "snapshot_get (rf_snapshot R) ''ob-1'' = Some row" by auto
  with conjunct1 [OF swept] run(3) have answer:
    "ledger_answer sample_dates [recognized, paid_later] ''ob-1'' = Some (PositionItem.truncate row)"
    by (auto dest: spec [of _ "''ob-1''"])
  show ?thesis by (intro exI conjI) (rule run(2), rule run(3), rule R, rule row, rule answer)
qed

text \<open>
  Seeding the directory from a live ledger always fails. The seeding run builds its reader without
  the service token, so the ledger refuses it whether or not it has a token configured; and with the
  token the request is refused as well, since it asks for more movements than one page may hold.
\<close>

theorem live_seeding_fails:
  "seed_from_live_ledger C now B usina = Inl (if sv_serviceToken C = [] then 503 else 401) \<and>
   sweep_fetch (answering C now B) usina SWEEP_LIMIT = Inl (if sv_serviceToken C = [] then 503 else 400)"
  by (simp add: seeding_refused sweep_refused)



text \<open>
  An advance the job stages, of half a cent at least, is recorded as one event of the paid amount
  rounded to hundredths that originates the position of the advance, whatever else the book holds, as
  long as it does not know the advance yet.
\<close>

theorem staged_advance_recorded:
  assumes "build_advance P show_number usina worker (uuid, i) = Inr r" "complete_advance usina worker i" "readable_record P r"
    and "''integration'' \<in> set known" "book_takes_advance (he_call env) (ps_ledger s) i"
  shows "\<exists>ev s'. handle P env known resolver s r = Inr s' \<and> says_advance P usina worker i ev
    \<and> ps_ledger s' = ps_ledger s @ [ev] \<and> ps_rejected s' = ps_rejected s
    \<and> ps_staging s' = mark accepted_record uuid (ps_staging s)"
  by (rule advance_posted [OF assms, of resolver]) simp

theorem staged_advance_recorded_witness:
  "\<exists>ev s'. handle reading_platform (handling ''e1'') DEFAULT_SOURCE_SYSTEMS True ingest_start
      (advance_candidate reading_platform ''usina'' ''w'' ''s1'' sample_advance) = Inr s'
    \<and> says_advance reading_platform ''usina'' ''w'' sample_advance ev \<and> ps_ledger s' = [ev]"
proof -
  have "he_call (handling ''e1'') = sample_env ''e1''" "''integration'' \<in> set DEFAULT_SOURCE_SYSTEMS"
    by (simp_all add: handling_def DEFAULT_SOURCE_SYSTEMS_def)
  with staged_advance_recorded [OF sample_advance_built sample_advance_ready(1,3), of DEFAULT_SOURCE_SYSTEMS
      "handling ''e1''" ingest_start True] sample_advance_ready(2)
  show ?thesis unfolding ingest_start_fields(1) by auto
qed

text \<open>
  C35. A receipt without a positive value that the builder stages is an open one, staged as an expected
  commission of the amount zero, and then always rejected: whatever the book holds and whenever it is
  delivered, the ledger stays as it is, so no event records the expected commission.
\<close>

theorem zero_receipt_rejected:
  assumes "build_receipt P usina worker (uuid, i) = Inr r" "\<not> positive_float (rcp_downloadedValue i)"
    and "trim uuid \<noteq> []" "he_rejectId env \<noteq> []"
  shows "rcp_receiptStatus i \<noteq> DISCHARGED \<and> sr_id r = uuid
    \<and> sr_eventType r = Some (eventType_value EventType.COMMISSION_EXPECTED) \<and> sr_amount r = Some ''0''
    \<and> stage (build_receipt P usina worker (uuid, i)) (staged, warnings) = (save_staged staged r, warnings)
    \<and> (\<exists>s'. handle P env known resolver s r = Inr s' \<and> refused s r s')"
proof -
  have staged: "sr_id r = uuid" "sr_eventType r = Some (eventType_value EventType.COMMISSION_EXPECTED)" "sr_amount r = Some ''0''"
    by (rule zero_receipt_staged [OF assms(1,2)])+
  obtain s' where "rcp_receiptStatus i \<noteq> DISCHARGED" "handle P env known resolver s r = Inr s'" "refused s r s'"
    by (rule zero_receipt_refused [OF assms])
  with staged show ?thesis using assms(1) by (simp add: stage_def)
qed

theorem zero_receipt_rejected_witness:
  "sr_amount (receipt_candidate reading_platform ''usina'' ''w'' ''s1'' open_receipt) = Some ''0''
    \<and> (\<exists>s'. handle reading_platform (handling ''e1'') DEFAULT_SOURCE_SYSTEMS True ingest_start
      (receipt_candidate reading_platform ''usina'' ''w'' ''s1'' open_receipt) = Inr s' \<and> ps_ledger s' = [])"
proof -
  have "trim ''s1'' \<noteq> []" "he_rejectId (handling ''e1'') \<noteq> []" by (code_simp, simp add: handling_def)
  from zero_receipt_rejected [OF open_receipt_built open_receipt_zero this, where known = DEFAULT_SOURCE_SYSTEMS and resolver = True and s = ingest_start]
  show ?thesis by (auto simp: refused_def ingest_start_fields)
qed

section \<open>The stored book\<close>

text \<open>
  C9. The position listing of the production store answers what the in-memory repository answers: on the tables
  of any book the use case can reach, the SQL statement with its semi-joins, grouping, conditions, order and page
  returns the same page of the same aggregates, with the same totals, for every filter but the one by outcome.
  This is a statement about books in a single currency (a position in two is listed in the greatest of them here
  and in its first one there), whose events occurred in 1970 or later, whose party identifiers are neither empty
  nor contain a comma, whose object identifiers collate as their bytes, and whose instants, like those of the
  question, are written in texts that sort as they do.
\<close>

theorem sql_positions_agree:
  assumes "reachable P st" "digests P" "readable P (period_instants opts) st" "since_epoch st" "single_currency c st"
    and "plain_parties st" "comparator (locale_compare P)" "byte_collation P st" "pq_outcome opts = None"
  shows "sql_findPositionAggregates P (tables_of P st) opts = Some (findPositionAggregates P st opts)"
  by (rule positions_sql [of P "period_instants opts" c]) (use assms stored_sound in \<open>auto simp: plain_book_def\<close>)

theorem sql_positions_agree_witness:
  "sql_findPositionAggregates stored_platform (tables_of stored_platform stored_book) stored_question
     = Some (findPositionAggregates stored_platform stored_book stored_question)"
proof (rule sql_positions_agree [where c = "''BRL''"])
  show "readable stored_platform (period_instants stored_question) stored_book"
    by (rule stored_readable) (simp add: period_instants_def stored_question_def)
  show "pq_outcome stored_question = None" by (simp add: stored_question_def)
qed (rule stored_reachable stored_book_facts)+

text \<open>
  C22. The cash of the production store is the cash of the in-memory repository: on the tables of a book the use
  case can reach, the statement of movements returns the same page and the same cursor, and the totals of cash, of
  the cash before a date and of the closures of a period are the same numbers. The book is in a single currency,
  every reason in it has a description (one without is lost when it is read back), the question has a limit of at
  least one and asks for no effect or one that moves cash, as the route makes sure, and the instants of the book
  and of the question are written in texts that sort as they do.
\<close>

theorem sql_cash_agrees:
  assumes "reachable P st" "digests P" "told_book st" "readable P (question_instants q \<union> {t0, t1}) st"
    and "cash_question q" "single_currency c st"
  shows "sql_findCashMovementsPaginated P (tables_of P st) q = Some (findCashMovementsPaginated st q)
    \<and> sql_aggregateCashFlows (tables_of P st) = aggregateCashFlows st
    \<and> sql_aggregateCashFlowsBefore P (tables_of P st) t0 = aggregateCashFlowsBefore st t0
    \<and> sql_aggregateClosureStats P (tables_of P st) t0 t1 c = aggregateClosureStats st t0 t1 c"
proof (intro conjI)
  note b = stored_sound [OF assms(1,2)]
  show "sql_findCashMovementsPaginated P (tables_of P st) q = Some (findCashMovementsPaginated st q)"
    by (rule movements_sql [OF b readable_mono [OF assms(4)] assms(5,3)]) blast
  show "sql_aggregateCashFlows (tables_of P st) = aggregateCashFlows st" by (rule flows_sql [OF b assms(6)])
  show "sql_aggregateCashFlowsBefore P (tables_of P st) t0 = aggregateCashFlowsBefore st t0"
    by (rule flows_before_sql [OF b assms(6) readable_mono [OF assms(4)]]) simp
  show "sql_aggregateClosureStats P (tables_of P st) t0 t1 c = aggregateClosureStats st t0 t1 c"
    by (rule closure_sql [OF b readable_mono [OF assms(4)]]) simp
qed

theorem sql_cash_agrees_witness:
  "sql_findCashMovementsPaginated stored_platform (tables_of stored_platform stored_book) stored_movements
     = Some (findCashMovementsPaginated stored_book stored_movements)
   \<and> sql_aggregateCashFlows (tables_of stored_platform stored_book) = aggregateCashFlows stored_book
   \<and> sql_aggregateCashFlowsBefore stored_platform (tables_of stored_platform stored_book) 1000 = aggregateCashFlowsBefore stored_book 1000
   \<and> sql_aggregateClosureStats stored_platform (tables_of stored_platform stored_book) 1000 2000 ''BRL''
       = aggregateClosureStats stored_book 1000 2000 ''BRL''"
proof (rule sql_cash_agrees)
  show "readable stored_platform (question_instants stored_movements \<union> {1000, 2000}) stored_book"
    by (rule stored_readable) (simp add: question_instants_def stored_movements_def)
  show "cash_question stored_movements" by (simp add: cash_question_def stored_movements_def)
qed (rule stored_reachable stored_book_facts)+

text \<open>
  C21. An event the use case recorded is read back from its row: the row found by its identifier gives the event
  with every field it had, except that a reason whose description is empty comes back as no reason at all.
\<close>

theorem stored_event_read_back:
  assumes "reachable P st" "digests P" "ev \<in> set st" "ordered_iso P (instants_of ev)"
  shows "sql_getById P (tables_of P st) (ev_id ev)
    = Some (ev\<lparr>ev_reason := (if told_reason ev then ev_reason ev else None)\<rparr>)"
proof -
  have "storable ev" using reachable_storable [OF assms(1,2)] assms(3) by blast
  from event_back [OF this assms(4)] show ?thesis
    using found_row [OF distinct_ids [OF reachable_each_after [OF assms(1)]] assms(3)] by simp
qed

theorem stored_event_read_back_witness:
  "sql_getById stored_platform (tables_of stored_platform stored_book) (ev_id paid)
     = Some (paid\<lparr>ev_reason := (if told_reason paid then ev_reason paid else None)\<rparr>)"
  by (rule stored_event_read_back [OF stored_reachable stored_book_facts(1)])
    (simp_all add: stored_book_def stored_instants stored_order)

section \<open>The interface of the treasury\<close>

text \<open>
  C19. Whatever requests the server of the treasury has served, a request that changes the treasury is a
  POST whose cookie names a session that has not run out and that a login with the password of its user
  opened, with no logout of it since; and that user is a finance manager. Nobody else changes anything.
\<close>

theorem writers_logged_in:
  assumes "dk_sessions D = []" "distinct (map usr_id (acc_users (su_accounts S)))"
    and "dk_treasury (fst (respond S M r (serve S reqs D))) \<noteq> dk_treasury (serve S reqs D)"
  shows "hq_method r = Post \<and> (\<exists>sid ses u. cookie_sid (su_uri S) (hq_cookie r) = Some sid
    \<and> opened_by (su_accounts S) (concat (map (session_acts S) reqs)) sid ses \<and> mo_clock M \<le> ses_expiresAt ses
    \<and> u \<in> set (acc_users (su_accounts S)) \<and> usr_id u = ses_userId ses \<and> usr_role u = FINANCE_MANAGER)"
proof -
  obtain sid ses u where u: "cookie_sid (su_uri S) (hq_cookie r) = Some sid"
      "opened_by (su_accounts S) (concat (map (session_acts S) reqs)) sid ses" "mo_clock M \<le> ses_expiresAt ses"
      "u \<in> set (acc_users (su_accounts S))" "usr_id u = ses_userId ses" and writes: "can (usr_role u) INTENT_CREATE"
    by (rule writer_logged_in [OF assms])
  have "usr_role u = FINANCE_MANAGER" using writes by (cases "usr_role u") (simp_all add: can_def)
  moreover have "hq_method r = Post" using assms(3) respond_reads by (cases "hq_method r") blast+
  ultimately show ?thesis using u by blast
qed

theorem writers_logged_in_witness:
  "\<exists>sid ses u. cookie_sid hex_uri (hq_cookie opening_request) = Some sid
    \<and> opened_by sample_accounts (concat (map (session_acts sample_desktop) [(sample_moment, login_request)])) sid ses
    \<and> u \<in> set (acc_users sample_accounts) \<and> usr_role u = FINANCE_MANAGER"
proof -
  have "opened \<noteq> empty_treasury" by (simp add: opened_def empty_treasury_def)
  then have "dk_treasury (fst (respond sample_desktop sample_moment opening_request
      (serve sample_desktop [(sample_moment, login_request)] closed_desk)))
    \<noteq> dk_treasury (serve sample_desktop [(sample_moment, login_request)] closed_desk)"
    unfolding opening_changes login_only by (simp add: closed_desk_def)
  from writers_logged_in [OF _ _ this] show ?thesis
    using seeded_ids [OF sample_seeded] by (simp add: closed_desk_def) blast
qed

text \<open>
  A user of the seed who posts the name and the password of the seed gets a cookie, and every later
  request that sends it back within the lifetime of the session is that user's, whatever other requests
  came between, as long as none of them closes the session or draws its identifier again.
\<close>

theorem cookie_identifies_user:
  assumes "seeded (su_accounts S) seeds" "(s, random) \<in> set seeds" "logs_in s r"
    and "faithful_uri (su_uri S)" "mo_ids M 0 \<noteq> []"
    and "list_all (leaves_open (mo_ids M 0) (mo_clock M + acc_ttl (su_accounts S))) (concat (map (session_acts S) reqs))"
    and "hq_cookie r' = Some (SESSION_COOKIE @ ''='' @ uri_encode (su_uri S) (mo_ids M 0))"
    and "mo_clock M' \<le> mo_clock M + acc_ttl (su_accounts S)"
  shows "\<exists>u. usr_id u = useed_id s \<and> usr_role u = useed_role s
    \<and> rly_cookie (snd (respond S M r D)) =
        Some (serializeSessionCookie (su_uri S) (mo_ids M 0) (nat_string (su_ttlSeconds S)) (su_secure S))
    \<and> requester S M' r' (serve S reqs (fst (respond S M r D))) = Some u"
proof -
  obtain u where "usr_id u = useed_id s" "usr_role u = useed_role s"
      "respond S M r D = (fst (respond S M r D), \<lparr>rly_status = 200,
         rly_cookie = Some (serializeSessionCookie (su_uri S) (mo_ids M 0) (nat_string (su_ttlSeconds S)) (su_secure S)),
         rly_payload = publicUser u\<rparr>)"
      "requester S M' r' (serve S reqs (fst (respond S M r D))) = Some u"
    by (rule login_recognised [OF assms(1-5) _ assms(7,8)]) (use assms(6) in \<open>simp add: list_all_iff\<close>)
  then show ?thesis by (metis reply.select_convs(2) snd_conv)
qed

theorem cookie_identifies_user_witness:
  "\<exists>u. usr_id u = ''ana'' \<and> requester sample_desktop sample_moment opening_request
     (serve sample_desktop [(sample_moment, sending_request)]
       (fst (respond sample_desktop sample_moment login_request closed_desk))) = Some u"
proof -
  have c: "hq_cookie opening_request = Some (SESSION_COOKIE @ ''='' @ uri_encode hex_uri ''i1'')"
    by (simp add: opening_request_def post_to_def manager_cookie_def)
  have acts: "session_acts sample_desktop (sample_moment, sending_request) = [Request 0 ''i1'']"
    using cookie_read [OF hex_uri_faithful]
    by (simp add: session_acts_def auth_acts_def is_health_def sending_request_def post_to_def manager_cookie_def cookie_sid_def)
  have "useed_id manager_seed = ''ana''" by (simp add: manager_seed_def)
  then show ?thesis
    using cookie_identifies_user [of sample_desktop "[(manager_seed, ''salt'')]" manager_seed "''salt''" login_request
        sample_moment "[(sample_moment, sending_request)]" opening_request sample_moment closed_desk]
    by (auto simp: sample_seeded login_request_logs hex_uri_faithful c acts leaves_open_def)
qed

text \<open>
  C34. When the server answers a submission, the positions an accepted candidate moves are no longer in
  the snapshot, every other position is there as before, and a refused one forgets nothing.
\<close>

theorem accepted_positions_forgotten:
  assumes "rly_payload (snd (respond S M r D)) = Submitted result"
  shows "snapshot_get (dk_snapshot (fst (respond S M r D))) k =
    (if sir_status result \<and> k \<in> set (movedBy result) then None else snapshot_get (dk_snapshot D) k)"
  using respond_forgets [of D S M r] assms by (simp add: forgets_moved_def)

theorem accepted_positions_forgotten_witness:
  "\<forall>item. snapshot_get (dk_snapshot (fst (respond sample_desktop sample_moment sending_request (filled_desk item)))) ''intent:i1'' = None
    \<and> snapshot_get (dk_snapshot (fst (respond sample_desktop sample_moment sending_request (filled_desk item)))) ''ob-1'' = Some item"
  using accepted_positions_forgotten [OF sending_accepted]
  by (simp add: sent_result_def movedBy_def accrual_candidate_def filled_desk_def snapshot_get_def)

text \<open>
  C20. Whatever the extractor proposes, a turn in free text changes no answer that was given and no party
  of the directory; it only fills slots that were blank, with answers that passed their validation.
\<close>

theorem interpretation_only_fills:
  assumes "treasury_reachable E T" "find_intent T newId = None" "interpret_utterance E X newId now i utterance u T = Inr (T', r)"
    and "find_intent T j = Some it"
  shows "tr_parties T' = tr_parties T \<and> treasury_sound E T'
    \<and> (\<exists>it'. find_intent T' j = Some it' \<and> it_scenarioId it' = it_scenarioId it \<and> it_userId it' = it_userId it
        \<and> (\<forall>key. isBlank (map_of (it_answers it) key) \<or> map_of (it_answers it') key = map_of (it_answers it) key))"
proof -
  have sound: "treasury_sound E T" by (rule reachable_sound [OF assms(1)])
  then have "ids_kept T" by (simp add: treasury_sound_def ids_kept_def)
  from interpretation_fills [OF this assms(2,3)] have "only_fills T T'" .
  moreover have "treasury_sound E T'"
    by (rule desk_step_sound [OF desk_step.interpret_text [OF assms(3)] sound])
  ultimately show ?thesis using assms(4) unfolding only_fills_def fills_def by metis
qed

theorem interpretation_only_fills_witness:
  "\<exists>T' r it'. interpret_utterance sample_treasury_env pushy ''i2'' clock (Some ''i1'') ''make it 999'' ''ana'' filled_in = Inr (T', r)
    \<and> find_intent T' ''i1'' = Some it' \<and> map_of (it_answers it') ''amount'' = Some ''100.00''"
proof -
  obtain T' r where turn: "interpret_utterance sample_treasury_env pushy ''i2'' clock (Some ''i1'') ''make it 999'' ''ana'' filled_in = Inr (T', r)"
    using pushy_answers by blast
  have "map_of (it_answers (accrual AWAITING_CONFIRMATION accrual_answers)) ''amount'' = Some ''100.00''"
    by (simp add: accrual_def accrual_answers_def)
  moreover from this have "\<not> isBlank (map_of (it_answers (accrual AWAITING_CONFIRMATION accrual_answers)) ''amount'')" by code_simp
  moreover have "find_intent filled_in ''i2'' = None" by (simp add: find_intent_def filled_in_def)
  ultimately show ?thesis
    using interpretation_only_fills [OF sample_treasury_reachable _ turn filled_in_intent] turn by metis
qed

end
